(* ===== verification/Netd_Prelude.thy ===== *)
theory Netd_Prelude
  imports Main "HOL-Library.Word" "HOL-Library.Product_Lexorder"
begin

text \<open>
  Shared vocabulary of the development.

  \<^item> machine integers: Rust's \<^verbatim>\<open>u8\<close>, \<^verbatim>\<open>u16\<close>, \<^verbatim>\<open>u32\<close>, \<^verbatim>\<open>u64\<close> are words of that width;
  \<^item> fixed byte arrays \<^verbatim>\<open>[u8; N]\<close> are represented by the word their bytes form when they are
    read big-endian, so that array equality is word equality, the zero array is the word 0,
    and (\<open>be_bytes_less_iff\<close>) Rust's lexicographic array order is the word order;
  \<^item> fallible code returns \<open>'e + 'a\<close>, \<open>Inl\<close> for Rust's \<^verbatim>\<open>Err\<close>; \<open>rbind\<close> is the \<^verbatim>\<open>?\<close> operator;
  \<^item> fallible code that mutates \<^verbatim>\<open>self\<close> is a function from the state to a result and the new
    state (\<open>('s, 'e, 'a) action\<close>), with the Hoare triples \<open>hoare P m Q E\<close> for its two outcomes.
\<close>

unbundle bit_operations_syntax

named_theorems codec_simps \<open>round-trip equations of the wire codecs\<close>
named_theorems action_simps \<open>one-step equations of the state-and-error monad\<close>
named_theorems hoare_rules \<open>introduction rules for the two-outcome Hoare triples\<close>

type_synonym u8 = "8 word"
type_synonym u16 = "16 word"
type_synonym u32 = "32 word"
type_synonym u64 = "64 word"
type_synonym u128 = "128 word"
type_synonym u256 = "256 word"
type_synonym byte = u8
type_synonym bytes = "byte list"

section \<open>Results\<close>

definition rbind :: "'e + 'a \<Rightarrow> ('a \<Rightarrow> 'e + 'b) \<Rightarrow> 'e + 'b" where
  "rbind m f = (case m of Inl e \<Rightarrow> Inl e | Inr x \<Rightarrow> f x)"

definition ensure :: "'e \<Rightarrow> bool \<Rightarrow> 'e + unit" where
  "ensure e b = (if b then Inr () else Inl e)"

definition map_err :: "('e \<Rightarrow> 'f) \<Rightarrow> 'e + 'a \<Rightarrow> 'f + 'a" where
  "map_err g m = (case m of Inl e \<Rightarrow> Inl (g e) | Inr x \<Rightarrow> Inr x)"

definition ok_or :: "'e \<Rightarrow> 'a option \<Rightarrow> 'e + 'a" where
  "ok_or e x = (case x of None \<Rightarrow> Inl e | Some v \<Rightarrow> Inr v)"

definition is_ok :: "'e + 'a \<Rightarrow> bool" where
  "is_ok m = (case m of Inl _ \<Rightarrow> False | Inr _ \<Rightarrow> True)"

lemma rbind_simps [simp]:
  "rbind (Inl e) f = Inl e" "rbind (Inr x) f = f x"
  by (simp_all add: rbind_def)

lemma rbind_eq_Inr: "rbind m f = Inr y \<longleftrightarrow> (\<exists>x. m = Inr x \<and> f x = Inr y)"
  by (cases m) auto

lemma rbind_cong [fundef_cong]:
  "m = m' \<Longrightarrow> (\<And>x. m' = Inr x \<Longrightarrow> f x = f' x) \<Longrightarrow> rbind m f = rbind m' f'"
  by (cases m') auto

lemma ensure_simps [simp]:
  "ensure e True = Inr ()" "ensure e False = Inl e"
  by (simp_all add: ensure_def)

lemma ensure_eq [simp]:
  "ensure e b = Inr u \<longleftrightarrow> b" "ensure e b = Inl e' \<longleftrightarrow> \<not> b \<and> e' = e"
  by (auto simp: ensure_def)

lemma map_err_simps [simp]:
  "map_err g (Inl e) = Inl (g e)" "map_err g (Inr x) = Inr x"
  by (simp_all add: map_err_def)

lemma map_err_eq_Inr [simp]: "map_err g m = Inr x \<longleftrightarrow> m = Inr x"
  by (cases m) auto

lemma ok_or_simps [simp]:
  "ok_or e None = Inl e" "ok_or e (Some x) = Inr x"
  by (simp_all add: ok_or_def)

lemma ok_or_eq:
  "ok_or e v = Inr x \<longleftrightarrow> v = Some x" "ok_or e v = Inl e' \<longleftrightarrow> v = None \<and> e' = e"
  by (auto simp: ok_or_def split: option.splits)

lemma is_ok_simps [simp]:
  "is_ok (Inl e) = False" "is_ok (Inr x) = True"
  by (simp_all add: is_ok_def)

lemma is_ok_iff: "is_ok m \<longleftrightarrow> (\<exists>x. m = Inr x)"
  by (cases m) auto

text \<open>Reads a chain of conditionals as the disjunction of its branches.\<close>

lemma if_eq_cases: "(if b then x else y) = z \<longleftrightarrow> b \<and> x = z \<or> \<not> b \<and> y = z"
  by simp

section \<open>Saturating and checked arithmetic\<close>

definition saturating_add :: "u64 \<Rightarrow> u64 \<Rightarrow> u64" where
  "saturating_add a b = (if a + b < a then - 1 else a + b)"

definition saturating_mul :: "u64 \<Rightarrow> u64 \<Rightarrow> u64" where
  "saturating_mul a b = (if unat a * unat b \<ge> 2 ^ 64 then - 1 else a * b)"

definition saturating_sub :: "u64 \<Rightarrow> u64 \<Rightarrow> u64" where
  "saturating_sub a b = (if a < b then 0 else a - b)"

definition checked_add :: "u64 \<Rightarrow> u64 \<Rightarrow> u64 option" where
  "checked_add a b = (if a + b < a then None else Some (a + b))"

definition checked_mul :: "u64 \<Rightarrow> u64 \<Rightarrow> u64 option" where
  "checked_mul a b = (if unat a * unat b \<ge> 2 ^ 64 then None else Some (a * b))"

definition checked_sub :: "u64 \<Rightarrow> u64 \<Rightarrow> u64 option" where
  "checked_sub a b = (if a < b then None else Some (a - b))"

text \<open>The errno of a call that lacks permission.\<close>

definition EPERM :: int where "EPERM = 1"

section \<open>Big-endian bytes\<close>

primrec be_nat :: "nat \<Rightarrow> nat \<Rightarrow> bytes" where
  "be_nat 0 v = []"
| "be_nat (Suc n) v = be_nat n (v div 256) @ [of_nat v]"

definition nat_be :: "bytes \<Rightarrow> nat" where
  "nat_be bs = foldl (\<lambda>acc b. acc * 256 + unat b) 0 bs"

definition to_be_bytes :: "nat \<Rightarrow> 'w::len word \<Rightarrow> bytes" where
  "to_be_bytes n w = be_nat n (unat w)"

definition from_be_bytes :: "bytes \<Rightarrow> 'w::len word" where
  "from_be_bytes bs = of_nat (nat_be bs)"

lemma be_nat_add: "be_nat (m + n) v = be_nat m (v div 256 ^ n) @ be_nat n v"
  by (induction n arbitrary: v) (simp_all add: div_mult2_eq)

lemma length_be_nat [simp]: "length (be_nat n v) = n"
  by (induction n arbitrary: v) auto

lemma length_to_be_bytes [simp]: "length (to_be_bytes n w) = n"
  by (simp add: to_be_bytes_def)

lemma nat_be_snoc [simp]: "nat_be (bs @ [b]) = nat_be bs * 256 + unat b"
  by (simp add: nat_be_def)

lemma nat_be_Nil [simp]: "nat_be [] = 0"
  by (simp add: nat_be_def)

lemma nat_be_bound: "nat_be bs < 256 ^ length bs"
proof (induction bs rule: rev_induct)
  case (snoc b bs)
  have "unat b < 256" using unsigned_less [of b, where 'a = nat] by simp
  with snoc show ?case by simp
qed simp

lemma nat_be_be_nat: "nat_be (be_nat n v) = v mod 256 ^ n"
proof (induction n arbitrary: v)
  case (Suc n)
  have "unat (of_nat v :: byte) = v mod 256"
    by (simp add: unat_of_nat)
  then show ?case
    by (simp add: Suc mod_mult2_eq mult.commute)
qed simp

lemma be_nat_nat_be: "be_nat (length bs) (nat_be bs) = bs"
proof (induction bs rule: rev_induct)
  case (snoc b bs)
  have "unat b < 256" using unsigned_less [of b, where 'a = nat] by simp
  moreover have "of_nat (nat_be bs * 256 + unat b) = b"
  proof -
    have zero: "(256 :: byte) = 0" by simp
    show ?thesis by (simp add: zero)
  qed
  ultimately show ?case using snoc by simp
qed simp

lemma from_to_be_bytes:
  fixes w :: "'w::len word"
  assumes "LENGTH('w) = 8 * n"
  shows "from_be_bytes (to_be_bytes n w) = w"
proof -
  have "(256::nat) ^ n = 2 ^ LENGTH('w)"
    by (simp add: assms power_mult)
  then show ?thesis
    by (simp add: from_be_bytes_def to_be_bytes_def nat_be_be_nat)
qed

lemma to_from_be_bytes:
  assumes "LENGTH('w::len) = 8 * n" and "length bs = n"
  shows "to_be_bytes n (from_be_bytes bs :: 'w word) = bs"
proof -
  have "nat_be bs < 2 ^ LENGTH('w)"
    using nat_be_bound [of bs] assms by (simp add: power_mult)
  then have "unat (from_be_bytes bs :: 'w word) = nat_be bs"
    by (simp add: from_be_bytes_def unat_of_nat)
  then show ?thesis
    using be_nat_nat_be [of bs] assms by (simp add: to_be_bytes_def)
qed

text \<open>
  The byte order of the representation: comparing two arrays lexicographically, as the derived
  Rust \<^verbatim>\<open>Ord\<close> does, is comparing the words.
\<close>

lemma lexord_snoc:
  assumes "length xs = length ys"
  shows "(xs @ [x], ys @ [y]) \<in> lexord r \<longleftrightarrow> (xs, ys) \<in> lexord r \<or> xs = ys \<and> (x, y) \<in> r"
  using assms by (induction xs ys rule: list_induct2) auto

lemma be_nat_less_iff:
  assumes "a < 256 ^ n" and "b < 256 ^ n"
  shows "(be_nat n a, be_nat n b) \<in> lexord {(x, y). x < y} \<longleftrightarrow> a < b"
  using assms
proof (induction n arbitrary: a b)
  case (Suc n)
  have div: "a div 256 < 256 ^ n" "b div 256 < 256 ^ n"
    using Suc.prems by (simp_all add: less_mult_imp_div_less mult.commute)
  have inj: "be_nat n (a div 256) = be_nat n (b div 256) \<longleftrightarrow> a div 256 = b div 256"
    by (metis nat_be_be_nat mod_less div)
  have last: "(of_nat a :: byte) < of_nat b \<longleftrightarrow> a mod 256 < b mod 256"
    by (simp add: word_less_nat_alt unat_of_nat)
  have parts: "a = 256 * (a div 256) + a mod 256" "b = 256 * (b div 256) + b mod 256"
    "a mod 256 < 256" "b mod 256 < 256"
    by simp_all
  have "a < b \<longleftrightarrow> a div 256 < b div 256 \<or> a div 256 = b div 256 \<and> a mod 256 < b mod 256"
    using parts by (cases "a div 256" "b div 256" rule: linorder_cases) linarith+
  then show ?case
    by (simp add: lexord_snoc Suc.IH [OF div] inj last)
qed simp

lemma be_bytes_less_iff:
  fixes v w :: "'w::len word"
  assumes "LENGTH('w) = 8 * n"
  shows "(to_be_bytes n v, to_be_bytes n w) \<in> lexord {(x, y). x < y} \<longleftrightarrow> v < w"
proof -
  have "unat x < 256 ^ n" for x :: "'w word"
    using unsigned_less [of x, where 'a = nat] assms by (simp add: power_mult)
  then show ?thesis
    by (simp add: to_be_bytes_def be_nat_less_iff) (simp add: word_less_nat_alt)
qed

section \<open>Actions: state passing with errors\<close>

type_synonym ('s, 'e, 'a) action = "'s \<Rightarrow> ('e + 'a) \<times> 's"

definition return :: "'a \<Rightarrow> ('s, 'e, 'a) action" where
  "return x s = (Inr x, s)"

definition throw :: "'e \<Rightarrow> ('s, 'e, 'a) action" where
  "throw e s = (Inl e, s)"

definition bind :: "('s, 'e, 'a) action \<Rightarrow> ('a \<Rightarrow> ('s, 'e, 'b) action) \<Rightarrow> ('s, 'e, 'b) action" where
  "bind m f s = (case m s of (Inl e, s') \<Rightarrow> (Inl e, s') | (Inr x, s') \<Rightarrow> f x s')"

definition andthen :: "('s, 'e, 'a) action \<Rightarrow> ('s, 'e, 'b) action \<Rightarrow> ('s, 'e, 'b) action" where
  "andthen m k = bind m (\<lambda>_. k)"

text \<open>\<open>attempt m\<close> is \<^verbatim>\<open>let result = m\<close> without the \<^verbatim>\<open>?\<close>: the error is a value.\<close>

definition attempt :: "('s, 'e, 'a) action \<Rightarrow> ('s, 'e, 'e + 'a) action" where
  "attempt m s = (case m s of (r, s') \<Rightarrow> (Inr r, s'))"

definition of_result :: "'e + 'a \<Rightarrow> ('s, 'e, 'a) action" where
  "of_result r s = (r, s)"

definition gets :: "('s \<Rightarrow> 'a) \<Rightarrow> ('s, 'e, 'a) action" where
  "gets f s = (Inr (f s), s)"

definition modify :: "('s \<Rightarrow> 's) \<Rightarrow> ('s, 'e, unit) action" where
  "modify f s = (Inr (), f s)"

definition map_error :: "('e \<Rightarrow> 'e) \<Rightarrow> ('s, 'e, 'a) action \<Rightarrow> ('s, 'e, 'a) action" where
  "map_error g m s = (case m s of (r, s') \<Rightarrow> (map_err g r, s'))"

definition when_true :: "bool \<Rightarrow> ('s, 'e, unit) action \<Rightarrow> ('s, 'e, unit) action" where
  "when_true b m = (if b then m else return ())"

lemmas action_defs = return_def throw_def bind_def andthen_def attempt_def of_result_def gets_def
  modify_def map_error_def when_true_def

lemma bind_eq:
  "bind m f s = (r, s') \<longleftrightarrow>
     (\<exists>e. m s = (Inl e, s') \<and> r = Inl e) \<or> (\<exists>x s1. m s = (Inr x, s1) \<and> f x s1 = (r, s'))"
  by (auto simp: bind_def split: prod.splits sum.splits)

lemma andthen_eq:
  "andthen m k s = (r, s') \<longleftrightarrow>
     (\<exists>e. m s = (Inl e, s') \<and> r = Inl e) \<or> (\<exists>x s1. m s = (Inr x, s1) \<and> k s1 = (r, s'))"
  by (simp add: andthen_def bind_eq)

lemma attempt_eq: "attempt m s = (r, s') \<longleftrightarrow> (\<exists>x. m s = (x, s') \<and> r = Inr x)"
  by (auto simp: attempt_def split: prod.splits)

lemmas action_split = bind_eq andthen_eq attempt_eq

subsection \<open>Two-outcome Hoare triples\<close>

definition hoare ::
    "('s \<Rightarrow> bool) \<Rightarrow> ('s, 'e, 'a) action \<Rightarrow> ('a \<Rightarrow> 's \<Rightarrow> bool) \<Rightarrow> ('e \<Rightarrow> 's \<Rightarrow> bool) \<Rightarrow> bool" where
  "hoare P m Q E \<longleftrightarrow>
     (\<forall>s. P s \<longrightarrow> (case m s of (Inr x, s') \<Rightarrow> Q x s' | (Inl e, s') \<Rightarrow> E e s'))"

lemma hoareI:
  assumes "\<And>s x s'. P s \<Longrightarrow> m s = (Inr x, s') \<Longrightarrow> Q x s'"
    and "\<And>s e s'. P s \<Longrightarrow> m s = (Inl e, s') \<Longrightarrow> E e s'"
  shows "hoare P m Q E"
  using assms by (auto simp: hoare_def split: prod.splits sum.splits)

lemma hoare_Inr: "hoare P m Q E \<Longrightarrow> P s \<Longrightarrow> m s = (Inr x, s') \<Longrightarrow> Q x s'"
  by (auto simp: hoare_def split: prod.splits sum.splits)

lemma hoare_Inl: "hoare P m Q E \<Longrightarrow> P s \<Longrightarrow> m s = (Inl e, s') \<Longrightarrow> E e s'"
  by (auto simp: hoare_def split: prod.splits sum.splits)

lemma hoare_weaken:
  assumes "hoare P m Q E"
    and "\<And>s. P' s \<Longrightarrow> P s" "\<And>x s. Q x s \<Longrightarrow> Q' x s" "\<And>e s. E e s \<Longrightarrow> E' e s"
  shows "hoare P' m Q' E'"
  using assms by (fastforce simp: hoare_def split: prod.splits sum.splits)

lemma hoare_pre: "hoare P m Q E \<Longrightarrow> (\<And>s. P' s \<Longrightarrow> P s) \<Longrightarrow> hoare P' m Q E"
  by (rule hoare_weaken)

lemma hoare_return: "(\<And>s. P s \<Longrightarrow> Q x s) \<Longrightarrow> hoare P (return x) Q E"
  by (simp add: hoare_def return_def)

lemma hoare_throw: "(\<And>s. P s \<Longrightarrow> E e s) \<Longrightarrow> hoare P (throw e) Q E"
  by (simp add: hoare_def throw_def)

lemma hoare_bind:
  assumes "hoare P m R E" and "\<And>x. hoare (R x) (f x) Q E"
  shows "hoare P (bind m f) Q E"
  using assms by (fastforce simp: hoare_def bind_def split: prod.splits sum.splits)

lemma hoare_andthen:
  assumes "hoare P m (\<lambda>_. R) E" and "hoare R k Q E"
  shows "hoare P (andthen m k) Q E"
  using assms by (auto simp: andthen_def intro: hoare_bind)

lemma hoare_attempt:
  assumes "hoare P m (\<lambda>x. Q (Inr x)) (\<lambda>e. Q (Inl e))"
  shows "hoare P (attempt m) Q E"
proof -
  have "Q r s'" if "P s" and "m s = (r, s')" for s r s'
    using hoare_Inr [OF assms that(1)] hoare_Inl [OF assms that(1)] that(2) by (cases r) auto
  then show ?thesis by (auto simp: hoare_def attempt_def split: prod.splits)
qed

lemma hoare_gets: "hoare (\<lambda>s. Q (f s) s) (gets f) Q E"
  by (simp add: hoare_def gets_def)

lemma hoare_modify: "hoare (\<lambda>s. Q () (f s)) (modify f) Q E"
  by (simp add: hoare_def modify_def)

lemma hoare_of_result:
  "hoare (\<lambda>s. case r of Inr x \<Rightarrow> Q x s | Inl e \<Rightarrow> E e s) (of_result r) Q E"
  by (auto simp: hoare_def of_result_def split: sum.splits)

lemma hoare_map_error:
  assumes "hoare P m Q (\<lambda>e. E (g e))"
  shows "hoare P (map_error g m) Q E"
proof (rule hoareI)
  fix s x s' assume "P s" "map_error g m s = (Inr x, s')"
  then show "Q x s'" using hoare_Inr [OF assms] by (auto simp: map_error_def split: prod.splits)
next
  fix s e s' assume *: "P s" "map_error g m s = (Inl e, s')"
  then obtain e' where "m s = (Inl e', s')" "e = g e'"
    by (auto simp: map_error_def map_err_def split: prod.splits sum.splits)
  then show "E e s'" using hoare_Inl [OF assms *(1)] by simp
qed

lemma hoare_if:
  assumes "b \<Longrightarrow> hoare P m Q E" and "\<not> b \<Longrightarrow> hoare P k Q E"
  shows "hoare P (if b then m else k) Q E"
  using assms by simp

lemma hoare_when:
  assumes "b \<Longrightarrow> hoare P m Q E" and "\<And>s. \<not> b \<Longrightarrow> P s \<Longrightarrow> Q () s"
  shows "hoare P (when_true b m) Q E"
  using assms by (auto simp: when_true_def intro: hoare_return)

lemma hoare_conj:
  assumes "hoare P m Q E" and "hoare P' m Q' E'"
  shows "hoare (\<lambda>s. P s \<and> P' s) m (\<lambda>x s. Q x s \<and> Q' x s) (\<lambda>e s. E e s \<and> E' e s)"
  using assms by (auto simp: hoare_def split: prod.splits sum.splits)

lemma hoare_True [simp]: "hoare P m (\<lambda>_ _. True) (\<lambda>_ _. True)"
  by (auto simp: hoare_def split: prod.splits sum.splits)

end
