(* ===== verification/Netd_Wire.thy ===== *)
theory Netd_Wire
  imports Netd_Prelude
begin

text \<open>
  The byte level of the netd protocol (\<^verbatim>\<open>candy-netd-proto/src/lib.rs\<close>, lines 1029-1150): the
  protocol errors, the variable-length integer code, the bounds-checked \<^verbatim>\<open>Reader\<close>, and the
  contract every field codec of the protocol meets (\<open>locale codec\<close>), with the lemmas about
  sequences and counted lists of fields proved once from that contract.
\<close>

section \<open>Errors and frames\<close>

datatype netd_protocol_error =
    FrameSize
  | UnsupportedVersion
  | UnknownEnum
  | Malformed
  | TrailingBytes
  | InvalidRequest
  | InvalidOwner
  | InvalidDeclaration

definition NETD_PROTOCOL_VERSION :: u64 where "NETD_PROTOCOL_VERSION = 1"
definition MAX_NETD_FRAME_LEN :: nat where "MAX_NETD_FRAME_LEN = 2 * 1024 * 1024"
definition MAX_ROUTES :: nat where "MAX_ROUTES = 65536"
definition MAX_EXCLUSIONS :: nat where "MAX_EXCLUSIONS = 64"

definition ensure_frame :: "bytes \<Rightarrow> netd_protocol_error + unit" where
  "ensure_frame input =
     (if input = [] \<or> length input > MAX_NETD_FRAME_LEN then Inl FrameSize else Inr ())"

section \<open>Variable-length integers\<close>

function encode_varint :: "u64 \<Rightarrow> bytes" where
  "encode_varint value =
     (if value \<ge> 0x80
      then (((ucast value :: u8) AND 0x7f) OR 0x80) # encode_varint (drop_bit 7 value)
      else [ucast value])"
  by pat_completeness auto
termination
proof (relation "measure unat")
  fix v :: u64
  assume "v \<ge> 0x80"
  then have "128 \<le> unat v" by (simp add: word_le_nat_alt)
  then show "(drop_bit 7 v, v) \<in> measure unat"
    by (simp add: drop_bit_eq_div unat_div)
qed simp

declare encode_varint.simps [simp del]

fun decode_varint_loop :: "nat \<Rightarrow> u64 \<Rightarrow> bytes \<Rightarrow> unit + (u64 \<times> nat)" where
  "decode_varint_loop index value [] = Inl ()"
| "decode_varint_loop index value (byte # rest) =
     (let payload = (ucast (byte AND 0x7f) :: u64) in
      if index = 9 \<and> payload > 1 then Inl ()
      else
        let value = value OR push_bit (index * 7) payload in
        if byte AND 0x80 = 0
        then (if index > 0 \<and> payload = 0 then Inl () else Inr (value, index + 1))
        else decode_varint_loop (index + 1) value rest)"

definition decode_varint :: "bytes \<Rightarrow> unit + (u64 \<times> nat)" where
  "decode_varint input = decode_varint_loop 0 0 (take 10 input)"

subsection \<open>The code is a bijection between values and its byte strings\<close>

lemma encode_varint_small: "value < 0x80 \<Longrightarrow> encode_varint value = [ucast value]"
  by (subst encode_varint.simps) (simp add: not_le [symmetric])

lemma encode_varint_large:
  "0x80 \<le> value \<Longrightarrow>
   encode_varint value =
     (((ucast value :: u8) AND 0x7f) OR 0x80) # encode_varint (drop_bit 7 value)"
  by (subst encode_varint.simps) simp

lemma bit_7f: "bit (0x7f :: int) n \<longleftrightarrow> n < 7"
proof -
  have "(0x7f :: int) = mask 7" by (simp add: mask_eq_exp_minus_1)
  then show ?thesis by (simp only: bit_mask_iff) simp
qed

lemma bit_80: "bit (0x80 :: int) n \<longleftrightarrow> n = 7"
proof -
  have "(0x80 :: int) = 2 ^ 7" by simp
  then show ?thesis by (simp only: bit_exp_iff) auto
qed

lemmas varint_bits = bit_7f bit_80 bit_and_iff bit_or_iff bit_push_bit_iff bit_drop_bit_eq
  bit_unsigned_iff

lemma group_payload [simp]:
  "(ucast ((((ucast v :: u8) AND 0x7f) OR 0x80) AND 0x7f) :: u64) = v AND 0x7f"
  by (rule bit_eqI) (auto simp: varint_bits)

lemma group_continues [simp]: "(((ucast (v :: u64) :: u8) AND 0x7f) OR 0x80) AND 0x80 \<noteq> 0"
proof
  assume "(((ucast v :: u8) AND 0x7f) OR 0x80) AND 0x80 = 0"
  then have "bit ((((ucast v :: u8) AND 0x7f) OR 0x80) AND 0x80) 7 = False" by simp
  then show False by (simp add: varint_bits)
qed

lemma split_group: "(v AND 0x7f) OR push_bit 7 (drop_bit 7 v) = (v :: u64)"
proof (rule bit_eqI)
  fix n
  assume "possible_bit TYPE(64 word) n"
  then show "bit ((v AND 0x7f) OR push_bit 7 (drop_bit 7 v)) n = bit v n"
    by (cases "n < 7") (auto simp: varint_bits)
qed

lemma push_group:
  "(push_bit n (v AND 0x7f) :: u64) OR push_bit (n + 7) (drop_bit 7 v) = push_bit n v"
proof -
  have "push_bit n v = push_bit n ((v AND 0x7f) OR push_bit 7 (drop_bit 7 v))"
    by (simp only: split_group)
  then show ?thesis by (simp add: push_bit_or)
qed

lemma drop_group_bound:
  assumes "unat (v :: u64) < 2 ^ (64 - 7 * i)" and "0x80 \<le> v" and "i \<le> 9"
  shows "i < 9" "unat (drop_bit 7 v) < 2 ^ (64 - 7 * Suc i)" "drop_bit 7 v \<noteq> 0"
proof -
  have v: "128 \<le> unat v" using assms(2) by (simp add: word_le_nat_alt)
  show "i < 9"
  proof (rule ccontr)
    assume "\<not> i < 9"
    then have "i = 9" using assms(3) by simp
    with assms(1) v show False by simp
  qed
  then have "64 - 7 * i = 7 + (64 - 7 * Suc i)" by simp
  then have "(2::nat) ^ (64 - 7 * i) = 128 * 2 ^ (64 - 7 * Suc i)"
    by (simp only: power_add) simp
  then show "unat (drop_bit 7 v) < 2 ^ (64 - 7 * Suc i)"
    using assms(1) by (simp add: drop_bit_eq_div unat_div less_mult_imp_div_less mult.commute)
  have "unat (drop_bit 7 v) \<noteq> 0" using v by (simp add: drop_bit_eq_div unat_div)
  then show "drop_bit 7 v \<noteq> 0" by (metis unat_0)
qed

lemma bit_bound:
  fixes v :: "'a::len word"
  assumes "bit v n" and "unat v < 2 ^ k"
  shows "n < k"
proof -
  have "take_bit k v = v"
    using assms(2) by (simp add: word_unat_eq_iff unsigned_take_bit_eq take_bit_nat_eq_self)
  then show ?thesis using assms(1) by (metis bit_take_bit_iff)
qed

lemma small_group:
  assumes "(v :: u64) < 0x80"
  shows "(ucast ((ucast v :: u8) AND 0x7f) :: u64) = v" "(ucast v :: u8) AND 0x80 = 0"
proof -
  have hi: "n < 7" if "bit v n" for n
    using bit_bound [OF that, of 7] assms by (simp add: word_less_nat_alt)
  show "(ucast ((ucast v :: u8) AND 0x7f) :: u64) = v"
    by (rule bit_eqI) (auto simp: varint_bits dest: hi)
  show "(ucast v :: u8) AND 0x80 = 0"
    by (rule bit_eqI) (auto simp: varint_bits dest: hi)
qed

lemma decode_varint_loop_encode:
  assumes "unat v < 2 ^ (64 - 7 * i)" and "i \<le> 9" and "0 < i \<Longrightarrow> v \<noteq> 0"
  shows "decode_varint_loop i acc (take (10 - i) (encode_varint v @ rest)) =
           Inr (acc OR push_bit (i * 7) v, i + length (encode_varint v))"
  using assms
proof (induction v arbitrary: i acc rule: encode_varint.induct)
  case (1 v)
  have take: "take (10 - i) (b # bs) = b # take (10 - Suc i) bs" for b and bs :: bytes
    using "1.prems"(2) by (simp add: Suc_diff_le take_Cons')
  show ?case
  proof (cases "0x80 \<le> v")
    case True
    note b = drop_group_bound [OF "1.prems"(1) True "1.prems"(2)]
    have "decode_varint_loop (Suc i) (acc OR push_bit (i * 7) (v AND 0x7f))
            (take (10 - Suc i) (encode_varint (drop_bit 7 v) @ rest)) =
          Inr ((acc OR push_bit (i * 7) (v AND 0x7f)) OR push_bit (Suc i * 7) (drop_bit 7 v),
            Suc i + length (encode_varint (drop_bit 7 v)))"
      using "1.IH" [OF True b(2)] b(1,3) by simp
    moreover have "push_bit (i * 7) (v AND 0x7f) OR push_bit (Suc i * 7) (drop_bit 7 v) =
        push_bit (i * 7) v"
      using push_group [of "i * 7" v] by (simp add: add.commute)
    ultimately show ?thesis
      using b(1) by (simp add: encode_varint_large [OF True] take Let_def or.assoc)
  next
    case False
    then have small: "v < 0x80" by simp
    have "\<not> 1 < v" if "i = 9"
      using "1.prems"(1) that by (simp add: word_less_nat_alt)
    then show ?thesis
      using "1.prems"(3) by (auto simp: encode_varint_small [OF small] take Let_def small_group [OF small])
  qed
qed

theorem decode_varint_encode [codec_simps]:
  "decode_varint (encode_varint v @ rest) = Inr (v, length (encode_varint v))"
  using decode_varint_loop_encode [of v 0 0 rest] unsigned_less [of v, where 'a = nat]
  by (simp add: decode_varint_def)

lemma continuation_bit: "(b :: u8) AND 0x80 = 0 \<longleftrightarrow> \<not> bit b 7"
proof
  assume "b AND 0x80 = 0"
  then have "\<not> bit (b AND 0x80) 7" by simp
  then show "\<not> bit b 7" by (simp add: varint_bits)
next
  assume "\<not> bit b 7"
  then show "b AND 0x80 = 0" by (intro bit_eqI) (auto simp: varint_bits)
qed

lemma join_group:
  fixes b :: u8 and v' :: u64
  defines "v \<equiv> ucast (b AND 0x7f) OR push_bit 7 v'"
  assumes v': "unat v' < 2 ^ (64 - 7 * Suc i)" "v' \<noteq> 0" and i: "i < 9" and b: "b AND 0x80 \<noteq> 0"
  shows "drop_bit 7 v = v'" "(((ucast v :: u8) AND 0x7f) OR 0x80) = b" "0x80 \<le> v"
    "unat v < 2 ^ (64 - 7 * i)"
    "push_bit (i * 7) (ucast (b AND 0x7f)) OR push_bit (Suc i * 7) v' = push_bit (i * 7) v"
proof -
  have "(2::nat) ^ (64 - 7 * Suc i) \<le> 2 ^ 57" by (intro power_increasing) auto
  with v' have hi: "n < 57" if "bit v' n" for n
    using bit_bound [OF that, of 57] by simp
  show drop: "drop_bit 7 v = v'"
    unfolding v_def by (rule bit_eqI) (auto simp: varint_bits dest: hi)
  have bit7: "bit b 7" using b by (simp add: continuation_bit)
  show "(((ucast v :: u8) AND 0x7f) OR 0x80) = b"
  proof (rule bit_eqI)
    fix n assume "possible_bit TYPE(8 word) n"
    then show "bit (((ucast v :: u8) AND 0x7f) OR 0x80) n = bit b n"
      unfolding v_def using bit7 by (cases "n = 7") (auto simp: varint_bits)
  qed
  have div: "unat v div 128 = unat v'"
    using drop by (auto simp: drop_bit_eq_div unat_div)
  show "0x80 \<le> v"
    using div v'(2) by (auto simp: word_le_nat_alt unat_eq_zero intro!: leI)
  have "64 - 7 * i = 7 + (64 - 7 * Suc i)" using i by simp
  then have "(2::nat) ^ (64 - 7 * i) = 128 * 2 ^ (64 - 7 * Suc i)"
    by (simp only: power_add) simp
  then show "unat v < 2 ^ (64 - 7 * i)"
    using div v'(1) by (metis div_less_iff_less_mult mult.commute zero_less_numeral)
  show "push_bit (i * 7) (ucast (b AND 0x7f)) OR push_bit (Suc i * 7) v' = push_bit (i * 7) v"
    unfolding v_def by (simp add: push_bit_or add.commute)
qed

lemma last_group:
  fixes b :: u8
  assumes "b AND 0x80 = 0"
  shows "encode_varint (ucast (b AND 0x7f)) = [b]" "unat (ucast (b AND 0x7f) :: u64) < 128"
proof -
  have b: "b AND 0x7f = b"
  proof (rule bit_eqI)
    fix n assume "possible_bit TYPE(8 word) n"
    then show "bit (b AND 0x7f) n = bit b n"
      using assms by (cases "n = 7") (auto simp: varint_bits continuation_bit)
  qed
  have "unat (b AND 0x7f) \<le> unat (0x7f :: u8)"
    using word_and_le1 [of b "0x7f"] by (simp add: word_le_nat_alt)
  then show small: "unat (ucast (b AND 0x7f) :: u64) < 128"
    by (simp add: unsigned_ucast_eq take_bit_nat_eq_self)
  then have "(ucast (b AND 0x7f) :: u64) < 0x80" by (simp add: word_less_nat_alt)
  then show "encode_varint (ucast (b AND 0x7f)) = [b]"
    by (simp add: encode_varint_small b) (rule bit_eqI, auto simp: varint_bits)
qed

lemma decode_varint_loop_canonical:
  assumes "decode_varint_loop i acc bs = Inr (w, used)" and "i \<le> 9" and "length bs \<le> 10 - i"
  shows "\<exists>v rest. bs = encode_varint v @ rest \<and> w = acc OR push_bit (i * 7) v \<and>
           used = i + length (encode_varint v) \<and> unat v < 2 ^ (64 - 7 * i) \<and> (0 < i \<longrightarrow> v \<noteq> 0)"
  using assms
proof (induction bs arbitrary: i acc)
  case (Cons b bs)
  let ?p = "ucast (b AND 0x7f) :: u64"
  show ?case
  proof (cases "b AND 0x80 = 0")
    case True
    have "unat ?p < 2 ^ (64 - 7 * i)"
    proof (cases "i = 9")
      case True
      with Cons.prems(1) have "\<not> 1 < ?p" by (auto simp: Let_def split: if_splits)
      then show ?thesis using True by (simp add: word_less_nat_alt)
    next
      case False
      then have "(2::nat) ^ 7 \<le> 2 ^ (64 - 7 * i)"
        using Cons.prems(2) by (intro power_increasing) auto
      then show ?thesis using last_group(2) [OF True] by simp
    qed
    moreover have "w = acc OR push_bit (i * 7) ?p" "used = i + 1" "0 < i \<longrightarrow> ?p \<noteq> 0"
      using Cons.prems(1) True by (auto simp: Let_def split: if_splits)
    ultimately show ?thesis
      using last_group(1) [OF True]
      by (intro exI [of _ ?p] exI [of _ bs]) simp
  next
    case False
    then have step: "decode_varint_loop (Suc i) (acc OR push_bit (i * 7) ?p) bs = Inr (w, used)"
      using Cons.prems(1) by (auto simp: Let_def split: if_splits)
    have i: "i < 9"
    proof (rule ccontr)
      assume "\<not> i < 9"
      then have "bs = []" using Cons.prems(2,3) by simp
      with step show False by simp
    qed
    obtain v' rest where v': "bs = encode_varint v' @ rest"
        "w = (acc OR push_bit (i * 7) ?p) OR push_bit (Suc i * 7) v'"
        "used = Suc i + length (encode_varint v')" "unat v' < 2 ^ (64 - 7 * Suc i)" "v' \<noteq> 0"
    proof -
      have "Suc i \<le> 9" "length bs \<le> 10 - Suc i" using i Cons.prems(3) by simp_all
      from Cons.IH [OF step this] show thesis using that by blast
    qed
    define v where "v = ?p OR push_bit 7 v'"
    note j = join_group [OF v'(4,5) i False, folded v_def]
    have "encode_varint v = b # encode_varint v'"
      by (simp only: encode_varint_large [OF j(3)] j(1,2))
    then show ?thesis
      using v'(1,2,3) j(3,4,5) by (intro exI [of _ v] exI [of _ rest]) (auto simp: or.assoc)
  qed
qed simp

theorem decode_varint_canonical:
  assumes "decode_varint bs = Inr (v, used)"
  shows "\<exists>rest. bs = encode_varint v @ rest \<and> used = length (encode_varint v)"
proof -
  obtain rest where "take 10 bs = encode_varint v @ rest" "used = length (encode_varint v)"
    using decode_varint_loop_canonical [of 0 0 "take 10 bs" v used] assms
    by (auto simp: decode_varint_def)
  then show ?thesis by (metis append_assoc append_take_drop_id)
qed

lemma length_encode_varint: "0 < length (encode_varint v)" "length (encode_varint v) \<le> 10"
proof -
  show "0 < length (encode_varint v)" by (subst encode_varint.simps) simp
  have "length (encode_varint v) \<le> 10 - i" if "unat v < 2 ^ (64 - 7 * i)" "i \<le> 9" for i
    using that
  proof (induction v arbitrary: i rule: encode_varint.induct)
    case (1 v)
    show ?case
    proof (cases "0x80 \<le> v")
      case True
      note b = drop_group_bound [OF "1.prems"(1) True "1.prems"(2)]
      then show ?thesis using "1.IH" [OF True b(2)] by (simp add: encode_varint_large [OF True])
    next
      case False
      then show ?thesis using "1.prems"(2) by (simp add: encode_varint_small)
    qed
  qed
  from this [of 0] show "length (encode_varint v) \<le> 10"
    using unsigned_less [of v, where 'a = nat] by simp
qed

section \<open>The reader\<close>

text \<open>
  A \<^verbatim>\<open>Reader\<close> is the input slice and the offset of the next unread byte. \<open>usize\<close> is 64 bits
  wide, so that the \<^verbatim>\<open>usize::try_from\<close> of a \<^verbatim>\<open>u64\<close> cannot fail, and an offset never passes the
  length of a slice in memory, so that \<^verbatim>\<open>checked_add\<close> cannot overflow.
\<close>

record reader =
  input :: bytes
  offset :: nat

type_synonym 'a parser = "reader \<Rightarrow> netd_protocol_error + ('a \<times> reader)"

definition new_reader :: "bytes \<Rightarrow> reader" where
  "new_reader bs = \<lparr>input = bs, offset = 0\<rparr>"

definition pbind :: "'a parser \<Rightarrow> ('a \<Rightarrow> 'b parser) \<Rightarrow> 'b parser" where
  "pbind p f r = rbind (p r) (\<lambda>(x, r'). f x r')"

definition preturn :: "'a \<Rightarrow> 'a parser" where
  "preturn x r = Inr (x, r)"

definition plift :: "netd_protocol_error + 'a \<Rightarrow> 'a parser" where
  "plift m r = rbind m (\<lambda>x. Inr (x, r))"

definition read_varint :: "u64 parser" where
  "read_varint r =
     (case decode_varint (drop (offset r) (input r)) of
        Inl _ \<Rightarrow> Inl Malformed
      | Inr (value, used) \<Rightarrow> Inr (value, r\<lparr>offset := offset r + used\<rparr>))"

definition read_fixed :: "nat \<Rightarrow> bytes parser" where
  "read_fixed n r =
     (let end' = offset r + n in
      if end' \<le> length (input r)
      then Inr (take n (drop (offset r) (input r)), r\<lparr>offset := end'\<rparr>)
      else Inl Malformed)"

definition read_array4 :: "u32 parser" where
  "read_array4 = pbind (read_fixed 4) (\<lambda>bs. preturn (from_be_bytes bs))"

definition read_array16 :: "u128 parser" where
  "read_array16 = pbind (read_fixed 16) (\<lambda>bs. preturn (from_be_bytes bs))"

definition read_count :: "nat \<Rightarrow> nat \<Rightarrow> nat parser" where
  "read_count lo hi =
     pbind read_varint (\<lambda>value.
       if lo \<le> unat value \<and> unat value \<le> hi then preturn (unat value)
       else plift (Inl InvalidDeclaration))"

definition read_boolean :: "bool parser" where
  "read_boolean =
     pbind read_varint (\<lambda>value.
       if value = 0 then preturn False
       else if value = 1 then preturn True
       else plift (Inl Malformed))"

definition finish :: "reader \<Rightarrow> netd_protocol_error + unit" where
  "finish r = (if offset r = length (input r) then Inr () else Inl TrailingBytes)"

text \<open>\<^verbatim>\<open>for _ in 0..n { out.push(p()?) }\<close>\<close>

primrec read_times :: "nat \<Rightarrow> 'a parser \<Rightarrow> 'a list parser" where
  "read_times 0 p = preturn []"
| "read_times (Suc n) p = pbind p (\<lambda>x. pbind (read_times n p) (\<lambda>xs. preturn (x # xs)))"

lemma pbind_eq_Inr:
  "pbind p f r = Inr y \<longleftrightarrow> (\<exists>x r'. p r = Inr (x, r') \<and> f x r' = Inr y)"
  by (auto simp: pbind_def rbind_eq_Inr)

lemma preturn_simp [simp]: "preturn x r = Inr (x, r)"
  by (simp add: preturn_def)

lemma plift_simps [simp]: "plift (Inl e) r = Inl e" "plift (Inr x) r = Inr (x, r)"
  by (simp_all add: plift_def)

lemma pbind_Inr [simp]: "p r = Inr (x, r') \<Longrightarrow> pbind p f r = f x r'"
  by (simp add: pbind_def)

text \<open>
  \<open>at before after\<close> is the reader that has consumed \<open>before\<close> and has \<open>after\<close> left; every reader
  whose offset is inside its input is of this form.
\<close>

definition at :: "bytes \<Rightarrow> bytes \<Rightarrow> reader" where
  "at before after = \<lparr>input = before @ after, offset = length before\<rparr>"

lemma new_reader_at: "new_reader bs = at [] bs"
  by (simp add: new_reader_def at_def)

lemma finish_at [simp]:
  "finish (at before []) = Inr ()" "finish (at before (b # bs)) = Inl TrailingBytes"
  "finish (at before bs) = Inr u \<longleftrightarrow> bs = []"
  by (auto simp: finish_def at_def)

section \<open>The codec contract\<close>

text \<open>
  A codec for values satisfying \<open>ok\<close>: decoding what was encoded gives the value back and leaves
  the reader right behind it, and whatever decodes was encoded from an \<open>ok\<close> value by exactly
  these bytes. The second law makes the wire format canonical.
\<close>

locale codec =
  fixes enc :: "'a \<Rightarrow> bytes"
    and dec :: "'a parser"
    and ok :: "'a \<Rightarrow> bool"
  assumes dec_enc: "ok x \<Longrightarrow> dec (at before (enc x @ rest)) = Inr (x, at (before @ enc x) rest)"
    and enc_dec: "dec (at before bs) = Inr (x, r) \<Longrightarrow>
        ok x \<and> (\<exists>rest. bs = enc x @ rest \<and> r = at (before @ enc x) rest)"
begin

lemma dec_times_enc:
  "list_all ok xs \<Longrightarrow>
   read_times (length xs) dec (at before (concat (map enc xs) @ rest)) =
     Inr (xs, at (before @ concat (map enc xs)) rest)"
proof (induction xs arbitrary: before)
  case (Cons x xs)
  then have "dec (at before (enc x @ concat (map enc xs) @ rest)) =
      Inr (x, at (before @ enc x) (concat (map enc xs) @ rest))"
    by (simp add: dec_enc)
  with Cons show ?case by simp
qed simp

lemma enc_times_dec:
  "read_times n dec (at before bs) = Inr (xs, r) \<Longrightarrow>
   list_all ok xs \<and> length xs = n \<and>
   (\<exists>rest. bs = concat (map enc xs) @ rest \<and> r = at (before @ concat (map enc xs)) rest)"
proof (induction n arbitrary: before bs xs)
  case (Suc n)
  then obtain x r1 ys where x: "dec (at before bs) = Inr (x, r1)"
      and ys: "read_times n dec r1 = Inr (ys, r)" and xs: "xs = x # ys"
    by (auto simp: pbind_eq_Inr)
  obtain rest where "ok x" "bs = enc x @ rest" "r1 = at (before @ enc x) rest"
    using enc_dec [OF x] by blast
  with Suc.IH [of "before @ enc x" rest ys] ys xs show ?case by auto
qed simp

lemma pbind_dec:
  assumes "pbind dec f (at before bs) = Inr y"
  shows "\<exists>x rest. ok x \<and> bs = enc x @ rest \<and> f x (at (before @ enc x) rest) = Inr y"
  using assms enc_dec unfolding pbind_eq_Inr by blast

lemma pbind_times_dec:
  assumes "pbind (read_times n dec) f (at before bs) = Inr y"
  shows "\<exists>xs rest. list_all ok xs \<and> length xs = n \<and> bs = concat (map enc xs) @ rest \<and>
    f xs (at (before @ concat (map enc xs)) rest) = Inr y"
  using assms enc_times_dec unfolding pbind_eq_Inr by blast

lemma enc_inj: "ok x \<Longrightarrow> ok y \<Longrightarrow> enc x = enc y \<Longrightarrow> x = y"
  using dec_enc [of x "[]" "[]"] dec_enc [of y "[]" "[]"] by simp

end

interpretation varint: codec encode_varint read_varint "\<lambda>_. True"
proof
  fix x before rest
  show "read_varint (at before (encode_varint x @ rest)) =
      Inr (x, at (before @ encode_varint x) rest)"
    by (simp add: read_varint_def at_def decode_varint_encode)
next
  fix before bs x r
  assume "read_varint (at before bs) = Inr (x, r)"
  then obtain used where d: "decode_varint bs = Inr (x, used)"
      and r: "r = \<lparr>input = before @ bs, offset = length before + used\<rparr>"
    by (auto simp: read_varint_def at_def split: sum.splits)
  obtain rest where "bs = encode_varint x @ rest" "used = length (encode_varint x)"
    using decode_varint_canonical [OF d] by blast
  with r show "True \<and> (\<exists>rest. bs = encode_varint x @ rest \<and> r = at (before @ encode_varint x) rest)"
    by (auto simp: at_def)
qed

lemma read_fixed_at:
  "read_fixed n (at before bs) =
     (if n \<le> length bs then Inr (take n bs, at (before @ take n bs) (drop n bs)) else Inl Malformed)"
  by (simp add: read_fixed_def at_def Let_def min_def)

interpretation array4: codec "to_be_bytes 4" read_array4 "\<lambda>_. True"
proof
  fix x :: u32 and before rest
  show "read_array4 (at before (to_be_bytes 4 x @ rest)) =
      Inr (x, at (before @ to_be_bytes 4 x) rest)"
    by (simp add: read_array4_def read_fixed_at pbind_def from_to_be_bytes)
next
  fix before bs and x :: u32 and r
  assume "read_array4 (at before bs) = Inr (x, r)"
  then show "True \<and> (\<exists>rest. bs = to_be_bytes 4 x @ rest \<and> r = at (before @ to_be_bytes 4 x) rest)"
    by (auto simp: read_array4_def read_fixed_at pbind_eq_Inr to_from_be_bytes split: if_splits
        intro!: exI [of _ "drop 4 bs"])
qed

interpretation array16: codec "to_be_bytes 16" read_array16 "\<lambda>_. True"
proof
  fix x :: u128 and before rest
  show "read_array16 (at before (to_be_bytes 16 x @ rest)) =
      Inr (x, at (before @ to_be_bytes 16 x) rest)"
    by (simp add: read_array16_def read_fixed_at pbind_def from_to_be_bytes)
next
  fix before bs and x :: u128 and r
  assume "read_array16 (at before bs) = Inr (x, r)"
  then show "True \<and> (\<exists>rest. bs = to_be_bytes 16 x @ rest \<and> r = at (before @ to_be_bytes 16 x) rest)"
    by (auto simp: read_array16_def read_fixed_at pbind_eq_Inr to_from_be_bytes split: if_splits
        intro!: exI [of _ "drop 16 bs"])
qed

definition encode_bool :: "bool \<Rightarrow> bytes" where
  "encode_bool b = encode_varint (of_bool b)"

interpretation boolean: codec encode_bool read_boolean "\<lambda>_. True"
proof
  fix x before rest
  show "read_boolean (at before (encode_bool x @ rest)) =
      Inr (x, at (before @ encode_bool x) rest)"
    by (simp add: read_boolean_def encode_bool_def varint.dec_enc)
next
  fix before bs x r
  assume "read_boolean (at before bs) = Inr (x, r)"
  then obtain v r' where "read_varint (at before bs) = Inr (v, r')" "v = of_bool x" "r' = r"
    by (auto simp: read_boolean_def pbind_eq_Inr split: if_splits)
  then show "True \<and> (\<exists>rest. bs = encode_bool x @ rest \<and> r = at (before @ encode_bool x) rest)"
    using varint.enc_dec by (auto simp: encode_bool_def)
qed

lemmas [codec_simps] = varint.dec_enc array4.dec_enc array16.dec_enc boolean.dec_enc

text \<open>A length-prefixed list: the count as a varint, then the elements.\<close>

lemma read_count_at:
  assumes "lo \<le> n" "n \<le> hi" "hi < 2 ^ 64"
  shows "read_count lo hi (at before (encode_varint (of_nat n) @ rest)) =
           Inr (n, at (before @ encode_varint (of_nat n)) rest)"
  using assms by (simp add: read_count_def codec_simps unat_of_nat)

lemma pbind_read_count:
  assumes "pbind (read_count lo hi) f (at before bs) = Inr y"
  shows "\<exists>n rest. lo \<le> n \<and> n \<le> hi \<and> bs = encode_varint (of_nat n) @ rest \<and>
    f n (at (before @ encode_varint (of_nat n)) rest) = Inr y"
proof -
  obtain v r where v: "read_varint (at before bs) = Inr (v, r)" "lo \<le> unat v" "unat v \<le> hi"
      "f (unat v) r = Inr y"
    using assms by (auto simp: read_count_def pbind_eq_Inr split: if_splits)
  with varint.enc_dec [OF v(1)] show ?thesis by (intro exI [of _ "unat v"]) auto
qed

lemma pbind_plift: "pbind (plift m) f r = Inr y \<longleftrightarrow> (\<exists>x. m = Inr x \<and> f x r = Inr y)"
  by (cases m) (auto simp: pbind_def)

lemmas basic_decodes = varint.pbind_dec array4.pbind_dec array16.pbind_dec boolean.pbind_dec
  pbind_read_count

section \<open>Properties\<close>

text \<open>
  The integer code is canonical: a byte string is accepted with value \<open>v\<close> and \<open>used\<close> bytes
  consumed exactly when it starts with the one encoding of \<open>v\<close>, which has \<open>used\<close> bytes, between 1
  and 10. Overlong forms, truncations and values above 64 bits are all rejected.
\<close>

theorem varint_canonical:
  "decode_varint bs = Inr (v, used) \<longleftrightarrow>
     (\<exists>rest. bs = encode_varint v @ rest) \<and> used = length (encode_varint v)
     \<and> 1 \<le> used \<and> used \<le> 10"
  using decode_varint_canonical [of bs v used] decode_varint_encode [of v] length_encode_varint [of v]
  by (auto simp: Suc_le_eq)

end
