(* ===== verification/Netd_Declaration.thy ===== *)
theory Netd_Declaration
  imports Netd_Wire
begin

text \<open>
  Network declarations (\<^verbatim>\<open>candy-netd-proto/src/lib.rs\<close>, lines 8-230 and 421-488): IPv4 prefixes,
  routes, underlay exclusions, the firewall policy, \<^verbatim>\<open>PrepareDeclaration::validate\<close> with its
  sweep-line overlap check, and the declaration codec. The overlap check is proved equivalent to
  the pairwise statement about address sets, and a validated declaration is proved to steer
  disjoint address sets that avoid every underlay exclusion and the overlay router itself.
\<close>

definition CANDY_TABLE_MIN :: u32 where "CANDY_TABLE_MIN = 20000"
definition CANDY_TABLE_MAX :: u32 where "CANDY_TABLE_MAX = 20999"

section \<open>Prefixes\<close>

datatype ipv4_prefix = Ipv4Prefix (network: u32) (prefix_len: u8)

text \<open>
  \<^verbatim>\<open>u32::MAX << (32 - value)\<close>: for a length above 32 the subtraction wraps and the shift amount
  is taken modulo 32, as in a release build; \<^verbatim>\<open>Ipv4Prefix::new\<close> rejects such lengths.
\<close>

definition prefix_mask :: "u8 \<Rightarrow> u32" where
  "prefix_mask plen =
     (if plen = 0 then 0
      else if plen = 32 then - 1
      else push_bit (unat ((32 - plen) AND 31)) (- 1))"

definition new_prefix :: "u32 \<Rightarrow> u8 \<Rightarrow> netd_protocol_error + ipv4_prefix" where
  "new_prefix net plen =
     (if plen > 32 then Inl InvalidDeclaration
      else if net AND NOT (prefix_mask plen) \<noteq> 0 then Inl InvalidDeclaration
      else Inr (Ipv4Prefix net plen))"

definition contains :: "ipv4_prefix \<Rightarrow> u32 \<Rightarrow> bool" where
  "contains p address = (address AND prefix_mask (prefix_len p) = network p)"

definition overlaps :: "ipv4_prefix \<Rightarrow> ipv4_prefix \<Rightarrow> bool" where
  "overlaps p q = (contains p (network q) \<or> contains q (network p))"

instantiation ipv4_prefix :: linorder
begin

definition less_eq_ipv4_prefix :: "ipv4_prefix \<Rightarrow> ipv4_prefix \<Rightarrow> bool" where
  "p \<le> q \<longleftrightarrow> (network p, prefix_len p) \<le> (network q, prefix_len q)"

definition less_ipv4_prefix :: "ipv4_prefix \<Rightarrow> ipv4_prefix \<Rightarrow> bool" where
  "p < q \<longleftrightarrow> (network p, prefix_len p) < (network q, prefix_len q)"

instance
  by standard
    (auto simp: less_eq_ipv4_prefix_def less_ipv4_prefix_def ipv4_prefix.expand less_le_not_le)

end

definition prefix_ok :: "ipv4_prefix \<Rightarrow> bool" where
  "prefix_ok p \<longleftrightarrow> new_prefix (network p) (prefix_len p) = Inr p"

section \<open>Declarations\<close>

datatype route_kind = Local | Remote | RemoteEgress | RemoteEgressGateway

fun route_kind_tag :: "route_kind \<Rightarrow> u64" where
  "route_kind_tag Local = 1"
| "route_kind_tag Remote = 2"
| "route_kind_tag RemoteEgress = 3"
| "route_kind_tag RemoteEgressGateway = 4"

definition route_kind_of :: "u64 \<Rightarrow> netd_protocol_error + route_kind" where
  "route_kind_of v =
     (if v = 1 then Inr Local
      else if v = 2 then Inr Remote
      else if v = 3 then Inr RemoteEgress
      else if v = 4 then Inr RemoteEgressGateway
      else Inl UnknownEnum)"

datatype underlay_kind = CloudApi | HubEndpoint | Management

fun underlay_kind_tag :: "underlay_kind \<Rightarrow> u64" where
  "underlay_kind_tag CloudApi = 1"
| "underlay_kind_tag HubEndpoint = 2"
| "underlay_kind_tag Management = 3"

definition underlay_kind_of :: "u64 \<Rightarrow> netd_protocol_error + underlay_kind" where
  "underlay_kind_of v =
     (if v = 1 then Inr CloudApi
      else if v = 2 then Inr HubEndpoint
      else if v = 3 then Inr Management
      else Inl UnknownEnum)"

record route_declaration =
  route_prefix :: ipv4_prefix
  route_kind :: route_kind

record underlay_exclusion =
  exclusion_prefix :: ipv4_prefix
  exclusion_kind :: underlay_kind

record firewall_policy =
  allow_forward :: bool
  clamp_tcp_mss :: bool
  require_ipv4_forwarding :: bool
  manage_rp_filter :: bool

record prepare_declaration =
  table_id :: u32
  overlay_router_ipv4 :: u32
  effective_mtu :: u16
  routes :: "route_declaration list"
  exclusions :: "underlay_exclusion list"
  firewall :: firewall_policy

definition scoped_to_prefixes :: "prepare_declaration \<Rightarrow> ipv4_prefix list \<Rightarrow> prepare_declaration" where
  "scoped_to_prefixes d prefixes =
     d\<lparr>routes := filter (\<lambda>r. route_prefix r \<in> set prefixes) (routes d),
       exclusions := filter (\<lambda>x. exclusion_prefix x \<in> set prefixes) (exclusions d)\<rparr>"

definition strictly_sorted_by :: "'a list \<Rightarrow> ('a \<Rightarrow> 'k::linorder) \<Rightarrow> bool" where
  "strictly_sorted_by xs key = successively (\<lambda>x y. key x < key y) xs"

definition prefix_range :: "ipv4_prefix \<Rightarrow> u32 \<times> u32" where
  "prefix_range p = (network p, network p OR NOT (prefix_mask (prefix_len p)))"

fun overlap_scan :: "u32 option \<Rightarrow> (u32 \<times> u32) list \<Rightarrow> bool" where
  "overlap_scan furthest_end [] = False"
| "overlap_scan furthest_end ((start, stop) # ranges) =
     (if (case furthest_end of None \<Rightarrow> False | Some previous_end \<Rightarrow> start \<le> previous_end)
      then True
      else overlap_scan (Some stop) ranges)"

definition has_prefix_overlap :: "ipv4_prefix list \<Rightarrow> bool" where
  "has_prefix_overlap prefixes = overlap_scan None (sort (map prefix_range prefixes))"

text \<open>The first byte of a big-endian \<^verbatim>\<open>[u8; 4]\<close>.\<close>

definition first_octet :: "u32 \<Rightarrow> u8" where
  "first_octet a = ucast (drop_bit 24 a)"

definition validate_declaration :: "prepare_declaration \<Rightarrow> netd_protocol_error + unit" where
  "validate_declaration d =
     (if \<not> (CANDY_TABLE_MIN \<le> table_id d \<and> table_id d \<le> CANDY_TABLE_MAX)
         \<or> \<not> (576 \<le> effective_mtu d \<and> effective_mtu d \<le> 1400)
         \<or> routes d = []
         \<or> length (routes d) > MAX_ROUTES
         \<or> exclusions d = []
         \<or> length (exclusions d) > MAX_EXCLUSIONS
      then Inl InvalidDeclaration
      else if
        \<not> strictly_sorted_by (routes d) (\<lambda>r. (route_prefix r, route_kind_tag (route_kind r)))
         \<or> \<not> strictly_sorted_by (exclusions d)
               (\<lambda>x. (exclusion_prefix x, underlay_kind_tag (exclusion_kind x)))
         \<or> list_ex (\<lambda>r. prefix_len (route_prefix r) = 0 \<and> route_kind r \<noteq> RemoteEgress) (routes d)
         \<or> list_ex (\<lambda>x. prefix_len (exclusion_prefix x) = 0) (exclusions d)
         \<or> has_prefix_overlap
               (map route_prefix (filter (\<lambda>r. route_kind r \<noteq> RemoteEgress) (routes d)))
         \<or> has_prefix_overlap (map exclusion_prefix (exclusions d))
         \<or> list_ex (\<lambda>r. route_kind r \<noteq> RemoteEgress
               \<and> list_ex (\<lambda>x. overlaps (route_prefix r) (exclusion_prefix x)) (exclusions d))
             (routes d)
         \<or> list_ex (\<lambda>r. route_kind r \<noteq> RemoteEgress
               \<and> contains (route_prefix r) (overlay_router_ipv4 d)) (routes d)
         \<or> list_ex (\<lambda>x. contains (exclusion_prefix x) (overlay_router_ipv4 d)) (exclusions d)
         \<or> overlay_router_ipv4 d = 0
         \<or> first_octet (overlay_router_ipv4 d) \<ge> 224
      then Inl InvalidDeclaration
      else Inr ())"

section \<open>Declaration codec\<close>

definition encode_prefix :: "ipv4_prefix \<Rightarrow> bytes" where
  "encode_prefix p = to_be_bytes 4 (network p) @ encode_varint (ucast (prefix_len p))"

definition read_prefix :: "ipv4_prefix parser" where
  "read_prefix =
     pbind read_array4 (\<lambda>net.
     pbind read_varint (\<lambda>v.
     if unat v < 2 ^ 8 then plift (new_prefix net (ucast v))
     else plift (Inl InvalidDeclaration)))"

definition encode_route :: "route_declaration \<Rightarrow> bytes" where
  "encode_route r = encode_prefix (route_prefix r) @ encode_varint (route_kind_tag (route_kind r))"

definition read_route :: "route_declaration parser" where
  "read_route =
     pbind read_prefix (\<lambda>p.
     pbind read_varint (\<lambda>v.
     pbind (plift (route_kind_of v)) (\<lambda>k.
     preturn \<lparr>route_prefix = p, route_kind = k\<rparr>)))"

definition encode_exclusion :: "underlay_exclusion \<Rightarrow> bytes" where
  "encode_exclusion x =
     encode_prefix (exclusion_prefix x) @ encode_varint (underlay_kind_tag (exclusion_kind x))"

definition read_exclusion :: "underlay_exclusion parser" where
  "read_exclusion =
     pbind read_prefix (\<lambda>p.
     pbind read_varint (\<lambda>v.
     pbind (plift (underlay_kind_of v)) (\<lambda>k.
     preturn \<lparr>exclusion_prefix = p, exclusion_kind = k\<rparr>)))"

definition encode_declaration :: "prepare_declaration \<Rightarrow> bytes" where
  "encode_declaration d =
     encode_varint (ucast (table_id d))
     @ to_be_bytes 4 (overlay_router_ipv4 d)
     @ encode_varint (ucast (effective_mtu d))
     @ encode_varint (of_nat (length (routes d)))
     @ concat (map encode_route (routes d))
     @ encode_varint (of_nat (length (exclusions d)))
     @ concat (map encode_exclusion (exclusions d))
     @ encode_bool (allow_forward (firewall d))
     @ encode_bool (clamp_tcp_mss (firewall d))
     @ encode_bool (require_ipv4_forwarding (firewall d))
     @ encode_bool (manage_rp_filter (firewall d))"

text \<open>\<^verbatim>\<open>u32::try_from(v).map_err(|_| e)?\<close> and its \<^verbatim>\<open>u16\<close> sibling.\<close>

definition try_u32 :: "netd_protocol_error \<Rightarrow> u64 \<Rightarrow> netd_protocol_error + u32" where
  "try_u32 e v = (if unat v < 2 ^ 32 then Inr (ucast v) else Inl e)"

definition try_u16 :: "netd_protocol_error \<Rightarrow> u64 \<Rightarrow> netd_protocol_error + u16" where
  "try_u16 e v = (if unat v < 2 ^ 16 then Inr (ucast v) else Inl e)"

definition decode_declaration :: "prepare_declaration parser" where
  "decode_declaration =
     pbind read_varint (\<lambda>t.
     pbind (plift (try_u32 InvalidDeclaration t)) (\<lambda>tid.
     pbind read_array4 (\<lambda>overlay.
     pbind read_varint (\<lambda>m.
     pbind (plift (try_u16 InvalidDeclaration m)) (\<lambda>mtu.
     pbind (read_count 1 MAX_ROUTES) (\<lambda>route_count.
     pbind (read_times route_count read_route) (\<lambda>rs.
     pbind (read_count 1 MAX_EXCLUSIONS) (\<lambda>exclusion_count.
     pbind (read_times exclusion_count read_exclusion) (\<lambda>xs.
     pbind read_boolean (\<lambda>f1.
     pbind read_boolean (\<lambda>f2.
     pbind read_boolean (\<lambda>f3.
     pbind read_boolean (\<lambda>f4.
     let d = \<lparr>table_id = tid, overlay_router_ipv4 = overlay, effective_mtu = mtu,
              routes = rs, exclusions = xs,
              firewall = \<lparr>allow_forward = f1, clamp_tcp_mss = f2,
                          require_ipv4_forwarding = f3, manage_rp_filter = f4\<rparr>\<rparr>
     in pbind (plift (validate_declaration d)) (\<lambda>_. preturn d))))))))))))))"

section \<open>Address sets\<close>

definition addresses :: "ipv4_prefix \<Rightarrow> u32 set" where
  "addresses p = {a. contains p a}"

definition host_bits :: "ipv4_prefix \<Rightarrow> nat" where
  "host_bits p = 32 - unat (prefix_len p)"

lemma prefix_mask_eq:
  assumes "plen \<le> 32"
  shows "prefix_mask plen = NOT (mask (32 - unat plen))"
proof -
  have le: "unat plen \<le> 32" using assms by (simp add: word_le_nat_alt)
  have push: "push_bit k (- 1) = (NOT (mask k) :: u32)" for k
    by (simp add: minus_exp_eq_not_mask push_bit_minus_one_eq_not_mask)
  consider "plen = 0" | "plen = 32" | "plen \<noteq> 0" "plen \<noteq> 32" by blast
  then show ?thesis
  proof cases
    case 1
    then show ?thesis by (simp add: prefix_mask_def mask_eq_exp_minus_1)
  next
    case 2
    then show ?thesis by (simp add: prefix_mask_def)
  next
    case 3
    then have "unat plen \<noteq> unat (32 :: u8)" by (metis word_unat_eq_iff)
    then have "0 < unat plen" "unat plen < 32"
      using le 3(1) by (simp_all add: unat_gt_0)
    moreover have "unat (32 - plen) = 32 - unat plen"
      using assms by (simp add: unat_sub)
    ultimately have "unat ((32 - plen) AND 31) = 32 - unat plen"
    proof -
      assume a: "unat (32 - plen) = 32 - unat plen" "0 < unat plen"
      have "(31 :: u8) = mask 5" by (simp add: mask_eq_exp_minus_1)
      then have "(32 - plen) AND 31 = take_bit 5 (32 - plen)" by (simp only: take_bit_eq_mask)
      then show ?thesis using a by (simp add: unsigned_take_bit_eq take_bit_nat_eq_self)
    qed
    with 3 show ?thesis by (simp add: prefix_mask_def push)
  qed
qed

lemma prefix_ok_iff:
  "prefix_ok p \<longleftrightarrow> prefix_len p \<le> 32 \<and> network p AND mask (host_bits p) = 0"
  by (cases p) (auto simp: prefix_ok_def new_prefix_def host_bits_def prefix_mask_eq not_less)

lemma new_prefix_Inr: "new_prefix net plen = Inr p \<longleftrightarrow> p = Ipv4Prefix net plen \<and> prefix_ok p"
  by (auto simp: prefix_ok_def new_prefix_def)

lemma contains_mask:
  "prefix_ok p \<Longrightarrow> contains p a \<longleftrightarrow> a AND NOT (mask (host_bits p)) = network p"
  by (simp add: contains_def prefix_ok_iff prefix_mask_eq host_bits_def)

lemma network_mask: "prefix_ok p \<Longrightarrow> network p AND NOT (mask (host_bits p)) = network p"
proof -
  assume "prefix_ok p"
  then have z: "network p AND mask (host_bits p) = 0" by (simp add: prefix_ok_iff)
  have "network p = (network p AND mask (host_bits p)) OR (network p AND NOT (mask (host_bits p)))"
    by (rule bit_eqI) (auto simp: bit_simps)
  with z show ?thesis by simp
qed

lemma contains_network: "prefix_ok p \<Longrightarrow> contains p (network p)"
  by (simp add: contains_mask network_mask)

lemma drop_bit_mono: "(v :: u32) \<le> w \<Longrightarrow> drop_bit k v \<le> drop_bit k w"
  unfolding word_le_nat_alt unat_drop_bit_eq by (simp add: drop_bit_eq_div div_le_mono)

lemma block_interval:
  fixes n a :: u32
  assumes z: "n AND mask k = 0"
  shows "a AND NOT (mask k) = n \<longleftrightarrow> n \<le> a \<and> a \<le> n OR mask k"
proof
  assume e: "a AND NOT (mask k) = n"
  have "n OR mask k = a OR mask k"
    unfolding e [symmetric] by (rule bit_eqI) (auto simp: bit_simps)
  then show "n \<le> a \<and> a \<le> n OR mask k"
    using word_and_le2 [of a "NOT (mask k)"] e by (simp add: le_word_or2)
next
  assume le: "n \<le> a \<and> a \<le> n OR mask k"
  have "drop_bit k n \<le> drop_bit k a" by (rule drop_bit_mono) (simp add: le)
  moreover have "drop_bit k a \<le> drop_bit k (n OR mask k)" by (rule drop_bit_mono) (simp add: le)
  moreover have "drop_bit k (n OR mask k) = drop_bit k n"
    by (rule bit_eqI) (auto simp: bit_simps)
  ultimately have "drop_bit k a = drop_bit k n" by simp
  then have "push_bit k (drop_bit k a) = push_bit k (drop_bit k n)" by simp
  moreover have "push_bit k (drop_bit k w) = w AND NOT (mask k)" for w :: u32
    by (rule bit_eqI) (auto simp: bit_simps not_le)
  moreover have "n AND NOT (mask k) = n"
  proof -
    have "n = (n AND mask k) OR (n AND NOT (mask k))" by (rule bit_eqI) (auto simp: bit_simps)
    with z show ?thesis by simp
  qed
  ultimately show "a AND NOT (mask k) = n" by simp
qed

lemma prefix_range_eq:
  "prefix_ok p \<Longrightarrow> prefix_range p = (network p, network p OR mask (host_bits p))"
  by (simp add: prefix_range_def prefix_ok_iff prefix_mask_eq host_bits_def)

lemma addresses_interval:
  "prefix_ok p \<Longrightarrow> addresses p = {fst (prefix_range p) .. snd (prefix_range p)}"
  by (auto simp: addresses_def contains_mask prefix_range_eq block_interval prefix_ok_iff)

lemma prefix_range_ordered: "prefix_ok p \<Longrightarrow> fst (prefix_range p) \<le> snd (prefix_range p)"
  by (simp add: prefix_range_eq le_word_or2)

lemma coarser_contains:
  assumes "prefix_ok p" "prefix_ok q" "host_bits q \<le> host_bits p"
    and "contains p a" "contains q a"
  shows "contains p (network q)"
proof -
  have q: "network q = a AND NOT (mask (host_bits q))"
    using assms(2,5) by (simp add: contains_mask)
  have "network q AND NOT (mask (host_bits p)) = a AND NOT (mask (host_bits p))"
    unfolding q using assms(3) by (auto intro!: bit_eqI simp: bit_simps)
  then show ?thesis using assms(1,4) by (simp add: contains_mask)
qed

lemma overlaps_iff:
  assumes "prefix_ok p" "prefix_ok q"
  shows "overlaps p q \<longleftrightarrow> addresses p \<inter> addresses q \<noteq> {}"
proof
  assume "overlaps p q"
  then show "addresses p \<inter> addresses q \<noteq> {}"
    using assms contains_network by (auto simp: overlaps_def addresses_def)
next
  assume "addresses p \<inter> addresses q \<noteq> {}"
  then obtain a where "contains p a" "contains q a" by (auto simp: addresses_def)
  then show "overlaps p q"
    using coarser_contains [of p q a] coarser_contains [of q p a] assms
    by (cases "host_bits q \<le> host_bits p") (auto simp: overlaps_def)
qed

subsection \<open>The sweep is the pairwise check\<close>

definition apart :: "u32 \<times> u32 \<Rightarrow> u32 \<times> u32 \<Rightarrow> bool" where
  "apart r s \<longleftrightarrow> snd r < fst s \<or> snd s < fst r"

lemma apart_sym: "apart r s \<longleftrightarrow> apart s r"
  by (auto simp: apart_def)

lemma sorted_wrt_insort_sym:
  assumes "\<And>x y. R x y \<longleftrightarrow> R y x"
  shows "sorted_wrt R (insort x xs) \<longleftrightarrow> (\<forall>y \<in> set xs. R x y) \<and> sorted_wrt R xs"
  using assms by (induction xs) (auto simp: set_insort_key)

lemma sorted_wrt_sort_sym:
  assumes "\<And>x y. R x y \<longleftrightarrow> R y x"
  shows "sorted_wrt R (sort xs) \<longleftrightarrow> sorted_wrt R xs"
  by (induction xs) (auto simp: sorted_wrt_insort_sym [of R, OF assms])

lemma overlap_scan_iff:
  assumes "sorted rs" and "\<forall>r \<in> set rs. fst r \<le> snd r"
  shows "overlap_scan f rs \<longleftrightarrow>
    \<not> sorted_wrt apart rs \<or> (\<exists>e. f = Some e \<and> rs \<noteq> [] \<and> fst (hd rs) \<le> e)"
  using assms
proof (induction rs arbitrary: f)
  case (Cons r rs)
  obtain start stop where r: "r = (start, stop)" by (cases r)
  have le: "start \<le> fst s" "fst s \<le> snd s" if "s \<in> set rs" for s
    using Cons.prems that by (auto simp: r less_eq_prod_def)
  have "(\<forall>s \<in> set rs. apart r s) \<longleftrightarrow> rs = [] \<or> stop < fst (hd rs)"
  proof (cases rs)
    case (Cons s rs')
    have "fst s \<le> fst t" if "t \<in> set rs" for t
      using Cons.prems(1) that Cons by (auto simp: less_eq_prod_def)
    moreover have "start \<le> snd s" using le [of s] Cons by (auto intro: order_trans)
    ultimately show ?thesis
      using Cons by (auto simp: apart_def r not_less intro: less_le_trans)
  qed simp
  then show ?case
    using Cons.IH [of "Some stop"] Cons.prems
    by (auto simp: r not_le split: option.splits)
qed simp

lemma has_prefix_overlap_iff:
  assumes "\<forall>p \<in> set ps. prefix_ok p"
  shows "has_prefix_overlap ps \<longleftrightarrow>
    \<not> sorted_wrt (\<lambda>p q. addresses p \<inter> addresses q = {}) ps"
proof -
  have disjoint: "apart (prefix_range p) (prefix_range q) \<longleftrightarrow> addresses p \<inter> addresses q = {}"
    if "prefix_ok p" "prefix_ok q" for p q
    using prefix_range_ordered [OF that(1)] prefix_range_ordered [OF that(2)]
    by (auto simp: apart_def addresses_interval that)
  have "has_prefix_overlap ps \<longleftrightarrow> \<not> sorted_wrt apart (sort (map prefix_range ps))"
    using assms prefix_range_ordered by (simp add: has_prefix_overlap_def overlap_scan_iff)
  also have "\<dots> \<longleftrightarrow> \<not> sorted_wrt (\<lambda>p q. apart (prefix_range p) (prefix_range q)) ps"
    by (simp add: sorted_wrt_sort_sym [of apart, OF apart_sym] sorted_wrt_map)
  also have "\<dots> \<longleftrightarrow> \<not> sorted_wrt (\<lambda>p q. addresses p \<inter> addresses q = {}) ps"
    using assms by (induction ps) (auto simp: disjoint)
  finally show ?thesis .
qed

section \<open>What validation establishes\<close>

definition declaration_prefixes :: "prepare_declaration \<Rightarrow> ipv4_prefix list" where
  "declaration_prefixes d = map route_prefix (routes d) @ map exclusion_prefix (exclusions d)"

definition declaration_ok :: "prepare_declaration \<Rightarrow> bool" where
  "declaration_ok d \<longleftrightarrow>
     validate_declaration d = Inr () \<and> list_all prefix_ok (declaration_prefixes d)"

definition steered :: "prepare_declaration \<Rightarrow> ipv4_prefix list" where
  "steered d = map route_prefix (filter (\<lambda>r. route_kind r \<noteq> RemoteEgress) (routes d))"

lemma validate_declaration_cases:
  "validate_declaration d = Inr () \<or> validate_declaration d = Inl InvalidDeclaration"
  by (auto simp: validate_declaration_def)

lemma list_all_declaration_prefixes:
  "list_all prefix_ok (declaration_prefixes d) \<longleftrightarrow>
     (\<forall>r \<in> set (routes d). prefix_ok (route_prefix r)) \<and>
     (\<forall>x \<in> set (exclusions d). prefix_ok (exclusion_prefix x))"
  by (auto simp: declaration_prefixes_def list_all_iff)

lemma declaration_ok_steered_disjoint:
  assumes "declaration_ok d"
  shows "sorted_wrt (\<lambda>p q. addresses p \<inter> addresses q = {}) (steered d)"
proof -
  have "\<forall>p \<in> set (steered d). prefix_ok p"
    using assms by (auto simp: steered_def declaration_ok_def list_all_declaration_prefixes)
  moreover have "\<not> has_prefix_overlap (steered d)"
    using assms by (auto simp: declaration_ok_def validate_declaration_def steered_def split: if_splits)
  ultimately show ?thesis using has_prefix_overlap_iff by blast
qed

lemma declaration_ok_exclusions_disjoint:
  assumes "declaration_ok d"
  shows "sorted_wrt (\<lambda>p q. addresses p \<inter> addresses q = {}) (map exclusion_prefix (exclusions d))"
proof -
  have "\<forall>p \<in> set (map exclusion_prefix (exclusions d)). prefix_ok p"
    using assms by (auto simp: declaration_ok_def list_all_declaration_prefixes)
  moreover have "\<not> has_prefix_overlap (map exclusion_prefix (exclusions d))"
    using assms by (auto simp: declaration_ok_def validate_declaration_def split: if_splits)
  ultimately show ?thesis using has_prefix_overlap_iff by blast
qed

lemma declaration_ok_avoids:
  assumes "declaration_ok d" and "p \<in> set (steered d)" and "x \<in> set (exclusions d)"
  shows "addresses p \<inter> addresses (exclusion_prefix x) = {}" "overlay_router_ipv4 d \<notin> addresses p"
proof -
  obtain r where r: "r \<in> set (routes d)" "route_kind r \<noteq> RemoteEgress" "p = route_prefix r"
    using assms(2) by (auto simp: steered_def)
  have v: "validate_declaration d = Inr ()" and
    ok: "prefix_ok p" "prefix_ok (exclusion_prefix x)"
    using assms(1,3) r by (auto simp: declaration_ok_def list_all_declaration_prefixes)
  have "\<not> overlaps p (exclusion_prefix x)"
    using v r assms(3) by (auto simp: validate_declaration_def list_ex_iff split: if_splits)
  then show "addresses p \<inter> addresses (exclusion_prefix x) = {}" using overlaps_iff [OF ok] by simp
  show "overlay_router_ipv4 d \<notin> addresses p"
    using v r by (auto simp: validate_declaration_def list_ex_iff addresses_def split: if_splits)
qed

lemma declaration_ok_exclusions_avoid_router:
  assumes "declaration_ok d"
  shows "\<forall>x \<in> set (exclusions d). overlay_router_ipv4 d \<notin> addresses (exclusion_prefix x)"
  using assms
  by (auto simp: declaration_ok_def validate_declaration_def list_ex_iff addresses_def split: if_splits)

section \<open>The codecs meet the contract\<close>

lemma unat_ucast_u8 [simp]: "unat (ucast (x :: u8) :: u64) = unat x"
  using unsigned_less [of x, where 'a = nat] by (simp add: unsigned_ucast_eq take_bit_nat_eq_self)

lemma unat_ucast_u16 [simp]: "unat (ucast (x :: u16) :: u64) = unat x"
  using unsigned_less [of x, where 'a = nat] by (simp add: unsigned_ucast_eq take_bit_nat_eq_self)

lemma unat_ucast_u32 [simp]: "unat (ucast (x :: u32) :: u64) = unat x"
  using unsigned_less [of x, where 'a = nat] by (simp add: unsigned_ucast_eq take_bit_nat_eq_self)

lemma ucast_back [simp]:
  "(ucast (ucast (a :: u8) :: u64) :: u8) = a"
  "(ucast (ucast (b :: u16) :: u64) :: u16) = b"
  "(ucast (ucast (c :: u32) :: u64) :: u32) = c"
  by (rule bit_eqI; simp add: bit_simps)+

lemma ucast_narrow:
  fixes v :: u64
  shows "unat v < 2 ^ 8 \<Longrightarrow> ucast (ucast v :: u8) = v"
    "unat v < 2 ^ 16 \<Longrightarrow> ucast (ucast v :: u16) = v"
    "unat v < 2 ^ 32 \<Longrightarrow> ucast (ucast v :: u32) = v"
  by (rule bit_eqI; use bit_bound [of v] in \<open>auto simp: bit_simps\<close>)+

lemma try_u32_ucast [simp]: "try_u32 e (ucast (x :: u32)) = Inr x"
  using unsigned_less [of x, where 'a = nat] by (simp add: try_u32_def)

lemma try_u16_ucast [simp]: "try_u16 e (ucast (x :: u16)) = Inr x"
  using unsigned_less [of x, where 'a = nat] by (simp add: try_u16_def)

lemma try_u32_Inr: "try_u32 e v = Inr x \<longleftrightarrow> v = ucast x"
  using unsigned_less [of x, where 'a = nat] by (auto simp: try_u32_def ucast_narrow split: if_splits)

lemma try_u16_Inr: "try_u16 e v = Inr x \<longleftrightarrow> v = ucast x"
  using unsigned_less [of x, where 'a = nat] by (auto simp: try_u16_def ucast_narrow split: if_splits)

lemma route_kind_of_tag [simp]: "route_kind_of (route_kind_tag k) = Inr k"
  by (cases k) (simp_all add: route_kind_of_def)

lemma route_kind_of_Inr: "route_kind_of v = Inr k \<longleftrightarrow> v = route_kind_tag k"
  by (cases k) (auto simp: route_kind_of_def)

lemma underlay_kind_of_tag [simp]: "underlay_kind_of (underlay_kind_tag k) = Inr k"
  by (cases k) (simp_all add: underlay_kind_of_def)

lemma underlay_kind_of_Inr: "underlay_kind_of v = Inr k \<longleftrightarrow> v = underlay_kind_tag k"
  by (cases k) (auto simp: underlay_kind_of_def)

lemma plift_Inr: "plift m r = Inr (x, r') \<longleftrightarrow> m = Inr x \<and> r' = r"
  by (cases m) auto

interpretation prefix: codec encode_prefix read_prefix prefix_ok
proof
  fix p before rest
  assume "prefix_ok p"
  moreover have "unat (prefix_len p) < 2 ^ 8" using unsigned_less [of "prefix_len p", where 'a = nat] by simp
  ultimately show "read_prefix (at before (encode_prefix p @ rest)) =
      Inr (p, at (before @ encode_prefix p) rest)"
    by (simp add: read_prefix_def encode_prefix_def codec_simps prefix_ok_def)
next
  fix before bs p r
  assume "read_prefix (at before bs) = Inr (p, r)"
  then obtain net v r1 where 1: "read_array4 (at before bs) = Inr (net, r1)"
      and 2: "read_varint r1 = Inr (v, r)" and v: "unat v < 2 ^ 8"
      and p: "new_prefix net (ucast v) = Inr p"
    by (auto simp: read_prefix_def pbind_eq_Inr plift_Inr split: if_splits)
  then show "prefix_ok p \<and> (\<exists>rest. bs = encode_prefix p @ rest \<and> r = at (before @ encode_prefix p) rest)"
    using array4.enc_dec [OF 1] varint.enc_dec
    by (fastforce simp: new_prefix_Inr encode_prefix_def ucast_narrow)
qed

lemmas [codec_simps] = prefix.dec_enc

interpretation route: codec encode_route read_route "\<lambda>r. prefix_ok (route_prefix r)"
proof
  fix r :: route_declaration and before rest
  assume "prefix_ok (route_prefix r)"
  then show "read_route (at before (encode_route r @ rest)) =
      Inr (r, at (before @ encode_route r) rest)"
    by (simp add: read_route_def encode_route_def codec_simps)
next
  fix before bs and x :: route_declaration and r
  assume "read_route (at before bs) = Inr (x, r)"
  then obtain p v r1 where 1: "read_prefix (at before bs) = Inr (p, r1)"
      and 2: "read_varint r1 = Inr (v, r)" "v = route_kind_tag (route_kind x)" "route_prefix x = p"
    by (auto simp: read_route_def pbind_eq_Inr plift_Inr route_kind_of_Inr)
  then show "prefix_ok (route_prefix x) \<and>
      (\<exists>rest. bs = encode_route x @ rest \<and> r = at (before @ encode_route x) rest)"
    using prefix.enc_dec [OF 1] varint.enc_dec by (fastforce simp: encode_route_def)
qed

interpretation exclusion: codec encode_exclusion read_exclusion "\<lambda>x. prefix_ok (exclusion_prefix x)"
proof
  fix r :: underlay_exclusion and before rest
  assume "prefix_ok (exclusion_prefix r)"
  then show "read_exclusion (at before (encode_exclusion r @ rest)) =
      Inr (r, at (before @ encode_exclusion r) rest)"
    by (simp add: read_exclusion_def encode_exclusion_def codec_simps)
next
  fix before bs and x :: underlay_exclusion and r
  assume "read_exclusion (at before bs) = Inr (x, r)"
  then obtain p v r1 where 1: "read_prefix (at before bs) = Inr (p, r1)"
      and 2: "read_varint r1 = Inr (v, r)" "v = underlay_kind_tag (exclusion_kind x)"
        "exclusion_prefix x = p"
    by (auto simp: read_exclusion_def pbind_eq_Inr plift_Inr underlay_kind_of_Inr)
  then show "prefix_ok (exclusion_prefix x) \<and>
      (\<exists>rest. bs = encode_exclusion x @ rest \<and> r = at (before @ encode_exclusion x) rest)"
    using prefix.enc_dec [OF 1] varint.enc_dec by (fastforce simp: encode_exclusion_def)
qed

lemma declaration_ok_counts:
  assumes "declaration_ok d"
  shows "1 \<le> length (routes d)" "length (routes d) \<le> MAX_ROUTES"
    "1 \<le> length (exclusions d)" "length (exclusions d) \<le> MAX_EXCLUSIONS"
  using assms by (auto simp: declaration_ok_def validate_declaration_def Suc_le_eq split: if_splits)

lemma MAX_lt: "MAX_ROUTES < 2 ^ 64" "MAX_EXCLUSIONS < 2 ^ 64"
  by (simp_all add: MAX_ROUTES_def MAX_EXCLUSIONS_def)

lemma declaration_eta:
  "\<lparr>table_id = table_id d, overlay_router_ipv4 = overlay_router_ipv4 d,
    effective_mtu = effective_mtu d, routes = routes d, exclusions = exclusions d,
    firewall = \<lparr>allow_forward = allow_forward (firewall d),
      clamp_tcp_mss = clamp_tcp_mss (firewall d),
      require_ipv4_forwarding = require_ipv4_forwarding (firewall d),
      manage_rp_filter = manage_rp_filter (firewall d)\<rparr>\<rparr> = d"
  by simp

lemma decode_encode_declaration:
  assumes ok: "declaration_ok d"
  shows "decode_declaration (at before (encode_declaration d @ rest)) =
    Inr (d, at (before @ encode_declaration d) rest)"
proof -
  note counts = declaration_ok_counts [OF ok]
  have all: "list_all (\<lambda>r. prefix_ok (route_prefix r)) (routes d)"
      "list_all (\<lambda>x. prefix_ok (exclusion_prefix x)) (exclusions d)"
    and v: "validate_declaration d = Inr ()"
    using ok by (auto simp: declaration_ok_def declaration_prefixes_def list_all_iff)
  show ?thesis
    using v
    by (simp add: decode_declaration_def encode_declaration_def codec_simps Let_def
        declaration_eta read_count_at [OF counts(1,2) MAX_lt(1)] read_count_at [OF counts(3,4) MAX_lt(2)]
        route.dec_times_enc [OF all(1)] exclusion.dec_times_enc [OF all(2)] del: One_nat_def)
qed

lemma encode_decode_declaration:
  assumes "decode_declaration (at before bs) = Inr (d, r)"
  shows "declaration_ok d \<and>
    (\<exists>rest. bs = encode_declaration d @ rest \<and> r = at (before @ encode_declaration d) rest)"
  using assms unfolding decode_declaration_def
  by (auto dest!: basic_decodes route.pbind_times_dec exclusion.pbind_times_dec
      simp: pbind_plift try_u32_Inr try_u16_Inr Let_def encode_declaration_def
        declaration_ok_def declaration_prefixes_def list_all_iff)

interpretation decl: codec encode_declaration decode_declaration declaration_ok
  by unfold_locales (auto simp: decode_encode_declaration dest: encode_decode_declaration)

lemmas [codec_simps] = decl.dec_enc

section \<open>Properties\<close>

text \<open>A declaration as the agent sends it, used by the witnesses of this library.\<close>

definition sample_declaration :: prepare_declaration where
  "sample_declaration =
     \<lparr>table_id = 20001, overlay_router_ipv4 = 0x0AFF0001, effective_mtu = 1380,
      routes =
        [\<lparr>route_prefix = Ipv4Prefix 0x0A010000 16, route_kind = Local\<rparr>,
         \<lparr>route_prefix = Ipv4Prefix 0x0A020000 16, route_kind = Remote\<rparr>],
      exclusions = [\<lparr>exclusion_prefix = Ipv4Prefix 0xCB007107 32, exclusion_kind = HubEndpoint\<rparr>],
      firewall = \<lparr>allow_forward = True, clamp_tcp_mss = True, require_ipv4_forwarding = True,
                  manage_rp_filter = False\<rparr>\<rparr>"

lemma sample_declaration_valid [simp]: "validate_declaration sample_declaration = Inr ()"
  by code_simp

lemma sample_declaration_ok: "declaration_ok sample_declaration"
  by code_simp

text \<open>The same tunnel in another routing table, as a make-before-break replacement needs it.\<close>

definition replacement_declaration :: prepare_declaration where
  "replacement_declaration = sample_declaration\<lparr>table_id := 20002\<rparr>"

lemma replacement_declaration_ok: "declaration_ok replacement_declaration"
  using sample_declaration_ok
  by (auto simp: declaration_ok_def validate_declaration_def replacement_declaration_def
      declaration_prefixes_def CANDY_TABLE_MIN_def CANDY_TABLE_MAX_def split: if_splits)

text \<open>
  C32: The sweep-line overlap check agrees with the pairwise definition: for canonical prefixes, it
  reports an overlap exactly when two of them (at different positions) share an address.
\<close>

theorem overlap_check_correct:
  assumes "\<forall>p \<in> set ps. prefix_ok p"
  shows "has_prefix_overlap ps \<longleftrightarrow>
    (\<exists>i j. i < j \<and> j < length ps \<and> addresses (ps ! i) \<inter> addresses (ps ! j) \<noteq> {})"
  using has_prefix_overlap_iff [OF assms] by (auto simp: sorted_wrt_iff_nth_less)

theorem overlap_check_correct_witness:
  "has_prefix_overlap [Ipv4Prefix 0x0A000000 8, Ipv4Prefix 0xC0A80000 16, Ipv4Prefix 0x0A010000 16]
   \<and> (\<exists>i j. i < j \<and> j < length [Ipv4Prefix 0x0A000000 8, Ipv4Prefix 0xC0A80000 16,
        Ipv4Prefix 0x0A010000 16]
      \<and> addresses ([Ipv4Prefix 0x0A000000 8, Ipv4Prefix 0xC0A80000 16, Ipv4Prefix 0x0A010000 16] ! i)
        \<inter> addresses ([Ipv4Prefix 0x0A000000 8, Ipv4Prefix 0xC0A80000 16,
            Ipv4Prefix 0x0A010000 16] ! j) \<noteq> {})"
proof -
  have "\<forall>p \<in> set [Ipv4Prefix 0x0A000000 8, Ipv4Prefix 0xC0A80000 16, Ipv4Prefix 0x0A010000 16].
      prefix_ok p"
    by code_simp
  moreover have "has_prefix_overlap
      [Ipv4Prefix 0x0A000000 8, Ipv4Prefix 0xC0A80000 16, Ipv4Prefix 0x0A010000 16]"
    by code_simp
  ultimately show ?thesis using overlap_check_correct by blast
qed

text \<open>
  A declaration that passes validation (with the canonical prefixes the decoder builds) is safe
  to install: every two steered prefixes address disjoint sets, no steered prefix reaches an
  underlay exclusion (so tunnel traffic can never be routed into the tunnel), and neither covers
  the overlay router's own address. The validator exempts remote-egress routes, whose prefixes are
  full-tunnel defaults, so \<open>steered\<close> leaves them out.
\<close>

theorem valid_declaration_is_safe:
  assumes "declaration_ok d"
  shows "sorted_wrt (\<lambda>p q. addresses p \<inter> addresses q = {}) (steered d)
    \<and> sorted_wrt (\<lambda>p q. addresses p \<inter> addresses q = {}) (map exclusion_prefix (exclusions d))
    \<and> (\<forall>p \<in> set (steered d). \<forall>x \<in> set (exclusions d).
         addresses p \<inter> addresses (exclusion_prefix x) = {})
    \<and> (\<forall>p \<in> set (steered d). overlay_router_ipv4 d \<notin> addresses p)
    \<and> (\<forall>x \<in> set (exclusions d). overlay_router_ipv4 d \<notin> addresses (exclusion_prefix x))"
proof -
  obtain x where "x \<in> set (exclusions d)"
    using declaration_ok_counts(3) [OF assms] by (cases "exclusions d") auto
  then have "\<forall>p \<in> set (steered d). overlay_router_ipv4 d \<notin> addresses p"
    using declaration_ok_avoids(2) [OF assms] by blast
  moreover have "\<forall>x \<in> set (exclusions d). overlay_router_ipv4 d \<notin> addresses (exclusion_prefix x)"
    by (rule declaration_ok_exclusions_avoid_router [OF assms])
  ultimately show ?thesis
    using declaration_ok_steered_disjoint [OF assms] declaration_ok_exclusions_disjoint [OF assms]
      declaration_ok_avoids(1) [OF assms] by blast
qed

theorem valid_declaration_is_safe_witness:
  "addresses (Ipv4Prefix 0x0A010000 16) \<inter> addresses (Ipv4Prefix 0xCB007107 32) = {}
   \<and> (0x0AFF0001 :: u32) \<notin> addresses (Ipv4Prefix 0x0A020000 16)"
  using valid_declaration_is_safe [OF sample_declaration_ok]
  by (simp add: sample_declaration_def steered_def)

end
