(* ===== verification/Netd_Messages.thy ===== *)
theory Netd_Messages
  imports Netd_Declaration
begin

text \<open>
  Requests and responses of the netd protocol (\<^verbatim>\<open>candy-netd-proto/src/lib.rs\<close>, lines 232-419 and
  490-752): lease owners, the twelve operations, the thirteen response bodies, their validation
  and their codecs. Both codecs are proved to be exact inverses: a frame decodes to a message if
  and only if the message encodes to that frame, and a valid request always fits a frame.
\<close>

section \<open>Lease owners and operations\<close>

record lease_owner =
  instance_id :: u128
  pid :: u32
  generation :: u64
  lease_deadline_mono_ms :: u64

definition validate_owner :: "lease_owner \<Rightarrow> netd_protocol_error + unit" where
  "validate_owner owner =
     (if instance_id owner = 0 \<or> pid owner = 0 \<or> generation owner = 0
         \<or> lease_deadline_mono_ms owner = 0
      then Inl InvalidOwner else Inr ())"

datatype netd_operation =
    Prepare prepare_declaration
  | Commit
  | Rollback
  | Status
  | LeaseRenew
  | MtuUpdate u16
  | Suspend
  | Reconfigure prepare_declaration
  | Resume
  | Drain u64
  | WithdrawPrefixes "ipv4_prefix list"
  | PolicyUpdate prepare_declaration

fun operation_tag :: "netd_operation \<Rightarrow> u64" where
  "operation_tag (Prepare _) = 1"
| "operation_tag Commit = 2"
| "operation_tag Rollback = 3"
| "operation_tag Status = 4"
| "operation_tag LeaseRenew = 5"
| "operation_tag (MtuUpdate _) = 6"
| "operation_tag Suspend = 7"
| "operation_tag (Reconfigure _) = 8"
| "operation_tag Resume = 9"
| "operation_tag (Drain _) = 10"
| "operation_tag (WithdrawPrefixes _) = 11"
| "operation_tag (PolicyUpdate _) = 12"

text \<open>The or-pattern \<^verbatim>\<open>Prepare(value) | Reconfigure(value) | PolicyUpdate(value)\<close>.\<close>

fun operation_declaration :: "netd_operation \<Rightarrow> prepare_declaration option" where
  "operation_declaration (Prepare d) = Some d"
| "operation_declaration (Reconfigure d) = Some d"
| "operation_declaration (PolicyUpdate d) = Some d"
| "operation_declaration _ = None"

section \<open>Requests\<close>

record netd_request =
  request_id :: u64
  request_owner :: lease_owner
  operation :: netd_operation

definition validate_request :: "netd_request \<Rightarrow> netd_protocol_error + unit" where
  "validate_request req =
     (if request_id req = 0 then Inl InvalidRequest
      else rbind (validate_owner (request_owner req)) (\<lambda>_.
        rbind (case operation_declaration (operation req) of
                 Some d \<Rightarrow> validate_declaration d | None \<Rightarrow> Inr ()) (\<lambda>_.
        case operation req of
          MtuUpdate mtu \<Rightarrow>
            if \<not> (576 \<le> mtu \<and> mtu \<le> 1400) then Inl InvalidDeclaration else Inr ()
        | WithdrawPrefixes ps \<Rightarrow>
            if \<not> successively (\<lambda>p q. \<not> p \<ge> q) ps \<or> list_ex (\<lambda>p. prefix_len p > 32) ps
            then Inl InvalidRequest else Inr ()
        | _ \<Rightarrow> Inr ())))"

definition encode_payload :: "netd_operation \<Rightarrow> netd_protocol_error + bytes" where
  "encode_payload op =
     (case operation_declaration op of
        Some d \<Rightarrow> Inr (encode_declaration d)
      | None \<Rightarrow>
         (case op of
            MtuUpdate mtu \<Rightarrow> Inr (encode_varint (ucast mtu))
          | Drain now \<Rightarrow> Inr (encode_varint now)
          | WithdrawPrefixes ps \<Rightarrow>
              if length ps > MAX_ROUTES then Inl InvalidRequest
              else Inr (encode_varint (of_nat (length ps)) @ concat (map encode_prefix ps))
          | _ \<Rightarrow> Inr []))"

definition request_header :: "netd_request \<Rightarrow> bytes" where
  "request_header req =
     encode_varint NETD_PROTOCOL_VERSION
     @ encode_varint (operation_tag (operation req))
     @ encode_varint (request_id req)
     @ to_be_bytes 16 (instance_id (request_owner req))
     @ encode_varint (ucast (pid (request_owner req)))
     @ encode_varint (generation (request_owner req))
     @ encode_varint (lease_deadline_mono_ms (request_owner req))"

definition encode_request :: "netd_request \<Rightarrow> netd_protocol_error + bytes" where
  "encode_request req =
     rbind (validate_request req) (\<lambda>_.
     rbind (encode_payload (operation req)) (\<lambda>payload.
     let out = request_header req @ payload in
     rbind (ensure_frame out) (\<lambda>_. Inr out)))"

definition read_operation :: "u64 \<Rightarrow> netd_operation parser" where
  "read_operation tag =
     (if tag = 1 then pbind decode_declaration (\<lambda>d. preturn (Prepare d))
      else if tag = 2 then preturn Commit
      else if tag = 3 then preturn Rollback
      else if tag = 4 then preturn Status
      else if tag = 5 then preturn LeaseRenew
      else if tag = 6 then
        pbind read_varint (\<lambda>v.
        pbind (plift (try_u16 InvalidDeclaration v)) (\<lambda>mtu. preturn (MtuUpdate mtu)))
      else if tag = 7 then preturn Suspend
      else if tag = 8 then pbind decode_declaration (\<lambda>d. preturn (Reconfigure d))
      else if tag = 9 then preturn Resume
      else if tag = 10 then pbind read_varint (\<lambda>now. preturn (Drain now))
      else if tag = 11 then
        pbind read_varint (\<lambda>count.
          if unat count > MAX_ROUTES then plift (Inl InvalidRequest)
          else pbind (read_times (unat count) read_prefix) (\<lambda>ps. preturn (WithdrawPrefixes ps)))
      else if tag = 12 then pbind decode_declaration (\<lambda>d. preturn (PolicyUpdate d))
      else plift (Inl UnknownEnum))"

definition read_request :: "netd_request parser" where
  "read_request =
     pbind read_varint (\<lambda>version.
     if version \<noteq> NETD_PROTOCOL_VERSION then plift (Inl UnsupportedVersion)
     else
       pbind read_varint (\<lambda>tag.
       pbind read_varint (\<lambda>rid.
       pbind read_array16 (\<lambda>iid.
       pbind read_varint (\<lambda>p.
       pbind (plift (try_u32 InvalidOwner p)) (\<lambda>owner_pid.
       pbind read_varint (\<lambda>gen.
       pbind read_varint (\<lambda>deadline.
       pbind (read_operation tag) (\<lambda>op.
       preturn
         \<lparr>request_id = rid,
          request_owner = \<lparr>instance_id = iid, pid = owner_pid, generation = gen,
                           lease_deadline_mono_ms = deadline\<rparr>,
          operation = op\<rparr>)))))))))"

definition decode_request :: "bytes \<Rightarrow> netd_protocol_error + netd_request" where
  "decode_request bs =
     rbind (ensure_frame bs) (\<lambda>_.
     rbind (read_request (new_reader bs)) (\<lambda>(req, r).
     rbind (finish r) (\<lambda>_.
     rbind (validate_request req) (\<lambda>_. Inr req))))"

section \<open>Responses\<close>

datatype error_code =
    CodeInvalidRequest
  | CodeUnauthorizedPeer
  | CodeGenerationConflict
  | CodePreflightFailed
  | CodeSystemFailure
  | CodeDrainPending
  | CodeLinkPrepareFailed
  | CodeRoutePrepareFailed
  | CodeFirewallPrepareFailed
  | CodeSysctlPrepareFailed
  | CodeLinkActivateFailed
  | CodePolicyActivateFailed

fun error_code_tag :: "error_code \<Rightarrow> u64" where
  "error_code_tag CodeInvalidRequest = 1"
| "error_code_tag CodeUnauthorizedPeer = 2"
| "error_code_tag CodeGenerationConflict = 3"
| "error_code_tag CodePreflightFailed = 4"
| "error_code_tag CodeSystemFailure = 5"
| "error_code_tag CodeDrainPending = 6"
| "error_code_tag CodeLinkPrepareFailed = 7"
| "error_code_tag CodeRoutePrepareFailed = 8"
| "error_code_tag CodeFirewallPrepareFailed = 9"
| "error_code_tag CodeSysctlPrepareFailed = 10"
| "error_code_tag CodeLinkActivateFailed = 11"
| "error_code_tag CodePolicyActivateFailed = 12"

definition error_code_of :: "u64 \<Rightarrow> netd_protocol_error + error_code" where
  "error_code_of v =
     (if v = 1 then Inr CodeInvalidRequest
      else if v = 2 then Inr CodeUnauthorizedPeer
      else if v = 3 then Inr CodeGenerationConflict
      else if v = 4 then Inr CodePreflightFailed
      else if v = 5 then Inr CodeSystemFailure
      else if v = 6 then Inr CodeDrainPending
      else if v = 7 then Inr CodeLinkPrepareFailed
      else if v = 8 then Inr CodeRoutePrepareFailed
      else if v = 9 then Inr CodeFirewallPrepareFailed
      else if v = 10 then Inr CodeSysctlPrepareFailed
      else if v = 11 then Inr CodeLinkActivateFailed
      else if v = 12 then Inr CodePolicyActivateFailed
      else Inl UnknownEnum)"

datatype session_phase = Stopped | Prepared | Active | Suspended | Draining

fun session_phase_tag :: "session_phase \<Rightarrow> u64" where
  "session_phase_tag Stopped = 1"
| "session_phase_tag Prepared = 2"
| "session_phase_tag Active = 3"
| "session_phase_tag Suspended = 4"
| "session_phase_tag Draining = 5"

definition session_phase_of :: "u64 \<Rightarrow> netd_protocol_error + session_phase" where
  "session_phase_of v =
     (if v = 1 then Inr Stopped
      else if v = 2 then Inr Prepared
      else if v = 3 then Inr Active
      else if v = 4 then Inr Suspended
      else if v = 5 then Inr Draining
      else Inl UnknownEnum)"

datatype response_body =
    RespPrepared u64 bool
  | RespCommitted u64
  | RespRolledBack u64
  | RespStatus session_phase u64
  | RespLeaseRenewed u64
  | RespMtuUpdated u64 u16
  | RespSuspended u64
  | RespReconfigured u64
  | RespResumed u64
  | RespDrained u64
  | RespPrefixesWithdrawn u64 u64
  | RespPolicyUpdated u64
  | RespError error_code

record netd_response =
  response_id :: u64
  body :: response_body

fun response_tag :: "response_body \<Rightarrow> u64" where
  "response_tag (RespPrepared _ _) = 1"
| "response_tag (RespCommitted _) = 2"
| "response_tag (RespRolledBack _) = 3"
| "response_tag (RespStatus _ _) = 4"
| "response_tag (RespLeaseRenewed _) = 5"
| "response_tag (RespError _) = 6"
| "response_tag (RespMtuUpdated _ _) = 7"
| "response_tag (RespSuspended _) = 8"
| "response_tag (RespReconfigured _) = 9"
| "response_tag (RespResumed _) = 10"
| "response_tag (RespDrained _) = 11"
| "response_tag (RespPrefixesWithdrawn _ _) = 12"
| "response_tag (RespPolicyUpdated _) = 13"

definition valid_generation :: "u64 \<Rightarrow> netd_protocol_error + unit" where
  "valid_generation v = (if v = 0 then Inl InvalidRequest else Inr ())"

definition encode_generation :: "u64 \<Rightarrow> netd_protocol_error + bytes" where
  "encode_generation gen = rbind (valid_generation gen) (\<lambda>_. Inr (encode_varint gen))"

fun encode_body :: "response_body \<Rightarrow> netd_protocol_error + bytes" where
  "encode_body (RespPrepared gen attached) =
     rbind (encode_generation gen) (\<lambda>bs. Inr (bs @ encode_bool attached))"
| "encode_body (RespCommitted gen) = encode_generation gen"
| "encode_body (RespRolledBack gen) = encode_generation gen"
| "encode_body (RespLeaseRenewed gen) = encode_generation gen"
| "encode_body (RespSuspended gen) = encode_generation gen"
| "encode_body (RespReconfigured gen) = encode_generation gen"
| "encode_body (RespResumed gen) = encode_generation gen"
| "encode_body (RespDrained gen) = encode_generation gen"
| "encode_body (RespPrefixesWithdrawn gen count) =
     rbind (encode_generation gen) (\<lambda>bs. Inr (bs @ encode_varint count))"
| "encode_body (RespPolicyUpdated gen) = encode_generation gen"
| "encode_body (RespStatus phase gen) =
     rbind (if phase \<noteq> Stopped then valid_generation gen else Inr ()) (\<lambda>_.
     Inr (encode_varint (session_phase_tag phase) @ encode_varint gen))"
| "encode_body (RespMtuUpdated gen mtu) =
     rbind (valid_generation gen) (\<lambda>_.
     if \<not> (576 \<le> mtu \<and> mtu \<le> 1400) then Inl InvalidDeclaration
     else Inr (encode_varint gen @ encode_varint (ucast mtu)))"
| "encode_body (RespError code) = Inr (encode_varint (error_code_tag code))"

definition encode_response :: "netd_response \<Rightarrow> netd_protocol_error + bytes" where
  "encode_response resp =
     (if response_id resp = 0 then Inl InvalidRequest
      else
        rbind (encode_body (body resp)) (\<lambda>payload.
        let out = encode_varint NETD_PROTOCOL_VERSION
              @ encode_varint (response_tag (body resp))
              @ encode_varint (response_id resp) @ payload in
        rbind (ensure_frame out) (\<lambda>_. Inr out)))"

definition read_body :: "u64 \<Rightarrow> response_body parser" where
  "read_body tag =
     (let gen = (\<lambda>f. pbind read_varint (\<lambda>g. preturn (f g))) in
      if tag = 1 then
        pbind read_varint (\<lambda>g. pbind read_boolean (\<lambda>b. preturn (RespPrepared g b)))
      else if tag = 2 then gen RespCommitted
      else if tag = 3 then gen RespRolledBack
      else if tag = 4 then
        pbind read_varint (\<lambda>v. pbind (plift (session_phase_of v)) (\<lambda>phase.
        pbind read_varint (\<lambda>g. preturn (RespStatus phase g))))
      else if tag = 5 then gen RespLeaseRenewed
      else if tag = 6 then
        pbind read_varint (\<lambda>v. pbind (plift (error_code_of v)) (\<lambda>code. preturn (RespError code)))
      else if tag = 7 then
        pbind read_varint (\<lambda>g. pbind read_varint (\<lambda>v.
        pbind (plift (try_u16 InvalidDeclaration v)) (\<lambda>mtu. preturn (RespMtuUpdated g mtu))))
      else if tag = 8 then gen RespSuspended
      else if tag = 9 then gen RespReconfigured
      else if tag = 10 then gen RespResumed
      else if tag = 11 then gen RespDrained
      else if tag = 12 then
        pbind read_varint (\<lambda>g. pbind read_varint (\<lambda>count. preturn (RespPrefixesWithdrawn g count)))
      else if tag = 13 then gen RespPolicyUpdated
      else plift (Inl UnknownEnum))"

definition read_response :: "netd_response parser" where
  "read_response =
     pbind read_varint (\<lambda>version.
     if version \<noteq> NETD_PROTOCOL_VERSION then plift (Inl UnsupportedVersion)
     else
       pbind read_varint (\<lambda>tag.
       pbind read_varint (\<lambda>rid.
       pbind (read_body tag) (\<lambda>b. preturn \<lparr>response_id = rid, body = b\<rparr>))))"

definition decode_response :: "bytes \<Rightarrow> netd_protocol_error + netd_response" where
  "decode_response bs =
     rbind (ensure_frame bs) (\<lambda>_.
     rbind (read_response (new_reader bs)) (\<lambda>(resp, r).
     rbind (finish r) (\<lambda>_.
     rbind (encode_response resp) (\<lambda>_. Inr resp))))"

section \<open>Responses: the codec is exact\<close>

lemma error_code_of_tag [simp]: "error_code_of (error_code_tag c) = Inr c"
  by (cases c) (simp_all add: error_code_of_def)

lemma error_code_of_Inr: "error_code_of v = Inr c \<longleftrightarrow> v = error_code_tag c"
  by (cases c) (auto simp: error_code_of_def)

lemma session_phase_of_tag [simp]: "session_phase_of (session_phase_tag p) = Inr p"
  by (cases p) (simp_all add: session_phase_of_def)

lemma session_phase_of_1: "session_phase_of 1 = Inr Stopped"
  by (simp add: session_phase_of_def)

lemma session_phase_of_Inr: "session_phase_of v = Inr p \<longleftrightarrow> v = session_phase_tag p"
  by (cases p) (auto simp: session_phase_of_def)

lemma encode_generation_Inr:
  "encode_generation gen = Inr bs \<longleftrightarrow> gen \<noteq> 0 \<and> bs = encode_varint gen"
  by (auto simp: encode_generation_def valid_generation_def)

lemmas encode_body_simps = encode_generation_Inr valid_generation_def rbind_eq_Inr

lemma read_body_encode:
  assumes "encode_body b = Inr payload"
  shows "read_body (response_tag b) (at before (payload @ rest)) = Inr (b, at (before @ payload) rest)"
  using assms
  by (cases b)
    (auto simp: read_body_def encode_body_simps codec_simps session_phase_of_1 split: if_splits)

definition agrees :: "response_body \<Rightarrow> bytes \<Rightarrow> bool" where
  "agrees b payload \<longleftrightarrow> (\<forall>p. encode_body b = Inr p \<longrightarrow> p = payload)"

lemma encode_read_body:
  assumes "read_body tag (at before bs) = Inr (b, r)"
  shows "tag = response_tag b \<and>
    (\<exists>payload rest. bs = payload @ rest \<and> r = at (before @ payload) rest \<and> agrees b payload)"
  using assms unfolding read_body_def Let_def agrees_def
  by (auto split: if_splits dest!: basic_decodes
      simp: pbind_plift try_u16_Inr error_code_of_Inr session_phase_of_Inr encode_body_simps)
    (metis append.assoc)+

lemma length_encode_body: "encode_body b = Inr p \<Longrightarrow> length p \<le> 20"
  using length_encode_varint(2)
  by (cases b) (auto simp: encode_body_simps encode_bool_def intro!: add_mono [of _ 10 _ 10, simplified]
      split: if_splits intro: order_trans [of _ 10])

lemma encode_response_Inr:
  "encode_response resp = Inr bs \<longleftrightarrow>
     response_id resp \<noteq> 0 \<and>
     (\<exists>p. encode_body (body resp) = Inr p \<and>
        bs = encode_varint NETD_PROTOCOL_VERSION @ encode_varint (response_tag (body resp))
          @ encode_varint (response_id resp) @ p)"
proof -
  have frame: "ensure_frame (encode_varint v @ encode_varint t @ encode_varint i @ p) = Inr ()"
    if "encode_body (body resp) = Inr p" for v t i p
    using length_encode_varint [of v] length_encode_varint [of t] length_encode_varint [of i]
      length_encode_body [OF that]
    by (auto simp: ensure_frame_def MAX_NETD_FRAME_LEN_def)
  then show ?thesis by (auto simp: encode_response_def rbind_eq_Inr)
qed

lemma ensure_frame_of_response: "encode_response resp = Inr bs \<Longrightarrow> ensure_frame bs = Inr ()"
  by (auto simp: encode_response_def rbind_eq_Inr Let_def split: if_splits)

lemma read_response_encode:
  assumes "encode_response resp = Inr bs"
  shows "read_response (at [] bs) = Inr (resp, at bs [])"
proof -
  obtain p where p: "encode_body (body resp) = Inr p"
    "bs = encode_varint NETD_PROTOCOL_VERSION @ encode_varint (response_tag (body resp))
       @ encode_varint (response_id resp) @ p"
    using assms by (auto simp: encode_response_Inr)
  show ?thesis
    using read_body_encode [OF p(1), where rest = "[]"]
    by (simp add: read_response_def p(2) codec_simps)
qed

lemma pbind_read_body:
  assumes "pbind (read_body tag) f (at before bs) = Inr y"
  shows "\<exists>b payload rest. tag = response_tag b \<and> bs = payload @ rest \<and>
    agrees b payload \<and> f b (at (before @ payload) rest) = Inr y"
  using assms encode_read_body unfolding pbind_eq_Inr by blast

lemma encode_read_response:
  assumes "read_response (at [] bs) = Inr (resp, r)" and "finish r = Inr ()"
    and "encode_response resp = Inr out"
  shows "out = bs"
proof -
  obtain payload where "agrees (body resp) payload"
    "bs = encode_varint NETD_PROTOCOL_VERSION @ encode_varint (response_tag (body resp))
       @ encode_varint (response_id resp) @ payload"
    using assms(1,2) unfolding read_response_def
    by (auto split: if_splits dest!: varint.pbind_dec pbind_read_body)
  then show ?thesis using assms(3) by (auto simp: encode_response_Inr agrees_def)
qed

theorem decode_response_iff: "decode_response bs = Inr resp \<longleftrightarrow> encode_response resp = Inr bs"
proof
  assume "decode_response bs = Inr resp"
  then obtain r out where "read_response (at [] bs) = Inr (resp, r)" "finish r = Inr ()"
      "encode_response resp = Inr out"
    by (auto simp: decode_response_def rbind_eq_Inr new_reader_at)
  then show "encode_response resp = Inr bs" using encode_read_response by blast
next
  assume "encode_response resp = Inr bs"
  then show "decode_response bs = Inr resp"
    by (simp add: decode_response_def new_reader_at read_response_encode ensure_frame_of_response)
qed

section \<open>Requests: the codec is exact and total on valid requests\<close>

definition operation_prefixes :: "netd_operation \<Rightarrow> ipv4_prefix list" where
  "operation_prefixes op =
     (case operation_declaration op of
        Some d \<Rightarrow> declaration_prefixes d
      | None \<Rightarrow> (case op of WithdrawPrefixes ps \<Rightarrow> ps | _ \<Rightarrow> []))"

definition withdraw_count :: "netd_operation \<Rightarrow> nat" where
  "withdraw_count op = (case op of WithdrawPrefixes ps \<Rightarrow> length ps | _ \<Rightarrow> 0)"

text \<open>What the Rust types leave to the caller: every prefix was built by \<^verbatim>\<open>Ipv4Prefix::new\<close>.\<close>

definition request_ok :: "netd_request \<Rightarrow> bool" where
  "request_ok req \<longleftrightarrow>
     validate_request req = Inr () \<and> list_all prefix_ok (operation_prefixes (operation req)) \<and>
     withdraw_count (operation req) \<le> MAX_ROUTES"

lemma validate_request_declaration:
  assumes "validate_request req = Inr ()" and "operation_declaration (operation req) = Some d"
  shows "validate_declaration d = Inr ()"
  using assms by (auto simp: validate_request_def rbind_eq_Inr split: if_splits)

lemma request_ok_declaration:
  assumes "request_ok req" and "operation_declaration (operation req) = Some d"
  shows "declaration_ok d"
  using assms validate_request_declaration [of req d]
  by (auto simp: request_ok_def declaration_ok_def operation_prefixes_def)

lemma read_operation_encode:
  assumes "encode_payload op = Inr payload"
    and "\<And>d. operation_declaration op = Some d \<Longrightarrow> declaration_ok d"
    and "list_all prefix_ok (operation_prefixes op)"
  shows "read_operation (operation_tag op) (at before (payload @ rest)) =
    Inr (op, at (before @ payload) rest)"
proof (cases op)
  case (WithdrawPrefixes ps)
  have "length ps \<le> MAX_ROUTES"
    using assms(1) WithdrawPrefixes by (auto simp: encode_payload_def split: if_splits)
  then have "unat (of_nat (length ps) :: u64) = length ps"
    using MAX_lt(1) by (simp add: unat_of_nat)
  then show ?thesis
    using assms WithdrawPrefixes prefix.dec_times_enc [of ps]
    by (auto simp: read_operation_def encode_payload_def codec_simps operation_prefixes_def
        split: if_splits)
qed (use assms in \<open>auto simp: read_operation_def encode_payload_def codec_simps\<close>)

lemma encode_read_operation:
  assumes "read_operation tag (at before bs) = Inr (op, r)"
  shows "tag = operation_tag op \<and>
    (\<exists>payload rest. bs = payload @ rest \<and> r = at (before @ payload) rest \<and>
       encode_payload op = Inr payload) \<and>
    list_all prefix_ok (operation_prefixes op) \<and> withdraw_count op \<le> MAX_ROUTES"
  using assms unfolding read_operation_def
  by (auto split: if_splits dest!: basic_decodes decl.pbind_dec prefix.pbind_times_dec
      simp: pbind_plift try_u16_Inr encode_payload_def operation_prefixes_def withdraw_count_def
        declaration_ok_def)

lemma length_encode_prefix: "length (encode_prefix p) \<le> 14"
  using length_encode_varint(2) [of "ucast (prefix_len p)"] by (simp add: encode_prefix_def)

lemma length_encode_route: "length (encode_route r) \<le> 24"
  using length_encode_prefix [of "route_prefix r"]
    length_encode_varint(2) [of "route_kind_tag (route_kind r)"]
  by (simp add: encode_route_def)

lemma length_encode_exclusion: "length (encode_exclusion x) \<le> 24"
  using length_encode_prefix [of "exclusion_prefix x"]
    length_encode_varint(2) [of "underlay_kind_tag (exclusion_kind x)"]
  by (simp add: encode_exclusion_def)

lemma length_concat_map_le:
  assumes "\<And>x. length (f x) \<le> k"
  shows "length (concat (map f xs)) \<le> k * length xs"
  by (induction xs) (use assms in \<open>auto intro: add_mono\<close>)

lemma length_encode_declaration:
  "length (encode_declaration d) \<le> 84 + 24 * length (routes d) + 24 * length (exclusions d)"
proof -
  have v: "length (encode_varint v) \<le> 10" for v by (rule length_encode_varint)
  have "length (concat (map encode_route (routes d))) \<le> 24 * length (routes d)"
    by (rule length_concat_map_le) (rule length_encode_route)
  moreover have "length (concat (map encode_exclusion (exclusions d))) \<le> 24 * length (exclusions d)"
    by (rule length_concat_map_le) (rule length_encode_exclusion)
  ultimately show ?thesis
    using v [of "ucast (table_id d)"] v [of "ucast (effective_mtu d)"]
      v [of "of_nat (length (routes d))"] v [of "of_nat (length (exclusions d))"]
      v [of "of_bool (allow_forward (firewall d))"] v [of "of_bool (clamp_tcp_mss (firewall d))"]
      v [of "of_bool (require_ipv4_forwarding (firewall d))"]
      v [of "of_bool (manage_rp_filter (firewall d))"]
    by (simp add: encode_declaration_def encode_bool_def)
qed

lemma length_request_header: "0 < length (request_header req)" "length (request_header req) \<le> 76"
proof -
  have v: "length (encode_varint v) \<le> 10" "0 < length (encode_varint v)" for v
    by (rule length_encode_varint)+
  show "0 < length (request_header req)" using v(2) by (simp add: request_header_def)
  show "length (request_header req) \<le> 76"
    using v(1) [of NETD_PROTOCOL_VERSION] v(1) [of "operation_tag (operation req)"]
      v(1) [of "request_id req"] v(1) [of "ucast (pid (request_owner req))"]
      v(1) [of "generation (request_owner req)"]
      v(1) [of "lease_deadline_mono_ms (request_owner req)"]
    by (simp add: request_header_def)
qed

lemma validate_declaration_counts:
  "validate_declaration d = Inr () \<Longrightarrow>
   length (routes d) \<le> MAX_ROUTES \<and> length (exclusions d) \<le> MAX_EXCLUSIONS"
  by (auto simp: validate_declaration_def split: if_splits)

lemma length_encode_payload:
  assumes "validate_request req = Inr ()" and "encode_payload (operation req) = Inr p"
  shows "length p \<le> 84 + 24 * 65536 + 24 * 64"
proof (cases "operation_declaration (operation req)")
  case None
  have v: "length (encode_varint v) \<le> 10" for v by (rule length_encode_varint)
  show ?thesis
  proof (cases "operation req")
    case (WithdrawPrefixes ps)
    then have "length ps \<le> 65536"
      and p: "p = encode_varint (of_nat (length ps)) @ concat (map encode_prefix ps)"
      using assms(2) by (auto simp: encode_payload_def MAX_ROUTES_def split: if_splits)
    moreover have "length (concat (map encode_prefix ps)) \<le> 14 * length ps"
      by (rule length_concat_map_le) (rule length_encode_prefix)
    ultimately show ?thesis using v [of "of_nat (length ps)"] by (simp add: p)
  next
    case (MtuUpdate mtu)
    then show ?thesis using assms(2) v [of "ucast mtu"] by (simp add: encode_payload_def)
  next
    case (Drain now)
    then show ?thesis using assms(2) v [of now] by (simp add: encode_payload_def)
  qed (use assms(2) None in \<open>auto simp: encode_payload_def\<close>)
next
  case (Some d)
  then show ?thesis
    using validate_declaration_counts [OF validate_request_declaration [OF assms(1) Some]]
      length_encode_declaration [of d] assms(2)
    by (simp add: encode_payload_def MAX_ROUTES_def MAX_EXCLUSIONS_def)
qed

lemma request_frame_fits:
  assumes "validate_request req = Inr ()" and "encode_payload (operation req) = Inr p"
  shows "ensure_frame (request_header req @ p) = Inr ()"
  using length_request_header [of req] length_encode_payload [OF assms]
  by (auto simp: ensure_frame_def MAX_NETD_FRAME_LEN_def)

lemma encode_request_Inr:
  "encode_request req = Inr bs \<longleftrightarrow>
     validate_request req = Inr () \<and>
     (\<exists>p. encode_payload (operation req) = Inr p \<and> bs = request_header req @ p)"
  using request_frame_fits by (auto simp: encode_request_def rbind_eq_Inr Let_def)

lemma encode_payload_total:
  "withdraw_count op \<le> MAX_ROUTES \<Longrightarrow> \<exists>p. encode_payload op = Inr p"
  by (cases op) (auto simp: encode_payload_def withdraw_count_def)

lemma encode_request_total:
  assumes "validate_request req = Inr ()" and "withdraw_count (operation req) \<le> MAX_ROUTES"
  shows "\<exists>bs. encode_request req = Inr bs \<and> length bs \<le> MAX_NETD_FRAME_LEN"
proof -
  obtain p where p: "encode_payload (operation req) = Inr p"
    using encode_payload_total assms(2) by blast
  then have "ensure_frame (request_header req @ p) = Inr ()" using assms(1) request_frame_fits by blast
  then show ?thesis
    using p assms(1) by (auto simp: encode_request_Inr ensure_frame_def split: if_splits)
qed

lemma request_eta:
  "\<lparr>request_id = request_id req,
    request_owner = \<lparr>instance_id = instance_id (request_owner req),
      pid = pid (request_owner req), generation = generation (request_owner req),
      lease_deadline_mono_ms = lease_deadline_mono_ms (request_owner req)\<rparr>,
    operation = operation req\<rparr> = req"
  by simp

lemma read_request_encode:
  assumes "request_ok req" and "encode_payload (operation req) = Inr p"
  shows "read_request (at [] (request_header req @ p)) = Inr (req, at (request_header req @ p) [])"
proof -
  have "list_all prefix_ok (operation_prefixes (operation req))"
    using assms(1) by (simp add: request_ok_def)
  from read_operation_encode [OF assms(2) request_ok_declaration [OF assms(1)] this, where rest = "[]"]
  show ?thesis
    by (simp add: read_request_def request_header_def codec_simps request_eta)
qed

lemma pbind_read_operation:
  assumes "pbind (read_operation tag) f (at before bs) = Inr y"
  shows "\<exists>op payload rest. tag = operation_tag op \<and> bs = payload @ rest \<and>
    encode_payload op = Inr payload \<and> list_all prefix_ok (operation_prefixes op) \<and>
    withdraw_count op \<le> MAX_ROUTES \<and> f op (at (before @ payload) rest) = Inr y"
  using assms encode_read_operation unfolding pbind_eq_Inr by blast

lemma encode_read_request:
  assumes "read_request (at [] bs) = Inr (req, r)" and "finish r = Inr ()"
  shows "\<exists>p. bs = request_header req @ p \<and> encode_payload (operation req) = Inr p \<and>
    list_all prefix_ok (operation_prefixes (operation req)) \<and>
    withdraw_count (operation req) \<le> MAX_ROUTES"
  using assms unfolding read_request_def
  by (auto split: if_splits dest!: varint.pbind_dec array16.pbind_dec pbind_read_operation
      simp: pbind_plift try_u32_Inr request_header_def)

lemma decode_request_iff_encode:
  "decode_request bs = Inr req \<longleftrightarrow> request_ok req \<and> encode_request req = Inr bs"
proof
  assume "decode_request bs = Inr req"
  then obtain r where "read_request (at [] bs) = Inr (req, r)" "finish r = Inr ()"
      "validate_request req = Inr ()"
    by (auto simp: decode_request_def rbind_eq_Inr new_reader_at)
  with encode_read_request [of bs req r] show "request_ok req \<and> encode_request req = Inr bs"
    by (auto simp: request_ok_def encode_request_Inr)
next
  assume ok: "request_ok req \<and> encode_request req = Inr bs"
  then obtain p where p: "encode_payload (operation req) = Inr p" "bs = request_header req @ p"
      "validate_request req = Inr ()"
    by (auto simp: encode_request_Inr)
  then show "decode_request bs = Inr req"
    using ok request_frame_fits [of req p]
    by (simp add: decode_request_def new_reader_at read_request_encode)
qed

section \<open>Properties\<close>

definition sample_owner :: lease_owner where
  "sample_owner = \<lparr>instance_id = 7, pid = 4242, generation = 3, lease_deadline_mono_ms = 90000\<rparr>"

definition sample_request :: "netd_operation \<Rightarrow> netd_request" where
  "sample_request op = \<lparr>request_id = 11, request_owner = sample_owner, operation = op\<rparr>"

lemma sample_request_simps [simp]:
  "request_id (sample_request op) = 11" "request_owner (sample_request op) = sample_owner"
  "operation (sample_request op) = op"
  by (simp_all add: sample_request_def)

lemma sample_prepare_valid: "validate_request (sample_request (Prepare sample_declaration)) = Inr ()"
  by (simp add: validate_request_def validate_owner_def sample_owner_def)

text \<open>
  C36: The request codec is an exact bijection on the wire: the decoder accepts a frame as request
  \<open>req\<close> if and only if \<open>req\<close> is well formed and that frame is its encoding. So decoding inverts
  encoding, every accepted frame is the canonical one for its request, and no two requests share
  a frame.
\<close>

theorem request_codec_exact:
  "decode_request bs = Inr req \<longleftrightarrow> request_ok req \<and> encode_request req = Inr bs"
  by (rule decode_request_iff_encode)

text \<open>
  Every valid request is sent: encoding succeeds, and the frame is within the 2 MiB limit the
  receiver enforces, whatever the number of routes and exclusions the validator admits. The one
  bound the encoder adds is the count of withdrawn prefixes.
\<close>

theorem valid_request_encodes:
  assumes "validate_request req = Inr ()" and "withdraw_count (operation req) \<le> MAX_ROUTES"
  shows "\<exists>bs. encode_request req = Inr bs \<and> length bs \<le> MAX_NETD_FRAME_LEN"
  using assms by (rule encode_request_total)

theorem valid_request_encodes_witness:
  "\<exists>bs. encode_request (sample_request (Prepare sample_declaration)) = Inr bs
     \<and> length bs \<le> MAX_NETD_FRAME_LEN"
  by (rule valid_request_encodes [OF sample_prepare_valid]) (simp add: withdraw_count_def)

text \<open>
  The response codec is exact in the same sense: a frame decodes to a response if and only if
  that response encodes to the frame.
\<close>

theorem response_codec_exact:
  "decode_response bs = Inr resp \<longleftrightarrow> encode_response resp = Inr bs"
  by (rule decode_response_iff)

end
