(* ===== verification/Netd_Ipc.thy ===== *)
theory Netd_Ipc
  imports Netd_Messages
begin

text \<open>
  The IPC layer of \<^verbatim>\<open>candy-netd-client/src/lib.rs\<close>: length-prefixed frames over a Unix stream socket,
  with the descriptors that travel beside them, and the four functions that exchange requests and
  responses. The stream delivers and accepts bytes in arbitrary pieces; a frame survives any of
  them.
\<close>

section \<open>Streams\<close>

datatype ipc_error =
    IpcIo
  | IpcSocket
  | FrameLength
  | Protocol netd_protocol_error
  | DescriptorMismatch
  | RequestIdExhausted
  | Remote error_code
  | UnexpectedResponse
  | IpcInvalidTransition

text \<open>
  What a read meets: a segment of bytes (of which it takes at most its buffer), an interruption, an
  error, or the deadline of the frame passing before it. The end of the list is the peer's close.
\<close>

datatype read_event = Segment bytes | Interrupted | ReadError | DeadlinePassed

fun apply_read_deadline :: "bool \<Rightarrow> read_event list \<Rightarrow> ipc_error + read_event list" where
  "apply_read_deadline deadline (DeadlinePassed # evs) =
     (if deadline then Inl IpcIo else apply_read_deadline deadline evs)"
| "apply_read_deadline deadline evs = Inr evs"

text \<open>The first \<open>n\<close> bytes of a segment; what does not fit stays in the socket.\<close>

definition unread :: "nat \<Rightarrow> bytes \<Rightarrow> read_event list \<Rightarrow> read_event list" where
  "unread n bs evs = (if length bs \<le> n then evs else Segment (drop n bs) # evs)"

definition events_left :: "read_event list \<Rightarrow> nat" where
  "events_left evs = sum_list (map (\<lambda>e. case e of Segment bs \<Rightarrow> Suc (length bs) | _ \<Rightarrow> 1) evs)"

lemma events_left_simps [simp]:
  "events_left [] = 0" "events_left (Segment bs # evs) = Suc (length bs) + events_left evs"
  "events_left (Interrupted # evs) = Suc (events_left evs)"
  "events_left (ReadError # evs) = Suc (events_left evs)"
  "events_left (DeadlinePassed # evs) = Suc (events_left evs)"
  by (simp_all add: events_left_def)

lemma apply_read_deadline_left:
  "apply_read_deadline deadline evs = Inr evs' \<Longrightarrow> events_left evs' \<le> events_left evs"
proof (induction deadline evs rule: apply_read_deadline.induct)
  case (1 deadline evs)
  then show ?case by (fastforce split: if_splits)
qed auto

text \<open>
  \<^verbatim>\<open>read_exact_until\<close>: fill a buffer of \<open>n\<close> bytes. A segment of no bytes is a read that returned zero,
  like the end of the stream.
\<close>

function read_exact_until :: "bool \<Rightarrow> nat \<Rightarrow> read_event list \<Rightarrow> ipc_error + (bytes \<times> read_event list)" where
  "read_exact_until deadline n evs =
     (if n = 0 then Inr ([], evs)
      else
        case apply_read_deadline deadline evs of
          Inl e \<Rightarrow> Inl e
        | Inr [] \<Rightarrow> Inl IpcIo
        | Inr (Interrupted # rest) \<Rightarrow> read_exact_until deadline n rest
        | Inr (Segment bs # rest) \<Rightarrow>
            if bs = [] then Inl IpcIo
            else
              rbind (read_exact_until deadline (n - min n (length bs)) (unread n bs rest))
                (\<lambda>(w1, left). Inr (take n bs @ w1, left))
        | Inr (_ # rest) \<Rightarrow> Inl IpcIo)"
  by pat_completeness auto
termination
proof (relation "measure (\<lambda>(deadline, n, evs). events_left evs)"; clarsimp)
  fix deadline n evs rest
  assume "apply_read_deadline deadline evs = Inr (Interrupted # rest)"
  then show "events_left rest < events_left evs" by (auto dest: apply_read_deadline_left)
next
  fix deadline and n :: nat and evs rest and bs :: bytes
  assume "apply_read_deadline deadline evs = Inr (Segment bs # rest)" "0 < n"
  then show "events_left (unread n bs rest) < events_left evs"
    by (auto dest!: apply_read_deadline_left simp: unread_def)
qed

declare read_exact_until.simps [simp del]

section \<open>Frames\<close>

definition LENGTH_PREFIX_LEN :: nat where "LENGTH_PREFIX_LEN = 4"

text \<open>
  \<^verbatim>\<open>recvmsg\<close> with a four-byte buffer, retried while it is interrupted: the bytes it took, possibly none.
\<close>

fun recvmsg :: "bool \<Rightarrow> read_event list \<Rightarrow> ipc_error + (bytes \<times> read_event list)" where
  "recvmsg deadline [] = Inr ([], [])"
| "recvmsg deadline (DeadlinePassed # evs) = (if deadline then Inl IpcIo else recvmsg deadline evs)"
| "recvmsg deadline (Interrupted # evs) = recvmsg deadline evs"
| "recvmsg deadline (ReadError # evs) = Inl IpcIo"
| "recvmsg deadline (Segment bs # evs) =
     Inr (take LENGTH_PREFIX_LEN bs, unread LENGTH_PREFIX_LEN bs evs)"

text \<open>
  \<^verbatim>\<open>recv_frame_until\<close>. The control messages of the first \<^verbatim>\<open>recvmsg\<close> give \<open>descriptors\<close> and \<open>truncated\<close>
  (\<^verbatim>\<open>MSG_CTRUNC\<close>); \<open>set_cloexec\<close> is the outcome of the \<^verbatim>\<open>fcntl\<close> calls on them.
\<close>

definition recv_frame_until ::
    "bool \<Rightarrow> 'd list \<Rightarrow> bool \<Rightarrow> ('d \<Rightarrow> bool) \<Rightarrow> read_event list
       \<Rightarrow> ipc_error + ((bytes \<times> 'd list) \<times> read_event list)" where
  "recv_frame_until deadline descriptors truncated set_cloexec evs =
     rbind (recvmsg deadline evs) (\<lambda>(first, evs1).
     if truncated \<or> length descriptors > 2 then Inl DescriptorMismatch
     else if \<not> list_all set_cloexec descriptors then Inl IpcSocket
     else if first = [] then Inl IpcIo
     else
       rbind (if length first < LENGTH_PREFIX_LEN
              then rbind (read_exact_until deadline (LENGTH_PREFIX_LEN - length first) evs1)
                     (\<lambda>(w1, evs2). Inr (first @ w1, evs2))
              else Inr (first, evs1)) (\<lambda>(prefix, evs2).
       let payload_len = unat (from_be_bytes prefix :: u32) in
       if payload_len = 0 \<or> payload_len > MAX_NETD_FRAME_LEN then Inl FrameLength
       else
         rbind (read_exact_until deadline payload_len evs2) (\<lambda>(payload, evs3).
         Inr ((payload, descriptors), evs3))))"

text \<open>
  The sending side. An attempt writes at most a given number of bytes, is interrupted, fails, or
  finds the deadline passed; when the list of attempts is used up the socket takes all it is given.
\<close>

datatype write_event = Accepts nat | WriteInterrupted | WriteError | WriteDeadlinePassed

fun write_all_until ::
    "bool \<Rightarrow> bytes \<Rightarrow> write_event list \<Rightarrow> (ipc_error + unit) \<times> bytes \<times> write_event list" where
  "write_all_until deadline bs [] = (Inr (), bs, [])"
| "write_all_until deadline bs (w # ws) =
     (if bs = [] then (Inr (), [], w # ws)
      else
        case w of
          WriteDeadlinePassed \<Rightarrow>
            if deadline then (Inl IpcIo, [], ws) else write_all_until deadline bs ws
        | WriteInterrupted \<Rightarrow> write_all_until deadline bs ws
        | WriteError \<Rightarrow> (Inl IpcIo, [], ws)
        | Accepts n \<Rightarrow>
            if n = 0 then (Inl IpcIo, [], ws)
            else (case write_all_until deadline (drop n bs) ws of (r, out, ws') \<Rightarrow>
                    (r, take n bs @ out, ws')))"

text \<open>
  \<^verbatim>\<open>sendmsg\<close> in its retry loop: the number of bytes it took of the frame, and the attempts left. With the
  attempts used up it takes the whole frame.
\<close>

fun sendmsg :: "bool \<Rightarrow> nat \<Rightarrow> write_event list \<Rightarrow> ipc_error + (nat \<times> write_event list)" where
  "sendmsg deadline len [] = Inr (len, [])"
| "sendmsg deadline len (WriteDeadlinePassed # ws) =
     (if deadline then Inl IpcIo else sendmsg deadline len ws)"
| "sendmsg deadline len (WriteInterrupted # ws) = sendmsg deadline len ws"
| "sendmsg deadline len (WriteError # ws) = Inl IpcSocket"
| "sendmsg deadline len (Accepts n # ws) = Inr (min n len, ws)"

definition send_frame_until ::
    "bool \<Rightarrow> bytes \<Rightarrow> write_event list \<Rightarrow> (ipc_error + unit) \<times> bytes" where
  "send_frame_until deadline payload ws =
     (if payload = [] \<or> length payload > MAX_NETD_FRAME_LEN then (Inl FrameLength, [])
      else
        let prefix = to_be_bytes 4 (of_nat (length payload) :: u32);
            frame_len = LENGTH_PREFIX_LEN + length payload in
        case sendmsg deadline frame_len ws of
          Inl e \<Rightarrow> (Inl e, [])
        | Inr (sent, ws1) \<Rightarrow>
            let out = take sent (prefix @ payload) in
            if sent = 0 \<or> sent > frame_len then (Inl IpcIo, out)
            else if \<not> sent < frame_len then (Inr (), out)
            else if sent < LENGTH_PREFIX_LEN then
              (case write_all_until deadline (drop sent prefix) ws1 of
                 (Inl e, w1, _) \<Rightarrow> (Inl e, out @ w1)
               | (Inr _, w1, ws2) \<Rightarrow>
                   (case write_all_until deadline payload ws2 of
                      (r, w2, _) \<Rightarrow> (r, out @ w1 @ w2)))
            else
              (case write_all_until deadline (drop (sent - LENGTH_PREFIX_LEN) payload) ws1 of
                 (r, w1, _) \<Rightarrow> (r, out @ w1)))"

section \<open>Any fragmentation delivers the frame\<close>

text \<open>Events that carry bytes and no failure, and the bytes they carry.\<close>

fun carried :: "read_event list \<Rightarrow> bytes" where
  "carried (Segment bs # evs) = bs @ carried evs"
| "carried (_ # evs) = carried evs"
| "carried [] = []"

fun undisturbed :: "bool \<Rightarrow> read_event \<Rightarrow> bool" where
  "undisturbed deadline (Segment bs) \<longleftrightarrow> bs \<noteq> []"
| "undisturbed deadline Interrupted \<longleftrightarrow> True"
| "undisturbed deadline ReadError \<longleftrightarrow> False"
| "undisturbed deadline DeadlinePassed \<longleftrightarrow> \<not> deadline"

lemma apply_read_deadline_undisturbed:
  assumes "list_all (undisturbed deadline) evs"
  shows "\<exists>evs'. apply_read_deadline deadline evs = Inr evs' \<and> list_all (undisturbed deadline) evs'
    \<and> carried evs' = carried evs \<and> (\<forall>rest. evs' \<noteq> DeadlinePassed # rest)"
  using assms by (induction deadline evs rule: apply_read_deadline.induct) auto

lemma carried_unread:
  "n \<le> length bs \<Longrightarrow> carried (unread n bs evs) = drop n bs @ carried evs"
  "length bs \<le> n \<Longrightarrow> carried (unread n bs evs) = carried evs"
  by (auto simp: unread_def)

lemma undisturbed_unread:
  "list_all (undisturbed deadline) evs \<Longrightarrow> list_all (undisturbed deadline) (unread n bs evs)"
  by (simp add: unread_def)

lemma read_exact_until_undisturbed:
  assumes "list_all (undisturbed deadline) evs" and "n \<le> length (carried evs)"
  shows "\<exists>evs'. read_exact_until deadline n evs = Inr (take n (carried evs), evs')
    \<and> list_all (undisturbed deadline) evs' \<and> carried evs' = drop n (carried evs)"
  using assms
proof (induction deadline n evs rule: read_exact_until.induct)
  case (1 deadline n evs)
  show ?case
  proof (cases "n = 0")
    case True
    with 1 show ?thesis by (subst read_exact_until.simps) auto
  next
    case n: False
    from 1(3) obtain evs1 where e: "apply_read_deadline deadline evs = Inr evs1"
        "list_all (undisturbed deadline) evs1" "carried evs1 = carried evs"
        "\<forall>rest. evs1 \<noteq> DeadlinePassed # rest"
      using apply_read_deadline_undisturbed by blast
    show ?thesis
    proof (cases evs1)
      case Nil
      with e 1(4) n show ?thesis by simp
    next
      case (Cons ev rest)
      show ?thesis
      proof (cases ev)
        case Interrupted
        from 1(2) [OF n e(1) Cons Interrupted] 1(4) e Cons Interrupted n show ?thesis
          by (subst read_exact_until.simps) simp
      next
        case (Segment bs)
        have bs: "bs \<noteq> []" using e(2) Cons Segment by simp
        let ?rest = "unread n bs rest" and ?m = "n - min n (length bs)"
        have split: "carried evs = bs @ carried rest" using e(3) Cons Segment by simp
        have car: "carried ?rest = drop (min n (length bs)) (carried evs)"
          by (cases "n \<le> length bs") (simp_all add: carried_unread split)
        have "?m \<le> length (carried ?rest)" using 1(4) car by (simp add: diff_le_mono)
        moreover have "list_all (undisturbed deadline) ?rest"
          using e(2) Cons by (simp add: undisturbed_unread)
        ultimately obtain evs' where r: "read_exact_until deadline ?m ?rest = Inr (take ?m (carried ?rest), evs')"
            "list_all (undisturbed deadline) evs'" "carried evs' = drop ?m (carried ?rest)"
          using 1(1) [OF n e(1) Cons Segment bs] by blast
        have "take n bs @ take ?m (carried ?rest) = take n (carried evs)"
          by (cases "n \<le> length bs") (simp_all add: car split min_def)
        moreover have "carried evs' = drop n (carried evs)"
          using r(3) car by (cases "n \<le> length bs") (simp_all add: min_def)
        ultimately show ?thesis
          by (subst read_exact_until.simps) (use n e(1) Cons Segment bs r(1,2) in simp)
      qed (use e(2,4) Cons in auto)
    qed
  qed
qed

lemma recvmsg_undisturbed:
  assumes "list_all (undisturbed deadline) evs" and "carried evs \<noteq> []"
  shows "\<exists>first evs1. recvmsg deadline evs = Inr (first, evs1) \<and> first \<noteq> []
    \<and> length first \<le> LENGTH_PREFIX_LEN \<and> list_all (undisturbed deadline) evs1
    \<and> carried evs = first @ carried evs1"
  using assms
proof (induction deadline evs rule: recvmsg.induct)
  case (5 deadline bs evs)
  then show ?case
    by (cases "LENGTH_PREFIX_LEN \<le> length bs")
      (auto simp: undisturbed_unread carried_unread LENGTH_PREFIX_LEN_def)
qed auto

lemma to_be_bytes_u32_length: "length (to_be_bytes 4 (w :: u32)) = LENGTH_PREFIX_LEN"
  by (simp add: LENGTH_PREFIX_LEN_def)

lemma frame_len_u32:
  "n \<le> MAX_NETD_FRAME_LEN \<Longrightarrow> unat (of_nat n :: u32) = n"
  by (simp add: MAX_NETD_FRAME_LEN_def unsigned_of_nat take_bit_nat_eq_self)

text \<open>The length prefix is complete whatever the first read returned.\<close>

lemma read_prefix_undisturbed:
  assumes ok: "list_all (undisturbed deadline) evs1" and len: "length first \<le> LENGTH_PREFIX_LEN"
    and bytes: "first @ carried evs1 = prefix @ tail_bytes" and prefix: "length prefix = LENGTH_PREFIX_LEN"
  shows "\<exists>evs2. (if length first < LENGTH_PREFIX_LEN
       then rbind (read_exact_until deadline (LENGTH_PREFIX_LEN - length first) evs1)
              (\<lambda>(w1, evs2). Inr (first @ w1, evs2))
       else Inr (first, evs1)) = Inr (prefix, evs2)
     \<and> list_all (undisturbed deadline) evs2 \<and> carried evs2 = tail_bytes"
proof (cases "length first < LENGTH_PREFIX_LEN")
  case True
  let ?n = "LENGTH_PREFIX_LEN - length first"
  have "?n \<le> length (carried evs1)" using bytes prefix by (metis diff_le_mono le_add1 length_append add_diff_cancel_left')
  from read_exact_until_undisturbed [OF ok this] obtain evs2 where
    r: "read_exact_until deadline ?n evs1 = Inr (take ?n (carried evs1), evs2)"
      "list_all (undisturbed deadline) evs2" "carried evs2 = drop ?n (carried evs1)" by blast
  have "first @ take ?n (carried evs1) = take LENGTH_PREFIX_LEN (first @ carried evs1)"
    using len by simp
  also have "\<dots> = prefix" using bytes prefix by simp
  finally have p: "first @ take ?n (carried evs1) = prefix" .
  have "drop ?n (carried evs1) = drop LENGTH_PREFIX_LEN (first @ carried evs1)" using len by simp
  also have "\<dots> = tail_bytes" using bytes prefix by simp
  finally show ?thesis using True r p by simp
next
  case False
  then have "length first = length prefix" using len prefix by simp
  with bytes ok False show ?thesis by simp
qed

lemma recv_frame_undisturbed:
  assumes ok: "list_all (undisturbed deadline) evs" and payload: "payload \<noteq> []" "length payload \<le> MAX_NETD_FRAME_LEN"
    and bytes: "carried evs = to_be_bytes 4 (of_nat (length payload) :: u32) @ payload @ rest"
    and ds: "length descriptors \<le> 2" "list_all set_cloexec descriptors"
  shows "\<exists>evs'. recv_frame_until deadline descriptors False set_cloexec evs = Inr ((payload, descriptors), evs')
    \<and> list_all (undisturbed deadline) evs' \<and> carried evs' = rest"
proof -
  let ?prefix = "to_be_bytes 4 (of_nat (length payload) :: u32)"
  from recvmsg_undisturbed [OF ok] bytes payload(1) obtain first evs1 where
    first: "recvmsg deadline evs = Inr (first, evs1)" "first \<noteq> []" "length first \<le> LENGTH_PREFIX_LEN"
      "list_all (undisturbed deadline) evs1" "first @ carried evs1 = ?prefix @ (payload @ rest)" by auto
  obtain evs2 where pre: "(if length first < LENGTH_PREFIX_LEN
       then rbind (read_exact_until deadline (LENGTH_PREFIX_LEN - length first) evs1)
              (\<lambda>(w1, evs2). Inr (first @ w1, evs2))
       else Inr (first, evs1)) = Inr (?prefix, evs2)"
      "list_all (undisturbed deadline) evs2" "carried evs2 = payload @ rest"
    using read_prefix_undisturbed [OF first(4,3,5) to_be_bytes_u32_length] by blast
  from read_exact_until_undisturbed [OF pre(2), of "length payload"] pre(3) obtain evs3 where
    "read_exact_until deadline (length payload) evs2 = Inr (payload, evs3)"
    "list_all (undisturbed deadline) evs3" "carried evs3 = rest" by auto
  then show ?thesis
    using first(1,2) pre(1) payload ds frame_len_u32 [OF payload(2)]
    by (simp add: recv_frame_until_def from_to_be_bytes)
qed

lemma write_all_until_exact:
  "write_all_until deadline bs ws = (r, out, ws') \<Longrightarrow>
   (\<exists>rest. bs = out @ rest \<and> (r = Inr () \<longrightarrow> rest = []))"
proof (induction deadline bs ws arbitrary: r out ws' rule: write_all_until.induct)
  case (2 deadline bs w ws)
  show ?case
  proof (cases "\<exists>n. w = Accepts n \<and> n \<noteq> 0 \<and> bs \<noteq> []")
    case True
    then obtain n r' out' ws'' where n: "w = Accepts n" "n \<noteq> 0" "bs \<noteq> []"
        "write_all_until deadline (drop n bs) ws = (r', out', ws'')" by (metis surj_pair)
    from 2(1) [OF n(3,1,2,4)] obtain rest where "drop n bs = out' @ rest" "r' = Inr () \<longrightarrow> rest = []"
      by blast
    moreover have "out = take n bs @ out'" "r = r'" using 2(4) n by simp_all
    ultimately show ?thesis using append_take_drop_id [of n bs] by (metis append.assoc)
  next
    case False
    with 2 show ?thesis by (cases w) (auto split: if_splits)
  qed
qed simp

text \<open>A frame that was sent is on the wire byte for byte, however the socket took it.\<close>

lemma send_frame_exact:
  assumes "send_frame_until deadline payload ws = (Inr u, out)"
  shows "payload \<noteq> [] \<and> length payload \<le> MAX_NETD_FRAME_LEN
    \<and> out = to_be_bytes 4 (of_nat (length payload) :: u32) @ payload"
proof -
  let ?prefix = "to_be_bytes 4 (of_nat (length payload) :: u32)"
  have len: "length ?prefix = LENGTH_PREFIX_LEN" by (rule to_be_bytes_u32_length)
  from assms obtain sent ws1 where small: "payload \<noteq> []" "length payload \<le> MAX_NETD_FRAME_LEN"
      and send: "sendmsg deadline (LENGTH_PREFIX_LEN + length payload) ws = Inr (sent, ws1)"
    by (auto simp: send_frame_until_def Let_def split: if_splits sum.splits)
  have "out = ?prefix @ payload"
  proof (cases "sent < LENGTH_PREFIX_LEN + length payload")
    case False
    with assms small send show ?thesis
      by (auto simp: send_frame_until_def Let_def LENGTH_PREFIX_LEN_def split: if_splits)
  next
    case True
    show ?thesis
    proof (cases "sent < LENGTH_PREFIX_LEN")
      case small_sent: True
      with assms small send True obtain w1 ws2 w2 ws3 where
        w: "write_all_until deadline (drop sent ?prefix) ws1 = (Inr (), w1, ws2)"
          "write_all_until deadline payload ws2 = (Inr (), w2, ws3)"
          "out = take sent (?prefix @ payload) @ w1 @ w2"
        by (auto simp: send_frame_until_def Let_def split: if_splits sum.splits prod.splits)
      have "w1 = drop sent ?prefix" "w2 = payload"
        using write_all_until_exact [OF w(1)] write_all_until_exact [OF w(2)] by auto
      with w(3) small_sent len show ?thesis by simp
    next
      case big: False
      with assms small send True obtain w1 ws2 where
        w: "write_all_until deadline (drop (sent - LENGTH_PREFIX_LEN) payload) ws1 = (Inr (), w1, ws2)"
          "out = take sent (?prefix @ payload) @ w1"
        by (auto simp: send_frame_until_def Let_def split: if_splits prod.splits)
      have "w1 = drop (sent - LENGTH_PREFIX_LEN) payload" using write_all_until_exact [OF w(1)] by auto
      with w(2) big len show ?thesis by simp
    qed
  qed
  with small show ?thesis by simp
qed

section \<open>Requests and responses\<close>

text \<open>
  The message functions over a received frame (its payload and descriptors) and a frame to send (its
  payload and at most one descriptor).
\<close>

definition expects_descriptor :: "response_body \<Rightarrow> bool" where
  "expects_descriptor b = (case b of RespPrepared _ attached \<Rightarrow> attached | _ \<Rightarrow> False)"

definition send_request :: "netd_request \<Rightarrow> ipc_error + (bytes \<times> 'd option)" where
  "send_request req = rbind (map_err Protocol (encode_request req)) (\<lambda>payload. Inr (payload, None))"

definition recv_request :: "bytes \<times> 'd list \<Rightarrow> ipc_error + netd_request" where
  "recv_request fr =
     (if snd fr \<noteq> [] then Inl DescriptorMismatch else map_err Protocol (decode_request (fst fr)))"

definition send_response :: "netd_response \<Rightarrow> 'd option \<Rightarrow> ipc_error + (bytes \<times> 'd option)" where
  "send_response resp descriptor =
     (if expects_descriptor (body resp) \<noteq> (descriptor \<noteq> None) then Inl DescriptorMismatch
      else rbind (map_err Protocol (encode_response resp)) (\<lambda>payload. Inr (payload, descriptor)))"

definition recv_response :: "bytes \<times> 'd list \<Rightarrow> ipc_error + (netd_response \<times> 'd option)" where
  "recv_response fr =
     rbind (map_err Protocol (decode_response (fst fr))) (\<lambda>resp.
     if length (snd fr) > 1 \<or> expects_descriptor (body resp) \<noteq> (length (snd fr) = 1)
     then Inl DescriptorMismatch
     else Inr (resp, if snd fr = [] then None else Some (last (snd fr))))"

text \<open>The descriptors a receiver finds beside a sent frame.\<close>

definition attached :: "'d option \<Rightarrow> 'd list" where
  "attached d = (case d of None \<Rightarrow> [] | Some fd \<Rightarrow> [fd])"

lemma recv_send_request:
  assumes "request_ok req" and "send_request req = Inr (payload, d)"
  shows "recv_request (payload, attached d) = Inr req"
  using assms decode_request_iff_encode [of payload req]
  by (auto simp: send_request_def recv_request_def attached_def map_err_def rbind_eq_Inr split: sum.splits)

lemma recv_send_response:
  assumes "send_response resp d = Inr (payload, d')"
  shows "recv_response (payload, attached d') = Inr (resp, d)"
proof -
  have "encode_response resp = Inr payload" "d' = d" "expects_descriptor (body resp) \<longleftrightarrow> d \<noteq> None"
    using assms by (auto simp: send_response_def map_err_def rbind_eq_Inr split: sum.splits if_splits)
  moreover from this(1) have "decode_response payload = Inr resp" by (simp add: decode_response_iff)
  ultimately show ?thesis
    by (cases d) (simp_all add: recv_response_def attached_def map_err_def)
qed

section \<open>Property\<close>



end
