(* ===== verification/Netd_Client.thy ===== *)
theory Netd_Client
  imports Netd_Ipc
begin

text \<open>
  The netd client (\<^verbatim>\<open>NetdClient\<close> of \<^verbatim>\<open>candy-netd-client/src/lib.rs\<close>): the local phase, the request ids, and
  one operation per request. The transport (connecting, sending one frame, receiving one frame) is a
  parameter, so that the client can be run against any peer, the netd service among them.
\<close>

section \<open>State\<close>

datatype client_phase = ClientStopped | ClientPrepared | ClientActive | ClientSuspended

text \<open>\<open>deliver\<close> sends the payload of a request and receives the payload and descriptors of the answer.\<close>

record ('w, 'd) transport =
  connect :: "('w, ipc_error, unit) action"
  deliver :: "bytes \<Rightarrow> ('w, ipc_error, bytes \<times> 'd list) action"

record 'w netd_client =
  socket :: 'w
  client_owner :: lease_owner
  next_request_id :: "u64 option"
  client_phase :: client_phase

type_synonym ('w, 'a) client_action = "('w netd_client, ipc_error, 'a) action"

definition new_client :: "'w \<Rightarrow> lease_owner \<Rightarrow> 'w netd_client" where
  "new_client w owner =
     \<lparr>socket = w, client_owner = owner, next_request_id = Some 1, client_phase = ClientStopped\<rparr>"

definition on_socket :: "('w, ipc_error, 'a) action \<Rightarrow> ('w, 'a) client_action" where
  "on_socket m c = (case m (socket c) of (r, w) \<Rightarrow> (r, c\<lparr>socket := w\<rparr>))"

section \<open>Exchanges\<close>

definition checked_add :: "u64 \<Rightarrow> u64 \<Rightarrow> u64 option" where
  "checked_add a b = (if a + b < a then None else Some (a + b))"

definition client_request :: "'w netd_client \<Rightarrow> u64 \<Rightarrow> netd_operation \<Rightarrow> netd_request" where
  "client_request c i op = \<lparr>request_id = i, request_owner = client_owner c, operation = op\<rparr>"

definition exchange :: "('w, 'd) transport \<Rightarrow> netd_operation \<Rightarrow> ('w, response_body \<times> 'd option) client_action" where
  "exchange T op =
     bind (gets next_request_id) (\<lambda>ids.
     bind (of_result (ok_or RequestIdExhausted ids)) (\<lambda>i.
     bind (gets (\<lambda>c. client_request c i op)) (\<lambda>req.
     andthen (on_socket (connect T))
     (bind (of_result (send_request req)) (\<lambda>(payload, _ :: 'd option).
     bind (on_socket (deliver T payload)) (\<lambda>fr.
     bind (of_result (recv_response fr)) (\<lambda>(resp, descriptor).
     andthen (modify (\<lambda>c. c\<lparr>next_request_id := checked_add i 1\<rparr>))
     (if response_id resp \<noteq> i then throw UnexpectedResponse
      else
        case body resp of
          RespError code \<Rightarrow>
            if descriptor \<noteq> None then throw DescriptorMismatch else throw (Remote code)
        | b \<Rightarrow> return (b, descriptor)))))))))"

definition exchange_generation ::
    "('w, 'd) transport \<Rightarrow> netd_operation \<Rightarrow> (response_body \<Rightarrow> u64 option) \<Rightarrow> ('w, u64) client_action" where
  "exchange_generation T op answer =
     bind (exchange T op) (\<lambda>(b, descriptor).
     if descriptor \<noteq> None then throw DescriptorMismatch
     else
       bind (of_result (ok_or UnexpectedResponse (answer b))) (\<lambda>gen.
       bind (gets client_owner) (\<lambda>owner.
       if gen \<noteq> generation owner then throw UnexpectedResponse else return gen)))"

definition require_phase :: "client_phase set \<Rightarrow> ('w, unit) client_action" where
  "require_phase phases =
     bind (gets client_phase) (\<lambda>p. if p \<in> phases then return () else throw IpcInvalidTransition)"

definition enter :: "client_phase \<Rightarrow> ('w, unit) client_action" where
  "enter p = modify (\<lambda>c. c\<lparr>client_phase := p\<rparr>)"

section \<open>Operations\<close>

definition client_prepare :: "('w, 'd) transport \<Rightarrow> prepare_declaration \<Rightarrow> ('w, u64 \<times> 'd) client_action" where
  "client_prepare T d =
     andthen (require_phase {ClientStopped})
     (bind (exchange T (Prepare d)) (\<lambda>(b, descriptor).
      case b of
        RespPrepared gen True \<Rightarrow>
          bind (gets client_owner) (\<lambda>owner.
          if gen \<noteq> generation owner then throw UnexpectedResponse
          else
            bind (of_result (ok_or DescriptorMismatch descriptor)) (\<lambda>fd.
            andthen (enter ClientPrepared) (return (gen, fd))))
      | _ \<Rightarrow> throw UnexpectedResponse))"

definition client_commit :: "('w, 'd) transport \<Rightarrow> ('w, u64) client_action" where
  "client_commit T =
     andthen (require_phase {ClientPrepared})
     (bind (exchange_generation T Commit (\<lambda>b. case b of RespCommitted g \<Rightarrow> Some g | _ \<Rightarrow> None)) (\<lambda>gen.
      andthen (enter ClientActive) (return gen)))"

definition client_rollback :: "('w, 'd) transport \<Rightarrow> ('w, u64) client_action" where
  "client_rollback T =
     andthen (require_phase (- {ClientStopped}))
     (bind (exchange_generation T Rollback (\<lambda>b. case b of RespRolledBack g \<Rightarrow> Some g | _ \<Rightarrow> None)) (\<lambda>gen.
      andthen (enter ClientStopped) (return gen)))"

definition client_set_failed_prefixes :: "('w, 'd) transport \<Rightarrow> ipv4_prefix list \<Rightarrow> ('w, u64) client_action" where
  "client_set_failed_prefixes T ps =
     andthen (require_phase {ClientActive, ClientSuspended})
     (exchange_generation T (WithdrawPrefixes ps)
        (\<lambda>b. case b of RespPrefixesWithdrawn g _ \<Rightarrow> Some g | _ \<Rightarrow> None))"

definition set_deadline :: "u64 \<Rightarrow> ('w, unit) client_action" where
  "set_deadline v = modify (\<lambda>c. c\<lparr>client_owner := client_owner c\<lparr>lease_deadline_mono_ms := v\<rparr>\<rparr>)"

definition set_lease :: "u64 \<Rightarrow> u64 \<Rightarrow> ('w, unit) client_action" where
  "set_lease gen deadline = modify (\<lambda>c. c\<lparr>client_owner :=
     client_owner c\<lparr>generation := gen, lease_deadline_mono_ms := deadline\<rparr>\<rparr>)"

definition client_renew_lease :: "('w, 'd) transport \<Rightarrow> u64 \<Rightarrow> ('w, u64) client_action" where
  "client_renew_lease T deadline =
     bind (gets client_phase) (\<lambda>p.
     if p = ClientStopped \<or> deadline = 0 then throw IpcInvalidTransition
     else
       bind (gets (lease_deadline_mono_ms \<circ> client_owner)) (\<lambda>previous.
       andthen (set_deadline deadline)
       (bind (attempt (exchange_generation T LeaseRenew
               (\<lambda>b. case b of RespLeaseRenewed g \<Rightarrow> Some g | _ \<Rightarrow> None))) (\<lambda>result.
        case result of
          Inl e \<Rightarrow> andthen (set_deadline previous) (throw e)
        | Inr gen \<Rightarrow> return gen))))"

definition client_update_mtu :: "('w, 'd) transport \<Rightarrow> u16 \<Rightarrow> ('w, u16) client_action" where
  "client_update_mtu T mtu =
     andthen (require_phase {ClientActive})
     (bind (exchange T (MtuUpdate mtu)) (\<lambda>(b, descriptor).
      if descriptor \<noteq> None then throw DescriptorMismatch
      else
        case b of
          RespMtuUpdated gen mtu' \<Rightarrow>
            bind (gets client_owner) (\<lambda>owner.
            if gen \<noteq> generation owner then throw UnexpectedResponse else return mtu')
        | _ \<Rightarrow> throw UnexpectedResponse))"

definition client_update_policy :: "('w, 'd) transport \<Rightarrow> prepare_declaration \<Rightarrow> ('w, u64) client_action" where
  "client_update_policy T d =
     andthen (require_phase {ClientActive, ClientSuspended})
     (exchange_generation T (PolicyUpdate d) (\<lambda>b. case b of RespPolicyUpdated g \<Rightarrow> Some g | _ \<Rightarrow> None))"

definition client_suspend :: "('w, 'd) transport \<Rightarrow> ('w, u64) client_action" where
  "client_suspend T =
     andthen (require_phase {ClientActive})
     (bind (exchange_generation T Suspend (\<lambda>b. case b of RespSuspended g \<Rightarrow> Some g | _ \<Rightarrow> None)) (\<lambda>gen.
      andthen (enter ClientSuspended) (return gen)))"

definition reconfigure_answer :: "response_body \<Rightarrow> u64 option" where
  "reconfigure_answer b = (case b of RespReconfigured g \<Rightarrow> Some g | _ \<Rightarrow> None)"

text \<open>The reconciliation after a failed reconfigure: did netd commit it before the answer was lost?\<close>

definition committed :: "u64 \<Rightarrow> ipc_error + (response_body \<times> 'd option) \<Rightarrow> bool" where
  "committed gen result =
     (case result of
        Inr (RespStatus Suspended observed, None) \<Rightarrow> observed = gen
      | _ \<Rightarrow> False)"

definition reconfigure_with_owner ::
    "('w, 'd) transport \<Rightarrow> prepare_declaration \<Rightarrow> u64 \<Rightarrow> u64 \<Rightarrow> ('w, u64) client_action" where
  "reconfigure_with_owner T d gen deadline =
     andthen (require_phase {ClientSuspended, ClientActive})
     (if gen = 0 \<or> deadline = 0 then throw IpcInvalidTransition
      else
        bind (gets client_owner) (\<lambda>previous.
        andthen (set_lease gen deadline)
        (bind (attempt (exchange_generation T (Reconfigure d) reconfigure_answer)) (\<lambda>result.
         case result of
           Inr g \<Rightarrow> return g
         | Inl e \<Rightarrow>
             bind (attempt (exchange T Status)) (\<lambda>status.
             if committed gen status then return gen
             else
               andthen (set_lease (generation previous) (lease_deadline_mono_ms previous)) (throw e))))))"

definition client_reconfigure :: "('w, 'd) transport \<Rightarrow> prepare_declaration \<Rightarrow> ('w, u64) client_action" where
  "client_reconfigure T d =
     bind (gets client_owner) (\<lambda>owner.
     reconfigure_with_owner T d (generation owner) (lease_deadline_mono_ms owner))"

definition prepare_replacement_with_owner ::
    "('w, 'd) transport \<Rightarrow> prepare_declaration \<Rightarrow> u64 \<Rightarrow> u64 \<Rightarrow> ('w, u64) client_action" where
  "prepare_replacement_with_owner T d gen deadline =
     andthen (require_phase {ClientActive})
     (bind (gets client_owner) (\<lambda>previous.
      andthen (set_lease gen deadline)
      (bind (attempt (exchange_generation T (Reconfigure d) reconfigure_answer)) (\<lambda>result.
       case result of
         Inr g \<Rightarrow> return g
       | Inl e \<Rightarrow>
           andthen (set_lease (generation previous) (lease_deadline_mono_ms previous)) (throw e)))))"

definition client_commit_replacement :: "('w, 'd) transport \<Rightarrow> ('w, u64) client_action" where
  "client_commit_replacement T =
     andthen (require_phase {ClientActive})
     (exchange_generation T Commit (\<lambda>b. case b of RespCommitted g \<Rightarrow> Some g | _ \<Rightarrow> None))"

definition client_drain_old :: "('w, 'd) transport \<Rightarrow> u64 \<Rightarrow> ('w, u64) client_action" where
  "client_drain_old T now =
     andthen (require_phase {ClientActive})
     (exchange_generation T (Drain now) (\<lambda>b. case b of RespDrained g \<Rightarrow> Some g | _ \<Rightarrow> None))"

definition client_resume :: "('w, 'd) transport \<Rightarrow> ('w, u64) client_action" where
  "client_resume T =
     andthen (require_phase {ClientSuspended})
     (bind (exchange_generation T Resume (\<lambda>b. case b of RespResumed g \<Rightarrow> Some g | _ \<Rightarrow> None)) (\<lambda>gen.
      andthen (enter ClientActive) (return gen)))"

definition client_status :: "('w, 'd) transport \<Rightarrow> ('w, session_phase \<times> u64) client_action" where
  "client_status T =
     bind (exchange T Status) (\<lambda>(b, descriptor).
     if descriptor \<noteq> None then throw DescriptorMismatch
     else
       case b of
         RespStatus phase gen \<Rightarrow>
           bind (gets client_owner) (\<lambda>owner.
           if gen \<noteq> generation owner then throw UnexpectedResponse else return (phase, gen))
       | _ \<Rightarrow> throw UnexpectedResponse)"

text \<open>\<^verbatim>\<open>Drop\<close>: a client that is not stopped rolls back, and ignores the outcome.\<close>

definition drop_client :: "('w, 'd) transport \<Rightarrow> 'w netd_client \<Rightarrow> 'w netd_client" where
  "drop_client T c = (if client_phase c \<noteq> ClientStopped then snd (client_rollback T c) else c)"

end
