(* ===== verification/Netd_Session.thy ===== *)
theory Netd_Session
  imports Netd_Messages
begin

text \<open>
  The lifecycle session of netd (\<^verbatim>\<open>candy-netd-proto/src/lib.rs\<close>, lines 754-1021): the retained
  owner, the retained declaration, the phase, and \<^verbatim>\<open>NetdSession::apply\<close>, which fences requests by
  owner and generation and then runs the operation. A session is a state machine whose steps are
  the accepted requests; its invariant, its phase graph and its fencing laws are proved over every
  reachable state.
\<close>

section \<open>Sessions\<close>

datatype netd_session_error =
  GenerationConflict | InvalidTransition | OwnerMismatch | SessionInvalidDeclaration

record netd_session =
  sess_phase :: session_phase
  sess_owner :: "lease_owner option"
  sess_declaration :: "prepare_declaration option"
  replacement_pending :: bool

definition new_session :: netd_session where
  "new_session = \<lparr>sess_phase = Stopped, sess_owner = None, sess_declaration = None,
     replacement_pending = False\<rparr>"

fun is_prepare :: "netd_operation \<Rightarrow> bool" where
  "is_prepare (Prepare _) = True" | "is_prepare _ = False"

fun is_reconfigure :: "netd_operation \<Rightarrow> bool" where
  "is_reconfigure (Reconfigure _) = True" | "is_reconfigure _ = False"

fun is_commit_or_renew :: "netd_operation \<Rightarrow> bool" where
  "is_commit_or_renew Commit = True" | "is_commit_or_renew LeaseRenew = True"
| "is_commit_or_renew _ = False"

definition same_process :: "lease_owner \<Rightarrow> lease_owner \<Rightarrow> bool" where
  "same_process a b \<longleftrightarrow> instance_id a = instance_id b \<and> pid a = pid b"

datatype fence = Advance | MoveOwner | Pass

definition owner_fence :: "netd_session \<Rightarrow> netd_request \<Rightarrow> netd_session_error + fence" where
  "owner_fence s req =
     (case sess_owner s of
        None \<Rightarrow> Inr Pass
      | Some owner \<Rightarrow>
          let stopped_prepare = (sess_phase s = Stopped \<and> is_prepare (operation req));
              req_gen = generation (request_owner req);
              moves = (same_process (request_owner req) owner \<and> req_gen \<noteq> generation owner) in
          if stopped_prepare \<and> req_gen > generation owner then Inr Advance
          else if sess_phase s = Suspended \<and> is_reconfigure (operation req) \<and> moves
            then Inr MoveOwner
          else if sess_phase s = Active \<and> is_reconfigure (operation req) \<and> moves
            then Inr MoveOwner
          else if sess_phase s = Active \<and> is_commit_or_renew (operation req) \<and> moves
            then Inr MoveOwner
          else if stopped_prepare \<and> generation owner = req_gen then Inr Pass
          else if stopped_prepare \<and> req_gen < generation owner then Inl GenerationConflict
          else if \<not> same_process owner (request_owner req) then Inl OwnerMismatch
          else if generation owner \<noteq> req_gen then Inl GenerationConflict
          else Inr Pass)"

definition same_generation_retry_except_exclusions ::
    "prepare_declaration \<Rightarrow> prepare_declaration \<Rightarrow> bool" where
  "same_generation_retry_except_exclusions retained retry \<longleftrightarrow>
     table_id retained = table_id retry
     \<and> overlay_router_ipv4 retained = overlay_router_ipv4 retry
     \<and> effective_mtu retained = effective_mtu retry
     \<and> routes retained = routes retry
     \<and> firewall retained = firewall retry"

section \<open>Operations\<close>

text \<open>
  One action per arm of the \<^verbatim>\<open>match\<close> in \<^verbatim>\<open>NetdSession::apply\<close>. The actions return the mutated
  session even on an error, as \<^verbatim>\<open>&mut self\<close> does.
\<close>

type_synonym session_action = "(netd_session, netd_session_error, unit) action"

definition apply_prepare :: "lease_owner \<Rightarrow> prepare_declaration \<Rightarrow> session_action" where
  "apply_prepare req_owner d s =
     (case sess_declaration s of
        Some existing \<Rightarrow>
          if existing \<noteq> d
             \<and> \<not> (sess_phase s = Stopped \<and> same_generation_retry_except_exclusions existing d)
          then (Inl GenerationConflict, s)
          else
            let s1 = (if existing \<noteq> d then s\<lparr>sess_declaration := Some d\<rparr> else s) in
            if sess_phase s1 = Stopped
            then (Inr (), s1\<lparr>sess_owner := Some req_owner, sess_phase := Prepared\<rparr>)
            else (Inr (), s1)
      | None \<Rightarrow>
          if sess_phase s \<noteq> Stopped then (Inl InvalidTransition, s)
          else (Inr (), s\<lparr>sess_owner := Some req_owner, sess_declaration := Some d,
                          sess_phase := Prepared\<rparr>))"

definition apply_commit :: session_action where
  "apply_commit s =
     (case sess_phase s of
        Prepared \<Rightarrow>
          (Inr (), s\<lparr>sess_phase := if replacement_pending s then Draining else Active\<rparr>)
      | Active \<Rightarrow> (Inr (), s)
      | Draining \<Rightarrow> (Inr (), s)
      | _ \<Rightarrow> (Inl InvalidTransition, s))"

definition apply_rollback :: session_action where
  "apply_rollback s =
     (if sess_owner s = None then (Inl InvalidTransition, s)
      else (Inr (), s\<lparr>sess_phase := Stopped, replacement_pending := False\<rparr>))"

definition apply_lease_renew :: "lease_owner \<Rightarrow> session_action" where
  "apply_lease_renew req_owner s =
     (if sess_owner s = None then (Inl InvalidTransition, s)
      else (Inr (), s\<lparr>sess_owner := Some req_owner\<rparr>))"

definition apply_mtu_update :: "u16 \<Rightarrow> session_action" where
  "apply_mtu_update mtu s =
     (if sess_phase s \<noteq> Active
         \<or> mtu \<ge> (case sess_declaration s of None \<Rightarrow> 576 | Some d \<Rightarrow> effective_mtu d)
      then (Inl InvalidTransition, s)
      else
        case sess_declaration s of
          None \<Rightarrow> (Inl InvalidTransition, s)
        | Some d \<Rightarrow> (Inr (), s\<lparr>sess_declaration := Some (d\<lparr>effective_mtu := mtu\<rparr>)\<rparr>))"

definition apply_suspend :: session_action where
  "apply_suspend s =
     (if sess_phase s \<noteq> Active then (Inl InvalidTransition, s)
      else (Inr (), s\<lparr>sess_phase := Suspended\<rparr>))"

definition apply_reconfigure :: "prepare_declaration \<Rightarrow> session_action" where
  "apply_reconfigure d s =
     (if sess_phase s = Prepared \<and> replacement_pending s then
        (if sess_declaration s = Some d then (Inr (), s) else (Inl GenerationConflict, s))
      else if sess_phase s \<noteq> Suspended \<and> sess_phase s \<noteq> Active then (Inl InvalidTransition, s)
      else if sess_phase s = Suspended then (Inr (), s\<lparr>sess_declaration := Some d\<rparr>)
      else if sess_declaration s \<noteq> Some d then
        (Inr (), s\<lparr>sess_declaration := Some d, replacement_pending := True,
                  sess_phase := Prepared\<rparr>)
      else (Inr (), s))"

definition apply_resume :: session_action where
  "apply_resume s =
     (if sess_phase s \<noteq> Suspended then (Inl InvalidTransition, s)
      else (Inr (), s\<lparr>sess_phase := Active\<rparr>))"

definition apply_drain :: session_action where
  "apply_drain s =
     (if sess_phase s \<noteq> Draining then (Inl InvalidTransition, s)
      else (Inr (), s\<lparr>sess_phase := Active, replacement_pending := False\<rparr>))"

definition apply_withdraw_prefixes :: session_action where
  "apply_withdraw_prefixes s =
     (if sess_phase s \<noteq> Active then (Inl InvalidTransition, s) else (Inr (), s))"

definition apply_policy_update :: "prepare_declaration \<Rightarrow> session_action" where
  "apply_policy_update d s =
     (if sess_phase s \<notin> {Active, Suspended} then (Inl InvalidTransition, s)
      else
        case sess_declaration s of
          None \<Rightarrow> (Inl InvalidTransition, s)
        | Some current \<Rightarrow>
            if table_id current \<noteq> table_id d
               \<or> overlay_router_ipv4 current \<noteq> overlay_router_ipv4 d
               \<or> effective_mtu current \<noteq> effective_mtu d
               \<or> exclusions current \<noteq> exclusions d
            then (Inl InvalidTransition, s)
            else (Inr (), s\<lparr>sess_declaration := Some d\<rparr>))"

definition apply_operation :: "netd_request \<Rightarrow> session_action" where
  "apply_operation req =
     (case operation req of
        Prepare d \<Rightarrow> apply_prepare (request_owner req) d
      | Commit \<Rightarrow> apply_commit
      | Rollback \<Rightarrow> apply_rollback
      | Status \<Rightarrow> return ()
      | LeaseRenew \<Rightarrow> apply_lease_renew (request_owner req)
      | MtuUpdate mtu \<Rightarrow> apply_mtu_update mtu
      | Suspend \<Rightarrow> apply_suspend
      | Reconfigure d \<Rightarrow> apply_reconfigure d
      | Resume \<Rightarrow> apply_resume
      | Drain _ \<Rightarrow> apply_drain
      | WithdrawPrefixes _ \<Rightarrow> apply_withdraw_prefixes
      | PolicyUpdate d \<Rightarrow> apply_policy_update d)"

definition move_owner :: "fence \<Rightarrow> lease_owner \<Rightarrow> netd_session \<Rightarrow> netd_session" where
  "move_owner f req_owner s =
     (case f of
        Advance \<Rightarrow> s\<lparr>sess_owner := None, sess_declaration := None\<rparr>
      | MoveOwner \<Rightarrow> s\<lparr>sess_owner := Some req_owner\<rparr>
      | Pass \<Rightarrow> s)"

definition apply_session :: "netd_request \<Rightarrow> session_action" where
  "apply_session req s =
     (case validate_request req of
        Inl _ \<Rightarrow> (Inl SessionInvalidDeclaration, s)
      | Inr _ \<Rightarrow>
          (case owner_fence s req of
             Inl e \<Rightarrow> (Inl e, s)
           | Inr f \<Rightarrow> apply_operation req (move_owner f (request_owner req) s)))"

lemmas session_operation_defs = apply_prepare_def apply_commit_def apply_rollback_def
  apply_lease_renew_def apply_mtu_update_def apply_suspend_def apply_reconfigure_def
  apply_resume_def apply_drain_def apply_withdraw_prefixes_def apply_policy_update_def

section \<open>Acceptance\<close>

lemma is_prepareE: "is_prepare op \<Longrightarrow> (\<And>d. op = Prepare d \<Longrightarrow> R) \<Longrightarrow> R"
  by (cases op) auto

lemma owner_fence_Advance:
  "owner_fence s req = Inr Advance \<Longrightarrow>
   sess_phase s = Stopped \<and> (\<exists>d. operation req = Prepare d) \<and>
   (\<exists>owner. sess_owner s = Some owner \<and> generation owner < generation (request_owner req))"
  by (cases "sess_owner s") (auto simp: owner_fence_def Let_def if_eq_cases elim: is_prepareE)

lemma owner_fence_MoveOwner:
  "owner_fence s req = Inr MoveOwner \<Longrightarrow>
   (\<exists>owner. sess_owner s = Some owner \<and> same_process (request_owner req) owner
      \<and> generation (request_owner req) \<noteq> generation owner) \<and>
   (sess_phase s = Suspended \<and> is_reconfigure (operation req)
    \<or> sess_phase s = Active
      \<and> (is_reconfigure (operation req) \<or> is_commit_or_renew (operation req)))"
  by (cases "sess_owner s"; simp add: owner_fence_def Let_def if_eq_cases; blast)

lemma owner_fence_Pass:
  "owner_fence s req = Inr Pass \<Longrightarrow> sess_owner s = Some owner \<Longrightarrow>
   generation owner = generation (request_owner req) \<and>
   (same_process owner (request_owner req) \<or> sess_phase s = Stopped \<and> is_prepare (operation req))"
  by (simp add: owner_fence_def Let_def if_eq_cases) blast

lemma apply_session_Inr:
  "apply_session req s = (Inr u, s') \<longleftrightarrow>
     validate_request req = Inr () \<and>
     (\<exists>f. owner_fence s req = Inr f
        \<and> apply_operation req (move_owner f (request_owner req) s) = (Inr (), s'))"
  by (auto simp: apply_session_def split: sum.splits)

text \<open>The accepted requests, one case per operation and fence.\<close>

lemma apply_session_cases:
  assumes "apply_session req s = (Inr u, s')"
  obtains
    (advance) d where "operation req = Prepare d" "sess_phase s = Stopped"
      "owner_fence s req = Inr Advance"
      "s' = s\<lparr>sess_owner := Some (request_owner req), sess_declaration := Some d,
        sess_phase := Prepared\<rparr>"
  | (move) "owner_fence s req = Inr MoveOwner"
      "apply_operation req (s\<lparr>sess_owner := Some (request_owner req)\<rparr>) = (Inr (), s')"
  | (pass) "owner_fence s req = Inr Pass" "apply_operation req s = (Inr (), s')"
proof -
  from assms obtain f where f: "owner_fence s req = Inr f"
      "apply_operation req (move_owner f (request_owner req) s) = (Inr (), s')"
    by (auto simp: apply_session_Inr)
  show thesis
  proof (cases f)
    case Advance
    with f owner_fence_Advance [of s req] advance show ?thesis
      by (auto simp: move_owner_def apply_operation_def apply_prepare_def)
  next
    case MoveOwner
    with f move show ?thesis by (simp add: move_owner_def)
  next
    case Pass
    with f pass show ?thesis by (simp add: move_owner_def)
  qed
qed

lemma apply_operation_error:
  "apply_operation req s = (Inl e, s') \<Longrightarrow> s' = s"
  by (cases "operation req")
    (auto simp: apply_operation_def session_operation_defs return_def Let_def
      split: if_splits option.splits session_phase.splits)

lemma apply_operation_moved:
  assumes "owner_fence s req = Inr MoveOwner"
  shows "\<exists>s'. apply_operation req (s\<lparr>sess_owner := Some (request_owner req)\<rparr>) = (Inr (), s')"
  using owner_fence_MoveOwner [OF assms]
  by (cases "operation req") (auto simp: apply_operation_def session_operation_defs)

lemma session_error_unchanged:
  assumes "apply_session req s = (Inl e, s')"
  shows "s' = s"
proof (cases "validate_request req")
  case (Inr u)
  show ?thesis
  proof (cases "owner_fence s req")
    case f: (Inr f)
    show ?thesis
    proof (cases f)
      case Advance
      with f Inr assms owner_fence_Advance [of s req] show ?thesis
        by (auto simp: apply_session_def move_owner_def apply_operation_def apply_prepare_def)
    next
      case MoveOwner
      with f Inr assms apply_operation_moved [of s req] show ?thesis
        by (auto simp: apply_session_def move_owner_def)
    next
      case Pass
      with f Inr assms apply_operation_error [of req s e s'] show ?thesis
        by (simp add: apply_session_def move_owner_def)
    qed
  qed (use Inr assms in \<open>simp add: apply_session_def\<close>)
qed (use assms in \<open>simp add: apply_session_def\<close>)

section \<open>Invariant\<close>

definition valid_owner :: "lease_owner \<Rightarrow> bool" where
  "valid_owner owner \<longleftrightarrow> validate_owner owner = Inr ()"

definition valid_declaration :: "prepare_declaration \<Rightarrow> bool" where
  "valid_declaration d \<longleftrightarrow> validate_declaration d = Inr ()"

text \<open>
  What the fields mean together: owner and declaration are retained together, a running phase has
  both, and the replacement marker is set exactly while a replacement is staged or draining.
\<close>

definition session_inv :: "netd_session \<Rightarrow> bool" where
  "session_inv s \<longleftrightarrow>
     (sess_owner s = None \<longleftrightarrow> sess_declaration s = None)
     \<and> (sess_owner s = None \<longrightarrow> sess_phase s = Stopped)
     \<and> (sess_phase s = Draining \<longrightarrow> replacement_pending s)
     \<and> (replacement_pending s \<longrightarrow> sess_phase s \<in> {Prepared, Draining})
     \<and> pred_option valid_owner (sess_owner s)
     \<and> pred_option valid_declaration (sess_declaration s)"

lemma session_inv_new: "session_inv new_session"
  by (simp add: session_inv_def new_session_def)

lemma valid_declaration_mtu:
  "valid_declaration d \<Longrightarrow> 576 \<le> mtu \<Longrightarrow> mtu \<le> 1400 \<Longrightarrow>
   valid_declaration (d\<lparr>effective_mtu := mtu\<rparr>)"
  by (auto simp: valid_declaration_def validate_declaration_def split: if_splits)

lemma validate_request_parts:
  assumes "validate_request req = Inr ()"
  shows "valid_owner (request_owner req)"
    and "operation_declaration (operation req) = Some d \<Longrightarrow> valid_declaration d"
    and "operation req = MtuUpdate mtu \<Longrightarrow> 576 \<le> mtu \<and> mtu \<le> 1400"
  using assms
  by (auto simp: validate_request_def valid_owner_def valid_declaration_def rbind_eq_Inr
      split: if_splits)

lemma apply_operation_inv:
  assumes inv: "session_inv s" and v: "validate_request req = Inr ()"
    and ap: "apply_operation req s = (Inr (), s')"
  shows "session_inv s'"
proof -
  note parts = validate_request_parts [OF v]
  show ?thesis
  proof (cases "operation req")
    case (MtuUpdate mtu)
    then show ?thesis using inv ap parts(3) [of mtu] valid_declaration_mtu
      by (auto simp: apply_operation_def apply_mtu_update_def session_inv_def
          split: if_splits option.splits)
  qed (use inv ap parts(1,2) in \<open>auto simp: apply_operation_def session_operation_defs return_def
        session_inv_def Let_def split: if_splits option.splits session_phase.splits\<close>)
qed

lemma apply_session_inv:
  assumes "session_inv s" and "apply_session req s = (r, s')"
  shows "session_inv s'"
proof (cases r)
  case (Inl e)
  with assms session_error_unchanged show ?thesis by blast
next
  case (Inr u)
  with assms(2) have v: "validate_request req = Inr ()" by (simp add: apply_session_Inr)
  note parts = validate_request_parts [OF v]
  have ap: "apply_session req s = (Inr u, s')" using assms(2) Inr by simp
  then show ?thesis
  proof (cases rule: apply_session_cases)
    case (advance d)
    with parts assms(1) show ?thesis by (auto simp: session_inv_def)
  next
    case move
    moreover have "session_inv (s\<lparr>sess_owner := Some (request_owner req)\<rparr>)"
      using assms(1) parts(1) owner_fence_MoveOwner [OF move(1)] by (auto simp: session_inv_def)
    ultimately show ?thesis using apply_operation_inv v by blast
  next
    case pass
    with assms(1) v apply_operation_inv show ?thesis by blast
  qed
qed

inductive session_reachable :: "netd_session \<Rightarrow> bool" where
  init: "session_reachable new_session"
| step: "session_reachable s \<Longrightarrow> apply_session req s = (r, s') \<Longrightarrow> session_reachable s'"

lemma session_reachable_inv: "session_reachable s \<Longrightarrow> session_inv s"
  by (induction rule: session_reachable.induct) (auto intro: session_inv_new apply_session_inv)

section \<open>Lifecycle specification\<close>

text \<open>
  The abstract machine a client of netd relies on: the phase and the replacement marker, with the
  operations that move them. Owners, generations and declarations are abstracted away.
\<close>

type_synonym lifecycle_state = "session_phase \<times> bool"

inductive lifecycle :: "netd_operation \<Rightarrow> lifecycle_state \<Rightarrow> lifecycle_state \<Rightarrow> bool" where
  prepare: "lifecycle (Prepare d) (Stopped, False) (Prepared, False)"
| prepare_retry: "p \<noteq> Stopped \<Longrightarrow> lifecycle (Prepare d) (p, r) (p, r)"
| commit: "lifecycle Commit (Prepared, False) (Active, False)"
| commit_replacement: "lifecycle Commit (Prepared, True) (Draining, True)"
| commit_retry: "p \<in> {Active, Draining} \<Longrightarrow> lifecycle Commit (p, r) (p, r)"
| rollback: "lifecycle Rollback (p, r) (Stopped, False)"
| status: "lifecycle Status a a"
| lease_renew: "lifecycle LeaseRenew a a"
| mtu_update: "lifecycle (MtuUpdate mtu) (Active, False) (Active, False)"
| suspend: "lifecycle Suspend (Active, False) (Suspended, False)"
| stage_replacement: "lifecycle (Reconfigure d) (Active, False) (Prepared, True)"
| stage_retry: "lifecycle (Reconfigure d) (Prepared, True) (Prepared, True)"
| reconfigure: "p \<in> {Active, Suspended} \<Longrightarrow> lifecycle (Reconfigure d) (p, False) (p, False)"
| resume: "lifecycle Resume (Suspended, False) (Active, False)"
| drain: "lifecycle (Drain now) (Draining, True) (Active, False)"
| withdraw: "lifecycle (WithdrawPrefixes ps) (Active, False) (Active, False)"
| policy_update: "p \<in> {Active, Suspended} \<Longrightarrow> lifecycle (PolicyUpdate d) (p, False) (p, False)"

inductive_cases lifecycle_from_staged: "lifecycle op (Prepared, True) a"
inductive_cases lifecycle_from_draining: "lifecycle op (Draining, True) a"
inductive_cases lifecycle_from_stopped: "lifecycle op (Stopped, r) a"

definition lifecycle_of :: "netd_session \<Rightarrow> lifecycle_state" where
  "lifecycle_of s = (sess_phase s, replacement_pending s)"

lemma session_inv_not_pending:
  "session_inv s \<Longrightarrow> sess_phase s \<in> {Stopped, Active, Suspended} \<Longrightarrow> \<not> replacement_pending s"
  "session_inv s \<Longrightarrow> sess_phase s = Draining \<Longrightarrow> replacement_pending s"
  by (auto simp: session_inv_def)

lemma apply_operation_lifecycle:
  assumes inv: "session_inv s" and ap: "apply_operation req s = (Inr (), s')"
  shows "lifecycle (operation req) (lifecycle_of s) (lifecycle_of s')"
  using ap session_inv_not_pending [OF inv]
  by (cases "operation req"; cases "sess_phase s"; cases "replacement_pending s")
    (auto simp: apply_operation_def session_operation_defs return_def lifecycle_of_def Let_def
      intro: lifecycle.intros split: if_splits option.splits)

lemma apply_session_lifecycle:
  assumes inv: "session_inv s" and ap: "apply_session req s = (Inr u, s')"
  shows "lifecycle (operation req) (lifecycle_of s) (lifecycle_of s')"
  using ap
proof (cases rule: apply_session_cases)
  case (advance d)
  with session_inv_not_pending(1) [OF inv] show ?thesis
    by (auto simp: lifecycle_of_def intro: lifecycle.intros)
next
  case move
  from ap have v: "validate_request req = Inr ()" by (simp add: apply_session_Inr)
  have "session_inv (s\<lparr>sess_owner := Some (request_owner req)\<rparr>)"
    using inv validate_request_parts(1) [OF v] owner_fence_MoveOwner [OF move(1)]
    by (auto simp: session_inv_def)
  from apply_operation_lifecycle [OF this move(2)] show ?thesis
    by (simp add: lifecycle_of_def)
next
  case pass
  with inv apply_operation_lifecycle show ?thesis by blast
qed

section \<open>Fencing\<close>

text \<open>What an operation does to the owner, once it has passed the fence.\<close>

lemma apply_operation_owner:
  assumes "apply_operation req s = (Inr (), s')"
  shows "sess_owner s' = sess_owner s
    \<or> sess_owner s' = Some (request_owner req)
      \<and> (operation req = LeaseRenew \<or> sess_phase s = Stopped \<and> is_prepare (operation req))"
  using assms
  by (cases "operation req")
    (auto simp: apply_operation_def session_operation_defs return_def Let_def
      split: if_splits option.splits session_phase.splits)

lemma fence_running_owner:
  assumes ap: "apply_session req s = (Inr u, s')"
    and owner: "sess_owner s = Some owner" and run: "sess_phase s \<noteq> Stopped"
  shows "same_process owner (request_owner req)
    \<and> (\<exists>owner'. sess_owner s' = Some owner' \<and> same_process owner owner')
    \<and> (generation (request_owner req) = generation owner
       \<or> sess_phase s = Suspended \<and> is_reconfigure (operation req)
       \<or> sess_phase s = Active
         \<and> (is_reconfigure (operation req) \<or> is_commit_or_renew (operation req)))"
  using ap
proof (cases rule: apply_session_cases)
  case (advance d)
  with run show ?thesis by simp
next
  case move
  from owner_fence_MoveOwner [OF move(1)] apply_operation_owner [OF move(2)] owner run
  show ?thesis by (auto simp: same_process_def)
next
  case pass
  from owner_fence_Pass [OF pass(1) owner] apply_operation_owner [OF pass(2)] owner run
  show ?thesis by (auto simp: same_process_def)
qed

lemma stopped_prepare_generation:
  assumes ap: "apply_session req s = (Inr u, s')"
    and owner: "sess_owner s = Some owner" and op: "operation req = Prepare d"
    and stopped: "sess_phase s = Stopped"
  shows "generation owner \<le> generation (request_owner req)
    \<and> sess_owner s' = Some (request_owner req) \<and> sess_declaration s' = Some d
    \<and> (generation owner = generation (request_owner req) \<longrightarrow>
        (\<forall>retained. sess_declaration s = Some retained \<longrightarrow>
           same_generation_retry_except_exclusions retained d))"
  using ap
proof (cases rule: apply_session_cases)
  case (advance d')
  then have "generation owner < generation (request_owner req)"
    using owner_fence_Advance [of s req] owner by auto
  with advance op show ?thesis by auto
next
  case move
  with owner_fence_MoveOwner [OF move(1)] stopped show ?thesis by auto
next
  case pass
  with op stopped owner owner_fence_Pass [OF pass(1) owner] show ?thesis
    by (auto simp: apply_operation_def apply_prepare_def same_generation_retry_except_exclusions_def
        split: option.splits if_splits)
qed

section \<open>Retries\<close>

text \<open>The operations a client may send again when the answer to the first attempt was lost.\<close>

fun retryable :: "netd_operation \<Rightarrow> bool" where
  "retryable (MtuUpdate _) = False"
| "retryable Suspend = False"
| "retryable Resume = False"
| "retryable (Drain _) = False"
| "retryable _ = True"

lemma owner_fence_after:
  assumes "sess_owner s = Some owner" and "same_process owner (request_owner req)"
    and "generation (request_owner req) = generation owner"
  shows "owner_fence s req = Inr Pass"
  by (simp add: owner_fence_def Let_def if_eq_cases assms)

lemma apply_operation_retry:
  assumes "apply_operation req s = (Inr (), s')" and "retryable (operation req)"
  shows "apply_operation req s' = (Inr (), s')"
proof (cases "operation req")
  case (Prepare d)
  with assms(1) show ?thesis
    by (cases "sess_declaration s"; cases "sess_declaration s = Some d"; cases "sess_phase s")
      (auto simp: apply_operation_def apply_prepare_def Let_def split: if_splits)
next
  case (Reconfigure d)
  with assms(1) show ?thesis
    by (cases "sess_declaration s = Some d"; cases "sess_phase s"; cases "replacement_pending s")
      (auto simp: apply_operation_def apply_reconfigure_def)
next
  case (PolicyUpdate d)
  with assms(1) show ?thesis
    by (cases "sess_declaration s"; cases "sess_phase s")
      (auto simp: apply_operation_def apply_policy_update_def split: if_splits)
qed (use assms in \<open>auto simp: apply_operation_def session_operation_defs return_def
      split: if_splits session_phase.splits\<close>)

lemma accepted_owner:
  assumes ap: "apply_session req s = (Inr u, s')" and some: "sess_owner s' = Some owner'"
  shows "same_process owner' (request_owner req) \<and> generation owner' = generation (request_owner req)
    \<or> sess_phase s = Stopped \<and> is_prepare (operation req)"
  using ap
proof (cases rule: apply_session_cases)
  case (advance d)
  with some show ?thesis by (auto simp: same_process_def)
next
  case move
  with apply_operation_owner [OF move(2)] some show ?thesis by (auto simp: same_process_def)
next
  case pass
  show ?thesis
  proof (cases "sess_owner s' = Some (request_owner req)")
    case True
    with some show ?thesis by (auto simp: same_process_def)
  next
    case False
    with apply_operation_owner [OF pass(2)] some have "sess_owner s = Some owner'" by auto
    from owner_fence_Pass [OF pass(1) this] show ?thesis by auto
  qed
qed

lemma prepare_sets_owner:
  assumes "apply_session req s = (Inr u, s')" and "sess_phase s = Stopped"
    and "is_prepare (operation req)"
  shows "sess_owner s' = Some (request_owner req)"
  using assms(1)
proof (cases rule: apply_session_cases)
  case move
  with owner_fence_MoveOwner [OF move(1)] assms show ?thesis by auto
next
  case pass
  from assms(3) obtain d where "operation req = Prepare d" by (rule is_prepareE)
  with pass(2) assms(2) show ?thesis
    by (auto simp: apply_operation_def apply_prepare_def split: option.splits if_splits)
qed simp

lemma session_retry:
  assumes ap: "apply_session req s = (Inr u, s')" and retry: "retryable (operation req)"
  shows "apply_session req s' = (Inr (), s')"
proof -
  have again: "apply_operation req s' = (Inr (), s')"
    using ap
  proof (cases rule: apply_session_cases)
    case (advance d)
    then show ?thesis by (simp add: apply_operation_def apply_prepare_def)
  qed (use retry apply_operation_retry in blast)+
  have "owner_fence s' req = Inr Pass"
  proof (cases "sess_owner s'")
    case None
    then show ?thesis by (simp add: owner_fence_def)
  next
    case (Some owner')
    with accepted_owner [OF ap Some] prepare_sets_owner [OF ap] show ?thesis
      by (auto intro!: owner_fence_after simp: same_process_def)
  qed
  with again ap show ?thesis by (auto simp: apply_session_Inr move_owner_def)
qed

section \<open>Properties\<close>

definition active_session :: netd_session where
  "active_session = \<lparr>sess_phase = Active, sess_owner = Some sample_owner,
     sess_declaration = Some sample_declaration, replacement_pending = False\<rparr>"

text \<open>
  A rejected request changes nothing: whenever \<open>apply\<close> reports an error, the session it leaves
  behind is the session it was given, although the code moves the owner before it runs the
  operation.
\<close>

theorem session_rejection_is_atomic:
  assumes "apply_session req s = (Inl e, s')"
  shows "s' = s"
  using assms by (rule session_error_unchanged)

theorem session_rejection_is_atomic_witness:
  "snd (apply_session (sample_request Commit) new_session) = new_session"
proof -
  have "apply_session (sample_request Commit) new_session
      = (Inl InvalidTransition, snd (apply_session (sample_request Commit) new_session))"
    by (simp add: apply_session_def validate_request_def validate_owner_def sample_owner_def
        owner_fence_def new_session_def move_owner_def apply_operation_def apply_commit_def)
  then show ?thesis by (rule session_rejection_is_atomic)
qed

text \<open>
  Every reachable session is well formed: owner and declaration are retained together and are
  both valid, a phase other than Stopped has them, and the replacement marker is set exactly in
  the staged and draining states.
\<close>

theorem reachable_sessions_well_formed:
  assumes "session_reachable s"
  shows "session_inv s"
  using assms by (rule session_reachable_inv)

theorem reachable_sessions_well_formed_witness:
  "session_inv (snd (apply_session (sample_request (Prepare sample_declaration)) new_session))"
  by (rule reachable_sessions_well_formed, rule session_reachable.step [OF session_reachable.init])
    (rule prod.collapse [symmetric])

text \<open>
  C29: Refinement: every request a reachable session accepts is a step of the lifecycle machine, so
  a session becomes active only by a commit, resume or drain, and a staged replacement can only be
  committed into draining or rolled back.
\<close>

theorem session_refines_lifecycle:
  assumes "session_reachable s" and "apply_session req s = (Inr u, s')"
  shows "lifecycle (operation req) (lifecycle_of s) (lifecycle_of s')"
  using apply_session_lifecycle [OF session_reachable_inv [OF assms(1)] assms(2)] .

theorem session_refines_lifecycle_witness:
  "lifecycle (Prepare sample_declaration) (Stopped, False) (Prepared, False)"
proof -
  let ?req = "sample_request (Prepare sample_declaration)"
  let ?s = "new_session\<lparr>sess_owner := Some sample_owner,
      sess_declaration := Some sample_declaration, sess_phase := Prepared\<rparr>"
  have "apply_session ?req new_session = (Inr (), ?s)"
    by (simp add: apply_session_def sample_prepare_valid owner_fence_def new_session_def
        move_owner_def apply_operation_def apply_prepare_def)
  from session_refines_lifecycle [OF session_reachable.init this] show ?thesis
    by (simp add: lifecycle_of_def new_session_def)
qed

text \<open>
  Owner fencing: while a session runs, only the process that owns it (same instance and pid)
  gets a request accepted, the session stays with that process, and the generation of an accepted
  request differs from the retained one only for a reconfigure, or for a commit or lease renewal
  of an active session.
\<close>

theorem running_session_is_fenced:
  assumes "apply_session req s = (Inr u, s')" and "sess_owner s = Some owner"
    and "sess_phase s \<noteq> Stopped"
  shows "same_process owner (request_owner req)
    \<and> (\<exists>owner'. sess_owner s' = Some owner' \<and> same_process owner owner')
    \<and> (generation (request_owner req) = generation owner
       \<or> sess_phase s = Suspended \<and> is_reconfigure (operation req)
       \<or> sess_phase s = Active
         \<and> (is_reconfigure (operation req) \<or> is_commit_or_renew (operation req)))"
  using assms by (rule fence_running_owner)

theorem running_session_is_fenced_witness:
  "apply_session (sample_request Suspend) active_session
     = (Inr (), active_session\<lparr>sess_phase := Suspended\<rparr>)
   \<and> same_process sample_owner sample_owner"
proof -
  have ap: "apply_session (sample_request Suspend) active_session
      = (Inr (), active_session\<lparr>sess_phase := Suspended\<rparr>)"
    by (simp add: apply_session_def validate_request_def validate_owner_def sample_owner_def
        owner_fence_def active_session_def same_process_def move_owner_def apply_operation_def
        apply_suspend_def)
  from running_session_is_fenced [OF ap] show ?thesis
    using ap by (simp add: active_session_def)
qed

text \<open>
  Reuse of a stopped session: a Prepare is accepted only with a generation at least the
  retained one, it installs the sender as owner, and at the same generation the declaration may
  differ from the retained one in its underlay exclusions only, so a retry never steers more
  traffic into the overlay.
\<close>

theorem stopped_session_generation_monotone:
  assumes "apply_session req s = (Inr u, s')" and "sess_owner s = Some owner"
    and "operation req = Prepare d" and "sess_phase s = Stopped"
  shows "generation owner \<le> generation (request_owner req)
    \<and> sess_owner s' = Some (request_owner req) \<and> sess_declaration s' = Some d
    \<and> (generation owner = generation (request_owner req) \<longrightarrow>
        (\<forall>retained. sess_declaration s = Some retained \<longrightarrow>
           same_generation_retry_except_exclusions retained d))"
  using assms by (rule stopped_prepare_generation)

theorem stopped_session_generation_monotone_witness:
  "sess_owner (snd (apply_session (sample_request (Prepare sample_declaration))
     (active_session\<lparr>sess_phase := Stopped\<rparr>))) = Some sample_owner"
proof -
  let ?req = "sample_request (Prepare sample_declaration)"
  have "apply_session ?req (active_session\<lparr>sess_phase := Stopped\<rparr>)
      = (Inr (), active_session\<lparr>sess_phase := Prepared\<rparr>)"
    by (simp add: apply_session_def sample_prepare_valid owner_fence_def active_session_def
        move_owner_def apply_operation_def apply_prepare_def)
  from stopped_session_generation_monotone [OF this] this show ?thesis
    by (simp add: active_session_def)
qed

text \<open>
  Retries are idempotent: once a Prepare, Commit, Rollback, Status, LeaseRenew, Reconfigure,
  WithdrawPrefixes or PolicyUpdate has been accepted, sending the same request again succeeds and
  leaves the session as it is.
\<close>

theorem session_retry_idempotent:
  assumes "apply_session req s = (Inr u, s')" and "retryable (operation req)"
  shows "apply_session req s' = (Inr (), s')"
  using assms by (rule session_retry)

theorem session_retry_idempotent_witness:
  "apply_session (sample_request Commit) active_session = (Inr (), active_session)"
proof -
  have "apply_session (sample_request Commit) (active_session\<lparr>sess_phase := Prepared\<rparr>)
      = (Inr (), active_session)"
    by (simp add: apply_session_def validate_request_def validate_owner_def sample_owner_def
        owner_fence_def active_session_def same_process_def move_owner_def apply_operation_def
        apply_commit_def)
  then show ?thesis by (rule session_retry_idempotent) simp
qed

end
