(* ===== verification/Netd_Record.thy ===== *)
theory Netd_Record
  imports Netd_Session
begin

text \<open>
  The data of a network transaction (\<^verbatim>\<open>candy-netd/src/network.rs\<close>, lines 4-182): the step bits, the
  phases, the durable transaction record, the errors, and the two traits a transaction runs
  against, as records of operations over an abstract backend state and an abstract journal state.
  The default bodies of the backend trait are definitions of their own.
\<close>

section \<open>Steps and records\<close>

definition STEP_LINK :: u16 where "STEP_LINK = push_bit 0 1"
definition STEP_ROUTES :: u16 where "STEP_ROUTES = push_bit 1 1"
definition STEP_FIREWALL :: u16 where "STEP_FIREWALL = push_bit 2 1"
definition STEP_SYSCTLS :: u16 where "STEP_SYSCTLS = push_bit 3 1"
definition STEP_LINK_ACTIVE :: u16 where "STEP_LINK_ACTIVE = push_bit 4 1"
definition STEP_POLICY_RULE :: u16 where "STEP_POLICY_RULE = push_bit 5 1"

lemmas step_defs = STEP_LINK_def STEP_ROUTES_def STEP_FIREWALL_def STEP_SYSCTLS_def
  STEP_LINK_ACTIVE_def STEP_POLICY_RULE_def

datatype transaction_phase =
  TxPreparing | TxPrepared | TxActive | TxSuspended | TxRollingBack | TxDraining

datatype sysctl_key = Ipv4Forward | AllRpFilter | CandyRpFilter | CandyDisableIpv6

fun sysctl_key_tag :: "sysctl_key \<Rightarrow> u8" where
  "sysctl_key_tag Ipv4Forward = 1"
| "sysctl_key_tag AllRpFilter = 2"
| "sysctl_key_tag CandyRpFilter = 3"
| "sysctl_key_tag CandyDisableIpv6 = 4"

text \<open>The derived order of the enum is the order of its discriminants.\<close>

instantiation sysctl_key :: linorder
begin

definition less_eq_sysctl_key :: "sysctl_key \<Rightarrow> sysctl_key \<Rightarrow> bool" where
  "a \<le> b \<longleftrightarrow> sysctl_key_tag a \<le> sysctl_key_tag b"

definition less_sysctl_key :: "sysctl_key \<Rightarrow> sysctl_key \<Rightarrow> bool" where
  "a < b \<longleftrightarrow> sysctl_key_tag a < sysctl_key_tag b"

instance
proof
  fix a b :: sysctl_key
  assume "a \<le> b" "b \<le> a"
  then have "sysctl_key_tag a = sysctl_key_tag b" by (simp add: less_eq_sysctl_key_def)
  then show "a = b" by (cases a; cases b) simp_all
qed (auto simp: less_eq_sysctl_key_def less_sysctl_key_def)

end

record sysctl_change =
  sysctl_key :: sysctl_key
  original :: u8
  applied :: u8

record transaction_record =
  tx_owner :: lease_owner
  tx_declaration :: prepare_declaration
  recovery_candidate :: "prepare_declaration option"
  recovery_candidate_owner :: "lease_owner option"
  tx_phase :: transaction_phase
  completed_steps :: u16
  sysctls :: "sysctl_change list"
  drain_deadline_mono_ms :: u64
  failed_prefixes :: "ipv4_prefix list"

section \<open>Errors\<close>

datatype backend_stage =
  Preflight | LinkPrepare | RoutePrepare | FirewallPrepare | SysctlPrepare | LinkActivate
  | PolicyActivate

datatype network_error =
  Conflict | NetInvalidTransition | Backend | BackendStage backend_stage | Journal | DrainPending

fun stage_error :: "backend_stage \<Rightarrow> network_error \<Rightarrow> network_error" where
  "stage_error stage Backend = BackendStage stage"
| "stage_error stage e = e"

definition at_stage :: "('s, network_error, 'a) action \<Rightarrow> backend_stage \<Rightarrow> ('s, network_error, 'a) action" where
  "at_stage result stage = map_error (stage_error stage) result"

definition sysctl_key_of :: "u8 \<Rightarrow> network_error + sysctl_key" where
  "sysctl_key_of v =
     (if v = 1 then Inr Ipv4Forward
      else if v = 2 then Inr AllRpFilter
      else if v = 3 then Inr CandyRpFilter
      else if v = 4 then Inr CandyDisableIpv6
      else Inl Journal)"

lemma sysctl_key_of_tag [simp]: "sysctl_key_of (sysctl_key_tag k) = Inr k"
  by (cases k) (simp_all add: sysctl_key_of_def)

lemma sysctl_key_of_Inr: "sysctl_key_of v = Inr k \<longleftrightarrow> v = sysctl_key_tag k"
  by (cases k) (auto simp: sysctl_key_of_def)

definition restore_sysctl_value :: "string \<Rightarrow> string \<Rightarrow> string \<Rightarrow> string option" where
  "restore_sysctl_value orig appl current =
     (if orig \<noteq> appl \<and> current = appl then Some orig else None)"

section \<open>The backend and journal traits\<close>

type_synonym ('s, 'a) net_action = "('s, network_error, 'a) action"

record 'b backend_ops =
  preflight :: "prepare_declaration \<Rightarrow> ('b, sysctl_change list) net_action"
  prepare_link :: "prepare_declaration \<Rightarrow> ('b, unit) net_action"
  prepare_routes :: "prepare_declaration \<Rightarrow> ('b, unit) net_action"
  reconcile_routes :: "prepare_declaration \<Rightarrow> ipv4_prefix list \<Rightarrow> ('b, unit) net_action"
  prepare_firewall :: "prepare_declaration \<Rightarrow> ('b, unit) net_action"
  replace_firewall :: "prepare_declaration \<Rightarrow> prepare_declaration \<Rightarrow> ('b, unit) net_action"
  prepare_sysctls :: "prepare_declaration \<Rightarrow> sysctl_change list \<Rightarrow> ('b, unit) net_action"
  activate_link :: "prepare_declaration \<Rightarrow> ('b, unit) net_action"
  update_link_mtu :: "prepare_declaration \<Rightarrow> u16 \<Rightarrow> ('b, unit) net_action"
  install_policy_rule :: "prepare_declaration \<Rightarrow> ('b, unit) net_action"
  remove_policy_rule :: "prepare_declaration \<Rightarrow> ('b, unit) net_action"
  deactivate_link :: "prepare_declaration \<Rightarrow> ('b, unit) net_action"
  remove_firewall :: "prepare_declaration \<Rightarrow> ('b, unit) net_action"
  remove_routes :: "prepare_declaration \<Rightarrow> ('b, unit) net_action"
  backend_withdraw_prefixes :: "prepare_declaration \<Rightarrow> ipv4_prefix list \<Rightarrow> ('b, unit) net_action"
  remove_link :: "prepare_declaration \<Rightarrow> ('b, unit) net_action"
  restore_sysctls :: "prepare_declaration \<Rightarrow> sysctl_change list \<Rightarrow> ('b, unit) net_action"

text \<open>The default bodies of the trait, for a backend that does not override them.\<close>

definition default_reconcile_routes ::
    "'b backend_ops \<Rightarrow> prepare_declaration \<Rightarrow> ipv4_prefix list \<Rightarrow> ('b, unit) net_action" where
  "default_reconcile_routes B d failed =
     andthen (prepare_routes B d)
       (when_true (failed \<noteq> []) (backend_withdraw_prefixes B d failed))"

definition default_replace_firewall ::
    "'b backend_ops \<Rightarrow> prepare_declaration \<Rightarrow> prepare_declaration \<Rightarrow> ('b, unit) net_action" where
  "default_replace_firewall B previous replacement =
     andthen (remove_firewall B previous) (prepare_firewall B replacement)"

definition default_update_link_mtu :: "prepare_declaration \<Rightarrow> u16 \<Rightarrow> ('b, unit) net_action" where
  "default_update_link_mtu d mtu = throw Backend"

definition default_withdraw_prefixes ::
    "'b backend_ops \<Rightarrow> prepare_declaration \<Rightarrow> ipv4_prefix list \<Rightarrow> ('b, unit) net_action" where
  "default_withdraw_prefixes B d prefixes =
     (let scoped = d\<lparr>routes := filter (\<lambda>r. route_prefix r \<in> set prefixes) (routes d)\<rparr> in
      if routes scoped = [] then return () else remove_routes B scoped)"

record 'j journal_ops =
  journal_load :: "('j, transaction_record option) net_action"
  journal_store :: "transaction_record \<Rightarrow> ('j, unit) net_action"
  journal_clear :: "('j, unit) net_action"

section \<open>Peers\<close>

text \<open>The credentials the kernel attests for the peer of a control socket.\<close>

record peer_credentials =
  peer_pid :: u32
  peer_uid :: u32
  peer_gid :: u32

end
