(* ===== verification/Netd_Journal.thy ===== *)
theory Netd_Journal
  imports Netd_Record
begin

text \<open>
  The durable transaction journal (\<^verbatim>\<open>candy-netd/src/journal.rs\<close>): the four-version record format
  with its SHA-256 trailer, and the file journal with its ownership checks and its
  write-temporary, sync, rename, sync-directory store. SHA-256 is a parameter of every definition
  that uses it. \<^verbatim>\<open>usize\<close> arithmetic is on \<open>nat\<close>: every offset is bounded by twice the frame limit,
  so the \<^verbatim>\<open>checked_add\<close> and \<^verbatim>\<open>checked_mul\<close> of the code do not overflow and have no error branch here.
\<close>

section \<open>Format constants\<close>

definition MAGIC_V1 :: bytes where "MAGIC_V1 = [67, 78, 68, 74, 78, 76, 48, 49]"
definition MAGIC_V2 :: bytes where "MAGIC_V2 = [67, 78, 68, 74, 78, 76, 48, 50]"
definition MAGIC_V3 :: bytes where "MAGIC_V3 = [67, 78, 68, 74, 78, 76, 48, 51]"
definition MAGIC_V4 :: bytes where "MAGIC_V4 = [67, 78, 68, 74, 78, 76, 48, 52]"
definition HEADER_LEN :: nat where "HEADER_LEN = 8 + 1 + 2 + 1 + 4"
definition CHECKSUM_LEN :: nat where "CHECKSUM_LEN = 32"
definition MAX_JOURNAL_LEN :: nat where
  "MAX_JOURNAL_LEN = HEADER_LEN + 3 * 3 + 8 + MAX_NETD_FRAME_LEN + 4 + MAX_NETD_FRAME_LEN + 4 + 2
     + 5 * 1024 + CHECKSUM_LEN"
definition MAX_FAILED_PREFIXES :: nat where "MAX_FAILED_PREFIXES = 1024"

lemmas magic_defs = MAGIC_V1_def MAGIC_V2_def MAGIC_V3_def MAGIC_V4_def

section \<open>Encoding\<close>

definition canonical_prefix :: "ipv4_prefix \<Rightarrow> bool" where
  "canonical_prefix p =
     (if prefix_len p > 32 then False
      else
        let host_mask = (if prefix_len p = 0 then - 1
                         else push_bit (unat (32 - prefix_len p)) 1 - 1) in
        network p AND host_mask = 0)"

definition sysctl_change_ok :: "sysctl_change \<Rightarrow> bool" where
  "sysctl_change_ok c \<longleftrightarrow> \<not> (original c > 2 \<or> applied c > 2 \<or> original c = applied c)"

definition candidate_phase :: "transaction_phase \<Rightarrow> bool" where
  "candidate_phase p \<longleftrightarrow> p \<in> {TxPreparing, TxPrepared, TxDraining, TxRollingBack}"

fun tx_phase_tag :: "transaction_phase \<Rightarrow> u8" where
  "tx_phase_tag TxPreparing = 1"
| "tx_phase_tag TxPrepared = 2"
| "tx_phase_tag TxActive = 3"
| "tx_phase_tag TxRollingBack = 4"
| "tx_phase_tag TxSuspended = 5"
| "tx_phase_tag TxDraining = 6"

definition tx_phase_of :: "u8 \<Rightarrow> network_error + transaction_phase" where
  "tx_phase_of v =
     (if v = 1 then Inr TxPreparing
      else if v = 2 then Inr TxPrepared
      else if v = 3 then Inr TxActive
      else if v = 4 then Inr TxRollingBack
      else if v = 5 then Inr TxSuspended
      else if v = 6 then Inr TxDraining
      else Inl Journal)"

text \<open>The checks \<^verbatim>\<open>encode_record\<close> makes before it serialises anything.\<close>

definition record_encodable :: "transaction_record \<Rightarrow> bool" where
  "record_encodable r \<longleftrightarrow>
     \<not> (length (failed_prefixes r) > MAX_FAILED_PREFIXES
        \<or> \<not> successively (\<lambda>p q. \<not> p \<ge> q) (failed_prefixes r)
        \<or> list_ex (\<lambda>p. \<not> canonical_prefix p) (failed_prefixes r))
     \<and> \<not> (length (sysctls r) > 4
        \<or> \<not> successively (\<lambda>a b. sysctl_key a < sysctl_key b) (sysctls r)
        \<or> list_ex (\<lambda>c. \<not> sysctl_change_ok c) (sysctls r))
     \<and> \<not> (recovery_candidate r \<noteq> None \<and> \<not> candidate_phase (tx_phase r))
     \<and> (case recovery_candidate_owner r of
          None \<Rightarrow> True
        | Some candidate_owner \<Rightarrow>
            \<not> (recovery_candidate r = None
               \<or> instance_id candidate_owner \<noteq> instance_id (tx_owner r)
               \<or> pid candidate_owner \<noteq> pid (tx_owner r)
               \<or> generation candidate_owner < generation (tx_owner r)))"

definition prepare_request :: "lease_owner \<Rightarrow> prepare_declaration \<Rightarrow> netd_request" where
  "prepare_request owner d = \<lparr>request_id = 1, request_owner = owner, operation = Prepare d\<rparr>"

definition encode_prepare :: "lease_owner \<Rightarrow> prepare_declaration \<Rightarrow> network_error + bytes" where
  "encode_prepare owner d = map_err (\<lambda>_. Journal) (encode_request (prepare_request owner d))"

definition encode_recovery :: "transaction_record \<Rightarrow> network_error + bytes option" where
  "encode_recovery r =
     (case recovery_candidate r of
        None \<Rightarrow> Inr None
      | Some d \<Rightarrow>
          rbind (encode_prepare
                   (case recovery_candidate_owner r of None \<Rightarrow> tx_owner r | Some owner \<Rightarrow> owner) d)
            (\<lambda>bs. Inr (Some bs)))"

definition encode_sysctl :: "sysctl_change \<Rightarrow> bytes" where
  "encode_sysctl c = [sysctl_key_tag (sysctl_key c), original c, applied c]"

definition encode_failed_prefix :: "ipv4_prefix \<Rightarrow> bytes" where
  "encode_failed_prefix p = to_be_bytes 4 (network p) @ [prefix_len p]"

definition try_u32_len :: "bytes \<Rightarrow> network_error + u32" where
  "try_u32_len bs = (if length bs < 2 ^ 32 then Inr (of_nat (length bs)) else Inl Journal)"

definition record_magic :: "transaction_record \<Rightarrow> bytes" where
  "record_magic r =
     (if failed_prefixes r \<noteq> [] then MAGIC_V4
      else if recovery_candidate r \<noteq> None then MAGIC_V3
      else MAGIC_V1)"

text \<open>Magic, phase, steps, sysctls and the drain deadline.\<close>

definition encode_header :: "transaction_record \<Rightarrow> bytes" where
  "encode_header r =
     record_magic r @ [tx_phase_tag (tx_phase r)] @ to_be_bytes 2 (completed_steps r)
     @ [of_nat (length (sysctls r))] @ concat (map encode_sysctl (sysctls r))
     @ (if recovery_candidate r \<noteq> None then to_be_bytes 8 (drain_deadline_mono_ms r) else [])"

text \<open>The recovery request and the failed-prefix extension.\<close>

definition encode_extension :: "transaction_record \<Rightarrow> bytes option \<Rightarrow> network_error + bytes" where
  "encode_extension r recovery =
     rbind
       (case recovery of
          Some bs \<Rightarrow> rbind (try_u32_len bs) (\<lambda>len. Inr (to_be_bytes 4 len @ bs))
        | None \<Rightarrow> Inr (if failed_prefixes r \<noteq> [] then to_be_bytes 4 (0 :: u32) else []))
       (\<lambda>rec.
     Inr (rec @
       (if failed_prefixes r \<noteq> []
        then to_be_bytes 2 (of_nat (length (failed_prefixes r)) :: u16)
             @ concat (map encode_failed_prefix (failed_prefixes r))
        else [])))"

definition encode_record :: "(bytes \<Rightarrow> u256) \<Rightarrow> transaction_record \<Rightarrow> network_error + bytes" where
  "encode_record sha256 r =
     (if \<not> record_encodable r then Inl Journal
      else
        rbind (encode_prepare (tx_owner r) (tx_declaration r)) (\<lambda>request.
        rbind (encode_recovery r) (\<lambda>recovery.
        rbind (try_u32_len request) (\<lambda>len.
        rbind (encode_extension r recovery) (\<lambda>ext.
        let content = encode_header r @ to_be_bytes 4 len @ request @ ext in
        Inr (content @ to_be_bytes 32 (sha256 content)))))))"

section \<open>Decoding\<close>

text \<open>\<^verbatim>\<open>bytes[i..j]\<close>; every use is within bounds.\<close>

definition slice :: "bytes \<Rightarrow> nat \<Rightarrow> nat \<Rightarrow> bytes" where
  "slice bs i j = take (j - i) (drop i bs)"

function chunks_exact :: "nat \<Rightarrow> bytes \<Rightarrow> bytes list" where
  "chunks_exact n bs =
     (if n = 0 \<or> length bs < n then [] else take n bs # chunks_exact n (drop n bs))"
  by pat_completeness auto
termination by (relation "measure (\<lambda>(n, bs). length bs)") auto

declare chunks_exact.simps [simp del]

fun decode_sysctls :: "sysctl_change list \<Rightarrow> bytes list \<Rightarrow> network_error + sysctl_change list" where
  "decode_sysctls acc [] = Inr acc"
| "decode_sysctls acc (chunk # chunks) =
     rbind (sysctl_key_of (chunk ! 0)) (\<lambda>key.
     let change = \<lparr>sysctl_key = key, original = chunk ! 1, applied = chunk ! 2\<rparr> in
     if \<not> sysctl_change_ok change \<or> (acc \<noteq> [] \<and> sysctl_key (last acc) \<ge> sysctl_key change)
     then Inl Journal
     else decode_sysctls (acc @ [change]) chunks)"

fun decode_failed_prefixes :: "ipv4_prefix list \<Rightarrow> bytes list \<Rightarrow> network_error + ipv4_prefix list" where
  "decode_failed_prefixes acc [] = Inr acc"
| "decode_failed_prefixes acc (chunk # chunks) =
     (let p = Ipv4Prefix (from_be_bytes (take 4 chunk)) (chunk ! 4) in
      if \<not> canonical_prefix p \<or> (acc \<noteq> [] \<and> last acc \<ge> p) then Inl Journal
      else decode_failed_prefixes (acc @ [p]) chunks)"

text \<open>\<^verbatim>\<open>usize::try_from(u32::from_be_bytes(bytes[i..i + 4]))\<close>.\<close>

definition u32_at :: "bytes \<Rightarrow> nat \<Rightarrow> nat" where
  "u32_at bs i = unat (from_be_bytes (slice bs i (i + 4)) :: u32)"

definition decode_prepare :: "bytes \<Rightarrow> network_error + (lease_owner \<times> prepare_declaration)" where
  "decode_prepare bs =
     rbind (map_err (\<lambda>_. Journal) (decode_request bs)) (\<lambda>request.
     case operation request of
       Prepare d \<Rightarrow> Inr (request_owner request, d)
     | _ \<Rightarrow> Inl Journal)"

text \<open>
  \<^verbatim>\<open>recovery_candidate\<close> and \<^verbatim>\<open>recovery_candidate_owner\<close>. The phase check precedes the check that the
  recovery request is a Prepare; both fail with the same error.
\<close>

definition decode_recovery ::
    "bytes \<Rightarrow> bytes \<Rightarrow> nat \<Rightarrow> nat \<Rightarrow> transaction_phase \<Rightarrow> lease_owner \<Rightarrow>
     network_error + (prepare_declaration option \<times> lease_owner option)" where
  "decode_recovery version bs content_len request_end phase owner =
     (if version = MAGIC_V1 then
        (if request_end \<noteq> content_len then Inl Journal else Inr (None, None))
      else
        let recovery_header_end = request_end + 4 in
        if recovery_header_end > content_len then Inl Journal
        else
          let recovery_len = u32_at bs request_end;
              recovery_end = recovery_header_end + recovery_len in
          if recovery_len = 0 then
            (if version \<noteq> MAGIC_V4 then Inl Journal else Inr (None, None))
          else if recovery_len > MAX_NETD_FRAME_LEN \<or> recovery_end > content_len then Inl Journal
          else
            rbind (decode_prepare (slice bs recovery_header_end recovery_end))
              (\<lambda>(recovery_owner, candidate).
            if (instance_id recovery_owner \<noteq> instance_id owner
                \<or> pid recovery_owner \<noteq> pid owner
                \<or> generation recovery_owner < generation owner)
               \<or> \<not> candidate_phase phase
            then Inl Journal
            else Inr (Some candidate,
              if recovery_owner \<noteq> owner then Some recovery_owner else None)))"

definition decode_extension ::
    "bytes \<Rightarrow> bytes \<Rightarrow> nat \<Rightarrow> nat \<Rightarrow> prepare_declaration option \<Rightarrow>
     network_error + ipv4_prefix list" where
  "decode_extension version bs content_len request_end candidate =
     (let recovery_end = request_end + 4 + u32_at bs request_end in
      if version = MAGIC_V4 then
        (let offset = (if candidate \<noteq> None then recovery_end else request_end + 4);
             count_end = offset + 2 in
         if candidate = None \<and> offset > content_len then Inl Journal
         else if count_end > content_len then Inl Journal
         else
           let count = unat (from_be_bytes (slice bs offset count_end) :: u16);
               payload_end = count_end + count * 5 in
           if count = 0 \<or> count > MAX_FAILED_PREFIXES \<or> payload_end \<noteq> content_len
           then Inl Journal
           else decode_failed_prefixes [] (chunks_exact 5 (slice bs count_end payload_end)))
      else if candidate \<noteq> None \<and> recovery_end \<noteq> content_len then Inl Journal
      else Inr [])"

definition decode_body ::
    "bytes \<Rightarrow> bytes \<Rightarrow> nat \<Rightarrow> network_error + transaction_record" where
  "decode_body version bs content_len =
     rbind (tx_phase_of (bs ! 8)) (\<lambda>phase.
     let steps = (from_be_bytes (slice bs 9 11) :: u16) in
     if steps AND NOT 0x3f \<noteq> 0 then Inl Journal
     else
       let sysctl_count = unat (bs ! 11) in
       if sysctl_count > 4 then Inl Journal
       else
         let sysctl_end = 12 + sysctl_count * 3;
             deadline_len = (if version = MAGIC_V3 then 8 else 0);
             request_header_end = sysctl_end + deadline_len + 4 in
         if request_header_end > content_len then Inl Journal
         else
           rbind (decode_sysctls [] (chunks_exact 3 (slice bs 12 sysctl_end))) (\<lambda>changes.
           let deadline = (if deadline_len = 8
                 then from_be_bytes (slice bs sysctl_end (sysctl_end + 8)) else 0);
               request_len = u32_at bs (sysctl_end + deadline_len) in
           if request_len = 0 \<or> request_len > MAX_NETD_FRAME_LEN then Inl Journal
           else
             let request_end = request_header_end + request_len in
             if request_end > content_len then Inl Journal
             else
               rbind (decode_prepare (slice bs request_header_end request_end)) (\<lambda>(owner, d).
               rbind (decode_recovery version bs content_len request_end phase owner)
                 (\<lambda>(candidate, candidate_owner).
               rbind (decode_extension version bs content_len request_end candidate) (\<lambda>failed.
               Inr \<lparr>tx_owner = owner, tx_declaration = d, recovery_candidate = candidate,
                    recovery_candidate_owner = candidate_owner, tx_phase = phase,
                    completed_steps = steps, sysctls = changes,
                    drain_deadline_mono_ms = deadline, failed_prefixes = failed\<rparr>)))))"

definition decode_record :: "(bytes \<Rightarrow> u256) \<Rightarrow> bytes \<Rightarrow> network_error + transaction_record" where
  "decode_record sha256 bs =
     (if length bs < HEADER_LEN + CHECKSUM_LEN
         \<or> take 8 bs \<notin> {MAGIC_V1, MAGIC_V2, MAGIC_V3, MAGIC_V4}
      then Inl Journal
      else
        let content_len = length bs - CHECKSUM_LEN in
        if to_be_bytes 32 (sha256 (take content_len bs)) \<noteq> drop content_len bs then Inl Journal
        else decode_body (take 8 bs) bs content_len)"

section \<open>Pieces of a record\<close>

lemma canonical_prefix_iff: "canonical_prefix p \<longleftrightarrow> prefix_ok p"
proof (cases "prefix_len p \<le> 32")
  case True
  have len: "unat (32 - prefix_len p) = host_bits p"
    using True by (simp add: unat_sub host_bits_def)
  have "(if prefix_len p = 0 then - 1 else push_bit (unat (32 - prefix_len p)) 1 - 1)
      = (mask (host_bits p) :: u32)"
  proof (cases "prefix_len p = 0")
    case True
    then show ?thesis by (simp add: host_bits_def mask_eq_exp_minus_1)
  next
    case False
    then show ?thesis by (simp add: len mask_eq_exp_minus_1 push_bit_eq_mult)
  qed
  moreover have "\<not> prefix_len p > 32" using True by (simp add: not_less)
  ultimately show ?thesis using True by (simp only: canonical_prefix_def prefix_ok_iff Let_def if_False simp_thms)
next
  case False
  then have "prefix_len p > 32" by (simp add: not_le)
  with False show ?thesis by (simp only: canonical_prefix_def prefix_ok_iff if_True simp_thms)
qed

lemma slice_mid [simp]:
  assumes "i = length a" and "j = length a + length b"
  shows "slice (a @ b @ c) i j = b"
  using assms by (simp add: slice_def)

lemma u32_at_mid:
  assumes "i = length a"
  shows "u32_at (a @ to_be_bytes 4 (w :: u32) @ c) i = unat w"
  using assms by (simp add: u32_at_def from_to_be_bytes)

lemma chunks_exact_Nil [simp]: "chunks_exact n [] = []"
  by (subst chunks_exact.simps) auto

lemma chunks_exact_append:
  assumes "length b = n" and "0 < n"
  shows "chunks_exact n (b @ bs) = b # chunks_exact n bs"
  by (subst chunks_exact.simps) (use assms in simp)

lemma chunks_exact_concat:
  assumes "\<And>x. length (f x) = n" and "0 < n"
  shows "chunks_exact n (concat (map f xs)) = map f xs"
  using assms by (induction xs) (simp_all add: chunks_exact_append)

lemma length_concat_map:
  assumes "\<And>x. length (f x) = n"
  shows "length (concat (map f xs)) = n * length xs"
  using assms by (induction xs) simp_all

lemma length_encode_sysctl [simp]: "length (encode_sysctl c) = 3"
  by (simp add: encode_sysctl_def)

lemma length_encode_failed_prefix [simp]: "length (encode_failed_prefix p) = 5"
  by (simp add: encode_failed_prefix_def)

lemma decode_sysctls_encode:
  assumes "successively (\<lambda>a b. sysctl_key a < sysctl_key b) (acc @ cs)"
    and "\<forall>c \<in> set cs. sysctl_change_ok c"
  shows "decode_sysctls acc (map encode_sysctl cs) = Inr (acc @ cs)"
  using assms
proof (induction cs arbitrary: acc)
  case (Cons c cs)
  have c: "\<lparr>sysctl_key = sysctl_key c, original = original c, applied = applied c\<rparr> = c" by simp
  have "acc \<noteq> [] \<Longrightarrow> sysctl_key (last acc) < sysctl_key c"
    using Cons.prems(1) by (simp add: successively_append_iff)
  then show ?case
    using Cons.IH [of "acc @ [c]"] Cons.prems by (auto simp: encode_sysctl_def c Let_def)
qed simp

lemma decode_failed_prefixes_encode:
  assumes "successively (\<lambda>p q. \<not> p \<ge> q) (acc @ ps)" and "\<forall>p \<in> set ps. canonical_prefix p"
  shows "decode_failed_prefixes acc (map encode_failed_prefix ps) = Inr (acc @ ps)"
  using assms
proof (induction ps arbitrary: acc)
  case (Cons p ps)
  have p: "Ipv4Prefix (from_be_bytes (take 4 (encode_failed_prefix p)))
      (encode_failed_prefix p ! 4) = p"
    by (simp add: encode_failed_prefix_def from_to_be_bytes nth_append)
  have "acc \<noteq> [] \<Longrightarrow> last acc < p"
    using Cons.prems(1) by (simp add: successively_append_iff not_le)
  then show ?case
    using Cons.IH [of "acc @ [p]"] Cons.prems by (auto simp: p Let_def)
qed simp

lemma tx_phase_of_tag [simp]: "tx_phase_of (tx_phase_tag p) = Inr p"
  by (cases p) (simp_all add: tx_phase_of_def)

lemma encode_prepare_Inr:
  assumes "encode_prepare owner d = Inr bs"
  shows "0 < length bs" "length bs \<le> MAX_NETD_FRAME_LEN" "valid_owner owner" "valid_declaration d"
proof -
  have e: "encode_request (prepare_request owner d) = Inr bs"
    using assms by (simp add: encode_prepare_def)
  then have "ensure_frame bs = Inr ()"
    by (auto simp: encode_request_def rbind_eq_Inr Let_def)
  then show "0 < length bs" "length bs \<le> MAX_NETD_FRAME_LEN"
    by (auto simp: ensure_frame_def split: if_splits)
  from e have v: "validate_request (prepare_request owner d) = Inr ()"
    by (simp add: encode_request_Inr)
  then show "valid_owner owner" "valid_declaration d"
    using validate_request_parts(1,2) [OF v] by (simp_all add: prepare_request_def)
qed

lemma decode_prepare_encode:
  assumes "encode_prepare owner d = Inr bs" and "list_all prefix_ok (declaration_prefixes d)"
  shows "decode_prepare bs = Inr (owner, d)"
proof -
  have "encode_request (prepare_request owner d) = Inr bs"
    using assms(1) by (simp add: encode_prepare_def)
  moreover from this assms(2) have "request_ok (prepare_request owner d)"
    by (auto simp: encode_request_Inr request_ok_def prepare_request_def operation_prefixes_def
        withdraw_count_def)
  ultimately have "decode_request bs = Inr (prepare_request owner d)"
    by (simp add: decode_request_iff_encode)
  then show ?thesis by (simp add: decode_prepare_def prepare_request_def)
qed

lemma decode_prepare_Inr:
  assumes "decode_prepare bs = Inr (owner, d)"
  shows "valid_owner owner" "declaration_ok d"
proof -
  from assms obtain req where dec: "decode_request bs = Inr req"
    by (auto simp: decode_prepare_def rbind_eq_Inr)
  with assms have req: "decode_request bs = Inr req" "operation req = Prepare d"
      "request_owner req = owner"
    by (cases "operation req"; simp add: decode_prepare_def)+
  then have ok: "request_ok req" by (simp add: decode_request_iff_encode)
  then have v: "validate_request req = Inr ()" by (simp add: request_ok_def)
  show "valid_owner owner" using validate_request_parts(1) [OF v] req by simp
  show "declaration_ok d" using request_ok_declaration [OF ok] req by simp
qed

section \<open>Round trip\<close>

text \<open>What a stored record reads back as: the format keeps the drain deadline only beside a
  recovery candidate, and keeps the candidate's owner only when it differs from the owner.\<close>

definition durable_image :: "transaction_record \<Rightarrow> transaction_record" where
  "durable_image r =
     r\<lparr>recovery_candidate_owner :=
          (if recovery_candidate_owner r = Some (tx_owner r) then None
           else recovery_candidate_owner r),
       drain_deadline_mono_ms :=
          (if recovery_candidate r = None then 0 else drain_deadline_mono_ms r)\<rparr>"

definition canonical_declaration :: "prepare_declaration \<Rightarrow> bool" where
  "canonical_declaration d \<longleftrightarrow> list_all prefix_ok (declaration_prefixes d)"

definition record_loadable :: "transaction_record \<Rightarrow> bool" where
  "record_loadable r \<longleftrightarrow>
     canonical_declaration (tx_declaration r)
     \<and> pred_option canonical_declaration (recovery_candidate r)
     \<and> completed_steps r AND NOT 0x3f = 0
     \<and> (failed_prefixes r = [] \<or> recovery_candidate r = None)"

lemma decode_body_fields:
  fixes len :: u32
  assumes bs: "bs = m @ [ph] @ s2 @ [n] @ S @ D @ to_be_bytes 4 len @ R @ X @ C"
    and m: "length m = 8" and s2: "length s2 = 2" and n: "unat n \<le> 4"
    and S: "length S = 3 * unat n" and D: "length D = (if m = MAGIC_V3 then 8 else 0)"
    and len: "unat len = length R" and R: "0 < length R" "length R \<le> MAX_NETD_FRAME_LEN"
    and content: "content_len = length bs - length C"
  shows "bs ! 8 = ph" "slice bs 9 11 = s2" "bs ! 11 = n" "slice bs 12 (12 + unat n * 3) = S"
    "m = MAGIC_V3 \<Longrightarrow> slice bs (12 + unat n * 3) (12 + unat n * 3 + 8) = D"
    "u32_at bs (12 + unat n * 3 + length D) = length R"
    "slice bs (12 + unat n * 3 + length D + 4) (12 + unat n * 3 + length D + 4 + length R) = R"
    "content_len = 12 + unat n * 3 + length D + 4 + length R + length X"
proof -
  show "bs ! 8 = ph" using m by (simp add: bs nth_append)
  show "slice bs 9 11 = s2"
    using slice_mid [of 9 "m @ [ph]" 11 s2 "[n] @ S @ D @ to_be_bytes 4 len @ R @ X @ C"] m s2
    by (simp add: bs)
  show "bs ! 11 = n" using m s2 by (simp add: bs nth_append)
  show "slice bs 12 (12 + unat n * 3) = S"
    using slice_mid [of 12 "m @ [ph] @ s2 @ [n]" "12 + unat n * 3" S
        "D @ to_be_bytes 4 len @ R @ X @ C"] m s2 S by (simp add: bs)
  show "m = MAGIC_V3 \<Longrightarrow> slice bs (12 + unat n * 3) (12 + unat n * 3 + 8) = D"
    using slice_mid [of "12 + unat n * 3" "m @ [ph] @ s2 @ [n] @ S" "12 + unat n * 3 + 8" D
        "to_be_bytes 4 len @ R @ X @ C"] m s2 S D by (simp add: bs)
  show "u32_at bs (12 + unat n * 3 + length D) = length R"
    using u32_at_mid [of "12 + unat n * 3 + length D" "m @ [ph] @ s2 @ [n] @ S @ D" len
        "R @ X @ C"] m s2 S len by (simp add: bs)
  show "slice bs (12 + unat n * 3 + length D + 4) (12 + unat n * 3 + length D + 4 + length R) = R"
    using slice_mid [of "12 + unat n * 3 + length D + 4"
        "m @ [ph] @ s2 @ [n] @ S @ D @ to_be_bytes 4 len"
        "12 + unat n * 3 + length D + 4 + length R" R "X @ C"] m s2 S by (simp add: bs)
  show "content_len = 12 + unat n * 3 + length D + 4 + length R + length X"
    using content m s2 S by (simp add: bs)
qed

lemma encode_record_Inr:
  assumes "encode_record sha256 r = Inr bs"
  obtains request recovery ext where "record_encodable r"
    "encode_prepare (tx_owner r) (tx_declaration r) = Inr request"
    "encode_recovery r = Inr recovery" "encode_extension r recovery = Inr ext"
    "bs = (encode_header r @ to_be_bytes 4 (of_nat (length request) :: u32) @ request @ ext)
        @ to_be_bytes 32 (sha256
            (encode_header r @ to_be_bytes 4 (of_nat (length request) :: u32) @ request @ ext))"
  using assms
  by (auto simp: encode_record_def rbind_eq_Inr Let_def try_u32_len_def split: if_splits)

lemma length_u32: "length R \<le> MAX_NETD_FRAME_LEN \<Longrightarrow> unat (of_nat (length R) :: u32) = length R"
  by (simp add: unat_of_nat MAX_NETD_FRAME_LEN_def)

lemma try_u32_len_frame:
  "length R \<le> MAX_NETD_FRAME_LEN \<Longrightarrow> try_u32_len R = Inr (of_nat (length R))"
  by (simp add: try_u32_len_def MAX_NETD_FRAME_LEN_def)

lemma encode_recovery_Inr:
  assumes "encode_recovery r = Inr recovery"
  shows "recovery = None \<longleftrightarrow> recovery_candidate r = None"
    and "recovery = Some bs \<Longrightarrow> \<exists>d. recovery_candidate r = Some d \<and>
      encode_prepare (case recovery_candidate_owner r of None \<Rightarrow> tx_owner r | Some owner \<Rightarrow> owner) d
        = Inr bs"
  using assms by (auto simp: encode_recovery_def rbind_eq_Inr split: option.splits)

lemma length_record_magic: "length (record_magic r) = 8"
  by (simp add: record_magic_def magic_defs)

lemma magic_distinct [simp]:
  "MAGIC_V1 \<noteq> MAGIC_V3" "MAGIC_V1 \<noteq> MAGIC_V4" "MAGIC_V3 \<noteq> MAGIC_V1" "MAGIC_V3 \<noteq> MAGIC_V4"
  "MAGIC_V4 \<noteq> MAGIC_V1" "MAGIC_V4 \<noteq> MAGIC_V3"
  by (simp_all add: magic_defs)

lemma record_update_eta:
  "r\<lparr>drain_deadline_mono_ms := x, recovery_candidate := c, recovery_candidate_owner := co,
     failed_prefixes := f\<rparr> =
   \<lparr>tx_owner = tx_owner r, tx_declaration = tx_declaration r, recovery_candidate = c,
    recovery_candidate_owner = co, tx_phase = tx_phase r, completed_steps = completed_steps r,
    sysctls = sysctls r, drain_deadline_mono_ms = x, failed_prefixes = f\<rparr>"
  "r\<lparr>recovery_candidate := c, recovery_candidate_owner := co, failed_prefixes := f\<rparr> =
   \<lparr>tx_owner = tx_owner r, tx_declaration = tx_declaration r, recovery_candidate = c,
    recovery_candidate_owner = co, tx_phase = tx_phase r, completed_steps = completed_steps r,
    sysctls = sysctls r, drain_deadline_mono_ms = drain_deadline_mono_ms r,
    failed_prefixes = f\<rparr>"
  by (cases r; simp)+

text \<open>Everything before the extension reads back; what follows it is left to the two decoders.\<close>

lemma decode_body_encode:
  assumes enc: "record_encodable r" and load: "record_loadable r"
    and req: "encode_prepare (tx_owner r) (tx_declaration r) = Inr request"
    and bs: "bs = encode_header r @ to_be_bytes 4 (of_nat (length request) :: u32) @ request
        @ ext @ checksum"
    and content: "content_len = length bs - length checksum"
  shows "decode_body (record_magic r) bs content_len =
     rbind (decode_recovery (record_magic r) bs content_len (content_len - length ext) (tx_phase r)
              (tx_owner r)) (\<lambda>(candidate, candidate_owner).
     rbind (decode_extension (record_magic r) bs content_len (content_len - length ext) candidate)
       (\<lambda>failed.
     Inr ((durable_image r)\<lparr>recovery_candidate := candidate,
        recovery_candidate_owner := candidate_owner, failed_prefixes := failed\<rparr>)))"
proof -
  define D where "D = (if recovery_candidate r \<noteq> None
    then to_be_bytes 8 (drain_deadline_mono_ms r) else [])"
  have count: "unat (of_nat (length (sysctls r)) :: u8) = length (sysctls r)"
      "length (sysctls r) \<le> 4"
    using enc by (simp_all add: record_encodable_def unat_of_nat)
  have v3: "record_magic r = MAGIC_V3 \<longleftrightarrow> recovery_candidate r \<noteq> None"
    using load by (auto simp: record_magic_def record_loadable_def)
  have D: "length D = (if record_magic r = MAGIC_V3 then 8 else 0)"
    by (simp add: D_def v3)
  note R = encode_prepare_Inr(1,2) [OF req]
  note fields = decode_body_fields [where m = "record_magic r" and ph = "tx_phase_tag (tx_phase r)"
      and ?s2.0 = "to_be_bytes 2 (completed_steps r)" and n = "of_nat (length (sysctls r))"
      and S = "concat (map encode_sysctl (sysctls r))" and D = D and R = request and X = ext
      and C = checksum and len = "of_nat (length request)" and bs = bs and content_len = content_len,
      unfolded count(1), OF _ length_record_magic _ count(2) _ D length_u32 [OF R(2)] R content,
      unfolded length_concat_map [of encode_sysctl, OF length_encode_sysctl]]
  have shape: "bs = record_magic r @ [tx_phase_tag (tx_phase r)] @ to_be_bytes 2 (completed_steps r)
      @ [of_nat (length (sysctls r))] @ concat (map encode_sysctl (sysctls r)) @ D
      @ to_be_bytes 4 (of_nat (length request) :: u32) @ request @ ext @ checksum"
    by (simp add: bs encode_header_def D_def)
  note f = fields [OF shape, simplified]
  have sys: "decode_sysctls [] (chunks_exact 3 (concat (map encode_sysctl (sysctls r))))
      = Inr (sysctls r)"
    using enc decode_sysctls_encode [of "[]" "sysctls r"]
    by (simp add: chunks_exact_concat record_encodable_def list_ex_iff)
  have dec: "decode_prepare request = Inr (tx_owner r, tx_declaration r)"
    using decode_prepare_encode [OF req] load
    by (simp add: record_loadable_def canonical_declaration_def)
  show ?thesis
  proof (cases "recovery_candidate r")
    case None
    then show ?thesis
      using load f R count v3 D
      by (simp add: decode_body_def Let_def sys dec from_to_be_bytes record_loadable_def
          durable_image_def record_update_eta)
  next
    case (Some d)
    then show ?thesis
      using load f R count v3 D
      by (simp add: decode_body_def Let_def sys dec from_to_be_bytes record_loadable_def
          durable_image_def record_update_eta D_def)
  qed
qed

lemma recovery_owner_fields:
  assumes "record_encodable r" and "recovery_candidate r = Some d"
  defines "owner \<equiv> (case recovery_candidate_owner r of None \<Rightarrow> tx_owner r | Some owner \<Rightarrow> owner)"
  shows "candidate_phase (tx_phase r)" "instance_id owner = instance_id (tx_owner r)"
    "pid owner = pid (tx_owner r)" "generation (tx_owner r) \<le> generation owner"
    "(if owner \<noteq> tx_owner r then Some owner else None) =
       recovery_candidate_owner (durable_image r)"
  using assms by (auto simp: record_encodable_def durable_image_def split: option.splits)

lemma decode_encode_candidate:
  assumes enc: "record_encodable r" and load: "record_loadable r"
    and d: "recovery_candidate r = Some d" and rec: "encode_recovery r = Inr (Some recovery)"
    and ext: "encode_extension r (Some recovery) = Inr ext"
    and bs: "bs = before @ ext @ checksum" and content: "content_len = length bs - length checksum"
  shows "decode_recovery (record_magic r) bs content_len (content_len - length ext) (tx_phase r)
      (tx_owner r) = Inr (Some d, recovery_candidate_owner (durable_image r))"
    and "decode_extension (record_magic r) bs content_len (content_len - length ext) (Some d)
      = Inr (failed_prefixes r)"
proof -
  let ?owner = "case recovery_candidate_owner r of None \<Rightarrow> tx_owner r | Some owner \<Rightarrow> owner"
  note owner = recovery_owner_fields [OF enc d]
  have prep: "encode_prepare ?owner d = Inr recovery"
    using encode_recovery_Inr(2) [OF rec refl] d by auto
  note R = encode_prepare_Inr(1,2) [OF prep]
  have none: "failed_prefixes r = []" using load d by (simp add: record_loadable_def)
  then have magic: "record_magic r = MAGIC_V3" by (simp add: record_magic_def d)
  have e: "ext = to_be_bytes 4 (of_nat (length recovery) :: u32) @ recovery"
    using ext none by (simp add: encode_extension_def try_u32_len_frame [OF R(2)])
  have len: "content_len = length before + 4 + length recovery" by (simp add: content bs e)
  have at: "u32_at bs (length before) = length recovery"
    using u32_at_mid [of "length before" before "of_nat (length recovery)" "recovery @ checksum"]
    by (simp add: bs e length_u32 [OF R(2)])
  have sl: "slice bs (length before + 4) (length before + 4 + length recovery) = recovery"
    using slice_mid [of "length before + 4" "before @ to_be_bytes 4 (of_nat (length recovery) :: u32)"
        "length before + 4 + length recovery" recovery checksum]
    by (simp add: bs e)
  have dec: "decode_prepare recovery = Inr (?owner, d)"
    using decode_prepare_encode [OF prep] load d
    by (simp add: record_loadable_def canonical_declaration_def)
  have "content_len - length ext = length before" by (simp add: len e)
  then show "decode_recovery (record_magic r) bs content_len (content_len - length ext) (tx_phase r)
      (tx_owner r) = Inr (Some d, recovery_candidate_owner (durable_image r))"
    using R owner by (simp add: decode_recovery_def magic len at sl dec Let_def not_less)
  show "decode_extension (record_magic r) bs content_len (content_len - length ext) (Some d)
      = Inr (failed_prefixes r)"
    by (simp add: decode_extension_def magic len e at none)
qed

lemma decode_encode_no_candidate:
  assumes enc: "record_encodable r" and d: "recovery_candidate r = None"
    and ext: "encode_extension r None = Inr ext"
    and bs: "bs = before @ ext @ checksum" and content: "content_len = length bs - length checksum"
  shows "decode_recovery (record_magic r) bs content_len (content_len - length ext) (tx_phase r)
      (tx_owner r) = Inr (None, None)"
    and "decode_extension (record_magic r) bs content_len (content_len - length ext) None
      = Inr (failed_prefixes r)"
proof -
  let ?ps = "failed_prefixes r"
  let ?body = "to_be_bytes 2 (of_nat (length ?ps) :: u16) @ concat (map encode_failed_prefix ?ps)"
  have e: "ext = (if ?ps = [] then [] else to_be_bytes 4 (0 :: u32) @ ?body)"
    using ext by (auto simp: encode_extension_def)
  have ps: "length ?ps \<le> 1024" "successively (\<lambda>p q. \<not> p \<ge> q) ?ps" "\<forall>p \<in> set ?ps. canonical_prefix p"
    using enc by (auto simp: record_encodable_def MAX_FAILED_PREFIXES_def list_ex_iff)
  have count: "unat (of_nat (length ?ps) :: u16) = length ?ps"
    using ps(1) by (simp add: unat_of_nat)
  have start: "content_len - length ext = length before" by (simp add: content bs)
  have len: "content_len = length before + length ext" by (simp add: content bs)
  have body: "length (concat (map encode_failed_prefix ?ps)) = 5 * length ?ps"
    by (rule length_concat_map) simp
  have at: "u32_at bs (length before) = 0" if "?ps \<noteq> []"
    using u32_at_mid [of "length before" before 0 "?body @ checksum"] that by (simp add: bs e)
  have cnt: "slice bs (length before + 4) (6 + length before)
      = to_be_bytes 2 (of_nat (length ?ps) :: u16)" if "?ps \<noteq> []"
    using slice_mid [of "length before + 4" "before @ to_be_bytes 4 (0 :: u32)" "6 + length before"
        "to_be_bytes 2 (of_nat (length ?ps) :: u16)"
        "concat (map encode_failed_prefix ?ps) @ checksum"] that
    by (simp add: bs e)
  have pay: "slice bs (6 + length before) (6 + length before + length ?ps * 5)
      = concat (map encode_failed_prefix ?ps)" if "?ps \<noteq> []"
    using slice_mid [of "6 + length before"
        "before @ to_be_bytes 4 (0 :: u32) @ to_be_bytes 2 (of_nat (length ?ps) :: u16)"
        "6 + length before + length ?ps * 5" "concat (map encode_failed_prefix ?ps)" checksum]
      that body
    by (simp add: bs e)
  show "decode_recovery (record_magic r) bs content_len (content_len - length ext) (tx_phase r)
      (tx_owner r) = Inr (None, None)"
    using at by (cases "?ps = []")
      (simp_all add: decode_recovery_def record_magic_def d start len e Let_def)
  have "decode_failed_prefixes [] (map encode_failed_prefix ?ps) = Inr ?ps"
    using decode_failed_prefixes_encode [of "[]" ?ps] ps by simp
  then show "decode_extension (record_magic r) bs content_len (content_len - length ext) None
      = Inr ?ps"
    using ps(1) body cnt pay count
    by (cases "?ps = []")
      (simp_all add: decode_extension_def record_magic_def d start len e Let_def from_to_be_bytes
        chunks_exact_concat MAX_FAILED_PREFIXES_def)
qed

lemma decode_record_checked:
  assumes "length bs \<ge> HEADER_LEN + CHECKSUM_LEN"
    and "take 8 bs \<in> {MAGIC_V1, MAGIC_V2, MAGIC_V3, MAGIC_V4}"
    and "bs = content @ to_be_bytes 32 (sha256 content)"
  shows "decode_record sha256 bs = decode_body (take 8 bs) bs (length bs - CHECKSUM_LEN)"
  using assms by (simp add: decode_record_def CHECKSUM_LEN_def Let_def)

lemma encode_header_shape:
  "take 8 (encode_header r @ rest) = record_magic r"
  "record_magic r \<in> {MAGIC_V1, MAGIC_V2, MAGIC_V3, MAGIC_V4}" "12 \<le> length (encode_header r)"
  by (simp_all add: encode_header_def length_record_magic record_magic_def [of r] magic_defs
      split del: if_split) (simp_all add: record_magic_def magic_defs)

lemma decode_encode_record:
  assumes enc: "encode_record sha256 r = Inr bs" and load: "record_loadable r"
  shows "decode_record sha256 bs = Inr (durable_image r)"
proof -
  from enc obtain request recovery ext where ok: "record_encodable r"
      "encode_prepare (tx_owner r) (tx_declaration r) = Inr request"
      "encode_recovery r = Inr recovery" "encode_extension r recovery = Inr ext"
    and bs: "bs = (encode_header r @ to_be_bytes 4 (of_nat (length request) :: u32) @ request @ ext)
        @ to_be_bytes 32 (sha256
            (encode_header r @ to_be_bytes 4 (of_nat (length request) :: u32) @ request @ ext))"
    by (rule encode_record_Inr)
  define checksum where "checksum = to_be_bytes 32 (sha256
      (encode_header r @ to_be_bytes 4 (of_nat (length request) :: u32) @ request @ ext))"
  have shape: "bs = encode_header r @ to_be_bytes 4 (of_nat (length request) :: u32) @ request
      @ ext @ checksum" and split: "bs = (encode_header r @ to_be_bytes 4
      (of_nat (length request) :: u32) @ request) @ ext @ checksum"
    by (simp_all add: bs checksum_def)
  have content: "length bs - CHECKSUM_LEN = length bs - length checksum"
    by (simp add: checksum_def CHECKSUM_LEN_def)
  have long: "HEADER_LEN + CHECKSUM_LEN \<le> length bs"
    using encode_header_shape(3) [of r] by (simp add: bs HEADER_LEN_def CHECKSUM_LEN_def)
  have "take 8 bs = record_magic r" unfolding shape by (rule encode_header_shape(1))
  then have "decode_record sha256 bs = decode_body (record_magic r) bs (length bs - CHECKSUM_LEN)"
    using decode_record_checked [where ?sha256.0 = sha256, OF long _ bs] encode_header_shape(2) by simp
  also have "\<dots> = Inr (durable_image r)"
  proof (cases "recovery_candidate r")
    case None
    then have "recovery = None" using encode_recovery_Inr(1) [OF ok(3)] by simp
    with decode_encode_no_candidate [OF ok(1) None _ split content]
      decode_body_encode [OF ok(1) load ok(2) shape content] ok(1,4) None
    show ?thesis by (simp add: durable_image_def record_encodable_def split: option.splits)
  next
    case (Some d)
    then obtain rbs where "recovery = Some rbs"
      using encode_recovery_Inr(1) [OF ok(3)] by (cases recovery) auto
    with decode_encode_candidate [OF ok(1) load Some _ _ split content]
      decode_body_encode [OF ok(1) load ok(2) shape content] ok(3,4) Some
    show ?thesis by (simp add: durable_image_def)
  qed
  finally show ?thesis .
qed

lemma encode_record_length:
  assumes "encode_record sha256 r = Inr bs"
  shows "HEADER_LEN + CHECKSUM_LEN \<le> length bs" "length bs \<le> MAX_JOURNAL_LEN"
proof -
  from assms obtain request recovery ext where ok: "record_encodable r"
      "encode_prepare (tx_owner r) (tx_declaration r) = Inr request"
      "encode_recovery r = Inr recovery" "encode_extension r recovery = Inr ext"
    and bs: "bs = (encode_header r @ to_be_bytes 4 (of_nat (length request) :: u32) @ request @ ext)
        @ to_be_bytes 32 (sha256
            (encode_header r @ to_be_bytes 4 (of_nat (length request) :: u32) @ request @ ext))"
    by (rule encode_record_Inr)
  show "HEADER_LEN + CHECKSUM_LEN \<le> length bs"
    using encode_header_shape(3) [of r] by (simp add: bs HEADER_LEN_def CHECKSUM_LEN_def)
  have counts: "length (failed_prefixes r) \<le> 1024" "length (sysctls r) \<le> 4"
    using ok(1) by (auto simp: record_encodable_def MAX_FAILED_PREFIXES_def)
  have header: "length (encode_header r) \<le> 12 + 12 + 8"
    using counts(2) length_concat_map [of encode_sysctl 3 "sysctls r"]
    by (simp add: encode_header_def length_record_magic)
  have "length ext \<le> 4 + MAX_NETD_FRAME_LEN + 2 + 5 * 1024"
  proof (cases recovery)
    case None
    then show ?thesis
      using ok(4) counts(1) length_concat_map [of encode_failed_prefix 5 "failed_prefixes r"]
      by (auto simp: encode_extension_def split: if_splits)
  next
    case (Some rbs)
    then have "length rbs \<le> MAX_NETD_FRAME_LEN"
      using encode_recovery_Inr(2) [OF ok(3) Some] encode_prepare_Inr(2) by blast
    then show ?thesis
      using ok(4) Some counts(1)
        length_concat_map [of encode_failed_prefix 5 "failed_prefixes r"]
      by (auto simp: encode_extension_def rbind_eq_Inr split: if_splits)
  qed
  with header encode_prepare_Inr(2) [OF ok(2)] show "length bs \<le> MAX_JOURNAL_LEN"
    by (simp add: bs MAX_JOURNAL_LEN_def HEADER_LEN_def CHECKSUM_LEN_def)
qed

section \<open>What a loaded record satisfies\<close>

lemma decode_sysctls_Inr:
  assumes "decode_sysctls acc chunks = Inr cs"
    and "successively (\<lambda>a b. sysctl_key a < sysctl_key b) acc" "\<forall>c \<in> set acc. sysctl_change_ok c"
  shows "successively (\<lambda>a b. sysctl_key a < sysctl_key b) cs \<and> (\<forall>c \<in> set cs. sysctl_change_ok c)
    \<and> length cs = length acc + length chunks"
  using assms
proof (induction acc chunks rule: decode_sysctls.induct)
  case (2 acc chunk chunks)
  from "2.prems"(1) obtain key where key: "sysctl_key_of (chunk ! 0) = Inr key"
    by (auto simp: rbind_eq_Inr)
  let ?c = "\<lparr>sysctl_key = key, original = chunk ! 1, applied = chunk ! 2\<rparr>"
  have ok: "sysctl_change_ok ?c" "acc \<noteq> [] \<longrightarrow> sysctl_key (last acc) < key"
      "decode_sysctls (acc @ [?c]) chunks = Inr cs"
    using "2.prems"(1) key by (auto simp: Let_def not_le split: if_splits)
  then have "successively (\<lambda>a b. sysctl_key a < sysctl_key b) (acc @ [?c])"
    using "2.prems"(2) by (auto simp: successively_append_iff)
  with "2.IH" [OF key refl _ ok(3)] ok "2.prems"(3) show ?case by (auto simp: not_le)
qed simp

lemma decode_failed_prefixes_Inr:
  assumes "decode_failed_prefixes acc chunks = Inr ps"
    and "successively (\<lambda>p q. \<not> p \<ge> q) acc" "\<forall>p \<in> set acc. canonical_prefix p"
  shows "successively (\<lambda>p q. \<not> p \<ge> q) ps \<and> (\<forall>p \<in> set ps. canonical_prefix p)
    \<and> length ps = length acc + length chunks"
  using assms
proof (induction acc chunks rule: decode_failed_prefixes.induct)
  case (2 acc chunk chunks)
  let ?p = "Ipv4Prefix (from_be_bytes (take 4 chunk)) (chunk ! 4)"
  have ok: "canonical_prefix ?p" "acc \<noteq> [] \<longrightarrow> \<not> last acc \<ge> ?p"
      "decode_failed_prefixes (acc @ [?p]) chunks = Inr ps"
    using "2.prems"(1) by (auto simp: Let_def split: if_splits)
  then have "successively (\<lambda>p q. \<not> p \<ge> q) (acc @ [?p])"
    using "2.prems"(2) by (auto simp: successively_append_iff)
  with "2.IH" [OF refl _ ok(3)] ok "2.prems"(3) show ?case by auto
qed simp

lemma length_chunks_exact: "0 < n \<Longrightarrow> length (chunks_exact n bs) = length bs div n"
proof (induction n bs rule: chunks_exact.induct)
  case (1 n bs)
  then show ?case
    by (subst chunks_exact.simps) (auto simp: le_div_geq)
qed

lemma decode_recovery_Inr:
  assumes "decode_recovery version bs content_len request_end phase owner = Inr (c, co)"
  shows "pred_option declaration_ok c" "c \<noteq> None \<Longrightarrow> candidate_phase phase"
    "co = Some o' \<Longrightarrow> c \<noteq> None \<and> same_process o' owner \<and> generation owner \<le> generation o'
       \<and> o' \<noteq> owner \<and> valid_owner o'"
  using assms
  by (auto simp: decode_recovery_def Let_def rbind_eq_Inr same_process_def not_less
      split: if_splits dest: decode_prepare_Inr)

lemma decode_extension_Inr:
  assumes "decode_extension version bs content_len request_end c = Inr ps"
  shows "length ps \<le> MAX_FAILED_PREFIXES" "successively (\<lambda>p q. \<not> p \<ge> q) ps"
    "\<forall>p \<in> set ps. canonical_prefix p"
proof -
  consider "ps = []" | offset count where "count \<le> MAX_FAILED_PREFIXES"
      "decode_failed_prefixes [] (chunks_exact 5 (slice bs offset (offset + count * 5))) = Inr ps"
    using assms by (auto simp: decode_extension_def Let_def not_less split: if_splits)
  then show "length ps \<le> MAX_FAILED_PREFIXES" "successively (\<lambda>p q. \<not> p \<ge> q) ps"
      "\<forall>p \<in> set ps. canonical_prefix p"
  proof (atomize (full), cases)
    case 2
    have "length (slice bs offset (offset + count * 5)) div 5 \<le> count"
      by (simp add: slice_def)
    with 2 decode_failed_prefixes_Inr [OF 2(2)]
    show "length ps \<le> MAX_FAILED_PREFIXES \<and> successively (\<lambda>p q. \<not> p \<ge> q) ps
      \<and> (\<forall>p \<in> set ps. canonical_prefix p)"
      by (simp add: length_chunks_exact)
  qed simp
qed

lemma decode_record_body:
  assumes "decode_record sha256 bs = Inr r"
  shows "decode_body (take 8 bs) bs (length bs - CHECKSUM_LEN) = Inr r"
    and "drop (length bs - CHECKSUM_LEN) bs
      = to_be_bytes 32 (sha256 (take (length bs - CHECKSUM_LEN) bs))"
  using assms by (auto simp: decode_record_def Let_def split: if_splits)

lemma decode_body_Inr:
  assumes "decode_body version bs content_len = Inr r"
  obtains chunks request_bytes request_end where
    "decode_sysctls [] chunks = Inr (sysctls r)" "length chunks \<le> 4"
    "completed_steps r AND NOT 0x3f = 0"
    "decode_prepare request_bytes = Inr (tx_owner r, tx_declaration r)"
    "decode_recovery version bs content_len request_end (tx_phase r) (tx_owner r)
       = Inr (recovery_candidate r, recovery_candidate_owner r)"
    "decode_extension version bs content_len request_end (recovery_candidate r)
       = Inr (failed_prefixes r)"
proof -
  have len: "length (chunks_exact 3 (slice bs 12 (12 + count * 3))) \<le> 4" if "count \<le> 4" for count
  proof -
    have "length (slice bs 12 (12 + count * 3)) div 3 \<le> count" by (simp add: slice_def)
    with that show ?thesis by (simp add: length_chunks_exact)
  qed
  from assms show thesis
    unfolding decode_body_def Let_def
    by (auto simp: rbind_eq_Inr not_less split: if_splits intro!: that dest: len)
qed

lemma decode_record_fields:
  assumes "decode_record sha256 bs = Inr r"
  shows "record_encodable r" "valid_owner (tx_owner r)" "declaration_ok (tx_declaration r)"
    "pred_option declaration_ok (recovery_candidate r)" "completed_steps r AND NOT 0x3f = 0"
    "recovery_candidate_owner r \<noteq> Some (tx_owner r)" "pred_option valid_owner (recovery_candidate_owner r)"
proof -
  from decode_record_body(1) [OF assms] obtain chunks request_bytes request_end where parts:
    "decode_sysctls [] chunks = Inr (sysctls r)" "length chunks \<le> 4"
    "completed_steps r AND NOT 0x3f = 0"
    "decode_prepare request_bytes = Inr (tx_owner r, tx_declaration r)"
    "decode_recovery (take 8 bs) bs (length bs - CHECKSUM_LEN) request_end (tx_phase r) (tx_owner r)
       = Inr (recovery_candidate r, recovery_candidate_owner r)"
    "decode_extension (take 8 bs) bs (length bs - CHECKSUM_LEN) request_end (recovery_candidate r)
       = Inr (failed_prefixes r)"
    by (rule decode_body_Inr)
  note rec = decode_recovery_Inr [OF parts(5)]
  note ext = decode_extension_Inr [OF parts(6)]
  show "valid_owner (tx_owner r)" "declaration_ok (tx_declaration r)"
    using decode_prepare_Inr [OF parts(4)] by simp_all
  show "pred_option declaration_ok (recovery_candidate r)" by (rule rec(1))
  show "completed_steps r AND NOT 0x3f = 0" by (rule parts(3))
  show "recovery_candidate_owner r \<noteq> Some (tx_owner r)" using rec(3) by auto
  show "pred_option valid_owner (recovery_candidate_owner r)"
    using rec(3) by (cases "recovery_candidate_owner r") auto
  have "case recovery_candidate_owner r of None \<Rightarrow> True | Some co \<Rightarrow>
      recovery_candidate r \<noteq> None \<and> same_process co (tx_owner r)
      \<and> generation (tx_owner r) \<le> generation co"
    using rec(3) by (auto split: option.splits)
  moreover have "recovery_candidate r = None \<or> candidate_phase (tx_phase r)" using rec(2) by blast
  ultimately show "record_encodable r"
    using ext decode_sysctls_Inr [OF parts(1)] parts(2)
    by (auto simp: record_encodable_def same_process_def list_ex_iff not_less split: option.splits)
qed

text \<open>
  A declaration that came through the codec is re-encodable, so a loaded record can be stored
  again.
\<close>

lemma encode_prepare_total:
  assumes "valid_owner owner" and "valid_declaration d"
  shows "\<exists>bs. encode_prepare owner d = Inr bs"
proof -
  have "validate_request (prepare_request owner d) = Inr ()"
    using assms by (simp add: validate_request_def prepare_request_def valid_owner_def
        valid_declaration_def)
  from encode_request_total [OF this] show ?thesis
    by (auto simp: encode_prepare_def prepare_request_def withdraw_count_def)
qed

definition record_valid :: "transaction_record \<Rightarrow> bool" where
  "record_valid r \<longleftrightarrow>
     valid_owner (tx_owner r) \<and> valid_declaration (tx_declaration r)
     \<and> pred_option valid_owner (recovery_candidate_owner r)
     \<and> pred_option valid_declaration (recovery_candidate r)"

lemma encode_record_total:
  assumes enc: "record_encodable r" and ok: "record_valid r"
  shows "\<exists>bs. encode_record sha256 r = Inr bs"
proof -
  obtain request where request: "encode_prepare (tx_owner r) (tx_declaration r) = Inr request"
    using ok encode_prepare_total by (auto simp: record_valid_def)
  have "valid_owner (case recovery_candidate_owner r of None \<Rightarrow> tx_owner r | Some owner \<Rightarrow> owner)"
    using ok by (auto simp: record_valid_def split: option.splits)
  then obtain recovery where recovery: "encode_recovery r = Inr recovery"
    using ok encode_prepare_total unfolding encode_recovery_def record_valid_def
    by (cases "recovery_candidate r") fastforce+
  have "\<exists>ext. encode_extension r recovery = Inr ext"
  proof (cases recovery)
    case (Some rbs)
    then have "length rbs \<le> MAX_NETD_FRAME_LEN"
      using encode_recovery_Inr(2) [OF recovery Some] encode_prepare_Inr(2) by blast
    with Some show ?thesis by (simp add: encode_extension_def try_u32_len_frame)
  qed (simp add: encode_extension_def)
  with enc request recovery show ?thesis
    by (auto simp: encode_record_def Let_def try_u32_len_frame [OF encode_prepare_Inr(2) [OF request]])
qed

lemma encode_record_valid: "encode_record sha256 r = Inr bs \<Longrightarrow> record_encodable r \<and> record_valid r"
proof (erule encode_record_Inr)
  fix request recovery ext
  assume ok: "record_encodable r" "encode_prepare (tx_owner r) (tx_declaration r) = Inr request"
    "encode_recovery r = Inr recovery"
  have "pred_option valid_owner (recovery_candidate_owner r)
      \<and> pred_option valid_declaration (recovery_candidate r)"
  proof (cases "recovery_candidate r")
    case None
    with ok(1) show ?thesis by (auto simp: record_encodable_def split: option.splits)
  next
    case (Some d)
    then obtain rbs where "recovery = Some rbs"
      using encode_recovery_Inr(1) [OF ok(3)] by (cases recovery) auto
    from encode_recovery_Inr(2) [OF ok(3) this] Some
    have "encode_prepare (case recovery_candidate_owner r of None \<Rightarrow> tx_owner r | Some owner \<Rightarrow> owner) d
        = Inr rbs" by simp
    from encode_prepare_Inr(3,4) [OF this] Some show ?thesis by (auto split: option.splits)
  qed
  with ok(1) encode_prepare_Inr(3,4) [OF ok(2)] show ?thesis by (simp add: record_valid_def)
qed

section \<open>The version-4 layout\<close>

lemma deadline_high_word:
  "unat w < 2 ^ 32 \<Longrightarrow> to_be_bytes 8 (w :: u64) = to_be_bytes 4 (0 :: u32) @ be_nat 4 (unat w)"
  using be_nat_add [of 4 4 "unat w"] by (simp add: to_be_bytes_def)

lemma decode_body_request_len:
  assumes "decode_body version bs content_len = Inr r" and "version \<noteq> MAGIC_V3"
  shows "u32_at bs (12 + unat (bs ! 11) * 3) \<noteq> 0"
  using assms by (auto simp: decode_body_def Let_def rbind_eq_Inr split: if_splits)

lemma v4_candidate_unreadable:
  assumes enc: "encode_record sha256 r = Inr bs"
    and failed: "failed_prefixes r \<noteq> []" and cand: "recovery_candidate r \<noteq> None"
    and deadline: "unat (drain_deadline_mono_ms r) < 2 ^ 32"
  shows "\<not> is_ok (decode_record sha256 bs)"
proof
  assume "is_ok (decode_record sha256 bs)"
  then obtain r' where "decode_record sha256 bs = Inr r'" by (auto simp: is_ok_iff)
  note body = decode_record_body(1) [OF this]
  from enc obtain request recovery ext where ok: "record_encodable r"
    and bs: "bs = (encode_header r @ to_be_bytes 4 (of_nat (length request) :: u32) @ request @ ext)
        @ to_be_bytes 32 (sha256
            (encode_header r @ to_be_bytes 4 (of_nat (length request) :: u32) @ request @ ext))"
    by (rule encode_record_Inr)
  let ?n = "length (sysctls r)"
  let ?front = "record_magic r @ [tx_phase_tag (tx_phase r)] @ to_be_bytes 2 (completed_steps r)
      @ [of_nat ?n] @ concat (map encode_sysctl (sysctls r))"
  have n: "unat (of_nat ?n :: u8) = ?n" using ok by (simp add: record_encodable_def unat_of_nat)
  obtain rest where shape: "bs = ?front @ to_be_bytes 4 (0 :: u32) @ rest"
    by (simp add: bs encode_header_def cand deadline_high_word [OF deadline])
  have "take 8 bs = MAGIC_V4" and count: "bs ! 11 = of_nat ?n"
    using length_record_magic [of r] failed
    by (simp_all add: shape nth_append) (simp add: record_magic_def magic_defs)
  then have "u32_at bs (12 + ?n * 3) \<noteq> 0"
    using decode_body_request_len [OF body] n by simp
  moreover have "u32_at bs (12 + ?n * 3) = 0"
    using u32_at_mid [of "12 + ?n * 3" ?front 0 rest] length_record_magic [of r]
      length_concat_map [of encode_sysctl 3 "sysctls r"] by (simp add: shape)
  ultimately show False by contradiction
qed

section \<open>The file journal\<close>

text \<open>
  The part of the file system the journal sees: the parent directory, the journal file and the
  temporary file of the store in progress. Every system call that may fail consults \<open>faults\<close>: a
  call fails when it consumes \<open>True\<close>, and succeeds when the list is exhausted.
\<close>

datatype file_kind = RegularFile | Directory | Symlink | OtherKind

record file_meta =
  file_kind :: file_kind
  file_uid :: u32
  file_mode :: u32

record journal_fs =
  parent_dir :: "file_meta option"
  journal_file :: "(file_meta \<times> bytes) option"
  temporary :: "bytes option"
  euid :: u32
  faults :: "bool list"

type_synonym 'a fs_action = "(journal_fs, 'a) net_action"

definition journal_call :: "unit fs_action" where
  "journal_call fs =
     (case faults fs of
        [] \<Rightarrow> (Inr (), fs)
      | True # rest \<Rightarrow> (Inl Journal, fs\<lparr>faults := rest\<rparr>)
      | False # rest \<Rightarrow> (Inr (), fs\<lparr>faults := rest\<rparr>))"

definition parent_trusted :: "journal_fs \<Rightarrow> bool" where
  "parent_trusted fs =
     (case parent_dir fs of
        None \<Rightarrow> False
      | Some meta \<Rightarrow>
          \<not> (file_kind meta = Symlink \<or> file_kind meta \<noteq> Directory
             \<or> file_mode meta AND 0x12 \<noteq> 0 \<or> file_uid meta \<noteq> euid fs))"

definition validate_parent :: "unit fs_action" where
  "validate_parent =
     andthen journal_call
       (bind (gets parent_trusted) (\<lambda>trusted. if trusted then return () else throw Journal))"

definition file_trusted :: "journal_fs \<Rightarrow> file_meta \<Rightarrow> bool" where
  "file_trusted fs meta \<longleftrightarrow>
     \<not> (file_kind meta \<noteq> RegularFile \<or> file_uid meta \<noteq> euid fs \<or> file_mode meta AND 0x7f \<noteq> 0)"

text \<open>Opening follows no symbolic link: \<^verbatim>\<open>O_NOFOLLOW\<close> makes the call fail on one.\<close>

definition open_existing :: "bytes option fs_action" where
  "open_existing =
     andthen journal_call
     (bind (gets journal_file) (\<lambda>file.
      case file of
        None \<Rightarrow> return None
      | Some (meta, content) \<Rightarrow>
          if file_kind meta = Symlink then throw Journal
          else
            andthen journal_call
            (bind (gets (\<lambda>fs. file_trusted fs meta)) (\<lambda>trusted.
             if trusted then return (Some content) else throw Journal))))"

definition sync_directory :: "unit fs_action" where
  "sync_directory = andthen journal_call journal_call"

definition load :: "(bytes \<Rightarrow> u256) \<Rightarrow> transaction_record option fs_action" where
  "load sha256 =
     andthen validate_parent
     (bind open_existing (\<lambda>file.
      case file of
        None \<Rightarrow> return None
      | Some content \<Rightarrow>
          andthen journal_call
          (if \<not> (HEADER_LEN + CHECKSUM_LEN \<le> length content \<and> length content \<le> MAX_JOURNAL_LEN)
           then throw Journal
           else
             andthen journal_call
             (bind (of_result (decode_record sha256 content)) (\<lambda>r. return (Some r))))))"

text \<open>The closure of \<^verbatim>\<open>store\<close>: create, write, sync, rename, sync the directory.\<close>

definition replace_file :: "bytes \<Rightarrow> unit fs_action" where
  "replace_file bs =
     andthen journal_call
     (andthen (modify (\<lambda>fs. fs\<lparr>temporary := Some []\<rparr>))
     (andthen journal_call
     (andthen (modify (\<lambda>fs. fs\<lparr>temporary := Some bs\<rparr>))
     (andthen journal_call
     (andthen journal_call
     (andthen (modify (\<lambda>fs. fs\<lparr>temporary := None,
        journal_file := Some (\<lparr>file_kind = RegularFile, file_uid = euid fs, file_mode = 0x180\<rparr>, bs)\<rparr>))
      sync_directory))))))"

definition store :: "(bytes \<Rightarrow> u256) \<Rightarrow> transaction_record \<Rightarrow> unit fs_action" where
  "store sha256 r =
     andthen validate_parent
     (bind open_existing (\<lambda>_.
      bind (of_result (encode_record sha256 r)) (\<lambda>bs.
      bind (attempt (replace_file bs)) (\<lambda>result.
      if \<not> is_ok result
      then andthen (attempt (andthen journal_call (modify (\<lambda>fs. fs\<lparr>temporary := None\<rparr>))))
             (of_result result)
      else of_result result))))"

definition clear :: "unit fs_action" where
  "clear =
     andthen validate_parent
     (bind open_existing (\<lambda>file.
      if file = None then return ()
      else
        andthen journal_call
        (andthen (modify (\<lambda>fs. fs\<lparr>journal_file := None\<rparr>)) sync_directory)))"

definition file_journal :: "(bytes \<Rightarrow> u256) \<Rightarrow> journal_fs journal_ops" where
  "file_journal sha256 = \<lparr>journal_load = load sha256, journal_store = store sha256,
     journal_clear = clear\<rparr>"

section \<open>The journal contract\<close>

text \<open>
  What a transaction relies on. \<open>durable\<close> is what the next start of netd loads, \<open>reload\<close> what a
  stored record reads back as. A successful store or clear has happened; a failed one has either
  happened or not, and nothing else has changed.
\<close>

locale durable_journal =
  fixes J :: "'j journal_ops"
    and durable :: "'j \<Rightarrow> network_error + transaction_record option"
    and reload :: "transaction_record \<Rightarrow> network_error + transaction_record"
  assumes load_Inr: "journal_load J j = (Inr x, j') \<Longrightarrow> durable j = Inr x \<and> durable j' = Inr x"
    and load_Inl: "journal_load J j = (Inl e, j') \<Longrightarrow> durable j' = durable j"
    and store_Inr: "journal_store J r j = (Inr u, j') \<Longrightarrow> durable j' = rbind (reload r) (\<lambda>r. Inr (Some r))"
    and store_Inl: "journal_store J r j = (Inl e, j') \<Longrightarrow>
      durable j' = durable j \<or> durable j' = rbind (reload r) (\<lambda>r. Inr (Some r))"
    and clear_Inr: "journal_clear J j = (Inr u, j') \<Longrightarrow> durable j' = Inr None"
    and clear_Inl: "journal_clear J j = (Inl e, j') \<Longrightarrow> durable j' = durable j \<or> durable j' = Inr None"

definition durable_record :: "(bytes \<Rightarrow> u256) \<Rightarrow> journal_fs \<Rightarrow> network_error + transaction_record option" where
  "durable_record sha256 fs = fst (load sha256 (fs\<lparr>faults := []\<rparr>))"

definition reload_record :: "(bytes \<Rightarrow> u256) \<Rightarrow> transaction_record \<Rightarrow> network_error + transaction_record" where
  "reload_record sha256 r = rbind (encode_record sha256 r) (decode_record sha256)"

section \<open>The file journal meets the contract\<close>

lemma durable_record_eq:
  "durable_record sha256 fs =
     (if \<not> parent_trusted fs then Inl Journal
      else
        case journal_file fs of
          None \<Rightarrow> Inr None
        | Some (meta, content) \<Rightarrow>
            if file_kind meta = Symlink \<or> \<not> file_trusted fs meta
               \<or> \<not> (HEADER_LEN + CHECKSUM_LEN \<le> length content \<and> length content \<le> MAX_JOURNAL_LEN)
            then Inl Journal
            else rbind (decode_record sha256 content) (\<lambda>r. Inr (Some r)))"
  by (auto simp: durable_record_def load_def validate_parent_def open_existing_def journal_call_def
      action_defs parent_trusted_def file_trusted_def rbind_def split: option.splits sum.splits)

text \<open>The journal's view of the file system: everything but the temporary file and the faults.\<close>

definition same_files :: "journal_fs \<Rightarrow> journal_fs \<Rightarrow> bool" where
  "same_files fs fs' \<longleftrightarrow>
     parent_dir fs' = parent_dir fs \<and> journal_file fs' = journal_file fs \<and> euid fs' = euid fs"

lemma same_files_view:
  assumes "same_files fs fs'"
  shows "parent_trusted fs' = parent_trusted fs" "file_trusted fs' meta = file_trusted fs meta"
    "journal_file fs' = journal_file fs" "durable_record sha256 fs' = durable_record sha256 fs"
proof -
  show p: "parent_trusted fs' = parent_trusted fs"
    using assms by (simp add: same_files_def parent_trusted_def split: option.split)
  show f: "file_trusted fs' meta = file_trusted fs meta" for meta
    using assms by (simp add: same_files_def file_trusted_def)
  show j: "journal_file fs' = journal_file fs" using assms by (simp add: same_files_def)
  show "durable_record sha256 fs' = durable_record sha256 fs"
    unfolding durable_record_eq p f j ..
qed

lemma same_files_refl [simp]: "same_files fs fs"
  by (simp add: same_files_def)

lemma same_files_trans: "same_files fs fs1 \<Longrightarrow> same_files fs1 fs2 \<Longrightarrow> same_files fs fs2"
  by (simp add: same_files_def)

lemma same_files_temporary [simp]: "same_files fs (fs\<lparr>temporary := t\<rparr>)"
  by (simp add: same_files_def)

lemma journal_call_effect: "journal_call fs = (r, fs') \<Longrightarrow> same_files fs fs'"
  by (auto simp: journal_call_def same_files_def split: list.splits bool.splits)

definition with_file :: "bytes \<Rightarrow> journal_fs \<Rightarrow> journal_fs" where
  "with_file bs fs = fs\<lparr>journal_file :=
     Some (\<lparr>file_kind = RegularFile, file_uid = euid fs, file_mode = 0x180\<rparr>, bs)\<rparr>"

lemma same_files_with_file: "same_files fs fs' \<Longrightarrow> same_files (with_file bs fs) (with_file bs fs')"
  by (simp add: same_files_def with_file_def)

lemma validate_parent_effect:
  assumes "validate_parent fs = (r, fs')"
  shows "same_files fs fs'" "is_ok r \<Longrightarrow> parent_trusted fs"
proof -
  from assms obtain fs1 r1 where "journal_call fs = (r1, fs1)" "fs' = fs1" and
      ok: "is_ok r \<longrightarrow> parent_trusted fs1"
    by (auto simp: validate_parent_def action_split return_def throw_def gets_def split: if_splits)
  then show same: "same_files fs fs'" by (simp add: journal_call_effect)
  show "is_ok r \<Longrightarrow> parent_trusted fs"
    using ok same \<open>fs' = fs1\<close> same_files_view(1) by blast
qed

definition opened :: "journal_fs \<Rightarrow> bytes option \<Rightarrow> bool" where
  "opened fs x =
     (case journal_file fs of
        None \<Rightarrow> x = None
      | Some (meta, content) \<Rightarrow>
          x = Some content \<and> file_kind meta \<noteq> Symlink \<and> file_trusted fs meta)"

lemma opened_view:
  assumes "same_files fs fs'"
  shows "opened fs' x = opened fs x"
  unfolding opened_def same_files_view(2,3) [OF assms] ..

lemma open_existing_effect:
  assumes "open_existing fs = (r, fs')"
  shows "same_files fs fs'" "r = Inr x \<Longrightarrow> opened fs x"
proof -
  obtain r1 fs1 where call: "journal_call fs = (r1, fs1)" by fastforce
  note fs1 = journal_call_effect [OF call]
  have "same_files fs1 fs' \<and> (r = Inr x \<longrightarrow> opened fs1 x)"
  proof (cases r1)
    case (Inl e)
    with assms call show ?thesis by (auto simp: open_existing_def andthen_def bind_def)
  next
    case r1: (Inr u)
    show ?thesis
    proof (cases "journal_file fs1")
      case None
      with assms call r1 show ?thesis
        by (auto simp: open_existing_def action_defs opened_def)
    next
      case (Some entry)
      obtain meta content where entry: "entry = (meta, content)" by fastforce
      obtain r2 fs2 where call2: "journal_call fs1 = (r2, fs2)" by fastforce
      from assms call r1 Some entry call2 journal_call_effect [OF call2] show ?thesis
        by (auto simp: open_existing_def action_defs opened_def same_files_view(2)
            split: if_splits sum.splits)
    qed
  qed
  then show "same_files fs fs'" "r = Inr x \<Longrightarrow> opened fs x"
    using same_files_trans [OF fs1] opened_view [OF fs1] by auto
qed

lemma sync_directory_effect: "sync_directory fs = (r, fs') \<Longrightarrow> same_files fs fs'"
  by (auto simp: sync_directory_def action_split dest!: journal_call_effect intro: same_files_trans)

lemma replace_file_effect:
  assumes "replace_file bs fs = (r, fs')"
  shows "same_files (with_file bs fs) fs' \<or> \<not> is_ok r \<and> same_files fs fs'"
  using assms unfolding replace_file_def
  by (auto simp: action_split modify_def same_files_def with_file_def
      dest!: journal_call_effect sync_directory_effect)

lemma durable_with_file:
  assumes "parent_trusted fs" and "encode_record sha256 r = Inr bs"
  shows "durable_record sha256 (with_file bs fs) = rbind (reload_record sha256 r) (\<lambda>r. Inr (Some r))"
proof -
  have "parent_trusted (with_file bs fs)"
    using assms(1) by (simp add: parent_trusted_def with_file_def split: option.splits)
  then show ?thesis
    using encode_record_length [OF assms(2)] assms(2)
    by (simp add: durable_record_eq with_file_def file_trusted_def reload_record_def)
qed

lemma load_effect:
  assumes "load sha256 fs = (r, fs')"
  shows "same_files fs fs'" "r = Inr x \<Longrightarrow> durable_record sha256 fs = Inr x"
proof -
  obtain r1 fs1 where v: "validate_parent fs = (r1, fs1)" by fastforce
  obtain r2 fs2 where o: "open_existing fs1 = (r2, fs2)" by fastforce
  obtain r3 fs3 where c: "journal_call fs2 = (r3, fs3)" by fastforce
  obtain r4 fs4 where d: "journal_call fs3 = (r4, fs4)" by fastforce
  note same = validate_parent_effect(1) [OF v] open_existing_effect(1) [OF o]
    journal_call_effect [OF c] journal_call_effect [OF d]
  note reach = same(1) same_files_trans [OF same(1,2)]
    same_files_trans [OF same_files_trans [OF same(1,2)] same(3)]
    same_files_trans [OF same_files_trans [OF same_files_trans [OF same(1,2)] same(3)] same(4)]
  show "same_files fs fs'"
    using assms v o c d reach
    by (auto simp: load_def action_defs split: sum.splits option.splits if_splits)
  assume r: "r = Inr x"
  have ok: "is_ok r1" "\<exists>y. r2 = Inr y" using assms v o r
    by (auto simp: load_def action_defs split: sum.splits)
  then obtain y where y: "r2 = Inr y" by blast
  have trusted: "parent_trusted fs1" using validate_parent_effect(2) [OF v] ok same_files_view(1) [OF same(1)] by simp
  from open_existing_effect(2) [OF o y] have "durable_record sha256 fs1 = Inr x"
    using assms v o c d ok y r trusted
    by (auto simp: load_def action_defs durable_record_eq opened_def rbind_def
        split: sum.splits option.splits if_splits)
  then show "durable_record sha256 fs = Inr x" by (simp add: same_files_view(4) [OF same(1)])
qed

lemma store_effect:
  assumes "store sha256 r fs = (res, fs')"
  shows "durable_record sha256 fs' = rbind (reload_record sha256 r) (\<lambda>r. Inr (Some r))
    \<or> \<not> is_ok res \<and> durable_record sha256 fs' = durable_record sha256 fs"
proof -
  obtain r1 fs1 where v: "validate_parent fs = (r1, fs1)" by fastforce
  obtain r2 fs2 where o: "open_existing fs1 = (r2, fs2)" by fastforce
  note same = validate_parent_effect(1) [OF v] open_existing_effect(1) [OF o]
  have fs2: "same_files fs fs2" using same same_files_trans by blast
  consider (early) "\<not> is_ok res" "same_files fs fs'"
    | (replaced) bs r3 fs3 where "encode_record sha256 r = Inr bs" "is_ok r1"
      "replace_file bs fs2 = (r3, fs3)" "is_ok res = is_ok r3" "same_files fs3 fs'"
  proof (cases "is_ok r1 \<and> is_ok r2 \<and> is_ok (encode_record sha256 r)")
    case False
    then have "\<not> is_ok res" "same_files fs fs'"
      using assms v o same(1) fs2
      by (auto simp: store_def action_defs is_ok_def split: sum.splits)
    then show thesis by (rule early)
  next
    case True
    then obtain u x bs where ok: "r1 = Inr u" "r2 = Inr x" "encode_record sha256 r = Inr bs"
      by (auto simp: is_ok_iff)
    obtain r3 fs3 where rep: "replace_file bs fs2 = (r3, fs3)" by fastforce
    have "is_ok res = is_ok r3 \<and> same_files fs3 fs'"
    proof (cases r3)
      case (Inl e)
      obtain r4 fs4 where call: "journal_call fs3 = (r4, fs4)" by fastforce
      have "same_files fs3 (fs4\<lparr>temporary := None\<rparr>)" "same_files fs3 fs4"
        using journal_call_effect [OF call] by (simp_all add: same_files_def)
      with assms v o ok rep Inl call show ?thesis
        by (auto simp: store_def action_defs split: sum.splits)
    next
      case (Inr w)
      with assms v o ok rep show ?thesis
        by (auto simp: store_def action_defs)
    qed
    with rep ok show thesis by (intro replaced) auto
  qed
  then show ?thesis
  proof cases
    case early
    with same_files_view(4) show ?thesis by blast
  next
    case replaced
    have "parent_trusted fs2"
      using validate_parent_effect(2) [OF v] replaced(2) same_files_view(1) [OF fs2] by simp
    note new = durable_with_file [OF this replaced(1)]
    from replace_file_effect [OF replaced(3)]
    have "durable_record sha256 fs3 = durable_record sha256 (with_file bs fs2)
        \<or> \<not> is_ok r3 \<and> durable_record sha256 fs3 = durable_record sha256 fs2"
      using same_files_view(4) by blast
    with new same_files_view(4) [OF replaced(5)] same_files_view(4) [OF fs2] replaced(4)
    show ?thesis by metis
  qed
qed

lemma clear_effect:
  assumes "clear fs = (res, fs')"
  shows "durable_record sha256 fs' = Inr None
    \<or> \<not> is_ok res \<and> durable_record sha256 fs' = durable_record sha256 fs"
proof -
  obtain r1 fs1 where v: "validate_parent fs = (r1, fs1)" by fastforce
  obtain r2 fs2 where o: "open_existing fs1 = (r2, fs2)" by fastforce
  obtain r3 fs3 where c: "journal_call fs2 = (r3, fs3)" by fastforce
  note same = validate_parent_effect(1) [OF v] open_existing_effect(1) [OF o] journal_call_effect [OF c]
  have fs2: "same_files fs fs2" using same(1,2) same_files_trans by blast
  have fs3: "same_files fs fs3" using fs2 same(3) same_files_trans by blast
  show ?thesis
  proof (cases "is_ok r1 \<and> is_ok r2")
    case False
    then have "\<not> is_ok res" "same_files fs fs'"
      using assms v o same(1) fs2 by (auto simp: clear_def action_defs is_ok_def split: sum.splits)
    with same_files_view(4) show ?thesis by blast
  next
    case True
    then obtain u x where ok: "r1 = Inr u" "r2 = Inr x" by (auto simp: is_ok_iff)
    have trusted: "parent_trusted fs"
      using validate_parent_effect(2) [OF v] True by simp
    have op: "opened fs x"
      using open_existing_effect(2) [OF o ok(2)] opened_view [OF same(1)] by simp
    show ?thesis
    proof (cases x)
      case None
      with op have "journal_file fs = None" by (auto simp: opened_def split: option.splits)
      then have "durable_record sha256 fs = Inr None" using trusted by (simp add: durable_record_eq)
      moreover have "fs' = fs2" using assms v o ok None by (simp add: clear_def action_defs)
      ultimately show ?thesis using same_files_view(4) [OF fs2] by simp
    next
      case (Some content)
      show ?thesis
      proof (cases r3)
        case (Inl e)
        then have "\<not> is_ok res" "fs' = fs3"
          using assms v o ok Some c by (auto simp: clear_def action_defs)
        with same_files_view(4) [OF fs3] show ?thesis by blast
      next
        case (Inr w)
        have "sync_directory (fs3\<lparr>journal_file := None\<rparr>) = (res, fs')"
          using assms v o ok Some c Inr by (simp add: clear_def action_defs)
        note view = same_files_view(4) [OF sync_directory_effect [OF this]]
        have "parent_trusted (fs3\<lparr>journal_file := None\<rparr>)"
          using trusted same_files_view(1) [OF fs3]
          by (simp add: parent_trusted_def split: option.splits)
        then have "durable_record sha256 (fs3\<lparr>journal_file := None\<rparr>) = Inr None"
          by (simp add: durable_record_eq)
        then show ?thesis by (simp add: view)
      qed
    qed
  qed
qed

interpretation file_journal: durable_journal "file_journal sha256" "durable_record sha256"
  "reload_record sha256"
proof
  show "durable_record sha256 j = Inr x \<and> durable_record sha256 j' = Inr x"
    if "journal_load (file_journal sha256) j = (Inr x, j')" for j x j'
    using that load_effect [of sha256 j "Inr x" j'] same_files_view(4) by (auto simp: file_journal_def)
  show "durable_record sha256 j' = durable_record sha256 j"
    if "journal_load (file_journal sha256) j = (Inl e, j')" for j e j'
    using that load_effect(1) [of sha256 j "Inl e" j'] same_files_view(4) by (auto simp: file_journal_def)
qed (use store_effect clear_effect in \<open>fastforce simp: file_journal_def\<close>)+

section \<open>A healthy file system\<close>

definition healthy :: "journal_fs \<Rightarrow> bool" where
  "healthy fs \<longleftrightarrow> faults fs = [] \<and> parent_trusted fs
     \<and> (case journal_file fs of None \<Rightarrow> True
        | Some (meta, _) \<Rightarrow> file_kind meta \<noteq> Symlink \<and> file_trusted fs meta)"

lemma healthy_guards:
  assumes "healthy fs"
  shows "journal_call fs = (Inr (), fs)" "validate_parent fs = (Inr (), fs)"
    "open_existing fs = (Inr (map_option snd (journal_file fs)), fs)"
  using assms
  by (auto simp: healthy_def journal_call_def validate_parent_def open_existing_def action_defs
      split: option.splits)

lemma healthy_store:
  assumes "healthy fs" and "encode_record sha256 r = Inr bs"
  shows "store sha256 r fs = (Inr (), (with_file bs fs)\<lparr>temporary := None\<rparr>)"
proof -
  have f: "faults fs = []" using assms(1) by (simp add: healthy_def)
  then show ?thesis
    using healthy_guards [OF assms(1)] assms(2)
    by (simp add: store_def replace_file_def sync_directory_def journal_call_def with_file_def
        action_defs)
qed

lemma healthy_clear:
  assumes "healthy fs"
  shows "clear fs = (Inr (), fs\<lparr>journal_file := None\<rparr>)"
  using healthy_guards [OF assms] assms
  by (cases "journal_file fs")
    (auto simp: clear_def sync_directory_def journal_call_def action_defs healthy_def)

lemma healthy_with_file:
  assumes "healthy fs"
  shows "healthy ((with_file bs fs)\<lparr>temporary := None\<rparr>)" "healthy (with_file bs fs)"
  using assms
  by (auto simp: healthy_def with_file_def parent_trusted_def file_trusted_def split: option.splits)

section \<open>Errors of the file journal\<close>

text \<open>A client that tells its own failures from the journal's needs one law more.\<close>

locale typed_journal = durable_journal +
  assumes store_error: "journal_store J r j = (Inl e, j') \<Longrightarrow> e = Journal"

definition fails_with :: "'e \<Rightarrow> ('s, 'e, 'a) action \<Rightarrow> bool" where
  "fails_with e m \<longleftrightarrow> hoare (\<lambda>_. True) m (\<lambda>_ _. True) (\<lambda>e' _. e' = e)"

lemma fails_with_bind: "fails_with e m \<Longrightarrow> (\<And>x. fails_with e (f x)) \<Longrightarrow> fails_with e (bind m f)"
  unfolding fails_with_def by (rule hoare_bind)

lemma fails_with_andthen: "fails_with e m \<Longrightarrow> fails_with e k \<Longrightarrow> fails_with e (andthen m k)"
  unfolding fails_with_def by (rule hoare_andthen)

lemma fails_with_simple [simp]:
  "fails_with e (return x)" "fails_with e (throw e)" "fails_with e (gets f)"
  "fails_with e (modify g)" "fails_with e (attempt m)" "fails_with Journal journal_call"
  by (auto simp: fails_with_def hoare_def return_def throw_def gets_def modify_def attempt_def
      journal_call_def split: prod.splits list.splits bool.splits)

lemma encode_record_error: "encode_record sha256 r = Inl e \<Longrightarrow> e = Journal"
proof -
  have rbind_Inl: "rbind m f = Inl e \<longleftrightarrow> m = Inl e \<or> (\<exists>x. m = Inr x \<and> f x = Inl e)"
    for m :: "network_error + 'x" and f :: "'x \<Rightarrow> network_error + 'y" and e
    by (cases m) auto
  have prep: "encode_prepare owner d = Inl e \<Longrightarrow> e = Journal" for owner d e
    by (auto simp: encode_prepare_def map_err_def split: sum.splits)
  have len: "try_u32_len bs = Inl e \<Longrightarrow> e = Journal" for bs e
    by (simp add: try_u32_len_def split: if_splits)
  assume "encode_record sha256 r = Inl e"
  then show ?thesis
    using prep len
    by (fastforce simp: encode_record_def encode_recovery_def encode_extension_def rbind_Inl Let_def
        split: if_splits option.splits)
qed

lemma store_fails_with: "fails_with Journal (store sha256 r)"
proof -
  have parent: "fails_with Journal validate_parent"
    unfolding validate_parent_def by (intro fails_with_andthen fails_with_bind) simp_all
  have opens: "fails_with Journal open_existing"
    unfolding open_existing_def
    by (intro fails_with_andthen fails_with_bind)
      (auto split: option.split intro!: fails_with_andthen fails_with_bind)
  have enc: "fails_with Journal (of_result (encode_record sha256 r) :: (journal_fs, bytes) net_action)"
    using encode_record_error
    by (auto simp: fails_with_def hoare_def of_result_def split: sum.splits)
  have rep: "fails_with Journal (replace_file bs)" for bs
    unfolding replace_file_def sync_directory_def by (intro fails_with_andthen) simp_all
  have tail: "fails_with Journal (bind (attempt (replace_file bs)) (\<lambda>result.
      if \<not> is_ok result then andthen (attempt m) (of_result result) else of_result result))"
    for bs and m :: "(journal_fs, unit) net_action"
    using rep [of bs]
    by (auto simp: fails_with_def hoare_def action_defs is_ok_def split: prod.splits sum.splits)
  show ?thesis
    unfolding store_def
    by (intro fails_with_andthen [OF parent] fails_with_bind [OF opens] fails_with_bind [OF enc] tail)
qed

interpretation typed_file_journal: typed_journal "file_journal sha256" "durable_record sha256"
  "reload_record sha256"
proof
  show "e = Journal" if "journal_store (file_journal sha256) r j = (Inl e, j')" for r j e j'
    using hoare_Inl [OF store_fails_with [unfolded fails_with_def]] that
    by (auto simp: file_journal_def)
qed

section \<open>Properties\<close>

definition sample_record :: transaction_record where
  "sample_record =
     \<lparr>tx_owner = sample_owner, tx_declaration = sample_declaration, recovery_candidate = None,
      recovery_candidate_owner = None, tx_phase = TxActive, completed_steps = 0x3f,
      sysctls = [\<lparr>sysctl_key = Ipv4Forward, original = 0, applied = 1\<rparr>],
      drain_deadline_mono_ms = 0, failed_prefixes = [Ipv4Prefix 0x0A020000 16]\<rparr>"

lemma sample_owner_valid [simp]: "valid_owner sample_owner"
  by (simp add: valid_owner_def validate_owner_def sample_owner_def)

lemma sample_declaration_simps [simp]:
  "valid_declaration sample_declaration" "canonical_declaration sample_declaration"
  using sample_declaration_ok
  by (simp_all add: valid_declaration_def canonical_declaration_def declaration_ok_def)

lemma sample_prefix_canonical [simp]: "canonical_prefix (Ipv4Prefix 0x0A020000 16)"
  by code_simp

lemma sample_record_ok: "record_encodable sample_record" "record_valid sample_record"
    "record_loadable sample_record"
  by (simp_all add: sample_record_def record_encodable_def record_valid_def record_loadable_def
      sysctl_change_ok_def MAX_FAILED_PREFIXES_def)

definition sample_sha256 :: "bytes \<Rightarrow> u256" where
  "sample_sha256 bs = of_nat (length bs)"

text \<open>
  C30: The journal codec round-trips: a record that was written, and whose failed prefixes are not
  combined with a recovery candidate, reads back as its durable image, for every hash function.
\<close>

theorem journal_roundtrip:
  assumes "encode_record sha256 r = Inr bs" and "record_loadable r"
  shows "decode_record sha256 bs = Inr (durable_image r)"
  using assms by (rule decode_encode_record)

theorem journal_roundtrip_witness:
  "\<exists>bs. decode_record sample_sha256 bs = Inr (durable_image sample_record)"
  using encode_record_total [OF sample_record_ok(1,2), of sample_sha256]
    journal_roundtrip [OF _ sample_record_ok(3)] by blast

text \<open>
  Fail-closed loading: whatever bytes are on disk, a record the decoder accepts carries a
  matching digest, valid owners, validated declarations with canonical prefixes, only known step
  bits, and passes every check of the encoder, so netd can store it again.
\<close>

theorem journal_load_fail_closed:
  assumes "decode_record sha256 bs = Inr r"
  shows "drop (length bs - CHECKSUM_LEN) bs
      = to_be_bytes 32 (sha256 (take (length bs - CHECKSUM_LEN) bs))
    \<and> declaration_ok (tx_declaration r) \<and> pred_option declaration_ok (recovery_candidate r)
    \<and> completed_steps r AND NOT 0x3f = 0
    \<and> (\<exists>bs'. encode_record sha256 r = Inr bs')"
proof -
  note fields = decode_record_fields [OF assms]
  have "record_valid r"
    using fields(2,3,4,7)
    by (auto simp: record_valid_def declaration_ok_def valid_declaration_def option.pred_True
        elim!: option.pred_mono_strong)
  from encode_record_total [OF fields(1) this] fields decode_record_body(2) [OF assms]
  show ?thesis by blast
qed

theorem journal_load_fail_closed_witness:
  "\<exists>bs r. decode_record sample_sha256 bs = Inr r \<and> declaration_ok (tx_declaration r)"
proof -
  obtain bs where "encode_record sample_sha256 sample_record = Inr bs"
    using encode_record_total [OF sample_record_ok(1,2)] by blast
  from decode_encode_record [OF this sample_record_ok(3)] journal_load_fail_closed show ?thesis
    by blast
qed


definition empty_fs :: journal_fs where
  "empty_fs = \<lparr>parent_dir = Some \<lparr>file_kind = Directory, file_uid = 0, file_mode = 0x1c0\<rparr>,
     journal_file = None, temporary = None, euid = 0, faults = []\<rparr>"


text \<open>
  A defect of the version-4 layout: the encoder writes the drain deadline whenever there is a
  recovery candidate, but the decoder expects it in version 3 only. A record with failed prefixes
  and a candidate, whose deadline is below 2^32 ms, is therefore stored successfully and rejected
  by every later load.
\<close>

theorem journal_v4_candidate_is_lost:
  assumes "encode_record sha256 r = Inr bs" and "failed_prefixes r \<noteq> []"
    and "recovery_candidate r \<noteq> None" and "unat (drain_deadline_mono_ms r) < 2 ^ 32"
  shows "\<not> is_ok (decode_record sha256 bs)"
  using assms by (rule v4_candidate_unreadable)

theorem journal_v4_candidate_is_lost_witness:
  "\<exists>bs. encode_record sample_sha256 (sample_record\<lparr>tx_phase := TxPreparing,
       recovery_candidate := Some replacement_declaration\<rparr>) = Inr bs
     \<and> \<not> is_ok (decode_record sample_sha256 bs)"
proof -
  let ?r = "sample_record\<lparr>tx_phase := TxPreparing, recovery_candidate := Some replacement_declaration\<rparr>"
  have "valid_declaration replacement_declaration"
    using replacement_declaration_ok by (simp add: declaration_ok_def valid_declaration_def)
  then have "record_encodable ?r" "record_valid ?r"
    using sample_record_ok(1,2)
    by (auto simp: record_encodable_def record_valid_def candidate_phase_def sample_record_def)
  then obtain bs where "encode_record sample_sha256 ?r = Inr bs"
    using encode_record_total by blast
  moreover from this have "\<not> is_ok (decode_record sample_sha256 bs)"
    by (rule journal_v4_candidate_is_lost) (simp_all add: sample_record_def)
  ultimately show ?thesis by blast
qed

end
