(* ===== verification/Netd_Transaction.thy ===== *)
theory Netd_Transaction
  imports Netd_Journal
begin

text \<open>
  The network transaction of netd (\<^verbatim>\<open>candy-netd/src/network.rs\<close>, lines 178-1406): every public
  operation of \<^verbatim>\<open>NetworkTransaction\<close> and its private helpers, as state-passing actions over the
  backend state, the journal state and the in-memory record. Both traits are parameters. The
  operations keep the order of backend calls, journal stores and in-memory updates of the code,
  because recovery after a crash depends on it.
\<close>

section \<open>State and primitive actions\<close>

record ('b, 'j) transaction =
  backend :: 'b
  journal :: 'j
  tx_record :: "transaction_record option"

definition new_transaction ::
    "'j journal_ops \<Rightarrow> 'b \<Rightarrow> 'j \<Rightarrow> network_error + ('b, 'j) transaction" where
  "new_transaction J b j =
     (case journal_load J j of
        (Inl e, j') \<Rightarrow> Inl e
      | (Inr r, j') \<Rightarrow> Inr \<lparr>backend = b, journal = j', tx_record = r\<rparr>)"

type_synonym ('b, 'j, 'a) tx_action = "(('b, 'j) transaction, 'a) net_action"

definition on_backend :: "('b, 'a) net_action \<Rightarrow> ('b, 'j, 'a) tx_action" where
  "on_backend m t = (case m (backend t) of (r, b) \<Rightarrow> (r, t\<lparr>backend := b\<rparr>))"

definition on_journal :: "('j, 'a) net_action \<Rightarrow> ('b, 'j, 'a) tx_action" where
  "on_journal m t = (case m (journal t) of (r, j) \<Rightarrow> (r, t\<lparr>journal := j\<rparr>))"

text \<open>\<^verbatim>\<open>self.record.as_ref().ok_or(NetworkError::InvalidTransition)?\<close>\<close>

definition get_record :: "('b, 'j, transaction_record) tx_action" where
  "get_record t = (ok_or NetInvalidTransition (tx_record t), t)"

definition set_record :: "transaction_record option \<Rightarrow> ('b, 'j, unit) tx_action" where
  "set_record r = modify (\<lambda>t. t\<lparr>tx_record := r\<rparr>)"

definition save :: "'j journal_ops \<Rightarrow> transaction_record \<Rightarrow> ('b, 'j, unit) tx_action" where
  "save J r = on_journal (journal_store J r)"

text \<open>
  \<^verbatim>\<open>let record = self.record.as_mut()...?; <update>; self.journal.store(record)\<close>: memory changes
  first and keeps the change when the store fails.
\<close>

definition update_and_save ::
    "'j journal_ops \<Rightarrow> (transaction_record \<Rightarrow> transaction_record) \<Rightarrow> ('b, 'j, unit) tx_action" where
  "update_and_save J f =
     bind get_record (\<lambda>r. andthen (set_record (Some (f r))) (save J (f r)))"

text \<open>\<^verbatim>\<open>self.journal.store(&record)?; self.record = Some(record)\<close>: memory changes after the store.\<close>

definition save_and_set :: "'j journal_ops \<Rightarrow> transaction_record \<Rightarrow> ('b, 'j, unit) tx_action" where
  "save_and_set J r = andthen (save J r) (set_record (Some r))"

definition complete_step :: "'j journal_ops \<Rightarrow> u16 \<Rightarrow> ('b, 'j, unit) tx_action" where
  "complete_step J step = update_and_save J (\<lambda>r. r\<lparr>completed_steps := completed_steps r OR step\<rparr>)"

definition clear_step :: "'j journal_ops \<Rightarrow> u16 \<Rightarrow> ('b, 'j, unit) tx_action" where
  "clear_step J step = update_and_save J (\<lambda>r. r\<lparr>completed_steps := completed_steps r AND NOT step\<rparr>)"

definition set_phase :: "'j journal_ops \<Rightarrow> transaction_phase \<Rightarrow> ('b, 'j, unit) tx_action" where
  "set_phase J phase = update_and_save J (\<lambda>r. r\<lparr>tx_phase := phase\<rparr>)"

definition ensure_owner :: "lease_owner \<Rightarrow> lease_owner \<Rightarrow> network_error + unit" where
  "ensure_owner retained request =
     (if instance_id retained = instance_id request \<and> pid retained = pid request
         \<and> generation retained = generation request
      then Inr () else Inl Conflict)"

definition ensure_reconfigure_owner :: "lease_owner \<Rightarrow> lease_owner \<Rightarrow> network_error + unit" where
  "ensure_reconfigure_owner retained request =
     (if instance_id retained = instance_id request \<and> pid retained = pid request
      then Inr () else Inl Conflict)"

text \<open>The owner check of an operation that a staged replacement's new generation may also call.\<close>

definition ensure_candidate_owner :: "transaction_record \<Rightarrow> lease_owner \<Rightarrow> network_error + unit" where
  "ensure_candidate_owner r owner =
     (if recovery_candidate r \<noteq> None then ensure_reconfigure_owner (tx_owner r) owner
      else ensure_owner (tx_owner r) owner)"

definition check_declaration :: "prepare_declaration \<Rightarrow> network_error + unit" where
  "check_declaration d = map_err (\<lambda>_. Backend) (validate_declaration d)"

fun is_remote :: "route_kind \<Rightarrow> bool" where
  "is_remote Local = False" | "is_remote _ = True"

fun is_egress :: "route_kind \<Rightarrow> bool" where
  "is_egress RemoteEgress = True" | "is_egress RemoteEgressGateway = True" | "is_egress _ = False"

definition is_remote_prefix :: "prepare_declaration \<Rightarrow> ipv4_prefix \<Rightarrow> bool" where
  "is_remote_prefix d p = list_ex (\<lambda>r. route_prefix r = p \<and> is_remote (route_kind r)) (routes d)"

definition local_prefixes :: "prepare_declaration \<Rightarrow> ipv4_prefix list" where
  "local_prefixes d = sort (map route_prefix (filter (\<lambda>r. route_kind r = Local) (routes d)))"

definition firewall_policy_changed :: "prepare_declaration \<Rightarrow> prepare_declaration \<Rightarrow> bool" where
  "firewall_policy_changed current candidate =
     (if firewall current \<noteq> firewall candidate then True
      else local_prefixes current \<noteq> local_prefixes candidate
        \<or> list_ex (\<lambda>r. is_egress (route_kind r)) (routes current)
          \<noteq> list_ex (\<lambda>r. is_egress (route_kind r)) (routes candidate))"

definition same_tunnel_declaration :: "prepare_declaration \<Rightarrow> prepare_declaration \<Rightarrow> bool" where
  "same_tunnel_declaration current candidate \<longleftrightarrow>
     table_id current = table_id candidate
     \<and> overlay_router_ipv4 current = overlay_router_ipv4 candidate
     \<and> effective_mtu current = effective_mtu candidate
     \<and> exclusions current = exclusions candidate"

text \<open>The update that forgets a staged candidate and returns to the last-good declaration.\<close>

definition discard_candidate :: "transaction_record \<Rightarrow> transaction_record" where
  "discard_candidate r = r\<lparr>recovery_candidate := None, recovery_candidate_owner := None,
     tx_phase := TxActive, drain_deadline_mono_ms := 0\<rparr>"

section \<open>Cleanup\<close>

text \<open>\<^verbatim>\<open>first_error.get_or_insert(error)\<close> over the results of attempted steps.\<close>

definition get_or_insert :: "'e option \<Rightarrow> 'e + 'a \<Rightarrow> 'e option" where
  "get_or_insert first result =
     (case result of Inr _ \<Rightarrow> first
      | Inl e \<Rightarrow> (case first of None \<Rightarrow> Some e | Some _ \<Rightarrow> first))"

definition try_step ::
    "'e option \<Rightarrow> ('s, 'e, 'a) action \<Rightarrow> ('s, 'e, 'e option) action" where
  "try_step first m = bind (attempt m) (\<lambda>result. return (get_or_insert first result))"

definition result_of :: "'e option \<Rightarrow> ('s, 'e, unit) action" where
  "result_of first = (case first of None \<Rightarrow> return () | Some e \<Rightarrow> throw e)"

text \<open>The \<^verbatim>\<open>cleanup_step!\<close> macro: run the backend operation, then clear its bit.\<close>

definition cleanup_step ::
    "'j journal_ops \<Rightarrow> bool \<Rightarrow> ('b, unit) net_action \<Rightarrow> u16 \<Rightarrow> network_error option \<Rightarrow>
     ('b, 'j, network_error option) tx_action" where
  "cleanup_step J needed m step first =
     (if needed then try_step first (andthen (on_backend m) (clear_step J step)) else return first)"

text \<open>A failed remote route was replaced by a throw route, which cleanup must delete as a local one.\<close>

definition routes_for_cleanup :: "transaction_record \<Rightarrow> prepare_declaration" where
  "routes_for_cleanup r =
     (tx_declaration r)\<lparr>routes :=
        map (\<lambda>route. if route_prefix route \<in> set (failed_prefixes r)
                     then route\<lparr>route_kind := Local\<rparr> else route)
          (routes (tx_declaration r))\<rparr>"

definition cleanup_candidate ::
    "'b backend_ops \<Rightarrow> 'j journal_ops \<Rightarrow> transaction_record \<Rightarrow>
     ('b, 'j, network_error option) tx_action" where
  "cleanup_candidate B J r =
     (case recovery_candidate r of
        None \<Rightarrow> return None
      | Some candidate \<Rightarrow>
          bind (try_step None (on_backend (remove_firewall B candidate))) (\<lambda>e1.
          bind (try_step e1 (on_backend (remove_routes B candidate))) (\<lambda>e2.
          if e2 \<noteq> None then return e2
          else try_step None (update_and_save J (\<lambda>r. r\<lparr>recovery_candidate := None,
                 recovery_candidate_owner := None\<rparr>)))))"

definition cleanup_finish ::
    "'j journal_ops \<Rightarrow> network_error option \<Rightarrow> ('b, 'j, network_error option) tx_action" where
  "cleanup_finish J first =
     bind (gets tx_record) (\<lambda>current.
     if (case current of None \<Rightarrow> False
         | Some r \<Rightarrow> completed_steps r = 0 \<and> recovery_candidate r = None)
     then try_step first (andthen (on_journal (journal_clear J)) (set_record None))
     else return first)"

definition cleanup_record :: "'b backend_ops \<Rightarrow> 'j journal_ops \<Rightarrow> ('b, 'j, unit) tx_action" where
  "cleanup_record B J =
     andthen (set_phase J TxRollingBack)
     (bind get_record (\<lambda>r.
      let d = tx_declaration r; steps = completed_steps r in
      bind (cleanup_candidate B J r) (\<lambda>e.
      bind (cleanup_step J (steps AND STEP_POLICY_RULE \<noteq> 0) (remove_policy_rule B d)
              STEP_POLICY_RULE e) (\<lambda>e.
      bind (cleanup_step J (steps AND (STEP_LINK OR STEP_LINK_ACTIVE) \<noteq> 0) (deactivate_link B d)
              STEP_LINK_ACTIVE e) (\<lambda>e.
      bind (cleanup_step J (steps AND STEP_SYSCTLS \<noteq> 0) (restore_sysctls B d (sysctls r))
              STEP_SYSCTLS e) (\<lambda>e.
      bind (cleanup_step J (steps AND STEP_FIREWALL \<noteq> 0) (remove_firewall B d)
              STEP_FIREWALL e) (\<lambda>e.
      bind (cleanup_step J (steps AND STEP_ROUTES \<noteq> 0) (remove_routes B (routes_for_cleanup r))
              STEP_ROUTES e) (\<lambda>e.
      bind (cleanup_step J (steps AND STEP_LINK \<noteq> 0) (remove_link B d) STEP_LINK e) (\<lambda>e.
      bind (cleanup_finish J e) (\<lambda>e.
      result_of e))))))))))"

section \<open>Prepare, commit, drain and rollback\<close>

text \<open>
  \<^verbatim>\<open>let result = m; if result.is_err() { let _ = h; } result\<close>, and the variant whose handler's own
  error wins.
\<close>

definition on_error :: "('s, 'e, 'a) action \<Rightarrow> ('s, 'e, unit) action \<Rightarrow> ('s, 'e, 'a) action" where
  "on_error m h =
     bind (attempt m) (\<lambda>result.
     case result of
       Inr x \<Rightarrow> return x
     | Inl e \<Rightarrow> andthen (attempt h) (throw e))"

definition on_error_first :: "('s, 'e, 'a) action \<Rightarrow> ('s, 'e, unit) action \<Rightarrow> ('s, 'e, 'a) action" where
  "on_error_first m h =
     bind (attempt m) (\<lambda>result.
     case result of
       Inr x \<Rightarrow> return x
     | Inl e \<Rightarrow> andthen h (throw e))"

definition ignore :: "('s, 'e, 'a) action \<Rightarrow> ('s, 'e, unit) action" where
  "ignore m = andthen (attempt m) (return ())"

definition new_record :: "lease_owner \<Rightarrow> prepare_declaration \<Rightarrow> transaction_record" where
  "new_record owner d =
     \<lparr>tx_owner = owner, tx_declaration = d, recovery_candidate = None,
      recovery_candidate_owner = None, tx_phase = TxPreparing, completed_steps = 0, sysctls = [],
      drain_deadline_mono_ms = 0, failed_prefixes = []\<rparr>"

definition prepare_steps :: "'b backend_ops \<Rightarrow> 'j journal_ops \<Rightarrow> ('b, 'j, unit) tx_action" where
  "prepare_steps B J =
     bind get_record (\<lambda>r.
     let d = tx_declaration r in
     bind (at_stage (on_backend (preflight B d)) Preflight) (\<lambda>changes.
     andthen (update_and_save J (\<lambda>r. r\<lparr>sysctls := changes\<rparr>))
     (andthen (complete_step J STEP_SYSCTLS)
     (bind get_record (\<lambda>r.
     andthen (at_stage (on_backend (prepare_sysctls B d (sysctls r))) SysctlPrepare)
     (andthen (complete_step J STEP_LINK)
     (andthen (at_stage (on_backend (prepare_link B d)) LinkPrepare)
     (andthen (complete_step J STEP_LINK_ACTIVE)
     (andthen (at_stage (on_backend (activate_link B d)) LinkActivate)
     (andthen (complete_step J STEP_ROUTES)
     (andthen (at_stage (on_backend (prepare_routes B d)) RoutePrepare)
     (andthen (complete_step J STEP_FIREWALL)
     (andthen (at_stage (on_backend (prepare_firewall B d)) FirewallPrepare)
     (set_phase J TxPrepared))))))))))))))"

definition prepare ::
    "'b backend_ops \<Rightarrow> 'j journal_ops \<Rightarrow> lease_owner \<Rightarrow> prepare_declaration \<Rightarrow> ('b, 'j, unit) tx_action" where
  "prepare B J owner d =
     bind (gets tx_record) (\<lambda>current.
     case current of
       Some r \<Rightarrow>
         andthen (of_result (ensure_owner (tx_owner r) owner))
         (if tx_declaration r \<noteq> d then throw Conflict
          else if tx_phase r \<in> {TxPrepared, TxActive} then return ()
          else throw NetInvalidTransition)
     | None \<Rightarrow>
         andthen (of_result (check_declaration d))
         (andthen (save_and_set J (new_record owner d))
         (on_error (prepare_steps B J) (cleanup_record B J))))"

definition commit_replacement ::
    "'b backend_ops \<Rightarrow> 'j journal_ops \<Rightarrow> prepare_declaration \<Rightarrow> u64 \<Rightarrow> u64 \<Rightarrow> ('b, 'j, unit) tx_action" where
  "commit_replacement B J candidate now_mono_ms drain_timeout_ms =
     on_error
       (andthen (on_backend (activate_link B candidate))
       (andthen (on_backend (install_policy_rule B candidate))
       (update_and_save J (\<lambda>r. r\<lparr>tx_phase := TxDraining,
          drain_deadline_mono_ms := saturating_add now_mono_ms drain_timeout_ms\<rparr>))))
       (andthen (ignore (on_backend (remove_policy_rule B candidate)))
       (andthen (ignore (on_backend (remove_firewall B candidate)))
       (andthen (ignore (on_backend (remove_routes B candidate)))
       (update_and_save J discard_candidate))))"

definition commit_prepared ::
    "'b backend_ops \<Rightarrow> 'j journal_ops \<Rightarrow> prepare_declaration \<Rightarrow> ('b, 'j, unit) tx_action" where
  "commit_prepared B J d =
     on_error
       (andthen (complete_step J STEP_POLICY_RULE)
       (andthen (at_stage (on_backend (install_policy_rule B d)) PolicyActivate)
       (set_phase J TxActive)))
       (cleanup_record B J)"

definition commit_with_drain ::
    "'b backend_ops \<Rightarrow> 'j journal_ops \<Rightarrow> lease_owner \<Rightarrow> u64 \<Rightarrow> u64 \<Rightarrow> ('b, 'j, unit) tx_action" where
  "commit_with_drain B J owner now_mono_ms drain_timeout_ms =
     bind get_record (\<lambda>r.
     andthen (of_result (ensure_candidate_owner r owner))
     (if tx_phase r = TxDraining then return ()
      else
        case (if tx_phase r = TxPrepared then recovery_candidate r else None) of
          Some candidate \<Rightarrow> commit_replacement B J candidate now_mono_ms drain_timeout_ms
        | None \<Rightarrow>
            if tx_phase r = TxActive then return ()
            else if tx_phase r \<noteq> TxPrepared then throw NetInvalidTransition
            else commit_prepared B J (tx_declaration r)))"

definition commit :: "'b backend_ops \<Rightarrow> 'j journal_ops \<Rightarrow> lease_owner \<Rightarrow> ('b, 'j, unit) tx_action" where
  "commit B J owner = commit_with_drain B J owner 0 0"

definition drain_old ::
    "'b backend_ops \<Rightarrow> 'j journal_ops \<Rightarrow> lease_owner \<Rightarrow> u64 \<Rightarrow> ('b, 'j, unit) tx_action" where
  "drain_old B J owner now_mono_ms =
     bind get_record (\<lambda>r.
     andthen (of_result (ensure_candidate_owner r owner))
     (if tx_phase r = TxActive \<and> recovery_candidate r = None then return ()
      else if tx_phase r \<noteq> TxDraining then throw NetInvalidTransition
      else if drain_deadline_mono_ms r \<noteq> 0 \<and> now_mono_ms < drain_deadline_mono_ms r
      then throw DrainPending
      else
        bind (of_result (ok_or NetInvalidTransition (recovery_candidate r))) (\<lambda>candidate.
        let candidate_owner =
              (case recovery_candidate_owner r of None \<Rightarrow> owner | Some co \<Rightarrow> co);
            previous = tx_declaration r in
        andthen (on_backend (remove_policy_rule B previous))
        (andthen (on_backend (remove_firewall B previous))
        (andthen (on_backend (remove_routes B previous))
        (update_and_save J (\<lambda>r. r\<lparr>tx_owner := candidate_owner, tx_declaration := candidate,
           recovery_candidate := None, recovery_candidate_owner := None, tx_phase := TxActive,
           drain_deadline_mono_ms := 0\<rparr>)))))))"

definition rollback :: "'b backend_ops \<Rightarrow> 'j journal_ops \<Rightarrow> lease_owner \<Rightarrow> ('b, 'j, unit) tx_action" where
  "rollback B J owner =
     bind get_record (\<lambda>r.
     if recovery_candidate r \<noteq> None \<and> tx_phase r \<in> {TxPreparing, TxPrepared} then
       andthen (of_result (ensure_reconfigure_owner (tx_owner r) owner))
       (bind (of_result (ok_or NetInvalidTransition (recovery_candidate r))) (\<lambda>candidate.
        andthen (on_backend (remove_firewall B candidate))
        (andthen (on_backend (remove_routes B candidate))
        (update_and_save J discard_candidate))))
     else
       andthen (of_result (ensure_owner (tx_owner r) owner)) (cleanup_record B J))"

section \<open>Leases, MTU, suspension and failed prefixes\<close>

definition withdraw_prefixes ::
    "'b backend_ops \<Rightarrow> lease_owner \<Rightarrow> ipv4_prefix list \<Rightarrow> ('b, 'j, unit) tx_action" where
  "withdraw_prefixes B owner prefixes =
     (if prefixes = [] then throw NetInvalidTransition
      else
        bind get_record (\<lambda>r.
        andthen (of_result (ensure_owner (tx_owner r) owner))
        (if tx_phase r \<noteq> TxActive then throw NetInvalidTransition
         else on_backend (backend_withdraw_prefixes B (tx_declaration r) prefixes))))"

definition set_failed_prefixes ::
    "'b backend_ops \<Rightarrow> 'j journal_ops \<Rightarrow> lease_owner \<Rightarrow> ipv4_prefix list \<Rightarrow> ('b, 'j, unit) tx_action" where
  "set_failed_prefixes B J owner prefixes =
     bind get_record (\<lambda>r.
     andthen (of_result (ensure_owner (tx_owner r) owner))
     (if tx_phase r \<notin> {TxActive, TxSuspended} then throw NetInvalidTransition
      else
        let d = tx_declaration r;
            policy_is_active = (tx_phase r = TxActive);
            desired = remdups_adj (sort prefixes) in
        if list_ex (\<lambda>p. \<not> is_remote_prefix d p) desired then throw Conflict
        else
          andthen (on_backend (reconcile_routes B d desired))
          (andthen (when_true policy_is_active (on_backend (install_policy_rule B d)))
          (update_and_save J (\<lambda>r. r\<lparr>failed_prefixes := desired\<rparr>)))))"

definition renew_lease :: "'j journal_ops \<Rightarrow> lease_owner \<Rightarrow> ('b, 'j, unit) tx_action" where
  "renew_lease J owner =
     bind get_record (\<lambda>r.
     andthen (of_result (ensure_candidate_owner r owner))
     (update_and_save J (\<lambda>r. r\<lparr>tx_owner := (tx_owner r)\<lparr>lease_deadline_mono_ms :=
        lease_deadline_mono_ms owner\<rparr>\<rparr>)))"

definition update_mtu ::
    "'b backend_ops \<Rightarrow> 'j journal_ops \<Rightarrow> lease_owner \<Rightarrow> u16 \<Rightarrow> ('b, 'j, unit) tx_action" where
  "update_mtu B J owner mtu =
     (if \<not> (576 \<le> mtu \<and> mtu \<le> 1400) then throw NetInvalidTransition
      else
        bind get_record (\<lambda>r.
        andthen (of_result (ensure_owner (tx_owner r) owner))
        (if tx_phase r \<noteq> TxActive \<or> mtu \<ge> effective_mtu (tx_declaration r)
         then throw NetInvalidTransition
         else
           let d = tx_declaration r in
           andthen (on_backend (update_link_mtu B d mtu))
           (update_and_save J (\<lambda>r. r\<lparr>tx_declaration := d\<lparr>effective_mtu := mtu\<rparr>\<rparr>)))))"

definition suspend :: "'b backend_ops \<Rightarrow> 'j journal_ops \<Rightarrow> lease_owner \<Rightarrow> ('b, 'j, unit) tx_action" where
  "suspend B J owner =
     bind get_record (\<lambda>r.
     andthen (of_result (ensure_owner (tx_owner r) owner))
     (if tx_phase r = TxSuspended then return ()
      else if tx_phase r \<noteq> TxActive then throw NetInvalidTransition
      else
        andthen (on_backend (remove_policy_rule B (tx_declaration r)))
        (andthen (clear_step J STEP_POLICY_RULE)
        (set_phase J TxSuspended))))"

definition resume :: "'b backend_ops \<Rightarrow> 'j journal_ops \<Rightarrow> lease_owner \<Rightarrow> ('b, 'j, unit) tx_action" where
  "resume B J owner =
     bind get_record (\<lambda>r.
     andthen (of_result (ensure_owner (tx_owner r) owner))
     (if tx_phase r = TxActive then return ()
      else if tx_phase r \<noteq> TxSuspended then throw NetInvalidTransition
      else
        andthen (on_backend (install_policy_rule B (tx_declaration r)))
        (andthen (complete_step J STEP_POLICY_RULE)
        (set_phase J TxActive))))"

section \<open>Reconfiguration and policy updates\<close>

text \<open>The array of five results that \<^verbatim>\<open>restore_suspended_after_reconfigure\<close> folds.\<close>

definition restore_suspended_after_reconfigure ::
    "'b backend_ops \<Rightarrow> 'j journal_ops \<Rightarrow> transaction_record \<Rightarrow> prepare_declaration \<Rightarrow>
     ('b, 'j, unit) tx_action" where
  "restore_suspended_after_reconfigure B J previous_record candidate =
     (let previous = tx_declaration previous_record in
      bind (try_step None (on_backend (remove_firewall B candidate))) (\<lambda>e.
      bind (try_step e (on_backend (remove_routes B candidate))) (\<lambda>e.
      bind (try_step e (on_backend (prepare_link B previous))) (\<lambda>e.
      bind (try_step e (on_backend (prepare_routes B previous))) (\<lambda>e.
      bind (try_step e (on_backend (prepare_firewall B previous))) (\<lambda>e.
      andthen (result_of e) (save_and_set J previous_record)))))))"

definition prepare_replacement ::
    "'b backend_ops \<Rightarrow> 'j journal_ops \<Rightarrow> lease_owner \<Rightarrow> prepare_declaration \<Rightarrow> ('b, 'j, unit) tx_action" where
  "prepare_replacement B J owner d =
     bind get_record (\<lambda>r.
     andthen (of_result (ensure_reconfigure_owner (tx_owner r) owner))
     (if tx_declaration r = d then save_and_set J (r\<lparr>tx_owner := owner\<rparr>)
      else if table_id (tx_declaration r) = table_id d
         \<or> firewall (tx_declaration r) \<noteq> firewall d
         \<or> overlay_router_ipv4 (tx_declaration r) \<noteq> overlay_router_ipv4 d
         \<or> effective_mtu (tx_declaration r) \<noteq> effective_mtu d
      then throw NetInvalidTransition
      else
        case recovery_candidate r of
          Some candidate \<Rightarrow> if candidate = d then return () else throw Conflict
        | None \<Rightarrow>
            andthen (update_and_save J (\<lambda>r. r\<lparr>recovery_candidate := Some d,
               recovery_candidate_owner := Some owner, tx_phase := TxPreparing,
               drain_deadline_mono_ms := 0\<rparr>))
            (andthen
              (on_error
                (andthen (of_result (check_declaration d))
                (andthen (on_backend (preflight B d))
                (andthen (on_backend (prepare_link B d))
                (andthen (on_backend (prepare_routes B d))
                (on_backend (prepare_firewall B d))))))
                (andthen (ignore (on_backend (remove_firewall B d)))
                (andthen (ignore (on_backend (remove_routes B d)))
                (update_and_save J (\<lambda>r. r\<lparr>recovery_candidate := None,
                   recovery_candidate_owner := None, tx_phase := TxActive\<rparr>)))))
              (update_and_save J (\<lambda>r. r\<lparr>tx_phase := TxPrepared\<rparr>)))))"

definition stage_in_place ::
    "'j journal_ops \<Rightarrow> lease_owner \<Rightarrow> prepare_declaration \<Rightarrow> ('b, 'j, unit) tx_action" where
  "stage_in_place J owner d =
     update_and_save J (\<lambda>r. r\<lparr>tx_phase := TxRollingBack, recovery_candidate := Some d,
       recovery_candidate_owner := Some owner\<rparr>)"

definition reconfigure_suspended ::
    "'b backend_ops \<Rightarrow> 'j journal_ops \<Rightarrow> lease_owner \<Rightarrow> prepare_declaration \<Rightarrow> transaction_record \<Rightarrow>
     ('b, 'j, unit) tx_action" where
  "reconfigure_suspended B J owner d previous_record =
     (let previous = tx_declaration previous_record in
      if previous = d then save_and_set J (previous_record\<lparr>tx_owner := owner\<rparr>)
      else if firewall previous \<noteq> firewall d
         \<or> table_id previous \<noteq> table_id d
         \<or> overlay_router_ipv4 previous \<noteq> overlay_router_ipv4 d
         \<or> effective_mtu previous \<noteq> effective_mtu d
      then throw NetInvalidTransition
      else
        andthen (stage_in_place J owner d)
        (andthen
          (on_error_first
            (andthen (on_backend (remove_firewall B previous))
            (andthen (on_backend (remove_routes B previous))
            (andthen (on_backend (prepare_link B d))
            (andthen (on_backend (prepare_routes B d))
            (on_backend (prepare_firewall B d))))))
            (restore_suspended_after_reconfigure B J previous_record d))
        (let replacement_record = previous_record\<lparr>tx_owner := owner, tx_declaration := d,
               failed_prefixes := [], drain_deadline_mono_ms := 0\<rparr> in
         andthen
          (on_error_first (save J replacement_record)
            (restore_suspended_after_reconfigure B J previous_record d))
          (set_record (Some replacement_record)))))"

definition reconfigure ::
    "'b backend_ops \<Rightarrow> 'j journal_ops \<Rightarrow> lease_owner \<Rightarrow> prepare_declaration \<Rightarrow> ('b, 'j, unit) tx_action" where
  "reconfigure B J owner d =
     andthen (of_result (check_declaration d))
     (bind get_record (\<lambda>r.
      andthen (of_result (ensure_reconfigure_owner (tx_owner r) owner))
      (if tx_phase r = TxActive then prepare_replacement B J owner d
       else if tx_phase r \<noteq> TxSuspended then throw NetInvalidTransition
       else reconfigure_suspended B J owner d r)))"

text \<open>
  Both restore attempts run before the policy rule is reinstalled; a failure of the rule wins over
  an earlier one because of its \<^verbatim>\<open>?\<close>.
\<close>

definition restore_policy_after_update ::
    "'b backend_ops \<Rightarrow> 'j journal_ops \<Rightarrow> transaction_record \<Rightarrow> prepare_declaration \<Rightarrow>
     ('b, 'j, unit) tx_action" where
  "restore_policy_after_update B J previous_record candidate =
     (let previous = tx_declaration previous_record in
      bind (if routes previous \<noteq> routes candidate
            then try_step None (on_backend (reconcile_routes B previous (failed_prefixes previous_record)))
            else return None) (\<lambda>e.
      bind (if firewall_policy_changed previous candidate
            then try_step e (on_backend (replace_firewall B candidate previous))
            else return e) (\<lambda>e.
      andthen (when_true (completed_steps previous_record AND STEP_POLICY_RULE \<noteq> 0)
        (on_backend (install_policy_rule B previous)))
      (andthen (result_of e) (save_and_set J previous_record)))))"

definition apply_policy ::
    "'b backend_ops \<Rightarrow> 'j journal_ops \<Rightarrow> lease_owner \<Rightarrow> prepare_declaration \<Rightarrow> transaction_record \<Rightarrow>
     ('b, 'j, unit) tx_action" where
  "apply_policy B J owner d previous_record =
     (let previous = tx_declaration previous_record;
          retained = filter (is_remote_prefix d) (failed_prefixes previous_record) in
      andthen (stage_in_place J owner d)
      (andthen
        (on_error_first
          (andthen (when_true (routes previous \<noteq> routes d) (on_backend (reconcile_routes B d retained)))
          (andthen (when_true (firewall_policy_changed previous d)
             (on_backend (replace_firewall B previous d)))
          (when_true (tx_phase previous_record = TxActive) (on_backend (install_policy_rule B d)))))
          (restore_policy_after_update B J previous_record d))
      (let updated = previous_record\<lparr>tx_declaration := d, failed_prefixes := retained,
             recovery_candidate := None, recovery_candidate_owner := None\<rparr> in
       andthen
        (on_error_first (save J updated) (restore_policy_after_update B J previous_record d))
        (set_record (Some updated)))))"

definition update_policy ::
    "'b backend_ops \<Rightarrow> 'j journal_ops \<Rightarrow> lease_owner \<Rightarrow> prepare_declaration \<Rightarrow> ('b, 'j, unit) tx_action" where
  "update_policy B J owner d =
     andthen (of_result (check_declaration d))
     (bind get_record (\<lambda>r.
      andthen (of_result (ensure_owner (tx_owner r) owner))
      (if tx_phase r \<notin> {TxActive, TxSuspended} \<or> recovery_candidate r \<noteq> None
          \<or> table_id (tx_declaration r) \<noteq> table_id d
          \<or> overlay_router_ipv4 (tx_declaration r) \<noteq> overlay_router_ipv4 d
          \<or> effective_mtu (tx_declaration r) \<noteq> effective_mtu d
          \<or> exclusions (tx_declaration r) \<noteq> exclusions d
       then throw NetInvalidTransition
       else if tx_declaration r = d
       then when_true (tx_phase r = TxActive) (on_backend (install_policy_rule B d))
       else apply_policy B J owner d r)))"

section \<open>Recovery\<close>

definition recover_policy_update :: "'b backend_ops \<Rightarrow> 'j journal_ops \<Rightarrow> ('b, 'j, bool) tx_action" where
  "recover_policy_update B J =
     bind get_record (\<lambda>r.
     bind (of_result (ok_or NetInvalidTransition (recovery_candidate r))) (\<lambda>candidate.
     let d = tx_declaration r;
         policy_rule = (completed_steps r AND STEP_POLICY_RULE \<noteq> 0) in
     andthen (when_true (routes d \<noteq> routes candidate)
       (on_backend (reconcile_routes B d (failed_prefixes r))))
     (andthen (when_true (firewall_policy_changed d candidate)
       (on_backend (replace_firewall B candidate d)))
     (andthen (when_true policy_rule (on_backend (install_policy_rule B d)))
     (andthen
       (save_and_set J (r\<lparr>recovery_candidate := None, recovery_candidate_owner := None,
          tx_phase := (if policy_rule then TxActive else TxSuspended)\<rparr>))
       (return True))))))"

definition policy_update_pending :: "transaction_record \<Rightarrow> bool" where
  "policy_update_pending r \<longleftrightarrow>
     tx_phase r = TxRollingBack
     \<and> recovery_candidate_owner r = Some (tx_owner r)
     \<and> completed_steps r AND (STEP_LINK OR STEP_ROUTES OR STEP_FIREWALL)
       = (STEP_LINK OR STEP_ROUTES OR STEP_FIREWALL)
     \<and> (case recovery_candidate r of
          None \<Rightarrow> False
        | Some candidate \<Rightarrow> same_tunnel_declaration (tx_declaration r) candidate)"

definition discard_staged :: "'b backend_ops \<Rightarrow> 'j journal_ops \<Rightarrow> prepare_declaration \<Rightarrow> ('b, 'j, bool) tx_action" where
  "discard_staged B J candidate =
     andthen (on_backend (remove_firewall B candidate))
     (andthen (on_backend (remove_routes B candidate))
     (andthen (update_and_save J discard_candidate) (return True)))"

definition recover_orphan ::
    "'b backend_ops \<Rightarrow> 'j journal_ops \<Rightarrow> bool \<Rightarrow> u64 \<Rightarrow> ('b, 'j, bool) tx_action" where
  "recover_orphan B J owner_is_alive now_mono_ms =
     bind (gets tx_record) (\<lambda>current.
     case current of
       None \<Rightarrow> return False
     | Some r \<Rightarrow>
         if policy_update_pending r then recover_policy_update B J
         else
           case (if tx_phase r \<in> {TxPreparing, TxPrepared} then recovery_candidate r else None) of
             Some candidate \<Rightarrow>
               if owner_is_alive \<and> lease_deadline_mono_ms (tx_owner r) > now_mono_ms
               then return False
               else discard_staged B J candidate
           | None \<Rightarrow>
               if tx_phase r = TxDraining then
                 (if owner_is_alive \<and> (drain_deadline_mono_ms r = 0
                      \<or> now_mono_ms < drain_deadline_mono_ms r)
                  then return False
                  else
                    andthen (drain_old B J
                      (case recovery_candidate_owner r of None \<Rightarrow> tx_owner r | Some co \<Rightarrow> co)
                      now_mono_ms) (return True))
               else if tx_phase r \<noteq> TxRollingBack \<and> owner_is_alive
                 \<and> lease_deadline_mono_ms (tx_owner r) > now_mono_ms
               then return False
               else andthen (cleanup_record B J) (return True))"

section \<open>The controller interface\<close>

text \<open>\<^verbatim>\<open>impl NetworkController for NetworkTransaction\<close>: the calls a session may make.\<close>

datatype controller_call =
    CallPrepare prepare_declaration
  | CallCommit
  | CallCommitWithDrain u64 u64
  | CallDrainOld u64
  | CallSetFailedPrefixes "ipv4_prefix list"
  | CallRollback
  | CallRenewLease
  | CallUpdateMtu u16
  | CallSuspend
  | CallReconfigure prepare_declaration
  | CallUpdatePolicy prepare_declaration
  | CallResume

fun controller ::
    "'b backend_ops \<Rightarrow> 'j journal_ops \<Rightarrow> lease_owner \<Rightarrow> controller_call \<Rightarrow> ('b, 'j, unit) tx_action" where
  "controller B J owner (CallPrepare d) = prepare B J owner d"
| "controller B J owner CallCommit = commit B J owner"
| "controller B J owner (CallCommitWithDrain now timeout) = commit_with_drain B J owner now timeout"
| "controller B J owner (CallDrainOld now) = drain_old B J owner now"
| "controller B J owner (CallSetFailedPrefixes ps) = set_failed_prefixes B J owner ps"
| "controller B J owner CallRollback = rollback B J owner"
| "controller B J owner CallRenewLease = renew_lease J owner"
| "controller B J owner (CallUpdateMtu mtu) = update_mtu B J owner mtu"
| "controller B J owner CallSuspend = suspend B J owner"
| "controller B J owner (CallReconfigure d) = reconfigure B J owner d"
| "controller B J owner (CallUpdatePolicy d) = update_policy B J owner d"
| "controller B J owner CallResume = resume B J owner"

definition retained_owner :: "('b, 'j) transaction \<Rightarrow> lease_owner option" where
  "retained_owner t = map_option tx_owner (tx_record t)"

end
