(* ===== verification/Netd_Transaction_Laws.thy ===== *)
theory Netd_Transaction_Laws
  imports Netd_Transaction
begin

text \<open>
  What the network transaction guarantees: fencing of foreign processes, the record invariant on
  every path, agreement of memory and journal after every successful operation, and the functional
  behaviour of the operations. The proofs run on two small calculi: \<open>ends\<close> tracks the in-memory
  record through every outcome, and \<open>settles\<close> tracks agreement with the journal on success.
\<close>

section \<open>Tracking the record\<close>

definition ends ::
    "transaction_record option \<Rightarrow> ('b, 'j, 'a) tx_action \<Rightarrow>
     (network_error + 'a \<Rightarrow> transaction_record option \<Rightarrow> bool) \<Rightarrow> bool" where
  "ends x m Q \<longleftrightarrow> (\<forall>t. tx_record t = x \<longrightarrow> (case m t of (r, t') \<Rightarrow> Q r (tx_record t')))"

lemma endsD: "ends x m Q \<Longrightarrow> tx_record t = x \<Longrightarrow> m t = (r, t') \<Longrightarrow> Q r (tx_record t')"
  by (auto simp: ends_def)

lemma ends_mono: "ends x m Q \<Longrightarrow> (\<And>r y. Q r y \<Longrightarrow> Q' r y) \<Longrightarrow> ends x m Q'"
  by (fastforce simp: ends_def)

text \<open>The continuation of a bind: an error stops, a value goes on from the record reached.\<close>

definition continues ::
    "(network_error + 'b \<Rightarrow> transaction_record option \<Rightarrow> bool) \<Rightarrow>
     ('a \<Rightarrow> transaction_record option \<Rightarrow> bool) \<Rightarrow>
     network_error + 'a \<Rightarrow> transaction_record option \<Rightarrow> bool" where
  "continues Q k r y = (case r of Inl e \<Rightarrow> Q (Inl e) y | Inr v \<Rightarrow> k v y)"

lemma continues_simps [simp]:
  "continues Q k (Inl e) = Q (Inl e)" "continues Q k (Inr v) = k v"
  by (simp_all add: continues_def fun_eq_iff)

lemma ends_bind:
  "ends x m (continues Q (\<lambda>v y. ends y (f v) Q)) \<Longrightarrow> ends x (bind m f) Q"
  unfolding ends_def bind_def continues_def by (fastforce split: prod.splits sum.splits)

lemma ends_andthen:
  "ends x m (continues Q (\<lambda>_ y. ends y k Q)) \<Longrightarrow> ends x (andthen m k) Q"
  unfolding andthen_def by (rule ends_bind)

lemma ends_unchanged:
  assumes "\<And>t. tx_record t = x \<Longrightarrow> m t = (r, t)"
  shows "ends x m Q \<longleftrightarrow> Q r x"
proof
  assume "ends x m Q"
  from endsD [OF this, of "\<lparr>backend = undefined, journal = undefined, tx_record = x\<rparr>"] assms
  show "Q r x" by force
qed (auto simp: ends_def assms)

lemma ends_return [simp]: "ends x (return v) Q \<longleftrightarrow> Q (Inr v) x"
  by (rule ends_unchanged) (simp add: return_def)

lemma ends_throw [simp]: "ends x (throw e) Q \<longleftrightarrow> Q (Inl e) x"
  by (rule ends_unchanged) (simp add: throw_def)

lemma ends_of_result [simp]: "ends x (of_result r) Q \<longleftrightarrow> Q r x"
  by (rule ends_unchanged) (simp add: of_result_def)

lemma ends_gets [simp]: "ends x (gets tx_record) Q \<longleftrightarrow> Q (Inr x) x"
  by (rule ends_unchanged) (simp add: gets_def)

lemma ends_get_record [simp]: "ends (Some r) get_record Q \<longleftrightarrow> Q (Inr r) (Some r)"
  by (rule ends_unchanged) (simp add: get_record_def)

lemma ends_get_record_None [simp]: "ends None get_record Q \<longleftrightarrow> Q (Inl NetInvalidTransition) None"
  by (rule ends_unchanged) (simp add: get_record_def)

lemma ends_on_backend: "(\<And>r. Q r x) \<Longrightarrow> ends x (on_backend m) Q"
  by (auto simp: ends_def on_backend_def split: prod.splits)

lemma ends_on_journal: "(\<And>r. Q r x) \<Longrightarrow> ends x (on_journal m) Q"
  by (auto simp: ends_def on_journal_def split: prod.splits)

lemma ends_set_record: "Q (Inr ()) y \<Longrightarrow> ends x (set_record y) Q"
  by (simp add: ends_def set_record_def modify_def)

lemma ends_at_stage:
  "ends x m (\<lambda>r y. Q (map_err (stage_error s) r) y) \<Longrightarrow> ends x (at_stage m s) Q"
  by (auto simp: ends_def at_stage_def map_error_def split: prod.splits)

lemma ends_attempt: "ends x m (\<lambda>r y. Q (Inr r) y) \<Longrightarrow> ends x (attempt m) Q"
  by (auto simp: ends_def attempt_def split: prod.splits)

lemma ends_save: "(\<And>r. Q r x) \<Longrightarrow> ends x (save J y) Q"
  unfolding save_def by (rule ends_on_journal)

lemma ends_update_and_save: "(\<And>r. Q r (Some (f y))) \<Longrightarrow> ends (Some y) (update_and_save J f) Q"
  unfolding update_and_save_def
  by (intro ends_bind, simp, intro ends_andthen ends_set_record, simp add: ends_save)

lemma ends_save_and_set:
  "Q (Inr ()) (Some r) \<Longrightarrow> (\<And>e. Q (Inl e) x) \<Longrightarrow> ends x (save_and_set J r) Q"
  unfolding save_and_set_def
  by (rule ends_andthen, rule ends_save) (simp add: continues_def ends_set_record split: sum.splits)

lemma ends_when: "(b \<Longrightarrow> ends x m Q) \<Longrightarrow> (\<not> b \<Longrightarrow> Q (Inr ()) x) \<Longrightarrow> ends x (when_true b m) Q"
  by (simp add: when_true_def)

lemma ends_if: "(b \<Longrightarrow> ends x m Q) \<Longrightarrow> (\<not> b \<Longrightarrow> ends x k Q) \<Longrightarrow> ends x (if b then m else k) Q"
  by simp

lemma ends_on_error:
  assumes "ends x m (\<lambda>r y. case r of Inr v \<Rightarrow> Q (Inr v) y
      | Inl e \<Rightarrow> ends y h (\<lambda>_ z. Q (Inl e) z))"
  shows "ends x (on_error m h) Q"
  unfolding on_error_def
  by (rule ends_bind, rule ends_attempt, rule ends_mono [OF assms])
    (auto split: sum.splits intro!: ends_andthen ends_attempt elim!: ends_mono)

lemma ends_on_error_first:
  assumes "ends x m (\<lambda>r y. case r of Inr v \<Rightarrow> Q (Inr v) y
      | Inl e \<Rightarrow> ends y h (\<lambda>r' z. Q (Inl (case r' of Inl e' \<Rightarrow> e' | Inr _ \<Rightarrow> e)) z))"
  shows "ends x (on_error_first m h) Q"
  unfolding on_error_first_def
  by (rule ends_bind, rule ends_attempt, rule ends_mono [OF assms])
    (auto split: sum.splits simp: continues_def intro!: ends_andthen elim!: ends_mono)

lemma ends_ignore: "ends x m (\<lambda>_ y. Q (Inr ()) y) \<Longrightarrow> ends x (ignore m) Q"
  unfolding ignore_def
  by (rule ends_andthen, rule ends_attempt) (auto elim!: ends_mono)

lemma ends_try_step:
  "ends x m (\<lambda>r y. Q (Inr (get_or_insert first r)) y) \<Longrightarrow> ends x (try_step first m) Q"
  unfolding try_step_def
  by (rule ends_bind, rule ends_attempt) (auto elim!: ends_mono)

lemma ends_result_of [simp]:
  "ends x (result_of first) Q \<longleftrightarrow> Q (case first of None \<Rightarrow> Inr () | Some e \<Rightarrow> Inl e) x"
  by (simp add: result_of_def split: option.splits)

lemmas ends_step = ends_bind ends_andthen ends_set_record ends_on_backend ends_on_journal ends_at_stage ends_save
  ends_update_and_save ends_save_and_set ends_when ends_on_error ends_on_error_first ends_ignore
  ends_try_step

section \<open>Invariants of the record\<close>

text \<open>An action keeps a predicate on the record when no outcome of it leaves the predicate.\<close>

definition keeps :: "(transaction_record option \<Rightarrow> bool) \<Rightarrow> ('b, 'j, 'a) tx_action \<Rightarrow> bool" where
  "keeps P m \<longleftrightarrow> (\<forall>x. P x \<longrightarrow> ends x m (\<lambda>_. P))"

lemma keepsD: "keeps P m \<Longrightarrow> P x \<Longrightarrow> ends x m (\<lambda>_. P)"
  by (simp add: keeps_def)

lemma keepsI: "(\<And>x. P x \<Longrightarrow> ends x m (\<lambda>_. P)) \<Longrightarrow> keeps P m"
  by (simp add: keeps_def)

lemma keeps_bind [intro]:
  assumes "keeps P m" and "\<And>v. keeps P (f v)"
  shows "keeps P (bind m f)"
proof (rule keepsI)
  fix x assume "P x"
  from keepsD [OF assms(1) this] show "ends x (bind m f) (\<lambda>_. P)"
    by (rule ends_bind [OF ends_mono]) (auto simp: continues_def keepsD [OF assms(2)] split: sum.splits)
qed

lemma keeps_andthen [intro]: "keeps P m \<Longrightarrow> keeps P k \<Longrightarrow> keeps P (andthen m k)"
  unfolding andthen_def by blast

lemma keeps_simple [simp]:
  "keeps P (return v)" "keeps P (throw e)" "keeps P (of_result r)" "keeps P (gets tx_record)"
  "keeps P (on_backend b)" "keeps P (on_journal j)" "keeps P (result_of first)"
  by (auto simp: keeps_def intro: ends_on_backend ends_on_journal)

lemma keeps_get_record [simp]: "keeps P get_record"
proof (rule keepsI)
  fix x assume "P x"
  then show "ends x get_record (\<lambda>_. P)" by (cases x) simp_all
qed

lemma keeps_try_step [intro]: "keeps P m \<Longrightarrow> keeps P (try_step e m)"
  by (simp add: keeps_def ends_try_step)

lemma keeps_set_record: "P y \<Longrightarrow> keeps P (set_record y)"
  by (simp add: keeps_def ends_set_record)

lemma keeps_update_and_save:
  assumes "\<And>r. P (Some r) \<Longrightarrow> P (Some (f r))"
  shows "keeps P (update_and_save J f)"
proof (rule keepsI)
  fix x assume "P x"
  then show "ends x (update_and_save J f) (\<lambda>_. P)"
  proof (cases x)
    case None
    with \<open>P x\<close> show ?thesis unfolding update_and_save_def by (auto intro: ends_bind)
  next
    case (Some r)
    with \<open>P x\<close> assms show ?thesis by (auto intro: ends_update_and_save)
  qed
qed

subsection \<open>Cleanup\<close>

text \<open>What cleanup can leave: nothing, or the record on its way back, with fewer steps.\<close>

definition rolled_back :: "transaction_record \<Rightarrow> transaction_record \<Rightarrow> bool" where
  "rolled_back r r' \<longleftrightarrow>
     tx_owner r' = tx_owner r \<and> tx_declaration r' = tx_declaration r
     \<and> sysctls r' = sysctls r \<and> failed_prefixes r' = failed_prefixes r
     \<and> tx_phase r' = TxRollingBack
     \<and> completed_steps r' AND NOT (completed_steps r) = 0
     \<and> (recovery_candidate r' = recovery_candidate r
          \<and> recovery_candidate_owner r' = recovery_candidate_owner r
        \<or> recovery_candidate r' = None \<and> recovery_candidate_owner r' = None)"

definition rolling_back :: "transaction_record \<Rightarrow> transaction_record option \<Rightarrow> bool" where
  "rolling_back r y \<longleftrightarrow> (case y of None \<Rightarrow> True | Some r' \<Rightarrow> rolled_back r r')"

lemma rolling_back_simps [simp]:
  "rolling_back r None" "rolling_back r (Some r') = rolled_back r r'"
  by (simp_all add: rolling_back_def)

lemma rolled_back_clear_step:
  assumes "rolled_back r r'"
  shows "rolled_back r (r'\<lparr>completed_steps := completed_steps r' AND NOT step\<rparr>)"
proof -
  have "(completed_steps r' AND NOT step) AND NOT (completed_steps r) =
      (completed_steps r' AND NOT (completed_steps r)) AND NOT step"
    by (rule bit_eqI) (auto simp: bit_simps)
  with assms show ?thesis by (simp add: rolled_back_def)
qed

lemma keeps_clear_step: "keeps (rolling_back r) (clear_step J step)"
  unfolding clear_step_def by (rule keeps_update_and_save) (simp add: rolled_back_clear_step)

lemma keeps_cleanup_step: "keeps (rolling_back r) (cleanup_step J needed m step e)"
  by (auto simp: cleanup_step_def intro!: keeps_try_step keeps_andthen keeps_clear_step)

lemma keeps_cleanup_candidate: "keeps (rolling_back r) (cleanup_candidate B J r0)"
  by (auto simp: cleanup_candidate_def rolled_back_def split: option.split
      intro!: keeps_bind keeps_try_step keeps_update_and_save)

lemma keeps_cleanup_finish: "keeps (rolling_back r) (cleanup_finish J e)"
  by (auto simp: cleanup_finish_def intro!: keeps_bind keeps_try_step keeps_andthen keeps_set_record)

lemma ends_cleanup_record: "ends (Some r) (cleanup_record B J) (\<lambda>_. rolling_back r)"
proof -
  have start: "rolling_back r (Some (r\<lparr>tx_phase := TxRollingBack\<rparr>))"
    by (simp add: rolled_back_def)
  have step: "ends (Some r) (andthen (set_phase J TxRollingBack) k) (\<lambda>_. rolling_back r)"
    if "keeps (rolling_back r) k" for k :: "('a, 'b, unit) tx_action"
    using start keepsD [OF that start] unfolding set_phase_def
    by (intro ends_andthen ends_update_and_save) (auto simp: continues_def split: sum.splits)
  show ?thesis
    unfolding cleanup_record_def Let_def
    by (rule step)
      (intro keeps_bind keeps_get_record keeps_cleanup_candidate keeps_cleanup_step
        keeps_cleanup_finish keeps_simple)
qed

subsection \<open>The record invariant\<close>

text \<open>
  The shape of a record on every path, failed operations included: known step bits, a candidate
  only in the phases that can recover it, a candidate's owner only beside a candidate and in the
  same process, a candidate whenever it drains, and validated declarations.
\<close>

definition record_inv :: "transaction_record \<Rightarrow> bool" where
  "record_inv r \<longleftrightarrow>
     completed_steps r AND NOT 0x3f = 0
     \<and> (recovery_candidate_owner r \<noteq> None \<longrightarrow> recovery_candidate r \<noteq> None)
     \<and> (recovery_candidate r \<noteq> None \<longrightarrow> candidate_phase (tx_phase r))
     \<and> (tx_phase r = TxDraining \<longrightarrow> recovery_candidate r \<noteq> None)
     \<and> pred_option (\<lambda>co. same_process co (tx_owner r)) (recovery_candidate_owner r)
     \<and> valid_declaration (tx_declaration r)
     \<and> pred_option valid_declaration (recovery_candidate r)"

text \<open>The record stays well formed and with the process that owned it.\<close>

definition kept :: "transaction_record \<Rightarrow> transaction_record option \<Rightarrow> bool" where
  "kept r y \<longleftrightarrow>
     (case y of None \<Rightarrow> True | Some r' \<Rightarrow> record_inv r' \<and> same_process (tx_owner r) (tx_owner r'))"

lemma kept_simps [simp]:
  "kept r None" "kept r (Some r') \<longleftrightarrow> record_inv r' \<and> same_process (tx_owner r) (tx_owner r')"
  by (simp_all add: kept_def)

lemma same_process_refl [simp]: "same_process a a"
  by (simp add: same_process_def)

lemma and_not_zero_iff: "v AND NOT w = 0 \<longleftrightarrow> (\<forall>n. bit v n \<longrightarrow> bit w n)" for v w :: u16
proof -
  have "bit v n \<Longrightarrow> n < 16" for n using bit_imp_le_length [of v n] by simp
  then show ?thesis by (auto simp: bit_eq_iff bit_simps)
qed

lemma mask_subset:
  "v AND NOT w = 0 \<Longrightarrow> w AND NOT m = 0 \<Longrightarrow> v AND NOT m = (0 :: u16)"
  unfolding and_not_zero_iff by blast

lemma rolling_back_kept:
  assumes "record_inv r" and "rolling_back r y"
  shows "kept r y"
proof (cases y)
  case (Some r')
  with assms(2) have rb: "rolled_back r r'" by simp
  have "completed_steps r' AND NOT 0x3f = 0"
    by (rule mask_subset [of _ "completed_steps r"])
      (use assms(1) rb in \<open>simp_all only: record_inv_def rolled_back_def\<close>)
  with assms(1) rb Some show ?thesis
    by (auto simp: record_inv_def rolled_back_def candidate_phase_def)
qed simp

lemma ends_cleanup_kept: "record_inv r \<Longrightarrow> ends (Some r) (cleanup_record B J) (\<lambda>_. kept r)"
  by (rule ends_mono [OF ends_cleanup_record]) (rule rolling_back_kept)

lemma owner_checks:
  "ensure_owner a b = Inr u \<longleftrightarrow> same_process a b \<and> generation a = generation b"
  "ensure_reconfigure_owner a b = Inr u \<longleftrightarrow> same_process a b"
  "ensure_owner a b = Inl e \<longleftrightarrow> \<not> (same_process a b \<and> generation a = generation b) \<and> e = Conflict"
  "ensure_reconfigure_owner a b = Inl e \<longleftrightarrow> \<not> same_process a b \<and> e = Conflict"
  by (auto simp: ensure_owner_def ensure_reconfigure_owner_def same_process_def)

lemma candidate_owner_check:
  "ensure_candidate_owner r b = Inr u \<Longrightarrow> same_process (tx_owner r) b"
  by (auto simp: ensure_candidate_owner_def owner_checks split: if_splits)

declare ok_or_eq [simp]

lemma check_declaration_Inr: "check_declaration d = Inr u \<longleftrightarrow> valid_declaration d"
  by (simp add: check_declaration_def valid_declaration_def)

text \<open>A guard that does not touch the record: the rest runs only when it passed.\<close>

lemma ends_guard:
  "(\<And>e. g = Inl e \<Longrightarrow> Q (Inl e) x) \<Longrightarrow> (\<And>u. g = Inr u \<Longrightarrow> ends x k Q) \<Longrightarrow>
   ends x (andthen (of_result g) k) Q"
  by (rule ends_andthen) (cases g; simp)

lemma ends_get_bind:
  "ends (Some r) (f r) Q \<Longrightarrow> ends (Some r) (bind get_record f) Q"
  by (rule ends_bind) simp

lemma ends_backend_then:
  "(\<And>e. Q (Inl e) x) \<Longrightarrow> ends x k Q \<Longrightarrow> ends x (andthen (on_backend b) k) Q"
  by (rule ends_andthen, rule ends_on_backend) (simp add: continues_def split: sum.splits)

lemma ends_staged_then:
  "(\<And>e. Q (Inl e) x) \<Longrightarrow> ends x k Q \<Longrightarrow> ends x (andthen (at_stage (on_backend b) s) k) Q"
  by (rule ends_andthen, rule ends_at_stage, rule ends_on_backend)
    (simp add: continues_def split: sum.splits)

lemma ends_update_then:
  "(\<And>e. Q (Inl e) (Some (f r))) \<Longrightarrow> ends (Some (f r)) k Q \<Longrightarrow>
   ends (Some r) (andthen (update_and_save J f) k) Q"
  by (rule ends_andthen, rule ends_update_and_save) (simp add: continues_def split: sum.splits)

lemma ends_when_backend_then:
  "(\<And>e. Q (Inl e) x) \<Longrightarrow> ends x k Q \<Longrightarrow> ends x (andthen (when_true b (on_backend m)) k) Q"
  by (cases b) (simp_all add: when_true_def ends_backend_then, simp add: andthen_def bind_def ends_def return_def)

lemma ends_case_sum:
  "(\<And>e. Q (Inl e) x) \<Longrightarrow> (\<And>v. Q (Inr v) x) \<Longrightarrow> Q r x"
  by (cases r) auto

lemma ends_try_then:
  "(\<And>e. ends x (f e) Q) \<Longrightarrow> ends x (bind (try_step e0 (on_backend b)) f) Q"
  by (rule ends_bind, rule ends_try_step, rule ends_on_backend) simp

lemma ends_ignore_then:
  "ends x k Q \<Longrightarrow> ends x (andthen (ignore (on_backend b)) k) Q"
  by (rule ends_andthen, rule ends_ignore, rule ends_on_backend) simp

lemmas ends_chain = ends_guard ends_get_bind ends_backend_then ends_staged_then ends_update_then
  ends_when_backend_then ends_try_then ends_ignore_then ends_update_and_save ends_save_and_set
  ends_on_backend

subsection \<open>Every operation keeps the record\<close>

lemma record_inv_facts:
  assumes "record_inv r"
  shows "recovery_candidate r = None \<Longrightarrow> recovery_candidate_owner r = None"
    "tx_phase r \<in> {TxActive, TxSuspended} \<Longrightarrow> recovery_candidate r = None"
    "recovery_candidate_owner r = Some co \<Longrightarrow> same_process co (tx_owner r)"
  using assms by (auto simp: record_inv_def candidate_phase_def)

lemma same_process_sym: "same_process a b \<longleftrightarrow> same_process b a"
  by (auto simp: same_process_def)

lemma same_process_lease [simp]:
  "same_process a (b\<lparr>lease_deadline_mono_ms := d\<rparr>) = same_process a b"
  by (simp add: same_process_def)

lemma record_inv_discard: "record_inv r \<Longrightarrow> record_inv (discard_candidate r)"
  by (auto simp: record_inv_def discard_candidate_def)

lemma discard_candidate_owner [simp]: "tx_owner (discard_candidate r) = tx_owner r"
  by (simp add: discard_candidate_def)

lemma record_inv_steps:
  assumes "record_inv r" and "step AND NOT 0x3f = 0"
  shows "record_inv (r\<lparr>completed_steps := completed_steps r OR step\<rparr>)"
    "record_inv (r\<lparr>completed_steps := completed_steps r AND NOT step'\<rparr>)"
proof -
  have "(completed_steps r OR step) AND NOT 0x3f = 0"
    using assms by (simp only: record_inv_def bit.conj_disj_distrib2) simp
  then show "record_inv (r\<lparr>completed_steps := completed_steps r OR step\<rparr>)"
    using assms(1) by (simp add: record_inv_def)
  have "(completed_steps r AND NOT step') AND NOT 0x3f = 0"
    using assms(1) unfolding record_inv_def and_not_zero_iff by (auto simp: bit_simps)
  then show "record_inv (r\<lparr>completed_steps := completed_steps r AND NOT step'\<rparr>)"
    using assms(1) by (simp add: record_inv_def)
qed

lemma step_masks:
  "STEP_LINK AND NOT 0x3f = 0" "STEP_ROUTES AND NOT 0x3f = 0" "STEP_FIREWALL AND NOT 0x3f = 0"
  "STEP_SYSCTLS AND NOT 0x3f = 0" "STEP_LINK_ACTIVE AND NOT 0x3f = 0"
  "STEP_POLICY_RULE AND NOT 0x3f = 0"
  by (simp_all add: step_defs)

lemma record_inv_phase:
  assumes "record_inv r" and "recovery_candidate r = None" and "p \<noteq> TxDraining"
  shows "record_inv (r\<lparr>tx_phase := p\<rparr>)"
  using assms by (auto simp: record_inv_def)

lemma record_inv_new: "valid_declaration d \<Longrightarrow> record_inv (new_record owner d)"
  by (simp add: record_inv_def new_record_def)

lemma kept_mono: "kept r y \<Longrightarrow> same_process (tx_owner r0) (tx_owner r) \<Longrightarrow> kept r0 y"
  by (auto simp: kept_def same_process_def split: option.splits)

lemma ends_prepare_steps:
  assumes "record_inv r" and "recovery_candidate r = None"
  shows "ends (Some r) (prepare_steps B J)
    (\<lambda>_ y. \<exists>r'. y = Some r' \<and> record_inv r' \<and> tx_owner r' = tx_owner r)"
proof -
  let ?good = "\<lambda>r'. record_inv r' \<and> tx_owner r' = tx_owner r \<and> recovery_candidate r' = None"
  let ?Q = "\<lambda>_ y. \<exists>r'. y = Some r' \<and> record_inv r' \<and> tx_owner r' = tx_owner r"
  have step: "ends (Some r1) (andthen (complete_step J step) k) ?Q"
    if "?good r1" "step AND NOT 0x3f = 0" "\<And>r2. ?good r2 \<Longrightarrow> ends (Some r2) k ?Q"
    for r1 step and k :: "('a, 'b, unit) tx_action"
    unfolding complete_step_def
    using that record_inv_steps(1) [of r1 step] by (intro ends_update_then) auto
  have call: "ends (Some r1) (andthen (at_stage (on_backend m) s) k) ?Q"
    if "?good r1" "ends (Some r1) k ?Q" for r1 m s and k :: "('a, 'b, unit) tx_action"
    using that by (intro ends_staged_then) auto
  have sys: "?good (r\<lparr>sysctls := changes\<rparr>)" for changes
    using assms by (auto simp: record_inv_def)
  have last: "ends (Some r1) (set_phase J TxPrepared) ?Q" if "?good r1" for r1
    unfolding set_phase_def using that record_inv_phase [of r1] by (intro ends_update_and_save) auto
  show ?thesis
    unfolding prepare_steps_def Let_def
    apply (rule ends_get_bind)
    apply (rule ends_bind, rule ends_at_stage, rule ends_on_backend)
    apply (subst continues_def)
    apply (split sum.split, intro conjI allI impI)
    subgoal using assms by auto
    apply (rule ends_update_then)
    subgoal using sys by auto
    apply (rule step [OF sys step_masks(4)])
    apply (rule ends_get_bind)
    apply (rule call, assumption, rule step, assumption, rule step_masks)+
    apply (rule call, assumption)
    apply (erule last)
    done
qed

lemma kept_prepare:
  assumes "record_inv r"
  shows "ends (Some r) (prepare B J owner d) (\<lambda>_. kept r)"
  unfolding prepare_def
  by (rule ends_bind) (use assms in \<open>auto intro!: ends_guard\<close>)

lemma prepare_from_None:
  "ends None (prepare B J owner d) (\<lambda>_. kept (new_record owner d))"
proof -
  let ?r = "new_record owner d"
  have steps: "ends (Some ?r) (on_error (prepare_steps B J) (cleanup_record B J)) (\<lambda>_. kept ?r)"
    if valid: "valid_declaration d"
  proof (rule ends_on_error, rule ends_mono [OF ends_prepare_steps])
    show "record_inv ?r" using valid by (rule record_inv_new)
    fix res :: "network_error + unit" and y
    assume "\<exists>r'. y = Some r' \<and> record_inv r' \<and> tx_owner r' = tx_owner ?r"
    then obtain r' where r': "y = Some r'" "record_inv r'" "tx_owner r' = tx_owner ?r" by blast
    have "ends (Some r') (cleanup_record B J) (\<lambda>_. kept ?r)"
      by (rule ends_mono [OF ends_cleanup_kept [OF r'(2)]]) (erule kept_mono, simp add: r'(3))
    with r' show "case res of Inl e \<Rightarrow> ends y (cleanup_record B J) (\<lambda>_. kept ?r)
        | Inr v \<Rightarrow> kept ?r y"
      by (simp split: sum.split)
  qed (simp add: new_record_def)
  show ?thesis
    unfolding prepare_def
  proof (rule ends_bind, simp, rule ends_guard)
    fix u assume "check_declaration d = Inr u"
    then have "valid_declaration d" by (simp add: check_declaration_Inr)
    from steps [OF this]
    show "ends None (andthen (save_and_set J ?r)
        (on_error (prepare_steps B J) (cleanup_record B J))) (\<lambda>_. kept ?r)"
      by (intro ends_andthen ends_save_and_set) simp_all
  qed simp
qed

lemma kept_commit_replacement:
  assumes inv: "record_inv r" and cand: "recovery_candidate r = Some candidate"
  shows "ends (Some r) (commit_replacement B J candidate now timeout) (\<lambda>_. kept r)"
proof -
  let ?dr = "r\<lparr>tx_phase := TxDraining, drain_deadline_mono_ms := saturating_add now timeout\<rparr>"
  have dr: "record_inv ?dr" using inv cand by (auto simp: record_inv_def candidate_phase_def)
  show ?thesis
    unfolding commit_replacement_def
    by (rule ends_on_error)
      (use inv dr record_inv_discard [OF inv] record_inv_discard [OF dr] in
        \<open>auto intro!: ends_chain split: sum.split\<close>)
qed

lemma kept_commit_prepared:
  assumes inv: "record_inv r" and cand: "recovery_candidate r = None"
  shows "ends (Some r) (commit_prepared B J d) (\<lambda>_. kept r)"
proof -
  let ?s = "r\<lparr>completed_steps := completed_steps r OR STEP_POLICY_RULE\<rparr>"
  let ?a = "?s\<lparr>tx_phase := TxActive\<rparr>"
  have s: "record_inv ?s" using record_inv_steps(1) [OF inv step_masks(6)] .
  have a: "record_inv ?a" using record_inv_phase [OF s] cand by simp
  have undo: "ends (Some r') (cleanup_record B J) (\<lambda>_. kept r)" if "r' \<in> {r, ?s, ?a}" for r'
  proof -
    have "record_inv r'" "tx_owner r' = tx_owner r" using that inv s a by auto
    then show ?thesis
      by (intro ends_mono [OF ends_cleanup_kept]) (auto elim: kept_mono)
  qed
  show ?thesis
    unfolding commit_prepared_def complete_step_def set_phase_def
    by (rule ends_on_error) (use undo a in \<open>auto intro!: ends_chain split: sum.split\<close>)
qed

lemma kept_commit_with_drain:
  assumes inv: "record_inv r"
  shows "ends (Some r) (commit_with_drain B J owner now timeout) (\<lambda>_. kept r)"
  unfolding commit_with_drain_def
  using inv
  by (intro ends_get_bind ends_guard)
    (auto split: option.split if_splits intro: kept_commit_replacement kept_commit_prepared)

lemma kept_drain_old:
  assumes inv: "record_inv r"
  shows "ends (Some r) (drain_old B J owner now) (\<lambda>_. kept r)"
proof -
  have "record_inv (r\<lparr>tx_owner := co, tx_declaration := candidate, recovery_candidate := None,
      recovery_candidate_owner := None, tx_phase := TxActive, drain_deadline_mono_ms := 0\<rparr>)"
    if "recovery_candidate r = Some candidate" for candidate co
    using inv that by (auto simp: record_inv_def)
  moreover have "same_process (tx_owner r)
      (case recovery_candidate_owner r of None \<Rightarrow> owner | Some co \<Rightarrow> co)"
    if "ensure_candidate_owner r owner = Inr u" for u
    using candidate_owner_check [OF that] record_inv_facts(3) [OF inv] same_process_sym
    by (auto split: option.splits)
  ultimately show ?thesis
    unfolding drain_old_def Let_def
    by (intro ends_get_bind ends_guard)
      (auto simp: inv continues_def intro!: ends_bind ends_chain split: option.split sum.split)
qed

lemma kept_discard_staged:
  assumes "record_inv r"
  shows "ends (Some r) (discard_staged B J candidate) (\<lambda>_. kept r)"
  unfolding discard_staged_def
  using assms record_inv_discard by (intro ends_chain) auto

lemma kept_rollback:
  assumes inv: "record_inv r"
  shows "ends (Some r) (rollback B J owner) (\<lambda>_. kept r)"
  unfolding rollback_def
  using inv record_inv_discard [OF inv] ends_cleanup_kept [OF inv, of B J]
  by (intro ends_get_bind ends_if ends_guard)
    (auto intro!: ends_bind ends_chain)

lemma kept_set_failed_prefixes:
  assumes inv: "record_inv r"
  shows "ends (Some r) (set_failed_prefixes B J owner ps) (\<lambda>_. kept r)"
proof -
  have "record_inv (r\<lparr>failed_prefixes := fs\<rparr>)" for fs using inv by (simp add: record_inv_def)
  then show ?thesis
    unfolding set_failed_prefixes_def Let_def
    using inv by (intro ends_get_bind ends_guard ends_if ends_chain) simp_all
qed

lemma kept_renew_lease:
  assumes inv: "record_inv r"
  shows "ends (Some r) (renew_lease J owner) (\<lambda>_. kept r)"
proof -
  have "record_inv (r\<lparr>tx_owner := (tx_owner r)\<lparr>lease_deadline_mono_ms := d\<rparr>\<rparr>)" for d
    using inv by (simp add: record_inv_def)
  then show ?thesis
    unfolding renew_lease_def using inv by (intro ends_chain) simp_all
qed

lemma kept_update_mtu:
  assumes inv: "record_inv r"
  shows "ends (Some r) (update_mtu B J owner mtu) (\<lambda>_. kept r)"
proof -
  have "record_inv (r\<lparr>tx_declaration := (tx_declaration r)\<lparr>effective_mtu := mtu\<rparr>\<rparr>)"
    if "576 \<le> mtu \<and> mtu \<le> 1400"
    using inv that valid_declaration_mtu [of "tx_declaration r" mtu] by (simp add: record_inv_def)
  then show ?thesis
    unfolding update_mtu_def Let_def using inv by (intro ends_if ends_chain) simp_all
qed

lemma kept_policy_step:
  assumes inv: "record_inv r" and cand: "recovery_candidate r = None" and "p \<noteq> TxDraining"
  defines "on \<equiv> r\<lparr>completed_steps := completed_steps r OR STEP_POLICY_RULE\<rparr>"
    and "off \<equiv> r\<lparr>completed_steps := completed_steps r AND NOT STEP_POLICY_RULE\<rparr>"
  shows "record_inv on" "record_inv off" "record_inv (on\<lparr>tx_phase := p\<rparr>)" "record_inv (off\<lparr>tx_phase := p\<rparr>)"
proof -
  show on: "record_inv on" and off: "record_inv off"
    unfolding on_def off_def by (rule record_inv_steps [OF inv step_masks(6)])+
  show "record_inv (on\<lparr>tx_phase := p\<rparr>)" "record_inv (off\<lparr>tx_phase := p\<rparr>)"
    using record_inv_phase [OF on _ assms(3)] record_inv_phase [OF off _ assms(3)] cand
    by (simp_all add: on_def off_def)
qed

lemma kept_suspend:
  assumes inv: "record_inv r"
  shows "ends (Some r) (suspend B J owner) (\<lambda>_. kept r)"
  unfolding suspend_def clear_step_def set_phase_def
  using inv kept_policy_step [OF inv record_inv_facts(2) [OF inv], of TxSuspended]
  by (intro ends_get_bind ends_guard ends_if ends_chain) simp_all

lemma kept_resume:
  assumes inv: "record_inv r"
  shows "ends (Some r) (resume B J owner) (\<lambda>_. kept r)"
  unfolding resume_def complete_step_def set_phase_def
  using inv kept_policy_step [OF inv record_inv_facts(2) [OF inv], of TxActive]
  by (intro ends_get_bind ends_guard ends_if ends_chain) simp_all

lemma kept_prepare_replacement:
  assumes inv: "record_inv r" and active: "tx_phase r = TxActive" and valid: "valid_declaration d"
  shows "ends (Some r) (prepare_replacement B J owner d) (\<lambda>_. kept r)"
proof -
  have none: "recovery_candidate r = None" using record_inv_facts(2) [OF inv] active by simp
  let ?st = "r\<lparr>recovery_candidate := Some d, recovery_candidate_owner := Some owner,
      tx_phase := TxPreparing, drain_deadline_mono_ms := 0\<rparr>"
  have st: "record_inv ?st" "record_inv (?st\<lparr>tx_phase := TxPrepared\<rparr>)"
      "record_inv (r\<lparr>tx_owner := owner\<rparr>)"
      "record_inv (?st\<lparr>recovery_candidate := None, recovery_candidate_owner := None,
         tx_phase := TxActive\<rparr>)"
    if "same_process (tx_owner r) owner"
    using inv valid none that record_inv_facts(1) [OF inv none]
    by (auto simp: record_inv_def candidate_phase_def same_process_def)
  have undo: "ends (Some ?st) (andthen (ignore (on_backend (remove_firewall B d)))
      (andthen (ignore (on_backend (remove_routes B d)))
      (update_and_save J (\<lambda>r. r\<lparr>recovery_candidate := None, recovery_candidate_owner := None,
         tx_phase := TxActive\<rparr>)))) (\<lambda>_. kept r)" if "same_process (tx_owner r) owner"
    using st(4) [OF that] by (intro ends_chain) simp_all
  have body: "ends (Some ?st) (andthen
      (on_error (andthen (of_result (check_declaration d)) (andthen (on_backend (preflight B d))
        (andthen (on_backend (prepare_link B d)) (andthen (on_backend (prepare_routes B d))
        (on_backend (prepare_firewall B d))))))
        (andthen (ignore (on_backend (remove_firewall B d)))
        (andthen (ignore (on_backend (remove_routes B d)))
        (update_and_save J (\<lambda>r. r\<lparr>recovery_candidate := None, recovery_candidate_owner := None,
           tx_phase := TxActive\<rparr>)))))
      (update_and_save J (\<lambda>r. r\<lparr>tx_phase := TxPrepared\<rparr>))) (\<lambda>_. kept r)"
    if "same_process (tx_owner r) owner"
  proof -
    have *: "ends (Some ?st) (update_and_save J (\<lambda>r. r\<lparr>tx_phase := TxPrepared\<rparr>)) (\<lambda>_. kept r)"
      using st(2) [OF that] that by (intro ends_update_and_save) simp_all
    show ?thesis
      by (rule ends_andthen, rule ends_on_error, intro ends_chain)
        (use undo [OF that] * in \<open>auto split: sum.split\<close>)
  qed
  show ?thesis
    unfolding prepare_replacement_def
    by (intro ends_get_bind ends_guard ends_if)
      (use inv none st body in \<open>auto simp: owner_checks intro!: ends_chain\<close>)
qed

lemma stage_in_place_inv:
  assumes inv: "record_inv r" and "same_process (tx_owner r) owner" and "valid_declaration d"
  shows "record_inv (r\<lparr>tx_phase := TxRollingBack, recovery_candidate := Some d,
    recovery_candidate_owner := Some owner\<rparr>)"
  using assms by (auto simp: record_inv_def candidate_phase_def same_process_def)

lemma ends_restore_suspended:
  assumes "kept r (Some prev)" and "kept r x"
  shows "ends x (restore_suspended_after_reconfigure B J prev d) (\<lambda>_. kept r)"
  unfolding restore_suspended_after_reconfigure_def Let_def
  by (intro ends_try_then ends_andthen)
    (use assms in \<open>auto intro!: ends_save_and_set split: option.split\<close>)

lemma ends_restore_policy:
  assumes "kept r (Some prev)" and "kept r x"
  shows "ends x (restore_policy_after_update B J prev d) (\<lambda>_. kept r)"
proof -
  have tail: "ends x (andthen (when_true b (on_backend m)) (andthen (result_of e) (save_and_set J prev)))
      (\<lambda>_. kept r)" for b m e
    by (intro ends_when_backend_then ends_andthen)
      (use assms in \<open>auto intro!: ends_save_and_set split: option.split\<close>)
  have step: "ends x (bind (if b then try_step e (on_backend m) else return e) f) (\<lambda>_. kept r)"
    if "\<And>e. ends x (f e) (\<lambda>_. kept r)" for b e m and f :: "network_error option \<Rightarrow> ('a, 'b, unit) tx_action"
    using that by (cases b) (auto intro: ends_try_then ends_bind)
  show ?thesis
    unfolding restore_policy_after_update_def Let_def by (intro step tail)
qed

text \<open>
  The shared tail of the two in-place updates: a step that restores on failure, then a store that
  restores on failure, then the new record.
\<close>

lemma ends_guarded_update:
  assumes m: "ends x m (\<lambda>_. (=) x)" and x: "kept r x" and new: "kept r (Some r')"
    and restore: "ends x h (\<lambda>_. kept r)"
  shows "ends x (andthen (on_error_first m h)
    (andthen (on_error_first (save J r') h) (set_record (Some r')))) (\<lambda>_. kept r)"
  by (rule ends_andthen, rule ends_on_error_first, rule ends_mono [OF m])
    (use x new restore in \<open>auto split: sum.split
      intro!: ends_andthen ends_on_error_first ends_save ends_set_record\<close>)

lemma kept_reconfigure_suspended:
  assumes inv: "record_inv r" and susp: "tx_phase r = TxSuspended" and valid: "valid_declaration d"
    and same: "same_process (tx_owner r) owner"
  shows "ends (Some r) (reconfigure_suspended B J owner d r) (\<lambda>_. kept r)"
proof -
  have none: "recovery_candidate r = None" "recovery_candidate_owner r = None"
    using record_inv_facts(1,2) [OF inv] susp by auto
  note st = stage_in_place_inv [OF inv same valid]
  let ?st = "r\<lparr>tx_phase := TxRollingBack, recovery_candidate := Some d,
      recovery_candidate_owner := Some owner\<rparr>"
  let ?new = "r\<lparr>tx_owner := owner, tx_declaration := d, failed_prefixes := [],
      drain_deadline_mono_ms := 0\<rparr>"
  have recs: "kept r (Some (r\<lparr>tx_owner := owner\<rparr>))" "kept r (Some ?new)" "kept r (Some ?st)"
    using inv same valid none st by (auto simp: record_inv_def)
  have upd: "ends (Some ?st) (andthen
      (on_error_first
        (andthen (on_backend (remove_firewall B (tx_declaration r)))
        (andthen (on_backend (remove_routes B (tx_declaration r)))
        (andthen (on_backend (prepare_link B d))
        (andthen (on_backend (prepare_routes B d)) (on_backend (prepare_firewall B d))))))
        (restore_suspended_after_reconfigure B J r d))
      (andthen (on_error_first (save J ?new) (restore_suspended_after_reconfigure B J r d))
        (set_record (Some ?new)))) (\<lambda>_. kept r)"
    by (intro ends_guarded_update ends_restore_suspended ends_chain) (use recs inv in auto)
  show ?thesis
    unfolding reconfigure_suspended_def Let_def stage_in_place_def
    by (intro ends_if ends_update_then ends_save_and_set) (use recs upd inv in auto)
qed

lemma kept_reconfigure:
  assumes inv: "record_inv r"
  shows "ends (Some r) (reconfigure B J owner d) (\<lambda>_. kept r)"
  unfolding reconfigure_def
  by (intro ends_guard ends_get_bind ends_if)
    (use inv kept_prepare_replacement [OF inv] kept_reconfigure_suspended [OF inv] in
      \<open>auto simp: check_declaration_Inr owner_checks\<close>)

lemma kept_apply_policy:
  assumes inv: "record_inv r" and cand: "recovery_candidate r = None" and valid: "valid_declaration d"
    and same: "same_process (tx_owner r) owner"
  shows "ends (Some r) (apply_policy B J owner d r) (\<lambda>_. kept r)"
proof -
  let ?st = "r\<lparr>tx_phase := TxRollingBack, recovery_candidate := Some d,
      recovery_candidate_owner := Some owner\<rparr>"
  have recs: "kept r (Some ?st)" "kept r (Some (r\<lparr>tx_declaration := d, failed_prefixes := ps,
      recovery_candidate := None, recovery_candidate_owner := None\<rparr>))" for ps
    using stage_in_place_inv [OF inv same valid] inv valid cand by (auto simp: record_inv_def)
  have calls: "ends x (andthen (when_true a (on_backend m1)) (andthen (when_true b (on_backend m2))
      (when_true c (on_backend m3)))) (\<lambda>_. (=) x)" for x a b c and m1 m2 m3 :: "('a, unit) net_action"
    by (intro ends_when_backend_then ends_when ends_on_backend) auto
  show ?thesis
    unfolding apply_policy_def Let_def stage_in_place_def
    by (intro ends_update_then ends_guarded_update calls ends_restore_policy)
      (use recs inv in auto)
qed

lemma kept_update_policy:
  assumes inv: "record_inv r"
  shows "ends (Some r) (update_policy B J owner d) (\<lambda>_. kept r)"
  unfolding update_policy_def
  by (intro ends_guard ends_get_bind ends_if ends_when ends_on_backend)
    (use inv kept_apply_policy [OF inv] in \<open>auto simp: check_declaration_Inr owner_checks\<close>)

lemma kept_recover_policy_update:
  assumes inv: "record_inv r"
  shows "ends (Some r) (recover_policy_update B J) (\<lambda>_. kept r)"
proof -
  have rec: "kept r (Some (r\<lparr>recovery_candidate := None, recovery_candidate_owner := None,
      tx_phase := (if b then TxActive else TxSuspended)\<rparr>))" for b
    using inv by (auto simp: record_inv_def)
  have tail: "ends (Some r) (andthen (when_true a (on_backend m1)) (andthen (when_true b (on_backend m2))
      (andthen (when_true c (on_backend m3)) (andthen (save_and_set J
        (r\<lparr>recovery_candidate := None, recovery_candidate_owner := None,
           tx_phase := (if c then TxActive else TxSuspended)\<rparr>)) (return True))))) (\<lambda>_. kept r)"
    for a b c and m1 m2 m3 :: "('a, unit) net_action"
    using rec [of c] inv
    by (intro ends_when_backend_then) (auto intro!: ends_andthen ends_save_and_set)
  show ?thesis
    unfolding recover_policy_update_def Let_def
  proof (rule ends_get_bind, rule ends_bind, cases "recovery_candidate r", goal_cases)
    case 1
    with inv show ?case by simp
  next
    case (2 candidate)
    show ?case unfolding 2 ok_or_simps ends_of_result continues_simps by (rule tail)
  qed
qed

lemma ends_then_return:
  "ends x m (\<lambda>_. P) \<Longrightarrow> ends x (andthen m (return v)) (\<lambda>_. P)"
  by (rule ends_andthen) (auto elim!: ends_mono simp: continues_def split: sum.splits)

lemma kept_recover_orphan:
  assumes inv: "record_inv r"
  shows "ends (Some r) (recover_orphan B J alive now) (\<lambda>_. kept r)"
  unfolding recover_orphan_def
  by (rule ends_bind)
    (auto split: option.split intro!: kept_recover_policy_update kept_discard_staged ends_then_return
      kept_drain_old ends_cleanup_kept inv simp: inv)

lemma kept_controller:
  assumes inv: "record_inv r"
  shows "ends (Some r) (controller B J owner call) (\<lambda>_. kept r)"
  by (cases call) (simp_all add: commit_def inv kept_prepare kept_commit_with_drain kept_drain_old
      kept_set_failed_prefixes kept_rollback kept_renew_lease kept_update_mtu kept_suspend
      kept_reconfigure kept_update_policy kept_resume)

section \<open>Fencing\<close>

lemma foreign_unchanged:
  assumes r: "tx_record t = Some r" and foreign: "\<not> same_process (tx_owner r) owner"
  shows "\<exists>e. controller B J owner call t = (Inl e, t)"
proof -
  have deny: "ensure_owner (tx_owner r) owner = Inl Conflict"
      "ensure_reconfigure_owner (tx_owner r) owner = Inl Conflict"
      "ensure_candidate_owner r owner = Inl Conflict"
    using foreign by (auto simp: owner_checks ensure_candidate_owner_def)
  have decl: "check_declaration d = Inr () \<or> (\<exists>e. check_declaration d = Inl e)" for d
    by (cases "check_declaration d") auto
  show ?thesis
    by (cases call; insert decl)
      (auto simp: deny r action_defs get_record_def commit_def prepare_def commit_with_drain_def
        drain_old_def set_failed_prefixes_def rollback_def renew_lease_def update_mtu_def suspend_def
        reconfigure_def update_policy_def resume_def split: sum.split)
qed

section \<open>Memory and journal in step\<close>

definition stored ::
    "(transaction_record \<Rightarrow> network_error + transaction_record) \<Rightarrow> transaction_record option \<Rightarrow>
     network_error + transaction_record option" where
  "stored reload x =
     (case x of None \<Rightarrow> Inr None | Some r \<Rightarrow> rbind (reload r) (\<lambda>r. Inr (Some r)))"

definition in_step ::
    "('j \<Rightarrow> network_error + transaction_record option) \<Rightarrow>
     (transaction_record \<Rightarrow> network_error + transaction_record) \<Rightarrow> ('b, 'j) transaction \<Rightarrow> bool" where
  "in_step durable reload t \<longleftrightarrow> durable (journal t) = stored reload (tx_record t)"

definition settles ::
    "('j \<Rightarrow> network_error + transaction_record option) \<Rightarrow>
     (transaction_record \<Rightarrow> network_error + transaction_record) \<Rightarrow> ('b, 'j, 'a) tx_action \<Rightarrow> bool" where
  "settles durable reload m \<longleftrightarrow>
     hoare (in_step durable reload) m (\<lambda>_. in_step durable reload) (\<lambda>_ _. True)"

lemma settlesD:
  "settles durable reload m \<Longrightarrow> in_step durable reload t \<Longrightarrow> m t = (Inr x, t') \<Longrightarrow>
   in_step durable reload t'"
  unfolding settles_def by (rule hoare_Inr)

lemma settles_bind:
  "settles durable reload m \<Longrightarrow> (\<And>x. settles durable reload (f x)) \<Longrightarrow>
   settles durable reload (bind m f)"
  unfolding settles_def by (rule hoare_bind)

lemma settles_andthen:
  "settles durable reload m \<Longrightarrow> settles durable reload k \<Longrightarrow> settles durable reload (andthen m k)"
  unfolding settles_def by (rule hoare_andthen)

lemma settles_simple [simp]:
  "settles durable reload (return v)" "settles durable reload (throw e)"
  "settles durable reload (of_result r)" "settles durable reload (gets f)"
  "settles durable reload get_record"
  by (auto simp: settles_def hoare_def return_def throw_def of_result_def gets_def get_record_def
      split: sum.splits)

lemma settles_on_backend [simp]: "settles durable reload (on_backend b)"
  by (auto simp: settles_def hoare_def on_backend_def in_step_def split: prod.splits sum.splits)

lemma settles_at_stage: "settles durable reload m \<Longrightarrow> settles durable reload (at_stage m s)"
  unfolding settles_def at_stage_def by (rule hoare_map_error)

lemma settles_when: "settles durable reload m \<Longrightarrow> settles durable reload (when_true b m)"
  by (simp add: when_true_def)

lemma settles_if:
  "(b \<Longrightarrow> settles durable reload m) \<Longrightarrow> (\<not> b \<Longrightarrow> settles durable reload k) \<Longrightarrow>
   settles durable reload (if b then m else k)"
  by simp

lemma hoare_on_error:
  assumes "hoare P m Q (\<lambda>_ _. True)"
  shows "hoare P (on_error m h) Q (\<lambda>_ _. True)" "hoare P (on_error_first m h) Q (\<lambda>_ _. True)"
  using assms
  by (auto simp: hoare_def on_error_def on_error_first_def action_defs split: prod.splits sum.splits)

lemma settles_on_error:
  "settles durable reload m \<Longrightarrow> settles durable reload (on_error m h)"
  "settles durable reload m \<Longrightarrow> settles durable reload (on_error_first m h)"
  unfolding settles_def by (rule hoare_on_error; assumption)+

text \<open>A collected error excuses the journal; without one, memory and journal are in step.\<close>

lemma settles_try_step:
  assumes "settles durable reload m"
  shows "hoare (\<lambda>t. e = None \<longrightarrow> in_step durable reload t) (try_step e m)
    (\<lambda>e' t. e' = None \<longrightarrow> in_step durable reload t) (\<lambda>_ _. True)"
  using assms
  by (auto simp: settles_def hoare_def try_step_def action_defs get_or_insert_def
      split: prod.splits sum.splits option.splits)

lemma hoare_result_of:
  "hoare (\<lambda>t. e = None \<longrightarrow> P t) (result_of e) (\<lambda>_. P) (\<lambda>_ _. True)"
  by (auto simp: hoare_def result_of_def return_def throw_def split: option.splits)

context durable_journal
begin

lemma save_stores: "hoare P (save J r) (\<lambda>_ t. durable (journal t) = stored reload (Some r)) (\<lambda>_ _. True)"
  by (auto simp: hoare_def save_def on_journal_def stored_def dest: store_Inr
      split: prod.splits sum.splits)

lemma update_settles [simp]: "settles durable reload (update_and_save J f)"
proof -
  have "in_step durable reload t'" if "update_and_save J f t = (Inr x, t')" for t t' :: "('x, 'j) transaction" and x
    using that
    by (auto simp: update_and_save_def action_defs get_record_def set_record_def save_def
        on_journal_def in_step_def stored_def ok_or_def dest: store_Inr
        split: option.splits prod.splits sum.splits)
  then show ?thesis
    unfolding settles_def by (intro hoareI) auto
qed

lemma save_and_set_settles [simp]: "settles durable reload (save_and_set J r)"
  unfolding settles_def save_and_set_def
  by (rule hoare_andthen [OF save_stores])
    (simp add: hoare_def set_record_def modify_def in_step_def)

lemma save_then_set_settles:
  "settles durable reload (andthen (on_error_first (save J r) h) (set_record (Some r)))"
  unfolding settles_def
  by (rule hoare_andthen [OF hoare_on_error(2) [OF save_stores]])
    (simp add: hoare_def set_record_def modify_def in_step_def)

lemma steps_settle [simp]:
  "settles durable reload (complete_step J s)" "settles durable reload (clear_step J s)"
  "settles durable reload (set_phase J p)" "settles durable reload (stage_in_place J owner d)"
  by (simp_all add: complete_step_def clear_step_def set_phase_def stage_in_place_def)

lemma clear_settles: "settles durable reload (andthen (on_journal (journal_clear J)) (set_record None))"
  by (auto simp: settles_def hoare_def andthen_def bind_def on_journal_def set_record_def modify_def
      in_step_def stored_def dest: clear_Inr split: prod.splits sum.splits)

lemma cleanup_step_settles:
  "hoare (\<lambda>t. e = None \<longrightarrow> in_step durable reload t) (cleanup_step J needed m s e)
     (\<lambda>e' t. e' = None \<longrightarrow> in_step durable reload t) (\<lambda>_ _. True)"
  unfolding cleanup_step_def
  by (rule hoare_if) (auto intro!: settles_try_step settles_andthen hoare_return)

lemma cleanup_candidate_settles:
  "hoare (in_step durable reload) (cleanup_candidate B J r)
     (\<lambda>e t. e = None \<longrightarrow> in_step durable reload t) (\<lambda>_ _. True)"
proof (cases "recovery_candidate r")
  case None
  then show ?thesis by (simp add: cleanup_candidate_def hoare_return)
next
  case (Some candidate)
  have last: "hoare (\<lambda>t. e2 = None \<longrightarrow> in_step durable reload t)
      (if e2 \<noteq> None then return e2 else try_step None (update_and_save J f))
      (\<lambda>e t. e = None \<longrightarrow> in_step durable reload t) (\<lambda>_ _. True)" for e2 f
    using settles_try_step [of durable reload "update_and_save J f" None]
    by (auto intro: hoare_return hoare_pre)
  have first: "hoare (in_step durable reload) (try_step None (on_backend b))
      (\<lambda>e t. e = None \<longrightarrow> in_step durable reload t) (\<lambda>_ _. True)" for b :: "('b, unit) net_action"
    by (rule hoare_pre [OF settles_try_step]) auto
  show ?thesis
    unfolding cleanup_candidate_def Some option.case
    by (intro hoare_bind [OF first] hoare_bind [OF settles_try_step] last settles_on_backend)
qed

lemma cleanup_finish_settles:
  "hoare (\<lambda>t. e = None \<longrightarrow> in_step durable reload t) (cleanup_finish J e)
     (\<lambda>e' t. e' = None \<longrightarrow> in_step durable reload t) (\<lambda>_ _. True)"
proof -
  have get: "hoare P (gets tx_record) (\<lambda>_. P) (\<lambda>_ _. True)" for P :: "('x, 'j) transaction \<Rightarrow> bool"
    by (simp add: hoare_def gets_def)
  show ?thesis
    unfolding cleanup_finish_def
    by (intro hoare_bind [OF get] hoare_if settles_try_step clear_settles hoare_return)
qed

lemma cleanup_settles [simp]: "settles durable reload (cleanup_record B J)"
proof -
  have "hoare (in_step durable reload) get_record (\<lambda>_. in_step durable reload) (\<lambda>_ _. True)"
    using settles_simple(5) by (simp add: settles_def)
  note get = hoare_bind [OF this]
  show ?thesis
    unfolding cleanup_record_def Let_def
    by (rule settles_andthen [OF steps_settle(3)], unfold settles_def,
        intro get hoare_bind [OF cleanup_candidate_settles] hoare_bind [OF cleanup_step_settles]
          hoare_bind [OF cleanup_finish_settles] hoare_result_of)
qed

lemmas settle_rules = settles_bind settles_andthen settles_at_stage settles_when settles_if
  settles_on_error save_then_set_settles

lemma prepare_steps_settles: "settles durable reload (prepare_steps B J)"
  unfolding prepare_steps_def Let_def by (intro settle_rules settles_simple settles_on_backend update_settles steps_settle)

lemma prepare_settles: "settles durable reload (prepare B J owner d)"
proof -
  have "settles durable reload (case current of
       Some r \<Rightarrow> andthen (of_result (ensure_owner (tx_owner r) owner))
         (if tx_declaration r \<noteq> d then throw Conflict
          else if tx_phase r \<in> {TxPrepared, TxActive} then return () else throw NetInvalidTransition)
     | None \<Rightarrow> andthen (of_result (check_declaration d))
         (andthen (save_and_set J (new_record owner d))
         (on_error (prepare_steps B J) (cleanup_record B J))))" for current
    by (cases current) (auto intro!: settle_rules prepare_steps_settles)
  then show ?thesis unfolding prepare_def by (intro settles_bind) simp_all
qed

lemma commit_settles: "settles durable reload (commit_with_drain B J owner now timeout)"
proof -
  have "settles durable reload (commit_replacement B J c now timeout)"
    "settles durable reload (commit_prepared B J d)" for c d
    unfolding commit_replacement_def commit_prepared_def
    by (intro settle_rules settles_on_backend update_settles steps_settle)+
  then show ?thesis
    unfolding commit_with_drain_def
    by (intro settles_bind settles_andthen) (auto split: option.split)
qed

lemma drain_settles: "settles durable reload (drain_old B J owner now)"
  unfolding drain_old_def Let_def
  by (intro settle_rules settles_simple settles_on_backend update_settles)

lemma rollback_settles: "settles durable reload (rollback B J owner)"
  unfolding rollback_def
  by (intro settle_rules settles_simple settles_on_backend update_settles cleanup_settles)

lemma small_operations_settle:
  "settles durable reload (set_failed_prefixes B J owner ps)"
  "settles durable reload (renew_lease J owner)"
  "settles durable reload (update_mtu B J owner mtu)"
  "settles durable reload (suspend B J owner)"
  "settles durable reload (resume B J owner)"
  unfolding set_failed_prefixes_def renew_lease_def update_mtu_def suspend_def resume_def Let_def
  by (intro settle_rules settles_simple settles_on_backend update_settles steps_settle)+

lemma reconfigure_settles: "settles durable reload (reconfigure B J owner d)"
proof -
  have "settles durable reload (prepare_replacement B J owner d)"
    unfolding prepare_replacement_def
    by (intro settles_bind settles_andthen settles_if settles_simple)
      (auto split: option.split intro!: settle_rules)
  moreover have "settles durable reload (reconfigure_suspended B J owner d r)" for r
    unfolding reconfigure_suspended_def Let_def
    by (intro settles_if save_and_set_settles settles_simple
        settles_andthen [OF _ settles_andthen [OF _ save_then_set_settles]] steps_settle
        settles_on_error settles_andthen settles_on_backend)
  ultimately show ?thesis
    unfolding reconfigure_def by (intro settle_rules settles_simple)
qed

lemma update_policy_settles: "settles durable reload (update_policy B J owner d)"
proof -
  have "settles durable reload (apply_policy B J owner d r)" for r
    unfolding apply_policy_def Let_def
    by (intro settles_andthen [OF _ settles_andthen [OF _ save_then_set_settles]] steps_settle
        settles_on_error settles_andthen settles_when settles_on_backend)
  then show ?thesis
    unfolding update_policy_def by (intro settle_rules settles_simple settles_on_backend)
qed

lemma controller_settles: "settles durable reload (controller B J owner call)"
  by (cases call) (simp_all add: commit_def prepare_settles commit_settles drain_settles
      rollback_settles small_operations_settle reconfigure_settles update_policy_settles)

lemma recover_orphan_settles: "settles durable reload (recover_orphan B J alive now)"
proof -
  have "settles durable reload (recover_policy_update B J)"
    unfolding recover_policy_update_def Let_def
    by (intro settle_rules settles_simple settles_on_backend save_and_set_settles)
  moreover have "settles durable reload (discard_staged B J c)" for c
    unfolding discard_staged_def
    by (intro settle_rules settles_simple settles_on_backend update_settles)
  ultimately show ?thesis
    unfolding recover_orphan_def
    by (intro settles_bind settles_simple)
      (auto split: option.split intro!: settles_andthen drain_settles)
qed

lemma new_transaction_in_step:
  assumes "new_transaction J b j = Inr t" and "\<And>r. durable j = Inr (Some r) \<Longrightarrow> reload r = Inr r"
  shows "in_step durable reload t"
  using assms
  by (auto simp: new_transaction_def in_step_def stored_def dest!: load_Inr
      split: prod.splits sum.splits option.splits)

end

section \<open>What the operations achieve\<close>

subsection \<open>Cleanup removes everything\<close>

text \<open>Without a collected error, the record is exactly the expected one.\<close>

definition clean_so_far :: "network_error option \<Rightarrow> transaction_record \<Rightarrow> transaction_record option \<Rightarrow> bool" where
  "clean_so_far e r y \<longleftrightarrow> (e = None \<longrightarrow> y = Some r)"

definition without_step :: "u16 \<Rightarrow> transaction_record \<Rightarrow> transaction_record" where
  "without_step step r = r\<lparr>completed_steps := completed_steps r AND NOT step\<rparr>"

lemma ends_update_any:
  assumes "\<And>r. x = Some r \<Longrightarrow> Q (Inr ()) (Some (f r))" and "\<And>e y. Q (Inl e) y"
  shows "ends x (update_and_save J f) Q"
proof (cases x)
  case None
  then show ?thesis unfolding update_and_save_def by (intro ends_bind) (simp add: assms(2))
next
  case (Some r)
  have "Q res (Some (f r))" for res using assms Some by (cases res) auto
  with Some show ?thesis by (simp add: ends_update_and_save)
qed

lemma ends_cleanup_step:
  assumes "clean_so_far e r y"
  shows "ends y (cleanup_step J needed m step e)
    (continues Q (\<lambda>e' y'. clean_so_far e' (if needed then without_step step r else r) y'))"
proof (cases needed)
  case True
  have "ends y (andthen (on_backend m) (clear_step J step))
      (\<lambda>res y'. clean_so_far (get_or_insert e res) (without_step step r) y')"
    unfolding clear_step_def
    by (intro ends_backend_then ends_update_any)
      (use assms in \<open>auto simp: clean_so_far_def get_or_insert_def without_step_def split: option.splits\<close>)
  then show ?thesis
    unfolding cleanup_step_def using True by (auto intro: ends_try_step)
qed (use assms in \<open>simp add: cleanup_step_def\<close>)

lemma ends_cleanup_candidate:
  "ends (Some r) (cleanup_candidate B J r0) (continues Q (\<lambda>e y.
     clean_so_far e (if recovery_candidate r0 = None then r
       else r\<lparr>recovery_candidate := None, recovery_candidate_owner := None\<rparr>) y))"
  by (cases "recovery_candidate r0")
    (auto simp: cleanup_candidate_def clean_so_far_def get_or_insert_def
      intro!: ends_try_then ends_try_step ends_update_any)

lemma clear_needed:
  assumes "v AND NOT steps = 0" and "needed \<longleftrightarrow> steps AND mask' \<noteq> 0" and "step AND NOT mask' = 0"
  shows "(if needed then v AND NOT step else v) = v AND NOT (step :: u16)"
proof (cases needed)
  case False
  with assms(2) have z: "steps AND mask' = 0" by simp
  have "v AND NOT step = v"
  proof (rule bit_eqI)
    fix n assume "possible_bit TYPE(16 word) n"
    then have n: "n < 16" by simp
    have "\<not> (bit v n \<and> bit step n)"
    proof
      assume "bit v n \<and> bit step n"
      then have "bit (steps AND mask') n"
        using assms(1,3) unfolding and_not_zero_iff by (auto simp: bit_and_iff)
      with z show False by simp
    qed
    with n show "bit (v AND NOT step) n = bit v n" by (auto simp: bit_simps)
  qed
  with False show ?thesis by simp
qed simp

text \<open>Postconditions of success only.\<close>

definition on_ok :: "('a \<Rightarrow> transaction_record option \<Rightarrow> bool) \<Rightarrow>
    network_error + 'a \<Rightarrow> transaction_record option \<Rightarrow> bool" where
  "on_ok R res y = (case res of Inl e \<Rightarrow> True | Inr v \<Rightarrow> R v y)"

lemma on_ok_simps [simp]: "on_ok R (Inl e) y" "on_ok R (Inr v) y = R v y"
  by (simp_all add: on_ok_def)

lemma ends_bind_clean:
  assumes "ends x m (continues (\<lambda>_ _. True) (\<lambda>e y. clean_so_far e r y))"
    and "\<And>e y. clean_so_far e r y \<Longrightarrow> ends y (f e) (on_ok R)"
  shows "ends x (bind m f) (on_ok R)"
  by (rule ends_bind, rule ends_mono [OF assms(1)])
    (use assms(2) in \<open>auto simp: continues_def split: sum.splits\<close>)

lemma ends_cleanup_finish:
  assumes clean: "clean_so_far e r y" and empty: "completed_steps r = 0" "recovery_candidate r = None"
  shows "ends y (bind (cleanup_finish J e) result_of) (on_ok (\<lambda>_ y. y = None))"
proof (cases e)
  case None
  then have y: "y = Some r" using clean by (simp add: clean_so_far_def)
  show ?thesis
    unfolding cleanup_finish_def None y
    by (rule ends_bind, rule ends_bind)
      (auto simp: empty get_or_insert_def continues_def intro!: ends_try_step ends_andthen ends_on_journal
        ends_set_record split: sum.split option.split)
next
  case (Some err)
  have fin: "ends y (cleanup_finish J (Some err)) (continues (on_ok (\<lambda>_ y. y = None))
      (\<lambda>e' y. e' \<noteq> None))"
    unfolding cleanup_finish_def
    by (rule ends_bind)
      (auto simp: get_or_insert_def continues_def
        intro!: ends_try_step ends_andthen ends_on_journal ends_set_record
        split: sum.split option.split)
  show ?thesis
    unfolding Some
    by (rule ends_bind, rule ends_mono [OF fin])
      (auto simp: continues_def split: sum.splits)
qed

lemma six_steps_cleared:
  assumes "v AND NOT 0x3f = 0"
  shows "(((((v AND NOT STEP_POLICY_RULE) AND NOT STEP_LINK_ACTIVE) AND NOT STEP_SYSCTLS)
      AND NOT STEP_FIREWALL) AND NOT STEP_ROUTES) AND NOT STEP_LINK = 0"
proof -
  have "(((((v AND NOT STEP_POLICY_RULE) AND NOT STEP_LINK_ACTIVE) AND NOT STEP_SYSCTLS)
      AND NOT STEP_FIREWALL) AND NOT STEP_ROUTES) AND NOT STEP_LINK
      = v AND (NOT STEP_POLICY_RULE AND NOT STEP_LINK_ACTIVE AND NOT STEP_SYSCTLS
        AND NOT STEP_FIREWALL AND NOT STEP_ROUTES AND NOT STEP_LINK)"
    by (simp only: and.assoc)
  also have "NOT STEP_POLICY_RULE AND NOT STEP_LINK_ACTIVE AND NOT STEP_SYSCTLS
        AND NOT STEP_FIREWALL AND NOT STEP_ROUTES AND NOT STEP_LINK = NOT 0x3f"
    by (simp add: step_defs)
  finally show ?thesis using assms by simp
qed

definition within_steps :: "u16 \<Rightarrow> transaction_record \<Rightarrow> bool" where
  "within_steps steps r \<longleftrightarrow> completed_steps r AND NOT steps = 0"

lemma within_without_step: "within_steps steps r \<Longrightarrow> within_steps steps (without_step s r)"
  unfolding within_steps_def without_step_def and_not_zero_iff by (auto simp: bit_simps)

lemma ends_cleanup_bit:
  assumes "clean_so_far e r y" and "within_steps steps r" and "step AND NOT m = 0"
  shows "ends y (cleanup_step J (steps AND m \<noteq> 0) b step e)
    (continues Q (\<lambda>e' y'. clean_so_far e' (without_step step r) y'))"
proof -
  have "(if steps AND m \<noteq> 0 then without_step step r else r) = without_step step r"
    using clear_needed [OF assms(2) [unfolded within_steps_def] refl assms(3)]
    by (auto simp: without_step_def split: if_splits)
  with ends_cleanup_step [OF assms(1), of J "steps AND m \<noteq> 0" b step Q] show ?thesis by simp
qed

lemma ends_cleanup_ok:
  assumes inv: "record_inv r"
  shows "ends (Some r) (cleanup_record B J) (on_ok (\<lambda>_ y. y = None))"
proof -
  let ?r0 = "r\<lparr>tx_phase := TxRollingBack\<rparr>"
  let ?r1 = "if recovery_candidate ?r0 = None then ?r0
      else ?r0\<lparr>recovery_candidate := None, recovery_candidate_owner := None\<rparr>"
  have within: "within_steps (completed_steps ?r0) ?r1" by (simp add: within_steps_def)
  have self: "s AND NOT s = 0" "STEP_LINK_ACTIVE AND NOT (STEP_LINK OR STEP_LINK_ACTIVE) = 0"
    for s :: u16 by (simp_all add: step_defs)
  have bits: "completed_steps r AND NOT 0x3f = 0" using inv by (simp only: record_inv_def)
  show ?thesis
    unfolding cleanup_record_def Let_def set_phase_def
    apply (rule ends_update_then, simp)
    apply (rule ends_get_bind)
    apply (rule ends_bind_clean [OF ends_cleanup_candidate])
    apply (rule ends_bind_clean, erule ends_cleanup_bit,
        ((rule within_without_step)+)?, rule within, rule self)+
    apply (rule ends_cleanup_finish, assumption)
    subgoal using six_steps_cleared [OF bits] by (simp add: without_step_def)
    subgoal by (simp add: without_step_def)
    done
qed

subsection \<open>Operations that succeed\<close>

lemma ends_update_ok: "R () (Some (f y)) \<Longrightarrow> ends (Some y) (update_and_save J f) (on_ok R)"
  by (rule ends_update_and_save) (simp add: on_ok_def split: sum.split)

lemma ends_prepare_steps_ok:
  "ends (Some r) (prepare_steps B J) (on_ok (\<lambda>_ y. \<exists>changes. y = Some (r\<lparr>sysctls := changes,
     completed_steps := completed_steps r OR STEP_SYSCTLS OR STEP_LINK OR STEP_LINK_ACTIVE
       OR STEP_ROUTES OR STEP_FIREWALL, tx_phase := TxPrepared\<rparr>)))"
proof -
  have first: "ends x (bind (at_stage (on_backend m) s) f) (on_ok R)"
    if "\<And>v. ends x (f v) (on_ok R)" for x s R and m :: "('a, 'c) net_action"
      and f :: "'c \<Rightarrow> ('a, 'b, unit) tx_action"
    by (rule ends_bind, rule ends_at_stage, rule ends_on_backend)
      (use that in \<open>auto simp: continues_def split: sum.split\<close>)
  show ?thesis
    unfolding prepare_steps_def Let_def complete_step_def set_phase_def
    by (intro ends_get_bind first ends_update_then ends_staged_then ends_update_ok)
      (auto simp: or.assoc)
qed

lemma ends_on_error_ok: "ends x m (on_ok R) \<Longrightarrow> ends x (on_error m h) (on_ok R)"
  "ends x m (on_ok R) \<Longrightarrow> ends x (on_error_first m h) (on_ok R)"
proof -
  assume m: "ends x m (on_ok R)"
  have anything: "ends y h (\<lambda>_ _. True)" for y by (simp add: ends_def split: prod.split)
  show "ends x (on_error m h) (on_ok R)"
    by (rule ends_on_error, rule ends_mono [OF m]) (auto simp: anything split: sum.split)
  show "ends x (on_error_first m h) (on_ok R)"
    by (rule ends_on_error_first, rule ends_mono [OF m]) (auto simp: anything split: sum.split)
qed

lemma prepare_ok:
  "ends None (prepare B J owner d) (on_ok (\<lambda>_ y. \<exists>changes. y = Some ((new_record owner d)
     \<lparr>tx_phase := TxPrepared, completed_steps := 0x1f, sysctls := changes\<rparr>)))"
proof -
  have bits: "(0 :: u16) OR STEP_SYSCTLS OR STEP_LINK OR STEP_LINK_ACTIVE OR STEP_ROUTES
      OR STEP_FIREWALL = 0x1f"
    by (simp add: step_defs)
  have "ends (Some (new_record owner d)) (prepare_steps B J)
      (on_ok (\<lambda>_ y. \<exists>changes. y = Some ((new_record owner d)
        \<lparr>tx_phase := TxPrepared, completed_steps := 0x1f, sysctls := changes\<rparr>)))"
    by (rule ends_mono [OF ends_prepare_steps_ok])
      (auto simp: on_ok_def new_record_def bits [simplified] split: sum.splits)
  from ends_on_error_ok(1) [OF this] show ?thesis
    unfolding prepare_def
    by (intro ends_bind, simp, intro ends_guard ends_andthen ends_save_and_set) simp_all
qed

lemma rollback_ok:
  assumes inv: "record_inv r"
    and unstaged: "recovery_candidate r = None \<or> tx_phase r \<notin> {TxPreparing, TxPrepared}"
  shows "ends (Some r) (rollback B J owner) (on_ok (\<lambda>_ y. y = None))"
  unfolding rollback_def
  by (intro ends_get_bind ends_if ends_guard ends_cleanup_ok [OF inv]) (use unstaged in auto)

lemma set_failed_prefixes_ok:
  "ends (Some r) (set_failed_prefixes B J owner ps) (on_ok (\<lambda>_ y.
     y = Some (r\<lparr>failed_prefixes := remdups_adj (sort ps)\<rparr>)
     \<and> list_all (is_remote_prefix (tx_declaration r)) (remdups_adj (sort ps))
     \<and> tx_phase r \<in> {TxActive, TxSuspended}))"
  unfolding set_failed_prefixes_def Let_def
  by (intro ends_get_bind ends_guard ends_if ends_backend_then ends_when_backend_then ends_update_ok)
    (auto simp: list_ex_iff list_all_iff)

lemma apply_policy_ok:
  "ends (Some r) (apply_policy B J owner d r) (on_ok (\<lambda>_ y.
     y = Some (r\<lparr>tx_declaration := d, failed_prefixes := filter (is_remote_prefix d) (failed_prefixes r),
       recovery_candidate := None, recovery_candidate_owner := None\<rparr>)))"
proof -
  have final: "ends x (andthen m k) (on_ok R)"
    if "\<And>y. ends y k (on_ok R)" for x R and m k :: "('a, 'b, unit) tx_action"
  proof (rule ends_andthen)
    show "ends x m (continues (on_ok R) (\<lambda>_ y. ends y k (on_ok R)))"
      using that by (auto simp: ends_def continues_def split: prod.split sum.split)
  qed
  show ?thesis
    unfolding apply_policy_def Let_def by (intro final ends_set_record) simp
qed

lemma update_policy_ok:
  "ends (Some r) (update_policy B J owner d) (on_ok (\<lambda>_ y.
     tx_phase r \<in> {TxActive, TxSuspended} \<and> same_tunnel_declaration (tx_declaration r) d
     \<and> (\<exists>r'. y = Some r' \<and> tx_declaration r' = d \<and> tx_owner r' = tx_owner r
          \<and> tx_phase r' = tx_phase r \<and> completed_steps r' = completed_steps r
          \<and> recovery_candidate r' = None
          \<and> (tx_declaration r \<noteq> d \<longrightarrow>
               failed_prefixes r' = filter (is_remote_prefix d) (failed_prefixes r)))))"
  unfolding update_policy_def
  by (intro ends_guard ends_get_bind ends_if ends_when ends_on_backend
      ends_mono [OF apply_policy_ok])
    (auto simp: on_ok_def same_tunnel_declaration_def split: sum.split)

text \<open>Make-before-break: staging and committing a replacement leave the active declaration.\<close>

definition same_declaration :: "transaction_record \<Rightarrow> transaction_record option \<Rightarrow> bool" where
  "same_declaration r y \<longleftrightarrow> (\<exists>r'. y = Some r' \<and> tx_declaration r' = tx_declaration r)"

lemma staging_keeps_declaration:
  assumes "tx_phase r = TxActive"
  shows "ends (Some r) (reconfigure B J owner d) (\<lambda>_. same_declaration r)"
proof -
  have keep: "keeps (same_declaration r) (update_and_save J f)"
    if "\<And>r'. tx_declaration (f r') = tx_declaration r'" for f and J :: "'b journal_ops"
    by (rule keeps_update_and_save) (auto simp: same_declaration_def that)
  have call: "keeps (same_declaration r) (on_backend b)" for b :: "('a, 'c) net_action" by simp
  have err: "keeps P (on_error m h)" if "keeps P m" "keeps P h"
    for P and m h :: "('a, 'b, unit) tx_action"
  proof (rule keepsI, rule ends_on_error)
    fix x assume "P x"
    from keepsD [OF that(1) this] show "ends x m (\<lambda>r y. case r of
        Inl e \<Rightarrow> ends y h (\<lambda>_ z. P z) | Inr v \<Rightarrow> P y)"
      by (rule ends_mono) (auto split: sum.split intro: keepsD [OF that(2)])
  qed
  have ign: "keeps P (ignore m)" if "keeps P m" for P and m :: "('a, 'b, unit) tx_action"
    using that by (auto simp: keeps_def intro!: ends_ignore)
  have sr: "same_declaration r (Some (r\<lparr>tx_owner := owner\<rparr>))" "same_declaration r (Some r)"
    by (simp_all add: same_declaration_def)
  have body: "keeps (same_declaration r) (andthen (update_and_save J (\<lambda>r. r\<lparr>recovery_candidate := Some d,
               recovery_candidate_owner := Some owner, tx_phase := TxPreparing,
               drain_deadline_mono_ms := 0\<rparr>))
            (andthen
              (on_error
                (andthen (of_result (check_declaration d))
                (andthen (on_backend (preflight B d))
                (andthen (on_backend (prepare_link B d))
                (andthen (on_backend (prepare_routes B d))
                (on_backend (prepare_firewall B d))))))
                (andthen (ignore (on_backend (remove_firewall B d)))
                (andthen (ignore (on_backend (remove_routes B d)))
                (update_and_save J (\<lambda>r. r\<lparr>recovery_candidate := None,
                   recovery_candidate_owner := None, tx_phase := TxActive\<rparr>)))))
              (update_and_save J (\<lambda>r. r\<lparr>tx_phase := TxPrepared\<rparr>))))"
    by (intro keeps_andthen err ign call keep keeps_simple) simp_all
  show ?thesis
    unfolding reconfigure_def prepare_replacement_def
    by (intro ends_guard ends_get_bind ends_if ends_save_and_set)
      (use assms sr keepsD [OF body sr(2)] in \<open>auto split: option.split\<close>)
qed

subsection \<open>Drain and recovery\<close>

lemma drain_promotes:
  assumes r: "tx_phase r = TxDraining" "recovery_candidate r = Some candidate"
  shows "ends (Some r) (drain_old B J owner now) (on_ok (\<lambda>_ y.
    y = Some (r\<lparr>tx_owner := (case recovery_candidate_owner r of None \<Rightarrow> owner | Some co \<Rightarrow> co),
      tx_declaration := candidate, recovery_candidate := None, recovery_candidate_owner := None,
      tx_phase := TxActive, drain_deadline_mono_ms := 0\<rparr>)
    \<and> (drain_deadline_mono_ms r = 0 \<or> drain_deadline_mono_ms r \<le> now)))"
  unfolding drain_old_def Let_def
  by (intro ends_get_bind ends_guard ends_if)
    (use r in \<open>auto simp: not_less intro!: ends_bind ends_backend_then ends_update_ok\<close>)

lemma recover_orphan_alive:
  assumes r: "tx_record t = Some r" and live: "lease_deadline_mono_ms (tx_owner r) > now"
    and phase: "tx_phase r \<noteq> TxRollingBack" "tx_phase r \<noteq> TxDraining"
  shows "recover_orphan B J True now t = (Inr False, t)"
  using assms
  by (auto simp: recover_orphan_def bind_def gets_def return_def policy_update_pending_def
      split: option.split)

lemma recover_orphan_dead:
  assumes inv: "record_inv r" and phase: "tx_phase r \<in> {TxActive, TxSuspended}"
  shows "ends (Some r) (recover_orphan B J False now) (on_ok (\<lambda>res y. res \<and> y = None))"
proof -
  have fin: "ends (Some r) (andthen (cleanup_record B J) (return True)) (on_ok (\<lambda>res y. res \<and> y = None))"
    by (rule ends_andthen, rule ends_mono [OF ends_cleanup_ok [OF inv]])
      (auto simp: on_ok_def continues_def split: sum.splits)
  show ?thesis
    unfolding recover_orphan_def
    by (rule ends_bind) (use phase fin in \<open>auto simp: policy_update_pending_def split: option.split\<close>)
qed

subsection \<open>Intent precedes effect\<close>

text \<open>The step bit that announces what a stage of prepare touches.\<close>

fun stage_step :: "backend_stage \<Rightarrow> u16" where
  "stage_step Preflight = 0"
| "stage_step SysctlPrepare = STEP_SYSCTLS"
| "stage_step LinkPrepare = STEP_LINK"
| "stage_step LinkActivate = STEP_LINK_ACTIVE"
| "stage_step RoutePrepare = STEP_ROUTES"
| "stage_step FirewallPrepare = STEP_FIREWALL"
| "stage_step PolicyActivate = STEP_POLICY_RULE"

definition plain_errors :: "('b, 'a) net_action \<Rightarrow> bool" where
  "plain_errors m \<longleftrightarrow> (\<forall>b e b' s. m b = (Inl e, b') \<longrightarrow> e \<noteq> BackendStage s)"

text \<open>The backend's own errors carry no stage: the stage is added by \<^verbatim>\<open>at_stage\<close>.\<close>

definition plain_backend :: "'b backend_ops \<Rightarrow> bool" where
  "plain_backend B \<longleftrightarrow>
     (\<forall>d. plain_errors (preflight B d) \<and> (\<forall>cs. plain_errors (prepare_sysctls B d cs))
        \<and> plain_errors (prepare_link B d) \<and> plain_errors (activate_link B d)
        \<and> plain_errors (prepare_routes B d) \<and> plain_errors (prepare_firewall B d))"

definition announced ::
    "('j \<Rightarrow> network_error + transaction_record option) \<Rightarrow>
     (transaction_record \<Rightarrow> network_error + transaction_record) \<Rightarrow> u16 \<Rightarrow> ('b, 'j) transaction \<Rightarrow> bool" where
  "announced durable reload step t \<longleftrightarrow> in_step durable reload t
     \<and> (\<exists>r. tx_record t = Some r \<and> completed_steps r AND step = step)"

definition stage_announced ::
    "('j \<Rightarrow> network_error + transaction_record option) \<Rightarrow>
     (transaction_record \<Rightarrow> network_error + transaction_record) \<Rightarrow>
     network_error \<Rightarrow> ('b, 'j) transaction \<Rightarrow> bool" where
  "stage_announced durable reload e t \<longleftrightarrow>
     (\<forall>s. e = BackendStage s \<longrightarrow> announced durable reload (stage_step s) t)"

lemma stage_call_announced:
  assumes "plain_errors m"
  shows "hoare (announced durable reload (stage_step s)) (at_stage (on_backend m) s)
    (\<lambda>_. announced durable reload (stage_step s)) (stage_announced durable reload)"
proof (rule hoareI)
  fix t x t'
  assume "announced durable reload (stage_step s) t" "at_stage (on_backend m) s t = (Inr x, t')"
  then show "announced durable reload (stage_step s) t'"
    by (auto simp: at_stage_def map_error_def on_backend_def announced_def in_step_def
        split: prod.splits)
next
  fix t e t'
  assume a: "announced durable reload (stage_step s) t" "at_stage (on_backend m) s t = (Inl e, t')"
  then obtain e' b where m: "m (backend t) = (Inl e', b)" "e = stage_error s e'" "t' = t\<lparr>backend := b\<rparr>"
    by (auto simp: at_stage_def map_error_def on_backend_def map_err_def
        split: prod.splits sum.splits)
  with assms have "\<forall>s'. e' \<noteq> BackendStage s'" by (auto simp: plain_errors_def)
  with a(1) m show "stage_announced durable reload e t'"
    by (cases e') (auto simp: stage_announced_def announced_def in_step_def)
qed

context typed_journal
begin

lemma update_announces:
  assumes "\<And>r. completed_steps (f r) AND step = step"
  shows "hoare P (update_and_save J f) (\<lambda>_. announced durable reload step)
    (stage_announced durable reload)"
proof (rule hoareI)
  fix t x t' assume "update_and_save J f t = (Inr x, t')"
  then show "announced durable reload step t'"
    using assms
    by (auto simp: update_and_save_def action_defs get_record_def set_record_def save_def
        on_journal_def announced_def in_step_def stored_def ok_or_def dest: store_Inr
        split: option.splits prod.splits sum.splits)
next
  fix t e t' assume "update_and_save J f t = (Inl e, t')"
  then have "e = Journal \<or> e = NetInvalidTransition"
    by (auto simp: update_and_save_def action_defs get_record_def set_record_def save_def
        on_journal_def ok_or_def dest: store_error split: option.splits prod.splits sum.splits)
  then show "stage_announced durable reload e t'" by (auto simp: stage_announced_def)
qed

lemma complete_step_announces:
  "hoare P (complete_step J step) (\<lambda>_. announced durable reload step) (stage_announced durable reload)"
proof -
  have "(v OR step) AND step = step" for v :: u16 by (rule bit_eqI) (auto simp: bit_simps)
  then show ?thesis unfolding complete_step_def by (intro update_announces) simp
qed

lemma get_record_announced:
  "hoare P get_record (\<lambda>_. P) (stage_announced durable reload)"
  by (auto simp: hoare_def get_record_def ok_or_def stage_announced_def split: option.splits)

lemma prepare_steps_announced:
  assumes B: "plain_backend B"
  shows "hoare (in_step durable reload) (prepare_steps B J) (\<lambda>_ _. True)
    (stage_announced durable reload)"
proof -
  have call: "hoare (announced durable reload (stage_step s)) (andthen (at_stage (on_backend m) s) k) Q
      (stage_announced durable reload)"
    if "plain_errors m" "hoare (announced durable reload (stage_step s)) k Q (stage_announced durable reload)"
    for m s Q and k :: "('b, 'a, unit) tx_action"
    using that stage_call_announced by (intro hoare_andthen)
  have step: "hoare P (andthen (complete_step J s) k) Q (stage_announced durable reload)"
    if "hoare (announced durable reload s) k Q (stage_announced durable reload)"
    for P s Q and k :: "('b, 'a, unit) tx_action"
    using that complete_step_announces by (intro hoare_andthen)
  have first: "hoare (\<lambda>t. in_step durable reload t \<and> tx_record t \<noteq> None)
      (at_stage (on_backend (preflight B d)) Preflight) (\<lambda>_ _. True) (stage_announced durable reload)" for d
    by (rule hoare_weaken [OF stage_call_announced])
      (use B in \<open>auto simp: plain_backend_def announced_def\<close>)
  have get: "hoare (in_step durable reload) get_record
      (\<lambda>_ t. in_step durable reload t \<and> tx_record t \<noteq> None) (stage_announced durable reload)"
    by (auto simp: hoare_def get_record_def ok_or_def stage_announced_def split: option.splits)
  have save_sys: "hoare P (update_and_save J (\<lambda>r. r\<lparr>sysctls := cs\<rparr>)) (\<lambda>_ _. True)
      (stage_announced durable reload)" for P cs
    by (rule hoare_weaken [OF update_announces [of _ 0]]) auto
  have last: "hoare P (set_phase J p) (\<lambda>_ _. True) (stage_announced durable reload)" for P p
    unfolding set_phase_def by (rule hoare_weaken [OF update_announces [of _ 0]]) auto
  show ?thesis
    unfolding prepare_steps_def Let_def
    apply (rule hoare_bind [OF get], rule hoare_bind [OF first], rule hoare_andthen [OF save_sys])
    apply (rule step, rule hoare_bind [OF get_record_announced])
    using B unfolding plain_backend_def
    apply (intro call [of _ SysctlPrepare, simplified] step
        call [of _ LinkPrepare, simplified] call [of _ LinkActivate, simplified]
        call [of _ RoutePrepare, simplified] call [of _ FirewallPrepare, simplified] last)
    apply simp_all
    done
qed

end

end
