(* ===== verification/Netd_Transaction_Properties.thy ===== *)
theory Netd_Transaction_Properties
  imports Netd_Transaction_Laws
begin

text \<open>
  The properties of the network transaction, stated over the controller interface and, where the
  journal matters, over the file journal. Each follows from the laws of the preceding theory.
\<close>

section \<open>Concrete transactions\<close>

text \<open>A backend on which every call succeeds, and transactions on the sample record.\<close>

definition sample_backend :: "unit backend_ops" where
  "sample_backend =
     \<lparr>preflight = (\<lambda>_. return []), prepare_link = (\<lambda>_. return ()), prepare_routes = (\<lambda>_. return ()),
      reconcile_routes = (\<lambda>_ _. return ()), prepare_firewall = (\<lambda>_. return ()),
      replace_firewall = (\<lambda>_ _. return ()), prepare_sysctls = (\<lambda>_ _. return ()),
      activate_link = (\<lambda>_. return ()), update_link_mtu = (\<lambda>_ _. return ()),
      install_policy_rule = (\<lambda>_. return ()), remove_policy_rule = (\<lambda>_. return ()),
      deactivate_link = (\<lambda>_. return ()), remove_firewall = (\<lambda>_. return ()),
      remove_routes = (\<lambda>_. return ()), backend_withdraw_prefixes = (\<lambda>_ _. return ()),
      remove_link = (\<lambda>_. return ()), restore_sysctls = (\<lambda>_ _. return ())\<rparr>"

definition sample_journal :: "journal_fs journal_ops" where
  "sample_journal = file_journal sample_sha256"

definition transaction_of :: "transaction_record option \<Rightarrow> (unit, journal_fs) transaction" where
  "transaction_of x = \<lparr>backend = (), journal = empty_fs, tx_record = x\<rparr>"

lemma tx_record_transaction_of [simp]: "tx_record (transaction_of x) = x"
  by (simp add: transaction_of_def)

lemma sample_record_simps [simp]:
  "tx_owner sample_record = sample_owner" "tx_declaration sample_record = sample_declaration"
  "tx_phase sample_record = TxActive" "recovery_candidate sample_record = None"
  "recovery_candidate_owner sample_record = None"
  by (simp_all add: sample_record_def)

lemma sample_record_inv: "record_inv sample_record"
  by (simp add: record_inv_def sample_record_def)

lemma sample_owner_check [simp]: "ensure_owner sample_owner sample_owner = Inr ()"
  by (simp add: ensure_owner_def)

section \<open>Fencing\<close>

text \<open>
  C1: Fencing: while a transaction is retained, a call from any other process (another instance id
  or pid) fails and changes nothing: not the record, not the journal, not the backend. This holds
  for every call of the controller, every backend and every journal.
\<close>

theorem foreign_process_changes_nothing:
  assumes "tx_record t = Some r" and "\<not> same_process (tx_owner r) owner"
  shows "\<exists>e. controller B J owner call t = (Inl e, t)"
  using assms by (rule foreign_unchanged)

theorem foreign_process_changes_nothing_witness:
  "\<exists>e. controller sample_backend sample_journal (sample_owner\<lparr>pid := 1\<rparr>) CallRollback
     (transaction_of (Some sample_record)) = (Inl e, transaction_of (Some sample_record))"
  by (rule foreign_process_changes_nothing [of _ sample_record])
    (simp_all add: same_process_def sample_owner_def)

section \<open>The record on every path\<close>

text \<open>The transactions a process can reach: calls and recoveries, with any outcome.\<close>

inductive tx_reachable :: "'b backend_ops \<Rightarrow> 'j journal_ops \<Rightarrow> ('b, 'j) transaction \<Rightarrow> bool"
  for B :: "'b backend_ops" and J :: "'j journal_ops" where
  start: "tx_record t = None \<Longrightarrow> tx_reachable B J t"
| call: "tx_reachable B J t \<Longrightarrow> controller B J owner call t = (res, t') \<Longrightarrow> tx_reachable B J t'"
| recover: "tx_reachable B J t \<Longrightarrow> recover_orphan B J alive now t = (res, t') \<Longrightarrow> tx_reachable B J t'"

lemma controller_None:
  assumes "tx_record t = None" and "controller B J owner call t = (res, t')"
  shows "\<forall>r. tx_record t' = Some r \<longrightarrow> record_inv r \<and> same_process owner (tx_owner r)"
proof (cases "\<exists>d. call = CallPrepare d")
  case True
  then obtain d where "prepare B J owner d t = (res, t')" using assms(2) by auto
  from endsD [OF prepare_from_None assms(1) this] show ?thesis
    by (auto simp: kept_def new_record_def)
next
  case False
  then have "t' = t"
    using assms
    by (cases call)
      (auto simp: action_defs get_record_def commit_def commit_with_drain_def drain_old_def
        set_failed_prefixes_def rollback_def renew_lease_def update_mtu_def suspend_def
        reconfigure_def update_policy_def resume_def split: sum.splits if_splits)
  with assms(1) show ?thesis by simp
qed

lemma tx_reachable_inv: "tx_reachable B J t \<Longrightarrow> \<forall>r. tx_record t = Some r \<longrightarrow> record_inv r"
proof (induction rule: tx_reachable.induct)
  case (call t owner call res t')
  show ?case
  proof (cases "tx_record t")
    case None
    from controller_None [OF this call.hyps(2)] show ?thesis by blast
  next
    case (Some r)
    with call.IH have "record_inv r" by simp
    from endsD [OF kept_controller [OF this] Some call.hyps(2)] show ?thesis
      by (auto simp: kept_def)
  qed
next
  case (recover t alive now res t')
  show ?case
  proof (cases "tx_record t")
    case None
    with recover.hyps(2) show ?thesis by (auto simp: recover_orphan_def action_defs)
  next
    case (Some r)
    with recover.IH have "record_inv r" by simp
    from endsD [OF kept_recover_orphan [OF this] Some recover.hyps(2)] show ?thesis
      by (auto simp: kept_def)
  qed
qed simp

text \<open>
  C2: The record invariant holds in every reachable transaction, whatever backend calls and journal
  stores failed on the way: only known step bits are set, a recovery candidate exists only in the
  phases that can recover it and always while draining, a candidate's owner is the owner's process,
  and every declaration in the record is valid.
\<close>

theorem reachable_record_invariant:
  assumes "tx_reachable B J t" and "tx_record t = Some r"
  shows "record_inv r"
  using tx_reachable_inv [OF assms(1)] assms(2) by blast

text \<open>A journal on which every operation succeeds and nothing is kept.\<close>

definition quiet_journal :: "journal_fs journal_ops" where
  "quiet_journal = \<lparr>journal_load = return None, journal_store = (\<lambda>_. return ()),
     journal_clear = return ()\<rparr>"

definition prepared_record :: transaction_record where
  "prepared_record = (new_record sample_owner sample_declaration)
     \<lparr>tx_phase := TxPrepared, completed_steps := 0x1f\<rparr>"

lemmas run_defs = action_defs save_and_set_def save_def on_journal_def set_record_def get_record_def
  at_stage_def on_backend_def update_and_save_def complete_step_def set_phase_def on_error_def
  sample_backend_def quiet_journal_def

lemma sample_prepare:
  "prepare sample_backend quiet_journal sample_owner sample_declaration (transaction_of None)
     = (Inr (), transaction_of (Some prepared_record))"
  by (simp add: prepare_def prepare_steps_def run_defs check_declaration_def transaction_of_def
      new_record_def prepared_record_def step_defs)

lemma sample_reachable: "tx_reachable sample_backend quiet_journal (transaction_of (Some prepared_record))"
  by (rule tx_reachable.call [of _ _ "transaction_of None" sample_owner
        "CallPrepare sample_declaration" "Inr ()"])
    (simp_all add: sample_prepare tx_reachable.start)

theorem reachable_record_invariant_witness: "record_inv prepared_record"
  by (rule reachable_record_invariant [OF sample_reachable]) simp

text \<open>
  Ownership never leaves the process: in a reachable transaction, if a call or a recovery leaves
  a record behind, its owner is in the same process as the owner before.
\<close>

theorem ownership_stays_in_process:
  assumes "tx_reachable B J t" and "tx_record t = Some r"
    and "controller B J owner call t = (res, t')" and "tx_record t' = Some r'"
  shows "same_process (tx_owner r) (tx_owner r')"
proof -
  have "record_inv r" using tx_reachable_inv [OF assms(1)] assms(2) by blast
  from endsD [OF kept_controller [OF this] assms(2,3)] assms(4) show ?thesis by simp
qed

theorem ownership_stays_in_process_witness:
  "same_process sample_owner (tx_owner (prepared_record\<lparr>tx_phase := TxActive, completed_steps := 0x3f\<rparr>))"
proof -
  have "controller sample_backend quiet_journal sample_owner CallCommit
      (transaction_of (Some prepared_record))
      = (Inr (), transaction_of (Some (prepared_record\<lparr>tx_phase := TxActive, completed_steps := 0x3f\<rparr>)))"
    by (simp add: commit_def commit_with_drain_def commit_prepared_def run_defs transaction_of_def
        prepared_record_def new_record_def ensure_candidate_owner_def step_defs)
  from ownership_stays_in_process [OF sample_reachable _ this] show ?thesis
    by (simp add: prepared_record_def new_record_def)
qed

section \<open>Memory and journal\<close>


definition stored_transaction :: "bytes \<Rightarrow> transaction_record \<Rightarrow> (unit, journal_fs) transaction" where
  "stored_transaction bs r = \<lparr>backend = (), journal = with_file bs empty_fs, tx_record = Some r\<rparr>"

lemma stored_transaction_in_step:
  assumes "encode_record sample_sha256 r = Inr bs"
  shows "in_step (durable_record sample_sha256) (reload_record sample_sha256) (stored_transaction bs r)"
proof -
  have "parent_trusted empty_fs" by (simp add: parent_trusted_def empty_fs_def)
  from durable_with_file [OF this assms] show ?thesis
    by (simp add: in_step_def stored_transaction_def stored_def)
qed


text \<open>
  A rollback that reports success leaves nothing behind: the record is gone from memory and the
  next start of netd loads no transaction. The staged replacement of an active transaction is the
  one case rollback treats differently.
\<close>

theorem successful_rollback_leaves_nothing:
  assumes "tx_record t = Some r" and "record_inv r"
    and "recovery_candidate r = None \<or> tx_phase r \<notin> {TxPreparing, TxPrepared}"
    and "in_step (durable_record sha256) (reload_record sha256) t"
    and "rollback B (file_journal sha256) owner t = (Inr (), t')"
  shows "tx_record t' = None \<and> durable_record sha256 (journal t') = Inr None"
proof -
  have "tx_record t' = None"
    using endsD [OF rollback_ok [OF assms(2,3)] assms(1,5)] by simp
  moreover have "in_step (durable_record sha256) (reload_record sha256) t'"
    using settlesD [OF file_journal.rollback_settles assms(4,5)] .
  ultimately show ?thesis by (simp add: in_step_def stored_def)
qed

lemma healthy_empty_fs [simp]: "healthy empty_fs"
  by (simp add: healthy_def empty_fs_def parent_trusted_def)

lemma new_record_encodes:
  "\<exists>bs. encode_record sha256 ((new_record sample_owner sample_declaration)\<lparr>tx_phase := p\<rparr>) = Inr bs"
  by (rule encode_record_total)
    (auto simp: new_record_def record_encodable_def record_valid_def)

theorem successful_rollback_leaves_nothing_witness:
  "\<exists>bs t'. rollback sample_backend (file_journal sample_sha256) sample_owner
      (stored_transaction bs (new_record sample_owner sample_declaration)) = (Inr (), t')
     \<and> tx_record t' = None \<and> durable_record sample_sha256 (journal t') = Inr None"
proof -
  let ?r = "new_record sample_owner sample_declaration"
  obtain bs where bs: "encode_record sample_sha256 ?r = Inr bs"
    using new_record_encodes [of sample_sha256 TxPreparing] by (auto simp: new_record_def)
  obtain bs2 where bs2: "encode_record sample_sha256 (?r\<lparr>tx_phase := TxRollingBack\<rparr>) = Inr bs2"
    using new_record_encodes by blast
  have fs: "healthy (with_file bs empty_fs)"
      "healthy ((with_file bs2 (with_file bs empty_fs))\<lparr>temporary := None\<rparr>)"
    by (simp_all add: healthy_with_file)
  have run: "rollback sample_backend (file_journal sample_sha256) sample_owner (stored_transaction bs ?r)
      = (Inr (), \<lparr>backend = (), journal = ((with_file bs2 (with_file bs empty_fs))
          \<lparr>temporary := None\<rparr>)\<lparr>journal_file := None\<rparr>, tx_record = None\<rparr>)"
    using healthy_store [OF fs(1) bs2] healthy_clear [OF fs(2)]
    by (simp add: rollback_def cleanup_record_def run_defs stored_transaction_def file_journal_def
        cleanup_candidate_def cleanup_step_def cleanup_finish_def try_step_def get_or_insert_def
        result_of_def new_record_def)
  have inv: "record_inv ?r" by (rule record_inv_new) simp
  have start: "tx_record (stored_transaction bs ?r) = Some ?r" "recovery_candidate ?r = None"
    by (simp_all add: stored_transaction_def new_record_def)
  from successful_rollback_leaves_nothing
    [OF start(1) inv disjI1 [OF start(2)] stored_transaction_in_step [OF bs] run] run
  show ?thesis by blast
qed

text \<open>
  A prepare that reports success has run every stage: the record is in phase Prepared for the
  requested owner and declaration, with the link, routes, firewall, sysctl and link-activation
  steps recorded and the policy rule, which would steer traffic, still absent.
\<close>

theorem successful_prepare_completes_every_step:
  assumes "tx_record t = None" and "prepare B J owner d t = (Inr (), t')"
  shows "\<exists>changes. tx_record t' = Some ((new_record owner d)
    \<lparr>tx_phase := TxPrepared, completed_steps := 0x1f, sysctls := changes\<rparr>)"
  using endsD [OF prepare_ok assms(1,2)] by simp

theorem successful_prepare_completes_every_step_witness:
  "\<exists>changes. tx_record (transaction_of (Some prepared_record)) =
     Some ((new_record sample_owner sample_declaration)
       \<lparr>tx_phase := TxPrepared, completed_steps := 0x1f, sysctls := changes\<rparr>)"
  using successful_prepare_completes_every_step [OF _ sample_prepare] by simp


definition failing_backend :: "unit backend_ops" where
  "failing_backend = sample_backend\<lparr>preflight := (\<lambda>_. throw Backend)\<rparr>"


section \<open>Draining, prefixes and policies\<close>

lemma strictly_sorted_remdups_adj:
  "sorted xs \<Longrightarrow> sorted_wrt (<) (remdups_adj xs)" for xs :: "'a::linorder list"
  by (induction xs rule: remdups_adj.induct) (auto simp: order_le_less)


text \<open>
  The drain gate: before its deadline, a draining transaction answers every drain of its owner's
  process with DrainPending and changes nothing, so the old declaration keeps forwarding.
\<close>

theorem drain_waits_for_deadline:
  assumes "tx_record t = Some r" and "tx_phase r = TxDraining" and "recovery_candidate r \<noteq> None"
    and "drain_deadline_mono_ms r \<noteq> 0" and "now < drain_deadline_mono_ms r"
    and "same_process (tx_owner r) owner"
  shows "drain_old B J owner now t = (Inl DrainPending, t)"
  using assms
  by (auto simp: drain_old_def action_defs get_record_def ensure_candidate_owner_def
      ensure_reconfigure_owner_def same_process_def)

definition draining_record :: transaction_record where
  "draining_record = sample_record\<lparr>tx_phase := TxDraining, failed_prefixes := [],
     recovery_candidate := Some replacement_declaration,
     recovery_candidate_owner := Some (sample_owner\<lparr>generation := 4\<rparr>),
     drain_deadline_mono_ms := 60000\<rparr>"

theorem drain_waits_for_deadline_witness:
  "drain_old sample_backend sample_journal sample_owner 59999 (transaction_of (Some draining_record))
     = (Inl DrainPending, transaction_of (Some draining_record))"
  by (rule drain_waits_for_deadline [of _ draining_record])
    (simp_all add: draining_record_def)

text \<open>
  A drain that succeeds promotes the candidate: its declaration and owner become the active
  ones, the candidate slot and the deadline are cleared, and the deadline had passed. Everything
  else of the record is carried over, the failed prefixes of the retired declaration included.
\<close>

theorem drain_promotes_candidate:
  assumes "tx_record t = Some r" and "tx_phase r = TxDraining"
    and "recovery_candidate r = Some candidate" and "drain_old B J owner now t = (Inr (), t')"
  shows "tx_record t' = Some (r\<lparr>tx_owner := (case recovery_candidate_owner r of None \<Rightarrow> owner | Some co \<Rightarrow> co),
      tx_declaration := candidate, recovery_candidate := None, recovery_candidate_owner := None,
      tx_phase := TxActive, drain_deadline_mono_ms := 0\<rparr>)
    \<and> (drain_deadline_mono_ms r = 0 \<or> drain_deadline_mono_ms r \<le> now)"
  using endsD [OF drain_promotes [OF assms(2,3)] assms(1,4)] by simp

theorem drain_promotes_candidate_witness:
  "\<exists>t'. drain_old sample_backend quiet_journal sample_owner 60000 (transaction_of (Some draining_record))
       = (Inr (), t')
     \<and> map_option tx_declaration (tx_record t') = Some replacement_declaration"
proof -
  have "\<exists>t'. drain_old sample_backend quiet_journal sample_owner 60000
      (transaction_of (Some draining_record)) = (Inr (), t')"
    by (simp add: drain_old_def run_defs transaction_of_def draining_record_def
        ensure_candidate_owner_def ensure_reconfigure_owner_def)
  then obtain t' where run: "drain_old sample_backend quiet_journal sample_owner 60000
      (transaction_of (Some draining_record)) = (Inr (), t')" by blast
  from drain_promotes_candidate [OF _ _ _ run, of draining_record replacement_declaration] run
  show ?thesis by (simp add: draining_record_def)
qed

text \<open>
  Prefix withdrawal is scoped: a call that sets the failed prefixes succeeds only if every one
  of them is a remote route of the active declaration, so a stale or hostile report cannot change
  other routing state; the record then holds exactly the reported set, strictly sorted.
\<close>

theorem failed_prefixes_are_scoped:
  assumes "tx_record t = Some r" and "set_failed_prefixes B J owner ps t = (Inr (), t')"
  shows "\<exists>r'. tx_record t' = Some r' \<and> tx_declaration r' = tx_declaration r
    \<and> set (failed_prefixes r') = set ps \<and> sorted_wrt (<) (failed_prefixes r')
    \<and> (\<forall>p \<in> set ps. \<exists>route \<in> set (routes (tx_declaration r)).
         route_prefix route = p \<and> route_kind route \<noteq> Local)"
proof -
  note ok = endsD [OF set_failed_prefixes_ok assms(1,2), simplified]
  have remote: "is_remote k \<longleftrightarrow> k \<noteq> Local" for k by (cases k) simp_all
  have "sorted_wrt (<) (remdups_adj (sort ps))"
    by (rule strictly_sorted_remdups_adj) simp
  with ok show ?thesis
    by (fastforce simp: list_all_iff is_remote_prefix_def list_ex_iff remote)
qed

theorem failed_prefixes_are_scoped_witness:
  "\<exists>t' r'. set_failed_prefixes sample_backend quiet_journal sample_owner
       [Ipv4Prefix 0x0A020000 16, Ipv4Prefix 0x0A020000 16] (transaction_of (Some sample_record))
       = (Inr (), t')
     \<and> tx_record t' = Some r' \<and> set (failed_prefixes r') = {Ipv4Prefix 0x0A020000 16}"
proof -
  have "\<exists>t'. set_failed_prefixes sample_backend quiet_journal sample_owner
       [Ipv4Prefix 0x0A020000 16, Ipv4Prefix 0x0A020000 16] (transaction_of (Some sample_record))
       = (Inr (), t')"
    by (simp add: set_failed_prefixes_def run_defs transaction_of_def is_remote_prefix_def
        sample_record_def sample_declaration_def ensure_owner_def)
  then obtain t' where run: "set_failed_prefixes sample_backend quiet_journal sample_owner
       [Ipv4Prefix 0x0A020000 16, Ipv4Prefix 0x0A020000 16] (transaction_of (Some sample_record))
       = (Inr (), t')" by blast
  from failed_prefixes_are_scoped [OF tx_record_transaction_of run] run show ?thesis by auto
qed

text \<open>
  A policy update that succeeds is in place: it was sent for a running transaction with the
  same tunnel (table, overlay address, MTU and exclusions); afterwards the declaration is the new
  one and owner, phase and completed steps are as before, with no candidate left. Of the failed
  prefixes, exactly those that are still remote routes are retained.
\<close>

theorem policy_update_keeps_tunnel:
  assumes "tx_record t = Some r" and "update_policy B J owner d t = (Inr (), t')"
  shows "tx_phase r \<in> {TxActive, TxSuspended} \<and> same_tunnel_declaration (tx_declaration r) d
    \<and> (\<exists>r'. tx_record t' = Some r' \<and> tx_declaration r' = d \<and> tx_owner r' = tx_owner r
         \<and> tx_phase r' = tx_phase r \<and> completed_steps r' = completed_steps r
         \<and> recovery_candidate r' = None
         \<and> (tx_declaration r \<noteq> d \<longrightarrow>
              failed_prefixes r' = filter (is_remote_prefix d) (failed_prefixes r)))"
  using endsD [OF update_policy_ok assms(1,2)] by simp

theorem policy_update_keeps_tunnel_witness:
  "same_tunnel_declaration sample_declaration sample_declaration
   \<and> (\<exists>r'. tx_record (transaction_of (Some sample_record)) = Some r' \<and> tx_phase r' = TxActive)"
proof -
  have "update_policy sample_backend quiet_journal sample_owner sample_declaration
      (transaction_of (Some sample_record)) = (Inr (), transaction_of (Some sample_record))"
    by (simp add: update_policy_def run_defs check_declaration_def transaction_of_def)
  from policy_update_keeps_tunnel [OF tx_record_transaction_of this] show ?thesis by simp
qed

text \<open>
  Make before break: reconfiguring an active transaction stages the new declaration beside the
  old one. Whatever the outcome, and whatever failed in the backend or the journal, the record is
  retained and its active declaration is the one it was.
\<close>

theorem staging_never_disturbs_active:
  assumes "tx_record t = Some r" and "tx_phase r = TxActive"
    and "reconfigure B J owner d t = (res, t')"
  shows "\<exists>r'. tx_record t' = Some r' \<and> tx_declaration r' = tx_declaration r"
  using endsD [OF staging_keeps_declaration [OF assms(2)] assms(1,3)] by (simp add: same_declaration_def)

theorem staging_never_disturbs_active_witness:
  "\<exists>r'. tx_record (snd (reconfigure sample_backend sample_journal sample_owner replacement_declaration
      (transaction_of (Some sample_record)))) = Some r' \<and> tx_declaration r' = sample_declaration"
  using staging_never_disturbs_active [OF tx_record_transaction_of sample_record_simps(3)
      prod.collapse [symmetric], of sample_backend sample_journal sample_owner replacement_declaration]
  by simp

section \<open>Recovery\<close>

text \<open>
  Recovery spares the living: while the owner process is alive and its lease has not expired,
  orphan recovery of a transaction that is neither rolling back nor draining does nothing.
\<close>

theorem live_lease_is_not_recovered:
  assumes "tx_record t = Some r" and "lease_deadline_mono_ms (tx_owner r) > now"
    and "tx_phase r \<noteq> TxRollingBack" and "tx_phase r \<noteq> TxDraining"
  shows "recover_orphan B J True now t = (Inr False, t)"
  using assms by (rule recover_orphan_alive)

theorem live_lease_is_not_recovered_witness:
  "recover_orphan sample_backend sample_journal True 89999 (transaction_of (Some sample_record))
     = (Inr False, transaction_of (Some sample_record))"
  by (rule live_lease_is_not_recovered [OF tx_record_transaction_of]) (simp_all add: sample_owner_def)

text \<open>
  Recovery buries the dead: when the owner process is gone, a successful recovery of an active
  or suspended transaction reports that it recovered, and leaves no record in memory and nothing
  for the next start to load.
\<close>

theorem dead_owner_is_recovered:
  assumes "tx_record t = Some r" and "record_inv r" and "tx_phase r \<in> {TxActive, TxSuspended}"
    and "in_step (durable_record sha256) (reload_record sha256) t"
    and "recover_orphan B (file_journal sha256) False now t = (Inr recovered, t')"
  shows "recovered \<and> tx_record t' = None \<and> durable_record sha256 (journal t') = Inr None"
proof -
  have "recovered \<and> tx_record t' = None"
    using endsD [OF recover_orphan_dead [OF assms(2,3)] assms(1,5)] by simp
  moreover have "in_step (durable_record sha256) (reload_record sha256) t'"
    using settlesD [OF file_journal.recover_orphan_settles assms(4,5)] .
  ultimately show ?thesis by (simp add: in_step_def stored_def)
qed

theorem dead_owner_is_recovered_witness:
  "\<exists>bs t'. recover_orphan sample_backend (file_journal sample_sha256) False 0
      (stored_transaction bs ((new_record sample_owner sample_declaration)\<lparr>tx_phase := TxActive\<rparr>))
      = (Inr True, t')
     \<and> tx_record t' = None \<and> durable_record sample_sha256 (journal t') = Inr None"
proof -
  let ?r = "(new_record sample_owner sample_declaration)\<lparr>tx_phase := TxActive\<rparr>"
  obtain bs where bs: "encode_record sample_sha256 ?r = Inr bs" using new_record_encodes by blast
  obtain bs2 where bs2: "encode_record sample_sha256 (?r\<lparr>tx_phase := TxRollingBack\<rparr>) = Inr bs2"
    using new_record_encodes by simp blast
  have fs: "healthy (with_file bs empty_fs)"
      "healthy ((with_file bs2 (with_file bs empty_fs))\<lparr>temporary := None\<rparr>)"
    by (simp_all add: healthy_with_file)
  have run: "recover_orphan sample_backend (file_journal sample_sha256) False 0 (stored_transaction bs ?r)
      = (Inr True, \<lparr>backend = (), journal = ((with_file bs2 (with_file bs empty_fs))
          \<lparr>temporary := None\<rparr>)\<lparr>journal_file := None\<rparr>, tx_record = None\<rparr>)"
    using healthy_store [OF fs(1) bs2] healthy_clear [OF fs(2)]
    by (simp add: recover_orphan_def policy_update_pending_def cleanup_record_def run_defs
        stored_transaction_def file_journal_def cleanup_candidate_def cleanup_step_def
        cleanup_finish_def try_step_def get_or_insert_def result_of_def new_record_def)
  have inv: "record_inv ?r" using record_inv_phase [OF record_inv_new] by (simp add: new_record_def)
  have start: "tx_record (stored_transaction bs ?r) = Some ?r" "tx_phase ?r \<in> {TxActive, TxSuspended}"
    by (simp_all add: stored_transaction_def)
  from dead_owner_is_recovered [OF start(1) inv start(2) stored_transaction_in_step [OF bs] run] run
  show ?thesis by blast
qed

text \<open>
  A restart forgets that a policy update was in place: no transaction loaded from the file
  journal satisfies the guard of the in-place policy recovery, because the loader drops a candidate
  owner equal to the owner. A crash during a policy update therefore takes the full cleanup, which
  removes the tunnel the code means to keep.
\<close>

theorem policy_recovery_unreachable_after_restart:
  assumes "new_transaction (file_journal sha256) b fs = Inr t" and "tx_record t = Some r"
  shows "\<not> policy_update_pending r"
proof -
  obtain fs' where "load sha256 fs = (Inr (Some r), fs')"
    using assms by (auto simp: new_transaction_def file_journal_def split: prod.splits sum.splits)
  then have "durable_record sha256 fs = Inr (Some r)" by (rule load_effect(2)) simp
  then obtain bs where "decode_record sha256 bs = Inr r"
    by (auto simp: durable_record_eq rbind_eq_Inr split: if_splits option.splits)
  from decode_record_fields(6) [OF this] show ?thesis by (simp add: policy_update_pending_def)
qed

lemma load_stored:
  assumes "encode_record sample_sha256 r = Inr bs" and "record_loadable r"
  shows "new_transaction (file_journal sample_sha256) b (with_file bs empty_fs)
    = Inr \<lparr>backend = b, journal = with_file bs empty_fs, tx_record = Some (durable_image r)\<rparr>"
proof -
  have h: "healthy (with_file bs empty_fs)" by (simp add: healthy_with_file)
  have opened: "map_option snd (journal_file (with_file bs empty_fs)) = Some bs"
    by (simp add: with_file_def)
  have "load sample_sha256 (with_file bs empty_fs) = (Inr (Some (durable_image r)), with_file bs empty_fs)"
    using healthy_guards [OF h] encode_record_length [OF assms(1)] decode_encode_record [OF assms] opened
    by (simp add: load_def andthen_def bind_def of_result_def return_def)
  then show ?thesis by (simp add: new_transaction_def file_journal_def)
qed

definition updating_record :: transaction_record where
  "updating_record = sample_record\<lparr>tx_phase := TxRollingBack, failed_prefixes := [],
     recovery_candidate := Some sample_declaration, recovery_candidate_owner := Some sample_owner\<rparr>"

theorem policy_recovery_unreachable_after_restart_witness:
  "policy_update_pending updating_record
   \<and> (\<exists>bs t r. encode_record sample_sha256 updating_record = Inr bs
        \<and> new_transaction (file_journal sample_sha256) () (with_file bs empty_fs) = Inr t
        \<and> tx_record t = Some r \<and> \<not> policy_update_pending r)"
proof
  show "policy_update_pending updating_record"
    by (simp add: policy_update_pending_def updating_record_def same_tunnel_declaration_def
        sample_record_def step_defs)
  have "record_encodable updating_record" "record_valid updating_record"
    using sample_record_ok(1,2)
    by (auto simp: record_encodable_def record_valid_def updating_record_def candidate_phase_def)
  then obtain bs where bs: "encode_record sample_sha256 updating_record = Inr bs"
    using encode_record_total by blast
  have "record_loadable updating_record"
    using sample_record_ok(3) by (simp add: record_loadable_def updating_record_def)
  from policy_recovery_unreachable_after_restart [OF load_stored [OF bs this, of "()"]]
    load_stored [OF bs this, of "()"] bs
  show "\<exists>bs t r. encode_record sample_sha256 updating_record = Inr bs
      \<and> new_transaction (file_journal sample_sha256) () (with_file bs empty_fs) = Inr t
      \<and> tx_record t = Some r \<and> \<not> policy_update_pending r"
    by auto
qed

lemma oversized_store_fails:
  assumes "length (failed_prefixes r) > MAX_FAILED_PREFIXES"
  shows "\<not> is_ok (fst (store sha256 r fs))"
proof -
  have enc: "encode_record sha256 r = Inl Journal"
    using assms by (simp add: encode_record_def record_encodable_def)
  show ?thesis
    by (auto simp: store_def action_defs enc is_ok_def split: prod.splits sum.splits)
qed

text \<open>
  A defect at the failed-prefix limit: the protocol and the transaction accept up to 65536
  failed prefixes, the journal at most 1024. A record in memory with more can never be stored
  again, so every later rollback of it fails, on any backend and any state of the file system.
\<close>

theorem oversized_failed_prefixes_block_rollback:
  assumes "tx_record t = Some r" and "length (failed_prefixes r) > MAX_FAILED_PREFIXES"
    and "recovery_candidate r = None"
  shows "\<not> is_ok (fst (rollback B (file_journal sha256) owner t))"
proof -
  have "\<not> is_ok (fst (store sha256 (r\<lparr>tx_phase := TxRollingBack\<rparr>) (journal t)))"
    by (rule oversized_store_fails) (simp add: assms(2))
  then have "\<not> is_ok (fst (set_phase (file_journal sha256) TxRollingBack t))"
    by (auto simp: set_phase_def update_and_save_def action_defs get_record_def set_record_def
        save_def on_journal_def file_journal_def assms(1) is_ok_def split: prod.splits sum.splits)
  then have "\<not> is_ok (fst (cleanup_record B (file_journal sha256) t))"
    by (auto simp: cleanup_record_def andthen_def bind_def is_ok_def split: prod.splits sum.splits)
  then show ?thesis
    by (auto simp: rollback_def action_defs get_record_def assms(1,3) is_ok_def
        split: prod.splits sum.splits)
qed

theorem oversized_failed_prefixes_block_rollback_witness:
  "\<not> is_ok (fst (rollback sample_backend (file_journal sample_sha256) sample_owner
     (transaction_of (Some (sample_record\<lparr>failed_prefixes :=
        replicate 1025 (Ipv4Prefix 0x0A020000 16)\<rparr>)))))"
  by (rule oversized_failed_prefixes_block_rollback [OF tx_record_transaction_of])
    (simp_all add: MAX_FAILED_PREFIXES_def)

end
