(* ===== verification/Netd_Service.thy ===== *)
theory Netd_Service
  imports Netd_Transaction_Properties
begin

text \<open>
  The netd service (\<^verbatim>\<open>candy-netd/src/lib.rs\<close>): authentication of a peer, the dispatch of a request to
  the session and the network controller, the hand-over of the TUN descriptor, recovery of an
  orphaned transaction and shutdown. The service is generic in its controller, as the Rust type
  \<^verbatim>\<open>NetdService<T, N: NetworkController>\<close> is; the locale \<open>owned_controller\<close> states what the service
  relies on, and the network transaction of \<open>Netd_Transaction\<close> provides it.
\<close>

section \<open>Platform calls\<close>

text \<open>
  The answers of the operating system during one request: the TUN factory, descriptor duplication,
  pidfds, \<^verbatim>\<open>poll\<close> (return value and \<^verbatim>\<open>revents\<close>), \<^verbatim>\<open>kill(pid, 0)\<close> (the errno, zero for success) and
  \<^verbatim>\<open>clock_gettime\<close> (seconds and nanoseconds as unsigned values).
\<close>

record ('d, 'p) platform =
  tun_create :: "unit + 'd"
  dup_cloexec :: "'d \<Rightarrow> unit + 'd"
  open_pidfd :: "u32 \<Rightarrow> 'p option"
  poll_pidfd :: "'p \<Rightarrow> int \<times> u16"
  kill_errno :: "u32 \<Rightarrow> int"
  clock_monotonic :: "(u64 \<times> u64) option"

definition DEFAULT_DRAIN_TIMEOUT_MS :: u64 where "DEFAULT_DRAIN_TIMEOUT_MS = 2000"
definition MAX_DRAIN_TIMEOUT_MS :: u64 where "MAX_DRAIN_TIMEOUT_MS = 30000"

definition monotonic_ms :: "('d, 'p) platform \<Rightarrow> u64" where
  "monotonic_ms env =
     (case clock_monotonic env of
        Some (sec, nsec) \<Rightarrow> saturating_add (saturating_mul sec 1000) (nsec div 1000000)
      | None \<Rightarrow> 0)"

definition POLLIN :: u16 where "POLLIN = 1"
definition POLLHUP :: u16 where "POLLHUP = 0x10"

definition pidfd_is_ready :: "('d, 'p) platform \<Rightarrow> 'p \<Rightarrow> bool" where
  "pidfd_is_ready env fd =
     (case poll_pidfd env fd of
        (result, revents) \<Rightarrow> result > 0 \<and> revents AND (POLLIN OR POLLHUP) \<noteq> 0)"

definition process_is_alive :: "('d, 'p) platform \<Rightarrow> u32 \<Rightarrow> bool" where
  "process_is_alive env p =
     (case open_pidfd env p of
        Some fd \<Rightarrow> \<not> pidfd_is_ready env fd
      | None \<Rightarrow> kill_errno env p = 0 \<or> kill_errno env p = EPERM)"

section \<open>The controller interface\<close>

record 'n network_controller =
  net_call :: "lease_owner \<Rightarrow> controller_call \<Rightarrow> ('n, unit) net_action"
  net_recover_orphan :: "bool \<Rightarrow> u64 \<Rightarrow> ('n, bool) net_action"
  net_retained_owner :: "'n \<Rightarrow> lease_owner option"

definition transaction_controller ::
    "'b backend_ops \<Rightarrow> 'j journal_ops \<Rightarrow> ('b, 'j) transaction network_controller" where
  "transaction_controller B J =
     \<lparr>net_call = controller B J, net_recover_orphan = recover_orphan B J,
      net_retained_owner = retained_owner\<rparr>"

lemma transaction_controller_simps [simp]:
  "net_call (transaction_controller B J) = controller B J"
  "net_recover_orphan (transaction_controller B J) = recover_orphan B J"
  "net_retained_owner (transaction_controller B J) = retained_owner"
  by (simp_all add: transaction_controller_def)

section \<open>Service state\<close>

record ('d, 'p, 'n) netd_service =
  allowed_uid :: u32
  allowed_gid :: u32
  session :: netd_session
  tun :: "'d option"
  owner_pidfd :: "(u32 \<times> 'p) option"
  network_state :: 'n

definition with_network :: "u32 \<Rightarrow> u32 \<Rightarrow> 'n \<Rightarrow> ('d, 'p, 'n) netd_service" where
  "with_network uid gid n =
     \<lparr>allowed_uid = uid, allowed_gid = gid, session = new_session, tun = None, owner_pidfd = None,
      network_state = n\<rparr>"

type_synonym ('d, 'p, 'n, 'a) service_action = "(('d, 'p, 'n) netd_service, error_code, 'a) action"

section \<open>Error codes\<close>

definition error_response :: "u64 \<Rightarrow> error_code \<Rightarrow> netd_response" where
  "error_response i code = \<lparr>response_id = i, body = RespError code\<rparr>"

fun session_error_code :: "netd_session_error \<Rightarrow> error_code" where
  "session_error_code GenerationConflict = CodeGenerationConflict"
| "session_error_code OwnerMismatch = CodeGenerationConflict"
| "session_error_code InvalidTransition = CodeInvalidRequest"
| "session_error_code SessionInvalidDeclaration = CodeInvalidRequest"

fun network_error_code :: "network_error \<Rightarrow> error_code" where
  "network_error_code Conflict = CodeGenerationConflict"
| "network_error_code NetInvalidTransition = CodeInvalidRequest"
| "network_error_code Backend = CodeSystemFailure"
| "network_error_code (BackendStage Preflight) = CodePreflightFailed"
| "network_error_code (BackendStage LinkPrepare) = CodeLinkPrepareFailed"
| "network_error_code (BackendStage RoutePrepare) = CodeRoutePrepareFailed"
| "network_error_code (BackendStage FirewallPrepare) = CodeFirewallPrepareFailed"
| "network_error_code (BackendStage SysctlPrepare) = CodeSysctlPrepareFailed"
| "network_error_code (BackendStage LinkActivate) = CodeLinkActivateFailed"
| "network_error_code (BackendStage PolicyActivate) = CodePolicyActivateFailed"
| "network_error_code Journal = CodeSystemFailure"
| "network_error_code DrainPending = CodeDrainPending"

section \<open>Dispatch\<close>

text \<open>
  A call of the controller, whose error is turned into the code of an error response. The early
  \<^verbatim>\<open>return Ok((error_response(..), None))\<close> of an arm is \<open>throw\<close>.
\<close>

definition call_network :: "'n network_controller \<Rightarrow> lease_owner \<Rightarrow> controller_call \<Rightarrow> ('d, 'p, 'n, unit) service_action" where
  "call_network N owner call s =
     (case net_call N owner call (network_state s) of
        (r, n) \<Rightarrow> (map_err network_error_code r, s\<lparr>network_state := n\<rparr>))"

definition ensure_tun :: "('d, 'p) platform \<Rightarrow> ('d, 'p, 'n, 'd) service_action" where
  "ensure_tun env s =
     (case tun s of
        Some fd \<Rightarrow> (Inr fd, s)
      | None \<Rightarrow>
          (case tun_create env of
             Inl _ \<Rightarrow> (Inl CodeSystemFailure, s)
           | Inr fd \<Rightarrow> (Inr fd, s\<lparr>tun := Some fd\<rparr>)))"

definition retain_pidfd :: "('d, 'p) platform \<Rightarrow> u32 \<Rightarrow> ('d, 'p, 'n) netd_service \<Rightarrow> ('d, 'p, 'n) netd_service" where
  "retain_pidfd env p s =
     (if map_option fst (owner_pidfd s) \<noteq> Some p
      then s\<lparr>owner_pidfd := map_option (Pair p) (open_pidfd env p)\<rparr> else s)"

text \<open>The \<^verbatim>\<open>expect("TUN retained")\<close> cannot fail: nothing between \<open>ensure_tun\<close> and it clears the field.\<close>

definition dispatch_prepare ::
    "('d, 'p) platform \<Rightarrow> 'n network_controller \<Rightarrow> lease_owner \<Rightarrow> prepare_declaration
       \<Rightarrow> ('d, 'p, 'n, response_body \<times> 'd option) service_action" where
  "dispatch_prepare env N owner d =
     bind (ensure_tun env) (\<lambda>fd.
     andthen (on_error (call_network N owner (CallPrepare d)) (modify (\<lambda>s. s\<lparr>tun := None\<rparr>)))
     (andthen (modify (retain_pidfd env (pid owner)))
     (case dup_cloexec env fd of
        Inl _ \<Rightarrow> throw CodeSystemFailure
      | Inr copy \<Rightarrow> return (RespPrepared (generation owner) True, Some copy))))"

definition dispatch_commit ::
    "('d, 'p) platform \<Rightarrow> 'n network_controller \<Rightarrow> lease_owner
       \<Rightarrow> ('d, 'p, 'n, response_body \<times> 'd option) service_action" where
  "dispatch_commit env N owner =
     andthen (on_error (call_network N owner (CallCommitWithDrain (monotonic_ms env)
         (min DEFAULT_DRAIN_TIMEOUT_MS MAX_DRAIN_TIMEOUT_MS))) (modify (\<lambda>s. s\<lparr>tun := None\<rparr>)))
     (return (RespCommitted (generation owner), None))"

definition dispatch_rollback ::
    "'n network_controller \<Rightarrow> lease_owner \<Rightarrow> ('d, 'p, 'n, response_body \<times> 'd option) service_action" where
  "dispatch_rollback N owner =
     andthen (call_network N owner CallRollback)
     (andthen (modify (\<lambda>s. s\<lparr>tun := None, owner_pidfd := None\<rparr>))
     (return (RespRolledBack (generation owner), None)))"

text \<open>The arms that only forward to the controller and answer with one body.\<close>

definition forward ::
    "'n network_controller \<Rightarrow> lease_owner \<Rightarrow> controller_call \<Rightarrow> response_body
       \<Rightarrow> ('d, 'p, 'n, response_body \<times> 'd option) service_action" where
  "forward N owner call resp = andthen (call_network N owner call) (return (resp, None))"

definition dispatch ::
    "('d, 'p) platform \<Rightarrow> 'n network_controller \<Rightarrow> netd_session \<Rightarrow> lease_owner \<Rightarrow> netd_operation
       \<Rightarrow> ('d, 'p, 'n, response_body \<times> 'd option) service_action" where
  "dispatch env N next_session owner op =
     (let gen = generation owner in
      case op of
        Prepare d \<Rightarrow> dispatch_prepare env N owner d
      | Commit \<Rightarrow> dispatch_commit env N owner
      | Rollback \<Rightarrow> dispatch_rollback N owner
      | Status \<Rightarrow> return (RespStatus (sess_phase next_session) gen, None)
      | LeaseRenew \<Rightarrow> forward N owner CallRenewLease (RespLeaseRenewed gen)
      | MtuUpdate mtu \<Rightarrow> forward N owner (CallUpdateMtu mtu) (RespMtuUpdated gen mtu)
      | Suspend \<Rightarrow> forward N owner CallSuspend (RespSuspended gen)
      | Reconfigure d \<Rightarrow> forward N owner (CallReconfigure d) (RespReconfigured gen)
      | PolicyUpdate d \<Rightarrow> forward N owner (CallUpdatePolicy d) (RespPolicyUpdated gen)
      | Resume \<Rightarrow> forward N owner CallResume (RespResumed gen)
      | Drain now \<Rightarrow> forward N owner (CallDrainOld now) (RespDrained gen)
      | WithdrawPrefixes ps \<Rightarrow>
          forward N owner (CallSetFailedPrefixes ps)
            (RespPrefixesWithdrawn gen (of_nat (length ps))))"

definition peer_authorized :: "peer_credentials \<Rightarrow> netd_request \<Rightarrow> ('d, 'p, 'n) netd_service \<Rightarrow> bool" where
  "peer_authorized peer req s \<longleftrightarrow>
     \<not> (peer_uid peer \<noteq> allowed_uid s \<or> peer_gid peer \<noteq> allowed_gid s
        \<or> pid (request_owner req) \<noteq> peer_pid peer)"

definition process ::
    "('d, 'p) platform \<Rightarrow> 'n network_controller \<Rightarrow> peer_credentials \<Rightarrow> netd_request
       \<Rightarrow> ('d, 'p, 'n) netd_service \<Rightarrow> (netd_response \<times> 'd option) \<times> ('d, 'p, 'n) netd_service" where
  "process env N peer req s =
     (if \<not> peer_authorized peer req s
      then ((error_response (request_id req) CodeUnauthorizedPeer, None), s)
      else if operation req = Status
      then ((\<lparr>response_id = request_id req,
              body = RespStatus (sess_phase (session s)) (generation (request_owner req))\<rparr>, None), s)
      else
        case apply_session req (session s) of
          (Inl e, _) \<Rightarrow> ((error_response (request_id req) (session_error_code e), None), s)
        | (Inr _, next_session) \<Rightarrow>
            (case dispatch env N next_session (request_owner req) (operation req) s of
               (Inl code, s') \<Rightarrow> ((error_response (request_id req) code, None), s')
             | (Inr (resp, transferred), s') \<Rightarrow>
                 ((\<lparr>response_id = request_id req, body = resp\<rparr>, transferred),
                  s'\<lparr>session := next_session\<rparr>)))"

section \<open>Recovery and shutdown\<close>

definition owner_is_alive :: "('d, 'p) platform \<Rightarrow> ('d, 'p, 'n) netd_service \<Rightarrow> u32 \<Rightarrow> bool" where
  "owner_is_alive env s p =
     (case owner_pidfd s of
        Some (retained_pid, fd) \<Rightarrow>
          if retained_pid = p then \<not> pidfd_is_ready env fd else process_is_alive env p
      | None \<Rightarrow> process_is_alive env p)"

definition forget_owner :: "('d, 'p, 'n) netd_service \<Rightarrow> ('d, 'p, 'n) netd_service" where
  "forget_owner s = s\<lparr>tun := None, session := new_session, owner_pidfd := None\<rparr>"

definition service_recover_orphan ::
    "('d, 'p) platform \<Rightarrow> 'n network_controller \<Rightarrow> u64
       \<Rightarrow> (('d, 'p, 'n) netd_service, network_error, bool) action" where
  "service_recover_orphan env N now s =
     (let alive = (case net_retained_owner N (network_state s) of
            Some owner \<Rightarrow> owner_is_alive env s (pid owner) | None \<Rightarrow> False) in
      case net_recover_orphan N alive now (network_state s) of
        (Inl e, n) \<Rightarrow> (Inl e, s\<lparr>network_state := n\<rparr>)
      | (Inr recovered, n) \<Rightarrow>
          (Inr recovered,
           if recovered then forget_owner (s\<lparr>network_state := n\<rparr>) else s\<lparr>network_state := n\<rparr>))"

definition shutdown ::
    "'n network_controller \<Rightarrow> (('d, 'p, 'n) netd_service, network_error, bool) action" where
  "shutdown N s =
     (case net_retained_owner N (network_state s) of
        None \<Rightarrow> (Inr False, s)
      | Some owner \<Rightarrow>
          (case net_call N owner CallRollback (network_state s) of
             (Inl e, n) \<Rightarrow> (Inl e, s\<lparr>network_state := n\<rparr>)
           | (Inr _, n) \<Rightarrow> (Inr True, forget_owner (s\<lparr>network_state := n\<rparr>))))"

section \<open>Outcomes of one request\<close>

lemmas service_defs = dispatch_prepare_def dispatch_commit_def dispatch_rollback_def forward_def
  call_network_def ensure_tun_def retain_pidfd_def on_error_def

text \<open>Every arm leaves the session alone and makes at most one call of the controller.\<close>

fun operation_call :: "('d, 'p) platform \<Rightarrow> netd_operation \<Rightarrow> controller_call option" where
  "operation_call env (Prepare d) = Some (CallPrepare d)"
| "operation_call env Commit = Some (CallCommitWithDrain (monotonic_ms env)
     (min DEFAULT_DRAIN_TIMEOUT_MS MAX_DRAIN_TIMEOUT_MS))"
| "operation_call env Rollback = Some CallRollback"
| "operation_call env Status = None"
| "operation_call env LeaseRenew = Some CallRenewLease"
| "operation_call env (MtuUpdate mtu) = Some (CallUpdateMtu mtu)"
| "operation_call env Suspend = Some CallSuspend"
| "operation_call env (Reconfigure d) = Some (CallReconfigure d)"
| "operation_call env Resume = Some CallResume"
| "operation_call env (Drain now) = Some (CallDrainOld now)"
| "operation_call env (WithdrawPrefixes ps) = Some (CallSetFailedPrefixes ps)"
| "operation_call env (PolicyUpdate d) = Some (CallUpdatePolicy d)"

lemma dispatch_network:
  assumes "dispatch env N ns owner op s = (r, s')" and "op \<noteq> Status"
  shows "session s' = session s \<and> allowed_uid s' = allowed_uid s \<and> allowed_gid s' = allowed_gid s
    \<and> ((\<exists>code. r = Inl code) \<and> network_state s' = network_state s
       \<or> (\<exists>call r1. operation_call env op = Some call
            \<and> net_call N owner call (network_state s) = (r1, network_state s')
            \<and> (\<forall>x. r = Inr x \<longrightarrow> r1 = Inr ())))"
proof (cases op)
  case (Prepare d)
  with assms(1) show ?thesis
    by (cases "tun s"; cases "tun_create env"; cases "dup_cloexec env (the (tun s))";
        cases "net_call N owner (CallPrepare d) (network_state s)")
      (auto simp: dispatch_def service_defs action_defs map_err_def split: sum.splits if_splits)
next
  case Commit
  with assms(1) show ?thesis
    by (cases "net_call N owner (CallCommitWithDrain (monotonic_ms env)
          (min DEFAULT_DRAIN_TIMEOUT_MS MAX_DRAIN_TIMEOUT_MS)) (network_state s)")
      (auto simp: dispatch_def service_defs action_defs map_err_def split: sum.splits)
qed (use assms in \<open>auto simp: dispatch_def service_defs action_defs map_err_def
      split: sum.splits prod.splits\<close>)

fun success_body :: "lease_owner \<Rightarrow> netd_operation \<Rightarrow> session_phase \<Rightarrow> response_body" where
  "success_body owner (Prepare _) _ = RespPrepared (generation owner) True"
| "success_body owner Commit _ = RespCommitted (generation owner)"
| "success_body owner Rollback _ = RespRolledBack (generation owner)"
| "success_body owner Status phase = RespStatus phase (generation owner)"
| "success_body owner LeaseRenew _ = RespLeaseRenewed (generation owner)"
| "success_body owner (MtuUpdate mtu) _ = RespMtuUpdated (generation owner) mtu"
| "success_body owner Suspend _ = RespSuspended (generation owner)"
| "success_body owner (Reconfigure _) _ = RespReconfigured (generation owner)"
| "success_body owner Resume _ = RespResumed (generation owner)"
| "success_body owner (Drain _) _ = RespDrained (generation owner)"
| "success_body owner (WithdrawPrefixes ps) _ =
     RespPrefixesWithdrawn (generation owner) (of_nat (length ps))"
| "success_body owner (PolicyUpdate _) _ = RespPolicyUpdated (generation owner)"

lemma dispatch_success:
  assumes "dispatch env N ns owner op s = (Inr (resp, transferred), s')"
  shows "resp = success_body owner op (sess_phase ns) \<and> (transferred \<noteq> None \<longleftrightarrow> is_prepare op)"
proof (cases op)
  case (Prepare d)
  with assms show ?thesis
    by (cases "tun s"; cases "tun_create env"; cases "dup_cloexec env (the (tun s))";
        cases "net_call N owner (CallPrepare d) (network_state s)")
      (auto simp: dispatch_def service_defs action_defs map_err_def split: sum.splits if_splits)
qed (use assms in \<open>auto simp: dispatch_def service_defs action_defs map_err_def
      split: sum.splits prod.splits\<close>)

lemma success_body_not_error [simp]:
  "success_body owner op phase \<noteq> RespError code" "RespError code \<noteq> success_body owner op phase"
  by (cases op; simp)+

lemma success_body_prepared:
  "(\<exists>g. success_body owner op phase = RespPrepared g True) \<longleftrightarrow> is_prepare op"
  by (cases op) simp_all

text \<open>The five ways a request ends.\<close>

lemma process_cases:
  assumes "process env N peer req s = ((resp, fd), s')"
  obtains
    (unauthorized) "\<not> peer_authorized peer req s" "s' = s" "fd = None"
      "resp = error_response (request_id req) CodeUnauthorizedPeer"
  | (status) "peer_authorized peer req s" "operation req = Status" "s' = s" "fd = None"
      "resp = \<lparr>response_id = request_id req,
         body = RespStatus (sess_phase (session s)) (generation (request_owner req))\<rparr>"
  | (rejected) e where "peer_authorized peer req s" "operation req \<noteq> Status" "s' = s" "fd = None"
      "apply_session req (session s) = (Inl e, session s)"
      "resp = error_response (request_id req) (session_error_code e)"
  | (failed) ns code where "peer_authorized peer req s" "operation req \<noteq> Status" "fd = None"
      "apply_session req (session s) = (Inr (), ns)"
      "dispatch env N ns (request_owner req) (operation req) s = (Inl code, s')"
      "resp = error_response (request_id req) code"
  | (completed) ns s1 where "peer_authorized peer req s" "operation req \<noteq> Status"
      "apply_session req (session s) = (Inr (), ns)"
      "dispatch env N ns (request_owner req) (operation req) s = (Inr (body resp, fd), s1)"
      "response_id resp = request_id req" "s' = s1\<lparr>session := ns\<rparr>"
proof (cases "peer_authorized peer req s")
  case False
  show ?thesis by (rule unauthorized) (use assms False in \<open>simp_all add: process_def\<close>)
next
  case auth: True
  show ?thesis
  proof (cases "operation req = Status")
    case True
    show ?thesis by (rule status) (use assms auth True in \<open>auto simp: process_def\<close>)
  next
    case op: False
    obtain r ns where ap: "apply_session req (session s) = (r, ns)" by fastforce
    show ?thesis
    proof (cases r)
      case (Inl e)
      with ap have "apply_session req (session s) = (Inl e, session s)"
        using session_error_unchanged [of req "session s" e ns] by simp
      then show ?thesis
        by (rule rejected [OF auth op, rotated 2]) (use assms auth op ap Inl in \<open>auto simp: process_def\<close>)
    next
      case (Inr u)
      with ap have ap': "apply_session req (session s) = (Inr (), ns)" by simp
      obtain r1 s1 where d: "dispatch env N ns (request_owner req) (operation req) s = (r1, s1)"
        by fastforce
      show ?thesis
      proof (cases r1)
        case code: (Inl code)
        show ?thesis
          by (rule failed [OF auth op _ ap']) (use assms auth op ap' d code in \<open>auto simp: process_def\<close>)
      next
        case x: (Inr x)
        obtain b t where "x = (b, t)" by fastforce
        then show ?thesis
          by (intro completed [OF auth op ap', of s1])
            (use assms auth op ap' d x in \<open>auto simp: process_def\<close>)
      qed
    qed
  qed
qed

section \<open>The contract of a controller\<close>

text \<open>
  What the service needs of its controller: the retained owner never leaves its process, a foreign
  process gets nothing done, and an invariant of the controller's own is kept.
\<close>

locale owned_controller =
  fixes N :: "'n network_controller"
    and good :: "'n \<Rightarrow> bool"
  assumes call_inv: "good n \<Longrightarrow> net_call N owner call n = (r, n') \<Longrightarrow> good n'"
    and recover_inv: "good n \<Longrightarrow> net_recover_orphan N alive now n = (rb, n') \<Longrightarrow> good n'"
    and foreign_call: "net_retained_owner N n = Some q \<Longrightarrow> \<not> same_process q owner \<Longrightarrow>
          \<exists>e. net_call N owner call n = (Inl e, n)"
    and call_owner: "good n \<Longrightarrow> net_call N owner call n = (r, n') \<Longrightarrow>
          net_retained_owner N n' = Some q' \<Longrightarrow>
          same_process (case net_retained_owner N n of Some q \<Rightarrow> q | None \<Rightarrow> owner) q'"
    and recover_owner: "good n \<Longrightarrow> net_recover_orphan N alive now n = (rb, n') \<Longrightarrow>
          net_retained_owner N n' = Some q' \<Longrightarrow>
          \<exists>q. net_retained_owner N n = Some q \<and> same_process q q'"

text \<open>A running session and the retained transaction belong to one process.\<close>

definition service_inv :: "'n network_controller \<Rightarrow> ('n \<Rightarrow> bool) \<Rightarrow> ('d, 'p, 'n) netd_service \<Rightarrow> bool" where
  "service_inv N good s \<longleftrightarrow>
     session_inv (session s) \<and> good (network_state s)
     \<and> (\<forall>owner q. sess_phase (session s) \<noteq> Stopped \<and> sess_owner (session s) = Some owner
          \<and> net_retained_owner N (network_state s) = Some q \<longrightarrow> same_process owner q)"

inductive service_reachable ::
    "'n network_controller \<Rightarrow> ('n \<Rightarrow> bool) \<Rightarrow> ('d, 'p, 'n) netd_service \<Rightarrow> bool"
  for N :: "'n network_controller" and good :: "'n \<Rightarrow> bool" where
  start: "good n \<Longrightarrow> service_reachable N good (with_network uid gid n)"
| request: "service_reachable N good s \<Longrightarrow> process env N peer req s = (out, s') \<Longrightarrow>
    service_reachable N good s'"
| recover: "service_reachable N good s \<Longrightarrow> service_recover_orphan env N now s = (rb, s') \<Longrightarrow>
    service_reachable N good s'"
| stop: "service_reachable N good s \<Longrightarrow> shutdown N s = (rb, s') \<Longrightarrow> service_reachable N good s'"

lemma same_process_trans [trans]: "same_process a b \<Longrightarrow> same_process b c \<Longrightarrow> same_process a c"
  by (simp add: same_process_def)

lemma accepted_owner_process:
  assumes "apply_session req s = (Inr u, s')" and "sess_owner s' = Some owner'"
  shows "same_process owner' (request_owner req)"
  using accepted_owner [OF assms] prepare_sets_owner [OF assms(1)] assms(2)
  by (auto simp: same_process_def)

lemma forget_owner_simps [simp]:
  "session (forget_owner s) = new_session" "tun (forget_owner s) = None"
  "owner_pidfd (forget_owner s) = None" "network_state (forget_owner s) = network_state s"
  by (simp_all add: forget_owner_def)

lemma service_inv_new_session:
  "session s = new_session \<Longrightarrow> good (network_state s) \<Longrightarrow> service_inv N good s"
  using session_inv_new by (simp add: service_inv_def new_session_def)

context owned_controller
begin

lemma call_keeps_process:
  assumes "good n" and "net_call N owner call n = (r, n')" and "net_retained_owner N n' = Some q'"
    and "\<And>q. net_retained_owner N n = Some q \<Longrightarrow> same_process owner q"
  shows "same_process owner q'"
  using call_owner [OF assms(1-3)] assms(4)
  by (cases "net_retained_owner N n") (auto intro: same_process_trans)

lemma call_ok_process:
  assumes "net_call N owner call n = (Inr u, n')" and "net_retained_owner N n = Some q"
  shows "same_process owner q"
  using foreign_call [OF assms(2), of owner call] assms(1) by (auto intro: same_process_sym [THEN iffD1])

lemma process_failed_inv:
  assumes inv: "service_inv N good s" and ap: "apply_session req (session s) = (Inr (), ns)"
    and d: "dispatch env N ns (request_owner req) (operation req) s = (Inl code, s')"
    and op: "operation req \<noteq> Status"
  shows "service_inv N good s'"
proof -
  note dn = dispatch_network [OF d op]
  have own: "same_process owner (request_owner req)"
    if "sess_phase (session s) \<noteq> Stopped" "sess_owner (session s) = Some owner" for owner
    using fence_running_owner [OF ap that(2,1)] by blast
  from dn consider "network_state s' = network_state s"
    | call r1 where "net_call N (request_owner req) call (network_state s) = (r1, network_state s')"
    by blast
  then show ?thesis
  proof cases
    case 1
    with dn inv show ?thesis by (simp add: service_inv_def)
  next
    case 2
    have "same_process owner q'"
      if "sess_phase (session s) \<noteq> Stopped" "sess_owner (session s) = Some owner"
        "net_retained_owner N (network_state s') = Some q'" for owner q'
    proof -
      have "same_process (request_owner req) q"
        if "net_retained_owner N (network_state s) = Some q" for q
        using own [OF \<open>sess_phase (session s) \<noteq> Stopped\<close> \<open>sess_owner (session s) = Some owner\<close>]
          inv that \<open>sess_phase (session s) \<noteq> Stopped\<close> \<open>sess_owner (session s) = Some owner\<close>
        by (auto simp: service_inv_def intro: same_process_trans same_process_sym [THEN iffD1])
      then have "same_process (request_owner req) q'"
        using call_keeps_process [OF _ 2 that(3)] inv by (simp add: service_inv_def)
      with own [OF that(1,2)] show ?thesis by (rule same_process_trans)
    qed
    with dn inv 2 call_inv show ?thesis by (auto simp: service_inv_def)
  qed
qed

lemma process_completed_inv:
  assumes inv: "service_inv N good s" and ap: "apply_session req (session s) = (Inr (), ns)"
    and d: "dispatch env N ns (request_owner req) (operation req) s = (Inr x, s1)"
    and op: "operation req \<noteq> Status"
  shows "service_inv N good (s1\<lparr>session := ns\<rparr>)"
proof -
  from dispatch_network [OF d op] obtain call
    where call: "net_call N (request_owner req) call (network_state s) = (Inr (), network_state s1)"
    by auto
  have net: "good (network_state s)" and sess: "session_inv (session s)"
    using inv by (simp_all add: service_inv_def)
  have "same_process owner q'"
    if "sess_owner ns = Some owner" "net_retained_owner N (network_state s1) = Some q'" for owner q'
    using accepted_owner_process [OF ap that(1)]
      call_keeps_process [OF net call that(2) call_ok_process [OF call]]
    by (rule same_process_trans)
  then show ?thesis
    using call_inv [OF net call] apply_session_inv [OF sess ap] by (simp add: service_inv_def)
qed

lemma process_keeps_inv:
  assumes "service_inv N good s" and "process env N peer req s = (out, s')"
  shows "service_inv N good s'"
proof -
  obtain resp fd where "process env N peer req s = ((resp, fd), s')" using assms(2) by (cases out) auto
  then show ?thesis
  proof (cases rule: process_cases)
    case (failed ns code)
    with assms(1) process_failed_inv show ?thesis by blast
  next
    case (completed ns s1)
    with assms(1) process_completed_inv show ?thesis by blast
  qed (use assms(1) in simp_all)
qed

lemma recover_keeps_inv:
  assumes inv: "service_inv N good s" and "service_recover_orphan env N now s = (rb, s')"
  shows "service_inv N good s'"
proof -
  obtain alive r n where call: "net_recover_orphan N alive now (network_state s) = (r, n)"
      and s': "s' = s\<lparr>network_state := n\<rparr> \<or> s' = forget_owner (s\<lparr>network_state := n\<rparr>)"
    using assms(2)
    by (fastforce simp: service_recover_orphan_def Let_def split: prod.splits sum.splits if_splits)
  have n: "good n" using inv call recover_inv by (auto simp: service_inv_def)
  show ?thesis
  proof (cases "s' = forget_owner (s\<lparr>network_state := n\<rparr>)")
    case True
    with n show ?thesis by (auto intro: service_inv_new_session)
  next
    case False
    with s' have "s' = s\<lparr>network_state := n\<rparr>" by simp
    with inv n recover_owner [OF _ call] show ?thesis
      by (fastforce simp: service_inv_def intro: same_process_trans)
  qed
qed

lemma shutdown_keeps_inv:
  assumes inv: "service_inv N good s" and "shutdown N s = (rb, s')"
  shows "service_inv N good s'"
proof (cases "net_retained_owner N (network_state s)")
  case None
  with assms show ?thesis by (simp add: shutdown_def)
next
  case (Some q)
  obtain r n where call: "net_call N q CallRollback (network_state s) = (r, n)" by fastforce
  have n: "good n" using inv call call_inv by (auto simp: service_inv_def)
  show ?thesis
  proof (cases r)
    case (Inl e)
    with assms(2) Some call have "s' = s\<lparr>network_state := n\<rparr>" by (simp add: shutdown_def)
    moreover have "same_process q q'" if "net_retained_owner N n = Some q'" for q'
      using call_owner [OF _ call that] inv Some by (simp add: service_inv_def)
    ultimately show ?thesis
      using inv n Some by (fastforce simp: service_inv_def intro: same_process_trans)
  next
    case (Inr u)
    with assms(2) Some call have "s' = forget_owner (s\<lparr>network_state := n\<rparr>)"
      by (simp add: shutdown_def)
    with n show ?thesis by (auto intro: service_inv_new_session)
  qed
qed

lemma reachable_service_inv: "service_reachable N good s \<Longrightarrow> service_inv N good s"
proof (induction rule: service_reachable.induct)
  case (start n uid gid)
  then show ?case by (auto intro: service_inv_new_session simp: with_network_def)
qed (blast intro: process_keeps_inv recover_keeps_inv shutdown_keeps_inv)+

end

end
