(* ===== verification/Netd_Service_Properties.thy ===== *)
theory Netd_Service_Properties
  imports Netd_Service
begin

text \<open>
  The netd service over the network transaction: the contract of \<open>Netd_Service\<close> is discharged for
  \<^verbatim>\<open>NetworkTransaction\<close>, and the properties of the two together are stated and instantiated.
\<close>

section \<open>The network transaction provides the contract\<close>

definition well_formed :: "('b, 'j) transaction \<Rightarrow> bool" where
  "well_formed t \<longleftrightarrow> pred_option record_inv (tx_record t)"

lemma well_formed_iff: "well_formed t \<longleftrightarrow> (\<forall>r. tx_record t = Some r \<longrightarrow> record_inv r)"
  by (cases "tx_record t") (simp_all add: well_formed_def)

lemma controller_owner:
  assumes "well_formed t" and "controller B J owner call t = (res, t')" and "tx_record t' = Some r'"
  shows "record_inv r'
    \<and> same_process (case retained_owner t of Some q \<Rightarrow> q | None \<Rightarrow> owner) (tx_owner r')"
proof (cases "tx_record t")
  case None
  with controller_None [OF None assms(2)] assms(3) show ?thesis by (simp add: retained_owner_def)
next
  case (Some r)
  with assms(1) have "record_inv r" by (simp add: well_formed_def)
  from endsD [OF kept_controller [OF this] Some assms(2)] Some assms(3) show ?thesis
    by (simp add: retained_owner_def)
qed

lemma recover_orphan_owner:
  assumes "well_formed t" and "recover_orphan B J alive now t = (res, t')" and "tx_record t' = Some r'"
  shows "record_inv r' \<and> (\<exists>q. retained_owner t = Some q \<and> same_process q (tx_owner r'))"
proof (cases "tx_record t")
  case None
  with assms(2,3) show ?thesis by (auto simp: recover_orphan_def action_defs)
next
  case (Some r)
  with assms(1) have "record_inv r" by (simp add: well_formed_def)
  from endsD [OF kept_recover_orphan [OF this] Some assms(2)] Some assms(3) show ?thesis
    by (simp add: retained_owner_def)
qed

interpretation transaction_service: owned_controller "transaction_controller B J" well_formed
  for B :: "'b backend_ops" and J :: "'j journal_ops"
proof
  fix n owner call r n'
  assume *: "well_formed n" "net_call (transaction_controller B J) owner call n = (r, n')"
  from controller_owner [OF *(1)] *(2) show "well_formed n'" by (auto simp: well_formed_iff)
  fix q'
  assume "net_retained_owner (transaction_controller B J) n' = Some q'"
  then obtain r' where "tx_record n' = Some r'" "q' = tx_owner r'" by (auto simp: retained_owner_def)
  with controller_owner [OF *(1)] *(2)
  show "same_process (case net_retained_owner (transaction_controller B J) n of
      None \<Rightarrow> owner | Some q \<Rightarrow> q) q'" by auto
next
  fix n alive now rb n'
  assume *: "well_formed n" "net_recover_orphan (transaction_controller B J) alive now n = (rb, n')"
  from recover_orphan_owner [OF *(1)] *(2) show "well_formed n'" by (auto simp: well_formed_iff)
  fix q'
  assume "net_retained_owner (transaction_controller B J) n' = Some q'"
  then obtain r' where "tx_record n' = Some r'" "q' = tx_owner r'" by (auto simp: retained_owner_def)
  with recover_orphan_owner [OF *(1)] *(2)
  show "\<exists>q. net_retained_owner (transaction_controller B J) n = Some q \<and> same_process q q'" by auto
next
  fix n q owner call
  assume "net_retained_owner (transaction_controller B J) n = Some q" "\<not> same_process q owner"
  then show "\<exists>e. net_call (transaction_controller B J) owner call n = (Inl e, n)"
    using foreign_unchanged by (auto simp: retained_owner_def)
qed

section \<open>Concrete services\<close>

definition sample_platform :: "(nat, nat) platform" where
  "sample_platform =
     \<lparr>tun_create = Inr 7, dup_cloexec = (\<lambda>fd. Inr (fd + 1)), open_pidfd = (\<lambda>p. Some (unat p)),
      poll_pidfd = (\<lambda>_. (0, 0)), kill_errno = (\<lambda>_. 0), clock_monotonic = Some (5, 0)\<rparr>"

definition sample_peer :: peer_credentials where
  "sample_peer = \<lparr>peer_pid = 4242, peer_uid = 0, peer_gid = 0\<rparr>"

abbreviation sample_network :: "(unit, journal_fs) transaction network_controller" where
  "sample_network \<equiv> transaction_controller sample_backend quiet_journal"

definition fresh_service :: "(nat, nat, (unit, journal_fs) transaction) netd_service" where
  "fresh_service = with_network 0 0 (transaction_of None)"

definition prepared_service :: "(nat, nat, (unit, journal_fs) transaction) netd_service" where
  "prepared_service = fresh_service\<lparr>session := active_session\<lparr>sess_phase := Prepared\<rparr>,
     tun := Some 7, owner_pidfd := Some (4242, 4242),
     network_state := transaction_of (Some prepared_record)\<rparr>"

lemma sample_peer_authorized [simp]:
  "peer_authorized sample_peer (sample_request op) fresh_service"
  "peer_authorized sample_peer (sample_request op) prepared_service"
  by (simp_all add: peer_authorized_def sample_peer_def fresh_service_def prepared_service_def
      with_network_def sample_owner_def)

lemma fresh_prepare:
  "process sample_platform sample_network sample_peer (sample_request (Prepare sample_declaration))
     fresh_service
   = ((\<lparr>response_id = 11, body = RespPrepared 3 True\<rparr>, Some 8), prepared_service)"
proof -
  have "apply_session (sample_request (Prepare sample_declaration)) new_session
      = (Inr (), active_session\<lparr>sess_phase := Prepared\<rparr>)"
    by (simp add: apply_session_def sample_prepare_valid owner_fence_def new_session_def
        active_session_def move_owner_def apply_operation_def apply_prepare_def)
  moreover have "controller sample_backend quiet_journal sample_owner (CallPrepare sample_declaration)
      (transaction_of None) = (Inr (), transaction_of (Some prepared_record))"
    by (simp add: sample_prepare)
  ultimately show ?thesis
    by (simp add: process_def fresh_service_def prepared_service_def with_network_def dispatch_def
        service_defs action_defs sample_platform_def sample_owner_def map_err_def peer_authorized_def
        sample_peer_def)
qed

section \<open>Answers\<close>

lemma success_body_session:
  assumes "op \<noteq> Status"
  shows "(case success_body owner op phase of RespError c \<Rightarrow> P | RespStatus a b \<Rightarrow> Q | _ \<Rightarrow> R) \<longleftrightarrow> R"
  using assms by (cases op) simp_all

text \<open>
  The answer tells the truth about the session. Every answer carries the id of its request, a
  TUN descriptor goes out exactly with the answer that announces it, a peer that is not authorized
  changes nothing, a status request changes nothing, an error answer leaves the session as it was,
  and any other answer means that the session has taken exactly the step the request asked for.
\<close>

theorem response_matches_session:
  assumes "process env N peer req s = ((resp, fd), s')"
  shows "response_id resp = request_id req
    \<and> (fd \<noteq> None \<longleftrightarrow> (\<exists>g. body resp = RespPrepared g True))
    \<and> (\<not> peer_authorized peer req s \<longrightarrow> s' = s \<and> body resp = RespError CodeUnauthorizedPeer)
    \<and> (case body resp of
         RespError _ \<Rightarrow> session s' = session s
       | RespStatus _ _ \<Rightarrow> s' = s
       | _ \<Rightarrow> apply_session req (session s) = (Inr (), session s'))"
  using assms
proof (cases rule: process_cases)
  case (failed ns code)
  with dispatch_network [OF failed(5,2)] show ?thesis by (simp add: error_response_def)
next
  case (completed ns s1)
  with dispatch_success [OF completed(4)] success_body_prepared [of "request_owner req" "operation req"]
  show ?thesis by (simp add: success_body_session)
qed (simp_all add: error_response_def)

theorem response_matches_session_witness:
  "apply_session (sample_request (Prepare sample_declaration)) (session fresh_service)
     = (Inr (), session prepared_service)"
  using response_matches_session [OF fresh_prepare] by simp

section \<open>Ownership across the two layers\<close>

text \<open>
  C39: One process owns everything. In every reachable service, whatever the platform, the backend
  and the journal answered on the way, a session that is not stopped and the transaction retained
  by the network layer belong to the same process, the session is well formed and so is the record.
\<close>

theorem running_session_owns_transaction:
  assumes "service_reachable (transaction_controller B J) well_formed s"
    and "tx_record (network_state s) = Some r"
  shows "session_inv (session s) \<and> record_inv r
    \<and> (\<forall>owner. sess_phase (session s) \<noteq> Stopped \<and> sess_owner (session s) = Some owner \<longrightarrow>
         same_process owner (tx_owner r))"
  using transaction_service.reachable_service_inv [OF assms(1)] assms(2)
  by (auto simp: service_inv_def well_formed_iff retained_owner_def)

lemma prepared_service_reachable: "service_reachable sample_network well_formed prepared_service"
proof (rule service_reachable.request [OF _ fresh_prepare])
  show "service_reachable sample_network well_formed fresh_service"
    unfolding fresh_service_def by (rule service_reachable.start) (simp add: well_formed_def)
qed

theorem running_session_owns_transaction_witness:
  "session_inv (session prepared_service) \<and> record_inv prepared_record"
  using running_session_owns_transaction [OF prepared_service_reachable, of prepared_record]
  by (simp add: prepared_service_def)

section \<open>Retrying a prepare\<close>

lemma prepare_again:
  assumes "prepare B J owner d t = (Inr (), t')"
  shows "prepare B J owner d t' = (Inr (), t')"
proof (cases "tx_record t")
  case None
  from endsD [OF prepare_ok None assms] obtain changes
    where "tx_record t' = Some ((new_record owner d)
      \<lparr>tx_phase := TxPrepared, completed_steps := 0x1f, sysctls := changes\<rparr>)"
    by (auto simp: on_ok_def)
  then show ?thesis
    by (simp add: prepare_def action_defs new_record_def ensure_owner_def)
next
  case (Some r)
  with assms have "t' = t"
    by (auto simp: prepare_def action_defs split: sum.splits if_splits)
  with assms show ?thesis by simp
qed

lemma dispatch_prepare_ok:
  assumes "dispatch_prepare env N owner d s = (Inr x, s')"
  shows "net_call N owner (CallPrepare d) (network_state s) = (Inr (), network_state s')
    \<and> tun s' \<noteq> None"
  using assms
  by (cases "tun s"; cases "tun_create env"; cases "dup_cloexec env (the (tun s))";
      cases "net_call N owner (CallPrepare d) (network_state s)")
    (auto simp: service_defs action_defs map_err_def split: sum.splits if_splits)

text \<open>
  A lost answer to Prepare can be repeated. After a Prepare that was answered with success, the
  same request is answered with success again, with a fresh duplicate of the same TUN descriptor,
  and nothing else changes: not the session, not the transaction or its journal, not the descriptor
  netd keeps. Only the owner's pidfd may be opened if that had failed before.
\<close>

theorem prepare_retry_keeps_service:
  assumes first: "process env (transaction_controller B J) peer req s = ((resp, fd), s')"
    and op: "operation req = Prepare d" and ok: "body resp = RespPrepared g b"
    and retained: "tun s' = Some kept_fd" and dup: "dup_cloexec env' kept_fd = Inr copy"
  shows "\<exists>p. process env' (transaction_controller B J) peer req s'
     = ((\<lparr>response_id = request_id req, body = RespPrepared (generation (request_owner req)) True\<rparr>,
         Some copy), s'\<lparr>owner_pidfd := p\<rparr>)"
  using first
proof (cases rule: process_cases)
  case (completed ns s1)
  have dp: "dispatch_prepare env (transaction_controller B J) (request_owner req) d s
      = (Inr (body resp, fd), s1)"
    using completed(4) op by (simp add: dispatch_def)
  from dispatch_prepare_ok [OF dp] have
    call: "prepare B J (request_owner req) d (network_state s') = (Inr (), network_state s')"
    using completed(6) prepare_again by auto
  have ap: "apply_session req (session s') = (Inr (), ns)"
    using session_retry [OF completed(3)] completed(6) op by simp
  have auth: "peer_authorized peer req s'"
    using completed(1,6) dispatch_network [OF completed(4,2)] by (simp add: peer_authorized_def)
  have sess: "session s' = ns" using completed(6) by simp
  show ?thesis
  proof (cases "map_option fst (owner_pidfd s') \<noteq> Some (pid (request_owner req))")
    case True
    show ?thesis
      by (rule exI [of _ "map_option (Pair (pid (request_owner req))) (open_pidfd env' (pid (request_owner req)))"])
        (use ap auth call sess op retained dup True in
          \<open>simp add: process_def dispatch_def service_defs action_defs map_err_def\<close>)
  next
    case False
    show ?thesis
      by (rule exI [of _ "owner_pidfd s'"])
        (use ap auth call sess op retained dup False in
          \<open>auto simp: process_def dispatch_def service_defs action_defs map_err_def\<close>)
  qed
qed (use op ok in \<open>simp_all add: error_response_def\<close>)

theorem prepare_retry_keeps_service_witness:
  "\<exists>p. process sample_platform sample_network sample_peer (sample_request (Prepare sample_declaration))
     prepared_service
   = ((\<lparr>response_id = 11, body = RespPrepared 3 True\<rparr>, Some 8), prepared_service\<lparr>owner_pidfd := p\<rparr>)"
  using prepare_retry_keeps_service [OF fresh_prepare, of sample_declaration 3 True 7 sample_platform 8]
  by (simp add: prepared_service_def sample_platform_def sample_owner_def)

section \<open>A rollback that strands the active generation\<close>

text \<open>Without a candidate, every call but a reconfigure needs the generation of the record.\<close>

lemma wrong_generation_unchanged:
  assumes r: "tx_record t = Some r" and none: "recovery_candidate r = None"
    and gen: "generation (tx_owner r) \<noteq> generation owner" and call: "\<And>d. call \<noteq> CallReconfigure d"
  shows "\<exists>e. controller B J owner call t = (Inl e, t)"
proof -
  have deny: "ensure_owner (tx_owner r) owner = Inl Conflict" using gen by (simp add: ensure_owner_def)
  have decl: "check_declaration d = Inr () \<or> (\<exists>e. check_declaration d = Inl e)" for d
    by (cases "check_declaration d") auto
  show ?thesis
    by (cases call; insert decl call)
      (auto simp: deny r none action_defs get_record_def commit_def prepare_def commit_with_drain_def
        drain_old_def set_failed_prefixes_def rollback_def renew_lease_def update_mtu_def suspend_def
        update_policy_def resume_def ensure_candidate_owner_def split: sum.split)
qed

lemma stopped_session_accepts:
  assumes ap: "apply_session req s = (Inr u, s')" and stopped: "sess_phase s = Stopped"
    and owner: "sess_owner s = Some owner"
  shows "\<not> is_reconfigure (operation req) \<and> generation owner \<le> generation (request_owner req)"
  using ap
proof (cases rule: apply_session_cases)
  case (advance d)
  with owner_fence_Advance [of s req] owner show ?thesis by auto
next
  case move
  with owner_fence_MoveOwner [OF move(1)] stopped show ?thesis by simp
next
  case pass
  moreover have "\<not> is_reconfigure (operation req)"
    using pass(2) stopped by (cases "operation req") (auto simp: apply_operation_def apply_reconfigure_def)
  ultimately show ?thesis using owner_fence_Pass [OF pass(1) owner] by simp
qed

text \<open>A stopped session ahead of the record: nothing but recovery reaches the transaction.\<close>

lemma stranded_refuses:
  assumes r: "tx_record (network_state s) = Some r" and none: "recovery_candidate r = None"
    and stopped: "sess_phase (session s) = Stopped" and owner: "sess_owner (session s) = Some owner"
    and ahead: "generation (tx_owner r) < generation owner" and op: "operation req \<noteq> Status"
    and proc: "process env (transaction_controller B J) peer req s = ((resp, fd), s')"
  shows "(\<exists>code. body resp = RespError code) \<and> network_state s' = network_state s
    \<and> session s' = session s"
proof -
  have denied: "\<exists>e. controller B J (request_owner req) call (network_state s) = (Inl e, network_state s)"
    if ap: "apply_session req (session s) = (Inr (), ns)"
      and call: "operation_call env (operation req) = Some call" for ns call
  proof (rule wrong_generation_unchanged [OF r none])
    from stopped_session_accepts [OF ap stopped owner] ahead
    show "generation (tx_owner r) \<noteq> generation (request_owner req)" by auto
    from stopped_session_accepts [OF ap stopped owner] call
    show "call \<noteq> CallReconfigure d" for d by (cases "operation req") auto
  qed
  from proc show ?thesis
  proof (cases rule: process_cases)
    case (failed ns code)
    with dispatch_network [OF failed(5) op] denied [OF failed(4)] show ?thesis
      by (auto simp: error_response_def)
  next
    case (completed ns s1)
    with dispatch_network [OF completed(4) op] denied [OF completed(3)] show ?thesis by fastforce
  qed (use op in \<open>simp_all add: error_response_def\<close>)
qed

lemma rollback_staged:
  assumes "tx_record t = Some r" and "recovery_candidate r = Some c"
    and "tx_phase r \<in> {TxPreparing, TxPrepared}" and "rollback B J owner t = (Inr (), t')"
  shows "tx_record t' = Some (discard_candidate r)"
  using assms
  by (auto simp: rollback_def action_split get_record_def action_defs on_backend_def
      update_and_save_def save_def set_record_def on_journal_def split: sum.splits prod.splits)

text \<open>
  A rollback of a staged replacement strands the generation that is still active. The answer is
  RolledBack, the session is stopped and the TUN descriptor is closed, but the transaction only
  drops its candidate: the previous generation's record stays Active. If the replacement had the
  higher generation, from then on no request of any peer reaches the transaction: every one of them
  but Status is refused and leaves it untouched.
\<close>

theorem staged_rollback_strands_active:
  assumes r: "tx_record (network_state s) = Some r" and cand: "recovery_candidate r = Some c"
    and staged: "tx_phase r \<in> {TxPreparing, TxPrepared}"
    and op: "operation req = Rollback" and ok: "body resp = RespRolledBack g"
    and proc: "process env (transaction_controller B J) peer req s = ((resp, fd), s')"
    and ahead: "generation (tx_owner r) < generation (request_owner req)"
  shows "sess_phase (session s') = Stopped \<and> tun s' = None
    \<and> tx_record (network_state s') = Some (discard_candidate r)
    \<and> tx_phase (discard_candidate r) = TxActive
    \<and> (\<forall>env' peer' req'. operation req' \<noteq> Status \<longrightarrow>
         (\<exists>code. body (fst (fst (process env' (transaction_controller B J) peer' req' s'))) = RespError code)
         \<and> network_state (snd (process env' (transaction_controller B J) peer' req' s')) = network_state s')"
  using proc
proof (cases rule: process_cases)
  case (completed ns s1)
  have d: "tun s' = None \<and> session s' = ns
      \<and> rollback B J (request_owner req) (network_state s) = (Inr (), network_state s')"
    using completed(4,6) op
    by (cases "rollback B J (request_owner req) (network_state s)")
      (auto simp: dispatch_def service_defs action_defs map_err_def split: sum.splits)
  from rollback_staged [OF r cand staged] d
  have rec: "tx_record (network_state s') = Some (discard_candidate r)" by blast
  have stopped: "sess_phase ns = Stopped" and owner: "sess_owner ns \<noteq> None"
    using completed(3) op
    by (auto simp: apply_session_Inr apply_operation_def apply_rollback_def split: if_splits)
  then obtain owner where owner: "sess_owner ns = Some owner" by blast
  have "generation owner = generation (request_owner req)"
    using accepted_owner [OF completed(3) owner] op by simp
  with ahead have lag: "generation (tx_owner (discard_candidate r)) < generation owner"
    by (simp add: discard_candidate_def)
  have "(\<exists>code. body (fst (fst (process env' (transaction_controller B J) peer' req' s'))) = RespError code)
      \<and> network_state (snd (process env' (transaction_controller B J) peer' req' s')) = network_state s'"
    if "operation req' \<noteq> Status" for env' peer' req'
    using stranded_refuses [OF rec _ _ _ lag that, of env' B J peer'] stopped owner d
    by (cases "process env' (transaction_controller B J) peer' req' s'")
      (auto simp: discard_candidate_def)
  with d stopped rec show ?thesis by (simp add: discard_candidate_def)
qed (use op ok in \<open>simp_all add: error_response_def\<close>)

definition staged_record :: transaction_record where
  "staged_record = sample_record\<lparr>tx_phase := TxPrepared, recovery_candidate := Some replacement_declaration,
     recovery_candidate_owner := Some (sample_owner\<lparr>generation := 4\<rparr>)\<rparr>"

definition staged_service :: "(nat, nat, (unit, journal_fs) transaction) netd_service" where
  "staged_service = prepared_service\<lparr>session := \<lparr>sess_phase = Prepared,
       sess_owner = Some (sample_owner\<lparr>generation := 4\<rparr>),
       sess_declaration = Some replacement_declaration, replacement_pending = True\<rparr>,
     network_state := transaction_of (Some staged_record)\<rparr>"

definition next_request :: "netd_operation \<Rightarrow> netd_request" where
  "next_request op = \<lparr>request_id = 12, request_owner = sample_owner\<lparr>generation := 4\<rparr>, operation = op\<rparr>"

lemma next_request_simps [simp]:
  "request_id (next_request op) = 12" "operation (next_request op) = op"
  "request_owner (next_request op) = sample_owner\<lparr>generation := 4\<rparr>"
  by (simp_all add: next_request_def)

lemma staged_service_simps [simp]:
  "network_state staged_service = transaction_of (Some staged_record)"
  "sess_phase (session staged_service) = Prepared" "replacement_pending (session staged_service)"
  "sess_owner (session staged_service) = Some (sample_owner\<lparr>generation := 4\<rparr>)"
  "peer_authorized sample_peer (next_request op) staged_service"
  by (simp_all add: peer_authorized_def sample_peer_def staged_service_def prepared_service_def
      fresh_service_def with_network_def sample_owner_def)

lemma staged_record_simps [simp]:
  "recovery_candidate staged_record = Some replacement_declaration"
  "tx_phase staged_record = TxPrepared" "tx_owner staged_record = sample_owner"
  by (simp_all add: staged_record_def)

definition stranded_service :: "(nat, nat, (unit, journal_fs) transaction) netd_service" where
  "stranded_service = staged_service
     \<lparr>network_state := transaction_of (Some (discard_candidate staged_record)),
      tun := None, owner_pidfd := None,
      session := session staged_service\<lparr>sess_phase := Stopped, replacement_pending := False\<rparr>\<rparr>"

lemma staged_rollback_runs:
  "process sample_platform sample_network sample_peer (next_request Rollback) staged_service
   = ((\<lparr>response_id = 12, body = RespRolledBack 4\<rparr>, None), stranded_service)"
proof -
  have "apply_session (next_request Rollback) (session staged_service)
      = (Inr (), session staged_service\<lparr>sess_phase := Stopped, replacement_pending := False\<rparr>)"
    by (simp add: apply_session_def validate_request_def validate_owner_def sample_owner_def
        owner_fence_def same_process_def move_owner_def apply_operation_def apply_rollback_def)
  moreover have "rollback sample_backend quiet_journal (sample_owner\<lparr>generation := 4\<rparr>)
      (transaction_of (Some staged_record)) = (Inr (), transaction_of (Some (discard_candidate staged_record)))"
    by (simp add: rollback_def run_defs transaction_of_def ensure_reconfigure_owner_def)
  ultimately show ?thesis
    by (simp add: process_def dispatch_def service_defs action_defs map_err_def stranded_service_def)
qed

theorem staged_rollback_strands_active_witness:
  "\<exists>code. body (fst (fst (process sample_platform sample_network sample_peer
     (next_request Rollback) stranded_service))) = RespError code"
proof -
  have "operation (next_request Rollback) \<noteq> Status \<longrightarrow>
      (\<exists>code. body (fst (fst (process sample_platform sample_network sample_peer
        (next_request Rollback) stranded_service))) = RespError code)"
    using staged_rollback_strands_active [OF _ _ _ _ _ staged_rollback_runs,
        of staged_record replacement_declaration 4]
    by (simp add: sample_owner_def)
  then show ?thesis by simp
qed

section \<open>A failed replacement commit\<close>

lemma ignored_backend_record:
  assumes "ignore (on_backend m) t = (r, t')"
  shows "tx_record t' = tx_record t \<and> (\<exists>u. r = Inr u)"
  using assms by (auto simp: ignore_def on_backend_def action_split action_defs split: prod.splits)

lemma update_and_save_record:
  assumes "update_and_save J f t = (res, t')" and "tx_record t = Some r"
  shows "tx_record t' = Some (f r)"
  using assms
  by (auto simp: update_and_save_def save_def set_record_def get_record_def on_journal_def action_split
      action_defs split: prod.splits)

lemma commit_replacement_failed:
  assumes "commit_replacement B J c now timeout t = (Inl e, t')" and r: "tx_record t = Some r"
  shows "tx_record t' = Some (discard_candidate r)"
proof -
  let ?activate = "andthen (on_backend (activate_link B c)) (andthen (on_backend (install_policy_rule B c))
       (update_and_save J (\<lambda>r. r\<lparr>tx_phase := TxDraining,
          drain_deadline_mono_ms := saturating_add now timeout\<rparr>)))"
  let ?undo = "andthen (ignore (on_backend (remove_policy_rule B c)))
       (andthen (ignore (on_backend (remove_firewall B c)))
       (andthen (ignore (on_backend (remove_routes B c))) (update_and_save J discard_candidate)))"
  from assms(1) obtain t1 res where act: "?activate t = (Inl e, t1)" and undo: "?undo t1 = (res, t')"
    by (auto simp: commit_replacement_def on_error_def action_split action_defs split: sum.splits prod.splits)
  from act r obtain r1 where r1: "tx_record t1 = Some r1" "discard_candidate r1 = discard_candidate r"
    by (auto simp: action_split on_backend_def discard_candidate_def split: prod.splits
        dest!: update_and_save_record)
  from undo r1(1) have "tx_record t' = Some (discard_candidate r1)"
    by (auto simp: action_split dest!: ignored_backend_record update_and_save_record)
  with r1(2) show ?thesis by simp
qed

lemma suspend_rejected:
  assumes "sess_phase (session s) \<noteq> Active" and "operation req = Suspend"
    and "process env N peer req s = ((resp, fd), s')"
  shows "(\<exists>code. body resp = RespError code) \<and> s' = s"
proof -
  have no: "apply_session req (session s) \<noteq> (Inr (), ns)" for ns
  proof
    assume "apply_session req (session s) = (Inr (), ns)"
    then show False
    proof (cases rule: apply_session_cases)
      case move
      with owner_fence_MoveOwner [OF move(1)] assms(1,2) show ?thesis by simp
    qed (use assms(1,2) in \<open>simp_all add: apply_operation_def apply_suspend_def split: if_splits\<close>)
  qed
  from assms(3) show ?thesis
    by (cases rule: process_cases) (use no assms(2) in \<open>auto simp: error_response_def\<close>)
qed

text \<open>
  A failed commit of a staged replacement leaves the two layers apart. The transaction goes back
  to Active with its previous declaration, which the code does so that a following Suspend can
  succeed, and the TUN descriptor is dropped; but the session keeps its staged phase, so that every
  Suspend is still refused.
\<close>

theorem failed_replacement_commit_blocks_suspend:
  assumes r: "tx_record (network_state s) = Some r" and cand: "recovery_candidate r = Some c"
    and staged: "tx_phase r = TxPrepared" and sess: "sess_phase (session s) = Prepared"
    and op: "operation req = Commit" and auth: "peer_authorized peer req s"
    and ap: "apply_session req (session s) = (Inr (), ns)"
    and owner: "same_process (tx_owner r) (request_owner req)"
    and proc: "process env (transaction_controller B J) peer req s = ((resp, fd), s')"
    and failed: "body resp = RespError code"
  shows "tx_record (network_state s') = Some (discard_candidate r)
    \<and> tx_phase (discard_candidate r) = TxActive \<and> recovery_candidate (discard_candidate r) = None
    \<and> session s' = session s \<and> tun s' = None
    \<and> (\<forall>env' peer' req'. operation req' = Suspend \<longrightarrow>
         (\<exists>code'. body (fst (fst (process env' (transaction_controller B J) peer' req' s'))) = RespError code')
         \<and> snd (process env' (transaction_controller B J) peer' req' s') = s')"
  using proc
proof (cases rule: process_cases)
  case (failed ns' code')
  let ?now = "monotonic_ms env" and ?timeout = "min DEFAULT_DRAIN_TIMEOUT_MS MAX_DRAIN_TIMEOUT_MS"
  obtain e where d: "tun s' = None \<and> session s' = session s
      \<and> commit_with_drain B J (request_owner req) ?now ?timeout (network_state s) = (Inl e, network_state s')"
    using failed(5) op
    by (cases "commit_with_drain B J (request_owner req) ?now ?timeout (network_state s)")
      (auto simp: dispatch_def service_defs action_defs map_err_def split: sum.splits)
  then have "commit_replacement B J c ?now ?timeout (network_state s) = (Inl e, network_state s')"
    using r cand staged owner
    by (simp add: commit_with_drain_def get_record_def action_defs ensure_candidate_owner_def
        ensure_reconfigure_owner_def same_process_def)
  from commit_replacement_failed [OF this r]
  have "tx_record (network_state s') = Some (discard_candidate r)" .
  moreover have "(\<exists>code'. body (fst (fst (process env' (transaction_controller B J) peer' req' s'))) = RespError code')
         \<and> snd (process env' (transaction_controller B J) peer' req' s') = s'"
    if "operation req' = Suspend" for env' peer' req'
    using suspend_rejected [OF _ that, of s' env' "transaction_controller B J" peer'] d sess
    by (cases "process env' (transaction_controller B J) peer' req' s'") auto
  ultimately show ?thesis using d by (simp add: discard_candidate_def)
next
  case (completed ns' s1)
  from dispatch_success [OF completed(4)] failed op show ?thesis by simp
qed (use op auth ap in \<open>simp_all add: error_response_def\<close>)

text \<open>A backend that cannot install the policy rule of the replacement.\<close>

definition steering_backend :: "unit backend_ops" where
  "steering_backend = sample_backend\<lparr>install_policy_rule := (\<lambda>_. throw Backend)\<rparr>"

theorem failed_replacement_commit_blocks_suspend_witness:
  "let s' = snd (process sample_platform (transaction_controller steering_backend quiet_journal)
         sample_peer (next_request Commit) staged_service) in
   tx_record (network_state s') = Some (discard_candidate staged_record)
   \<and> session s' = session staged_service \<and> tun s' = None"
proof -
  let ?N = "transaction_controller steering_backend quiet_journal"
  have ap: "apply_session (next_request Commit) (session staged_service)
      = (Inr (), session staged_service\<lparr>sess_phase := Draining\<rparr>)"
    by (simp add: apply_session_def validate_request_def validate_owner_def sample_owner_def
        owner_fence_def same_process_def move_owner_def apply_operation_def apply_commit_def)
  have net: "commit_with_drain steering_backend quiet_journal (sample_owner\<lparr>generation := 4\<rparr>) now timeout
      (transaction_of (Some staged_record)) = (Inl Backend, transaction_of (Some (discard_candidate staged_record)))"
    for now timeout
    by (simp add: commit_with_drain_def commit_replacement_def run_defs steering_backend_def ignore_def
        transaction_of_def ensure_candidate_owner_def ensure_reconfigure_owner_def)
  obtain resp fd s' where proc: "process sample_platform ?N sample_peer (next_request Commit) staged_service
      = ((resp, fd), s')"
    by (cases "process sample_platform ?N sample_peer (next_request Commit) staged_service") fastforce
  then have "body resp = RespError CodeSystemFailure"
    by (simp add: process_def ap dispatch_def service_defs action_defs map_err_def net error_response_def)
      (auto simp: error_response_def)
  from failed_replacement_commit_blocks_suspend [OF _ _ _ _ _ _ ap _ proc this,
      of staged_record replacement_declaration] proc
  show ?thesis by (simp add: same_process_def)
qed

end
