(* ===== verification/Netd_System.thy ===== *)
theory Netd_System
  imports Netd_Client Netd_Service_Properties
begin

text \<open>
  The client and the service together: \<^verbatim>\<open>serve_authenticated_once\<close> answers one frame, and a client whose
  transport is that service sees exactly what the service did. On top of it, the reconciliation that
  follows a failed reconfigure is examined.
\<close>

section \<open>Serving one frame\<close>

definition serve_authenticated_once ::
    "('d, 'p) platform \<Rightarrow> 'n network_controller \<Rightarrow> peer_credentials \<Rightarrow> bytes \<times> 'd list
       \<Rightarrow> (('d, 'p, 'n) netd_service, ipc_error, bytes \<times> 'd option) action" where
  "serve_authenticated_once env N peer fr s =
     (case recv_request fr of
        Inl e \<Rightarrow> (Inl e, s)
      | Inr req \<Rightarrow>
          (case process env N peer req s of
             ((resp, descriptor), s') \<Rightarrow> (send_response resp descriptor, s')))"

text \<open>
  A connection to the service: a request that is not answered closes it, which the client sees as an
  I/O error.
\<close>

definition service_transport ::
    "('d, 'p) platform \<Rightarrow> 'n network_controller \<Rightarrow> peer_credentials \<Rightarrow> (('d, 'p, 'n) netd_service, 'd) transport" where
  "service_transport env N peer =
     \<lparr>connect = return (),
      deliver = (\<lambda>payload s.
        case serve_authenticated_once env N peer (payload, []) s of
          (Inl _, s') \<Rightarrow> (Inl IpcIo, s')
        | (Inr (answer, descriptor), s') \<Rightarrow> (Inr (answer, attached descriptor), s'))\<rparr>"

section \<open>Every answer can be sent\<close>

lemma success_body_encodes:
  assumes "validate_request req = Inr ()"
  shows "\<exists>bs. encode_body (success_body (request_owner req) (operation req) phase) = Inr bs"
proof -
  have "generation (request_owner req) \<noteq> 0"
    using validate_request_parts(1) [OF assms] by (auto simp: valid_owner_def validate_owner_def split: if_splits)
  then show ?thesis
    using validate_request_parts(3) [OF assms]
    by (cases "operation req") (auto simp: encode_generation_def valid_generation_def)
qed

lemma status_encodes:
  assumes "validate_request req = Inr ()"
  shows "\<exists>bs. encode_body (RespStatus phase (generation (request_owner req))) = Inr bs"
  using validate_request_parts(1) [OF assms]
  by (auto simp: valid_owner_def validate_owner_def valid_generation_def split: if_splits)

lemma response_id_of:
  assumes "process env N peer req s = ((resp, fd), s')"
  shows "response_id resp = request_id req \<and> (expects_descriptor (body resp) \<longleftrightarrow> fd \<noteq> None)"
  using assms
proof (cases rule: process_cases)
  case (completed ns s1)
  with dispatch_success [OF completed(4)] show ?thesis
    by (cases "operation req") (simp_all add: expects_descriptor_def)
qed (simp_all add: error_response_def expects_descriptor_def)

lemma process_body_encodes:
  assumes "validate_request req = Inr ()" and "process env N peer req s = ((resp, fd), s')"
  shows "\<exists>bs. encode_body (body resp) = Inr bs"
  using assms(2)
proof (cases rule: process_cases)
  case status
  with status_encodes [OF assms(1)] show ?thesis by simp
next
  case (completed ns s1)
  with dispatch_success [OF completed(4)] success_body_encodes [OF assms(1)] show ?thesis by simp
qed (simp_all add: error_response_def)

lemma process_sends:
  assumes "validate_request req = Inr ()" and "process env N peer req s = ((resp, fd), s')"
  shows "\<exists>bs. send_response resp fd = Inr (bs, fd)"
proof -
  have "request_id req \<noteq> 0" using assms(1) by (auto simp: validate_request_def)
  with response_id_of [OF assms(2)] process_body_encodes [OF assms] obtain bs
    where "encode_response resp = Inr bs" by (auto simp: encode_response_Inr)
  with response_id_of [OF assms(2)] show ?thesis by (simp add: send_response_def map_err_def)
qed

section \<open>The client sees the service\<close>

lemma serve_valid_request:
  assumes "request_ok req" and "send_request req = Inr (payload, d)"
    and "process env N peer req s = ((resp, fd), s')"
  shows "\<exists>answer. serve_authenticated_once env N peer (payload, []) s = (Inr (answer, fd), s')
    \<and> recv_response (answer, attached fd) = Inr (resp, fd)"
proof -
  have "decode_request payload = Inr req"
    using assms(1,2) decode_request_iff_encode [of payload req]
    by (auto simp: send_request_def map_err_def rbind_eq_Inr split: sum.splits)
  then have recv: "recv_request (payload, []) = Inr req" by (simp add: recv_request_def map_err_def)
  obtain answer where answer: "send_response resp fd = Inr (answer, fd)"
    using process_sends [OF _ assms(3)] assms(1) by (auto simp: request_ok_def)
  show ?thesis
    by (rule exI [of _ answer])
      (simp add: serve_authenticated_once_def recv_request_def [symmetric] recv assms(3) answer
        recv_send_response [OF answer])
qed

definition client_result :: "netd_response \<Rightarrow> 'd option \<Rightarrow> ipc_error + (response_body \<times> 'd option)" where
  "client_result resp fd = (case body resp of RespError code \<Rightarrow> Inl (Remote code) | b \<Rightarrow> Inr (b, fd))"

lemma exchange_process:
  assumes i: "next_request_id c = Some i" and ok: "request_ok (client_request c i op)"
    and proc: "process env N peer (client_request c i op) (socket c) = ((resp, fd), s')"
  shows "exchange (service_transport env N peer) op c
    = (client_result resp fd, c\<lparr>socket := s', next_request_id := checked_add i 1\<rparr>)"
proof -
  let ?req = "client_request c i op"
  obtain payload where send: "send_request ?req = Inr (payload, None :: 'a option)"
    using encode_request_total [of ?req] ok by (auto simp: request_ok_def send_request_def map_err_def)
  from serve_valid_request [OF ok send proc] obtain answer where
    serve: "serve_authenticated_once env N peer (payload, []) (socket c) = (Inr (answer, fd), s')"
    and recv: "recv_response (answer, attached fd) = Inr (resp, fd)" by blast
  from response_id_of [OF proc] have "response_id resp = i" "expects_descriptor (body resp) \<longleftrightarrow> fd \<noteq> None"
    by (simp_all add: client_request_def)
  with i send serve recv show ?thesis
    by (cases "body resp")
      (simp_all add: exchange_def action_defs ok_or_def on_socket_def service_transport_def client_result_def
        expects_descriptor_def)
qed


definition sample_client :: "(nat, nat, (unit, journal_fs) transaction) netd_service netd_client" where
  "sample_client = new_client fresh_service sample_owner"

lemma sample_status_ok: "request_ok (client_request sample_client 1 Status)"
  by (simp add: request_ok_def client_request_def validate_request_def validate_owner_def sample_client_def
      new_client_def sample_owner_def operation_prefixes_def withdraw_count_def)


section \<open>Reconciling a failed reconfigure\<close>

lemma process_error_keeps:
  assumes "process env N peer req s = ((resp, fd), s')" and "body resp = RespError code"
  shows "session s' = session s \<and> allowed_uid s' = allowed_uid s \<and> allowed_gid s' = allowed_gid s
    \<and> fd = None"
  using assms(1)
proof (cases rule: process_cases)
  case (failed ns code')
  with dispatch_network [OF failed(5,2)] show ?thesis by simp
next
  case (completed ns s1)
  from dispatch_success [OF completed(4)] assms(2) show ?thesis by simp
qed simp_all

lemma process_status:
  assumes "peer_authorized peer req s" and "operation req = Status"
  shows "process env N peer req s = ((\<lparr>response_id = request_id req,
     body = RespStatus (sess_phase (session s)) (generation (request_owner req))\<rparr>, None), s)"
  using assms by (simp add: process_def)

text \<open>A request of another generation is fenced off by a suspended session, unless it reconfigures.\<close>

lemma suspended_fences_generation:
  assumes "sess_phase s = Suspended" and "sess_owner s = Some owner"
    and "generation (request_owner req) \<noteq> generation owner" and "\<not> is_reconfigure (operation req)"
    and "validate_request req = Inr ()"
  shows "\<exists>e. apply_session req s = (Inl e, s) \<and> session_error_code e = CodeGenerationConflict"
  using assms by (auto simp: apply_session_def owner_fence_def Let_def)

lemma request_ok_operation:
  assumes "request_ok (client_request c i op)" and "j \<noteq> 0" and "op' = Status \<or> op' = Resume"
  shows "request_ok (client_request c j op')"
  using assms
  by (auto simp: request_ok_def client_request_def validate_request_def operation_prefixes_def withdraw_count_def
      rbind_eq_Inr split: if_splits)

lemma client_request_frame [simp]:
  "client_request (c\<lparr>socket := w\<rparr>) i op = client_request c i op"
  "client_request (c\<lparr>next_request_id := n\<rparr>) i op = client_request c i op"
  "client_request (c\<lparr>client_phase := p\<rparr>) i op = client_request c i op"
  by (simp_all add: client_request_def)

lemma client_request_simps [simp]:
  "request_id (client_request c i op) = i" "operation (client_request c i op) = op"
  "request_owner (client_request c i op) = client_owner c"
  by (simp_all add: client_request_def)

lemma client_resume_fenced:
  assumes phase: "client_phase c = ClientSuspended" and i: "next_request_id c = Some i"
    and ok: "request_ok (client_request c i Resume)" and sess: "sess_phase (session (socket c)) = Suspended"
    and owner: "sess_owner (session (socket c)) = Some owner" "generation (client_owner c) \<noteq> generation owner"
    and auth: "peer_authorized peer (client_request c i Resume) (socket c)"
  shows "fst (client_resume (service_transport env N peer) c) = Inl (Remote CodeGenerationConflict)"
proof -
  have "validate_request (client_request c i Resume) = Inr ()" using ok by (simp add: request_ok_def)
  from suspended_fences_generation [OF sess owner(1) _ _ this] owner(2) auth
  have "process env N peer (client_request c i Resume) (socket c)
      = ((error_response i CodeGenerationConflict, None), socket c)"
    by (auto simp: process_def)
  from exchange_process [OF i ok this] show ?thesis
    by (simp add: client_resume_def require_phase_def exchange_generation_def action_defs phase
        client_result_def error_response_def)
qed

text \<open>The client with the lease of the replacement, as it is while the reconfigure is sent.\<close>

definition leased :: "u64 \<Rightarrow> u64 \<Rightarrow> 'w netd_client \<Rightarrow> 'w netd_client" where
  "leased gen deadline c =
     c\<lparr>client_owner := client_owner c\<lparr>generation := gen, lease_deadline_mono_ms := deadline\<rparr>\<rparr>"

lemma leased_simps [simp]:
  "socket (leased gen deadline c) = socket c" "client_phase (leased gen deadline c) = client_phase c"
  "next_request_id (leased gen deadline c) = next_request_id c"
  "generation (client_owner (leased gen deadline c)) = gen"
  by (simp_all add: leased_def)

lemma checked_add_small:
  assumes "i < 2 ^ 63" shows "checked_add i 1 = Some (i + 1) \<and> i + 1 \<noteq> (0 :: u64)"
proof -
  have "unat i < 2 ^ 63" using assms by (simp add: word_less_nat_alt)
  then have "unat (i + 1) = unat i + 1" by (simp add: unat_word_ariths)
  then show ?thesis by (auto simp: checked_add_def word_less_nat_alt)
qed

lemma rejected_reconfigure_runs:
  fixes c :: "('d, 'p, 'n) netd_service netd_client"
  assumes phase: "client_phase c = ClientSuspended" and i: "next_request_id c = Some i" "i < 2 ^ 63"
    and ok: "request_ok (client_request (leased gen deadline c) i (Reconfigure d))"
    and auth: "peer_authorized peer (client_request (leased gen deadline c) i (Reconfigure d)) (socket c)"
    and sess: "sess_phase (session (socket c)) = Suspended"
    and proc: "process env N peer (client_request (leased gen deadline c) i (Reconfigure d)) (socket c)
      = ((resp, fd), s')" "body resp = RespError code"
  shows "reconfigure_with_owner (service_transport env N peer) d gen deadline c
    = (Inr gen, (leased gen deadline c)\<lparr>socket := s', next_request_id := checked_add (i + 1) 1\<rparr>)"
proof -
  let ?T = "service_transport env N peer" and ?c = "leased gen deadline c"
  have nz: "gen \<noteq> 0" "deadline \<noteq> 0"
    using ok by (auto simp: request_ok_def validate_request_def validate_owner_def leased_def rbind_eq_Inr
        client_request_def split: if_splits)
  let ?c1 = "?c\<lparr>socket := s', next_request_id := Some (i + 1)\<rparr>"
  have first: "exchange ?T (Reconfigure d) ?c = (Inl (Remote code), ?c1)"
    using exchange_process [OF _ ok, of env N peer resp fd s'] proc i checked_add_small [OF i(2)]
    by (simp add: client_result_def)
  note keeps = process_error_keeps [OF proc]
  have ok1: "request_ok (client_request ?c1 (i + 1) Status)"
    using request_ok_operation [OF ok, of "i + 1" Status] checked_add_small [OF i(2)] by simp
  have "process env N peer (client_request ?c1 (i + 1) Status) (socket ?c1)
      = ((\<lparr>response_id = i + 1, body = RespStatus Suspended gen\<rparr>, None), s')"
    using auth keeps sess by (simp add: process_def peer_authorized_def)
  from exchange_process [OF _ ok1 this]
  have "exchange ?T Status ?c1
      = (Inr (RespStatus Suspended gen, None), ?c1\<lparr>next_request_id := checked_add (i + 1) 1\<rparr>)"
    by (simp add: client_result_def)
  with first phase nz show ?thesis
    by (simp add: reconfigure_with_owner_def require_phase_def set_lease_def exchange_generation_def action_defs
        committed_def leased_def)
qed

text \<open>
  C38: A defect of the reconciliation: netd answers Status with the generation the request carries, and
  the client takes that echo for the generation netd retains. When a suspended client sends a
  reconfigure for a new generation and the service refuses it, for any reason, the client reports
  success for the new generation, while the session is exactly what it was and still belongs to the
  old one; the next Resume of that client is refused with a generation conflict.
\<close>

theorem refused_reconfigure_is_reported_committed:
  fixes c :: "('d, 'p, 'n) netd_service netd_client"
  assumes phase: "client_phase c = ClientSuspended" and i: "next_request_id c = Some i" "i + 1 < 2 ^ 63" "i < 2 ^ 63"
    and ok: "request_ok (client_request (leased gen deadline c) i (Reconfigure d))"
    and auth: "peer_authorized peer (client_request (leased gen deadline c) i (Reconfigure d)) (socket c)"
    and sess: "sess_phase (session (socket c)) = Suspended"
    and owner: "sess_owner (session (socket c)) = Some owner" "generation owner \<noteq> gen"
    and refused: "body (fst (fst (process env N peer
        (client_request (leased gen deadline c) i (Reconfigure d)) (socket c)))) = RespError code"
  shows "\<exists>c'. reconfigure_with_owner (service_transport env N peer) d gen deadline c = (Inr gen, c')
    \<and> generation (client_owner c') = gen
    \<and> session (socket c') = session (socket c)
    \<and> fst (client_resume (service_transport env N peer) c') = Inl (Remote CodeGenerationConflict)"
proof -
  obtain resp fd s' where proc: "process env N peer
      (client_request (leased gen deadline c) i (Reconfigure d)) (socket c) = ((resp, fd), s')"
    by (metis surj_pair)
  with refused have err: "body resp = RespError code" by simp
  let ?c' = "(leased gen deadline c)\<lparr>socket := s', next_request_id := Some (i + 1 + 1)\<rparr>"
  have run: "reconfigure_with_owner (service_transport env N peer) d gen deadline c = (Inr gen, ?c')"
    using rejected_reconfigure_runs [OF phase i(1,3) ok auth sess proc err] checked_add_small [OF i(2)]
    by simp
  note keeps = process_error_keeps [OF proc err]
  have "fst (client_resume (service_transport env N peer) ?c') = Inl (Remote CodeGenerationConflict)"
  proof (rule client_resume_fenced)
    show "request_ok (client_request ?c' (i + 1 + 1) Resume)"
      using request_ok_operation [OF ok, of "i + 1 + 1" Resume] checked_add_small [OF i(2)] by simp
    show "peer_authorized peer (client_request ?c' (i + 1 + 1) Resume) (socket ?c')"
      using auth keeps by (simp add: peer_authorized_def)
  qed (use phase keeps sess owner in auto)
  with run keeps show ?thesis by (intro exI [of _ ?c']) simp
qed

text \<open>
  A suspended client and service of generation 3; the replacement changes the routing table, which a
  suspended reconfigure does not allow.
\<close>

definition suspended_service :: "(nat, nat, (unit, journal_fs) transaction) netd_service" where
  "suspended_service = prepared_service\<lparr>session := active_session\<lparr>sess_phase := Suspended\<rparr>,
     network_state := transaction_of (Some (sample_record\<lparr>tx_phase := TxSuspended\<rparr>))\<rparr>"

definition suspended_client :: "(nat, nat, (unit, journal_fs) transaction) netd_service netd_client" where
  "suspended_client = (new_client suspended_service sample_owner)\<lparr>client_phase := ClientSuspended\<rparr>"

lemma suspended_client_simps [simp]:
  "client_phase suspended_client = ClientSuspended" "next_request_id suspended_client = Some 1"
  "socket suspended_client = suspended_service" "client_owner suspended_client = sample_owner"
  "session suspended_service = active_session\<lparr>sess_phase := Suspended\<rparr>"
  by (simp_all add: suspended_client_def new_client_def suspended_service_def)

lemma suspended_reconfigure_refused:
  "body (fst (fst (process sample_platform sample_network sample_peer
     (client_request (leased 4 90000 suspended_client) 1 (Reconfigure replacement_declaration))
     suspended_service))) = RespError CodeInvalidRequest"
proof -
  let ?req = "client_request (leased 4 90000 suspended_client) 1 (Reconfigure replacement_declaration)"
  have owner: "client_owner (leased 4 90000 suspended_client) = sample_owner\<lparr>generation := 4\<rparr>"
    by (simp add: leased_def sample_owner_def)
  have valid: "validate_declaration replacement_declaration = Inr ()"
    using replacement_declaration_ok by (simp add: declaration_ok_def)
  have check: "check_declaration replacement_declaration = Inr ()"
    by (simp add: check_declaration_def valid map_err_def)
  have other: "table_id sample_declaration \<noteq> table_id replacement_declaration"
    by (simp add: replacement_declaration_def sample_declaration_def)
  have "\<exists>ns. apply_session ?req (session suspended_service) = (Inr (), ns)"
    by (simp add: apply_session_def validate_request_def validate_owner_def owner valid sample_owner_def
        owner_fence_def active_session_def same_process_def move_owner_def apply_operation_def
        apply_reconfigure_def)
  moreover have "controller sample_backend quiet_journal (sample_owner\<lparr>generation := 4\<rparr>)
      (CallReconfigure replacement_declaration) (network_state suspended_service)
      = (Inl NetInvalidTransition, network_state suspended_service)"
    using other
    by (auto simp: reconfigure_def reconfigure_suspended_def run_defs check valid Let_def
        ensure_reconfigure_owner_def suspended_service_def transaction_of_def)
  moreover have "peer_authorized sample_peer ?req suspended_service"
    by (simp add: peer_authorized_def owner sample_peer_def suspended_service_def prepared_service_def
        fresh_service_def with_network_def sample_owner_def)
  ultimately show ?thesis
    by (auto simp: process_def dispatch_def service_defs action_defs map_err_def owner error_response_def)
qed

theorem refused_reconfigure_is_reported_committed_witness:
  "\<exists>c'. reconfigure_with_owner (service_transport sample_platform sample_network sample_peer)
       replacement_declaration 4 90000 suspended_client = (Inr 4, c')
     \<and> generation (client_owner c') = 4
     \<and> session (socket c') = session (socket suspended_client)
     \<and> fst (client_resume (service_transport sample_platform sample_network sample_peer) c')
         = Inl (Remote CodeGenerationConflict)"
proof (rule refused_reconfigure_is_reported_committed [where owner = sample_owner])
  show "request_ok (client_request (leased 4 90000 suspended_client) 1 (Reconfigure replacement_declaration))"
    using replacement_declaration_ok
    by (simp add: request_ok_def validate_request_def validate_owner_def leased_def sample_owner_def
        declaration_ok_def operation_prefixes_def withdraw_count_def)
  show "peer_authorized sample_peer
      (client_request (leased 4 90000 suspended_client) 1 (Reconfigure replacement_declaration))
      (socket suspended_client)"
    by (simp add: peer_authorized_def leased_def sample_peer_def suspended_service_def prepared_service_def
        fresh_service_def with_network_def sample_owner_def)
  show "body (fst (fst (process sample_platform sample_network sample_peer
      (client_request (leased 4 90000 suspended_client) 1 (Reconfigure replacement_declaration))
      (socket suspended_client)))) = RespError CodeInvalidRequest"
    by (simp add: suspended_reconfigure_refused)
qed (simp_all add: active_session_def sample_owner_def)

end
