(* ===== verification/Netd_Infra_Protocol.thy ===== *)
theory Netd_Infra_Protocol
  imports Netd_Declaration
begin

text \<open>
  The second protocol of netd (\<^verbatim>\<open>candy-netd-proto/src/v2.rs\<close>): infrastructure specifications,
  forwarding owners, signed authorities and their receipts, the operations, the validation of a
  request, and the framing of JSON documents. The JSON codec is \<^verbatim>\<open>serde_json\<close>, a parameter.
  Hexadecimal text is a \<open>string\<close>; byte arrays are words as in the rest of the library.
\<close>

section \<open>Data\<close>

definition INFRA_VERSION :: u8 where "INFRA_VERSION = 2"

record infra_spec =
  infra_id :: u128
  infra_generation :: u64
  netns_device :: u64
  netns_inode :: u64
  spec_router_ipv4 :: u32
  spec_mtu :: u16

definition validate_spec :: "infra_spec \<Rightarrow> netd_protocol_error + unit" where
  "validate_spec spec =
     (if infra_id spec = 0
         \<or> infra_generation spec = 0
         \<or> netns_inode spec = 0
         \<or> \<not> (576 \<le> spec_mtu spec \<and> spec_mtu spec \<le> 1400)
         \<or> spec_router_ipv4 spec = 0
         \<or> first_octet (spec_router_ipv4 spec) \<ge> 224
      then Inl InvalidDeclaration else Inr ())"

record forward_owner =
  domain_id :: u128
  signed_generation :: u64
  worker_epoch :: u64
  fencing_token :: u64
  auth_deadline_mono_ms :: u64
  forward_lease_mono_ms :: u64

definition validate_forward_owner :: "forward_owner \<Rightarrow> netd_protocol_error + unit" where
  "validate_forward_owner owner =
     (if domain_id owner = 0
         \<or> signed_generation owner = 0
         \<or> worker_epoch owner = 0
         \<or> fencing_token owner = 0
         \<or> auth_deadline_mono_ms owner = 0
         \<or> forward_lease_mono_ms owner = 0
         \<or> forward_lease_mono_ms owner > auth_deadline_mono_ms owner
      then Inl InvalidOwner else Inr ())"

record forward_authority =
  transaction_id :: string
  authority_revision :: u64
  signed_control_hash :: string
  declaration_hash :: string
  snapshot_closure_hash :: string
  authority_io_epoch :: u64
  authority_io_pid :: u32
  authority_io_start_ticks :: u64
  candidate_pid :: u32
  candidate_start_ticks :: u64

definition is_hex_char :: "char \<Rightarrow> bool" where
  "is_hex_char c \<longleftrightarrow> c \<in> set ''0123456789abcdef''"

text \<open>The closure \<^verbatim>\<open>hex\<close> of the validation, and \<^verbatim>\<open>valid_policy_hash\<close> at length 64.\<close>

definition is_hex :: "string \<Rightarrow> nat \<Rightarrow> bool" where
  "is_hex s n \<longleftrightarrow> length s = n \<and> list_all is_hex_char s"

definition validate_authority :: "forward_authority \<Rightarrow> netd_protocol_error + unit" where
  "validate_authority a =
     (if \<not> is_hex (transaction_id a) 32
         \<or> authority_revision a = 0
         \<or> \<not> is_hex (signed_control_hash a) 64
         \<or> \<not> is_hex (declaration_hash a) 64
         \<or> \<not> is_hex (snapshot_closure_hash a) 64
         \<or> authority_io_epoch a = 0
         \<or> authority_io_pid a = 0
         \<or> authority_io_start_ticks a = 0
         \<or> candidate_pid a = 0
         \<or> candidate_start_ticks a = 0
      then Inl InvalidOwner else Inr ())"

record authority_receipt =
  receipt_authority :: forward_authority
  owner_active :: bool
  authorization_deadline_mono_ms :: u64
  packet_proof_reported_mono_ms :: u64

datatype infra_operation =
    Capabilities
  | InDomain u128 u128 infra_operation
  | InfraEnsure infra_spec
  | InfraStatus
  | InfraAcquireIoFd u128 u64 u64
  | InfraReleaseIo u128 u64 u64
  | InfraRetire u128 u64
  | ForwardPrepare u128 u64 forward_owner prepare_declaration
  | ForwardCommit forward_owner
  | ForwardAuthorize forward_owner forward_authority
  | ForwardCommitAuthorized forward_owner authority_receipt
  | ForwardRevoke forward_owner
  | ForwardGuard forward_owner
  | ForwardLeaseRenew forward_owner
  | ForwardFailedPrefixes forward_owner u64 "ipv4_prefix list"
  | ForwardPolicyUpdate forward_owner u64 u64 string prepare_declaration
  | ForwardStatus

record infra_request =
  infra_request_id :: u64
  caller_instance_id :: u128
  caller_pid :: u32
  infra_operation :: infra_operation

section \<open>Validation of a request\<close>

text \<open>The loop \<^verbatim>\<open>for prefix in ... { Ipv4Prefix::new(prefix.network, prefix.prefix_len)?; }\<close>.\<close>

fun check_prefixes :: "ipv4_prefix list \<Rightarrow> netd_protocol_error + unit" where
  "check_prefixes [] = Inr ()"
| "check_prefixes (p # ps) =
     rbind (new_prefix (network p) (prefix_len p)) (\<lambda>_. check_prefixes ps)"

definition check_declaration_prefixes :: "prepare_declaration \<Rightarrow> netd_protocol_error + unit" where
  "check_declaration_prefixes d =
     check_prefixes (map route_prefix (routes d) @ map exclusion_prefix (exclusions d))"

text \<open>The loop over withdrawn prefixes, which also refuses a repeated one.\<close>

fun check_unique_prefixes :: "ipv4_prefix set \<Rightarrow> ipv4_prefix list \<Rightarrow> netd_protocol_error + unit" where
  "check_unique_prefixes seen [] = Inr ()"
| "check_unique_prefixes seen (p # ps) =
     rbind (new_prefix (network p) (prefix_len p)) (\<lambda>_.
     if p \<in> seen then Inl InvalidDeclaration
     else check_unique_prefixes (insert p seen) ps)"

fun is_in_domain :: "infra_operation \<Rightarrow> bool" where
  "is_in_domain (InDomain _ _ _) = True"
| "is_in_domain _ = False"

fun validate_infra_operation :: "infra_operation \<Rightarrow> netd_protocol_error + unit" where
  "validate_infra_operation (InDomain domain infra op) =
     (if domain = 0 \<or> infra = 0 \<or> is_in_domain op then Inl InvalidRequest
      else validate_infra_operation op)"
| "validate_infra_operation (InfraEnsure spec) = validate_spec spec"
| "validate_infra_operation (InfraAcquireIoFd infra gen epoch) =
     (if infra = 0 \<or> gen = 0 \<or> epoch = 0 then Inl InvalidRequest else Inr ())"
| "validate_infra_operation (InfraReleaseIo infra gen epoch) =
     (if infra = 0 \<or> gen = 0 \<or> epoch = 0 then Inl InvalidRequest else Inr ())"
| "validate_infra_operation (InfraRetire infra gen) =
     (if infra = 0 \<or> gen = 0 then Inl InvalidRequest else Inr ())"
| "validate_infra_operation (ForwardPrepare infra gen owner d) =
     (if infra = 0 \<or> gen = 0 then Inl InvalidRequest
      else
        rbind (validate_forward_owner owner) (\<lambda>_.
        rbind (validate_declaration d) (\<lambda>_.
        check_declaration_prefixes d)))"
| "validate_infra_operation (ForwardPolicyUpdate owner revision gen hash d) =
     rbind (validate_forward_owner owner) (\<lambda>_.
     if revision = 0 \<or> gen = 0 \<or> \<not> is_hex hash 64 then Inl InvalidDeclaration
     else
       rbind (validate_declaration d) (\<lambda>_.
       check_declaration_prefixes d))"
| "validate_infra_operation (ForwardCommit owner) = validate_forward_owner owner"
| "validate_infra_operation (ForwardRevoke owner) = validate_forward_owner owner"
| "validate_infra_operation (ForwardGuard owner) = validate_forward_owner owner"
| "validate_infra_operation (ForwardLeaseRenew owner) = validate_forward_owner owner"
| "validate_infra_operation (ForwardAuthorize owner authority) =
     rbind (validate_forward_owner owner) (\<lambda>_. validate_authority authority)"
| "validate_infra_operation (ForwardCommitAuthorized owner receipt) =
     rbind (validate_forward_owner owner) (\<lambda>_.
     rbind (validate_authority (receipt_authority receipt)) (\<lambda>_.
     if \<not> owner_active receipt
        \<or> authorization_deadline_mono_ms receipt \<noteq> auth_deadline_mono_ms owner
        \<or> packet_proof_reported_mono_ms receipt = 0
     then Inl InvalidOwner else Inr ()))"
| "validate_infra_operation (ForwardFailedPrefixes owner revision prefixes) =
     rbind (validate_forward_owner owner) (\<lambda>_.
     if revision = 0 \<or> length prefixes > MAX_ROUTES then Inl InvalidDeclaration
     else check_unique_prefixes {} prefixes)"
| "validate_infra_operation Capabilities = Inr ()"
| "validate_infra_operation InfraStatus = Inr ()"
| "validate_infra_operation ForwardStatus = Inr ()"

definition validate_infra_request :: "infra_request \<Rightarrow> netd_protocol_error + unit" where
  "validate_infra_request req =
     (if infra_request_id req = 0 \<or> caller_instance_id req = 0 \<or> caller_pid req = 0
      then Inl InvalidRequest
      else validate_infra_operation (infra_operation req))"

section \<open>Responses\<close>

datatype forward_phase = FwPreparing | FwPrepared | FwActive | FwGuarded | FwRevoked

record forward_status =
  status_owner :: "forward_owner option"
  status_phase :: "forward_phase option"
  status_candidate_owner :: "forward_owner option"
  status_last_fencing_token :: u64
  status_failure_revision :: u64
  status_failed_prefixes :: "ipv4_prefix list"
  status_pending_failure_revision :: "u64 option"
  status_pending_failed_prefixes :: "ipv4_prefix list option"
  status_policy_revision :: u64
  status_policy_generation :: "u64 option"
  status_policy_hash :: "string option"
  status_pending_policy_revision :: "u64 option"

text \<open>The prose of an error body, which carries the formatted error, is left out.\<close>

datatype infra_body =
    CapabilitiesBody u8 bool bool
  | InfraStatusBody "infra_spec option" "u32 option" "u64 option"
  | IoFdBody infra_spec u32 u64
  | ForwardStatusBody forward_status
  | Ack
  | ErrorBody string string

record infra_response =
  infra_response_id :: u64
  infra_body :: infra_body

section \<open>Framing of JSON documents\<close>

text \<open>
  \<^verbatim>\<open>encode\<close> and \<^verbatim>\<open>decode\<close> put the version byte before the document that \<^verbatim>\<open>serde_json\<close> writes; its
  two directions for the framed type are \<open>to_vec\<close> and \<open>from_slice\<close>.
\<close>

record 'a json =
  to_vec :: "'a \<Rightarrow> bytes option"
  from_slice :: "bytes \<Rightarrow> 'a option"

definition encode_json :: "'a json \<Rightarrow> 'a \<Rightarrow> netd_protocol_error + bytes" where
  "encode_json js x =
     rbind (ok_or InvalidRequest (to_vec js x)) (\<lambda>doc.
     let bytes = INFRA_VERSION # doc in
     if length bytes > MAX_NETD_FRAME_LEN then Inl InvalidRequest else Inr bytes)"

definition decode_json :: "'a json \<Rightarrow> bytes \<Rightarrow> netd_protocol_error + 'a" where
  "decode_json js bytes =
     (if bytes = [] \<or> hd bytes \<noteq> INFRA_VERSION then Inl UnsupportedVersion
      else if length bytes > MAX_NETD_FRAME_LEN then Inl InvalidRequest
      else ok_or InvalidRequest (from_slice js (tl bytes)))"

definition encode_infra_request :: "infra_request json \<Rightarrow> infra_request \<Rightarrow> netd_protocol_error + bytes" where
  "encode_infra_request js req =
     rbind (validate_infra_request req) (\<lambda>_. encode_json js req)"

definition decode_infra_request :: "infra_request json \<Rightarrow> bytes \<Rightarrow> netd_protocol_error + infra_request" where
  "decode_infra_request js bytes =
     rbind (decode_json js bytes) (\<lambda>req.
     rbind (validate_infra_request req) (\<lambda>_. Inr req))"

definition encode_infra_response :: "infra_response json \<Rightarrow> infra_response \<Rightarrow> netd_protocol_error + bytes" where
  "encode_infra_response js r = encode_json js r"

definition decode_infra_response :: "infra_response json \<Rightarrow> bytes \<Rightarrow> netd_protocol_error + infra_response" where
  "decode_infra_response js bytes = decode_json js bytes"

section \<open>Facts\<close>

text \<open>A document codec that reads back what it writes, as \<^verbatim>\<open>serde_json\<close> does for these types.\<close>

definition reads_back :: "'a json \<Rightarrow> bool" where
  "reads_back js \<longleftrightarrow> (\<forall>x doc. to_vec js x = Some doc \<longrightarrow> from_slice js doc = Some x)"

lemma decode_encode_json:
  assumes "reads_back js" and "encode_json js x = Inr bytes"
  shows "decode_json js bytes = Inr x"
  using assms
  by (auto simp: reads_back_def encode_json_def decode_json_def rbind_eq_Inr ok_or_def Let_def
      split: option.splits if_splits)

lemma check_prefixes_iff: "check_prefixes ps = Inr () \<longleftrightarrow> (\<forall>p \<in> set ps. prefix_ok p)"
proof (induction ps)
  case (Cons p ps)
  have "new_prefix (network p) (prefix_len p) = Inr q \<longleftrightarrow> q = p \<and> prefix_ok p" for q
    by (auto simp: prefix_ok_def new_prefix_def ipv4_prefix.expand split: if_splits)
  with Cons show ?case by (auto simp: rbind_eq_Inr)
qed simp

lemma check_unique_prefixes_iff:
  "check_unique_prefixes seen ps = Inr () \<longleftrightarrow>
     distinct ps \<and> seen \<inter> set ps = {} \<and> (\<forall>p \<in> set ps. prefix_ok p)"
proof (induction ps arbitrary: seen)
  case (Cons p ps)
  have "new_prefix (network p) (prefix_len p) = Inr q \<longleftrightarrow> q = p \<and> prefix_ok p" for q
    by (auto simp: prefix_ok_def new_prefix_def ipv4_prefix.expand split: if_splits)
  with Cons show ?case by (auto simp: rbind_eq_Inr)
qed simp

end
