(* ===== verification/Netd_Infra_State.thy ===== *)
theory Netd_Infra_State
  imports Netd_Journal Netd_Infra_Protocol
begin

text \<open>
  The durable state of the infrastructure service (\<^verbatim>\<open>candy-netd/src/v2.rs\<close>, lines 22-310 and
  1716-1933, and \<^verbatim>\<open>v2/clock.rs\<close>): records, errors, the backend trait with its default bodies, the
  clock rules, the identity of a process read from \<^verbatim>\<open>/proc\<close>, and the checksummed journal with the
  checks a start of netd makes of it. JSON, SHA-256 and the operating system are parameters.
\<close>

section \<open>Clock\<close>

text \<open>\<^verbatim>\<open>timespec_ms\<close> on the two signed 64-bit values of \<^verbatim>\<open>CLOCK_BOOTTIME\<close>.\<close>

definition timespec_ms :: "int \<Rightarrow> int \<Rightarrow> u64 option" where
  "timespec_ms seconds nanos =
     (if \<not> (0 \<le> nanos \<and> nanos < 1000000000) then None
      else if seconds < 0 then None
      else
        (case checked_mul (of_int seconds) 1000 of
           None \<Rightarrow> None
         | Some millis \<Rightarrow> checked_add millis (of_int nanos div 1000000)))"

definition proof_is_fresh :: "u64 \<Rightarrow> u64 \<Rightarrow> bool" where
  "proof_is_fresh now reported \<longleftrightarrow>
     reported \<le> saturating_add now 50 \<and> saturating_sub now reported \<le> 5000"

definition owner_is_live :: "forward_owner \<Rightarrow> u64 \<Rightarrow> bool" where
  "owner_is_live owner now \<longleftrightarrow> now < min (auth_deadline_mono_ms owner) (forward_lease_mono_ms owner)"

section \<open>State\<close>

record pending_policy =
  cancelled :: bool
  pending_revision :: u64
  pending_generation :: u64
  pending_hash :: string
  pending_declaration :: prepare_declaration

record forward_record =
  fwd_owner :: forward_owner
  fwd_declaration :: prepare_declaration
  fwd_phase :: forward_phase
  failure_revision :: u64
  fwd_failed_prefixes :: "ipv4_prefix list"
  pending_failed_prefixes :: "ipv4_prefix list option"
  pending_failure_revision :: "u64 option"
  authority :: "forward_authority option"
  policy_revision :: u64
  policy_generation :: "u64 option"
  policy_hash :: "string option"
  pending_policy :: "pending_policy option"

record io_owner =
  io_instance_id :: u128
  io_pid :: u32
  io_epoch :: u64
  io_boot_id :: string
  io_start_ticks :: "u64 option"

record infra_state =
  boot_id :: string
  spec :: "infra_spec option"
  ifindex :: "u32 option"
  ownership_marker :: "string option"
  creation_pending :: bool
  administrator :: "u128 option"
  io_owner :: "io_owner option"
  last_io_epoch :: u64
  forwarding :: "forward_record option"
  candidate :: "forward_record option"
  last_fencing_token :: u64
  infra_sysctls :: "sysctl_change list"

definition default_state :: infra_state where
  "default_state =
     \<lparr>boot_id = '''', spec = None, ifindex = None, ownership_marker = None,
      creation_pending = False, administrator = None, io_owner = None, last_io_epoch = 0,
      forwarding = None, candidate = None, last_fencing_token = 0, infra_sysctls = []\<rparr>"

definition new_forward :: "forward_owner \<Rightarrow> prepare_declaration \<Rightarrow> forward_phase \<Rightarrow> forward_record" where
  "new_forward owner d phase =
     \<lparr>fwd_owner = owner, fwd_declaration = d, fwd_phase = phase, failure_revision = 0,
      fwd_failed_prefixes = [], pending_failed_prefixes = None, pending_failure_revision = None,
      authority = None, policy_revision = 0, policy_generation = None, policy_hash = None,
      pending_policy = None\<rparr>"

section \<open>Errors\<close>

text \<open>
  A rejection carries its code; the prose that goes with it is left out. \<open>RepairPending\<close> keeps the
  two errors whose texts the code keeps. \<open>Panicked\<close> stands for a failing \<^verbatim>\<open>unwrap\<close>.
\<close>

datatype infra_error =
    Rejected string
  | InfraJournal
  | InfraBackend network_error
  | InfraPlatform
  | Transition string network_error
  | RepairPending infra_error infra_error
  | ResourceBudget string u64 u64
  | Panicked

definition ensure_live :: "forward_owner \<Rightarrow> u64 \<Rightarrow> infra_error + unit" where
  "ensure_live owner now =
     (if \<not> owner_is_live owner now then Inl (Rejected ''forward_owner_expired'') else Inr ())"

fun check_failed_prefixes ::
    "ipv4_prefix set \<Rightarrow> ipv4_prefix set \<Rightarrow> ipv4_prefix list \<Rightarrow> infra_error + unit" where
  "check_failed_prefixes authorized unique [] = Inr ()"
| "check_failed_prefixes authorized unique (p # ps) =
     (if p \<in> unique \<or> p \<notin> authorized then Inl (Rejected ''invalid_failed_prefix'')
      else check_failed_prefixes authorized (insert p unique) ps)"

definition validate_failed_prefixes :: "prepare_declaration \<Rightarrow> ipv4_prefix list \<Rightarrow> infra_error + unit" where
  "validate_failed_prefixes d failed =
     check_failed_prefixes (set (map route_prefix (filter (\<lambda>r. route_kind r = Remote) (routes d))))
       {} failed"

definition same_owner :: "forward_record option \<Rightarrow> forward_owner \<Rightarrow> infra_error + forward_record" where
  "same_owner r owner =
     (case r of
        None \<Rightarrow> Inl (Rejected ''forward_missing'')
      | Some current \<Rightarrow>
          if fwd_owner current \<noteq> owner then Inl (Rejected ''stale_forward_owner'') else Inr current)"

definition validate_live_policy_identity ::
    "prepare_declaration \<Rightarrow> prepare_declaration \<Rightarrow> infra_error + unit" where
  "validate_live_policy_identity previous target =
     (if table_id previous \<noteq> table_id target
         \<or> overlay_router_ipv4 previous \<noteq> overlay_router_ipv4 target
         \<or> effective_mtu previous \<noteq> effective_mtu target
         \<or> exclusions previous \<noteq> exclusions target
         \<or> firewall previous \<noteq> firewall target
      then Inl (Rejected ''infra_policy_attribute_conflict'') else Inr ())"

definition valid_policy_hash :: "string \<Rightarrow> bool" where
  "valid_policy_hash s = is_hex s 64"

section \<open>Text\<close>

definition is_space :: "char \<Rightarrow> bool" where
  "is_space c \<longleftrightarrow> c \<in> {CHR 0x09, CHR 0x0A, CHR 0x0B, CHR 0x0C, CHR 0x0D, CHR 0x20}"

definition trim :: "string \<Rightarrow> string" where
  "trim s = rev (dropWhile is_space (rev (dropWhile is_space s)))"

text \<open>\<^verbatim>\<open>split_whitespace\<close>, with the word under construction reversed.\<close>

fun split_fields :: "string \<Rightarrow> string \<Rightarrow> string list" where
  "split_fields field [] = (if field = [] then [] else [rev field])"
| "split_fields field (c # s) =
     (if is_space c then (if field = [] then split_fields [] s else rev field # split_fields [] s)
      else split_fields (c # field) s)"

text \<open>\<^verbatim>\<open>rsplit_once(sep)\<close>, its second half.\<close>

definition after_last :: "char \<Rightarrow> string \<Rightarrow> string option" where
  "after_last sep s = (if sep \<in> set s then Some (rev (takeWhile (\<lambda>c. c \<noteq> sep) (rev s))) else None)"

definition is_digit :: "char \<Rightarrow> bool" where
  "is_digit c \<longleftrightarrow> 48 \<le> (of_char c :: nat) \<and> (of_char c :: nat) \<le> 57"

definition digits_value :: "string \<Rightarrow> nat" where
  "digits_value s = foldl (\<lambda>acc c. acc * 10 + (of_char c - 48)) 0 s"

text \<open>\<^verbatim>\<open>str::parse::<u64>\<close>: an optional plus sign and at least one digit, without overflow.\<close>

definition parse_u64 :: "string \<Rightarrow> u64 option" where
  "parse_u64 s =
     (let digits = (case s of c # rest \<Rightarrow> if c = CHR ''+'' then rest else s | [] \<Rightarrow> s) in
      if digits = [] \<or> \<not> list_all is_digit digits \<or> digits_value digits \<ge> 2 ^ 64 then None
      else Some (of_nat (digits_value digits)))"

definition hex_digit :: "nat \<Rightarrow> char" where
  "hex_digit n = ''0123456789abcdef'' ! n"

text \<open>Two lower-case digits a byte, as \<^verbatim>\<open>{byte:02x}\<close> and \<^verbatim>\<open>{:x}\<close> of a digest print them.\<close>

definition lower_hex :: "bytes \<Rightarrow> string" where
  "lower_hex bs = concat (map (\<lambda>b. [hex_digit (unat b div 16), hex_digit (unat b mod 16)]) bs)"

section \<open>The operating system\<close>

datatype io_kind = NotFound | OtherIo

text \<open>
  The answers of the system during one request: the boot identifier file, sixteen bytes of
  \<^verbatim>\<open>/dev/urandom\<close>, \<^verbatim>\<open>/proc/<pid>/stat\<close>, \<^verbatim>\<open>kill(pid, 0)\<close> (its errno, zero for success), the identity of
  the network namespace, descriptor duplication, the JSON text of a declaration and SHA-256.
\<close>

record 'd infra_platform =
  boot_id_file :: "string option"
  random_nonce :: "bytes option"
  proc_stat :: "u32 \<Rightarrow> io_kind + string"
  kill_probe :: "u32 \<Rightarrow> int"
  netns :: "(u64 \<times> u64) option"
  dup_fd :: "'d \<Rightarrow> 'd option"
  declaration_json :: "prepare_declaration \<Rightarrow> bytes option"
  digest :: "bytes \<Rightarrow> u256"

definition current_boot_id :: "'d infra_platform \<Rightarrow> infra_error + string" where
  "current_boot_id env = map_err (\<lambda>_. InfraJournal) (ok_or () (map_option trim (boot_id_file env)))"

definition new_ownership_marker :: "'d infra_platform \<Rightarrow> infra_error + string" where
  "new_ownership_marker env =
     rbind (ok_or InfraJournal (random_nonce env)) (\<lambda>nonce.
     Inr (''candy-infra-v2:'' @ lower_hex nonce))"

definition linux_process_identity :: "'d infra_platform \<Rightarrow> u32 \<Rightarrow> io_kind + (char \<times> u64)" where
  "linux_process_identity env p =
     rbind (proc_stat env p) (\<lambda>stat.
     rbind (ok_or OtherIo (after_last (CHR '')'') stat)) (\<lambda>suffix.
     let fields = split_fields [] suffix in
     rbind (ok_or OtherIo (if fields = [] then None else Some (hd (hd fields)))) (\<lambda>state.
     rbind (ok_or OtherIo (if length fields \<le> 19 then None else Some (fields ! 19))) (\<lambda>field.
     rbind (ok_or OtherIo (parse_u64 field)) (\<lambda>ticks.
     Inr (state, ticks))))))"

definition process_start_ticks :: "'d infra_platform \<Rightarrow> u32 \<Rightarrow> infra_error + u64 option" where
  "process_start_ticks env p =
     (case linux_process_identity env p of
        Inl _ \<Rightarrow> Inl InfraJournal
      | Inr (_, ticks) \<Rightarrow> Inr (Some ticks))"

definition business_process_epoch_alive :: "'d infra_platform \<Rightarrow> u32 \<Rightarrow> u64 \<Rightarrow> infra_error + bool" where
  "business_process_epoch_alive env p ticks =
     (case linux_process_identity env p of
        Inr (state, current) \<Rightarrow>
          Inr (state \<notin> {CHR ''Z'', CHR ''X'', CHR ''x''} \<and> current = ticks)
      | Inl NotFound \<Rightarrow> Inr False
      | Inl OtherIo \<Rightarrow> Inl InfraJournal)"

definition io_owner_alive :: "'d infra_platform \<Rightarrow> io_owner \<Rightarrow> bool" where
  "io_owner_alive env owner =
     (if (case current_boot_id env of Inr b \<Rightarrow> b \<noteq> io_boot_id owner | Inl _ \<Rightarrow> False) then False
      else
        (case linux_process_identity env (io_pid owner) of
           Inl NotFound \<Rightarrow> False
         | Inl OtherIo \<Rightarrow> True
         | Inr (state, ticks) \<Rightarrow>
             if state \<in> {CHR ''Z'', CHR ''X''} \<or> Some ticks \<noteq> io_start_ticks owner then False
             else kill_probe env (io_pid owner) = 0 \<or> kill_probe env (io_pid owner) = EPERM))"

text \<open>\<^verbatim>\<open>next.io_owner.as_ref().is_some_and(io_owner_alive)\<close>\<close>

definition io_held :: "'d infra_platform \<Rightarrow> infra_state \<Rightarrow> bool" where
  "io_held env st = (case io_owner st of None \<Rightarrow> False | Some owner \<Rightarrow> io_owner_alive env owner)"

section \<open>The backend trait\<close>

record 'b infra_backend_ops = "'b backend_ops" +
  update_live_policy :: "prepare_declaration \<Rightarrow> prepare_declaration \<Rightarrow> ipv4_prefix list \<Rightarrow> ('b, unit) net_action"
  discard_live_policy :: "prepare_declaration \<Rightarrow> prepare_declaration \<Rightarrow> ('b, unit) net_action"
  interface_identity :: "('b, u32 option) net_action"
  interface_ownership_marker :: "('b, string option) net_action"
  stamp_infrastructure_ownership :: "string \<Rightarrow> ('b, unit) net_action"
  ensure_infrastructure :: "infra_spec \<Rightarrow> ('b, u32) net_action"
  retire_infrastructure :: "('b, unit) net_action"
  reject_forwarding :: "prepare_declaration \<Rightarrow> ('b, unit) net_action"
  guard_forwarding :: "prepare_declaration \<Rightarrow> ('b, unit) net_action"
  restore_forwarding :: "prepare_declaration \<Rightarrow> ('b, unit) net_action"
  restore_forwarding_with_failures :: "prepare_declaration \<Rightarrow> ipv4_prefix list \<Rightarrow> ('b, unit) net_action"
  update_failed_forward_prefixes ::
    "prepare_declaration \<Rightarrow> ipv4_prefix list \<Rightarrow> ipv4_prefix list \<Rightarrow> ('b, unit) net_action"
  validate_forwarding_replacement :: "prepare_declaration \<Rightarrow> prepare_declaration \<Rightarrow> ('b, unit) net_action"
  retire_forwarding :: "prepare_declaration \<Rightarrow> ('b, unit) net_action"
  remove_stale_forwarding :: "prepare_declaration \<Rightarrow> prepare_declaration \<Rightarrow> ('b, unit) net_action"

text \<open>The default bodies of the trait.\<close>

definition default_update_live_policy ::
    "prepare_declaration \<Rightarrow> prepare_declaration \<Rightarrow> ipv4_prefix list \<Rightarrow> ('b, unit) net_action" where
  "default_update_live_policy previous target failed = throw NetInvalidTransition"

definition default_discard_live_policy ::
    "'b infra_backend_ops \<Rightarrow> prepare_declaration \<Rightarrow> prepare_declaration \<Rightarrow> ('b, unit) net_action" where
  "default_discard_live_policy B previous target =
     andthen (remove_stale_forwarding B target previous) (reject_forwarding B previous)"

definition default_retire_forwarding ::
    "'b infra_backend_ops \<Rightarrow> prepare_declaration \<Rightarrow> ('b, unit) net_action" where
  "default_retire_forwarding B d = andthen (remove_policy_rule B d) (remove_routes B d)"

section \<open>The journal\<close>

record infra_envelope =
  schema_version :: u8
  sha256 :: string
  envelope_state :: infra_state

definition metadata_valid :: "forward_record \<Rightarrow> bool" where
  "metadata_valid r =
     (case (policy_generation r, policy_hash r) of
        (None, None) \<Rightarrow> policy_revision r = 0
      | (Some gen, Some hash) \<Rightarrow>
          policy_revision r > 0 \<and> gen \<ge> signed_generation (fwd_owner r) \<and> valid_policy_hash hash
      | _ \<Rightarrow> False)"

text \<open>\<^verbatim>\<open>forward.policy_generation.unwrap_or(forward.owner.signed_generation)\<close>\<close>

definition effective_generation :: "forward_record \<Rightarrow> u64" where
  "effective_generation r =
     (case policy_generation r of None \<Rightarrow> signed_generation (fwd_owner r) | Some gen \<Rightarrow> gen)"

definition pending_policy_valid :: "infra_state \<Rightarrow> forward_record \<Rightarrow> pending_policy \<Rightarrow> bool" where
  "pending_policy_valid st r p \<longleftrightarrow>
     is_ok (validate_declaration (pending_declaration p))
     \<and> is_ok (validate_live_policy_identity (fwd_declaration r) (pending_declaration p))
     \<and> \<not> (pending_revision p \<le> policy_revision r
          \<or> pending_generation p < effective_generation r
          \<or> \<not> valid_policy_hash (pending_hash p)
          \<or> pending_failed_prefixes r \<noteq> None
          \<or> candidate st \<noteq> None
          \<or> fwd_phase r \<noteq> FwActive)"

definition failure_intent_valid :: "forward_record \<Rightarrow> bool" where
  "failure_intent_valid r \<longleftrightarrow>
     (pending_failed_prefixes r \<noteq> None) = (pending_failure_revision r \<noteq> None)
     \<and> (case pending_failure_revision r of None \<Rightarrow> True | Some v \<Rightarrow> \<not> v \<le> failure_revision r)"

definition forward_valid :: "infra_state \<Rightarrow> forward_record \<Rightarrow> bool" where
  "forward_valid st r \<longleftrightarrow>
     is_ok (validate_forward_owner (fwd_owner r))
     \<and> is_ok (validate_declaration (fwd_declaration r))
     \<and> is_ok (validate_failed_prefixes (fwd_declaration r) (fwd_failed_prefixes r))
     \<and> (case pending_failed_prefixes r of None \<Rightarrow> True
        | Some pending \<Rightarrow> is_ok (validate_failed_prefixes (fwd_declaration r) pending))
     \<and> metadata_valid r
     \<and> (case pending_policy r of None \<Rightarrow> True | Some p \<Rightarrow> pending_policy_valid st r p)
     \<and> failure_intent_valid r"

text \<open>
  The checks of \<^verbatim>\<open>InfrastructureJournal::load\<close> on a document whose checksum matches. Each failing
  check is an I/O error, so their order does not show.
\<close>

definition state_loadable :: "infra_state \<Rightarrow> bool" where
  "state_loadable st \<longleftrightarrow>
     (case spec st of None \<Rightarrow> True | Some sp \<Rightarrow> is_ok (validate_spec sp))
     \<and> (case forwarding st of None \<Rightarrow> True | Some r \<Rightarrow> forward_valid st r)
     \<and> (case candidate st of None \<Rightarrow> True | Some r \<Rightarrow> forward_valid st r)"

definition MAX_INFRASTRUCTURE_JOURNAL_BYTES :: nat where
  "MAX_INFRASTRUCTURE_JOURNAL_BYTES = 2 * MAX_NETD_FRAME_LEN + 65536"

record infra_codec =
  state_json :: "infra_state \<Rightarrow> bytes option"
  envelope_json :: "infra_envelope json"
  state_digest :: "bytes \<Rightarrow> u256"

definition state_hash :: "infra_codec \<Rightarrow> infra_state \<Rightarrow> network_error + string" where
  "state_hash C st =
     rbind (ok_or Journal (state_json C st)) (\<lambda>doc.
     Inr (lower_hex (to_be_bytes 32 (state_digest C doc))))"

definition journal_parent_safe :: "journal_fs \<Rightarrow> bool" where
  "journal_parent_safe fs =
     (case parent_dir fs of
        None \<Rightarrow> False
      | Some meta \<Rightarrow>
          file_kind meta = Directory \<and> file_uid meta = euid fs \<and> file_mode meta AND 0x12 = 0)"

definition infra_journal_new :: "unit fs_action" where
  "infra_journal_new =
     andthen journal_call
       (bind (gets journal_parent_safe) (\<lambda>safe. if safe then return () else throw Journal))"

definition infra_file_safe :: "journal_fs \<Rightarrow> file_meta \<Rightarrow> bool" where
  "infra_file_safe fs meta \<longleftrightarrow>
     file_kind meta = RegularFile \<and> file_uid meta = euid fs \<and> file_mode meta AND 0x3f = 0"

definition decode_envelope :: "infra_codec \<Rightarrow> bytes \<Rightarrow> network_error + infra_state" where
  "decode_envelope C content =
     (if length content > MAX_INFRASTRUCTURE_JOURNAL_BYTES then Inl Journal
      else
        rbind (ok_or Journal (from_slice (envelope_json C) content)) (\<lambda>envelope.
        if schema_version envelope \<noteq> 2 then Inl Journal
        else
          rbind (state_hash C (envelope_state envelope)) (\<lambda>hash.
          if hash \<noteq> sha256 envelope then Inl Journal
          else if \<not> state_loadable (envelope_state envelope) then Inl Journal
          else Inr (envelope_state envelope))))"

definition infra_load_file :: "infra_codec \<Rightarrow> infra_state fs_action" where
  "infra_load_file C =
     andthen journal_call
     (bind (gets journal_file) (\<lambda>file.
      case file of
        None \<Rightarrow> return default_state
      | Some (meta, content) \<Rightarrow>
          if file_kind meta = Symlink then throw Journal
          else
            andthen journal_call
            (bind (gets (\<lambda>fs. infra_file_safe fs meta)) (\<lambda>safe.
             if \<not> safe then throw Journal
             else andthen journal_call (of_result (decode_envelope C content))))))"

text \<open>\<^verbatim>\<open>create_new\<close> fails on an existing temporary file of this process.\<close>

definition infra_replace_file :: "bytes \<Rightarrow> unit fs_action" where
  "infra_replace_file content =
     andthen journal_call
     (bind (gets temporary) (\<lambda>stale.
      if stale \<noteq> None then throw Journal
      else
        andthen (modify (\<lambda>fs. fs\<lparr>temporary := Some []\<rparr>))
        (andthen journal_call
        (andthen (modify (\<lambda>fs. fs\<lparr>temporary := Some content\<rparr>))
        (andthen journal_call
        (andthen journal_call
        (andthen (modify (\<lambda>fs. fs\<lparr>temporary := None, journal_file :=
           Some (\<lparr>file_kind = RegularFile, file_uid = euid fs, file_mode = 0x180\<rparr>, content)\<rparr>))
         sync_directory)))))))"

definition encode_envelope :: "infra_codec \<Rightarrow> infra_state \<Rightarrow> network_error + bytes" where
  "encode_envelope C st =
     rbind (state_hash C st) (\<lambda>hash.
     rbind (ok_or Journal (to_vec (envelope_json C)
        \<lparr>schema_version = 2, sha256 = hash, envelope_state = st\<rparr>)) (\<lambda>content.
     if length content > MAX_INFRASTRUCTURE_JOURNAL_BYTES then Inl Journal else Inr content))"

definition infra_store_file :: "infra_codec \<Rightarrow> infra_state \<Rightarrow> unit fs_action" where
  "infra_store_file C st =
     bind (of_result (encode_envelope C st)) (\<lambda>content.
     bind (attempt (infra_replace_file content)) (\<lambda>result.
     if \<not> is_ok result
     then andthen (attempt (andthen journal_call (modify (\<lambda>fs. fs\<lparr>temporary := None\<rparr>))))
            (of_result result)
     else of_result result))"

record 'j infra_journal_ops =
  infra_load :: "('j, infra_state) net_action"
  infra_store :: "infra_state \<Rightarrow> ('j, unit) net_action"

definition infra_file_journal :: "infra_codec \<Rightarrow> journal_fs infra_journal_ops" where
  "infra_file_journal C = \<lparr>infra_load = infra_load_file C, infra_store = infra_store_file C\<rparr>"

end
