(* ===== verification/Netd_Infra.thy ===== *)
theory Netd_Infra
  imports Netd_Infra_State
begin

text \<open>
  The infrastructure service of netd (\<^verbatim>\<open>candy-netd/src/v2.rs\<close>, lines 331-1716): creation and repair of
  the persistent TUN device, the lease on its descriptor, and the forwarding owners with their
  candidates, failed prefixes and live policies. Every handler is a state-passing action over the
  factory, the backend, the journal and the in-memory state; \<open>next\<close> is the copy of the state that
  the handler changes and persists.
\<close>

section \<open>State and primitive actions\<close>

record ('d, 'f) tun_factory_ops =
  create_exclusive :: "('f, unit, 'd) action"
  enable_persistence :: "'d \<Rightarrow> ('f, unit, unit) action"
  create_persistent :: "('f, unit, 'd) action"

text \<open>The collaborators of the service: operating system, TUN factory, backend and journal.\<close>

record ('d, 'f, 'b, 'j) infra_world =
  os :: "'d infra_platform"
  tun_factory :: "('d, 'f) tun_factory_ops"
  net :: "'b infra_backend_ops"
  state_journal :: "'j infra_journal_ops"

record ('d, 'f, 'b, 'j) infra_service =
  infra_uid :: u32
  infra_gid :: u32
  factory :: 'f
  infra_backend :: 'b
  infra_journal :: 'j
  svc_state :: infra_state
  lifecycle_fd :: "'d option"
  restart_recovery_pending :: bool

type_synonym ('d, 'f, 'b, 'j, 'a) infra_action =
  "(('d, 'f, 'b, 'j) infra_service, infra_error, 'a) action"

type_synonym 'd reply = "infra_body \<times> 'd option"

definition infra_service_new ::
    "('d, 'f, 'b, 'j) infra_world \<Rightarrow> u32 \<Rightarrow> u32 \<Rightarrow> 'f \<Rightarrow> 'b \<Rightarrow> 'j \<Rightarrow>
     infra_error + ('d, 'f, 'b, 'j) infra_service" where
  "infra_service_new W uid gid f b j =
     (case infra_load (state_journal W) j of
        (Inl _, j') \<Rightarrow> Inl InfraJournal
      | (Inr st, j') \<Rightarrow>
          Inr \<lparr>infra_uid = uid, infra_gid = gid, factory = f, infra_backend = b,
               infra_journal = j', svc_state = st, lifecycle_fd = None,
               restart_recovery_pending = True\<rparr>)"

text \<open>A backend call whose error becomes \<open>wrap error\<close>, and the plain \<^verbatim>\<open>?\<close> of one.\<close>

definition net_as ::
    "(network_error \<Rightarrow> infra_error) \<Rightarrow> ('b, 'a) net_action \<Rightarrow> ('d, 'f, 'b, 'j, 'a) infra_action" where
  "net_as wrap m s =
     (case m (infra_backend s) of (r, b) \<Rightarrow> (map_err wrap r, s\<lparr>infra_backend := b\<rparr>))"

abbreviation on_net :: "('b, 'a) net_action \<Rightarrow> ('d, 'f, 'b, 'j, 'a) infra_action" where
  "on_net \<equiv> net_as InfraBackend"

definition on_factory :: "('f, unit, 'a) action \<Rightarrow> ('d, 'f, 'b, 'j, 'a) infra_action" where
  "on_factory m s =
     (case m (factory s) of (r, f) \<Rightarrow> (map_err (\<lambda>_. InfraPlatform) r, s\<lparr>factory := f\<rparr>))"

definition reject :: "string \<Rightarrow> ('d, 'f, 'b, 'j, 'a) infra_action" where
  "reject code = throw (Rejected code)"

definition unwrap :: "'a option \<Rightarrow> ('d, 'f, 'b, 'j, 'a) infra_action" where
  "unwrap x = of_result (ok_or Panicked x)"

definition set_lifecycle :: "'d option \<Rightarrow> ('d, 'f, 'b, 'j, unit) infra_action" where
  "set_lifecycle fd = modify (\<lambda>s. s\<lparr>lifecycle_fd := fd\<rparr>)"

definition set_restart_recovery :: "bool \<Rightarrow> ('d, 'f, 'b, 'j, unit) infra_action" where
  "set_restart_recovery b = modify (\<lambda>s. s\<lparr>restart_recovery_pending := b\<rparr>)"

definition persist :: "('d, 'f, 'b, 'j) infra_world \<Rightarrow> infra_state \<Rightarrow> ('d, 'f, 'b, 'j, unit) infra_action" where
  "persist W st s =
     (case infra_store (state_journal W) st (infra_journal s) of
        (Inl _, j) \<Rightarrow> (Inl InfraJournal, s\<lparr>infra_journal := j\<rparr>)
      | (Inr _, j) \<Rightarrow> (Inr (), s\<lparr>infra_journal := j, svc_state := st\<rparr>))"

definition check_administrator :: "infra_request \<Rightarrow> ('d, 'f, 'b, 'j, unit) infra_action" where
  "check_administrator req =
     bind (gets svc_state) (\<lambda>st.
     if administrator st \<noteq> Some (caller_instance_id req) then reject ''infra_owner_conflict''
     else return ())"

definition verify_device_ownership ::
    "('d, 'f, 'b, 'j) infra_world \<Rightarrow> ('d, 'f, 'b, 'j, unit) infra_action" where
  "verify_device_ownership W =
     bind (gets svc_state) (\<lambda>st.
     if ownership_marker st = None then reject ''infra_ownership_conflict''
     else
       bind (on_net (interface_ownership_marker (net W))) (\<lambda>marker.
       if marker \<noteq> ownership_marker st then reject ''infra_ownership_conflict'' else return ()))"

definition identity ::
    "('d, 'f, 'b, 'j) infra_world \<Rightarrow> u128 \<Rightarrow> u64 \<Rightarrow> ('d, 'f, 'b, 'j, infra_spec) infra_action" where
  "identity W infra gen =
     bind (gets svc_state) (\<lambda>st.
     bind (of_result (ok_or (Rejected ''infra_missing'') (spec st))) (\<lambda>sp.
     if infra_id sp \<noteq> infra \<or> infra_generation sp \<noteq> gen then reject ''infra_generation_conflict''
     else
       bind (on_net (interface_identity (net W))) (\<lambda>index.
       if index \<noteq> ifindex st then reject ''infra_identity_conflict''
       else andthen (verify_device_ownership W) (return sp))))"

text \<open>The check against \<^verbatim>\<open>/proc/thread-self/ns/net\<close>.\<close>

definition check_namespace ::
    "('d, 'f, 'b, 'j) infra_world \<Rightarrow> infra_spec \<Rightarrow> ('d, 'f, 'b, 'j, unit) infra_action" where
  "check_namespace W sp =
     bind (of_result (ok_or InfraJournal (netns (os W)))) (\<lambda>(device, inode).
     if netns_device sp \<noteq> device \<or> netns_inode sp \<noteq> inode then reject ''infra_namespace_conflict''
     else return ())"

definition obtain_device ::
    "('d, 'f, 'b, 'j) infra_world \<Rightarrow> string \<Rightarrow> ('d, 'f, 'b, 'j, unit) infra_action" where
  "obtain_device W marker =
     bind (on_net (interface_identity (net W))) (\<lambda>index.
     if index = None then
       bind (on_factory (create_exclusive (tun_factory W))) (\<lambda>fd.
       andthen (set_lifecycle (Some fd))
       (bind (attempt (on_net (stamp_infrastructure_ownership (net W) marker))) (\<lambda>result.
        case result of
          Inl e \<Rightarrow> andthen (set_lifecycle None) (throw e)
        | Inr _ \<Rightarrow> return ())))
     else
       andthen (verify_device_ownership W)
       (bind (gets lifecycle_fd) (\<lambda>fd.
        if fd = None
        then bind (on_factory (create_persistent (tun_factory W))) (\<lambda>fd. set_lifecycle (Some fd))
        else return ())))"

definition complete_creation ::
    "('d, 'f, 'b, 'j) infra_world \<Rightarrow> ('d, 'f, 'b, 'j, unit) infra_action" where
  "complete_creation W =
     bind (gets svc_state) (\<lambda>st.
     if \<not> creation_pending st then return ()
     else
       bind (of_result (ok_or (Rejected ''infra_intent_invalid'') (spec st))) (\<lambda>sp.
       bind (of_result (ok_or (Rejected ''infra_intent_invalid'') (ownership_marker st))) (\<lambda>marker.
       andthen (check_namespace W sp)
       (andthen (obtain_device W marker)
       (andthen (verify_device_ownership W)
       (bind (gets lifecycle_fd) (\<lambda>fd.
        bind (unwrap fd) (\<lambda>fd.
        andthen (on_factory (enable_persistence (tun_factory W) fd))
        (bind (on_net (ensure_infrastructure (net W) sp)) (\<lambda>index.
         bind (of_result (current_boot_id (os W))) (\<lambda>boot.
         persist W (st\<lparr>ifindex := Some index, creation_pending := False, boot_id := boot\<rparr>))))))))))))"

section \<open>Replacement, fencing and live policy\<close>

definition install_replacement ::
    "('d, 'f, 'b, 'j) infra_world \<Rightarrow> forward_record \<Rightarrow> forward_record \<Rightarrow> sysctl_change list \<Rightarrow>
     ('d, 'f, 'b, 'j, unit) infra_action" where
  "install_replacement W previous cand changes =
     (let old = fwd_declaration previous; new = fwd_declaration cand in
      andthen (if fwd_phase previous = FwGuarded
         then net_as (Transition ''guard_previous'') (guard_forwarding (net W) old)
         else net_as (Transition ''guard_previous'') (reject_forwarding (net W) old))
      (andthen (when_true (fwd_phase previous \<noteq> FwGuarded)
         (net_as (Transition ''guard_candidate'') (reject_forwarding (net W) new)))
      (andthen (net_as (Transition ''remove_previous_firewall'') (remove_firewall (net W) old))
      (andthen (net_as (Transition ''candidate_sysctls'') (prepare_sysctls (net W) new changes))
      (andthen (net_as (Transition ''candidate_firewall'') (prepare_firewall (net W) new))
      (andthen (net_as (Transition ''remove_previous_routes'')
         (remove_stale_forwarding (net W) old new))
      (net_as (Transition ''candidate_routes'')
         (restore_forwarding_with_failures (net W) new (fwd_failed_prefixes cand)))))))))"

text \<open>\<^verbatim>\<open>cond && self.state.boot_id == current_boot_id()?\<close>: the file is read only when \<open>cond\<close> holds.\<close>

definition same_boot_if ::
    "('d, 'f, 'b, 'j) infra_world \<Rightarrow> bool \<Rightarrow> ('d, 'f, 'b, 'j, bool) infra_action" where
  "same_boot_if W cond =
     (if \<not> cond then return False
      else
        bind (gets svc_state) (\<lambda>st.
        bind (of_result (current_boot_id (os W))) (\<lambda>boot.
        return (boot_id st = boot))))"

definition rollback_replacement ::
    "('d, 'f, 'b, 'j) infra_world \<Rightarrow> forward_record \<Rightarrow> forward_record \<Rightarrow> u64 \<Rightarrow>
     ('d, 'f, 'b, 'j, unit) infra_action" where
  "rollback_replacement W previous cand now =
     (let old = fwd_declaration previous; new = fwd_declaration cand;
          live = owner_is_live (fwd_owner previous) now in
      bind (same_boot_if W (fwd_phase previous = FwGuarded \<and> live)) (\<lambda>guarded_live.
      andthen (if guarded_live then on_net (guard_forwarding (net W) old)
         else andthen (on_net (reject_forwarding (net W) new)) (on_net (reject_forwarding (net W) old)))
      (andthen (on_net (remove_firewall (net W) new))
      (bind (same_boot_if W (fwd_phase previous \<in> {FwActive, FwGuarded} \<and> live)) (\<lambda>old_live.
       andthen (when_true old_live (on_net (prepare_firewall (net W) old)))
       (andthen (on_net (remove_stale_forwarding (net W) new old))
       (andthen (when_true old_live
          (on_net (restore_forwarding_with_failures (net W) old (fwd_failed_prefixes previous))))
       (bind (gets svc_state) (\<lambda>st.
        persist W (st\<lparr>forwarding :=
            Some (if old_live then previous else previous\<lparr>fwd_phase := FwRevoked\<rparr>),
          candidate := None\<rparr>))))))))))"

definition without_local_routes :: "prepare_declaration \<Rightarrow> prepare_declaration" where
  "without_local_routes d = d\<lparr>routes := filter (\<lambda>r. route_kind r \<noteq> Local) (routes d)\<rparr>"

definition fence_policy_intent ::
    "('d, 'f, 'b, 'j) infra_world \<Rightarrow> forward_record \<Rightarrow> ('d, 'f, 'b, 'j, unit) infra_action" where
  "fence_policy_intent W fwd =
     andthen (on_net (reject_forwarding (net W) (fwd_declaration fwd)))
     (andthen
       (case pending_policy fwd of
          None \<Rightarrow> return ()
        | Some pending \<Rightarrow>
            let remote = without_local_routes (pending_declaration pending) in
            when_true (routes remote \<noteq> []) (on_net (reject_forwarding (net W) remote)))
     (andthen (on_net (remove_firewall (net W) (fwd_declaration fwd)))
       (case pending_policy fwd of
          None \<Rightarrow> return ()
        | Some pending \<Rightarrow>
            on_net (discard_live_policy (net W) (fwd_declaration fwd) (pending_declaration pending)))))"

text \<open>The failed prefixes that remain meaningful under the pending declaration.\<close>

definition retained_failures :: "forward_record \<Rightarrow> pending_policy \<Rightarrow> ipv4_prefix list" where
  "retained_failures fwd pending =
     filter (\<lambda>p. list_ex (\<lambda>r. route_prefix r = p \<and> route_kind r \<noteq> Local)
       (routes (pending_declaration pending))) (fwd_failed_prefixes fwd)"

definition adopt_policy :: "forward_record \<Rightarrow> pending_policy \<Rightarrow> ipv4_prefix list \<Rightarrow> forward_record" where
  "adopt_policy fwd pending failed =
     fwd\<lparr>fwd_declaration := pending_declaration pending,
         policy_revision := pending_revision pending,
         policy_generation := Some (pending_generation pending),
         policy_hash := Some (pending_hash pending),
         fwd_failed_prefixes := failed,
         pending_policy := None\<rparr>"

definition reconcile_live_policy ::
    "('d, 'f, 'b, 'j) infra_world \<Rightarrow> u64 \<Rightarrow> ('d, 'f, 'b, 'j, unit) infra_action" where
  "reconcile_live_policy W now =
     bind (gets svc_state) (\<lambda>st.
     bind (of_result (ok_or (Rejected ''forward_missing'') (forwarding st))) (\<lambda>fwd.
     andthen (of_result (ensure_live (fwd_owner fwd) now))
     (if fwd_phase fwd \<noteq> FwActive \<or> candidate st \<noteq> None \<or> pending_failed_prefixes fwd \<noteq> None
      then reject ''forward_policy_repair_pending''
      else
        bind (of_result (ok_or (Rejected ''forward_policy_intent_missing'') (pending_policy fwd)))
        (\<lambda>pending.
        if cancelled pending then reject ''forward_policy_cancelled''
        else
          bind (of_result (ok_or (Rejected ''infra_missing'') (spec st))) (\<lambda>sp.
          andthen (identity W (infra_id sp) (infra_generation sp))
          (let failed = retained_failures fwd pending in
           andthen (net_as (Transition ''live_policy_routes_firewall'')
              (update_live_policy (net W) (fwd_declaration fwd) (pending_declaration pending) failed))
           (persist W (st\<lparr>forwarding := Some (adopt_policy fwd pending failed)\<rparr>))))))))"

section \<open>Recovery\<close>

definition recover_candidate ::
    "('d, 'f, 'b, 'j) infra_world \<Rightarrow> u64 \<Rightarrow> ('d, 'f, 'b, 'j, bool) infra_action" where
  "recover_candidate W now =
     bind (gets svc_state) (\<lambda>st.
     bind (gets restart_recovery_pending) (\<lambda>restarted.
     case candidate st of
       None \<Rightarrow> return False
     | Some cand \<Rightarrow>
         if fwd_phase cand = FwPreparing then
           bind (of_result (ok_or (Rejected ''forward_missing'') (forwarding st))) (\<lambda>previous.
           andthen (rollback_replacement W previous cand now) (return True))
         else if restarted \<or> \<not> owner_is_live (fwd_owner cand) now then
           andthen (persist W (st\<lparr>candidate := None\<rparr>)) (return True)
         else return False))"

definition recover_cancelled ::
    "('d, 'f, 'b, 'j) infra_world \<Rightarrow> ('d, 'f, 'b, 'j, bool) infra_action" where
  "recover_cancelled W =
     bind (gets svc_state) (\<lambda>st.
     case forwarding st of
       None \<Rightarrow> return False
     | Some fwd \<Rightarrow>
         (case pending_policy fwd of
            None \<Rightarrow> return False
          | Some pending \<Rightarrow>
              if \<not> cancelled pending then return False
              else
                andthen (fence_policy_intent W fwd)
                (andthen (persist W (st\<lparr>forwarding :=
                   Some (fwd\<lparr>fwd_phase := FwRevoked, pending_policy := None\<rparr>)\<rparr>))
                (return True))))"

definition recover_policy ::
    "('d, 'f, 'b, 'j) infra_world \<Rightarrow> u64 \<Rightarrow> ('d, 'f, 'b, 'j, bool) infra_action" where
  "recover_policy W now =
     bind (gets svc_state) (\<lambda>st.
     bind (same_boot_if W (case forwarding st of None \<Rightarrow> False
        | Some fwd \<Rightarrow> pending_policy fwd \<noteq> None \<and> fwd_phase fwd = FwActive
            \<and> owner_is_live (fwd_owner fwd) now)) (\<lambda>due.
     if \<not> due then return False
     else
       bind (attempt (reconcile_live_policy W now)) (\<lambda>result. return (is_ok result))))"

definition recover_prefixes ::
    "('d, 'f, 'b, 'j) infra_world \<Rightarrow> u64 \<Rightarrow> ('d, 'f, 'b, 'j, bool) infra_action" where
  "recover_prefixes W now =
     bind (gets svc_state) (\<lambda>st.
     case forwarding st of
       None \<Rightarrow> return False
     | Some fwd \<Rightarrow>
         bind (same_boot_if W (fwd_phase fwd = FwActive \<and> owner_is_live (fwd_owner fwd) now)) (\<lambda>live.
         if \<not> live then return False
         else
           (case pending_failed_prefixes fwd of
              None \<Rightarrow> return False
            | Some target \<Rightarrow>
                bind (unwrap (spec st)) (\<lambda>sp.
                andthen (identity W (infra_id sp) (infra_generation sp))
                (bind (attempt (on_net (update_failed_forward_prefixes (net W) (fwd_declaration fwd)
                         (fwd_failed_prefixes fwd) target))) (\<lambda>result.
                 if \<not> is_ok result then return False
                 else
                   bind (unwrap (pending_failure_revision fwd)) (\<lambda>revision.
                   andthen (persist W (st\<lparr>forwarding := Some (fwd\<lparr>fwd_failed_prefixes := target,
                      failure_revision := revision, pending_failed_prefixes := None,
                      pending_failure_revision := None\<rparr>)\<rparr>))
                   (return True))))))))"

definition revoke_record :: "forward_record \<Rightarrow> forward_record" where
  "revoke_record fwd = fwd\<lparr>fwd_phase := FwRevoked, pending_policy := None,
     pending_failed_prefixes := None, pending_failure_revision := None\<rparr>"

definition cancel_pending :: "forward_record \<Rightarrow> forward_record" where
  "cancel_pending fwd = fwd\<lparr>pending_policy := map_option (\<lambda>p. p\<lparr>cancelled := True\<rparr>) (pending_policy fwd)\<rparr>"

definition recover_forwarding ::
    "('d, 'f, 'b, 'j) infra_world \<Rightarrow> u64 \<Rightarrow> bool \<Rightarrow> ('d, 'f, 'b, 'j, bool) infra_action" where
  "recover_forwarding W now recovered =
     bind (gets svc_state) (\<lambda>st.
     bind (gets restart_recovery_pending) (\<lambda>restarted.
     case forwarding st of
       None \<Rightarrow> andthen (set_restart_recovery False) (return recovered)
     | Some fwd \<Rightarrow>
         if fwd_phase fwd = FwRevoked then andthen (set_restart_recovery False) (return recovered)
         else
           bind (of_result (current_boot_id (os W))) (\<lambda>boot.
           let ambiguous = restarted \<and> fwd_phase fwd \<in> {FwPreparing, FwPrepared};
               boot_changed = boot_id st \<noteq> boot;
               live = owner_is_live (fwd_owner fwd) now in
           if fwd_phase fwd = FwGuarded \<and> \<not> boot_changed \<and> live then
             andthen (on_net (guard_forwarding (net W) (fwd_declaration fwd)))
             (andthen (set_restart_recovery False) (return True))
           else if \<not> ambiguous \<and> \<not> boot_changed \<and> live then
             andthen (set_restart_recovery False) (return recovered)
           else
             andthen (when_true (pending_policy fwd \<noteq> None)
                (persist W (st\<lparr>forwarding := Some (cancel_pending fwd)\<rparr>)))
             (andthen (fence_policy_intent W (cancel_pending fwd))
             (bind (gets svc_state) (\<lambda>st.
              bind (unwrap (forwarding st)) (\<lambda>fwd.
              andthen (persist W (st\<lparr>forwarding := Some (revoke_record fwd)\<rparr>))
              (andthen (set_restart_recovery False) (return True)))))))))"

definition recover_expired ::
    "('d, 'f, 'b, 'j) infra_world \<Rightarrow> u64 \<Rightarrow> ('d, 'f, 'b, 'j, bool) infra_action" where
  "recover_expired W now =
     andthen (complete_creation W)
     (bind (recover_candidate W now) (\<lambda>r1.
      bind (recover_cancelled W) (\<lambda>r2.
      bind (recover_policy W now) (\<lambda>r3.
      bind (recover_prefixes W now) (\<lambda>r4.
      recover_forwarding W now (r1 \<or> r2 \<or> r3 \<or> r4))))))"

end
