(* ===== verification/Netd_Infra_Service.thy ===== *)
theory Netd_Infra_Service
  imports Netd_Infra
begin

text \<open>
  The request handlers of the infrastructure service (\<^verbatim>\<open>InfrastructureService::process\<close>,
  \<^verbatim>\<open>candy-netd/src/v2.rs\<close>, lines 531-1416), one definition per operation, and the error body of
  \<^verbatim>\<open>serve_once\<close>.
\<close>

section \<open>The end of a handler\<close>

abbreviation ack :: "('d, 'f, 'b, 'j, 'd reply) infra_action" where
  "ack \<equiv> return (Ack, None)"

text \<open>
  The last statement of \<^verbatim>\<open>process\<close>: persist the copy; when that fails, put the kernel back into the
  guarded or rejected policy of the retained state, ignoring errors, and report the failure.
\<close>

definition persist_or_fence ::
    "('d, 'f, 'b, 'j) infra_world \<Rightarrow> infra_state \<Rightarrow> ('d, 'f, 'b, 'j, 'd reply) infra_action" where
  "persist_or_fence W st =
     bind (attempt (persist W st)) (\<lambda>result.
     case result of
       Inr _ \<Rightarrow> ack
     | Inl e \<Rightarrow>
         bind (gets svc_state) (\<lambda>retained.
         andthen
           (case forwarding retained of
              None \<Rightarrow> return ()
            | Some fwd \<Rightarrow>
                andthen (attempt
                  (if fwd_phase fwd = FwGuarded
                   then on_net (guard_forwarding (net W) (fwd_declaration fwd))
                   else on_net (reject_forwarding (net W) (fwd_declaration fwd))))
                (return ()))
           (throw e)))"

section \<open>Infrastructure\<close>

definition infra_status_body :: "infra_state \<Rightarrow> infra_body" where
  "infra_status_body st = InfraStatusBody (spec st) (ifindex st) (map_option io_epoch (io_owner st))"

text \<open>The forwarding record of a device that vanished: fenced in the kernel, then revoked.\<close>

definition fence_lost_device ::
    "('d, 'f, 'b, 'j) infra_world \<Rightarrow> infra_state \<Rightarrow> ('d, 'f, 'b, 'j, infra_state) infra_action" where
  "fence_lost_device W st =
     (case forwarding st of
        None \<Rightarrow> return st
      | Some fwd \<Rightarrow>
          andthen (on_net (reject_forwarding (net W) (fwd_declaration fwd)))
          (andthen (on_net (remove_firewall (net W) (fwd_declaration fwd)))
          (return (st\<lparr>forwarding := Some (fwd\<lparr>fwd_phase := FwRevoked\<rparr>)\<rparr>))))"

definition repair_device ::
    "('d, 'f, 'b, 'j) infra_world \<Rightarrow> infra_state \<Rightarrow> ('d, 'f, 'b, 'j, 'd reply) infra_action" where
  "repair_device W st =
     (if io_held (os W) st then reject ''io_owner_alive''
      else
        bind (fence_lost_device W st) (\<lambda>next.
        bind (of_result (new_ownership_marker (os W))) (\<lambda>marker.
        bind (of_result (current_boot_id (os W))) (\<lambda>boot.
        andthen (persist W (next\<lparr>candidate := None, creation_pending := True,
           ownership_marker := Some marker, ifindex := None, io_owner := None, boot_id := boot\<rparr>))
        (andthen (complete_creation W)
        (bind (gets svc_state) (\<lambda>next.
         bind (unwrap (ifindex next)) (\<lambda>_.
         return (InfraStatusBody (spec next) (ifindex next) None, None)))))))))"

definition infra_ensure ::
    "('d, 'f, 'b, 'j) infra_world \<Rightarrow> infra_request \<Rightarrow> infra_spec \<Rightarrow> ('d, 'f, 'b, 'j, 'd reply) infra_action" where
  "infra_ensure W req sp =
     andthen (check_namespace W sp)
     (bind (gets svc_state) (\<lambda>st.
      case spec st of
        Some existing \<Rightarrow>
          andthen (check_administrator req)
          (if existing \<noteq> sp then reject ''infra_generation_conflict''
           else
             bind (on_net (interface_identity (net W))) (\<lambda>index.
             if index = None then repair_device W st
             else
               andthen (identity W (infra_id sp) (infra_generation sp))
               (return (infra_status_body st, None))))
      | None \<Rightarrow>
          bind (on_net (interface_identity (net W))) (\<lambda>index.
          if index \<noteq> None then reject ''infra_unowned_interface''
          else
            bind (of_result (new_ownership_marker (os W))) (\<lambda>marker.
            bind (of_result (current_boot_id (os W))) (\<lambda>boot.
            andthen (persist W (st\<lparr>spec := Some sp, ownership_marker := Some marker,
               creation_pending := True, administrator := Some (caller_instance_id req),
               boot_id := boot\<rparr>))
            (andthen (complete_creation W)
            (bind (gets svc_state) (\<lambda>st.
             return (InfraStatusBody (spec st) (ifindex st) None, None)))))))))"

definition infra_acquire_io_fd ::
    "('d, 'f, 'b, 'j) infra_world \<Rightarrow> infra_request \<Rightarrow> u128 \<Rightarrow> u64 \<Rightarrow> u64 \<Rightarrow>
     ('d, 'f, 'b, 'j, 'd reply) infra_action" where
  "infra_acquire_io_fd W req infra gen epoch =
     bind (identity W infra gen) (\<lambda>sp.
     bind (gets svc_state) (\<lambda>st.
     if io_held (os W) st then reject ''io_owner_alive''
     else if epoch \<le> last_io_epoch st then reject ''stale_io_epoch''
     else
       bind (gets lifecycle_fd) (\<lambda>fd.
       andthen
         (if fd = None
          then bind (on_factory (create_persistent (tun_factory W))) (\<lambda>fd. set_lifecycle (Some fd))
          else return ())
       (bind (gets lifecycle_fd) (\<lambda>fd.
        bind (unwrap fd) (\<lambda>fd.
        bind (of_result (ok_or InfraJournal (dup_fd (os W) fd))) (\<lambda>descriptor.
        bind (of_result (current_boot_id (os W))) (\<lambda>boot.
        bind (of_result (process_start_ticks (os W) (caller_pid req))) (\<lambda>ticks.
        andthen (persist W (st\<lparr>io_owner := Some \<lparr>io_instance_id = caller_instance_id req,
             io_pid = caller_pid req, io_epoch = epoch, io_boot_id = boot, io_start_ticks = ticks\<rparr>,
           last_io_epoch := epoch\<rparr>))
        (bind (gets svc_state) (\<lambda>st.
         bind (unwrap (ifindex st)) (\<lambda>index.
         return (IoFdBody sp index epoch, Some descriptor)))))))))))))"

definition infra_release_io ::
    "('d, 'f, 'b, 'j) infra_world \<Rightarrow> infra_request \<Rightarrow> u128 \<Rightarrow> u64 \<Rightarrow> u64 \<Rightarrow>
     ('d, 'f, 'b, 'j, 'd reply) infra_action" where
  "infra_release_io W req infra gen epoch =
     andthen (identity W infra gen)
     (andthen (check_administrator req)
     (bind (gets svc_state) (\<lambda>st.
      if (case io_owner st of None \<Rightarrow> False
          | Some owner \<Rightarrow> io_epoch owner = epoch \<and> \<not> io_owner_alive (os W) owner)
      then persist_or_fence W (st\<lparr>io_owner := None\<rparr>)
      else reject ''io_owner_alive'')))"

definition infra_retire ::
    "('d, 'f, 'b, 'j) infra_world \<Rightarrow> infra_request \<Rightarrow> u128 \<Rightarrow> u64 \<Rightarrow>
     ('d, 'f, 'b, 'j, 'd reply) infra_action" where
  "infra_retire W req infra gen =
     andthen (check_administrator req)
     (andthen (identity W infra gen)
     (bind (gets svc_state) (\<lambda>st.
      if io_held (os W) st then reject ''io_owner_alive''
      else
        andthen
          (case forwarding st of
             None \<Rightarrow> return ()
           | Some fwd \<Rightarrow>
               if fwd_phase fwd \<noteq> FwRevoked then reject ''forwarding_active''
               else
                 andthen (on_net (retire_forwarding (net W) (fwd_declaration fwd)))
                   (on_net (restore_sysctls (net W) (fwd_declaration fwd) (infra_sysctls st))))
        (andthen (on_net (retire_infrastructure (net W)))
        (andthen (set_lifecycle None)
        (andthen (persist W default_state) ack))))))"

section \<open>Forwarding owners\<close>

definition at_net_stage :: "backend_stage \<Rightarrow> ('b, 'a) net_action \<Rightarrow> ('d, 'f, 'b, 'j, 'a) infra_action" where
  "at_net_stage stage = net_as (\<lambda>_. InfraBackend (BackendStage stage))"

definition prepare_initial ::
    "('d, 'f, 'b, 'j) infra_world \<Rightarrow> infra_state \<Rightarrow> forward_owner \<Rightarrow> prepare_declaration \<Rightarrow>
     ('d, 'f, 'b, 'j, 'd reply) infra_action" where
  "prepare_initial W st owner d =
     (let next = st\<lparr>forwarding := Some (new_forward owner d FwPreparing),
            last_fencing_token := fencing_token owner\<rparr> in
      andthen (persist W next)
      (andthen (at_net_stage SysctlPrepare (prepare_sysctls (net W) d (infra_sysctls next)))
      (andthen (at_net_stage RoutePrepare (reject_forwarding (net W) d))
      (andthen (on_net (remove_firewall (net W) d))
      (andthen (at_net_stage FirewallPrepare (prepare_firewall (net W) d))
      (persist_or_fence W (next\<lparr>forwarding := Some (new_forward owner d FwPrepared)\<rparr>)))))))"

definition stale_prepare ::
    "infra_state \<Rightarrow> forward_record \<Rightarrow> forward_owner \<Rightarrow> prepare_declaration \<Rightarrow> bool \<Rightarrow> bool" where
  "stale_prepare st previous owner d retry \<longleftrightarrow>
     signed_generation owner < signed_generation (fwd_owner previous)
     \<or> (signed_generation owner = signed_generation (fwd_owner previous)
        \<and> d \<noteq> fwd_declaration previous)
     \<or> worker_epoch owner < worker_epoch (fwd_owner previous)
     \<or> (fencing_token owner \<le> max (fencing_token (fwd_owner previous)) (last_fencing_token st)
        \<and> \<not> retry)"

definition policy_attributes_differ :: "prepare_declaration \<Rightarrow> prepare_declaration \<Rightarrow> bool" where
  "policy_attributes_differ previous d \<longleftrightarrow>
     table_id previous \<noteq> table_id d
     \<or> require_ipv4_forwarding (firewall previous) \<noteq> require_ipv4_forwarding (firewall d)
     \<or> manage_rp_filter (firewall previous) \<noteq> manage_rp_filter (firewall d)"

definition prepare_over ::
    "('d, 'f, 'b, 'j) infra_world \<Rightarrow> infra_state \<Rightarrow> forward_record \<Rightarrow> forward_owner \<Rightarrow>
     prepare_declaration \<Rightarrow> ('d, 'f, 'b, 'j, 'd reply) infra_action" where
  "prepare_over W st previous owner d =
     (let retry = (fwd_owner previous = owner \<and> fwd_phase previous = FwPreparing) in
      if fwd_owner previous = owner \<and> fwd_declaration previous = d \<and> fwd_phase previous = FwPrepared
      then ack
      else if domain_id (fwd_owner previous) \<noteq> domain_id owner then reject ''unsupported_multi_domain''
      else if stale_prepare st previous owner d retry then reject ''stale_forward_owner''
      else if fwd_phase previous \<notin> {FwActive, FwGuarded, FwRevoked} \<and> \<not> retry
      then reject ''forward_preparation_pending''
      else if policy_attributes_differ (fwd_declaration previous) d
      then reject ''infra_policy_attribute_conflict''
      else if \<not> retry then
        andthen (on_net (validate_forwarding_replacement (net W) (fwd_declaration previous) d))
        (andthen (persist W (st\<lparr>candidate := Some (new_forward owner d FwPrepared),
           last_fencing_token := fencing_token owner\<rparr>))
        ack)
      else prepare_initial W st owner d)"

definition forward_prepare ::
    "('d, 'f, 'b, 'j) infra_world \<Rightarrow> infra_request \<Rightarrow> u64 \<Rightarrow> u128 \<Rightarrow> u64 \<Rightarrow> forward_owner \<Rightarrow>
     prepare_declaration \<Rightarrow> ('d, 'f, 'b, 'j, 'd reply) infra_action" where
  "forward_prepare W req now infra gen owner d =
     andthen (check_administrator req)
     (bind (identity W infra gen) (\<lambda>sp.
      andthen (of_result (ensure_live owner now))
      (if overlay_router_ipv4 d \<noteq> spec_router_ipv4 sp \<or> effective_mtu d \<noteq> spec_mtu sp
       then reject ''infra_config_conflict''
       else
         bind (gets svc_state) (\<lambda>st.
         case candidate st of
           Some cand \<Rightarrow>
             if fwd_owner cand = owner \<and> fwd_declaration cand = d then ack
             else reject ''forward_candidate_pending''
         | None \<Rightarrow>
             (case forwarding st of
                Some previous \<Rightarrow> prepare_over W st previous owner d
              | None \<Rightarrow>
                  bind (at_net_stage Preflight (preflight (net W) d)) (\<lambda>changes.
                  prepare_initial W (st\<lparr>infra_sysctls := changes\<rparr>) owner d))))))"

text \<open>The record the code borrows for an owner: the candidate when it is that owner's.\<close>

definition owns_candidate :: "infra_state \<Rightarrow> forward_owner \<Rightarrow> bool" where
  "owns_candidate st owner =
     (case candidate st of None \<Rightarrow> False | Some cand \<Rightarrow> fwd_owner cand = owner)"

definition forward_authorize ::
    "('d, 'f, 'b, 'j) infra_world \<Rightarrow> infra_request \<Rightarrow> u64 \<Rightarrow> forward_owner \<Rightarrow> forward_authority \<Rightarrow>
     ('d, 'f, 'b, 'j, 'd reply) infra_action" where
  "forward_authorize W req now owner a =
     andthen (check_administrator req)
     (andthen (of_result (ensure_live owner now))
     (bind (gets svc_state) (\<lambda>st.
      bind (of_result (ok_or (Rejected ''io_owner_missing'') (io_owner st))) (\<lambda>io.
      if authority_io_pid a \<noteq> io_pid io
         \<or> authority_io_epoch a \<noteq> io_epoch io
         \<or> Some (authority_io_start_ticks a) \<noteq> io_start_ticks io
         \<or> \<not> io_owner_alive (os W) io
      then reject ''forward_authority_io_mismatch''
      else
        bind (if owns_candidate st owner then unwrap (candidate st)
              else of_result (same_owner (forwarding st) owner)) (\<lambda>current.
        bind (of_result (ok_or InfraJournal (declaration_json (os W) (fwd_declaration current)))) (\<lambda>doc.
        if fwd_phase current \<noteq> FwPrepared
           \<or> declaration_hash a \<noteq> lower_hex (to_be_bytes 32 (digest (os W) doc))
           \<or> (case authority current of None \<Rightarrow> False | Some old \<Rightarrow> old \<noteq> a)
        then reject ''forward_authority_conflict''
        else
          persist_or_fence W
            (if owns_candidate st owner
             then st\<lparr>candidate := Some (current\<lparr>authority := Some a\<rparr>)\<rparr>
             else st\<lparr>forwarding := Some (current\<lparr>authority := Some a\<rparr>)\<rparr>)))))))"

section \<open>Commit\<close>

text \<open>A failed commit is rolled back; when that fails too, both errors are reported.\<close>

definition roll_back_commit ::
    "('d, 'f, 'b, 'j) infra_world \<Rightarrow> forward_record \<Rightarrow> forward_record \<Rightarrow> u64 \<Rightarrow> infra_error \<Rightarrow>
     ('d, 'f, 'b, 'j, 'a) infra_action" where
  "roll_back_commit W previous cand now e =
     bind (attempt (rollback_replacement W previous cand now)) (\<lambda>recovery.
     case recovery of
       Inl r \<Rightarrow> throw (RepairPending e r)
     | Inr _ \<Rightarrow> throw e)"

definition commit_candidate ::
    "('d, 'f, 'b, 'j) infra_world \<Rightarrow> u64 \<Rightarrow> infra_state \<Rightarrow> forward_record \<Rightarrow>
     ('d, 'f, 'b, 'j, 'd reply) infra_action" where
  "commit_candidate W now st prepared =
     bind (of_result (ok_or (Rejected ''forward_missing'') (forwarding st))) (\<lambda>previous.
     let cand = prepared\<lparr>fwd_phase := FwPreparing\<rparr>;
         next = st\<lparr>candidate := Some cand\<rparr>;
         committed = next\<lparr>forwarding := Some (cand\<lparr>fwd_phase := FwActive\<rparr>), candidate := None\<rparr> in
     andthen (on_net (validate_forwarding_replacement (net W) (fwd_declaration previous)
        (fwd_declaration cand)))
     (if fwd_phase previous = FwActive
         \<and> fwd_declaration cand = fwd_declaration previous
         \<and> fwd_failed_prefixes cand = fwd_failed_prefixes previous
         \<and> pending_failed_prefixes previous = None
         \<and> pending_failed_prefixes cand = None
      then andthen (persist W committed) ack
      else
        andthen (persist W next)
        (bind (attempt (install_replacement W previous cand (infra_sysctls next))) (\<lambda>result.
         case result of
           Inl e \<Rightarrow> roll_back_commit W previous cand now e
         | Inr _ \<Rightarrow>
             bind (attempt (persist W committed)) (\<lambda>result.
             case result of
               Inl e \<Rightarrow> roll_back_commit W previous (cand\<lparr>fwd_phase := FwActive\<rparr>) now e
             | Inr _ \<Rightarrow> ack)))))"

definition commit_initial ::
    "('d, 'f, 'b, 'j) infra_world \<Rightarrow> infra_state \<Rightarrow> forward_owner \<Rightarrow>
     ('d, 'f, 'b, 'j, 'd reply) infra_action" where
  "commit_initial W st owner =
     bind (of_result (same_owner (forwarding st) owner)) (\<lambda>current.
     if fwd_phase current = FwActive then ack
     else if fwd_phase current \<noteq> FwPrepared then reject ''invalid_forward_phase''
     else
       bind (attempt (on_net (restore_forwarding_with_failures (net W) (fwd_declaration current)
          (fwd_failed_prefixes current)))) (\<lambda>result.
       case result of
         Inl e \<Rightarrow>
           andthen (on_net (reject_forwarding (net W) (fwd_declaration current))) (throw e)
       | Inr _ \<Rightarrow>
           persist_or_fence W (st\<lparr>forwarding := Some (current\<lparr>fwd_phase := FwActive\<rparr>)\<rparr>)))"

text \<open>\<^verbatim>\<open>candidate.filter(owner).or_else(forward.filter(owner))\<close>\<close>

definition record_of_owner :: "infra_state \<Rightarrow> forward_owner \<Rightarrow> forward_record option" where
  "record_of_owner st owner =
     (if owns_candidate st owner then candidate st
      else
        (case forwarding st of
           None \<Rightarrow> None
         | Some fwd \<Rightarrow> if fwd_owner fwd = owner then Some fwd else None))"

definition forward_commit ::
    "('d, 'f, 'b, 'j) infra_world \<Rightarrow> infra_request \<Rightarrow> u64 \<Rightarrow> bool \<Rightarrow> forward_owner \<Rightarrow>
     ('d, 'f, 'b, 'j, 'd reply) infra_action" where
  "forward_commit W req now authenticated owner =
     andthen (check_administrator req)
     (andthen (of_result (ensure_live owner now))
     (bind (gets svc_state) (\<lambda>st.
      bind (of_result (ok_or (Rejected ''infra_missing'') (spec st))) (\<lambda>sp.
      andthen (identity W (infra_id sp) (infra_generation sp))
      (if (case record_of_owner st owner of None \<Rightarrow> False | Some r \<Rightarrow> authority r \<noteq> None)
          \<and> \<not> authenticated
       then reject ''forward_authority_receipt_required''
       else if owns_candidate st owner
       then bind (unwrap (candidate st)) (\<lambda>cand. commit_candidate W now st cand)
       else commit_initial W st owner)))))"

text \<open>The checks of an authorised commit, before it is treated as a commit.\<close>

definition check_receipt ::
    "('d, 'f, 'b, 'j) infra_world \<Rightarrow> infra_request \<Rightarrow> u64 \<Rightarrow> forward_owner \<Rightarrow> authority_receipt \<Rightarrow>
     ('d, 'f, 'b, 'j, unit) infra_action" where
  "check_receipt W req now owner receipt =
     andthen (check_administrator req)
     (bind (gets svc_state) (\<lambda>st.
      bind (of_result (ok_or (Rejected ''forward_authority_missing'') (record_of_owner st owner)))
      (\<lambda>current.
      bind (of_result (ok_or (Rejected ''io_owner_missing'') (io_owner st))) (\<lambda>io.
      let a = receipt_authority receipt in
      if authority current \<noteq> Some a
         \<or> authority_io_epoch a \<noteq> io_epoch io
         \<or> authority_io_pid a \<noteq> io_pid io
         \<or> Some (authority_io_start_ticks a) \<noteq> io_start_ticks io
         \<or> \<not> io_owner_alive (os W) io
         \<or> \<not> owner_active receipt
         \<or> authorization_deadline_mono_ms receipt \<noteq> auth_deadline_mono_ms owner
         \<or> \<not> proof_is_fresh now (packet_proof_reported_mono_ms receipt)
      then reject ''forward_authority_receipt_mismatch''
      else
        bind (of_result (business_process_epoch_alive (os W) (candidate_pid a)
           (candidate_start_ticks a))) (\<lambda>alive.
        if \<not> alive then reject ''forward_authority_receipt_mismatch'' else return ())))))"

section \<open>Guard, revoke and renew\<close>

definition forward_guard ::
    "('d, 'f, 'b, 'j) infra_world \<Rightarrow> infra_request \<Rightarrow> u64 \<Rightarrow> forward_owner \<Rightarrow>
     ('d, 'f, 'b, 'j, 'd reply) infra_action" where
  "forward_guard W req now owner =
     andthen (check_administrator req)
     (andthen (of_result (ensure_live owner now))
     (bind (gets svc_state) (\<lambda>st.
      bind (of_result (same_owner (forwarding st) owner)) (\<lambda>current.
      if fwd_phase current = FwGuarded then ack
      else if fwd_phase current \<noteq> FwActive then reject ''invalid_forward_phase''
      else
        andthen (persist W (st\<lparr>forwarding := Some (current\<lparr>fwd_phase := FwGuarded\<rparr>)\<rparr>))
        (andthen (on_net (guard_forwarding (net W) (fwd_declaration current))) ack)))))"

definition revoke_candidate ::
    "('d, 'f, 'b, 'j) infra_world \<Rightarrow> u64 \<Rightarrow> infra_state \<Rightarrow> forward_record \<Rightarrow>
     ('d, 'f, 'b, 'j, 'd reply) infra_action" where
  "revoke_candidate W now st cand =
     andthen
       (if fwd_phase cand = FwPreparing
        then bind (unwrap (forwarding st)) (\<lambda>previous. rollback_replacement W previous cand now)
        else persist W (st\<lparr>candidate := None\<rparr>))
     ack"

definition revoke_forwarding ::
    "('d, 'f, 'b, 'j) infra_world \<Rightarrow> infra_state \<Rightarrow> forward_owner \<Rightarrow>
     ('d, 'f, 'b, 'j, 'd reply) infra_action" where
  "revoke_forwarding W st owner =
     bind (of_result (same_owner (forwarding st) owner)) (\<lambda>current.
     let retained = cancel_pending current;
         next = st\<lparr>forwarding := Some retained\<rparr> in
     andthen (when_true (pending_policy current \<noteq> None) (persist W next))
     (andthen (fence_policy_intent W retained)
     (persist_or_fence W (next\<lparr>forwarding := Some (revoke_record retained), candidate := None\<rparr>))))"

definition forward_revoke ::
    "('d, 'f, 'b, 'j) infra_world \<Rightarrow> infra_request \<Rightarrow> u64 \<Rightarrow> forward_owner \<Rightarrow>
     ('d, 'f, 'b, 'j, 'd reply) infra_action" where
  "forward_revoke W req now owner =
     andthen (check_administrator req)
     (bind (gets svc_state) (\<lambda>st.
      if owns_candidate st owner
      then bind (unwrap (candidate st)) (\<lambda>cand. revoke_candidate W now st cand)
      else revoke_forwarding W st owner))"

definition forward_lease_renew ::
    "('d, 'f, 'b, 'j) infra_world \<Rightarrow> infra_request \<Rightarrow> u64 \<Rightarrow> forward_owner \<Rightarrow>
     ('d, 'f, 'b, 'j, 'd reply) infra_action" where
  "forward_lease_renew W req now owner =
     andthen (check_administrator req)
     (andthen (of_result (ensure_live owner now))
     (bind (gets svc_state) (\<lambda>st.
      bind (of_result (ok_or (Rejected ''forward_missing'') (forwarding st))) (\<lambda>current.
      let held = fwd_owner current in
      if domain_id held \<noteq> domain_id owner
         \<or> signed_generation held \<noteq> signed_generation owner
         \<or> worker_epoch held \<noteq> worker_epoch owner
         \<or> fencing_token held \<noteq> fencing_token owner
         \<or> auth_deadline_mono_ms held \<noteq> auth_deadline_mono_ms owner
         \<or> forward_lease_mono_ms owner > auth_deadline_mono_ms held
         \<or> forward_lease_mono_ms owner < forward_lease_mono_ms held
         \<or> fwd_phase current = FwRevoked
      then reject ''stale_forward_owner''
      else persist_or_fence W (st\<lparr>forwarding := Some (current\<lparr>fwd_owner := owner\<rparr>)\<rparr>)))))"

section \<open>Failed prefixes and live policies\<close>

definition failed_prefixes_of ::
    "('d, 'f, 'b, 'j) infra_world \<Rightarrow> infra_state \<Rightarrow> bool \<Rightarrow> forward_record \<Rightarrow> u64 \<Rightarrow> ipv4_prefix list \<Rightarrow>
     ('d, 'f, 'b, 'j, 'd reply) infra_action" where
  "failed_prefixes_of W st is_candidate current revision target =
     (let put = (\<lambda>r. if is_candidate then st\<lparr>candidate := Some r\<rparr> else st\<lparr>forwarding := Some r\<rparr>);
          latest_revision = (case pending_failure_revision current of
             None \<Rightarrow> failure_revision current | Some v \<Rightarrow> v);
          latest_prefixes = (case pending_failed_prefixes current of
             None \<Rightarrow> fwd_failed_prefixes current | Some ps \<Rightarrow> ps) in
      if revision < latest_revision \<or> (revision = latest_revision \<and> target \<noteq> latest_prefixes)
      then reject ''stale_failure_revision''
      else if pending_failed_prefixes current \<noteq> None then reject ''forward_prefix_repair_pending''
      else if revision = latest_revision then ack
      else if fwd_phase current = FwPrepared then
        andthen (persist W (put (current\<lparr>failure_revision := revision,
           fwd_failed_prefixes := target\<rparr>))) ack
      else if fwd_phase current \<noteq> FwActive then reject ''forward_not_active''
      else if fwd_failed_prefixes current = target then
        andthen (persist W (put (current\<lparr>failure_revision := revision\<rparr>))) ack
      else
        let next = put (current\<lparr>pending_failed_prefixes := Some target,
              pending_failure_revision := Some revision\<rparr>) in
        andthen (persist W next)
        (andthen (net_as (Transition ''failed_prefix_routes'')
           (update_failed_forward_prefixes (net W) (fwd_declaration current)
              (fwd_failed_prefixes current) target))
        (bind (unwrap (forwarding next)) (\<lambda>fwd.
         andthen (persist W (next\<lparr>forwarding := Some (fwd\<lparr>fwd_failed_prefixes := target,
            failure_revision := revision, pending_failed_prefixes := None,
            pending_failure_revision := None\<rparr>)\<rparr>))
         ack))))"

definition forward_failed_prefixes ::
    "('d, 'f, 'b, 'j) infra_world \<Rightarrow> infra_request \<Rightarrow> u64 \<Rightarrow> forward_owner \<Rightarrow> u64 \<Rightarrow> ipv4_prefix list \<Rightarrow>
     ('d, 'f, 'b, 'j, 'd reply) infra_action" where
  "forward_failed_prefixes W req now owner revision prefixes =
     andthen (check_administrator req)
     (andthen (of_result (ensure_live owner now))
     (bind (gets svc_state) (\<lambda>st.
      bind (of_result (ok_or (Rejected ''infra_missing'') (spec st))) (\<lambda>sp.
      andthen (identity W (infra_id sp) (infra_generation sp))
      (bind (of_result (same_owner
          (if owns_candidate st owner then candidate st else forwarding st) owner)) (\<lambda>current.
       andthen (of_result (validate_failed_prefixes (fwd_declaration current) prefixes))
       (failed_prefixes_of W st (owns_candidate st owner) current revision (sort prefixes))))))))"

definition stale_policy ::
    "forward_record \<Rightarrow> u64 \<Rightarrow> u64 \<Rightarrow> string \<Rightarrow> prepare_declaration \<Rightarrow> bool" where
  "stale_policy current revision gen hash d \<longleftrightarrow>
     revision < policy_revision current
     \<or> gen < effective_generation current
     \<or> (revision = policy_revision current
        \<and> (fwd_declaration current \<noteq> d \<or> policy_generation current \<noteq> Some gen
           \<or> policy_hash current \<noteq> Some hash))"

definition policy_update_of ::
    "('d, 'f, 'b, 'j) infra_world \<Rightarrow> u64 \<Rightarrow> infra_state \<Rightarrow> forward_record \<Rightarrow> u64 \<Rightarrow> u64 \<Rightarrow> string \<Rightarrow>
     prepare_declaration \<Rightarrow> ('d, 'f, 'b, 'j, 'd reply) infra_action" where
  "policy_update_of W now st current revision gen hash d =
     (if stale_policy current revision gen hash d then reject ''stale_policy_revision''
      else if revision = policy_revision current then ack
      else if fwd_declaration current = d then
        andthen (persist W (st\<lparr>forwarding := Some (current\<lparr>policy_revision := revision,
           policy_generation := Some gen, policy_hash := Some hash\<rparr>)\<rparr>)) ack
      else
        andthen (on_net (validate_forwarding_replacement (net W) (fwd_declaration current) d))
        (andthen (persist W (st\<lparr>forwarding := Some (current\<lparr>pending_policy :=
           Some \<lparr>cancelled = False, pending_revision = revision, pending_generation = gen,
                 pending_hash = hash, pending_declaration = d\<rparr>\<rparr>)\<rparr>))
        (andthen (reconcile_live_policy W now) ack)))"

definition forward_policy_update ::
    "('d, 'f, 'b, 'j) infra_world \<Rightarrow> infra_request \<Rightarrow> u64 \<Rightarrow> forward_owner \<Rightarrow> u64 \<Rightarrow> u64 \<Rightarrow> string \<Rightarrow>
     prepare_declaration \<Rightarrow> ('d, 'f, 'b, 'j, 'd reply) infra_action" where
  "forward_policy_update W req now owner revision gen hash d =
     andthen (check_administrator req)
     (andthen (of_result (ensure_live owner now))
     (bind (gets svc_state) (\<lambda>st.
      bind (of_result (ok_or (Rejected ''infra_missing'') (spec st))) (\<lambda>sp.
      andthen (identity W (infra_id sp) (infra_generation sp))
      (if candidate st \<noteq> None then reject ''forward_candidate_pending''
       else
         bind (of_result (same_owner (forwarding st) owner)) (\<lambda>current.
         if fwd_phase current \<noteq> FwActive then reject ''forward_not_active''
         else if pending_failed_prefixes current \<noteq> None then reject ''forward_prefix_repair_pending''
         else if pending_policy current \<noteq> None then reject ''forward_policy_repair_pending''
         else
           andthen (of_result (validate_live_policy_identity (fwd_declaration current) d))
           (policy_update_of W now st current revision gen hash d)))))))"

definition forward_status_of :: "infra_state \<Rightarrow> forward_status" where
  "forward_status_of st =
     (let fwd = forwarding st in
      \<lparr>status_owner = map_option fwd_owner fwd,
       status_phase = map_option fwd_phase fwd,
       status_candidate_owner = map_option fwd_owner (candidate st),
       status_last_fencing_token = last_fencing_token st,
       status_failure_revision = (case fwd of None \<Rightarrow> 0 | Some f \<Rightarrow> failure_revision f),
       status_failed_prefixes = (case fwd of None \<Rightarrow> [] | Some f \<Rightarrow> fwd_failed_prefixes f),
       status_pending_failure_revision = Option.bind fwd pending_failure_revision,
       status_pending_failed_prefixes = Option.bind fwd pending_failed_prefixes,
       status_policy_revision = (case fwd of None \<Rightarrow> 0 | Some f \<Rightarrow> policy_revision f),
       status_policy_generation = Option.bind fwd policy_generation,
       status_policy_hash = Option.bind fwd policy_hash,
       status_pending_policy_revision =
         Option.bind fwd (\<lambda>f. map_option pending_revision (pending_policy f))\<rparr>)"

section \<open>The process function\<close>

definition infra_peer_authorized ::
    "peer_credentials \<Rightarrow> infra_request \<Rightarrow> ('d, 'f, 'b, 'j) infra_service \<Rightarrow> bool" where
  "infra_peer_authorized peer req s \<longleftrightarrow>
     peer_uid peer = infra_uid s \<and> peer_gid peer = infra_gid s \<and> peer_pid peer = caller_pid req"

fun blocked_by_prefix_repair :: "infra_operation \<Rightarrow> bool" where
  "blocked_by_prefix_repair (ForwardPrepare _ _ _ _) = True"
| "blocked_by_prefix_repair (ForwardCommit _) = True"
| "blocked_by_prefix_repair _ = False"

fun blocked_by_policy_repair :: "infra_operation \<Rightarrow> bool" where
  "blocked_by_policy_repair (ForwardPrepare _ _ _ _) = True"
| "blocked_by_policy_repair (ForwardCommit _) = True"
| "blocked_by_policy_repair (ForwardGuard _) = True"
| "blocked_by_policy_repair (ForwardFailedPrefixes _ _ _) = True"
| "blocked_by_policy_repair _ = False"

definition check_repairs :: "infra_operation \<Rightarrow> ('d, 'f, 'b, 'j, unit) infra_action" where
  "check_repairs op =
     bind (gets svc_state) (\<lambda>st.
     case forwarding st of
       None \<Rightarrow> return ()
     | Some fwd \<Rightarrow>
         if pending_failed_prefixes fwd \<noteq> None \<and> blocked_by_prefix_repair op
         then reject ''forward_prefix_repair_pending''
         else if pending_policy fwd \<noteq> None \<and> blocked_by_policy_repair op
         then reject ''forward_policy_repair_pending''
         else return ())"

text \<open>An authorised commit, its receipt checked, becomes a commit; the flag is \<^verbatim>\<open>authenticated_commit\<close>.\<close>

fun normalize_operation ::
    "('d, 'f, 'b, 'j) infra_world \<Rightarrow> infra_request \<Rightarrow> u64 \<Rightarrow> infra_operation \<Rightarrow>
     ('d, 'f, 'b, 'j, infra_operation \<times> bool) infra_action" where
  "normalize_operation W req now (ForwardCommitAuthorized owner receipt) =
     andthen (check_receipt W req now owner receipt) (return (ForwardCommit owner, True))"
| "normalize_operation W req now op = return (op, False)"

fun infra_dispatch ::
    "('d, 'f, 'b, 'j) infra_world \<Rightarrow> infra_request \<Rightarrow> u64 \<Rightarrow> infra_operation \<Rightarrow> bool \<Rightarrow>
     ('d, 'f, 'b, 'j, 'd reply) infra_action" where
  "infra_dispatch W req now (InDomain _ _ _) auth = reject ''domain_router_required''"
| "infra_dispatch W req now Capabilities auth = throw Panicked"
| "infra_dispatch W req now InfraStatus auth =
     bind (gets svc_state) (\<lambda>st. return (infra_status_body st, None))"
| "infra_dispatch W req now (InfraEnsure sp) auth = infra_ensure W req sp"
| "infra_dispatch W req now (InfraAcquireIoFd infra gen epoch) auth =
     infra_acquire_io_fd W req infra gen epoch"
| "infra_dispatch W req now (InfraReleaseIo infra gen epoch) auth =
     infra_release_io W req infra gen epoch"
| "infra_dispatch W req now (InfraRetire infra gen) auth = infra_retire W req infra gen"
| "infra_dispatch W req now (ForwardPrepare infra gen owner d) auth =
     forward_prepare W req now infra gen owner d"
| "infra_dispatch W req now (ForwardAuthorize owner a) auth = forward_authorize W req now owner a"
| "infra_dispatch W req now (ForwardCommitAuthorized _ _) auth = throw Panicked"
| "infra_dispatch W req now (ForwardCommit owner) auth = forward_commit W req now auth owner"
| "infra_dispatch W req now (ForwardGuard owner) auth = forward_guard W req now owner"
| "infra_dispatch W req now (ForwardRevoke owner) auth = forward_revoke W req now owner"
| "infra_dispatch W req now (ForwardLeaseRenew owner) auth = forward_lease_renew W req now owner"
| "infra_dispatch W req now (ForwardFailedPrefixes owner revision prefixes) auth =
     forward_failed_prefixes W req now owner revision prefixes"
| "infra_dispatch W req now (ForwardPolicyUpdate owner revision gen hash d) auth =
     forward_policy_update W req now owner revision gen hash d"
| "infra_dispatch W req now ForwardStatus auth =
     bind (gets svc_state) (\<lambda>st. return (ForwardStatusBody (forward_status_of st), None))"

definition infra_process ::
    "('d, 'f, 'b, 'j) infra_world \<Rightarrow> infra_request \<Rightarrow> peer_credentials \<Rightarrow> u64 \<Rightarrow>
     ('d, 'f, 'b, 'j, 'd reply) infra_action" where
  "infra_process W req peer now =
     andthen (of_result (map_err (\<lambda>_. Rejected ''invalid_request'') (validate_infra_request req)))
     (bind (gets (infra_peer_authorized peer req)) (\<lambda>authorized.
      if \<not> authorized then reject ''unauthorized_peer''
      else if infra_operation req = Capabilities then return (CapabilitiesBody 2 True False, None)
      else
        andthen (recover_expired W now)
        (bind (normalize_operation W req now (infra_operation req)) (\<lambda>(op, authenticated).
         andthen (check_repairs op) (infra_dispatch W req now op authenticated)))))"

text \<open>The error body of \<^verbatim>\<open>serve_once\<close>.\<close>

fun infra_error_code :: "infra_error \<Rightarrow> string" where
  "infra_error_code (Rejected code) = code"
| "infra_error_code (Transition _ _) = ''forward_transition_failed''"
| "infra_error_code (RepairPending _ _) = ''forward_repair_pending''"
| "infra_error_code _ = ''infra_system_failure''"

definition infra_respond ::
    "infra_request \<Rightarrow> infra_error + 'd reply \<Rightarrow> infra_response \<times> 'd option" where
  "infra_respond req result =
     (case result of
        Inl e \<Rightarrow> (\<lparr>infra_response_id = infra_request_id req,
                   infra_body = ErrorBody (infra_error_code e) ''netd_v2''\<rparr>, None)
      | Inr (answer, descriptor) \<Rightarrow>
          (\<lparr>infra_response_id = infra_request_id req, infra_body = answer\<rparr>, descriptor))"

end
