(* ===== verification/Netd_Infra_Laws.thy ===== *)
theory Netd_Infra_Laws
  imports Netd_Infra_Service
begin

text \<open>
  The invariant of the infrastructure service and how one request may change the state. The relation
  \<open>evolves now st st'\<close> collects what holds of every change short of retirement: the invariant, the
  immutable infrastructure and administrator, the growing epochs and fencing tokens, the forwarding
  owner that never goes back, and that an unrevoked owner is one whose lease still runs. The triples
  \<open>tracks\<close> carry it through the handlers on both outcomes, with the absence of a panic.
\<close>

section \<open>The invariant\<close>

definition nonlocal_prefixes :: "prepare_declaration \<Rightarrow> ipv4_prefix set" where
  "nonlocal_prefixes d = set (map route_prefix (filter (\<lambda>r. route_kind r \<noteq> Local) (routes d)))"

definition remote_prefixes :: "prepare_declaration \<Rightarrow> ipv4_prefix set" where
  "remote_prefixes d = set (map route_prefix (filter (\<lambda>r. route_kind r = Remote) (routes d)))"

definition record_wf :: "forward_record \<Rightarrow> bool" where
  "record_wf r \<longleftrightarrow>
     is_ok (validate_forward_owner (fwd_owner r))
     \<and> is_ok (validate_declaration (fwd_declaration r))
     \<and> distinct (fwd_failed_prefixes r)
     \<and> set (fwd_failed_prefixes r) \<subseteq> nonlocal_prefixes (fwd_declaration r)
     \<and> (\<forall>ps. pending_failed_prefixes r = Some ps \<longrightarrow>
          is_ok (validate_failed_prefixes (fwd_declaration r) ps))
     \<and> metadata_valid r
     \<and> failure_intent_valid r"

definition pending_wf :: "forward_record \<Rightarrow> pending_policy \<Rightarrow> bool" where
  "pending_wf r p \<longleftrightarrow>
     is_ok (validate_declaration (pending_declaration p))
     \<and> is_ok (validate_live_policy_identity (fwd_declaration r) (pending_declaration p))
     \<and> policy_revision r < pending_revision p
     \<and> effective_generation r \<le> pending_generation p
     \<and> valid_policy_hash (pending_hash p)
     \<and> pending_failed_prefixes r = None
     \<and> fwd_phase r \<in> {FwActive, FwRevoked}"

text \<open>How a forwarding owner may be succeeded.\<close>

definition owner_le :: "forward_owner \<Rightarrow> forward_owner \<Rightarrow> bool" where
  "owner_le a b \<longleftrightarrow>
     domain_id a = domain_id b \<and> signed_generation a \<le> signed_generation b
     \<and> worker_epoch a \<le> worker_epoch b \<and> fencing_token a \<le> fencing_token b"

definition candidate_wf :: "forward_record option \<Rightarrow> forward_record \<Rightarrow> bool" where
  "candidate_wf fwd c \<longleftrightarrow>
     record_wf c \<and> fwd_phase c \<in> {FwPreparing, FwPrepared}
     \<and> pending_failed_prefixes c = None \<and> pending_policy c = None
     \<and> (case fwd of None \<Rightarrow> False
        | Some f \<Rightarrow>
            fwd_phase f \<in> {FwActive, FwGuarded, FwRevoked} \<and> pending_policy f = None
            \<and> owner_le (fwd_owner f) (fwd_owner c)
            \<and> fencing_token (fwd_owner f) < fencing_token (fwd_owner c))"

definition forwarding_wf :: "infra_state \<Rightarrow> bool" where
  "forwarding_wf st \<longleftrightarrow>
     (forwarding st = None \<longrightarrow> last_fencing_token st = 0)
     \<and> (\<forall>f. forwarding st = Some f \<longrightarrow>
        record_wf f \<and> fencing_token (fwd_owner f) \<le> last_fencing_token st
        \<and> (\<forall>p. pending_policy f = Some p \<longrightarrow> pending_wf f p)
        \<and> (fwd_phase f = FwPreparing \<longrightarrow> last_fencing_token st = fencing_token (fwd_owner f)))
     \<and> (\<forall>c. candidate st = Some c \<longrightarrow>
        candidate_wf (forwarding st) c \<and> fencing_token (fwd_owner c) \<le> last_fencing_token st)"

definition device_wf :: "infra_state \<Rightarrow> bool" where
  "device_wf st \<longleftrightarrow>
     (case spec st of
        None \<Rightarrow> forwarding st = None \<and> candidate st = None \<and> io_owner st = None
          \<and> \<not> creation_pending st
      | Some sp \<Rightarrow> is_ok (validate_spec sp) \<and> ownership_marker st \<noteq> None
          \<and> (creation_pending st \<or> ifindex st \<noteq> None))
     \<and> (\<forall>io. io_owner st = Some io \<longrightarrow> io_epoch io \<le> last_io_epoch st)"

definition infra_inv :: "infra_state \<Rightarrow> bool" where
  "infra_inv st \<longleftrightarrow> device_wf st \<and> forwarding_wf st"

lemma infra_inv_default [simp]: "infra_inv default_state"
  by (simp add: infra_inv_def device_wf_def forwarding_wf_def default_state_def)

section \<open>Evolution of the state\<close>

definition lives :: "u64 \<Rightarrow> infra_state \<Rightarrow> bool" where
  "lives now st \<longleftrightarrow>
     (\<forall>f. forwarding st = Some f \<longrightarrow> fwd_phase f \<noteq> FwRevoked \<longrightarrow> owner_is_live (fwd_owner f) now)"

definition evolves :: "u64 \<Rightarrow> infra_state \<Rightarrow> infra_state \<Rightarrow> bool" where
  "evolves now st st' \<longleftrightarrow>
     infra_inv st'
     \<and> (spec st \<noteq> None \<longrightarrow> spec st' = spec st \<and> administrator st' = administrator st)
     \<and> last_io_epoch st \<le> last_io_epoch st'
     \<and> last_fencing_token st \<le> last_fencing_token st'
     \<and> (\<forall>f. forwarding st = Some f \<longrightarrow>
          (\<exists>f'. forwarding st' = Some f' \<and> owner_le (fwd_owner f) (fwd_owner f')))
     \<and> (lives now st \<longrightarrow> lives now st')"

lemma owner_le_refl [simp]: "owner_le a a"
  by (simp add: owner_le_def)

lemma owner_le_trans: "owner_le a b \<Longrightarrow> owner_le b c \<Longrightarrow> owner_le a c"
  by (auto simp: owner_le_def intro: order_trans)

lemma evolves_refl: "infra_inv st \<Longrightarrow> evolves now st st"
  by (simp add: evolves_def)

lemma evolves_trans:
  assumes ab: "evolves now a b" and bc: "evolves now b c"
  shows "evolves now a c"
proof -
  have "\<exists>f'. forwarding c = Some f' \<and> owner_le (fwd_owner f) (fwd_owner f')"
    if fwd: "forwarding a = Some f" for f
  proof -
    obtain g where "forwarding b = Some g" "owner_le (fwd_owner f) (fwd_owner g)"
      using ab fwd by (auto simp: evolves_def)
    moreover from this obtain h where "forwarding c = Some h" "owner_le (fwd_owner g) (fwd_owner h)"
      using bc by (auto simp: evolves_def)
    ultimately show ?thesis by (blast intro: owner_le_trans)
  qed
  moreover have "last_io_epoch a \<le> last_io_epoch c" "last_fencing_token a \<le> last_fencing_token c"
    using assms unfolding evolves_def by (meson order_trans)+
  ultimately show ?thesis
    using assms unfolding evolves_def by simp
qed

lemma evolves_inv: "evolves now a b \<Longrightarrow> infra_inv b"
  by (simp add: evolves_def)

section \<open>Triples\<close>

declare ok_or_eq [simp]

text \<open>With the flag set, a device under creation is ruled out as well.\<close>

definition settles :: "u64 \<Rightarrow> bool \<Rightarrow> infra_state \<Rightarrow> infra_state \<Rightarrow> bool" where
  "settles now c st st' \<longleftrightarrow> evolves now st st' \<and> (c \<longrightarrow> \<not> creation_pending st')"

definition tracks ::
    "u64 \<Rightarrow> bool \<Rightarrow> infra_state \<Rightarrow> (infra_state \<Rightarrow> 'd option \<Rightarrow> bool) \<Rightarrow> ('d, 'f, 'b, 'j, 'a) infra_action \<Rightarrow>
     ('a \<Rightarrow> infra_state \<Rightarrow> 'd option \<Rightarrow> bool) \<Rightarrow> bool" where
  "tracks now c st0 P m Q \<longleftrightarrow>
     hoare (\<lambda>s. P (svc_state s) (lifecycle_fd s)) m (\<lambda>x s. Q x (svc_state s) (lifecycle_fd s))
       (\<lambda>e s. settles now c st0 (svc_state s) \<and> e \<noteq> Panicked)"

abbreviation at_state :: "infra_state \<Rightarrow> infra_state \<Rightarrow> 'd option \<Rightarrow> bool" where
  "at_state st \<equiv> \<lambda>st' _. st' = st"

abbreviation settled :: "u64 \<Rightarrow> bool \<Rightarrow> infra_state \<Rightarrow> 'a \<Rightarrow> infra_state \<Rightarrow> 'd option \<Rightarrow> bool" where
  "settled now c st0 \<equiv> \<lambda>_ st _. settles now c st0 st"

lemma settles_inv: "settles now c st0 st \<Longrightarrow> infra_inv st"
  by (simp add: settles_def evolves_def)

lemma settles_step:
  assumes "settles now c st0 st" and "evolves now st st'"
    and "creation_pending st \<or> \<not> c \<or> \<not> creation_pending st'"
  shows "settles now c st0 st'"
  using assms by (auto simp: settles_def intro: evolves_trans)

lemma tracks_weaken:
  assumes "tracks now c st0 P m Q" "\<And>st l. P' st l \<Longrightarrow> P st l" "\<And>x st l. Q x st l \<Longrightarrow> Q' x st l"
  shows "tracks now c st0 P' m Q'"
  using assms unfolding tracks_def by (blast intro: hoare_weaken)

lemma tracks_post:
  assumes "tracks now c st0 P m Q" "\<And>x st l. Q x st l \<Longrightarrow> Q' x st l"
  shows "tracks now c st0 P m Q'"
  by (rule tracks_weaken [OF assms(1)]) (use assms(2) in auto)

lemma tracks_unsettled:
  assumes "tracks now True st0 P m Q"
  shows "tracks now c st0 P m Q"
  using assms unfolding tracks_def settles_def by (auto elim: hoare_weaken)

lemma tracks_return: "(\<And>st l. P st l \<Longrightarrow> Q x st l) \<Longrightarrow> tracks now c st0 P (return x) Q"
  by (simp add: tracks_def hoare_return)

lemma tracks_throw:
  "(\<And>st l. P st l \<Longrightarrow> settles now c st0 st) \<Longrightarrow> e \<noteq> Panicked \<Longrightarrow> tracks now c st0 P (throw e) Q"
  by (simp add: tracks_def hoare_throw)

lemma tracks_reject:
  "(\<And>st l. P st l \<Longrightarrow> settles now c st0 st) \<Longrightarrow> tracks now c st0 P (reject code) Q"
  by (simp add: reject_def tracks_throw)

lemma tracks_bind:
  assumes "tracks now c st0 P m R" and "\<And>x. tracks now c st0 (R x) (f x) Q"
  shows "tracks now c st0 P (bind m f) Q"
  using assms unfolding tracks_def by (rule hoare_bind)

lemma tracks_andthen:
  assumes "tracks now c st0 P m (\<lambda>_. R)" and "tracks now c st0 R k Q"
  shows "tracks now c st0 P (andthen m k) Q"
  using assms unfolding tracks_def by (rule hoare_andthen)

lemma tracks_get:
  assumes "\<And>st. (\<exists>l. P st l) \<Longrightarrow> tracks now c st0 (\<lambda>st' l. st' = st \<and> P st l) (f st) Q"
  shows "tracks now c st0 P (bind (gets svc_state) f) Q"
  unfolding tracks_def
proof (rule hoareI)
  fix s x s' assume "P (svc_state s) (lifecycle_fd s)" "bind (gets svc_state) f s = (Inr x, s')"
  then show "Q x (svc_state s') (lifecycle_fd s')"
    using hoare_Inr [OF assms [of "svc_state s", unfolded tracks_def]]
    by (auto simp: bind_def gets_def)
next
  fix s e s' assume "P (svc_state s) (lifecycle_fd s)" "bind (gets svc_state) f s = (Inl e, s')"
  then show "settles now c st0 (svc_state s') \<and> e \<noteq> Panicked"
    using hoare_Inl [OF assms [of "svc_state s", unfolded tracks_def]]
    by (auto simp: bind_def gets_def)
qed

lemma tracks_get_at:
  assumes "tracks now c st0 (at_state st) (f st) Q"
  shows "tracks now c st0 (at_state st) (bind (gets svc_state) f) Q"
  by (rule tracks_get) (use assms in \<open>auto intro: tracks_weaken\<close>)

lemma tracks_each:
  assumes each: "\<And>st. P st \<Longrightarrow> tracks now c st0 (at_state st) m Q"
  shows "tracks now c st0 (\<lambda>st _. P st) m Q"
  unfolding tracks_def
proof (rule hoareI)
  fix s x s' assume "P (svc_state s)" "m s = (Inr x, s')"
  then show "Q x (svc_state s') (lifecycle_fd s')"
    by (intro hoare_Inr [OF each [of "svc_state s", unfolded tracks_def]]) simp_all
next
  fix s e s' assume "P (svc_state s)" "m s = (Inl e, s')"
  then show "settles now c st0 (svc_state s') \<and> e \<noteq> Panicked"
    by (intro hoare_Inl [OF each [of "svc_state s", unfolded tracks_def]]) simp_all
qed

lemma tracks_gets:
  assumes "\<And>x. tracks now c st0 P (f x) Q"
  shows "tracks now c st0 P (bind (gets g) f) Q"
  using assms unfolding tracks_def hoare_def by (simp add: bind_def gets_def)

lemma tracks_get_fd:
  assumes "\<And>fd. tracks now c st0 (\<lambda>st l. l = fd \<and> P st l) (f fd) Q"
  shows "tracks now c st0 P (bind (gets lifecycle_fd) f) Q"
  using assms unfolding tracks_def hoare_def by (simp add: bind_def gets_def)

lemma tracks_of_result:
  assumes "\<And>x st l. r = Inr x \<Longrightarrow> P st l \<Longrightarrow> Q x st l"
    and "\<And>e st l. r = Inl e \<Longrightarrow> P st l \<Longrightarrow> settles now c st0 st \<and> e \<noteq> Panicked"
  shows "tracks now c st0 P (of_result r) Q"
  using assms by (cases r) (auto simp: tracks_def hoare_def of_result_def)

lemma tracks_result:
  assumes "\<And>x. r = Inr x \<Longrightarrow> tracks now c st0 P (f x) Q"
    and "\<And>e st l. r = Inl e \<Longrightarrow> P st l \<Longrightarrow> settles now c st0 st \<and> e \<noteq> Panicked"
  shows "tracks now c st0 P (bind (of_result r) f) Q"
  using assms by (cases r) (auto simp: tracks_def hoare_def of_result_def bind_def)

lemma tracks_check:
  assumes "\<And>x. r = Inr x \<Longrightarrow> tracks now c st0 P k Q"
    and "\<And>e st l. r = Inl e \<Longrightarrow> P st l \<Longrightarrow> settles now c st0 st \<and> e \<noteq> Panicked"
  shows "tracks now c st0 P (andthen (of_result r) k) Q"
  unfolding andthen_def by (rule tracks_result) (use assms in auto)

lemma tracks_unwrap:
  assumes "\<And>x. v = Some x \<Longrightarrow> tracks now c st0 P (f x) Q" and "\<And>st l. P st l \<Longrightarrow> v \<noteq> None"
  shows "tracks now c st0 P (bind (unwrap v) f) Q"
  using assms
  by (cases v) (auto simp: unwrap_def tracks_def hoare_def bind_def of_result_def)

lemma tracks_net:
  assumes "\<And>st l. P st l \<Longrightarrow> settles now c st0 st" and "\<And>e. wrap e \<noteq> Panicked"
  shows "tracks now c st0 P (net_as wrap m) (\<lambda>_. P)"
  using assms
  by (auto simp: tracks_def hoare_def net_as_def map_err_def split: prod.splits sum.splits)

lemma tracks_net_bind:
  assumes "\<And>st l. P st l \<Longrightarrow> settles now c st0 st" and "\<And>e. wrap e \<noteq> Panicked"
    and "\<And>x. tracks now c st0 P (f x) Q"
  shows "tracks now c st0 P (bind (net_as wrap m) f) Q"
  using assms by (blast intro: tracks_bind tracks_net)

lemma tracks_factory:
  assumes "\<And>st l. P st l \<Longrightarrow> settles now c st0 st"
  shows "tracks now c st0 P (on_factory m) (\<lambda>_. P)"
  using assms
  by (auto simp: tracks_def hoare_def on_factory_def map_err_def split: prod.splits sum.splits)

lemma tracks_attempt:
  assumes "tracks now c st0 P m (\<lambda>x. Q (Inr x))"
    and "\<And>e st l. settles now c st0 st \<Longrightarrow> e \<noteq> Panicked \<Longrightarrow> Q (Inl e) st l"
  shows "tracks now c st0 P (attempt m) Q"
  using assms unfolding tracks_def by (blast intro: hoare_attempt hoare_weaken)

lemma tracks_attempt_net:
  assumes "\<And>e. wrap e \<noteq> Panicked"
    and "\<And>x. tracks now c st0 P (f (Inr x)) Q" "\<And>e. e \<noteq> Panicked \<Longrightarrow> tracks now c st0 P (f (Inl e)) Q"
  shows "tracks now c st0 P (bind (attempt (net_as wrap m)) f) Q"
  unfolding tracks_def
proof (rule hoareI)
  fix s x s' assume *: "P (svc_state s) (lifecycle_fd s)"
    "bind (attempt (net_as wrap m)) f s = (Inr x, s')"
  obtain r b where m: "m (infra_backend s) = (r, b)" by fastforce
  then have "f (map_err wrap r) (s\<lparr>infra_backend := b\<rparr>) = (Inr x, s')"
    using *(2) by (simp add: bind_def attempt_def net_as_def)
  then show "Q x (svc_state s') (lifecycle_fd s')"
    using hoare_Inr [OF assms(2) [unfolded tracks_def], of "s\<lparr>infra_backend := b\<rparr>"]
      hoare_Inr [OF assms(3) [unfolded tracks_def], of _ "s\<lparr>infra_backend := b\<rparr>"] *(1) assms(1)
    by (cases r) (simp, blast, simp)
next
  fix s e s' assume *: "P (svc_state s) (lifecycle_fd s)"
    "bind (attempt (net_as wrap m)) f s = (Inl e, s')"
  obtain r b where m: "m (infra_backend s) = (r, b)" by fastforce
  then have "f (map_err wrap r) (s\<lparr>infra_backend := b\<rparr>) = (Inl e, s')"
    using *(2) by (simp add: bind_def attempt_def net_as_def)
  then show "settles now c st0 (svc_state s') \<and> e \<noteq> Panicked"
    using hoare_Inl [OF assms(2) [unfolded tracks_def], of "s\<lparr>infra_backend := b\<rparr>"]
      hoare_Inl [OF assms(3) [unfolded tracks_def], of _ "s\<lparr>infra_backend := b\<rparr>"] *(1) assms(1)
    by (cases r) (simp, blast, simp)
qed

lemma tracks_persist:
  assumes "\<And>st l. P st l \<Longrightarrow> settles now c st0 st" and "\<And>st l. P st l \<Longrightarrow> Q () new l"
  shows "tracks now c st0 P (persist W new) Q"
  using assms
  by (auto simp: tracks_def hoare_def persist_def split: prod.splits sum.splits)

lemma tracks_attempt_persist:
  assumes "\<And>st l. P st l \<Longrightarrow> settles now c st0 st" and "\<And>st l. P st l \<Longrightarrow> R new l"
    and "tracks now c st0 R (f (Inr ())) Q" and "tracks now c st0 P (f (Inl InfraJournal)) Q"
  shows "tracks now c st0 P (bind (attempt (persist W new)) f) Q"
  unfolding tracks_def
proof (rule hoareI)
  fix s x s' assume *: "P (svc_state s) (lifecycle_fd s)"
    "bind (attempt (persist W new)) f s = (Inr x, s')"
  obtain r j where "infra_store (state_journal W) new (infra_journal s) = (r, j)" by fastforce
  then show "Q x (svc_state s') (lifecycle_fd s')"
    using *
      hoare_Inr [OF assms(3) [unfolded tracks_def], of "s\<lparr>infra_journal := j, svc_state := new\<rparr>"]
      hoare_Inr [OF assms(4) [unfolded tracks_def], of "s\<lparr>infra_journal := j\<rparr>"] assms(2)
    by (cases r) (simp_all add: bind_def attempt_def persist_def)
next
  fix s e s' assume *: "P (svc_state s) (lifecycle_fd s)"
    "bind (attempt (persist W new)) f s = (Inl e, s')"
  obtain r j where "infra_store (state_journal W) new (infra_journal s) = (r, j)" by fastforce
  then show "settles now c st0 (svc_state s') \<and> e \<noteq> Panicked"
    using *
      hoare_Inl [OF assms(3) [unfolded tracks_def], of "s\<lparr>infra_journal := j, svc_state := new\<rparr>"]
      hoare_Inl [OF assms(4) [unfolded tracks_def], of "s\<lparr>infra_journal := j\<rparr>"] assms(2)
    by (cases r) (simp_all add: bind_def attempt_def persist_def)
qed

lemma tracks_set_fd:
  assumes "\<And>st l. P st l \<Longrightarrow> Q () st fd"
  shows "tracks now c st0 P (set_lifecycle fd) Q"
  using assms by (auto simp: tracks_def hoare_def set_lifecycle_def modify_def)

lemma tracks_set_restart:
  assumes "\<And>st l. P st l \<Longrightarrow> Q () st l"
  shows "tracks now c st0 P (set_restart_recovery b) Q"
  using assms by (auto simp: tracks_def hoare_def set_restart_recovery_def modify_def)

lemma tracks_if:
  assumes "b \<Longrightarrow> tracks now c st0 P m Q" and "\<not> b \<Longrightarrow> tracks now c st0 P k Q"
  shows "tracks now c st0 P (if b then m else k) Q"
  using assms by simp

lemma tracks_option:
  assumes "v = None \<Longrightarrow> tracks now c st0 P m Q" and "\<And>x. v = Some x \<Longrightarrow> tracks now c st0 P (k x) Q"
  shows "tracks now c st0 P (case v of None \<Rightarrow> m | Some x \<Rightarrow> k x) Q"
  using assms by (cases v) auto

lemma tracks_when:
  assumes "b \<Longrightarrow> tracks now c st0 P m Q" and "\<And>st l. \<not> b \<Longrightarrow> P st l \<Longrightarrow> Q () st l"
  shows "tracks now c st0 P (when_true b m) Q"
  using assms by (auto simp: when_true_def intro: tracks_return)

section \<open>Changes of a forwarding record\<close>

lemma record_wf_simps [simp]:
  "record_wf (r\<lparr>fwd_phase := ph\<rparr>) = record_wf r"
  "record_wf (r\<lparr>authority := a\<rparr>) = record_wf r"
  "record_wf (r\<lparr>pending_policy := p\<rparr>) = record_wf r"
  by (simp_all add: record_wf_def metadata_valid_def failure_intent_valid_def
      cong: option.case_cong)

lemma effective_generation_simps [simp]:
  "effective_generation (r\<lparr>pending_policy := p\<rparr>) = effective_generation r"
  by (simp add: effective_generation_def cong: option.case_cong)

lemma pending_wf_simps [simp]:
  "pending_wf (r\<lparr>authority := a\<rparr>) p = pending_wf r p"
  "pending_wf (r\<lparr>pending_policy := q\<rparr>) p = pending_wf r p"
  "pending_wf r (p\<lparr>cancelled := b\<rparr>) = pending_wf r p"
  by (simp_all add: pending_wf_def effective_generation_def cong: option.case_cong)

lemma candidate_wf_simps [simp]:
  "candidate_wf (Some (f\<lparr>authority := a\<rparr>)) c = candidate_wf (Some f) c"
  "candidate_wf fwd (c\<lparr>authority := a\<rparr>) = candidate_wf fwd c"
  by (simp_all add: candidate_wf_def split: option.splits)

lemma check_failed_prefixes_iff:
  "check_failed_prefixes authorized unique ps = Inr () \<longleftrightarrow>
     distinct ps \<and> unique \<inter> set ps = {} \<and> set ps \<subseteq> authorized"
  by (induction ps arbitrary: unique) auto

lemma validate_failed_prefixes_iff:
  "is_ok (validate_failed_prefixes d ps) \<longleftrightarrow> distinct ps \<and> set ps \<subseteq> remote_prefixes d"
  by (auto simp: is_ok_iff validate_failed_prefixes_def check_failed_prefixes_iff remote_prefixes_def)

lemma remote_nonlocal: "remote_prefixes d \<subseteq> nonlocal_prefixes d"
  by (auto simp: remote_prefixes_def nonlocal_prefixes_def)

lemma retained_failures_nonlocal:
  "set (retained_failures f p) \<subseteq> nonlocal_prefixes (pending_declaration p)"
  by (auto simp: retained_failures_def nonlocal_prefixes_def list_ex_iff)

lemma record_wf_new:
  assumes "is_ok (validate_forward_owner owner)" and "is_ok (validate_declaration d)"
  shows "record_wf (new_forward owner d ph)"
  using assms by (simp add: record_wf_def new_forward_def metadata_valid_def failure_intent_valid_def)

lemma new_forward_simps [simp]:
  "fwd_owner (new_forward owner d ph) = owner" "fwd_declaration (new_forward owner d ph) = d"
  "fwd_phase (new_forward owner d ph) = ph" "pending_policy (new_forward owner d ph) = None"
  "pending_failed_prefixes (new_forward owner d ph) = None"
  "fwd_failed_prefixes (new_forward owner d ph) = []" "authority (new_forward owner d ph) = None"
  by (simp_all add: new_forward_def)

lemma cancel_pending_simps [simp]:
  "fwd_owner (cancel_pending r) = fwd_owner r" "fwd_phase (cancel_pending r) = fwd_phase r"
  "fwd_declaration (cancel_pending r) = fwd_declaration r"
  "record_wf (cancel_pending r) = record_wf r" "pending_wf (cancel_pending r) p = pending_wf r p"
  "pending_policy (cancel_pending r) = map_option (\<lambda>p. p\<lparr>cancelled := True\<rparr>) (pending_policy r)"
  by (simp_all add: cancel_pending_def)

lemma revoke_record_simps [simp]:
  "fwd_owner (revoke_record r) = fwd_owner r" "fwd_phase (revoke_record r) = FwRevoked"
  "fwd_declaration (revoke_record r) = fwd_declaration r" "pending_policy (revoke_record r) = None"
  by (simp_all add: revoke_record_def)

lemma record_wf_revoke: "record_wf r \<Longrightarrow> record_wf (revoke_record r)"
  by (simp add: record_wf_def revoke_record_def metadata_valid_def failure_intent_valid_def
      cong: option.case_cong)

lemma record_wf_adopt:
  assumes "record_wf r" and "pending_wf r p"
  shows "record_wf (adopt_policy r p (retained_failures r p))"
  using assms retained_failures_nonlocal [of r p]
  by (auto simp: record_wf_def pending_wf_def adopt_policy_def metadata_valid_def
      failure_intent_valid_def effective_generation_def retained_failures_def
      split: option.splits intro: order_trans)

lemma adopt_policy_simps [simp]:
  "fwd_owner (adopt_policy r p ps) = fwd_owner r" "fwd_phase (adopt_policy r p ps) = fwd_phase r"
  "pending_policy (adopt_policy r p ps) = None"
  by (simp_all add: adopt_policy_def)

lemma record_wf_renewed:
  assumes "record_wf r" and "is_ok (validate_forward_owner owner)"
    and "signed_generation owner = signed_generation (fwd_owner r)"
  shows "record_wf (r\<lparr>fwd_owner := owner\<rparr>)"
  using assms by (simp add: record_wf_def metadata_valid_def failure_intent_valid_def
      cong: option.case_cong)

lemma record_wf_failures:
  assumes "record_wf r" and "is_ok (validate_failed_prefixes (fwd_declaration r) ps)"
  shows "record_wf (r\<lparr>fwd_failed_prefixes := ps, failure_revision := v,
    pending_failed_prefixes := None, pending_failure_revision := None\<rparr>)"
  using assms remote_nonlocal
  by (auto simp: record_wf_def metadata_valid_def failure_intent_valid_def
      validate_failed_prefixes_iff cong: option.case_cong)

lemma record_wf_pending_failures:
  assumes "record_wf r" and "is_ok (validate_failed_prefixes (fwd_declaration r) ps)"
    and "failure_revision r < v"
  shows "record_wf (r\<lparr>pending_failed_prefixes := Some ps, pending_failure_revision := Some v\<rparr>)"
  using assms by (auto simp: record_wf_def metadata_valid_def failure_intent_valid_def
      cong: option.case_cong)

lemma inv_forwarding:
  assumes "infra_inv st" and "forwarding st = Some f"
  shows "record_wf f" "fencing_token (fwd_owner f) \<le> last_fencing_token st"
    "pending_policy f = Some p \<Longrightarrow> pending_wf f p" "spec st \<noteq> None"
    "fwd_phase f = FwPreparing \<Longrightarrow> last_fencing_token st = fencing_token (fwd_owner f)"
  using assms by (auto simp: infra_inv_def forwarding_wf_def device_wf_def split: option.splits)

lemma inv_candidate:
  assumes "infra_inv st" and "candidate st = Some c"
  shows "candidate_wf (forwarding st) c" "fencing_token (fwd_owner c) \<le> last_fencing_token st"
    "record_wf c" "spec st \<noteq> None"
  using assms
  by (auto simp: infra_inv_def forwarding_wf_def device_wf_def candidate_wf_def split: option.splits)

lemma candidate_forwarding:
  assumes "infra_inv st" and "candidate st = Some c"
  obtains f where "forwarding st = Some f" "fwd_phase f \<in> {FwActive, FwGuarded, FwRevoked}"
    "pending_policy f = None" "owner_le (fwd_owner f) (fwd_owner c)"
    "fencing_token (fwd_owner f) < fencing_token (fwd_owner c)"
  using inv_candidate(1) [OF assms] by (auto simp: candidate_wf_def split: option.splits)

text \<open>The changes of the forwarding record and the candidate under an unchanged fencing token.\<close>

lemma evolves_records:
  assumes inv: "infra_inv st" and fwd: "forwarding st = Some f"
    and wf: "record_wf f'" "fencing_token (fwd_owner f') \<le> last_fencing_token st"
      "\<And>p. pending_policy f' = Some p \<Longrightarrow> pending_wf f' p"
      "fwd_phase f' = FwPreparing \<Longrightarrow> last_fencing_token st = fencing_token (fwd_owner f')"
    and le: "owner_le (fwd_owner f) (fwd_owner f')"
    and cand: "\<And>c. c' = Some c \<Longrightarrow>
      candidate_wf (Some f') c \<and> fencing_token (fwd_owner c) \<le> last_fencing_token st"
    and live: "fwd_phase f' \<noteq> FwRevoked \<Longrightarrow>
      owner_is_live (fwd_owner f') now \<or> fwd_phase f \<noteq> FwRevoked \<and> fwd_owner f' = fwd_owner f"
  shows "evolves now st (st\<lparr>forwarding := Some f', candidate := c'\<rparr>)"
proof -
  have "infra_inv (st\<lparr>forwarding := Some f', candidate := c'\<rparr>)"
    using inv wf cand inv_forwarding(4) [OF inv fwd]
    by (auto simp: infra_inv_def device_wf_def forwarding_wf_def split: option.splits)
  then show ?thesis
    using fwd le live by (auto simp: evolves_def lives_def)
qed

lemma evolves_forwarding:
  assumes "infra_inv st" "forwarding st = Some f"
    and "record_wf f'" "fencing_token (fwd_owner f') \<le> last_fencing_token st"
      "\<And>p. pending_policy f' = Some p \<Longrightarrow> pending_wf f' p"
      "fwd_phase f' = FwPreparing \<Longrightarrow> last_fencing_token st = fencing_token (fwd_owner f')"
    and "owner_le (fwd_owner f) (fwd_owner f')"
    and "\<And>c. candidate st = Some c \<Longrightarrow> candidate_wf (Some f') c"
    and "fwd_phase f' \<noteq> FwRevoked \<Longrightarrow>
      owner_is_live (fwd_owner f') now \<or> fwd_phase f \<noteq> FwRevoked \<and> fwd_owner f' = fwd_owner f"
  shows "evolves now st (st\<lparr>forwarding := Some f'\<rparr>)"
proof -
  have "evolves now st (st\<lparr>forwarding := Some f', candidate := candidate st\<rparr>)"
    by (rule evolves_records) (use assms in \<open>auto dest: inv_candidate(2)\<close>)
  then show ?thesis by simp
qed

lemma evolves_candidate:
  assumes inv: "infra_inv st"
    and cand: "\<And>c. c' = Some c \<Longrightarrow> spec st \<noteq> None \<and>
      candidate_wf (forwarding st) c \<and> fencing_token (fwd_owner c) \<le> token"
    and token: "last_fencing_token st \<le> token"
    and first: "\<And>f. forwarding st = Some f \<Longrightarrow> fwd_phase f = FwPreparing \<Longrightarrow>
      token = last_fencing_token st"
    and none: "forwarding st = None \<Longrightarrow> token = last_fencing_token st"
  shows "evolves now st (st\<lparr>candidate := c', last_fencing_token := token\<rparr>)"
proof -
  have "infra_inv (st\<lparr>candidate := c', last_fencing_token := token\<rparr>)"
    using assms by (cases c') (auto simp: infra_inv_def device_wf_def forwarding_wf_def
        split: option.splits intro: order_trans)
  then show ?thesis
    using token by (simp add: evolves_def lives_def)
qed

lemma evolves_drop_candidate:
  assumes "infra_inv st"
  shows "evolves now st (st\<lparr>candidate := None\<rparr>)"
  using evolves_candidate [OF assms, of None "last_fencing_token st"] by simp

lemma evolves_prepare:
  assumes inv: "infra_inv st" and "spec st \<noteq> None" "candidate st = None"
    and valid: "is_ok (validate_forward_owner owner)" "is_ok (validate_declaration d)"
    and live: "owner_is_live owner now"
    and token: "last_fencing_token st \<le> fencing_token owner"
    and le: "\<And>f. forwarding st = Some f \<Longrightarrow> owner_le (fwd_owner f) owner"
  shows "evolves now st (st\<lparr>infra_sysctls := changes, forwarding := Some (new_forward owner d ph),
    last_fencing_token := fencing_token owner\<rparr>)"
proof -
  have "infra_inv (st\<lparr>infra_sysctls := changes, forwarding := Some (new_forward owner d ph),
      last_fencing_token := fencing_token owner\<rparr>)"
    using assms record_wf_new [OF valid]
    by (auto simp: infra_inv_def device_wf_def forwarding_wf_def split: option.splits)
  then show ?thesis
    using live token le by (auto simp: evolves_def lives_def)
qed

end
