(* ===== verification/Netd_Infra_Steps.thy ===== *)
theory Netd_Infra_Steps
  imports Netd_Infra_Laws
begin

text \<open>
  Every action of the infrastructure service, recovery and handlers alike, evolves the state and
  does not panic: one triple per definition.
\<close>

section \<open>The device\<close>

lemma tracks_administrator:
  assumes "settles now c st0 st"
    and "administrator st = Some (caller_instance_id req) \<Longrightarrow> tracks now c st0 (at_state st) k Q"
  shows "tracks now c st0 (at_state st) (andthen (check_administrator req) k) Q"
proof -
  have "tracks now c st0 (at_state st) (check_administrator req)
      (\<lambda>_ st' _. st' = st \<and> administrator st = Some (caller_instance_id req))"
    unfolding check_administrator_def
    by (intro tracks_get_at tracks_if tracks_reject tracks_return) (use assms(1) in auto)
  moreover have "tracks now c st0
      (\<lambda>st' _. st' = st \<and> administrator st = Some (caller_instance_id req)) k Q"
    by (cases "administrator st = Some (caller_instance_id req)")
      (use assms(2) in \<open>auto simp: tracks_def hoare_def\<close>)
  ultimately show ?thesis by (rule tracks_andthen)
qed

lemma tracks_verify:
  assumes "settles now c st0 st" and "\<And>st' l. P st' l \<Longrightarrow> st' = st"
  shows "tracks now c st0 P (verify_device_ownership W) (\<lambda>_. P)"
  unfolding verify_device_ownership_def
  by (intro tracks_get tracks_if tracks_reject tracks_net_bind tracks_return)
    (use assms in auto)

lemma tracks_identity:
  assumes "settles now c st0 st"
    and "\<And>sp. spec st = Some sp \<Longrightarrow> tracks now c st0 (at_state st) (k sp) Q"
  shows "tracks now c st0 (at_state st) (bind (identity W infra gen) k) Q"
proof -
  have "tracks now c st0 (at_state st) (identity W infra gen)
      (\<lambda>sp st' _. st' = st \<and> spec st = Some sp)"
    unfolding identity_def
    apply (intro tracks_get_at tracks_result tracks_if tracks_reject tracks_net_bind)
         apply (use assms(1) in \<open>auto split: option.splits\<close>)
    apply (rule tracks_andthen [where R = "at_state st"])
     apply (rule tracks_verify)
      apply (auto intro: tracks_return)
    done
  moreover have "tracks now c st0 (\<lambda>st' _. st' = st \<and> spec st = Some sp) (k sp) Q" for sp
    by (cases "spec st = Some sp") (use assms(2) in \<open>auto simp: tracks_def hoare_def\<close>)
  ultimately show ?thesis by (rule tracks_bind)
qed

lemma tracks_identity_then:
  assumes "settles now c st0 st" and "tracks now c st0 (at_state st) k Q"
  shows "tracks now c st0 (at_state st) (andthen (identity W infra gen) k) Q"
  unfolding andthen_def using assms by (blast intro: tracks_identity)

lemma tracks_namespace:
  assumes "\<And>st' l. P st' l \<Longrightarrow> settles now c st0 st'"
  shows "tracks now c st0 P (check_namespace W sp) (\<lambda>_. P)"
  unfolding check_namespace_def
  by (rule tracks_result) (use assms in \<open>auto intro: tracks_return tracks_reject split: prod.splits\<close>)

lemma tracks_create_persistent:
  assumes "settles now c st0 st"
  shows "tracks now c st0 (at_state st)
    (bind (on_factory (create_persistent (tun_factory W))) (\<lambda>fd. set_lifecycle (Some fd)))
    (\<lambda>_ st' l. st' = st \<and> l \<noteq> None)"
  by (rule tracks_bind, rule tracks_factory) (use assms in \<open>auto intro: tracks_set_fd\<close>)

lemma tracks_obtain_device:
  assumes "settles now c st0 st"
  shows "tracks now c st0 (at_state st) (obtain_device W marker) (\<lambda>_ st' l. st' = st \<and> l \<noteq> None)"
proof -
  have "tracks now c st0 (at_state st)
     (bind (on_factory (create_exclusive (tun_factory W))) (\<lambda>fd.
       andthen (set_lifecycle (Some fd))
       (bind (attempt (on_net (stamp_infrastructure_ownership (net W) marker))) (\<lambda>result.
        case result of
          Inl e \<Rightarrow> andthen (set_lifecycle None) (throw e)
        | Inr _ \<Rightarrow> return ()))))
     (\<lambda>_ st' l. st' = st \<and> l \<noteq> None)"
    apply (rule tracks_bind, rule tracks_factory)
     apply (use assms in simp)
    apply (rule tracks_andthen [where R = "\<lambda>st' l. st' = st \<and> l \<noteq> None"])
     apply (rule tracks_set_fd, simp)
    apply (rule tracks_attempt_net)
      apply simp
     apply (auto intro: tracks_return)
    apply (rule tracks_andthen [where R = "at_state st"])
     apply (rule tracks_set_fd, simp)
    apply (rule tracks_throw)
     apply (use assms in auto)
    done
  moreover have "tracks now c st0 (at_state st)
     (andthen (verify_device_ownership W)
       (bind (gets lifecycle_fd) (\<lambda>fd.
        if fd = None
        then bind (on_factory (create_persistent (tun_factory W))) (\<lambda>fd. set_lifecycle (Some fd))
        else return ())))
     (\<lambda>_ st' l. st' = st \<and> l \<noteq> None)"
    apply (rule tracks_andthen, rule tracks_verify)
      apply (use assms in auto)
    apply (rule tracks_get_fd)
    apply (auto intro: tracks_return tracks_weaken [OF tracks_create_persistent [OF assms]])
    done
  ultimately show ?thesis
    unfolding obtain_device_def
    by (intro tracks_net_bind tracks_if) (use assms in auto)
qed

lemma evolves_created:
  assumes "infra_inv st" "spec st = Some sp"
  shows "evolves now st (st\<lparr>ifindex := Some index, creation_pending := False, boot_id := boot\<rparr>)"
  using assms
  by (auto simp: evolves_def lives_def infra_inv_def device_wf_def forwarding_wf_def)

text \<open>Completing a creation changes nothing but the device.\<close>

definition same_forwarding :: "infra_state \<Rightarrow> infra_state \<Rightarrow> bool" where
  "same_forwarding st st' \<longleftrightarrow> forwarding st' = forwarding st \<and> candidate st' = candidate st
     \<and> last_fencing_token st' = last_fencing_token st \<and> spec st' = spec st
     \<and> io_owner st' = io_owner st \<and> last_io_epoch st' = last_io_epoch st
     \<and> administrator st' = administrator st"

lemma current_boot_id_error: "current_boot_id env = Inl e \<Longrightarrow> e = InfraJournal"
  by (auto simp: current_boot_id_def map_err_def split: sum.splits)

lemma ownership_marker_error: "new_ownership_marker env = Inl e \<Longrightarrow> e = InfraJournal"
  by (cases "random_nonce env") (auto simp: new_ownership_marker_def)

lemma start_ticks_error: "process_start_ticks env p = Inl e \<Longrightarrow> e = InfraJournal"
  by (auto simp: process_start_ticks_def split: sum.splits prod.splits)

lemma epoch_alive_error: "business_process_epoch_alive env p t = Inl e \<Longrightarrow> e = InfraJournal"
  by (auto simp: business_process_epoch_alive_def split: sum.splits prod.splits io_kind.splits)

lemma ensure_live_simps [simp]:
  "ensure_live owner now = Inr u \<longleftrightarrow> owner_is_live owner now"
  "ensure_live owner now = Inl e \<longleftrightarrow> \<not> owner_is_live owner now \<and> e = Rejected ''forward_owner_expired''"
  by (auto simp: ensure_live_def)

lemma same_owner_Inr [simp]:
  "same_owner r owner = Inr f \<longleftrightarrow> r = Some f \<and> fwd_owner f = owner"
  by (auto simp: same_owner_def split: option.splits)

lemma same_owner_Inl: "same_owner r owner = Inl e \<Longrightarrow> e \<noteq> Panicked"
  by (auto simp: same_owner_def split: option.splits if_splits)

lemmas error_facts = current_boot_id_error ownership_marker_error start_ticks_error
  epoch_alive_error same_owner_Inl

lemma tracks_complete_creation:
  assumes st: "settles now c st0 st"
  shows "tracks now c st0 (at_state st) (complete_creation W)
    (\<lambda>_ st' _. settles now c st0 st' \<and> \<not> creation_pending st' \<and> same_forwarding st st')"
proof -
  have inv: "infra_inv st" using st by (rule settles_inv)
  have "tracks now c st0 (at_state st)
     (andthen (check_namespace W sp)
       (andthen (obtain_device W marker)
       (andthen (verify_device_ownership W)
       (bind (gets lifecycle_fd) (\<lambda>fd.
        bind (unwrap fd) (\<lambda>fd.
        andthen (on_factory (enable_persistence (tun_factory W) fd))
        (bind (on_net (ensure_infrastructure (net W) sp)) (\<lambda>index.
         bind (of_result (current_boot_id (os W))) (\<lambda>boot.
         persist W (st\<lparr>ifindex := Some index, creation_pending := False, boot_id := boot\<rparr>))))))))))
     (\<lambda>_ st' _. settles now c st0 st' \<and> \<not> creation_pending st' \<and> same_forwarding st st')"
    if "spec st = Some sp" for sp marker
    apply (rule tracks_andthen, rule tracks_namespace)
     apply (use st in simp)
    apply (rule tracks_andthen, rule tracks_obtain_device [OF st])
    apply (rule tracks_andthen [where R = "\<lambda>st' l. st' = st \<and> l \<noteq> None"], rule tracks_verify [OF st])
     apply simp
    apply (rule tracks_get_fd)
    apply (rule tracks_unwrap)
     apply (rule tracks_andthen [where R = "at_state st"])
      apply (rule tracks_weaken [OF tracks_factory [where P = "at_state st"]])
        apply (use st in auto) [3]
     apply (rule tracks_net_bind)
       apply (use st in auto) [2]
     apply (rule tracks_result)
      apply (rule tracks_persist)
       apply (use st settles_step [OF st evolves_created [OF inv that]] in
        \<open>auto simp: same_forwarding_def dest: current_boot_id_error\<close>)
    done
  then show ?thesis
    unfolding complete_creation_def
    by (intro tracks_get_at tracks_if tracks_return tracks_result)
      (use st in \<open>auto simp: same_forwarding_def\<close>)
qed

section \<open>Replacement, fencing and live policy\<close>

lemma tracks_same_boot:
  assumes "settles now c st0 st"
  shows "tracks now c st0 (at_state st) (same_boot_if W cond) (\<lambda>b st' _. st' = st \<and> (b \<longrightarrow> cond))"
  unfolding same_boot_if_def
  by (intro tracks_if tracks_return tracks_get_at tracks_result)
    (use assms in \<open>auto dest: current_boot_id_error\<close>)

lemma tracks_steady_net:
  assumes "settles now c st0 st" and "\<And>e. wrap e \<noteq> Panicked"
  shows "tracks now c st0 (at_state st) (net_as wrap m) (\<lambda>_. at_state st)"
  by (rule tracks_net) (use assms in auto)

lemma tracks_install:
  assumes "settles now c st0 st"
  shows "tracks now c st0 (at_state st) (install_replacement W previous cand changes)
    (\<lambda>_. at_state st)"
  unfolding install_replacement_def Let_def
  by (intro tracks_andthen [where R = "at_state st"] tracks_if tracks_when tracks_steady_net)
    (use assms in auto)

lemma tracks_fence:
  assumes "\<And>st l. P st l \<Longrightarrow> settles now c st0 st"
  shows "tracks now c st0 P (fence_policy_intent W f) (\<lambda>_. P)"
  unfolding fence_policy_intent_def Let_def
  by (cases "pending_policy f"; simp;
      intro tracks_andthen [where R = P] tracks_when tracks_net tracks_return)
    (use assms in auto)

lemma tracks_given:
  assumes "c' \<Longrightarrow> tracks now c st0 (at_state st) m Q"
  shows "tracks now c st0 (\<lambda>st' _. st' = st \<and> c') m Q"
  using assms by (cases c') (auto simp: tracks_def hoare_def)

lemma evolves_retained:
  assumes "infra_inv st" "forwarding st = Some f" and "ph = fwd_phase f \<or> ph = FwRevoked"
  shows "evolves now st (st\<lparr>forwarding := Some (f\<lparr>fwd_phase := ph\<rparr>), candidate := None\<rparr>)"
  by (rule evolves_records)
    (use assms inv_forwarding [OF assms(1,2)] in
      \<open>auto simp: pending_wf_def effective_generation_def cong: option.case_cong\<close>)

lemma tracks_rollback:
  assumes st: "settles now c st0 st" and fwd: "forwarding st = Some previous"
  shows "tracks now c st0 (at_state st) (rollback_replacement W previous cand now)
    (settled now c st0)"
proof -
  have kept: "settles now c st0 (st\<lparr>forwarding := Some (if live then previous
      else previous\<lparr>fwd_phase := FwRevoked\<rparr>), candidate := None\<rparr>)" for live
  proof (rule settles_step [OF st])
    show "evolves now st (st\<lparr>forwarding := Some (if live then previous
      else previous\<lparr>fwd_phase := FwRevoked\<rparr>), candidate := None\<rparr>)"
      using evolves_retained [OF settles_inv [OF st] fwd, of "fwd_phase previous"]
        evolves_retained [OF settles_inv [OF st] fwd, of FwRevoked] by simp
  qed (use st in \<open>auto simp: settles_def\<close>)
  show ?thesis
    unfolding rollback_replacement_def Let_def
    apply (rule tracks_bind, rule tracks_same_boot [OF st], rule tracks_given)
    apply (intro tracks_andthen [where R = "at_state st"] tracks_if tracks_steady_net;
        (use st in simp; fail)?)
    apply (rule tracks_bind, rule tracks_same_boot [OF st], rule tracks_given)
    apply (intro tracks_andthen [where R = "at_state st"] tracks_when tracks_steady_net tracks_get_at
        tracks_persist)
            apply (use st kept in auto)
    done
qed

lemma tracks_reconcile:
  assumes st: "settles now c st0 st"
  shows "tracks now c st0 (at_state st) (reconcile_live_policy W now) (settled now c st0)"
proof -
  have inv: "infra_inv st" using st by (rule settles_inv)
  have "settles now c st0 (st\<lparr>forwarding := Some (adopt_policy f p (retained_failures f p))\<rparr>)"
    if "forwarding st = Some f" "pending_policy f = Some p" "fwd_phase f = FwActive"
      "candidate st = None" for f p
  proof (rule settles_step [OF st])
    show "evolves now st (st\<lparr>forwarding := Some (adopt_policy f p (retained_failures f p))\<rparr>)"
      by (rule evolves_forwarding [OF inv that(1)])
        (use that inv_forwarding [OF inv that(1)] in \<open>auto intro: record_wf_adopt\<close>)
  qed (use st in \<open>auto simp: settles_def\<close>)
  then show ?thesis
    unfolding reconcile_live_policy_def Let_def
    by (intro tracks_get_at tracks_result tracks_check tracks_if tracks_reject tracks_identity_then
        tracks_andthen [where R = "at_state st"] tracks_steady_net tracks_persist)
      (use st in auto)
qed

section \<open>Recovery\<close>

lemma tracks_recover_candidate:
  assumes st: "settles now c st0 st"
  shows "tracks now c st0 (at_state st) (recover_candidate W now) (settled now c st0)"
proof -
  have drop: "settles now c st0 (st\<lparr>candidate := None\<rparr>)"
    by (rule settles_step [OF st evolves_drop_candidate [OF settles_inv [OF st]]])
      (use st in \<open>auto simp: settles_def\<close>)
  show ?thesis
    unfolding recover_candidate_def
    by (intro tracks_get_at tracks_gets tracks_option tracks_if tracks_result tracks_return
        tracks_andthen [where R = "\<lambda>st' _. settles now c st0 st'"] tracks_persist tracks_rollback)
      (use st drop in auto)
qed

lemma evolves_cancelled:
  assumes inv: "infra_inv st" and fwd: "forwarding st = Some f"
  shows "evolves now st (st\<lparr>forwarding := Some (f\<lparr>fwd_phase := FwRevoked, pending_policy := None\<rparr>)\<rparr>)"
  by (rule evolves_forwarding [OF inv fwd])
    (use inv_forwarding [OF inv fwd] inv_candidate [OF inv] fwd in
      \<open>auto simp: candidate_wf_def split: option.splits\<close>)

lemma tracks_recover_cancelled:
  assumes st: "settles now c st0 st"
  shows "tracks now c st0 (at_state st) (recover_cancelled W) (settled now c st0)"
proof -
  have inv: "infra_inv st" using st by (rule settles_inv)
  have "settles now c st0 (st\<lparr>forwarding := Some (f\<lparr>fwd_phase := FwRevoked, pending_policy := None\<rparr>)\<rparr>)"
    if "forwarding st = Some f" for f
    by (rule settles_step [OF st evolves_cancelled [OF inv that]]) (use st in \<open>auto simp: settles_def\<close>)
  then show ?thesis
    unfolding recover_cancelled_def
    apply (intro tracks_get_at tracks_option tracks_if tracks_return)
       apply (use st in auto) [3]
    apply (rule tracks_andthen [where R = "at_state st"], rule tracks_fence)
     apply (use st in simp)
    apply (intro tracks_andthen [where R = "\<lambda>st' _. settles now c st0 st'"] tracks_persist tracks_return)
      apply (use st in auto)
    done
qed

lemma tracks_recover_policy:
  assumes st: "settles now c st0 st"
  shows "tracks now c st0 (at_state st) (recover_policy W now) (settled now c st0)"
  unfolding recover_policy_def
  apply (rule tracks_get_at)
  apply (rule tracks_bind, rule tracks_same_boot [OF st], rule tracks_given)
  apply (rule tracks_if, rule tracks_return, use st in simp)
  apply (rule tracks_bind [where R = "settled now c st0"])
   apply (rule tracks_attempt [OF tracks_reconcile [OF st]])
   apply (auto intro: tracks_return)
  done

lemma evolves_failures:
  assumes inv: "infra_inv st" and fwd: "forwarding st = Some f"
    and ps: "is_ok (validate_failed_prefixes (fwd_declaration f) ps)" and "pending_policy f = None"
  shows "evolves now st (st\<lparr>forwarding := Some (f\<lparr>fwd_failed_prefixes := ps, failure_revision := v,
    pending_failed_prefixes := None, pending_failure_revision := None\<rparr>)\<rparr>)"
  by (rule evolves_forwarding [OF inv fwd])
    (use assms inv_forwarding [OF inv fwd] inv_candidate [OF inv] record_wf_failures in
      \<open>auto simp: candidate_wf_def\<close>)

lemma pending_failures_facts:
  assumes "infra_inv st" and "forwarding st = Some f" and "pending_failed_prefixes f = Some ps"
  shows "is_ok (validate_failed_prefixes (fwd_declaration f) ps)" "pending_policy f = None"
    "pending_failure_revision f \<noteq> None" "spec st \<noteq> None"
  using inv_forwarding [OF assms(1,2)] assms(3)
  by (cases "pending_policy f"; auto simp: record_wf_def pending_wf_def failure_intent_valid_def)+

lemma tracks_recover_prefixes:
  assumes st: "settles now c st0 st"
  shows "tracks now c st0 (at_state st) (recover_prefixes W now) (settled now c st0)"
proof -
  have inv: "infra_inv st" using st by (rule settles_inv)
  have "settles now c st0 (st\<lparr>forwarding := Some (f\<lparr>fwd_failed_prefixes := ps, failure_revision := v,
      pending_failed_prefixes := None, pending_failure_revision := None\<rparr>)\<rparr>)"
    if "forwarding st = Some f" "pending_failed_prefixes f = Some ps" for f ps v
    by (rule settles_step [OF st evolves_failures [OF inv that(1)]])
      (use st pending_failures_facts [OF inv that] in \<open>auto simp: settles_def\<close>)
  moreover note pending_failures_facts(3,4) [OF inv]
  ultimately show ?thesis
    unfolding recover_prefixes_def
    apply (intro tracks_get_at tracks_option tracks_return)
     apply (use st in simp)
    apply (rule tracks_bind, rule tracks_same_boot [OF st], rule tracks_given)
    apply (intro tracks_if tracks_option tracks_return tracks_unwrap tracks_identity_then [OF st]
        tracks_attempt_net tracks_andthen [where R = "\<lambda>st' _. settles now c st0 st'"] tracks_persist)
                apply (use st in auto)
    done
qed

lemma evolves_cancel_pending:
  assumes inv: "infra_inv st" and fwd: "forwarding st = Some f"
  shows "evolves now st (st\<lparr>forwarding := Some (cancel_pending f)\<rparr>)"
  by (rule evolves_forwarding [OF inv fwd])
    (use inv_forwarding [OF inv fwd] inv_candidate(1) [OF inv] fwd in
      \<open>auto simp: candidate_wf_def split: option.splits\<close>)

lemma evolves_revoke_record:
  assumes inv: "infra_inv st" and fwd: "forwarding st = Some f"
  shows "evolves now st (st\<lparr>forwarding := Some (revoke_record f)\<rparr>)"
    "evolves now st (st\<lparr>forwarding := Some (revoke_record f), candidate := None\<rparr>)"
  by (rule evolves_forwarding [OF inv fwd] evolves_records [OF inv fwd];
      use inv_forwarding [OF inv fwd] inv_candidate(1) [OF inv] fwd in
      \<open>auto simp: candidate_wf_def record_wf_revoke split: option.splits\<close>)+

lemma tracks_recover_forwarding:
  assumes st: "settles now c st0 st"
  shows "tracks now c st0 (at_state st) (recover_forwarding W now r)
    (\<lambda>_ st' _. settles now c st0 st' \<and> lives now st')"
proof -
  have inv: "infra_inv st" using st by (rule settles_inv)
  have cancel: "settles now c st0 (st\<lparr>forwarding := Some (cancel_pending f)\<rparr>)"
    if "forwarding st = Some f" for f
    by (rule settles_step [OF st evolves_cancel_pending [OF inv that]])
      (use st in \<open>auto simp: settles_def\<close>)
  have revoke: "settles now c st0 (st'\<lparr>forwarding := Some (revoke_record f)\<rparr>)"
    if "settles now c st0 st'" "forwarding st' = Some f" for st' f
    by (rule settles_step [OF that(1) evolves_revoke_record(1) [OF settles_inv [OF that(1)] that(2)]])
      (use that(1) in \<open>auto simp: settles_def\<close>)
  let ?R = "\<lambda>st' _. settles now c st0 st' \<and> forwarding st' \<noteq> None"
  have fence: "tracks now c st0 (at_state st)
      (andthen (when_true (pending_policy f \<noteq> None)
         (persist W (st\<lparr>forwarding := Some (cancel_pending f)\<rparr>)))
       (andthen (fence_policy_intent W (cancel_pending f))
       (bind (gets svc_state) (\<lambda>st.
        bind (unwrap (forwarding st)) (\<lambda>fwd.
        andthen (persist W (st\<lparr>forwarding := Some (revoke_record fwd)\<rparr>))
        (andthen (set_restart_recovery False) (return True)))))))
      (\<lambda>_ st' _. settles now c st0 st' \<and> lives now st')" if "forwarding st = Some f" for f
    apply (rule tracks_andthen [where R = ?R])
     apply (rule tracks_when, rule tracks_persist)
       apply (use st cancel that in auto) [3]
    apply (rule tracks_andthen [where R = ?R], rule tracks_fence, simp)
    apply (rule tracks_get)
    apply (rule tracks_unwrap)
     apply (intro tracks_andthen [where R = "\<lambda>st' _. settles now c st0 st' \<and> lives now st'"]
        tracks_persist tracks_set_restart tracks_return)
        apply (auto simp: lives_def intro: revoke)
    done
  show ?thesis
    unfolding recover_forwarding_def Let_def
    by (intro fence tracks_get_at tracks_gets tracks_option tracks_if tracks_result
        tracks_andthen [where R = "at_state st"] tracks_set_restart tracks_return tracks_steady_net)
      (use st in \<open>auto simp: lives_def dest: current_boot_id_error\<close>)
qed

lemma tracks_recover_expired:
  assumes st: "settles now c st0 st"
  shows "tracks now c st0 (at_state st) (recover_expired W now)
    (\<lambda>_ st' _. settles now True st0 st' \<and> lives now st')"
proof -
  let ?S = "\<lambda>_ st' _. settles now True st0 st'"
  have at: "tracks now c st0 (?S x) m Q"
    if "\<And>st. settles now True st0 st \<Longrightarrow> tracks now True st0 (at_state st) m Q" for x m Q
    by (rule tracks_unsettled, rule tracks_each, rule that)
  show ?thesis
    unfolding recover_expired_def
    apply (rule tracks_andthen [where R = "?S ()"])
     apply (rule tracks_post [OF tracks_complete_creation [OF st]], simp add: settles_def)
    apply (rule tracks_bind [where R = ?S], rule at, erule tracks_recover_candidate)
    apply (rule tracks_bind [where R = ?S], rule at, erule tracks_recover_cancelled)
    apply (rule tracks_bind [where R = ?S], rule at, erule tracks_recover_policy)
    apply (rule tracks_bind [where R = ?S], rule at, erule tracks_recover_prefixes)
    apply (rule at, erule tracks_recover_forwarding)
    done
qed

end
