(* ===== verification/Netd_Infra_Handlers.thy ===== *)
theory Netd_Infra_Handlers
  imports Netd_Infra_Steps
begin

text \<open>The triples of the request handlers, and of the whole \<^verbatim>\<open>process\<close>.\<close>

lemma settles_update:
  assumes "settles now False st0 st" and "evolves now st st'"
  shows "settles now False st0 st'"
  using assms by (auto simp: settles_def intro: evolves_trans)

lemma tracks_attempt_steady:
  "tracks now c st0 (at_state st) (attempt (net_as wrap m)) (\<lambda>_. at_state st)"
  by (auto simp: tracks_def hoare_def attempt_def net_as_def split: prod.splits)

lemma tracks_persist_or_fence:
  assumes st: "settles now c st0 st" and new: "settles now c st0 new"
  shows "tracks now c st0 (at_state st) (persist_or_fence W new) (settled now c st0)"
  unfolding persist_or_fence_def
  apply (intro tracks_attempt_persist [where R = "at_state new"])
     apply (use st new in \<open>auto intro: tracks_return\<close>) [3]
  apply (simp only: sum.case if_distrib [of attempt])
  apply (intro tracks_get_at tracks_andthen [where R = "at_state st"] tracks_option tracks_if
      tracks_return tracks_throw tracks_attempt_steady)
      apply (use st in auto)
  done

section \<open>Infrastructure\<close>

lemma evolves_repair:
  assumes inv: "infra_inv st" and sp: "spec st = Some sp"
    and fwd: "forwarding st' = map_option (\<lambda>f. f\<lparr>fwd_phase := FwRevoked\<rparr>) (forwarding st)"
    and rest: "spec st' = spec st" "administrator st' = administrator st" "candidate st' = None"
      "creation_pending st'" "ownership_marker st' \<noteq> None" "io_owner st' = None"
      "last_io_epoch st' = last_io_epoch st" "last_fencing_token st' = last_fencing_token st"
  shows "evolves now st st'"
proof -
  have "record_wf f \<and> fencing_token (fwd_owner f) \<le> last_fencing_token st
      \<and> (\<forall>p. pending_policy f = Some p \<longrightarrow> pending_wf f p) \<and> fwd_phase f = FwRevoked"
    if "forwarding st' = Some f" for f
    using that fwd inv_forwarding [OF inv]
    by (auto simp: pending_wf_def effective_generation_def cong: option.case_cong)
  moreover have "forwarding st' = None \<longleftrightarrow> forwarding st = None"
    using fwd by simp
  ultimately have "infra_inv st'"
    using inv sp rest by (auto simp: infra_inv_def device_wf_def forwarding_wf_def)
  then show ?thesis
    using fwd rest by (auto simp: evolves_def lives_def)
qed

lemma tracks_fence_lost:
  assumes st: "settles now c st0 st"
  shows "tracks now c st0 (at_state st) (fence_lost_device W st)
    (\<lambda>next st' _. st' = st \<and>
       next = st\<lparr>forwarding := map_option (\<lambda>f. f\<lparr>fwd_phase := FwRevoked\<rparr>) (forwarding st)\<rparr>)"
  unfolding fence_lost_device_def
  by (intro tracks_option tracks_return tracks_andthen [where R = "at_state st"] tracks_steady_net)
    (use st in auto)

lemma tracks_each_settled:
  assumes "\<And>st. settles now c st0 st \<Longrightarrow> tracks now c st0 (at_state st) m Q"
  shows "tracks now c st0 (\<lambda>st _. settles now c st0 st) m Q"
  by (rule tracks_each) (rule assms)

lemma tracks_repair_device:
  assumes st: "settles now False st0 st" and sp: "spec st = Some sp"
  shows "tracks now False st0 (at_state st) (repair_device W st) (settled now False st0)"
proof -
  have inv: "infra_inv st" using st by (rule settles_inv)
  let ?next = "st\<lparr>forwarding := map_option (\<lambda>f. f\<lparr>fwd_phase := FwRevoked\<rparr>) (forwarding st)\<rparr>"
  have new: "settles now False st0 (?next\<lparr>candidate := None, creation_pending := True,
      ownership_marker := Some marker, ifindex := None, io_owner := None, boot_id := boot\<rparr>)"
    for marker boot
    by (rule settles_update [OF st evolves_repair [OF inv sp]]) auto
  have finish: "tracks now False st0 (\<lambda>st' _. settles now False st0 st' \<and> spec st' = Some sp)
      (andthen (complete_creation W)
        (bind (gets svc_state) (\<lambda>next.
         bind (unwrap (ifindex next)) (\<lambda>_.
         return (InfraStatusBody (spec next) (ifindex next) None, None)))))
      (settled now False st0)"
    apply (rule tracks_each, erule conjE)
    apply (rule tracks_andthen, rule tracks_complete_creation, assumption)
    apply (rule tracks_get, rule tracks_unwrap, rule tracks_return)
     apply (auto simp: settles_def evolves_def infra_inv_def device_wf_def same_forwarding_def)
    done
  show ?thesis
    unfolding repair_device_def
    apply (intro tracks_if tracks_reject)
     apply (use st in simp)
    apply (rule tracks_bind, rule tracks_fence_lost [OF st], rule tracks_given)
    apply (intro tracks_result)
      apply (rule tracks_andthen [OF _ finish], rule tracks_persist)
       apply (use st sp new in \<open>auto dest: error_facts\<close>)
    done
qed

lemma evolves_ensure:
  assumes "infra_inv st" and "spec st = None" and "is_ok (validate_spec sp)"
  shows "evolves now st (st\<lparr>spec := Some sp, ownership_marker := Some marker,
    creation_pending := True, administrator := Some admin, boot_id := boot\<rparr>)"
  using assms by (auto simp: evolves_def lives_def infra_inv_def device_wf_def forwarding_wf_def)

lemma tracks_ensure:
  assumes st: "settles now False st0 st" and sp: "is_ok (validate_spec sp)"
  shows "tracks now False st0 (at_state st) (infra_ensure W req sp) (settled now False st0)"
proof -
  have inv: "infra_inv st" using st by (rule settles_inv)
  have new: "settles now False st0 (st\<lparr>spec := Some sp, ownership_marker := Some marker,
    creation_pending := True, administrator := Some admin, boot_id := boot\<rparr>)"
    if "spec st = None" for marker admin boot
    by (rule settles_update [OF st evolves_ensure [OF inv that sp]])
  have finish: "tracks now False st0 (\<lambda>st' _. settles now False st0 st')
      (andthen (complete_creation W)
        (bind (gets svc_state) (\<lambda>st. return (InfraStatusBody (spec st) (ifindex st) None, None))))
      (settled now False st0)"
    apply (rule tracks_each_settled)
    apply (rule tracks_andthen, rule tracks_complete_creation, assumption)
    apply (auto intro!: tracks_get tracks_return)
    done
  have existing: "tracks now False st0 (at_state st)
      (andthen (check_administrator req)
        (if existing \<noteq> sp then reject ''infra_generation_conflict''
         else
           bind (on_net (interface_identity (net W))) (\<lambda>index.
           if index = None then repair_device W st
           else
             andthen (identity W (infra_id sp) (infra_generation sp))
             (return (infra_status_body st, None)))))
      (settled now False st0)" if "spec st = Some existing" for existing
    by (intro tracks_administrator tracks_net_bind tracks_if tracks_reject tracks_identity_then
        tracks_return tracks_repair_device) (use st that in auto)
  show ?thesis
    unfolding infra_ensure_def
    apply (rule tracks_andthen, rule tracks_namespace, use st in simp)
    apply (intro existing tracks_get_at tracks_option tracks_net_bind tracks_if tracks_reject
        tracks_result)
           apply (rule_tac [4] tracks_andthen [OF _ finish], rule_tac [4] tracks_persist)
            apply (use st new in \<open>auto dest: error_facts\<close>)
    done
qed

lemma evolves_acquire:
  assumes "infra_inv st" and "spec st = Some sp" and "last_io_epoch st < epoch" and "io_epoch io = epoch"
  shows "evolves now st (st\<lparr>io_owner := Some io, last_io_epoch := epoch\<rparr>)"
  using assms by (auto simp: evolves_def lives_def infra_inv_def device_wf_def forwarding_wf_def)

lemma tracks_acquire:
  assumes st: "settles now False st0 st" and ready: "\<not> creation_pending st"
  shows "tracks now False st0 (at_state st) (infra_acquire_io_fd W req infra gen epoch)
    (settled now False st0)"
proof -
  have inv: "infra_inv st" using st by (rule settles_inv)
  let ?new = "\<lambda>boot ticks. st\<lparr>io_owner := Some \<lparr>io_instance_id = caller_instance_id req,
     io_pid = caller_pid req, io_epoch = epoch, io_boot_id = boot, io_start_ticks = ticks\<rparr>,
     last_io_epoch := epoch\<rparr>"
  have new: "settles now False st0 (?new boot ticks)"
    if "spec st = Some sp" "last_io_epoch st < epoch" for sp boot ticks
    by (rule settles_update [OF st evolves_acquire [OF inv that]]) simp
  have index: "spec st = Some sp \<Longrightarrow> ifindex st \<noteq> None" for sp
    using inv ready by (auto simp: infra_inv_def device_wf_def)
  have finish: "tracks now False st0 (\<lambda>st' l. st' = st \<and> l \<noteq> None)
      (bind (gets lifecycle_fd) (\<lambda>fd.
        bind (unwrap fd) (\<lambda>fd.
        bind (of_result (ok_or InfraJournal (dup_fd (os W) fd))) (\<lambda>descriptor.
        bind (of_result (current_boot_id (os W))) (\<lambda>boot.
        bind (of_result (process_start_ticks (os W) (caller_pid req))) (\<lambda>ticks.
        andthen (persist W (?new boot ticks))
        (bind (gets svc_state) (\<lambda>st.
         bind (unwrap (ifindex st)) (\<lambda>index.
         return (IoFdBody sp index epoch, Some descriptor))))))))))
      (settled now False st0)" if "spec st = Some sp" "last_io_epoch st < epoch" for sp
    apply (intro tracks_get_fd tracks_unwrap tracks_result)
        apply (rule tracks_andthen
        [where R = "\<lambda>st' _. settles now False st0 st' \<and> ifindex st' \<noteq> None"])
         apply (rule tracks_persist)
          apply (use st new [OF that] index [OF that(1)] in \<open>auto dest: error_facts\<close>)
    apply (intro tracks_get tracks_unwrap tracks_return)
     apply auto
    done
  show ?thesis
    unfolding infra_acquire_io_fd_def
    apply (intro tracks_identity [OF st] tracks_get_at tracks_if tracks_reject)
      apply (use st in auto) [2]
    apply (rule tracks_get_fd)
    apply (rule tracks_andthen [OF _ finish])
      apply (rule tracks_if)
       apply (rule tracks_weaken [OF tracks_create_persistent [OF st]])
        apply (auto intro: tracks_return)
    done
qed

lemma tracks_release:
  assumes st: "settles now False st0 st"
  shows "tracks now False st0 (at_state st) (infra_release_io W req infra gen epoch)
    (settled now False st0)"
proof -
  have "evolves now st (st\<lparr>io_owner := None\<rparr>)"
    using settles_inv [OF st]
    by (auto simp: evolves_def lives_def infra_inv_def device_wf_def forwarding_wf_def
        split: option.splits)
  then have "settles now False st0 (st\<lparr>io_owner := None\<rparr>)"
    by (rule settles_update [OF st])
  then show ?thesis
    unfolding infra_release_io_def
    by (intro tracks_identity_then tracks_administrator tracks_get_at tracks_if tracks_reject
        tracks_persist_or_fence) (use st in auto)
qed

lemma tracks_retire:
  assumes st: "settles now False st0 st"
  shows "tracks now False st0 (at_state st) (infra_retire W req infra gen)
    (\<lambda>_ st' _. st' = default_state)"
  unfolding infra_retire_def
  by (intro tracks_identity_then tracks_administrator tracks_get_at tracks_if tracks_reject
      tracks_andthen [where R = "at_state st"] tracks_andthen [where R = "at_state default_state"]
      tracks_option tracks_return tracks_steady_net tracks_set_fd tracks_persist)
    (use st in auto)

section \<open>Forwarding owners\<close>

lemma forwarding_token_swap:
  "st\<lparr>last_fencing_token := t, forwarding := f\<rparr> = st\<lparr>forwarding := f, last_fencing_token := t\<rparr>"
  by (cases st) simp

lemma tracks_prepare_initial:
  assumes st: "settles now False st0 st"
    and new: "\<And>ph. settles now False st0 (st'\<lparr>forwarding := Some (new_forward owner d ph),
      last_fencing_token := fencing_token owner\<rparr>)"
  shows "tracks now False st0 (at_state st) (prepare_initial W st' owner d) (settled now False st0)"
proof -
  let ?next = "st'\<lparr>forwarding := Some (new_forward owner d FwPreparing),
    last_fencing_token := fencing_token owner\<rparr>"
  have last: "tracks now False st0 (at_state ?next)
      (persist_or_fence W (?next\<lparr>forwarding := Some (new_forward owner d FwPrepared)\<rparr>))
      (settled now False st0)"
    by (rule tracks_persist_or_fence) (use new [of FwPreparing] new [of FwPrepared] in
        \<open>simp_all add: forwarding_token_swap\<close>)
  have "tracks now False st0 (at_state st) (persist W ?next) (\<lambda>_. at_state ?next)"
    by (rule tracks_persist) (use st in auto)
  moreover have "tracks now False st0 (at_state ?next)
      (andthen (at_net_stage SysctlPrepare (prepare_sysctls (net W) d (infra_sysctls ?next)))
      (andthen (at_net_stage RoutePrepare (reject_forwarding (net W) d))
      (andthen (on_net (remove_firewall (net W) d))
      (andthen (at_net_stage FirewallPrepare (prepare_firewall (net W) d))
      (persist_or_fence W (?next\<lparr>forwarding := Some (new_forward owner d FwPrepared)\<rparr>))))))
      (settled now False st0)"
    unfolding at_net_stage_def
    by (intro last tracks_andthen [where R = "at_state ?next"] tracks_steady_net) (use new in auto)
  ultimately show ?thesis
    unfolding prepare_initial_def Let_def by (rule tracks_andthen)
qed

lemma fresh_owner_le:
  assumes "domain_id (fwd_owner f) = domain_id owner" and "\<not> stale_prepare st f owner d retry"
  shows "\<not> retry \<Longrightarrow> owner_le (fwd_owner f) owner"
    and "\<not> retry \<Longrightarrow> fencing_token (fwd_owner f) < fencing_token owner"
    and "\<not> retry \<Longrightarrow> last_fencing_token st < fencing_token owner"
  using assms by (auto simp: stale_prepare_def owner_le_def max_def not_le split: if_splits)

lemma tracks_prepare_over:
  assumes st: "settles now False st0 st" and fwd: "forwarding st = Some f" "candidate st = None"
    and valid: "is_ok (validate_forward_owner owner)" "is_ok (validate_declaration d)"
    and live: "owner_is_live owner now"
    and pending: "pending_policy f = None"
  shows "tracks now False st0 (at_state st) (prepare_over W st f owner d) (settled now False st0)"
proof -
  have inv: "infra_inv st" using st by (rule settles_inv)
  have sp: "spec st \<noteq> None" by (rule inv_forwarding(4) [OF inv fwd(1)])
  have retried: "settles now False st0 (st\<lparr>forwarding := Some (new_forward owner d ph),
      last_fencing_token := fencing_token owner\<rparr>)"
    if "fwd_owner f = owner" "fwd_phase f = FwPreparing" for ph
    using settles_update [OF st evolves_prepare [OF inv sp fwd(2) valid live,
        where changes = "infra_sysctls st" and ph = ph]]
      inv_forwarding(5) [OF inv fwd(1)] that fwd by simp
  have staged: "settles now False st0 (st\<lparr>candidate := Some (new_forward owner d FwPrepared),
      last_fencing_token := fencing_token owner\<rparr>)"
    if "fwd_phase f \<in> {FwActive, FwGuarded, FwRevoked}" "domain_id (fwd_owner f) = domain_id owner"
      "\<not> stale_prepare st f owner d False"
    by (rule settles_update [OF st evolves_candidate [OF inv]])
      (use that fwd sp pending fresh_owner_le [OF that(2,3)] record_wf_new [OF valid] in
        \<open>auto simp: candidate_wf_def\<close>)
  have stage: "tracks now False st0 (at_state st)
      (andthen (on_net (validate_forwarding_replacement (net W) (fwd_declaration f) d))
      (andthen (persist W (st\<lparr>candidate := Some (new_forward owner d FwPrepared),
         last_fencing_token := fencing_token owner\<rparr>)) ack)) (settled now False st0)"
    if "settles now False st0 (st\<lparr>candidate := Some (new_forward owner d FwPrepared),
      last_fencing_token := fencing_token owner\<rparr>)"
    apply (rule tracks_andthen [where R = "at_state st"], rule tracks_steady_net [OF st], simp)
    apply (rule tracks_andthen [where R = "\<lambda>st' _. settles now False st0 st'"])
     apply (rule tracks_persist)
      apply (use st that in \<open>auto intro: tracks_return\<close>)
    done
  show ?thesis
    unfolding prepare_over_def Let_def
    apply (intro tracks_if)
          apply (rule tracks_return, use st in simp)
         apply (rule tracks_reject, use st in simp)+
     apply (rule stage, rule staged)
       apply (auto; fail)+
    apply (rule tracks_prepare_initial [OF st], rule retried)
     apply simp_all
    done
qed

lemma tracks_prepare:
  assumes st: "settles now False st0 st"
    and valid: "is_ok (validate_forward_owner owner)" "is_ok (validate_declaration d)"
    and pending: "\<And>f. forwarding st = Some f \<Longrightarrow> pending_policy f = None"
  shows "tracks now False st0 (at_state st) (forward_prepare W req now infra gen owner d)
    (settled now False st0)"
proof -
  have inv: "infra_inv st" using st by (rule settles_inv)
  have new: "settles now False st0 (st\<lparr>infra_sysctls := changes,
      forwarding := Some (new_forward owner d ph), last_fencing_token := fencing_token owner\<rparr>)"
    if "spec st \<noteq> None" "candidate st = None" "forwarding st = None" "owner_is_live owner now"
    for changes ph
    by (rule settles_update [OF st evolves_prepare [OF inv that(1,2) valid that(4)]])
      (use that inv in \<open>auto simp: infra_inv_def forwarding_wf_def\<close>)
  show ?thesis
    unfolding forward_prepare_def
    apply (rule tracks_administrator [OF st], rule tracks_identity [OF st])
    apply (intro tracks_check tracks_if tracks_reject tracks_get_at tracks_option tracks_return)
          apply (use st in auto) [1]
         apply (unfold at_net_stage_def)
         apply (rule tracks_net_bind)
           apply (use st in auto) [2]
         apply (rule tracks_prepare_initial [OF st])
         apply (use new in simp)
        apply (rule tracks_prepare_over [OF st])
              apply (use st valid pending in auto)
    done
qed

lemma owns_candidate_iff:
  "owns_candidate st owner \<longleftrightarrow> (\<exists>c. candidate st = Some c \<and> fwd_owner c = owner)"
  by (auto simp: owns_candidate_def split: option.splits)

lemma evolves_authorize:
  assumes inv: "infra_inv st"
  shows "forwarding st = Some f \<Longrightarrow> evolves now st (st\<lparr>forwarding := Some (f\<lparr>authority := a\<rparr>)\<rparr>)"
    and "candidate st = Some k \<Longrightarrow> evolves now st (st\<lparr>candidate := Some (k\<lparr>authority := a\<rparr>)\<rparr>)"
proof -
  show "evolves now st (st\<lparr>forwarding := Some (f\<lparr>authority := a\<rparr>)\<rparr>)"
    if fwd: "forwarding st = Some f"
    by (rule evolves_forwarding [OF inv fwd])
      (use inv_forwarding [OF inv fwd] inv_candidate(1) [OF inv] fwd in auto)
  show "evolves now st (st\<lparr>candidate := Some (k\<lparr>authority := a\<rparr>)\<rparr>)"
    if "candidate st = Some k"
    using evolves_candidate [OF inv, of "Some (k\<lparr>authority := a\<rparr>)" "last_fencing_token st"]
      inv_candidate [OF inv that] by simp
qed

lemma tracks_authorize:
  assumes st: "settles now False st0 st"
  shows "tracks now False st0 (at_state st) (forward_authorize W req now owner a)
    (settled now False st0)"
proof -
  have inv: "infra_inv st" using st by (rule settles_inv)
  note new = settles_update [OF st evolves_authorize(1) [OF inv]]
    settles_update [OF st evolves_authorize(2) [OF inv]]
  have borrow: "tracks now False st0 (at_state st)
      (if owns_candidate st owner then unwrap (candidate st)
       else of_result (same_owner (forwarding st) owner))
      (\<lambda>r st' _. st' = st \<and> (if owns_candidate st owner then candidate st = Some r
         else forwarding st = Some r))"
    unfolding unwrap_def
    by (intro tracks_if tracks_of_result)
      (use st in \<open>auto simp: owns_candidate_iff dest: same_owner_Inl\<close>)
  show ?thesis
    unfolding forward_authorize_def
    apply (rule tracks_administrator [OF st], rule tracks_check, rule tracks_get_at)
     apply (rule tracks_result, rule tracks_if, rule tracks_reject, use st in simp)
      apply (rule tracks_bind [OF borrow], rule tracks_given)
      apply (intro tracks_result tracks_if tracks_reject tracks_persist_or_fence)
         apply (use st new in \<open>auto split: if_splits\<close>)
    done
qed

section \<open>Commit\<close>

lemma settles_commit:
  assumes st: "settles now c st0 st" and fwd: "forwarding st = Some f" and cand: "candidate st = Some k"
    and live: "owner_is_live (fwd_owner k) now"
  shows "settles now c st0 (st\<lparr>candidate := Some (k\<lparr>fwd_phase := FwPreparing\<rparr>)\<rparr>)"
    and "settles now c st0 (st\<lparr>forwarding := Some (k\<lparr>fwd_phase := FwActive\<rparr>), candidate := None\<rparr>)"
proof -
  have inv: "infra_inv st" using st by (rule settles_inv)
  note wf = inv_candidate [OF inv cand, unfolded candidate_wf_def fwd]
  show "settles now c st0 (st\<lparr>candidate := Some (k\<lparr>fwd_phase := FwPreparing\<rparr>)\<rparr>)"
  proof (rule settles_step [OF st])
    show "evolves now st (st\<lparr>candidate := Some (k\<lparr>fwd_phase := FwPreparing\<rparr>)\<rparr>)"
      using evolves_candidate [OF inv, of "Some (k\<lparr>fwd_phase := FwPreparing\<rparr>)"
          "last_fencing_token st"] wf fwd by (auto simp: candidate_wf_def)
  qed (use st in \<open>auto simp: settles_def\<close>)
  show "settles now c st0 (st\<lparr>forwarding := Some (k\<lparr>fwd_phase := FwActive\<rparr>), candidate := None\<rparr>)"
    by (rule settles_step [OF st evolves_records [OF inv fwd]])
      (use wf live st in \<open>auto simp: settles_def\<close>)
qed

lemma tracks_roll_back_commit:
  assumes "settles now c st0 st" and "forwarding st = Some previous" and "e \<noteq> Panicked"
  shows "tracks now c st0 (at_state st) (roll_back_commit W previous cand now e) Q"
  unfolding roll_back_commit_def
  apply (rule tracks_bind [where R = "\<lambda>_ st' _. settles now c st0 st'"])
   apply (rule tracks_attempt [OF tracks_rollback [OF assms(1,2)]], simp)
  apply (auto split: sum.split intro!: tracks_throw)
  apply (use assms(3) in simp)
  done

text \<open>Actions that leave the state alone on both outcomes.\<close>

definition steady :: "('d, 'f, 'b, 'j, 'a) infra_action \<Rightarrow> bool" where
  "steady m \<longleftrightarrow> (\<forall>s r s'. m s = (r, s') \<longrightarrow> svc_state s' = svc_state s)"

lemma steady_rules:
  "steady (net_as wrap m)"
  "steady m1 \<Longrightarrow> steady m2 \<Longrightarrow> steady (andthen m1 m2)"
  "steady m1 \<Longrightarrow> steady (when_true b m1)"
  "(b \<Longrightarrow> steady m1) \<Longrightarrow> (\<not> b \<Longrightarrow> steady m2) \<Longrightarrow> steady (if b then m1 else m2)"
  by (fastforce simp: steady_def net_as_def andthen_eq when_true_def return_def split: prod.splits)+

lemma steady_install: "steady (install_replacement W previous cand changes)"
  unfolding install_replacement_def Let_def by (intro steady_rules)

lemma tracks_attempt_at:
  assumes m: "tracks now c st0 (at_state st) m (\<lambda>_. at_state st)" and "steady m"
    and ok: "\<And>x. tracks now c st0 (at_state st) (f (Inr x)) Q"
    and err: "\<And>e. e \<noteq> Panicked \<Longrightarrow> tracks now c st0 (at_state st) (f (Inl e)) Q"
  shows "tracks now c st0 (at_state st) (bind (attempt m) f) Q"
proof (rule tracks_bind)
  show "tracks now c st0 (at_state st) (attempt m) (\<lambda>r st' _. st' = st \<and> r \<noteq> Inl Panicked)"
    unfolding tracks_def
  proof (rule hoareI)
    fix s r s' assume *: "svc_state s = st" "attempt m s = (Inr r, s')"
    then have eq: "m s = (r, s')" by (simp add: attempt_def split: prod.splits)
    then show "svc_state s' = st \<and> r \<noteq> Inl Panicked"
      using hoare_Inl [OF m [unfolded tracks_def], of s] \<open>steady m\<close> *(1)
      by (cases r) (auto simp: steady_def)
  qed (auto simp: attempt_def split: prod.splits)
  show "tracks now c st0 (\<lambda>st' _. st' = st \<and> r \<noteq> Inl Panicked) (f r) Q" for r
    by (rule tracks_given) (use ok err in \<open>cases r; auto\<close>)
qed

lemma tracks_commit_candidate:
  assumes st: "settles now False st0 st" and cand: "candidate st = Some k"
    and live: "owner_is_live (fwd_owner k) now"
  shows "tracks now False st0 (at_state st) (commit_candidate W now st k) (settled now False st0)"
proof -
  obtain f where fwd: "forwarding st = Some f"
    using candidate_forwarding [OF settles_inv [OF st] cand] by blast
  note new = settles_commit [OF st fwd cand live]
  let ?k = "k\<lparr>fwd_phase := FwPreparing\<rparr>"
  let ?next = "st\<lparr>candidate := Some ?k\<rparr>"
  let ?committed = "?next\<lparr>forwarding := Some (?k\<lparr>fwd_phase := FwActive\<rparr>), candidate := None\<rparr>"
  have committed: "settles now False st0 ?committed" using new(2) by (cases st) simp
  have replace: "tracks now False st0 (at_state ?next)
      (bind (attempt (install_replacement W f ?k (infra_sysctls ?next))) (\<lambda>result.
         case result of
           Inl e \<Rightarrow> roll_back_commit W f ?k now e
         | Inr _ \<Rightarrow>
             bind (attempt (persist W ?committed)) (\<lambda>result.
             case result of
               Inl e \<Rightarrow> roll_back_commit W f (?k\<lparr>fwd_phase := FwActive\<rparr>) now e
             | Inr _ \<Rightarrow> ack)))
      (settled now False st0)"
    apply (rule tracks_attempt_at [OF tracks_install steady_install])
      apply (use new(1) in simp)
     apply (simp only: sum.case)
     apply (rule tracks_attempt_persist [where R = "at_state ?committed"])
        apply (use new(1) committed fwd in
        \<open>auto intro!: tracks_return tracks_roll_back_commit\<close>)
    done
  show ?thesis
    unfolding commit_candidate_def Let_def
    apply (rule tracks_result)
     apply (rule tracks_andthen [where R = "at_state st"], rule tracks_steady_net [OF st], simp)
     apply (rule tracks_if)
      apply (rule tracks_andthen [where R = "\<lambda>st' _. settles now False st0 st'"])
       apply (rule tracks_persist)
        apply (use st committed in \<open>auto intro: tracks_return\<close>) [3]
     apply (rule tracks_andthen [where R = "at_state ?next"])
      apply (rule tracks_persist)
       apply (use st fwd replace in auto)
    done
qed

lemma tracks_commit_initial:
  assumes st: "settles now False st0 st" and live: "owner_is_live owner now"
  shows "tracks now False st0 (at_state st) (commit_initial W st owner) (settled now False st0)"
proof -
  have inv: "infra_inv st" using st by (rule settles_inv)
  have new: "settles now False st0 (st\<lparr>forwarding := Some (f\<lparr>fwd_phase := FwActive\<rparr>)\<rparr>)"
    if "forwarding st = Some f" "fwd_owner f = owner" "fwd_phase f = FwPrepared" for f
    by (rule settles_update [OF st evolves_forwarding [OF inv that(1)]])
      (use that live inv_forwarding [OF inv that(1)] inv_candidate(1) [OF inv] in
        \<open>auto simp: candidate_wf_def pending_wf_def split: option.splits\<close>)
  show ?thesis
    unfolding commit_initial_def
    apply (rule tracks_result)
     apply (intro tracks_if tracks_return tracks_reject)
       apply (use st in auto) [2]
     apply (rule tracks_attempt_net, simp)
      apply (simp only: sum.case, rule tracks_persist_or_fence [OF st])
      apply (use new in simp)
     apply (simp only: sum.case)
     apply (rule tracks_andthen [where R = "at_state st"], rule tracks_steady_net [OF st], simp)
     apply (rule tracks_throw)
      apply (use st in \<open>auto dest: same_owner_Inl\<close>)
    done
qed

lemma tracks_commit:
  assumes st: "settles now False st0 st"
  shows "tracks now False st0 (at_state st) (forward_commit W req now auth owner)
    (settled now False st0)"
  unfolding forward_commit_def
  by (intro tracks_administrator [OF st] tracks_check tracks_get_at tracks_result
      tracks_identity_then tracks_if tracks_reject tracks_unwrap tracks_commit_candidate
      tracks_commit_initial)
    (use st in \<open>auto simp: owns_candidate_iff\<close>)

lemma tracks_check_receipt:
  assumes st: "settles now c st0 st"
  shows "tracks now c st0 (at_state st) (check_receipt W req now owner receipt) (\<lambda>_. at_state st)"
  unfolding check_receipt_def Let_def
  by (intro tracks_administrator [OF st] tracks_get_at tracks_result tracks_if tracks_reject
      tracks_return) (use st in \<open>auto dest: error_facts\<close>)

section \<open>Guard, revoke and renew\<close>

lemma tracks_guard:
  assumes st: "settles now False st0 st" and pending: "\<And>f. forwarding st = Some f \<Longrightarrow> pending_policy f = None"
  shows "tracks now False st0 (at_state st) (forward_guard W req now owner) (settled now False st0)"
proof -
  have inv: "infra_inv st" using st by (rule settles_inv)
  have new: "settles now False st0 (st\<lparr>forwarding := Some (f\<lparr>fwd_phase := FwGuarded\<rparr>)\<rparr>)"
    if "forwarding st = Some f" "fwd_phase f = FwActive" for f
    by (rule settles_update [OF st evolves_forwarding [OF inv that(1)]])
      (use that pending inv_forwarding [OF inv that(1)] inv_candidate(1) [OF inv] in
        \<open>auto simp: candidate_wf_def split: option.splits\<close>)
  show ?thesis
    unfolding forward_guard_def
    apply (rule tracks_administrator [OF st], rule tracks_check, rule tracks_get_at)
     apply (rule tracks_result)
      apply (intro tracks_if tracks_return tracks_reject)
        apply (use st in auto) [2]
      apply (rule tracks_andthen [where R = "\<lambda>st' _. settles now False st0 st'"], rule tracks_persist)
        apply (use st new in auto) [2]
      apply (rule tracks_andthen [where R = "\<lambda>st' _. settles now False st0 st'"])
       apply (rule tracks_net)
        apply (use st in \<open>auto intro: tracks_return dest: same_owner_Inl\<close>)
    done
qed

lemma tracks_revoke_candidate:
  assumes st: "settles now False st0 st" and cand: "candidate st = Some k"
  shows "tracks now False st0 (at_state st) (revoke_candidate W now st k) (settled now False st0)"
proof -
  obtain f where "forwarding st = Some f"
    using candidate_forwarding [OF settles_inv [OF st] cand] by blast
  moreover have "settles now False st0 (st\<lparr>candidate := None\<rparr>)"
    by (rule settles_update [OF st evolves_drop_candidate [OF settles_inv [OF st]]])
  ultimately show ?thesis
    unfolding revoke_candidate_def
    by (intro tracks_andthen [where R = "\<lambda>st' _. settles now False st0 st'"] tracks_if tracks_unwrap
        tracks_rollback tracks_persist tracks_return) (use st in auto)
qed

lemma tracks_revoke_forwarding:
  assumes st: "settles now False st0 st"
  shows "tracks now False st0 (at_state st) (revoke_forwarding W st owner) (settled now False st0)"
proof -
  have inv: "infra_inv st" using st by (rule settles_inv)
  have fence: "tracks now False st0 (at_state st)
      (andthen (when_true (pending_policy f \<noteq> None) (persist W kept))
       (andthen (fence_policy_intent W (cancel_pending f))
       (persist_or_fence W (kept\<lparr>forwarding := Some (revoke_record (cancel_pending f)),
          candidate := None\<rparr>)))) (settled now False st0)"
    if fwd: "forwarding st = Some f" and kept: "kept = st\<lparr>forwarding := Some (cancel_pending f)\<rparr>"
    for f kept
  proof -
    have cancel: "settles now False st0 kept"
      unfolding kept by (rule settles_update [OF st evolves_cancel_pending [OF inv fwd]])
    have revoked: "settles now False st0 (kept\<lparr>forwarding := Some (revoke_record (cancel_pending f)),
        candidate := None\<rparr>)"
      by (rule settles_update [OF cancel evolves_revoke_record(2)])
        (use cancel kept in \<open>auto dest: settles_inv\<close>)
    show ?thesis
      apply (rule tracks_andthen [where R = "\<lambda>st' _. settles now False st0 st'"])
       apply (rule tracks_when, rule tracks_persist)
         apply (use st cancel in auto) [3]
      apply (rule tracks_each_settled)
      apply (rule tracks_andthen, rule tracks_fence, simp)
      apply (rule tracks_persist_or_fence [OF _ revoked], assumption)
      done
  qed
  show ?thesis
    unfolding revoke_forwarding_def Let_def
    apply (rule tracks_result, rule fence)
      apply (use st in \<open>auto dest: same_owner_Inl\<close>)
    done
qed

lemma tracks_revoke:
  assumes st: "settles now False st0 st"
  shows "tracks now False st0 (at_state st) (forward_revoke W req now owner) (settled now False st0)"
  unfolding forward_revoke_def
  by (intro tracks_administrator [OF st] tracks_get_at tracks_if tracks_unwrap
      tracks_revoke_candidate tracks_revoke_forwarding) (use st in \<open>auto simp: owns_candidate_iff\<close>)

lemma tracks_renew:
  assumes st: "settles now False st0 st" and valid: "is_ok (validate_forward_owner owner)"
  shows "tracks now False st0 (at_state st) (forward_lease_renew W req now owner)
    (settled now False st0)"
proof -
  have inv: "infra_inv st" using st by (rule settles_inv)
  have new: "settles now False st0 (st\<lparr>forwarding := Some (f\<lparr>fwd_owner := owner\<rparr>)\<rparr>)"
    if fwd: "forwarding st = Some f" and live: "owner_is_live owner now"
      and same: "domain_id (fwd_owner f) = domain_id owner"
        "signed_generation (fwd_owner f) = signed_generation owner"
        "worker_epoch (fwd_owner f) = worker_epoch owner"
        "fencing_token (fwd_owner f) = fencing_token owner" for f
  proof (rule settles_update [OF st evolves_forwarding [OF inv fwd]])
    show "record_wf (f\<lparr>fwd_owner := owner\<rparr>)"
      by (rule record_wf_renewed) (use inv_forwarding [OF inv fwd] valid same in auto)
    show "pending_wf (f\<lparr>fwd_owner := owner\<rparr>) p" if "pending_policy (f\<lparr>fwd_owner := owner\<rparr>) = Some p" for p
      using inv_forwarding(3) [OF inv fwd] that same
      by (auto simp: pending_wf_def effective_generation_def cong: option.case_cong)
  qed (use live same inv_forwarding [OF inv fwd] inv_candidate(1) [OF inv] fwd in
      \<open>auto simp: candidate_wf_def owner_le_def\<close>)
  show ?thesis
    unfolding forward_lease_renew_def Let_def
    by (intro tracks_administrator [OF st] tracks_check tracks_get_at tracks_result tracks_if
        tracks_reject tracks_persist_or_fence) (use st new in auto)
qed

section \<open>Failed prefixes and live policies\<close>

lemma record_wf_failures_now:
  assumes "record_wf r" and "is_ok (validate_failed_prefixes (fwd_declaration r) ps)"
    and "pending_failed_prefixes r = None"
  shows "record_wf (r\<lparr>failure_revision := v, fwd_failed_prefixes := ps\<rparr>)"
    and "record_wf (r\<lparr>failure_revision := v\<rparr>)"
  using assms remote_nonlocal
  by (auto simp: record_wf_def metadata_valid_def failure_intent_valid_def
      validate_failed_prefixes_iff cong: option.case_cong)

lemma settles_record:
  assumes st: "settles now False st0 st"
    and r: "(if cand then candidate st else forwarding st) = Some r"
    and new: "record_wf r'" "fwd_owner r' = fwd_owner r" "fwd_phase r' = fwd_phase r"
      "pending_policy r' = None"
    and pending: "cand \<Longrightarrow> pending_failed_prefixes r' = None"
  shows "settles now False st0
    (if cand then st\<lparr>candidate := Some r'\<rparr> else st\<lparr>forwarding := Some r'\<rparr>)"
proof -
  have inv: "infra_inv st" using st by (rule settles_inv)
  show ?thesis
  proof (cases cand)
    case True
    then have c: "candidate st = Some r" using r by simp
    have "evolves now st (st\<lparr>candidate := Some r'\<rparr>)"
      using evolves_candidate [OF inv, of "Some r'" "last_fencing_token st"]
        inv_candidate [OF inv c] new pending True
      by (auto simp: candidate_wf_def split: option.splits)
    then show ?thesis using True settles_update [OF st] by simp
  next
    case False
    then have f: "forwarding st = Some r" using r by simp
    have "evolves now st (st\<lparr>forwarding := Some r'\<rparr>)"
      by (rule evolves_forwarding [OF inv f])
        (use new inv_forwarding [OF inv f] inv_candidate(1) [OF inv] f in
          \<open>auto simp: candidate_wf_def split: option.splits\<close>)
    then show ?thesis using False settles_update [OF st] by simp
  qed
qed

lemma tracks_failed_prefixes_of:
  assumes st: "settles now False st0 st"
    and r: "(if cand then candidate st else forwarding st) = Some r"
    and ps: "is_ok (validate_failed_prefixes (fwd_declaration r) ps)"
    and idle: "pending_policy r = None"
  shows "tracks now False st0 (at_state st) (failed_prefixes_of W st cand r v ps)
    (settled now False st0)"
proof -
  have inv: "infra_inv st" using st by (rule settles_inv)
  have wf: "record_wf r"
    using r inv_forwarding(1) [OF inv] inv_candidate(3) [OF inv] by (auto split: if_splits)
  have fwd: "\<not> cand" if "fwd_phase r = FwActive"
    using that r inv_candidate(1) [OF inv] by (auto simp: candidate_wf_def split: if_splits)
  note put = settles_record [OF st r]
  have now1: "settles now False st0
      (if cand then st\<lparr>candidate := Some (r\<lparr>failure_revision := v, fwd_failed_prefixes := ps\<rparr>)\<rparr>
       else st\<lparr>forwarding := Some (r\<lparr>failure_revision := v, fwd_failed_prefixes := ps\<rparr>)\<rparr>)"
    and now2: "settles now False st0
      (if cand then st\<lparr>candidate := Some (r\<lparr>failure_revision := v\<rparr>)\<rparr>
       else st\<lparr>forwarding := Some (r\<lparr>failure_revision := v\<rparr>)\<rparr>)"
    if "pending_failed_prefixes r = None"
    by (rule put; use record_wf_failures_now [OF wf ps that] idle that in simp)+
  let ?next = "if cand then st\<lparr>candidate := Some (r\<lparr>pending_failed_prefixes := Some ps,
        pending_failure_revision := Some v\<rparr>)\<rparr>
      else st\<lparr>forwarding := Some (r\<lparr>pending_failed_prefixes := Some ps,
        pending_failure_revision := Some v\<rparr>)\<rparr>"
  have intent: "settles now False st0 ?next"
    if "failure_revision r < v" "fwd_phase r = FwActive"
    by (rule put) (use record_wf_pending_failures [OF wf ps that(1)] idle fwd [OF that(2)] in simp_all)
  have finish: "tracks now False st0 (at_state ?next)
      (bind (unwrap (forwarding ?next)) (\<lambda>fwd.
         andthen (persist W (?next\<lparr>forwarding := Some (fwd\<lparr>fwd_failed_prefixes := ps,
            failure_revision := v, pending_failed_prefixes := None,
            pending_failure_revision := None\<rparr>)\<rparr>)) ack)) (settled now False st0)"
    if *: "failure_revision r < v" "fwd_phase r = FwActive"
  proof -
    have nc: "\<not> cand" by (rule fwd [OF *(2)])
    have "settles now False st0 (?next\<lparr>forwarding := Some (x\<lparr>fwd_failed_prefixes := ps,
            failure_revision := v, pending_failed_prefixes := None,
            pending_failure_revision := None\<rparr>)\<rparr>)" if "forwarding ?next = Some x" for x
      by (rule settles_update [OF intent [OF *] evolves_failures])
        (use settles_inv [OF intent [OF *]] that nc ps idle in auto)
    then show ?thesis
      by (intro tracks_unwrap tracks_andthen [where R = "\<lambda>st' _. settles now False st0 st'"]
          tracks_persist tracks_return)
        (use intent [OF *] nc in auto)
  qed
  show ?thesis
    unfolding failed_prefixes_of_def Let_def
    apply (intro tracks_if tracks_reject tracks_return)
         apply (use st in auto) [3]
      apply (rule tracks_andthen [where R = "\<lambda>st' _. settles now False st0 st'"], rule tracks_persist)
        apply (use st now1 in \<open>auto intro: tracks_return\<close>) [3]
     apply (use st in simp)
    apply (rule tracks_andthen [where R = "\<lambda>st' _. settles now False st0 st'"], rule tracks_persist)
      apply (use st now2 in \<open>auto intro: tracks_return\<close>) [3]
    apply (rule tracks_andthen [where R = "at_state ?next"], rule tracks_persist)
      apply (use st in auto) [2]
    apply (rule tracks_andthen [where R = "at_state ?next"], rule tracks_steady_net)
      apply (rule intent; (auto simp: failure_intent_valid_def split: option.splits; fail)?)
      prefer 3
      apply (rule finish)
       apply (use wf in \<open>auto simp: record_wf_def failure_intent_valid_def split: option.splits\<close>)
    done
qed

lemma tracks_failed_prefixes:
  assumes st: "settles now False st0 st" and idle: "\<And>f. forwarding st = Some f \<Longrightarrow> pending_policy f = None"
  shows "tracks now False st0 (at_state st) (forward_failed_prefixes W req now owner v ps)
    (settled now False st0)"
proof -
  have inv: "infra_inv st" using st by (rule settles_inv)
  have quiet: "pending_policy r = None"
    if "(if owns_candidate st owner then candidate st else forwarding st) = Some r" for r
    using that idle inv_candidate(1) [OF inv] by (auto simp: candidate_wf_def split: if_splits)
  have sorted: "is_ok (validate_failed_prefixes d (sort ps))"
    if "validate_failed_prefixes d ps = Inr u" for d u
    using that validate_failed_prefixes_iff [of d ps] by (simp add: validate_failed_prefixes_iff)
  have error: "e \<noteq> Panicked" if "validate_failed_prefixes d ps = Inl e" for d e
  proof -
    have "check_failed_prefixes A U qs = Inl e \<Longrightarrow> e \<noteq> Panicked" for A U qs
      by (induction qs arbitrary: U) (auto split: if_splits)
    then show ?thesis using that by (simp add: validate_failed_prefixes_def)
  qed
  show ?thesis
    unfolding forward_failed_prefixes_def
    apply (rule tracks_administrator [OF st], rule tracks_check, rule tracks_get_at)
     apply (rule tracks_result, rule tracks_identity_then [OF st], rule tracks_result)
       apply (rule tracks_check, rule tracks_failed_prefixes_of [OF st])
          apply (use st in \<open>auto intro: sorted quiet dest: error same_owner_Inl\<close>)
    done
qed

lemma validate_live_policy_identity_error:
  "validate_live_policy_identity a b = Inl e \<Longrightarrow> e \<noteq> Panicked"
  by (auto simp: validate_live_policy_identity_def split: if_splits)

lemma settles_policy:
  assumes st: "settles now False st0 st" and fwd: "forwarding st = Some f" and "candidate st = None"
    and phase: "fwd_phase f = FwActive" and idle: "pending_failed_prefixes f = None" "pending_policy f = None"
    and fresh: "\<not> stale_policy f v gen hash d" "v \<noteq> policy_revision f" and hash: "is_hex hash 64"
  shows "settles now False st0 (st\<lparr>forwarding := Some (f\<lparr>policy_revision := v,
      policy_generation := Some gen, policy_hash := Some hash\<rparr>)\<rparr>)"
    and "is_ok (validate_declaration d) \<Longrightarrow> is_ok (validate_live_policy_identity (fwd_declaration f) d) \<Longrightarrow>
      settles now False st0 (st\<lparr>forwarding := Some (f\<lparr>pending_policy :=
        Some \<lparr>cancelled = False, pending_revision = v, pending_generation = gen,
          pending_hash = hash, pending_declaration = d\<rparr>\<rparr>)\<rparr>)"
proof -
  have inv: "infra_inv st" using st by (rule settles_inv)
  have wf: "record_wf f" by (rule inv_forwarding(1) [OF inv fwd])
  have v: "policy_revision f < v" "effective_generation f \<le> gen"
    using fresh by (auto simp: stale_policy_def)
  have gen: "signed_generation (fwd_owner f) \<le> gen"
    using v(2) wf
    by (auto simp: effective_generation_def record_wf_def metadata_valid_def split: option.splits)
  have "record_wf (f\<lparr>policy_revision := v, policy_generation := Some gen, policy_hash := Some hash\<rparr>)"
    using wf v(1) gen hash
    by (auto simp: record_wf_def metadata_valid_def failure_intent_valid_def valid_policy_hash_def
        intro: le_less_trans cong: option.case_cong)
  then show "settles now False st0 (st\<lparr>forwarding := Some (f\<lparr>policy_revision := v,
      policy_generation := Some gen, policy_hash := Some hash\<rparr>)\<rparr>)"
    by (intro settles_update [OF st evolves_forwarding [OF inv fwd]])
      (use assms inv_forwarding [OF inv fwd] in auto)
  show "settles now False st0 (st\<lparr>forwarding := Some (f\<lparr>pending_policy :=
        Some \<lparr>cancelled = False, pending_revision = v, pending_generation = gen,
          pending_hash = hash, pending_declaration = d\<rparr>\<rparr>)\<rparr>)"
    if "is_ok (validate_declaration d)" "is_ok (validate_live_policy_identity (fwd_declaration f) d)"
    by (intro settles_update [OF st evolves_forwarding [OF inv fwd]])
      (use assms that v inv_forwarding [OF inv fwd] in
        \<open>auto simp: pending_wf_def valid_policy_hash_def\<close>)
qed

lemma tracks_policy_update_of:
  assumes st: "settles now False st0 st" and fwd: "forwarding st = Some f" and "candidate st = None"
    and "fwd_phase f = FwActive" "pending_failed_prefixes f = None" "pending_policy f = None"
    and hash: "is_hex hash 64"
    and d: "is_ok (validate_declaration d)" "is_ok (validate_live_policy_identity (fwd_declaration f) d)"
  shows "tracks now False st0 (at_state st) (policy_update_of W now st f v gen hash d)
    (settled now False st0)"
proof -
  note new = settles_policy(1) [OF assms(1-6) _ _ hash] settles_policy(2) [OF assms(1-6) _ _ hash d]
  show ?thesis
    unfolding policy_update_of_def
    apply (intro tracks_if tracks_reject tracks_return)
       apply (use st in auto) [2]
     apply (rule tracks_andthen [where R = "\<lambda>st' _. settles now False st0 st'"], rule tracks_persist)
       apply (use st new(1) in \<open>auto intro: tracks_return\<close>) [3]
    apply (rule tracks_andthen [where R = "at_state st"], rule tracks_steady_net [OF st], simp)
    apply (rule tracks_andthen [where R = "\<lambda>st' _. settles now False st0 st'"], rule tracks_persist)
      apply (use st new(2) in auto) [2]
    apply (rule tracks_andthen [where R = "\<lambda>st' _. settles now False st0 st'"])
     apply (rule tracks_each_settled, erule tracks_reconcile)
    apply (auto intro: tracks_return)
    done
qed

lemma tracks_policy_update:
  assumes st: "settles now False st0 st" and hash: "is_hex hash 64" and d: "is_ok (validate_declaration d)"
  shows "tracks now False st0 (at_state st) (forward_policy_update W req now owner v gen hash d)
    (settled now False st0)"
  unfolding forward_policy_update_def
  by (intro tracks_administrator [OF st] tracks_check tracks_get_at tracks_result
      tracks_identity_then tracks_if tracks_reject tracks_policy_update_of)
    (use st hash d in \<open>auto dest: same_owner_Inl validate_live_policy_identity_error\<close>)

section \<open>Process\<close>

text \<open>What a request leaves behind: an evolved state, or nothing after a retirement.\<close>

definition outcome :: "u64 \<Rightarrow> infra_operation \<Rightarrow> infra_state \<Rightarrow> infra_state \<Rightarrow> bool" where
  "outcome now op st st' \<longleftrightarrow>
     evolves now st st' \<or> (\<exists>infra gen. op = InfraRetire infra gen) \<and> st' = default_state"

lemma tracks_outcome:
  assumes "tracks now False st0 P m (settled now False st0)"
  shows "tracks now False st0 P m (\<lambda>_ st' _. outcome now op st0 st')"
  by (rule tracks_post [OF assms]) (simp add: outcome_def settles_def)

lemma outcome_steady: "settles now c st0 st \<Longrightarrow> outcome now op st0 st"
  by (simp add: outcome_def settles_def)

lemma tracks_dispatch:
  assumes st: "settles now True st0 st" and valid: "validate_infra_operation op = Inr ()"
    and op: "op \<noteq> Capabilities" "\<And>o' r. op \<noteq> ForwardCommitAuthorized o' r"
    and idle: "\<And>f. forwarding st = Some f \<Longrightarrow> blocked_by_policy_repair op \<Longrightarrow> pending_policy f = None"
  shows "tracks now False st0 (at_state st) (infra_dispatch W req now op auth)
    (\<lambda>_ st' _. outcome now op st0 st')"
proof -
  have st': "settles now False st0 st" and ready: "\<not> creation_pending st"
    using st by (simp_all add: settles_def)
  have is_ok: "r = Inr () \<Longrightarrow> is_ok r" for r :: "netd_protocol_error + unit"
    by simp
  show ?thesis
  proof (cases op)
    case (InfraRetire infra gen)
    then show ?thesis
      by (simp add: outcome_def) (rule tracks_post [OF tracks_retire [OF st']], simp)
  next
    case (ForwardPrepare infra gen owner d)
    show ?thesis
      by (rule tracks_outcome) (use ForwardPrepare valid idle in
        \<open>auto intro!: tracks_prepare [OF st'] is_ok simp: rbind_eq_Inr split: if_splits\<close>)
  next
    case (ForwardPolicyUpdate owner v gen hash d)
    show ?thesis
      by (rule tracks_outcome) (use ForwardPolicyUpdate valid in
        \<open>auto intro!: tracks_policy_update [OF st'] is_ok simp: rbind_eq_Inr split: if_splits\<close>)
  qed (use op valid idle in \<open>auto intro!: tracks_outcome tracks_ensure tracks_acquire tracks_release
      tracks_authorize tracks_commit tracks_guard tracks_revoke tracks_renew tracks_failed_prefixes
      tracks_get_at tracks_return tracks_reject st' ready is_ok outcome_steady [OF st]
      split: if_splits\<close>)
qed

lemma tracks_repairs:
  assumes st: "settles now c st0 st"
  shows "tracks now c st0 (at_state st) (check_repairs op) (\<lambda>_ st' _. st' = st \<and>
    (\<forall>f. forwarding st = Some f \<longrightarrow> blocked_by_policy_repair op \<longrightarrow> pending_policy f = None))"
  unfolding check_repairs_def
  by (intro tracks_get_at tracks_option tracks_if tracks_reject tracks_return) (use st in auto)

lemma tracks_normalize:
  assumes st: "settles now c st0 st"
  shows "tracks now c st0 (at_state st) (normalize_operation W req now op) (\<lambda>(op', auth) st' _. st' = st
    \<and> (\<forall>o' r. op' \<noteq> ForwardCommitAuthorized o' r) \<and> (op \<noteq> Capabilities \<longrightarrow> op' \<noteq> Capabilities)
    \<and> (validate_infra_operation op = Inr () \<longrightarrow> validate_infra_operation op' = Inr ())
    \<and> ((\<exists>i g. op' = InfraRetire i g) \<longrightarrow> op' = op))"
proof (cases op)
  case (ForwardCommitAuthorized owner receipt)
  show ?thesis
    unfolding ForwardCommitAuthorized normalize_operation.simps
    by (rule tracks_andthen [OF tracks_check_receipt [OF st]])
      (auto intro!: tracks_return simp: rbind_eq_Inr)
qed (auto intro!: tracks_return)

lemma tracks_from:
  assumes "tracks now False st1 P m Q" and "evolves now st0 st1"
  shows "tracks now False st0 P m Q"
  using assms unfolding tracks_def settles_def by (auto elim!: hoare_weaken intro: evolves_trans)

lemma outcome_trans:
  "evolves now st0 st1 \<Longrightarrow> outcome now op st1 st2 \<Longrightarrow> outcome now op st0 st2"
  by (auto simp: outcome_def intro: evolves_trans)

lemma outcome_lives: "outcome now op st st' \<Longrightarrow> lives now st \<Longrightarrow> lives now st'"
  by (auto simp: outcome_def evolves_def lives_def default_state_def)

lemma tracks_handle:
  assumes valid: "validate_infra_operation (infra_operation req) = Inr ()"
    and op: "infra_operation req \<noteq> Capabilities" and st: "settles now True st st" "lives now st"
  shows "tracks now False st (at_state st)
      (bind (normalize_operation W req now (infra_operation req)) (\<lambda>(op, authenticated).
         andthen (check_repairs op) (infra_dispatch W req now op authenticated)))
    (\<lambda>_ st' _. outcome now (infra_operation req) st st' \<and> lives now st')"
proof -
  have st': "settles now False st st" using st by (simp add: settles_def)
  have "tracks now False st (at_state st)
      (andthen (check_repairs op') (infra_dispatch W req now op' auth))
      (\<lambda>_ st' _. outcome now (infra_operation req) st st' \<and> lives now st')"
    if op': "\<forall>o' r. op' \<noteq> ForwardCommitAuthorized o' r" "op' \<noteq> Capabilities"
      "validate_infra_operation op' = Inr ()" "(\<exists>i g. op' = InfraRetire i g) \<longrightarrow> op' = infra_operation req"
    for op' auth
  proof (rule tracks_andthen [OF tracks_repairs [OF st']], rule tracks_given)
    assume idle: "\<forall>f. forwarding st = Some f \<longrightarrow> blocked_by_policy_repair op' \<longrightarrow> pending_policy f = None"
    show "tracks now False st (at_state st) (infra_dispatch W req now op' auth)
      (\<lambda>_ st' _. outcome now (infra_operation req) st st' \<and> lives now st')"
    proof (rule tracks_post [OF tracks_dispatch [OF st(1) op'(3,2)]])
      fix x st2 l assume out: "outcome now op' st st2"
      then show "outcome now (infra_operation req) st st2 \<and> lives now st2"
        using op'(4) outcome_lives [OF out st(2)] by (auto simp: outcome_def)
    qed (use op' idle in auto)
  qed
  then show ?thesis
    by (intro tracks_bind [OF tracks_normalize [OF st']])
      (use valid op in \<open>auto intro!: tracks_given split: prod.split\<close>)
qed

lemma tracks_process:
  assumes inv: "infra_inv st"
  shows "tracks now False st (at_state st) (infra_process W req peer now)
    (\<lambda>_ st' _. outcome now (infra_operation req) st st'
       \<and> (infra_operation req \<noteq> Capabilities \<longrightarrow> lives now st'))"
proof -
  have st: "settles now False st st" using inv by (simp add: settles_def evolves_refl)
  have body: "tracks now False st (at_state st)
      (andthen (recover_expired W now)
        (bind (normalize_operation W req now (infra_operation req)) (\<lambda>(op, authenticated).
         andthen (check_repairs op) (infra_dispatch W req now op authenticated))))
      (\<lambda>_ st' _. outcome now (infra_operation req) st st' \<and> lives now st')"
    if valid: "validate_infra_operation (infra_operation req) = Inr ()"
      and op: "infra_operation req \<noteq> Capabilities"
  proof (rule tracks_andthen [OF tracks_recover_expired [OF st]], rule tracks_each)
    fix st1 assume st1: "settles now True st st1 \<and> lives now st1"
    then have ev: "evolves now st st1" and "settles now True st1 st1"
      by (auto simp: settles_def intro: evolves_refl evolves_inv)
    then have "tracks now False st1 (at_state st1)
        (bind (normalize_operation W req now (infra_operation req)) (\<lambda>(op, authenticated).
         andthen (check_repairs op) (infra_dispatch W req now op authenticated)))
        (\<lambda>_ st' _. outcome now (infra_operation req) st1 st' \<and> lives now st')"
      using tracks_handle [OF valid op] st1 by blast
    then show "tracks now False st (at_state st1)
        (bind (normalize_operation W req now (infra_operation req)) (\<lambda>(op, authenticated).
         andthen (check_repairs op) (infra_dispatch W req now op authenticated)))
        (\<lambda>_ st' _. outcome now (infra_operation req) st st' \<and> lives now st')"
      by (rule tracks_post [OF tracks_from [OF _ ev]]) (use ev in \<open>auto intro: outcome_trans\<close>)
  qed
  show ?thesis
    unfolding infra_process_def
    apply (rule tracks_check)
     apply (rule tracks_gets)
     apply (intro tracks_if tracks_reject tracks_return)
       apply (use st in \<open>auto simp: outcome_steady map_err_def split: sum.splits\<close>) [2]
     apply (rule tracks_post [OF body])
       apply (use st in \<open>auto simp: validate_infra_request_def map_err_def split: if_splits sum.splits\<close>)
    done
qed

end
