(* ===== verification/Netd_Infra_Samples.thy ===== *)
theory Netd_Infra_Samples
  imports Netd_Infra_Service
begin

text \<open>
  A concrete host for the infrastructure service, on which the witnesses of its properties run: a
  kernel that remembers one interface and its alias and accepts every other change, a TUN factory
  that numbers its descriptors, and a journal that always stores.
\<close>

type_synonym sample_net = "u32 option \<times> string option"

definition accept :: "('s, unit) net_action" where
  "accept = return ()"

definition sample_infra_net :: "sample_net infra_backend_ops" where
  "sample_infra_net =
     \<lparr>preflight = \<lambda>_. return [], prepare_link = \<lambda>_. accept, prepare_routes = \<lambda>_. accept,
      reconcile_routes = \<lambda>_ _. accept, prepare_firewall = \<lambda>_. accept, replace_firewall = \<lambda>_ _. accept,
      prepare_sysctls = \<lambda>_ _. accept, activate_link = \<lambda>_. accept, update_link_mtu = \<lambda>_ _. accept,
      install_policy_rule = \<lambda>_. accept, remove_policy_rule = \<lambda>_. accept,
      deactivate_link = \<lambda>_. accept, remove_firewall = \<lambda>_. accept, remove_routes = \<lambda>_. accept,
      backend_withdraw_prefixes = \<lambda>_ _. accept, remove_link = \<lambda>_. accept,
      restore_sysctls = \<lambda>_ _. accept,
      update_live_policy = \<lambda>_ _ _. accept, discard_live_policy = \<lambda>_ _. accept,
      interface_identity = gets fst, interface_ownership_marker = gets snd,
      stamp_infrastructure_ownership = \<lambda>marker. modify (\<lambda>_. (Some 9, Some marker)),
      ensure_infrastructure = \<lambda>_. return 9, retire_infrastructure = modify (\<lambda>_. (None, None)),
      reject_forwarding = \<lambda>_. accept, guard_forwarding = \<lambda>_. accept,
      restore_forwarding = \<lambda>_. accept, restore_forwarding_with_failures = \<lambda>_ _. accept,
      update_failed_forward_prefixes = \<lambda>_ _ _. accept,
      validate_forwarding_replacement = \<lambda>_ _. accept, retire_forwarding = \<lambda>_. accept,
      remove_stale_forwarding = \<lambda>_ _. accept\<rparr>"

definition sample_factory :: "(nat, nat) tun_factory_ops" where
  "sample_factory =
     \<lparr>create_exclusive = (\<lambda>n. (Inr n, Suc n)), enable_persistence = \<lambda>_. return (),
      create_persistent = (\<lambda>n. (Inr n, Suc n))\<rparr>"

definition sample_stat :: string where
  "sample_stat =
     ''31 (tun io) S 1 1 1 0 -1 4194560 1 0 0 0 0 0 0 0 20 0 1 0 999 5 6''"

definition sample_os :: "nat infra_platform" where
  "sample_os =
     \<lparr>boot_id_file = Some ''b007'', random_nonce = Some (replicate 16 1),
      proc_stat = (\<lambda>p. if p = 31 then Inr sample_stat else Inl NotFound),
      kill_probe = (\<lambda>_. 0), netns = Some (4, 100), dup_fd = Some,
      declaration_json = (\<lambda>_. Some []), digest = (\<lambda>_. 0)\<rparr>"

definition sample_journal :: "unit infra_journal_ops" where
  "sample_journal = \<lparr>infra_load = return default_state, infra_store = \<lambda>_. return ()\<rparr>"

definition sample_world :: "(nat, nat, sample_net, unit) infra_world" where
  "sample_world = \<lparr>os = sample_os, tun_factory = sample_factory, net = sample_infra_net,
     state_journal = sample_journal\<rparr>"

definition sample_spec :: infra_spec where
  "sample_spec = \<lparr>infra_id = 7, infra_generation = 1, netns_device = 4, netns_inode = 100,
     spec_router_ipv4 = 0x0AFF0001, spec_mtu = 1380\<rparr>"

definition sample_forward_owner :: "u64 \<Rightarrow> forward_owner" where
  "sample_forward_owner token = \<lparr>domain_id = 5, signed_generation = token, worker_epoch = 1,
     fencing_token = token, auth_deadline_mono_ms = 9000, forward_lease_mono_ms = 8000\<rparr>"

definition infra_req :: "infra_operation \<Rightarrow> infra_request" where
  "infra_req op = \<lparr>infra_request_id = 1, caller_instance_id = 77, caller_pid = 31,
     infra_operation = op\<rparr>"

definition infra_peer :: peer_credentials where
  "infra_peer = \<lparr>peer_pid = 31, peer_uid = 0, peer_gid = 0\<rparr>"

definition fresh_infra :: "(nat, nat, sample_net, unit) infra_service" where
  "fresh_infra = \<lparr>infra_uid = 0, infra_gid = 0, factory = 3, infra_backend = (None, None),
     infra_journal = (), svc_state = default_state, lifecycle_fd = None,
     restart_recovery_pending = True\<rparr>"

definition sample_marker :: string where
  "sample_marker = ''candy-infra-v2:'' @ concat (replicate 16 ''01'')"

text \<open>The states after the infrastructure is ensured, forwarding is prepared, and committed.\<close>

definition ensured_state :: infra_state where
  "ensured_state = default_state\<lparr>boot_id := ''b007'', spec := Some sample_spec, ifindex := Some 9,
     ownership_marker := Some sample_marker, administrator := Some 77\<rparr>"

definition prepared_state :: infra_state where
  "prepared_state = ensured_state\<lparr>
     forwarding := Some (new_forward (sample_forward_owner 1) sample_declaration FwPrepared),
     last_fencing_token := 1\<rparr>"

definition active_state :: infra_state where
  "active_state = ensured_state\<lparr>
     forwarding := Some (new_forward (sample_forward_owner 1) sample_declaration FwActive),
     last_fencing_token := 1\<rparr>"

definition infra_with :: "infra_state \<Rightarrow> (nat, nat, sample_net, unit) infra_service" where
  "infra_with st = \<lparr>infra_uid = 0, infra_gid = 0, factory = 4, infra_backend = (Some 9, Some sample_marker),
     infra_journal = (), svc_state = st, lifecycle_fd = Some 3, restart_recovery_pending = False\<rparr>"

definition sample_prepare :: infra_operation where
  "sample_prepare = ForwardPrepare 7 1 (sample_forward_owner 1) sample_declaration"

lemma sample_world_simps [simp]:
  "os sample_world = sample_os" "tun_factory sample_world = sample_factory"
  "state_journal sample_world = sample_journal" "net sample_world = sample_infra_net"
  "netns sample_os = Some (4, 100)" "dup_fd sample_os = Some"
  "create_exclusive sample_factory n = (Inr n, Suc n)" "enable_persistence sample_factory fd = return ()"
  "create_persistent sample_factory n = (Inr n, Suc n)" "infra_store sample_journal st = return ()"
  by (simp_all add: sample_world_def sample_os_def sample_factory_def sample_journal_def)

lemma sample_net_simps [simp]:
  "interface_identity sample_infra_net = gets fst"
  "interface_ownership_marker sample_infra_net = gets snd"
  "stamp_infrastructure_ownership sample_infra_net marker = modify (\<lambda>_. (Some 9, Some marker))"
  "ensure_infrastructure sample_infra_net sp = return 9" "preflight sample_infra_net d = return []"
  "prepare_sysctls sample_infra_net d ch = return ()" "prepare_firewall sample_infra_net d = return ()"
  "remove_firewall sample_infra_net d = return ()" "reject_forwarding sample_infra_net d = return ()"
  "guard_forwarding sample_infra_net d = return ()"
  "restore_forwarding_with_failures sample_infra_net d ps = return ()"
  "validate_forwarding_replacement sample_infra_net d d' = return ()"
  "remove_stale_forwarding sample_infra_net d d' = return ()"
  "update_live_policy sample_infra_net d d' ps = return ()"
  "discard_live_policy sample_infra_net d d' = return ()"
  by (simp_all add: sample_infra_net_def accept_def)

lemma infra_req_simps [simp]:
  "infra_request_id (infra_req op) = 1" "caller_instance_id (infra_req op) = 77"
  "caller_pid (infra_req op) = 31" "infra_operation (infra_req op) = op"
  "infra_peer_authorized infra_peer (infra_req op) (infra_with st)"
  "infra_peer_authorized infra_peer (infra_req op) fresh_infra"
  by (simp_all add: infra_req_def infra_peer_def infra_peer_authorized_def infra_with_def fresh_infra_def)

lemmas recovery_defs = recover_expired_def complete_creation_def recover_candidate_def
  recover_cancelled_def recover_policy_def recover_prefixes_def recover_forwarding_def same_boot_if_def
  fence_policy_intent_def rollback_replacement_def

lemmas infra_action_defs = net_as_def on_factory_def reject_def unwrap_def set_lifecycle_def
  set_restart_recovery_def persist_def persist_or_fence_def check_administrator_def
  verify_device_ownership_def identity_def check_namespace_def obtain_device_def at_net_stage_def
  action_defs

lemma sample_boot [simp]: "current_boot_id sample_os = Inr ''b007''"
  by (simp add: current_boot_id_def sample_os_def trim_def is_space_def)

lemma sample_new_marker [simp]: "new_ownership_marker sample_os = Inr sample_marker"
  by code_simp

lemma sample_spec_valid [simp]: "validate_spec sample_spec = Inr ()"
  by code_simp

lemma sample_spec_simps [simp]:
  "infra_id sample_spec = 7" "infra_generation sample_spec = 1" "netns_device sample_spec = 4"
  "netns_inode sample_spec = 100" "spec_mtu sample_spec = effective_mtu sample_declaration"
  "spec_router_ipv4 sample_spec = overlay_router_ipv4 sample_declaration"
  by (simp_all add: sample_spec_def sample_declaration_def)

lemma fresh_recovers:
  "recover_expired sample_world now fresh_infra = (Inr False, fresh_infra\<lparr>restart_recovery_pending := False\<rparr>)"
  by (simp add: recovery_defs infra_action_defs fresh_infra_def default_state_def)

lemma ensure_runs:
  "infra_process sample_world (infra_req (InfraEnsure sample_spec)) infra_peer 100 fresh_infra
   = (Inr (InfraStatusBody (Some sample_spec) (Some 9) None, None), infra_with ensured_state)"
  by (simp add: infra_process_def validate_infra_request_def fresh_recovers infra_ensure_def
      complete_creation_def infra_action_defs check_repairs_def)
    (simp add: fresh_infra_def default_state_def infra_with_def ensured_state_def
      complete_creation_def infra_action_defs)

lemma sample_owner_live [simp]:
  "owner_is_live (sample_forward_owner n) 100" "validate_forward_owner (sample_forward_owner 1) = Inr ()"
  "fencing_token (sample_forward_owner n) = n"
  by (simp_all add: owner_is_live_def sample_forward_owner_def validate_forward_owner_def)

lemma sample_declaration_prefixes [simp]: "check_declaration_prefixes sample_declaration = Inr ()"
  by code_simp

lemma quiet_recovery:
  assumes "\<not> creation_pending st" "candidate st = None" "boot_id st = ''b007''"
    and "\<And>f. forwarding st = Some f \<Longrightarrow> pending_policy f = None \<and> pending_failed_prefixes f = None
      \<and> fwd_phase f \<noteq> FwGuarded \<and> owner_is_live (fwd_owner f) now"
  shows "recover_expired sample_world now (infra_with st) = (Inr False, infra_with st)"
  using assms
  by (cases "forwarding st")
    (auto simp: recovery_defs infra_action_defs infra_with_def split: option.splits)

lemma sample_states [simp]:
  "\<not> creation_pending ensured_state" "candidate ensured_state = None" "boot_id ensured_state = ''b007''"
  "forwarding ensured_state = None" "spec ensured_state = Some sample_spec"
  "ifindex ensured_state = Some 9" "ownership_marker ensured_state = Some sample_marker"
  "administrator ensured_state = Some 77" "io_owner ensured_state = None" "last_io_epoch ensured_state = 0"
  "infra_sysctls ensured_state = []" "last_fencing_token ensured_state = 0"
  by (simp_all add: ensured_state_def default_state_def)

lemma infra_with_simps [simp]:
  "svc_state (infra_with st) = st" "infra_backend (infra_with st) = (Some 9, Some sample_marker)"
  "infra_journal (infra_with st) = ()" "lifecycle_fd (infra_with st) = Some 3"
  "(infra_with st)\<lparr>infra_backend := (Some 9, Some sample_marker)\<rparr> = infra_with st"
  "(infra_with st)\<lparr>infra_journal := (), svc_state := st'\<rparr> = infra_with st'"
  by (simp_all add: infra_with_def)

lemma prepare_runs:
  "infra_process sample_world (infra_req sample_prepare) infra_peer 100 (infra_with ensured_state)
   = (Inr (Ack, None), infra_with prepared_state)"
proof -
  have "recover_expired sample_world 100 (infra_with ensured_state) = (Inr False, infra_with ensured_state)"
    by (rule quiet_recovery) simp_all
  then show ?thesis
    by (simp add: infra_process_def validate_infra_request_def sample_prepare_def check_repairs_def
        forward_prepare_def prepare_initial_def ensure_live_def Let_def infra_action_defs)
      (simp add: prepared_state_def ensured_state_def default_state_def)
qed

lemma commit_runs:
  "infra_process sample_world (infra_req (ForwardCommit (sample_forward_owner 1))) infra_peer 100
     (infra_with prepared_state) = (Inr (Ack, None), infra_with active_state)"
proof -
  have "recover_expired sample_world 100 (infra_with prepared_state) = (Inr False, infra_with prepared_state)"
    by (rule quiet_recovery) (simp_all add: prepared_state_def new_forward_def)
  then show ?thesis
    by (simp add: infra_process_def validate_infra_request_def check_repairs_def forward_commit_def
        commit_initial_def ensure_live_def record_of_owner_def owns_candidate_def same_owner_def
        infra_action_defs prepared_state_def new_forward_def)
      (simp add: active_state_def ensured_state_def default_state_def new_forward_def)
qed

lemma sample_identity: "linux_process_identity sample_os 31 = Inr (CHR ''S'', 999)"
  by (simp add: linux_process_identity_def sample_os_def sample_stat_def after_last_def is_space_def
      parse_u64_def is_digit_def digits_value_def)

lemma acquire_runs:
  "infra_process sample_world (infra_req (InfraAcquireIoFd 7 1 5)) infra_peer 100 (infra_with ensured_state)
   = (Inr (IoFdBody sample_spec 9 5, Some 3),
      infra_with (ensured_state\<lparr>io_owner := Some \<lparr>io_instance_id = 77, io_pid = 31, io_epoch = 5,
        io_boot_id = ''b007'', io_start_ticks = Some 999\<rparr>, last_io_epoch := 5\<rparr>))"
proof -
  have "recover_expired sample_world 100 (infra_with ensured_state) = (Inr False, infra_with ensured_state)"
    by (rule quiet_recovery) simp_all
  then show ?thesis
    by (simp add: infra_process_def validate_infra_request_def check_repairs_def infra_acquire_io_fd_def
        io_held_def process_start_ticks_def sample_identity infra_action_defs)
qed

text \<open>
  A second generation of the same tunnel without segment clamping, prepared beside the active one,
  and a host on which the firewall of a tunnel cannot be removed: a commit there fails, and undoing
  it fails too.
\<close>

definition second_declaration :: prepare_declaration where
  "second_declaration = sample_declaration\<lparr>firewall := (firewall sample_declaration)\<lparr>clamp_tcp_mss := False\<rparr>\<rparr>"

definition handoff_state :: infra_state where
  "handoff_state = active_state\<lparr>
     candidate := Some (new_forward (sample_forward_owner 2) second_declaration FwPrepared),
     last_fencing_token := 2\<rparr>"

definition interrupted_state :: infra_state where
  "interrupted_state = active_state\<lparr>
     candidate := Some (new_forward (sample_forward_owner 2) second_declaration FwPreparing),
     last_fencing_token := 2\<rparr>"

definition broken_world :: "(nat, nat, sample_net, unit) infra_world" where
  "broken_world = sample_world\<lparr>net := sample_infra_net\<lparr>remove_firewall := \<lambda>_. throw Journal\<rparr>\<rparr>"

lemma broken_world_simps [simp]:
  "os broken_world = sample_os" "tun_factory broken_world = sample_factory"
  "state_journal broken_world = sample_journal"
  "net broken_world = sample_infra_net\<lparr>remove_firewall := \<lambda>_. throw Journal\<rparr>"
  by (simp_all add: broken_world_def)

lemma firewall_irrelevant:
  "validate_declaration (d\<lparr>firewall := fw\<rparr>) = validate_declaration d"
  "check_declaration_prefixes (d\<lparr>firewall := fw\<rparr>) = check_declaration_prefixes d"
  by (simp_all add: validate_declaration_def check_declaration_prefixes_def)

lemma second_declaration_simps [simp]:
  "validate_declaration second_declaration = Inr ()" "check_declaration_prefixes second_declaration = Inr ()"
  "table_id second_declaration = table_id sample_declaration"
  "overlay_router_ipv4 second_declaration = overlay_router_ipv4 sample_declaration"
  "effective_mtu second_declaration = effective_mtu sample_declaration"
  "require_ipv4_forwarding (firewall second_declaration) = require_ipv4_forwarding (firewall sample_declaration)"
  "manage_rp_filter (firewall second_declaration) = manage_rp_filter (firewall sample_declaration)"
  "second_declaration \<noteq> sample_declaration"
  by (simp_all add: second_declaration_def firewall_irrelevant)
    (simp add: sample_declaration_def)

lemma second_owner_valid [simp]: "validate_forward_owner (sample_forward_owner 2) = Inr ()"
  by (simp add: sample_forward_owner_def validate_forward_owner_def)

lemma sample_forward_simps [simp]:
  "fwd_owner (new_forward owner d ph) = owner" "fwd_declaration (new_forward owner d ph) = d"
  "fwd_phase (new_forward owner d ph) = ph" "fwd_failed_prefixes (new_forward owner d ph) = []"
  "pending_policy (new_forward owner d ph) = None" "pending_failed_prefixes (new_forward owner d ph) = None"
  "authority (new_forward owner d ph) = None"
  "(new_forward owner d ph)\<lparr>fwd_phase := ph'\<rparr> = new_forward owner d ph'"
  by (simp_all add: new_forward_def)

lemma active_state_simps [simp]:
  "\<not> creation_pending active_state" "candidate active_state = None" "boot_id active_state = ''b007''"
  "forwarding active_state = Some (new_forward (sample_forward_owner 1) sample_declaration FwActive)"
  "spec active_state = Some sample_spec" "ifindex active_state = Some 9"
  "ownership_marker active_state = Some sample_marker" "administrator active_state = Some 77"
  "infra_sysctls active_state = []" "last_fencing_token active_state = 1"
  by (simp_all add: active_state_def)

lemma replace_runs:
  "infra_process sample_world
     (infra_req (ForwardPrepare 7 1 (sample_forward_owner 2) second_declaration)) infra_peer 100
     (infra_with active_state) = (Inr (Ack, None), infra_with handoff_state)"
proof -
  have "recover_expired sample_world 100 (infra_with active_state) = (Inr False, infra_with active_state)"
    by (rule quiet_recovery) simp_all
  moreover have "signed_generation (sample_forward_owner n) = n" "worker_epoch (sample_forward_owner n) = 1"
    "domain_id (sample_forward_owner n) = 5" "sample_forward_owner 1 \<noteq> sample_forward_owner 2"
    "\<not> (2 :: u64) \<le> 1" for n
    by (simp_all add: sample_forward_owner_def word_le_nat_alt)
  ultimately show ?thesis
    by (simp add: infra_process_def validate_infra_request_def check_repairs_def forward_prepare_def
        prepare_over_def stale_prepare_def policy_attributes_differ_def ensure_live_def Let_def
        infra_action_defs handoff_state_def)
qed

lemma handoff_recovery:
  "recover_expired broken_world 100 (infra_with handoff_state) = (Inr False, infra_with handoff_state)"
  by (simp add: recovery_defs infra_action_defs infra_with_def handoff_state_def)

lemma broken_commit_candidate:
  "commit_candidate broken_world 100 handoff_state
     (new_forward (sample_forward_owner 2) second_declaration FwPrepared) (infra_with handoff_state)
   = (Inl (RepairPending (Transition ''remove_previous_firewall'' Journal) (InfraBackend Journal)),
      infra_with interrupted_state)"
proof -
  have "handoff_state\<lparr>candidate := Some (new_forward (sample_forward_owner 2) second_declaration FwPreparing)\<rparr>
      = interrupted_state"
    by (simp add: interrupted_state_def handoff_state_def active_state_def ensured_state_def
        default_state_def)
  moreover have "forwarding handoff_state
      = Some (new_forward (sample_forward_owner 1) sample_declaration FwActive)"
    by (simp add: handoff_state_def)
  ultimately show ?thesis
    by (simp add: commit_candidate_def roll_back_commit_def install_replacement_def
        rollback_replacement_def same_boot_if_def attempt_def Let_def infra_action_defs)
qed

lemma broken_commit_runs:
  "infra_process broken_world (infra_req (ForwardCommit (sample_forward_owner 2))) infra_peer 100
     (infra_with handoff_state)
   = (Inl (RepairPending (Transition ''remove_previous_firewall'' Journal) (InfraBackend Journal)),
      infra_with interrupted_state)"
proof -
  have "candidate handoff_state = Some (new_forward (sample_forward_owner 2) second_declaration FwPrepared)"
    "forwarding handoff_state = Some (new_forward (sample_forward_owner 1) sample_declaration FwActive)"
    "spec handoff_state = Some sample_spec" "ifindex handoff_state = Some 9"
    "ownership_marker handoff_state = Some sample_marker" "administrator handoff_state = Some 77"
    by (simp_all add: handoff_state_def)
  then show ?thesis
    by (simp add: infra_process_def validate_infra_request_def handoff_recovery check_repairs_def
        forward_commit_def ensure_live_def record_of_owner_def owns_candidate_def
        broken_commit_candidate infra_action_defs)
qed

lemma interrupted_recovery:
  "recover_expired sample_world 100 (infra_with interrupted_state)
   = (Inr True, infra_with (active_state\<lparr>last_fencing_token := 2\<rparr>))"
  by (simp add: recovery_defs Let_def infra_action_defs infra_with_def interrupted_state_def)

text \<open>
  Two histories that end in a state the start-up checks are asked about. In the first, a withdrawn
  remote prefix becomes an egress route of the published policy. In the second, the kernel refuses
  a published policy, the device is gone after a restart, and the device is repaired.
\<close>

definition remote_prefix :: ipv4_prefix where
  "remote_prefix = Ipv4Prefix 0x0A020000 16"

definition egress_declaration :: prepare_declaration where
  "egress_declaration =
     \<lparr>table_id = 20001, overlay_router_ipv4 = 0x0AFF0001, effective_mtu = 1380,
      routes =
        [\<lparr>route_prefix = Ipv4Prefix 0x0A010000 16, route_kind = Local\<rparr>,
         \<lparr>route_prefix = Ipv4Prefix 0x0A020000 16, route_kind = RemoteEgress\<rparr>],
      exclusions = [\<lparr>exclusion_prefix = Ipv4Prefix 0xCB007107 32, exclusion_kind = HubEndpoint\<rparr>],
      firewall = \<lparr>allow_forward = True, clamp_tcp_mss = True, require_ipv4_forwarding = True,
                  manage_rp_filter = False\<rparr>\<rparr>"

definition sample_hash :: string where
  "sample_hash = replicate 64 CHR ''a''"

definition withdrawn_record :: forward_record where
  "withdrawn_record = (new_forward (sample_forward_owner 1) sample_declaration FwActive)
     \<lparr>failure_revision := 1, fwd_failed_prefixes := [remote_prefix]\<rparr>"

definition egress_intent :: pending_policy where
  "egress_intent = \<lparr>cancelled = False, pending_revision = 1, pending_generation = 1,
     pending_hash = sample_hash, pending_declaration = egress_declaration\<rparr>"

definition egress_record :: forward_record where
  "egress_record = adopt_policy withdrawn_record egress_intent [remote_prefix]"

definition pending_record :: forward_record where
  "pending_record = (new_forward (sample_forward_owner 1) sample_declaration FwActive)
     \<lparr>pending_policy := Some egress_intent\<rparr>"

definition with_forwarding :: "forward_record \<Rightarrow> infra_state" where
  "with_forwarding f = active_state\<lparr>forwarding := Some f\<rparr>"

definition refusing_world :: "(nat, nat, sample_net, unit) infra_world" where
  "refusing_world = sample_world\<lparr>net := sample_infra_net\<lparr>update_live_policy := \<lambda>_ _ _. throw Backend\<rparr>,
     state_journal := sample_journal\<lparr>infra_load := return (with_forwarding pending_record)\<rparr>\<rparr>"

definition deviceless_infra :: "(nat, nat, sample_net, unit) infra_service" where
  "deviceless_infra = \<lparr>infra_uid = 0, infra_gid = 0, factory = 3, infra_backend = (None, None),
     infra_journal = (), svc_state = with_forwarding pending_record, lifecycle_fd = None,
     restart_recovery_pending = True\<rparr>"

definition publish_egress :: infra_operation where
  "publish_egress = ForwardPolicyUpdate (sample_forward_owner 1) 1 1 sample_hash egress_declaration"

lemma refusing_world_simps [simp]:
  "os refusing_world = sample_os" "tun_factory refusing_world = sample_factory"
  "infra_store (state_journal refusing_world) st = return ()"
  "infra_load (state_journal refusing_world) = return (with_forwarding pending_record)"
  "net refusing_world = sample_infra_net\<lparr>update_live_policy := \<lambda>_ _ _. throw Backend\<rparr>"
  by (simp_all add: refusing_world_def sample_journal_def)

lemma with_forwarding_simps [simp]:
  "\<not> creation_pending (with_forwarding f)" "candidate (with_forwarding f) = None"
  "boot_id (with_forwarding f) = ''b007''" "forwarding (with_forwarding f) = Some f"
  "spec (with_forwarding f) = Some sample_spec" "ifindex (with_forwarding f) = Some 9"
  "ownership_marker (with_forwarding f) = Some sample_marker" "io_owner (with_forwarding f) = None"
  "administrator (with_forwarding f) = Some 77" "(with_forwarding f)\<lparr>forwarding := Some g\<rparr> = with_forwarding g"
  by (simp_all add: with_forwarding_def active_state_def)

lemma active_with_forwarding:
  "active_state = with_forwarding (new_forward (sample_forward_owner 1) sample_declaration FwActive)"
  by (simp add: with_forwarding_def active_state_def)

lemma egress_declaration_valid [simp]: "validate_declaration egress_declaration = Inr ()"
  using sample_declaration_valid
  unfolding validate_declaration_def sample_declaration_def egress_declaration_def
  by (simp add: has_prefix_overlap_def strictly_sorted_by_def less_prod_def
      prefix_range_def split: if_splits)

lemma egress_declaration_prefixes [simp]: "check_declaration_prefixes egress_declaration = Inr ()"
  by code_simp

lemma egress_identity [simp]: "validate_live_policy_identity sample_declaration egress_declaration = Inr ()"
  by (simp add: validate_live_policy_identity_def egress_declaration_def sample_declaration_def)

lemma egress_declaration_differs [simp]:
  "egress_declaration \<noteq> sample_declaration" "sample_declaration \<noteq> egress_declaration"
  by (simp_all add: egress_declaration_def sample_declaration_def)

lemma sample_hash_valid [simp]: "is_hex sample_hash 64" "valid_policy_hash sample_hash"
  by (simp_all add: sample_hash_def is_hex_def valid_policy_hash_def is_hex_char_def list_all_iff)

lemma withdraw_runs:
  "infra_process sample_world
     (infra_req (ForwardFailedPrefixes (sample_forward_owner 1) 1 [remote_prefix])) infra_peer 100
     (infra_with active_state) = (Inr (Ack, None), infra_with (with_forwarding withdrawn_record))"
proof -
  have "recover_expired sample_world 100 (infra_with active_state) = (Inr False, infra_with active_state)"
    by (rule quiet_recovery) simp_all
  moreover have "check_unique_prefixes {} [remote_prefix] = Inr ()"
    "validate_failed_prefixes sample_declaration [remote_prefix] = Inr ()"
    by code_simp+
  moreover have "update_failed_forward_prefixes sample_infra_net d ps qs = return ()" for d ps qs
    by (simp add: sample_infra_net_def accept_def)
  moreover have "sort [remote_prefix] = [remote_prefix]" by simp
  ultimately show ?thesis
    unfolding active_with_forwarding
    by (simp add: infra_process_def validate_infra_request_def check_repairs_def MAX_ROUTES_def
        forward_failed_prefixes_def failed_prefixes_of_def same_owner_def owns_candidate_def
        ensure_live_def Let_def infra_action_defs withdrawn_record_def new_forward_def)
qed

lemma policy_is_new:
  "\<not> stale_policy withdrawn_record 1 1 sample_hash egress_declaration"
  "\<not> stale_policy (new_forward (sample_forward_owner 1) sample_declaration FwActive) 1 1 sample_hash
     egress_declaration"
  by (simp_all add: stale_policy_def effective_generation_def withdrawn_record_def new_forward_def
      sample_forward_owner_def)

lemma egress_runs:
  "infra_process sample_world (infra_req publish_egress) infra_peer 100
     (infra_with (with_forwarding withdrawn_record))
   = (Inr (Ack, None), infra_with (with_forwarding egress_record))"
proof -
  have "recover_expired sample_world 100 (infra_with (with_forwarding withdrawn_record))
      = (Inr False, infra_with (with_forwarding withdrawn_record))"
    by (rule quiet_recovery) (simp_all add: withdrawn_record_def)
  moreover have "retained_failures withdrawn_record egress_intent = [remote_prefix]"
    by code_simp
  moreover have "fwd_phase withdrawn_record = FwActive" "pending_policy withdrawn_record = None"
    "pending_failed_prefixes withdrawn_record = None" "fwd_owner withdrawn_record = sample_forward_owner 1"
    "fwd_declaration withdrawn_record = sample_declaration" "policy_revision withdrawn_record = 0"
    by (simp_all add: withdrawn_record_def new_forward_def)
  ultimately show ?thesis
    by (simp add: infra_process_def validate_infra_request_def check_repairs_def publish_egress_def
        forward_policy_update_def policy_update_of_def reconcile_live_policy_def same_owner_def
        ensure_live_def Let_def infra_action_defs policy_is_new egress_intent_def [symmetric])
      (simp add: retained_failures_def egress_record_def adopt_policy_def egress_intent_def)
qed

lemma refused_runs:
  "infra_process refusing_world (infra_req publish_egress) infra_peer 100 (infra_with active_state)
   = (Inl (Transition ''live_policy_routes_firewall'' Backend), infra_with (with_forwarding pending_record))"
proof -
  have "recover_expired refusing_world 100 (infra_with active_state) = (Inr False, infra_with active_state)"
    by (simp add: recovery_defs infra_action_defs infra_with_def)
  moreover have "policy_revision (new_forward owner d ph) = 0" for owner d ph
    by (simp add: new_forward_def)
  ultimately show ?thesis
    unfolding active_with_forwarding
    by (simp add: infra_process_def validate_infra_request_def check_repairs_def publish_egress_def
        forward_policy_update_def policy_update_of_def reconcile_live_policy_def same_owner_def
        ensure_live_def Let_def infra_action_defs policy_is_new [unfolded new_forward_def]
        pending_record_def egress_intent_def new_forward_def)
qed

lemma deviceless_starts: "infra_service_new refusing_world 0 0 3 (None, None) () = Inr deviceless_infra"
  by (simp add: infra_service_new_def deviceless_infra_def return_def)

lemma repair_runs:
  "infra_process refusing_world (infra_req (InfraEnsure sample_spec)) infra_peer 100 deviceless_infra
   = (Inr (InfraStatusBody (Some sample_spec) (Some 9) None, None),
      infra_with (with_forwarding (pending_record\<lparr>fwd_phase := FwRevoked\<rparr>)))"
proof -
  have rec: "fwd_phase pending_record = FwActive" "pending_policy pending_record = Some egress_intent"
    "pending_failed_prefixes pending_record = None" "fwd_owner pending_record = sample_forward_owner 1"
    "\<not> cancelled egress_intent"
    by (simp_all add: pending_record_def egress_intent_def)
  have recovers: "recover_expired refusing_world 100 deviceless_infra
      = (Inr False, deviceless_infra\<lparr>restart_recovery_pending := False\<rparr>)"
    by (simp add: recovery_defs reconcile_live_policy_def ensure_live_def rec Let_def attempt_def
        infra_action_defs deviceless_infra_def)
  have auth: "infra_peer_authorized infra_peer (infra_req op) deviceless_infra" for op
    by (simp add: infra_peer_def infra_req_def infra_peer_authorized_def deviceless_infra_def)
  show ?thesis
    by (simp add: infra_process_def validate_infra_request_def recovers auth check_repairs_def
        infra_action_defs)
      (simp add: deviceless_infra_def infra_ensure_def repair_device_def fence_lost_device_def
        io_held_def complete_creation_def rec infra_action_defs infra_with_def with_forwarding_def
        active_state_def ensured_state_def default_state_def)
qed

end
