(* ===== verification/Netd_Infra_Properties.thy ===== *)
theory Netd_Infra_Properties
  imports Netd_Infra_Handlers Netd_Infra_Samples
begin

text \<open>
  The properties of the infrastructure service: what holds in every reachable state and across
  every request, who receives the TUN descriptor, what a failed commit leaves for recovery, and
  what the journal reads back.
\<close>

section \<open>Reachable states\<close>

text \<open>
  A service starts with an empty journal, serves requests, runs its periodic recovery, and is
  restarted on the state it persisted last. The operating system may answer differently each time.
\<close>

inductive infra_reachable :: "('d, 'f, 'b, 'j) infra_service \<Rightarrow> bool" where
  start: "svc_state s = default_state \<Longrightarrow> infra_reachable s"
| serve: "infra_reachable s \<Longrightarrow> infra_process W req peer now s = (r, s') \<Longrightarrow> infra_reachable s'"
| recover: "infra_reachable s \<Longrightarrow> recover_expired W now s = (r, s') \<Longrightarrow> infra_reachable s'"
| restart: "infra_reachable s \<Longrightarrow> infra_service_new W uid gid f b j = Inr s' \<Longrightarrow>
    svc_state s' = svc_state s \<Longrightarrow> infra_reachable s'"

lemma process_outcome:
  assumes inv: "infra_inv (svc_state s)" and run: "infra_process W req peer now s = (r, s')"
  shows "outcome now (infra_operation req) (svc_state s) (svc_state s')"
    and "r \<noteq> Inl Panicked"
    and "r = Inr x \<Longrightarrow> infra_operation req \<noteq> Capabilities \<Longrightarrow> lives now (svc_state s')"
proof -
  note hoare = tracks_process [OF inv, unfolded tracks_def settles_def]
  have ok: "outcome now (infra_operation req) (svc_state s) (svc_state s')
      \<and> (infra_operation req \<noteq> Capabilities \<longrightarrow> lives now (svc_state s'))" if "r = Inr y" for y
    using hoare_Inr [OF hoare] run that by blast
  have err: "evolves now (svc_state s) (svc_state s') \<and> e \<noteq> Panicked" if "r = Inl e" for e
    using hoare_Inl [OF hoare] run that by blast
  show "outcome now (infra_operation req) (svc_state s) (svc_state s')" "r \<noteq> Inl Panicked"
    using ok err by (cases r; auto simp: outcome_def)+
  show "r = Inr x \<Longrightarrow> infra_operation req \<noteq> Capabilities \<Longrightarrow> lives now (svc_state s')"
    using ok by blast
qed

lemma recover_outcome:
  assumes inv: "infra_inv (svc_state s)" and run: "recover_expired W now s = (r, s')"
  shows "evolves now (svc_state s) (svc_state s')" "r = Inr x \<Longrightarrow> lives now (svc_state s')"
proof -
  have st: "settles now False (svc_state s) (svc_state s)"
    using inv by (simp add: settles_def evolves_refl)
  note hoare = tracks_recover_expired [OF st, unfolded tracks_def settles_def]
  have ok: "evolves now (svc_state s) (svc_state s') \<and> lives now (svc_state s')" if "r = Inr y" for y
    using hoare_Inr [OF hoare] run that by blast
  have "evolves now (svc_state s) (svc_state s')" if "r = Inl e" for e
    using hoare_Inl [OF hoare] run that by blast
  with ok show "evolves now (svc_state s) (svc_state s')" by (cases r) auto
  show "r = Inr x \<Longrightarrow> lives now (svc_state s')" using ok by blast
qed

lemma outcome_inv: "outcome now op st st' \<Longrightarrow> infra_inv st'"
  by (auto simp: outcome_def evolves_def)

lemma reachable_inv: "infra_reachable s \<Longrightarrow> infra_inv (svc_state s)"
  by (induction rule: infra_reachable.induct)
    (auto intro: outcome_inv process_outcome(1) evolves_inv recover_outcome(1))

text \<open>The states of the sample host are reached by serving the requests that lead to them.\<close>

lemma infra_sample_reachable:
  shows "infra_reachable (infra_with ensured_state)" "infra_reachable (infra_with prepared_state)"
    "infra_reachable (infra_with active_state)" "infra_reachable (infra_with handoff_state)"
    "infra_reachable (infra_with interrupted_state)"
proof -
  have start: "infra_reachable fresh_infra" by (rule infra_reachable.start) (simp add: fresh_infra_def)
  show ensured: "infra_reachable (infra_with ensured_state)"
    by (rule infra_reachable.serve [OF start ensure_runs])
  show prepared: "infra_reachable (infra_with prepared_state)"
    by (rule infra_reachable.serve [OF ensured prepare_runs])
  show active: "infra_reachable (infra_with active_state)"
    by (rule infra_reachable.serve [OF prepared commit_runs])
  show handoff: "infra_reachable (infra_with handoff_state)"
    by (rule infra_reachable.serve [OF active replace_runs])
  show "infra_reachable (infra_with interrupted_state)"
    by (rule infra_reachable.serve [OF handoff broken_commit_runs])
qed

text \<open>
  C17: Every reachable state of the infrastructure service is well formed: the device and its
  markers are recorded once it is specified, an I/O owner's epoch is not above the last one, the
  forwarding record and the candidate hold validated owners and declarations, their withdrawn
  prefixes are routed prefixes, a candidate stands only beside a settled forwarding record of the
  same domain with a smaller fencing token, and a pending policy excludes other pending work.
\<close>

theorem infra_state_invariant:
  assumes "infra_reachable s"
  shows "infra_inv (svc_state s)"
  using assms by (rule reachable_inv)

theorem infra_state_invariant_witness: "infra_inv (svc_state (infra_with interrupted_state))"
  using infra_state_invariant [OF infra_sample_reachable(5)] .

text \<open>
  No request can make the infrastructure service panic: none of the unwraps of its handlers and
  of its recovery meets a missing value in a reachable state.
\<close>

theorem infra_never_panics:
  assumes "infra_reachable s"
  shows "fst (infra_process W req peer now s) \<noteq> Inl Panicked"
  using process_outcome(2) [OF reachable_inv [OF assms]] by (metis prod.collapse)

theorem infra_never_panics_witness:
  "fst (infra_process sample_world (infra_req (ForwardRevoke (sample_forward_owner 2))) infra_peer 100
     (infra_with interrupted_state)) \<noteq> Inl Panicked"
  using infra_never_panics [OF infra_sample_reachable(5)] .

text \<open>
  C18: Across every request, successful or not, other than a successful retirement: the
  infrastructure and its administrator are immutable once set, the I/O epoch and the fencing token
  never decrease, and the forwarding owner is only ever succeeded within its domain by one whose
  generation, worker epoch and fencing token are not smaller.
\<close>

theorem forwarding_never_regresses:
  assumes "infra_reachable s" and "infra_process W req peer now s = (r, s')"
    and "\<And>infra gen. infra_operation req \<noteq> InfraRetire infra gen"
  shows "(spec (svc_state s) \<noteq> None \<longrightarrow> spec (svc_state s') = spec (svc_state s)
        \<and> administrator (svc_state s') = administrator (svc_state s))
    \<and> last_io_epoch (svc_state s) \<le> last_io_epoch (svc_state s')
    \<and> last_fencing_token (svc_state s) \<le> last_fencing_token (svc_state s')
    \<and> (\<forall>f. forwarding (svc_state s) = Some f \<longrightarrow>
        (\<exists>f'. forwarding (svc_state s') = Some f' \<and> owner_le (fwd_owner f) (fwd_owner f')))"
  using process_outcome(1) [OF reachable_inv [OF assms(1)] assms(2)] assms(3)
  by (auto simp: outcome_def evolves_def)

theorem forwarding_never_regresses_witness:
  "\<exists>f'. forwarding handoff_state = Some f' \<and> owner_le (sample_forward_owner 1) (fwd_owner f')"
  using forwarding_never_regresses [OF infra_sample_reachable(3) replace_runs] by simp

text \<open>
  C19: After every successful request but a readiness probe, forwarding that is not revoked belongs
  to an owner whose authorization and lease both still run at the time of the request.
\<close>

theorem unrevoked_owner_is_live:
  assumes "infra_reachable s" and "infra_process W req peer now s = (Inr reply, s')"
    and "infra_operation req \<noteq> Capabilities" and "forwarding (svc_state s') = Some f"
    and "fwd_phase f \<noteq> FwRevoked"
  shows "now < auth_deadline_mono_ms (fwd_owner f) \<and> now < forward_lease_mono_ms (fwd_owner f)"
  using process_outcome(3) [OF reachable_inv [OF assms(1)] assms(2) refl assms(3)] assms(4,5)
  by (auto simp: lives_def owner_is_live_def)

theorem unrevoked_owner_is_live_witness:
  "(100 :: u64) < auth_deadline_mono_ms (sample_forward_owner 1)
   \<and> (100 :: u64) < forward_lease_mono_ms (sample_forward_owner 1)"
  using unrevoked_owner_is_live [OF infra_sample_reachable(2) commit_runs] by simp

section \<open>The descriptor\<close>

text \<open>Actions that keep a condition on the state, whatever their outcome.\<close>

definition holds :: "(infra_state \<Rightarrow> bool) \<Rightarrow> ('d, 'f, 'b, 'j, 'a) infra_action \<Rightarrow> bool" where
  "holds K m \<longleftrightarrow> hoare (\<lambda>s. K (svc_state s)) m (\<lambda>_ s. K (svc_state s)) (\<lambda>_ s. K (svc_state s))"

lemma holds_rules:
  "holds K (return x)" "holds K (throw e)" "holds K (reject code)"
  "holds K (of_result r)" "holds K (unwrap v)" "holds K (net_as wrap n)"
  "holds K (on_factory k)" "holds K (set_lifecycle fd)" "holds K (set_restart_recovery b)"
  "holds K (gets g)"
  by (auto simp: holds_def hoare_def reject_def unwrap_def net_as_def on_factory_def
      set_lifecycle_def set_restart_recovery_def action_defs split: prod.splits sum.splits)

lemma holds_bind: "holds K m \<Longrightarrow> (\<And>x. holds K (f x)) \<Longrightarrow> holds K (bind m f)"
  unfolding holds_def by (rule hoare_bind)

lemma holds_andthen: "holds K m \<Longrightarrow> holds K k \<Longrightarrow> holds K (andthen m k)"
  unfolding holds_def by (rule hoare_andthen)

lemma holds_attempt: "holds K m \<Longrightarrow> holds K (attempt m)"
  unfolding holds_def by (rule hoare_attempt)

lemma holds_if:
  "(c \<Longrightarrow> holds K m) \<Longrightarrow> (\<not> c \<Longrightarrow> holds K k) \<Longrightarrow> holds K (if c then m else k)"
  by simp

lemma holds_when: "holds K u \<Longrightarrow> holds K (when_true c u)"
  by (simp add: when_true_def holds_rules)

lemma holds_option:
  "(v = None \<Longrightarrow> holds K m) \<Longrightarrow> (\<And>y. v = Some y \<Longrightarrow> holds K (g y)) \<Longrightarrow>
    holds K (case v of None \<Rightarrow> m | Some y \<Rightarrow> g y)"
  by (cases v) auto

lemma holds_get:
  assumes "\<And>st. K st \<Longrightarrow> holds K (f st)"
  shows "holds K (bind (gets svc_state) f)"
  using assms by (simp add: holds_def hoare_def bind_def gets_def)

lemma holds_persist: "K new \<Longrightarrow> holds K (persist W new)"
  by (auto simp: holds_def hoare_def persist_def split: prod.splits sum.splits)

lemma holds_unwrap: "(\<And>x. v = Some x \<Longrightarrow> holds K (f x)) \<Longrightarrow> holds K (bind (unwrap v) f)"
  by (cases v) (auto simp: holds_def hoare_def bind_def unwrap_def of_result_def)

lemmas holds_intros = holds_get holds_unwrap holds_persist holds_rules holds_bind
  holds_andthen holds_attempt holds_if holds_when holds_option

lemma holds_result:
  "(\<And>x. holds K (g x)) \<Longrightarrow> (\<And>e. holds K (h e)) \<Longrightarrow>
    holds K (case r of Inl e \<Rightarrow> h e | Inr x \<Rightarrow> g x)"
  by (cases r) auto

lemma holds_pair: "(\<And>x y. holds K (f x y)) \<Longrightarrow> holds K (case p of (x, y) \<Rightarrow> f x y)"
  by (cases p) auto

lemma holds_verify: "holds K (verify_device_ownership W)"
  unfolding verify_device_ownership_def by (intro holds_intros)

lemma holds_device:
  "holds K (check_namespace W sp)" "holds K (obtain_device W marker)"
  "holds K (identity W infra gen)"
  unfolding check_namespace_def obtain_device_def identity_def
  by (intro holds_intros holds_result holds_pair holds_verify)+

lemma holds_fence: "holds K (fence_policy_intent W f)"
  unfolding fence_policy_intent_def Let_def by (intro holds_intros)

lemma holds_same_boot: "holds K (same_boot_if W b)"
  unfolding same_boot_if_def by (intro holds_intros)

lemma keeps_io_rollback: "holds (\<lambda>st. io_owner st = io) (rollback_replacement W previous cand now)"
  unfolding rollback_replacement_def Let_def by (intro holds_intros holds_same_boot) auto

lemma keeps_io_reconcile: "holds (\<lambda>st. io_owner st = io) (reconcile_live_policy W now)"
  unfolding reconcile_live_policy_def Let_def by (intro holds_intros holds_device) auto

lemma keeps_io_recover:
  "holds (\<lambda>st. io_owner st = io) (complete_creation W)" "holds (\<lambda>st. io_owner st = io) (recover_candidate W now)"
  "holds (\<lambda>st. io_owner st = io) (recover_cancelled W)" "holds (\<lambda>st. io_owner st = io) (recover_policy W now)"
  "holds (\<lambda>st. io_owner st = io) (recover_prefixes W now)" "holds (\<lambda>st. io_owner st = io) (recover_forwarding W now r)"
  unfolding complete_creation_def recover_candidate_def recover_cancelled_def recover_policy_def
    recover_prefixes_def recover_forwarding_def Let_def
  by ((intro holds_intros holds_device holds_verify holds_fence holds_same_boot
      keeps_io_rollback keeps_io_reconcile; simp)+)

lemma keeps_io_recover_expired: "holds (\<lambda>st. io_owner st = io) (recover_expired W now)"
  unfolding recover_expired_def by (intro holds_andthen holds_bind keeps_io_recover)

text \<open>Handlers whose reply carries no descriptor.\<close>

definition no_descriptor :: "('d, 'f, 'b, 'j, 'd reply) infra_action \<Rightarrow> bool" where
  "no_descriptor m \<longleftrightarrow> (\<forall>s answer fd s'. m s = (Inr (answer, fd), s') \<longrightarrow> fd = None)"

lemma no_descriptor_return: "no_descriptor (return (answer, None))"
  by (simp add: no_descriptor_def return_def)

lemma no_descriptor_throw: "no_descriptor (throw e)" "no_descriptor (reject code)"
  by (simp_all add: no_descriptor_def reject_def throw_def)

lemma no_descriptor_bind: "(\<And>x. no_descriptor (f x)) \<Longrightarrow> no_descriptor (bind m f)"
  by (auto simp: no_descriptor_def bind_eq) blast

lemma no_descriptor_andthen: "no_descriptor k \<Longrightarrow> no_descriptor (andthen m k)"
  unfolding andthen_def by (rule no_descriptor_bind)

lemma no_descriptor_cases:
  "(c \<Longrightarrow> no_descriptor m) \<Longrightarrow> (\<not> c \<Longrightarrow> no_descriptor k) \<Longrightarrow> no_descriptor (if c then m else k)"
  "no_descriptor m \<Longrightarrow> (\<And>y. no_descriptor (g y)) \<Longrightarrow>
    no_descriptor (case v of None \<Rightarrow> m | Some y \<Rightarrow> g y)"
  "(\<And>x. no_descriptor (g' x)) \<Longrightarrow> (\<And>e. no_descriptor (h e)) \<Longrightarrow>
    no_descriptor (case r of Inl e \<Rightarrow> h e | Inr x \<Rightarrow> g' x)"
  by (cases v; cases r; simp)+

lemmas no_descriptor_intros = no_descriptor_return no_descriptor_throw no_descriptor_bind
  no_descriptor_andthen no_descriptor_cases

lemma no_descriptor_shared:
  "no_descriptor (persist_or_fence W st)" "no_descriptor (repair_device W st)"
  "no_descriptor (roll_back_commit W p k now e)"
  unfolding persist_or_fence_def repair_device_def roll_back_commit_def
  by (intro no_descriptor_intros)+

lemma no_descriptor_prepare: "no_descriptor (forward_prepare W req now infra gen owner d)"
  unfolding forward_prepare_def prepare_over_def prepare_initial_def Let_def
  by (intro no_descriptor_intros no_descriptor_shared)

lemma no_descriptor_commit: "no_descriptor (forward_commit W req now auth owner)"
  unfolding forward_commit_def commit_candidate_def commit_initial_def Let_def
  by (intro no_descriptor_intros no_descriptor_shared)

lemma no_descriptor_others:
  "no_descriptor (infra_ensure W req sp)" "no_descriptor (infra_release_io W req infra gen epoch)"
  "no_descriptor (infra_retire W req infra gen)" "no_descriptor (forward_authorize W req now owner a)"
  "no_descriptor (forward_guard W req now owner)" "no_descriptor (forward_revoke W req now owner)"
  "no_descriptor (forward_lease_renew W req now owner)"
  "no_descriptor (forward_failed_prefixes W req now owner v ps)"
  "no_descriptor (forward_policy_update W req now owner v gen hash d)"
  unfolding infra_ensure_def infra_release_io_def infra_retire_def forward_authorize_def
    forward_guard_def forward_revoke_def revoke_candidate_def revoke_forwarding_def
    forward_lease_renew_def forward_failed_prefixes_def failed_prefixes_of_def
    forward_policy_update_def policy_update_of_def Let_def
  by (intro no_descriptor_intros no_descriptor_shared)+

lemma dispatch_descriptor:
  assumes "infra_dispatch W req now op auth s = (Inr (answer, Some fd), s')"
  obtains infra gen epoch where "op = InfraAcquireIoFd infra gen epoch"
proof -
  have "no_descriptor (infra_dispatch W req now op auth)"
    if "\<And>infra gen epoch. op \<noteq> InfraAcquireIoFd infra gen epoch"
    using that
    by (cases op)
      (auto intro!: no_descriptor_intros no_descriptor_prepare no_descriptor_commit no_descriptor_others)
  then show thesis using assms that unfolding no_descriptor_def by blast
qed

lemma persist_state: "persist W st s = (Inr u, s') \<Longrightarrow> svc_state s' = st"
  by (auto simp: persist_def split: prod.splits sum.splits)

lemma identity_state: "identity W infra gen s = (Inr sp, s') \<Longrightarrow> svc_state s' = svc_state s"
  by (auto simp: identity_def verify_device_ownership_def reject_def net_as_def action_split
      action_defs split: prod.splits if_splits sum.splits)

lemma factory_state:
  "on_factory m s = (r, s') \<Longrightarrow> svc_state s' = svc_state s"
  "set_lifecycle fd s = (q, s') \<Longrightarrow> svc_state s' = svc_state s"
  by (auto simp: on_factory_def set_lifecycle_def modify_def split: prod.splits)

lemma acquire_grants:
  assumes "infra_acquire_io_fd W req infra gen epoch s = (Inr (answer, fd), s')"
  shows "\<not> io_held (os W) (svc_state s) \<and> last_io_epoch (svc_state s) < epoch
    \<and> last_io_epoch (svc_state s') = epoch
    \<and> (\<exists>io. io_owner (svc_state s') = Some io \<and> io_epoch io = epoch \<and> io_pid io = caller_pid req
        \<and> io_instance_id io = caller_instance_id req)"
  using assms
  by (auto simp: infra_acquire_io_fd_def bind_eq andthen_eq gets_def of_result_def unwrap_def
      return_def reject_def throw_def not_le
      dest!: identity_state factory_state persist_state split: if_splits)

lemma process_dispatches:
  assumes "infra_process W req peer now s = (Inr reply, s')" and "infra_operation req \<noteq> Capabilities"
  obtains s1 op auth s2 where "\<exists>b. recover_expired W now s = (Inr b, s1)"
    "normalize_operation W req now (infra_operation req) s1 = (Inr (op, auth), s2)"
    "svc_state s2 = svc_state s1" "infra_dispatch W req now op auth s2 = (Inr reply, s')"
proof -
  have norm: "svc_state s2 = svc_state s1"
    if "normalize_operation W req now op s1 = (Inr x, s2)" for op s1 s2 x
    using that
    by (cases op) (auto simp: check_receipt_def check_administrator_def reject_def Let_def
        action_split action_defs split: prod.splits if_splits sum.splits)
  have rep: "s2 = s1" if "check_repairs op s1 = (Inr x, s2)" for op s1 s2 x
    using that
    by (auto simp: check_repairs_def reject_def action_split action_defs
        split: option.splits if_splits)
  show thesis
    using assms
    by (auto simp: infra_process_def bind_eq andthen_eq gets_def of_result_def reject_def throw_def
        dest: rep norm intro: that split: if_splits)
qed

lemma normalize_acquire:
  assumes "normalize_operation W req now op s = (Inr (InfraAcquireIoFd infra gen epoch, auth), s')"
  shows "op = InfraAcquireIoFd infra gen epoch"
  using assms by (cases op) (auto simp: andthen_eq return_def)

text \<open>
  C20: A TUN descriptor is handed out only to the caller of an acquire request, only while the
  retained I/O owner, if there is one, is known to be gone, and only for an epoch above every
  earlier one; the caller is then the retained owner of that epoch.
\<close>

theorem descriptor_is_exclusive:
  assumes "infra_process W req peer now s = (Inr (answer, Some fd), s')" and "infra_reachable s"
  shows "\<exists>infra gen epoch. infra_operation req = InfraAcquireIoFd infra gen epoch
    \<and> \<not> io_held (os W) (svc_state s) \<and> last_io_epoch (svc_state s) < epoch
    \<and> last_io_epoch (svc_state s') = epoch
    \<and> (\<exists>io. io_owner (svc_state s') = Some io \<and> io_epoch io = epoch \<and> io_pid io = caller_pid req
        \<and> io_instance_id io = caller_instance_id req)"
proof -
  have "infra_operation req \<noteq> Capabilities"
    using assms(1) by (auto simp: infra_process_def bind_eq andthen_eq gets_def of_result_def
        reject_def throw_def return_def split: if_splits)
  with assms(1) obtain s1 op auth s2 b where run: "recover_expired W now s = (Inr b, s1)"
    "normalize_operation W req now (infra_operation req) s1 = (Inr (op, auth), s2)"
    "svc_state s2 = svc_state s1" "infra_dispatch W req now op auth s2 = (Inr (answer, Some fd), s')"
    by (elim process_dispatches) auto
  obtain infra gen epoch where op: "op = InfraAcquireIoFd infra gen epoch"
    using dispatch_descriptor [OF run(4)] by blast
  have "io_owner (svc_state s1) = io_owner (svc_state s)"
    using hoare_Inr [OF keeps_io_recover_expired [unfolded holds_def] refl run(1)] .
  then have held: "io_held (os W) (svc_state s1) = io_held (os W) (svc_state s)"
    by (simp add: io_held_def)
  moreover have "last_io_epoch (svc_state s) \<le> last_io_epoch (svc_state s1)"
    using recover_outcome(1) [OF reachable_inv [OF assms(2)] run(1)] by (simp add: evolves_def)
  moreover have "infra_operation req = InfraAcquireIoFd infra gen epoch"
    using normalize_acquire run(2) op by blast
  ultimately show ?thesis
    using acquire_grants [of W req infra gen epoch s2 answer "Some fd" s'] run(3,4) op
    by (auto intro: le_less_trans)
qed

theorem descriptor_is_exclusive_witness:
  "\<not> io_held sample_os ensured_state \<and> last_io_epoch ensured_state < 5"
  using descriptor_is_exclusive [OF acquire_runs infra_sample_reachable(1)] by simp

section \<open>Interrupted commits\<close>

text \<open>The forwarding record \<open>f\<close> is retained without a candidate, revoked at worst.\<close>

definition retains :: "forward_record \<Rightarrow> infra_state \<Rightarrow> bool" where
  "retains f st \<longleftrightarrow> candidate st = None \<and>
     (\<exists>f'. forwarding st = Some f' \<and> fwd_owner f' = fwd_owner f
        \<and> fwd_declaration f' = fwd_declaration f \<and> pending_policy f' = None
        \<and> (fwd_phase f' = fwd_phase f \<or> fwd_phase f' = FwRevoked))"

lemma retains_recover:
  "holds (retains f) (recover_cancelled W)" "holds (retains f) (recover_prefixes W now)"
  "holds (retains f) (recover_forwarding W now r)"
  unfolding recover_cancelled_def recover_prefixes_def recover_forwarding_def Let_def
  by ((intro holds_intros holds_device holds_fence holds_same_boot;
      fastforce simp: retains_def revoke_record_def cancel_pending_def)+)

lemma retains_recover_policy: "holds (retains f) (recover_policy W now)"
proof -
  have "bind (return False) (\<lambda>due. if \<not> due then return False else k due) = return False"
    for k :: "bool \<Rightarrow> ('a, 'b, 'c, 'd, bool) infra_action"
    by (rule ext) (simp add: bind_def return_def)
  then show ?thesis
    unfolding recover_policy_def
    by (intro holds_get) (auto simp: retains_def same_boot_if_def intro: holds_rules)
qed

lemma action_tail:
  "bind m f s = (Inr x, s') \<Longrightarrow> \<exists>y s1. f y s1 = (Inr x, s')"
  "andthen n k s = (Inr x, s') \<Longrightarrow> \<exists>s1. k s1 = (Inr x, s')"
  by (auto simp: bind_eq andthen_eq)

lemma rollback_retains:
  assumes "rollback_replacement W f c now s = (Inr u, s')" and "pending_policy f = None"
  shows "retains f (svc_state s')"
proof -
  obtain st live s1 where "persist W (st\<lparr>forwarding :=
      Some (if live then f else f\<lparr>fwd_phase := FwRevoked\<rparr>), candidate := None\<rparr>) s1 = (Inr u, s')"
    using assms(1) unfolding rollback_replacement_def Let_def by (blast dest!: action_tail)
  then have "svc_state s' = st\<lparr>forwarding :=
      Some (if live then f else f\<lparr>fwd_phase := FwRevoked\<rparr>), candidate := None\<rparr>"
    by (rule persist_state)
  then show ?thesis using assms(2) by (simp add: retains_def)
qed

text \<open>
  C21: A commit that was interrupted, so that its candidate is still marked as preparing in the
  journal, is undone by the next successful recovery: the candidate is gone and the previous owner
  forwards with its declaration again, or is revoked.
\<close>

theorem interrupted_commit_is_undone:
  assumes reach: "infra_reachable s" and run: "recover_expired W now s = (Inr b, s')"
    and cand: "candidate (svc_state s) = Some c" "fwd_phase c = FwPreparing"
    and fwd: "forwarding (svc_state s) = Some f"
  shows "candidate (svc_state s') = None \<and>
    (\<exists>f'. forwarding (svc_state s') = Some f' \<and> fwd_owner f' = fwd_owner f
       \<and> fwd_declaration f' = fwd_declaration f
       \<and> (fwd_phase f' = fwd_phase f \<or> fwd_phase f' = FwRevoked))"
proof -
  have inv: "infra_inv (svc_state s)" by (rule reachable_inv [OF reach])
  have idle: "pending_policy f = None"
    using candidate_forwarding [OF inv cand(1)] fwd by (metis option.inject)
  have st: "settles now False (svc_state s) (svc_state s)"
    using inv by (simp add: settles_def evolves_refl)
  obtain s1 where steps1: "complete_creation W s = (Inr (), s1)"
    and "bind (recover_candidate W now) (\<lambda>r1. bind (recover_cancelled W) (\<lambda>r2.
      bind (recover_policy W now) (\<lambda>r3. bind (recover_prefixes W now) (\<lambda>r4.
      recover_forwarding W now (r1 \<or> r2 \<or> r3 \<or> r4))))) s1 = (Inr b, s')"
    using run unfolding recover_expired_def andthen_eq by auto
  then obtain s2 b1 where steps2: "recover_candidate W now s1 = (Inr b1, s2)"
    and rest: "bind (recover_cancelled W) (\<lambda>r2. bind (recover_policy W now) (\<lambda>r3.
      bind (recover_prefixes W now) (\<lambda>r4. recover_forwarding W now (b1 \<or> r2 \<or> r3 \<or> r4)))) s2
      = (Inr b, s')"
    by (auto simp only: bind_eq [of "recover_candidate W now"])
  have "same_forwarding (svc_state s) (svc_state s1)"
    using hoare_Inr [OF tracks_complete_creation [OF st, unfolded tracks_def] _ steps1] by simp
  then have "candidate (svc_state s1) = Some c" "forwarding (svc_state s1) = Some f"
    using cand fwd by (simp_all add: same_forwarding_def)
  then obtain s0 where "rollback_replacement W f c now s0 = (Inr (), s2)"
    using steps2 cand(2)
    by (auto simp: recover_candidate_def bind_eq andthen_eq gets_def of_result_def return_def)
  then have "retains f (svc_state s2)" using idle by (rule rollback_retains)
  moreover have "holds (retains f) (bind (recover_cancelled W) (\<lambda>r2. bind (recover_policy W now) (\<lambda>r3.
      bind (recover_prefixes W now) (\<lambda>r4. recover_forwarding W now (b1 \<or> r2 \<or> r3 \<or> r4)))))"
    by (intro holds_bind retains_recover retains_recover_policy)
  ultimately have "retains f (svc_state s')"
    using rest unfolding holds_def by (blast dest: hoare_Inr)
  then show ?thesis by (auto simp: retains_def)
qed

theorem interrupted_commit_is_undone_witness:
  "candidate interrupted_state \<noteq> None \<and> candidate (active_state\<lparr>last_fencing_token := 2\<rparr>) = None"
  using interrupted_commit_is_undone [OF infra_sample_reachable(5) interrupted_recovery]
  by (simp add: interrupted_state_def)

lemma rollback_error_state:
  assumes "rollback_replacement W f c now s = (Inl e, s')"
  shows "svc_state s' = svc_state s"
proof -
  let ?P = "\<lambda>s'. svc_state s' = svc_state s"
  have net: "hoare ?P (net_as wrap m) (\<lambda>_. ?P) (\<lambda>_. ?P)" for wrap and m :: "('c, unit) net_action"
    by (auto simp: hoare_def net_as_def split: prod.splits sum.splits)
  have boot: "hoare ?P (same_boot_if W b) (\<lambda>_. ?P) (\<lambda>_. ?P)" for b
    by (auto simp: hoare_def same_boot_if_def bind_def gets_def of_result_def return_def
        split: sum.splits)
  have last: "hoare ?P (persist W new) (\<lambda>_ _. True) (\<lambda>_. ?P)" for new
    by (auto simp: hoare_def persist_def split: prod.splits sum.splits)
  have "hoare ?P (rollback_replacement W f c now) (\<lambda>_ _. True) (\<lambda>_. ?P)"
    unfolding rollback_replacement_def Let_def
    by (rule hoare_bind [OF boot], rule hoare_andthen [where R = ?P],
        intro hoare_if hoare_andthen [OF net] net, rule hoare_andthen [OF net],
        rule hoare_bind [OF boot], rule hoare_andthen [where R = ?P], rule hoare_when, rule net, simp,
        rule hoare_andthen [OF net], rule hoare_andthen [where R = ?P], rule hoare_when, rule net, simp,
        rule hoare_bind [where R = "\<lambda>_. ?P"], simp add: hoare_def gets_def, rule last)
  then show ?thesis using assms by (blast dest: hoare_Inl)
qed

fun is_repair :: "infra_error \<Rightarrow> bool" where
  "is_repair (RepairPending _ _) = True"
| "is_repair _ = False"

lemma hoare_roll_back_commit:
  assumes "\<not> is_repair e"
  shows "hoare (\<lambda>s. svc_state s = st) (roll_back_commit W f c now e) Q
    (\<lambda>e s. is_repair e \<longrightarrow> svc_state s = st)"
proof (rule hoareI)
  fix s e' s' assume *: "svc_state s = st" "roll_back_commit W f c now e s = (Inl e', s')"
  obtain r s1 where r: "rollback_replacement W f c now s = (r, s1)" by fastforce
  with * assms show "is_repair e' \<longrightarrow> svc_state s' = st"
    by (cases r) (auto simp: roll_back_commit_def bind_def attempt_def throw_def
        dest: rollback_error_state)
qed (auto simp: roll_back_commit_def bind_def attempt_def throw_def split: prod.splits sum.splits)

lemma install_error:
  assumes "install_replacement W f c changes s = (Inl e, s')"
  shows "\<not> is_repair e"
proof -
  have net: "hoare P (net_as (Transition stage) m) (\<lambda>_ _. True) (\<lambda>e _. \<not> is_repair e)"
    for P stage and m :: "('c, unit) net_action"
    by (auto simp: hoare_def net_as_def map_err_def split: prod.splits sum.splits)
  have "hoare (\<lambda>_. True) (install_replacement W f c changes) (\<lambda>_ _. True) (\<lambda>e _. \<not> is_repair e)"
    unfolding install_replacement_def Let_def
    by (intro hoare_andthen [where R = "\<lambda>_. True"] hoare_if hoare_when net) simp_all
  then show ?thesis using assms by (blast dest: hoare_Inl)
qed

text \<open>
  When a commit fails and undoing it fails too, the answer is that a repair is pending, and the
  retained state still holds the previous owner and the candidate in its preparing phase, so that
  recovery will undo the commit.
\<close>

theorem failed_repair_keeps_intent:
  assumes run: "commit_candidate W now (svc_state s) k s = (Inl (RepairPending a b), s')"
  shows "svc_state s' = (svc_state s)\<lparr>candidate := Some (k\<lparr>fwd_phase := FwPreparing\<rparr>)\<rparr>"
proof -
  define st nxt where "st = svc_state s" and "nxt = st\<lparr>candidate := Some (k\<lparr>fwd_phase := FwPreparing\<rparr>)\<rparr>"
  let ?E = "\<lambda>e s. is_repair e \<longrightarrow> svc_state s = nxt"
  have net: "hoare (\<lambda>s. svc_state s = st) (on_net m) (\<lambda>_ s. svc_state s = st) ?E"
    for m :: "('c, unit) net_action"
    by (auto simp: hoare_def net_as_def map_err_def split: prod.splits sum.splits)
  have store: "hoare P (persist W new) (\<lambda>_ s. svc_state s = new) ?E" for P new
    by (auto simp: hoare_def persist_def split: prod.splits sum.splits)
  have again: "hoare (\<lambda>s. svc_state s = nxt) (attempt (persist W new))
      (\<lambda>r s. (\<forall>e. r = Inl e \<longrightarrow> \<not> is_repair e \<and> svc_state s = nxt)) ?E" for new
    by (auto simp: hoare_def persist_def attempt_def split: prod.splits sum.splits)
  have install: "hoare (\<lambda>s. svc_state s = nxt) (attempt (install_replacement W f c changes))
      (\<lambda>r s. svc_state s = nxt \<and> (\<forall>e. r = Inl e \<longrightarrow> \<not> is_repair e)) ?E" for f c changes
    using steady_install [of W f c changes]
    by (auto simp: hoare_def attempt_def steady_def dest: install_error split: prod.splits sum.splits)
  have undo: "hoare (\<lambda>s. \<not> is_repair e \<and> svc_state s = nxt) (roll_back_commit W f c now e) Q ?E"
    for f c e and Q :: "'a reply \<Rightarrow> _"
    using hoare_roll_back_commit [of e nxt W f c now Q]
    by (cases "is_repair e") (auto elim: hoare_pre simp: hoare_def)
  have "hoare (\<lambda>s. svc_state s = st) (commit_candidate W now st k) (\<lambda>_ _. True) ?E"
    unfolding commit_candidate_def Let_def nxt_def [symmetric]
    apply (rule hoare_bind [where R = "\<lambda>_ s. svc_state s = st"])
     apply (auto simp: hoare_def of_result_def split: sum.splits) [1]
    apply (rule hoare_andthen [OF net], rule hoare_if)
     apply (rule hoare_andthen [OF store], simp add: hoare_return)
    apply (rule hoare_andthen [OF store], rule hoare_bind [OF install])
    subgoal for f r
    proof (cases r)
      case (Inl e)
      then show ?thesis by (auto intro: hoare_pre [OF undo])
    next
      case (Inr u)
      have "hoare (\<lambda>s. \<forall>e. q = Inl e \<longrightarrow> \<not> is_repair e \<and> svc_state s = nxt)
          (case q of Inl e \<Rightarrow> roll_back_commit W f c now e | Inr _ \<Rightarrow> ack) (\<lambda>_ _. True) ?E" for q c
        by (cases q) (auto intro: hoare_pre [OF undo] hoare_return)
      then show ?thesis
        using Inr by (auto intro!: hoare_bind [OF hoare_pre [OF again]])
    qed
    done
  then show ?thesis using run st_def nxt_def by (auto dest: hoare_Inl)
qed

theorem failed_repair_keeps_intent_witness:
  "commit_candidate broken_world 100 handoff_state
     (new_forward (sample_forward_owner 2) second_declaration FwPrepared) (infra_with handoff_state)
   = (Inl (RepairPending (Transition ''remove_previous_firewall'' Journal) (InfraBackend Journal)),
      infra_with interrupted_state)
   \<and> interrupted_state = handoff_state\<lparr>candidate :=
        Some (new_forward (sample_forward_owner 2) second_declaration FwPreparing)\<rparr>"
  using failed_repair_keeps_intent [of broken_world 100 "infra_with handoff_state",
      unfolded infra_with_simps, OF broken_commit_candidate] broken_commit_candidate
  by simp

end
