(* ===== verification/Netd_Infra_Restart.thy ===== *)
theory Netd_Infra_Restart
  imports Netd_Infra_Properties
begin

text \<open>
  What a restart of netd finds: the contract of the state journal, its file implementation, which
  reachable states the start-up checks accept, and two states they refuse although the service
  itself wrote them.
\<close>

section \<open>The contract of the journal\<close>

text \<open>
  \<open>durable\<close> is what the next start loads, \<open>reload\<close> what a stored state reads back as. A store that
  succeeded has happened; one that failed has happened or not.
\<close>

locale durable_state =
  fixes J :: "'j infra_journal_ops"
    and durable :: "'j \<Rightarrow> network_error + infra_state"
    and reload :: "infra_state \<Rightarrow> network_error + infra_state"
  assumes load_Inr: "infra_load J j = (Inr st, j') \<Longrightarrow> durable j = Inr st \<and> durable j' = Inr st"
    and load_Inl: "infra_load J j = (Inl e, j') \<Longrightarrow> durable j' = durable j"
    and store_Inr: "infra_store J st j = (Inr u, j') \<Longrightarrow> durable j' = reload st"
    and store_Inl: "infra_store J st j = (Inl e, j') \<Longrightarrow> durable j' = durable j \<or> durable j' = reload st"
begin

lemma restart_loads:
  assumes "state_journal W = J" and "infra_service_new W uid gid f b j = Inr s"
  shows "durable j = Inr (svc_state s)"
  using assms load_Inr [of j]
  by (auto simp: infra_service_new_def split: prod.splits sum.splits)

lemma persist_durable:
  assumes "state_journal W = J" and "persist W st s = (r, s')"
  shows "(case r of
      Inr _ \<Rightarrow> svc_state s' = st \<and> durable (infra_journal s') = reload st
    | Inl _ \<Rightarrow> svc_state s' = svc_state s
        \<and> (durable (infra_journal s') = durable (infra_journal s)
           \<or> durable (infra_journal s') = reload st))"
  using assms store_Inr [of st "infra_journal s"] store_Inl [of st "infra_journal s"]
  by (auto simp: persist_def split: prod.splits sum.splits)

lemma restart_after_persist:
  assumes "state_journal W = J" and "persist W st s = (Inr u, s')"
    and "infra_service_new W uid gid f b (infra_journal s') = Inr t"
  shows "reload st = Inr (svc_state t)"
  using persist_durable [OF assms(1,2)] restart_loads [OF assms(1,3)] by simp

end

section \<open>The file journal\<close>

definition durable_infra :: "infra_codec \<Rightarrow> journal_fs \<Rightarrow> network_error + infra_state" where
  "durable_infra C fs =
     (case journal_file fs of
        None \<Rightarrow> Inr default_state
      | Some (meta, content) \<Rightarrow>
          if file_kind meta = Symlink \<or> \<not> infra_file_safe fs meta then Inl Journal
          else decode_envelope C content)"

definition reload_infra :: "infra_codec \<Rightarrow> infra_state \<Rightarrow> network_error + infra_state" where
  "reload_infra C st = rbind (encode_envelope C st) (decode_envelope C)"

lemma durable_infra_view:
  assumes "same_files fs fs'"
  shows "durable_infra C fs' = durable_infra C fs"
  using assms
  by (simp add: durable_infra_def infra_file_safe_def same_files_def split: option.splits)

lemma durable_infra_with_file: "durable_infra C (with_file content fs) = decode_envelope C content"
  by (simp add: durable_infra_def infra_file_safe_def with_file_def)

lemma load_file_effect:
  assumes "infra_load_file C fs = (r, fs')"
  shows "same_files fs fs'" and "r = Inr st \<Longrightarrow> durable_infra C fs = Inr st"
proof -
  obtain r1 fs1 where c1: "journal_call fs = (r1, fs1)" by fastforce
  obtain r2 fs2 where c2: "journal_call fs1 = (r2, fs2)" by fastforce
  obtain r3 fs3 where c3: "journal_call fs2 = (r3, fs3)" by fastforce
  note calls = c1 c2 c3
  note same = calls [THEN journal_call_effect]
  have "same_files fs fs' \<and> (r = Inr st \<longrightarrow> durable_infra C fs = Inr st)"
    using assms calls same
    by (cases r1; cases r2; cases r3; cases "journal_file fs")
      (auto simp: infra_load_file_def action_defs durable_infra_def infra_file_safe_def same_files_def
        split: if_splits prod.splits)
  then show "same_files fs fs'" "r = Inr st \<Longrightarrow> durable_infra C fs = Inr st" by auto
qed

text \<open>The file is replaced as a whole, or not at all.\<close>

lemma infra_replace_effect:
  assumes "infra_replace_file content fs = (r, fs')"
  shows "same_files (with_file content fs) fs' \<or> \<not> is_ok r \<and> same_files fs fs'"
  using assms unfolding infra_replace_file_def
  by (auto simp: action_split gets_def modify_def throw_def same_files_def with_file_def
      dest!: journal_call_effect sync_directory_effect split: if_splits)

lemma store_file_effect:
  assumes "infra_store_file C st fs = (r, fs')"
  shows "\<not> is_ok r \<and> same_files fs fs'
    \<or> (\<exists>content. encode_envelope C st = Inr content \<and> same_files (with_file content fs) fs')"
proof (cases "encode_envelope C st")
  case (Inl e)
  then show ?thesis using assms by (auto simp: infra_store_file_def action_defs)
next
  case (Inr content)
  obtain q fs1 where q: "infra_replace_file content fs = (q, fs1)" by fastforce
  have "r = q \<and> same_files fs1 fs'"
    using assms Inr q
    by (cases q) (auto simp: infra_store_file_def action_split of_result_def modify_def
        same_files_def dest!: journal_call_effect split: if_splits)
  then show ?thesis
    using infra_replace_effect [OF q] Inr by (blast intro: same_files_trans)
qed

interpretation infra_files: durable_state "infra_file_journal C" "durable_infra C" "reload_infra C"
  for C
proof
  fix j st j' assume "infra_load (infra_file_journal C) j = (Inr st, j')"
  then have *: "infra_load_file C j = (Inr st, j')" by (simp add: infra_file_journal_def)
  show "durable_infra C j = Inr st \<and> durable_infra C j' = Inr st"
    using load_file_effect(2) [OF * refl] durable_infra_view [OF load_file_effect(1) [OF *]] by simp
next
  fix j e j' assume "infra_load (infra_file_journal C) j = (Inl e, j')"
  then show "durable_infra C j' = durable_infra C j"
    by (intro durable_infra_view load_file_effect(1) [of C]) (simp add: infra_file_journal_def)
next
  fix st j u j' assume "infra_store (infra_file_journal C) st j = (Inr u, j')"
  then have *: "infra_store_file C st j = (Inr u, j')" by (simp add: infra_file_journal_def)
  show "durable_infra C j' = reload_infra C st"
    using store_file_effect [OF *]
    by (auto simp: reload_infra_def durable_infra_view durable_infra_with_file)
next
  fix st j e j' assume "infra_store (infra_file_journal C) st j = (Inl e, j')"
  then have *: "infra_store_file C st j = (Inl e, j')" by (simp add: infra_file_journal_def)
  show "durable_infra C j' = durable_infra C j \<or> durable_infra C j' = reload_infra C st"
    using store_file_effect [OF *]
    by (auto simp: reload_infra_def durable_infra_view durable_infra_with_file)
qed

section \<open>What a restart accepts\<close>

lemma reload_loads:
  assumes "reads_back (envelope_json C)" and "encode_envelope C st = Inr content"
  shows "decode_envelope C content = (if state_loadable st then Inr st else Inl Journal)"
proof -
  obtain hash where "state_hash C st = Inr hash" "\<not> length content > MAX_INFRASTRUCTURE_JOURNAL_BYTES"
    "to_vec (envelope_json C) \<lparr>schema_version = 2, sha256 = hash, envelope_state = st\<rparr> = Some content"
    using assms(2)
    by (auto simp: encode_envelope_def rbind_eq_Inr ok_or_def split: option.splits if_splits)
  with assms(1) show ?thesis by (simp add: decode_envelope_def reads_back_def ok_or_def)
qed

lemma stored_reload:
  assumes "reads_back (envelope_json C)" and "infra_store_file C st j = (Inr u, j')"
  shows "durable_infra C j' = (if state_loadable st then Inr st else Inl Journal)"
  using store_file_effect [OF assms(2)] reload_loads [OF assms(1)]
  by (auto simp: durable_infra_view durable_infra_with_file)

text \<open>Without a failing system call, loading returns what is durable.\<close>

lemma load_without_faults:
  assumes "faults fs = []"
  shows "infra_load_file C fs = (durable_infra C fs, fs)"
  using assms
  by (auto simp: infra_load_file_def durable_infra_def journal_call_def action_defs
      split: option.splits)

text \<open>
  C22: Once a state has been persisted, a restart on that file system finds exactly that state when
  the start-up checks accept it, and refuses to start when they do not: nothing older and nothing
  partial is ever loaded.
\<close>

theorem restart_resumes_persisted_state:
  assumes codec: "reads_back (envelope_json C)" and journal: "state_journal W = infra_file_journal C"
    and stored: "persist W st s = (Inr u, s')" and calm: "faults (infra_journal s') = []"
  shows "infra_service_new W uid gid f b (infra_journal s') =
    (if state_loadable st
     then Inr \<lparr>infra_uid = uid, infra_gid = gid, factory = f, infra_backend = b,
       infra_journal = infra_journal s', svc_state = st, lifecycle_fd = None,
       restart_recovery_pending = True\<rparr>
     else Inl InfraJournal)"
proof -
  have "infra_store_file C st (infra_journal s) = (Inr u, infra_journal s')"
    using stored journal
    by (auto simp: persist_def infra_file_journal_def split: prod.splits sum.splits)
  then have "durable_infra C (infra_journal s') = (if state_loadable st then Inr st else Inl Journal)"
    by (rule stored_reload [OF codec])
  then show ?thesis
    using load_without_faults [OF calm, of C]
    by (simp add: infra_service_new_def journal infra_file_journal_def)
qed

definition sample_envelope :: infra_envelope where
  "sample_envelope = \<lparr>schema_version = 2, sha256 = lower_hex (to_be_bytes 32 (0 :: u256)),
     envelope_state = handoff_state\<rparr>"

definition sample_codec :: infra_codec where
  "sample_codec = \<lparr>state_json = \<lambda>_. Some [],
     envelope_json = \<lparr>to_vec = (\<lambda>e. if e = sample_envelope then Some [] else None),
                     from_slice = (\<lambda>_. Some sample_envelope)\<rparr>,
     state_digest = \<lambda>_. 0\<rparr>"

definition sample_disk :: journal_fs where
  "sample_disk = \<lparr>parent_dir = None, journal_file = None, temporary = None, euid = 0, faults = []\<rparr>"

definition file_world :: "(nat, nat, sample_net, journal_fs) infra_world" where
  "file_world = \<lparr>os = sample_os, tun_factory = sample_factory, net = sample_infra_net,
     state_journal = infra_file_journal sample_codec\<rparr>"

definition file_infra :: "journal_fs \<Rightarrow> infra_state \<Rightarrow> (nat, nat, sample_net, journal_fs) infra_service" where
  "file_infra fs st = \<lparr>infra_uid = 0, infra_gid = 0, factory = 4,
     infra_backend = (Some 9, Some sample_marker), infra_journal = fs, svc_state = st,
     lifecycle_fd = Some 3, restart_recovery_pending = False\<rparr>"

theorem restart_resumes_persisted_state_witness:
  "\<exists>fs. persist file_world handoff_state (file_infra sample_disk active_state)
      = (Inr (), file_infra fs handoff_state)
    \<and> infra_service_new file_world 0 0 4 (None, None) fs
      = (if state_loadable handoff_state
         then Inr \<lparr>infra_uid = 0, infra_gid = 0, factory = 4, infra_backend = (None, None),
           infra_journal = fs, svc_state = handoff_state, lifecycle_fd = None,
           restart_recovery_pending = True\<rparr>
         else Inl InfraJournal)"
proof -
  define fs where "fs = with_file [] sample_disk"
  have "encode_envelope sample_codec handoff_state = Inr []"
    by (simp add: encode_envelope_def state_hash_def sample_codec_def sample_envelope_def ok_or_def)
  then have run: "persist file_world handoff_state (file_infra sample_disk active_state)
      = (Inr (), file_infra fs handoff_state)"
    by (simp add: persist_def file_world_def file_infra_def infra_file_journal_def infra_store_file_def
        infra_replace_file_def sync_directory_def journal_call_def action_defs attempt_def fs_def
        with_file_def sample_disk_def)
  moreover have "infra_journal (file_infra fs handoff_state) = fs" "faults fs = []"
    by (simp_all add: file_infra_def fs_def with_file_def sample_disk_def)
  moreover have "reads_back (envelope_json sample_codec)"
    by (simp add: reads_back_def sample_codec_def)
  ultimately show ?thesis
    using restart_resumes_persisted_state [OF _ _ run, of sample_codec 0 0 4 "(None, None)"]
    by (auto simp: file_world_def)
qed

text \<open>What the checks of a record still decide in a well-formed state.\<close>

lemma record_valid_iff:
  assumes "record_wf r"
  shows "forward_valid st r \<longleftrightarrow>
    set (fwd_failed_prefixes r) \<subseteq> remote_prefixes (fwd_declaration r)
    \<and> (\<forall>p. pending_policy r = Some p \<longrightarrow> pending_policy_valid st r p)"
  using assms
  by (auto simp: forward_valid_def record_wf_def validate_failed_prefixes_iff split: option.splits)

lemma forwarding_valid_iff:
  assumes inv: "infra_inv st" and fwd: "forwarding st = Some r"
  shows "forward_valid st r \<longleftrightarrow>
    set (fwd_failed_prefixes r) \<subseteq> remote_prefixes (fwd_declaration r)
    \<and> (pending_policy r \<noteq> None \<longrightarrow> fwd_phase r = FwActive)"
proof -
  have wf: "record_wf r" and pending: "\<And>p. pending_policy r = Some p \<Longrightarrow> pending_wf r p"
    using inv fwd by (auto simp: infra_inv_def forwarding_wf_def)
  have "candidate st = None" if "pending_policy r = Some p" for p
  proof (rule ccontr)
    assume "candidate st \<noteq> None"
    then obtain c where "candidate st = Some c" by blast
    then obtain f where "forwarding st = Some f" "pending_policy f = None"
      by (rule candidate_forwarding [OF inv])
    with fwd that show False by simp
  qed
  then have "pending_policy_valid st r p \<longleftrightarrow> fwd_phase r = FwActive" if "pending_policy r = Some p" for p
    using pending [OF that] that by (auto simp: pending_policy_valid_def pending_wf_def)
  then show ?thesis using record_valid_iff [OF wf] by auto
qed

lemma candidate_valid_iff:
  assumes "infra_inv st" and "candidate st = Some r"
  shows "forward_valid st r \<longleftrightarrow>
    set (fwd_failed_prefixes r) \<subseteq> remote_prefixes (fwd_declaration r)
    \<and> (pending_policy r \<noteq> None \<longrightarrow> fwd_phase r = FwActive)"
proof -
  have "record_wf r" "pending_policy r = None"
    using assms by (auto simp: infra_inv_def forwarding_wf_def candidate_wf_def)
  then show ?thesis using record_valid_iff by auto
qed

lemma loadable_iff:
  assumes "infra_reachable s"
  shows "state_loadable (svc_state s) \<longleftrightarrow>
    (\<forall>r. forwarding (svc_state s) = Some r \<or> candidate (svc_state s) = Some r \<longrightarrow>
       set (fwd_failed_prefixes r) \<subseteq> remote_prefixes (fwd_declaration r)
       \<and> (pending_policy r \<noteq> None \<longrightarrow> fwd_phase r = FwActive))"
proof -
  note inv = reachable_inv [OF assms]
  show ?thesis
    using forwarding_valid_iff [OF inv] candidate_valid_iff [OF inv] inv
    by (auto simp: state_loadable_def infra_inv_def device_wf_def split: option.splits)
qed

lemma handoff_loadable: "state_loadable handoff_state"
  using loadable_iff [OF infra_sample_reachable(4)] by (auto simp: handoff_state_def)

text \<open>
  The start-up checks accept a reachable state exactly when every withdrawn prefix is a remote
  route of its record's declaration and a pending policy belongs to an active record; all the other
  checks hold in every reachable state.
\<close>

theorem startup_accepts_iff:
  assumes "infra_reachable s"
  shows "state_loadable (svc_state s) \<longleftrightarrow>
    (\<forall>r. forwarding (svc_state s) = Some r \<or> candidate (svc_state s) = Some r \<longrightarrow>
       set (fwd_failed_prefixes r) \<subseteq> remote_prefixes (fwd_declaration r)
       \<and> (pending_policy r \<noteq> None \<longrightarrow> fwd_phase r = FwActive))"
  using assms by (rule loadable_iff)

theorem startup_accepts_iff_witness: "state_loadable handoff_state"
  using startup_accepts_iff [OF infra_sample_reachable(4)] by (auto simp: handoff_state_def)

text \<open>
  A withdrawn remote prefix that a live policy turns into an egress route stays withdrawn, and
  the state the service then persists is refused at start-up: netd would not come up again.
\<close>

theorem egress_failure_blocks_restart:
  "infra_reachable (infra_with (with_forwarding egress_record))
   \<and> \<not> state_loadable (with_forwarding egress_record)"
proof -
  have "infra_reachable (infra_with (with_forwarding egress_record))"
    by (rule infra_reachable.serve [OF infra_reachable.serve [OF infra_sample_reachable(3) withdraw_runs]
          egress_runs])
  moreover have "validate_failed_prefixes egress_declaration [remote_prefix] \<noteq> Inr ()"
    by (simp add: validate_failed_prefixes_def egress_declaration_def)
  ultimately show ?thesis
    by (auto simp: state_loadable_def forward_valid_def egress_record_def adopt_policy_def
        egress_intent_def is_ok_iff)
qed

text \<open>
  Repairing a vanished device while a policy is pending revokes forwarding and keeps the pending
  policy, and the state the service then persists is refused at start-up.
\<close>

theorem repaired_policy_blocks_restart:
  "infra_reachable (infra_with (with_forwarding (pending_record\<lparr>fwd_phase := FwRevoked\<rparr>)))
   \<and> \<not> state_loadable (with_forwarding (pending_record\<lparr>fwd_phase := FwRevoked\<rparr>))"
proof -
  have "infra_reachable (infra_with (with_forwarding pending_record))"
    by (rule infra_reachable.serve [OF infra_sample_reachable(3) refused_runs])
  then have "infra_reachable deviceless_infra"
    by (rule infra_reachable.restart [OF _ deviceless_starts]) (simp add: deviceless_infra_def)
  then have "infra_reachable (infra_with (with_forwarding (pending_record\<lparr>fwd_phase := FwRevoked\<rparr>)))"
    by (rule infra_reachable.serve [OF _ repair_runs])
  moreover have "\<not> state_loadable (with_forwarding (pending_record\<lparr>fwd_phase := FwRevoked\<rparr>))"
    by (simp add: state_loadable_def forward_valid_def pending_policy_valid_def pending_record_def)
  ultimately show ?thesis by blast
qed

end
