(* ===== verification/Netd_Domains.thy ===== *)
theory Netd_Domains
  imports Netd_Infra_Service "HOL-Library.AList"
begin

text \<open>
  The multi-domain front of netd (\<^verbatim>\<open>candy-netd/src/v2/domains.rs\<close>): resource budgets, the identity
  checks that scope a request to one routing domain, the table of I/O owners, the start-up checks
  of a configuration, and the steps of the threads that serve requests concurrently. A \<^verbatim>\<open>usize\<close> is a
  64-bit word. Critical sections of a mutex are single steps; none of them can panic (the pending
  counters never underflow), so that no lock is ever poisoned and the branches for a poisoned lock
  are left out.
\<close>

section \<open>Budgets\<close>

record domain_config =
  cfg_domain_id :: u128
  cfg_infra_id :: u128
  namespace_path :: string
  journal_path :: string
  cfg_table_id :: u32

record domain_budgets =
  max_domains :: u64
  front_control_threads :: u64
  max_control_threads :: u64
  thread_stack_bytes :: u64
  max_total_stack_bytes :: u64
  max_pending_control_requests :: u64
  max_pending_control_bytes :: u64
  max_reserved_fds :: u64

record domains_config =
  cfg_budgets :: domain_budgets
  cfg_domains :: "domain_config list"

definition MIN_CONTROL_THREAD_STACK_BYTES :: u64 where
  "MIN_CONTROL_THREAD_STACK_BYTES = 256 * 1024"

definition RESERVED_DOMAIN_FDS :: u64 where
  "RESERVED_DOMAIN_FDS = 12"

definition CONTROL_FD_SAFETY_MARGIN :: u64 where
  "CONTROL_FD_SAFETY_MARGIN = 8"

definition FRONT_REQUEST_BYTES :: u64 where
  "FRONT_REQUEST_BYTES = 4 * of_nat MAX_NETD_FRAME_LEN"

definition budget :: "string \<Rightarrow> u64 \<Rightarrow> u64 \<Rightarrow> infra_error + unit" where
  "budget resource required allowed =
     (if required > allowed then Inl (ResourceBudget resource required allowed) else Inr ())"

text \<open>
  The descriptors to reserve, from the number of open ones: every \<^verbatim>\<open>checked_\<close> operation in the order
  of the code.
\<close>

definition reserved_descriptors :: "domain_budgets \<Rightarrow> u64 \<Rightarrow> u64 \<Rightarrow> u64 option" where
  "reserved_descriptors b open_fds domains =
     (let pending = min (max_pending_control_requests b) (saturating_mul domains 2) in
      Option.bind (checked_mul domains RESERVED_DOMAIN_FDS) (\<lambda>reserved.
      Option.bind (checked_add open_fds reserved) (\<lambda>v.
      Option.bind (checked_mul pending 2) (\<lambda>doubled.
      Option.bind (checked_add v doubled) (\<lambda>v.
      Option.bind (checked_add v CONTROL_FD_SAFETY_MARGIN) (\<lambda>v.
      checked_add v (max_pending_control_requests b)))))))"

text \<open>\<open>open_fds\<close> counts \<^verbatim>\<open>/proc/self/fd\<close>, \<open>soft_limit\<close> is \<^verbatim>\<open>RLIMIT_NOFILE\<close>; either call may fail.\<close>

definition admit :: "domain_budgets \<Rightarrow> u64 option \<Rightarrow> u64 option \<Rightarrow> u64 \<Rightarrow> infra_error + unit" where
  "admit b open_fds soft_limit domains =
     (let invalid = Rejected ''domain_resource_budget_invalid'' in
      rbind (budget ''domains'' domains (max_domains b)) (\<lambda>_.
      rbind (budget ''minimum_front_control_threads'' 2 (front_control_threads b)) (\<lambda>_.
      rbind (ok_or invalid (checked_add domains (front_control_threads b))) (\<lambda>threads.
      rbind (budget ''control_threads'' threads (max_control_threads b)) (\<lambda>_.
      rbind (budget ''minimum_thread_stack_bytes'' MIN_CONTROL_THREAD_STACK_BYTES
               (thread_stack_bytes b)) (\<lambda>_.
      rbind (ok_or invalid (checked_mul threads (thread_stack_bytes b))) (\<lambda>stack_bytes.
      rbind (budget ''total_thread_stack_bytes'' stack_bytes (max_total_stack_bytes b)) (\<lambda>_.
      rbind (budget ''pending_control_requests'' (front_control_threads b)
               (max_pending_control_requests b)) (\<lambda>_.
      rbind (ok_or invalid (checked_mul (front_control_threads b) FRONT_REQUEST_BYTES)) (\<lambda>front_bytes.
      rbind (budget ''pending_control_bytes'' front_bytes (max_pending_control_bytes b)) (\<lambda>_.
      rbind (ok_or InfraJournal open_fds) (\<lambda>fds.
      rbind (ok_or invalid (reserved_descriptors b fds domains)) (\<lambda>descriptors.
      rbind (budget ''reserved_fds'' descriptors (max_reserved_fds b)) (\<lambda>_.
      rbind (ok_or InfraJournal soft_limit) (\<lambda>soft.
      budget ''rlimit_nofile_soft'' descriptors soft)))))))))))))))"

definition validate_resource_admission ::
    "domains_config \<Rightarrow> u64 option \<Rightarrow> u64 option \<Rightarrow> infra_error + unit" where
  "validate_resource_admission config open_fds soft_limit =
     (if cfg_domains config = [] then Inl (Rejected ''domain_configuration_empty'')
      else admit (cfg_budgets config) open_fds soft_limit (of_nat (length (cfg_domains config))))"

record pending_budget =
  pending_requests :: u64
  pending_bytes :: u64

text \<open>\<^verbatim>\<open>ControlBudget::reserve\<close>, \<^verbatim>\<open>ControlPermit::resize\<close> and the drop of a lease, on the shared counters.\<close>

definition reserve_budget :: "domain_budgets \<Rightarrow> u64 \<Rightarrow> pending_budget \<Rightarrow> infra_error + pending_budget" where
  "reserve_budget limits amount p =
     (let invalid = Rejected ''domain_control_budget_invalid'' in
      rbind (ok_or invalid (checked_add (pending_requests p) 1)) (\<lambda>requests.
      rbind (ok_or invalid (checked_add (pending_bytes p) amount)) (\<lambda>total.
      rbind (budget ''pending_control_requests'' requests (max_pending_control_requests limits)) (\<lambda>_.
      rbind (budget ''pending_control_bytes'' total (max_pending_control_bytes limits)) (\<lambda>_.
      Inr \<lparr>pending_requests = requests, pending_bytes = total\<rparr>)))))"

definition resize_budget ::
    "domain_budgets \<Rightarrow> u64 \<Rightarrow> u64 \<Rightarrow> pending_budget \<Rightarrow> infra_error + pending_budget" where
  "resize_budget limits leased amount p =
     rbind (ok_or (Rejected ''domain_control_budget_invalid'')
        (Option.bind (checked_sub (pending_bytes p) leased) (\<lambda>v. checked_add v amount))) (\<lambda>total.
     rbind (budget ''pending_control_bytes'' total (max_pending_control_bytes limits)) (\<lambda>_.
     Inr (p\<lparr>pending_bytes := total\<rparr>)))"

definition release_budget :: "u64 \<Rightarrow> pending_budget \<Rightarrow> pending_budget" where
  "release_budget leased p =
     \<lparr>pending_requests = pending_requests p - 1, pending_bytes = pending_bytes p - leased\<rparr>"

text \<open>
  The sizes \<^verbatim>\<open>request_queue_bytes\<close> charges: the layout of the queued types and the capacity of each
  vector or string, which is at least its length.
\<close>

record memory_layout =
  route_bytes :: u64
  exclusion_bytes :: u64
  prefix_bytes :: u64
  request_bytes :: u64
  routes_capacity :: "route_declaration list \<Rightarrow> u64"
  exclusions_capacity :: "underlay_exclusion list \<Rightarrow> u64"
  prefixes_capacity :: "ipv4_prefix list \<Rightarrow> u64"
  string_capacity :: "string \<Rightarrow> u64"

definition declaration_bytes :: "memory_layout \<Rightarrow> prepare_declaration \<Rightarrow> u64 option" where
  "declaration_bytes M d =
     Option.bind (checked_mul (routes_capacity M (routes d)) (route_bytes M)) (\<lambda>amount.
     Option.bind (checked_mul (exclusions_capacity M (exclusions d)) (exclusion_bytes M)) (\<lambda>more_bytes.
     checked_add amount more_bytes))"

definition authority_bytes :: "memory_layout \<Rightarrow> forward_authority \<Rightarrow> u64" where
  "authority_bytes M a =
     string_capacity M (transaction_id a) + string_capacity M (signed_control_hash a)
     + string_capacity M (declaration_hash a) + string_capacity M (snapshot_closure_hash a)"

fun operation_bytes :: "memory_layout \<Rightarrow> infra_operation \<Rightarrow> infra_error + u64 option" where
  "operation_bytes M (ForwardPrepare _ _ _ d) = Inr (declaration_bytes M d)"
| "operation_bytes M (ForwardPolicyUpdate _ _ _ _ d) = Inr (declaration_bytes M d)"
| "operation_bytes M (ForwardFailedPrefixes _ _ ps) =
     Inr (checked_mul (prefixes_capacity M ps) (prefix_bytes M))"
| "operation_bytes M (ForwardAuthorize _ a) = Inr (Some (authority_bytes M a))"
| "operation_bytes M (ForwardCommitAuthorized _ receipt) =
     Inr (Some (authority_bytes M (receipt_authority receipt)))"
| "operation_bytes M (InDomain _ _ _) = Inl (Rejected ''domain_scope_nested'')"
| "operation_bytes M _ = Inr (Some 0)"

definition request_queue_bytes :: "memory_layout \<Rightarrow> infra_operation \<Rightarrow> infra_error + u64" where
  "request_queue_bytes M op =
     (let invalid = Rejected ''domain_control_budget_invalid'' in
      rbind (operation_bytes M op) (\<lambda>amount.
      rbind (ok_or invalid amount) (\<lambda>heap.
      rbind (case op of
               ForwardPolicyUpdate _ _ _ hash _ \<Rightarrow> ok_or invalid (checked_add heap (string_capacity M hash))
             | _ \<Rightarrow> Inr heap) (\<lambda>heap.
      ok_or invalid (checked_add (request_bytes M) heap)))))"

section \<open>The identity of a domain\<close>

record domain_identity =
  id_config :: domain_config
  id_netns_device :: u64
  id_netns_inode :: u64

fun operation_in_domain :: "domain_identity \<Rightarrow> infra_operation \<Rightarrow> bool" where
  "operation_in_domain i (InfraEnsure sp) \<longleftrightarrow>
     infra_id sp = cfg_infra_id (id_config i) \<and> netns_device sp = id_netns_device i
     \<and> netns_inode sp = id_netns_inode i"
| "operation_in_domain i (InfraAcquireIoFd infra _ _) \<longleftrightarrow> infra = cfg_infra_id (id_config i)"
| "operation_in_domain i (InfraReleaseIo infra _ _) \<longleftrightarrow> infra = cfg_infra_id (id_config i)"
| "operation_in_domain i (InfraRetire infra _) \<longleftrightarrow> infra = cfg_infra_id (id_config i)"
| "operation_in_domain i (ForwardPrepare infra _ owner d) \<longleftrightarrow>
     infra = cfg_infra_id (id_config i) \<and> domain_id owner = cfg_domain_id (id_config i)
     \<and> table_id d = cfg_table_id (id_config i)"
| "operation_in_domain i (ForwardPolicyUpdate owner _ _ _ d) \<longleftrightarrow>
     domain_id owner = cfg_domain_id (id_config i) \<and> table_id d = cfg_table_id (id_config i)"
| "operation_in_domain i (ForwardCommit owner) \<longleftrightarrow> domain_id owner = cfg_domain_id (id_config i)"
| "operation_in_domain i (ForwardAuthorize owner _) \<longleftrightarrow> domain_id owner = cfg_domain_id (id_config i)"
| "operation_in_domain i (ForwardCommitAuthorized owner _) \<longleftrightarrow>
     domain_id owner = cfg_domain_id (id_config i)"
| "operation_in_domain i (ForwardRevoke owner) \<longleftrightarrow> domain_id owner = cfg_domain_id (id_config i)"
| "operation_in_domain i (ForwardGuard owner) \<longleftrightarrow> domain_id owner = cfg_domain_id (id_config i)"
| "operation_in_domain i (ForwardLeaseRenew owner) \<longleftrightarrow> domain_id owner = cfg_domain_id (id_config i)"
| "operation_in_domain i (ForwardFailedPrefixes owner _ _) \<longleftrightarrow>
     domain_id owner = cfg_domain_id (id_config i)"
| "operation_in_domain i (InDomain _ _ _) \<longleftrightarrow> False"
| "operation_in_domain i Capabilities \<longleftrightarrow> True"
| "operation_in_domain i InfraStatus \<longleftrightarrow> True"
| "operation_in_domain i ForwardStatus \<longleftrightarrow> True"

definition validate_domain_operation :: "domain_identity \<Rightarrow> infra_operation \<Rightarrow> infra_error + unit" where
  "validate_domain_operation i op =
     ensure (Rejected ''domain_identity_conflict'') (operation_in_domain i op)"

definition validate_record :: "domain_identity \<Rightarrow> infra_state \<Rightarrow> forward_record \<Rightarrow> infra_error + unit" where
  "validate_record i st r =
     rbind (case pending_policy r of
         None \<Rightarrow> Inr ()
       | Some p \<Rightarrow> validate_domain_operation i (ForwardPolicyUpdate (fwd_owner r) (pending_revision p)
           (pending_generation p) (pending_hash p) (pending_declaration p))) (\<lambda>_.
     validate_domain_operation i (ForwardPrepare (cfg_infra_id (id_config i))
       (case spec st of None \<Rightarrow> 1 | Some sp \<Rightarrow> infra_generation sp) (fwd_owner r) (fwd_declaration r)))"

definition validate_journal :: "domain_identity \<Rightarrow> infra_state \<Rightarrow> infra_error + unit" where
  "validate_journal i st =
     rbind (case spec st of None \<Rightarrow> Inr ()
       | Some sp \<Rightarrow> validate_domain_operation i (InfraEnsure sp)) (\<lambda>_.
     rbind (case forwarding st of None \<Rightarrow> Inr () | Some r \<Rightarrow> validate_record i st r) (\<lambda>_.
     case candidate st of None \<Rightarrow> Inr () | Some r \<Rightarrow> validate_record i st r))"

section \<open>The table of I/O owners\<close>

record io_binding =
  bound_owner :: io_owner
  bound_token :: u64

type_synonym io_bindings = "(u128 \<times> io_binding) list"

definition same_io_process :: "io_owner \<Rightarrow> io_owner \<Rightarrow> bool" where
  "same_io_process a b \<longleftrightarrow>
     io_instance_id a = io_instance_id b
     \<or> (io_pid a = io_pid b \<and> io_start_ticks a = io_start_ticks b \<and> io_boot_id a = io_boot_id b)"

definition validate_io_binding ::
    "'d infra_platform \<Rightarrow> io_bindings \<Rightarrow> u128 \<Rightarrow> io_owner \<Rightarrow> infra_error + unit" where
  "validate_io_binding env bs domain owner =
     (if list_ex (\<lambda>(d, b). d \<noteq> domain \<and> io_owner_alive env (bound_owner b)
           \<and> same_io_process (bound_owner b) owner) bs
      then Inl (Rejected ''domain_io_owner_conflict'')
      else if (case map_of bs domain of None \<Rightarrow> False | Some b \<Rightarrow> io_owner_alive env (bound_owner b))
      then Inl (Rejected ''io_owner_alive'')
      else Inr ())"

record io_rollback =
  rollback_domain :: u128
  rollback_token :: u64
  rollback_previous :: "io_binding option"

definition io_rollback_apply :: "io_rollback \<Rightarrow> io_bindings \<Rightarrow> io_bindings" where
  "io_rollback_apply rb bs =
     (if (case map_of bs (rollback_domain rb) of None \<Rightarrow> False
          | Some b \<Rightarrow> bound_token b = rollback_token rb)
      then (case rollback_previous rb of
              Some previous \<Rightarrow> AList.update (rollback_domain rb) previous bs
            | None \<Rightarrow> AList.delete (rollback_domain rb) bs)
      else bs)"

text \<open>The reservation of a domain for an owner, with a fresh token.\<close>

definition reserve_binding ::
    "'d infra_platform \<Rightarrow> u128 \<Rightarrow> io_owner \<Rightarrow> u64 \<Rightarrow> io_bindings \<Rightarrow>
     infra_error + (io_rollback \<times> io_bindings)" where
  "reserve_binding env domain owner token bs =
     rbind (validate_io_binding env bs domain owner) (\<lambda>_.
     Inr (\<lparr>rollback_domain = domain, rollback_token = token, rollback_previous = map_of bs domain\<rparr>,
          AList.update domain \<lparr>bound_owner = owner, bound_token = token\<rparr> bs))"

end
