(* ===== verification/Netd_Router.thy ===== *)
theory Netd_Router
  imports Netd_Domains
begin

text \<open>
  The threads of the multi-domain service (\<^verbatim>\<open>candy-netd/src/v2/domains.rs\<close>, lines 435-1095). A caller of
  \<^verbatim>\<open>process_admitted\<close>, usually a front thread, and the worker thread of each domain advance
  independently; they share the pending budget, the table of I/O owners, the in-flight flag and the
  one-place queue of each domain, and the reply channel of each call. One step is one access to
  that shared state. \<open>router_step\<close> interleaves the steps of all threads with changes of the
  operating system around them.
\<close>

section \<open>Calls and workers\<close>

type_synonym 'd process_result = "infra_error + 'd reply"

record domain_request =
  dr_call :: nat
  dr_request :: infra_request
  dr_peer :: peer_credentials
  dr_now :: u64
  dr_rollback :: "io_rollback option"

text \<open>What \<^verbatim>\<open>run_domain\<close> is doing: \<open>WorkerFreed\<close> has dropped both permits and still has to reply.\<close>

datatype 'd worker_stage =
    WorkerIdle
  | WorkerTook domain_request
  | WorkerProcessed domain_request "'d process_result"
  | WorkerRolledBack domain_request "'d process_result"
  | WorkerReleased domain_request "'d process_result"
  | WorkerFreed domain_request "'d process_result"
  | WorkerRecovering

record ('d, 'f, 'b, 'j) domain_worker =
  w_identity :: domain_identity
  w_service :: "('d, 'f, 'b, 'j) infra_service"
  w_queue :: "domain_request option"
  w_inflight :: bool
  w_stage :: "'d worker_stage"

record call_data =
  c_request :: infra_request
  c_peer :: peer_credentials
  c_now :: u64
  c_domain :: u128
  c_owner :: "io_owner option"

text \<open>
  How far a call has come, with its request identifier once \<^verbatim>\<open>process_admitted\<close> has given up the
  request; \<open>CallResponding\<close> has returned from it.
\<close>

datatype 'd call_stage =
    CallQueued
  | CallReading
  | CallRouting infra_request peer_credentials u64
  | CallRouted call_data
  | CallClaimed call_data
  | CallAdmitted call_data
  | CallReserved call_data "io_rollback option"
  | CallWaiting u64 "io_rollback option"
  | CallReturning u64 "'d process_result" "io_rollback option"
  | CallResponding u64 "'d process_result"

text \<open>A lease lives as long as one of its two permits: the front thread's and the request's.\<close>

record control_lease =
  lease_bytes :: u64
  front_permit :: bool
  request_permit :: bool

record ('d, 'f, 'b, 'j) router =
  router_uid :: u32
  router_gid :: u32
  router_limits :: domain_budgets
  workers :: "u128 \<rightharpoonup> ('d, 'f, 'b, 'j) domain_worker"
  bindings :: io_bindings
  next_token :: u64
  pending :: pending_budget
  leases :: "nat \<rightharpoonup> control_lease"
  front_attached :: bool
  front_queue :: "nat list"
  idle_threads :: nat
  next_call :: nat
  calls :: "nat \<rightharpoonup> 'd call_stage"
  replies :: "nat \<rightharpoonup> 'd process_result"
  sent :: "(infra_response \<times> 'd option) list"
  system :: "'d infra_platform"

definition set_stage ::
    "nat \<Rightarrow> 'd call_stage \<Rightarrow> ('d, 'f, 'b, 'j) router \<Rightarrow> ('d, 'f, 'b, 'j) router" where
  "set_stage c stage r = r\<lparr>calls := (calls r)(c \<mapsto> stage)\<rparr>"

definition set_worker ::
    "u128 \<Rightarrow> ('d, 'f, 'b, 'j) domain_worker \<Rightarrow> ('d, 'f, 'b, 'j) router \<Rightarrow> ('d, 'f, 'b, 'j) router" where
  "set_worker d w r = r\<lparr>workers := (workers r)(d \<mapsto> w)\<rparr>"

text \<open>Dropping a permit; the last one gives its lease back to the budget.\<close>

definition drop_permit ::
    "(control_lease \<Rightarrow> control_lease) \<Rightarrow> nat \<Rightarrow> ('d, 'f, 'b, 'j) router \<Rightarrow> ('d, 'f, 'b, 'j) router" where
  "drop_permit forget c r =
     (case leases r c of
        None \<Rightarrow> r
      | Some l \<Rightarrow>
          if front_permit (forget l) \<or> request_permit (forget l)
          then r\<lparr>leases := (leases r)(c \<mapsto> forget l)\<rparr>
          else r\<lparr>leases := (leases r)(c := None), pending := release_budget (lease_bytes l) (pending r)\<rparr>)"

abbreviation drop_request_permit ::
    "nat \<Rightarrow> ('d, 'f, 'b, 'j) router \<Rightarrow> ('d, 'f, 'b, 'j) router" where
  "drop_request_permit \<equiv> drop_permit (request_permit_update (\<lambda>_. False))"

abbreviation drop_front_permit ::
    "nat \<Rightarrow> ('d, 'f, 'b, 'j) router \<Rightarrow> ('d, 'f, 'b, 'j) router" where
  "drop_front_permit \<equiv> drop_permit (front_permit_update (\<lambda>_. False))"

definition drop_domain_permit ::
    "u128 \<Rightarrow> ('d, 'f, 'b, 'j) router \<Rightarrow> ('d, 'f, 'b, 'j) router" where
  "drop_domain_permit d r =
     (case workers r d of None \<Rightarrow> r | Some w \<Rightarrow> set_worker d (w\<lparr>w_inflight := False\<rparr>) r)"

section \<open>The front\<close>

text \<open>
  \<^verbatim>\<open>FrontDispatcher::new\<close>: one pool of front threads at a time; \<open>spawned\<close> says whether every thread could
  be started, and a pool that could not be completed is dropped again. Dropping a pool waits until
  its threads have served the queued requests.
\<close>

definition attach_front ::
    "bool \<Rightarrow> ('d, 'f, 'b, 'j) router \<Rightarrow> (infra_error + unit) \<times> ('d, 'f, 'b, 'j) router" where
  "attach_front spawned r =
     (if front_attached r then (Inl (Rejected ''domain_front_already_attached''), r)
      else if \<not> spawned then (Inl InfraJournal, r)
      else (Inr (), r\<lparr>front_attached := True,
              idle_threads := unat (front_control_threads (router_limits r))\<rparr>))"

definition detach_front :: "('d, 'f, 'b, 'j) router \<Rightarrow> ('d, 'f, 'b, 'j) router" where
  "detach_front r =
     (if front_queue r = [] \<and> idle_threads r = unat (front_control_threads (router_limits r))
      then r\<lparr>front_attached := False, idle_threads := 0\<rparr> else r)"

text \<open>
  Calls are numbered, so that a reply channel belongs to one call only. \<^verbatim>\<open>FrontDispatcher::dispatch\<close>
  for a new connection \<open>c\<close>: the channel holds as many requests as there
  are front threads, and a refused request drops its permit.
\<close>

definition dispatch_front ::
    "bool \<Rightarrow> ('d, 'f, 'b, 'j) router \<Rightarrow> (infra_error + unit) \<times> ('d, 'f, 'b, 'j) router" where
  "dispatch_front timeout_set r =
     (case reserve_budget (router_limits r) FRONT_REQUEST_BYTES (pending r) of
        Inl e \<Rightarrow> (Inl e, r)
      | Inr p \<Rightarrow>
          let c = next_call r;
              r = r\<lparr>next_call := Suc c, pending := p, leases := (leases r)(c \<mapsto>
                \<lparr>lease_bytes = FRONT_REQUEST_BYTES, front_permit = False, request_permit = True\<rparr>)\<rparr> in
          if \<not> timeout_set then (Inl InfraJournal, drop_request_permit c r)
          else if length (front_queue r) \<ge> unat (front_control_threads (router_limits r))
          then (Inl (Rejected ''domain_front_busy''), drop_request_permit c r)
          else (Inr (), set_stage c CallQueued (r\<lparr>front_queue := front_queue r @ [c]\<rparr>)))"

text \<open>\<^verbatim>\<open>MultiDomainService::process\<close>, called without an admitted permit.\<close>

definition call_direct ::
    "infra_request \<Rightarrow> peer_credentials \<Rightarrow> u64 \<Rightarrow> ('d, 'f, 'b, 'j) router \<Rightarrow> ('d, 'f, 'b, 'j) router" where
  "call_direct req peer now r =
     set_stage (next_call r) (CallRouting req peer now) (r\<lparr>next_call := Suc (next_call r)\<rparr>)"

text \<open>A front thread takes the oldest request and keeps a second permit for its response.\<close>

definition front_take :: "('d, 'f, 'b, 'j) router \<Rightarrow> ('d, 'f, 'b, 'j) router" where
  "front_take r =
     (case front_queue r of
        [] \<Rightarrow> r
      | c # rest \<Rightarrow>
          if idle_threads r = 0 then r
          else
            set_stage c CallReading (r\<lparr>front_queue := rest, idle_threads := idle_threads r - 1,
              leases := (leases r)(c := map_option (\<lambda>l. l\<lparr>front_permit := True\<rparr>) (leases r c))\<rparr>))"

text \<open>The end of \<^verbatim>\<open>serve_admitted\<close>: the permit of the response is dropped and the thread is free.\<close>

definition front_done :: "nat \<Rightarrow> ('d, 'f, 'b, 'j) router \<Rightarrow> ('d, 'f, 'b, 'j) router" where
  "front_done c r =
     (let threads = (case leases r c of None \<Rightarrow> 0 | Some l \<Rightarrow> if front_permit l then 1 else 0) in
      drop_front_permit c (r\<lparr>calls := (calls r)(c := None), replies := (replies r)(c := None),
        idle_threads := idle_threads r + threads\<rparr>))"

text \<open>\<open>received\<close> is what \<^verbatim>\<open>peer_credentials\<close> and \<^verbatim>\<open>recv_request_until\<close> return, with the clock; any may fail.\<close>

definition call_read ::
    "nat \<Rightarrow> (infra_request \<times> peer_credentials \<times> u64) option \<Rightarrow> ('d, 'f, 'b, 'j) router \<Rightarrow>
     ('d, 'f, 'b, 'j) router" where
  "call_read c received r =
     (case received of
        None \<Rightarrow> front_done c (drop_request_permit c r)
      | Some (req, peer, now) \<Rightarrow> set_stage c (CallRouting req peer now) r)"

datatype routed = Answered infra_body | Routed call_data

text \<open>The owner an acquisition would bind, checked against the table and the caller's namespace.\<close>

definition claimed_owner ::
    "'d infra_platform \<Rightarrow> (u64 \<times> u64) option \<Rightarrow> domain_identity \<Rightarrow> io_bindings \<Rightarrow> u128 \<Rightarrow>
     infra_request \<Rightarrow> infra_operation \<Rightarrow> infra_error + io_owner option" where
  "claimed_owner env caller_ns i bs domain req op =
     (case op of
        InfraAcquireIoFd _ _ epoch \<Rightarrow>
          rbind (current_boot_id env) (\<lambda>boot.
          rbind (process_start_ticks env (caller_pid req)) (\<lambda>ticks.
          let owner = \<lparr>io_instance_id = caller_instance_id req, io_pid = caller_pid req,
                io_epoch = epoch, io_boot_id = boot, io_start_ticks = ticks\<rparr> in
          rbind (validate_io_binding env bs domain owner) (\<lambda>_.
          rbind (ok_or InfraJournal caller_ns) (\<lambda>ns.
          if ns \<noteq> (id_netns_device i, id_netns_inode i)
          then Inl (Rejected ''domain_io_namespace_conflict'')
          else Inr (Some owner)))))
      | _ \<Rightarrow> Inr None)"

definition route_request ::
    "(u64 \<times> u64) option \<Rightarrow> infra_request \<Rightarrow> peer_credentials \<Rightarrow> u64 \<Rightarrow> ('d, 'f, 'b, 'j) router \<Rightarrow>
     infra_error + routed" where
  "route_request caller_ns req peer now r =
     rbind (map_err (\<lambda>_. Rejected ''invalid_request'') (validate_infra_request req)) (\<lambda>_.
     if peer_uid peer \<noteq> router_uid r \<or> peer_gid peer \<noteq> router_gid r \<or> peer_pid peer \<noteq> caller_pid req
     then Inl (Rejected ''unauthorized_peer'')
     else if infra_operation req = Capabilities then Inr (Answered (CapabilitiesBody 2 True True))
     else
       (case infra_operation req of
          InDomain domain infra op \<Rightarrow>
            rbind (ok_or (Rejected ''domain_unknown'') (workers r domain)) (\<lambda>w.
            if infra \<noteq> cfg_infra_id (id_config (w_identity w))
            then Inl (Rejected ''domain_identity_conflict'')
            else
              rbind (validate_domain_operation (w_identity w) op) (\<lambda>_.
              rbind (claimed_owner (system r) caller_ns (w_identity w) (bindings r) domain req op) (\<lambda>owner.
              Inr (Routed \<lparr>c_request = req\<lparr>infra_operation := op\<rparr>, c_peer = peer, c_now = now,
                c_domain = domain, c_owner = owner\<rparr>))))
        | _ \<Rightarrow> Inl (Rejected ''domain_scope_required'')))"

text \<open>A return from \<^verbatim>\<open>process_admitted\<close> before the request is queued drops its permit.\<close>

definition call_return ::
    "nat \<Rightarrow> u64 \<Rightarrow> 'd process_result \<Rightarrow> ('d, 'f, 'b, 'j) router \<Rightarrow> ('d, 'f, 'b, 'j) router" where
  "call_return c req result r = drop_request_permit c (set_stage c (CallResponding req result) r)"

definition call_route ::
    "nat \<Rightarrow> (u64 \<times> u64) option \<Rightarrow> infra_request \<Rightarrow> peer_credentials \<Rightarrow> u64 \<Rightarrow>
     ('d, 'f, 'b, 'j) router \<Rightarrow> ('d, 'f, 'b, 'j) router" where
  "call_route c caller_ns req peer now r =
     (case route_request caller_ns req peer now r of
        Inl e \<Rightarrow> call_return c (infra_request_id req) (Inl e) r
      | Inr (Answered answer) \<Rightarrow> call_return c (infra_request_id req) (Inr (answer, None)) r
      | Inr (Routed cd) \<Rightarrow> set_stage c (CallRouted cd) r)"

abbreviation c_id :: "call_data \<Rightarrow> u64" where
  "c_id cd \<equiv> infra_request_id (c_request cd)"

text \<open>\<^verbatim>\<open>inflight.compare_exchange(false, true)\<close>\<close>

definition call_claim ::
    "nat \<Rightarrow> call_data \<Rightarrow> ('d, 'f, 'b, 'j) router \<Rightarrow> ('d, 'f, 'b, 'j) router" where
  "call_claim c cd r =
     (case workers r (c_domain cd) of
        None \<Rightarrow> r
      | Some w \<Rightarrow>
          if w_inflight w then call_return c (c_id cd) (Inl (Rejected ''domain_worker_busy'')) r
          else set_stage c (CallClaimed cd) (set_worker (c_domain cd) (w\<lparr>w_inflight := True\<rparr>) r))"

text \<open>An error while the domain is claimed drops the domain's permit as well.\<close>

definition call_abort ::
    "nat \<Rightarrow> call_data \<Rightarrow> infra_error \<Rightarrow> ('d, 'f, 'b, 'j) router \<Rightarrow> ('d, 'f, 'b, 'j) router" where
  "call_abort c cd e r = drop_domain_permit (c_domain cd) (call_return c (c_id cd) (Inl e) r)"

definition call_admit ::
    "nat \<Rightarrow> memory_layout \<Rightarrow> call_data \<Rightarrow> ('d, 'f, 'b, 'j) router \<Rightarrow> ('d, 'f, 'b, 'j) router" where
  "call_admit c M cd r =
     (case request_queue_bytes M (infra_operation (c_request cd)) of
        Inl e \<Rightarrow> call_abort c cd e r
      | Inr amount \<Rightarrow>
          (case leases r c of
             Some l \<Rightarrow>
               (case resize_budget (router_limits r) (lease_bytes l) (max amount FRONT_REQUEST_BYTES)
                       (pending r) of
                  Inl e \<Rightarrow> call_abort c cd e r
                | Inr p \<Rightarrow> set_stage c (CallAdmitted cd) (r\<lparr>pending := p, leases := (leases r)(c \<mapsto>
                    l\<lparr>lease_bytes := max amount FRONT_REQUEST_BYTES\<rparr>)\<rparr>))
           | None \<Rightarrow>
               (case reserve_budget (router_limits r) amount (pending r) of
                  Inl e \<Rightarrow> call_abort c cd e r
                | Inr p \<Rightarrow> set_stage c (CallAdmitted cd) (r\<lparr>pending := p, leases := (leases r)(c \<mapsto>
                    \<lparr>lease_bytes = amount, front_permit = False, request_permit = True\<rparr>)\<rparr>))))"

text \<open>
  The token is drawn and used in one step: the counter is read nowhere else, so that drawing it
  commutes with the steps of the other threads.
\<close>

definition call_reserve ::
    "nat \<Rightarrow> call_data \<Rightarrow> ('d, 'f, 'b, 'j) router \<Rightarrow> ('d, 'f, 'b, 'j) router" where
  "call_reserve c cd r =
     (case c_owner cd of
        None \<Rightarrow> set_stage c (CallReserved cd None) r
      | Some owner \<Rightarrow>
          (case checked_add (next_token r) 1 of
             None \<Rightarrow> call_abort c cd (Rejected ''domain_io_binding_unavailable'') r
           | Some later \<Rightarrow>
               (case reserve_binding (system r) (c_domain cd) owner (next_token r) (bindings r) of
                  Inl e \<Rightarrow> call_abort c cd e (r\<lparr>next_token := later\<rparr>)
                | Inr (rb, bs) \<Rightarrow>
                    set_stage c (CallReserved cd (Some rb)) (r\<lparr>next_token := later, bindings := bs\<rparr>))))"

text \<open>\<^verbatim>\<open>try_send\<close> to the one-place queue of the domain; a refused request is dropped with its permits.\<close>

definition call_send ::
    "nat \<Rightarrow> call_data \<Rightarrow> io_rollback option \<Rightarrow> ('d, 'f, 'b, 'j) router \<Rightarrow> ('d, 'f, 'b, 'j) router" where
  "call_send c cd rb r =
     (case workers r (c_domain cd) of
        None \<Rightarrow> r
      | Some w \<Rightarrow>
          if w_queue w \<noteq> None
          then drop_domain_permit (c_domain cd) (drop_request_permit c
            (set_stage c (CallReturning (c_id cd) (Inl (Rejected ''domain_worker_busy'')) rb) r))
          else set_stage c (CallWaiting (c_id cd) rb) (set_worker (c_domain cd)
            (w\<lparr>w_queue := Some \<lparr>dr_call = c, dr_request = c_request cd, dr_peer = c_peer cd,
               dr_now = c_now cd, dr_rollback = rb\<rparr>\<rparr>) r))"

text \<open>\<^verbatim>\<open>recv_timeout\<close>: the reply if there is one, otherwise the timeout may fire.\<close>

definition call_receive ::
    "nat \<Rightarrow> u64 \<Rightarrow> io_rollback option \<Rightarrow> ('d, 'f, 'b, 'j) router \<Rightarrow> ('d, 'f, 'b, 'j) router" where
  "call_receive c req rb r =
     (case replies r c of
        Some result \<Rightarrow> set_stage c (CallReturning req result rb) (r\<lparr>replies := (replies r)(c := None)\<rparr>)
      | None \<Rightarrow> set_stage c (CallReturning req (Inl (Rejected ''domain_operation_pending'')) rb) r)"

definition rolls_back :: "'d process_result \<Rightarrow> bool" where
  "rolls_back result =
     (case result of Inr _ \<Rightarrow> False | Inl e \<Rightarrow> e \<noteq> Rejected ''domain_operation_pending'')"

definition roll_back_binding ::
    "io_rollback option \<Rightarrow> ('d, 'f, 'b, 'j) router \<Rightarrow> ('d, 'f, 'b, 'j) router" where
  "roll_back_binding rb r =
     (case rb of None \<Rightarrow> r | Some rb \<Rightarrow> r\<lparr>bindings := io_rollback_apply rb (bindings r)\<rparr>)"

definition call_finish ::
    "nat \<Rightarrow> u64 \<Rightarrow> 'd process_result \<Rightarrow> io_rollback option \<Rightarrow> ('d, 'f, 'b, 'j) router \<Rightarrow>
     ('d, 'f, 'b, 'j) router" where
  "call_finish c req result rb r =
     set_stage c (CallResponding req result) (if rolls_back result then roll_back_binding rb r else r)"

fun domain_error_code :: "infra_error \<Rightarrow> string" where
  "domain_error_code (Rejected code) = code"
| "domain_error_code (ResourceBudget _ _ _) = ''domain_resource_budget_exceeded''"
| "domain_error_code _ = ''domain_system_failure''"

definition domain_respond :: "u64 \<Rightarrow> 'd process_result \<Rightarrow> infra_response \<times> 'd option" where
  "domain_respond req result =
     (case result of
        Inl e \<Rightarrow> (\<lparr>infra_response_id = req,
                   infra_body = ErrorBody (domain_error_code e) ''netd_domains''\<rparr>, None)
      | Inr (answer, descriptor) \<Rightarrow> (\<lparr>infra_response_id = req, infra_body = answer\<rparr>, descriptor))"

text \<open>Sending may fail, which only ends the thread's work on the call.\<close>

definition call_respond ::
    "nat \<Rightarrow> u64 \<Rightarrow> 'd process_result \<Rightarrow> bool \<Rightarrow> ('d, 'f, 'b, 'j) router \<Rightarrow> ('d, 'f, 'b, 'j) router" where
  "call_respond c req result delivered r =
     front_done c (if delivered then r\<lparr>sent := domain_respond req result # sent r\<rparr> else r)"

section \<open>The worker of a domain\<close>

definition work_take ::
    "u128 \<Rightarrow> ('d, 'f, 'b, 'j) domain_worker \<Rightarrow> ('d, 'f, 'b, 'j) router \<Rightarrow> ('d, 'f, 'b, 'j) router" where
  "work_take d w r =
     (case w_queue w of
        None \<Rightarrow> set_worker d (w\<lparr>w_stage := WorkerRecovering\<rparr>) r
      | Some dr \<Rightarrow> set_worker d (w\<lparr>w_queue := None, w_stage := WorkerTook dr\<rparr>) r)"

definition work_process ::
    "('d, 'f, 'b, 'j) infra_world \<Rightarrow> u128 \<Rightarrow> ('d, 'f, 'b, 'j) domain_worker \<Rightarrow> domain_request \<Rightarrow>
     ('d, 'f, 'b, 'j) router \<Rightarrow> ('d, 'f, 'b, 'j) router" where
  "work_process W d w dr r =
     (case infra_process W (dr_request dr) (dr_peer dr) (dr_now dr) (w_service w) of
        (result, service) \<Rightarrow>
          set_worker d (w\<lparr>w_service := service, w_stage := WorkerProcessed dr result\<rparr>) r)"

definition work_roll_back ::
    "u128 \<Rightarrow> ('d, 'f, 'b, 'j) domain_worker \<Rightarrow> domain_request \<Rightarrow> 'd process_result \<Rightarrow>
     ('d, 'f, 'b, 'j) router \<Rightarrow> ('d, 'f, 'b, 'j) router" where
  "work_roll_back d w dr result r =
     set_worker d (w\<lparr>w_stage := WorkerRolledBack dr result\<rparr>)
       (if is_ok result then r else roll_back_binding (dr_rollback dr) r)"

definition work_release ::
    "u128 \<Rightarrow> ('d, 'f, 'b, 'j) domain_worker \<Rightarrow> domain_request \<Rightarrow> 'd process_result \<Rightarrow>
     ('d, 'f, 'b, 'j) router \<Rightarrow> ('d, 'f, 'b, 'j) router" where
  "work_release d w dr result r =
     drop_request_permit (dr_call dr) (set_worker d (w\<lparr>w_stage := WorkerReleased dr result\<rparr>) r)"

definition work_free ::
    "u128 \<Rightarrow> ('d, 'f, 'b, 'j) domain_worker \<Rightarrow> domain_request \<Rightarrow> 'd process_result \<Rightarrow>
     ('d, 'f, 'b, 'j) router \<Rightarrow> ('d, 'f, 'b, 'j) router" where
  "work_free d w dr result r =
     set_worker d (w\<lparr>w_inflight := False, w_stage := WorkerFreed dr result\<rparr>) r"

text \<open>A reply nobody waits for any more is dropped.\<close>

definition awaits_reply :: "('d, 'f, 'b, 'j) router \<Rightarrow> nat \<Rightarrow> bool" where
  "awaits_reply r c = (case calls r c of Some (CallWaiting _ _) \<Rightarrow> True | _ \<Rightarrow> False)"

definition work_reply ::
    "u128 \<Rightarrow> ('d, 'f, 'b, 'j) domain_worker \<Rightarrow> domain_request \<Rightarrow> 'd process_result \<Rightarrow>
     ('d, 'f, 'b, 'j) router \<Rightarrow> ('d, 'f, 'b, 'j) router" where
  "work_reply d w dr result r =
     set_worker d (w\<lparr>w_stage := WorkerRecovering\<rparr>)
       (if awaits_reply r (dr_call dr) then r\<lparr>replies := (replies r)(dr_call dr \<mapsto> result)\<rparr> else r)"

definition work_recover ::
    "('d, 'f, 'b, 'j) infra_world \<Rightarrow> u64 option \<Rightarrow> u128 \<Rightarrow> ('d, 'f, 'b, 'j) domain_worker \<Rightarrow>
     ('d, 'f, 'b, 'j) router \<Rightarrow> ('d, 'f, 'b, 'j) router" where
  "work_recover W clock d w r =
     (case clock of
        None \<Rightarrow> set_worker d (w\<lparr>w_stage := WorkerIdle\<rparr>) r
      | Some now \<Rightarrow> set_worker d (w\<lparr>w_service := snd (recover_expired W now (w_service w)),
          w_stage := WorkerIdle\<rparr>) r)"

section \<open>Interleaving\<close>

inductive router_step :: "('d, 'f, 'b, 'j) router \<Rightarrow> ('d, 'f, 'b, 'j) router \<Rightarrow> bool" where
  attach: "attach_front spawned r = (result, r') \<Longrightarrow> router_step r r'"
| detach: "front_attached r \<Longrightarrow> router_step r (detach_front r)"
| connect: "front_attached r \<Longrightarrow> dispatch_front timeout_set r = (result, r') \<Longrightarrow> router_step r r'"
| direct: "router_step r (call_direct req peer now r)"
| take: "router_step r (front_take r)"
| read: "calls r c = Some CallReading \<Longrightarrow> router_step r (call_read c received r)"
| route: "calls r c = Some (CallRouting req peer now) \<Longrightarrow>
    router_step r (call_route c caller_ns req peer now r)"
| claim: "calls r c = Some (CallRouted cd) \<Longrightarrow> router_step r (call_claim c cd r)"
| admit: "calls r c = Some (CallClaimed cd) \<Longrightarrow> router_step r (call_admit c M cd r)"
| reserve: "calls r c = Some (CallAdmitted cd) \<Longrightarrow> router_step r (call_reserve c cd r)"
| send: "calls r c = Some (CallReserved cd rb) \<Longrightarrow> router_step r (call_send c cd rb r)"
| receive: "calls r c = Some (CallWaiting req rb) \<Longrightarrow> router_step r (call_receive c req rb r)"
| finish: "calls r c = Some (CallReturning req result rb) \<Longrightarrow>
    router_step r (call_finish c req result rb r)"
| respond: "calls r c = Some (CallResponding req result) \<Longrightarrow>
    router_step r (call_respond c req result delivered r)"
| work_take: "workers r d = Some w \<Longrightarrow> w_stage w = WorkerIdle \<Longrightarrow> router_step r (work_take d w r)"
| work_process: "workers r d = Some w \<Longrightarrow> w_stage w = WorkerTook dr \<Longrightarrow> os W = system r \<Longrightarrow>
    router_step r (work_process W d w dr r)"
| work_roll_back: "workers r d = Some w \<Longrightarrow> w_stage w = WorkerProcessed dr result \<Longrightarrow>
    router_step r (work_roll_back d w dr result r)"
| work_release: "workers r d = Some w \<Longrightarrow> w_stage w = WorkerRolledBack dr result \<Longrightarrow>
    router_step r (work_release d w dr result r)"
| work_free: "workers r d = Some w \<Longrightarrow> w_stage w = WorkerReleased dr result \<Longrightarrow>
    router_step r (work_free d w dr result r)"
| work_reply: "workers r d = Some w \<Longrightarrow> w_stage w = WorkerFreed dr result \<Longrightarrow>
    router_step r (work_reply d w dr result r)"
| work_recover: "workers r d = Some w \<Longrightarrow> w_stage w = WorkerRecovering \<Longrightarrow> os W = system r \<Longrightarrow>
    router_step r (work_recover W clock d w r)"
| system: "router_step r (r\<lparr>system := env\<rparr>)"

end
