(* ===== verification/Netd_Router_Laws.thy ===== *)
theory Netd_Router_Laws
  imports Netd_Router Netd_Infra_Properties
begin

text \<open>
  What every interleaving of the router's threads keeps: the pending budget is exactly what the
  outstanding leases hold, a lease is held by somebody, a domain has at most one request in flight,
  and every worker's state stays inside its domain.
\<close>

section \<open>Checked arithmetic\<close>

lemma checked_add_Some: "checked_add a b = Some c \<longleftrightarrow> unat a + unat b < 2 ^ 64 \<and> c = a + b"
proof -
  have "a + b < a \<longleftrightarrow> \<not> unat a + unat b < 2 ^ 64"
    using no_olen_add_nat [of a b] by (auto simp: not_le word_less_nat_alt word_le_nat_alt)
  then show ?thesis by (auto simp: checked_add_def)
qed

lemma checked_mul_Some: "checked_mul a b = Some c \<longleftrightarrow> unat a * unat b < 2 ^ 64 \<and> c = a * b"
  by (auto simp: checked_mul_def)

lemma checked_sub_Some: "checked_sub a b = Some c \<longleftrightarrow> b \<le> a \<and> c = a - b"
  by (auto simp: checked_sub_def not_less)

lemma checked_unat:
  "checked_add a b = Some c \<Longrightarrow> unat c = unat a + unat b"
  "checked_mul a b = Some c \<Longrightarrow> unat c = unat a * unat b"
  "checked_sub a b = Some c \<Longrightarrow> unat c = unat a - unat b \<and> unat b \<le> unat a"
  by (auto simp: checked_add_Some checked_mul_Some checked_sub_Some unat_word_ariths word_le_nat_alt
      unat_sub)

lemma budget_ok: "budget name required allowed = Inr u \<longleftrightarrow> required \<le> allowed"
  by (auto simp: budget_def)

lemmas rbind_ok = rbind_eq_Inr ok_or_eq budget_ok

section \<open>The pending budget\<close>

definition leased :: "(nat \<rightharpoonup> control_lease) \<Rightarrow> nat" where
  "leased ls = (\<Sum>c \<in> dom ls. unat (lease_bytes (the (ls c))))"

definition budget_inv :: "('d, 'f, 'b, 'j) router \<Rightarrow> bool" where
  "budget_inv r \<longleftrightarrow>
     finite (dom (leases r))
     \<and> unat (pending_requests (pending r)) = card (dom (leases r))
     \<and> unat (pending_bytes (pending r)) = leased (leases r)
     \<and> pending_requests (pending r) \<le> max_pending_control_requests (router_limits r)
     \<and> pending_bytes (pending r) \<le> max_pending_control_bytes (router_limits r)"

lemma budget_inv_cong:
  "leases r = leases r' \<Longrightarrow> pending r = pending r' \<Longrightarrow> router_limits r = router_limits r' \<Longrightarrow>
    budget_inv r = budget_inv r'"
  by (simp add: budget_inv_def)

lemma leased_insert:
  assumes "finite (dom ls)"
  shows "leased (ls(c \<mapsto> l)) = leased (ls(c := None)) + unat (lease_bytes l)"
proof -
  have "leased (ls(c \<mapsto> l)) = (\<Sum>x \<in> insert c (dom ls - {c}). unat (lease_bytes (the ((ls(c \<mapsto> l)) x))))"
    unfolding leased_def by (rule sum.cong) auto
  also have "\<dots> = unat (lease_bytes l) + (\<Sum>x \<in> dom ls - {c}. unat (lease_bytes (the ((ls(c \<mapsto> l)) x))))"
    using assms by (subst sum.insert) simp_all
  also have "(\<Sum>x \<in> dom ls - {c}. unat (lease_bytes (the ((ls(c \<mapsto> l)) x)))) = leased (ls(c := None))"
    unfolding leased_def by (rule sum.cong) auto
  finally show ?thesis by (simp only: add.commute)
qed

lemma leased_remove:
  assumes "finite (dom ls)" and "ls c = Some l"
  shows "leased ls = leased (ls(c := None)) + unat (lease_bytes l)"
  using leased_insert [OF assms(1), of c l] assms(2) by (simp add: fun_upd_idem)

lemma card_remove_lease:
  assumes "finite (dom ls)" and "ls c = Some l"
  shows "card (dom ls) = Suc (card (dom (ls(c := None))))"
proof -
  have "c \<in> dom ls" "dom (ls(c := None)) = dom ls - {c}" using assms(2) by auto
  with assms(1) show ?thesis by (simp only: card.remove)
qed

lemma budget_inv_lease_flags:
  assumes "budget_inv r" and "leases r c = Some l" and "lease_bytes l' = lease_bytes l"
  shows "budget_inv (r\<lparr>leases := (leases r)(c \<mapsto> l')\<rparr>)"
proof -
  have "leased ((leases r)(c \<mapsto> l')) = leased (leases r)"
    using assms leased_insert [of "leases r" c l'] leased_remove [of "leases r" c l]
    by (simp add: budget_inv_def)
  moreover have "dom ((leases r)(c \<mapsto> l')) = dom (leases r)"
    using assms(2) by auto
  ultimately show ?thesis using assms(1) by (simp add: budget_inv_def)
qed

lemma budget_inv_release:
  assumes inv: "budget_inv r" and l: "leases r c = Some l"
  shows "budget_inv (r\<lparr>leases := (leases r)(c := None), pending := release_budget (lease_bytes l) (pending r)\<rparr>)"
proof -
  note parts = inv [unfolded budget_inv_def]
  have card: "card (dom (leases r)) = Suc (card (dom ((leases r)(c := None))))"
    using parts l by (intro card_remove_lease) simp_all
  have bytes: "leased (leases r) = leased ((leases r)(c := None)) + unat (lease_bytes l)"
    using parts l by (auto intro: leased_remove)
  have "unat (pending_requests (pending r) - 1) = card (dom ((leases r)(c := None)))"
    using parts card by (subst unat_sub) (auto simp: word_le_nat_alt)
  moreover have "unat (pending_bytes (pending r) - lease_bytes l) = leased ((leases r)(c := None))"
    using parts bytes by (subst unat_sub) (auto simp: word_le_nat_alt)
  moreover have "pending_requests (pending r) - 1 \<le> pending_requests (pending r)"
    using parts card by (auto simp: word_le_nat_alt unat_sub)
  moreover have "pending_bytes (pending r) - lease_bytes l \<le> pending_bytes (pending r)"
    using parts bytes by (simp add: word_le_nat_alt unat_sub)
  ultimately show ?thesis
    using parts by (auto simp: budget_inv_def release_budget_def)
qed

lemma budget_inv_drop_permit:
  assumes "budget_inv r" and "\<And>l. lease_bytes (forget l) = lease_bytes l"
  shows "budget_inv (drop_permit forget c r)"
  using assms budget_inv_release [of r c] budget_inv_lease_flags [of r c]
  by (auto simp: drop_permit_def split: option.splits)

lemma budget_inv_reserve:
  assumes inv: "budget_inv r" and p: "reserve_budget (router_limits r) amount (pending r) = Inr p"
    and free: "leases r c = None" and l: "lease_bytes l = amount"
  shows "budget_inv (r\<lparr>pending := p, leases := (leases r)(c \<mapsto> l)\<rparr>)"
proof -
  have "leased ((leases r)(c \<mapsto> l)) = leased (leases r) + unat amount"
    using inv free l leased_insert [of "leases r" c l] by (simp add: budget_inv_def fun_upd_idem)
  moreover have "card (dom ((leases r)(c \<mapsto> l))) = Suc (card (dom (leases r)))"
    using inv free by (simp add: budget_inv_def domIff)
  ultimately show ?thesis
    using inv p by (auto simp: budget_inv_def reserve_budget_def Let_def rbind_ok dest!: checked_unat)
qed

lemma budget_inv_resize:
  assumes inv: "budget_inv r" and lease: "leases r c = Some l"
    and p: "resize_budget (router_limits r) (lease_bytes l) amount (pending r) = Inr p"
  shows "budget_inv (r\<lparr>pending := p, leases := (leases r)(c \<mapsto> l\<lparr>lease_bytes := amount\<rparr>)\<rparr>)"
proof -
  have "dom ((leases r)(c \<mapsto> l\<lparr>lease_bytes := amount\<rparr>)) = dom (leases r)"
    using lease by auto
  moreover have "leased (leases r) = leased ((leases r)(c := None)) + unat (lease_bytes l)"
    using inv lease by (auto simp: budget_inv_def intro: leased_remove)
  moreover have "leased ((leases r)(c \<mapsto> l\<lparr>lease_bytes := amount\<rparr>)) = leased ((leases r)(c := None)) + unat amount"
    using inv leased_insert [of "leases r" c "l\<lparr>lease_bytes := amount\<rparr>"] by (simp add: budget_inv_def)
  ultimately show ?thesis
    using inv p
    by (auto simp: budget_inv_def resize_budget_def rbind_ok Option.bind_eq_Some_conv
        dest!: checked_unat)
qed

text \<open>The parts of the router an operation on another part leaves alone.\<close>

lemma set_stage_simps [simp]:
  "leases (set_stage c s r) = leases r" "pending (set_stage c s r) = pending r"
  "router_limits (set_stage c s r) = router_limits r" "workers (set_stage c s r) = workers r"
  "bindings (set_stage c s r) = bindings r" "next_token (set_stage c s r) = next_token r"
  "system (set_stage c s r) = system r" "calls (set_stage c s r) = (calls r)(c \<mapsto> s)"
  "front_queue (set_stage c s r) = front_queue r" "next_call (set_stage c s r) = next_call r"
  "replies (set_stage c s r) = replies r"
  by (simp_all add: set_stage_def)

lemma set_worker_simps [simp]:
  "leases (set_worker d w r) = leases r" "pending (set_worker d w r) = pending r"
  "router_limits (set_worker d w r) = router_limits r" "workers (set_worker d w r) = (workers r)(d \<mapsto> w)"
  "bindings (set_worker d w r) = bindings r" "next_token (set_worker d w r) = next_token r"
  "system (set_worker d w r) = system r" "calls (set_worker d w r) = calls r"
  "front_queue (set_worker d w r) = front_queue r" "next_call (set_worker d w r) = next_call r"
  "replies (set_worker d w r) = replies r"
  by (simp_all add: set_worker_def)

lemma drop_permit_simps [simp]:
  "router_limits (drop_permit f c r) = router_limits r" "workers (drop_permit f c r) = workers r"
  "bindings (drop_permit f c r) = bindings r" "next_token (drop_permit f c r) = next_token r"
  "system (drop_permit f c r) = system r" "calls (drop_permit f c r) = calls r"
  "front_queue (drop_permit f c r) = front_queue r" "next_call (drop_permit f c r) = next_call r"
  "replies (drop_permit f c r) = replies r"
  by (simp_all add: drop_permit_def split: option.splits)

lemma drop_domain_permit_simps [simp]:
  "leases (drop_domain_permit d r) = leases r" "pending (drop_domain_permit d r) = pending r"
  "router_limits (drop_domain_permit d r) = router_limits r"
  "bindings (drop_domain_permit d r) = bindings r" "next_token (drop_domain_permit d r) = next_token r"
  "system (drop_domain_permit d r) = system r" "calls (drop_domain_permit d r) = calls r"
  "front_queue (drop_domain_permit d r) = front_queue r" "next_call (drop_domain_permit d r) = next_call r"
  "replies (drop_domain_permit d r) = replies r"
  "workers (drop_domain_permit d r)
   = (workers r)(d := map_option (\<lambda>w. w\<lparr>w_inflight := False\<rparr>) (workers r d))"
  by (auto simp: drop_domain_permit_def split: option.splits)

lemma roll_back_binding_simps [simp]:
  "leases (roll_back_binding rb r) = leases r" "pending (roll_back_binding rb r) = pending r"
  "router_limits (roll_back_binding rb r) = router_limits r" "workers (roll_back_binding rb r) = workers r"
  "next_token (roll_back_binding rb r) = next_token r" "system (roll_back_binding rb r) = system r"
  "calls (roll_back_binding rb r) = calls r" "front_queue (roll_back_binding rb r) = front_queue r"
  "next_call (roll_back_binding rb r) = next_call r" "replies (roll_back_binding rb r) = replies r"
  by (simp_all add: roll_back_binding_def split: option.splits)

lemma budget_inv_frame [simp]:
  "budget_inv (set_stage c s r) = budget_inv r" "budget_inv (set_worker d w r) = budget_inv r"
  "budget_inv (drop_domain_permit d r) = budget_inv r" "budget_inv (roll_back_binding rb r) = budget_inv r"
  "budget_inv (r\<lparr>next_token := t\<rparr>) = budget_inv r" "budget_inv (r\<lparr>bindings := bs\<rparr>) = budget_inv r"
  "budget_inv (r\<lparr>replies := rs\<rparr>) = budget_inv r" "budget_inv (r\<lparr>calls := cs\<rparr>) = budget_inv r"
  "budget_inv (r\<lparr>front_queue := q\<rparr>) = budget_inv r" "budget_inv (r\<lparr>idle_threads := n\<rparr>) = budget_inv r"
  "budget_inv (r\<lparr>sent := out\<rparr>) = budget_inv r" "budget_inv (r\<lparr>system := env\<rparr>) = budget_inv r"
  "budget_inv (r\<lparr>next_call := n\<rparr>) = budget_inv r"
  "budget_inv (r\<lparr>front_attached := b\<rparr>) = budget_inv r"
  by (simp_all add: budget_inv_def)

lemmas front_defs = attach_front_def detach_front_def

lemmas call_defs = call_direct_def call_read_def call_return_def call_route_def call_claim_def
  call_abort_def call_admit_def call_reserve_def call_send_def call_receive_def call_finish_def
  call_respond_def front_done_def

lemmas work_defs = work_take_def work_process_def work_roll_back_def work_release_def work_free_def
  work_reply_def work_recover_def

lemmas stage_splits = option.splits sum.splits prod.splits routed.splits list.splits if_splits

lemma budget_inv_dispatch:
  assumes "budget_inv r" and "dispatch_front ok r = (result, r')" and "leases r (next_call r) = None"
  shows "budget_inv r'"
proof -
  have "budget_inv (r\<lparr>next_call := Suc (next_call r), pending := p, leases := (leases r)(next_call r \<mapsto> l)\<rparr>)"
    if "reserve_budget (router_limits r) FRONT_REQUEST_BYTES (pending r) = Inr p"
      "lease_bytes l = FRONT_REQUEST_BYTES" for p l
    using budget_inv_reserve [of "r\<lparr>next_call := Suc (next_call r)\<rparr>" FRONT_REQUEST_BYTES p "next_call r" l]
      assms that by simp
  then show ?thesis
    using assms
    by (auto simp: dispatch_front_def Let_def intro!: budget_inv_drop_permit split: stage_splits)
qed

lemma budget_inv_take:
  assumes "budget_inv r"
  shows "budget_inv (front_take r)"
proof -
  have "budget_inv (r\<lparr>leases := (leases r)(c := map_option (\<lambda>l. l\<lparr>front_permit := True\<rparr>) (leases r c))\<rparr>)" for c
    using assms budget_inv_lease_flags [of r c]
    by (cases "leases r c") (auto simp: fun_upd_idem)
  then have "budget_inv (r\<lparr>front_queue := q, idle_threads := n,
      leases := (leases r)(c := map_option (\<lambda>l. l\<lparr>front_permit := True\<rparr>) (leases r c))\<rparr>)" for q n c
    by (simp add: budget_inv_def)
  then show ?thesis
    using assms by (auto simp: front_take_def split: list.splits)
qed

lemma budget_inv_admit:
  assumes "budget_inv r"
  shows "budget_inv (call_admit c M cd r)"
  using assms budget_inv_resize [of r c] budget_inv_reserve [of r _ _ c]
  by (auto simp: call_admit_def call_abort_def call_return_def intro!: budget_inv_drop_permit
      split: stage_splits)

lemma budget_inv_step:
  assumes "router_step r r'" and "budget_inv r" and "leases r (next_call r) = None"
  shows "budget_inv r'"
  using assms(1)
proof cases
  case connect then show ?thesis using assms budget_inv_dispatch by blast
next
  case take then show ?thesis using assms budget_inv_take by blast
next
  case admit then show ?thesis using assms budget_inv_admit by blast
qed (use assms(2) in \<open>auto simp: front_defs call_defs work_defs Let_def intro!: budget_inv_drop_permit
    split: stage_splits\<close>)

section \<open>Call numbers\<close>

fun requests_of_stage :: "'d worker_stage \<Rightarrow> domain_request option" where
  "requests_of_stage (WorkerTook dr) = Some dr"
| "requests_of_stage (WorkerProcessed dr _) = Some dr"
| "requests_of_stage (WorkerRolledBack dr _) = Some dr"
| "requests_of_stage (WorkerReleased dr _) = Some dr"
| "requests_of_stage (WorkerFreed dr _) = Some dr"
| "requests_of_stage _ = None"

definition worker_requests :: "('d, 'f, 'b, 'j) domain_worker \<Rightarrow> domain_request set" where
  "worker_requests w = set_option (w_queue w) \<union> set_option (requests_of_stage (w_stage w))"

definition numbered :: "('d, 'f, 'b, 'j) router \<Rightarrow> bool" where
  "numbered r \<longleftrightarrow>
     (\<forall>c \<ge> next_call r. leases r c = None \<and> calls r c = None)
     \<and> (\<forall>c \<in> set (front_queue r). c < next_call r)"

lemma drop_permit_None: "leases r c = None \<Longrightarrow> leases (drop_permit f c' r) c = None"
  by (auto simp: drop_permit_def split: option.splits)

lemma numbered_step:
  assumes "router_step r r'" and "numbered r"
  shows "numbered r'"
  using assms(1)
proof cases
  case connect
  then show ?thesis
    using assms(2)
    by (auto simp: dispatch_front_def numbered_def Let_def intro!: drop_permit_None less_SucI
        split: stage_splits)
next
  case direct
  then show ?thesis using assms(2) by (auto simp: call_direct_def numbered_def)
next
  case take
  then show ?thesis using assms(2) by (auto simp: front_take_def numbered_def split: list.splits)
next
  case attach
  then show ?thesis using assms(2) by (auto simp: attach_front_def numbered_def split: if_splits)
next
  case detach
  then show ?thesis using assms(2) by (auto simp: detach_front_def numbered_def)
qed (use assms(2) in \<open>fastforce simp: call_defs work_defs Let_def numbered_def intro!: drop_permit_None
    split: stage_splits\<close>)+

section \<open>Holders of permits\<close>

fun holds_request_permit :: "'d call_stage \<Rightarrow> bool" where
  "holds_request_permit (CallWaiting _ _) = False"
| "holds_request_permit (CallReturning _ _ _) = False"
| "holds_request_permit (CallResponding _ _) = False"
| "holds_request_permit _ = True"

fun permit_of_stage :: "'d worker_stage \<Rightarrow> domain_request option" where
  "permit_of_stage (WorkerTook dr) = Some dr"
| "permit_of_stage (WorkerProcessed dr _) = Some dr"
| "permit_of_stage (WorkerRolledBack dr _) = Some dr"
| "permit_of_stage _ = None"

definition worker_holds :: "('d, 'f, 'b, 'j) domain_worker \<Rightarrow> nat \<Rightarrow> bool" where
  "worker_holds w c \<longleftrightarrow>
     (\<exists>dr. (w_queue w = Some dr \<or> permit_of_stage (w_stage w) = Some dr) \<and> dr_call dr = c)"

definition worker_held :: "(u128 \<rightharpoonup> ('d, 'f, 'b, 'j) domain_worker) \<Rightarrow> nat \<Rightarrow> bool" where
  "worker_held ws c \<longleftrightarrow> (\<exists>d w. ws d = Some w \<and> worker_holds w c)"

definition lease_ok :: "('d, 'f, 'b, 'j) router \<Rightarrow> nat \<Rightarrow> control_lease \<Rightarrow> bool" where
  "lease_ok r c l \<longleftrightarrow>
     (front_permit l \<or> request_permit l)
     \<and> (front_permit l \<longrightarrow> (\<exists>s. calls r c = Some s \<and> s \<noteq> CallQueued))
     \<and> (request_permit l \<longrightarrow>
          (\<exists>s. calls r c = Some s \<and> holds_request_permit s) \<or> worker_held (workers r) c)"

definition permits_inv :: "('d, 'f, 'b, 'j) router \<Rightarrow> bool" where
  "permits_inv r \<longleftrightarrow>
     (\<forall>c l. leases r c = Some l \<longrightarrow> lease_ok r c l)
     \<and> (\<forall>c \<in> set (front_queue r). calls r c = Some CallQueued) \<and> distinct (front_queue r)"

lemma worker_holds_simps [simp]:
  "worker_holds (w\<lparr>w_inflight := b\<rparr>) c = worker_holds w c"
  "worker_holds (w\<lparr>w_service := s\<rparr>) c = worker_holds w c"
  by (simp_all add: worker_holds_def)

lemma worker_held_upd: "worker_held (ws(d \<mapsto> w)) c \<longleftrightarrow> worker_holds w c \<or> worker_held (ws(d := None)) c"
proof -
  have "worker_held (ws(d \<mapsto> w)) c" if "worker_holds w c"
    unfolding worker_held_def by (rule exI [of _ d]) (use that in simp)
  then show ?thesis by (auto simp: worker_held_def split: if_splits)
qed

lemma worker_held_at:
  assumes "ws d = Some w"
  shows "worker_held ws c \<longleftrightarrow> worker_holds w c \<or> worker_held (ws(d := None)) c"
  using worker_held_upd [of ws d w c] assms by (simp add: fun_upd_idem)

lemma worker_held_same:
  assumes "ws d = Some w" and "\<And>c. worker_holds w' c = worker_holds w c"
  shows "worker_held (ws(d \<mapsto> w')) = worker_held ws"
  using assms by (simp add: fun_eq_iff worker_held_upd worker_held_at [of ws d w, OF assms(1)])

lemma worker_held_update:
  assumes "ws d = Some w" and "worker_held ws c" and "worker_holds w c \<longrightarrow> worker_holds w' c"
  shows "worker_held (ws(d \<mapsto> w')) c"
  using assms(2,3) by (auto simp: worker_held_upd worker_held_at [of ws d w, OF assms(1)])

lemma permits_invD: "permits_inv r \<Longrightarrow> leases r c = Some l \<Longrightarrow> lease_ok r c l"
  by (simp add: permits_inv_def)

lemma lease_ok_mono:
  assumes "lease_ok r c l" and "calls r' c = calls r c"
    and "worker_held (workers r) c \<Longrightarrow> worker_held (workers r') c"
  shows "lease_ok r' c l"
  using assms by (auto simp: lease_ok_def)

lemma leases_drop_permit:
  "leases (drop_permit f c r) x =
    (if x = c
     then Option.bind (leases r c) (\<lambda>l. if front_permit (f l) \<or> request_permit (f l) then Some (f l) else None)
     else leases r x)"
  by (auto simp: drop_permit_def split: option.splits)

lemma worker_held_freed [simp]:
  "worker_held ((workers r)(d := map_option (\<lambda>w. w\<lparr>w_inflight := b\<rparr>) (workers r d))) = worker_held (workers r)"
  by (cases "workers r d") (simp_all add: fun_upd_idem worker_held_same)

lemma permits_inv_dispatch:
  assumes "permits_inv r" and "numbered r" and "dispatch_front ok r = (result, r')"
  shows "permits_inv r'"
proof -
  have free: "leases r (next_call r) = None" "calls r (next_call r) = None" "next_call r \<notin> set (front_queue r)"
    using assms(2) by (auto simp: numbered_def)
  consider "r' = r"
    | "calls r' = calls r" "workers r' = workers r" "front_queue r' = front_queue r" "leases r' = leases r"
    | l where "calls r' = (calls r)(next_call r \<mapsto> CallQueued)" "workers r' = workers r"
      "front_queue r' = front_queue r @ [next_call r]" "leases r' = (leases r)(next_call r \<mapsto> l)"
      "request_permit l" "\<not> front_permit l"
    using assms(3) free
    by (auto simp: dispatch_front_def Let_def leases_drop_permit fun_eq_iff split: sum.splits if_splits)
  then show ?thesis
    using assms(1) free by cases (auto simp: permits_inv_def lease_ok_def)
qed

lemma permits_inv_take:
  assumes "permits_inv r"
  shows "permits_inv (front_take r)"
  using assms
  by (auto simp: front_take_def permits_inv_def lease_ok_def split: list.splits)

lemma permits_inv_calls:
  assumes "permits_inv r"
  shows "calls r c = Some CallReading \<Longrightarrow> permits_inv (call_read c received r)"
    and "calls r c = Some (CallRouting req peer now) \<Longrightarrow> permits_inv (call_route c ns req peer now r)"
    and "calls r c = Some (CallRouted cd) \<Longrightarrow> permits_inv (call_claim c cd r)"
    and "calls r c = Some (CallClaimed cd) \<Longrightarrow> permits_inv (call_admit c M cd r)"
    and "calls r c = Some (CallAdmitted cd) \<Longrightarrow> permits_inv (call_reserve c cd r)"
    and "calls r c = Some (CallWaiting i rb) \<Longrightarrow> permits_inv (call_receive c i rb r)"
    and "calls r c = Some (CallReturning i res rb) \<Longrightarrow> permits_inv (call_finish c i res rb r)"
    and "calls r c = Some (CallResponding i res) \<Longrightarrow> permits_inv (call_respond c i res ok r)"
  using assms permits_invD [OF assms, of c]
  by (auto simp: call_defs permits_inv_def lease_ok_def Let_def leases_drop_permit worker_held_same
      Option.bind_eq_Some_conv split: stage_splits)

lemma permits_inv_send:
  assumes "permits_inv r" and "calls r c = Some (CallReserved cd rb)"
  shows "permits_inv (call_send c cd rb r)"
proof (cases "workers r (c_domain cd)")
  case None
  then show ?thesis using assms by (simp add: call_send_def)
next
  case (Some w)
  let ?dr = "\<lparr>dr_call = c, dr_request = c_request cd, dr_peer = c_peer cd, dr_now = c_now cd, dr_rollback = rb\<rparr>"
  have "worker_held ((workers r)(c_domain cd \<mapsto> w\<lparr>w_queue := Some ?dr\<rparr>)) c"
    by (auto simp: worker_held_upd worker_holds_def)
  moreover have "worker_held ((workers r)(c_domain cd \<mapsto> w\<lparr>w_queue := Some ?dr\<rparr>)) x"
    if "worker_held (workers r) x" "w_queue w = None" for x
    using Some that(1) by (rule worker_held_update) (auto simp: worker_holds_def that(2))
  ultimately show ?thesis
    using assms Some permits_invD [OF assms(1), of c] permits_invD [OF assms(1)]
    by (cases "w_queue w")
      (auto simp: call_send_def permits_inv_def lease_ok_def leases_drop_permit Option.bind_eq_Some_conv
        worker_held_same [of "workers r", OF Some])
qed

lemma permits_inv_worker:
  assumes "permits_inv r" and w: "workers r d = Some w"
  shows "w_stage w = WorkerIdle \<Longrightarrow> permits_inv (work_take d w r)"
    and "w_stage w = WorkerTook dr \<Longrightarrow> permits_inv (work_process W d w dr r)"
    and "w_stage w = WorkerProcessed dr res \<Longrightarrow> permits_inv (work_roll_back d w dr res r)"
    and "w_stage w = WorkerRolledBack dr res \<Longrightarrow> permits_inv (work_release d w dr res r)"
    and "w_stage w = WorkerReleased dr res \<Longrightarrow> permits_inv (work_free d w dr res r)"
    and "w_stage w = WorkerFreed dr res \<Longrightarrow> permits_inv (work_reply d w dr res r)"
    and "w_stage w = WorkerRecovering \<Longrightarrow> permits_inv (work_recover W clock d w r)"
proof -
  have other: "worker_held ((workers r)(d \<mapsto> w')) x"
    if "worker_held (workers r) x" "worker_holds w x \<longrightarrow> worker_holds w' x" for w' x
    using w that by (rule worker_held_update)
  have keep: "permits_inv (set_worker d w' r')"
    if "permits_inv r'" "workers r' = workers r" "\<And>x. worker_holds w x \<longrightarrow> worker_holds w' x" for w' r'
  proof -
    have "lease_ok (set_worker d w' r') x l" if "leases r' x = Some l" for x l
      by (rule lease_ok_mono [OF permits_invD [OF \<open>permits_inv r'\<close> that]])
        (simp_all add: \<open>workers r' = workers r\<close> other \<open>\<And>x. worker_holds w x \<longrightarrow> worker_holds w' x\<close>)
    with that(1) show ?thesis by (simp add: permits_inv_def)
  qed
  note unchanged = assms(1) keep
  show "w_stage w = WorkerIdle \<Longrightarrow> permits_inv (work_take d w r)"
    "w_stage w = WorkerTook dr \<Longrightarrow> permits_inv (work_process W d w dr r)"
    "w_stage w = WorkerReleased dr res \<Longrightarrow> permits_inv (work_free d w dr res r)"
    "w_stage w = WorkerRecovering \<Longrightarrow> permits_inv (work_recover W clock d w r)"
    by (auto simp: work_defs worker_holds_def intro!: unchanged split: option.splits prod.splits)
  have "permits_inv (roll_back_binding rb r)" for rb
    using assms(1) by (simp add: permits_inv_def lease_ok_def)
  then show "w_stage w = WorkerProcessed dr res \<Longrightarrow> permits_inv (work_roll_back d w dr res r)"
    by (auto simp: work_defs worker_holds_def intro!: unchanged)
  have "permits_inv (r\<lparr>replies := rs\<rparr>)" for rs
    using assms(1) by (simp add: permits_inv_def lease_ok_def)
  then show "w_stage w = WorkerFreed dr res \<Longrightarrow> permits_inv (work_reply d w dr res r)"
    by (auto simp: work_defs worker_holds_def intro!: unchanged)
  show "permits_inv (work_release d w dr res r)" if "w_stage w = WorkerRolledBack dr res"
  proof -
    have "worker_held ((workers r)(d \<mapsto> w\<lparr>w_stage := WorkerReleased dr res\<rparr>)) x"
      if "worker_held (workers r) x" "x \<noteq> dr_call dr" for x
      using that \<open>w_stage w = WorkerRolledBack dr res\<close>
      by (intro other) (auto simp: worker_holds_def)
    then show ?thesis
      using assms(1)
      by (auto simp: work_release_def permits_inv_def lease_ok_def leases_drop_permit
          Option.bind_eq_Some_conv)
  qed
qed

lemma permits_inv_frame:
  "permits_inv r \<Longrightarrow> leases r' = leases r \<Longrightarrow> calls r' = calls r \<Longrightarrow> workers r' = workers r \<Longrightarrow>
    front_queue r' = front_queue r \<Longrightarrow> permits_inv r'"
  by (simp add: permits_inv_def lease_ok_def)

lemma permits_inv_step:
  assumes "router_step r r'" and "permits_inv r" and "numbered r"
  shows "permits_inv r'"
  using assms(1)
proof cases
  case connect
  then show ?thesis using assms permits_inv_dispatch by blast
next
  case direct
  then show ?thesis
    using assms(2,3)
    by (auto simp: call_direct_def permits_inv_def lease_ok_def numbered_def)
next
  case system
  then show ?thesis by (intro permits_inv_frame [OF assms(2)]) simp_all
next
  case attach
  then show ?thesis
    by (intro permits_inv_frame [OF assms(2)]) (auto simp: attach_front_def split: if_splits)
next
  case detach
  then show ?thesis by (intro permits_inv_frame [OF assms(2)]) (auto simp: detach_front_def)
qed (use assms(2) in \<open>auto intro: permits_inv_take permits_inv_calls permits_inv_send permits_inv_worker\<close>)

section \<open>One request per domain\<close>

fun claim_of :: "'d call_stage \<Rightarrow> call_data option" where
  "claim_of (CallClaimed cd) = Some cd"
| "claim_of (CallAdmitted cd) = Some cd"
| "claim_of (CallReserved cd _) = Some cd"
| "claim_of _ = None"

definition claim_map :: "('d, 'f, 'b, 'j) router \<Rightarrow> nat \<rightharpoonup> call_data" where
  "claim_map r c = Option.bind (calls r c) claim_of"

definition claims :: "(nat \<rightharpoonup> call_data) \<Rightarrow> u128 \<Rightarrow> nat set" where
  "claims m d = {c. \<exists>cd. m c = Some cd \<and> c_domain cd = d}"

lemma claims_simps [simp]:
  "claims (m(c := None)) d = claims m d - {c}"
  "claims (m(c \<mapsto> cd)) d = (if c_domain cd = d then insert c (claims m d) else claims m d - {c})"
  by (auto simp: claims_def)

lemma claim_map_upd: "calls r' = (calls r)(c := v) \<Longrightarrow> claim_map r' = (claim_map r)(c := Option.bind v claim_of)"
  by (auto simp: claim_map_def)

lemma claim_map_same:
  "calls r c = Some s \<Longrightarrow> claim_of s' = claim_of s \<Longrightarrow> calls r' = (calls r)(c \<mapsto> s') \<Longrightarrow>
    claim_map r' = claim_map r"
  by (auto simp: claim_map_def)

lemma claim_map_calls: "calls r' = calls r \<Longrightarrow> claim_map r' = claim_map r"
  by (simp add: claim_map_def fun_eq_iff)

fun busy_stage :: "'d worker_stage \<Rightarrow> bool" where
  "busy_stage (WorkerTook _) = True"
| "busy_stage (WorkerProcessed _ _) = True"
| "busy_stage (WorkerRolledBack _ _) = True"
| "busy_stage (WorkerReleased _ _) = True"
| "busy_stage _ = False"

text \<open>The flag is set by exactly one holder: a call that claimed the domain, the queue or the worker.\<close>

definition flight_ok :: "nat set \<Rightarrow> ('d, 'f, 'b, 'j) domain_worker \<Rightarrow> bool" where
  "flight_ok cs w \<longleftrightarrow>
     (w_queue w \<noteq> None \<longrightarrow> w_inflight w \<and> \<not> busy_stage (w_stage w) \<and> cs = {})
     \<and> (busy_stage (w_stage w) \<longrightarrow> w_inflight w \<and> cs = {})
     \<and> (cs \<noteq> {} \<longrightarrow> w_inflight w \<and> (\<exists>c. cs = {c}))"

definition flight_inv :: "('d, 'f, 'b, 'j) router \<Rightarrow> bool" where
  "flight_inv r \<longleftrightarrow> (\<forall>d w. workers r d = Some w \<longrightarrow> flight_ok (claims (claim_map r) d) w)"

lemma flight_invD: "flight_inv r \<Longrightarrow> workers r d = Some w \<Longrightarrow> flight_ok (claims (claim_map r) d) w"
  by (simp add: flight_inv_def)

lemma flight_inv_frame:
  "flight_inv r \<Longrightarrow> workers r' = workers r \<Longrightarrow> claim_map r' = claim_map r \<Longrightarrow> flight_inv r'"
  by (simp add: flight_inv_def)

text \<open>A call that claimed its domain is the only holder of the flag.\<close>

lemma flight_claimed:
  assumes "flight_inv r" and "claim_map r c = Some cd" and "workers r (c_domain cd) = Some w"
  shows "claims (claim_map r) (c_domain cd) = {c}" "w_queue w = None" "\<not> busy_stage (w_stage w)" "w_inflight w"
proof -
  have "c \<in> claims (claim_map r) (c_domain cd)" using assms(2) by (simp add: claims_def)
  then show "claims (claim_map r) (c_domain cd) = {c}" "w_queue w = None" "\<not> busy_stage (w_stage w)"
    "w_inflight w"
    using flight_invD [OF assms(1,3)] by (auto simp: flight_ok_def)
qed

lemma flight_inv_release:
  assumes inv: "flight_inv r" and claim: "claim_map r c = Some cd"
    and m: "claim_map r' = (claim_map r)(c := None)"
    and ws: "workers r' = (workers r)(c_domain cd := map_option (\<lambda>w. w\<lparr>w_inflight := b\<rparr>) (workers r (c_domain cd)))"
  shows "flight_inv r'"
proof -
  have "claims (claim_map r) d - {c} = claims (claim_map r) d" if "d \<noteq> c_domain cd" for d
    using claim that by (auto simp: claims_def)
  moreover have "flight_ok (claims (claim_map r) (c_domain cd) - {c}) (w\<lparr>w_inflight := b\<rparr>)"
    if "workers r (c_domain cd) = Some w" for w
    using flight_claimed [OF inv claim that] by (simp add: flight_ok_def)
  ultimately show ?thesis using inv by (auto simp: flight_inv_def ws m)
qed

lemma claim_map_at: "calls r c = Some s \<Longrightarrow> claim_map r c = claim_of s"
  by (simp add: claim_map_def)

lemma flight_inv_return:
  assumes "flight_inv r" and "calls r c = Some s" and "claim_of s = None"
  shows "flight_inv (call_return c i res r)"
  using assms(1)
proof (rule flight_inv_frame)
  show "claim_map (call_return c i res r) = claim_map r"
    by (rule claim_map_same [OF assms(2), of "CallResponding i res"]) (simp_all add: assms call_return_def)
qed (simp add: call_return_def)

lemma flight_inv_call_abort:
  assumes "flight_inv r" and "calls r c = Some s" and "claim_of s = Some cd"
  shows "flight_inv (call_abort c cd e r)"
  using assms(1)
proof (rule flight_inv_release)
  show "claim_map r c = Some cd" using assms by (simp add: claim_map_def)
  show "claim_map (call_abort c cd e r) = (claim_map r)(c := None)"
    using claim_map_upd [of "call_abort c cd e r" r c "Some (CallResponding (c_id cd) (Inl e))"]
    by (simp add: call_abort_def call_return_def)
  show "workers (call_abort c cd e r) = (workers r)(c_domain cd :=
      map_option (\<lambda>w. w\<lparr>w_inflight := False\<rparr>) (workers r (c_domain cd)))"
    by (simp add: call_abort_def call_return_def)
qed

lemma flight_inv_claim:
  assumes inv: "flight_inv r" and stage: "calls r c = Some (CallRouted cd)"
  shows "flight_inv (call_claim c cd r)"
proof (cases "workers r (c_domain cd)")
  case (Some w)
  show ?thesis
  proof (cases "w_inflight w")
    case True
    then show ?thesis using Some flight_inv_return [OF inv stage] by (simp add: call_claim_def)
  next
    case False
    have free: "w_queue w = None" "\<not> busy_stage (w_stage w)" "claims (claim_map r) (c_domain cd) = {}"
      using flight_invD [OF inv Some] False by (auto simp: flight_ok_def)
    have m: "claim_map (call_claim c cd r) = (claim_map r)(c \<mapsto> cd)"
      using claim_map_upd [of "call_claim c cd r" r c "Some (CallClaimed cd)"]
      by (simp add: call_claim_def Some False)
    have ws: "workers (call_claim c cd r) = (workers r)(c_domain cd \<mapsto> w\<lparr>w_inflight := True\<rparr>)"
      using Some False by (simp add: call_claim_def)
    have "claims (claim_map r) d - {c} = claims (claim_map r) d" for d
      using stage by (auto simp: claims_def claim_map_def)
    then show ?thesis using inv free by (auto simp: flight_inv_def m ws) (simp add: flight_ok_def)
  qed
qed (use inv in \<open>simp add: call_claim_def\<close>)

lemma flight_inv_send:
  assumes inv: "flight_inv r" and stage: "calls r c = Some (CallReserved cd rb)"
  shows "flight_inv (call_send c cd rb r)"
proof (cases "workers r (c_domain cd)")
  case (Some w)
  have claim: "claim_map r c = Some cd" using stage by (simp add: claim_map_def)
  note w = flight_claimed [OF inv claim Some]
  let ?w = "w\<lparr>w_queue := Some \<lparr>dr_call = c, dr_request = c_request cd, dr_peer = c_peer cd,
      dr_now = c_now cd, dr_rollback = rb\<rparr>\<rparr>"
  have m: "claim_map (call_send c cd rb r) = (claim_map r)(c := None)"
    using claim_map_upd [of "call_send c cd rb r" r c "Some (CallWaiting (c_id cd) rb)"]
    by (simp add: call_send_def Some w)
  have ws: "workers (call_send c cd rb r) = (workers r)(c_domain cd \<mapsto> ?w)"
    using Some w by (simp add: call_send_def)
  have "claims (claim_map r) d - {c} = claims (claim_map r) d" if "d \<noteq> c_domain cd" for d
    using claim that by (auto simp: claims_def)
  moreover have "flight_ok (claims (claim_map r) (c_domain cd) - {c}) ?w"
    using w by (simp add: flight_ok_def)
  ultimately show ?thesis using inv by (auto simp: flight_inv_def ws m)
qed (use inv in \<open>simp add: call_send_def\<close>)

lemma flight_inv_worker:
  assumes "flight_inv r" and "workers r d = Some w" and "workers r' = (workers r)(d \<mapsto> w')"
    and "claim_map r' = claim_map r" and "\<And>cs. flight_ok cs w \<Longrightarrow> flight_ok cs w'"
  shows "flight_inv r'"
  using assms by (auto simp: flight_inv_def)

lemma flight_inv_front:
  assumes "flight_inv r" and "numbered r"
  shows "dispatch_front ok r = (result, r') \<Longrightarrow> flight_inv r'" "flight_inv (call_direct req peer now r)"
proof -
  have free: "calls r (next_call r) = None" using assms(2) by (simp add: numbered_def)
  show "flight_inv r'" if "dispatch_front ok r = (result, r')"
  proof (rule flight_inv_frame [OF assms(1)])
    show "workers r' = workers r" "claim_map r' = claim_map r"
      using that free
      by (auto simp: dispatch_front_def Let_def claim_map_def fun_eq_iff split: sum.splits if_splits)
  qed
  show "flight_inv (call_direct req peer now r)"
    by (rule flight_inv_frame [OF assms(1)]) (auto simp: call_direct_def claim_map_def free fun_eq_iff)
qed

lemma flight_inv_take:
  assumes "flight_inv r" and "permits_inv r"
  shows "flight_inv (front_take r)"
  using assms(1)
proof (rule flight_inv_frame)
  show "claim_map (front_take r) = claim_map r"
    using assms(2) by (auto simp: front_take_def claim_map_def permits_inv_def fun_eq_iff split: list.splits)
  show "workers (front_take r) = workers r"
    by (simp add: front_take_def split: list.splits)
qed

lemma front_done_simps [simp]:
  "workers (front_done c r) = workers r" "calls (front_done c r) = (calls r)(c := None)"
  "bindings (front_done c r) = bindings r" "next_token (front_done c r) = next_token r"
  "system (front_done c r) = system r"
  by (simp_all add: front_done_def Let_def)

lemma flight_inv_stage:
  assumes "flight_inv r" and "calls r c = Some s" and "workers r' = workers r"
    and "calls r' = (calls r)(c \<mapsto> s')" and "claim_of s' = claim_of s"
  shows "flight_inv r'"
  using assms(1,3) claim_map_same [OF assms(2,5,4)] by (rule flight_inv_frame)

lemma flight_inv_leave:
  assumes "flight_inv r" and "calls r c = Some s" and "workers r' = workers r"
    and "calls r' = (calls r)(c := None)" and "claim_of s = None"
  shows "flight_inv r'"
  using assms(1,3) by (rule flight_inv_frame) (use assms(2,4,5) in \<open>auto simp: claim_map_def fun_eq_iff\<close>)

lemma flight_inv_read:
  assumes "flight_inv r" and "calls r c = Some CallReading"
  shows "flight_inv (call_read c received r)"
proof (cases received)
  case None
  show ?thesis by (rule flight_inv_leave [OF assms]) (simp_all add: call_read_def None)
next
  case (Some x)
  obtain req peer now where "x = (req, peer, now)" by (metis prod_cases3)
  then show ?thesis
    by (intro flight_inv_stage [OF assms, of _ "CallRouting req peer now"]) (simp_all add: call_read_def Some)
qed

lemma flight_inv_route:
  assumes "flight_inv r" and "calls r c = Some (CallRouting req peer now)"
  shows "flight_inv (call_route c ns req peer now r)"
proof -
  have "flight_inv (set_stage c (CallRouted cd) r)" for cd
    by (rule flight_inv_stage [OF assms, of _ "CallRouted cd"]) simp_all
  then show ?thesis
    by (simp add: call_route_def flight_inv_return [OF assms] split: sum.split routed.split)
qed

lemma flight_inv_admit:
  assumes "flight_inv r" and "calls r c = Some (CallClaimed cd)"
  shows "flight_inv (call_admit c M cd r)"
proof -
  have "flight_inv (set_stage c (CallAdmitted cd) (r\<lparr>pending := p, leases := ls\<rparr>))" for p ls
    by (rule flight_inv_stage [OF assms, of _ "CallAdmitted cd"]) simp_all
  then show ?thesis
    by (simp add: call_admit_def flight_inv_call_abort [OF assms] split: sum.split option.split)
qed

lemma flight_inv_reserve:
  assumes "flight_inv r" and "calls r c = Some (CallAdmitted cd)"
  shows "flight_inv (call_reserve c cd r)"
proof -
  have token: "flight_inv (r\<lparr>next_token := t\<rparr>)" for t
    by (rule flight_inv_frame [OF assms(1) _ claim_map_calls]) simp_all
  have "flight_inv (call_abort c cd e (r\<lparr>next_token := t\<rparr>))" for e t
    by (rule flight_inv_call_abort [OF token, where c = c and s = "CallAdmitted cd"]) (simp_all add: assms)
  moreover have "flight_inv (set_stage c (CallReserved cd None) r)"
    by (rule flight_inv_stage [OF assms, of _ "CallReserved cd None"]) simp_all
  moreover have "flight_inv (set_stage c (CallReserved cd rb) (r\<lparr>next_token := t, bindings := bs\<rparr>))" for rb t bs
    by (rule flight_inv_stage [OF assms, of _ "CallReserved cd rb"]) simp_all
  ultimately show ?thesis
    by (simp add: call_reserve_def flight_inv_call_abort [OF assms] split: sum.split option.split prod.split)
qed

lemma flight_inv_receive:
  assumes "flight_inv r" and "calls r c = Some (CallWaiting i rb)"
  shows "flight_inv (call_receive c i rb r)"
proof -
  have "flight_inv (set_stage c (CallReturning i res rb) r)"
    "flight_inv (set_stage c (CallReturning i res rb) (r\<lparr>replies := rs\<rparr>))" for res rs
    by (rule flight_inv_stage [OF assms, of _ "CallReturning i res rb"]; simp)+
  then show ?thesis by (simp add: call_receive_def split: option.split)
qed

lemma flight_inv_finish:
  assumes "flight_inv r" and "calls r c = Some (CallReturning i res rb)"
  shows "flight_inv (call_finish c i res rb r)"
  by (rule flight_inv_stage [OF assms, of _ "CallResponding i res"]) (simp_all add: call_finish_def)

lemma flight_inv_respond:
  assumes "flight_inv r" and "calls r c = Some (CallResponding i res)"
  shows "flight_inv (call_respond c i res ok r)"
  by (rule flight_inv_leave [OF assms]) (simp_all add: call_respond_def)

lemmas flight_inv_calls = flight_inv_read flight_inv_route flight_inv_claim flight_inv_admit
  flight_inv_reserve flight_inv_send flight_inv_receive flight_inv_finish flight_inv_respond

lemma flight_inv_work:
  assumes inv: "flight_inv r" and w: "workers r d = Some w"
  shows "w_stage w = WorkerIdle \<Longrightarrow> flight_inv (work_take d w r)"
    and "w_stage w = WorkerTook dr \<Longrightarrow> flight_inv (work_process W d w dr r)"
    and "w_stage w = WorkerProcessed dr res \<Longrightarrow> flight_inv (work_roll_back d w dr res r)"
    and "w_stage w = WorkerRolledBack dr res \<Longrightarrow> flight_inv (work_release d w dr res r)"
    and "w_stage w = WorkerReleased dr res \<Longrightarrow> flight_inv (work_free d w dr res r)"
    and "w_stage w = WorkerFreed dr res \<Longrightarrow> flight_inv (work_reply d w dr res r)"
    and "w_stage w = WorkerRecovering \<Longrightarrow> flight_inv (work_recover W clock d w r)"
proof -
  have upd: "flight_inv r'"
    if "workers r' = (workers r)(d \<mapsto> w')" "calls r' = calls r" "\<And>cs. flight_ok cs w \<Longrightarrow> flight_ok cs w'"
    for r' w'
    using inv w that(1) claim_map_calls [OF that(2)] that(3) by (rule flight_inv_worker)
  show "w_stage w = WorkerIdle \<Longrightarrow> flight_inv (work_take d w r)"
    by (cases "w_queue w") (auto simp: work_take_def flight_ok_def intro!: upd)
  show "w_stage w = WorkerTook dr \<Longrightarrow> flight_inv (work_process W d w dr r)"
    by (auto simp: work_process_def flight_ok_def intro!: upd split: prod.splits)
  show "w_stage w = WorkerProcessed dr res \<Longrightarrow> flight_inv (work_roll_back d w dr res r)"
    "w_stage w = WorkerRolledBack dr res \<Longrightarrow> flight_inv (work_release d w dr res r)"
    "w_stage w = WorkerReleased dr res \<Longrightarrow> flight_inv (work_free d w dr res r)"
    "w_stage w = WorkerFreed dr res \<Longrightarrow> flight_inv (work_reply d w dr res r)"
    by (auto simp: work_defs flight_ok_def intro!: upd)
  show "w_stage w = WorkerRecovering \<Longrightarrow> flight_inv (work_recover W clock d w r)"
    by (cases clock) (auto simp: work_recover_def flight_ok_def intro!: upd)
qed

lemma flight_inv_step:
  assumes "router_step r r'" and inv: "flight_inv r" and "numbered r" and "permits_inv r"
  shows "flight_inv r'"
  using assms(1)
proof cases
  case system
  then show ?thesis by (intro flight_inv_frame [OF inv _ claim_map_calls]) simp_all
next
  case attach
  then show ?thesis
    by (intro flight_inv_frame [OF inv _ claim_map_calls]) (auto simp: attach_front_def split: if_splits)
next
  case detach
  then show ?thesis by (intro flight_inv_frame [OF inv _ claim_map_calls]) (auto simp: detach_front_def)
next
  case connect then show ?thesis using flight_inv_front(1) [OF assms(2,3)] by blast
next
  case direct then show ?thesis using flight_inv_front(2) [OF assms(2,3)] by simp
next
  case take then show ?thesis using flight_inv_take [OF assms(2,4)] by simp
qed (simp_all add: flight_inv_calls [OF inv] flight_inv_work [OF inv])

end
