(* ===== verification/Netd_Isolation.thy ===== *)
theory Netd_Isolation
  imports Netd_Domains Netd_Infra_Properties
begin

text \<open>
  An infrastructure service that only receives operations of one routing domain keeps a journal of
  that domain: the check a restart makes (\<open>validate_journal\<close>) is an invariant of the service.
\<close>

section \<open>The journal of a domain\<close>

definition record_inside :: "domain_identity \<Rightarrow> forward_record \<Rightarrow> bool" where
  "record_inside i r \<longleftrightarrow>
     domain_id (fwd_owner r) = cfg_domain_id (id_config i)
     \<and> table_id (fwd_declaration r) = cfg_table_id (id_config i)
     \<and> (\<forall>p. pending_policy r = Some p \<longrightarrow> table_id (pending_declaration p) = cfg_table_id (id_config i))"

definition journal_inside :: "domain_identity \<Rightarrow> infra_state \<Rightarrow> bool" where
  "journal_inside i st \<longleftrightarrow>
     (\<forall>sp. spec st = Some sp \<longrightarrow> operation_in_domain i (InfraEnsure sp))
     \<and> (\<forall>r. forwarding st = Some r \<longrightarrow> record_inside i r)
     \<and> (\<forall>r. candidate st = Some r \<longrightarrow> record_inside i r)"

lemma validate_domain_operation_Inr [simp]:
  "validate_domain_operation i op = Inr u \<longleftrightarrow> operation_in_domain i op"
  by (auto simp: validate_domain_operation_def ensure_def)

lemma validate_record_Inr: "validate_record i st r = Inr () \<longleftrightarrow> record_inside i r"
  by (auto simp: validate_record_def record_inside_def rbind_eq_Inr split: option.splits)

lemma validate_journal_Inr: "validate_journal i st = Inr () \<longleftrightarrow> journal_inside i st"
  by (auto simp: validate_journal_def journal_inside_def rbind_eq_Inr validate_record_Inr
      split: option.splits)

lemma record_inside_simps [simp]:
  "record_inside i (r\<lparr>fwd_phase := ph\<rparr>) = record_inside i r"
  "record_inside i (r\<lparr>fwd_failed_prefixes := ps\<rparr>) = record_inside i r"
  "record_inside i (r\<lparr>failure_revision := n\<rparr>) = record_inside i r"
  "record_inside i (r\<lparr>pending_failed_prefixes := pf\<rparr>) = record_inside i r"
  "record_inside i (r\<lparr>pending_failure_revision := pr\<rparr>) = record_inside i r"
  "record_inside i (r\<lparr>authority := a\<rparr>) = record_inside i r"
  "record_inside i (r\<lparr>policy_revision := n\<rparr>) = record_inside i r"
  "record_inside i (r\<lparr>policy_generation := g\<rparr>) = record_inside i r"
  "record_inside i (r\<lparr>policy_hash := h\<rparr>) = record_inside i r"
  by (simp_all add: record_inside_def)

lemma record_inside_derived:
  "record_inside i r \<Longrightarrow> record_inside i (r\<lparr>pending_policy := None\<rparr>)"
  "record_inside i r \<Longrightarrow> record_inside i (revoke_record r)"
  "record_inside i r \<Longrightarrow> record_inside i (cancel_pending r)"
  "record_inside i r \<Longrightarrow> pending_policy r = Some p \<Longrightarrow> record_inside i (adopt_policy r p ps)"
  "record_inside i r \<Longrightarrow> domain_id owner = domain_id (fwd_owner r) \<Longrightarrow>
     record_inside i (r\<lparr>fwd_owner := owner\<rparr>)"
  "record_inside i r \<Longrightarrow> table_id (pending_declaration p) = cfg_table_id (id_config i) \<Longrightarrow>
     record_inside i (r\<lparr>pending_policy := Some p\<rparr>)"
  "domain_id owner = cfg_domain_id (id_config i) \<Longrightarrow> table_id d = cfg_table_id (id_config i) \<Longrightarrow>
     record_inside i (new_forward owner d ph)"
  by (auto simp: record_inside_def adopt_policy_def)

lemma journal_inside_simps [simp]:
  "journal_inside i default_state"
  "journal_inside i (st\<lparr>ifindex := x\<rparr>) = journal_inside i st"
  "journal_inside i (st\<lparr>ownership_marker := m\<rparr>) = journal_inside i st"
  "journal_inside i (st\<lparr>creation_pending := b\<rparr>) = journal_inside i st"
  "journal_inside i (st\<lparr>administrator := a\<rparr>) = journal_inside i st"
  "journal_inside i (st\<lparr>boot_id := boot\<rparr>) = journal_inside i st"
  "journal_inside i (st\<lparr>io_owner := io\<rparr>) = journal_inside i st"
  "journal_inside i (st\<lparr>last_io_epoch := e\<rparr>) = journal_inside i st"
  "journal_inside i (st\<lparr>last_fencing_token := t\<rparr>) = journal_inside i st"
  "journal_inside i (st\<lparr>infra_sysctls := cs\<rparr>) = journal_inside i st"
  by (simp_all add: journal_inside_def default_state_def)

lemma journal_inside_updates:
  "journal_inside i st \<Longrightarrow> record_inside i r \<Longrightarrow> journal_inside i (st\<lparr>forwarding := Some r\<rparr>)"
  "journal_inside i st \<Longrightarrow> record_inside i r \<Longrightarrow> journal_inside i (st\<lparr>candidate := Some r\<rparr>)"
  "journal_inside i st \<Longrightarrow> journal_inside i (st\<lparr>candidate := None\<rparr>)"
  "journal_inside i st \<Longrightarrow> operation_in_domain i (InfraEnsure sp) \<Longrightarrow> journal_inside i (st\<lparr>spec := Some sp\<rparr>)"
  by (simp_all add: journal_inside_def)

lemma journal_inside_record:
  "journal_inside i st \<Longrightarrow> forwarding st = Some r \<Longrightarrow> record_inside i r"
  "journal_inside i st \<Longrightarrow> candidate st = Some r \<Longrightarrow> record_inside i r"
  by (simp_all add: journal_inside_def)

lemma same_owner_record: "same_owner v owner = Inr r \<Longrightarrow> v = Some r"
  by simp

lemmas inside_intros = journal_inside_updates record_inside_derived

section \<open>Every handler stays inside\<close>

lemma holds_of_result: "(\<And>x. r = Inr x \<Longrightarrow> holds K (f x)) \<Longrightarrow> holds K (bind (of_result r) f)"
  by (cases r) (auto simp: holds_def hoare_def bind_def of_result_def)

lemmas holds_steps = holds_get holds_unwrap holds_of_result holds_persist holds_rules holds_bind
  holds_andthen holds_attempt holds_if holds_when holds_option holds_result holds_pair holds_device
  holds_verify holds_fence holds_same_boot

lemma holds_install: "holds K (install_replacement W previous cand changes)"
  unfolding install_replacement_def Let_def by (intro holds_steps)

lemma holds_administrator: "holds K (check_administrator req)"
  unfolding check_administrator_def by (intro holds_steps)

lemma holds_repairs: "holds K (check_repairs op)"
  unfolding check_repairs_def by (intro holds_steps)

lemma holds_receipt: "holds K (check_receipt W req now owner receipt)"
  unfolding check_receipt_def Let_def by (intro holds_steps holds_administrator)

lemma holds_ack: "holds K ack"
  by (simp add: holds_rules)

lemma holds_persist_or_fence: "K st \<Longrightarrow> holds K (persist_or_fence W st)"
  unfolding persist_or_fence_def by (intro holds_steps holds_ack)

lemma inside_rollback:
  "record_inside i previous \<Longrightarrow> holds (journal_inside i) (rollback_replacement W previous cand now)"
  unfolding rollback_replacement_def Let_def
  by (intro holds_steps) (auto intro!: inside_intros dest: journal_inside_record)

lemma inside_reconcile: "holds (journal_inside i) (reconcile_live_policy W now)"
  unfolding reconcile_live_policy_def Let_def
  by (intro holds_steps) (auto intro: inside_intros dest: journal_inside_record)

lemma inside_complete: "holds (journal_inside i) (complete_creation W)"
  unfolding complete_creation_def by (intro holds_steps) simp

lemma inside_recover_candidate: "holds (journal_inside i) (recover_candidate W now)"
  unfolding recover_candidate_def
  by (intro holds_steps inside_rollback) (auto intro: inside_intros dest: journal_inside_record)

lemma inside_recover_cancelled: "holds (journal_inside i) (recover_cancelled W)"
  unfolding recover_cancelled_def by (intro holds_steps) (auto intro!: inside_intros dest: journal_inside_record)

lemma inside_recover_policy: "holds (journal_inside i) (recover_policy W now)"
  unfolding recover_policy_def by (intro holds_steps inside_reconcile)

lemma inside_recover_prefixes: "holds (journal_inside i) (recover_prefixes W now)"
  unfolding recover_prefixes_def by (intro holds_steps) (auto intro!: inside_intros dest: journal_inside_record)

lemma inside_recover_forwarding: "holds (journal_inside i) (recover_forwarding W now b)"
  unfolding recover_forwarding_def Let_def by (intro holds_steps) (auto intro!: inside_intros dest: journal_inside_record)

lemma inside_recover_expired: "holds (journal_inside i) (recover_expired W now)"
  unfolding recover_expired_def
  by (intro holds_andthen holds_bind inside_complete inside_recover_candidate inside_recover_cancelled
      inside_recover_policy inside_recover_prefixes inside_recover_forwarding)

text \<open>The handlers, for an operation of the domain.\<close>

lemma bind_assoc_return:
  "bind (andthen m k) f = andthen m (bind k f)" "bind (return x) f = f x"
  by (auto simp: fun_eq_iff bind_def andthen_def return_def split: prod.splits sum.splits)

lemma inside_lost_device:
  assumes "journal_inside i st" and "\<And>st'. journal_inside i st' \<Longrightarrow> holds (journal_inside i) (f st')"
  shows "holds (journal_inside i) (bind (fence_lost_device W st) f)"
proof (cases "forwarding st")
  case None
  then show ?thesis using assms by (simp add: fence_lost_device_def bind_assoc_return)
next
  case (Some fwd)
  have "journal_inside i (st\<lparr>forwarding := Some (fwd\<lparr>fwd_phase := FwRevoked\<rparr>)\<rparr>)"
    using assms(1) Some by (auto intro!: inside_intros dest: journal_inside_record)
  then show ?thesis
    unfolding fence_lost_device_def Some option.case bind_assoc_return
    by (intro holds_andthen holds_rules assms(2))
qed

lemma inside_repair: "journal_inside i st \<Longrightarrow> holds (journal_inside i) (repair_device W st)"
  unfolding repair_device_def
  by (intro holds_if holds_rules inside_lost_device holds_steps inside_complete) (auto intro!: inside_intros)

lemma inside_ensure:
  "operation_in_domain i (InfraEnsure sp) \<Longrightarrow> holds (journal_inside i) (infra_ensure W req sp)"
  unfolding infra_ensure_def
  by (intro holds_steps holds_administrator inside_repair inside_complete) (auto intro!: inside_intros)

lemma inside_acquire: "holds (journal_inside i) (infra_acquire_io_fd W req infra gen epoch)"
  unfolding infra_acquire_io_fd_def by (intro holds_steps) simp

lemma inside_release: "holds (journal_inside i) (infra_release_io W req infra gen epoch)"
  unfolding infra_release_io_def
  by (intro holds_steps holds_administrator holds_persist_or_fence) simp

lemma inside_retire: "holds (journal_inside i) (infra_retire W req infra gen)"
  unfolding infra_retire_def by (intro holds_steps holds_administrator holds_ack) simp

lemma inside_prepare:
  assumes "operation_in_domain i (ForwardPrepare infra gen owner d)"
  shows "holds (journal_inside i) (forward_prepare W req now infra gen owner d)"
proof -
  have initial: "holds (journal_inside i) (prepare_initial W st owner d)" if "journal_inside i st" for st
    unfolding prepare_initial_def Let_def at_net_stage_def
    by (intro holds_steps holds_persist_or_fence) (use assms that in \<open>auto intro!: inside_intros\<close>)
  have over: "holds (journal_inside i) (prepare_over W st previous owner d)" if "journal_inside i st" for st previous
    unfolding prepare_over_def Let_def
    by (intro holds_steps holds_ack initial that) (use assms that in \<open>auto intro!: inside_intros\<close>)
  show ?thesis
    unfolding forward_prepare_def at_net_stage_def
    by (intro holds_steps holds_administrator holds_ack initial over) simp_all
qed

lemma inside_authorize: "holds (journal_inside i) (forward_authorize W req now owner a)"
proof -
  have choose: "holds (journal_inside i) (bind (if owns_candidate st owner then unwrap (candidate st)
      else of_result (same_owner (forwarding st) owner)) f)"
    if "journal_inside i st" "\<And>r. record_inside i r \<Longrightarrow> holds (journal_inside i) (f r)" for st f
    using that by (auto intro!: holds_unwrap holds_of_result dest: journal_inside_record)
  show ?thesis
    unfolding forward_authorize_def
    by (intro holds_andthen holds_administrator holds_get holds_of_result choose
        holds_if [where m = "reject _"] holds_rules holds_persist_or_fence) (auto intro!: inside_intros)
qed

lemma inside_commit: "holds (journal_inside i) (forward_commit W req now auth owner)"
proof -
  have roll: "holds (journal_inside i) (roll_back_commit W previous cand now e)"
    if "record_inside i previous" for previous cand e
    unfolding roll_back_commit_def by (intro holds_steps inside_rollback that)
  have cand: "holds (journal_inside i) (commit_candidate W now st c)"
    if "journal_inside i st" "record_inside i c" for st c
    unfolding commit_candidate_def Let_def
    by (intro holds_steps holds_install holds_ack roll)
      (use that in \<open>auto intro!: inside_intros dest: journal_inside_record\<close>)
  have initial: "holds (journal_inside i) (commit_initial W st owner)" if "journal_inside i st" for st
    unfolding commit_initial_def
    by (intro holds_steps holds_ack holds_persist_or_fence)
      (use that in \<open>auto intro!: inside_intros dest: journal_inside_record\<close>)
  show ?thesis
    unfolding forward_commit_def
    by (intro holds_steps holds_administrator cand initial) (auto dest: journal_inside_record)
qed

lemma inside_guard: "holds (journal_inside i) (forward_guard W req now owner)"
  unfolding forward_guard_def
  by (intro holds_steps holds_administrator holds_ack)
    (auto intro!: inside_intros dest: journal_inside_record)

lemma inside_revoke: "holds (journal_inside i) (forward_revoke W req now owner)"
  unfolding forward_revoke_def revoke_candidate_def revoke_forwarding_def Let_def
  by (intro holds_steps holds_administrator holds_ack inside_rollback holds_persist_or_fence)
    (auto intro!: inside_intros dest: journal_inside_record)

lemma inside_renew: "holds (journal_inside i) (forward_lease_renew W req now owner)"
  unfolding forward_lease_renew_def Let_def
  by (intro holds_steps holds_administrator holds_persist_or_fence)
    (auto intro!: inside_intros dest: journal_inside_record)

lemma inside_failed_prefixes: "holds (journal_inside i) (forward_failed_prefixes W req now owner revision ps)"
proof -
  have step: "holds (journal_inside i) (failed_prefixes_of W st c current revision target)"
    if "journal_inside i st" "record_inside i current" for st c current target
    unfolding failed_prefixes_of_def Let_def
    by (intro holds_steps holds_ack)
      (use that in \<open>auto intro!: inside_intros dest: journal_inside_record\<close>)
  show ?thesis
    unfolding forward_failed_prefixes_def
    by (intro holds_steps holds_administrator step) (auto dest: journal_inside_record split: if_splits)
qed

lemma inside_policy_update:
  assumes "operation_in_domain i (ForwardPolicyUpdate owner revision gen hash d)"
  shows "holds (journal_inside i) (forward_policy_update W req now owner revision gen hash d)"
proof -
  have "holds (journal_inside i) (policy_update_of W now st current revision gen hash d)"
    if "journal_inside i st" "record_inside i current" for st current
    unfolding policy_update_of_def
    by (intro holds_steps holds_ack inside_reconcile)
      (use that assms in \<open>auto intro!: inside_intros dest: journal_inside_record\<close>)
  then show ?thesis
    unfolding forward_policy_update_def
    by (intro holds_steps holds_administrator) (auto dest: journal_inside_record)
qed

lemma inside_dispatch:
  assumes "operation_in_domain i op"
  shows "holds (journal_inside i) (infra_dispatch W req now op auth)"
  using assms
  by (cases op) (auto intro: inside_ensure inside_acquire inside_release inside_retire inside_prepare
      inside_authorize inside_commit inside_guard inside_revoke inside_renew inside_failed_prefixes
      inside_policy_update holds_get holds_rules simp del: operation_in_domain.simps)

lemma inside_normalize:
  assumes "operation_in_domain i op"
    and "\<And>op' auth. operation_in_domain i op' \<Longrightarrow> holds (journal_inside i) (f (op', auth))"
  shows "holds (journal_inside i) (bind (normalize_operation W req now op) f)"
proof (cases op)
  case (ForwardCommitAuthorized owner receipt)
  have "holds (journal_inside i) (f (ForwardCommit owner, True))"
    using assms(1) by (intro assms(2)) (simp add: ForwardCommitAuthorized)
  then show ?thesis
    unfolding ForwardCommitAuthorized normalize_operation.simps bind_assoc_return
    by (intro holds_andthen holds_receipt)
qed (use assms in \<open>simp_all only: normalize_operation.simps bind_assoc_return\<close>)

lemma inside_process:
  assumes "operation_in_domain i (infra_operation req)"
  shows "holds (journal_inside i) (infra_process W req peer now)"
  unfolding infra_process_def
  by (intro holds_andthen holds_rules holds_bind [OF holds_rules(10)] holds_if inside_recover_expired
      inside_normalize [OF assms])
    (auto intro: holds_andthen holds_repairs inside_dispatch)

section \<open>What the router relies on\<close>

text \<open>
  The contract between a domain worker and the service it drives: serving a request that fits the
  domain, and the periodic recovery, stay inside the domain, whatever their outcome.
\<close>

locale domain_service =
  fixes inside :: "'i \<Rightarrow> 's \<Rightarrow> bool"
    and fits :: "'i \<Rightarrow> 'q \<Rightarrow> bool"
    and serve :: "'w \<Rightarrow> 'q \<Rightarrow> 'p \<Rightarrow> 't \<Rightarrow> 's \<Rightarrow> 'r \<times> 's"
    and recover :: "'w \<Rightarrow> 't \<Rightarrow> 's \<Rightarrow> 'e \<times> 's"
  assumes serve_inside: "fits i q \<Longrightarrow> inside i s \<Longrightarrow> inside i (snd (serve W q p now s))"
    and recover_inside: "inside i s \<Longrightarrow> inside i (snd (recover W now s))"
begin

text \<open>A worker's schedule: requests, and recoveries between them.\<close>

fun run :: "('w \<times> 't \<times> ('q \<times> 'p) option) list \<Rightarrow> 's \<Rightarrow> 's" where
  "run [] s = s"
| "run ((W, now, None) # rest) s = run rest (snd (recover W now s))"
| "run ((W, now, Some (q, p)) # rest) s = run rest (snd (serve W q p now s))"

lemma run_inside:
  assumes "\<And>W now q p. (W, now, Some (q, p)) \<in> set schedule \<Longrightarrow> fits i q" and "inside i s"
  shows "inside i (run schedule s)"
  using assms
proof (induction schedule s rule: run.induct)
  case (3 W now q p rest s)
  have "fits i q" using "3.prems"(1) by (meson list.set_intros(1))
  with "3.prems" show ?case by (auto intro!: "3.IH" serve_inside)
qed (auto intro: recover_inside)

end

lemma holds_inside:
  "holds K m \<Longrightarrow> K (svc_state s) \<Longrightarrow> K (svc_state (snd (m s)))"
  by (cases "m s"; cases "fst (m s)") (auto simp: holds_def hoare_def)

interpretation infra_domain: domain_service "\<lambda>i s. journal_inside i (svc_state s)"
  "\<lambda>i req. operation_in_domain i (infra_operation req)" infra_process recover_expired
  by unfold_locales (auto intro: holds_inside inside_process inside_recover_expired)

end
