(* ===== verification/Netd_Router_Start.thy ===== *)
theory Netd_Router_Start
  imports Netd_Router
begin

text \<open>
  The start of the multi-domain service (\<^verbatim>\<open>MultiDomainService::new\<close>, \<^verbatim>\<open>candy-netd/src/v2/domains.rs\<close>
  lines 519-698): the checks of every configured domain against the host and against the domains
  before it, the owners found in the journals, and the worker of each domain.
\<close>

section \<open>The host\<close>

text \<open>
  What the start sees of the host: the namespace of the process, the metadata and file system type
  of a namespace file, the resolution of a directory, the file system around each journal, and the
  lock file of a domain, whose \<^verbatim>\<open>flock\<close> succeeds when \<open>lock_free\<close> and no domain before it took the
  same file.
\<close>

record pinned_namespace =
  ns_device :: u64
  ns_inode :: u64
  ns_uid :: u32
  ns_mode :: u32
  ns_type :: u64

record lock_file =
  lock_inode :: u64
  lock_is_file :: bool
  lock_uid :: u32
  lock_mode :: u32
  lock_free :: bool

record domain_host =
  own_namespace :: "(u64 \<times> u64) option"
  open_namespace :: "string \<Rightarrow> pinned_namespace option"
  canonicalize :: "string list \<Rightarrow> string list option"
  journal_at :: "string \<Rightarrow> journal_fs"
  lock_at :: "string list \<Rightarrow> lock_file option"

section \<open>Paths\<close>

text \<open>The components of an absolute path: empty and \<^verbatim>\<open>.\<close> components are skipped.\<close>

fun split_slashes :: "string \<Rightarrow> string \<Rightarrow> string list" where
  "split_slashes word [] = [rev word]"
| "split_slashes word (c # cs) =
     (if c = CHR ''/'' then rev word # split_slashes [] cs else split_slashes (c # word) cs)"

definition path_components :: "string \<Rightarrow> string list" where
  "path_components path = filter (\<lambda>c. c \<noteq> [] \<and> c \<noteq> ''.'') (split_slashes [] path)"

definition is_absolute :: "string \<Rightarrow> bool" where
  "is_absolute path \<longleftrightarrow> path \<noteq> [] \<and> hd path = CHR ''/''"

definition path_parent :: "string \<Rightarrow> string list option" where
  "path_parent path =
     (if path_components path = [] then None else Some (butlast (path_components path)))"

definition path_file_name :: "string \<Rightarrow> string option" where
  "path_file_name path =
     (if path_components path = [] \<or> last (path_components path) = ''..'' then None
      else Some (last (path_components path)))"

text \<open>The name without the part from its last dot, unless that dot starts it.\<close>

definition file_stem :: "string \<Rightarrow> string" where
  "file_stem name =
     (case dropWhile (\<lambda>c. c \<noteq> CHR ''.'') (rev name) of
        [] \<Rightarrow> name
      | _ # before \<Rightarrow> if before = [] then name else rev before)"

definition lock_path :: "string \<Rightarrow> string list" where
  "lock_path path =
     (case path_file_name path of
        None \<Rightarrow> path_components path
      | Some name \<Rightarrow> butlast (path_components path) @ [file_stem name @ ''.domain-lock''])"

definition canonical_journal :: "domain_host \<Rightarrow> string \<Rightarrow> infra_error + string list" where
  "canonical_journal H path =
     rbind (ok_or InfraJournal (path_parent path)) (\<lambda>parent.
     rbind (ok_or InfraJournal (canonicalize H parent)) (\<lambda>directory.
     rbind (ok_or InfraJournal (path_file_name path)) (\<lambda>name.
     Inr (directory @ [name]))))"

section \<open>The checks of one domain\<close>

definition NSFS_MAGIC :: u64 where
  "NSFS_MAGIC = 0x6e736673"

text \<open>What the loop has seen so far.\<close>

record start_state =
  prepared :: "(domain_identity \<times> journal_fs) list"
  journal_files :: "string list list"
  lock_inodes :: "u64 list"
  found_bindings :: io_bindings

definition start_configs :: "start_state \<Rightarrow> domain_config list" where
  "start_configs acc = map (id_config \<circ> fst) (prepared acc)"

definition start_namespaces :: "start_state \<Rightarrow> (u64 \<times> u64) list" where
  "start_namespaces acc = map (\<lambda>(i, _). (id_netns_device i, id_netns_inode i)) (prepared acc)"

definition config_explicit :: "domain_config \<Rightarrow> bool" where
  "config_explicit d \<longleftrightarrow>
     cfg_domain_id d \<noteq> 0 \<and> cfg_infra_id d \<noteq> 0
     \<and> CANDY_TABLE_MIN \<le> cfg_table_id d \<and> cfg_table_id d \<le> CANDY_TABLE_MAX
     \<and> is_absolute (namespace_path d) \<and> is_absolute (journal_path d)"

definition namespace_safe :: "(u64 \<times> u64) \<Rightarrow> pinned_namespace \<Rightarrow> bool" where
  "namespace_safe own ns \<longleftrightarrow>
     ns_uid ns = 0 \<and> ns_mode ns AND 0x12 = 0 \<and> ns_type ns = NSFS_MAGIC
     \<and> (ns_device ns, ns_inode ns) \<noteq> own"

text \<open>A live owner in the journal is bound, with the token no reservation ever has.\<close>

definition bind_found ::
    "'d infra_platform \<Rightarrow> u128 \<Rightarrow> infra_state \<Rightarrow> io_bindings \<Rightarrow> infra_error + io_bindings" where
  "bind_found env domain st bs =
     (case io_owner st of
        None \<Rightarrow> Inr bs
      | Some owner \<Rightarrow>
          if \<not> io_owner_alive env owner then Inr bs
          else
            rbind (validate_io_binding env bs domain owner) (\<lambda>_.
            Inr (AList.update domain \<lparr>bound_owner = owner, bound_token = 0\<rparr> bs)))"

definition lock_domain :: "domain_host \<Rightarrow> string \<Rightarrow> u64 list \<Rightarrow> infra_error + u64" where
  "lock_domain H path taken =
     rbind (ok_or InfraJournal (lock_at H (lock_path path))) (\<lambda>l.
     if \<not> lock_is_file l \<or> lock_uid l \<noteq> 0 \<or> lock_mode l AND 0x3f \<noteq> 0
        \<or> \<not> lock_free l \<or> lock_inode l \<in> set taken
     then Inl (Rejected ''domain_journal_busy'') else Inr (lock_inode l))"

definition load_journal :: "infra_codec \<Rightarrow> journal_fs \<Rightarrow> infra_error + (infra_state \<times> journal_fs)" where
  "load_journal C fs =
     (case bind infra_journal_new (\<lambda>_. infra_load_file C) fs of
        (Inl _, _) \<Rightarrow> Inl InfraJournal
      | (Inr st, fs') \<Rightarrow> Inr (st, fs'))"

definition prepare_domain ::
    "domain_host \<Rightarrow> infra_codec \<Rightarrow> 'd infra_platform \<Rightarrow> (u64 \<times> u64) \<Rightarrow> domain_config \<Rightarrow> start_state \<Rightarrow>
     infra_error + start_state" where
  "prepare_domain H C env own d acc =
     (if \<not> config_explicit d
         \<or> cfg_domain_id d \<in> set (map cfg_domain_id (start_configs acc))
         \<or> cfg_infra_id d \<in> set (map cfg_infra_id (start_configs acc))
      then Inl (Rejected ''domain_configuration_invalid'')
      else
        rbind (ok_or InfraJournal (open_namespace H (namespace_path d))) (\<lambda>ns.
        if \<not> namespace_safe own ns \<or> (ns_device ns, ns_inode ns) \<in> set (start_namespaces acc)
        then Inl (Rejected ''domain_namespace_conflict'')
        else
          rbind (canonical_journal H (journal_path d)) (\<lambda>canonical.
          if canonical \<in> set (journal_files acc) then Inl (Rejected ''domain_journal_conflict'')
          else
            let i = \<lparr>id_config = d, id_netns_device = ns_device ns, id_netns_inode = ns_inode ns\<rparr> in
            rbind (load_journal C (journal_at H (journal_path d))) (\<lambda>(st, fs).
            rbind (validate_journal i st) (\<lambda>_.
            rbind (bind_found env (cfg_domain_id d) st (found_bindings acc)) (\<lambda>bs.
            rbind (lock_domain H (journal_path d) (lock_inodes acc)) (\<lambda>inode.
            Inr \<lparr>prepared = prepared acc @ [(i, fs)], journal_files = canonical # journal_files acc,
                 lock_inodes = inode # lock_inodes acc, found_bindings = bs\<rparr>)))))))"

fun prepare_domains ::
    "domain_host \<Rightarrow> infra_codec \<Rightarrow> 'd infra_platform \<Rightarrow> (u64 \<times> u64) \<Rightarrow> domain_config list \<Rightarrow>
     start_state \<Rightarrow> infra_error + start_state" where
  "prepare_domains H C env own [] acc = Inr acc"
| "prepare_domains H C env own (d # ds) acc =
     rbind (prepare_domain H C env own d acc) (prepare_domains H C env own ds)"

section \<open>The workers\<close>

text \<open>
  What starting a worker meets: whether its thread starts, the namespace it finds itself in after
  \<^verbatim>\<open>setns\<close>, the backend it opens, and the file system around the journal when it loads its state,
  which may have changed since the checks.
\<close>

record 'b worker_host =
  thread_starts :: "domain_identity \<Rightarrow> bool"
  entered_namespace :: "domain_identity \<Rightarrow> (u64 \<times> u64) option"
  open_backend :: "domain_identity \<Rightarrow> network_error + 'b"
  journal_now :: "domain_identity \<Rightarrow> journal_fs \<Rightarrow> journal_fs"

definition start_worker ::
    "('d, 'f, 'b, journal_fs) infra_world \<Rightarrow> 'b worker_host \<Rightarrow> u32 \<Rightarrow> u32 \<Rightarrow> 'f \<Rightarrow> domain_identity \<Rightarrow>
     journal_fs \<Rightarrow> infra_error + ('d, 'f, 'b, journal_fs) domain_worker" where
  "start_worker W V uid gid f i fs =
     (if \<not> thread_starts V i then Inl InfraJournal
      else
        rbind (ok_or InfraJournal (entered_namespace V i)) (\<lambda>actual.
        if actual \<noteq> (id_netns_device i, id_netns_inode i)
        then Inl (Rejected ''domain_namespace_conflict'')
        else
          rbind (map_err InfraBackend (open_backend V i)) (\<lambda>b.
          rbind (infra_service_new W uid gid f b (journal_now V i fs)) (\<lambda>service.
          Inr \<lparr>w_identity = i, w_service = service, w_queue = None, w_inflight = False,
               w_stage = WorkerIdle\<rparr>))))"

fun start_workers ::
    "('d, 'f, 'b, journal_fs) infra_world \<Rightarrow> 'b worker_host \<Rightarrow> u32 \<Rightarrow> u32 \<Rightarrow> 'f \<Rightarrow>
     (domain_identity \<times> journal_fs) list \<Rightarrow> (u128 \<rightharpoonup> ('d, 'f, 'b, journal_fs) domain_worker) \<Rightarrow>
     infra_error + (u128 \<rightharpoonup> ('d, 'f, 'b, journal_fs) domain_worker)" where
  "start_workers W V uid gid f [] ws = Inr ws"
| "start_workers W V uid gid f ((i, fs) # rest) ws =
     rbind (start_worker W V uid gid f i fs) (\<lambda>w.
     start_workers W V uid gid f rest (ws(cfg_domain_id (id_config i) \<mapsto> w)))"

definition multi_domain_new ::
    "domain_host \<Rightarrow> infra_codec \<Rightarrow> ('d, 'f, 'b, journal_fs) infra_world \<Rightarrow> 'b worker_host \<Rightarrow>
     u64 option \<Rightarrow> u64 option \<Rightarrow> u32 \<Rightarrow> u32 \<Rightarrow> 'f \<Rightarrow> domains_config \<Rightarrow>
     infra_error + ('d, 'f, 'b, journal_fs) router" where
  "multi_domain_new H C W V open_fds soft_limit uid gid f config =
     (if cfg_domains config = [] then Inl (Rejected ''domain_configuration_empty'')
      else
        rbind (validate_resource_admission config open_fds soft_limit) (\<lambda>_.
        rbind (ok_or InfraJournal (own_namespace H)) (\<lambda>own.
        rbind (prepare_domains H C (os W) own (cfg_domains config)
          \<lparr>prepared = [], journal_files = [], lock_inodes = [], found_bindings = []\<rparr>) (\<lambda>acc.
        rbind (start_workers W V uid gid f (prepared acc) Map.empty) (\<lambda>ws.
        Inr \<lparr>router_uid = uid, router_gid = gid, router_limits = cfg_budgets config, workers = ws,
             bindings = found_bindings acc, next_token = 1,
             pending = \<lparr>pending_requests = 0, pending_bytes = 0\<rparr>, leases = Map.empty,
             front_attached = False, front_queue = [], idle_threads = 0, next_call = 0,
             calls = Map.empty, replies = Map.empty, sent = [], system = os W\<rparr>)))))"

end
