(* ===== verification/Netd_Router_Bindings.thy ===== *)
theory Netd_Router_Bindings
  imports Netd_Router_Laws Netd_Isolation Netd_Router_Start
begin

text \<open>
  Two more invariants of the router's threads: the table of I/O owners, with the reservations that
  may still be rolled back, and the confinement of every queued operation and every journal to its
  domain.
\<close>

section \<open>Outstanding reservations\<close>

fun rollback_of_stage :: "'d call_stage \<Rightarrow> io_rollback option" where
  "rollback_of_stage (CallReserved _ rb) = rb"
| "rollback_of_stage (CallWaiting _ rb) = rb"
| "rollback_of_stage (CallReturning _ _ rb) = rb"
| "rollback_of_stage _ = None"

text \<open>Who may still roll back a reservation: the call that made it, and the request it sent.\<close>

definition call_reservations :: "(nat \<rightharpoonup> 'd call_stage) \<Rightarrow> (nat \<times> io_rollback) set" where
  "call_reservations cs = {(c, rb). \<exists>s. cs c = Some s \<and> rollback_of_stage s = Some rb}"

definition worker_reservations ::
    "(u128 \<rightharpoonup> ('d, 'f, 'b, 'j) domain_worker) \<Rightarrow> (nat \<times> io_rollback) set" where
  "worker_reservations ws =
     {(dr_call dr, rb) | d w dr rb. ws d = Some w \<and> dr \<in> worker_requests w \<and> dr_rollback dr = Some rb}"

definition reservations :: "('d, 'f, 'b, 'j) router \<Rightarrow> (nat \<times> io_rollback) set" where
  "reservations r = call_reservations (calls r) \<union> worker_reservations (workers r)"

lemma call_reservations_upd:
  "call_reservations (cs(c := v)) \<subseteq> call_reservations cs \<union> {(c, rb) | rb. Option.bind v rollback_of_stage = Some rb}"
  by (auto simp: call_reservations_def split: if_splits)

lemma call_reservations_at:
  "cs c = Some s \<Longrightarrow> rollback_of_stage s = Some rb \<Longrightarrow> (c, rb) \<in> call_reservations cs"
  by (auto simp: call_reservations_def)

lemma worker_reservations_upd:
  "worker_reservations (ws(d \<mapsto> w)) \<subseteq> worker_reservations ws \<union>
    {(dr_call dr, rb) | dr rb. dr \<in> worker_requests w \<and> dr_rollback dr = Some rb}"
  by (force simp: worker_reservations_def split: if_splits)

lemma worker_reservations_at:
  "ws d = Some w \<Longrightarrow> dr \<in> worker_requests w \<Longrightarrow> dr_rollback dr = Some rb \<Longrightarrow>
    (dr_call dr, rb) \<in> worker_reservations ws"
  by (auto simp: worker_reservations_def)

lemma worker_reservations_shrink:
  assumes "ws d = Some w" and "worker_requests w' \<subseteq> worker_requests w"
  shows "worker_reservations (ws(d \<mapsto> w')) \<subseteq> worker_reservations ws"
  using worker_reservations_upd [of ws d w'] worker_reservations_at [of ws d w] assms by blast

lemma worker_requests_simps [simp]:
  "worker_requests (w\<lparr>w_inflight := b\<rparr>) = worker_requests w"
  "worker_requests (w\<lparr>w_service := s\<rparr>) = worker_requests w"
  by (simp_all add: worker_requests_def)

lemma worker_reservations_freed:
  "worker_reservations (ws(d := map_option (\<lambda>w. w\<lparr>w_inflight := b\<rparr>) (ws d))) \<subseteq> worker_reservations ws"
  by (cases "ws d") (auto simp: fun_upd_idem dest: worker_reservations_shrink [THEN subsetD, rotated 2])

text \<open>How a step may change the table and the outstanding reservations.\<close>

definition steady_table :: "('d, 'f, 'b, 'j) router \<Rightarrow> ('d, 'f, 'b, 'j) router \<Rightarrow> bool" where
  "steady_table r r' \<longleftrightarrow> system r' = system r \<and> next_token r \<le> next_token r' \<and> bindings r' = bindings r
     \<and> reservations r' \<subseteq> reservations r"

definition undone_table :: "('d, 'f, 'b, 'j) router \<Rightarrow> ('d, 'f, 'b, 'j) router \<Rightarrow> bool" where
  "undone_table r r' \<longleftrightarrow> system r' = system r \<and> next_token r' = next_token r
     \<and> (\<exists>c rb. (c, rb) \<in> reservations r \<and> bindings r' = io_rollback_apply rb (bindings r))
     \<and> reservations r' \<subseteq> reservations r"

definition reserved_table :: "('d, 'f, 'b, 'j) router \<Rightarrow> ('d, 'f, 'b, 'j) router \<Rightarrow> bool" where
  "reserved_table r r' \<longleftrightarrow> system r' = system r \<and> checked_add (next_token r) 1 = Some (next_token r')
     \<and> (\<exists>c d owner rb.
          reserve_binding (system r) d owner (next_token r) (bindings r) = Inr (rb, bindings r')
          \<and> reservations r' \<subseteq> insert (c, rb) (reservations r))"

lemma steady_refl: "steady_table r r"
  by (simp add: steady_table_def)

lemma steady_stage:
  assumes "system r' = system r" "next_token r \<le> next_token r'" "bindings r' = bindings r"
    and "workers r' = workers r" and "calls r' = (calls r)(c := v)"
    and "\<And>rb. Option.bind v rollback_of_stage = Some rb \<Longrightarrow> Option.bind (calls r c) rollback_of_stage = Some rb"
  shows "steady_table r r'"
proof -
  have "call_reservations (calls r') \<subseteq> call_reservations (calls r)"
    using call_reservations_upd [of "calls r" c v] assms(5,6)
    by (auto simp: call_reservations_def Option.bind_eq_Some_conv split: if_splits)
  then show ?thesis using assms by (auto simp: steady_table_def reservations_def)
qed

lemma steady_freed:
  assumes "steady_table r r'" shows "steady_table r (drop_domain_permit d r')"
  using assms worker_reservations_freed [of "workers r'" d False]
  by (auto simp: steady_table_def reservations_def)

lemma steady_return: "calls r c = Some s \<Longrightarrow> steady_table r (call_return c i res r)"
  by (rule steady_stage [of _ _ c "Some (CallResponding i res)"]) (simp_all add: call_return_def)

lemma steady_abort: "calls r c = Some s \<Longrightarrow> steady_table r (call_abort c cd e r)"
  unfolding call_abort_def by (intro steady_freed steady_return)

lemma steady_worker:
  assumes "workers r d = Some w" and "workers r' = (workers r)(d \<mapsto> w')"
    and "worker_requests w' \<subseteq> worker_requests w"
    and "system r' = system r" "next_token r' = next_token r" "bindings r' = bindings r" "calls r' = calls r"
  shows "steady_table r r'"
  using worker_reservations_shrink [of "workers r", OF assms(1,3)] assms(2,4-)
  by (auto simp: steady_table_def reservations_def)

lemma steady_front:
  "attach_front spawned r = (result, r') \<Longrightarrow> steady_table r r'" "steady_table r (detach_front r)"
  "dispatch_front ok r = (result, r') \<Longrightarrow> steady_table r r'" "steady_table r (call_direct req peer now r)"
  "steady_table r (front_take r)"
proof -
  show "attach_front spawned r = (result, r') \<Longrightarrow> steady_table r r'"
    by (auto simp: attach_front_def steady_table_def reservations_def split: if_splits)
  show "steady_table r (detach_front r)"
    by (simp add: detach_front_def steady_table_def reservations_def)
  have "steady_table r r'" if "calls r' = (calls r)(next_call r \<mapsto> CallQueued)" "workers r' = workers r"
    "system r' = system r" "bindings r' = bindings r" "next_token r' = next_token r"
    using that by (intro steady_stage [of _ _ "next_call r" "Some CallQueued"]) simp_all
  moreover have "steady_table r r'" if "calls r' = calls r" "workers r' = workers r"
    "system r' = system r" "bindings r' = bindings r" "next_token r' = next_token r"
    using that by (simp add: steady_table_def reservations_def)
  ultimately show "dispatch_front ok r = (result, r') \<Longrightarrow> steady_table r r'"
    by (auto simp: dispatch_front_def Let_def steady_refl split: sum.splits if_splits)
  show "steady_table r (call_direct req peer now r)"
    by (rule steady_stage [of _ _ "next_call r" "Some (CallRouting req peer now)"])
      (simp_all add: call_direct_def)
  show "steady_table r (front_take r)"
  proof (cases "front_queue r = [] \<or> idle_threads r = 0")
    case True
    then show ?thesis by (auto simp: front_take_def steady_refl split: list.splits)
  next
    case False
    then show ?thesis
      by (intro steady_stage [of _ _ "hd (front_queue r)" "Some CallReading"])
        (auto simp: front_take_def neq_Nil_conv)
  qed
qed

lemma front_done_table [simp]:
  "system (front_done c r) = system r" "next_token (front_done c r) = next_token r"
  "bindings (front_done c r) = bindings r"
  by simp_all

lemma steady_calls:
  "calls r c = Some CallReading \<Longrightarrow> steady_table r (call_read c received r)"
  "calls r c = Some (CallRouting req peer now) \<Longrightarrow> steady_table r (call_route c ns req peer now r)"
  "calls r c = Some (CallRouted cd) \<Longrightarrow> steady_table r (call_claim c cd r)"
  "calls r c = Some (CallClaimed cd) \<Longrightarrow> steady_table r (call_admit c M cd r)"
  "calls r c = Some (CallWaiting i rb) \<Longrightarrow> steady_table r (call_receive c i rb r)"
  "calls r c = Some (CallResponding i res) \<Longrightarrow> steady_table r (call_respond c i res ok r)"
proof -
  have leave: "steady_table r r'" if "calls r' = (calls r)(c := None)" "workers r' = workers r"
    "system r' = system r" "bindings r' = bindings r" "next_token r' = next_token r" for r'
    using that by (intro steady_stage [of _ _ c None]) simp_all
  have stage: "steady_table r r'" if "calls r' = (calls r)(c \<mapsto> s)" "workers r' = workers r"
    "system r' = system r" "bindings r' = bindings r" "next_token r' = next_token r"
    "rollback_of_stage s = None" for r' s
    using that by (intro steady_stage [of _ _ c "Some s"]) simp_all
  show "calls r c = Some CallReading \<Longrightarrow> steady_table r (call_read c received r)"
    by (cases received) (auto simp: call_read_def split: prod.splits intro: leave stage)
  show "calls r c = Some (CallRouting req peer now) \<Longrightarrow> steady_table r (call_route c ns req peer now r)"
    by (auto simp: call_route_def steady_return intro: stage split: sum.split routed.split)
  show "calls r c = Some (CallResponding i res) \<Longrightarrow> steady_table r (call_respond c i res ok r)"
    by (auto simp: call_respond_def intro: leave)
  show "steady_table r (call_claim c cd r)" if "calls r c = Some (CallRouted cd)"
  proof (cases "workers r (c_domain cd)")
    case (Some w)
    have "worker_reservations ((workers r)(c_domain cd \<mapsto> w\<lparr>w_inflight := True\<rparr>)) \<subseteq> worker_reservations (workers r)"
      by (rule worker_reservations_shrink [of "workers r", OF Some]) simp
    moreover have "call_reservations ((calls r)(c \<mapsto> CallClaimed cd)) \<subseteq> call_reservations (calls r)"
      using call_reservations_upd [of "calls r" c "Some (CallClaimed cd)"] by auto
    ultimately show ?thesis
      using Some that by (auto simp: call_claim_def steady_return) (auto simp: steady_table_def reservations_def)
  qed (simp add: call_claim_def steady_refl)
  show "calls r c = Some (CallClaimed cd) \<Longrightarrow> steady_table r (call_admit c M cd r)"
    by (auto simp: call_admit_def steady_abort intro: stage split: sum.split option.split)
  show "steady_table r (call_receive c i rb r)" if "calls r c = Some (CallWaiting i rb)"
    using that
    by (cases "replies r c")
      (auto simp: call_receive_def intro!: steady_stage [of _ _ c "Some (CallReturning i _ rb)"])
qed

lemma step_finish:
  assumes "calls r c = Some (CallReturning i res rb)"
  shows "steady_table r (call_finish c i res rb r) \<or> undone_table r (call_finish c i res rb r)"
proof (cases "rolls_back res \<and> rb \<noteq> None")
  case True
  then obtain v where v: "rb = Some v" by blast
  have "(c, v) \<in> reservations r"
    using assms v by (auto simp: reservations_def call_reservations_def)
  moreover have "call_reservations ((calls r)(c \<mapsto> CallResponding i res)) \<subseteq> call_reservations (calls r)"
    using call_reservations_upd [of "calls r" c "Some (CallResponding i res)"] by auto
  ultimately have "undone_table r (call_finish c i res rb r)"
    using True v
    by (auto simp: undone_table_def call_finish_def roll_back_binding_def) (auto simp: reservations_def)
  then show ?thesis ..
next
  case False
  then have "steady_table r (call_finish c i res rb r)"
    by (intro steady_stage [of _ _ c "Some (CallResponding i res)"])
      (auto simp: call_finish_def roll_back_binding_def split: option.splits)
  then show ?thesis ..
qed

lemma step_reserve:
  assumes "calls r c = Some (CallAdmitted cd)"
  shows "steady_table r (call_reserve c cd r) \<or> reserved_table r (call_reserve c cd r)"
proof (cases "c_owner cd")
  case None
  have "steady_table r (call_reserve c cd r)"
    by (rule steady_stage [of _ _ c "Some (CallReserved cd None)"]) (simp_all add: call_reserve_def None)
  then show ?thesis ..
next
  case (Some owner)
  show ?thesis
  proof (cases "checked_add (next_token r) 1")
    case None
    then show ?thesis using Some steady_abort [OF assms] by (simp add: call_reserve_def)
  next
    case later: (Some later)
    then have le: "next_token r \<le> later"
      by (auto simp: word_le_nat_alt dest: checked_unat)
    show ?thesis
    proof (cases "reserve_binding (system r) (c_domain cd) owner (next_token r) (bindings r)")
      case (Inl e)
      have "steady_table (r\<lparr>next_token := later\<rparr>) (call_abort c cd e (r\<lparr>next_token := later\<rparr>))"
        using assms by (intro steady_abort) simp
      then show ?thesis
        using Some later Inl le by (auto simp: call_reserve_def steady_table_def reservations_def)
    next
      case (Inr v)
      then obtain rb bs where v: "reserve_binding (system r) (c_domain cd) owner (next_token r) (bindings r)
          = Inr (rb, bs)" by (cases v) auto
      have "call_reservations ((calls r)(c \<mapsto> CallReserved cd (Some rb)))
          \<subseteq> insert (c, rb) (call_reservations (calls r))"
        using call_reservations_upd [of "calls r" c "Some (CallReserved cd (Some rb))"] by auto
      then have "reserved_table r (call_reserve c cd r)"
        using v by (simp add: reserved_table_def call_reserve_def Some later reservations_def) blast
      then show ?thesis ..
    qed
  qed
qed

lemma step_send:
  assumes "calls r c = Some (CallReserved cd rb)"
  shows "steady_table r (call_send c cd rb r)"
proof (cases "workers r (c_domain cd)")
  case (Some w)
  have calls: "call_reservations ((calls r)(c \<mapsto> s)) \<subseteq> call_reservations (calls r)"
    if "rollback_of_stage s = rb" for s
    using call_reservations_upd [of "calls r" c "Some s"] assms that call_reservations_at [of "calls r" c] by auto
  let ?w = "w\<lparr>w_queue := Some \<lparr>dr_call = c, dr_request = c_request cd, dr_peer = c_peer cd,
      dr_now = c_now cd, dr_rollback = rb\<rparr>\<rparr>"
  have "worker_reservations ((workers r)(c_domain cd \<mapsto> ?w)) \<subseteq> reservations r"
    using worker_reservations_upd [of "workers r" "c_domain cd" ?w] worker_reservations_at [of "workers r", OF Some]
      call_reservations_at [of "calls r" c, OF assms]
    by (auto simp: reservations_def worker_requests_def)
  moreover have "steady_table r (drop_domain_permit (c_domain cd) (drop_request_permit c
      (set_stage c (CallReturning (c_id cd) res rb) r)))" for res
    using calls [of "CallReturning (c_id cd) res rb"]
    by (intro steady_freed) (auto simp: steady_table_def reservations_def)
  ultimately show ?thesis
    using Some calls [of "CallWaiting (c_id cd) rb"]
    by (auto simp: call_send_def) (auto simp: steady_table_def reservations_def)
qed (simp add: call_send_def steady_refl)

lemma step_work:
  assumes w: "workers r d = Some w"
  shows "w_stage w = WorkerIdle \<Longrightarrow> steady_table r (work_take d w r)"
    and "w_stage w = WorkerTook dr \<Longrightarrow> steady_table r (work_process W d w dr r)"
    and "w_stage w = WorkerProcessed dr res \<Longrightarrow>
      steady_table r (work_roll_back d w dr res r) \<or> undone_table r (work_roll_back d w dr res r)"
    and "w_stage w = WorkerRolledBack dr res \<Longrightarrow> steady_table r (work_release d w dr res r)"
    and "w_stage w = WorkerReleased dr res \<Longrightarrow> steady_table r (work_free d w dr res r)"
    and "w_stage w = WorkerFreed dr res \<Longrightarrow> steady_table r (work_reply d w dr res r)"
    and "w_stage w = WorkerRecovering \<Longrightarrow> steady_table r (work_recover W clock d w r)"
proof -
  note upd = steady_worker [OF w]
  show "w_stage w = WorkerIdle \<Longrightarrow> steady_table r (work_take d w r)"
    by (cases "w_queue w") (auto simp: work_take_def worker_requests_def intro!: upd)
  show "w_stage w = WorkerTook dr \<Longrightarrow> steady_table r (work_process W d w dr r)"
    by (auto simp: work_process_def worker_requests_def intro!: upd split: prod.splits)
  show "w_stage w = WorkerRolledBack dr res \<Longrightarrow> steady_table r (work_release d w dr res r)"
    "w_stage w = WorkerReleased dr res \<Longrightarrow> steady_table r (work_free d w dr res r)"
    "w_stage w = WorkerFreed dr res \<Longrightarrow> steady_table r (work_reply d w dr res r)"
    by (auto simp: work_defs worker_requests_def intro!: upd)
  show "w_stage w = WorkerRecovering \<Longrightarrow> steady_table r (work_recover W clock d w r)"
    by (cases clock) (auto simp: work_recover_def worker_requests_def intro!: upd)
  show "steady_table r (work_roll_back d w dr res r) \<or> undone_table r (work_roll_back d w dr res r)"
    if stage: "w_stage w = WorkerProcessed dr res"
  proof (cases "is_ok res \<or> dr_rollback dr = None")
    case True
    then have "steady_table r (work_roll_back d w dr res r)"
      using stage by (auto simp: work_roll_back_def worker_requests_def roll_back_binding_def intro!: upd)
    then show ?thesis ..
  next
    case False
    then obtain rb where rb: "dr_rollback dr = Some rb" by blast
    have "(dr_call dr, rb) \<in> reservations r"
      using worker_reservations_at [of "workers r", OF w _ rb] stage
      by (auto simp: reservations_def worker_requests_def)
    moreover have "worker_reservations ((workers r)(d \<mapsto> w\<lparr>w_stage := WorkerRolledBack dr res\<rparr>))
        \<subseteq> worker_reservations (workers r)"
      using stage by (intro worker_reservations_shrink [of "workers r", OF w]) (auto simp: worker_requests_def)
    ultimately have "undone_table r (work_roll_back d w dr res r)"
      using False rb
      by (auto simp: undone_table_def work_roll_back_def roll_back_binding_def) (auto simp: reservations_def)
    then show ?thesis ..
  qed
qed

lemma step_table:
  assumes "router_step r r'"
  shows "steady_table r r' \<or> undone_table r r' \<or> reserved_table r r' \<or> (\<exists>env. r' = r\<lparr>system := env\<rparr>)"
  using assms
proof cases
  case reserve then show ?thesis using step_reserve by blast
next
  case finish then show ?thesis using step_finish by blast
next
  case work_roll_back then show ?thesis using step_work(3) by blast
next
  case attach then show ?thesis using steady_front(1) by blast
next
  case connect then show ?thesis using steady_front(3) by blast
next
  case system then show ?thesis by blast
qed (simp_all add: steady_front steady_calls step_send step_work)

section \<open>The table of owners\<close>

definition exclusive :: "'d infra_platform \<Rightarrow> io_bindings \<Rightarrow> bool" where
  "exclusive env bs \<longleftrightarrow>
     (\<forall>d b d' b'. map_of bs d = Some b \<longrightarrow> map_of bs d' = Some b' \<longrightarrow> d \<noteq> d' \<longrightarrow>
        io_owner_alive env (bound_owner b) \<longrightarrow> io_owner_alive env (bound_owner b') \<longrightarrow>
        \<not> same_io_process (bound_owner b) (bound_owner b'))"

definition retired :: "('d, 'f, 'b, 'j) router \<Rightarrow> bool" where
  "retired r \<longleftrightarrow>
     (\<forall>c rb b. (c, rb) \<in> reservations r \<longrightarrow> rollback_previous rb = Some b \<longrightarrow>
        \<not> io_owner_alive (system r) (bound_owner b))"

text \<open>
  The owners the router knows, and what the operating system promises of them: a process that has
  exited does not come back with the same process and boot identifiers and start time.
\<close>

definition known_owners :: "('d, 'f, 'b, 'j) router \<Rightarrow> io_owner set" where
  "known_owners r =
     {bound_owner b | b d. map_of (bindings r) d = Some b}
     \<union> {bound_owner b | b c rb. (c, rb) \<in> reservations r \<and> rollback_previous rb = Some b}"

definition exits_are_final :: "('d, 'f, 'b, 'j) router \<Rightarrow> 'd infra_platform \<Rightarrow> bool" where
  "exits_are_final r env \<longleftrightarrow>
     (\<forall>owner \<in> known_owners r. io_owner_alive env owner \<longrightarrow> io_owner_alive (system r) owner)"

lemma known_ownersI:
  "map_of (bindings r) d = Some b \<Longrightarrow> bound_owner b \<in> known_owners r"
  "(c, rb) \<in> reservations r \<Longrightarrow> rollback_previous rb = Some b \<Longrightarrow> bound_owner b \<in> known_owners r"
  by (auto simp: known_owners_def)

lemma same_io_process_sym: "same_io_process a b = same_io_process b a"
  by (auto simp: same_io_process_def)

lemma validate_io_binding_Inr:
  "validate_io_binding env bs domain owner = Inr u \<longleftrightarrow>
     (\<forall>(d, b) \<in> set bs. d \<noteq> domain \<longrightarrow> io_owner_alive env (bound_owner b) \<longrightarrow>
        \<not> same_io_process (bound_owner b) owner)
     \<and> (\<forall>b. map_of bs domain = Some b \<longrightarrow> \<not> io_owner_alive env (bound_owner b))"
  by (auto simp: validate_io_binding_def list_ex_iff split: option.splits)

lemma exclusive_update:
  assumes "exclusive env bs" and "validate_io_binding env bs domain owner = Inr u" and "bound_owner b = owner"
  shows "exclusive env (AList.update domain b bs)"
proof -
  have other: "\<not> same_io_process (bound_owner b') owner" "\<not> same_io_process owner (bound_owner b')"
    if "map_of bs d = Some b'" "d \<noteq> domain" "io_owner_alive env (bound_owner b')" for d b'
    using assms(2) map_of_SomeD [OF that(1)] that(2,3)
    by (auto simp: validate_io_binding_Inr same_io_process_sym)
  show ?thesis
    using assms(1,3) other by (auto simp: exclusive_def update_conv')
qed

lemma exclusive_dead:
  assumes "exclusive env bs" and "\<And>x. b = Some x \<Longrightarrow> \<not> io_owner_alive env (bound_owner x)"
    and "map_of bs' = (map_of bs)(d := b)"
  shows "exclusive env bs'"
  using assms by (auto simp: exclusive_def)

lemma map_of_rollback:
  "map_of (io_rollback_apply rb bs) = map_of bs
   \<or> map_of (io_rollback_apply rb bs) = (map_of bs)(rollback_domain rb := rollback_previous rb)"
  by (auto simp: io_rollback_apply_def update_conv' delete_conv' split: option.splits)

lemma exclusive_rollback:
  assumes "exclusive env bs" and "\<And>b. rollback_previous rb = Some b \<Longrightarrow> \<not> io_owner_alive env (bound_owner b)"
  shows "exclusive env (io_rollback_apply rb bs)"
  using map_of_rollback [of rb bs]
proof
  assume "map_of (io_rollback_apply rb bs) = map_of bs"
  with assms(1) show ?thesis by (simp add: exclusive_def)
qed (rule exclusive_dead [OF assms])

lemma reserve_binding_Inr:
  "reserve_binding env d owner t bs = Inr (rb, bs') \<Longrightarrow>
    validate_io_binding env bs d owner = Inr () \<and> rollback_token rb = t \<and> rollback_domain rb = d
    \<and> rollback_previous rb = map_of bs d \<and> bs' = AList.update d \<lparr>bound_owner = owner, bound_token = t\<rparr> bs"
  by (auto simp: reserve_binding_def rbind_eq_Inr)

lemma owners_step:
  assumes step: "router_step r r'" and ex: "exclusive (system r) (bindings r)" and ret: "retired r"
    and calm: "exits_are_final r (system r')"
  shows "exclusive (system r') (bindings r') \<and> retired r'"
  using step_table [OF step]
proof (elim disjE)
  assume "steady_table r r'"
  then show ?thesis using ex ret by (auto simp: steady_table_def retired_def)
next
  assume "undone_table r r'"
  then show ?thesis using ex ret by (auto simp: undone_table_def retired_def intro!: exclusive_rollback)
next
  assume "reserved_table r r'"
  then show ?thesis
    using ex ret
    by (auto simp: reserved_table_def retired_def validate_io_binding_Inr dest!: reserve_binding_Inr
        intro!: exclusive_update)
next
  assume "\<exists>env. r' = r\<lparr>system := env\<rparr>"
  then obtain env where env: "r' = r\<lparr>system := env\<rparr>" ..
  have "io_owner_alive (system r) (bound_owner b)"
    if "io_owner_alive env (bound_owner b)" "map_of (bindings r) d = Some b" for d b
    using calm that(1) known_ownersI(1) [OF that(2)] by (simp add: exits_are_final_def env)
  moreover have "io_owner_alive (system r) (bound_owner b)"
    if "io_owner_alive env (bound_owner b)" "(c, rb) \<in> reservations r" "rollback_previous rb = Some b" for c rb b
    using calm that(1) known_ownersI(2) [OF that(2,3)] by (simp add: exits_are_final_def env)
  moreover have "reservations r' = reservations r" by (simp add: env reservations_def)
  ultimately show ?thesis
    using ex ret unfolding exclusive_def retired_def by (simp add: env) blast
qed

text \<open>Tokens: an outstanding reservation is identified by its token.\<close>

definition tokens_inv :: "('d, 'f, 'b, 'j) router \<Rightarrow> bool" where
  "tokens_inv r \<longleftrightarrow>
     (\<forall>c rb. (c, rb) \<in> reservations r \<longrightarrow> rollback_token rb < next_token r)
     \<and> (\<forall>c rb c' rb'. (c, rb) \<in> reservations r \<longrightarrow> (c', rb') \<in> reservations r \<longrightarrow>
          rollback_token rb = rollback_token rb' \<longrightarrow> c = c' \<and> rb = rb')"

lemma tokens_inv_mono:
  "tokens_inv r \<Longrightarrow> reservations r' \<subseteq> reservations r \<Longrightarrow> next_token r \<le> next_token r' \<Longrightarrow> tokens_inv r'"
  unfolding tokens_inv_def by (blast intro: less_le_trans)

lemma tokens_inv_step:
  assumes "router_step r r'" and inv: "tokens_inv r"
  shows "tokens_inv r'"
  using step_table [OF assms(1)]
proof (elim disjE)
  assume "steady_table r r'"
  then show ?thesis by (intro tokens_inv_mono [OF inv]) (simp_all add: steady_table_def)
next
  assume "undone_table r r'"
  then show ?thesis by (intro tokens_inv_mono [OF inv]) (simp_all add: undone_table_def)
next
  assume reserved: "reserved_table r r'"
  then have less: "next_token r < next_token r'"
    by (auto simp: reserved_table_def word_less_nat_alt dest: checked_unat)
  obtain c rb where sub: "reservations r' \<subseteq> insert (c, rb) (reservations r)" and tok: "rollback_token rb = next_token r"
    using reserved by (auto simp: reserved_table_def dest!: reserve_binding_Inr)
  have new: "(x, v) = (c, rb) \<or> (x, v) \<in> reservations r" if "(x, v) \<in> reservations r'" for x v
    using sub that by blast
  have old: "rollback_token v < next_token r" if "(x, v) \<in> reservations r" for x v
    using inv that by (simp add: tokens_inv_def)
  have fresh: "rollback_token v \<noteq> rollback_token rb" if "(x, v) \<in> reservations r" for x v
    using old [OF that] tok by simp
  have unique: "x = y \<and> v = u" if "(x, v) \<in> reservations r" "(y, u) \<in> reservations r"
    "rollback_token v = rollback_token u" for x v y u
    using inv that unfolding tokens_inv_def by blast
  show ?thesis
    unfolding tokens_inv_def
  proof (intro conjI allI impI)
    show "rollback_token v < next_token r'" if "(x, v) \<in> reservations r'" for x v
      using new [OF that] old less tok by (auto dest: less_trans)
    show "x = y" "v = u" if "(x, v) \<in> reservations r'" "(y, u) \<in> reservations r'"
      "rollback_token v = rollback_token u" for x v y u
      using new [OF that(1)] new [OF that(2)] fresh [of x v] fresh [of y u] that(3) unique by auto
  qed
next
  assume "\<exists>env. r' = r\<lparr>system := env\<rparr>"
  then show ?thesis by (intro tokens_inv_mono [OF inv]) (auto simp: reservations_def)
qed

end
