(* ===== verification/Netd_Router_Confined.thy ===== *)
theory Netd_Router_Confined
  imports Netd_Router_Bindings Netd_Infra_Restart
begin

text \<open>
  The confinement of the domains: the identity of a worker never changes, every operation on its way
  to a worker was checked against that identity, and the journal of the worker stays inside it. The
  second part shows that the start of the service establishes this and every other invariant of the
  router.
\<close>

section \<open>Confinement\<close>

definition identities :: "('d, 'f, 'b, 'j) router \<Rightarrow> u128 \<rightharpoonup> domain_identity" where
  "identities r d = map_option w_identity (workers r d)"

fun routed_of :: "'d call_stage \<Rightarrow> call_data option" where
  "routed_of (CallRouted cd) = Some cd"
| "routed_of (CallClaimed cd) = Some cd"
| "routed_of (CallAdmitted cd) = Some cd"
| "routed_of (CallReserved cd _) = Some cd"
| "routed_of _ = None"

definition worker_confined :: "u128 \<Rightarrow> ('d, 'f, 'b, 'j) domain_worker \<Rightarrow> bool" where
  "worker_confined d w \<longleftrightarrow>
     cfg_domain_id (id_config (w_identity w)) = d
     \<and> journal_inside (w_identity w) (svc_state (w_service w))
     \<and> (\<forall>dr \<in> worker_requests w. operation_in_domain (w_identity w) (infra_operation (dr_request dr)))"

definition call_confined :: "(u128 \<rightharpoonup> domain_identity) \<Rightarrow> call_data \<Rightarrow> bool" where
  "call_confined ids cd \<longleftrightarrow>
     (\<exists>i. ids (c_domain cd) = Some i \<and> operation_in_domain i (infra_operation (c_request cd)))"

definition confined :: "('d, 'f, 'b, 'j) router \<Rightarrow> bool" where
  "confined r \<longleftrightarrow>
     (\<forall>d w. workers r d = Some w \<longrightarrow> worker_confined d w)
     \<and> (\<forall>c s cd. calls r c = Some s \<longrightarrow> routed_of s = Some cd \<longrightarrow> call_confined (identities r) cd)"

lemma confinedD:
  "confined r \<Longrightarrow> workers r d = Some w \<Longrightarrow> worker_confined d w"
  "confined r \<Longrightarrow> calls r c = Some s \<Longrightarrow> routed_of s = Some cd \<Longrightarrow> call_confined (identities r) cd"
  unfolding confined_def by blast+

text \<open>A change of one call and of workers that keep their identity.\<close>

definition keeps_confined :: "('d, 'f, 'b, 'j) router \<Rightarrow> ('d, 'f, 'b, 'j) router \<Rightarrow> bool" where
  "keeps_confined r r' \<longleftrightarrow> confined r \<longrightarrow> confined r' \<and> identities r' = identities r"

lemma keeps_stage:
  assumes "workers r' = workers r" and "calls r' = (calls r)(c := v)"
    and "\<And>cd. Option.bind v routed_of = Some cd \<Longrightarrow> confined r \<Longrightarrow> call_confined (identities r) cd"
  shows "keeps_confined r r'"
proof -
  have ids: "identities r' = identities r" by (simp add: identities_def assms(1) fun_eq_iff)
  show ?thesis
    unfolding keeps_confined_def
  proof
    assume r: "confined r"
    then have "call_confined (identities r) cd" if "calls r' x = Some s" "routed_of s = Some cd" for x s cd
      using that assms(3) [OF _ r] confinedD(2) [OF r, of x s cd] by (auto simp: assms(2) split: if_splits)
    with r ids assms(1) show "confined r' \<and> identities r' = identities r"
      by (simp add: confined_def)
  qed
qed

lemma keeps_worker:
  assumes "workers r d = Some w" and "workers r' = (workers r)(d \<mapsto> w')" and "calls r' = calls r"
    and "w_identity w' = w_identity w" and "worker_confined d w \<Longrightarrow> worker_confined d w'"
  shows "keeps_confined r r'"
proof -
  have "identities r' = identities r" using assms by (simp add: identities_def fun_eq_iff)
  then show ?thesis using assms by (auto simp: keeps_confined_def confined_def)
qed

lemma keeps_trans: "keeps_confined r r' \<Longrightarrow> keeps_confined r' r'' \<Longrightarrow> keeps_confined r r''"
  by (simp add: keeps_confined_def)

lemma keeps_same:
  "workers r' = workers r \<Longrightarrow> calls r' = calls r \<Longrightarrow> keeps_confined r r'"
  by (rule keeps_stage [of r' r c "calls r c" for c])
    (auto simp: fun_upd_idem Option.bind_eq_Some_conv dest: confinedD(2))

lemma keeps_freed: "keeps_confined r (drop_domain_permit d r)"
proof (cases "workers r d")
  case None
  then show ?thesis by (intro keeps_same) (simp_all add: fun_upd_idem)
next
  case (Some w)
  then show ?thesis
    by (intro keeps_worker [OF Some, of _ "w\<lparr>w_inflight := False\<rparr>"])
      (simp_all add: worker_confined_def)
qed

lemma keeps_return: "keeps_confined r (call_return c i res r)"
  by (rule keeps_stage [of _ _ c "Some (CallResponding i res)"]) (simp_all add: call_return_def)

lemma keeps_abort: "keeps_confined r (call_abort c cd e r)"
  unfolding call_abort_def by (rule keeps_trans [OF keeps_return keeps_freed])

lemma route_request_confined:
  assumes "route_request ns req peer now r = Inr (Routed cd)"
  shows "call_confined (identities r) cd"
  using assms
  by (auto simp: route_request_def rbind_eq_Inr ok_or_eq call_confined_def identities_def
      split: if_splits infra_operation.splits)

lemma keeps_front:
  "attach_front spawned r = (result, r') \<Longrightarrow> keeps_confined r r'" "keeps_confined r (detach_front r)"
  "dispatch_front ok r = (result, r') \<Longrightarrow> keeps_confined r r'" "keeps_confined r (call_direct req peer now r)"
  "keeps_confined r (front_take r)"
proof -
  show "attach_front spawned r = (result, r') \<Longrightarrow> keeps_confined r r'"
    by (auto simp: attach_front_def intro: keeps_same split: if_splits)
  show "keeps_confined r (detach_front r)"
    by (simp add: detach_front_def keeps_same)
  have "keeps_confined r r'" if "calls r' = (calls r)(next_call r \<mapsto> CallQueued)" "workers r' = workers r"
    using that by (intro keeps_stage [of _ _ "next_call r" "Some CallQueued"]) simp_all
  then show "dispatch_front ok r = (result, r') \<Longrightarrow> keeps_confined r r'"
    by (auto simp: dispatch_front_def Let_def intro: keeps_same split: sum.splits if_splits)
  show "keeps_confined r (call_direct req peer now r)"
    by (rule keeps_stage [of _ _ "next_call r" "Some (CallRouting req peer now)"])
      (simp_all add: call_direct_def)
  show "keeps_confined r (front_take r)"
  proof (cases "front_queue r = [] \<or> idle_threads r = 0")
    case True
    then show ?thesis by (auto simp: front_take_def intro: keeps_same split: list.splits)
  next
    case False
    then show ?thesis
      by (intro keeps_stage [of _ _ "hd (front_queue r)" "Some CallReading"])
        (auto simp: front_take_def neq_Nil_conv)
  qed
qed

lemma keeps_calls:
  "keeps_confined r (call_read c received r)"
  "keeps_confined r (call_route c ns req peer now r)"
  "calls r c = Some (CallRouted cd) \<Longrightarrow> keeps_confined r (call_claim c cd r)"
  "calls r c = Some (CallClaimed cd) \<Longrightarrow> keeps_confined r (call_admit c M cd r)"
  "calls r c = Some (CallAdmitted cd) \<Longrightarrow> keeps_confined r (call_reserve c cd r)"
  "keeps_confined r (call_receive c i rb r)"
  "keeps_confined r (call_finish c i res rb r)"
  "keeps_confined r (call_respond c i res ok r)"
proof -
  have leave: "keeps_confined r r'" if "calls r' = (calls r)(c := None)" "workers r' = workers r" for r'
    using that by (intro keeps_stage [of _ _ c None]) simp_all
  have stage: "keeps_confined r r'" if "calls r' = (calls r)(c \<mapsto> s)" "workers r' = workers r"
    "routed_of s = None" for r' s
    using that by (intro keeps_stage [of _ _ c "Some s"]) simp_all
  have same: "keeps_confined r r'" if "calls r' = (calls r)(c \<mapsto> s)" "workers r' = workers r"
    "calls r c = Some s'" "routed_of s = routed_of s'" for r' s s'
    using that confinedD(2) [of r c s'] by (intro keeps_stage [of _ _ c "Some s"]) simp_all
  show "keeps_confined r (call_read c received r)"
    by (cases received) (auto simp: call_read_def split: prod.splits intro: leave stage)
  have "keeps_confined r (set_stage c (CallRouted cd) r)"
    if "route_request ns req peer now r = Inr (Routed cd)" for cd
    using route_request_confined [OF that] by (intro keeps_stage [of _ _ c "Some (CallRouted cd)"]) auto
  then show "keeps_confined r (call_route c ns req peer now r)"
    by (auto simp: call_route_def keeps_return split: sum.split routed.split)
  show "keeps_confined r (call_claim c cd r)" if routed: "calls r c = Some (CallRouted cd)"
  proof (cases "workers r (c_domain cd)")
    case (Some w)
    let ?r = "set_worker (c_domain cd) (w\<lparr>w_inflight := True\<rparr>) r"
    have "keeps_confined r ?r"
      by (rule keeps_worker [OF Some, of _ "w\<lparr>w_inflight := True\<rparr>"]) (simp_all add: worker_confined_def)
    moreover have "keeps_confined ?r (set_stage c (CallClaimed cd) ?r)"
      using routed confinedD(2) [of ?r c "CallRouted cd" cd]
      by (intro keeps_stage [of _ _ c "Some (CallClaimed cd)"]) auto
    ultimately show ?thesis
      using Some by (auto simp: call_claim_def keeps_return intro: keeps_trans)
  qed (simp add: call_claim_def keeps_same)
  show "calls r c = Some (CallClaimed cd) \<Longrightarrow> keeps_confined r (call_admit c M cd r)"
    by (auto simp: call_admit_def keeps_abort intro: same split: sum.split option.split)
  have "keeps_confined r (call_abort c cd e (r\<lparr>next_token := t\<rparr>))" for e t
    by (rule keeps_trans [OF _ keeps_abort]) (simp add: keeps_same)
  then show "calls r c = Some (CallAdmitted cd) \<Longrightarrow> keeps_confined r (call_reserve c cd r)"
    by (auto simp: call_reserve_def keeps_abort intro: same split: sum.split option.split prod.split)
  show "keeps_confined r (call_receive c i rb r)"
    by (auto simp: call_receive_def intro: stage split: option.split)
  show "keeps_confined r (call_finish c i res rb r)"
    by (auto simp: call_finish_def intro: stage)
  show "keeps_confined r (call_respond c i res ok r)"
    by (auto simp: call_respond_def intro: leave)
qed

lemma keeps_send:
  assumes "calls r c = Some (CallReserved cd rb)"
  shows "keeps_confined r (call_send c cd rb r)"
proof (cases "workers r (c_domain cd)")
  case (Some w)
  let ?w = "w\<lparr>w_queue := Some \<lparr>dr_call = c, dr_request = c_request cd, dr_peer = c_peer cd,
      dr_now = c_now cd, dr_rollback = rb\<rparr>\<rparr>"
  let ?r = "set_worker (c_domain cd) ?w r"
  have "keeps_confined r ?r"
    unfolding keeps_confined_def
  proof
    assume r: "confined r"
    have "call_confined (identities r) cd" using confinedD(2) [OF r assms] by simp
    then have "operation_in_domain (w_identity w) (infra_operation (c_request cd))"
      using Some by (simp add: call_confined_def identities_def)
    then have "worker_confined (c_domain cd) w \<Longrightarrow> worker_confined (c_domain cd) ?w"
      by (auto simp: worker_confined_def worker_requests_def)
    then have "keeps_confined r ?r" using Some by (intro keeps_worker [OF Some]) simp_all
    then show "confined ?r \<and> identities ?r = identities r" using r by (simp add: keeps_confined_def)
  qed
  moreover have "keeps_confined ?r (set_stage c (CallWaiting (c_id cd) rb) ?r)"
    by (rule keeps_stage [of _ _ c "Some (CallWaiting (c_id cd) rb)"]) simp_all
  moreover have "keeps_confined r (drop_domain_permit (c_domain cd) (drop_request_permit c
      (set_stage c (CallReturning (c_id cd) res rb) r)))" for res
    by (rule keeps_trans [OF _ keeps_freed])
      (rule keeps_stage [of _ _ c "Some (CallReturning (c_id cd) res rb)"], simp_all)
  ultimately show ?thesis
    using Some by (auto simp: call_send_def intro: keeps_trans)
qed (simp add: call_send_def keeps_same)

lemma keeps_work:
  assumes w: "workers r d = Some w"
  shows "w_stage w = WorkerIdle \<Longrightarrow> keeps_confined r (work_take d w r)"
    and "w_stage w = WorkerTook dr \<Longrightarrow> keeps_confined r (work_process W d w dr r)"
    and "w_stage w = WorkerProcessed dr res \<Longrightarrow> keeps_confined r (work_roll_back d w dr res r)"
    and "w_stage w = WorkerRolledBack dr res \<Longrightarrow> keeps_confined r (work_release d w dr res r)"
    and "w_stage w = WorkerReleased dr res \<Longrightarrow> keeps_confined r (work_free d w dr res r)"
    and "w_stage w = WorkerFreed dr res \<Longrightarrow> keeps_confined r (work_reply d w dr res r)"
    and "w_stage w = WorkerRecovering \<Longrightarrow> keeps_confined r (work_recover W clock d w r)"
proof -
  note upd = keeps_worker [OF w]
  show "w_stage w = WorkerIdle \<Longrightarrow> keeps_confined r (work_take d w r)"
    by (cases "w_queue w")
      (auto simp: work_take_def worker_requests_def worker_confined_def intro!: upd)
  show "w_stage w = WorkerProcessed dr res \<Longrightarrow> keeps_confined r (work_roll_back d w dr res r)"
    "w_stage w = WorkerRolledBack dr res \<Longrightarrow> keeps_confined r (work_release d w dr res r)"
    "w_stage w = WorkerReleased dr res \<Longrightarrow> keeps_confined r (work_free d w dr res r)"
    "w_stage w = WorkerFreed dr res \<Longrightarrow> keeps_confined r (work_reply d w dr res r)"
    by (auto simp: work_defs worker_requests_def worker_confined_def intro!: upd)
  show "keeps_confined r (work_process W d w dr r)" if stage: "w_stage w = WorkerTook dr"
  proof -
    obtain res s' where run: "infra_process W (dr_request dr) (dr_peer dr) (dr_now dr) (w_service w) = (res, s')"
      by fastforce
    have "worker_confined d (w\<lparr>w_service := s', w_stage := WorkerProcessed dr res\<rparr>)" if "worker_confined d w"
      using that stage infra_domain.serve_inside [of "w_identity w" "dr_request dr" "w_service w" W "dr_peer dr" "dr_now dr"]
      by (auto simp: worker_confined_def worker_requests_def run)
    then show ?thesis by (intro upd) (simp_all add: work_process_def run)
  qed
  show "keeps_confined r (work_recover W clock d w r)" if stage: "w_stage w = WorkerRecovering"
  proof (cases clock)
    case None
    then show ?thesis
      using stage
      by (intro upd [of _ "w\<lparr>w_stage := WorkerIdle\<rparr>"])
        (auto simp: work_recover_def worker_confined_def worker_requests_def)
  next
    case (Some now)
    obtain res s' where run: "recover_expired W now (w_service w) = (res, s')" by fastforce
    have "worker_confined d (w\<lparr>w_service := s', w_stage := WorkerIdle\<rparr>)" if "worker_confined d w"
      using that stage infra_domain.recover_inside [of "w_identity w" "w_service w" W now]
      by (auto simp: worker_confined_def worker_requests_def run)
    then show ?thesis by (intro upd) (simp_all add: work_recover_def Some run)
  qed
qed

lemma confined_step:
  assumes "router_step r r'" and "confined r"
  shows "confined r' \<and> identities r' = identities r"
proof -
  have "keeps_confined r r'"
    using assms(1)
  proof cases
    case attach then show ?thesis by (rule keeps_front)
  next
    case connect then show ?thesis by (auto intro: keeps_front)
  next
    case system then show ?thesis by (simp add: keeps_same)
  qed (simp_all add: keeps_front keeps_calls keeps_send keeps_work)
  then show ?thesis using assms(2) by (simp add: keeps_confined_def)
qed

section \<open>The start of the service\<close>

text \<open>What holds of the domains prepared so far.\<close>

definition prepared_ok ::
    "infra_codec \<Rightarrow> 'd infra_platform \<Rightarrow> (u64 \<times> u64) \<Rightarrow> start_state \<Rightarrow> bool" where
  "prepared_ok C env own acc \<longleftrightarrow>
     distinct (map cfg_domain_id (start_configs acc)) \<and> distinct (map cfg_infra_id (start_configs acc))
     \<and> distinct (start_namespaces acc) \<and> own \<notin> set (start_namespaces acc)
     \<and> distinct (journal_files acc) \<and> distinct (lock_inodes acc)
     \<and> list_all config_explicit (start_configs acc)
     \<and> (\<forall>(i, fs) \<in> set (prepared acc). \<exists>st. durable_infra C fs = Inr st \<and> journal_inside i st)
     \<and> exclusive env (found_bindings acc)"

lemma journal_new_effect:
  assumes "infra_journal_new fs = (r, fs')"
  shows "same_files fs fs'"
proof -
  obtain r1 fs1 where "journal_call fs = (r1, fs1)" by fastforce
  then show ?thesis
    using assms journal_call_effect [of fs r1 fs1]
    by (cases r1) (auto simp: infra_journal_new_def action_defs split: if_splits)
qed

lemma load_journal_durable:
  assumes "load_journal C fs = Inr (st, fs')"
  shows "durable_infra C fs' = Inr st"
proof -
  obtain r1 fs1 where new: "infra_journal_new fs = (r1, fs1)" by fastforce
  then have "infra_load_file C fs1 = (Inr st, fs')"
    using assms by (cases r1) (auto simp: load_journal_def bind_def split: prod.splits sum.splits)
  then show ?thesis
    using load_file_effect(2) durable_infra_view [OF load_file_effect(1)] by fastforce
qed

lemma bind_found_exclusive:
  assumes "bind_found env d st bs = Inr bs'" and "exclusive env bs"
  shows "exclusive env bs'"
  using assms
  by (auto simp: bind_found_def rbind_eq_Inr split: option.splits if_splits intro: exclusive_update)

text \<open>What an accepted domain adds.\<close>

lemma prepare_domain_Inr:
  assumes "prepare_domain H C env own d acc = Inr acc'"
  obtains i fs st canonical inode bs where
    "config_explicit d" "cfg_domain_id d \<notin> set (map cfg_domain_id (start_configs acc))"
    "cfg_infra_id d \<notin> set (map cfg_infra_id (start_configs acc))"
    "id_config i = d" "(id_netns_device i, id_netns_inode i) \<noteq> own"
    "(id_netns_device i, id_netns_inode i) \<notin> set (start_namespaces acc)"
    "canonical \<notin> set (journal_files acc)" "load_journal C (journal_at H (journal_path d)) = Inr (st, fs)"
    "journal_inside i st" "bind_found env (cfg_domain_id d) st (found_bindings acc) = Inr bs"
    "inode \<notin> set (lock_inodes acc)"
    "acc' = \<lparr>prepared = prepared acc @ [(i, fs)], journal_files = canonical # journal_files acc,
       lock_inodes = inode # lock_inodes acc, found_bindings = bs\<rparr>"
proof -
  from assms obtain ns canonical st fs bs inode where
    "config_explicit d" "cfg_domain_id d \<notin> set (map cfg_domain_id (start_configs acc))"
    "cfg_infra_id d \<notin> set (map cfg_infra_id (start_configs acc))" "namespace_safe own ns"
    "(ns_device ns, ns_inode ns) \<notin> set (start_namespaces acc)" "canonical \<notin> set (journal_files acc)"
    "load_journal C (journal_at H (journal_path d)) = Inr (st, fs)"
    "validate_journal \<lparr>id_config = d, id_netns_device = ns_device ns, id_netns_inode = ns_inode ns\<rparr> st = Inr ()"
    "bind_found env (cfg_domain_id d) st (found_bindings acc) = Inr bs"
    "lock_domain H (journal_path d) (lock_inodes acc) = Inr inode"
    "acc' = \<lparr>prepared = prepared acc @ [(\<lparr>id_config = d, id_netns_device = ns_device ns,
       id_netns_inode = ns_inode ns\<rparr>, fs)], journal_files = canonical # journal_files acc,
       lock_inodes = inode # lock_inodes acc, found_bindings = bs\<rparr>"
    unfolding prepare_domain_def Let_def
    by (simp add: rbind_eq_Inr split: if_splits prod.splits) metis
  then show thesis
    by (intro that [of "\<lparr>id_config = d, id_netns_device = ns_device ns, id_netns_inode = ns_inode ns\<rparr>"
          canonical st fs bs inode])
      (auto simp: namespace_safe_def validate_journal_Inr lock_domain_def rbind_eq_Inr split: if_splits)
qed

lemma prepare_domain_ok:
  assumes "prepare_domain H C env own d acc = Inr acc'" and "prepared_ok C env own acc"
  shows "prepared_ok C env own acc' \<and> start_configs acc' = start_configs acc @ [d]"
  using assms(1)
proof (cases rule: prepare_domain_Inr)
  case (1 i fs st canonical inode bs)
  have configs: "start_configs acc' = start_configs acc @ [d]"
    by (simp add: start_configs_def 1)
  have namespaces: "start_namespaces acc' = start_namespaces acc @ [(id_netns_device i, id_netns_inode i)]"
    by (simp add: start_namespaces_def 1(12))
  have "exclusive env bs"
    using bind_found_exclusive [OF 1(10)] assms(2) by (simp add: prepared_ok_def)
  then show ?thesis
    using assms(2) 1(1-11) load_journal_durable [OF 1(8)]
    unfolding prepared_ok_def configs namespaces by (simp add: 1(12))
qed

lemma prepare_domains_ok:
  "prepare_domains H C env own ds acc = Inr acc' \<Longrightarrow> prepared_ok C env own acc \<Longrightarrow>
    prepared_ok C env own acc' \<and> start_configs acc' = start_configs acc @ ds"
  by (induction ds arbitrary: acc) (auto simp: rbind_eq_Inr dest!: prepare_domain_ok)

text \<open>
  The journals are as they were checked when the workers load them: nobody else writes a journal
  between the checks, which precede the domain's lock, and the start of the worker.
\<close>

definition journals_untouched :: "infra_codec \<Rightarrow> 'b worker_host \<Rightarrow> bool" where
  "journals_untouched C V \<longleftrightarrow> (\<forall>i fs. durable_infra C (journal_now V i fs) = durable_infra C fs)"

lemma start_worker_fields:
  assumes "start_worker W V uid gid f i fs = Inr w"
  shows "w_identity w = i" "w_queue w = None" "w_inflight w = False" "w_stage w = WorkerIdle"
    "entered_namespace V i = Some (id_netns_device i, id_netns_inode i)"
  using assms by (auto simp: start_worker_def rbind_eq_Inr ok_or_eq split: if_splits)

lemma start_worker_state:
  assumes "start_worker W V uid gid f i fs = Inr w" and "state_journal W = infra_file_journal C"
    and "journals_untouched C V" and "durable_infra C fs = Inr st"
  shows "svc_state (w_service w) = st"
proof -
  obtain b where "infra_service_new W uid gid f b (journal_now V i fs) = Inr (w_service w)"
    using assms(1) by (auto simp: start_worker_def rbind_eq_Inr split: if_splits)
  from infra_files.restart_loads [OF assms(2) this] show ?thesis
    using assms(3,4) by (simp add: journals_untouched_def)
qed

lemma start_workers_all:
  assumes "start_workers W V uid gid f ps ws = Inr ws'"
    and "\<And>d w. ws d = Some w \<Longrightarrow> P d w"
    and "\<And>i fs w. (i, fs) \<in> set ps \<Longrightarrow> start_worker W V uid gid f i fs = Inr w \<Longrightarrow> P (cfg_domain_id (id_config i)) w"
  shows "ws' d = Some w \<Longrightarrow> P d w"
  using assms
proof (induction ps arbitrary: ws)
  case (Cons p ps)
  obtain i fs where p: "p = (i, fs)" by fastforce
  obtain w0 where w0: "start_worker W V uid gid f i fs = Inr w0"
    and rest: "start_workers W V uid gid f ps (ws(cfg_domain_id (id_config i) \<mapsto> w0)) = Inr ws'"
    using Cons.prems(2) by (auto simp: p rbind_eq_Inr)
  show ?case
  proof (rule Cons.IH [OF Cons.prems(1) rest])
    show "P d w" if "(ws(cfg_domain_id (id_config i) \<mapsto> w0)) d = Some w" for d w
      using that Cons.prems(3) Cons.prems(4) [of i fs w0] w0 by (auto simp: p split: if_splits)
    show "P (cfg_domain_id (id_config i)) w"
      if "(i, fs) \<in> set ps" "start_worker W V uid gid f i fs = Inr w" for i fs w
      using that Cons.prems(4) [of i fs w] by simp
  qed
qed simp

lemma start_workers_dom:
  "start_workers W V uid gid f ps ws = Inr ws' \<Longrightarrow>
    dom ws' = dom ws \<union> (cfg_domain_id \<circ> id_config \<circ> fst) ` set ps"
proof (induction ps arbitrary: ws)
  case (Cons p ps)
  obtain i fs where p: "p = (i, fs)" by fastforce
  then obtain w where "start_workers W V uid gid f ps (ws(cfg_domain_id (id_config i) \<mapsto> w)) = Inr ws'"
    using Cons.prems by (auto simp: rbind_eq_Inr)
  from Cons.IH [OF this] show ?case by (auto simp: p split: if_splits)
qed simp

text \<open>The parts of a successful start.\<close>

lemma multi_domain_new_Inr:
  assumes "multi_domain_new H C W V open_fds soft uid gid f config = Inr r"
  obtains own acc where
    "cfg_domains config \<noteq> []" "own_namespace H = Some own"
    "admit (cfg_budgets config) open_fds soft (of_nat (length (cfg_domains config))) = Inr ()"
    "prepared_ok C (os W) own acc" "start_configs acc = cfg_domains config"
    "start_workers W V uid gid f (prepared acc) Map.empty = Inr (workers r)"
    "r = \<lparr>router_uid = uid, router_gid = gid, router_limits = cfg_budgets config, workers = workers r,
       bindings = found_bindings acc, next_token = 1, pending = \<lparr>pending_requests = 0, pending_bytes = 0\<rparr>,
       leases = Map.empty, front_attached = False, front_queue = [], idle_threads = 0, next_call = 0,
       calls = Map.empty, replies = Map.empty, sent = [], system = os W\<rparr>"
proof -
  have empty: "prepared_ok C (os W) own \<lparr>prepared = [], journal_files = [], lock_inodes = [], found_bindings = []\<rparr>" for own
    by (simp add: prepared_ok_def start_configs_def start_namespaces_def exclusive_def)
  show thesis
    using assms prepare_domains_ok [OF _ empty]
    by (auto simp: multi_domain_new_def validate_resource_admission_def rbind_eq_Inr ok_or_eq start_configs_def
        split: if_splits intro!: that)
qed

end
