(* ===== verification/Netd_Router_Samples.thy ===== *)
theory Netd_Router_Samples
  imports Netd_Router_Confined
begin

text \<open>
  A host with one routing domain, on which the witnesses of the router's properties run: the service
  starts, attaches its front, and serves an acquisition of the I/O descriptor.
\<close>

definition sample_budgets :: domain_budgets where
  "sample_budgets = \<lparr>max_domains = 4, front_control_threads = 2, max_control_threads = 8,
     thread_stack_bytes = 262144, max_total_stack_bytes = 4194304, max_pending_control_requests = 4,
     max_pending_control_bytes = 2 ^ 40, max_reserved_fds = 512\<rparr>"

definition sample_domain :: "u128 \<Rightarrow> domain_config" where
  "sample_domain d = \<lparr>cfg_domain_id = d, cfg_infra_id = 7, namespace_path = ''/run/netns/a'',
     journal_path = ''/var/lib/netd/a.json'', cfg_table_id = table_id sample_declaration\<rparr>"

definition sample_domains :: domains_config where
  "sample_domains = \<lparr>cfg_budgets = sample_budgets, cfg_domains = [sample_domain 5]\<rparr>"

definition sample_journal_fs :: journal_fs where
  "sample_journal_fs = \<lparr>parent_dir = Some \<lparr>file_kind = Directory, file_uid = 0, file_mode = 0x1c0\<rparr>,
     journal_file = None, temporary = None, euid = 0, faults = []\<rparr>"

definition sample_host :: domain_host where
  "sample_host = \<lparr>own_namespace = Some (4, 1),
     open_namespace = \<lambda>_. Some \<lparr>ns_device = 4, ns_inode = 100, ns_uid = 0, ns_mode = 0x124, ns_type = NSFS_MAGIC\<rparr>,
     canonicalize = Some, journal_at = \<lambda>_. sample_journal_fs,
     lock_at = \<lambda>_. Some \<lparr>lock_inode = 50, lock_is_file = True, lock_uid = 0, lock_mode = 0x180, lock_free = True\<rparr>\<rparr>"

definition sample_worker_host :: "(domain_identity \<Rightarrow> journal_fs \<Rightarrow> journal_fs) \<Rightarrow> sample_net worker_host" where
  "sample_worker_host journal = \<lparr>thread_starts = \<lambda>_. True,
     entered_namespace = \<lambda>i. Some (id_netns_device i, id_netns_inode i),
     open_backend = \<lambda>_. Inr (None, None), journal_now = journal\<rparr>"

definition sample_ident :: "u128 \<Rightarrow> domain_identity" where
  "sample_ident d = \<lparr>id_config = sample_domain d, id_netns_device = 4, id_netns_inode = 100\<rparr>"

definition router_with ::
    "domain_identity \<Rightarrow> journal_fs \<Rightarrow> infra_state \<Rightarrow> (nat, nat, sample_net, journal_fs) router" where
  "router_with i fs st =
     \<lparr>router_uid = 0, router_gid = 0, router_limits = sample_budgets,
      workers = [cfg_domain_id (id_config i) \<mapsto> \<lparr>w_identity = i,
        w_service = \<lparr>infra_uid = 0, infra_gid = 0, factory = 4, infra_backend = (None, None),
          infra_journal = fs, svc_state = st, lifecycle_fd = None, restart_recovery_pending = True\<rparr>,
        w_queue = None, w_inflight = False, w_stage = WorkerIdle\<rparr>],
      bindings = [], next_token = 1, pending = \<lparr>pending_requests = 0, pending_bytes = 0\<rparr>,
      leases = Map.empty, front_attached = False, front_queue = [], idle_threads = 0, next_call = 0,
      calls = Map.empty, replies = Map.empty, sent = [], system = sample_os\<rparr>"

definition sample_router :: "(nat, nat, sample_net, journal_fs) router" where
  "sample_router = router_with (sample_ident 5) sample_journal_fs default_state"

lemma sample_admission:
  "admit sample_budgets (Some 10) (Some 1024) 1 = Inr ()"
  by (simp add: admit_def sample_budgets_def budget_def checked_add_def checked_mul_def saturating_mul_def
      reserved_descriptors_def ok_or_def FRONT_REQUEST_BYTES_def MAX_NETD_FRAME_LEN_def
      MIN_CONTROL_THREAD_STACK_BYTES_def RESERVED_DOMAIN_FDS_def CONTROL_FD_SAFETY_MARGIN_def)

lemma sample_paths:
  "is_absolute ''/run/netns/a'' \<and> is_absolute ''/var/lib/netd/a.json''"
  "canonical_journal sample_host ''/var/lib/netd/a.json'' = Inr [''var'', ''lib'', ''netd'', ''a.json'']"
  by (simp_all add: is_absolute_def canonical_journal_def path_parent_def path_file_name_def
      path_components_def sample_host_def ok_or_def)

lemma sample_load: "load_journal C sample_journal_fs = Inr (default_state, sample_journal_fs)"
  by (simp add: load_journal_def infra_journal_new_def infra_load_file_def journal_call_def
      journal_parent_safe_def sample_journal_fs_def action_defs)

lemma sample_domain_prepared:
  assumes "d \<noteq> 0"
  shows "prepare_domain sample_host C env (4, 1) (sample_domain d)
      \<lparr>prepared = [], journal_files = [], lock_inodes = [], found_bindings = []\<rparr>
    = Inr \<lparr>prepared = [(sample_ident d, sample_journal_fs)],
        journal_files = [[''var'', ''lib'', ''netd'', ''a.json'']], lock_inodes = [50], found_bindings = []\<rparr>"
proof -
  have "CANDY_TABLE_MIN \<le> table_id sample_declaration \<and> table_id sample_declaration \<le> CANDY_TABLE_MAX"
    by (simp add: sample_declaration_def CANDY_TABLE_MIN_def CANDY_TABLE_MAX_def)
  then have "config_explicit (sample_domain d)"
    using assms sample_paths(1) by (simp add: config_explicit_def sample_domain_def)
  moreover have "validate_journal i default_state = Inr ()" for i
    by (simp add: validate_journal_Inr)
  ultimately show ?thesis
    using sample_load sample_paths(2)
    by (simp add: prepare_domain_def start_configs_def start_namespaces_def namespace_safe_def lock_domain_def
        bind_found_def sample_host_def sample_ident_def sample_domain_def default_state_def ok_or_def
        NSFS_MAGIC_def)
qed

lemma sample_new:
  assumes "d \<noteq> 0" and "infra_load_file sample_codec (fs (sample_ident d) sample_journal_fs) = (Inr st, fs')"
  shows "multi_domain_new sample_host sample_codec file_world (sample_worker_host fs) (Some 10) (Some 1024) 0 0 4
      \<lparr>cfg_budgets = sample_budgets, cfg_domains = [sample_domain d]\<rparr>
    = Inr (router_with (sample_ident d) fs' st)"
proof -
  have "own_namespace sample_host = Some (4, 1)" by (simp add: sample_host_def)
  then show ?thesis
    using assms sample_admission
    by (simp add: sample_domain_prepared multi_domain_new_def validate_resource_admission_def start_worker_def infra_service_new_def
        file_world_def sample_worker_host_def infra_file_journal_def ok_or_def router_with_def)
qed

lemma sample_started:
  "multi_domain_new sample_host sample_codec file_world (sample_worker_host (\<lambda>_ fs. fs)) (Some 10) (Some 1024) 0 0 4
     sample_domains = Inr sample_router"
proof -
  have "infra_load_file sample_codec sample_journal_fs = (Inr default_state, sample_journal_fs)"
    by (simp add: infra_load_file_def journal_call_def sample_journal_fs_def action_defs)
  then show ?thesis
    using sample_new [of 5 "\<lambda>_ fs. fs" default_state sample_journal_fs]
    by (simp add: sample_domains_def sample_router_def)
qed

section \<open>An acquisition\<close>

definition sample_acquire :: infra_request where
  "sample_acquire = infra_req (InDomain 5 7 (InfraAcquireIoFd 7 1 9))"

definition sample_layout :: memory_layout where
  "sample_layout = \<lparr>route_bytes = 8, exclusion_bytes = 8, prefix_bytes = 8, request_bytes = 256,
     routes_capacity = \<lambda>rs. of_nat (length rs), exclusions_capacity = \<lambda>es. of_nat (length es),
     prefixes_capacity = \<lambda>ps. of_nat (length ps), string_capacity = \<lambda>s. of_nat (length s)\<rparr>"

definition sample_io_owner :: io_owner where
  "sample_io_owner = \<lparr>io_instance_id = 77, io_pid = 31, io_epoch = 9, io_boot_id = ''b007'',
     io_start_ticks = Some 999\<rparr>"

definition sample_call :: call_data where
  "sample_call = \<lparr>c_request = infra_req (InfraAcquireIoFd 7 1 9), c_peer = infra_peer, c_now = 0,
     c_domain = 5, c_owner = Some sample_io_owner\<rparr>"

definition sample_reservation :: io_rollback where
  "sample_reservation = \<lparr>rollback_domain = 5, rollback_token = 1, rollback_previous = None\<rparr>"

definition sample_worker :: "(nat, nat, sample_net, journal_fs) domain_worker" where
  "sample_worker = the (workers sample_router 5)"

definition reserved_router :: "(nat, nat, sample_net, journal_fs) router" where
  "reserved_router = sample_router\<lparr>
     workers := [5 \<mapsto> sample_worker\<lparr>w_inflight := True\<rparr>],
     bindings := [(5, \<lparr>bound_owner = sample_io_owner, bound_token = 1\<rparr>)], next_token := 2,
     pending := \<lparr>pending_requests = 1, pending_bytes = 256\<rparr>,
     leases := [0 \<mapsto> \<lparr>lease_bytes = 256, front_permit = False, request_permit = True\<rparr>],
     next_call := 1, calls := [0 \<mapsto> CallReserved sample_call (Some sample_reservation)]\<rparr>"

lemma sample_ticks: "process_start_ticks sample_os 31 = Inr (Some 999)"
  by (simp add: process_start_ticks_def sample_identity)

lemma sample_route:
  "route_request (Some (4, 100)) sample_acquire infra_peer 0 sample_router = Inr (Routed sample_call)"
  using sample_ticks
  by (simp add: route_request_def sample_acquire_def validate_infra_request_def sample_router_def router_with_def
      infra_peer_def sample_ident_def sample_domain_def ok_or_def validate_domain_operation_def ensure_def claimed_owner_def validate_io_binding_def
      sample_call_def sample_io_owner_def infra_req_def)

lemma sample_bytes: "request_queue_bytes sample_layout (InfraAcquireIoFd 7 1 9) = Inr 256"
  by (simp add: request_queue_bytes_def sample_layout_def ok_or_def checked_add_def)

lemma sample_worker_at: "workers sample_router 5 = Some sample_worker" "w_inflight sample_worker = False"
  by (simp_all add: sample_worker_def sample_router_def router_with_def sample_ident_def sample_domain_def)

lemma sample_router_fields [simp]:
  "router_limits sample_router = sample_budgets" "next_call sample_router = 0"
  "pending sample_router = \<lparr>pending_requests = 0, pending_bytes = 0\<rparr>" "leases sample_router = Map.empty"
  "bindings sample_router = []" "next_token sample_router = 1" "calls sample_router = Map.empty"
  "system sample_router = sample_os" "workers sample_router = [5 \<mapsto> sample_worker]"
  "front_attached sample_router = False" "front_queue sample_router = []" "idle_threads sample_router = 0"
  "replies sample_router = Map.empty"
  by (simp_all add: sample_worker_def sample_router_def router_with_def sample_ident_def sample_domain_def)

definition staged_router :: "nat call_stage \<Rightarrow> (nat, nat, sample_net, journal_fs) router" where
  "staged_router s = sample_router\<lparr>next_call := 1, calls := [0 \<mapsto> s]\<rparr>"

definition claimed_router :: "nat call_stage \<Rightarrow> (nat, nat, sample_net, journal_fs) router" where
  "claimed_router s = (staged_router s)\<lparr>workers := [5 \<mapsto> sample_worker\<lparr>w_inflight := True\<rparr>]\<rparr>"

definition admitted_router :: "nat call_stage \<Rightarrow> (nat, nat, sample_net, journal_fs) router" where
  "admitted_router s = (claimed_router s)\<lparr>pending := \<lparr>pending_requests = 1, pending_bytes = 256\<rparr>,
     leases := [0 \<mapsto> \<lparr>lease_bytes = 256, front_permit = False, request_permit = True\<rparr>]\<rparr>"

lemma sample_call_simps [simp]:
  "c_request sample_call = infra_req (InfraAcquireIoFd 7 1 9)" "c_domain sample_call = 5"
  "c_owner sample_call = Some sample_io_owner"
  by (simp_all add: sample_call_def)

lemma sample_steps:
  "call_direct sample_acquire infra_peer 0 sample_router = staged_router (CallRouting sample_acquire infra_peer 0)"
  "call_route 0 (Some (4, 100)) sample_acquire infra_peer 0 (staged_router (CallRouting sample_acquire infra_peer 0))
    = staged_router (CallRouted sample_call)"
  "call_claim 0 sample_call (staged_router (CallRouted sample_call)) = claimed_router (CallClaimed sample_call)"
  "call_admit 0 sample_layout sample_call (claimed_router (CallClaimed sample_call))
    = admitted_router (CallAdmitted sample_call)"
  "call_reserve 0 sample_call (admitted_router (CallAdmitted sample_call)) = reserved_router"
proof -
  show "call_direct sample_acquire infra_peer 0 sample_router = staged_router (CallRouting sample_acquire infra_peer 0)"
    by (simp add: call_direct_def staged_router_def set_stage_def)
  have fields: "router_uid (staged_router s) = router_uid sample_router"
    "router_gid (staged_router s) = router_gid sample_router" "workers (staged_router s) = workers sample_router"
    "system (staged_router s) = system sample_router" "bindings (staged_router s) = bindings sample_router" for s
    by (simp_all add: staged_router_def)
  have "route_request (Some (4, 100)) sample_acquire infra_peer 0 (staged_router s) = Inr (Routed sample_call)" for s
    using sample_route unfolding route_request_def fields .
  then show "call_route 0 (Some (4, 100)) sample_acquire infra_peer 0
      (staged_router (CallRouting sample_acquire infra_peer 0)) = staged_router (CallRouted sample_call)"
    by (simp add: call_route_def staged_router_def set_stage_def)
  show "call_claim 0 sample_call (staged_router (CallRouted sample_call)) = claimed_router (CallClaimed sample_call)"
    using sample_worker_at(2)
    by (simp add: call_claim_def staged_router_def claimed_router_def set_stage_def set_worker_def)
  have "reserve_budget sample_budgets 256 \<lparr>pending_requests = 0, pending_bytes = 0\<rparr>
      = Inr \<lparr>pending_requests = 1, pending_bytes = 256\<rparr>"
    by (simp add: reserve_budget_def sample_budgets_def budget_def checked_add_def ok_or_def)
  then show "call_admit 0 sample_layout sample_call (claimed_router (CallClaimed sample_call))
      = admitted_router (CallAdmitted sample_call)"
    using sample_bytes
    by (simp add: call_admit_def admitted_router_def claimed_router_def staged_router_def set_stage_def)
  show "call_reserve 0 sample_call (admitted_router (CallAdmitted sample_call)) = reserved_router"
    by (simp add: call_reserve_def admitted_router_def claimed_router_def staged_router_def set_stage_def
        checked_add_def reserve_binding_def validate_io_binding_def reserved_router_def sample_reservation_def)
qed

text \<open>A client that goes away before its request is read.\<close>

definition attached_router :: "(nat, nat, sample_net, journal_fs) router" where
  "attached_router = sample_router\<lparr>front_attached := True, idle_threads := 2\<rparr>"

definition queued_router :: "(nat, nat, sample_net, journal_fs) router" where
  "queued_router = attached_router\<lparr>next_call := 1,
     pending := \<lparr>pending_requests = 1, pending_bytes = FRONT_REQUEST_BYTES\<rparr>,
     leases := [0 \<mapsto> \<lparr>lease_bytes = FRONT_REQUEST_BYTES, front_permit = False, request_permit = True\<rparr>],
     calls := [0 \<mapsto> CallQueued], front_queue := [0]\<rparr>"

definition reading_router :: "(nat, nat, sample_net, journal_fs) router" where
  "reading_router = attached_router\<lparr>next_call := 1, idle_threads := 1,
     pending := \<lparr>pending_requests = 1, pending_bytes = FRONT_REQUEST_BYTES\<rparr>,
     leases := [0 \<mapsto> \<lparr>lease_bytes = FRONT_REQUEST_BYTES, front_permit = True, request_permit = True\<rparr>],
     calls := [0 \<mapsto> CallReading]\<rparr>"

lemma front_steps:
  "attach_front True sample_router = (Inr (), attached_router)"
  "dispatch_front True attached_router = (Inr (), queued_router)"
  "front_take queued_router = reading_router"
  "call_read 0 None reading_router = attached_router\<lparr>next_call := 1\<rparr>"
proof -
  show "attach_front True sample_router = (Inr (), attached_router)"
    by (simp add: attach_front_def attached_router_def sample_budgets_def)
  have "reserve_budget sample_budgets FRONT_REQUEST_BYTES \<lparr>pending_requests = 0, pending_bytes = 0\<rparr>
      = Inr \<lparr>pending_requests = 1, pending_bytes = FRONT_REQUEST_BYTES\<rparr>"
    by (simp add: reserve_budget_def sample_budgets_def budget_def checked_add_def ok_or_def
        FRONT_REQUEST_BYTES_def MAX_NETD_FRAME_LEN_def)
  then show "dispatch_front True attached_router = (Inr (), queued_router)"
    by (simp add: dispatch_front_def attached_router_def queued_router_def set_stage_def sample_budgets_def)
  show "front_take queued_router = reading_router"
    by (simp add: front_take_def attached_router_def queued_router_def reading_router_def set_stage_def)
  show "call_read 0 None reading_router = attached_router\<lparr>next_call := 1\<rparr>"
    by (simp add: call_read_def front_done_def drop_permit_def release_budget_def attached_router_def reading_router_def)
qed

end
