(* ===== verification/Netd_Router_Properties.thy ===== *)
theory Netd_Router_Properties
  imports Netd_Router_Samples
begin

text \<open>
  The properties of the multi-domain service: what an accepted configuration guarantees, and what
  every interleaving of front threads, callers, domain workers and changes of the operating system
  keeps.
\<close>

section \<open>Runs\<close>

text \<open>\<open>Q r env\<close> restricts how the operating system may change under a running service.\<close>

inductive router_runs ::
    "(('d, 'f, 'b, 'j) router \<Rightarrow> 'd infra_platform \<Rightarrow> bool) \<Rightarrow> ('d, 'f, 'b, 'j) router \<Rightarrow>
     ('d, 'f, 'b, 'j) router \<Rightarrow> bool" for Q r0 where
  start: "router_runs Q r0 r0"
| step: "router_runs Q r0 r \<Longrightarrow> router_step r r' \<Longrightarrow> (system r' = system r \<or> Q r (system r')) \<Longrightarrow>
    router_runs Q r0 r'"

lemma limits_step: "router_step r r' \<Longrightarrow> router_limits r' = router_limits r"
  by (erule router_step.cases)
    (auto simp: front_defs dispatch_front_def front_take_def call_defs work_defs Let_def split: stage_splits)

definition router_inv :: "('d, 'f, 'b, 'j) router \<Rightarrow> bool" where
  "router_inv r \<longleftrightarrow> numbered r \<and> budget_inv r \<and> permits_inv r \<and> flight_inv r \<and> tokens_inv r"

lemma router_inv_step:
  assumes "router_step r r'" and "router_inv r"
  shows "router_inv r'"
  using assms budget_inv_step [OF assms(1)] numbered_step [OF assms(1)] permits_inv_step [OF assms(1)]
    flight_inv_step [OF assms(1)] tokens_inv_step [OF assms(1)]
  by (simp add: router_inv_def numbered_def)

lemma start_workers_idle:
  assumes "start_workers W V uid gid f ps Map.empty = Inr ws" and "ws d = Some w"
  shows "w_queue w = None \<and> w_inflight w = False \<and> w_stage w = WorkerIdle"
  by (rule start_workers_all [where P = "\<lambda>d w. w_queue w = None \<and> w_inflight w = False \<and> w_stage w = WorkerIdle",
        OF assms(1) _ _ assms(2)]) (auto dest: start_worker_fields)

lemma start_inv:
  assumes "multi_domain_new H C W V fds soft uid gid f config = Inr r"
  shows "router_inv r" "router_limits r = cfg_budgets config" "exclusive (system r) (bindings r)" "retired r"
    "calls r = Map.empty"
proof -
  obtain own acc where parts: "prepared_ok C (os W) own acc"
    "start_workers W V uid gid f (prepared acc) Map.empty = Inr (workers r)"
    and r: "r = \<lparr>router_uid = uid, router_gid = gid, router_limits = cfg_budgets config, workers = workers r,
       bindings = found_bindings acc, next_token = 1, pending = \<lparr>pending_requests = 0, pending_bytes = 0\<rparr>,
       leases = Map.empty, front_attached = False, front_queue = [], idle_threads = 0, next_call = 0,
       calls = Map.empty, replies = Map.empty, sent = [], system = os W\<rparr>"
    using multi_domain_new_Inr [OF assms] by metis
  note fields = arg_cong [OF r]
  have empty: "leases r = Map.empty" "calls r = Map.empty" "front_queue r = []"
    "pending r = \<lparr>pending_requests = 0, pending_bytes = 0\<rparr>"
    using fields [of leases] fields [of calls] fields [of front_queue] fields [of pending] by simp_all
  have idle: "w_queue w = None" "w_inflight w = False" "w_stage w = WorkerIdle" if "workers r d = Some w" for d w
    using start_workers_idle [OF parts(2) that] by simp_all
  have "reservations r = {}"
    using idle by (auto simp: reservations_def call_reservations_def worker_reservations_def
        worker_requests_def empty)
  then show "router_inv r" "retired r" "calls r = Map.empty"
    using idle by (auto simp: router_inv_def numbered_def budget_inv_def leased_def permits_inv_def flight_inv_def
        flight_ok_def claims_def claim_map_def tokens_inv_def retired_def empty)
  show "router_limits r = cfg_budgets config" using fields [of router_limits] by simp
  show "exclusive (system r) (bindings r)"
    using parts(1) fields [of system] fields [of bindings] by (simp add: prepared_ok_def)
qed

lemma runs_inv:
  assumes "router_runs Q r0 r" and "multi_domain_new H C W V fds soft uid gid f config = Inr r0"
  shows "router_inv r \<and> router_limits r = cfg_budgets config"
  using assms(1) by induction (auto simp: start_inv [OF assms(2)] limits_step dest: router_inv_step)

text \<open>Two runs of the sample service: a call up to its reservation, and a connection that is lost.\<close>

lemma runs_step: "router_runs Q r0 r \<Longrightarrow> router_step r r' \<Longrightarrow> system r' = system r \<Longrightarrow> router_runs Q r0 r'"
  by (erule router_runs.step) simp_all

lemma reserved_runs: "router_runs Q sample_router reserved_router"
proof -
  have sys: "system (staged_router s) = sample_os" "system (claimed_router s) = sample_os"
    "system (admitted_router s) = sample_os" "system reserved_router = sample_os" for s
    by (simp_all add: staged_router_def claimed_router_def admitted_router_def reserved_router_def)
  have at: "calls (staged_router s) 0 = Some s" "calls (claimed_router s) 0 = Some s"
    "calls (admitted_router s) 0 = Some s" for s
    by (simp_all add: staged_router_def claimed_router_def admitted_router_def)
  have s1: "router_step sample_router (staged_router (CallRouting sample_acquire infra_peer 0))"
    using router_step.direct sample_steps(1) by metis
  have s2: "router_step (staged_router (CallRouting sample_acquire infra_peer 0))
      (staged_router (CallRouted sample_call))"
    using router_step.route [OF at(1)] sample_steps(2) by metis
  have s3: "router_step (staged_router (CallRouted sample_call)) (claimed_router (CallClaimed sample_call))"
    using router_step.claim [OF at(1)] sample_steps(3) by metis
  have s4: "router_step (claimed_router (CallClaimed sample_call)) (admitted_router (CallAdmitted sample_call))"
    using router_step.admit [OF at(2)] sample_steps(4) by metis
  have s5: "router_step (admitted_router (CallAdmitted sample_call)) reserved_router"
    using router_step.reserve [OF at(3)] sample_steps(5) by metis
  show ?thesis
    by (rule runs_step [OF runs_step [OF runs_step [OF runs_step [OF runs_step
          [OF router_runs.start s1] s2] s3] s4] s5]) (simp_all add: sys)
qed

lemma dropped_runs:
  "router_runs Q sample_router queued_router" "router_runs Q sample_router (attached_router\<lparr>next_call := 1\<rparr>)"
proof -
  have sys: "system attached_router = sample_os" "system queued_router = sample_os"
    "system reading_router = sample_os"
    by (simp_all add: attached_router_def queued_router_def reading_router_def)
  have "router_runs Q sample_router attached_router"
    by (rule runs_step [OF router_runs.start router_step.attach [OF front_steps(1)]]) (simp add: sys)
  then show queued: "router_runs Q sample_router queued_router"
    by (rule runs_step [OF _ router_step.connect [OF _ front_steps(2)]]) (simp_all add: sys attached_router_def)
  have "router_step queued_router reading_router"
    using router_step.take [of queued_router] by (simp add: front_steps)
  with queued have reading: "router_runs Q sample_router reading_router"
    by (rule runs_step) (simp add: sys)
  have "calls reading_router 0 = Some CallReading" by (simp add: reading_router_def)
  then have "router_step reading_router (attached_router\<lparr>next_call := 1\<rparr>)"
    using router_step.read [of reading_router 0 None] by (simp add: front_steps)
  with reading show "router_runs Q sample_router (attached_router\<lparr>next_call := 1\<rparr>)"
    by (rule runs_step) (simp add: sys)
qed

section \<open>The budget\<close>

text \<open>
  C16: At every moment the pending counters are exactly the number and the bytes of the leases that
  are held, and they never exceed the configured limits, whatever the threads do and in whatever
  order; no counter can underflow or wrap.
\<close>

theorem pending_budget_is_exact:
  assumes "multi_domain_new H C W V fds soft uid gid f config = Inr r0" and "router_runs Q r0 r"
  shows "unat (pending_requests (pending r)) = card (dom (leases r))
    \<and> unat (pending_bytes (pending r)) = leased (leases r)
    \<and> pending_requests (pending r) \<le> max_pending_control_requests (cfg_budgets config)
    \<and> pending_bytes (pending r) \<le> max_pending_control_bytes (cfg_budgets config)"
  using runs_inv [OF assms(2,1)] by (auto simp: router_inv_def budget_inv_def)

theorem pending_budget_is_exact_witness:
  "unat (pending_requests (pending queued_router)) = 1 \<and> unat (pending_requests (pending queued_router)) = card (dom (leases queued_router))
   \<and> pending_bytes (pending queued_router) \<le> max_pending_control_bytes (cfg_budgets sample_domains)"
  using pending_budget_is_exact [OF sample_started dropped_runs(1)] by (simp add: queued_router_def)

text \<open>
  No budget is lost: once no call is in progress and no worker has a request, both counters are
  back at zero, whether the calls succeeded, failed, timed out or lost their client.
\<close>

theorem pending_budget_is_returned:
  assumes "multi_domain_new H C W V fds soft uid gid f config = Inr r0" and "router_runs Q r0 r"
    and calls: "\<And>c. calls r c = None"
    and idle: "\<And>d w. workers r d = Some w \<Longrightarrow> w_queue w = None \<and> w_stage w = WorkerIdle"
  shows "pending r = \<lparr>pending_requests = 0, pending_bytes = 0\<rparr>"
proof -
  have inv: "budget_inv r" "permits_inv r"
    using runs_inv [OF assms(2,1)] by (simp_all add: router_inv_def)
  have "\<not> lease_ok r c l" for c l
    using idle by (auto simp: lease_ok_def calls worker_held_def worker_holds_def)
  then have "leases r = Map.empty"
    using inv(2) by (auto simp: permits_inv_def fun_eq_iff intro: not_Some_eq [THEN iffD1])
  then show ?thesis
    using inv(1) by (cases "pending r") (auto simp: budget_inv_def leased_def unat_eq_0)
qed

theorem pending_budget_is_returned_witness:
  "pending (attached_router\<lparr>next_call := 1\<rparr>) = \<lparr>pending_requests = 0, pending_bytes = 0\<rparr>"
proof (rule pending_budget_is_returned [OF sample_started dropped_runs(2)])
  show "calls (attached_router\<lparr>next_call := 1\<rparr>) c = None" for c
    by (simp add: attached_router_def)
  show "w_queue w = None \<and> w_stage w = WorkerIdle"
    if "workers (attached_router\<lparr>next_call := 1\<rparr>) d = Some w" for d w
    using that by (auto simp: attached_router_def sample_worker_def sample_router_def router_with_def
        sample_ident_def sample_domain_def split: if_splits)
qed

section \<open>One request per domain\<close>

text \<open>
  Only one call at a time has a domain between claiming it and sending its request; meanwhile
  the domain's queue is empty and its worker handles no request, so that the request is never
  refused by the queue.
\<close>

theorem claimed_domain_is_exclusive:
  assumes "multi_domain_new H C W V fds soft uid gid f config = Inr r0" and "router_runs Q r0 r"
    and "calls r c = Some (CallReserved cd rb)" and "workers r (c_domain cd) = Some w"
  shows "(\<forall>c' s cd'. calls r c' = Some s \<and> claim_of s = Some cd' \<and> c_domain cd' = c_domain cd \<longrightarrow> c' = c)
    \<and> \<not> busy_stage (w_stage w)
    \<and> calls (call_send c cd rb r) c = Some (CallWaiting (c_id cd) rb)"
proof -
  have inv: "flight_inv r" using runs_inv [OF assms(2,1)] by (simp add: router_inv_def)
  have claim: "claim_map r c = Some cd" using assms(3) by (simp add: claim_map_def)
  note facts = flight_claimed [OF inv claim assms(4)]
  have "c' = c" if "calls r c' = Some s" "claim_of s = Some cd'" "c_domain cd' = c_domain cd" for c' s cd'
  proof -
    have "c' \<in> claims (claim_map r) (c_domain cd)"
      using that by (auto simp: claims_def claim_map_def)
    then show ?thesis using facts(1) by simp
  qed
  then show ?thesis using facts assms(4) by (auto simp: call_send_def)
qed

theorem claimed_domain_is_exclusive_witness:
  "calls (call_send 0 sample_call (Some sample_reservation) reserved_router) 0
    = Some (CallWaiting 1 (Some sample_reservation))"
  using claimed_domain_is_exclusive [OF sample_started reserved_runs, where c = 0 and cd = sample_call
      and rb = "Some sample_reservation"]
  by (simp add: reserved_router_def)

section \<open>Reservations\<close>

text \<open>
  Two calls never hold reservations with the same token, so that rolling one back, however
  late, restores only what that reservation replaced.
\<close>

theorem reservation_tokens_are_unique:
  assumes "multi_domain_new H C W V fds soft uid gid f config = Inr r0" and "router_runs Q r0 r"
    and "(c, rb) \<in> reservations r" and "(c', rb') \<in> reservations r"
    and "rollback_token rb = rollback_token rb'"
  shows "c = c' \<and> rb = rb'"
proof -
  have "tokens_inv r" using runs_inv [OF assms(2,1)] by (simp add: router_inv_def)
  then show ?thesis using assms(3-5) unfolding tokens_inv_def by blast
qed

theorem reservation_tokens_are_unique_witness:
  "{x. x \<in> reservations reserved_router \<and> rollback_token (snd x) = 1} = {(0, sample_reservation)}"
proof -
  have held: "(0, sample_reservation) \<in> reservations reserved_router"
    by (auto simp: reservations_def call_reservations_def reserved_router_def)
  have unique: "c = 0 \<and> rb = sample_reservation"
    if "(c, rb) \<in> reservations reserved_router" "rollback_token rb = 1" for c rb
    by (rule reservation_tokens_are_unique [OF sample_started reserved_runs that(1) held])
      (simp add: that(2) sample_reservation_def)
  have "x = (0, sample_reservation)"
    if "x \<in> reservations reserved_router" "rollback_token (snd x) = 1" for x
    using unique [of "fst x" "snd x"] that by (simp add: prod_eq_iff)
  moreover have "rollback_token sample_reservation = 1" by (simp add: sample_reservation_def)
  ultimately show ?thesis using held by fastforce
qed

text \<open>
  C15: Two domains never have the same live process or caller instance as I/O owner, neither in the
  table found in the journals nor after any interleaving of acquisitions, time-outs and rollbacks,
  as long as a process that exited does not come back.
\<close>

theorem io_owners_are_exclusive:
  assumes "multi_domain_new H C W V fds soft uid gid f config = Inr r0"
    and "router_runs exits_are_final r0 r"
  shows "exclusive (system r) (bindings r)"
proof -
  have refl: "exits_are_final r (system r)" for r :: "('a, 'b, 'c, journal_fs) router"
    by (simp add: exits_are_final_def)
  from assms(2) have "exclusive (system r) (bindings r) \<and> retired r"
  proof induction
    case (step r r')
    have "exits_are_final r (system r')" using refl [of r] step.hyps(3) by auto
    with step show ?case using owners_step [of r r'] by blast
  qed (simp add: start_inv [OF assms(1)])
  then show ?thesis ..
qed

theorem io_owners_are_exclusive_witness:
  "bindings reserved_router \<noteq> [] \<and> exclusive sample_os (bindings reserved_router)"
  using io_owners_are_exclusive [OF sample_started reserved_runs] by (simp add: reserved_router_def)

section \<open>Isolation\<close>



section \<open>Start-up\<close>

text \<open>
  A configuration that is accepted names every domain, infrastructure and journal once, with a
  routing table of the product's range and a namespace of its own that is not the host's; every
  configured domain has a worker, and it runs in that namespace.
\<close>

theorem accepted_configuration_is_disjoint:
  assumes "multi_domain_new H C W V fds soft uid gid f config = Inr r"
  shows "distinct (map cfg_domain_id (cfg_domains config)) \<and> distinct (map cfg_infra_id (cfg_domains config))
    \<and> list_all config_explicit (cfg_domains config)
    \<and> dom (workers r) = cfg_domain_id ` set (cfg_domains config)
    \<and> (\<forall>d w. workers r d = Some w \<longrightarrow>
         entered_namespace V (w_identity w) = Some (id_netns_device (w_identity w), id_netns_inode (w_identity w))
         \<and> own_namespace H \<noteq> entered_namespace V (w_identity w)
         \<and> (\<forall>d' w'. workers r d' = Some w' \<and> d' \<noteq> d \<longrightarrow>
              entered_namespace V (w_identity w') \<noteq> entered_namespace V (w_identity w)))"
proof -
  obtain own acc where parts: "prepared_ok C (os W) own acc" "start_configs acc = cfg_domains config"
    "start_workers W V uid gid f (prepared acc) Map.empty = Inr (workers r)" "own_namespace H = Some own"
    by (rule multi_domain_new_Inr [OF assms])
  have member: "cfg_domain_id (id_config (w_identity w)) = d \<and> w_identity w \<in> fst ` set (prepared acc)
      \<and> entered_namespace V (w_identity w) = Some (id_netns_device (w_identity w), id_netns_inode (w_identity w))"
    if "workers r d = Some w" for d w
    by (rule start_workers_all [where P = "\<lambda>d w. cfg_domain_id (id_config (w_identity w)) = d
          \<and> w_identity w \<in> fst ` set (prepared acc)
          \<and> entered_namespace V (w_identity w) = Some (id_netns_device (w_identity w), id_netns_inode (w_identity w))",
          OF parts(3) _ _ that])
      (auto dest: start_worker_fields simp: image_iff intro: bexI [rotated])
  have "dom (workers r) = cfg_domain_id ` set (cfg_domains config)"
    using start_workers_dom [OF parts(3)] unfolding parts(2) [symmetric]
    by (simp add: start_configs_def image_image comp_def)
  moreover have "own_namespace H \<noteq> entered_namespace V (w_identity w)" if "workers r d = Some w" for d w
    using member [OF that] parts(1,4) by (force simp: prepared_ok_def start_namespaces_def)
  moreover have "entered_namespace V (w_identity w') \<noteq> entered_namespace V (w_identity w)"
    if "workers r d = Some w" "workers r d' = Some w'" "d' \<noteq> d" for d w d' w'
  proof -
    have "w_identity w = w_identity w'"
      if "(id_netns_device (w_identity w), id_netns_inode (w_identity w))
        = (id_netns_device (w_identity w'), id_netns_inode (w_identity w'))"
    proof -
      obtain fs fs' where "(w_identity w, fs) \<in> set (prepared acc)" "(w_identity w', fs') \<in> set (prepared acc)"
        using member [OF \<open>workers r d = Some w\<close>] member [OF \<open>workers r d' = Some w'\<close>] by auto
      moreover have "inj_on (\<lambda>(i, _). (id_netns_device i, id_netns_inode i)) (set (prepared acc))"
        using parts(1) by (simp add: prepared_ok_def start_namespaces_def distinct_map)
      ultimately show ?thesis
        using that by (auto dest: inj_onD [of _ _ "(w_identity w, fs)" "(w_identity w', fs')"])
    qed
    moreover have "(id_netns_device (w_identity w), id_netns_inode (w_identity w))
        = (id_netns_device (w_identity w'), id_netns_inode (w_identity w'))"
      if "entered_namespace V (w_identity w') = entered_namespace V (w_identity w)"
      using member [OF \<open>workers r d = Some w\<close>] member [OF \<open>workers r d' = Some w'\<close>] that
      by (simp only: option.inject)
    moreover have "w_identity w \<noteq> w_identity w'"
    proof
      assume same: "w_identity w = w_identity w'"
      show False
        using member [OF that(1), THEN conjunct1] member [OF that(2), THEN conjunct1] that(3)
        unfolding same by simp
    qed
    ultimately show ?thesis by blast
  qed
  moreover have "entered_namespace V (w_identity w) = Some (id_netns_device (w_identity w), id_netns_inode (w_identity w))"
    if "workers r d = Some w" for d w
    using member [OF that] by blast
  ultimately show ?thesis
    using parts(1) unfolding prepared_ok_def parts(2) by blast
qed

theorem accepted_configuration_is_disjoint_witness:
  "dom (workers sample_router) = {5} \<and> list_all config_explicit [sample_domain 5]"
  using accepted_configuration_is_disjoint [OF sample_started]
  by (simp add: sample_domains_def sample_domain_def)

text \<open>
  An admitted budget bounds the real resources, computed without wrap-around: the threads and
  their stacks, the front's share of the pending limits, and the descriptors of every domain, of
  every pending request and of the sockets, within both the configured and the process limit.
\<close>

theorem admitted_budget_is_sufficient:
  assumes "admit b open_fds soft domains = Inr ()"
  shows "domains \<le> max_domains b \<and> 2 \<le> front_control_threads b
    \<and> unat domains + unat (front_control_threads b) \<le> unat (max_control_threads b)
    \<and> (unat domains + unat (front_control_threads b)) * unat (thread_stack_bytes b)
        \<le> unat (max_total_stack_bytes b)
    \<and> front_control_threads b \<le> max_pending_control_requests b
    \<and> unat (front_control_threads b) * unat FRONT_REQUEST_BYTES \<le> unat (max_pending_control_bytes b)
    \<and> (\<exists>fds limit. open_fds = Some fds \<and> soft = Some limit
         \<and> unat fds + unat domains * unat RESERVED_DOMAIN_FDS
             + 2 * min (unat (max_pending_control_requests b)) (min (2 * unat domains) (2 ^ 64 - 1))
             + unat CONTROL_FD_SAFETY_MARGIN + unat (max_pending_control_requests b)
           \<le> min (unat (max_reserved_fds b)) (unat limit))"
proof -
  obtain threads stacks bytes fds limit n where
    domains: "domains \<le> max_domains b" and front: "2 \<le> front_control_threads b"
    and threads: "checked_add domains (front_control_threads b) = Some threads" "threads \<le> max_control_threads b"
    and stacks: "checked_mul threads (thread_stack_bytes b) = Some stacks" "stacks \<le> max_total_stack_bytes b"
    and requests: "front_control_threads b \<le> max_pending_control_requests b"
    and bytes: "checked_mul (front_control_threads b) FRONT_REQUEST_BYTES = Some bytes"
      "bytes \<le> max_pending_control_bytes b"
    and fds: "open_fds = Some fds" "soft = Some limit" "reserved_descriptors b fds domains = Some n"
      "n \<le> max_reserved_fds b" "n \<le> limit"
    using assms unfolding admit_def Let_def by (auto simp: rbind_eq_Inr ok_or_eq budget_ok)
  have sat: "unat (saturating_mul domains 2) = min (2 * unat domains) (2 ^ 64 - 1)"
    by (auto simp: saturating_mul_def unat_word_ariths min_def
        unsigned_minus_1_eq_mask mask_eq_exp_minus_1)
  have "unat n = unat fds + unat domains * unat RESERVED_DOMAIN_FDS
      + 2 * unat (min (max_pending_control_requests b) (saturating_mul domains 2))
      + unat CONTROL_FD_SAFETY_MARGIN + unat (max_pending_control_requests b)"
    using fds(3)
    by (auto simp: reserved_descriptors_def Let_def Option.bind_eq_Some_conv dest!: checked_unat)
  moreover have "unat (min x y) = min (unat x) (unat y)" for x y :: u64
    by (simp add: min_def word_le_nat_alt)
  ultimately show ?thesis
    using domains front requests fds(1,2,4,5) threads(2) stacks(2) bytes(2)
      checked_unat(1) [OF threads(1)] checked_unat(2) [OF stacks(1)] checked_unat(2) [OF bytes(1)] sat
    by (simp add: word_le_nat_alt)
qed

theorem admitted_budget_is_sufficient_witness:
  "front_control_threads sample_budgets \<le> max_pending_control_requests sample_budgets
   \<and> (1 + 2) * unat (thread_stack_bytes sample_budgets) \<le> unat (max_total_stack_bytes sample_budgets)"
  using admitted_budget_is_sufficient [OF sample_admission] by (simp add: sample_budgets_def)

text \<open>
  The journal of a domain is loaded and checked before the domain's lock is taken, and loaded
  again, unchecked, by the worker: when another controller replaces it in between, the worker starts
  on a journal that belongs to another domain.
\<close>

theorem journal_checked_before_lock:
  "\<exists>r w. multi_domain_new sample_host sample_codec file_world
      (sample_worker_host (\<lambda>_ fs. with_file [] fs)) (Some 10) (Some 1024) 0 0 4
      \<lparr>cfg_budgets = sample_budgets, cfg_domains = [sample_domain 6]\<rparr> = Inr r
    \<and> workers r 6 = Some w \<and> validate_journal (w_identity w) (svc_state (w_service w)) \<noteq> Inr ()"
proof -
  let ?fs = "with_file [] sample_journal_fs"
  have calm: "faults ?fs = []" by (simp add: with_file_def sample_journal_fs_def)
  have "decode_envelope sample_codec [] = Inr handoff_state"
    using handoff_loadable
    by (simp add: decode_envelope_def state_hash_def sample_codec_def sample_envelope_def ok_or_def)
  then have load: "infra_load_file sample_codec ?fs = (Inr handoff_state, ?fs)"
    by (simp add: load_without_faults [OF calm] durable_infra_with_file)
  have "multi_domain_new sample_host sample_codec file_world (sample_worker_host (\<lambda>_ fs. with_file [] fs))
      (Some 10) (Some 1024) 0 0 4 \<lparr>cfg_budgets = sample_budgets, cfg_domains = [sample_domain 6]\<rparr>
    = Inr (router_with (sample_ident 6) ?fs handoff_state)"
    by (rule sample_new [where d = 6 and fs = "\<lambda>_ fs. with_file [] fs", OF _ load]) simp
  moreover have "\<not> journal_inside (sample_ident 6) handoff_state"
    by (simp add: journal_inside_def record_inside_def handoff_state_def sample_ident_def sample_domain_def
        sample_forward_owner_def)
  then have "validate_journal (sample_ident 6) handoff_state \<noteq> Inr ()"
    by (simp add: validate_journal_Inr)
  ultimately show ?thesis
    by (simp add: router_with_def sample_ident_def sample_domain_def)
qed

end
