(* ===== verification/Port_Manager.thy ===== *)
theory Port_Manager
  imports Netd_Prelude
begin

text \<open>
  The packet port manager (\<^verbatim>\<open>packet_port_manager.rs\<close>): the actor that keeps the TUN of one routing
  domain and hands it from one authorised owner to the next. It holds at most one active owner,
  one predecessor whose inbound queue is still drained, one staged candidate, and the monotone
  high-water marks of owner epochs, policy generations and transaction revisions.

  \<^item> \<^verbatim>\<open>tokio::time::Instant\<close> is a number of nanoseconds on the executor's clock; \<open>me_now env i\<close> is the
    \<open>i\<close>-th reading of \<^verbatim>\<open>Instant::now()\<close> in one iteration of the loop;
  \<^item> an authorisation callback is a function of the boot and wall clock it reads when it is called;
  \<^item> the packet queues (\<^verbatim>\<open>PacketOutput\<close>) are observed through what the manager asks of them: the
    number of outstanding outbound packets, unread input and the drained flag of the inbound queue;
  \<^item> one iteration of \<^verbatim>\<open>run_packet_port_bridge_inner\<close> is one \<open>manager_step\<close>: the arm of the
    \<^verbatim>\<open>select!\<close> that fired is the event.
\<close>

section \<open>Data\<close>

type_synonym instant = nat
type_synonym duration = nat

definition seconds :: "nat \<Rightarrow> duration" where
  "seconds n = n * 10 ^ 9"

definition millis :: "nat \<Rightarrow> duration" where
  "millis n = n * 10 ^ 6"

record packet_port_binding =
  pb_infrastructure_id :: u128
  pb_routing_domain_id :: u128
  pb_infrastructure_generation :: u64
  pb_io_epoch :: u64
  pb_owner_epoch :: u64
  pb_policy_generation :: u64

datatype packet_port_role = Infrastructure_Role | Worker_Role

record unix_packet_port =
  up_binding :: packet_port_binding
  up_role :: packet_port_role

record clock_reading =
  clk_boot_ms :: "string + u64"
  clk_wall :: "string + duration"

type_synonym authorization_check = "clock_reading \<Rightarrow> string + unit"

record owner_transaction =
  tx_id :: u128
  tx_revision :: u64
  tx_expected_active_epoch :: "u64 option"
  tx_binding :: packet_port_binding
  tx_auth_deadline :: instant
  tx_prepare_deadline :: instant

datatype owner_transaction_phase = Phase_Prepared | Phase_Committed | Phase_Aborted | Phase_Expired

record owner_transaction_receipt =
  otr_transaction :: owner_transaction
  otr_phase :: owner_transaction_phase

datatype owner_change =
  Prepare_Owner owner_transaction unix_packet_port authorization_check
| Commit_Owner owner_transaction
| Finish_Owner_Drain owner_transaction
| Retire_Owner_After_Failure owner_transaction
| Abort_Owner owner_transaction
| Probe_Owner_Transaction u128 u64
| Attach_Port unix_packet_port instant
| Attach_Authorized_Port unix_packet_port instant authorization_check
| Renew_Owner u64 u64 instant
| Revoke_Owner u64
| Probe_Manager

record packet_port_receipt =
  rc_binding :: "packet_port_binding option"
  rc_auth_deadline :: "instant option"
  rc_owner_epoch :: u64
  rc_policy_generation :: u64
  rc_pending :: "owner_transaction_receipt option"
  rc_last_transaction :: "owner_transaction_receipt option"
  rc_highest_transaction_revision :: u64
  rc_retained_owner_binding :: "packet_port_binding option"
  rc_old_owner_drained :: bool
  rc_forced_retirement :: bool

text \<open>
  An owner carries the two send fences of its outputs, the deadline its writers watch and whether
  its writer tasks have been cancelled.
\<close>

record port_owner =
  ow_port :: unix_packet_port
  ow_auth_deadline :: instant
  ow_transaction_cap :: "instant option"
  ow_deadline :: instant
  ow_fence :: bool
  ow_inbound_fence :: bool
  ow_authorization :: "authorization_check option"
  ow_to_worker_cancelled :: bool
  ow_to_tun_cancelled :: bool

record pending_owner =
  pn_transaction :: owner_transaction
  pn_owner :: port_owner
  pn_authorization :: authorization_check

record packet_manager =
  pm_infrastructure :: packet_port_binding
  pm_owner :: "port_owner option"
  pm_retained :: "port_owner option"
  pm_old_owner_drained :: bool
  pm_forced_retirement :: bool
  pm_pending :: "pending_owner option"
  pm_last_transaction :: "owner_transaction_receipt option"
  pm_highest_transaction_revision :: u64
  pm_highest_owner_epoch :: u64
  pm_highest_policy_generation :: u64
  pm_retired :: "port_owner list"
  pm_control_available :: bool
  pm_worker_failures :: u64
  pm_no_worker_drops :: u64
  pm_output_binding :: "packet_port_binding option"

datatype manager_error =
  Prepare_Identity_Mismatch
| Prepare_Invalid_Identity
| Prepare_Stale_Revision u64 u64
| Prepare_Cleanup_Busy
| Prepare_Capacity
| Prepare_Drain_Pending
| Prepare_Active_Changed "u64 option" "u64 option"
| Prepare_Stale_Epoch u64 u64 u64 u64
| Prepare_Invalid_Deadline
| Prepare_Unauthorized string
| Commit_Not_Prepared
| Commit_Cleanup_Busy
| Commit_Active_Changed "u64 option" "u64 option"
| Commit_Expired
| Commit_Unauthorized string
| Commit_Queue_Pending
| Drain_Not_Committed
| Drain_Forced_Retirement
| Drain_Queue_Pending
| Drain_Probe_Failed string
| Retirement_Not_Committed
| Retirement_Unexpired
| Retirement_Already_Drained
| Transaction_Already_Committed
| Abort_Not_Prepared
| Transaction_Unknown
| Attach_Identity_Mismatch
| Attach_Cleanup_Busy
| Attach_Drain_Pending
| Attach_Expired_Or_Stale
| Renewal_Mismatch
| Revocation_Stale

record manager_env =
  me_now :: "nat \<Rightarrow> instant"
  me_clock :: clock_reading
  me_outbound_pending :: nat
  me_input_pending :: "string + bool"
  me_tun_drained :: "string + bool"

type_synonym 'a manager_op = "(packet_manager, manager_error, 'a) action"

section \<open>Owners and their fences\<close>

definition new_owner :: "unix_packet_port \<Rightarrow> instant \<Rightarrow> instant option \<Rightarrow> authorization_check option \<Rightarrow> port_owner" where
  "new_owner port auth_deadline transaction_cap authorization =
    \<lparr>ow_port = port, ow_auth_deadline = auth_deadline, ow_transaction_cap = transaction_cap,
     ow_deadline = auth_deadline, ow_fence = True, ow_inbound_fence = True,
     ow_authorization = authorization, ow_to_worker_cancelled = False, ow_to_tun_cancelled = False\<rparr>"

definition owner_retire :: "port_owner \<Rightarrow> port_owner" where
  "owner_retire o1 = o1\<lparr>ow_fence := False, ow_inbound_fence := False,
    ow_to_worker_cancelled := True, ow_to_tun_cancelled := True\<rparr>"

definition owner_binding :: "port_owner \<Rightarrow> packet_port_binding" where
  "owner_binding o1 = up_binding (ow_port o1)"

datatype port_error = Authorization_Failure string | Port_Io string

definition while_active :: "bool \<Rightarrow> (port_error + 'a) \<Rightarrow> port_error + 'a" where
  "while_active fence operation =
    (if fence then operation else Inl (Authorization_Failure ''packet-port owner retired''))"

text \<open>
  \<open>deadline_try_send\<close> is \<^verbatim>\<open>DeadlinePort::try_send_packet\<close>: the fence, then the authorisation callback,
  then the published deadline, and only then the write itself (\<open>write\<close> is its outcome).
\<close>

definition deadline_try_send ::
    "bool \<Rightarrow> authorization_check option \<Rightarrow> instant \<Rightarrow> clock_reading \<Rightarrow> instant \<Rightarrow> (string + bool) \<Rightarrow> port_error + bool" where
  "deadline_try_send fence authorization deadline clock now write = while_active fence
    (rbind (case authorization of None \<Rightarrow> Inr () | Some check \<Rightarrow> map_err Authorization_Failure (check clock))
      (\<lambda>_. if deadline \<le> now then Inr False else map_err Port_Io write))"

definition owner_send_to_worker :: "port_owner \<Rightarrow> clock_reading \<Rightarrow> instant \<Rightarrow> (string + bool) \<Rightarrow> port_error + bool" where
  "owner_send_to_worker o1 = deadline_try_send (ow_fence o1) (ow_authorization o1) (ow_deadline o1)"

definition owner_send_to_tun :: "port_owner \<Rightarrow> clock_reading \<Rightarrow> instant \<Rightarrow> (string + bool) \<Rightarrow> port_error + bool" where
  "owner_send_to_tun o1 = deadline_try_send (ow_inbound_fence o1) (ow_authorization o1) (ow_deadline o1)"

definition matches_infrastructure :: "unix_packet_port \<Rightarrow> packet_port_binding \<Rightarrow> bool" where
  "matches_infrastructure port infra \<longleftrightarrow>
    up_role port = Infrastructure_Role
    \<and> pb_infrastructure_id (up_binding port) = pb_infrastructure_id infra
    \<and> pb_infrastructure_generation (up_binding port) = pb_infrastructure_generation infra
    \<and> pb_io_epoch (up_binding port) = pb_io_epoch infra
    \<and> pb_routing_domain_id (up_binding port) = pb_routing_domain_id infra"

definition active_epoch :: "port_owner option \<Rightarrow> u64 option" where
  "active_epoch ow = map_option (\<lambda>o1. pb_owner_epoch (owner_binding o1)) ow"

definition manager_receipt :: "packet_manager \<Rightarrow> packet_port_receipt" where
  "manager_receipt s =
    \<lparr>rc_binding = map_option owner_binding (pm_owner s),
     rc_auth_deadline = map_option ow_auth_deadline (pm_owner s),
     rc_owner_epoch = pm_highest_owner_epoch s,
     rc_policy_generation = pm_highest_policy_generation s,
     rc_pending = map_option (\<lambda>p. \<lparr>otr_transaction = pn_transaction p, otr_phase = Phase_Prepared\<rparr>) (pm_pending s),
     rc_last_transaction = pm_last_transaction s,
     rc_highest_transaction_revision = pm_highest_transaction_revision s,
     rc_retained_owner_binding = map_option owner_binding (pm_retained s),
     rc_old_owner_drained = pm_old_owner_drained s,
     rc_forced_retirement = pm_forced_retirement s\<rparr>"

text \<open>
  \<open>revoke_active\<close> is \<^verbatim>\<open>revoke\<close>: the active owner is fenced, its writers are stopped and it is dropped.
  \<open>retire_owner\<close> is \<^verbatim>\<open>retire\<close>: the owner is fenced and joins the set of writers still being stopped.
\<close>

definition revoke_active :: "packet_manager \<Rightarrow> packet_manager" where
  "revoke_active s = s\<lparr>pm_owner := None, pm_output_binding := None\<rparr>"

definition retire_owner :: "port_owner \<Rightarrow> packet_manager \<Rightarrow> packet_manager" where
  "retire_owner o1 s = s\<lparr>pm_retired := pm_retired s @ [owner_retire o1]\<rparr>"

text \<open>Retirement of the predecessor without an acknowledged drain.\<close>

definition force_retire :: "packet_manager \<Rightarrow> packet_manager" where
  "force_retire s = (case pm_retained s of None \<Rightarrow> s | Some previous \<Rightarrow> retire_owner previous (s\<lparr>pm_retained := None\<rparr>))
    \<lparr>pm_forced_retirement := True, pm_old_owner_drained := False\<rparr>"

text \<open>The candidate ends with a terminal receipt and its writers are retired.\<close>

definition end_candidate :: "owner_transaction_phase \<Rightarrow> packet_manager \<Rightarrow> packet_manager" where
  "end_candidate phase s = (case pm_pending s of None \<Rightarrow> s
    | Some candidate \<Rightarrow> (retire_owner (pn_owner candidate) (s\<lparr>pm_pending := None\<rparr>))
        \<lparr>pm_last_transaction := Some \<lparr>otr_transaction = pn_transaction candidate, otr_phase = phase\<rparr>\<rparr>)"

definition pending_is :: "packet_manager \<Rightarrow> owner_transaction \<Rightarrow> bool" where
  "pending_is s tx \<longleftrightarrow> (case pm_pending s of None \<Rightarrow> False | Some candidate \<Rightarrow> pn_transaction candidate = tx)"

definition last_is :: "packet_manager \<Rightarrow> owner_transaction \<Rightarrow> owner_transaction_phase set \<Rightarrow> bool" where
  "last_is s tx phases \<longleftrightarrow> (case pm_last_transaction s of None \<Rightarrow> False
    | Some latest \<Rightarrow> otr_transaction latest = tx \<and> otr_phase latest \<in> phases)"

section \<open>Owner changes\<close>

definition prepare_duplicate :: "packet_manager \<Rightarrow> owner_transaction \<Rightarrow> bool" where
  "prepare_duplicate s tx \<longleftrightarrow> pending_is s tx \<or> last_is s tx {Phase_Committed}"

definition prepare_identity_conflict :: "packet_manager \<Rightarrow> owner_transaction \<Rightarrow> bool" where
  "prepare_identity_conflict s tx \<longleftrightarrow>
    (case pm_pending s of None \<Rightarrow> False
     | Some candidate \<Rightarrow> tx_id (pn_transaction candidate) = tx_id tx \<and> pn_transaction candidate \<noteq> tx)
    \<or> (case pm_last_transaction s of None \<Rightarrow> False
     | Some latest \<Rightarrow> tx_id (otr_transaction latest) = tx_id tx \<and> otr_transaction latest \<noteq> tx)"

definition stale_binding :: "packet_manager \<Rightarrow> packet_port_binding \<Rightarrow> bool" where
  "stale_binding s b \<longleftrightarrow> pb_owner_epoch b \<le> pm_highest_owner_epoch s
    \<or> pb_policy_generation b < pm_highest_policy_generation s"

definition prepare_deadline_invalid :: "owner_transaction \<Rightarrow> instant \<Rightarrow> bool" where
  "prepare_deadline_invalid tx now \<longleftrightarrow>
    tx_prepare_deadline tx \<le> now \<or> tx_auth_deadline tx \<le> now
    \<or> tx_prepare_deadline tx > tx_auth_deadline tx
    \<or> tx_prepare_deadline tx - now > seconds 30"

definition change_prepare_owner ::
    "manager_env \<Rightarrow> owner_transaction \<Rightarrow> unix_packet_port \<Rightarrow> authorization_check \<Rightarrow> unit manager_op" where
  "change_prepare_owner env tx port authorization s =
    (if \<not> matches_infrastructure port (pm_infrastructure s) \<or> up_binding port \<noteq> tx_binding tx
        \<or> prepare_identity_conflict s tx then (Inl Prepare_Identity_Mismatch, s)
     else if prepare_duplicate s tx then (Inr (), s)
     else if tx_id tx = 0 \<or> tx_revision tx = 0 then (Inl Prepare_Invalid_Identity, s)
     else if tx_revision tx \<le> pm_highest_transaction_revision s then
       (Inl (Prepare_Stale_Revision (tx_revision tx) (pm_highest_transaction_revision s)), s)
     else if length (pm_retired s) \<ge> 8 then (Inl Prepare_Cleanup_Busy, s)
     else if pm_pending s \<noteq> None then (Inl Prepare_Capacity, s)
     else if pm_retained s \<noteq> None then (Inl Prepare_Drain_Pending, s)
     else if active_epoch (pm_owner s) \<noteq> tx_expected_active_epoch tx then
       (Inl (Prepare_Active_Changed (tx_expected_active_epoch tx) (active_epoch (pm_owner s))), s)
     else if stale_binding s (tx_binding tx) then
       (Inl (Prepare_Stale_Epoch (pb_owner_epoch (tx_binding tx)) (pm_highest_owner_epoch s)
         (pb_policy_generation (tx_binding tx)) (pm_highest_policy_generation s)), s)
     else if prepare_deadline_invalid tx (me_now env 0) then (Inl Prepare_Invalid_Deadline, s)
     else (case authorization (me_clock env) of
         Inl e \<Rightarrow> (Inl (Prepare_Unauthorized e), s)
       | Inr _ \<Rightarrow> (Inr (), s\<lparr>pm_highest_transaction_revision := tx_revision tx,
           pm_pending := Some \<lparr>pn_transaction = tx,
             pn_owner = new_owner port (tx_prepare_deadline tx) (Some (tx_auth_deadline tx)) (Some authorization),
             pn_authorization = authorization\<rparr>\<rparr>)))"

definition committed_owner :: "owner_transaction \<Rightarrow> port_owner \<Rightarrow> port_owner" where
  "committed_owner tx o1 = o1\<lparr>ow_auth_deadline := tx_auth_deadline tx, ow_deadline := tx_auth_deadline tx\<rparr>"

definition fence_outbound :: "port_owner \<Rightarrow> port_owner" where
  "fence_outbound o1 = o1\<lparr>ow_fence := False, ow_to_worker_cancelled := True\<rparr>"

definition install_candidate :: "owner_transaction \<Rightarrow> pending_owner \<Rightarrow> packet_manager \<Rightarrow> packet_manager" where
  "install_candidate tx candidate s = s\<lparr>pm_pending := None,
    pm_forced_retirement := False,
    pm_old_owner_drained := (pm_owner s = None),
    pm_retained := (case pm_owner s of None \<Rightarrow> pm_retained s | Some previous \<Rightarrow> Some (fence_outbound previous)),
    pm_highest_owner_epoch := pb_owner_epoch (tx_binding tx),
    pm_highest_policy_generation := pb_policy_generation (tx_binding tx),
    pm_owner := Some (committed_owner tx (pn_owner candidate)),
    pm_output_binding := Some (tx_binding tx),
    pm_last_transaction := Some \<lparr>otr_transaction = tx, otr_phase = Phase_Committed\<rparr>\<rparr>"

definition change_commit_owner :: "manager_env \<Rightarrow> owner_transaction \<Rightarrow> unit manager_op" where
  "change_commit_owner env tx s =
    (if last_is s tx {Phase_Committed} then (Inr (), s)
     else (case pm_pending s of None \<Rightarrow> (Inl Commit_Not_Prepared, s)
       | Some candidate \<Rightarrow>
         if pn_transaction candidate \<noteq> tx then (Inl Commit_Not_Prepared, s)
         else if length (pm_retired s) \<ge> 8 then (Inl Commit_Cleanup_Busy, s)
         else if active_epoch (pm_owner s) \<noteq> tx_expected_active_epoch tx \<or> stale_binding s (tx_binding tx) then
           (Inl (Commit_Active_Changed (tx_expected_active_epoch tx) (active_epoch (pm_owner s))), s)
         else if tx_auth_deadline tx \<le> me_now env 0 \<or> tx_prepare_deadline tx \<le> me_now env 1 then
           (Inl Commit_Expired, s)
         else (case pn_authorization candidate (me_clock env) of
             Inl e \<Rightarrow> (Inl (Commit_Unauthorized e), s)
           | Inr _ \<Rightarrow> if pm_owner s \<noteq> None \<and> me_outbound_pending env \<noteq> 0
               then (Inl Commit_Queue_Pending, s)
               else (Inr (), install_candidate tx candidate s))))"

definition change_finish_owner_drain :: "manager_env \<Rightarrow> owner_transaction \<Rightarrow> unit manager_op" where
  "change_finish_owner_drain env tx s =
    (if \<not> last_is s tx {Phase_Committed} then (Inl Drain_Not_Committed, s)
     else if pm_forced_retirement s then (Inl Drain_Forced_Retirement, s)
     else (case pm_retained s of
         None \<Rightarrow> (Inr (), s\<lparr>pm_old_owner_drained := True\<rparr>)
       | Some previous \<Rightarrow>
         (case rbind (me_input_pending env) (\<lambda>pending. rbind (me_tun_drained env) (\<lambda>drained. Inr (\<not> pending \<and> drained))) of
             Inl e \<Rightarrow> (Inl (Drain_Probe_Failed e), s)
           | Inr drained \<Rightarrow> if drained
               then (Inr (), (retire_owner previous (s\<lparr>pm_retained := None\<rparr>))\<lparr>pm_old_owner_drained := True\<rparr>)
               else (Inl Drain_Queue_Pending, s))))"

definition owner_is_bound :: "packet_manager \<Rightarrow> packet_port_binding \<Rightarrow> bool" where
  "owner_is_bound s b \<longleftrightarrow> map_option owner_binding (pm_owner s) = Some b"

definition change_retire_after_failure :: "manager_env \<Rightarrow> owner_transaction \<Rightarrow> unit manager_op" where
  "change_retire_after_failure env tx s =
    (if \<not> last_is s tx {Phase_Committed} \<or> \<not> owner_is_bound s (tx_binding tx) then
       (Inl Retirement_Not_Committed, s)
     else if tx_prepare_deadline tx > me_now env 0 then (Inl Retirement_Unexpired, s)
     else if pm_old_owner_drained s \<and> pm_retained s = None \<and> \<not> pm_forced_retirement s then
       (Inl Retirement_Already_Drained, s)
     else (Inr (), force_retire s))"

definition change_abort_owner :: "owner_transaction \<Rightarrow> unit manager_op" where
  "change_abort_owner tx s =
    (if pending_is s tx then (Inr (), end_candidate Phase_Aborted s)
     else if last_is s tx {Phase_Aborted, Phase_Expired} then (Inr (), s)
     else if last_is s tx {Phase_Committed} then (Inl Transaction_Already_Committed, s)
     else (Inl Abort_Not_Prepared, s))"

definition change_probe_transaction :: "u128 \<Rightarrow> u64 \<Rightarrow> unit manager_op" where
  "change_probe_transaction tid revision s =
    (if (case pm_pending s of None \<Rightarrow> False
         | Some c \<Rightarrow> tx_id (pn_transaction c) = tid \<and> tx_revision (pn_transaction c) = revision)
        \<or> (case pm_last_transaction s of None \<Rightarrow> False
         | Some l \<Rightarrow> tx_id (otr_transaction l) = tid \<and> tx_revision (otr_transaction l) = revision)
     then (Inr (), s) else (Inl Transaction_Unknown, s))"

definition replace_owner :: "port_owner \<Rightarrow> packet_manager \<Rightarrow> packet_manager" where
  "replace_owner replacement s =
    (case pm_owner s of None \<Rightarrow> s | Some previous \<Rightarrow> retire_owner previous (s\<lparr>pm_owner := None\<rparr>))
    \<lparr>pm_highest_owner_epoch := pb_owner_epoch (owner_binding replacement),
     pm_highest_policy_generation := pb_policy_generation (owner_binding replacement),
     pm_owner := Some replacement,
     pm_output_binding := Some (owner_binding replacement)\<rparr>"

definition check_refuses :: "authorization_check option \<Rightarrow> clock_reading \<Rightarrow> bool" where
  "check_refuses authorization clock = (case authorization of None \<Rightarrow> False | Some check \<Rightarrow> \<not> is_ok (check clock))"

definition change_attach ::
    "manager_env \<Rightarrow> unix_packet_port \<Rightarrow> instant \<Rightarrow> authorization_check option \<Rightarrow> unit manager_op" where
  "change_attach env port auth_deadline authorization s =
    (if \<not> matches_infrastructure port (pm_infrastructure s) then (Inl Attach_Identity_Mismatch, s)
     else if length (pm_retired s) \<ge> 8 then (Inl Attach_Cleanup_Busy, s)
     else if pm_retained s \<noteq> None then (Inl Attach_Drain_Pending, s)
     else if check_refuses authorization (me_clock env) \<or> auth_deadline \<le> me_now env 0
        \<or> stale_binding s (up_binding port) then (Inl Attach_Expired_Or_Stale, s)
     else (Inr (), replace_owner (new_owner port auth_deadline None authorization) s))"

definition change_renew :: "u64 \<Rightarrow> u64 \<Rightarrow> instant \<Rightarrow> unit manager_op" where
  "change_renew owner_epoch policy_generation auth_deadline s =
    (case pm_owner s of None \<Rightarrow> (Inl Renewal_Mismatch, s)
     | Some current \<Rightarrow>
       if owner_epoch = pm_highest_owner_epoch s \<and> policy_generation = pm_highest_policy_generation s
          \<and> auth_deadline > ow_auth_deadline current
          \<and> (case ow_transaction_cap current of None \<Rightarrow> True | Some cap \<Rightarrow> auth_deadline \<le> cap)
       then (Inr (), s\<lparr>pm_owner := Some (current\<lparr>ow_auth_deadline := auth_deadline, ow_deadline := auth_deadline\<rparr>)\<rparr>)
       else (Inl Renewal_Mismatch, s))"

definition change_revoke :: "u64 \<Rightarrow> unit manager_op" where
  "change_revoke owner_epoch s =
    (if owner_epoch \<noteq> pm_highest_owner_epoch s then (Inl Revocation_Stale, s)
     else (Inr (), let s1 = revoke_active s in if pm_retained s1 = None then s1 else force_retire s1))"

fun apply_change :: "manager_env \<Rightarrow> owner_change \<Rightarrow> unit manager_op" where
  "apply_change env (Prepare_Owner tx port authorization) = change_prepare_owner env tx port authorization"
| "apply_change env (Commit_Owner tx) = change_commit_owner env tx"
| "apply_change env (Finish_Owner_Drain tx) = change_finish_owner_drain env tx"
| "apply_change env (Retire_Owner_After_Failure tx) = change_retire_after_failure env tx"
| "apply_change env (Abort_Owner tx) = change_abort_owner tx"
| "apply_change env (Probe_Owner_Transaction tid revision) = change_probe_transaction tid revision"
| "apply_change env (Attach_Port port auth_deadline) = change_attach env port auth_deadline None"
| "apply_change env (Attach_Authorized_Port port auth_deadline authorization) =
     change_attach env port auth_deadline (Some authorization)"
| "apply_change env (Renew_Owner owner_epoch policy_generation auth_deadline) =
     change_renew owner_epoch policy_generation auth_deadline"
| "apply_change env (Revoke_Owner owner_epoch) = change_revoke owner_epoch"
| "apply_change env Probe_Manager = (\<lambda>s. (Inr (), s))"

section \<open>The loop\<close>

datatype manager_event =
  Retired_Joined nat
| Retired_Panicked
| Owner_Expired
| Retained_Expired
| Pending_Expired
| Updates_Closed
| Update_Received bool owner_change
| Owner_Failed bool bool string
| Pending_Inbound_Failed bool string
| Retained_Inbound_Failed bool string
| Sample_Tick
| Tun_Read "string + bytes"
| Worker_Read "string + bytes"
| Retained_Read "string + bytes"
| Candidate_Read "string + bytes"
| Shutdown_Seen

datatype packet_delivery = To_Worker packet_port_binding bytes | To_Tun packet_port_binding bytes

datatype loop_outcome =
  Idle
| Replied "manager_error + unit" packet_port_receipt
| Delivered packet_delivery
| Stopped "string option"

definition initial_manager :: "packet_port_binding \<Rightarrow> packet_manager" where
  "initial_manager infra =
    \<lparr>pm_infrastructure = infra, pm_owner = None, pm_retained = None, pm_old_owner_drained = True,
     pm_forced_retirement = False, pm_pending = None, pm_last_transaction = None,
     pm_highest_transaction_revision = 0, pm_highest_owner_epoch = 0, pm_highest_policy_generation = 0,
     pm_retired = [], pm_control_available = True, pm_worker_failures = 0, pm_no_worker_drops = 0,
     pm_output_binding = None\<rparr>"

definition drop_nth :: "nat \<Rightarrow> 'a list \<Rightarrow> 'a list" where
  "drop_nth i xs = take i xs @ drop (Suc i) xs"

text \<open>
  Which arm of the \<^verbatim>\<open>select!\<close> can fire: a timer only once its deadline has passed, a queue only if it
  exists. The order in which ready arms are polled is left open.
\<close>

fun event_enabled :: "manager_env \<Rightarrow> packet_manager \<Rightarrow> manager_event \<Rightarrow> bool" where
  "event_enabled env s (Retired_Joined i) \<longleftrightarrow> i < length (pm_retired s)"
| "event_enabled env s Retired_Panicked \<longleftrightarrow> pm_retired s \<noteq> []"
| "event_enabled env s Owner_Expired \<longleftrightarrow>
     (case pm_owner s of None \<Rightarrow> False | Some o1 \<Rightarrow> ow_auth_deadline o1 \<le> me_now env 0)"
| "event_enabled env s Retained_Expired \<longleftrightarrow>
     (case pm_retained s of None \<Rightarrow> False | Some o1 \<Rightarrow> ow_auth_deadline o1 \<le> me_now env 0)"
| "event_enabled env s Pending_Expired \<longleftrightarrow>
     (case pm_pending s of None \<Rightarrow> False
      | Some c \<Rightarrow> min (tx_prepare_deadline (pn_transaction c)) (tx_auth_deadline (pn_transaction c)) \<le> me_now env 0)"
| "event_enabled env s Updates_Closed \<longleftrightarrow> pm_control_available s"
| "event_enabled env s (Update_Received closed change) \<longleftrightarrow> pm_control_available s"
| "event_enabled env s (Owner_Failed infrastructure authorization error) \<longleftrightarrow> pm_owner s \<noteq> None"
| "event_enabled env s (Pending_Inbound_Failed authorization error) \<longleftrightarrow> pm_pending s \<noteq> None"
| "event_enabled env s (Retained_Inbound_Failed authorization error) \<longleftrightarrow> pm_retained s \<noteq> None"
| "event_enabled env s Sample_Tick \<longleftrightarrow> True"
| "event_enabled env s (Tun_Read packet) \<longleftrightarrow> True"
| "event_enabled env s (Worker_Read packet) \<longleftrightarrow> pm_owner s \<noteq> None"
| "event_enabled env s (Retained_Read packet) \<longleftrightarrow> pm_retained s \<noteq> None"
| "event_enabled env s (Candidate_Read packet) \<longleftrightarrow> pm_pending s \<noteq> None"
| "event_enabled env s Shutdown_Seen \<longleftrightarrow> True"

definition owner_failed :: "packet_manager \<Rightarrow> packet_manager" where
  "owner_failed s = revoke_active (s\<lparr>pm_worker_failures := pm_worker_failures s + 1\<rparr>)"

text \<open>The predecessor's reader failed: it is stopped in place rather than handed to the join set.\<close>

definition drop_retained :: "packet_manager \<Rightarrow> packet_manager" where
  "drop_retained s = s\<lparr>pm_retained := None, pm_old_owner_drained := False, pm_forced_retirement := True\<rparr>"

fun manager_step :: "manager_env \<Rightarrow> manager_event \<Rightarrow> packet_manager \<Rightarrow> loop_outcome \<times> packet_manager" where
  "manager_step env (Retired_Joined i) s = (Idle, s\<lparr>pm_retired := drop_nth i (pm_retired s)\<rparr>)"
| "manager_step env Retired_Panicked s = (Stopped (Some ''retired writer panicked''), s)"
| "manager_step env Owner_Expired s = (Idle, revoke_active s)"
| "manager_step env Retained_Expired s = (Idle, force_retire s)"
| "manager_step env Pending_Expired s = (Idle, end_candidate Phase_Expired s)"
| "manager_step env Updates_Closed s = (Idle, s\<lparr>pm_control_available := False\<rparr>)"
| "manager_step env (Update_Received closed change) s =
     (if closed then (Idle, s)
      else (case apply_change env change s of (result, s') \<Rightarrow> (Replied result (manager_receipt s'), s')))"
| "manager_step env (Owner_Failed infrastructure authorization error) s =
     (if infrastructure \<and> \<not> authorization then (Stopped (Some error), s) else (Idle, owner_failed s))"
| "manager_step env (Pending_Inbound_Failed authorization error) s =
     (if \<not> authorization then (Stopped (Some error), s) else (Idle, end_candidate Phase_Aborted s))"
| "manager_step env (Retained_Inbound_Failed authorization error) s =
     (if \<not> authorization then (Stopped (Some error), s) else (Idle, force_retire s))"
| "manager_step env Sample_Tick s = (Idle, s)"
| "manager_step env (Tun_Read packet) s = (case packet of
       Inl error \<Rightarrow> (Stopped (Some error), s)
     | Inr data \<Rightarrow> (case pm_owner s of
         None \<Rightarrow> (Idle, s\<lparr>pm_no_worker_drops := pm_no_worker_drops s + 1\<rparr>)
       | Some o1 \<Rightarrow> (Delivered (To_Worker (owner_binding o1) data), s)))"
| "manager_step env (Worker_Read packet) s = (case packet of
       Inl error \<Rightarrow> (Idle, owner_failed s)
     | Inr data \<Rightarrow> (case pm_owner s of
         None \<Rightarrow> (Idle, s) | Some o1 \<Rightarrow> (Delivered (To_Tun (owner_binding o1) data), s)))"
| "manager_step env (Retained_Read packet) s = (case packet of
       Inl error \<Rightarrow> (Idle, drop_retained s)
     | Inr data \<Rightarrow> (case pm_retained s of
         None \<Rightarrow> (Idle, s) | Some o1 \<Rightarrow> (Delivered (To_Tun (owner_binding o1) data), s)))"
| "manager_step env (Candidate_Read packet) s = (case packet of
       Inl error \<Rightarrow> (Idle, end_candidate Phase_Aborted s)
     | Inr data \<Rightarrow> (case pm_pending s of
         None \<Rightarrow> (Idle, s) | Some c \<Rightarrow> (Delivered (To_Tun (owner_binding (pn_owner c)) data), s)))"
| "manager_step env Shutdown_Seen s = (Stopped None, s)"

text \<open>The cleanup after the loop: every owner is fenced, every writer joined.\<close>

definition manager_close :: "packet_manager \<Rightarrow> packet_manager" where
  "manager_close s = (revoke_active s)\<lparr>pm_pending := None, pm_retained := None, pm_retired := []\<rparr>"

inductive manager_moves :: "packet_manager \<Rightarrow> packet_manager \<Rightarrow> bool" where
  move: "event_enabled env s event \<Longrightarrow> manager_step env event s = (outcome, s') \<Longrightarrow>
    (\<And>error. outcome \<noteq> Stopped error) \<Longrightarrow> manager_moves s s'"

end
