(* ===== verification/Port_Manager_Laws.thy ===== *)
theory Port_Manager_Laws
  imports Port_Manager
begin

text \<open>
  The invariant of the packet port manager and its preservation by every owner change and every
  event of the loop, the monotonicity of the three high-water marks, and the abstract lease
  register that the manager refines.
\<close>

named_theorems manager_defs \<open>definitions of the manager's state changes\<close>

section \<open>The invariant\<close>

definition port_sound :: "packet_manager \<Rightarrow> port_owner \<Rightarrow> bool" where
  "port_sound s o1 \<longleftrightarrow> matches_infrastructure (ow_port o1) (pm_infrastructure s)
    \<and> ow_deadline o1 = ow_auth_deadline o1
    \<and> (case ow_transaction_cap o1 of None \<Rightarrow> True | Some cap \<Rightarrow> ow_auth_deadline o1 \<le> cap)"

definition active_sound :: "packet_manager \<Rightarrow> bool" where
  "active_sound s \<longleftrightarrow> pm_output_binding s = map_option owner_binding (pm_owner s)
    \<and> (case pm_owner s of None \<Rightarrow> True
       | Some o1 \<Rightarrow> port_sound s o1 \<and> ow_fence o1 \<and> ow_inbound_fence o1
           \<and> pb_owner_epoch (owner_binding o1) = pm_highest_owner_epoch s
           \<and> pb_policy_generation (owner_binding o1) = pm_highest_policy_generation s)"

definition retained_sound :: "packet_manager \<Rightarrow> bool" where
  "retained_sound s \<longleftrightarrow> (case pm_retained s of None \<Rightarrow> True
    | Some r \<Rightarrow> port_sound s r \<and> \<not> ow_fence r \<and> ow_inbound_fence r \<and> pm_pending s = None
        \<and> pb_owner_epoch (owner_binding r) < pm_highest_owner_epoch s
        \<and> (\<exists>tx. pm_last_transaction s = Some \<lparr>otr_transaction = tx, otr_phase = Phase_Committed\<rparr>
             \<and> tx_expected_active_epoch tx = Some (pb_owner_epoch (owner_binding r))
             \<and> pb_owner_epoch (tx_binding tx) = pm_highest_owner_epoch s))"

definition pending_sound :: "packet_manager \<Rightarrow> bool" where
  "pending_sound s \<longleftrightarrow> (case pm_pending s of None \<Rightarrow> True
    | Some c \<Rightarrow> port_sound s (pn_owner c) \<and> ow_fence (pn_owner c) \<and> ow_inbound_fence (pn_owner c)
        \<and> owner_binding (pn_owner c) = tx_binding (pn_transaction c)
        \<and> tx_revision (pn_transaction c) = pm_highest_transaction_revision s
        \<and> ow_auth_deadline (pn_owner c) = tx_prepare_deadline (pn_transaction c)
        \<and> ow_transaction_cap (pn_owner c) = Some (tx_auth_deadline (pn_transaction c))
        \<and> (case pm_last_transaction s of None \<Rightarrow> True
           | Some l \<Rightarrow> tx_revision (otr_transaction l) < tx_revision (pn_transaction c)))"

definition history_sound :: "packet_manager \<Rightarrow> bool" where
  "history_sound s \<longleftrightarrow> (case pm_last_transaction s of None \<Rightarrow> True
    | Some l \<Rightarrow> tx_revision (otr_transaction l) \<le> pm_highest_transaction_revision s
        \<and> otr_phase l \<noteq> Phase_Prepared)"

definition owner_retired :: "port_owner \<Rightarrow> bool" where
  "owner_retired o1 \<longleftrightarrow> \<not> ow_fence o1 \<and> \<not> ow_inbound_fence o1
    \<and> ow_to_worker_cancelled o1 \<and> ow_to_tun_cancelled o1"

text \<open>Exactly one of: the predecessor is drained, it was retired by force, it is still retained.\<close>

definition drain_status_sound :: "packet_manager \<Rightarrow> bool" where
  "drain_status_sound s \<longleftrightarrow>
    (pm_old_owner_drained s \<longleftrightarrow> pm_retained s = None \<and> \<not> pm_forced_retirement s)
    \<and> (pm_forced_retirement s \<longrightarrow> pm_retained s = None)"

definition writers_bounded :: "packet_manager \<Rightarrow> bool" where
  "writers_bounded s \<longleftrightarrow> length (pm_retired s) + (if pm_pending s = None then 0 else 1)
    + (if pm_retained s = None then 0 else 1) \<le> 9"

definition manager_inv :: "packet_manager \<Rightarrow> bool" where
  "manager_inv s \<longleftrightarrow> active_sound s \<and> retained_sound s \<and> pending_sound s \<and> history_sound s
    \<and> list_all owner_retired (pm_retired s) \<and> drain_status_sound s \<and> writers_bounded s"

lemmas sound_defs = active_sound_def retained_sound_def pending_sound_def history_sound_def
  drain_status_sound_def writers_bounded_def

lemmas update_defs = revoke_active_def retire_owner_def force_retire_def end_candidate_def
  install_candidate_def replace_owner_def drop_retained_def owner_failed_def

section \<open>The building blocks keep the invariant\<close>

lemma port_sound_cong [simp]:
  "port_sound (pm_owner_update f s) o1 = port_sound s o1"
  "port_sound (pm_retained_update g s) o1 = port_sound s o1"
  "port_sound (pm_old_owner_drained_update b s) o1 = port_sound s o1"
  "port_sound (pm_forced_retirement_update b s) o1 = port_sound s o1"
  "port_sound (pm_pending_update h s) o1 = port_sound s o1"
  "port_sound (pm_last_transaction_update k s) o1 = port_sound s o1"
  "port_sound (pm_highest_transaction_revision_update w s) o1 = port_sound s o1"
  "port_sound (pm_highest_owner_epoch_update w s) o1 = port_sound s o1"
  "port_sound (pm_highest_policy_generation_update w s) o1 = port_sound s o1"
  "port_sound (pm_retired_update l s) o1 = port_sound s o1"
  "port_sound (pm_control_available_update b s) o1 = port_sound s o1"
  "port_sound (pm_worker_failures_update w s) o1 = port_sound s o1"
  "port_sound (pm_no_worker_drops_update w s) o1 = port_sound s o1"
  "port_sound (pm_output_binding_update p s) o1 = port_sound s o1"
  by (simp_all add: port_sound_def)

lemma owner_retired_retire [simp]: "owner_retired (owner_retire o1)"
  by (simp add: owner_retired_def owner_retire_def)

lemma inv_initial: "manager_inv (initial_manager infra)"
  by (simp add: manager_inv_def sound_defs initial_manager_def)

lemma inv_revoke_active: "manager_inv s \<Longrightarrow> manager_inv (revoke_active s)"
  by (auto simp: manager_inv_def sound_defs revoke_active_def split: option.splits)

lemma inv_owner_failed: "manager_inv s \<Longrightarrow> manager_inv (owner_failed s)"
  unfolding owner_failed_def
  by (rule inv_revoke_active) (auto simp: manager_inv_def sound_defs split: option.splits)

lemma inv_force_retire: "manager_inv s \<Longrightarrow> manager_inv (force_retire s)"
  by (cases "pm_retained s")
    (auto simp: manager_inv_def sound_defs force_retire_def retire_owner_def split: option.splits)

lemma inv_drop_retained: "manager_inv s \<Longrightarrow> manager_inv (drop_retained s)"
  by (cases "pm_retained s")
    (auto simp: manager_inv_def sound_defs drop_retained_def split: option.splits)

lemma inv_end_candidate:
  assumes "manager_inv s" and "phase \<noteq> Phase_Prepared"
  shows "manager_inv (end_candidate phase s)"
proof (cases "pm_pending s")
  case (Some c)
  with assms(1) have "pm_retained s = None"
    by (auto simp: manager_inv_def retained_sound_def split: option.splits)
  with assms Some show ?thesis
    by (auto simp: manager_inv_def sound_defs end_candidate_def retire_owner_def split: option.splits)
qed (use assms in \<open>simp add: end_candidate_def\<close>)

lemma inv_install_candidate:
  assumes inv: "manager_inv s" and pend: "pm_pending s = Some c" and tx: "pn_transaction c = tx"
    and expected: "active_epoch (pm_owner s) = tx_expected_active_epoch tx"
    and fresh: "\<not> stale_binding s (tx_binding tx)"
  shows "manager_inv (install_candidate tx c s)"
proof -
  have ret: "pm_retained s = None"
    using inv pend by (auto simp: manager_inv_def retained_sound_def split: option.splits)
  have "port_sound s (committed_owner tx (pn_owner c))"
    using inv pend tx
    by (auto simp: manager_inv_def pending_sound_def port_sound_def committed_owner_def)
  moreover have "port_sound s (fence_outbound o1) = port_sound s o1" for o1
    by (simp add: port_sound_def fence_outbound_def split: option.splits)
  ultimately show ?thesis
    using inv pend ret tx expected fresh
    by (auto simp: manager_inv_def sound_defs install_candidate_def committed_owner_def
        fence_outbound_def owner_binding_def active_epoch_def stale_binding_def split: option.splits)
qed

lemma inv_replace_owner:
  assumes inv: "manager_inv s" and sound: "port_sound s o1" and fences: "ow_fence o1" "ow_inbound_fence o1"
    and ret: "pm_retained s = None" and room: "length (pm_retired s) < 8"
  shows "manager_inv (replace_owner o1 s)"
  using assms
  by (auto simp: manager_inv_def sound_defs replace_owner_def retire_owner_def split: option.splits)

lemmas change_defs = change_prepare_owner_def change_commit_owner_def change_finish_owner_drain_def
  change_retire_after_failure_def change_abort_owner_def change_probe_transaction_def
  change_attach_def change_renew_def change_revoke_def

lemma port_sound_new_owner:
  "matches_infrastructure port (pm_infrastructure s) \<Longrightarrow> (case cap of None \<Rightarrow> True | Some c \<Rightarrow> d \<le> c) \<Longrightarrow>
    port_sound s (new_owner port d cap authorization)"
  by (simp add: port_sound_def new_owner_def split: option.splits)

lemma new_owner_sel [simp]:
  "ow_fence (new_owner port d cap a)" "ow_inbound_fence (new_owner port d cap a)"
  "owner_binding (new_owner port d cap a) = up_binding port"
  "ow_auth_deadline (new_owner port d cap a) = d" "ow_transaction_cap (new_owner port d cap a) = cap"
  by (simp_all add: new_owner_def owner_binding_def)

section \<open>Every change keeps the invariant\<close>

lemma inv_prepare:
  assumes "change_prepare_owner env tx port a s = (r, s')" and inv: "manager_inv s"
  shows "manager_inv s'"
proof (cases "s' = s")
  case False
  with assms(1) have guards: "matches_infrastructure port (pm_infrastructure s)" "up_binding port = tx_binding tx"
      "pm_highest_transaction_revision s < tx_revision tx" "length (pm_retired s) < 8"
      "pm_pending s = None" "pm_retained s = None" "tx_prepare_deadline tx \<le> tx_auth_deadline tx"
    and s': "s' = s\<lparr>pm_highest_transaction_revision := tx_revision tx,
           pm_pending := Some \<lparr>pn_transaction = tx,
             pn_owner = new_owner port (tx_prepare_deadline tx) (Some (tx_auth_deadline tx)) (Some a),
             pn_authorization = a\<rparr>\<rparr>"
    by (auto simp: change_prepare_owner_def prepare_deadline_invalid_def split: if_splits sum.splits)
  have "port_sound s (new_owner port (tx_prepare_deadline tx) (Some (tx_auth_deadline tx)) (Some a))"
    using guards by (simp add: port_sound_new_owner)
  with guards inv show ?thesis
    unfolding s' by (auto simp: manager_inv_def sound_defs split: option.splits)
qed (use inv in simp)

lemma inv_commit:
  assumes "change_commit_owner env tx s = (r, s')" and "manager_inv s"
  shows "manager_inv s'"
  using assms inv_install_candidate
  by (auto simp: change_commit_owner_def split: if_splits option.splits sum.splits)

lemma inv_drained:
  assumes "manager_inv s" and "\<not> pm_forced_retirement s"
  shows "pm_retained s = None \<Longrightarrow> manager_inv (s\<lparr>pm_old_owner_drained := True\<rparr>)"
    and "pm_retained s = Some r \<Longrightarrow>
      manager_inv ((retire_owner r (s\<lparr>pm_retained := None\<rparr>))\<lparr>pm_old_owner_drained := True\<rparr>)"
  using assms by (auto simp: manager_inv_def sound_defs retire_owner_def split: option.splits)

lemma inv_finish:
  assumes "change_finish_owner_drain env tx s = (r, s')" and inv: "manager_inv s"
  shows "manager_inv s'"
proof (cases "s' = s")
  case False
  with assms(1) have "\<not> pm_forced_retirement s"
      "pm_retained s = None \<and> s' = s\<lparr>pm_old_owner_drained := True\<rparr>
       \<or> (\<exists>p. pm_retained s = Some p \<and>
           s' = (retire_owner p (s\<lparr>pm_retained := None\<rparr>))\<lparr>pm_old_owner_drained := True\<rparr>)"
    by (auto simp: change_finish_owner_drain_def split: if_splits option.splits sum.splits)
  with inv show ?thesis by (auto simp: inv_drained)
qed (use inv in simp)

lemma inv_attach:
  assumes "change_attach env port d a s = (r, s')" and inv: "manager_inv s"
  shows "manager_inv s'"
proof (cases "s' = s")
  case False
  with assms(1) have "s' = replace_owner (new_owner port d None a) s"
      "matches_infrastructure port (pm_infrastructure s)" "pm_retained s = None" "length (pm_retired s) < 8"
    by (auto simp: change_attach_def split: if_splits)
  with inv show ?thesis by (simp add: inv_replace_owner port_sound_new_owner)
qed (use inv in simp)

lemma inv_extend:
  assumes "manager_inv s" and "pm_owner s = Some o1"
    and "case ow_transaction_cap o1 of None \<Rightarrow> True | Some cap \<Rightarrow> d \<le> cap"
  shows "manager_inv (s\<lparr>pm_owner := Some (o1\<lparr>ow_auth_deadline := d, ow_deadline := d\<rparr>)\<rparr>)"
  using assms by (auto simp: manager_inv_def sound_defs port_sound_def owner_binding_def split: option.splits)

lemma inv_renew:
  assumes "change_renew e g d s = (r, s')" and inv: "manager_inv s"
  shows "manager_inv s'"
proof (cases "s' = s")
  case False
  with assms(1) obtain o1 where "pm_owner s = Some o1"
      "s' = s\<lparr>pm_owner := Some (o1\<lparr>ow_auth_deadline := d, ow_deadline := d\<rparr>)\<rparr>"
      "case ow_transaction_cap o1 of None \<Rightarrow> True | Some cap \<Rightarrow> d \<le> cap"
    by (auto simp: change_renew_def split: if_splits option.splits)
  with inv show ?thesis by (simp add: inv_extend)
qed (use inv in simp)

lemma inv_abort:
  assumes "change_abort_owner tx s = (r, s')" and "manager_inv s"
  shows "manager_inv s'"
  using assms by (auto simp: change_abort_owner_def inv_end_candidate split: if_splits)

lemma inv_retirement:
  assumes "change_retire_after_failure env tx s = (r, s')" and "manager_inv s"
  shows "manager_inv s'"
  using assms by (auto simp: change_retire_after_failure_def inv_force_retire split: if_splits)

lemma inv_revoke:
  assumes "change_revoke e s = (r, s')" and "manager_inv s"
  shows "manager_inv s'"
  using assms
  by (auto simp: change_revoke_def Let_def inv_force_retire inv_revoke_active split: if_splits)

lemmas inv_changes = inv_prepare inv_commit inv_finish inv_attach inv_renew inv_abort inv_retirement inv_revoke

lemma inv_apply_change:
  assumes "apply_change env change s = (r, s')" and "manager_inv s"
  shows "manager_inv s'"
  using assms
  by (cases change)
    (simp_all add: inv_changes change_probe_transaction_def if_eq_cases, blast+)

lemma list_all_drop_nth: "list_all P xs \<Longrightarrow> list_all P (drop_nth i xs)"
  by (auto simp: drop_nth_def list_all_iff dest: in_set_takeD in_set_dropD)

lemma length_drop_nth_le: "length (drop_nth i xs) \<le> length xs"
  by (simp add: drop_nth_def)

lemma inv_fewer_retired:
  assumes "manager_inv s" and "list_all owner_retired xs" and "length xs \<le> length (pm_retired s)"
  shows "manager_inv (s\<lparr>pm_retired := xs\<rparr>)"
  using assms by (auto simp: manager_inv_def sound_defs split: option.splits)

lemma inv_bookkeeping [simp]:
  "manager_inv (s\<lparr>pm_control_available := b\<rparr>) = manager_inv s"
  "manager_inv (s\<lparr>pm_no_worker_drops := w\<rparr>) = manager_inv s"
  by (simp_all add: manager_inv_def sound_defs split: option.splits)

lemma inv_manager_step:
  assumes step: "manager_step env event s = (outcome, s')" and inv: "manager_inv s"
  shows "manager_inv s'"
proof (cases event)
  case (Retired_Joined i)
  have "list_all owner_retired (drop_nth i (pm_retired s))"
    using inv by (simp add: manager_inv_def list_all_drop_nth)
  with Retired_Joined step inv show ?thesis
    by (auto simp: inv_fewer_retired length_drop_nth_le)
next
  case (Update_Received closed change)
  with step inv show ?thesis
    by (cases "apply_change env change s") (auto split: if_splits dest: inv_apply_change)
qed (use assms in \<open>auto simp: inv_revoke_active inv_force_retire inv_end_candidate inv_owner_failed
      inv_drop_retained split: if_splits sum.splits option.splits\<close>)

inductive_cases movesE: "manager_moves s s'"

lemma inv_moves: "manager_moves s s' \<Longrightarrow> manager_inv s \<Longrightarrow> manager_inv s'"
  by (elim movesE) (rule inv_manager_step)

lemma inv_runs: "manager_moves\<^sup>*\<^sup>* s s' \<Longrightarrow> manager_inv s \<Longrightarrow> manager_inv s'"
  by (induction rule: rtranclp_induct) (auto intro: inv_moves)

section \<open>High-water marks\<close>

definition marks_advance :: "packet_manager \<Rightarrow> packet_manager \<Rightarrow> bool" where
  "marks_advance s t \<longleftrightarrow> pm_highest_owner_epoch s \<le> pm_highest_owner_epoch t
    \<and> pm_highest_policy_generation s \<le> pm_highest_policy_generation t
    \<and> pm_highest_transaction_revision s \<le> pm_highest_transaction_revision t
    \<and> pm_infrastructure s = pm_infrastructure t"

lemma marks_advance_refl [simp]: "marks_advance s s"
  by (simp add: marks_advance_def)

lemma marks_advance_trans: "marks_advance s t \<Longrightarrow> marks_advance t u \<Longrightarrow> marks_advance s u"
  by (auto simp: marks_advance_def)

text \<open>The shapes a change can leave behind, apart from the state it found.\<close>

definition staged_state :: "owner_transaction \<Rightarrow> unix_packet_port \<Rightarrow> authorization_check \<Rightarrow> packet_manager \<Rightarrow> packet_manager" where
  "staged_state tx port a s = s\<lparr>pm_highest_transaction_revision := tx_revision tx,
     pm_pending := Some \<lparr>pn_transaction = tx,
       pn_owner = new_owner port (tx_prepare_deadline tx) (Some (tx_auth_deadline tx)) (Some a),
       pn_authorization = a\<rparr>\<rparr>"

lemma prepare_shape:
  assumes "change_prepare_owner env tx port a s = (r, s')"
  shows "s' = s \<and> (r = Inr () \<longrightarrow> prepare_duplicate s tx)
    \<or> r = Inr () \<and> pm_highest_transaction_revision s < tx_revision tx \<and> pm_pending s = None
      \<and> pm_retained s = None \<and> \<not> stale_binding s (tx_binding tx)
      \<and> active_epoch (pm_owner s) = tx_expected_active_epoch tx \<and> up_binding port = tx_binding tx
      \<and> \<not> prepare_deadline_invalid tx (me_now env 0) \<and> is_ok (a (me_clock env))
      \<and> s' = staged_state tx port a s"
  using assms unfolding change_prepare_owner_def staged_state_def
  by (cases "a (me_clock env)") (simp_all add: if_eq_cases, fastforce+)

lemmas prepare_cases = prepare_shape [THEN disjE, consumes 1, case_names kept staged]

lemma commit_shape:
  assumes "change_commit_owner env tx s = (r, s')"
  shows "s' = s \<and> (r = Inr () \<longrightarrow> last_is s tx {Phase_Committed})
    \<or> (\<exists>c. r = Inr () \<and> pm_pending s = Some c \<and> pn_transaction c = tx
      \<and> \<not> stale_binding s (tx_binding tx) \<and> active_epoch (pm_owner s) = tx_expected_active_epoch tx
      \<and> me_now env 0 < tx_auth_deadline tx \<and> me_now env 1 < tx_prepare_deadline tx
      \<and> is_ok (pn_authorization c (me_clock env)) \<and> (pm_owner s = None \<or> me_outbound_pending env = 0)
      \<and> s' = install_candidate tx c s)"
proof (cases "pm_pending s")
  case (Some c)
  with assms show ?thesis
    unfolding change_commit_owner_def
    by (cases "pn_authorization c (me_clock env)") (simp_all add: if_eq_cases not_le, fastforce+)
qed (use assms in \<open>auto simp: change_commit_owner_def split: if_splits\<close>)

lemmas commit_cases = commit_shape [THEN disjE, consumes 1, case_names kept installed]

lemma attach_shape:
  assumes "change_attach env port d a s = (r, s')"
  shows "s' = s \<and> r \<noteq> Inr ()
    \<or> r = Inr () \<and> \<not> stale_binding s (up_binding port) \<and> pm_retained s = None
      \<and> me_now env 0 < d \<and> \<not> check_refuses a (me_clock env)
      \<and> s' = replace_owner (new_owner port d None a) s"
  using assms unfolding change_attach_def by (simp add: if_eq_cases not_le) fastforce

lemmas attach_cases = attach_shape [THEN disjE, consumes 1, case_names kept attached]

lemma marks_update [simp]:
  "marks_advance s (revoke_active s)" "marks_advance s (force_retire s)" "marks_advance s (drop_retained s)"
  "marks_advance s (end_candidate phase s)" "marks_advance s (owner_failed s)"
  by (simp_all add: marks_advance_def update_defs split: option.splits)

lemma marks_install [simp]:
  "\<not> stale_binding s (tx_binding tx) \<Longrightarrow> marks_advance s (install_candidate tx c s)"
  by (auto simp: marks_advance_def install_candidate_def stale_binding_def)

lemma marks_replace [simp]:
  "\<not> stale_binding s (owner_binding o1) \<Longrightarrow> marks_advance s (replace_owner o1 s)"
  by (auto simp: marks_advance_def replace_owner_def retire_owner_def stale_binding_def split: option.splits)

lemma marks_prepare: "change_prepare_owner env tx port a s = (r, s') \<Longrightarrow> marks_advance s s'"
  by (erule prepare_cases) (auto simp: marks_advance_def staged_state_def)

lemma marks_commit: "change_commit_owner env tx s = (r, s') \<Longrightarrow> marks_advance s s'"
  by (erule commit_cases) auto

lemma marks_attach: "change_attach env port d a s = (r, s') \<Longrightarrow> marks_advance s s'"
  by (erule attach_cases) auto

lemma marks_finish: "change_finish_owner_drain env tx s = (r, s') \<Longrightarrow> marks_advance s s'"
  by (auto simp: change_finish_owner_drain_def marks_advance_def retire_owner_def
      split: if_splits option.splits sum.splits)

lemma marks_others:
  "change_renew e g d s = (r, s') \<Longrightarrow> marks_advance s s'"
  "change_abort_owner tx s = (r, s') \<Longrightarrow> marks_advance s s'"
  "change_retire_after_failure env tx s = (r, s') \<Longrightarrow> marks_advance s s'"
  "change_probe_transaction i v s = (r, s') \<Longrightarrow> marks_advance s s'"
  by (auto simp: change_renew_def change_abort_owner_def change_retire_after_failure_def
      change_probe_transaction_def marks_advance_def [of s "pm_owner_update f s" for f]
      split: if_splits option.splits)

lemma marks_revoke: "change_revoke e s = (r, s') \<Longrightarrow> marks_advance s s'"
  by (auto simp: change_revoke_def Let_def intro: marks_advance_trans [OF marks_update(1) marks_update(2)]
      split: if_splits)

lemma marks_apply_change: "apply_change env change s = (r, s') \<Longrightarrow> marks_advance s s'"
  by (cases change)
    (simp_all add: marks_prepare marks_commit marks_attach marks_finish marks_others marks_revoke)

lemma marks_manager_step: "manager_step env event s = (outcome, s') \<Longrightarrow> marks_advance s s'"
proof (cases event)
  case (Update_Received closed change)
  moreover assume "manager_step env event s = (outcome, s')"
  ultimately show ?thesis
    by (cases "apply_change env change s") (auto split: if_splits dest: marks_apply_change)
qed (auto split: if_splits sum.splits option.splits simp: marks_advance_def [of s "pm_retired_update f s" for f]
      marks_advance_def [of s "pm_control_available_update f s" for f]
      marks_advance_def [of s "pm_no_worker_drops_update f s" for f])

lemma marks_moves: "manager_moves s s' \<Longrightarrow> marks_advance s s'"
  by (elim movesE) (rule marks_manager_step)

section \<open>What an accepted change establishes\<close>

lemma prepare_accepted:
  "change_prepare_owner env tx port a s = (Inr (), s') \<Longrightarrow> pending_is s' tx \<or> last_is s' tx {Phase_Committed}"
  by (erule prepare_cases) (auto simp: prepare_duplicate_def pending_is_def staged_state_def)

lemma commit_accepted: "change_commit_owner env tx s = (Inr (), s') \<Longrightarrow> last_is s' tx {Phase_Committed}"
  by (erule commit_cases) (auto simp: last_is_def install_candidate_def)

lemma abort_accepted: "change_abort_owner tx s = (Inr (), s') \<Longrightarrow> last_is s' tx {Phase_Aborted, Phase_Expired}"
  by (auto simp: change_abort_owner_def end_candidate_def pending_is_def last_is_def retire_owner_def
      split: if_splits option.splits)

lemma attach_accepted:
  "change_attach env port d a s = (Inr (), s') \<Longrightarrow>
    pm_owner s' = Some (new_owner port d None a) \<and> pm_highest_owner_epoch s' = pb_owner_epoch (up_binding port)
    \<and> pm_highest_policy_generation s' = pb_policy_generation (up_binding port)"
  by (erule attach_cases) (auto simp: replace_owner_def)

lemma revoke_accepted: "change_revoke e s = (Inr (), s') \<Longrightarrow> pm_owner s' = None \<and> pm_retained s' = None"
  by (auto simp: change_revoke_def Let_def revoke_active_def force_retire_def retire_owner_def
      split: if_splits option.splits)

end
