(* ===== verification/Port_Lease.thy ===== *)
theory Port_Lease
  imports Port_Manager_Laws
begin

text \<open>
  What the packet port manager promises, without ports, candidates and queues: a register that
  holds at most one leased binding and grants a new one only under a higher owner epoch. The
  manager's loop is shown to implement it, and the properties of owner hand-over follow from the
  register's.
\<close>

section \<open>The lease register\<close>

record lease =
  ls_holder :: "(packet_port_binding \<times> instant) option"
  ls_epoch :: u64
  ls_policy :: u64

inductive lease_step :: "lease \<Rightarrow> lease \<Rightarrow> bool" where
  skip: "lease_step l l"
| grant: "ls_epoch l < pb_owner_epoch b \<Longrightarrow> ls_policy l \<le> pb_policy_generation b \<Longrightarrow>
    lease_step l \<lparr>ls_holder = Some (b, d), ls_epoch = pb_owner_epoch b, ls_policy = pb_policy_generation b\<rparr>"
| extend: "ls_holder l = Some (b, d) \<Longrightarrow> d < d' \<Longrightarrow> lease_step l (l\<lparr>ls_holder := Some (b, d')\<rparr>)"
| release: "lease_step l (l\<lparr>ls_holder := None\<rparr>)"

definition register_ok :: "lease \<Rightarrow> bool" where
  "register_ok l \<longleftrightarrow> (case ls_holder l of None \<Rightarrow> True | Some (b, d) \<Rightarrow> pb_owner_epoch b = ls_epoch l)"

text \<open>\<open>b\<close> is still held, or every later holder has a higher epoch.\<close>

definition superseded :: "packet_port_binding \<Rightarrow> lease \<Rightarrow> bool" where
  "superseded b l \<longleftrightarrow> pb_owner_epoch b \<le> ls_epoch l
    \<and> (case ls_holder l of None \<Rightarrow> True | Some (c, _) \<Rightarrow> c = b \<or> pb_owner_epoch b < pb_owner_epoch c)"

lemma register_ok_step: "lease_step l l' \<Longrightarrow> register_ok l \<Longrightarrow> register_ok l'"
  by (induction rule: lease_step.induct) (auto simp: register_ok_def)

lemma superseded_step: "lease_step l l' \<Longrightarrow> superseded b l \<Longrightarrow> superseded b l'"
  by (induction rule: lease_step.induct) (auto simp: superseded_def)

lemma superseded_holder: "register_ok l \<Longrightarrow> ls_holder l = Some (b, d) \<Longrightarrow> superseded b l"
  by (auto simp: register_ok_def superseded_def)

section \<open>Implementations of the register\<close>

locale lease_register =
  fixes moves :: "'s \<Rightarrow> 's \<Rightarrow> bool" and good :: "'s \<Rightarrow> bool" and view :: "'s \<Rightarrow> lease"
  assumes good_kept: "good s \<Longrightarrow> moves s t \<Longrightarrow> good t"
    and good_view: "good s \<Longrightarrow> register_ok (view s)"
    and refines: "good s \<Longrightarrow> moves s t \<Longrightarrow> lease_step (view s) (view t)"
begin

lemma good_runs: "moves\<^sup>*\<^sup>* s t \<Longrightarrow> good s \<Longrightarrow> good t"
  by (induction rule: rtranclp_induct) (auto intro: good_kept)

lemma runs_refine: "moves\<^sup>*\<^sup>* s t \<Longrightarrow> good s \<Longrightarrow> lease_step\<^sup>*\<^sup>* (view s) (view t)"
  by (induction rule: rtranclp_induct) (auto intro: rtranclp.rtrancl_into_rtrancl refines good_runs)

lemma superseded_runs: "moves\<^sup>*\<^sup>* s t \<Longrightarrow> good s \<Longrightarrow> superseded b (view s) \<Longrightarrow> superseded b (view t)"
  by (induction rule: rtranclp_induct) (auto intro: superseded_step refines good_runs)

lemma epoch_not_reused:
  assumes "moves\<^sup>*\<^sup>* s t" and "good s" and "ls_holder (view s) = Some (a, d)" and "ls_holder (view t) = Some (b, e)"
  shows "b = a \<or> pb_owner_epoch a < pb_owner_epoch b"
  using superseded_runs [OF assms(1,2) superseded_holder [OF good_view [OF assms(2)] assms(3)]] assms(4)
  by (simp add: superseded_def)

lemma revoked_stays_revoked:
  assumes "moves\<^sup>*\<^sup>* s t" and "good s" and "ls_holder (view s) = None" and "ls_holder (view t) = Some (b, e)"
  shows "ls_epoch (view s) < pb_owner_epoch b"
proof -
  have "lease_step\<^sup>*\<^sup>* (view s) (view t)" using assms by (blast intro: runs_refine)
  then have "ls_epoch (view s) \<le> ls_epoch (view t)
      \<and> (case ls_holder (view t) of None \<Rightarrow> True | Some (c, _) \<Rightarrow> ls_epoch (view s) < pb_owner_epoch c)"
  proof (induction rule: rtranclp_induct)
    case (step l l')
    from step.hyps(2) step.IH show ?case
      by (induction rule: lease_step.induct) auto
  qed (simp add: assms(3))
  with assms(4) show ?thesis by simp
qed

end

section \<open>The manager implements it\<close>

definition manager_lease :: "packet_manager \<Rightarrow> lease" where
  "manager_lease s = \<lparr>ls_holder = map_option (\<lambda>o1. (owner_binding o1, ow_auth_deadline o1)) (pm_owner s),
    ls_epoch = pm_highest_owner_epoch s, ls_policy = pm_highest_policy_generation s\<rparr>"

lemma manager_register_ok: "manager_inv s \<Longrightarrow> register_ok (manager_lease s)"
  by (auto simp: manager_inv_def active_sound_def register_ok_def manager_lease_def split: option.splits)

lemma lease_unchanged:
  "pm_owner s' = pm_owner s \<Longrightarrow> pm_highest_owner_epoch s' = pm_highest_owner_epoch s \<Longrightarrow>
    pm_highest_policy_generation s' = pm_highest_policy_generation s \<Longrightarrow> lease_step (manager_lease s) (manager_lease s')"
  by (simp add: manager_lease_def lease_step.skip)

lemma lease_released:
  "pm_owner s' = None \<Longrightarrow> pm_highest_owner_epoch s' = pm_highest_owner_epoch s \<Longrightarrow>
    pm_highest_policy_generation s' = pm_highest_policy_generation s \<Longrightarrow> lease_step (manager_lease s) (manager_lease s')"
  using lease_step.release [of "manager_lease s"] by (simp add: manager_lease_def)

lemma lease_kept:
  assumes "pm_owner s' = pm_owner s \<or> pm_owner s' = None"
    and "pm_highest_owner_epoch s' = pm_highest_owner_epoch s"
    and "pm_highest_policy_generation s' = pm_highest_policy_generation s"
  shows "lease_step (manager_lease s) (manager_lease s')"
  using assms lease_unchanged lease_released by blast

lemma lease_granted:
  assumes "pm_owner s' = Some o1" and "pm_highest_owner_epoch s' = pb_owner_epoch (owner_binding o1)"
    and "pm_highest_policy_generation s' = pb_policy_generation (owner_binding o1)"
    and "\<not> stale_binding s (owner_binding o1)"
  shows "lease_step (manager_lease s) (manager_lease s')"
  using assms lease_step.grant [of "manager_lease s" "owner_binding o1" "ow_auth_deadline o1"]
  by (simp add: manager_lease_def stale_binding_def not_le not_less)

lemma end_candidate_sel [simp]:
  "pm_owner (end_candidate phase s) = pm_owner s"
  "pm_highest_owner_epoch (end_candidate phase s) = pm_highest_owner_epoch s"
  "pm_highest_policy_generation (end_candidate phase s) = pm_highest_policy_generation s"
  by (simp_all add: end_candidate_def retire_owner_def split: option.splits)

lemma force_retire_sel [simp]:
  "pm_owner (force_retire s) = pm_owner s"
  "pm_highest_owner_epoch (force_retire s) = pm_highest_owner_epoch s"
  "pm_highest_policy_generation (force_retire s) = pm_highest_policy_generation s"
  by (simp_all add: force_retire_def retire_owner_def split: option.splits)

lemma revoke_active_sel [simp]:
  "pm_owner (revoke_active s) = None"
  "pm_highest_owner_epoch (revoke_active s) = pm_highest_owner_epoch s"
  "pm_highest_policy_generation (revoke_active s) = pm_highest_policy_generation s"
  by (simp_all add: revoke_active_def)

lemma lease_prepare:
  "change_prepare_owner env tx port a s = (r, s') \<Longrightarrow> lease_step (manager_lease s) (manager_lease s')"
  by (erule prepare_cases) (auto intro!: lease_unchanged simp: staged_state_def)

lemma lease_commit:
  assumes "change_commit_owner env tx s = (r, s')" and inv: "manager_inv s"
  shows "lease_step (manager_lease s) (manager_lease s')"
  using assms(1)
proof (cases rule: commit_cases)
  case installed
  then obtain c where c: "pm_pending s = Some c" "pn_transaction c = tx" "\<not> stale_binding s (tx_binding tx)"
    "s' = install_candidate tx c s" by blast
  have "owner_binding (committed_owner tx (pn_owner c)) = tx_binding tx"
    using inv c by (auto simp: manager_inv_def pending_sound_def committed_owner_def owner_binding_def)
  with c show ?thesis
    by (intro lease_granted [of _ "committed_owner tx (pn_owner c)"]) (simp_all add: install_candidate_def)
qed (simp add: lease_step.skip)

lemma lease_attach:
  "change_attach env port d a s = (r, s') \<Longrightarrow> lease_step (manager_lease s) (manager_lease s')"
  by (erule attach_cases, simp add: lease_step.skip)
    (rule lease_granted [of _ "new_owner port d None a"]; simp add: replace_owner_def)

lemma lease_renew:
  assumes "change_renew e g d s = (r, s')"
  shows "lease_step (manager_lease s) (manager_lease s')"
proof (cases "s' = s")
  case False
  with assms obtain o1 where "pm_owner s = Some o1" "ow_auth_deadline o1 < d"
      "s' = s\<lparr>pm_owner := Some (o1\<lparr>ow_auth_deadline := d, ow_deadline := d\<rparr>)\<rparr>"
    by (auto simp: change_renew_def split: if_splits option.splits)
  with lease_step.extend [of "manager_lease s" "owner_binding o1" "ow_auth_deadline o1" d] show ?thesis
    by (simp add: manager_lease_def owner_binding_def)
qed (simp add: lease_step.skip)

lemma lease_finish:
  "change_finish_owner_drain env tx s = (r, s') \<Longrightarrow> lease_step (manager_lease s) (manager_lease s')"
  by (rule lease_unchanged; auto simp: change_finish_owner_drain_def retire_owner_def
      split: if_splits option.splits sum.splits)

lemma lease_others:
  "change_abort_owner tx s = (r, s') \<Longrightarrow> lease_step (manager_lease s) (manager_lease s')"
  "change_retire_after_failure env tx s = (r, s') \<Longrightarrow> lease_step (manager_lease s) (manager_lease s')"
  "change_probe_transaction i v s = (r, s') \<Longrightarrow> lease_step (manager_lease s) (manager_lease s')"
  by (rule lease_unchanged; auto simp: change_abort_owner_def change_retire_after_failure_def
      change_probe_transaction_def split: if_splits)+

lemma lease_revoke: "change_revoke e s = (r, s') \<Longrightarrow> lease_step (manager_lease s) (manager_lease s')"
  by (auto simp: change_revoke_def Let_def intro!: lease_kept split: if_splits)

lemma lease_apply_change:
  "apply_change env change s = (r, s') \<Longrightarrow> manager_inv s \<Longrightarrow> lease_step (manager_lease s) (manager_lease s')"
  by (cases change)
    (simp_all add: lease_prepare lease_commit lease_attach lease_finish lease_renew lease_others
      lease_revoke lease_step.skip)

lemma lease_manager_step:
  assumes "manager_step env event s = (outcome, s')" and inv: "manager_inv s"
  shows "lease_step (manager_lease s) (manager_lease s')"
proof (cases event)
  case (Update_Received closed change)
  with assms show ?thesis
    by (cases "apply_change env change s") (auto split: if_splits intro: lease_apply_change lease_step.skip)
qed (use assms in \<open>auto intro!: lease_kept simp: owner_failed_def drop_retained_def
      split: if_splits sum.splits option.splits\<close>)

interpretation port: lease_register manager_moves manager_inv manager_lease
proof
  show "manager_inv t" if "manager_inv s" "manager_moves s t" for s t
    using that by (blast intro: inv_moves)
  show "register_ok (manager_lease s)" if "manager_inv s" for s
    using that by (rule manager_register_ok)
  show "lease_step (manager_lease s) (manager_lease t)" if "manager_inv s" "manager_moves s t" for s t
    using that(2,1) by (elim movesE) (rule lease_manager_step)
qed

end
