(* ===== verification/Port_Properties.thy ===== *)
theory Port_Properties
  imports Port_Lease
begin

text \<open>
  Properties of owner hand-over that hold in every state the packet port manager can reach: which
  owners can still write, that owner epochs are never reused, that an ended transaction stays ended
  and that a drain receipt is earned. A sample hand-over from one owner to the next witnesses them.
\<close>

section \<open>Ended transactions\<close>

definition transaction_over :: "owner_transaction \<Rightarrow> packet_manager \<Rightarrow> bool" where
  "transaction_over tx s \<longleftrightarrow> tx_revision tx \<le> pm_highest_transaction_revision s \<and> \<not> pending_is s tx
    \<and> \<not> last_is s tx {Phase_Committed}"

lemma over_kept:
  assumes "transaction_over tx s" and "pm_highest_transaction_revision s \<le> pm_highest_transaction_revision s'"
    and "pm_pending s' = pm_pending s \<or> pm_pending s' = None" and "pm_last_transaction s' = pm_last_transaction s"
  shows "transaction_over tx s'"
  using assms by (auto simp: transaction_over_def pending_is_def last_is_def)

lemma over_end_candidate:
  "transaction_over tx s \<Longrightarrow> phase \<noteq> Phase_Committed \<Longrightarrow> transaction_over tx (end_candidate phase s)"
  by (auto simp: transaction_over_def pending_is_def last_is_def end_candidate_def retire_owner_def split: option.splits)

lemma over_prepare:
  assumes "change_prepare_owner env tx' port a s = (r, s')" and "transaction_over tx s"
  shows "transaction_over tx s'"
  using assms(1)
proof (cases rule: prepare_cases)
  case staged
  with assms(2) have "tx' \<noteq> tx" by (auto simp: transaction_over_def)
  with staged assms(2) show ?thesis
    by (auto simp: transaction_over_def pending_is_def last_is_def staged_state_def)
qed (use assms(2) in simp)

lemma over_commit:
  assumes "change_commit_owner env tx' s = (r, s')" and "transaction_over tx s"
  shows "transaction_over tx s'"
  using assms(1)
proof (cases rule: commit_cases)
  case installed
  then obtain c where "pm_pending s = Some c" "pn_transaction c = tx'" "s' = install_candidate tx' c s" by blast
  with assms(2) show ?thesis
    by (auto simp: transaction_over_def pending_is_def last_is_def install_candidate_def)
qed (use assms(2) in simp)

lemma over_attach:
  "change_attach env port d a s = (r, s') \<Longrightarrow> transaction_over tx s \<Longrightarrow> transaction_over tx s'"
  by (erule attach_cases)
    (auto elim!: over_kept simp: replace_owner_def retire_owner_def split: option.splits)

lemma over_finish:
  "change_finish_owner_drain env tx' s = (r, s') \<Longrightarrow> transaction_over tx s \<Longrightarrow> transaction_over tx s'"
  by (erule over_kept) (auto simp: change_finish_owner_drain_def retire_owner_def
      split: if_splits option.splits sum.splits)

lemma force_retire_history [simp]:
  "pm_pending (force_retire s) = pm_pending s" "pm_last_transaction (force_retire s) = pm_last_transaction s"
  "pm_highest_transaction_revision (force_retire s) = pm_highest_transaction_revision s"
  by (simp_all add: force_retire_def retire_owner_def split: option.splits)

lemma over_others:
  "change_renew e g d s = (r, s') \<Longrightarrow> transaction_over tx s \<Longrightarrow> transaction_over tx s'"
  "change_retire_after_failure env tx' s = (r, s') \<Longrightarrow> transaction_over tx s \<Longrightarrow> transaction_over tx s'"
  "change_probe_transaction i v s = (r, s') \<Longrightarrow> transaction_over tx s \<Longrightarrow> transaction_over tx s'"
  "change_revoke e s = (r, s') \<Longrightarrow> transaction_over tx s \<Longrightarrow> transaction_over tx s'"
  by (erule over_kept; auto simp: change_renew_def change_retire_after_failure_def change_probe_transaction_def
      change_revoke_def revoke_active_def Let_def split: if_splits option.splits)+

lemma over_abort:
  "change_abort_owner tx' s = (r, s') \<Longrightarrow> transaction_over tx s \<Longrightarrow> transaction_over tx s'"
  by (auto simp: change_abort_owner_def over_end_candidate split: if_splits)

lemma over_apply_change:
  "apply_change env change s = (r, s') \<Longrightarrow> transaction_over tx s \<Longrightarrow> transaction_over tx s'"
  by (cases change)
    (auto dest: over_prepare over_commit over_attach over_finish over_others over_abort)

lemma over_updates:
  "transaction_over tx (revoke_active s) = transaction_over tx s"
  "transaction_over tx (force_retire s) = transaction_over tx s"
  "transaction_over tx (owner_failed s) = transaction_over tx s"
  "transaction_over tx (drop_retained s) = transaction_over tx s"
  "transaction_over tx (s\<lparr>pm_retired := xs\<rparr>) = transaction_over tx s"
  "transaction_over tx (s\<lparr>pm_control_available := b\<rparr>) = transaction_over tx s"
  "transaction_over tx (s\<lparr>pm_no_worker_drops := w\<rparr>) = transaction_over tx s"
  by (simp_all add: transaction_over_def pending_is_def last_is_def revoke_active_def owner_failed_def drop_retained_def)

lemma over_manager_step:
  assumes "manager_step env event s = (outcome, s')" and over: "transaction_over tx s"
  shows "transaction_over tx s'"
proof (cases event)
  case (Update_Received closed change)
  with assms show ?thesis
    by (cases "apply_change env change s") (auto split: if_splits dest: over_apply_change)
qed (use assms in \<open>auto simp: over_end_candidate over_updates split: if_splits sum.splits option.splits\<close>)

lemma over_runs: "manager_moves\<^sup>*\<^sup>* s t \<Longrightarrow> transaction_over tx s \<Longrightarrow> transaction_over tx t"
  by (induction rule: rtranclp_induct) (auto elim!: movesE dest: over_manager_step)

section \<open>Drain receipts\<close>

text \<open>What must have been observed when the manager starts to report its predecessor as drained.\<close>

definition drain_earned :: "manager_env \<Rightarrow> manager_event \<Rightarrow> packet_manager \<Rightarrow> bool" where
  "drain_earned env event s \<longleftrightarrow>
    (case event of
       Update_Received False (Finish_Owner_Drain tx) \<Rightarrow>
         last_is s tx {Phase_Committed} \<and> me_input_pending env = Inr False \<and> me_tun_drained env = Inr True
     | Update_Received False (Commit_Owner tx) \<Rightarrow> pm_owner s = None \<and> pending_is s tx
     | _ \<Rightarrow> False)"

lemma drain_end_candidate [simp]: "pm_old_owner_drained (end_candidate phase s) = pm_old_owner_drained s"
  by (simp add: end_candidate_def retire_owner_def split: option.splits)

lemma drain_force_retire [simp]: "\<not> pm_old_owner_drained (force_retire s)"
  by (simp add: force_retire_def)

lemma drain_finish:
  assumes "change_finish_owner_drain env tx s = (r, s')" and "manager_inv s"
    and "\<not> pm_old_owner_drained s" and "pm_old_owner_drained s'"
  shows "last_is s tx {Phase_Committed} \<and> me_input_pending env = Inr False \<and> me_tun_drained env = Inr True"
proof -
  have "pm_forced_retirement s \<or> pm_retained s \<noteq> None"
    using assms(2,3) by (auto simp: manager_inv_def drain_status_sound_def)
  with assms(1,3,4) show ?thesis
    by (auto simp: change_finish_owner_drain_def rbind_eq_Inr split: if_splits option.splits sum.splits)
qed

lemma drain_prepare:
  "change_prepare_owner env tx port a s = (r, s') \<Longrightarrow> pm_old_owner_drained s' = pm_old_owner_drained s"
  by (erule prepare_cases) (auto simp: staged_state_def)

lemma drain_attach:
  "change_attach env port d oa s = (r, s') \<Longrightarrow> pm_old_owner_drained s' = pm_old_owner_drained s"
  by (erule attach_cases) (auto simp: replace_owner_def retire_owner_def split: option.splits)

lemma drain_kept:
  "change_renew e g d s = (r, s') \<Longrightarrow> pm_old_owner_drained s' = pm_old_owner_drained s"
  "change_abort_owner tx s = (r, s') \<Longrightarrow> pm_old_owner_drained s' = pm_old_owner_drained s"
  "change_probe_transaction i v s = (r, s') \<Longrightarrow> pm_old_owner_drained s' = pm_old_owner_drained s"
  by (auto simp: change_renew_def change_abort_owner_def change_probe_transaction_def
      split: if_splits option.splits)

lemma drain_lost:
  "change_retire_after_failure env tx s = (r, s') \<Longrightarrow> pm_old_owner_drained s' \<Longrightarrow> pm_old_owner_drained s"
  "change_revoke e s = (r, s') \<Longrightarrow> pm_old_owner_drained s' \<Longrightarrow> pm_old_owner_drained s"
  by (auto simp: change_retire_after_failure_def change_revoke_def Let_def revoke_active_def split: if_splits)

lemma drain_commit:
  "change_commit_owner env tx s = (r, s') \<Longrightarrow> \<not> pm_old_owner_drained s \<Longrightarrow> pm_old_owner_drained s' \<Longrightarrow>
    pm_owner s = None \<and> pending_is s tx"
  by (erule commit_cases) (auto simp: install_candidate_def pending_is_def)

lemma drain_earned_step:
  assumes step: "manager_step env event s = (outcome, s')" and inv: "manager_inv s"
    and "\<not> pm_old_owner_drained s" and "pm_old_owner_drained s'"
  shows "drain_earned env event s"
proof (cases event)
  case (Update_Received closed change)
  with step assms(3,4) have "\<not> closed" and applied: "apply_change env change s = (fst (apply_change env change s), s')"
    by (auto split: if_splits prod.splits)
  with Update_Received inv assms(3,4) show ?thesis
    by (cases change) (auto simp: drain_earned_def dest: drain_finish drain_commit drain_prepare drain_attach drain_kept drain_lost)
qed (use assms in \<open>auto simp: owner_failed_def drop_retained_def revoke_active_def
      split: if_splits sum.splits option.splits\<close>)

section \<open>A sample hand-over\<close>

definition sample_binding :: "u64 \<Rightarrow> packet_port_binding" where
  "sample_binding e = \<lparr>pb_infrastructure_id = 1, pb_routing_domain_id = 2, pb_infrastructure_generation = 3,
    pb_io_epoch = 4, pb_owner_epoch = e, pb_policy_generation = 7\<rparr>"

definition sample_port :: "u64 \<Rightarrow> unix_packet_port" where
  "sample_port e = \<lparr>up_binding = sample_binding e, up_role = Infrastructure_Role\<rparr>"

definition always_authorized :: authorization_check where
  "always_authorized clock = Inr ()"

definition sample_clock :: clock_reading where
  "sample_clock = \<lparr>clk_boot_ms = Inr 1000, clk_wall = Inr 1000\<rparr>"

definition sample_env :: "instant \<Rightarrow> manager_env" where
  "sample_env now = \<lparr>me_now = (\<lambda>_. now), me_clock = sample_clock, me_outbound_pending = 0,
    me_input_pending = Inr False, me_tun_drained = Inr True\<rparr>"

definition sample_transaction :: owner_transaction where
  "sample_transaction = \<lparr>tx_id = 9, tx_revision = 1, tx_expected_active_epoch = Some 1,
    tx_binding = sample_binding 2, tx_auth_deadline = 200, tx_prepare_deadline = 100\<rparr>"

definition sample_port_owner :: "u64 \<Rightarrow> port_owner" where
  "sample_port_owner e = new_owner (sample_port e) 150 None None"

definition manager_attached :: packet_manager where
  "manager_attached = (initial_manager (sample_binding 1))\<lparr>pm_owner := Some (sample_port_owner 1),
    pm_highest_owner_epoch := 1, pm_highest_policy_generation := 7, pm_output_binding := Some (sample_binding 1)\<rparr>"

definition manager_staged :: packet_manager where
  "manager_staged = staged_state sample_transaction (sample_port 2) always_authorized manager_attached"

definition sample_candidate :: pending_owner where
  "sample_candidate = \<lparr>pn_transaction = sample_transaction,
    pn_owner = new_owner (sample_port 2) 100 (Some 200) (Some always_authorized),
    pn_authorization = always_authorized\<rparr>"

definition manager_committed :: packet_manager where
  "manager_committed = install_candidate sample_transaction sample_candidate manager_staged"

lemmas port_samples = sample_binding_def sample_port_def always_authorized_def sample_clock_def sample_env_def
  sample_transaction_def sample_port_owner_def sample_candidate_def

lemma moves_update:
  assumes "apply_change env change s = (r, s')" and "pm_control_available s"
  shows "manager_moves s s'"
  using assms manager_moves.move [of env s "Update_Received False change" "Replied r (manager_receipt s')" s'] by simp

lemma later_epoch [simp]: "\<not> (2 :: u64) \<le> 1"
  by (simp add: word_le_nat_alt)

lemma attach_sample: "manager_moves (initial_manager (sample_binding 1)) manager_attached"
  by (rule moves_update [of "sample_env 10" "Attach_Port (sample_port 1) 150" _ "Inr ()"])
    (simp_all add: change_attach_def port_samples initial_manager_def matches_infrastructure_def check_refuses_def
      stale_binding_def replace_owner_def manager_attached_def new_owner_def owner_binding_def)

lemma stage_sample: "manager_moves manager_attached manager_staged"
  by (rule moves_update [of "sample_env 20" "Prepare_Owner sample_transaction (sample_port 2) always_authorized" _ "Inr ()"])
    (simp_all add: change_prepare_owner_def port_samples initial_manager_def matches_infrastructure_def
      stale_binding_def manager_attached_def manager_staged_def staged_state_def new_owner_def owner_binding_def
      prepare_identity_conflict_def prepare_duplicate_def pending_is_def last_is_def active_epoch_def
      prepare_deadline_invalid_def seconds_def)

lemma commit_sample: "manager_moves manager_staged manager_committed"
  by (rule moves_update [of "sample_env 30" "Commit_Owner sample_transaction" _ "Inr ()"])
    (simp_all add: change_commit_owner_def port_samples initial_manager_def
      stale_binding_def manager_attached_def manager_staged_def manager_committed_def staged_state_def new_owner_def
      owner_binding_def last_is_def active_epoch_def)

lemma sample_runs:
  "manager_moves\<^sup>*\<^sup>* (initial_manager (sample_binding 1)) manager_attached"
  "manager_moves\<^sup>*\<^sup>* (initial_manager (sample_binding 1)) manager_staged"
  "manager_moves\<^sup>*\<^sup>* manager_attached manager_committed"
  "manager_moves\<^sup>*\<^sup>* (initial_manager (sample_binding 1)) manager_committed"
  using attach_sample stage_sample commit_sample by (auto intro: converse_rtranclp_into_rtranclp)

section \<open>Properties\<close>

definition every_owner :: "packet_manager \<Rightarrow> port_owner list" where
  "every_owner s = (case pm_owner s of None \<Rightarrow> [] | Some o1 \<Rightarrow> [o1])
    @ (case pm_retained s of None \<Rightarrow> [] | Some o1 \<Rightarrow> [o1])
    @ (case pm_pending s of None \<Rightarrow> [] | Some c \<Rightarrow> [pn_owner c]) @ pm_retired s"

lemma manager_reachable_inv: "manager_moves\<^sup>*\<^sup>* (initial_manager infra) s \<Longrightarrow> manager_inv s"
  by (erule inv_runs) (rule inv_initial)

lemma send_allowed:
  "deadline_try_send fence a d clk now w = Inr True \<Longrightarrow>
    fence \<and> now < d \<and> (\<forall>check. a = Some check \<longrightarrow> is_ok (check clk))"
  by (auto simp: deadline_try_send_def while_active_def rbind_eq_Inr is_ok_iff split: if_splits option.splits)

lemma live_owner:
  assumes "manager_inv s" and "o1 \<in> set (every_owner s)" and "ow_fence o1 \<or> ow_inbound_fence o1"
  shows "port_sound s o1 \<and> (pm_owner s = Some o1 \<or> map_option pn_owner (pm_pending s) = Some o1
    \<or> pm_retained s = Some o1 \<and> \<not> ow_fence o1)"
  using assms
  by (auto simp: every_owner_def manager_inv_def active_sound_def retained_sound_def pending_sound_def
      owner_retired_def list_all_iff split: option.splits)

text \<open>
  C4: in every reachable state, of all owners the manager still knows (active, predecessor, candidate
  and the retired ones whose writers are not yet joined), only the active owner and the staged
  candidate can put a packet on their worker port, and only they and the retained predecessor can
  put one on the TUN; each of them only before its authorisation deadline and before the
  immutable cap of its transaction, and only while its authorisation callback agrees.
\<close>

theorem only_current_owners_write:
  assumes "manager_moves\<^sup>*\<^sup>* (initial_manager infra) s" and "o1 \<in> set (every_owner s)"
    and "owner_send_to_worker o1 clk now w = Inr True \<or> owner_send_to_tun o1 clk now w = Inr True"
  shows "(pm_owner s = Some o1 \<or> map_option pn_owner (pm_pending s) = Some o1
      \<or> pm_retained s = Some o1 \<and> owner_send_to_worker o1 clk now w \<noteq> Inr True)
    \<and> now < ow_auth_deadline o1
    \<and> (\<forall>cap. ow_transaction_cap o1 = Some cap \<longrightarrow> now < cap)
    \<and> (\<forall>check. ow_authorization o1 = Some check \<longrightarrow> is_ok (check clk))"
proof -
  have sends: "(ow_fence o1 \<or> ow_inbound_fence o1) \<and> now < ow_deadline o1
      \<and> (\<forall>check. ow_authorization o1 = Some check \<longrightarrow> is_ok (check clk))"
    using assms(3) by (auto simp: owner_send_to_worker_def owner_send_to_tun_def dest!: send_allowed)
  have "owner_send_to_worker o1 clk now w \<noteq> Inr True" if "\<not> ow_fence o1"
    using that by (simp add: owner_send_to_worker_def deadline_try_send_def while_active_def)
  with sends live_owner [OF manager_reachable_inv [OF assms(1)] assms(2)] show ?thesis
    by (auto simp: port_sound_def)
qed

theorem only_current_owners_write_witness:
  "pm_owner manager_attached = Some (sample_port_owner 1) \<and> (140 :: nat) < 150
    \<and> owner_send_to_worker (sample_port_owner 1) sample_clock 140 (Inr True) = Inr True"
proof -
  have sends: "owner_send_to_worker (sample_port_owner 1) sample_clock 140 (Inr True) = Inr True"
    by (simp add: owner_send_to_worker_def deadline_try_send_def while_active_def sample_port_owner_def new_owner_def)
  have "sample_port_owner 1 \<in> set (every_owner manager_attached)"
    by (simp add: every_owner_def manager_attached_def)
  from only_current_owners_write [OF sample_runs(1) this disjI1 [OF sends]] sends show ?thesis
    by (simp add: manager_attached_def sample_port_owner_def initial_manager_def)
qed

text \<open>
  C5: the manager's loop refines the lease register: whatever sequence of owner changes, expiries and
  failures it goes through, its active owner, deadline and high-water marks move only by granting
  the lease to a strictly higher owner epoch, extending the deadline of the holder, or releasing.
\<close>

theorem manager_refines_lease:
  assumes "manager_moves\<^sup>*\<^sup>* (initial_manager infra) s" and "manager_moves\<^sup>*\<^sup>* s t"
  shows "lease_step\<^sup>*\<^sup>* (manager_lease s) (manager_lease t)"
  by (rule port.runs_refine [OF assms(2) manager_reachable_inv [OF assms(1)]])

theorem manager_refines_lease_witness:
  "lease_step\<^sup>*\<^sup>* (manager_lease manager_attached) (manager_lease manager_committed)"
  by (rule manager_refines_lease [OF sample_runs(1) sample_runs(3)])

text \<open>
  owner epochs are never reused. If one owner is active in a reachable state and another in a later
  one, the later has the same binding or a strictly higher owner epoch; and an owner active after
  a state without one has an epoch above every epoch ever granted before.
\<close>

theorem owner_epochs_never_reused:
  assumes "manager_moves\<^sup>*\<^sup>* (initial_manager infra) s" and "manager_moves\<^sup>*\<^sup>* s t" and "pm_owner t = Some b"
  shows "(\<forall>a. pm_owner s = Some a \<longrightarrow> owner_binding b = owner_binding a
      \<or> pb_owner_epoch (owner_binding a) < pb_owner_epoch (owner_binding b))
    \<and> (pm_owner s = None \<longrightarrow> pm_highest_owner_epoch s < pb_owner_epoch (owner_binding b))"
  using port.epoch_not_reused [OF assms(2) manager_reachable_inv [OF assms(1)]]
    port.revoked_stays_revoked [OF assms(2) manager_reachable_inv [OF assms(1)]] assms(3)
  by (auto simp: manager_lease_def)

theorem owner_epochs_never_reused_witness:
  "pb_owner_epoch (sample_binding 1) < pb_owner_epoch (sample_binding 2)
    \<and> (\<exists>b. pm_owner manager_committed = Some b \<and> owner_binding b = sample_binding 2)"
proof -
  obtain b where b: "pm_owner manager_committed = Some b" "owner_binding b = sample_binding 2"
    by (simp add: manager_committed_def install_candidate_def committed_owner_def owner_binding_def
        sample_candidate_def new_owner_def sample_port_def)
  have a: "pm_owner manager_attached = Some (sample_port_owner 1)" "owner_binding (sample_port_owner 1) = sample_binding 1"
    by (simp_all add: manager_attached_def sample_port_owner_def sample_port_def)
  have "sample_binding 2 \<noteq> sample_binding 1" by (simp add: sample_binding_def)
  with owner_epochs_never_reused [OF sample_runs(1) sample_runs(3) b(1)] a b show ?thesis by auto
qed

text \<open>
  a candidate that was aborted or that expired stays ended: in no later state is its transaction
  staged again or committed, whatever is prepared, replayed or committed in between.
\<close>

theorem ended_transaction_never_owns:
  assumes "manager_moves\<^sup>*\<^sup>* (initial_manager infra) s" and "last_is s tx {Phase_Aborted, Phase_Expired}"
    and "manager_moves\<^sup>*\<^sup>* s t"
  shows "\<not> pending_is t tx \<and> \<not> last_is t tx {Phase_Committed}"
proof -
  have "transaction_over tx s"
    using assms(2) manager_reachable_inv [OF assms(1)]
    by (auto simp: transaction_over_def last_is_def pending_is_def manager_inv_def history_sound_def
        pending_sound_def split: option.splits)
  from over_runs [OF assms(3) this] show ?thesis by (simp add: transaction_over_def)
qed

theorem ended_transaction_never_owns_witness:
  "\<not> pending_is (end_candidate Phase_Aborted manager_staged) sample_transaction
    \<and> \<not> last_is (end_candidate Phase_Aborted manager_staged) sample_transaction {Phase_Committed}"
proof -
  have staged: "pm_pending manager_staged = Some sample_candidate" "pm_control_available manager_staged"
    by (simp_all add: manager_staged_def staged_state_def manager_attached_def initial_manager_def
        sample_candidate_def sample_transaction_def)
  then have "manager_moves manager_staged (end_candidate Phase_Aborted manager_staged)"
    by (intro moves_update [of "sample_env 30" "Abort_Owner sample_transaction" _ "Inr ()"])
      (simp_all add: change_abort_owner_def pending_is_def sample_candidate_def)
  with sample_runs(2) have "manager_moves\<^sup>*\<^sup>* (initial_manager (sample_binding 1)) (end_candidate Phase_Aborted manager_staged)"
    by (rule rtranclp.rtrancl_into_rtrancl)
  moreover have "last_is (end_candidate Phase_Aborted manager_staged) sample_transaction {Phase_Aborted, Phase_Expired}"
    using staged by (simp add: end_candidate_def last_is_def sample_candidate_def)
  ultimately show ?thesis by (rule ended_transaction_never_owns) simp
qed

text \<open>
  the manager never reports its predecessor as drained by inference. When the flag rises, the
  event was the exact committed transaction's drain request and both the predecessor's port had
  no unread input and its TUN queue had delivered everything, or a commit that had no predecessor.
\<close>

theorem drain_receipt_is_earned:
  assumes "manager_moves\<^sup>*\<^sup>* (initial_manager infra) s" and "manager_step env event s = (outcome, t)"
    and "\<not> pm_old_owner_drained s" and "pm_old_owner_drained t"
  shows "drain_earned env event s"
  by (rule drain_earned_step [OF assms(2) manager_reachable_inv [OF assms(1)] assms(3,4)])

theorem drain_receipt_is_earned_witness:
  "drain_earned (sample_env 40) (Update_Received False (Finish_Owner_Drain sample_transaction)) manager_committed"
proof -
  have "\<not> pm_old_owner_drained manager_committed"
    by (simp add: manager_committed_def install_candidate_def manager_staged_def staged_state_def manager_attached_def)
  moreover have "pm_old_owner_drained (snd (manager_step (sample_env 40)
      (Update_Received False (Finish_Owner_Drain sample_transaction)) manager_committed))"
    by (simp add: manager_committed_def install_candidate_def manager_staged_def staged_state_def
        manager_attached_def change_finish_owner_drain_def last_is_def sample_env_def)
  ultimately show ?thesis
    by (rule drain_receipt_is_earned [OF sample_runs(4) prod.collapse [symmetric]])
qed

text \<open>
  the writers that are still being stopped are bounded: at every moment at most nine retired owners
  wait to be joined, and the manager holds at most one candidate or one predecessor, never both.
\<close>

theorem retired_writers_are_bounded:
  assumes "manager_moves\<^sup>*\<^sup>* (initial_manager infra) s"
  shows "length (pm_retired s) \<le> 9 \<and> (pm_pending s = None \<or> pm_retained s = None)"
  using manager_reachable_inv [OF assms]
  by (auto simp: manager_inv_def writers_bounded_def retained_sound_def split: option.splits if_splits)

theorem retired_writers_are_bounded_witness:
  "length (pm_retired manager_committed) \<le> 9 \<and> (pm_pending manager_committed = None \<or> pm_retained manager_committed = None)"
  by (rule retired_writers_are_bounded [OF sample_runs(4)])

end
