(* ===== verification/Tunio_Control.thy ===== *)
theory Tunio_Control
  imports Port_Properties
begin

text \<open>
  The controller of \<^verbatim>\<open>candy-tunio\<close> (\<^verbatim>\<open>control.rs\<close>): the record shared by its three control sockets, the
  status file it publishes, the channel to the packet port manager, and the supervision requests
  (probe, takeover, stop) and registration that decide which process may control the owner.

  The world of the control threads is the controller, the manager, the last published status and
  a counter of the readings taken so far: \<open>th_boot host n\<close> is what the \<open>n\<close>-th reading returns if it is
  of the boot clock, and likewise for the other clocks, \<^verbatim>\<open>/proc\<close>, the status file and the channel.
  A theorem for all hosts is a theorem for every behaviour of clocks, processes, disk and channel.
\<close>

section \<open>Data\<close>

record process_identity =
  pi_pid :: u32
  pi_start_ticks :: u64

record authority_envelope =
  ae_transaction_id :: string
  ae_authority_revision :: u64
  ae_binding :: packet_port_binding
  ae_candidate :: process_identity
  ae_controller :: process_identity
  ae_controller_epoch :: u64
  ae_signed_control_hash :: string
  ae_declaration_hash :: string
  ae_verification_report_hash :: string
  ae_snapshot_closure_hash :: string
  ae_signed_min_expiry_unix :: u64
  ae_effective_expiry_unix :: u64
  ae_verified_at_unix :: u64
  ae_verified_at_mono_ms :: u64
  ae_effective_deadline_mono_ms :: u64
  ae_boot_id :: string

record owner_authority =
  oa_envelope :: authority_envelope
  oa_transaction :: owner_transaction
  oa_expected_active_binding :: "packet_port_binding option"
  oa_requested_prepare_deadline_mono_ms :: u64
  oa_prepared :: bool

record authority_owner_receipt =
  ar_transaction_id :: string
  ar_authority_revision :: u64
  ar_phase :: string
  ar_binding :: packet_port_binding
  ar_expected_active_epoch :: "u64 option"
  ar_authorization_cap_mono_ms :: u64
  ar_requested_prepare_deadline_mono_ms :: u64

record authority_state =
  as_highest_revision :: u64
  as_highest_policy_generation :: u64
  as_highest_owner_epoch :: u64
  as_pending :: "authority_envelope option"
  as_active :: "authority_envelope option"
  as_actual_deadline_mono_ms :: "u64 option"
  as_actual_owner_binding :: "packet_port_binding option"
  as_owner_highest_revision :: u64
  as_owner_pending :: "authority_owner_receipt option"
  as_owner_last_transaction :: "authority_owner_receipt option"
  as_owner_candidate :: "owner_authority option"
  as_owner_terminal :: "(owner_authority \<times> owner_transaction_phase) option"
  as_retained_owner_binding :: "packet_port_binding option"
  as_old_owner_drained :: bool
  as_forced_retirement :: bool
  as_precommit_cancelled :: "authority_envelope option"
  as_isolated_committed :: "authority_envelope option"
  as_retired_expired_commit :: "authority_envelope option"

record tunio_controller =
  co_process :: process_identity
  co_controller :: process_identity
  co_epoch :: u64
  co_token :: string
  co_generation :: u64
  co_auth_deadline_unix :: u64
  co_binding :: packet_port_binding
  co_owner_active :: bool
  co_registered :: bool
  co_registration :: "bool option"
  co_authority :: authority_state

definition default_authority :: authority_state where
  "default_authority = \<lparr>as_highest_revision = 0, as_highest_policy_generation = 0, as_highest_owner_epoch = 0,
    as_pending = None, as_active = None, as_actual_deadline_mono_ms = None, as_actual_owner_binding = None,
    as_owner_highest_revision = 0, as_owner_pending = None, as_owner_last_transaction = None,
    as_owner_candidate = None, as_owner_terminal = None, as_retained_owner_binding = None,
    as_old_owner_drained = False, as_forced_retirement = False, as_precommit_cancelled = None,
    as_isolated_committed = None, as_retired_expired_commit = None\<rparr>"

section \<open>The host and the channel to the manager\<close>

text \<open>
  One exchange on the update channel: what the manager does before it sees the update, whether the
  bounded queue refuses it, whether the manager takes it while the acknowledgement is still open,
  and whether the acknowledgement and the receipt are read before the request's deadline.
\<close>

record owner_link =
  lk_before :: "(manager_env \<times> manager_event) list"
  lk_queue_error :: "string option"
  lk_env :: manager_env
  lk_taken :: bool
  lk_acknowledged :: bool
  lk_receipt_read :: bool

text \<open>What the kernel reports of a descriptor received with a request.\<close>

record descriptor =
  fd_is_datagram :: "string + bool"
  fd_is_unix :: "string + unit"
  fd_connected :: "string + unit"
  fd_credentials :: "string + (u32 \<times> int)"
  fd_set_nonblocking :: "string + unit"
  fd_registered :: "string + unit"

record tunio_host =
  th_instant :: "nat \<Rightarrow> instant"
  th_boot :: "nat \<Rightarrow> string + u64"
  th_wall :: "nat \<Rightarrow> string + duration"
  th_boot_id :: "nat \<Rightarrow> string + string"
  th_is_current :: "nat \<Rightarrow> process_identity \<Rightarrow> bool"
  th_is_current_confirmed :: "nat \<Rightarrow> process_identity \<Rightarrow> string + bool"
  th_parent_guard :: "nat \<Rightarrow> string + bool"
  th_deadline_passed :: "nat \<Rightarrow> bool"
  th_publish :: "nat \<Rightarrow> string + unit"
  th_sync_parent :: "nat \<Rightarrow> string + unit"
  th_link :: "nat \<Rightarrow> owner_link"
  th_sha256_hex :: "string \<Rightarrow> string"
  th_euid :: u32

record tunio_world =
  tw_controller :: tunio_controller
  tw_manager :: packet_manager
  tw_status :: "tunio_controller option"
  tw_readings :: nat

text \<open>\<open>Code c\<close> is a \<^verbatim>\<open>bail!\<close> whose message carries \<^verbatim>\<open>code=c\<close>.\<close>

datatype tunio_error = Code string | Manager_Rejected manager_error | Host_Error string

type_synonym 'a tunio_op = "(tunio_world, tunio_error, 'a) action"

definition reading :: "(nat \<Rightarrow> 'a) \<Rightarrow> 'a tunio_op" where
  "reading f w = (Inr (f (tw_readings w)), w\<lparr>tw_readings := Suc (tw_readings w)\<rparr>)"

definition fallible_reading :: "(nat \<Rightarrow> string + 'a) \<Rightarrow> 'a tunio_op" where
  "fallible_reading f w = (map_err Host_Error (f (tw_readings w)), w\<lparr>tw_readings := Suc (tw_readings w)\<rparr>)"

definition controller_of :: "tunio_controller tunio_op" where
  "controller_of w = (Inr (tw_controller w), w)"

definition update_controller :: "(tunio_controller \<Rightarrow> tunio_controller) \<Rightarrow> unit tunio_op" where
  "update_controller f w = (Inr (), w\<lparr>tw_controller := f (tw_controller w)\<rparr>)"

definition update_authority :: "(authority_state \<Rightarrow> authority_state) \<Rightarrow> unit tunio_op" where
  "update_authority f = update_controller (\<lambda>c. c\<lparr>co_authority := f (co_authority c)\<rparr>)"

definition reject_if :: "bool \<Rightarrow> string \<Rightarrow> unit tunio_op" where
  "reject_if b code w = ((if b then Inl (Code code) else Inr ()), w)"

text \<open>
  \<open>publish\<close> writes the whole controller to a temporary file, syncs it and renames it over the status
  file: the status is the controller when that succeeds and is untouched when any step fails.
\<close>

definition publish :: "tunio_host \<Rightarrow> unit tunio_op" where
  "publish H w = (case th_publish H (tw_readings w) of
      Inl e \<Rightarrow> (Inl (Host_Error e), w\<lparr>tw_readings := Suc (tw_readings w)\<rparr>)
    | Inr _ \<Rightarrow> (Inr (), w\<lparr>tw_status := Some (tw_controller w), tw_readings := Suc (tw_readings w)\<rparr>))"

text \<open>
  What the manager does between two updates of the request at hand: anything but other updates. The
  only one that can come between is a revocation sent by the boot clock guard, which does not hold
  the controller's lock.
\<close>

fun own_event :: "manager_event \<Rightarrow> bool" where
  "own_event (Update_Received closed (Revoke_Owner owner_epoch)) = True"
| "own_event (Update_Received closed change) = closed"
| "own_event event = True"

fun settle :: "(manager_env \<times> manager_event) list \<Rightarrow> packet_manager \<Rightarrow> packet_manager" where
  "settle [] s = s"
| "settle ((env, event) # rest) s =
    (if own_event event \<and> event_enabled env s event
     then (case manager_step env event s of
         (Stopped _, _) \<Rightarrow> s
       | (_, s') \<Rightarrow> settle rest s')
     else settle rest s)"

text \<open>
  An update whose acknowledgement was given up is skipped by the manager; one that the manager took
  before the deadline may still have been applied when the controller stops waiting. The receipt is
  waited for only when the update asked for one.
\<close>

definition manager_exchange ::
    "tunio_host \<Rightarrow> bool \<Rightarrow> owner_change \<Rightarrow> ((manager_error + unit) \<times> packet_port_receipt) tunio_op" where
  "manager_exchange H wants_receipt change w =
    (let link = th_link H (tw_readings w);
         s1 = settle (lk_before link) (tw_manager w);
         w1 = w\<lparr>tw_manager := s1, tw_readings := Suc (tw_readings w)\<rparr>
     in case lk_queue_error link of
         Some e \<Rightarrow> (Inl (Host_Error e), w1)
       | None \<Rightarrow> if \<not> (lk_taken link \<and> pm_control_available s1) then (Inl (Code ''packet_control_deadline''), w1)
         else (case apply_change (lk_env link) change s1 of (result, s2) \<Rightarrow>
           ((if lk_acknowledged link \<and> (wants_receipt \<longrightarrow> lk_receipt_read link) then Inr (result, manager_receipt s2)
             else Inl (Code ''packet_control_deadline'')), w1\<lparr>tw_manager := s2\<rparr>)))"

definition manager_outcome :: "tunio_host \<Rightarrow> owner_change \<Rightarrow> ((manager_error + unit) \<times> packet_port_receipt) tunio_op" where
  "manager_outcome H = manager_exchange H True"

definition manager_change :: "tunio_host \<Rightarrow> owner_change \<Rightarrow> packet_port_receipt tunio_op" where
  "manager_change H change = bind (manager_outcome H change) (\<lambda>(result, actual).
    andthen (of_result (map_err Manager_Rejected result)) (return actual))"

section \<open>Supervision requests\<close>

definition lower_hex_digit :: "char \<Rightarrow> bool" where
  "lower_hex_digit c \<longleftrightarrow> c \<in> set ''0123456789abcdef''"

definition hex :: "string \<Rightarrow> nat \<Rightarrow> bool" where
  "hex v n \<longleftrightarrow> length v = n \<and> list_all lower_hex_digit v"

definition ascii_hex_digit :: "char \<Rightarrow> bool" where
  "ascii_hex_digit c \<longleftrightarrow> c \<in> set ''0123456789abcdefABCDEF''"

datatype control_operation = Control_Probe | Control_Takeover | Control_Stop

record control_request =
  cr_schema_version :: u8
  cr_operation :: control_operation
  cr_token_sha256 :: string
  cr_nonce :: string

record control_response =
  cp_schema_version :: u8
  cp_process :: process_identity
  cp_controller :: process_identity
  cp_controller_epoch :: u64
  cp_nonce :: string
  cp_accepted :: bool
  cp_code :: string

definition control_authorized :: "tunio_host \<Rightarrow> tunio_controller \<Rightarrow> control_request \<Rightarrow> bool" where
  "control_authorized H c q \<longleftrightarrow> cr_schema_version q = 1
    \<and> cr_token_sha256 q = th_sha256_hex H (co_token c)
    \<and> length (cr_nonce q) = 32 \<and> list_all ascii_hex_digit (cr_nonce q)"

definition control_probe :: "tunio_host \<Rightarrow> process_identity \<Rightarrow> (bool \<times> bool \<times> string) tunio_op" where
  "control_probe H peer = bind controller_of (\<lambda>c.
    andthen (if peer = co_controller c
        then bind (reading (th_is_current H)) (\<lambda>current.
          if current peer then update_controller (\<lambda>c. c\<lparr>co_registration := map_option (\<lambda>_. True) (co_registration c)\<rparr>)
          else return ())
        else return ())
      (return (True, False, ''process_probed'')))"

text \<open>The publication of a takeover may fail: then the previous controller and epoch are restored.\<close>

definition control_adopt :: "tunio_host \<Rightarrow> process_identity \<Rightarrow> (bool \<times> bool \<times> string) tunio_op" where
  "control_adopt H peer = bind controller_of (\<lambda>c.
    case checked_add (co_epoch c) 1 of
      None \<Rightarrow> return (False, False, ''controller_epoch_exhausted'')
    | Some epoch \<Rightarrow>
        andthen (update_controller (\<lambda>c. c\<lparr>co_controller := peer, co_epoch := epoch\<rparr>))
          (bind (attempt (publish H)) (\<lambda>published.
            if is_ok published then return (True, False, ''controller_adopted'')
            else andthen (update_controller (\<lambda>d. d\<lparr>co_controller := co_controller c, co_epoch := co_epoch c\<rparr>))
              (return (False, False, ''controller_record_unavailable'')))))"

definition control_takeover :: "tunio_host \<Rightarrow> process_identity \<Rightarrow> (bool \<times> bool \<times> string) tunio_op" where
  "control_takeover H peer = bind controller_of (\<lambda>c.
    if \<not> co_registered c then return (False, False, ''registration_incomplete'')
    else if peer = co_controller c then return (True, False, ''controller_current'')
    else bind (reading (th_is_current H)) (\<lambda>current.
      if current (co_controller c) then return (False, False, ''previous_controller_alive'')
      else control_adopt H peer))"

definition control_stop :: "process_identity \<Rightarrow> (bool \<times> bool \<times> string) tunio_op" where
  "control_stop peer = bind controller_of (\<lambda>c.
    if peer = co_controller c then return (True, True, ''controller_stop'')
    else return (False, False, ''controller_identity_mismatch''))"

fun control_dispatch :: "tunio_host \<Rightarrow> process_identity \<Rightarrow> control_operation \<Rightarrow> (bool \<times> bool \<times> string) tunio_op" where
  "control_dispatch H peer Control_Probe = control_probe H peer"
| "control_dispatch H peer Control_Takeover = control_takeover H peer"
| "control_dispatch H peer Control_Stop = control_stop peer"

definition control_request_handler ::
    "tunio_host \<Rightarrow> process_identity \<Rightarrow> control_request \<Rightarrow> (control_response \<times> bool) tunio_op" where
  "control_request_handler H peer q = bind controller_of (\<lambda>c0.
    bind (if control_authorized H c0 q then control_dispatch H peer (cr_operation q)
          else return (False, False, ''control_capability_invalid'')) (\<lambda>(accepted, stop, code).
    bind controller_of (\<lambda>c.
      return (\<lparr>cp_schema_version = 1, cp_process = co_process c, cp_controller = co_controller c,
        cp_controller_epoch = co_epoch c, cp_nonce = cr_nonce q, cp_accepted = accepted, cp_code = code\<rparr>, stop))))"

section \<open>Start and registration\<close>

definition started_controller ::
    "process_identity \<Rightarrow> process_identity \<Rightarrow> string \<Rightarrow> u64 \<Rightarrow> u64 \<Rightarrow> packet_port_binding \<Rightarrow> tunio_controller" where
  "started_controller process parent token generation auth_deadline_unix binding =
    \<lparr>co_process = process, co_controller = parent, co_epoch = 1, co_token = token, co_generation = generation,
     co_auth_deadline_unix = auth_deadline_unix, co_binding = binding, co_owner_active = True,
     co_registered = False, co_registration = Some False, co_authority = default_authority\<rparr>"

text \<open>
  \<open>registration_wait\<close> runs once the first probe of the starting controller was seen
  (\<^verbatim>\<open>ControlRegistration::wait\<close>): the parent must be alive before and after its death signal is cleared.
\<close>

definition registration_wait :: "tunio_host \<Rightarrow> unit tunio_op" where
  "registration_wait H = bind controller_of (\<lambda>c.
    andthen (reject_if (co_registration c \<noteq> Some True) ''registration_not_confirmed'')
    (bind (reading (th_is_current H)) (\<lambda>current.
    andthen (reject_if (\<not> current (co_controller c)) ''controller_exited'')
    (bind (fallible_reading (th_parent_guard H)) (\<lambda>same_parent.
    andthen (reject_if (\<not> same_parent) ''registration_parent_changed'')
    (bind (reading (th_is_current H)) (\<lambda>current.
    andthen (reject_if (\<not> current (co_controller c)) ''controller_exited'')
    (andthen (update_controller (\<lambda>c. c\<lparr>co_registered := True, co_registration := None\<rparr>))
      (publish H)))))))))"

end
