(* ===== verification/Tunio_Authority.thy ===== *)
theory Tunio_Authority
  imports Tunio_Control
begin

text \<open>
  The authority socket of \<^verbatim>\<open>candy-tunio\<close> (\<^verbatim>\<open>authority_control.rs\<close>): verified authorisation envelopes are
  staged, and the owner is attached, prepared, committed, drained, aborted or revoked through the
  packet port manager. The controller believes only receipts of the manager's actual state.
\<close>

section \<open>Requests\<close>

datatype authority_operation =
  Stage_Authority
| Probe_Transaction
| Attach_Authorized
| Revoke_Exact
| Discard_Authority
| Prepare_Owner_Operation "u64 option" u64
| Commit_Owner_Operation
| Finish_Owner_Drain_Operation
| Retire_Owner_After_Failure_Operation
| Abort_Owner_Operation
| Recover_Precommit packet_port_binding
| Isolate_Committed_Owner packet_port_binding
| Retire_Expired_Commit packet_port_binding

record authority_request =
  aq_schema_version :: u8
  aq_process :: process_identity
  aq_controller :: process_identity
  aq_controller_epoch :: u64
  aq_token_sha256 :: string
  aq_nonce :: string
  aq_operation :: authority_operation
  aq_envelope :: "authority_envelope option"
  aq_transaction_id :: string

fun phase_name :: "owner_transaction_phase \<Rightarrow> string" where
  "phase_name Phase_Prepared = ''prepared''"
| "phase_name Phase_Committed = ''committed''"
| "phase_name Phase_Aborted = ''aborted''"
| "phase_name Phase_Expired = ''expired''"

definition owner_authority_receipt :: "owner_authority \<Rightarrow> owner_transaction_phase \<Rightarrow> authority_owner_receipt" where
  "owner_authority_receipt r phase =
    \<lparr>ar_transaction_id = ae_transaction_id (oa_envelope r), ar_authority_revision = tx_revision (oa_transaction r),
     ar_phase = phase_name phase, ar_binding = tx_binding (oa_transaction r),
     ar_expected_active_epoch = tx_expected_active_epoch (oa_transaction r),
     ar_authorization_cap_mono_ms = ae_effective_deadline_mono_ms (oa_envelope r),
     ar_requested_prepare_deadline_mono_ms = oa_requested_prepare_deadline_mono_ms r\<rparr>"

section \<open>Envelopes and deadlines\<close>

definition infrastructure_matches :: "packet_port_binding \<Rightarrow> packet_port_binding \<Rightarrow> bool" where
  "infrastructure_matches a b \<longleftrightarrow> pb_infrastructure_id a = pb_infrastructure_id b
    \<and> pb_routing_domain_id a = pb_routing_domain_id b
    \<and> pb_infrastructure_generation a = pb_infrastructure_generation b
    \<and> pb_io_epoch a = pb_io_epoch b"

definition unix_time :: "tunio_host \<Rightarrow> u64 tunio_op" where
  "unix_time H = bind (fallible_reading (th_wall H)) (\<lambda>wall. return (of_nat (wall div 10 ^ 9)))"

definition authority_monotonic_ms :: "tunio_host \<Rightarrow> u64 tunio_op" where
  "authority_monotonic_ms H = fallible_reading (th_boot H)"

text \<open>The wall time the signature granted at verification, in milliseconds.\<close>

definition verified_duration :: "authority_envelope \<Rightarrow> u64 option" where
  "verified_duration e = Option.bind (checked_sub (ae_effective_expiry_unix e) (ae_verified_at_unix e))
    (\<lambda>v. checked_mul v 1000)"

definition envelope_checks ::
    "tunio_controller \<Rightarrow> authority_envelope \<Rightarrow> u64 \<Rightarrow> u64 \<Rightarrow> u64 \<Rightarrow> bool \<Rightarrow> bool \<Rightarrow> (bool \<times> string) list" where
  "envelope_checks c e now_unix now_mono duration candidate_current boot_matches =
    [(hex (ae_transaction_id e) 32, ''transaction_id_invalid''),
     (ae_authority_revision e \<noteq> 0, ''authority_revision_zero''),
     (infrastructure_matches (ae_binding e) (co_binding c), ''infrastructure_binding_mismatch''),
     (pb_policy_generation (ae_binding e) \<noteq> 0, ''policy_generation_zero''),
     (pb_owner_epoch (ae_binding e) \<noteq> 0, ''owner_epoch_zero''),
     (ae_controller e = co_controller c, ''controller_identity_mismatch''),
     (ae_controller_epoch e = co_epoch c, ''controller_epoch_mismatch''),
     (candidate_current, ''candidate_process_not_current''),
     (ae_candidate e \<noteq> co_process c \<and> ae_candidate e \<noteq> co_controller c, ''candidate_identity_not_independent''),
     (hex (ae_signed_control_hash e) 64, ''signed_control_hash_invalid''),
     (hex (ae_declaration_hash e) 64, ''declaration_hash_invalid''),
     (hex (ae_verification_report_hash e) 64, ''verification_report_hash_invalid''),
     (hex (ae_snapshot_closure_hash e) 64, ''snapshot_closure_hash_invalid''),
     (ae_effective_expiry_unix e \<le> ae_signed_min_expiry_unix e, ''wall_cap_exceeds_signed_expiry''),
     (ae_effective_expiry_unix e > now_unix, ''wall_cap_expired''),
     (ae_verified_at_unix e \<le> now_unix, ''verified_wall_time_in_future''),
     (ae_verified_at_mono_ms e \<le> now_mono, ''verified_monotonic_time_in_future''),
     (ae_effective_deadline_mono_ms e > now_mono, ''monotonic_cap_expired''),
     (ae_effective_deadline_mono_ms e > ae_verified_at_mono_ms e, ''monotonic_cap_precedes_verification''),
     (case checked_sub (ae_effective_deadline_mono_ms e) (ae_verified_at_mono_ms e) of
        None \<Rightarrow> False | Some span \<Rightarrow> span \<le> duration, ''monotonic_cap_exceeds_verified_wall_duration''),
     (boot_matches, ''boot_identity_mismatch'')]"

definition first_failed :: "(bool \<times> string) list \<Rightarrow> string option" where
  "first_failed checks = map_option snd (find (\<lambda>(valid, _). \<not> valid) checks)"

definition validate_envelope :: "tunio_host \<Rightarrow> authority_envelope \<Rightarrow> unit tunio_op" where
  "validate_envelope H e =
    bind controller_of (\<lambda>c.
    bind (unix_time H) (\<lambda>now_unix.
    bind (authority_monotonic_ms H) (\<lambda>now_mono.
    bind (of_result (ok_or (Code ''authority_duration_invalid'') (verified_duration e))) (\<lambda>duration.
    bind (reading (th_is_current H)) (\<lambda>current.
    bind (fallible_reading (th_boot_id H)) (\<lambda>boot.
      case first_failed (envelope_checks c e now_unix now_mono duration (current (ae_candidate e)) (ae_boot_id e = boot)) of
        None \<Rightarrow> return ()
      | Some reason \<Rightarrow> throw (Code (''authority_envelope_rejected:'' @ reason))))))))"

text \<open>
  The clocks are read after the anchor: a thread that is descheduled between the readings gets an
  earlier deadline, never a later one.
\<close>

definition remaining_mono :: "u64 \<Rightarrow> u64 \<Rightarrow> u64 option" where
  "remaining_mono deadline now = (case checked_sub deadline now of None \<Rightarrow> None
    | Some v \<Rightarrow> if v > 0 then Some v else None)"

definition remaining_wall :: "u64 \<Rightarrow> duration \<Rightarrow> duration option" where
  "remaining_wall expiry now = (if now < seconds (unat expiry) then Some (seconds (unat expiry) - now) else None)"

definition owner_deadline_with_clocks :: "tunio_host \<Rightarrow> u64 \<Rightarrow> u64 \<Rightarrow> instant tunio_op" where
  "owner_deadline_with_clocks H deadline_mono_ms expiry_unix =
    bind (reading (th_instant H)) (\<lambda>anchor.
    bind (authority_monotonic_ms H) (\<lambda>mono.
    bind (of_result (ok_or (Code ''authority_monotonic_deadline_expired'') (remaining_mono deadline_mono_ms mono))) (\<lambda>left_mono.
    bind (fallible_reading (th_wall H)) (\<lambda>wall.
    bind (of_result (ok_or (Code ''authority_wall_deadline_expired'') (remaining_wall expiry_unix wall))) (\<lambda>left_wall.
      return (anchor + min (millis (unat left_mono)) left_wall))))))"

definition owner_deadline :: "tunio_host \<Rightarrow> authority_envelope \<Rightarrow> instant tunio_op" where
  "owner_deadline H e = owner_deadline_with_clocks H (ae_effective_deadline_mono_ms e) (ae_effective_expiry_unix e)"

definition deadline_check :: "u64 \<Rightarrow> duration \<Rightarrow> authorization_check" where
  "deadline_check cap wall_cap clock =
    rbind (clk_boot_ms clock) (\<lambda>now. rbind (clk_wall clock) (\<lambda>wall.
      if cap \<le> now \<or> wall_cap \<le> wall then Inl ''authority_expired'' else Inr ()))"

definition authority_check :: "authority_envelope \<Rightarrow> authorization_check" where
  "authority_check e = deadline_check (ae_effective_deadline_mono_ms e) (seconds (unat (ae_effective_expiry_unix e)))"

definition capped_bootstrap_deadline :: "u64 \<Rightarrow> u64 option \<Rightarrow> u64" where
  "capped_bootstrap_deadline calculated inherited = (case inherited of None \<Rightarrow> calculated | Some cap \<Rightarrow> min cap calculated)"

text \<open>The check installed for the owner the process was started with; \<open>inherited\<close> is the installed cap.\<close>

definition bootstrap_check :: "tunio_host \<Rightarrow> u64 option \<Rightarrow> instant \<Rightarrow> authorization_check option tunio_op" where
  "bootstrap_check H inherited deadline =
    bind (authority_monotonic_ms H) (\<lambda>boot_anchor.
    bind (fallible_reading (th_wall H)) (\<lambda>wall_anchor.
    bind (reading (th_instant H)) (\<lambda>now.
      let remaining = deadline - now; milliseconds = remaining div 10 ^ 6 in
      if milliseconds \<ge> 2 ^ 64 then throw (Code ''bootstrap_clock_overflow'')
      else (case checked_add boot_anchor (of_nat milliseconds) of
          None \<Rightarrow> throw (Code ''bootstrap_clock_overflow'')
        | Some cap \<Rightarrow> return (Some (deadline_check (capped_bootstrap_deadline cap inherited) (wall_anchor + remaining)))))))"

section \<open>Reconciliation with the manager\<close>

definition note_actual :: "packet_port_receipt \<Rightarrow> authority_state \<Rightarrow> authority_state" where
  "note_actual actual st = st\<lparr>as_actual_owner_binding := rc_binding actual,
    as_owner_highest_revision := rc_highest_transaction_revision actual,
    as_retained_owner_binding := rc_retained_owner_binding actual,
    as_old_owner_drained := rc_old_owner_drained actual,
    as_forced_retirement := rc_forced_retirement actual\<rparr>"

definition receipt_is :: "owner_transaction_receipt option \<Rightarrow> owner_transaction \<Rightarrow> bool" where
  "receipt_is r tx \<longleftrightarrow> map_option otr_transaction r = Some tx"

text \<open>A candidate is prepared, has ended, or (if the manager knows nothing of it) is forgotten.\<close>

definition settle_candidate :: "packet_port_receipt \<Rightarrow> authority_state \<Rightarrow> authority_state" where
  "settle_candidate actual st = (case as_owner_candidate st of None \<Rightarrow> st
    | Some r \<Rightarrow>
      if receipt_is (rc_pending actual) (oa_transaction r)
      then st\<lparr>as_owner_candidate := Some (r\<lparr>oa_prepared := True\<rparr>)\<rparr>
      else (case rc_last_transaction actual of
          None \<Rightarrow> st\<lparr>as_owner_candidate := None\<rparr>
        | Some l \<Rightarrow> if otr_transaction l \<noteq> oa_transaction r then st\<lparr>as_owner_candidate := None\<rparr>
            else st\<lparr>as_owner_candidate := None,
              as_pending := (if as_pending st = Some (oa_envelope r) then None else as_pending st),
              as_active := (if otr_phase l = Phase_Committed
                then (if rc_binding actual = Some (ae_binding (oa_envelope r)) then Some (oa_envelope r) else None)
                else as_active st),
              as_owner_terminal := Some (r, otr_phase l)\<rparr>))"

definition settle_terminal :: "packet_port_receipt \<Rightarrow> authority_state \<Rightarrow> authority_state" where
  "settle_terminal actual st = (case as_owner_terminal st of None \<Rightarrow> st
    | Some (r, phase) \<Rightarrow>
      st\<lparr>as_active := (if rc_binding actual \<noteq> Some (ae_binding (oa_envelope r)) \<and> as_active st = Some (oa_envelope r)
           then None else as_active st),
         as_owner_terminal := (if receipt_is (rc_last_transaction actual) (oa_transaction r)
           then Some (r, phase) else None)\<rparr>)"

definition derive_receipts :: "authority_state \<Rightarrow> authority_state" where
  "derive_receipts st = st\<lparr>
    as_owner_pending := (case as_owner_candidate st of None \<Rightarrow> None
      | Some r \<Rightarrow> if oa_prepared r then Some (owner_authority_receipt r Phase_Prepared) else None),
    as_owner_last_transaction := map_option (\<lambda>(r, phase). owner_authority_receipt r phase) (as_owner_terminal st)\<rparr>"

definition reconcile_owner :: "packet_port_receipt \<Rightarrow> authority_state \<Rightarrow> authority_state" where
  "reconcile_owner actual st = derive_receipts (settle_terminal actual (settle_candidate actual (note_actual actual st)))"

definition owner_receipt :: "authority_state \<Rightarrow> string \<Rightarrow> authority_owner_receipt option" where
  "owner_receipt st tid = (case as_owner_candidate st of
      Some r \<Rightarrow> if oa_prepared r \<and> ae_transaction_id (oa_envelope r) = tid
        then Some (owner_authority_receipt r Phase_Prepared)
        else (case as_owner_terminal st of None \<Rightarrow> None
          | Some (t, phase) \<Rightarrow> if ae_transaction_id (oa_envelope t) = tid then Some (owner_authority_receipt t phase) else None)
    | None \<Rightarrow> (case as_owner_terminal st of None \<Rightarrow> None
          | Some (t, phase) \<Rightarrow> if ae_transaction_id (oa_envelope t) = tid then Some (owner_authority_receipt t phase) else None))"

definition named_record :: "string \<Rightarrow> owner_authority option \<Rightarrow> owner_authority option" where
  "named_record tid r = (case r of None \<Rightarrow> None
    | Some v \<Rightarrow> if ae_transaction_id (oa_envelope v) = tid then Some v else None)"

definition owner_record :: "authority_state \<Rightarrow> string \<Rightarrow> owner_authority option" where
  "owner_record st tid = (case named_record tid (as_owner_candidate st) of
      Some r \<Rightarrow> Some r
    | None \<Rightarrow> named_record tid (map_option fst (as_owner_terminal st)))"

text \<open>The part of \<^verbatim>\<open>reconcile\<close> before the boot clock is read.\<close>

definition adopt_applied :: "packet_port_receipt \<Rightarrow> authority_state \<Rightarrow> authority_state" where
  "adopt_applied actual st = (case as_pending st of None \<Rightarrow> st
    | Some p \<Rightarrow> if pb_owner_epoch (ae_binding p) = rc_owner_epoch actual
          \<and> pb_policy_generation (ae_binding p) = rc_policy_generation actual
        then st\<lparr>as_active := Some p, as_pending := None\<rparr> else st)"

definition raise_marks :: "packet_port_receipt \<Rightarrow> authority_state \<Rightarrow> authority_state" where
  "raise_marks actual st = st\<lparr>as_highest_owner_epoch := max (as_highest_owner_epoch st) (rc_owner_epoch actual),
    as_highest_policy_generation := max (as_highest_policy_generation st) (rc_policy_generation actual)\<rparr>"

definition reconciled_binding :: "packet_port_receipt \<Rightarrow> authority_state \<Rightarrow> packet_port_binding \<Rightarrow> packet_port_binding" where
  "reconciled_binding actual st current = (case rc_binding actual of Some b \<Rightarrow> b
    | None \<Rightarrow> (case as_active st of None \<Rightarrow> current
        | Some a \<Rightarrow> if pb_owner_epoch (ae_binding a) = rc_owner_epoch actual then ae_binding a else current))"

definition reconcile_state :: "instant \<Rightarrow> packet_port_receipt \<Rightarrow> tunio_controller \<Rightarrow> tunio_controller" where
  "reconcile_state now actual c =
    (let st = raise_marks actual (adopt_applied actual (reconcile_owner actual (co_authority c)))
     in c\<lparr>co_authority := st, co_binding := reconciled_binding actual st (co_binding c),
          co_owner_active := (rc_binding actual \<noteq> None
            \<and> (case rc_auth_deadline actual of None \<Rightarrow> False | Some v \<Rightarrow> v > now))\<rparr>)"

definition actual_deadline :: "u64 \<Rightarrow> instant \<Rightarrow> packet_port_receipt \<Rightarrow> u64 option" where
  "actual_deadline now_mono now actual = (case rc_auth_deadline actual of None \<Rightarrow> None
    | Some d \<Rightarrow> if d < now then None
        else if (d - now) div 10 ^ 6 \<ge> 2 ^ 64 then None
        else checked_add now_mono (of_nat ((d - now) div 10 ^ 6)))"

definition reconcile_deadline :: "u64 \<Rightarrow> instant \<Rightarrow> packet_port_receipt \<Rightarrow> tunio_controller \<Rightarrow> tunio_controller" where
  "reconcile_deadline now_mono now actual c =
    (let d = actual_deadline now_mono now actual; st = co_authority c
     in case as_active st of
         Some a \<Rightarrow> if pb_owner_epoch (ae_binding a) = rc_owner_epoch actual
           then c\<lparr>co_auth_deadline_unix := ae_effective_expiry_unix a,
             co_authority := st\<lparr>as_actual_deadline_mono_ms := map_option (min (ae_effective_deadline_mono_ms a)) d\<rparr>\<rparr>
           else c\<lparr>co_authority := st\<lparr>as_actual_deadline_mono_ms := d\<rparr>\<rparr>
       | None \<Rightarrow> c\<lparr>co_authority := st\<lparr>as_actual_deadline_mono_ms := d\<rparr>\<rparr>)"

definition reconcile :: "tunio_host \<Rightarrow> packet_port_receipt \<Rightarrow> unit tunio_op" where
  "reconcile H actual =
    bind (reading (th_instant H)) (\<lambda>now.
    andthen (update_controller (reconcile_state now actual))
    (bind (authority_monotonic_ms H) (\<lambda>now_mono.
    bind (reading (th_instant H)) (\<lambda>now.
      update_controller (reconcile_deadline now_mono now actual)))))"

definition apply_owner_change :: "tunio_host \<Rightarrow> owner_change \<Rightarrow> unit tunio_op" where
  "apply_owner_change H change =
    bind (manager_outcome H change) (\<lambda>(result, actual).
    andthen (reconcile H actual)
    (andthen (publish H) (of_result (map_err Manager_Rejected result))))"

definition probe_manager :: "tunio_host \<Rightarrow> packet_port_receipt tunio_op" where
  "probe_manager H = bind (manager_change H Probe_Manager) (\<lambda>actual. andthen (reconcile H actual) (return actual))"

section \<open>Ports and prepared records\<close>

definition nonzero_binding :: "packet_port_binding \<Rightarrow> bool" where
  "nonzero_binding b \<longleftrightarrow> pb_infrastructure_id b \<noteq> 0 \<and> pb_routing_domain_id b \<noteq> 0
    \<and> pb_infrastructure_generation b \<noteq> 0 \<and> pb_io_epoch b \<noteq> 0 \<and> pb_owner_epoch b \<noteq> 0 \<and> pb_policy_generation b \<noteq> 0"

definition packet_port_result ::
    "u32 \<Rightarrow> descriptor \<Rightarrow> process_identity \<Rightarrow> packet_port_binding \<Rightarrow> tunio_error + unix_packet_port" where
  "packet_port_result euid fd peer binding =
    rbind (map_err Host_Error (fd_is_datagram fd)) (\<lambda>datagram.
    rbind (ensure (Code ''packet_port_not_datagram'') datagram) (\<lambda>_.
    rbind (map_err Host_Error (fd_is_unix fd)) (\<lambda>_.
    rbind (map_err Host_Error (fd_connected fd)) (\<lambda>_.
    rbind (map_err Host_Error (fd_credentials fd)) (\<lambda>(uid, pid).
    rbind (ensure (Code ''packet_port_foreign'') (uid = euid \<and> pid = sint (pi_pid peer))) (\<lambda>_.
    rbind (map_err Host_Error (fd_set_nonblocking fd)) (\<lambda>_.
    rbind (map_err Host_Error (fd_registered fd)) (\<lambda>_.
    rbind (ensure (Code ''packet_port_binding_zero'') (nonzero_binding binding)) (\<lambda>_.
      Inr \<lparr>up_binding = binding, up_role = Infrastructure_Role\<rparr>)))))))))"

definition packet_port :: "tunio_host \<Rightarrow> descriptor list \<Rightarrow> process_identity \<Rightarrow> packet_port_binding \<Rightarrow> unix_packet_port tunio_op" where
  "packet_port H descriptors peer binding = (case descriptors of
      [] \<Rightarrow> throw (Code ''descriptor_missing'')
    | _ \<Rightarrow> of_result (packet_port_result (th_euid H) (last descriptors) peer binding))"

definition hex_value :: "char \<Rightarrow> nat" where
  "hex_value c = (if of_char c \<ge> (97::nat) then of_char c - 87 else of_char c - 48)"

fun hex_pairs :: "string \<Rightarrow> bytes" where
  "hex_pairs (a # b # rest) = of_nat (16 * hex_value a + hex_value b) # hex_pairs rest"
| "hex_pairs _ = []"

definition transaction_bytes :: "string \<Rightarrow> tunio_error + u128" where
  "transaction_bytes v = (if \<not> hex v 32 then Inl (Code ''owner_transaction_id_invalid'')
    else Inr (from_be_bytes (hex_pairs v)))"

definition live_prepare :: "u64 \<Rightarrow> u64 \<Rightarrow> u64 option" where
  "live_prepare deadline now = (case checked_sub deadline now of None \<Rightarrow> None
    | Some v \<Rightarrow> if v > 0 \<and> v \<le> 30000 then Some v else None)"

definition prepare_record ::
    "tunio_host \<Rightarrow> authority_envelope \<Rightarrow> u64 option \<Rightarrow> u64 \<Rightarrow> packet_port_binding option \<Rightarrow> owner_authority tunio_op" where
  "prepare_record H e expected_active_epoch prepare_deadline_mono_ms expected_active_binding =
    bind (reading (th_instant H)) (\<lambda>anchor.
    bind (authority_monotonic_ms H) (\<lambda>now.
    bind (of_result (ok_or (Code ''owner_prepare_deadline_rejected'') (live_prepare prepare_deadline_mono_ms now))) (\<lambda>left.
    andthen (reject_if (prepare_deadline_mono_ms > ae_effective_deadline_mono_ms e) ''owner_prepare_deadline_rejected'')
    (bind (owner_deadline H e) (\<lambda>auth_deadline.
    bind (of_result (transaction_bytes (ae_transaction_id e))) (\<lambda>tid.
      return \<lparr>oa_envelope = e,
        oa_transaction = \<lparr>tx_id = tid, tx_revision = ae_authority_revision e,
          tx_expected_active_epoch = expected_active_epoch, tx_binding = ae_binding e,
          tx_auth_deadline = auth_deadline,
          tx_prepare_deadline = min (anchor + millis (unat left)) auth_deadline\<rparr>,
        oa_expected_active_binding = expected_active_binding,
        oa_requested_prepare_deadline_mono_ms = prepare_deadline_mono_ms,
        oa_prepared = False\<rparr>))))))"

section \<open>Operations\<close>

text \<open>Each arm ends in the publication shared by all, unless it returns early.\<close>

datatype flow = Return_Early | Fall_Through

definition required_envelope :: "authority_request \<Rightarrow> authority_envelope tunio_op" where
  "required_envelope q = of_result (ok_or (Code ''authority_envelope_required'') (aq_envelope q))"

definition required_record :: "authority_request \<Rightarrow> string \<Rightarrow> owner_authority tunio_op" where
  "required_record q code = bind controller_of (\<lambda>c.
    of_result (ok_or (Code code) (owner_record (co_authority c) (aq_transaction_id q))))"

definition fenced_by :: "authority_envelope option \<Rightarrow> string \<Rightarrow> bool" where
  "fenced_by fence tid \<longleftrightarrow> map_option ae_transaction_id fence = Some tid"

definition receipt_phase_is :: "owner_transaction_receipt option \<Rightarrow> owner_transaction \<Rightarrow> owner_transaction_phase \<Rightarrow> bool" where
  "receipt_phase_is r tx phase \<longleftrightarrow> r = Some \<lparr>otr_transaction = tx, otr_phase = phase\<rparr>"

definition expired_retirement_unconfirmed ::
    "authority_request \<Rightarrow> packet_port_binding \<Rightarrow> authority_envelope \<Rightarrow> owner_authority \<Rightarrow> packet_port_receipt \<Rightarrow> tunio_controller \<Rightarrow> bool" where
  "expired_retirement_unconfirmed q expected_active e r actual c \<longleftrightarrow>
    oa_envelope r \<noteq> e \<or> ae_transaction_id e \<noteq> aq_transaction_id q
    \<or> oa_expected_active_binding r \<noteq> Some expected_active
    \<or> tx_expected_active_epoch (oa_transaction r) \<noteq> Some (pb_owner_epoch expected_active)
    \<or> \<not> receipt_phase_is (rc_last_transaction actual) (oa_transaction r) Phase_Expired
    \<or> rc_highest_transaction_revision actual \<noteq> ae_authority_revision e
    \<or> \<not> co_owner_active c
    \<or> rc_binding actual \<noteq> Some expected_active
    \<or> rc_pending actual \<noteq> None \<or> rc_retained_owner_binding actual \<noteq> None
    \<or> as_pending (co_authority c) \<noteq> None"

definition op_retire_expired_commit :: "tunio_host \<Rightarrow> authority_request \<Rightarrow> packet_port_binding \<Rightarrow> flow tunio_op" where
  "op_retire_expired_commit H q expected_active =
    bind (required_envelope q) (\<lambda>e.
    bind (required_record q ''owner_expired_context_unknown'') (\<lambda>r.
    bind (probe_manager H) (\<lambda>actual.
    bind controller_of (\<lambda>c.
    andthen (reject_if (expired_retirement_unconfirmed q expected_active e r actual c) ''owner_expired_retirement_unconfirmed'')
    (andthen (update_authority (\<lambda>st. st\<lparr>as_retired_expired_commit := Some e\<rparr>))
      (return Fall_Through))))))"

definition isolation_mismatch ::
    "authority_request \<Rightarrow> packet_port_binding \<Rightarrow> authority_envelope \<Rightarrow> owner_authority \<Rightarrow> packet_port_receipt \<Rightarrow> bool" where
  "isolation_mismatch q expected_active e r actual \<longleftrightarrow>
    oa_envelope r \<noteq> e \<or> ae_transaction_id e \<noteq> aq_transaction_id q
    \<or> tx_expected_active_epoch (oa_transaction r) \<noteq> Some (pb_owner_epoch expected_active)
    \<or> oa_expected_active_binding r \<noteq> Some expected_active
    \<or> \<not> infrastructure_matches expected_active (ae_binding e)
    \<or> \<not> receipt_phase_is (rc_last_transaction actual) (oa_transaction r) Phase_Committed
    \<or> rc_highest_transaction_revision actual \<noteq> ae_authority_revision e
    \<or> rc_owner_epoch actual \<noteq> pb_owner_epoch (ae_binding e)
    \<or> rc_pending actual \<noteq> None
    \<or> (rc_binding actual \<noteq> None \<and> rc_binding actual \<noteq> Some (ae_binding e))
    \<or> (rc_retained_owner_binding actual \<noteq> None \<and> rc_retained_owner_binding actual \<noteq> Some expected_active)"

definition isolation_unconfirmed :: "tunio_controller \<Rightarrow> bool" where
  "isolation_unconfirmed c \<longleftrightarrow> co_owner_active c \<or> as_actual_owner_binding (co_authority c) \<noteq> None
    \<or> as_retained_owner_binding (co_authority c) \<noteq> None \<or> as_owner_pending (co_authority c) \<noteq> None"

text \<open>Only proof that the candidate has exited allows its live owner to be isolated.\<close>

definition candidate_lives :: "tunio_host \<Rightarrow> tunio_controller \<Rightarrow> authority_envelope \<Rightarrow> bool tunio_op" where
  "candidate_lives H c e = (if co_owner_active c
    then fallible_reading (\<lambda>n. th_is_current_confirmed H n (ae_candidate e)) else return False)"

definition op_isolate_committed_owner :: "tunio_host \<Rightarrow> authority_request \<Rightarrow> packet_port_binding \<Rightarrow> flow tunio_op" where
  "op_isolate_committed_owner H q expected_active =
    bind (required_envelope q) (\<lambda>e.
    bind (required_record q ''owner_isolation_context_unknown'') (\<lambda>r.
    bind (probe_manager H) (\<lambda>actual.
    andthen (reject_if (isolation_mismatch q expected_active e r actual) ''owner_isolation_identity_mismatch'')
    (bind controller_of (\<lambda>c.
    bind (candidate_lives H c e) (\<lambda>lives.
    andthen (reject_if lives ''owner_isolation_live_candidate'')
    (andthen (apply_owner_change H (Revoke_Owner (pb_owner_epoch (ae_binding e))))
    (bind controller_of (\<lambda>c.
    andthen (reject_if (isolation_unconfirmed c) ''owner_isolation_unconfirmed'')
    (andthen (update_authority (\<lambda>st. st\<lparr>as_isolated_committed := Some e\<rparr>))
      (return Fall_Through)))))))))))"

definition precommit_identity_mismatch :: "authority_request \<Rightarrow> packet_port_binding \<Rightarrow> authority_envelope \<Rightarrow> bool" where
  "precommit_identity_mismatch q expected_active e \<longleftrightarrow>
    ae_transaction_id e \<noteq> aq_transaction_id q
    \<or> \<not> infrastructure_matches (ae_binding e) expected_active
    \<or> pb_owner_epoch (ae_binding e) \<le> pb_owner_epoch expected_active
    \<or> pb_policy_generation (ae_binding e) < pb_policy_generation expected_active
    \<or> ae_authority_revision e = 0"

text \<open>What the manager still remembers of a transaction: its candidate, or its last terminal result.\<close>

definition transaction_history :: "packet_port_receipt \<Rightarrow> u128 \<Rightarrow> owner_transaction_receipt option" where
  "transaction_history actual tid =
    (let named = (\<lambda>r. case r of None \<Rightarrow> None | Some v \<Rightarrow> if tx_id (otr_transaction v) = tid then Some v else None)
     in case named (rc_pending actual) of Some v \<Rightarrow> Some v | None \<Rightarrow> named (rc_last_transaction actual))"

definition precommit_conflict ::
    "packet_port_binding \<Rightarrow> authority_envelope \<Rightarrow> owner_authority \<Rightarrow> owner_transaction_receipt \<Rightarrow> bool" where
  "precommit_conflict expected_active e exact history \<longleftrightarrow>
    oa_envelope exact \<noteq> e \<or> oa_transaction exact \<noteq> otr_transaction history
    \<or> tx_expected_active_epoch (oa_transaction exact) \<noteq> Some (pb_owner_epoch expected_active)
    \<or> oa_expected_active_binding exact \<noteq> Some expected_active"

definition absence_unconfirmed ::
    "packet_port_binding \<Rightarrow> authority_envelope \<Rightarrow> packet_port_receipt \<Rightarrow> tunio_controller \<Rightarrow> bool" where
  "absence_unconfirmed expected_active e actual c \<longleftrightarrow>
    \<not> co_owner_active c \<or> rc_binding actual \<noteq> Some expected_active
    \<or> rc_pending actual \<noteq> None \<or> rc_retained_owner_binding actual \<noteq> None
    \<or> rc_highest_transaction_revision actual \<ge> ae_authority_revision e
    \<or> as_active (co_authority c) = Some e
    \<or> (as_pending (co_authority c) \<noteq> None \<and> as_pending (co_authority c) \<noteq> Some e)
    \<or> as_highest_revision (co_authority c) > ae_authority_revision e
    \<or> as_highest_owner_epoch (co_authority c) > pb_owner_epoch (ae_binding e)
    \<or> as_highest_policy_generation (co_authority c) > pb_policy_generation (ae_binding e)
    \<or> (fenced_by (as_precommit_cancelled (co_authority c)) (ae_transaction_id e)
       \<and> as_precommit_cancelled (co_authority c) \<noteq> Some e)"

definition cancel_precommit :: "authority_envelope \<Rightarrow> authority_state \<Rightarrow> authority_state" where
  "cancel_precommit e st = st\<lparr>as_pending := None, as_precommit_cancelled := Some e,
    as_highest_revision := max (as_highest_revision st) (ae_authority_revision e),
    as_highest_owner_epoch := max (as_highest_owner_epoch st) (pb_owner_epoch (ae_binding e)),
    as_highest_policy_generation := max (as_highest_policy_generation st) (pb_policy_generation (ae_binding e))\<rparr>"

definition op_recover_precommit :: "tunio_host \<Rightarrow> authority_request \<Rightarrow> packet_port_binding \<Rightarrow> flow tunio_op" where
  "op_recover_precommit H q expected_active =
    bind (required_envelope q) (\<lambda>e.
    andthen (reject_if (precommit_identity_mismatch q expected_active e) ''owner_precommit_identity_mismatch'')
    (bind (probe_manager H) (\<lambda>actual.
    bind (of_result (transaction_bytes (aq_transaction_id q))) (\<lambda>tid.
    case transaction_history actual tid of
      Some history \<Rightarrow>
        bind (required_record q ''owner_precommit_context_unknown'') (\<lambda>exact.
        andthen (reject_if (precommit_conflict expected_active e exact history) ''owner_precommit_context_conflict'')
        (andthen (publish H) (return Return_Early)))
    | None \<Rightarrow>
        bind controller_of (\<lambda>c.
        andthen (reject_if (absence_unconfirmed expected_active e actual c) ''owner_precommit_absence_unconfirmed'')
        (andthen (update_authority (cancel_precommit e)) (return Fall_Through)))))))"

definition op_probe_transaction :: "tunio_host \<Rightarrow> authority_request \<Rightarrow> flow tunio_op" where
  "op_probe_transaction H q =
    andthen (reject_if (aq_envelope q \<noteq> None) ''probe_envelope_rejected'')
    (if aq_schema_version q = 2 then andthen (publish H) (return Return_Early)
     else bind (probe_manager H) (\<lambda>actual.
       bind (of_result (transaction_bytes (aq_transaction_id q))) (\<lambda>tid.
       case transaction_history actual tid of
         None \<Rightarrow> throw (Code ''owner_transaction_unknown'')
       | Some history \<Rightarrow>
           bind (manager_outcome H (Probe_Owner_Transaction (tx_id (otr_transaction history))
               (tx_revision (otr_transaction history)))) (\<lambda>(result, actual).
           andthen (reconcile H actual)
           (andthen (publish H)
           (andthen (of_result (map_err Manager_Rejected result)) (return Fall_Through)))))))"

definition reusable_record :: "authority_envelope \<Rightarrow> u64 option \<Rightarrow> u64 \<Rightarrow> owner_authority \<Rightarrow> bool" where
  "reusable_record e expected_active_epoch prepare_deadline_mono_ms r \<longleftrightarrow> oa_envelope r = e
    \<and> tx_expected_active_epoch (oa_transaction r) = expected_active_epoch
    \<and> oa_requested_prepare_deadline_mono_ms r = prepare_deadline_mono_ms"

definition prepare_or_reuse ::
    "tunio_host \<Rightarrow> authority_request \<Rightarrow> authority_envelope \<Rightarrow> u64 option \<Rightarrow> u64 \<Rightarrow> owner_authority tunio_op" where
  "prepare_or_reuse H q e expected_active_epoch prepare_deadline_mono_ms =
    bind controller_of (\<lambda>c.
    case owner_record (co_authority c) (aq_transaction_id q) of
      Some r \<Rightarrow> andthen (reject_if (\<not> reusable_record e expected_active_epoch prepare_deadline_mono_ms r)
          ''owner_prepare_identity_mismatch'') (return r)
    | None \<Rightarrow>
        andthen (reject_if (expected_active_epoch \<noteq> map_option pb_owner_epoch (as_actual_owner_binding (co_authority c)))
          ''owner_prepare_active_mismatch'')
        (andthen (reject_if (as_pending (co_authority c) \<noteq> Some e) ''authority_stage_mismatch'')
        (prepare_record H e expected_active_epoch prepare_deadline_mono_ms (as_actual_owner_binding (co_authority c)))))"

definition op_prepare_owner ::
    "tunio_host \<Rightarrow> process_identity \<Rightarrow> authority_request \<Rightarrow> descriptor list \<Rightarrow> u64 option \<Rightarrow> u64 \<Rightarrow> flow tunio_op" where
  "op_prepare_owner H peer q descriptors expected_active_epoch prepare_deadline_mono_ms =
    bind (required_envelope q) (\<lambda>e.
    andthen (reject_if (ae_transaction_id e \<noteq> aq_transaction_id q) ''owner_prepare_identity_mismatch'')
    (andthen (validate_envelope H e)
    (bind controller_of (\<lambda>c.
    andthen (reject_if (fenced_by (as_precommit_cancelled (co_authority c)) (ae_transaction_id e)) ''owner_precommit_cancelled'')
    (andthen (reject_if (fenced_by (as_retired_expired_commit (co_authority c)) (ae_transaction_id e)) ''owner_expired_commit_retired'')
    (bind (prepare_or_reuse H q e expected_active_epoch prepare_deadline_mono_ms) (\<lambda>r.
    bind (packet_port H descriptors peer (ae_binding e)) (\<lambda>port.
    andthen (update_authority (\<lambda>st. if owner_record st (aq_transaction_id q) = None
        then st\<lparr>as_owner_candidate := Some r\<rparr> else st))
    (andthen (apply_owner_change H (Prepare_Owner (oa_transaction r) port (authority_check e)))
      (return Fall_Through))))))))))"

definition terminal_committed :: "authority_state \<Rightarrow> owner_authority \<Rightarrow> bool" where
  "terminal_committed st r \<longleftrightarrow> (case as_owner_terminal st of None \<Rightarrow> False
    | Some (t, phase) \<Rightarrow> oa_transaction t = oa_transaction r \<and> phase = Phase_Committed)"

text \<open>
  Commit, finish and retirement share one arm; \<open>change\<close> is the manager's change they ask for. A record
  that is not yet committed is validated again under the controller that now asks for it.
\<close>

definition op_conclude_owner :: "tunio_host \<Rightarrow> authority_request \<Rightarrow> (owner_transaction \<Rightarrow> owner_change) \<Rightarrow> flow tunio_op" where
  "op_conclude_owner H q change =
    bind controller_of (\<lambda>c.
    andthen (reject_if (fenced_by (as_retired_expired_commit (co_authority c)) (aq_transaction_id q)) ''owner_expired_commit_retired'')
    (bind (required_record q ''owner_transaction_unknown'') (\<lambda>r.
    andthen (reject_if (aq_envelope q \<noteq> Some (oa_envelope r)) ''owner_commit_identity_mismatch'')
    (andthen (if terminal_committed (co_authority c) r then return ()
        else validate_envelope H ((oa_envelope r)\<lparr>ae_controller := co_controller c, ae_controller_epoch := co_epoch c\<rparr>))
    (andthen (apply_owner_change H (change (oa_transaction r)))
      (return Fall_Through))))))"

definition op_abort_owner :: "tunio_host \<Rightarrow> authority_request \<Rightarrow> flow tunio_op" where
  "op_abort_owner H q =
    bind (required_record q ''owner_transaction_unknown'') (\<lambda>r.
    andthen (reject_if (aq_envelope q \<noteq> None \<and> aq_envelope q \<noteq> Some (oa_envelope r)) ''owner_abort_identity_mismatch'')
    (andthen (apply_owner_change H (Abort_Owner (oa_transaction r)))
      (return Fall_Through)))"

definition stage_rejected :: "authority_envelope \<Rightarrow> tunio_controller \<Rightarrow> bool" where
  "stage_rejected e c \<longleftrightarrow> as_pending (co_authority c) \<noteq> None
    \<or> ae_authority_revision e \<le> as_highest_revision (co_authority c)
    \<or> pb_policy_generation (ae_binding e)
        < max (pb_policy_generation (co_binding c)) (as_highest_policy_generation (co_authority c))
    \<or> pb_owner_epoch (ae_binding e) \<le> max (pb_owner_epoch (co_binding c)) (as_highest_owner_epoch (co_authority c))"

definition stage_envelope :: "authority_envelope \<Rightarrow> authority_state \<Rightarrow> authority_state" where
  "stage_envelope e st = st\<lparr>as_highest_revision := ae_authority_revision e,
    as_highest_policy_generation := max (as_highest_policy_generation st) (pb_policy_generation (ae_binding e)),
    as_highest_owner_epoch := max (as_highest_owner_epoch st) (pb_owner_epoch (ae_binding e)),
    as_pending := Some e\<rparr>"

definition op_stage_authority :: "tunio_host \<Rightarrow> authority_request \<Rightarrow> flow tunio_op" where
  "op_stage_authority H q =
    bind (required_envelope q) (\<lambda>e.
    andthen (reject_if (ae_transaction_id e \<noteq> aq_transaction_id q) ''stage_transaction_differs'')
    (andthen (validate_envelope H e)
    (bind controller_of (\<lambda>c.
    andthen (reject_if (fenced_by (as_retired_expired_commit (co_authority c)) (ae_transaction_id e)) ''owner_expired_commit_retired'')
    (andthen (reject_if (fenced_by (as_precommit_cancelled (co_authority c)) (ae_transaction_id e)) ''owner_precommit_cancelled'')
    (if as_pending (co_authority c) = Some e \<or> as_active (co_authority c) = Some e then return Return_Early
     else andthen (reject_if (stage_rejected e c) ''authority_revision_rejected'')
       (andthen (update_authority (stage_envelope e)) (return Fall_Through))))))))"

definition op_attach_authorized ::
    "tunio_host \<Rightarrow> process_identity \<Rightarrow> authority_request \<Rightarrow> descriptor list \<Rightarrow> flow tunio_op" where
  "op_attach_authorized H peer q descriptors =
    bind controller_of (\<lambda>c.
    andthen (reject_if (as_owner_candidate (co_authority c) \<noteq> None) ''owner_legacy_attach_rejected'')
    (bind (required_envelope q) (\<lambda>e.
    andthen (reject_if (ae_transaction_id e \<noteq> aq_transaction_id q \<or> as_pending (co_authority c) \<noteq> Some e) ''authority_stage_mismatch'')
    (andthen (validate_envelope H e)
    (bind (owner_deadline H e) (\<lambda>auth_deadline.
    bind (packet_port H descriptors peer (ae_binding e)) (\<lambda>port.
    bind (manager_change H (Attach_Authorized_Port port auth_deadline (authority_check e))) (\<lambda>actual.
    andthen (reconcile H actual)
    (bind controller_of (\<lambda>c.
    andthen (reject_if (as_active (co_authority c) \<noteq> Some e \<or> co_binding c \<noteq> ae_binding e) ''authority_attachment_mismatch'')
      (return Fall_Through)))))))))))"

definition op_revoke_exact :: "tunio_host \<Rightarrow> authority_request \<Rightarrow> flow tunio_op" where
  "op_revoke_exact H q =
    andthen (reject_if (aq_envelope q \<noteq> None) ''revoke_envelope_rejected'')
    (bind controller_of (\<lambda>c.
    bind (of_result (ok_or (Code ''authority_not_applied'') (as_active (co_authority c)))) (\<lambda>a.
    andthen (reject_if (ae_transaction_id a \<noteq> aq_transaction_id q \<or> co_binding c \<noteq> ae_binding a) ''revoke_other_transaction'')
    (bind (manager_change H (Revoke_Owner (pb_owner_epoch (ae_binding a)))) (\<lambda>actual.
    andthen (reconcile H actual) (return Fall_Through))))))"

definition op_discard_authority :: "authority_request \<Rightarrow> flow tunio_op" where
  "op_discard_authority q =
    andthen (reject_if (aq_envelope q \<noteq> None) ''discard_envelope_rejected'')
    (bind controller_of (\<lambda>c.
    andthen (reject_if (named_record (aq_transaction_id q) (as_owner_candidate (co_authority c)) \<noteq> None) ''owner_discard_rejected'')
    (andthen (reject_if (\<not> fenced_by (as_pending (co_authority c)) (aq_transaction_id q)) ''discard_other_transaction'')
    (andthen (update_authority (\<lambda>st. st\<lparr>as_pending := None\<rparr>))
      (return Fall_Through)))))"

fun authority_dispatch ::
    "tunio_host \<Rightarrow> process_identity \<Rightarrow> authority_request \<Rightarrow> descriptor list \<Rightarrow> authority_operation \<Rightarrow> flow tunio_op" where
  "authority_dispatch H peer q fds (Retire_Expired_Commit b) = op_retire_expired_commit H q b"
| "authority_dispatch H peer q fds (Isolate_Committed_Owner b) = op_isolate_committed_owner H q b"
| "authority_dispatch H peer q fds (Recover_Precommit b) = op_recover_precommit H q b"
| "authority_dispatch H peer q fds Probe_Transaction = op_probe_transaction H q"
| "authority_dispatch H peer q fds (Prepare_Owner_Operation e d) = op_prepare_owner H peer q fds e d"
| "authority_dispatch H peer q fds Commit_Owner_Operation = op_conclude_owner H q Commit_Owner"
| "authority_dispatch H peer q fds Finish_Owner_Drain_Operation = op_conclude_owner H q Finish_Owner_Drain"
| "authority_dispatch H peer q fds Retire_Owner_After_Failure_Operation = op_conclude_owner H q Retire_Owner_After_Failure"
| "authority_dispatch H peer q fds Abort_Owner_Operation = op_abort_owner H q"
| "authority_dispatch H peer q fds Stage_Authority = op_stage_authority H q"
| "authority_dispatch H peer q fds Attach_Authorized = op_attach_authorized H peer q fds"
| "authority_dispatch H peer q fds Revoke_Exact = op_revoke_exact H q"
| "authority_dispatch H peer q fds Discard_Authority = op_discard_authority q"

fun needs_descriptor :: "authority_operation \<Rightarrow> bool" where
  "needs_descriptor Attach_Authorized = True"
| "needs_descriptor (Prepare_Owner_Operation e d) = True"
| "needs_descriptor _ = False"

fun owner_protocol :: "authority_operation \<Rightarrow> bool" where
  "owner_protocol Stage_Authority = False"
| "owner_protocol Probe_Transaction = False"
| "owner_protocol Attach_Authorized = False"
| "owner_protocol Revoke_Exact = False"
| "owner_protocol Discard_Authority = False"
| "owner_protocol _ = True"

fun synced_publication :: "authority_operation \<Rightarrow> bool" where
  "synced_publication (Recover_Precommit b) = True"
| "synced_publication (Isolate_Committed_Owner b) = True"
| "synced_publication (Retire_Expired_Commit b) = True"
| "synced_publication _ = False"

definition controller_fence :: "tunio_host \<Rightarrow> process_identity \<Rightarrow> authority_request \<Rightarrow> tunio_controller \<Rightarrow> bool \<Rightarrow> bool" where
  "controller_fence H peer q c peer_current \<longleftrightarrow>
    (aq_schema_version q = 2 \<or> aq_schema_version q = 3)
    \<and> aq_process q = co_process c \<and> aq_controller q = peer \<and> peer = co_controller c
    \<and> aq_controller_epoch q = co_epoch c \<and> peer_current
    \<and> aq_token_sha256 q = th_sha256_hex H (co_token c)
    \<and> hex (aq_nonce q) 32 \<and> hex (aq_transaction_id q) 32 \<and> co_registered c"

definition authority_apply_request ::
    "tunio_host \<Rightarrow> process_identity \<Rightarrow> authority_request \<Rightarrow> descriptor list \<Rightarrow> unit tunio_op" where
  "authority_apply_request H peer q fds =
    bind controller_of (\<lambda>c.
    bind (reading (th_is_current H)) (\<lambda>current.
    andthen (reject_if (\<not> controller_fence H peer q c (current peer)) ''authority_controller_rejected'')
    (andthen (reject_if (aq_schema_version q \<noteq> 3 \<and> owner_protocol (aq_operation q)) ''owner_protocol_required'')
    (andthen (reject_if (length fds \<noteq> (if needs_descriptor (aq_operation q) then 1 else 0)) ''descriptor_shape'')
    (andthen (probe_manager H)
    (bind (authority_dispatch H peer q fds (aq_operation q)) (\<lambda>flow.
      case flow of Return_Early \<Rightarrow> return ()
      | Fall_Through \<Rightarrow> andthen (publish H)
          (if synced_publication (aq_operation q) then fallible_reading (th_sync_parent H) else return ()))))))))"
end
