(* ===== verification/Tunio_Serve.thy ===== *)
theory Tunio_Serve
  imports Tunio_Authority
begin

text \<open>
  The remaining control paths of \<^verbatim>\<open>candy-tunio\<close>: the packet socket of the schema-1 attachment
  (\<^verbatim>\<open>attach_control.rs\<close>), the guard that revokes an owner whose boot-clock deadline has passed, the
  replies of both sockets, and the steps that interleave all of them over one controller.
\<close>

section \<open>The packet socket\<close>

datatype packet_control_operation = Packet_Attach | Packet_Revoke | Packet_Probe

record packet_control_request =
  pq_schema_version :: u8
  pq_process :: process_identity
  pq_controller :: process_identity
  pq_controller_epoch :: u64
  pq_token_sha256 :: string
  pq_nonce :: string
  pq_operation :: packet_control_operation
  pq_binding :: packet_port_binding
  pq_auth_deadline_unix :: u64

text \<open>What the socket keeps of the attachment the process was started with.\<close>

record original_attachment =
  or_binding :: packet_port_binding
  or_deadline_unix :: u64
  or_deadline :: instant
  or_authorization :: "authorization_check option"
  or_bootstrap_cap :: "u64 option"

definition fixed_binding_matches :: "packet_port_binding \<Rightarrow> packet_port_binding \<Rightarrow> bool" where
  "fixed_binding_matches a b \<longleftrightarrow> pb_infrastructure_id a = pb_infrastructure_id b
    \<and> pb_routing_domain_id a = pb_routing_domain_id b
    \<and> pb_infrastructure_generation a = pb_infrastructure_generation b
    \<and> pb_io_epoch a = pb_io_epoch b \<and> pb_policy_generation a = pb_policy_generation b"

definition rebind_deadline :: "tunio_host \<Rightarrow> packet_control_request \<Rightarrow> original_attachment \<Rightarrow> instant tunio_op" where
  "rebind_deadline H q orig =
    andthen (reject_if (pq_auth_deadline_unix q > or_deadline_unix orig) ''rebind_extends_deadline'')
    (bind (reading (th_instant H)) (\<lambda>anchor.
    bind (fallible_reading (th_wall H)) (\<lambda>wall.
    bind (of_result (ok_or (Code ''owner_authorization_expired'') (remaining_wall (pq_auth_deadline_unix q) wall))) (\<lambda>left.
    bind (reading (th_instant H)) (\<lambda>now.
      let deadline = min (anchor + left) (or_deadline orig) in
      andthen (reject_if (deadline \<le> now) ''original_authorization_expired'') (return deadline))))))"

definition both_checks :: "authorization_check \<Rightarrow> authorization_check option \<Rightarrow> authorization_check" where
  "both_checks original replacement clock = rbind (original clock) (\<lambda>_.
    case replacement of None \<Rightarrow> Inr () | Some check \<Rightarrow> check clock)"

definition attach_change ::
    "tunio_host \<Rightarrow> process_identity \<Rightarrow> packet_control_request \<Rightarrow> descriptor list \<Rightarrow> original_attachment \<Rightarrow> owner_change tunio_op" where
  "attach_change H peer q fds orig =
    bind controller_of (\<lambda>c.
    andthen (reject_if (length fds \<noteq> 1 \<or> pb_owner_epoch (pq_binding q) \<le> pb_owner_epoch (co_binding c)) ''attach_not_advancing'')
    (bind (rebind_deadline H q orig) (\<lambda>auth_deadline.
    bind (packet_port H fds peer (pq_binding q)) (\<lambda>port.
    case or_authorization orig of
      None \<Rightarrow> return (Attach_Port port auth_deadline)
    | Some original \<Rightarrow>
        bind (bootstrap_check H (or_bootstrap_cap orig) auth_deadline) (\<lambda>replacement.
        return (Attach_Authorized_Port port auth_deadline (both_checks original replacement)))))))"

definition revoke_change :: "packet_control_request \<Rightarrow> descriptor list \<Rightarrow> owner_change tunio_op" where
  "revoke_change q fds = bind controller_of (\<lambda>c.
    andthen (reject_if (fds \<noteq> [] \<or> pq_binding q \<noteq> co_binding c) ''revoke_not_exact'')
      (return (Revoke_Owner (pb_owner_epoch (pq_binding q)))))"

definition packet_fence :: "tunio_host \<Rightarrow> process_identity \<Rightarrow> packet_control_request \<Rightarrow> tunio_controller \<Rightarrow> bool \<Rightarrow> bool" where
  "packet_fence H peer q c peer_current \<longleftrightarrow> pq_schema_version q = 1
    \<and> pq_process q = co_process c \<and> pq_controller q = peer \<and> peer = co_controller c
    \<and> pq_controller_epoch q = co_epoch c \<and> peer_current
    \<and> pq_token_sha256 q = th_sha256_hex H (co_token c)
    \<and> length (pq_nonce q) = 32 \<and> list_all ascii_hex_digit (pq_nonce q)"

definition packet_commit :: "tunio_host \<Rightarrow> process_identity \<Rightarrow> packet_control_request \<Rightarrow> owner_change \<Rightarrow> unit tunio_op" where
  "packet_commit H peer q change =
    bind (reading (th_deadline_passed H)) (\<lambda>passed.
    andthen (reject_if passed ''packet_control_deadline'')
    (bind (reading (th_is_current H)) (\<lambda>current.
    andthen (reject_if (\<not> current peer) ''controller_exited'')
    (bind (manager_exchange H False change) (\<lambda>(result, _).
    andthen (of_result (map_err Manager_Rejected result))
    (andthen (update_controller (\<lambda>c. c\<lparr>co_binding := pq_binding q,
        co_owner_active := (pq_operation q = Packet_Attach),
        co_auth_deadline_unix := (if pq_operation q = Packet_Attach then pq_auth_deadline_unix q else co_auth_deadline_unix c)\<rparr>))
      (publish H)))))))"

definition packet_apply_request ::
    "tunio_host \<Rightarrow> process_identity \<Rightarrow> packet_control_request \<Rightarrow> descriptor list \<Rightarrow> original_attachment \<Rightarrow> unit tunio_op" where
  "packet_apply_request H peer q fds orig =
    bind controller_of (\<lambda>c.
    bind (reading (th_is_current H)) (\<lambda>current.
    andthen (reject_if (\<not> packet_fence H peer q c (current peer)) ''controller_fence_rejected'')
    (andthen (reject_if (\<not> fixed_binding_matches (pq_binding q) (or_binding orig)) ''packet_binding_rejected'')
    (andthen (reject_if (\<not> co_registered c \<and> pq_operation q \<noteq> Packet_Probe) ''registration_incomplete'')
    (andthen (reject_if ((as_active (co_authority c) \<noteq> None \<or> as_pending (co_authority c) \<noteq> None)
        \<and> pq_operation q \<noteq> Packet_Probe) ''authority_schema_required'')
    (case pq_operation q of
      Packet_Probe \<Rightarrow> reject_if (fds \<noteq> []) ''probe_descriptors_rejected''
    | Packet_Attach \<Rightarrow> bind (attach_change H peer q fds orig) (packet_commit H peer q)
    | Packet_Revoke \<Rightarrow> bind (revoke_change q fds) (packet_commit H peer q)))))))"

section \<open>The boot clock guard\<close>

definition read_clock :: "tunio_host \<Rightarrow> clock_reading tunio_op" where
  "read_clock H = bind (reading (th_boot H)) (\<lambda>boot. bind (reading (th_wall H)) (\<lambda>wall.
    return \<lparr>clk_boot_ms = boot, clk_wall = wall\<rparr>))"

definition guard_expired :: "tunio_host \<Rightarrow> authorization_check option \<Rightarrow> tunio_controller \<Rightarrow> bool tunio_op" where
  "guard_expired H bootstrap c = bind (read_clock H) (\<lambda>clock.
    case as_active (co_authority c) of
      Some a \<Rightarrow> return (\<not> is_ok (authority_check a clock))
    | None \<Rightarrow> bind (attempt (unix_time H)) (\<lambda>now.
        return (check_refuses bootstrap clock
          \<or> (case now of Inl _ \<Rightarrow> True | Inr t \<Rightarrow> co_auth_deadline_unix c \<le> t))))"

text \<open>
  One tick: the guard copies what it needs under the lock, checks the clocks without it, and asks the
  manager to revoke. Its result is the transaction and binding to clear, if the revocation succeeded.
\<close>

definition guard_tick ::
    "tunio_host \<Rightarrow> authorization_check option \<Rightarrow> (authority_envelope option \<times> packet_port_binding) option tunio_op" where
  "guard_tick H bootstrap = bind controller_of (\<lambda>c.
    if \<not> co_owner_active c then return None
    else bind (guard_expired H bootstrap c) (\<lambda>expired.
      if \<not> expired then return None
      else bind (attempt (manager_exchange H False (Revoke_Owner (pb_owner_epoch (co_binding c))))) (\<lambda>outcome.
        case outcome of
          Inr (Inr _, _) \<Rightarrow> return (Some (as_active (co_authority c), co_binding c))
        | _ \<Rightarrow> return None)))"

text \<open>Later, under the lock again: only the exact expired transaction is cleared.\<close>

definition guard_clear :: "tunio_host \<Rightarrow> authority_envelope option \<Rightarrow> packet_port_binding \<Rightarrow> unit tunio_op" where
  "guard_clear H active binding = bind controller_of (\<lambda>c.
    if co_binding c = binding \<and> as_active (co_authority c) = active
    then andthen (update_controller (\<lambda>c. c\<lparr>co_owner_active := False,
        co_authority := (co_authority c)\<lparr>as_active := None, as_actual_deadline_mono_ms := None\<rparr>\<rparr>))
      (bind (attempt (publish H)) (\<lambda>_. return ()))
    else return ())"

section \<open>Replies\<close>

record authority_response =
  ap_schema_version :: u8
  ap_process :: process_identity
  ap_controller :: process_identity
  ap_controller_epoch :: u64
  ap_nonce :: string
  ap_accepted :: bool
  ap_code :: string
  ap_active :: "authority_envelope option"
  ap_pending :: "authority_envelope option"
  ap_highest_revision :: u64
  ap_highest_owner_epoch :: u64
  ap_highest_policy_generation :: u64
  ap_applied_transaction_id :: "string option"
  ap_authority_revision :: "u64 option"
  ap_current_binding :: packet_port_binding
  ap_auth_deadline_unix :: u64
  ap_owner_active :: bool
  ap_actual_deadline_mono_ms :: "u64 option"
  ap_owner_transaction :: "authority_owner_receipt option"
  ap_actual_owner_binding :: "packet_port_binding option"
  ap_owner_highest_revision :: "u64 option"
  ap_retained_owner_binding :: "packet_port_binding option"
  ap_old_owner_drained :: bool
  ap_forced_retirement :: bool
  ap_precommit_cancelled :: "authority_envelope option"
  ap_isolated_committed :: "authority_envelope option"
  ap_retired_expired_commit :: "authority_envelope option"

definition named_envelope :: "string \<Rightarrow> authority_envelope option \<Rightarrow> authority_envelope option" where
  "named_envelope tid e = (if fenced_by e tid then e else None)"

definition authority_reply :: "authority_request \<Rightarrow> tunio_error + unit \<Rightarrow> tunio_controller \<Rightarrow> authority_response" where
  "authority_reply q result c =
    (let st = co_authority c; v3 = (aq_schema_version q = 3); tid = aq_transaction_id q in
     \<lparr>ap_schema_version = aq_schema_version q, ap_process = co_process c, ap_controller = co_controller c,
      ap_controller_epoch = co_epoch c, ap_nonce = aq_nonce q, ap_accepted = is_ok result,
      ap_code = (if is_ok result then ''authority_transaction_confirmed'' else ''authority_transaction_rejected''),
      ap_active = as_active st, ap_pending = as_pending st, ap_highest_revision = as_highest_revision st,
      ap_highest_owner_epoch = as_highest_owner_epoch st,
      ap_highest_policy_generation = as_highest_policy_generation st,
      ap_applied_transaction_id = map_option ae_transaction_id (as_active st),
      ap_authority_revision = map_option ae_authority_revision (as_active st),
      ap_current_binding = co_binding c, ap_auth_deadline_unix = co_auth_deadline_unix c,
      ap_owner_active = co_owner_active c, ap_actual_deadline_mono_ms = as_actual_deadline_mono_ms st,
      ap_owner_transaction = (if v3 then owner_receipt st tid else None),
      ap_actual_owner_binding = (if v3 then as_actual_owner_binding st else None),
      ap_owner_highest_revision = (if v3 then Some (as_owner_highest_revision st) else None),
      ap_retained_owner_binding = (if v3 then as_retained_owner_binding st else None),
      ap_old_owner_drained = (v3 \<and> as_old_owner_drained st),
      ap_forced_retirement = (v3 \<and> as_forced_retirement st),
      ap_precommit_cancelled = (if v3 then named_envelope tid (as_precommit_cancelled st) else None),
      ap_isolated_committed = (if v3 then named_envelope tid (as_isolated_committed st) else None),
      ap_retired_expired_commit = (if v3 then named_envelope tid (as_retired_expired_commit st) else None)\<rparr>)"

definition serve_authority ::
    "tunio_host \<Rightarrow> process_identity \<Rightarrow> authority_request \<Rightarrow> descriptor list \<Rightarrow> authority_response tunio_op" where
  "serve_authority H peer q fds =
    bind (attempt (authority_apply_request H peer q fds)) (\<lambda>result.
    bind controller_of (\<lambda>c. return (authority_reply q result c)))"

record packet_control_response =
  pp_schema_version :: u8
  pp_process :: process_identity
  pp_controller :: process_identity
  pp_controller_epoch :: u64
  pp_nonce :: string
  pp_accepted :: bool
  pp_code :: string
  pp_current_binding :: packet_port_binding
  pp_auth_deadline_unix :: u64

definition packet_reply :: "packet_control_request \<Rightarrow> tunio_error + unit \<Rightarrow> tunio_controller \<Rightarrow> packet_control_response" where
  "packet_reply q result c =
    \<lparr>pp_schema_version = 1, pp_process = co_process c, pp_controller = co_controller c,
     pp_controller_epoch = co_epoch c, pp_nonce = pq_nonce q, pp_accepted = is_ok result,
     pp_code = (if is_ok result
       then if pq_operation q = Packet_Probe then ''packet_owner_probed'' else ''packet_owner_applied''
       else ''packet_owner_rejected''),
     pp_current_binding = co_binding c, pp_auth_deadline_unix = co_auth_deadline_unix c\<rparr>"

definition serve_packet ::
    "tunio_host \<Rightarrow> process_identity \<Rightarrow> packet_control_request \<Rightarrow> descriptor list \<Rightarrow> original_attachment \<Rightarrow> packet_control_response tunio_op" where
  "serve_packet H peer q fds orig =
    bind (attempt (packet_apply_request H peer q fds orig)) (\<lambda>result.
    bind controller_of (\<lambda>c. return (packet_reply q result c)))"

section \<open>All control paths together\<close>

text \<open>
  The control threads share the controller under a mutex; each critical section is one step. The
  manager moves in between on its own. \<open>guard_clear\<close> may run with what an earlier tick returned, at any
  later time. \<open>allowed\<close> restricts which authority requests are made; \<open>tunio_moves\<close> allows all of them.
\<close>

inductive tunio_moves_by :: "(authority_request \<Rightarrow> bool) \<Rightarrow> tunio_world \<Rightarrow> tunio_world \<Rightarrow> bool"
  for allowed :: "authority_request \<Rightarrow> bool" where
  manager: "tw_manager w' = settle events (tw_manager w) \<Longrightarrow> w' = w\<lparr>tw_manager := tw_manager w'\<rparr> \<Longrightarrow> tunio_moves_by allowed w w'"
| control: "control_request_handler H peer cq w = (r, w') \<Longrightarrow> tunio_moves_by allowed w w'"
| registration: "registration_wait H w = (r, w') \<Longrightarrow> tunio_moves_by allowed w w'"
| authority: "allowed aq \<Longrightarrow> serve_authority H peer aq fds w = (r, w') \<Longrightarrow> tunio_moves_by allowed w w'"
| packet: "serve_packet H peer pq fds orig w = (r, w') \<Longrightarrow> tunio_moves_by allowed w w'"
| tick: "guard_tick H bootstrap w = (r, w') \<Longrightarrow> tunio_moves_by allowed w w'"
| clear: "guard_clear H active binding w = (r, w') \<Longrightarrow> tunio_moves_by allowed w w'"

abbreviation tunio_moves :: "tunio_world \<Rightarrow> tunio_world \<Rightarrow> bool" where
  "tunio_moves \<equiv> tunio_moves_by (\<lambda>_. True)"

end
