(* ===== verification/Tunio_Laws.thy ===== *)
theory Tunio_Laws
  imports Tunio_Serve
begin

text \<open>
  One induction over all control paths. A property of the controller and a property of the manager
  that survive each elementary update survive every request, every registration, every tick of the
  guard and every move of the manager: the locale \<open>tunio_invariant\<close> states what has to be shown of
  them, its lemmas carry it through the handlers, and the properties are its interpretations.
\<close>

section \<open>Triples for the elementary actions\<close>

lemma hoare_reading: "(\<And>w n. P w \<Longrightarrow> Q (f n) (w\<lparr>tw_readings := Suc (tw_readings w)\<rparr>)) \<Longrightarrow> hoare P (reading f) Q E"
  by (simp add: hoare_def reading_def)

lemma hoare_fallible_reading:
  "(\<And>w x. P w \<Longrightarrow> Q x (w\<lparr>tw_readings := Suc (tw_readings w)\<rparr>)) \<Longrightarrow>
   (\<And>w e. P w \<Longrightarrow> E e (w\<lparr>tw_readings := Suc (tw_readings w)\<rparr>)) \<Longrightarrow> hoare P (fallible_reading f) Q E"
  by (auto simp: hoare_def fallible_reading_def map_err_def split: sum.splits)

lemma hoare_controller_of: "(\<And>w. P w \<Longrightarrow> Q (tw_controller w) w) \<Longrightarrow> hoare P controller_of Q E"
  by (simp add: hoare_def controller_of_def)

lemma hoare_update_controller:
  "(\<And>w. P w \<Longrightarrow> Q () (w\<lparr>tw_controller := f (tw_controller w)\<rparr>)) \<Longrightarrow> hoare P (update_controller f) Q E"
  by (simp add: hoare_def update_controller_def)

lemma hoare_reject_if:
  "(\<And>w. P w \<Longrightarrow> b \<Longrightarrow> E (Code code) w) \<Longrightarrow> (\<And>w. P w \<Longrightarrow> \<not> b \<Longrightarrow> Q () w) \<Longrightarrow> hoare P (reject_if b code) Q E"
  by (auto simp: hoare_def reject_if_def)

lemma hoare_of_result_split:
  "(\<And>w x. P w \<Longrightarrow> r = Inr x \<Longrightarrow> Q x w) \<Longrightarrow> (\<And>w e. P w \<Longrightarrow> r = Inl e \<Longrightarrow> E e w) \<Longrightarrow> hoare P (of_result r) Q E"
  by (cases r) (auto simp: hoare_def of_result_def)

lemma hoare_pure_pre: "(\<And>w. P w \<Longrightarrow> b) \<Longrightarrow> (b \<Longrightarrow> hoare P m Q E) \<Longrightarrow> hoare P m Q E"
  by (auto simp: hoare_def)

section \<open>Invariants of the world\<close>

definition world_ok :: "(tunio_controller \<Rightarrow> bool) \<Rightarrow> (packet_manager \<Rightarrow> bool) \<Rightarrow> tunio_world \<Rightarrow> bool" where
  "world_ok IC IM w \<longleftrightarrow> IC (tw_controller w) \<and> IM (tw_manager w)"

lemma world_ok_sel [simp]:
  "world_ok IC IM (w\<lparr>tw_readings := n\<rparr>) = world_ok IC IM w"
  "world_ok IC IM (w\<lparr>tw_status := s\<rparr>) = world_ok IC IM w"
  "world_ok IC IM (w\<lparr>tw_controller := c\<rparr>) \<longleftrightarrow> IC c \<and> IM (tw_manager w)"
  "world_ok IC IM (w\<lparr>tw_manager := m\<rparr>) \<longleftrightarrow> IC (tw_controller w) \<and> IM m"
  by (simp_all add: world_ok_def)

text \<open>\<open>maintains\<close>: the action preserves the invariant whether it succeeds or fails, and its result satisfies \<open>Q\<close>.\<close>

definition maintains :: "(tunio_world \<Rightarrow> bool) \<Rightarrow> 'a tunio_op \<Rightarrow> ('a \<Rightarrow> bool) \<Rightarrow> bool" where
  "maintains I m Q \<longleftrightarrow> hoare I m (\<lambda>x w. I w \<and> Q x) (\<lambda>_. I)"

lemma maintains_bind:
  assumes "maintains I m Q" and "\<And>x. Q x \<Longrightarrow> maintains I (f x) R"
  shows "maintains I (bind m f) R"
  unfolding maintains_def
proof (rule hoare_bind)
  show "hoare I m (\<lambda>x w. I w \<and> Q x) (\<lambda>_. I)" using assms(1) by (simp add: maintains_def)
  show "hoare (\<lambda>w. I w \<and> Q x) (f x) (\<lambda>x w. I w \<and> R x) (\<lambda>_. I)" for x
    using assms(2) [of x] by (auto simp: maintains_def hoare_def)
qed

lemma maintains_andthen: "maintains I m (\<lambda>_. True) \<Longrightarrow> maintains I k R \<Longrightarrow> maintains I (andthen m k) R"
  unfolding andthen_def by (rule maintains_bind)

lemma maintains_return: "Q x \<Longrightarrow> maintains I (return x) Q"
  by (simp add: maintains_def hoare_def return_def)

lemma maintains_throw: "maintains I (throw e) Q"
  by (simp add: maintains_def hoare_def throw_def)

lemma maintains_of_result: "(\<And>x. r = Inr x \<Longrightarrow> Q x) \<Longrightarrow> maintains I (of_result r) Q"
  unfolding maintains_def by (rule hoare_of_result_split) auto

lemma maintains_attempt: "maintains I m (\<lambda>_. True) \<Longrightarrow> maintains I (attempt m) (\<lambda>_. True)"
  unfolding maintains_def by (rule hoare_attempt) simp

lemma maintains_reject_if: "maintains I (reject_if b code) (\<lambda>_. \<not> b)"
  unfolding maintains_def by (rule hoare_reject_if) auto

lemma maintains_reject_then: "(\<not> b \<Longrightarrow> maintains I k R) \<Longrightarrow> maintains I (andthen (reject_if b code) k) R"
  unfolding andthen_def by (rule maintains_bind [OF maintains_reject_if])

lemma maintains_if: "(b \<Longrightarrow> maintains I m Q) \<Longrightarrow> (\<not> b \<Longrightarrow> maintains I k Q) \<Longrightarrow> maintains I (if b then m else k) Q"
  by simp

lemma maintains_weaken: "maintains I m Q \<Longrightarrow> (\<And>x. Q x \<Longrightarrow> R x) \<Longrightarrow> maintains I m R"
  unfolding maintains_def by (erule hoare_weaken) auto

lemma maintains_case_option:
  "(x = None \<Longrightarrow> maintains I m Q) \<Longrightarrow> (\<And>v. x = Some v \<Longrightarrow> maintains I (f v) Q) \<Longrightarrow> maintains I (case x of None \<Rightarrow> m | Some v \<Rightarrow> f v) Q"
  by (cases x) auto

lemma maintains_case_flow:
  "maintains I m Q \<Longrightarrow> maintains I k Q \<Longrightarrow> maintains I (case x of Return_Early \<Rightarrow> m | Fall_Through \<Rightarrow> k) Q"
  by (cases x) auto

lemma maintains_case_prod: "(\<And>a b. maintains I (f a b) Q) \<Longrightarrow> maintains I (case x of (a, b) \<Rightarrow> f a b) Q"
  by (cases x) auto

lemma maintainsD: "maintains I m Q \<Longrightarrow> m w = (r, w') \<Longrightarrow> I w \<Longrightarrow> I w'"
  unfolding maintains_def by (cases r) (auto dest: hoare_Inr hoare_Inl)

lemma maintainsI: "(\<And>w r w'. m w = (r, w') \<Longrightarrow> I w \<Longrightarrow> I w') \<Longrightarrow> maintains I m (\<lambda>_. True)"
  unfolding maintains_def by (rule hoareI) auto

text \<open>An update made right after the controller was read and guards on it passed.\<close>

lemma maintains_read:
  assumes "\<And>c. hoare (\<lambda>w. I w \<and> tw_controller w = c) (f c) (\<lambda>x w. I w \<and> Q x) (\<lambda>_. I)"
  shows "maintains I (bind controller_of f) Q"
  unfolding maintains_def
  by (rule hoare_bind [where R = "\<lambda>c w. I w \<and> tw_controller w = c", OF hoare_controller_of assms]) simp

lemma guarded_reject:
  assumes "\<not> b \<Longrightarrow> hoare (\<lambda>w. I w \<and> tw_controller w = c) k (\<lambda>x w. I w \<and> Q x) (\<lambda>_. I)"
  shows "hoare (\<lambda>w. I w \<and> tw_controller w = c) (andthen (reject_if b code) k) (\<lambda>x w. I w \<and> Q x) (\<lambda>_. I)"
proof (cases b)
  case True
  then show ?thesis by (auto simp: hoare_def andthen_def bind_def reject_if_def)
next
  case False
  then show ?thesis using assms by (simp add: hoare_def andthen_def bind_def reject_if_def)
qed

lemma guarded_update:
  assumes "\<And>w. I w \<Longrightarrow> tw_controller w = c \<Longrightarrow> I (w\<lparr>tw_controller := f c\<rparr>)" and "maintains I k Q"
  shows "hoare (\<lambda>w. I w \<and> tw_controller w = c) (andthen (update_controller f) k) (\<lambda>x w. I w \<and> Q x) (\<lambda>_. I)"
  by (rule hoare_andthen [where R = I])
    (use assms in \<open>auto intro!: hoare_update_controller simp: maintains_def\<close>)

lemma guarded_keeps: "maintains I k Q \<Longrightarrow> hoare (\<lambda>w. I w \<and> tw_controller w = c) k (\<lambda>x w. I w \<and> Q x) (\<lambda>_. I)"
  unfolding maintains_def by (erule hoare_pre) simp

section \<open>Carrying an invariant through every control path\<close>

abbreviation with_authority :: "tunio_controller \<Rightarrow> (authority_state \<Rightarrow> authority_state) \<Rightarrow> tunio_controller" where
  "with_authority c f \<equiv> c\<lparr>co_authority := f (co_authority c)\<rparr>"

text \<open>
  A change is admissible if it prepares a known record or commits a permitted transaction, or does
  neither; a request is allowed if the transaction it would commit is permitted and the envelope it
  would cancel may be cancelled.
\<close>

definition admissible :: "(owner_authority \<Rightarrow> bool) \<Rightarrow> (owner_transaction \<Rightarrow> bool) \<Rightarrow> owner_change \<Rightarrow> bool" where
  "admissible known commits change \<longleftrightarrow>
    (\<forall>tx port check. change = Prepare_Owner tx port check \<longrightarrow> (\<exists>r. known r \<and> oa_transaction r = tx))
    \<and> (\<forall>tx. change = Commit_Owner tx \<longrightarrow> commits tx)"

lemma admissible_simps [simp]:
  "admissible known commits (Prepare_Owner tx port check) \<longleftrightarrow> (\<exists>r. known r \<and> oa_transaction r = tx)"
  "admissible known commits (Commit_Owner tx) \<longleftrightarrow> commits tx"
  "admissible known commits (Finish_Owner_Drain tx)"
  "admissible known commits (Retire_Owner_After_Failure tx)"
  "admissible known commits (Abort_Owner tx)"
  "admissible known commits (Probe_Owner_Transaction tid revision)"
  "admissible known commits (Attach_Port port deadline)"
  "admissible known commits (Attach_Authorized_Port port deadline check)"
  "admissible known commits (Revoke_Owner epoch)"
  "admissible known commits Probe_Manager"
  by (simp_all add: admissible_def)

definition request_allowed ::
    "(owner_authority \<Rightarrow> bool) \<Rightarrow> (owner_transaction \<Rightarrow> bool) \<Rightarrow> (authority_envelope \<Rightarrow> bool) \<Rightarrow> authority_request \<Rightarrow> bool" where
  "request_allowed known commits cancels q \<longleftrightarrow>
    (\<forall>r. aq_operation q = Commit_Owner_Operation \<longrightarrow> known r \<longrightarrow> aq_envelope q = Some (oa_envelope r) \<longrightarrow> commits (oa_transaction r))
    \<and> (\<forall>b e. aq_operation q = Recover_Precommit b \<longrightarrow> aq_envelope q = Some e \<longrightarrow> cancels e)"

locale tunio_restricted =
  fixes IC :: "tunio_controller \<Rightarrow> bool" and IM :: "packet_manager \<Rightarrow> bool" and known :: "owner_authority \<Rightarrow> bool"
    and commits :: "owner_transaction \<Rightarrow> bool" and cancels :: "authority_envelope \<Rightarrow> bool"
  assumes own_steps: "IM s \<Longrightarrow> own_event event \<Longrightarrow> event_enabled env s event \<Longrightarrow>
      manager_step env event s = (outcome, s') \<Longrightarrow> (\<And>error. outcome \<noteq> Stopped error) \<Longrightarrow> IM s'"
    and changes: "IM s \<Longrightarrow> admissible known commits change \<Longrightarrow>
      pm_control_available s \<Longrightarrow> apply_change env change s = (result, s') \<Longrightarrow> IM s'"
    and receipts: "IC c \<Longrightarrow> IC (reconcile_state now actual c)"
    and deadlines: "IC c \<Longrightarrow> IC (reconcile_deadline now_mono now actual c)"
    and staged: "IC c \<Longrightarrow> \<not> stage_rejected e c \<Longrightarrow> IC (with_authority c (stage_envelope e))"
    and cancelled: "IC c \<Longrightarrow> cancels e \<Longrightarrow> IC (with_authority c (cancel_precommit e))"
    and unstaged: "IC c \<Longrightarrow> IC (with_authority c (\<lambda>st. st\<lparr>as_pending := None\<rparr>))"
    and isolated: "IC c \<Longrightarrow> IC (with_authority c (\<lambda>st. st\<lparr>as_isolated_committed := Some e\<rparr>))"
    and retired: "IC c \<Longrightarrow> IC (with_authority c (\<lambda>st. st\<lparr>as_retired_expired_commit := Some e\<rparr>))"
    and recorded: "IC c \<Longrightarrow> known r \<Longrightarrow> IC (with_authority c (\<lambda>st. st\<lparr>as_owner_candidate := Some r\<rparr>))"
    and remembered: "IC c \<Longrightarrow> owner_record (co_authority c) tid = Some r \<Longrightarrow> known r"
    and fresh: "IC c \<Longrightarrow> as_pending (co_authority c) = Some (oa_envelope r) \<Longrightarrow>
      tx_revision (oa_transaction r) = ae_authority_revision (oa_envelope r) \<Longrightarrow>
      tx_binding (oa_transaction r) = ae_binding (oa_envelope r) \<Longrightarrow> known r"
    and adopted: "IC c \<Longrightarrow> co_epoch c < epoch \<Longrightarrow> IC (c\<lparr>co_controller := p, co_epoch := epoch\<rparr>)"
    and signalled: "IC c \<Longrightarrow> IC (c\<lparr>co_registration := x\<rparr>)"
    and registered: "IC c \<Longrightarrow> IC (c\<lparr>co_registered := True, co_registration := None\<rparr>)"
    and cleared: "IC c \<Longrightarrow> IC (c\<lparr>co_owner_active := False,
      co_authority := (co_authority c)\<lparr>as_active := None, as_actual_deadline_mono_ms := None\<rparr>\<rparr>)"
    and rebound: "IC c \<Longrightarrow> IC (c\<lparr>co_binding := b, co_owner_active := y, co_auth_deadline_unix := d\<rparr>)"
begin

lemma settle_ok: "IM s \<Longrightarrow> IM (settle events s)"
proof (induction events s rule: settle.induct)
  case (2 env event rest s)
  show ?case
  proof (cases "own_event event \<and> event_enabled env s event")
    case True
    obtain outcome s' where step: "manager_step env event s = (outcome, s')" by fastforce
    have "IM s'" if "\<And>error. outcome \<noteq> Stopped error"
      using own_steps [OF "2.prems" _ _ step that] True by blast
    with 2 True step show ?thesis by (cases outcome) auto
  qed (use 2 in auto)
qed simp

lemma maintains_update_controller: "(\<And>c. IC c \<Longrightarrow> IC (f c)) \<Longrightarrow> maintains (world_ok IC IM) (update_controller f) (\<lambda>_. True)"
  unfolding maintains_def by (rule hoare_update_controller) (simp add: world_ok_def)

lemma maintains_update_authority:
  "(\<And>c. IC c \<Longrightarrow> IC (with_authority c f)) \<Longrightarrow> maintains (world_ok IC IM) (update_authority f) (\<lambda>_. True)"
  unfolding update_authority_def by (rule maintains_update_controller)

lemma maintains_controller_of: "maintains (world_ok IC IM) controller_of IC"
  unfolding maintains_def by (rule hoare_controller_of) (simp add: world_ok_def)

lemma maintains_reading: "maintains (world_ok IC IM) (reading f) (\<lambda>_. True)"
  unfolding maintains_def by (rule hoare_reading) simp

lemma maintains_fallible_reading: "maintains (world_ok IC IM) (fallible_reading f) (\<lambda>_. True)"
  unfolding maintains_def by (rule hoare_fallible_reading) simp_all

lemma maintains_publish: "maintains (world_ok IC IM) (publish H) (\<lambda>_. True)"
  by (auto simp: maintains_def hoare_def publish_def split: sum.splits prod.splits)

lemma maintains_exchange:
  assumes "admissible known commits change"
  shows "maintains (world_ok IC IM) (manager_exchange H wants change) (\<lambda>_. True)"
proof -
  have applied: "IM s2" if "apply_change env change s = (x, s2)" "pm_control_available s" "IM s" for env s x s2
    using that(3) assms that(2,1) by (rule changes)
  have "world_ok IC IM w'" if "world_ok IC IM w" and "manager_exchange H wants change w = (r, w')" for w r w'
    using that settle_ok [of "tw_manager w"]
    by (auto simp: world_ok_def manager_exchange_def Let_def dest: applied split: option.splits if_splits prod.splits)
  then show ?thesis
    by (auto simp: maintains_def hoare_def split: prod.splits sum.splits)
qed

lemma maintains_outcome:
  "admissible known commits change \<Longrightarrow>
    maintains (world_ok IC IM) (manager_outcome H change) (\<lambda>_. True)"
  unfolding manager_outcome_def by (rule maintains_exchange)

lemma maintains_change:
  "admissible known commits change \<Longrightarrow>
    maintains (world_ok IC IM) (manager_change H change) (\<lambda>_. True)"
  unfolding manager_change_def
  by (rule maintains_bind [OF maintains_outcome]) (auto intro!: maintains_andthen maintains_of_result maintains_return)

lemma maintains_clocks:
  "maintains (world_ok IC IM) (authority_monotonic_ms H) (\<lambda>_. True)"
  "maintains (world_ok IC IM) (unix_time H) (\<lambda>_. True)"
  "maintains (world_ok IC IM) (read_clock H) (\<lambda>_. True)"
  unfolding authority_monotonic_ms_def unix_time_def read_clock_def
  by (auto intro!: maintains_bind [where Q = "\<lambda>_. True"] maintains_reading maintains_fallible_reading maintains_return)

lemma maintains_reconcile: "maintains (world_ok IC IM) (reconcile H actual) (\<lambda>_. True)"
  unfolding reconcile_def
  by (intro maintains_bind [where Q = "\<lambda>_. True"] maintains_andthen maintains_reading maintains_clocks maintains_update_controller
      receipts deadlines)

lemma maintains_probe_manager: "maintains (world_ok IC IM) (probe_manager H) (\<lambda>_. True)"
  unfolding probe_manager_def
  by (intro maintains_bind [where Q = "\<lambda>_. True"] maintains_andthen maintains_change maintains_reconcile maintains_return) simp_all

lemma maintains_apply_owner_change:
  "admissible known commits change \<Longrightarrow>
    maintains (world_ok IC IM) (apply_owner_change H change) (\<lambda>_. True)"
  unfolding apply_owner_change_def
  by (rule maintains_bind [OF maintains_outcome])
    (auto intro!: maintains_andthen maintains_reconcile maintains_publish maintains_of_result split: prod.splits)

lemma maintains_validate_envelope: "maintains (world_ok IC IM) (validate_envelope H e) (\<lambda>_. True)"
  unfolding validate_envelope_def
  by (intro maintains_bind [where Q = "\<lambda>_. True"] maintains_clocks maintains_reading maintains_fallible_reading maintains_of_result
      maintains_case_option maintains_return maintains_throw maintains_weaken [OF maintains_controller_of]) simp_all

lemma maintains_owner_deadline: "maintains (world_ok IC IM) (owner_deadline_with_clocks H d x) (\<lambda>_. True)"
  unfolding owner_deadline_with_clocks_def
  by (intro maintains_bind [where Q = "\<lambda>_. True"] maintains_clocks maintains_reading maintains_fallible_reading maintains_of_result
      maintains_return) simp_all

lemma maintains_packet_port: "maintains (world_ok IC IM) (packet_port H fds peer b) (\<lambda>_. True)"
  unfolding packet_port_def by (cases fds) (auto intro: maintains_throw maintains_of_result)

lemma maintains_required_envelope: "maintains (world_ok IC IM) (required_envelope q) (\<lambda>_. True)"
  unfolding required_envelope_def by (rule maintains_of_result) simp

lemma maintains_required_record: "maintains (world_ok IC IM) (required_record q code) known"
  unfolding required_record_def
  by (rule maintains_bind [OF maintains_controller_of]) (auto intro!: maintains_of_result dest: remembered simp: ok_or_eq)

lemma maintains_prepare_record:
  assumes "IC c" and "as_pending (co_authority c) = Some e"
  shows "maintains (world_ok IC IM) (prepare_record H e expected d b) known"
  unfolding prepare_record_def owner_deadline_def
  by (intro maintains_bind [where Q = "\<lambda>_. True"] maintains_andthen maintains_clocks maintains_reading maintains_of_result
      maintains_weaken [OF maintains_reject_if] maintains_owner_deadline maintains_return fresh [OF assms(1)])
    (simp_all add: assms(2))

lemma maintains_prepare_or_reuse: "maintains (world_ok IC IM) (prepare_or_reuse H q e expected d) known"
  unfolding prepare_or_reuse_def
proof (rule maintains_bind [OF maintains_controller_of], rule maintains_case_option)
  fix c assume "IC c"
  then show "maintains (world_ok IC IM)
      (andthen (reject_if (expected \<noteq> map_option pb_owner_epoch (as_actual_owner_binding (co_authority c))) ''owner_prepare_active_mismatch'')
        (andthen (reject_if (as_pending (co_authority c) \<noteq> Some e) ''authority_stage_mismatch'')
          (prepare_record H e expected d (as_actual_owner_binding (co_authority c))))) known"
    by (auto intro!: maintains_reject_then maintains_prepare_record)
next
  fix c r assume "IC c" "owner_record (co_authority c) (aq_transaction_id q) = Some r"
  then show "maintains (world_ok IC IM) (andthen (reject_if (\<not> reusable_record e expected d r) ''owner_prepare_identity_mismatch'') (return r)) known"
    by (auto intro!: maintains_reject_then maintains_return dest: remembered)
qed

lemma maintains_read_any: "(\<And>c. IC c \<Longrightarrow> maintains (world_ok IC IM) (f c) Q) \<Longrightarrow> maintains (world_ok IC IM) (bind controller_of f) Q"
  by (rule maintains_bind [OF maintains_controller_of])

lemma maintains_then: "maintains (world_ok IC IM) m (\<lambda>_. True) \<Longrightarrow> (\<And>x. maintains (world_ok IC IM) (f x) Q) \<Longrightarrow> maintains (world_ok IC IM) (bind m f) Q"
  by (rule maintains_bind)

lemma maintains_retire_expired: "maintains (world_ok IC IM) (op_retire_expired_commit H q b) (\<lambda>_. True)"
  unfolding op_retire_expired_commit_def
  by (intro maintains_then maintains_required_envelope maintains_weaken [OF maintains_required_record] maintains_probe_manager
      maintains_read_any maintains_reject_then maintains_andthen maintains_update_authority retired maintains_return) simp_all

lemma maintains_candidate_lives: "maintains (world_ok IC IM) (candidate_lives H c e) (\<lambda>_. True)"
  unfolding candidate_lives_def by (intro maintains_if maintains_fallible_reading maintains_return) simp

lemma maintains_isolate: "maintains (world_ok IC IM) (op_isolate_committed_owner H q b) (\<lambda>_. True)"
  unfolding op_isolate_committed_owner_def
  by (intro maintains_then maintains_required_envelope maintains_weaken [OF maintains_required_record] maintains_probe_manager
      maintains_read_any maintains_reject_then maintains_candidate_lives maintains_andthen maintains_apply_owner_change
      maintains_update_authority isolated maintains_return) simp_all

lemma maintains_the_envelope: "maintains (world_ok IC IM) (required_envelope q) (\<lambda>e. aq_envelope q = Some e)"
  unfolding required_envelope_def by (rule maintains_of_result) (simp add: ok_or_eq)

lemma maintains_recover:
  assumes "\<And>e. aq_envelope q = Some e \<Longrightarrow> cancels e"
  shows "maintains (world_ok IC IM) (op_recover_precommit H q b) (\<lambda>_. True)"
  unfolding op_recover_precommit_def
  by (intro maintains_bind [OF maintains_the_envelope] maintains_then maintains_reject_then maintains_probe_manager maintains_of_result
      maintains_case_option maintains_weaken [OF maintains_required_record] maintains_read_any maintains_andthen maintains_publish
      maintains_update_authority cancelled maintains_return) (simp_all add: assms)

lemma maintains_probe: "maintains (world_ok IC IM) (op_probe_transaction H q) (\<lambda>_. True)"
  unfolding op_probe_transaction_def
  by (intro maintains_reject_then maintains_if maintains_andthen maintains_publish maintains_then maintains_probe_manager maintains_of_result
      maintains_case_option maintains_throw maintains_outcome maintains_case_prod maintains_reconcile maintains_return) simp_all

lemma maintains_prepare: "maintains (world_ok IC IM) (op_prepare_owner H peer q fds expected d) (\<lambda>_. True)"
  unfolding op_prepare_owner_def
  by (intro maintains_then [OF maintains_required_envelope] maintains_reject_then maintains_andthen maintains_validate_envelope maintains_read_any
      maintains_bind [OF maintains_prepare_or_reuse] maintains_then [OF maintains_packet_port] maintains_update_authority
      maintains_apply_owner_change maintains_return)
    (auto intro: recorded)

lemma maintains_conclude:
  assumes "\<And>r. known r \<Longrightarrow> aq_envelope q = Some (oa_envelope r) \<Longrightarrow> admissible known commits (change (oa_transaction r))"
  shows "maintains (world_ok IC IM) (op_conclude_owner H q change) (\<lambda>_. True)"
  unfolding op_conclude_owner_def
  by (intro maintains_read_any maintains_reject_then maintains_bind [OF maintains_required_record] maintains_andthen maintains_if
      maintains_validate_envelope maintains_apply_owner_change maintains_return) (simp_all add: assms)

lemma maintains_abort: "maintains (world_ok IC IM) (op_abort_owner H q) (\<lambda>_. True)"
  unfolding op_abort_owner_def
  by (intro maintains_then maintains_weaken [OF maintains_required_record] maintains_reject_then maintains_andthen
      maintains_apply_owner_change maintains_return) simp_all

lemma maintains_stage: "maintains (world_ok IC IM) (op_stage_authority H q) (\<lambda>_. True)"
  unfolding op_stage_authority_def update_authority_def
  by (intro maintains_then [OF maintains_required_envelope] maintains_reject_then maintains_andthen maintains_validate_envelope maintains_read
      guarded_reject hoare_if guarded_keeps [OF maintains_return] guarded_update)
    (auto simp: world_ok_def intro: staged maintains_return)

lemma maintains_attach: "maintains (world_ok IC IM) (op_attach_authorized H peer q fds) (\<lambda>_. True)"
  unfolding op_attach_authorized_def owner_deadline_def
  by (intro maintains_read_any maintains_reject_then maintains_then maintains_required_envelope maintains_andthen maintains_validate_envelope
      maintains_owner_deadline maintains_packet_port maintains_change maintains_reconcile maintains_return) simp_all

lemma maintains_revoke: "maintains (world_ok IC IM) (op_revoke_exact H q) (\<lambda>_. True)"
  unfolding op_revoke_exact_def
  by (intro maintains_reject_then maintains_read_any maintains_then maintains_of_result maintains_change maintains_andthen maintains_reconcile
      maintains_return) simp_all

lemma maintains_discard: "maintains (world_ok IC IM) (op_discard_authority q) (\<lambda>_. True)"
  unfolding op_discard_authority_def
  by (intro maintains_reject_then maintains_read_any maintains_andthen maintains_update_authority unstaged maintains_return) simp_all

lemma maintains_dispatch:
  assumes "request_allowed known commits cancels q" and "aq_operation q = operation"
  shows "maintains (world_ok IC IM) (authority_dispatch H peer q fds operation) (\<lambda>_. True)"
  using assms
  by (cases operation)
    (auto simp: request_allowed_def intro!: maintains_retire_expired maintains_isolate maintains_recover maintains_probe
      maintains_prepare maintains_conclude maintains_abort maintains_stage maintains_attach maintains_revoke maintains_discard)

lemma maintains_authority_request:
  assumes "request_allowed known commits cancels q"
  shows "maintains (world_ok IC IM) (authority_apply_request H peer q fds) (\<lambda>_. True)"
  unfolding authority_apply_request_def
  by (intro maintains_read_any maintains_then maintains_reading maintains_reject_then maintains_andthen maintains_weaken [OF maintains_probe_manager]
      maintains_dispatch assms maintains_case_flow maintains_publish maintains_if maintains_fallible_reading maintains_return) simp_all

lemma maintains_serve_authority:
  assumes "request_allowed known commits cancels q"
  shows "maintains (world_ok IC IM) (serve_authority H peer q fds) (\<lambda>_. True)"
  unfolding serve_authority_def
  by (intro maintains_then maintains_attempt maintains_authority_request assms maintains_read_any maintains_return) simp

lemma maintains_rebind_deadline: "maintains (world_ok IC IM) (rebind_deadline H q orig) (\<lambda>_. True)"
  unfolding rebind_deadline_def Let_def
  by (intro maintains_reject_then maintains_then maintains_reading maintains_fallible_reading maintains_of_result maintains_return) simp_all

lemma maintains_bootstrap_check: "maintains (world_ok IC IM) (bootstrap_check H cap d) (\<lambda>_. True)"
  unfolding bootstrap_check_def Let_def
  by (intro maintains_then maintains_clocks maintains_reading maintains_fallible_reading maintains_if maintains_throw maintains_case_option maintains_return) simp

lemma maintains_attach_change:
  "maintains (world_ok IC IM) (attach_change H peer q fds orig) (admissible known commits)"
  unfolding attach_change_def
  by (intro maintains_read_any maintains_reject_then maintains_then maintains_rebind_deadline maintains_packet_port maintains_case_option
      maintains_bootstrap_check maintains_return) simp_all

lemma maintains_revoke_change:
  "maintains (world_ok IC IM) (revoke_change q fds) (admissible known commits)"
  unfolding revoke_change_def by (intro maintains_read_any maintains_reject_then maintains_return) simp

lemma maintains_packet_commit:
  assumes "admissible known commits change"
  shows "maintains (world_ok IC IM) (packet_commit H peer q change) (\<lambda>_. True)"
  unfolding packet_commit_def
  by (intro maintains_then maintains_reading maintains_reject_then maintains_exchange maintains_case_prod maintains_andthen maintains_of_result
      maintains_update_controller maintains_publish rebound) (simp_all add: assms)

lemma maintains_packet_request: "maintains (world_ok IC IM) (packet_apply_request H peer q fds orig) (\<lambda>_. True)"
  unfolding packet_apply_request_def
  by (intro maintains_read_any maintains_then [OF maintains_reading] maintains_reject_then, cases "pq_operation q")
    (auto intro: maintains_bind [OF maintains_attach_change] maintains_bind [OF maintains_revoke_change] maintains_packet_commit
      maintains_weaken [OF maintains_reject_if])

lemma maintains_serve_packet: "maintains (world_ok IC IM) (serve_packet H peer q fds orig) (\<lambda>_. True)"
  unfolding serve_packet_def
  by (intro maintains_then maintains_attempt maintains_packet_request maintains_read_any maintains_return) simp

lemma maintains_guard_tick: "maintains (world_ok IC IM) (guard_tick H bootstrap) (\<lambda>_. True)"
  unfolding guard_tick_def guard_expired_def
  by (intro maintains_read_any maintains_if maintains_then maintains_clocks maintains_case_option maintains_attempt maintains_exchange maintains_return)
    (auto intro: maintains_return split: sum.splits)

lemma maintains_guard_clear: "maintains (world_ok IC IM) (guard_clear H a b) (\<lambda>_. True)"
  unfolding guard_clear_def
  by (intro maintains_read_any maintains_if maintains_andthen maintains_update_controller cleared maintains_then maintains_attempt maintains_publish
      maintains_return) simp_all

lemma maintains_adopt: "maintains (world_ok IC IM) (control_adopt H peer) (\<lambda>_. True)"
proof (rule maintainsI)
  fix w r w' assume run: "control_adopt H peer w = (r, w')" and ok: "world_ok IC IM w"
  show "world_ok IC IM w'"
  proof (cases "checked_add (co_epoch (tw_controller w)) 1")
    case (Some epoch)
    then have "co_epoch (tw_controller w) < epoch"
      by (auto simp: checked_add_def not_less order_less_le split: if_splits)
    with ok have new: "IC ((tw_controller w)\<lparr>co_controller := peer, co_epoch := epoch\<rparr>)"
      by (simp add: world_ok_def adopted)
    have restored: "c\<lparr>co_controller := co_controller c, co_epoch := co_epoch c\<rparr> = c" for c :: tunio_controller
      by (cases c) simp
    show ?thesis
      using run ok new Some
      by (auto simp: control_adopt_def bind_def andthen_def attempt_def controller_of_def update_controller_def
          publish_def return_def world_ok_def restored split: sum.splits if_splits)
  qed (use run ok in \<open>auto simp: control_adopt_def bind_def controller_of_def return_def\<close>)
qed

lemma maintains_control: "maintains (world_ok IC IM) (control_request_handler H peer q) (\<lambda>_. True)"
proof -
  have "maintains (world_ok IC IM) (control_dispatch H peer operation) (\<lambda>_. True)" for operation
    by (cases operation)
      (auto simp: control_probe_def control_takeover_def control_stop_def intro!: maintains_read_any maintains_andthen maintains_if
        maintains_then [OF maintains_reading] maintains_update_controller signalled maintains_return maintains_adopt)
  then show ?thesis
    unfolding control_request_handler_def
    by (intro maintains_read_any maintains_then maintains_if maintains_return maintains_case_prod) simp_all
qed

lemma maintains_registration: "maintains (world_ok IC IM) (registration_wait H) (\<lambda>_. True)"
  unfolding registration_wait_def
  by (intro maintains_read_any maintains_reject_then maintains_then maintains_reading maintains_fallible_reading maintains_andthen
      maintains_update_controller registered maintains_publish)

lemma allowed_moves_ok:
  assumes "\<And>q. allowed q \<Longrightarrow> request_allowed known commits cancels q"
  shows "tunio_moves_by allowed w w' \<Longrightarrow> world_ok IC IM w \<Longrightarrow> world_ok IC IM w'"
proof (induction rule: tunio_moves_by.induct)
  case (manager w' events w)
  from manager(3) have "IM (settle events (tw_manager w))" "IC (tw_controller w)"
    by (auto simp: world_ok_def intro: settle_ok)
  with manager(1) show ?case by (subst manager(2)) simp
qed (auto dest: maintainsD [OF maintains_control] maintainsD [OF maintains_registration] maintainsD [OF maintains_serve_authority [OF assms]]
    maintainsD [OF maintains_serve_packet] maintainsD [OF maintains_guard_tick] maintainsD [OF maintains_guard_clear])

lemma allowed_runs_ok:
  assumes "\<And>q. allowed q \<Longrightarrow> request_allowed known commits cancels q"
  shows "(tunio_moves_by allowed)\<^sup>*\<^sup>* w w' \<Longrightarrow> world_ok IC IM w \<Longrightarrow> world_ok IC IM w'"
  by (induction rule: rtranclp_induct) (auto intro: allowed_moves_ok [OF assms])

end

text \<open>When every transaction may be committed and every envelope cancelled, every run is allowed.\<close>

locale tunio_invariant = tunio_restricted IC IM known "\<lambda>_. True" "\<lambda>_. True"
  for IC :: "tunio_controller \<Rightarrow> bool" and IM :: "packet_manager \<Rightarrow> bool" and known :: "owner_authority \<Rightarrow> bool"
begin

lemma runs_ok: "tunio_moves\<^sup>*\<^sup>* w w' \<Longrightarrow> world_ok IC IM w \<Longrightarrow> world_ok IC IM w'"
  by (rule allowed_runs_ok) (simp_all add: request_allowed_def)

end

end
