(* ===== verification/Tunio_Informed.thy ===== *)
theory Tunio_Informed
  imports Tunio_Laws
begin

text \<open>
  The controller believes only receipts. After every reconciliation its view of the owner agrees with
  the receipt, and when a request succeeds the last receipt is the manager's state: what an
  accepted reply reports of the owner is what the manager holds.
\<close>

definition believes :: "authority_state \<Rightarrow> packet_port_receipt \<Rightarrow> bool" where
  "believes st actual \<longleftrightarrow> as_actual_owner_binding st = rc_binding actual
    \<and> as_owner_highest_revision st = rc_highest_transaction_revision actual
    \<and> as_retained_owner_binding st = rc_retained_owner_binding actual
    \<and> as_old_owner_drained st = rc_old_owner_drained actual
    \<and> as_forced_retirement st = rc_forced_retirement actual
    \<and> (case as_owner_candidate st of None \<Rightarrow> True
       | Some r \<Rightarrow> oa_prepared r \<and> receipt_is (rc_pending actual) (oa_transaction r))
    \<and> (case as_owner_terminal st of None \<Rightarrow> True
       | Some (r, phase) \<Rightarrow> receipt_is (rc_last_transaction actual) (oa_transaction r))"

definition informed :: "tunio_world \<Rightarrow> bool" where
  "informed w \<longleftrightarrow> believes (co_authority (tw_controller w)) (manager_receipt (tw_manager w))"

lemma informed_sel [simp]:
  "informed (w\<lparr>tw_readings := n\<rparr>) = informed w" "informed (w\<lparr>tw_status := s\<rparr>) = informed w"
  "informed (w\<lparr>tw_controller := c\<rparr>) = believes (co_authority c) (manager_receipt (tw_manager w))"
  by (simp_all add: informed_def)

lemma believes_reconcile_owner: "believes (reconcile_owner actual st) actual"
  by (auto simp: believes_def reconcile_owner_def derive_receipts_def settle_terminal_def settle_candidate_def
      note_actual_def receipt_is_def split: option.splits if_splits)

lemma believes_view [simp]:
  "believes (raise_marks actual' st) actual = believes st actual"
  "believes (adopt_applied actual' st) actual = believes st actual"
  "believes (st\<lparr>as_actual_deadline_mono_ms := d\<rparr>) actual = believes st actual"
  "believes (st\<lparr>as_pending := p\<rparr>) actual = believes st actual"
  "believes (st\<lparr>as_isolated_committed := p\<rparr>) actual = believes st actual"
  "believes (st\<lparr>as_retired_expired_commit := p\<rparr>) actual = believes st actual"
  "believes (cancel_precommit e st) actual = believes st actual"
  "believes (stage_envelope e st) actual = believes st actual"
  by (simp_all add: believes_def raise_marks_def adopt_applied_def cancel_precommit_def stage_envelope_def
      split: option.splits)

lemma believes_reconcile_state: "believes (co_authority (reconcile_state now actual c)) actual"
  by (simp add: reconcile_state_def Let_def believes_reconcile_owner)

lemma believes_reconcile_deadline:
  "believes (co_authority (reconcile_deadline now_mono now actual' c)) actual = believes (co_authority c) actual"
  by (simp add: reconcile_deadline_def Let_def split: option.splits)

section \<open>Exchanges and reconciliation\<close>

lemma hoare_bind_pair:
  assumes "hoare P m (\<lambda>(a, b). R a b) E" and "\<And>a b. hoare (R a b) (f a b) Q E"
  shows "hoare P (bind m (\<lambda>(a, b). f a b)) Q E"
  by (rule hoare_bind [OF assms(1)]) (use assms(2) in \<open>auto split: prod.splits\<close>)

text \<open>The receipt that comes back is the manager's state at that moment.\<close>

lemma hoare_exchange_receipt:
  "hoare (\<lambda>_. True) (manager_exchange H wants change)
     (\<lambda>(result, actual) w. actual = manager_receipt (tw_manager w)) (\<lambda>_ _. True)"
  by (auto simp: hoare_def manager_exchange_def Let_def split: option.splits prod.splits if_splits)

lemma hoare_outcome_receipt:
  "hoare (\<lambda>_. True) (manager_outcome H change)
     (\<lambda>(result, actual) w. actual = manager_receipt (tw_manager w)) (\<lambda>_ _. True)"
  unfolding manager_outcome_def by (rule hoare_exchange_receipt)

lemma hoare_change_receipt:
  "hoare (\<lambda>_. True) (manager_change H change) (\<lambda>actual w. actual = manager_receipt (tw_manager w)) (\<lambda>_ _. True)"
  unfolding manager_change_def
proof (rule hoare_bind_pair [OF hoare_outcome_receipt])
  show "hoare (\<lambda>w. actual = manager_receipt (tw_manager w))
      (andthen (of_result (map_err Manager_Rejected result)) (return actual))
      (\<lambda>actual w. actual = manager_receipt (tw_manager w)) (\<lambda>_ _. True)" for result actual
    by (cases result) (simp_all add: hoare_def andthen_def bind_def of_result_def return_def)
qed

lemma hoare_reconcile:
  "hoare (\<lambda>w. actual = manager_receipt (tw_manager w)) (reconcile H actual)
     (\<lambda>_ w. actual = manager_receipt (tw_manager w) \<and> informed w) (\<lambda>_ _. True)"
  by (auto simp: hoare_def reconcile_def bind_def andthen_def reading_def update_controller_def authority_monotonic_ms_def
      fallible_reading_def map_err_def believes_reconcile_state believes_reconcile_deadline informed_def
      split: prod.splits sum.splits)

lemma hoare_probe_manager:
  "hoare (\<lambda>_. True) (probe_manager H) (\<lambda>actual w. actual = manager_receipt (tw_manager w) \<and> informed w) (\<lambda>_ _. True)"
  unfolding probe_manager_def
  by (rule hoare_bind [OF hoare_change_receipt], rule hoare_andthen [OF hoare_reconcile]) (auto intro: hoare_return)

lemma hoare_apply_owner_change:
  "hoare (\<lambda>_. True) (apply_owner_change H change) (\<lambda>_. informed) (\<lambda>_ _. True)"
proof -
  have publish: "hoare informed (publish H) (\<lambda>_. informed) (\<lambda>_ _. True)"
    by (auto simp: hoare_def publish_def split: sum.splits)
  have "hoare (\<lambda>w. actual = manager_receipt (tw_manager w))
      (andthen (reconcile H actual) (andthen (publish H) (of_result r))) (\<lambda>_. informed) (\<lambda>_ _. True)" for actual r
    by (rule hoare_andthen [where R = informed, OF hoare_weaken [OF hoare_reconcile]],
        auto intro!: hoare_andthen [OF publish] hoare_of_result_split)
  then show ?thesis
    unfolding apply_owner_change_def
    by (intro hoare_bind [OF hoare_outcome_receipt]) (auto split: prod.splits)
qed

section \<open>Requests\<close>

text \<open>\<open>stays m\<close>: an action that succeeds leaves the controller informed if it was.\<close>

definition stays :: "'a tunio_op \<Rightarrow> bool" where
  "stays m \<longleftrightarrow> hoare informed m (\<lambda>_. informed) (\<lambda>_ _. True)"

lemma stays_bind: "stays m \<Longrightarrow> (\<And>x. stays (f x)) \<Longrightarrow> stays (bind m f)"
  unfolding stays_def by (rule hoare_bind)

lemma stays_andthen: "stays m \<Longrightarrow> stays k \<Longrightarrow> stays (andthen m k)"
  unfolding stays_def by (rule hoare_andthen)

lemma stays_basic:
  "stays (return x)" "stays (throw e)" "stays (of_result r)" "stays (reject_if b code)" "stays controller_of"
  "stays (reading f)" "stays (fallible_reading g)" "stays (publish H)"
  by (auto simp: stays_def hoare_def return_def throw_def of_result_def reject_if_def controller_of_def reading_def
      fallible_reading_def publish_def split: sum.splits)

lemma stays_update_authority:
  "(\<And>st actual. believes (f st) actual = believes st actual) \<Longrightarrow> stays (update_authority f)"
  by (simp add: stays_def hoare_def update_authority_def update_controller_def informed_def)

lemma stays_owner_change: "stays (apply_owner_change H change)"
  unfolding stays_def by (rule hoare_pre [OF hoare_apply_owner_change]) simp

lemma stays_probe: "stays (probe_manager H)"
  unfolding stays_def by (rule hoare_weaken [OF hoare_probe_manager]) simp_all

lemma stays_change_reconcile:
  assumes "\<And>actual. stays (k actual)"
  shows "stays (bind (manager_change H change) (\<lambda>actual. andthen (reconcile H actual) (k actual)))"
  unfolding stays_def
proof (rule hoare_bind [OF hoare_pre [OF hoare_change_receipt]])
  show "hoare (\<lambda>w. actual = manager_receipt (tw_manager w)) (andthen (reconcile H actual) (k actual)) (\<lambda>_. informed) (\<lambda>_ _. True)" for actual
    by (rule hoare_andthen [OF hoare_reconcile hoare_pre [OF assms [unfolded stays_def]]]) simp
qed simp

lemma stays_outcome_reconcile:
  assumes "\<And>result actual. stays (k result actual)"
  shows "stays (bind (manager_outcome H change) (\<lambda>(result, actual). andthen (reconcile H actual) (k result actual)))"
  unfolding stays_def
proof (rule hoare_bind_pair [OF hoare_pre [OF hoare_outcome_receipt]])
  show "hoare (\<lambda>w. actual = manager_receipt (tw_manager w)) (andthen (reconcile H actual) (k result actual))
      (\<lambda>_. informed) (\<lambda>_ _. True)" for result actual
    by (rule hoare_andthen [OF hoare_reconcile hoare_pre [OF assms [unfolded stays_def]]]) simp
qed simp

lemmas stays_rules = stays_bind stays_andthen stays_basic stays_owner_change stays_probe

lemma stays_helpers:
  "stays (required_envelope q)" "stays (required_record q code)" "stays (validate_envelope H e)"
  "stays (owner_deadline H e)" "stays (packet_port H fds peer b)" "stays (candidate_lives H c e)"
  "stays (prepare_record H e expected d active)" "stays (prepare_or_reuse H q e expected d)"
  unfolding required_envelope_def required_record_def validate_envelope_def owner_deadline_def
    owner_deadline_with_clocks_def packet_port_def candidate_lives_def prepare_record_def prepare_or_reuse_def
    unix_time_def authority_monotonic_ms_def
  by (auto intro!: stays_rules split: option.splits list.splits)

text \<open>
  Preparing stores a record before the manager is asked; the reconciliation that follows the answer
  makes the controller informed again, whatever it believed in between.
\<close>

lemma informs_prepare_tail:
  "hoare (\<lambda>_. True) (andthen (update_authority f) (andthen (apply_owner_change H change) (return x))) (\<lambda>_. informed) (\<lambda>_ _. True)"
proof (rule hoare_andthen [where R = "\<lambda>_. True"])
  show "hoare (\<lambda>_. True) (update_authority f) (\<lambda>_ _. True) (\<lambda>_ _. True)" by simp
  show "hoare (\<lambda>_. True) (andthen (apply_owner_change H change) (return x)) (\<lambda>_. informed) (\<lambda>_ _. True)"
    by (rule hoare_andthen [OF hoare_apply_owner_change]) (auto intro: hoare_return)
qed

lemma stays_prepare_tail:
  "stays (andthen (update_authority f) (andthen (apply_owner_change H change) (return x)))"
  unfolding stays_def by (rule hoare_pre [OF informs_prepare_tail]) simp

lemma stays_prepare: "stays (op_prepare_owner H peer q fds expected d)"
  unfolding op_prepare_owner_def
  by (rule stays_bind [OF stays_helpers(1)], rule stays_andthen [OF stays_basic(4)],
      rule stays_andthen [OF stays_helpers(3)], rule stays_bind [OF stays_basic(5)],
      rule stays_andthen [OF stays_basic(4)], rule stays_andthen [OF stays_basic(4)],
      rule stays_bind [OF stays_helpers(8)], rule stays_bind [OF stays_helpers(5)], rule stays_prepare_tail)

lemma stays_dispatch: "stays (authority_dispatch H peer q fds operation)"
proof (cases operation)
  case (Prepare_Owner_Operation e d)
  then show ?thesis by (simp add: stays_prepare)
next
  case Probe_Transaction
  then show ?thesis
    by (auto simp: op_probe_transaction_def intro!: stays_rules stays_outcome_reconcile split: option.splits)
qed (auto simp: op_retire_expired_commit_def op_isolate_committed_owner_def op_recover_precommit_def
    op_conclude_owner_def op_abort_owner_def op_stage_authority_def op_attach_authorized_def op_revoke_exact_def
    op_discard_authority_def intro!: stays_rules stays_helpers stays_update_authority stays_change_reconcile
    split: option.splits)

lemma request_informs: "hoare (\<lambda>_. True) (authority_apply_request H peer q fds) (\<lambda>_. informed) (\<lambda>_ _. True)"
proof -
  have "stays (bind (authority_dispatch H peer q fds operation) (\<lambda>flow.
      case flow of Return_Early \<Rightarrow> return ()
      | Fall_Through \<Rightarrow> andthen (publish H) (if b then fallible_reading g else return ())))" for operation b g
    by (auto intro!: stays_rules stays_dispatch split: flow.splits)
  then have tail: "hoare (\<lambda>_. True) (andthen (probe_manager H) (bind (authority_dispatch H peer q fds operation) (\<lambda>flow.
      case flow of Return_Early \<Rightarrow> return ()
      | Fall_Through \<Rightarrow> andthen (publish H) (if b then fallible_reading g else return ())))) (\<lambda>_. informed) (\<lambda>_ _. True)"
    for operation b g
    unfolding stays_def
    by (intro hoare_andthen [where R = informed] hoare_weaken [OF hoare_probe_manager]) simp_all
  show ?thesis
    unfolding authority_apply_request_def
    by (intro hoare_bind [where R = "\<lambda>_ _. True"] hoare_andthen [where R = "\<lambda>_. True"] tail hoare_True)
qed

end
