(* ===== verification/Tunio_Invariants.thy ===== *)
theory Tunio_Invariants
  imports Tunio_Informed
begin

text \<open>
  The invariants of the tunio controller, each an interpretation of \<open>tunio_invariant\<close>: high-water marks
  that never fall, records that carry the transaction their envelope authorised, and revisions
  that, once spent, are never used again by controller or manager.
\<close>

section \<open>The start\<close>

text \<open>
  The manager is started with the first owner attached; only then is the controller created
  (\<^verbatim>\<open>start_managed_infrastructure\<close>).
\<close>

definition start_managed_infrastructure ::
    "manager_env \<Rightarrow> unix_packet_port \<Rightarrow> instant \<Rightarrow> authorization_check option \<Rightarrow> manager_error + packet_manager" where
  "start_managed_infrastructure env worker auth_deadline authorization =
    (case apply_change env (case authorization of
         Some check \<Rightarrow> Attach_Authorized_Port worker auth_deadline check
       | None \<Rightarrow> Attach_Port worker auth_deadline) (initial_manager (up_binding worker)) of
       (Inl e, _) \<Rightarrow> Inl e
     | (Inr _, s) \<Rightarrow> Inr s)"

definition tunio_started :: "tunio_world \<Rightarrow> bool" where
  "tunio_started w \<longleftrightarrow> (\<exists>env worker deadline authorization.
     start_managed_infrastructure env worker deadline authorization = Inr (tw_manager w)
     \<and> co_binding (tw_controller w) = up_binding worker) \<and> co_authority (tw_controller w) = default_authority"

lemma started_manager: "tunio_started w \<Longrightarrow> \<exists>infra. manager_moves\<^sup>*\<^sup>* (initial_manager infra) (tw_manager w)"
proof -
  assume "tunio_started w"
  then obtain env worker deadline authorization where
      started: "start_managed_infrastructure env worker deadline authorization = Inr (tw_manager w)"
    by (auto simp: tunio_started_def)
  let ?change = "case authorization of Some check \<Rightarrow> Attach_Authorized_Port worker deadline check
    | None \<Rightarrow> Attach_Port worker deadline"
  obtain r s where "apply_change env ?change (initial_manager (up_binding worker)) = (r, s)" by fastforce
  with started have "apply_change env ?change (initial_manager (up_binding worker)) = (Inr (), tw_manager w)"
    by (cases r) (simp_all add: start_managed_infrastructure_def)
  then have "manager_moves (initial_manager (up_binding worker)) (tw_manager w)"
    by (rule moves_update) (simp add: initial_manager_def)
  then show ?thesis by blast
qed

lemma started_inv: "tunio_started w \<Longrightarrow> manager_inv (tw_manager w)"
  using started_manager manager_reachable_inv by blast

section \<open>High-water marks\<close>

definition marks_from :: "authority_state \<Rightarrow> u64 \<Rightarrow> tunio_controller \<Rightarrow> bool" where
  "marks_from st epoch c \<longleftrightarrow> as_highest_revision st \<le> as_highest_revision (co_authority c)
    \<and> as_highest_owner_epoch st \<le> as_highest_owner_epoch (co_authority c)
    \<and> as_highest_policy_generation st \<le> as_highest_policy_generation (co_authority c)
    \<and> epoch \<le> co_epoch c"

lemma reconcile_marks [simp]:
  "as_highest_revision (reconcile_owner actual st) = as_highest_revision st"
  "as_highest_owner_epoch (reconcile_owner actual st) = as_highest_owner_epoch st"
  "as_highest_policy_generation (reconcile_owner actual st) = as_highest_policy_generation st"
  "as_highest_revision (adopt_applied actual st) = as_highest_revision st"
  "as_highest_owner_epoch (adopt_applied actual st) = as_highest_owner_epoch st"
  "as_highest_policy_generation (adopt_applied actual st) = as_highest_policy_generation st"
  by (simp_all add: reconcile_owner_def derive_receipts_def settle_terminal_def settle_candidate_def note_actual_def
      adopt_applied_def split: option.splits)

lemma marks_reconcile_state: "marks_from st epoch c \<Longrightarrow> marks_from st epoch (reconcile_state now actual c)"
  by (auto simp: marks_from_def reconcile_state_def raise_marks_def Let_def intro: max.coboundedI1)

lemma marks_reconcile_deadline: "marks_from st epoch (reconcile_deadline m now actual c) = marks_from st epoch c"
  by (simp add: marks_from_def reconcile_deadline_def Let_def split: option.splits)

interpretation marks: tunio_invariant "marks_from st epoch" "manager_moves\<^sup>*\<^sup>* s0" "\<lambda>_. True" for st epoch s0
proof
  fix s env event outcome s'
  assume "manager_moves\<^sup>*\<^sup>* s0 s" "own_event event" "event_enabled env s event"
    "manager_step env event s = (outcome, s')" "\<And>error. outcome \<noteq> Stopped error"
  then show "manager_moves\<^sup>*\<^sup>* s0 s'" by (auto intro: rtranclp.rtrancl_into_rtrancl manager_moves.move)
next
  fix s change env result s'
  assume "manager_moves\<^sup>*\<^sup>* s0 s" "pm_control_available s" "apply_change env change s = (result, s')"
  then show "manager_moves\<^sup>*\<^sup>* s0 s'" by (auto intro: rtranclp.rtrancl_into_rtrancl moves_update)
next
  show "marks_from st epoch (with_authority c (stage_envelope e))" if "marks_from st epoch c" "\<not> stage_rejected e c" for c e
    using that by (auto simp: marks_from_def stage_envelope_def stage_rejected_def intro: max.coboundedI1 order_trans)
qed (auto simp: marks_reconcile_state marks_reconcile_deadline, auto simp: marks_from_def cancel_precommit_def intro: max.coboundedI1)

section \<open>Records carry what their envelope authorised\<close>

definition record_exact :: "owner_authority \<Rightarrow> bool" where
  "record_exact r \<longleftrightarrow> tx_revision (oa_transaction r) = ae_authority_revision (oa_envelope r)
    \<and> tx_binding (oa_transaction r) = ae_binding (oa_envelope r)"

definition records_hold :: "(owner_authority \<Rightarrow> bool) \<Rightarrow> authority_state \<Rightarrow> bool" where
  "records_hold P st \<longleftrightarrow> (case as_owner_candidate st of None \<Rightarrow> True | Some r \<Rightarrow> P r)
    \<and> (case as_owner_terminal st of None \<Rightarrow> True | Some (r, phase) \<Rightarrow> P r)"

lemma records_hold_record: "records_hold P st \<Longrightarrow> owner_record st tid = Some r \<Longrightarrow> P r"
  by (auto simp: records_hold_def owner_record_def named_record_def split: option.splits if_splits)

lemma records_hold_reconcile_owner:
  "records_hold P st \<Longrightarrow> (\<And>r. P r \<Longrightarrow> P (r\<lparr>oa_prepared := True\<rparr>)) \<Longrightarrow> records_hold P (reconcile_owner actual st)"
  by (auto simp: records_hold_def reconcile_owner_def derive_receipts_def settle_terminal_def settle_candidate_def
      note_actual_def split: option.splits if_splits)

lemma records_hold_view [simp]:
  "records_hold P (raise_marks actual st) = records_hold P st"
  "records_hold P (stage_envelope e st) = records_hold P st"
  "records_hold P (cancel_precommit e st) = records_hold P st"
  "records_hold P (st\<lparr>as_pending := p\<rparr>) = records_hold P st"
  "records_hold P (st\<lparr>as_isolated_committed := p\<rparr>) = records_hold P st"
  "records_hold P (st\<lparr>as_retired_expired_commit := p\<rparr>) = records_hold P st"
  "records_hold P (st\<lparr>as_actual_deadline_mono_ms := d\<rparr>) = records_hold P st"
  "records_hold P (st\<lparr>as_active := a, as_actual_deadline_mono_ms := d\<rparr>) = records_hold P st"
  by (simp_all add: records_hold_def raise_marks_def stage_envelope_def cancel_precommit_def)

lemma records_hold_adopt [simp]: "records_hold P (adopt_applied actual st) = records_hold P st"
  by (cases "as_pending st") (simp_all add: records_hold_def adopt_applied_def)

lemma records_hold_reconcile_state:
  "records_hold P (co_authority c) \<Longrightarrow> (\<And>r. P r \<Longrightarrow> P (r\<lparr>oa_prepared := True\<rparr>)) \<Longrightarrow>
    records_hold P (co_authority (reconcile_state now actual c))"
  by (simp add: reconcile_state_def Let_def records_hold_reconcile_owner)

lemma records_hold_reconcile_deadline:
  "records_hold P (co_authority (reconcile_deadline m now actual c)) = records_hold P (co_authority c)"
  by (simp add: reconcile_deadline_def Let_def split: option.splits)

interpretation records: tunio_invariant "\<lambda>c. records_hold record_exact (co_authority c)" manager_inv record_exact
proof
  fix s env event outcome s'
  assume "manager_inv s" "manager_step env event s = (outcome, s')"
  then show "manager_inv s'" by (blast intro: inv_manager_step)
next
  fix s change env result s'
  assume "manager_inv s" "apply_change env change s = (result, s')"
  then show "manager_inv s'" by (blast intro: inv_apply_change)
next
  show "records_hold record_exact (co_authority (reconcile_state now actual c))"
    if "records_hold record_exact (co_authority c)" for c now actual
    using that by (rule records_hold_reconcile_state) (simp add: record_exact_def)
qed (auto simp: records_hold_reconcile_deadline records_hold_record,
    auto simp: records_hold_def record_exact_def)

section \<open>Spent revisions\<close>

definition avoids_revision :: "u64 \<Rightarrow> owner_authority \<Rightarrow> bool" where
  "avoids_revision v r \<longleftrightarrow> tx_revision (oa_transaction r) \<noteq> v \<and> ae_authority_revision (oa_envelope r) \<noteq> v"

definition envelope_spent :: "authority_envelope \<Rightarrow> tunio_controller \<Rightarrow> bool" where
  "envelope_spent e c \<longleftrightarrow> ae_authority_revision e \<le> as_highest_revision (co_authority c)
    \<and> (case as_pending (co_authority c) of None \<Rightarrow> True | Some p \<Rightarrow> ae_authority_revision p \<noteq> ae_authority_revision e)
    \<and> as_active (co_authority c) \<noteq> Some e
    \<and> records_hold (avoids_revision (ae_authority_revision e)) (co_authority c)"

definition revision_unused :: "u64 \<Rightarrow> packet_manager \<Rightarrow> bool" where
  "revision_unused v s \<longleftrightarrow> (case pm_pending s of None \<Rightarrow> True | Some p \<Rightarrow> tx_revision (pn_transaction p) \<noteq> v)
    \<and> (case pm_last_transaction s of None \<Rightarrow> True | Some l \<Rightarrow> tx_revision (otr_transaction l) \<noteq> v)"

lemma unused_end_candidate: "revision_unused v s \<Longrightarrow> revision_unused v (end_candidate phase s)"
  by (auto simp: revision_unused_def end_candidate_def retire_owner_def split: option.splits)

lemma unused_updates [simp]:
  "revision_unused v (revoke_active s) = revision_unused v s"
  "revision_unused v (force_retire s) = revision_unused v s"
  "revision_unused v (owner_failed s) = revision_unused v s"
  "revision_unused v (drop_retained s) = revision_unused v s"
  "revision_unused v (replace_owner o1 s) = revision_unused v s"
  "revision_unused v (retire_owner o1 s) = revision_unused v s"
  "revision_unused v (s\<lparr>pm_retired := xs\<rparr>) = revision_unused v s"
  "revision_unused v (s\<lparr>pm_retained := x\<rparr>) = revision_unused v s"
  "revision_unused v (s\<lparr>pm_owner := x\<rparr>) = revision_unused v s"
  "revision_unused v (s\<lparr>pm_old_owner_drained := b\<rparr>) = revision_unused v s"
  "revision_unused v (s\<lparr>pm_control_available := b\<rparr>) = revision_unused v s"
  "revision_unused v (s\<lparr>pm_no_worker_drops := n\<rparr>) = revision_unused v s"
  by (simp_all add: revision_unused_def revoke_active_def owner_failed_def drop_retained_def replace_owner_def
      retire_owner_def split: option.splits)

lemma unused_prepare:
  "change_prepare_owner env tx port a s = (r, s') \<Longrightarrow> revision_unused v s \<Longrightarrow> tx_revision tx \<noteq> v \<Longrightarrow> revision_unused v s'"
  by (erule prepare_cases) (auto simp: revision_unused_def staged_state_def)

lemma unused_commit: "change_commit_owner env tx s = (r, s') \<Longrightarrow> revision_unused v s \<Longrightarrow> revision_unused v s'"
  by (erule commit_cases) (auto simp: revision_unused_def install_candidate_def)

lemma unused_attach: "change_attach env port d a s = (r, s') \<Longrightarrow> revision_unused v s \<Longrightarrow> revision_unused v s'"
  by (erule attach_cases) auto

lemma unused_change:
  assumes "apply_change env change s = (r, s')" and "revision_unused v s"
    and "\<And>tx port check. change = Prepare_Owner tx port check \<Longrightarrow> tx_revision tx \<noteq> v"
  shows "revision_unused v s'"
  using assms
  by (cases change)
    (auto simp: change_finish_owner_drain_def change_retire_after_failure_def change_abort_owner_def
      change_probe_transaction_def change_renew_def change_revoke_def Let_def unused_end_candidate
      dest: unused_prepare unused_commit unused_attach split: if_splits option.splits sum.splits)

lemma unused_own_step:
  assumes "manager_step env event s = (outcome, s')" and "own_event event" and "revision_unused v s"
  shows "revision_unused v s'"
proof (cases event)
  case (Update_Received closed change)
  show ?thesis
  proof (cases "\<exists>owner_epoch. change = Revoke_Owner owner_epoch")
    case True
    with Update_Received assms show ?thesis
      by (auto simp: change_revoke_def Let_def split: if_splits prod.splits)
  next
    case False
    with Update_Received assms(2) have closed by (cases change) auto
    with Update_Received assms show ?thesis by simp
  qed
qed (use assms in \<open>auto simp: unused_end_candidate split: if_splits sum.splits option.splits\<close>)

lemma spent_reconcile_state:
  assumes "envelope_spent e c"
  shows "envelope_spent e (reconcile_state now actual c)"
proof -
  let ?v = "ae_authority_revision e"
  have records: "records_hold (avoids_revision ?v) (co_authority (reconcile_state now actual c))"
    using assms by (intro records_hold_reconcile_state) (auto simp: envelope_spent_def avoids_revision_def)
  have owner: "as_active (reconcile_owner actual (co_authority c)) \<noteq> Some e
      \<and> (case as_pending (reconcile_owner actual (co_authority c)) of None \<Rightarrow> True | Some p \<Rightarrow> ae_authority_revision p \<noteq> ?v)"
    using assms
    by (auto simp: envelope_spent_def records_hold_def avoids_revision_def reconcile_owner_def derive_receipts_def
        settle_terminal_def settle_candidate_def note_actual_def split: option.splits if_splits)
  then have "as_active (adopt_applied actual (reconcile_owner actual (co_authority c))) \<noteq> Some e
      \<and> (case as_pending (adopt_applied actual (reconcile_owner actual (co_authority c))) of None \<Rightarrow> True
         | Some p \<Rightarrow> ae_authority_revision p \<noteq> ?v)"
    by (auto simp: adopt_applied_def split: option.splits)
  with records assms show ?thesis
    by (simp add: envelope_spent_def reconcile_state_def Let_def raise_marks_def)
qed

lemma spent_reconcile_deadline: "envelope_spent e (reconcile_deadline m now actual c) = envelope_spent e c"
  by (simp add: envelope_spent_def reconcile_deadline_def Let_def split: option.splits)

interpretation spent: tunio_invariant "envelope_spent e" "revision_unused (ae_authority_revision e)"
    "avoids_revision (ae_authority_revision e)" for e
proof
  fix s env event outcome s'
  assume "revision_unused (ae_authority_revision e) s" "own_event event" "manager_step env event s = (outcome, s')"
  then show "revision_unused (ae_authority_revision e) s'" by (blast intro: unused_own_step)
next
  fix s change env result s'
  assume "revision_unused (ae_authority_revision e) s" "apply_change env change s = (result, s')"
    "admissible (avoids_revision (ae_authority_revision e)) (\<lambda>_. True) change"
  then show "revision_unused (ae_authority_revision e) s'"
    by (auto simp: avoids_revision_def admissible_def intro: unused_change)
next
  show "avoids_revision (ae_authority_revision e) r" if "envelope_spent e c" "owner_record (co_authority c) tid = Some r" for c tid r
    using that by (auto simp: envelope_spent_def intro: records_hold_record)
next
  show "envelope_spent e (with_authority c (stage_envelope e'))" if "envelope_spent e c" "\<not> stage_rejected e' c" for c e'
    using that by (auto simp: envelope_spent_def stage_rejected_def) (auto simp: stage_envelope_def)
next
  show "envelope_spent e (with_authority c (cancel_precommit e'))" if "envelope_spent e c" for c e'
    using that by (auto simp: envelope_spent_def) (auto simp: cancel_precommit_def intro: max.coboundedI1)
next
  show "avoids_revision (ae_authority_revision e) r" if "envelope_spent e c" "as_pending (co_authority c) = Some (oa_envelope r)"
      "tx_revision (oa_transaction r) = ae_authority_revision (oa_envelope r)" for c r
    using that by (simp add: envelope_spent_def avoids_revision_def)
qed (simp_all add: spent_reconcile_state spent_reconcile_deadline, simp_all add: envelope_spent_def records_hold_def)

end
