(* ===== verification/Tunio_Cancel.thy ===== *)
theory Tunio_Cancel
  imports Tunio_Invariants
begin

text \<open>
  What a recovery request establishes when it cancels a transaction that was never handed to the
  manager: from then on the envelope's revision is spent, for the controller and for the manager.
\<close>

definition cancelled_envelope :: "tunio_world \<Rightarrow> authority_envelope option" where
  "cancelled_envelope w = as_precommit_cancelled (co_authority (tw_controller w))"

definition spent_everywhere :: "authority_envelope \<Rightarrow> tunio_world \<Rightarrow> bool" where
  "spent_everywhere e = world_ok (envelope_spent e) (revision_unused (ae_authority_revision e))"

definition sound_records :: "tunio_world \<Rightarrow> bool" where
  "sound_records = world_ok (\<lambda>c. records_hold record_exact (co_authority c)) manager_inv"

text \<open>
  At the moment of cancellation the manager has seen only smaller revisions, holds no candidate and
  remembers only older results, so none of the controller's records can carry this revision.
\<close>

lemma cancellation_spends:
  assumes records: "records_hold record_exact (co_authority c)" and inv: "manager_inv m"
    and view: "believes (co_authority c) (manager_receipt m)"
    and absent: "\<not> absence_unconfirmed b e (manager_receipt m) c"
  shows "envelope_spent e (with_authority c (cancel_precommit e)) \<and> revision_unused (ae_authority_revision e) m"
proof -
  have none: "pm_pending m = None" and small: "pm_highest_transaction_revision m < ae_authority_revision e"
      and active: "as_active (co_authority c) \<noteq> Some e"
    using absent by (auto simp: absence_unconfirmed_def manager_receipt_def)
  have last: "tx_revision (otr_transaction l) < ae_authority_revision e" if "pm_last_transaction m = Some l" for l
    using inv that small by (auto simp: manager_inv_def history_sound_def)
  have candidate: "as_owner_candidate (co_authority c) = None"
    using view none by (auto simp: believes_def receipt_is_def manager_receipt_def split: option.splits)
  have "avoids_revision (ae_authority_revision e) r" if terminal: "as_owner_terminal (co_authority c) = Some (r, phase)" for r phase
  proof -
    obtain l where "pm_last_transaction m = Some l" "otr_transaction l = oa_transaction r"
      using view terminal by (auto simp: believes_def receipt_is_def manager_receipt_def)
    with last records terminal show ?thesis
      by (auto simp: avoids_revision_def records_hold_def record_exact_def)
  qed
  with candidate have "records_hold (avoids_revision (ae_authority_revision e)) (co_authority c)"
    by (auto simp: records_hold_def split: option.splits)
  with active none last show ?thesis
    by (auto simp: envelope_spent_def revision_unused_def) (auto simp: cancel_precommit_def split: option.splits)
qed

section \<open>Through the request\<close>

definition not_yet :: "authority_envelope \<Rightarrow> tunio_world \<Rightarrow> bool" where
  "not_yet e w \<longleftrightarrow> sound_records w \<and> cancelled_envelope w \<noteq> Some e"

definition settled_if :: "authority_envelope \<Rightarrow> tunio_world \<Rightarrow> bool" where
  "settled_if e w \<longleftrightarrow> (cancelled_envelope w = Some e \<longrightarrow> spent_everywhere e w)"

lemma not_yet_settled: "not_yet e w \<Longrightarrow> settled_if e w"
  by (simp add: not_yet_def settled_if_def)

lemma cancelled_sel [simp]:
  "cancelled_envelope (w\<lparr>tw_readings := n\<rparr>) = cancelled_envelope w"
  "cancelled_envelope (w\<lparr>tw_status := s\<rparr>) = cancelled_envelope w"
  "cancelled_envelope (w\<lparr>tw_manager := m\<rparr>) = cancelled_envelope w"
  by (simp_all add: cancelled_envelope_def)

lemma settled_sel [simp]:
  "settled_if e (w\<lparr>tw_readings := n\<rparr>) = settled_if e w" "settled_if e (w\<lparr>tw_status := s\<rparr>) = settled_if e w"
  by (simp_all add: settled_if_def spent_everywhere_def)

lemma cancelled_view [simp]:
  "as_precommit_cancelled (note_actual actual st) = as_precommit_cancelled st"
  "as_precommit_cancelled (settle_candidate actual st) = as_precommit_cancelled st"
  "as_precommit_cancelled (settle_terminal actual st) = as_precommit_cancelled st"
  "as_precommit_cancelled (derive_receipts st) = as_precommit_cancelled st"
  "as_precommit_cancelled (adopt_applied actual st) = as_precommit_cancelled st"
  "as_precommit_cancelled (raise_marks actual st) = as_precommit_cancelled st"
  by (simp_all add: note_actual_def settle_candidate_def settle_terminal_def derive_receipts_def adopt_applied_def
      raise_marks_def split: option.splits)

lemma cancelled_reconcile:
  "as_precommit_cancelled (co_authority (reconcile_state now actual c)) = as_precommit_cancelled (co_authority c)"
  "as_precommit_cancelled (co_authority (reconcile_deadline m now actual c)) = as_precommit_cancelled (co_authority c)"
  by (simp_all add: reconcile_state_def reconcile_owner_def reconcile_deadline_def Let_def split: option.splits)

lemma hoare_cancelled_exchange:
  "hoare (\<lambda>w. cancelled_envelope w \<noteq> Some e) (manager_change H change) (\<lambda>_ w. cancelled_envelope w \<noteq> Some e)
     (\<lambda>_ w. cancelled_envelope w \<noteq> Some e)"
  by (auto simp: hoare_def manager_change_def manager_outcome_def manager_exchange_def bind_def andthen_def of_result_def
      return_def Let_def cancelled_envelope_def split: option.splits prod.splits sum.splits if_splits)

lemma hoare_cancelled_reconcile:
  "hoare (\<lambda>w. cancelled_envelope w \<noteq> Some e) (reconcile H actual) (\<lambda>_ w. cancelled_envelope w \<noteq> Some e)
     (\<lambda>_ w. cancelled_envelope w \<noteq> Some e)"
  by (auto simp: hoare_def reconcile_def bind_def andthen_def reading_def update_controller_def authority_monotonic_ms_def
      fallible_reading_def map_err_def cancelled_envelope_def cancelled_reconcile split: prod.splits sum.splits)

lemma hoare_cancelled_probe:
  "hoare (\<lambda>w. cancelled_envelope w \<noteq> Some e) (probe_manager H) (\<lambda>_ w. cancelled_envelope w \<noteq> Some e)
     (\<lambda>_ w. cancelled_envelope w \<noteq> Some e)"
  unfolding probe_manager_def
  by (rule hoare_bind [OF hoare_cancelled_exchange], rule hoare_andthen [OF hoare_cancelled_reconcile])
    (auto intro: hoare_return)

text \<open>A probe leaves the records sound and the controller informed, and cancels nothing.\<close>

lemma hoare_probe_not_yet:
  "hoare (not_yet e) (probe_manager H)
     (\<lambda>actual w. not_yet e w \<and> actual = manager_receipt (tw_manager w) \<and> informed w) (\<lambda>_. not_yet e)"
proof -
  have "hoare sound_records (probe_manager H) (\<lambda>_. sound_records) (\<lambda>_. sound_records)"
    using records.maintains_probe_manager [of H] by (simp add: maintains_def sound_records_def)
  from hoare_conj [OF hoare_conj [OF this hoare_cancelled_probe] hoare_probe_manager] show ?thesis
    by (rule hoare_weaken) (auto simp: not_yet_def)
qed

lemma hoare_cancel_update:
  assumes "\<not> absence_unconfirmed b e actual c"
  shows "hoare (\<lambda>w. sound_records w \<and> actual = manager_receipt (tw_manager w) \<and> informed w \<and> tw_controller w = c)
    (update_authority (cancel_precommit e)) (\<lambda>_. settled_if e') E"
proof (unfold update_authority_def, rule hoare_update_controller)
  fix w assume "sound_records w \<and> actual = manager_receipt (tw_manager w) \<and> informed w \<and> tw_controller w = c"
  then have "envelope_spent e (with_authority (tw_controller w) (cancel_precommit e)) \<and> revision_unused (ae_authority_revision e) (tw_manager w)"
    using assms by (intro cancellation_spends) (auto simp: sound_records_def world_ok_def informed_def)
  then show "settled_if e' (w\<lparr>tw_controller := with_authority (tw_controller w) (cancel_precommit e)\<rparr>)"
    by (auto simp: settled_if_def spent_everywhere_def cancelled_envelope_def cancel_precommit_def)
qed

lemma hoare_settled_publish: "hoare (settled_if e) (publish H) (\<lambda>_. settled_if e) (\<lambda>_. settled_if e)"
  by (auto simp: hoare_def publish_def split: sum.splits)

lemma hoare_settled_rest:
  "hoare (settled_if e) (andthen (publish H) (if b then fallible_reading g else return ())) (\<lambda>_. settled_if e) (\<lambda>_. settled_if e)"
  by (rule hoare_andthen [OF hoare_settled_publish]) (auto intro: hoare_fallible_reading hoare_return)

text \<open>What is known of the world once the second probe has returned.\<close>

definition probed :: "authority_envelope \<Rightarrow> packet_port_receipt \<Rightarrow> tunio_world \<Rightarrow> bool" where
  "probed e actual w \<longleftrightarrow> not_yet e w \<and> actual = manager_receipt (tw_manager w) \<and> informed w"

lemma probed_settled: "probed e actual w \<Longrightarrow> settled_if e w"
  by (simp add: probed_def not_yet_settled)

lemma hoare_recover_absent:
  "hoare (probed e actual) (bind controller_of (\<lambda>c.
     andthen (reject_if (absence_unconfirmed b e1 actual c) code)
       (andthen (update_authority (cancel_precommit e1)) (return Fall_Through)))) (\<lambda>_. settled_if e) (\<lambda>_. settled_if e)"
proof (rule hoare_bind [where R = "\<lambda>c w. probed e actual w \<and> tw_controller w = c", OF hoare_controller_of])
  fix c
  show "hoare (\<lambda>w. probed e actual w \<and> tw_controller w = c) (andthen (reject_if (absence_unconfirmed b e1 actual c) code)
      (andthen (update_authority (cancel_precommit e1)) (return Fall_Through))) (\<lambda>_. settled_if e) (\<lambda>_. settled_if e)"
  proof (cases "absence_unconfirmed b e1 actual c")
    case True
    then show ?thesis by (auto simp: hoare_def andthen_def bind_def reject_if_def dest: probed_settled)
  next
    case False
    have "hoare (\<lambda>w. probed e actual w \<and> tw_controller w = c) (update_authority (cancel_precommit e1)) (\<lambda>_. settled_if e) (\<lambda>_. settled_if e)"
      by (rule hoare_pre [OF hoare_cancel_update [OF False]]) (simp add: probed_def not_yet_def)
    then have "hoare (\<lambda>w. probed e actual w \<and> tw_controller w = c) (andthen (update_authority (cancel_precommit e1)) (return Fall_Through))
        (\<lambda>_. settled_if e) (\<lambda>_. settled_if e)"
      by (rule hoare_andthen) (rule hoare_return)
    with False show ?thesis by (simp add: hoare_def andthen_def bind_def reject_if_def)
  qed
qed simp

lemma hoare_recover_present:
  "hoare (probed e actual) (bind (required_record q code) (\<lambda>exact.
     andthen (reject_if (precommit_conflict b e1 exact history) code')
       (andthen (publish H) (return Return_Early)))) (\<lambda>_. settled_if e) (\<lambda>_. settled_if e)"
proof (rule hoare_bind [where R = "\<lambda>_. settled_if e"])
  show "hoare (probed e actual) (required_record q code) (\<lambda>_. settled_if e) (\<lambda>_. settled_if e)"
    by (auto simp: required_record_def hoare_def bind_def controller_of_def of_result_def probed_settled split: sum.splits)
  show "hoare (settled_if e) (andthen (reject_if (precommit_conflict b e1 exact history) code')
       (andthen (publish H) (return Return_Early))) (\<lambda>_. settled_if e) (\<lambda>_. settled_if e)" for exact
    by (rule hoare_andthen [OF hoare_reject_if hoare_andthen [OF hoare_settled_publish hoare_return]])
qed

lemma hoare_recover:
  "hoare (not_yet e) (op_recover_precommit H q b) (\<lambda>_. settled_if e) (\<lambda>_. settled_if e)"
  unfolding op_recover_precommit_def
proof (rule hoare_bind [where R = "\<lambda>_. not_yet e"])
  show "hoare (not_yet e) (required_envelope q) (\<lambda>_. not_yet e) (\<lambda>_. settled_if e)"
    unfolding required_envelope_def by (rule hoare_of_result_split) (simp_all add: not_yet_settled)
next
  fix e1
  have rest: "hoare (probed e actual) (bind (of_result (transaction_bytes (aq_transaction_id q))) (\<lambda>tid.
      case transaction_history actual tid of
        Some history \<Rightarrow> bind (required_record q ''owner_precommit_context_unknown'') (\<lambda>exact.
          andthen (reject_if (precommit_conflict b e1 exact history) ''owner_precommit_context_conflict'')
          (andthen (publish H) (return Return_Early)))
      | None \<Rightarrow> bind controller_of (\<lambda>c.
          andthen (reject_if (absence_unconfirmed b e1 actual c) ''owner_precommit_absence_unconfirmed'')
          (andthen (update_authority (cancel_precommit e1)) (return Fall_Through))))) (\<lambda>_. settled_if e) (\<lambda>_. settled_if e)" for actual
    by (rule hoare_bind [where R = "\<lambda>_. probed e actual", OF hoare_of_result_split])
      (auto simp: probed_settled hoare_recover_absent hoare_recover_present split: option.splits)
  have probe: "hoare (not_yet e) (probe_manager H) (probed e) (\<lambda>_. settled_if e)"
    by (rule hoare_weaken [OF hoare_probe_not_yet]) (auto simp: probed_def not_yet_settled)
  have guard: "hoare (not_yet e) (reject_if (precommit_identity_mismatch q b e1) code) (\<lambda>_. not_yet e) (\<lambda>_. settled_if e)" for code
    by (rule hoare_reject_if) (simp_all add: not_yet_settled)
  show "hoare (not_yet e) (andthen (reject_if (precommit_identity_mismatch q b e1) ''owner_precommit_identity_mismatch'')
      (bind (probe_manager H) (\<lambda>actual. bind (of_result (transaction_bytes (aq_transaction_id q))) (\<lambda>tid.
      case transaction_history actual tid of
        Some history \<Rightarrow> bind (required_record q ''owner_precommit_context_unknown'') (\<lambda>exact.
          andthen (reject_if (precommit_conflict b e1 exact history) ''owner_precommit_context_conflict'')
          (andthen (publish H) (return Return_Early)))
      | None \<Rightarrow> bind controller_of (\<lambda>c.
          andthen (reject_if (absence_unconfirmed b e1 actual c) ''owner_precommit_absence_unconfirmed'')
          (andthen (update_authority (cancel_precommit e1)) (return Fall_Through))))))) (\<lambda>_. settled_if e) (\<lambda>_. settled_if e)"
    by (rule hoare_andthen [OF guard hoare_bind [OF probe rest]])
qed

lemma hoare_recover_request:
  assumes "aq_operation q = Recover_Precommit b"
  shows "hoare (not_yet e) (authority_apply_request H peer q fds) (\<lambda>_. settled_if e) (\<lambda>_. settled_if e)"
proof -
  have finish: "hoare (not_yet e) (bind (op_recover_precommit H q b) (\<lambda>flow.
      case flow of Return_Early \<Rightarrow> return ()
      | Fall_Through \<Rightarrow> andthen (publish H) (fallible_reading (th_sync_parent H)))) (\<lambda>_. settled_if e) (\<lambda>_. settled_if e)"
    by (rule hoare_bind [OF hoare_recover])
      (auto intro: hoare_return hoare_settled_rest [where b = True, simplified] split: flow.splits)
  have first: "hoare (not_yet e) (probe_manager H) (\<lambda>_. not_yet e) (\<lambda>_. settled_if e)"
    by (rule hoare_weaken [OF hoare_probe_not_yet]) (auto simp: not_yet_settled)
  have guard: "hoare (not_yet e) (reject_if x code) (\<lambda>_. not_yet e) (\<lambda>_. settled_if e)" for x code
    by (rule hoare_reject_if) (simp_all add: not_yet_settled)
  have current: "hoare (not_yet e) (reading f) (\<lambda>_. not_yet e) (\<lambda>_. settled_if e)" for f :: "nat \<Rightarrow> process_identity \<Rightarrow> bool"
    by (rule hoare_reading) (simp add: not_yet_def sound_records_def)
  have read: "hoare (not_yet e) controller_of (\<lambda>_. not_yet e) (\<lambda>_. settled_if e)"
    by (rule hoare_controller_of)
  show ?thesis
    unfolding authority_apply_request_def assms authority_dispatch.simps synced_publication.simps if_True
    by (intro hoare_bind [OF read] hoare_bind [OF current] hoare_andthen [OF guard] hoare_andthen [OF first] finish)
qed

end
