(* ===== verification/Tunio_Properties.thy ===== *)
theory Tunio_Properties
  imports Tunio_Cancel
begin

text \<open>
  Properties of the tunio control plane, for every sequence of requests on its three sockets, every
  behaviour of clocks, processes, disk and channel, and every move of the packet port manager.
\<close>

section \<open>A sample world\<close>

definition sample_process :: "u32 \<Rightarrow> process_identity" where
  "sample_process p = \<lparr>pi_pid = p, pi_start_ticks = 7\<rparr>"

definition sample_tid :: string where
  "sample_tid = ''00000000000000000000000000000009''"

definition sample_digest :: string where
  "sample_digest = ''0123456789abcdef0123456789abcdef0123456789abcdef0123456789abcdef''"

definition sample_link :: owner_link where
  "sample_link = \<lparr>lk_before = [], lk_queue_error = None, lk_env = sample_env 20, lk_taken = True,
    lk_acknowledged = True, lk_receipt_read = True\<rparr>"

definition tunio_sample_host :: tunio_host where
  "tunio_sample_host = \<lparr>th_instant = (\<lambda>_. 20), th_boot = (\<lambda>_. Inr 1000), th_wall = (\<lambda>_. Inr 5000000000),
    th_boot_id = (\<lambda>_. Inr ''boot''), th_is_current = (\<lambda>_ p. p \<noteq> sample_process 3),
    th_is_current_confirmed = (\<lambda>_ _. Inr True), th_parent_guard = (\<lambda>_. Inr True), th_deadline_passed = (\<lambda>_. False),
    th_publish = (\<lambda>_. Inr ()), th_sync_parent = (\<lambda>_. Inr ()), th_link = (\<lambda>_. sample_link),
    th_sha256_hex = (\<lambda>t. t), th_euid = 0\<rparr>"

definition sample_controller :: "process_identity \<Rightarrow> tunio_controller" where
  "sample_controller p = (started_controller (sample_process 1) p ''token'' 3 100 (sample_binding 1))
    \<lparr>co_registered := True, co_registration := None\<rparr>"

definition sample_tunio :: "process_identity \<Rightarrow> tunio_world" where
  "sample_tunio p = \<lparr>tw_controller = sample_controller p, tw_manager = manager_attached, tw_status = None, tw_readings = 0\<rparr>"

definition sample_authority :: authority_envelope where
  "sample_authority = \<lparr>ae_transaction_id = sample_tid, ae_authority_revision = 1, ae_binding = sample_binding 2,
    ae_candidate = sample_process 5, ae_controller = sample_process 2, ae_controller_epoch = 1,
    ae_signed_control_hash = sample_digest, ae_declaration_hash = sample_digest, ae_verification_report_hash = sample_digest,
    ae_snapshot_closure_hash = sample_digest, ae_signed_min_expiry_unix = 90, ae_effective_expiry_unix = 80,
    ae_verified_at_unix = 4, ae_verified_at_mono_ms = 900, ae_effective_deadline_mono_ms = 2000, ae_boot_id = ''boot''\<rparr>"

definition sample_authority_request :: "authority_operation \<Rightarrow> authority_envelope option \<Rightarrow> authority_request" where
  "sample_authority_request operation e = \<lparr>aq_schema_version = 3, aq_process = sample_process 1, aq_controller = sample_process 2,
    aq_controller_epoch = 1, aq_token_sha256 = ''token'', aq_nonce = sample_tid, aq_operation = operation,
    aq_envelope = e, aq_transaction_id = sample_tid\<rparr>"

lemmas tunio_samples = sample_process_def sample_link_def tunio_sample_host_def sample_controller_def sample_tunio_def
  sample_authority_def sample_authority_request_def started_controller_def default_authority_def

lemma sample_tunio_started: "tunio_started (sample_tunio p)"
proof -
  have "start_managed_infrastructure (sample_env 10) (sample_port 1) 150 None = Inr manager_attached"
    by (simp add: start_managed_infrastructure_def change_attach_def port_samples initial_manager_def
        matches_infrastructure_def check_refuses_def stale_binding_def replace_owner_def manager_attached_def
        new_owner_def owner_binding_def)
  then show ?thesis
    unfolding tunio_started_def
    by (intro conjI exI [of _ "sample_env 10"] exI [of _ "sample_port 1"] exI [of _ 150] exI [of _ None])
      (simp_all add: sample_tunio_def sample_controller_def started_controller_def sample_port_def)
qed

lemma sample_hex [simp]: "hex sample_tid 32" "hex sample_digest 64"
  by (simp_all add: hex_def sample_tid_def sample_digest_def lower_hex_digit_def)

definition sample_recovery :: authority_request where
  "sample_recovery = sample_authority_request (Recover_Precommit (sample_binding 1)) (Some sample_authority)"

definition recovered_world :: tunio_world where
  "recovered_world = snd (authority_apply_request tunio_sample_host (sample_process 2) sample_recovery [] (sample_tunio (sample_process 2)))"

text \<open>On the sample host a probe succeeds and the controller takes over the manager's receipt.\<close>

definition resynced :: "packet_manager \<Rightarrow> tunio_controller \<Rightarrow> tunio_controller" where
  "resynced m c = reconcile_deadline 1000 20 (manager_receipt m) (reconcile_state 20 (manager_receipt m) c)"

lemma sample_probe:
  "pm_control_available (tw_manager w) \<Longrightarrow>
    probe_manager tunio_sample_host w = (Inr (manager_receipt (tw_manager w)),
      w\<lparr>tw_controller := resynced (tw_manager w) (tw_controller w), tw_readings := tw_readings w + 4\<rparr>)"
  by (simp add: probe_manager_def manager_change_def manager_outcome_def manager_exchange_def reconcile_def bind_def
      andthen_def of_result_def return_def reading_def update_controller_def authority_monotonic_ms_def fallible_reading_def
      resynced_def tunio_sample_host_def sample_link_def Let_def)

lemma attached_receipt:
  "manager_receipt manager_attached = \<lparr>rc_binding = Some (sample_binding 1), rc_auth_deadline = Some 150,
     rc_owner_epoch = 1, rc_policy_generation = 7, rc_pending = None, rc_last_transaction = None,
     rc_highest_transaction_revision = 0, rc_retained_owner_binding = None, rc_old_owner_drained = True,
     rc_forced_retirement = False\<rparr>"
  by (simp add: manager_receipt_def manager_attached_def initial_manager_def sample_port_owner_def sample_port_def)

lemma resynced_sample:
  "resynced manager_attached (sample_controller p) = (sample_controller p)\<lparr>co_authority := default_authority
     \<lparr>as_highest_owner_epoch := 1, as_highest_policy_generation := 7, as_actual_owner_binding := Some (sample_binding 1),
      as_old_owner_drained := True, as_actual_deadline_mono_ms := Some 1000\<rparr>\<rparr>"
  "resynced manager_attached (resynced manager_attached (sample_controller p)) = resynced manager_attached (sample_controller p)"
  by (simp_all add: resynced_def attached_receipt reconcile_state_def reconcile_owner_def note_actual_def settle_candidate_def
      settle_terminal_def derive_receipts_def adopt_applied_def raise_marks_def reconciled_binding_def reconcile_deadline_def
      actual_deadline_def checked_add_def sample_controller_def started_controller_def default_authority_def Let_def)

lemma attached_available [simp]: "pm_control_available manager_attached"
  by (simp add: manager_attached_def initial_manager_def)

lemma sample_sel [simp]:
  "aq_operation (sample_authority_request operation e) = operation" "aq_schema_version (sample_authority_request operation e) = 3"
  "aq_envelope (sample_authority_request operation e) = e" "aq_transaction_id (sample_authority_request operation e) = sample_tid"
  "th_publish tunio_sample_host n = Inr ()" "th_sync_parent tunio_sample_host n = Inr ()"
  by (simp_all add: sample_authority_request_def tunio_sample_host_def)

lemma sample_fence:
  "th_is_current tunio_sample_host n (sample_process 2)"
  "controller_fence tunio_sample_host (sample_process 2) (sample_authority_request operation e) (sample_controller (sample_process 2)) True"
  by (simp_all add: controller_fence_def sample_authority_request_def tunio_sample_host_def sample_controller_def started_controller_def
      sample_process_def)

lemma recovery_allowed:
  "\<not> precommit_identity_mismatch sample_recovery (sample_binding 1) sample_authority"
  "\<not> absence_unconfirmed (sample_binding 1) sample_authority (manager_receipt manager_attached)
     (resynced manager_attached (sample_controller p))"
  "transaction_history (manager_receipt manager_attached) tid = None"
  unfolding resynced_sample(1)
  by (simp_all add: precommit_identity_mismatch_def absence_unconfirmed_def transaction_history_def attached_receipt
      sample_recovery_def sample_authority_request_def sample_authority_def infrastructure_matches_def
      sample_binding_def sample_controller_def started_controller_def default_authority_def fenced_by_def
      word_less_nat_alt word_le_nat_alt)

lemma recovery_sample:
  "op_recover_precommit tunio_sample_host sample_recovery (sample_binding 1)
     (w\<lparr>tw_manager := manager_attached, tw_controller := resynced manager_attached (sample_controller p)\<rparr>)
   = (Inr Fall_Through, w\<lparr>tw_manager := manager_attached, tw_readings := tw_readings w + 4,
       tw_controller := with_authority (resynced manager_attached (sample_controller p)) (cancel_precommit sample_authority)\<rparr>)"
  by (simp add: op_recover_precommit_def required_envelope_def bind_def andthen_def reject_if_def of_result_def return_def
      controller_of_def update_authority_def update_controller_def sample_probe resynced_sample(2) recovery_allowed
      transaction_bytes_def sample_recovery_def sample_authority_request_def
      recovery_allowed [unfolded sample_recovery_def sample_authority_request_def])

lemma recovered_world_eq:
  "authority_apply_request tunio_sample_host (sample_process 2) sample_recovery [] (sample_tunio (sample_process 2))
   = (Inr (), recovered_world)"
  "tw_controller recovered_world
   = with_authority (resynced manager_attached (sample_controller (sample_process 2))) (cancel_precommit sample_authority)"
proof -
  define c where "c = with_authority (resynced manager_attached (sample_controller (sample_process 2))) (cancel_precommit sample_authority)"
  have "authority_apply_request tunio_sample_host (sample_process 2) sample_recovery [] (sample_tunio (sample_process 2))
      = (Inr (), \<lparr>tw_controller = c, tw_manager = manager_attached, tw_status = Some c, tw_readings = 11\<rparr>)"
    using recovery_sample [of "sample_process 2" "(sample_tunio (sample_process 2))\<lparr>tw_readings := 5\<rparr>"]
      sample_fence(2) [of "Recover_Precommit (sample_binding 1)" "Some sample_authority"]
    by (simp add: authority_apply_request_def bind_def andthen_def reject_if_def return_def controller_of_def reading_def
        sample_fence(1) sample_probe publish_def fallible_reading_def sample_tunio_def sample_recovery_def c_def)
  then show "authority_apply_request tunio_sample_host (sample_process 2) sample_recovery [] (sample_tunio (sample_process 2))
      = (Inr (), recovered_world)"
    "tw_controller recovered_world
      = with_authority (resynced manager_attached (sample_controller (sample_process 2))) (cancel_precommit sample_authority)"
    by (simp_all add: recovered_world_def c_def)
qed

lemma recovered_cancelled: "cancelled_envelope recovered_world = Some sample_authority"
  by (simp add: cancelled_envelope_def recovered_world_eq(2) cancel_precommit_def)

lemma recovered_step: "tunio_moves (sample_tunio (sample_process 2)) recovered_world"
  by (rule tunio_moves_by.authority [where allowed = "\<lambda>_. True", OF TrueI, of tunio_sample_host "sample_process 2" sample_recovery "[]" _
        "Inr (authority_reply sample_recovery (Inr ()) (tw_controller recovered_world))"])
    (simp add: serve_authority_def bind_def attempt_def controller_of_def return_def recovered_world_eq(1))

section \<open>High-water marks\<close>

text \<open>
  C23: no request, takeover, guard tick or move of the manager ever lowers a high-water mark: the
  controller's revision, owner epoch and policy generation, the controller epoch, and the
  manager's own three marks only rise.
\<close>

theorem tunio_marks_never_fall:
  assumes "tunio_moves\<^sup>*\<^sup>* w w'"
  shows "as_highest_revision (co_authority (tw_controller w)) \<le> as_highest_revision (co_authority (tw_controller w'))
    \<and> as_highest_owner_epoch (co_authority (tw_controller w)) \<le> as_highest_owner_epoch (co_authority (tw_controller w'))
    \<and> as_highest_policy_generation (co_authority (tw_controller w)) \<le> as_highest_policy_generation (co_authority (tw_controller w'))
    \<and> co_epoch (tw_controller w) \<le> co_epoch (tw_controller w')
    \<and> marks_advance (tw_manager w) (tw_manager w')"
proof -
  have "world_ok (marks_from (co_authority (tw_controller w)) (co_epoch (tw_controller w))) (manager_moves\<^sup>*\<^sup>* (tw_manager w)) w'"
    by (rule marks.runs_ok [OF assms]) (simp add: world_ok_def marks_from_def)
  moreover have "marks_advance s t" if "manager_moves\<^sup>*\<^sup>* s t" for s t
    using that by (induction rule: rtranclp_induct) (auto intro: marks_advance_trans marks_moves)
  ultimately show ?thesis by (simp add: world_ok_def marks_from_def)
qed

theorem tunio_marks_never_fall_witness:
  "as_highest_revision (co_authority (sample_controller (sample_process 2))) \<le> as_highest_revision (co_authority (tw_controller recovered_world))
    \<and> marks_advance manager_attached (tw_manager recovered_world)"
  using tunio_marks_never_fall [OF r_into_rtranclp [where r = tunio_moves, OF recovered_step]] by (simp add: sample_tunio_def)

section \<open>Accepted replies\<close>

lemma tunio_manager_runs: "tunio_moves\<^sup>*\<^sup>* w w' \<Longrightarrow> manager_moves\<^sup>*\<^sup>* (tw_manager w) (tw_manager w')"
  using marks.runs_ok [of w w' "co_authority (tw_controller w)" "co_epoch (tw_controller w)" "tw_manager w"]
  by (simp add: world_ok_def marks_from_def)

text \<open>
  C24: an accepted reply reports the manager's actual state. Whatever happened on the channel during the
  request, the owner binding, the retained predecessor, its drain status and the highest
  transaction revision of an accepted schema-3 reply are those of the manager, and a transaction
  receipt in it belongs to the transaction the manager holds as candidate or as last result.
\<close>

theorem accepted_reply_is_actual:
  assumes "serve_authority H peer q fds w = (Inr reply, w')" and "ap_accepted reply" and "ap_schema_version reply = 3"
  shows "ap_actual_owner_binding reply = map_option owner_binding (pm_owner (tw_manager w'))
    \<and> ap_retained_owner_binding reply = map_option owner_binding (pm_retained (tw_manager w'))
    \<and> ap_old_owner_drained reply = pm_old_owner_drained (tw_manager w')
    \<and> ap_forced_retirement reply = pm_forced_retirement (tw_manager w')
    \<and> ap_owner_highest_revision reply = Some (pm_highest_transaction_revision (tw_manager w'))
    \<and> (\<forall>receipt. ap_owner_transaction reply = Some receipt \<longrightarrow>
        (\<exists>tx. (pending_is (tw_manager w') tx \<or> map_option otr_transaction (pm_last_transaction (tw_manager w')) = Some tx)
          \<and> tx_revision tx = ar_authority_revision receipt \<and> tx_binding tx = ar_binding receipt))"
proof -
  obtain result where run: "authority_apply_request H peer q fds w = (result, w')"
      and reply: "reply = authority_reply q result (tw_controller w')"
    using assms(1)
    by (cases "authority_apply_request H peer q fds w")
      (auto simp: serve_authority_def bind_def attempt_def controller_of_def return_def)
  from assms(2) reply have "result = Inr ()" by (cases result) (auto simp: authority_reply_def Let_def)
  with run have "informed w'" using hoare_Inr [OF request_informs] by blast
  then have view: "believes (co_authority (tw_controller w')) (manager_receipt (tw_manager w'))" by (simp add: informed_def)
  have "aq_schema_version q = 3" using assms(3) reply by (simp add: authority_reply_def Let_def)
  with view reply show ?thesis
    by (auto simp: authority_reply_def Let_def believes_def manager_receipt_def owner_receipt_def owner_authority_receipt_def
        receipt_is_def pending_is_def split: option.splits if_splits)
qed

theorem accepted_reply_is_actual_witness:
  "\<exists>reply. serve_authority tunio_sample_host (sample_process 2) sample_recovery [] (sample_tunio (sample_process 2))
      = (Inr reply, recovered_world) \<and> ap_accepted reply
    \<and> ap_actual_owner_binding reply = map_option owner_binding (pm_owner (tw_manager recovered_world))"
proof -
  let ?reply = "authority_reply sample_recovery (Inr ()) (tw_controller recovered_world)"
  have "serve_authority tunio_sample_host (sample_process 2) sample_recovery [] (sample_tunio (sample_process 2))
      = (Inr ?reply, recovered_world)"
    by (simp add: serve_authority_def bind_def attempt_def controller_of_def return_def recovered_world_eq(1))
  moreover have "ap_accepted ?reply" "ap_schema_version ?reply = 3"
    by (simp_all add: authority_reply_def Let_def sample_recovery_def)
  ultimately show ?thesis using accepted_reply_is_actual by blast
qed

section \<open>Cancelled transactions\<close>

text \<open>
  C6: a transaction cancelled before it reached the manager never comes back. If in a reachable state a
  recovery request cancels an envelope, then after any further requests, takeovers, expiries and
  manager moves it is neither staged nor active, and neither the controller's records nor the
  manager's candidate or last result carry its revision, even if the cancellation could not be
  published and even after other cancellations have replaced it.
\<close>

theorem cancelled_transaction_never_returns:
  assumes "tunio_started w0" and "tunio_moves\<^sup>*\<^sup>* w0 w" and "aq_operation q = Recover_Precommit b"
    and "authority_apply_request H peer q fds w = (result, w1)"
    and "cancelled_envelope w \<noteq> Some e" and "cancelled_envelope w1 = Some e"
    and "tunio_moves\<^sup>*\<^sup>* w1 w2"
  shows "as_pending (co_authority (tw_controller w2)) \<noteq> Some e
    \<and> as_active (co_authority (tw_controller w2)) \<noteq> Some e
    \<and> (\<forall>r tid. owner_record (co_authority (tw_controller w2)) tid = Some r \<longrightarrow>
        tx_revision (oa_transaction r) \<noteq> ae_authority_revision e)
    \<and> revision_unused (ae_authority_revision e) (tw_manager w2)"
proof -
  have "sound_records w0"
    using assms(1) started_inv by (auto simp: sound_records_def world_ok_def tunio_started_def records_hold_def default_authority_def)
  then have "sound_records w"
    unfolding sound_records_def by (rule records.runs_ok [OF assms(2)])
  with assms(5) have "not_yet e w" by (simp add: not_yet_def)
  then have "settled_if e w1"
    using hoare_Inr [OF hoare_recover_request [OF assms(3)], of e w H peer fds]
      hoare_Inl [OF hoare_recover_request [OF assms(3)], of e w H peer fds] assms(4)
    by (cases result) auto
  with assms(6) have "spent_everywhere e w1" by (simp add: settled_if_def)
  then have "spent_everywhere e w2"
    unfolding spent_everywhere_def by (rule spent.runs_ok [OF assms(7)])
  then show ?thesis
    by (auto simp: spent_everywhere_def world_ok_def envelope_spent_def avoids_revision_def dest: records_hold_record)
qed

theorem cancelled_transaction_never_returns_witness:
  "cancelled_envelope recovered_world = Some sample_authority
    \<and> as_pending (co_authority (tw_controller recovered_world)) \<noteq> Some sample_authority
    \<and> revision_unused 1 (tw_manager recovered_world)"
proof -
  have "aq_operation sample_recovery = Recover_Precommit (sample_binding 1)"
    by (simp add: sample_recovery_def sample_authority_request_def)
  moreover have "cancelled_envelope (sample_tunio (sample_process 2)) \<noteq> Some sample_authority"
    by (simp add: cancelled_envelope_def tunio_samples)
  ultimately show ?thesis
    using cancelled_transaction_never_returns [OF sample_tunio_started rtranclp.rtrancl_refl _ recovered_world_eq(1) _ recovered_cancelled rtranclp.rtrancl_refl]
    by (simp add: recovered_cancelled sample_authority_def)
qed

end
