(* ===== verification/Tunio_Deadlines.thy ===== *)
theory Tunio_Deadlines
  imports Tunio_Properties
begin

text \<open>
  Who may control the owner and for how long: takeover of a dead controller, the deadline computed
  from the signed caps, the owner that an accepted attachment leaves in the manager, and the
  transaction identifiers that the controller hands to it.
\<close>

section \<open>Takeover\<close>

lemma adopt_effect:
  assumes "control_adopt H peer w = (r, w')"
  shows "tw_controller w' = tw_controller w \<and> tw_manager w' = tw_manager w \<and> (\<exists>code. r = Inr (False, False, code))
    \<or> (\<exists>epoch. checked_add (co_epoch (tw_controller w)) 1 = Some epoch
        \<and> tw_controller w' = (tw_controller w)\<lparr>co_controller := peer, co_epoch := epoch\<rparr>
        \<and> tw_status w' = Some (tw_controller w') \<and> (\<exists>code. r = Inr (True, False, code)))"
proof -
  have restored: "c\<lparr>co_controller := co_controller c, co_epoch := co_epoch c\<rparr> = c" for c :: tunio_controller
    by (cases c) simp
  show ?thesis
    using assms
    by (auto simp: control_adopt_def bind_def andthen_def attempt_def controller_of_def update_controller_def publish_def
        return_def restored split: option.splits sum.splits if_splits)
qed

lemma dispatch_effect:
  assumes "control_dispatch H peer operation w = (Inr (accepted, stop, code), w')"
    and "(co_controller (tw_controller w'), co_epoch (tw_controller w')) \<noteq> (co_controller (tw_controller w), co_epoch (tw_controller w))"
  shows "operation = Control_Takeover \<and> co_registered (tw_controller w) \<and> accepted
    \<and> \<not> th_is_current H (tw_readings w) (co_controller (tw_controller w))
    \<and> checked_add (co_epoch (tw_controller w)) 1 = Some (co_epoch (tw_controller w'))
    \<and> co_controller (tw_controller w') = peer \<and> tw_status w' = Some (tw_controller w')"
proof (cases operation)
  case Control_Takeover
  with assms show ?thesis
    by (auto simp: control_takeover_def bind_def controller_of_def return_def reading_def split: if_splits
        dest!: adopt_effect)
qed (use assms in \<open>auto simp: control_probe_def control_stop_def bind_def andthen_def controller_of_def return_def reading_def
    update_controller_def split: if_splits\<close>)

text \<open>
  C25: control changes hands only by an authorised takeover request to a registered process whose
  previous controller was seen dead. The epoch then rises by exactly one without wrapping, the new
  controller is on disk before the reply, and from then on every authority and packet request
  that carries the previous epoch is refused at the fence.
\<close>

theorem takeover_fences_previous_controller:
  assumes "control_request_handler H peer q w = (Inr (reply, stop), w')"
    and "(co_controller (tw_controller w'), co_epoch (tw_controller w')) \<noteq> (co_controller (tw_controller w), co_epoch (tw_controller w))"
  shows "cr_operation q = Control_Takeover \<and> control_authorized H (tw_controller w) q \<and> co_registered (tw_controller w)
    \<and> \<not> th_is_current H (tw_readings w) (co_controller (tw_controller w))
    \<and> co_controller (tw_controller w') = peer
    \<and> unat (co_epoch (tw_controller w')) = unat (co_epoch (tw_controller w)) + 1
    \<and> tw_status w' = Some (tw_controller w') \<and> cp_accepted reply
    \<and> (\<forall>H2 peer2 aq. aq_controller_epoch aq = co_epoch (tw_controller w) \<longrightarrow> \<not> controller_fence H2 peer2 aq (tw_controller w') True)
    \<and> (\<forall>H2 peer2 pq. pq_controller_epoch pq = co_epoch (tw_controller w) \<longrightarrow> \<not> packet_fence H2 peer2 pq (tw_controller w') True)"
proof -
  have authorized: "control_authorized H (tw_controller w) q"
    using assms by (auto simp: control_request_handler_def bind_def controller_of_def return_def split: if_splits)
  then obtain accepted code where run: "control_dispatch H peer (cr_operation q) w = (Inr (accepted, stop, code), w')"
      and reply: "cp_accepted reply = accepted"
    using assms(1)
    by (auto simp: control_request_handler_def bind_def controller_of_def return_def split: prod.splits sum.splits)
  have next_epoch: "unat b = unat a + 1 \<and> a \<noteq> b" if "checked_add a 1 = Some b" for a b :: u64
  proof -
    from that have "\<not> a + 1 < a" and b: "b = a + 1" by (auto simp: checked_add_def split: if_splits)
    then have "a + 1 \<noteq> 0" by (metis word_not_simps(1) add_0 add_diff_cancel word_gt_0 zero_neq_one add.commute add_eq_0_iff)
    then have "unat (a + 1) = unat a + 1" by (metis Suc_eq_plus1 add.commute unatSuc)
    with b show ?thesis by (metis n_not_Suc_n Suc_eq_plus1)
  qed
  from dispatch_effect [OF run assms(2)] next_epoch authorized reply show ?thesis
    by (auto simp: controller_fence_def packet_fence_def)
qed

definition takeover_request :: control_request where
  "takeover_request = \<lparr>cr_schema_version = 1, cr_operation = Control_Takeover, cr_token_sha256 = ''token'', cr_nonce = sample_tid\<rparr>"

theorem takeover_fences_previous_controller_witness:
  "\<exists>reply stop w'. control_request_handler tunio_sample_host (sample_process 4) takeover_request (sample_tunio (sample_process 3))
      = (Inr (reply, stop), w') \<and> cp_accepted reply \<and> unat (co_epoch (tw_controller w')) = 2
    \<and> co_controller (tw_controller w') = sample_process 4"
proof -
  have authorized: "control_authorized tunio_sample_host (sample_controller (sample_process 3)) takeover_request"
    by (simp add: control_authorized_def takeover_request_def tunio_sample_host_def sample_controller_def started_controller_def
        sample_tid_def ascii_hex_digit_def)
  have dead: "\<not> th_is_current tunio_sample_host n (sample_process 3)" for n
    by (simp add: tunio_sample_host_def)
  have other: "sample_process 4 \<noteq> sample_process 3" by (simp add: sample_process_def)
  obtain reply stop w' where run: "control_request_handler tunio_sample_host (sample_process 4) takeover_request (sample_tunio (sample_process 3))
      = (Inr (reply, stop), w')" and moved: "co_controller (tw_controller w') = sample_process 4"
    using authorized
    by (simp add: control_request_handler_def control_takeover_def control_adopt_def bind_def andthen_def attempt_def
        controller_of_def update_controller_def publish_def return_def reading_def dead other sample_tunio_def takeover_request_def
        sample_controller_def started_controller_def checked_add_def word_less_nat_alt) blast
  then have "(co_controller (tw_controller w'), co_epoch (tw_controller w'))
      \<noteq> (co_controller (tw_controller (sample_tunio (sample_process 3))), co_epoch (tw_controller (sample_tunio (sample_process 3))))"
    by (simp add: sample_tunio_def sample_controller_def started_controller_def sample_process_def)
  from takeover_fences_previous_controller [OF run this] run show ?thesis
    by (simp add: sample_tunio_def sample_controller_def started_controller_def)
qed

section \<open>Deadlines\<close>

text \<open>
  C26: the deadline an owner gets lies strictly after the anchor read before the clocks, and no later than
  the time both caps leave: never more than the boot clock had left of the signed monotonic cap,
  and never more than the wall clock had left of the signed expiry. Readings taken later leave
  less, so a descheduled control thread can only shorten it.
\<close>

theorem owner_deadline_is_capped:
  assumes "owner_deadline H e w = (Inr deadline, w')"
  shows "\<exists>mono wall. th_boot H (Suc (tw_readings w)) = Inr mono \<and> th_wall H (Suc (Suc (tw_readings w))) = Inr wall
    \<and> mono < ae_effective_deadline_mono_ms e \<and> wall < seconds (unat (ae_effective_expiry_unix e))
    \<and> th_instant H (tw_readings w) < deadline
    \<and> deadline \<le> th_instant H (tw_readings w) + millis (unat (ae_effective_deadline_mono_ms e) - unat mono)
    \<and> deadline \<le> th_instant H (tw_readings w) + (seconds (unat (ae_effective_expiry_unix e)) - wall)"
proof -
  let ?n = "tw_readings w"
  from assms obtain mono wall left where r: "th_boot H (Suc ?n) = Inr mono" "th_wall H (Suc (Suc ?n)) = Inr wall"
      "remaining_mono (ae_effective_deadline_mono_ms e) mono = Some left"
      "wall < seconds (unat (ae_effective_expiry_unix e))"
      "deadline = th_instant H ?n + min (millis (unat left)) (seconds (unat (ae_effective_expiry_unix e)) - wall)"
    by (auto simp: owner_deadline_def owner_deadline_with_clocks_def bind_def reading_def fallible_reading_def authority_monotonic_ms_def
        of_result_def return_def ok_or_def map_err_def remaining_wall_def split: prod.splits sum.splits option.splits if_splits)
  then have le: "mono \<le> ae_effective_deadline_mono_ms e" and left: "left = ae_effective_deadline_mono_ms e - mono" "0 < left"
    by (auto simp: remaining_mono_def checked_sub_def not_less split: option.splits if_splits)
  then have "mono < ae_effective_deadline_mono_ms e" by (auto simp: order_less_le)
  moreover have "unat left = unat (ae_effective_deadline_mono_ms e) - unat mono"
    using le left(1) by (simp add: unat_sub)
  moreover have "0 < unat left" using left(2) by (simp add: word_less_nat_alt)
  ultimately show ?thesis using r by (auto simp: millis_def min_def)
qed

theorem owner_deadline_is_capped_witness:
  "\<exists>deadline w'. owner_deadline tunio_sample_host sample_authority (sample_tunio (sample_process 2)) = (Inr deadline, w')
    \<and> 20 < deadline \<and> deadline \<le> 20 + millis 1000"
proof -
  obtain deadline w' where run: "owner_deadline tunio_sample_host sample_authority (sample_tunio (sample_process 2)) = (Inr deadline, w')"
    by (simp add: owner_deadline_def owner_deadline_with_clocks_def bind_def reading_def fallible_reading_def authority_monotonic_ms_def
        of_result_def return_def remaining_mono_def remaining_wall_def checked_sub_def tunio_sample_host_def sample_authority_def
        seconds_def word_less_nat_alt)
  from owner_deadline_is_capped [OF run] run show ?thesis
    by (auto simp: tunio_sample_host_def sample_authority_def)
qed

section \<open>Attached owners\<close>

definition owner_under :: "authority_envelope \<Rightarrow> packet_manager \<Rightarrow> bool" where
  "owner_under e s \<longleftrightarrow> (case pm_owner s of None \<Rightarrow> False
    | Some o1 \<Rightarrow> owner_binding o1 = ae_binding e \<and> ow_authorization o1 = Some (authority_check e))"

lemma authority_check_ok:
  "is_ok (authority_check e clk) \<Longrightarrow> \<exists>boot wall. clk_boot_ms clk = Inr boot \<and> boot < ae_effective_deadline_mono_ms e
    \<and> clk_wall clk = Inr wall \<and> wall < seconds (unat (ae_effective_expiry_unix e))"
  by (cases "clk_boot_ms clk"; cases "clk_wall clk")
    (auto simp: authority_check_def deadline_check_def not_le split: if_splits)

lemma packet_port_binding:
  "packet_port H fds peer b w = (Inr port, w') \<Longrightarrow> up_binding port = b \<and> w' = w"
  by (auto simp: packet_port_def of_result_def throw_def packet_port_result_def rbind_eq_Inr split: list.splits prod.splits)

lemma hoare_packet_port: "hoare (\<lambda>_. True) (packet_port H fds peer b) (\<lambda>port _. up_binding port = b) (\<lambda>_ _. True)"
  by (rule hoareI) (auto dest: packet_port_binding)

text \<open>An attachment that the manager acknowledged is its owner.\<close>

lemma exchange_attached:
  assumes "manager_exchange H wants (Attach_Authorized_Port port d check) w = (Inr (Inr (), actual), w')"
  shows "pm_owner (tw_manager w') = Some (new_owner port d None (Some check))"
  using assms
  by (auto simp: manager_exchange_def Let_def dest: attach_accepted split: option.splits if_splits prod.splits)

lemma hoare_attach_change:
  "hoare (\<lambda>_. up_binding port = ae_binding e) (manager_change H (Attach_Authorized_Port port d (authority_check e)))
     (\<lambda>_ w. owner_under e (tw_manager w)) (\<lambda>_ _. True)"
  by (rule hoareI)
    (auto simp: manager_change_def manager_outcome_def bind_eq andthen_eq of_result_def return_def owner_under_def new_owner_def
      owner_binding_def split: prod.splits dest!: exchange_attached)

lemma hoare_manager_fixed:
  "hoare (\<lambda>w. P (tw_manager w)) (reconcile H actual) (\<lambda>_ w. P (tw_manager w)) (\<lambda>_ _. True)"
  "hoare (\<lambda>w. P (tw_manager w)) controller_of (\<lambda>_ w. P (tw_manager w)) (\<lambda>_ _. True)"
  "hoare (\<lambda>w. P (tw_manager w)) (publish H) (\<lambda>_ w. P (tw_manager w)) (\<lambda>_ _. True)"
  "hoare (\<lambda>w. P (tw_manager w)) (reject_if b code) (\<lambda>_ w. P (tw_manager w)) (\<lambda>_ _. True)"
  by (auto simp: hoare_def reconcile_def bind_def andthen_def reading_def update_controller_def authority_monotonic_ms_def
      fallible_reading_def controller_of_def publish_def reject_if_def map_err_def split: prod.splits sum.splits)

lemma bind_of_ok: "bind (of_result (Inr x)) f = f x"
  by (rule ext) (simp add: bind_def of_result_def)

lemma hoare_op_attach:
  assumes "aq_envelope q = Some e"
  shows "hoare (\<lambda>_. True) (op_attach_authorized H peer q fds) (\<lambda>_ w. owner_under e (tw_manager w)) (\<lambda>_ _. True)"
proof -
  have tail: "hoare (\<lambda>w. owner_under e (tw_manager w)) (andthen (reconcile H actual) (bind controller_of (\<lambda>c.
      andthen (reject_if (as_active (co_authority c) \<noteq> Some e \<or> co_binding c \<noteq> ae_binding e) ''authority_attachment_mismatch'')
        (return Fall_Through)))) (\<lambda>_ w. owner_under e (tw_manager w)) (\<lambda>_ _. True)" for actual
    by (rule hoare_andthen [OF hoare_manager_fixed(1)], rule hoare_bind [OF hoare_manager_fixed(2)],
        rule hoare_andthen [OF hoare_manager_fixed(4)]) (rule hoare_return)
  show ?thesis
    unfolding op_attach_authorized_def required_envelope_def assms ok_or_simps bind_of_ok
    by (rule hoare_bind [OF hoare_True], rule hoare_andthen [OF hoare_True], rule hoare_andthen [OF hoare_True],
        rule hoare_andthen [OF hoare_True], rule hoare_bind [OF hoare_True], rule hoare_bind [OF hoare_packet_port],
        rule hoare_bind [OF hoare_attach_change], rule tail)
qed

text \<open>
  C27: an owner that was attached under an authority can never outlive it. When an attachment is accepted,
  the manager's active owner has the envelope's binding, and no packet passes its ports in either
  direction unless the boot clock is still before the envelope's monotonic cap and the wall
  clock before its signed expiry, whatever the clocks read when it is asked to send.
\<close>

theorem attached_owner_ends_with_authority:
  assumes "authority_apply_request H peer q fds w = (Inr (), w')"
    and "aq_operation q = Attach_Authorized" and "aq_envelope q = Some e"
  shows "\<exists>o1. pm_owner (tw_manager w') = Some o1 \<and> owner_binding o1 = ae_binding e
    \<and> (\<forall>clk now x. owner_send_to_worker o1 clk now x = Inr True \<or> owner_send_to_tun o1 clk now x = Inr True \<longrightarrow>
        (\<exists>boot wall. clk_boot_ms clk = Inr boot \<and> boot < ae_effective_deadline_mono_ms e
          \<and> clk_wall clk = Inr wall \<and> wall < seconds (unat (ae_effective_expiry_unix e))))"
proof -
  have finish: "hoare (\<lambda>_. True) (bind (op_attach_authorized H peer q fds) (\<lambda>flow.
      case flow of Return_Early \<Rightarrow> return () | Fall_Through \<Rightarrow> andthen (publish H) (return ())))
      (\<lambda>_ w. owner_under e (tw_manager w)) (\<lambda>_ _. True)"
    by (rule hoare_bind [OF hoare_op_attach [OF assms(3)]])
      (auto intro: hoare_return hoare_andthen [OF hoare_manager_fixed(3)] split: flow.splits)
  have "hoare (\<lambda>_. True) (authority_apply_request H peer q fds) (\<lambda>_ w. owner_under e (tw_manager w)) (\<lambda>_ _. True)"
    unfolding authority_apply_request_def assms(2) authority_dispatch.simps synced_publication.simps if_False
    by (rule hoare_bind [OF hoare_True], rule hoare_bind [OF hoare_True], rule hoare_andthen [OF hoare_True],
        rule hoare_andthen [OF hoare_True], rule hoare_andthen [OF hoare_True], rule hoare_andthen [OF hoare_True],
        rule finish)
  from hoare_Inr [OF this _ assms(1)] obtain o1 where o1: "pm_owner (tw_manager w') = Some o1" "owner_binding o1 = ae_binding e"
      "ow_authorization o1 = Some (authority_check e)"
    by (auto simp: owner_under_def split: option.splits)
  have "is_ok (authority_check e clk)"
    if "owner_send_to_worker o1 clk now x = Inr True \<or> owner_send_to_tun o1 clk now x = Inr True" for clk now x
    using that o1(3) by (auto simp: owner_send_to_worker_def owner_send_to_tun_def dest!: send_allowed)
  with o1 show ?thesis by (blast dest: authority_check_ok)
qed

definition staged_controller :: tunio_controller where
  "staged_controller = (sample_controller (sample_process 2))\<lparr>co_authority := default_authority\<lparr>as_pending := Some sample_authority,
    as_highest_revision := 1, as_highest_owner_epoch := 2, as_highest_policy_generation := 7\<rparr>\<rparr>"

definition staged_world :: tunio_world where
  "staged_world = (sample_tunio (sample_process 2))\<lparr>tw_controller := staged_controller\<rparr>"

definition sample_fd :: descriptor where
  "sample_fd = \<lparr>fd_is_datagram = Inr True, fd_is_unix = Inr (), fd_connected = Inr (), fd_credentials = Inr (0, 2),
    fd_set_nonblocking = Inr (), fd_registered = Inr ()\<rparr>"

lemma sample_validate:
  assumes "tw_controller w = (sample_controller (sample_process 2))\<lparr>co_authority := st\<rparr>"
  shows "validate_envelope tunio_sample_host sample_authority w = (Inr (), w\<lparr>tw_readings := tw_readings w + 4\<rparr>)"
  by (simp add: validate_envelope_def bind_def controller_of_def unix_time_def authority_monotonic_ms_def fallible_reading_def reading_def
      of_result_def return_def verified_duration_def checked_sub_def checked_mul_def first_failed_def envelope_checks_def assms
      sample_controller_def started_controller_def tunio_sample_host_def sample_authority_def sample_process_def sample_binding_def
      infrastructure_matches_def word_less_nat_alt word_le_nat_alt sample_hex)

lemma sample_deadline:
  "owner_deadline tunio_sample_host sample_authority w = (Inr 1000000020, w\<lparr>tw_readings := tw_readings w + 3\<rparr>)"
  by (simp add: owner_deadline_def owner_deadline_with_clocks_def bind_def reading_def fallible_reading_def authority_monotonic_ms_def
      of_result_def return_def remaining_mono_def remaining_wall_def checked_sub_def tunio_sample_host_def sample_authority_def
      seconds_def millis_def word_less_nat_alt)

lemma sample_packet_port:
  "packet_port tunio_sample_host [sample_fd] (sample_process 2) (sample_binding 2) w = (Inr (sample_port 2), w)"
  by (simp add: packet_port_def of_result_def packet_port_result_def sample_fd_def tunio_sample_host_def sample_process_def
      nonzero_binding_def sample_binding_def sample_port_def ensure_def)

definition manager_reattached :: packet_manager where
  "manager_reattached = replace_owner (new_owner (sample_port 2) 1000000020 None (Some (authority_check sample_authority))) manager_attached"

lemma sample_attach_change:
  "tw_manager w = manager_attached \<Longrightarrow>
    manager_change tunio_sample_host (Attach_Authorized_Port (sample_port 2) 1000000020 (authority_check sample_authority)) w
    = (Inr (manager_receipt manager_reattached), w\<lparr>tw_manager := manager_reattached, tw_readings := tw_readings w + 1\<rparr>)"
  by (simp add: manager_change_def manager_outcome_def manager_exchange_def bind_def andthen_def of_result_def return_def Let_def
      tunio_sample_host_def sample_link_def change_attach_def matches_infrastructure_def manager_attached_def initial_manager_def
      sample_port_def sample_binding_def check_refuses_def authority_check_def deadline_check_def sample_env_def sample_clock_def
      sample_authority_def seconds_def stale_binding_def manager_reattached_def word_less_nat_alt word_le_nat_alt)

lemma sample_reconcile:
  "reconcile tunio_sample_host actual w = (Inr (), w\<lparr>tw_controller := reconcile_deadline 1000 20 actual (reconcile_state 20 actual (tw_controller w)),
     tw_readings := tw_readings w + 3\<rparr>)"
  by (simp add: reconcile_def bind_def andthen_def reading_def update_controller_def authority_monotonic_ms_def fallible_reading_def
      tunio_sample_host_def)

lemmas reconcile_defs = reconcile_state_def reconcile_owner_def note_actual_def settle_candidate_def settle_terminal_def
  derive_receipts_def adopt_applied_def raise_marks_def reconciled_binding_def reconcile_deadline_def actual_deadline_def

lemma reattached_receipt:
  "manager_receipt manager_reattached = \<lparr>rc_binding = Some (sample_binding 2), rc_auth_deadline = Some 1000000020,
     rc_owner_epoch = 2, rc_policy_generation = 7, rc_pending = None, rc_last_transaction = None,
     rc_highest_transaction_revision = 0, rc_retained_owner_binding = None, rc_old_owner_drained = True,
     rc_forced_retirement = False\<rparr>"
  by (simp add: manager_receipt_def manager_reattached_def replace_owner_def retire_owner_def manager_attached_def
      initial_manager_def sample_port_def sample_binding_def)

lemma staged_resynced:
  "resynced manager_attached staged_controller = (sample_controller (sample_process 2))\<lparr>co_authority := default_authority
     \<lparr>as_pending := Some sample_authority, as_highest_revision := 1, as_highest_owner_epoch := 2,
      as_highest_policy_generation := 7, as_actual_owner_binding := Some (sample_binding 1),
      as_old_owner_drained := True, as_actual_deadline_mono_ms := Some 1000\<rparr>\<rparr>"
  by (simp add: resynced_def attached_receipt reconcile_defs checked_add_def staged_controller_def sample_controller_def
      started_controller_def default_authority_def sample_authority_def sample_binding_def Let_def max_def word_le_nat_alt)

lemma reattached_view:
  fixes c defines "c \<equiv> reconcile_deadline 1000 20 (manager_receipt manager_reattached)
    (reconcile_state 20 (manager_receipt manager_reattached) (resynced manager_attached staged_controller))"
  shows "as_active (co_authority c) = Some sample_authority" "co_binding c = sample_binding 2"
  by (simp_all add: c_def staged_resynced reattached_receipt reconcile_defs checked_add_def sample_controller_def
      started_controller_def default_authority_def sample_authority_def sample_binding_def Let_def)

lemma envelope_sel [simp]:
  "ae_transaction_id sample_authority = sample_tid" "ae_binding sample_authority = sample_binding 2"
  by (simp_all add: sample_authority_def)

lemma attach_run:
  assumes "tw_manager w = manager_attached" "tw_controller w = resynced manager_attached staged_controller"
  shows "\<exists>w'. op_attach_authorized tunio_sample_host (sample_process 2) (sample_authority_request Attach_Authorized (Some sample_authority)) [sample_fd] w
    = (Inr Fall_Through, w')"
proof -
  have state: "as_owner_candidate (co_authority (resynced manager_attached staged_controller)) = None"
      "as_pending (co_authority (resynced manager_attached staged_controller)) = Some sample_authority"
    by (simp_all add: staged_resynced default_authority_def)
  show ?thesis
    unfolding op_attach_authorized_def
    by (simp add: bind_def andthen_def controller_of_def reject_if_def required_envelope_def of_result_def return_def state
        sample_validate [OF assms(2) [unfolded staged_resynced]] sample_deadline sample_packet_port sample_attach_change assms(1)
        sample_reconcile assms(2) reattached_view)
qed

theorem attached_owner_ends_with_authority_witness:
  "\<exists>w' o1. authority_apply_request tunio_sample_host (sample_process 2) (sample_authority_request Attach_Authorized (Some sample_authority)) [sample_fd]
      staged_world = (Inr (), w') \<and> pm_owner (tw_manager w') = Some o1 \<and> owner_binding o1 = sample_binding 2"
proof -
  let ?w = "staged_world\<lparr>tw_controller := resynced manager_attached staged_controller, tw_readings := 5\<rparr>"
  obtain w1 where op: "op_attach_authorized tunio_sample_host (sample_process 2) (sample_authority_request Attach_Authorized (Some sample_authority)) [sample_fd] ?w
      = (Inr Fall_Through, w1)"
    using attach_run [of ?w] by (auto simp: staged_world_def sample_tunio_def)
  have "controller_fence tunio_sample_host (sample_process 2) (sample_authority_request Attach_Authorized (Some sample_authority)) staged_controller True"
    by (simp add: controller_fence_def sample_authority_request_def tunio_sample_host_def staged_controller_def sample_controller_def
        started_controller_def sample_process_def)
  with op obtain w' where run: "authority_apply_request tunio_sample_host (sample_process 2)
      (sample_authority_request Attach_Authorized (Some sample_authority)) [sample_fd] staged_world = (Inr (), w')"
    by (simp add: authority_apply_request_def bind_def andthen_def reject_if_def return_def controller_of_def reading_def
        sample_fence(1) sample_probe publish_def staged_world_def sample_tunio_def)
  from attached_owner_ends_with_authority [OF run] run show ?thesis by auto
qed

section \<open>Rebinding under the original authority\<close>

lemma hoare_attach_change_kind:
  "hoare (\<lambda>_. True) (attach_change H peer q fds orig)
     (\<lambda>change _. \<exists>port d check. (change = Attach_Port port d \<and> check = None \<or> (\<exists>a. change = Attach_Authorized_Port port d a \<and> check = Some a))
       \<and> up_binding port = pq_binding q \<and> d \<le> or_deadline orig \<and> pq_auth_deadline_unix q \<le> or_deadline_unix orig
       \<and> (\<forall>a. or_authorization orig = Some a \<longrightarrow> (\<exists>replacement. check = Some (both_checks a replacement)))) (\<lambda>_ _. True)"
proof (rule hoareI)
  fix w change w' assume "attach_change H peer q fds orig w = (Inr change, w')"
  then show "\<exists>port d check. (change = Attach_Port port d \<and> check = None \<or> (\<exists>a. change = Attach_Authorized_Port port d a \<and> check = Some a))
       \<and> up_binding port = pq_binding q \<and> d \<le> or_deadline orig \<and> pq_auth_deadline_unix q \<le> or_deadline_unix orig
       \<and> (\<forall>a. or_authorization orig = Some a \<longrightarrow> (\<exists>replacement. check = Some (both_checks a replacement)))"
    by (auto simp: attach_change_def rebind_deadline_def bind_eq andthen_eq controller_of_def reject_if_def reading_def
        fallible_reading_def of_result_def return_def Let_def not_less split: if_splits option.splits dest!: packet_port_binding)
qed simp

lemma exchange_attached_plain:
  assumes "manager_exchange H wants (Attach_Port port d) w = (Inr (Inr (), actual), w')"
  shows "pm_owner (tw_manager w') = Some (new_owner port d None None)"
  using assms
  by (auto simp: manager_exchange_def Let_def dest: attach_accepted split: option.splits if_splits prod.splits)

lemma publish_state: "publish H w = (r, w') \<Longrightarrow> tw_manager w' = tw_manager w \<and> tw_controller w' = tw_controller w"
  by (auto simp: publish_def split: sum.splits)

text \<open>
  C28: the schema-1 socket cannot extend the authority the process was started with. An accepted
  attachment happens only while no signed authority is staged or active, under a strictly higher
  owner epoch and the original policy; the new owner's deadline and the published expiry do not
  exceed the original ones, and its authorisation callback agrees only when the original agrees.
\<close>

theorem rebind_never_extends_authority:
  assumes "packet_apply_request H peer q fds orig w = (Inr (), w')" and "pq_operation q = Packet_Attach"
  shows "as_active (co_authority (tw_controller w)) = None \<and> as_pending (co_authority (tw_controller w)) = None
    \<and> pb_owner_epoch (co_binding (tw_controller w)) < pb_owner_epoch (pq_binding q)
    \<and> pb_policy_generation (pq_binding q) = pb_policy_generation (or_binding orig)
    \<and> co_binding (tw_controller w') = pq_binding q \<and> co_auth_deadline_unix (tw_controller w') \<le> or_deadline_unix orig
    \<and> (\<exists>o1. pm_owner (tw_manager w') = Some o1 \<and> owner_binding o1 = pq_binding q \<and> ow_auth_deadline o1 \<le> or_deadline orig
        \<and> (\<forall>original clk. or_authorization orig = Some original \<longrightarrow> check_refuses (Some original) clk \<longrightarrow>
            check_refuses (ow_authorization o1) clk))"
proof -
  have guards: "as_active (co_authority (tw_controller w)) = None \<and> as_pending (co_authority (tw_controller w)) = None
      \<and> fixed_binding_matches (pq_binding q) (or_binding orig)"
    using assms by (auto simp: packet_apply_request_def bind_eq andthen_eq controller_of_def reading_def reject_if_def split: if_splits)
  obtain change w1 where change: "attach_change H peer q fds orig (w\<lparr>tw_readings := Suc (tw_readings w)\<rparr>) = (Inr change, w1)"
      and commit: "packet_commit H peer q change w1 = (Inr (), w')"
    using assms by (auto simp: packet_apply_request_def bind_eq andthen_eq controller_of_def reading_def reject_if_def split: if_splits)
  have epoch: "pb_owner_epoch (co_binding (tw_controller w)) < pb_owner_epoch (pq_binding q)"
    using change by (auto simp: attach_change_def bind_eq andthen_eq controller_of_def reject_if_def not_le split: if_splits)
  obtain port d check where kind: "change = Attach_Port port d \<and> check = None \<or> (\<exists>a. change = Attach_Authorized_Port port d a \<and> check = Some a)"
      and port: "up_binding port = pq_binding q" "d \<le> or_deadline orig" "pq_auth_deadline_unix q \<le> or_deadline_unix orig"
      and both: "\<forall>a. or_authorization orig = Some a \<longrightarrow> (\<exists>replacement. check = Some (both_checks a replacement))"
    using hoare_Inr [OF hoare_attach_change_kind _ change] by blast
  obtain w2 w3 actual where exchanged: "manager_exchange H False change w2 = (Inr (Inr (), actual), w3)"
      and final: "tw_manager w' = tw_manager w3" "co_binding (tw_controller w') = pq_binding q"
        "co_auth_deadline_unix (tw_controller w') = pq_auth_deadline_unix q"
    using commit assms(2)
    by (auto simp: packet_commit_def bind_eq andthen_eq reading_def reject_if_def of_result_def update_controller_def
        split: if_splits prod.splits dest!: publish_state)
  have "pm_owner (tw_manager w') = Some (new_owner port d None check)"
    using kind exchanged final(1) by (auto dest: exchange_attached exchange_attached_plain)
  moreover have "check_refuses check clk" if "or_authorization orig = Some original" "check_refuses (Some original) clk" for original clk
    using both that by (cases "original clk") (auto simp: check_refuses_def both_checks_def)
  ultimately show ?thesis
    using guards epoch port final by (auto simp: fixed_binding_matches_def new_owner_def owner_binding_def)
qed

definition sample_original :: original_attachment where
  "sample_original = \<lparr>or_binding = sample_binding 1, or_deadline_unix = 100, or_deadline = 150, or_authorization = None,
    or_bootstrap_cap = None\<rparr>"

definition sample_rebind :: packet_control_request where
  "sample_rebind = \<lparr>pq_schema_version = 1, pq_process = sample_process 1, pq_controller = sample_process 2, pq_controller_epoch = 1,
    pq_token_sha256 = ''token'', pq_nonce = sample_tid, pq_operation = Packet_Attach, pq_binding = sample_binding 2,
    pq_auth_deadline_unix = 90\<rparr>"

lemma host_sel:
  "th_instant tunio_sample_host n = 20" "th_wall tunio_sample_host n = Inr 5000000000"
  "th_deadline_passed tunio_sample_host n = False" "th_link tunio_sample_host n = sample_link"
  "th_sha256_hex tunio_sample_host x = x"
  by (simp_all add: tunio_sample_host_def)

lemma rebind_change:
  "attach_change tunio_sample_host (sample_process 2) sample_rebind [sample_fd] sample_original
     ((sample_tunio (sample_process 2))\<lparr>tw_readings := Suc 0\<rparr>)
   = (Inr (Attach_Port (sample_port 2) 150), (sample_tunio (sample_process 2))\<lparr>tw_readings := 4\<rparr>)"
  by (simp add: attach_change_def rebind_deadline_def bind_def andthen_def controller_of_def reject_if_def reading_def
      fallible_reading_def of_result_def return_def Let_def sample_packet_port sample_rebind_def sample_original_def
      remaining_wall_def sample_tunio_def sample_controller_def started_controller_def host_sel seconds_def
      word_less_nat_alt word_le_nat_alt)
    (simp add: sample_binding_def)

lemma rebind_exchange:
  "tw_manager w = manager_attached \<Longrightarrow> \<exists>actual w'. manager_exchange tunio_sample_host False (Attach_Port (sample_port 2) 150) w = (Inr (Inr (), actual), w')"
  by (simp add: manager_exchange_def Let_def host_sel sample_link_def change_attach_def matches_infrastructure_def manager_attached_def
      initial_manager_def sample_port_def sample_binding_def check_refuses_def sample_env_def stale_binding_def)

theorem rebind_never_extends_authority_witness:
  "\<exists>w' o1. packet_apply_request tunio_sample_host (sample_process 2) sample_rebind [sample_fd] sample_original (sample_tunio (sample_process 2))
      = (Inr (), w') \<and> pm_owner (tw_manager w') = Some o1 \<and> ow_auth_deadline o1 \<le> 150 \<and> co_auth_deadline_unix (tw_controller w') \<le> 100"
proof -
  have fence: "packet_fence tunio_sample_host (sample_process 2) sample_rebind (sample_controller (sample_process 2)) True"
    by (simp add: packet_fence_def sample_rebind_def host_sel sample_controller_def started_controller_def sample_tid_def ascii_hex_digit_def)
  have matches: "fixed_binding_matches (pq_binding sample_rebind) (or_binding sample_original)"
    by (simp add: fixed_binding_matches_def sample_rebind_def sample_original_def sample_binding_def)
  have sel: "pq_operation sample_rebind = Packet_Attach" "co_registered (sample_controller p)"
      "as_active (co_authority (sample_controller p)) = None" "as_pending (co_authority (sample_controller p)) = None" for p
    by (simp_all add: sample_rebind_def sample_controller_def started_controller_def default_authority_def)
  obtain actual w2 where exchanged: "manager_exchange tunio_sample_host False (Attach_Port (sample_port 2) 150)
      ((sample_tunio (sample_process 2))\<lparr>tw_readings := 6\<rparr>) = (Inr (Inr (), actual), w2)"
    using rebind_exchange [of "(sample_tunio (sample_process 2))\<lparr>tw_readings := 6\<rparr>"] by (auto simp: sample_tunio_def)
  obtain w' where run: "packet_apply_request tunio_sample_host (sample_process 2) sample_rebind [sample_fd] sample_original
      (sample_tunio (sample_process 2)) = (Inr (), w')"
    using fence exchanged rebind_change
    by (simp add: packet_apply_request_def packet_commit_def bind_def andthen_def controller_of_def reject_if_def reading_def
        of_result_def update_controller_def publish_def matches sel sample_fence(1) host_sel sample_tunio_def)
  from rebind_never_extends_authority [OF run sel(1)] run show ?thesis by (auto simp: sample_original_def)
qed

section \<open>Transaction identifiers\<close>

text \<open>The reference rendering: two lowercase hexadecimal digits for each byte, most significant first.\<close>

definition hex_char :: "nat \<Rightarrow> char" where
  "hex_char n = ''0123456789abcdef'' ! n"

definition render_transaction_id :: "u128 \<Rightarrow> string" where
  "render_transaction_id x = concat (map (\<lambda>b. [hex_char (unat b div 16), hex_char (unat b mod 16)]) (to_be_bytes 16 x))"

lemma hex_char_value: "lower_hex_digit c \<Longrightarrow> hex_value c < 16 \<and> hex_char (hex_value c) = c"
  by (auto simp: lower_hex_digit_def hex_value_def hex_char_def)

lemma hex_pairs_render:
  "list_all lower_hex_digit v \<Longrightarrow> even (length v) \<Longrightarrow>
    length (hex_pairs v) = length v div 2
    \<and> concat (map (\<lambda>b. [hex_char (unat b div 16), hex_char (unat b mod 16)]) (hex_pairs v)) = v"
proof (induction v rule: hex_pairs.induct)
  case (1 a b rest)
  then have digits: "hex_value a < 16" "hex_value b < 16" "hex_char (hex_value a) = a" "hex_char (hex_value b) = b"
    using hex_char_value by auto
  then have "unat (of_nat (16 * hex_value a + hex_value b) :: byte) = 16 * hex_value a + hex_value b"
    by (simp add: unat_of_nat del: of_nat_add of_nat_mult)
  with 1 digits show ?case by (simp del: of_nat_add of_nat_mult)
qed auto

text \<open>
  the identifier handed to the manager determines the controller's: parsing the 32 hexadecimal digits
  of a transaction identifier succeeds exactly on lowercase hexadecimal strings of that length,
  and rendering the parsed bytes gives the identifier back, so two identifiers never meet in the manager.
\<close>

theorem transaction_id_roundtrip:
  "(\<exists>x. transaction_bytes v = Inr x \<and> render_transaction_id x = v) \<longleftrightarrow> hex v 32"
proof
  assume hex: "hex v 32"
  then have pairs: "length (hex_pairs v) = 16"
      "concat (map (\<lambda>b. [hex_char (unat b div 16), hex_char (unat b mod 16)]) (hex_pairs v)) = v"
    using hex_pairs_render [of v] by (simp_all add: hex_def)
  then have "to_be_bytes 16 (from_be_bytes (hex_pairs v) :: u128) = hex_pairs v"
    by (intro to_from_be_bytes) simp_all
  with hex pairs show "\<exists>x. transaction_bytes v = Inr x \<and> render_transaction_id x = v"
    by (simp add: transaction_bytes_def render_transaction_id_def)
qed (auto simp: transaction_bytes_def split: if_splits)

end
