(* ===== verification/Agent_Candidate.thy ===== *)
theory Agent_Candidate
  imports Tunio_Deadlines
begin

text \<open>
  The agent's side of an owner hand-over (\<^verbatim>\<open>candidate_ownership.rs\<close>): the durable record of one candidate,
  the proofs its worker has to show, and the requests that prepare, commit, recover or retire its
  transaction at \<^verbatim>\<open>candy-tunio\<close>, whose client side (\<^verbatim>\<open>exchange_authority\<close>) ends here.

  The world is the tunio process, the candidate in memory and the candidate in the journal. Publishing
  the journal may fail before or after the rename, so that a failed publication may still be durable.
  An exchange may fail before the request is served or after, and while the agent waits other
  requests, ticks and manager moves may happen. Worker status documents are decoded by \<^verbatim>\<open>serde\<close>: the
  decoded fields are the input of the model.
\<close>

section \<open>Installation proofs\<close>

record routing_candidate =
  rt_transaction_id :: u256
  rt_owner_epoch :: u64
  rt_policy_generation :: u64
  rt_authorization_sha256 :: u256
  rt_candidate_id :: u128
  rt_local_attachment_epoch :: u64
  rt_peer_attachment_epoch :: u64
  rt_tunnel_id :: u64

record barrier_identity =
  ba_id :: u256
  ba_generation :: u64
  ba_fence :: u64
  ba_hash :: u256

record peer_expectation =
  pe_attachment_id :: u128
  pe_selector :: routing_candidate
  pe_barrier :: barrier_identity

record peer_proof =
  pf_attachment_id :: u128
  pf_selector :: routing_candidate
  pf_barrier :: barrier_identity
  pf_prepared :: bool
  pf_installed :: bool
  pf_probe_sent :: bool
  pf_probe_received :: bool
  pf_drain_complete :: bool
  pf_drain_failed :: bool
  pf_activation_confirmed :: bool
  pf_transport_live :: bool
  pf_recovery_action :: string

record local_proof =
  lp_domain :: u128
  lp_owner_epoch :: u64
  lp_authorization_sha256 :: string
  lp_packet_slot :: packet_port_binding

record candidate_proof =
  cf_schema_version :: u8
  cf_transaction_id :: string
  cf_phase :: string
  cf_local :: local_proof
  cf_peers :: "peer_proof list"
  cf_forced_retirement :: bool
  cf_old_owner_drained :: bool

definition local_proof_matches :: "candidate_proof \<Rightarrow> authority_envelope \<Rightarrow> bool" where
  "local_proof_matches proof e \<longleftrightarrow> cf_schema_version proof = 1
    \<and> cf_transaction_id proof = ae_transaction_id e
    \<and> lp_domain (cf_local proof) = pb_routing_domain_id (ae_binding e)
    \<and> lp_owner_epoch (cf_local proof) = pb_owner_epoch (ae_binding e)
    \<and> lp_authorization_sha256 (cf_local proof) = ae_signed_control_hash e
    \<and> lp_packet_slot (cf_local proof) = ae_binding e"

definition peer_confirmed :: "peer_expectation \<Rightarrow> peer_proof \<Rightarrow> bool" where
  "peer_confirmed peer proof \<longleftrightarrow> pf_selector proof = pe_selector peer \<and> pf_barrier proof = pe_barrier peer
    \<and> pe_attachment_id peer \<noteq> 0
    \<and> rt_transaction_id (pe_selector peer) = ba_id (pe_barrier peer)
    \<and> rt_transaction_id (pe_selector peer) \<noteq> 0
    \<and> rt_owner_epoch (pe_selector peer) \<noteq> 0
    \<and> rt_policy_generation (pe_selector peer) \<noteq> 0
    \<and> rt_authorization_sha256 (pe_selector peer) \<noteq> 0
    \<and> rt_candidate_id (pe_selector peer) \<noteq> 0
    \<and> rt_local_attachment_epoch (pe_selector peer) \<noteq> 0
    \<and> rt_peer_attachment_epoch (pe_selector peer) \<noteq> 0
    \<and> rt_tunnel_id (pe_selector peer) \<noteq> 0
    \<and> ba_generation (pe_barrier peer) \<noteq> 0
    \<and> ba_fence (pe_barrier peer) \<noteq> 0
    \<and> ba_hash (pe_barrier peer) \<noteq> 0
    \<and> pf_prepared proof \<and> pf_installed proof \<and> pf_probe_sent proof \<and> pf_probe_received proof"

text \<open>The loop over the expected peers; \<open>seen\<close> are the ones already checked.\<close>

fun check_peers :: "peer_expectation list \<Rightarrow> peer_expectation list \<Rightarrow> peer_proof list \<Rightarrow> tunio_error + unit" where
  "check_peers seen [] proofs = Inr ()"
| "check_peers seen (peer # rest) proofs =
    rbind (ensure (Code ''candidate_duplicate_expected_peer'')
        (list_all (\<lambda>other. pe_attachment_id other \<noteq> pe_attachment_id peer) seen)) (\<lambda>_.
      case filter (\<lambda>proof. pf_attachment_id proof = pe_attachment_id peer) proofs of
        [proof] \<Rightarrow>
          rbind (ensure (Code ''candidate_peer_installation_unconfirmed'') (peer_confirmed peer proof)) (\<lambda>_.
            check_peers (seen @ [peer]) rest proofs)
      | _ \<Rightarrow> Inl (Code ''candidate_peer_coverage_mismatch''))"

definition require_identity :: "candidate_proof \<Rightarrow> authority_envelope \<Rightarrow> peer_expectation list \<Rightarrow> tunio_error + unit" where
  "require_identity proof e expected =
    rbind (ensure (Code ''candidate_local_proof_mismatch'') (local_proof_matches proof e)) (\<lambda>_.
    rbind (ensure (Code ''candidate_peer_coverage_mismatch'')
        (expected \<noteq> [] \<and> length expected = length (cf_peers proof))) (\<lambda>_.
      check_peers [] expected (cf_peers proof)))"

definition require_installed :: "candidate_proof \<Rightarrow> authority_envelope \<Rightarrow> peer_expectation list \<Rightarrow> tunio_error + unit" where
  "require_installed proof e expected =
    rbind (ensure (Code ''candidate_install_phase_mismatch'')
        (cf_phase proof = ''installed'' \<and> \<not> cf_forced_retirement proof
          \<and> list_all (\<lambda>peer. \<not> pf_drain_failed peer) (cf_peers proof))) (\<lambda>_.
      require_identity proof e expected)"

definition recovery_named :: "peer_proof \<Rightarrow> bool" where
  "recovery_named peer \<longleftrightarrow> pf_recovery_action peer =
    (if pf_activation_confirmed peer \<and> pf_transport_live peer then ''preserve_active_peer'' else ''redial_affected_peer'')"

definition require_failed_retirement ::
    "candidate_proof \<Rightarrow> authority_envelope \<Rightarrow> peer_expectation list \<Rightarrow> tunio_error + unit" where
  "require_failed_retirement proof e expected =
    rbind (require_identity proof e expected) (\<lambda>_.
      ensure (Code ''candidate_failed_retirement_unconfirmed'')
        (cf_phase proof = ''failed_drain_preserved'' \<and> cf_forced_retirement proof \<and> \<not> cf_old_owner_drained proof
          \<and> list_all (\<lambda>peer. pf_drain_complete peer \<noteq> pf_drain_failed peer) (cf_peers proof)
          \<and> list_ex pf_drain_failed (cf_peers proof)
          \<and> list_all recovery_named (cf_peers proof)))"

definition require_drained :: "candidate_proof \<Rightarrow> authority_envelope \<Rightarrow> peer_expectation list \<Rightarrow> tunio_error + unit" where
  "require_drained proof e expected =
    rbind (require_installed proof e expected) (\<lambda>_.
      ensure (Code ''candidate_peer_drain_unconfirmed'') (list_all pf_drain_complete (cf_peers proof)))"

section \<open>The candidate\<close>

datatype owner_state =
  Owner_Prepared | Owner_Committed | Owner_Aborted | Owner_Expired | Owner_Unknown | Owner_Cancelled_Before_Prepare

record candidate_owner =
  cw_envelope :: authority_envelope
  cw_expected_active :: "packet_port_binding option"
  cw_prepare_deadline_mono_ms :: u64
  cw_expected_peers :: "peer_expectation list"
  cw_commit_intent :: bool
  cw_precommit_cancellation :: "authority_response option"
  cw_committed_failure :: "authority_response option"
  cw_committed_isolation :: "authority_response option"
  cw_expired_commit_retirement :: "authority_response option"

definition candidate_new ::
    "authority_envelope \<Rightarrow> packet_port_binding option \<Rightarrow> u64 \<Rightarrow> peer_expectation list \<Rightarrow> tunio_error + candidate_owner" where
  "candidate_new e expected_active prepare_deadline_mono_ms expected_peers =
    rbind (ensure (Code ''candidate_owner_infrastructure_mismatch'') (case expected_active of None \<Rightarrow> True
      | Some old \<Rightarrow> infrastructure_matches old (ae_binding e)
          \<and> pb_owner_epoch old < pb_owner_epoch (ae_binding e)
          \<and> pb_policy_generation old \<le> pb_policy_generation (ae_binding e))) (\<lambda>_.
    rbind (ensure (Code ''candidate_peer_coverage_missing'') (expected_peers \<noteq> [])) (\<lambda>_.
      Inr \<lparr>cw_envelope = e, cw_expected_active = expected_active,
        cw_prepare_deadline_mono_ms = prepare_deadline_mono_ms, cw_expected_peers = expected_peers,
        cw_commit_intent = False, cw_precommit_cancellation = None, cw_committed_failure = None,
        cw_committed_isolation = None, cw_expired_commit_retirement = None\<rparr>))"

definition candidate_prepare_request :: "candidate_owner \<Rightarrow> authority_request \<Rightarrow> u64 \<Rightarrow> tunio_error + authority_request" where
  "candidate_prepare_request o1 base now_mono_ms =
    rbind (ensure (Code ''candidate_owner_prepare_invalid'')
        (\<not> cw_commit_intent o1 \<and> cw_precommit_cancellation o1 = None \<and> cw_expired_commit_retirement o1 = None
          \<and> cw_committed_isolation o1 = None \<and> cw_prepare_deadline_mono_ms o1 > now_mono_ms
          \<and> cw_prepare_deadline_mono_ms o1 \<le> ae_effective_deadline_mono_ms (cw_envelope o1)
          \<and> cw_prepare_deadline_mono_ms o1 - now_mono_ms \<le> 30000)) (\<lambda>_.
      Inr (base\<lparr>aq_schema_version := 3,
        aq_operation := Prepare_Owner_Operation (map_option pb_owner_epoch (cw_expected_active o1)) (cw_prepare_deadline_mono_ms o1),
        aq_envelope := Some (cw_envelope o1), aq_transaction_id := ae_transaction_id (cw_envelope o1)\<rparr>))"

definition receipt_matches :: "candidate_owner \<Rightarrow> authority_owner_receipt \<Rightarrow> bool" where
  "receipt_matches o1 receipt \<longleftrightarrow> ar_authority_revision receipt = ae_authority_revision (cw_envelope o1)
    \<and> ar_binding receipt = ae_binding (cw_envelope o1)
    \<and> ar_expected_active_epoch receipt = map_option pb_owner_epoch (cw_expected_active o1)
    \<and> ar_authorization_cap_mono_ms receipt = ae_effective_deadline_mono_ms (cw_envelope o1)
    \<and> ar_requested_prepare_deadline_mono_ms receipt = cw_prepare_deadline_mono_ms o1"

definition observed_prepared :: "candidate_owner \<Rightarrow> authority_response \<Rightarrow> bool" where
  "observed_prepared o1 reply \<longleftrightarrow> ap_pending reply = Some (cw_envelope o1)
    \<and> ap_actual_owner_binding reply = cw_expected_active o1
    \<and> (cw_expected_active o1 = None \<or> ap_owner_active reply)"

definition observed_committed :: "candidate_owner \<Rightarrow> authority_response \<Rightarrow> bool" where
  "observed_committed o1 reply \<longleftrightarrow> ap_active reply = Some (cw_envelope o1) \<and> ap_owner_active reply
    \<and> ap_applied_transaction_id reply = Some (ae_transaction_id (cw_envelope o1))
    \<and> ap_authority_revision reply = Some (ae_authority_revision (cw_envelope o1))
    \<and> ap_actual_owner_binding reply = Some (ae_binding (cw_envelope o1))
    \<and> (case ap_actual_deadline_mono_ms reply of None \<Rightarrow> False
       | Some cap \<Rightarrow> cap \<le> ae_effective_deadline_mono_ms (cw_envelope o1))"

definition observed_ended :: "candidate_owner \<Rightarrow> authority_response \<Rightarrow> bool" where
  "observed_ended o1 reply \<longleftrightarrow> ap_active reply \<noteq> Some (cw_envelope o1)
    \<and> ap_actual_owner_binding reply \<noteq> Some (ae_binding (cw_envelope o1))"

definition observe :: "candidate_owner \<Rightarrow> authority_response \<Rightarrow> tunio_error + owner_state" where
  "observe o1 reply = (case ap_owner_transaction reply of
      None \<Rightarrow> Inr Owner_Unknown
    | Some receipt \<Rightarrow>
        if ar_transaction_id receipt \<noteq> ae_transaction_id (cw_envelope o1) then Inr Owner_Unknown
        else rbind (ensure (Code ''candidate_owner_receipt_mismatch'')
            (ap_schema_version reply = 3 \<and> ap_accepted reply \<and> receipt_matches o1 receipt)) (\<lambda>_.
          if ar_phase receipt = ''prepared'' then
            rbind (ensure (Code ''candidate_owner_active_changed'') (observed_prepared o1 reply)) (\<lambda>_. Inr Owner_Prepared)
          else if ar_phase receipt = ''committed'' then
            rbind (ensure (Code ''candidate_owner_commit_unconfirmed'') (observed_committed o1 reply)) (\<lambda>_. Inr Owner_Committed)
          else if ar_phase receipt = ''aborted'' \<or> ar_phase receipt = ''expired'' then
            rbind (ensure (Code ''candidate_owner_terminal_mismatch'') (observed_ended o1 reply)) (\<lambda>_.
              Inr (if ar_phase receipt = ''aborted'' then Owner_Aborted else Owner_Expired))
          else Inr Owner_Unknown))"

definition candidate_commit_request :: "candidate_owner \<Rightarrow> authority_request \<Rightarrow> candidate_proof \<Rightarrow> tunio_error + authority_request" where
  "candidate_commit_request o1 base proof =
    rbind (require_installed proof (cw_envelope o1) (cw_expected_peers o1)) (\<lambda>_.
    rbind (ensure (Code ''candidate_owner_commit_intent_missing'') (cw_commit_intent o1)) (\<lambda>_.
    rbind (ensure (Code ''candidate_owner_retired'')
        (cw_expired_commit_retirement o1 = None \<and> cw_committed_isolation o1 = None)) (\<lambda>_.
      Inr (base\<lparr>aq_schema_version := 3, aq_operation := Commit_Owner_Operation,
        aq_envelope := Some (cw_envelope o1), aq_transaction_id := ae_transaction_id (cw_envelope o1)\<rparr>))))"

definition require_failed_retirement_receipt ::
    "candidate_owner \<Rightarrow> authority_response \<Rightarrow> process_identity \<Rightarrow> u64 \<Rightarrow> tunio_error + unit" where
  "require_failed_retirement_receipt o1 reply io_identity now_mono_ms =
    rbind (observe o1 reply) (\<lambda>state.
      ensure (Code ''mbb_failed_retirement_receipt_mismatch'')
        (state = Owner_Committed \<and> ap_process reply = io_identity
          \<and> ap_current_binding reply = ae_binding (cw_envelope o1)
          \<and> ap_forced_retirement reply \<and> \<not> ap_old_owner_drained reply
          \<and> ap_retained_owner_binding reply = None \<and> ap_pending reply = None
          \<and> now_mono_ms \<ge> cw_prepare_deadline_mono_ms o1
          \<and> (case ap_actual_deadline_mono_ms reply of None \<Rightarrow> False
             | Some cap \<Rightarrow> now_mono_ms < cap \<and> cap \<le> ae_effective_deadline_mono_ms (cw_envelope o1))))"

definition committed_outcome :: "candidate_owner \<Rightarrow> authority_response \<Rightarrow> authority_owner_receipt \<Rightarrow> bool" where
  "committed_outcome o1 reply receipt \<longleftrightarrow> cw_commit_intent o1 \<and> ap_schema_version reply = 3 \<and> ap_accepted reply
    \<and> ar_transaction_id receipt = ae_transaction_id (cw_envelope o1)
    \<and> receipt_matches o1 receipt \<and> ar_phase receipt = ''committed''
    \<and> ap_owner_highest_revision reply = Some (ae_authority_revision (cw_envelope o1))
    \<and> ap_pending reply = None
    \<and> (ap_actual_owner_binding reply = None \<or> ap_actual_owner_binding reply = Some (ae_binding (cw_envelope o1)))
    \<and> (ap_retained_owner_binding reply = None \<or> ap_retained_owner_binding reply = cw_expected_active o1)"

definition require_committed_outcome :: "candidate_owner \<Rightarrow> authority_response \<Rightarrow> tunio_error + unit" where
  "require_committed_outcome o1 reply =
    rbind (ok_or (Code ''candidate_committed_receipt_missing'') (ap_owner_transaction reply)) (\<lambda>receipt.
      ensure (Code ''candidate_committed_recovery_mismatch'') (committed_outcome o1 reply receipt))"

definition committed_isolation_needed ::
    "candidate_owner \<Rightarrow> authority_response \<Rightarrow> (tunio_error + bool) \<Rightarrow> tunio_error + bool" where
  "committed_isolation_needed o1 reply business_current =
    rbind (require_committed_outcome o1 reply) (\<lambda>_.
      if \<not> ap_owner_active reply then Inr True else rbind business_current (\<lambda>current. Inr (\<not> current)))"

text \<open>
  The worker's status is fresh within five seconds of the boot clock, at most 50 ms ahead of it, and
  decodes to a proof; \<open>reported\<close> is its \<^verbatim>\<open>reported_at_mono_ms\<close>.
\<close>

definition proof_from_status ::
    "candidate_owner \<Rightarrow> u64 option \<Rightarrow> candidate_proof option \<Rightarrow> u64 \<Rightarrow> tunio_error + candidate_proof" where
  "proof_from_status o1 reported decoded now_mono_ms =
    rbind (ensure (Code ''candidate_worker_proof_stale'')
        ((case reported of None \<Rightarrow> False
          | Some r \<Rightarrow> r \<noteq> 0 \<and> r \<le> saturating_add now_mono_ms 50 \<and> saturating_sub now_mono_ms r \<le> 5000)
         \<and> now_mono_ms < ae_effective_deadline_mono_ms (cw_envelope o1))) (\<lambda>_.
    rbind (ok_or (Code ''candidate_worker_proof_missing'') decoded) (\<lambda>proof.
    rbind (require_installed proof (cw_envelope o1) (cw_expected_peers o1)) (\<lambda>_. Inr proof)))"

section \<open>The agent's world\<close>

datatype journal_write = Journal_Stored | Journal_Failed bool string

record exchange_link =
  xl_refused :: "string option"
  xl_peer :: process_identity
  xl_lost :: "string option"

record agent_host =
  gh_persist :: "nat \<Rightarrow> journal_write"
  gh_is_current :: "nat \<Rightarrow> process_identity \<Rightarrow> bool"
  gh_nonce :: "nat \<Rightarrow> string"
  gh_link :: "nat \<Rightarrow> exchange_link"
  gh_meanwhile :: "nat \<Rightarrow> tunio_world \<Rightarrow> tunio_world"

record agent_world =
  ag_tunio :: tunio_world
  ag_owner :: candidate_owner
  ag_journal :: "candidate_owner option"
  ag_readings :: nat

type_synonym 'a agent_op = "(agent_world, tunio_error, 'a) action"

definition agent_reading :: "(nat \<Rightarrow> 'a) \<Rightarrow> 'a agent_op" where
  "agent_reading f a = (Inr (f (ag_readings a)), a\<lparr>ag_readings := Suc (ag_readings a)\<rparr>)"

definition owner_of :: "candidate_owner agent_op" where
  "owner_of a = (Inr (ag_owner a), a)"

definition update_owner :: "(candidate_owner \<Rightarrow> candidate_owner) \<Rightarrow> unit agent_op" where
  "update_owner f a = (Inr (), a\<lparr>ag_owner := f (ag_owner a)\<rparr>)"

definition agent_reject :: "bool \<Rightarrow> string \<Rightarrow> unit agent_op" where
  "agent_reject b code a = ((if b then Inl (Code code) else Inr ()), a)"

definition on_tunio :: "'a tunio_op \<Rightarrow> 'a agent_op" where
  "on_tunio m a = (case m (ag_tunio a) of (r, w) \<Rightarrow> (r, a\<lparr>ag_tunio := w\<rparr>))"

text \<open>What happens at tunio while the agent is between two of its own requests.\<close>

definition meanwhile :: "agent_host \<Rightarrow> unit agent_op" where
  "meanwhile G a = (Inr (), a\<lparr>ag_tunio := gh_meanwhile G (ag_readings a) (ag_tunio a), ag_readings := Suc (ag_readings a)\<rparr>)"

definition persist_candidate :: "agent_host \<Rightarrow> unit agent_op" where
  "persist_candidate G a = (case gh_persist G (ag_readings a) of
      Journal_Stored \<Rightarrow> (Inr (), a\<lparr>ag_journal := Some (ag_owner a), ag_readings := Suc (ag_readings a)\<rparr>)
    | Journal_Failed durable e \<Rightarrow> (Inl (Host_Error e),
        a\<lparr>ag_journal := (if durable then Some (ag_owner a) else ag_journal a), ag_readings := Suc (ag_readings a)\<rparr>))"

section \<open>The client side of the authority socket\<close>

definition response_fence :: "process_identity \<Rightarrow> authority_request \<Rightarrow> authority_response \<Rightarrow> bool" where
  "response_fence expected_io q reply \<longleftrightarrow> ap_schema_version reply = aq_schema_version q
    \<and> ap_process reply = expected_io \<and> ap_controller reply = aq_controller q
    \<and> ap_controller_epoch reply = aq_controller_epoch q \<and> ap_nonce reply = aq_nonce q"

definition exchange_authority_outcome ::
    "agent_host \<Rightarrow> tunio_host \<Rightarrow> process_identity \<Rightarrow> authority_request \<Rightarrow> descriptor option \<Rightarrow> authority_response agent_op" where
  "exchange_authority_outcome G H expected_io q fd =
    bind (agent_reading (gh_is_current G)) (\<lambda>current.
    andthen (agent_reject (aq_process q \<noteq> expected_io \<or> \<not> current expected_io) ''authority_io_identity'')
    (andthen (agent_reject ((fd \<noteq> None) \<noteq> needs_descriptor (aq_operation q)) ''authority_descriptor_shape'')
    (andthen (meanwhile G)
    (bind (agent_reading (gh_link G)) (\<lambda>link.
    case xl_refused link of
      Some e \<Rightarrow> throw (Host_Error e)
    | None \<Rightarrow>
        bind (on_tunio (serve_authority H (xl_peer link) q (case fd of None \<Rightarrow> [] | Some d \<Rightarrow> [d]))) (\<lambda>reply.
        case xl_lost link of
          Some e \<Rightarrow> throw (Host_Error e)
        | None \<Rightarrow> andthen (agent_reject (\<not> response_fence expected_io q reply) ''authority_response_fencing'')
            (return reply)))))))"

definition exchange_authority ::
    "agent_host \<Rightarrow> tunio_host \<Rightarrow> process_identity \<Rightarrow> authority_request \<Rightarrow> descriptor option \<Rightarrow> authority_response agent_op" where
  "exchange_authority G H expected_io q fd =
    bind (exchange_authority_outcome G H expected_io q fd) (\<lambda>reply.
    andthen (agent_reject (\<not> ap_accepted reply) (ap_code reply)) (return reply))"

section \<open>Operations\<close>

definition probe_request :: "agent_host \<Rightarrow> authority_request \<Rightarrow> authority_request agent_op" where
  "probe_request G q = bind (agent_reading (gh_nonce G)) (\<lambda>nonce.
    return (q\<lparr>aq_schema_version := 3, aq_nonce := nonce, aq_operation := Probe_Transaction, aq_envelope := None\<rparr>))"

text \<open>A request whose answer was lost is followed by one probe of its transaction.\<close>

definition exchange_or_probe ::
    "agent_host \<Rightarrow> tunio_host \<Rightarrow> process_identity \<Rightarrow> authority_request \<Rightarrow> descriptor option \<Rightarrow> authority_response agent_op" where
  "exchange_or_probe G H io q fd =
    bind (attempt (exchange_authority G H io q fd)) (\<lambda>outcome. case outcome of
      Inr reply \<Rightarrow> return reply
    | Inl _ \<Rightarrow> bind (probe_request G q) (\<lambda>p. exchange_authority G H io p None))"

definition observe_reply :: "authority_response \<Rightarrow> owner_state agent_op" where
  "observe_reply reply = bind owner_of (\<lambda>o1. of_result (observe o1 reply))"

definition prepare_with ::
    "agent_host \<Rightarrow> tunio_host \<Rightarrow> process_identity \<Rightarrow> authority_request \<Rightarrow> descriptor \<Rightarrow> u64 \<Rightarrow> owner_state agent_op" where
  "prepare_with G H io base port now_mono_ms =
    bind owner_of (\<lambda>o1.
    bind (of_result (candidate_prepare_request o1 base now_mono_ms)) (\<lambda>q.
    andthen (persist_candidate G)
    (bind (exchange_or_probe G H io q (Some port)) observe_reply)))"

text \<open>The intent stays set in memory when its publication fails: it may be durable all the same.\<close>

definition begin_commit :: "agent_host \<Rightarrow> authority_request \<Rightarrow> candidate_proof \<Rightarrow> authority_request agent_op" where
  "begin_commit G base proof =
    bind owner_of (\<lambda>o1.
    andthen (agent_reject (cw_precommit_cancellation o1 \<noteq> None \<or> cw_expired_commit_retirement o1 \<noteq> None
        \<or> cw_committed_isolation o1 \<noteq> None) ''candidate_owner_cancelled'')
    (andthen (of_result (require_installed proof (cw_envelope o1) (cw_expected_peers o1)))
    (andthen (update_owner (\<lambda>o1. o1\<lparr>cw_commit_intent := True\<rparr>))
    (andthen (persist_candidate G)
    (bind owner_of (\<lambda>o1. of_result (candidate_commit_request o1 base proof)))))))"

definition promote_with ::
    "agent_host \<Rightarrow> tunio_host \<Rightarrow> process_identity \<Rightarrow> authority_request \<Rightarrow> candidate_proof \<Rightarrow> owner_state agent_op" where
  "promote_with G H io base proof =
    bind (begin_commit G base proof) (\<lambda>q. bind (exchange_or_probe G H io q None) observe_reply)"

definition record_committed_failure :: "agent_host \<Rightarrow> authority_response \<Rightarrow> unit agent_op" where
  "record_committed_failure G reply =
    bind owner_of (\<lambda>o1.
    andthen (of_result (require_committed_outcome o1 reply))
    (andthen (update_owner (\<lambda>o1. if cw_committed_failure o1 = None then o1\<lparr>cw_committed_failure := Some reply\<rparr> else o1))
      (persist_candidate G)))"

definition isolation_confirmed :: "candidate_owner \<Rightarrow> authority_response \<Rightarrow> bool" where
  "isolation_confirmed o1 reply \<longleftrightarrow> cw_committed_failure o1 \<noteq> None
    \<and> ap_isolated_committed reply = Some (cw_envelope o1) \<and> \<not> ap_owner_active reply
    \<and> ap_actual_owner_binding reply = None \<and> ap_retained_owner_binding reply = None"

definition record_committed_isolation :: "agent_host \<Rightarrow> authority_response \<Rightarrow> unit agent_op" where
  "record_committed_isolation G reply =
    bind owner_of (\<lambda>o1.
    andthen (of_result (require_committed_outcome o1 reply))
    (andthen (agent_reject (\<not> isolation_confirmed o1 reply) ''candidate_committed_isolation_unconfirmed'')
    (andthen (update_owner (\<lambda>o1. o1\<lparr>cw_committed_isolation := Some reply\<rparr>))
      (persist_candidate G))))"

definition reply_answers :: "authority_request \<Rightarrow> authority_response \<Rightarrow> bool" where
  "reply_answers q reply \<longleftrightarrow> ap_process reply = aq_process q \<and> ap_controller reply = aq_controller q
    \<and> ap_controller_epoch reply = aq_controller_epoch q \<and> ap_nonce reply = aq_nonce q"

definition cancellation_confirmed :: "candidate_owner \<Rightarrow> packet_port_binding \<Rightarrow> authority_response \<Rightarrow> bool" where
  "cancellation_confirmed o1 expected reply \<longleftrightarrow> ap_precommit_cancelled reply = Some (cw_envelope o1)
    \<and> ap_schema_version reply = 3 \<and> ap_accepted reply \<and> ap_owner_active reply
    \<and> ap_actual_owner_binding reply = Some expected \<and> ap_current_binding reply = expected
    \<and> ap_active reply \<noteq> Some (cw_envelope o1) \<and> ap_pending reply = None
    \<and> ap_retained_owner_binding reply = None \<and> ap_owner_transaction reply = None
    \<and> (case ap_owner_highest_revision reply of None \<Rightarrow> False
       | Some revision \<Rightarrow> revision < ae_authority_revision (cw_envelope o1))
    \<and> ap_highest_revision reply = ae_authority_revision (cw_envelope o1)
    \<and> ap_highest_owner_epoch reply = pb_owner_epoch (ae_binding (cw_envelope o1))
    \<and> ap_highest_policy_generation reply = pb_policy_generation (ae_binding (cw_envelope o1))"

definition recover_precommit_with ::
    "agent_host \<Rightarrow> tunio_host \<Rightarrow> process_identity \<Rightarrow> authority_request \<Rightarrow> owner_state agent_op" where
  "recover_precommit_with G H io base =
    bind owner_of (\<lambda>o1.
    andthen (agent_reject (cw_commit_intent o1) ''candidate_owner_commit_unknown'')
    (bind (of_result (ok_or (Code ''candidate_precommit_original_owner_missing'') (cw_expected_active o1))) (\<lambda>expected.
    let q = base\<lparr>aq_schema_version := 3, aq_operation := Recover_Precommit expected,
      aq_envelope := Some (cw_envelope o1), aq_transaction_id := ae_transaction_id (cw_envelope o1)\<rparr> in
    bind (exchange_authority G H io q None) (\<lambda>reply.
    andthen (agent_reject (\<not> reply_answers q reply) ''candidate_precommit_response_fence_mismatch'')
    (if ap_precommit_cancelled reply = None then observe_reply reply
     else andthen (agent_reject (\<not> cancellation_confirmed o1 expected reply) ''candidate_precommit_cancellation_unconfirmed'')
       (andthen (update_owner (\<lambda>o1. o1\<lparr>cw_precommit_cancellation := Some reply\<rparr>))
       (andthen (persist_candidate G)
         (return Owner_Cancelled_Before_Prepare))))))))"

definition retirement_confirmed :: "candidate_owner \<Rightarrow> packet_port_binding \<Rightarrow> authority_response \<Rightarrow> bool" where
  "retirement_confirmed o1 expected reply \<longleftrightarrow>
    ap_owner_active reply \<and> ap_actual_owner_binding reply = Some expected
    \<and> ap_current_binding reply = expected \<and> ap_pending reply = None
    \<and> ap_retained_owner_binding reply = None
    \<and> ap_owner_highest_revision reply = Some (ae_authority_revision (cw_envelope o1))"

definition retire_expired_commit_with ::
    "agent_host \<Rightarrow> tunio_host \<Rightarrow> process_identity \<Rightarrow> authority_request \<Rightarrow> unit agent_op" where
  "retire_expired_commit_with G H io base =
    bind owner_of (\<lambda>o1.
    andthen (agent_reject (\<not> cw_commit_intent o1) ''candidate_commit_intent_missing'')
    (bind (of_result (ok_or (Code ''expired_commit_original_binding_absent'') (cw_expected_active o1))) (\<lambda>expected.
    let q = base\<lparr>aq_schema_version := 3, aq_operation := Retire_Expired_Commit expected,
      aq_envelope := Some (cw_envelope o1), aq_transaction_id := ae_transaction_id (cw_envelope o1)\<rparr> in
    bind (exchange_authority G H io q None) (\<lambda>reply.
    andthen (agent_reject (\<not> (reply_answers q reply \<and> ap_retired_expired_commit reply = Some (cw_envelope o1)))
      ''candidate_expired_commit_retirement_unconfirmed'')
    (bind (observe_reply reply) (\<lambda>state.
    andthen (agent_reject (\<not> (state = Owner_Expired \<and> retirement_confirmed o1 expected reply))
      ''candidate_expired_commit_retirement_unconfirmed'')
    (andthen (update_owner (\<lambda>o1. o1\<lparr>cw_expired_commit_retirement := Some reply\<rparr>))
      (persist_candidate G))))))))"

text \<open>A restarted agent continues from its journal.\<close>

definition agent_restart :: "agent_world \<Rightarrow> agent_world" where
  "agent_restart a = (case ag_journal a of None \<Rightarrow> a | Some o1 \<Rightarrow> a\<lparr>ag_owner := o1\<rparr>)"

end
