(* ===== verification/Agent_Laws.thy ===== *)
theory Agent_Laws
  imports Agent_Candidate "HOL-Library.Multiset"
begin

text \<open>
  The library behind the agent's properties: what the loop over the expected peers accepts, what a
  successful exchange tells about the tunio process, which runs of that process leave a revision
  uncommitted, and that a cancelled envelope is spent in every reachable state.
\<close>

section \<open>Peers\<close>

abbreviation proofs_of :: "peer_proof list \<Rightarrow> peer_expectation \<Rightarrow> peer_proof list" where
  "proofs_of proofs peer \<equiv> filter (\<lambda>proof. pf_attachment_id proof = pe_attachment_id peer) proofs"

definition proves :: "peer_expectation \<Rightarrow> peer_proof \<Rightarrow> bool" where
  "proves peer proof \<longleftrightarrow> pf_attachment_id proof = pe_attachment_id peer \<and> peer_confirmed peer proof"

lemma check_peers_iff:
  "check_peers seen expected proofs = Inr () \<longleftrightarrow>
    distinct (map pe_attachment_id expected)
    \<and> pe_attachment_id ` set seen \<inter> pe_attachment_id ` set expected = {}
    \<and> (\<forall>peer \<in> set expected. \<exists>proof. proofs_of proofs peer = [proof] \<and> peer_confirmed peer proof)"
proof (induction expected arbitrary: seen)
  case (Cons peer rest)
  have seen: "list_all (\<lambda>other. pe_attachment_id other \<noteq> pe_attachment_id peer) seen
      \<longleftrightarrow> pe_attachment_id peer \<notin> pe_attachment_id ` set seen"
    by (auto simp: list_all_iff) (metis image_eqI)
  consider (one) p where "proofs_of proofs peer = [p]" | (other) "\<And>p. proofs_of proofs peer \<noteq> [p]" by blast
  then show ?case
  proof cases
    case one
    have "check_peers seen (peer # rest) proofs = Inr () \<longleftrightarrow>
        pe_attachment_id peer \<notin> pe_attachment_id ` set seen \<and> peer_confirmed peer p
        \<and> check_peers (seen @ [peer]) rest proofs = Inr ()"
      by (simp add: one seen rbind_eq_Inr)
    also have "\<dots> \<longleftrightarrow> distinct (map pe_attachment_id (peer # rest))
        \<and> pe_attachment_id ` set seen \<inter> pe_attachment_id ` set (peer # rest) = {}
        \<and> (\<forall>peer \<in> set (peer # rest). \<exists>proof. proofs_of proofs peer = [proof] \<and> peer_confirmed peer proof)"
      unfolding Cons.IH using one by auto
    finally show ?thesis .
  next
    case other
    then have "check_peers seen (peer # rest) proofs \<noteq> Inr ()"
      by (auto simp: rbind_eq_Inr split: list.splits)
    with other show ?thesis by auto
  qed
qed simp

lemma distinct_submset: "distinct xs \<Longrightarrow> set xs \<subseteq> set ys \<Longrightarrow> mset xs \<subseteq># mset ys"
proof (rule mset_subset_eqI)
  fix a assume "distinct xs" "set xs \<subseteq> set ys"
  then show "count (mset xs) a \<le> count (mset ys) a"
    by (cases "a \<in> set xs") (auto simp: distinct_count_atmost_1 count_mset_0_iff Suc_le_eq)
qed

lemma proofs_choice:
  assumes "\<forall>peer \<in> set expected. \<exists>proof. proofs_of proofs peer = [proof] \<and> peer_confirmed peer proof"
    and "distinct (map pe_attachment_id expected)" and "length expected = length proofs"
  shows "\<exists>ordered. mset ordered = mset proofs \<and> list_all2 proves expected ordered"
proof -
  let ?ordered = "map (\<lambda>peer. hd (proofs_of proofs peer)) expected"
  have each: "proves peer (hd (proofs_of proofs peer)) \<and> hd (proofs_of proofs peer) \<in> set proofs"
    if "peer \<in> set expected" for peer
  proof -
    from assms(1) that obtain p where p: "proofs_of proofs peer = [p]" "peer_confirmed peer p" by blast
    have "p \<in> set (proofs_of proofs peer)" unfolding p(1) by simp
    then have "pf_attachment_id p = pe_attachment_id peer \<and> p \<in> set proofs" by (simp only: set_filter mem_Collect_eq)
    with p show ?thesis by (simp add: proves_def)
  qed
  then have "map pf_attachment_id ?ordered = map pe_attachment_id expected" by (simp add: proves_def)
  with assms(2) have "distinct ?ordered" by (metis distinct_map)
  moreover have "set ?ordered \<subseteq> set proofs" using each by auto
  ultimately have "mset ?ordered \<subseteq># mset proofs" by (rule distinct_submset)
  then have "mset ?ordered = mset proofs"
    using assms(3) by (metis length_map size_mset mset_subset_size subset_mset.le_imp_less_or_eq less_irrefl)
  moreover have "list_all2 proves expected ?ordered" using each by (simp add: list_all2_conv_all_nth)
  ultimately show ?thesis by blast
qed

lemma proofs_unique:
  assumes "list_all2 proves expected ordered" and "distinct (map pe_attachment_id expected)" and "peer \<in> set expected"
  shows "\<exists>proof. proofs_of ordered peer = [proof] \<and> peer_confirmed peer proof"
  using assms
proof (induction rule: list_all2_induct)
  case (Cons x xs y ys)
  have ids: "map pf_attachment_id ys = map pe_attachment_id xs"
    using Cons.hyps(2) by (induction rule: list_all2_induct) (simp_all add: proves_def)
  then have set: "pf_attachment_id ` set ys = pe_attachment_id ` set xs" by (metis set_map)
  show ?case
  proof (cases "peer = x")
    case True
    have "pe_attachment_id x \<notin> pf_attachment_id ` set ys" using Cons.prems(1) set by simp
    then have "proofs_of ys x = []" unfolding filter_empty_conv by (metis image_eqI)
    with True Cons.hyps(1) show ?thesis by (simp add: proves_def)
  next
    case False
    with Cons.prems have peer: "peer \<in> set xs" by simp
    then have "pe_attachment_id peer \<noteq> pe_attachment_id x" using Cons.prems(1) by (metis distinct.simps(2) image_eqI list.simps(9) set_map)
    with Cons.hyps(1) Cons.IH peer Cons.prems(1) show ?thesis by (simp add: proves_def)
  qed
qed simp

lemma check_peers_permutation:
  assumes "length expected = length proofs"
  shows "check_peers [] expected proofs = Inr () \<longleftrightarrow> distinct (map pe_attachment_id expected)
    \<and> (\<exists>ordered. mset ordered = mset proofs \<and> list_all2 proves expected ordered)"
proof (intro iffI conjI)
  assume "check_peers [] expected proofs = Inr ()"
  then have "distinct (map pe_attachment_id expected)"
      and "\<forall>peer \<in> set expected. \<exists>proof. proofs_of proofs peer = [proof] \<and> peer_confirmed peer proof"
    by (simp_all add: check_peers_iff)
  then show "distinct (map pe_attachment_id expected)" "\<exists>ordered. mset ordered = mset proofs \<and> list_all2 proves expected ordered"
    using proofs_choice assms by blast+
next
  assume "distinct (map pe_attachment_id expected)
    \<and> (\<exists>ordered. mset ordered = mset proofs \<and> list_all2 proves expected ordered)"
  then obtain ordered where distinct: "distinct (map pe_attachment_id expected)"
      and ordered: "mset ordered = mset proofs" "list_all2 proves expected ordered" by blast
  have "\<exists>proof. proofs_of proofs peer = [proof] \<and> peer_confirmed peer proof" if peer: "peer \<in> set expected" for peer
  proof -
    obtain p where p: "proofs_of ordered peer = [p]" "peer_confirmed peer p"
      using proofs_unique [OF ordered(2) distinct peer] by blast
    have "mset (proofs_of proofs peer) = mset (proofs_of ordered peer)" using ordered(1) by (simp add: mset_filter)
    also have "\<dots> = {#p#}" unfolding p(1) by simp
    finally have "proofs_of proofs peer = [p]" unfolding mset_single_iff .
    with p(2) show ?thesis by blast
  qed
  with distinct show "check_peers [] expected proofs = Inr ()" by (simp add: check_peers_iff)
qed

section \<open>Exchanges\<close>

lemmas agent_defs = agent_reading_def owner_of_def update_owner_def agent_reject_def on_tunio_def meanwhile_def

lemma serve_accepted:
  assumes "serve_authority H peer q fds w = (Inr reply, w')" and "ap_accepted reply"
  shows "reply = authority_reply q (Inr ()) (tw_controller w') \<and> informed w'"
proof -
  obtain result where run: "authority_apply_request H peer q fds w = (result, w')"
      and reply: "reply = authority_reply q result (tw_controller w')"
    using assms(1)
    by (cases "authority_apply_request H peer q fds w")
      (auto simp: serve_authority_def bind_def attempt_def controller_of_def return_def)
  from assms(2) reply have "result = Inr ()" by (cases result) (auto simp: authority_reply_def Let_def)
  with run reply show ?thesis using hoare_Inr [OF request_informs] by blast
qed

text \<open>
  The worlds an exchange passes through: what happens meanwhile, and then the request if it is served.
\<close>

definition served :: "agent_host \<Rightarrow> tunio_host \<Rightarrow> authority_request \<Rightarrow> tunio_world \<Rightarrow> tunio_world \<Rightarrow> bool" where
  "served G H q w w' \<longleftrightarrow> (\<exists>n peer fds r. w' = gh_meanwhile G n w \<or> serve_authority H peer q fds (gh_meanwhile G n w) = (r, w'))"

lemma exchange_outcome_effect:
  assumes "exchange_authority_outcome G H io q fd a = (r, a')"
  shows "ag_owner a' = ag_owner a \<and> ag_journal a' = ag_journal a
    \<and> (ag_tunio a' = ag_tunio a \<or> served G H q (ag_tunio a) (ag_tunio a'))
    \<and> (\<forall>reply. r = Inr reply \<longrightarrow> (\<exists>n peer fds. serve_authority H peer q fds (gh_meanwhile G n (ag_tunio a)) = (Inr reply, ag_tunio a')))"
  using assms
  by (auto simp: exchange_authority_outcome_def bind_def andthen_def agent_defs throw_def return_def served_def
      split: if_splits option.splits sum.splits prod.splits) blast+

lemma exchange_effect:
  assumes "exchange_authority G H io q fd a = (r, a')"
  shows "ag_owner a' = ag_owner a \<and> ag_journal a' = ag_journal a
    \<and> (ag_tunio a' = ag_tunio a \<or> served G H q (ag_tunio a) (ag_tunio a'))"
proof -
  obtain r1 a1 where run: "exchange_authority_outcome G H io q fd a = (r1, a1)" by fastforce
  with assms have "a' = a1"
    by (cases r1) (auto simp: exchange_authority_def bind_def andthen_def agent_reject_def return_def split: if_splits)
  with exchange_outcome_effect [OF run] show ?thesis by simp
qed

lemma exchange_accepted:
  assumes "exchange_authority G H io q fd a = (Inr reply, a')"
  shows "reply = authority_reply q (Inr ()) (tw_controller (ag_tunio a')) \<and> informed (ag_tunio a')
    \<and> (\<exists>n peer fds. serve_authority H peer q fds (gh_meanwhile G n (ag_tunio a)) = (Inr reply, ag_tunio a'))"
proof -
  obtain r1 a1 where run: "exchange_authority_outcome G H io q fd a = (r1, a1)" by fastforce
  with assms have "a' = a1" "r1 = Inr reply" "ap_accepted reply"
    by (cases r1; auto simp: exchange_authority_def bind_def andthen_def agent_reject_def return_def split: if_splits)+
  with exchange_outcome_effect [OF run] serve_accepted show ?thesis by blast
qed

end
