(* ===== verification/Agent_Runs.thy ===== *)
theory Agent_Runs
  imports Agent_Laws
begin

text \<open>
  Runs of agent and tunio together. Without a commit request for it a revision is never committed at
  the manager; a cancelled envelope is spent in every reachable state; and the agent's journal
  announces a commit before the request that may cause it is sent.
\<close>

section \<open>Uncommitted revisions\<close>

definition uncommitted :: "u64 \<Rightarrow> packet_manager \<Rightarrow> bool" where
  "uncommitted v s \<longleftrightarrow> (case pm_last_transaction s of None \<Rightarrow> True
    | Some l \<Rightarrow> otr_phase l \<noteq> Phase_Committed \<or> tx_revision (otr_transaction l) \<noteq> v)"

lemma uncommitted_updates [simp]:
  "uncommitted v (revoke_active s) = uncommitted v s"
  "uncommitted v (force_retire s) = uncommitted v s"
  "uncommitted v (owner_failed s) = uncommitted v s"
  "uncommitted v (drop_retained s) = uncommitted v s"
  "uncommitted v (replace_owner o1 s) = uncommitted v s"
  "uncommitted v (retire_owner o1 s) = uncommitted v s"
  "uncommitted v (s\<lparr>pm_retired := xs\<rparr>) = uncommitted v s"
  "uncommitted v (s\<lparr>pm_retained := x\<rparr>) = uncommitted v s"
  "uncommitted v (s\<lparr>pm_owner := x\<rparr>) = uncommitted v s"
  "uncommitted v (s\<lparr>pm_old_owner_drained := b\<rparr>) = uncommitted v s"
  "uncommitted v (s\<lparr>pm_control_available := b\<rparr>) = uncommitted v s"
  "uncommitted v (s\<lparr>pm_no_worker_drops := n\<rparr>) = uncommitted v s"
  by (simp_all add: uncommitted_def revoke_active_def owner_failed_def drop_retained_def replace_owner_def
      force_retire_def retire_owner_def split: option.splits)

lemma uncommitted_end: "uncommitted v s \<Longrightarrow> phase \<noteq> Phase_Committed \<Longrightarrow> uncommitted v (end_candidate phase s)"
  by (auto simp: uncommitted_def end_candidate_def retire_owner_def split: option.splits)

lemma uncommitted_prepare: "change_prepare_owner env tx port a s = (r, s') \<Longrightarrow> uncommitted v s \<Longrightarrow> uncommitted v s'"
  by (erule prepare_cases) (auto simp: uncommitted_def staged_state_def)

lemma uncommitted_commit:
  "change_commit_owner env tx s = (r, s') \<Longrightarrow> uncommitted v s \<Longrightarrow> tx_revision tx \<noteq> v \<Longrightarrow> uncommitted v s'"
  by (erule commit_cases) (auto simp: uncommitted_def install_candidate_def)

lemma uncommitted_attach: "change_attach env port d a s = (r, s') \<Longrightarrow> uncommitted v s \<Longrightarrow> uncommitted v s'"
  by (erule attach_cases) auto

lemma uncommitted_change:
  assumes "apply_change env change s = (r, s')" and "uncommitted v s"
    and "admissible known (\<lambda>tx. tx_revision tx \<noteq> v) change"
  shows "uncommitted v s'"
  using assms
  by (cases change)
    (auto simp: change_finish_owner_drain_def change_retire_after_failure_def change_abort_owner_def
      change_probe_transaction_def change_renew_def change_revoke_def Let_def uncommitted_end
      dest: uncommitted_prepare uncommitted_commit uncommitted_attach split: if_splits option.splits sum.splits)

lemma uncommitted_own_step:
  assumes "manager_step env event s = (outcome, s')" and "own_event event" and "uncommitted v s"
  shows "uncommitted v s'"
proof (cases event)
  case (Update_Received closed change)
  show ?thesis
  proof (cases "\<exists>owner_epoch. change = Revoke_Owner owner_epoch")
    case True
    with Update_Received assms show ?thesis
      by (auto simp: change_revoke_def Let_def split: if_splits prod.splits)
  next
    case False
    with Update_Received assms(2) have closed by (cases change) auto
    with Update_Received assms show ?thesis by simp
  qed
qed (use assms in \<open>auto simp: uncommitted_end split: if_splits sum.splits option.splits\<close>)

text \<open>The requests that cannot commit the revision: all but a commit request for an envelope with it.\<close>

definition other_request :: "u64 \<Rightarrow> authority_request \<Rightarrow> bool" where
  "other_request v q \<longleftrightarrow> aq_operation q \<noteq> Commit_Owner_Operation
    \<or> (case aq_envelope q of None \<Rightarrow> True | Some e \<Rightarrow> ae_authority_revision e \<noteq> v)"

definition sound_uncommitted :: "u64 \<Rightarrow> tunio_world \<Rightarrow> bool" where
  "sound_uncommitted v = world_ok (\<lambda>c. records_hold record_exact (co_authority c)) (\<lambda>s. manager_inv s \<and> uncommitted v s)"

lemma sound_uncommitted_iff: "sound_uncommitted v w \<longleftrightarrow> sound_records w \<and> uncommitted v (tw_manager w)"
  by (auto simp: sound_uncommitted_def sound_records_def world_ok_def)

interpretation uncommitted: tunio_restricted "\<lambda>c. records_hold record_exact (co_authority c)"
    "\<lambda>s. manager_inv s \<and> uncommitted v s" record_exact "\<lambda>tx. tx_revision tx \<noteq> v" "\<lambda>_. True" for v
proof
  fix s env event outcome s'
  assume "manager_inv s \<and> uncommitted v s" "own_event event" "manager_step env event s = (outcome, s')"
  then show "manager_inv s' \<and> uncommitted v s'" by (blast intro: inv_manager_step uncommitted_own_step)
next
  fix s change env result s'
  assume "manager_inv s \<and> uncommitted v s" "admissible record_exact (\<lambda>tx. tx_revision tx \<noteq> v) change"
    "apply_change env change s = (result, s')"
  then show "manager_inv s' \<and> uncommitted v s'" by (blast intro: inv_apply_change uncommitted_change)
next
  show "records_hold record_exact (co_authority (reconcile_state now actual c))"
    if "records_hold record_exact (co_authority c)" for c now actual
    using that by (rule records_hold_reconcile_state) (simp add: record_exact_def)
qed (auto simp: records_hold_reconcile_deadline records_hold_record,
    auto simp: records_hold_def record_exact_def)

lemma other_request_allowed: "other_request v q \<Longrightarrow> request_allowed record_exact (\<lambda>tx. tx_revision tx \<noteq> v) (\<lambda>_. True) q"
  by (auto simp: other_request_def request_allowed_def record_exact_def)

lemma uncommitted_runs: "(tunio_moves_by (other_request v))\<^sup>*\<^sup>* w w' \<Longrightarrow> sound_uncommitted v w \<Longrightarrow> sound_uncommitted v w'"
  unfolding sound_uncommitted_def by (rule uncommitted.allowed_runs_ok [OF other_request_allowed])

lemma uncommitted_serve:
  "serve_authority H peer q fds w = (r, w') \<Longrightarrow> other_request v q \<Longrightarrow> sound_uncommitted v w \<Longrightarrow> sound_uncommitted v w'"
  unfolding sound_uncommitted_def
  by (rule maintainsD [OF uncommitted.maintains_serve_authority [OF other_request_allowed]])

section \<open>Cancelled envelopes are spent\<close>

definition uncancelled :: "authority_envelope \<Rightarrow> tunio_controller \<Rightarrow> bool" where
  "uncancelled e c \<longleftrightarrow> records_hold record_exact (co_authority c) \<and> as_precommit_cancelled (co_authority c) \<noteq> Some e"

lemma not_yet_iff: "not_yet e = world_ok (uncancelled e) manager_inv"
  by (auto simp: not_yet_def sound_records_def world_ok_def uncancelled_def cancelled_envelope_def)

interpretation uncancelled: tunio_restricted "uncancelled e" manager_inv record_exact "\<lambda>_. True" "\<lambda>e'. e' \<noteq> e" for e
proof
  fix s env event outcome s'
  assume "manager_inv s" "manager_step env event s = (outcome, s')"
  then show "manager_inv s'" by (blast intro: inv_manager_step)
next
  fix s change env result s'
  assume "manager_inv s" "apply_change env change s = (result, s')"
  then show "manager_inv s'" by (blast intro: inv_apply_change)
next
  show "uncancelled e (reconcile_state now actual c)" if "uncancelled e c" for c now actual
    using that records_hold_reconcile_state [of record_exact c now actual]
    by (auto simp: uncancelled_def cancelled_reconcile record_exact_def)
next
  show "record_exact r" if "uncancelled e c" "owner_record (co_authority c) tid = Some r" for c tid r
    using that by (auto simp: uncancelled_def intro: records_hold_record)
next
  show "uncancelled e (with_authority c (cancel_precommit e'))" if "uncancelled e c" "e' \<noteq> e" for c e'
    using that by (simp add: uncancelled_def) (simp add: cancel_precommit_def)
next
  show "uncancelled e (with_authority c (stage_envelope e'))" if "uncancelled e c" for c e'
    using that by (simp add: uncancelled_def) (simp add: stage_envelope_def)
qed (auto simp: uncancelled_def records_hold_reconcile_deadline cancelled_reconcile,
    auto simp: records_hold_def record_exact_def)

definition cancellations_settled :: "authority_envelope \<Rightarrow> tunio_world \<Rightarrow> bool" where
  "cancellations_settled e w \<longleftrightarrow> sound_records w \<and> settled_if e w"

lemma settled_serve:
  assumes "serve_authority H peer q fds w = (r, w')" and "not_yet e w"
  shows "settled_if e w'"
proof (cases "request_allowed record_exact (\<lambda>_. True) (\<lambda>e'. e' \<noteq> e) q")
  case True
  have "not_yet e w'"
    using maintainsD [OF uncancelled.maintains_serve_authority [OF True] assms(1)] assms(2) by (simp add: not_yet_iff)
  then show ?thesis by (rule not_yet_settled)
next
  case False
  then obtain b where operation: "aq_operation q = Recover_Precommit b" by (auto simp: request_allowed_def)
  obtain result where run: "authority_apply_request H peer q fds w = (result, w')"
    using assms(1)
    by (cases "authority_apply_request H peer q fds w")
      (auto simp: serve_authority_def bind_def attempt_def controller_of_def return_def)
  show ?thesis
    using hoare_Inr [OF hoare_recover_request [OF operation]] hoare_Inl [OF hoare_recover_request [OF operation]] run assms(2)
    by (cases result) blast+
qed

lemma settled_move:
  assumes "tunio_moves w w'" and "cancellations_settled e w"
  shows "cancellations_settled e w'"
proof -
  have records: "sound_records w'"
    using assms records.runs_ok [OF r_into_rtranclp [where r = tunio_moves, OF assms(1)]]
    by (simp add: cancellations_settled_def sound_records_def)
  have "settled_if e w'"
  proof (cases "cancelled_envelope w = Some e")
    case True
    with assms(2) have "spent_everywhere e w" by (simp add: cancellations_settled_def settled_if_def)
    then show ?thesis
      using spent.runs_ok [OF r_into_rtranclp [where r = tunio_moves, OF assms(1)]] by (simp add: settled_if_def spent_everywhere_def)
  next
    case False
    with assms(2) have fresh: "not_yet e w" by (simp add: not_yet_def cancellations_settled_def)
    show ?thesis
    proof (cases "tunio_moves_by (\<lambda>_. False) w w'")
      case True
      have "not_yet e w'" using uncancelled.allowed_moves_ok [OF _ True] fresh by (simp add: not_yet_iff)
      then show ?thesis by (rule not_yet_settled)
    next
      case False
      from assms(1) False obtain H peer q fds r where "serve_authority H peer q fds w = (r, w')"
        by (cases rule: tunio_moves_by.cases) (auto intro: tunio_moves_by.intros)
      then show ?thesis using fresh by (rule settled_serve)
    qed
  qed
  with records show ?thesis by (simp add: cancellations_settled_def)
qed

lemma settled_runs: "tunio_moves\<^sup>*\<^sup>* w w' \<Longrightarrow> cancellations_settled e w \<Longrightarrow> cancellations_settled e w'"
  by (induction rule: rtranclp_induct) (auto intro: settled_move)

lemma started_settled: "tunio_started w \<Longrightarrow> cancellations_settled e w"
  using started_inv
  by (auto simp: cancellations_settled_def settled_if_def sound_records_def world_ok_def tunio_started_def records_hold_def
      default_authority_def cancelled_envelope_def)

section \<open>The agent's journal announces a commit\<close>

text \<open>
  The steps of the agent for one candidate: its operations, whatever their outcome, restarts from the
  journal, and everything else that happens at tunio. Nobody else commits this candidate's revision.
\<close>

definition meanwhile_only :: "u64 \<Rightarrow> agent_host \<Rightarrow> bool" where
  "meanwhile_only v G \<longleftrightarrow> (\<forall>n w. (tunio_moves_by (other_request v))\<^sup>*\<^sup>* w (gh_meanwhile G n w))"

abbreviation candidate_revision :: "agent_world \<Rightarrow> u64" where
  "candidate_revision a \<equiv> ae_authority_revision (cw_envelope (ag_owner a))"

inductive agent_moves :: "agent_world \<Rightarrow> agent_world \<Rightarrow> bool" where
  elsewhere: "tunio_moves_by (other_request (candidate_revision a)) (ag_tunio a) w \<Longrightarrow> agent_moves a (a\<lparr>ag_tunio := w\<rparr>)"
| restart: "agent_moves a (agent_restart a)"
| prepare: "meanwhile_only (candidate_revision a) G \<Longrightarrow> prepare_with G H io base port now a = (r1, a') \<Longrightarrow> agent_moves a a'"
| promote: "meanwhile_only (candidate_revision a) G \<Longrightarrow> promote_with G H io base proof a = (r1, a') \<Longrightarrow> agent_moves a a'"
| recover: "meanwhile_only (candidate_revision a) G \<Longrightarrow> recover_precommit_with G H io base a = (r1, a') \<Longrightarrow> agent_moves a a'"
| retire: "meanwhile_only (candidate_revision a) G \<Longrightarrow> retire_expired_commit_with G H io base a = (r2, a') \<Longrightarrow> agent_moves a a'"
| failure: "record_committed_failure G reply a = (r2, a') \<Longrightarrow> agent_moves a a'"
| isolation: "record_committed_isolation G reply a = (r2, a') \<Longrightarrow> agent_moves a a'"

definition durable_intent :: "agent_world \<Rightarrow> bool" where
  "durable_intent a \<longleftrightarrow> (case ag_journal a of None \<Rightarrow> False | Some o1 \<Rightarrow> cw_commit_intent o1)"

text \<open>Journal and memory speak of the same candidate, and memory never forgets a durable intent.\<close>

definition agent_consistent :: "authority_envelope \<Rightarrow> agent_world \<Rightarrow> bool" where
  "agent_consistent e a \<longleftrightarrow> cw_envelope (ag_owner a) = e \<and> sound_records (ag_tunio a)
    \<and> (case ag_journal a of None \<Rightarrow> True
       | Some o1 \<Rightarrow> cw_envelope o1 = e \<and> (cw_commit_intent o1 \<longrightarrow> cw_commit_intent (ag_owner a)))"

definition intent_announced :: "authority_envelope \<Rightarrow> agent_world \<Rightarrow> bool" where
  "intent_announced e a \<longleftrightarrow> agent_consistent e a
    \<and> (durable_intent a \<or> uncommitted (ae_authority_revision e) (tw_manager (ag_tunio a)))"

definition committing :: "authority_envelope \<Rightarrow> agent_world \<Rightarrow> bool" where
  "committing e a \<longleftrightarrow> agent_consistent e a \<and> durable_intent a"

lemma committing_announced: "committing e a \<Longrightarrow> intent_announced e a"
  by (simp add: committing_def intent_announced_def)

definition upholds :: "(agent_world \<Rightarrow> bool) \<Rightarrow> 'a agent_op \<Rightarrow> bool" where
  "upholds I m \<longleftrightarrow> hoare I m (\<lambda>_. I) (\<lambda>_. I)"

lemma upholds_bind: "upholds I m \<Longrightarrow> (\<And>x. upholds I (f x)) \<Longrightarrow> upholds I (bind m f)"
  unfolding upholds_def by (rule hoare_bind)

lemma upholds_andthen: "upholds I m \<Longrightarrow> upholds I k \<Longrightarrow> upholds I (andthen m k)"
  unfolding upholds_def by (rule hoare_andthen)

lemma upholds_basic: "upholds I owner_of" "upholds I (agent_reject b code)" "upholds I (of_result x)" "upholds I (return y)"
  by (auto simp: upholds_def hoare_def owner_of_def agent_reject_def of_result_def return_def split: sum.splits)

lemma upholds_attempt: "upholds I m \<Longrightarrow> upholds I (attempt m)"
  unfolding upholds_def by (rule hoare_attempt) simp

lemma upholdsI: "(\<And>a r a'. m a = (r, a') \<Longrightarrow> I a \<Longrightarrow> I a') \<Longrightarrow> upholds I m"
  unfolding upholds_def by (rule hoareI) auto

lemma upholdsD: "upholds I m \<Longrightarrow> m a = (r, a') \<Longrightarrow> I a \<Longrightarrow> I a'"
  unfolding upholds_def by (cases r) (auto dest: hoare_Inr hoare_Inl)

lemma agent_reading_inv [simp]:
  "intent_announced e (a\<lparr>ag_readings := n\<rparr>) = intent_announced e a" "committing e (a\<lparr>ag_readings := n\<rparr>) = committing e a"
  by (simp_all add: intent_announced_def committing_def agent_consistent_def durable_intent_def split: option.splits)

lemma upholds_reading: "upholds (intent_announced e) (agent_reading f)" "upholds (committing e) (agent_reading f)"
  by (simp_all add: upholds_def hoare_def agent_reading_def)

lemma upholds_persist: "upholds (intent_announced e) (persist_candidate G)" "upholds (committing e) (persist_candidate G)"
  by (rule upholdsI; auto simp: persist_candidate_def intent_announced_def committing_def agent_consistent_def durable_intent_def
      split: journal_write.splits option.splits if_splits)+

lemma upholds_update_owner:
  assumes "\<And>o1. cw_envelope (f o1) = cw_envelope o1" and "\<And>o1. cw_commit_intent o1 \<Longrightarrow> cw_commit_intent (f o1)"
  shows "upholds (intent_announced e) (update_owner f)"
  by (rule upholdsI)
    (auto simp: update_owner_def intent_announced_def agent_consistent_def durable_intent_def assms split: option.splits)

lemma sound_records_other: "(tunio_moves_by allowed)\<^sup>*\<^sup>* w w' \<Longrightarrow> sound_records w \<Longrightarrow> sound_records w'"
  unfolding sound_records_def by (rule records.allowed_runs_ok) (simp_all add: request_allowed_def)

lemma sound_records_serve: "serve_authority H peer q fds w = (r, w') \<Longrightarrow> sound_records w \<Longrightarrow> sound_records w'"
  unfolding sound_records_def
  by (rule maintainsD [OF records.maintains_serve_authority]) (simp_all add: request_allowed_def)

lemma served_sound:
  assumes "served G H q w w'" and "meanwhile_only v G" and "sound_records w"
  shows "sound_records w' \<and> (other_request v q \<longrightarrow> uncommitted v (tw_manager w) \<longrightarrow> uncommitted v (tw_manager w'))"
proof -
  obtain n peer fds r where w': "w' = gh_meanwhile G n w \<or> serve_authority H peer q fds (gh_meanwhile G n w) = (r, w')"
    using assms(1) by (auto simp: served_def)
  have runs: "(tunio_moves_by (other_request v))\<^sup>*\<^sup>* w (gh_meanwhile G n w)"
    using assms(2) by (simp add: meanwhile_only_def)
  have "sound_records w'" using w' sound_records_other [OF runs assms(3)] by (auto dest: sound_records_serve)
  moreover have "sound_uncommitted v w'" if "other_request v q" "sound_uncommitted v w"
    using w' uncommitted_runs [OF runs that(2)] that(1) by (auto dest: uncommitted_serve)
  ultimately show ?thesis using assms(3) by (simp add: sound_uncommitted_iff)
qed

lemma upholds_exchange:
  assumes "other_request (ae_authority_revision e) q" and "meanwhile_only (ae_authority_revision e) G"
  shows "upholds (intent_announced e) (exchange_authority G H io q fd)"
proof (rule upholdsI)
  fix a r a' assume run: "exchange_authority G H io q fd a = (r, a')" and before: "intent_announced e a"
  from exchange_effect [OF run] have same: "ag_owner a' = ag_owner a" "ag_journal a' = ag_journal a"
      and tunio: "ag_tunio a' = ag_tunio a \<or> served G H q (ag_tunio a) (ag_tunio a')" by blast+
  then show "intent_announced e a'"
    using before served_sound [OF _ assms(2)] assms(1)
    by (auto simp: intent_announced_def agent_consistent_def durable_intent_def split: option.splits)
qed

lemma upholds_commit_exchange:
  assumes "meanwhile_only (ae_authority_revision e) G"
  shows "upholds (committing e) (exchange_authority G H io q fd)"
proof (rule upholdsI)
  fix a r a' assume run: "exchange_authority G H io q fd a = (r, a')" and before: "committing e a"
  from exchange_effect [OF run] have same: "ag_owner a' = ag_owner a" "ag_journal a' = ag_journal a"
      and tunio: "ag_tunio a' = ag_tunio a \<or> served G H q (ag_tunio a) (ag_tunio a')" by blast+
  then show "committing e a'"
    using before served_sound [OF _ assms]
    by (auto simp: committing_def agent_consistent_def durable_intent_def split: option.splits)
qed

lemma upholds_observe: "upholds I (observe_reply reply)"
  unfolding observe_reply_def by (intro upholds_bind upholds_basic)

lemma probe_then:
  "bind (probe_request G q) f = bind (agent_reading (gh_nonce G)) (\<lambda>nonce.
    f (q\<lparr>aq_schema_version := 3, aq_nonce := nonce, aq_operation := Probe_Transaction, aq_envelope := None\<rparr>))"
  by (simp add: probe_request_def bind_def return_def agent_reading_def fun_eq_iff)

lemma upholds_exchange_or_probe:
  assumes "other_request (ae_authority_revision e) q" and "meanwhile_only (ae_authority_revision e) G"
  shows "upholds (intent_announced e) (exchange_or_probe G H io q fd)"
  unfolding exchange_or_probe_def probe_then
  by (intro upholds_bind upholds_attempt upholds_exchange assms)
    (auto split: sum.splits intro!: upholds_bind upholds_basic upholds_reading upholds_exchange assms simp: other_request_def)

lemma upholds_commit_or_probe:
  assumes "meanwhile_only (ae_authority_revision e) G"
  shows "upholds (committing e) (exchange_or_probe G H io q fd)"
  unfolding exchange_or_probe_def probe_then
  by (intro upholds_bind upholds_attempt upholds_commit_exchange assms)
    (auto split: sum.splits intro!: upholds_bind upholds_basic upholds_reading upholds_commit_exchange assms)

text \<open>Starting a commit either fails or leaves a durable intent behind.\<close>

lemma begin_commit_durable:
  "hoare (intent_announced e) (begin_commit G base proof) (\<lambda>_. committing e) (\<lambda>_. intent_announced e)"
  by (rule hoareI)
    (auto simp: begin_commit_def bind_def andthen_def owner_of_def agent_reject_def of_result_def update_owner_def
      persist_candidate_def intent_announced_def committing_def agent_consistent_def durable_intent_def
      split: if_splits sum.splits journal_write.splits option.splits)

lemma prepare_request_other:
  "candidate_prepare_request o1 base now = Inr q \<Longrightarrow> other_request v q"
  by (auto simp: candidate_prepare_request_def rbind_eq_Inr other_request_def)

lemma upholds_prepare:
  assumes "meanwhile_only (ae_authority_revision e) G"
  shows "upholds (intent_announced e) (prepare_with G H io base port now)"
proof -
  have tail: "upholds (intent_announced e) (bind (of_result (candidate_prepare_request o1 base now)) (\<lambda>q.
      andthen (persist_candidate G) (bind (exchange_or_probe G H io q (Some port)) observe_reply)))" for o1
  proof (cases "candidate_prepare_request o1 base now")
    case (Inl err)
    then show ?thesis by (simp add: upholds_def hoare_def bind_def of_result_def)
  next
    case (Inr q)
    have "upholds (intent_announced e) (andthen (persist_candidate G) (bind (exchange_or_probe G H io q (Some port)) observe_reply))"
      by (intro upholds_andthen upholds_persist upholds_bind upholds_exchange_or_probe upholds_observe assms prepare_request_other [OF Inr])
    with Inr show ?thesis by (simp add: upholds_def hoare_def bind_def of_result_def)
  qed
  show ?thesis unfolding prepare_with_def by (intro upholds_bind upholds_basic tail)
qed

lemma upholds_promote:
  assumes "meanwhile_only (ae_authority_revision e) G"
  shows "upholds (intent_announced e) (promote_with G H io base proof)"
proof -
  have "upholds (committing e) (bind (exchange_or_probe G H io q None) observe_reply)" for q
    by (intro upholds_bind upholds_commit_or_probe upholds_observe assms)
  then have "hoare (committing e) (bind (exchange_or_probe G H io q None) observe_reply) (\<lambda>_. intent_announced e) (\<lambda>_. intent_announced e)" for q
    unfolding upholds_def by (rule hoare_weaken) (simp_all add: committing_announced)
  then show ?thesis
    unfolding upholds_def promote_with_def by (intro hoare_bind [OF begin_commit_durable])
qed

lemma upholds_recover:
  assumes "meanwhile_only (ae_authority_revision e) G"
  shows "upholds (intent_announced e) (recover_precommit_with G H io base)"
  unfolding recover_precommit_with_def Let_def
  by (intro upholds_bind upholds_andthen upholds_basic upholds_exchange assms)
    (auto simp: other_request_def intro!: upholds_observe upholds_andthen upholds_basic upholds_update_owner upholds_persist)

lemma upholds_retire:
  assumes "meanwhile_only (ae_authority_revision e) G"
  shows "upholds (intent_announced e) (retire_expired_commit_with G H io base)"
  unfolding retire_expired_commit_with_def Let_def
  by (intro upholds_bind upholds_andthen upholds_basic upholds_exchange assms upholds_observe upholds_update_owner upholds_persist)
    (auto simp: other_request_def)

lemma upholds_records:
  "upholds (intent_announced e) (record_committed_failure G reply)" "upholds (intent_announced e) (record_committed_isolation G reply)"
  unfolding record_committed_failure_def record_committed_isolation_def
  by (intro upholds_bind upholds_andthen upholds_basic upholds_update_owner upholds_persist; auto)+

lemma intent_announced_restart: "intent_announced e a \<Longrightarrow> intent_announced e (agent_restart a)"
  by (auto simp: intent_announced_def agent_consistent_def durable_intent_def agent_restart_def split: option.splits)

lemma intent_announced_elsewhere:
  assumes "tunio_moves_by (other_request (ae_authority_revision e)) (ag_tunio a) w" and "intent_announced e a"
  shows "intent_announced e (a\<lparr>ag_tunio := w\<rparr>)"
  using assms uncommitted_runs [OF r_into_rtranclp [where r = "tunio_moves_by (other_request (ae_authority_revision e))", OF assms(1)]]
    sound_records_other [OF r_into_rtranclp [where r = "tunio_moves_by (other_request (ae_authority_revision e))", OF assms(1)]]
  by (auto simp: intent_announced_def agent_consistent_def durable_intent_def sound_uncommitted_iff split: option.splits)

lemma intent_announced_envelope: "intent_announced e a \<Longrightarrow> cw_envelope (ag_owner a) = e"
  by (simp add: intent_announced_def agent_consistent_def)

lemma intent_announced_move: "agent_moves a a' \<Longrightarrow> intent_announced e a \<Longrightarrow> intent_announced e a'"
proof (induction rule: agent_moves.induct)
  case (elsewhere a w)
  then show ?case using intent_announced_elsewhere [of e a w] intent_announced_envelope [of e a] by simp
qed (use intent_announced_envelope in \<open>auto dest: upholdsD [OF upholds_prepare] upholdsD [OF upholds_promote] upholdsD [OF upholds_recover]
    upholdsD [OF upholds_retire] upholdsD [OF upholds_records(1)] upholdsD [OF upholds_records(2)] intro: intent_announced_restart\<close>)

lemma intent_announced_runs: "agent_moves\<^sup>*\<^sup>* a a' \<Longrightarrow> intent_announced e a \<Longrightarrow> intent_announced e a'"
  by (induction rule: rtranclp_induct) (auto intro: intent_announced_move)

end
