(* ===== verification/Agent_Properties.thy ===== *)
theory Agent_Properties
  imports Agent_Runs
begin

text \<open>
  Properties of the owner hand-over across agent, tunio and packet port manager: a commit is announced
  durably before it can happen, a commit the agent believes in has happened, a cancelled candidate
  never owns the TUN, and an installation proof accounts for every peer.
\<close>

section \<open>Facts about single operations\<close>

lemma exchange_or_probe_accepted:
  assumes "exchange_or_probe G H io q fd a = (Inr reply, a')"
  shows "\<exists>q'. reply = authority_reply q' (Inr ()) (tw_controller (ag_tunio a')) \<and> informed (ag_tunio a')
    \<and> ag_owner a' = ag_owner a \<and> ag_journal a' = ag_journal a"
proof -
  obtain r1 a1 where first: "exchange_authority G H io q fd a = (r1, a1)" by fastforce
  note kept = exchange_effect [OF first]
  show ?thesis
  proof (cases r1)
    case (Inr reply1)
    with assms first have "reply1 = reply" "a1 = a'"
      by (simp_all add: exchange_or_probe_def bind_def attempt_def return_def)
    with first Inr kept exchange_accepted [of G H io q fd a reply a'] show ?thesis by blast
  next
    case (Inl err)
    with assms first obtain p a2 where second: "exchange_authority G H io p None a2 = (Inr reply, a')"
        and same: "ag_owner a2 = ag_owner a1" "ag_journal a2 = ag_journal a1"
      by (auto simp: exchange_or_probe_def probe_then bind_def attempt_def agent_reading_def)
    from exchange_effect [OF second] exchange_accepted [OF second] kept same show ?thesis by auto
  qed
qed

lemma begin_commit_accepted:
  assumes "begin_commit G base proof a = (Inr q, a1)"
  shows "ag_owner a1 = (ag_owner a)\<lparr>cw_commit_intent := True\<rparr> \<and> ag_journal a1 = Some (ag_owner a1)
    \<and> require_installed proof (cw_envelope (ag_owner a)) (cw_expected_peers (ag_owner a)) = Inr ()"
  using assms
  by (auto simp: begin_commit_def bind_def andthen_def owner_of_def agent_reject_def of_result_def update_owner_def
      persist_candidate_def split: if_splits sum.splits journal_write.splits)

lemma observe_committed:
  assumes "observe o1 reply = Inr Owner_Committed"
  shows "\<exists>receipt. ap_owner_transaction reply = Some receipt \<and> ap_schema_version reply = 3 \<and> receipt_matches o1 receipt
    \<and> ar_phase receipt = ''committed'' \<and> observed_committed o1 reply"
  using assms by (auto simp: observe_def rbind_eq_Inr split: option.splits if_splits)

text \<open>A committed receipt comes from the controller's last result, which is the manager's.\<close>

lemma committed_receipt_is_last:
  assumes "believes st (manager_receipt m)" and "owner_receipt st tid = Some receipt" and "ar_phase receipt = ''committed''"
  shows "\<exists>tx. map_option otr_transaction (pm_last_transaction m) = Some tx
    \<and> tx_revision tx = ar_authority_revision receipt \<and> tx_binding tx = ar_binding receipt"
  using assms
  by (auto simp: believes_def owner_receipt_def owner_authority_receipt_def receipt_is_def manager_receipt_def
      split: option.splits if_splits)

lemma persist_stored:
  "persist_candidate G a = (Inr u, a') \<Longrightarrow> a' = a\<lparr>ag_journal := Some (ag_owner a), ag_readings := Suc (ag_readings a)\<rparr>"
  by (auto simp: persist_candidate_def split: journal_write.splits)

lemma recovery_cancelled:
  assumes "recover_precommit_with G H io base a = (Inr Owner_Cancelled_Before_Prepare, a')"
  shows "\<exists>q reply a1 expected. exchange_authority G H io q None a = (Inr reply, a1)
    \<and> cancellation_confirmed (ag_owner a) expected reply \<and> ag_tunio a' = ag_tunio a1 \<and> ag_journal a' = Some (ag_owner a')
    \<and> ag_owner a' = (ag_owner a1)\<lparr>cw_precommit_cancellation := Some reply\<rparr>"
proof -
  have never: "observe o1 reply \<noteq> Inr Owner_Cancelled_Before_Prepare" for o1 reply
    by (auto simp: observe_def rbind_eq_Inr split: option.splits if_splits)
  have stored: "ag_tunio a' = ag_tunio a1 \<and> ag_journal a' = Some (ag_owner a') \<and> ag_owner a' = ag_owner a1"
    if "persist_candidate G a1 = (Inr (), a')" for a1
    using persist_stored [OF that] by simp
  from assms show ?thesis
    by (fastforce simp: recover_precommit_with_def Let_def bind_eq andthen_eq owner_of_def agent_reject_def of_result_def return_def
        observe_reply_def update_owner_def never dest: stored split: if_splits)
qed

section \<open>A sample hand-over\<close>

definition sample_agent_host :: agent_host where
  "sample_agent_host = \<lparr>gh_persist = (\<lambda>_. Journal_Stored), gh_is_current = (\<lambda>_ _. True), gh_nonce = (\<lambda>_. sample_tid),
    gh_link = (\<lambda>_. \<lparr>xl_refused = None, xl_peer = sample_process 2, xl_lost = None\<rparr>), gh_meanwhile = (\<lambda>_ w. w)\<rparr>"

definition sample_selector :: routing_candidate where
  "sample_selector = \<lparr>rt_transaction_id = 9, rt_owner_epoch = 2, rt_policy_generation = 7, rt_authorization_sha256 = 5,
    rt_candidate_id = 6, rt_local_attachment_epoch = 1, rt_peer_attachment_epoch = 1, rt_tunnel_id = 8\<rparr>"

definition sample_barrier :: barrier_identity where
  "sample_barrier = \<lparr>ba_id = 9, ba_generation = 1, ba_fence = 1, ba_hash = 3\<rparr>"

definition sample_expectation :: peer_expectation where
  "sample_expectation = \<lparr>pe_attachment_id = 4, pe_selector = sample_selector, pe_barrier = sample_barrier\<rparr>"

definition sample_proof :: candidate_proof where
  "sample_proof = \<lparr>cf_schema_version = 1, cf_transaction_id = sample_tid, cf_phase = ''installed'',
    cf_local = \<lparr>lp_domain = 2, lp_owner_epoch = 2, lp_authorization_sha256 = sample_digest, lp_packet_slot = sample_binding 2\<rparr>,
    cf_peers = [\<lparr>pf_attachment_id = 4, pf_selector = sample_selector, pf_barrier = sample_barrier, pf_prepared = True,
      pf_installed = True, pf_probe_sent = True, pf_probe_received = True, pf_drain_complete = False, pf_drain_failed = False,
      pf_activation_confirmed = False, pf_transport_live = False, pf_recovery_action = []\<rparr>],
    cf_forced_retirement = False, cf_old_owner_drained = False\<rparr>"

definition offered_owner :: candidate_owner where
  "offered_owner = \<lparr>cw_envelope = sample_authority, cw_expected_active = Some (sample_binding 1),
    cw_prepare_deadline_mono_ms = 1500, cw_expected_peers = [sample_expectation], cw_commit_intent = False,
    cw_precommit_cancellation = None, cw_committed_failure = None, cw_committed_isolation = None,
    cw_expired_commit_retirement = None\<rparr>"

definition offered_record :: owner_authority where
  "offered_record = \<lparr>oa_envelope = sample_authority, oa_transaction = sample_transaction,
    oa_expected_active_binding = Some (sample_binding 1), oa_requested_prepare_deadline_mono_ms = 1500, oa_prepared = True\<rparr>"

definition prepared_controller :: tunio_controller where
  "prepared_controller = (sample_controller (sample_process 2))\<lparr>co_authority := default_authority
    \<lparr>as_highest_revision := 1, as_highest_owner_epoch := 2, as_highest_policy_generation := 7,
     as_pending := Some sample_authority, as_owner_candidate := Some offered_record\<rparr>\<rparr>"

definition prepared_agent :: agent_world where
  "prepared_agent = \<lparr>ag_tunio = \<lparr>tw_controller = prepared_controller, tw_manager = manager_staged, tw_status = None, tw_readings = 0\<rparr>,
    ag_owner = offered_owner, ag_journal = Some offered_owner, ag_readings = 0\<rparr>"

abbreviation sample_base :: authority_request where
  "sample_base \<equiv> sample_authority_request Probe_Transaction None"

abbreviation sample_commit :: authority_request where
  "sample_commit \<equiv> sample_authority_request Commit_Owner_Operation (Some sample_authority)"

lemma sample_installed: "require_installed sample_proof sample_authority [sample_expectation] = Inr ()"
  by (simp add: require_installed_def require_identity_def sample_proof_def local_proof_matches_def sample_authority_def
      sample_binding_def sample_expectation_def peer_confirmed_def sample_selector_def sample_barrier_def)

lemma staged_receipt:
  "manager_receipt manager_staged = (manager_receipt manager_attached)\<lparr>rc_highest_transaction_revision := 1,
     rc_pending := Some \<lparr>otr_transaction = sample_transaction, otr_phase = Phase_Prepared\<rparr>\<rparr>"
  by (simp add: manager_receipt_def manager_staged_def staged_state_def sample_transaction_def)

lemma committed_receipt:
  "manager_receipt manager_committed = \<lparr>rc_binding = Some (sample_binding 2), rc_auth_deadline = Some 200,
     rc_owner_epoch = 2, rc_policy_generation = 7, rc_pending = None,
     rc_last_transaction = Some \<lparr>otr_transaction = sample_transaction, otr_phase = Phase_Committed\<rparr>,
     rc_highest_transaction_revision = 1, rc_retained_owner_binding = Some (sample_binding 1), rc_old_owner_drained = False,
     rc_forced_retirement = False\<rparr>"
  by (simp add: manager_receipt_def manager_committed_def install_candidate_def committed_owner_def fence_outbound_def
      manager_staged_def staged_state_def manager_attached_def initial_manager_def sample_candidate_def sample_transaction_def
      sample_port_owner_def new_owner_def owner_binding_def sample_port_def sample_binding_def)

lemma offered_record_sel [simp]:
  "oa_envelope offered_record = sample_authority" "oa_transaction offered_record = sample_transaction"
  "oa_prepared offered_record" "offered_record\<lparr>oa_prepared := True\<rparr> = offered_record"
  "ae_effective_deadline_mono_ms sample_authority = 2000" "ae_authority_revision sample_authority = 1"
  "ae_effective_expiry_unix sample_authority = 80"
  by (simp_all add: offered_record_def sample_authority_def)

text \<open>The two reconciliations of the hand-over: the candidate is still prepared; it was committed.\<close>

lemma reconcile_prepared:
  assumes "as_owner_candidate st = Some r" "oa_prepared r" "receipt_is (rc_pending actual) (oa_transaction r)" "as_owner_terminal st = None"
  shows "reconcile_owner actual st = derive_receipts (note_actual actual st)"
  using assms by (cases st; cases r) (simp add: reconcile_owner_def settle_terminal_def settle_candidate_def note_actual_def)

lemma reconcile_committed:
  assumes "as_owner_candidate st = Some r" "rc_pending actual = None" "as_pending st = Some (oa_envelope r)"
    "rc_last_transaction actual = Some \<lparr>otr_transaction = oa_transaction r, otr_phase = Phase_Committed\<rparr>"
    "rc_binding actual = Some (ae_binding (oa_envelope r))"
  shows "reconcile_owner actual st = derive_receipts ((note_actual actual st)\<lparr>as_owner_candidate := None, as_pending := None,
    as_active := Some (oa_envelope r), as_owner_terminal := Some (r, Phase_Committed)\<rparr>)"
  using assms by (cases st) (simp add: reconcile_owner_def settle_terminal_def settle_candidate_def note_actual_def receipt_is_def)

lemmas view_defs = reconcile_state_def note_actual_def derive_receipts_def adopt_applied_def raise_marks_def reconciled_binding_def
  reconcile_deadline_def actual_deadline_def

lemma prepared_resynced:
  "resynced manager_staged prepared_controller = (sample_controller (sample_process 2))\<lparr>co_authority := default_authority
     \<lparr>as_highest_revision := 1, as_highest_owner_epoch := 2, as_highest_policy_generation := 7,
      as_pending := Some sample_authority, as_owner_candidate := Some offered_record,
      as_actual_owner_binding := Some (sample_binding 1), as_owner_highest_revision := 1, as_old_owner_drained := True,
      as_owner_pending := Some (owner_authority_receipt offered_record Phase_Prepared),
      as_actual_deadline_mono_ms := Some 1000\<rparr>\<rparr>"
  by (simp add: resynced_def staged_receipt attached_receipt view_defs reconcile_prepared checked_add_def prepared_controller_def
      sample_controller_def started_controller_def default_authority_def sample_binding_def Let_def max_def receipt_is_def)

definition committed_controller :: tunio_controller where
  "committed_controller = resynced manager_committed (resynced manager_staged prepared_controller)"

lemma committed_view:
  "as_active (co_authority committed_controller) = Some sample_authority"
  "co_owner_active committed_controller"
  "as_actual_owner_binding (co_authority committed_controller) = Some (sample_binding 2)"
  "as_actual_deadline_mono_ms (co_authority committed_controller) = Some 1000"
  "as_owner_candidate (co_authority committed_controller) = None"
  "as_owner_terminal (co_authority committed_controller) = Some (offered_record, Phase_Committed)"
  unfolding committed_controller_def prepared_resynced
  by (simp_all add: resynced_def committed_receipt view_defs reconcile_committed checked_add_def
      sample_controller_def started_controller_def default_authority_def Let_def min_def word_le_nat_alt)

lemma sample_commit_change:
  "tw_manager w = manager_staged \<Longrightarrow> manager_outcome tunio_sample_host (Commit_Owner sample_transaction) w
    = (Inr (Inr (), manager_receipt manager_committed), w\<lparr>tw_manager := manager_committed, tw_readings := tw_readings w + 1\<rparr>)"
  by (simp add: manager_outcome_def manager_exchange_def Let_def tunio_sample_host_def sample_link_def
      change_commit_owner_def port_samples initial_manager_def stale_binding_def manager_attached_def manager_staged_def
      manager_committed_def staged_state_def new_owner_def owner_binding_def last_is_def active_epoch_def)

lemma staged_available [simp]: "pm_control_available manager_staged"
  by (simp add: manager_staged_def staged_state_def)

lemma sample_conclude:
  assumes "tw_manager w = manager_staged" "tw_controller w = resynced manager_staged prepared_controller"
  shows "\<exists>w'. op_conclude_owner tunio_sample_host sample_commit Commit_Owner w = (Inr Fall_Through, w')
    \<and> tw_manager w' = manager_committed \<and> tw_controller w' = committed_controller"
proof -
  let ?c = "resynced manager_staged prepared_controller"
  have state: "owner_record (co_authority ?c) sample_tid = Some offered_record" "as_retired_expired_commit (co_authority ?c) = None"
      "as_owner_terminal (co_authority ?c) = None" "co_controller ?c = sample_process 2" "co_epoch ?c = 1"
    by (simp_all add: prepared_resynced owner_record_def named_record_def default_authority_def sample_controller_def started_controller_def)
  have adopted: "sample_authority\<lparr>ae_controller := sample_process 2, ae_controller_epoch := 1\<rparr> = sample_authority"
    by (simp add: sample_authority_def)
  have after: "reconcile_deadline 1000 20 (manager_receipt manager_committed) (reconcile_state 20 (manager_receipt manager_committed) ?c)
      = committed_controller"
    by (simp add: committed_controller_def resynced_def [of manager_committed])
  show ?thesis
    by (simp add: op_conclude_owner_def required_record_def bind_def andthen_def controller_of_def reject_if_def of_result_def return_def
        assms state fenced_by_def terminal_committed_def adopted sample_validate [OF assms(2) [unfolded prepared_resynced]]
        apply_owner_change_def sample_commit_change sample_reconcile publish_def after)
qed

lemma sample_commit_served:
  "\<exists>w'. serve_authority tunio_sample_host (sample_process 2) sample_commit [] (ag_tunio prepared_agent)
      = (Inr (authority_reply sample_commit (Inr ()) committed_controller), w')
    \<and> tw_manager w' = manager_committed \<and> tw_controller w' = committed_controller"
proof -
  let ?w = "(ag_tunio prepared_agent)\<lparr>tw_controller := resynced manager_staged prepared_controller, tw_readings := 5\<rparr>"
  obtain w1 where op: "op_conclude_owner tunio_sample_host sample_commit Commit_Owner ?w = (Inr Fall_Through, w1)"
      and w1: "tw_manager w1 = manager_committed" "tw_controller w1 = committed_controller"
    using sample_conclude [of ?w] by (auto simp: prepared_agent_def)
  have "controller_fence tunio_sample_host (sample_process 2) sample_commit prepared_controller True"
    by (simp add: controller_fence_def sample_authority_request_def tunio_sample_host_def prepared_controller_def sample_controller_def
        started_controller_def sample_process_def)
  with op w1 show ?thesis
    by (simp add: serve_authority_def attempt_def authority_apply_request_def bind_def andthen_def reject_if_def return_def controller_of_def
        reading_def sample_fence(1) sample_probe publish_def prepared_agent_def)
qed

lemma sample_observed:
  "observe (offered_owner\<lparr>cw_commit_intent := True\<rparr>) (authority_reply sample_commit (Inr ()) committed_controller) = Inr Owner_Committed"
  by (simp add: observe_def authority_reply_def Let_def owner_receipt_def committed_view owner_authority_receipt_def offered_owner_def
      receipt_matches_def observed_committed_def offered_record_def sample_transaction_def sample_binding_def word_le_nat_alt)

lemma sample_begin_commit:
  "begin_commit sample_agent_host sample_base sample_proof prepared_agent = (Inr sample_commit,
    prepared_agent\<lparr>ag_owner := offered_owner\<lparr>cw_commit_intent := True\<rparr>, ag_journal := Some (offered_owner\<lparr>cw_commit_intent := True\<rparr>),
      ag_readings := 1\<rparr>)"
  by (simp add: begin_commit_def bind_def andthen_def owner_of_def agent_reject_def of_result_def update_owner_def persist_candidate_def
      candidate_commit_request_def sample_agent_host_def prepared_agent_def offered_owner_def sample_installed sample_authority_request_def)

lemma sample_agent_host_simps:
  "gh_persist sample_agent_host n = Journal_Stored" "gh_is_current sample_agent_host n p" "gh_meanwhile sample_agent_host n w = w"
  "xl_refused (gh_link sample_agent_host n) = None" "xl_lost (gh_link sample_agent_host n) = None"
  "xl_peer (gh_link sample_agent_host n) = sample_process 2"
  by (simp_all add: sample_agent_host_def)

lemma offered_owner_simps:
  "cw_envelope offered_owner = sample_authority" "cw_expected_active offered_owner = Some (sample_binding 1)"
  "\<not> cw_commit_intent offered_owner" "cw_precommit_cancellation offered_owner = None"
  by (simp_all add: offered_owner_def)

text \<open>On the sample hosts the promotion goes through.\<close>

lemma sample_promotion:
  "\<exists>a'. promote_with sample_agent_host tunio_sample_host (sample_process 1) sample_base sample_proof prepared_agent = (Inr Owner_Committed, a')
    \<and> tw_manager (ag_tunio a') = manager_committed"
proof -
  obtain w' where served: "serve_authority tunio_sample_host (sample_process 2) sample_commit [] (ag_tunio prepared_agent)
      = (Inr (authority_reply sample_commit (Inr ()) committed_controller), w')" "tw_manager w' = manager_committed"
    using sample_commit_served by blast
  have fence: "response_fence (sample_process 1) sample_commit (authority_reply sample_commit (Inr ()) committed_controller)"
      "aq_process sample_commit = sample_process 1"
    unfolding committed_controller_def prepared_resynced
    by (simp_all add: response_fence_def authority_reply_def Let_def resynced_def committed_receipt view_defs reconcile_committed
        sample_controller_def started_controller_def default_authority_def sample_authority_request_def)
  have "ap_accepted (authority_reply sample_commit (Inr ()) committed_controller)" by (simp add: authority_reply_def Let_def)
  with served fence sample_observed show ?thesis
    by (simp add: promote_with_def sample_begin_commit exchange_or_probe_def exchange_authority_def exchange_authority_outcome_def
        observe_reply_def bind_def andthen_def attempt_def agent_defs return_def of_result_def sample_agent_host_simps)
qed

section \<open>Installation proofs\<close>

text \<open>
  C10: an installation proof is accepted exactly when it is the local worker's own, reports a completed
  installation without forced retirement or failed drain, and its peers are a rearrangement of
  confirmations of the expected peers, one for each and none besides, where the expected peers
  have different attachments.
\<close>

theorem installed_proof_covers_peers:
  "require_installed proof e expected = Inr () \<longleftrightarrow>
    cf_phase proof = ''installed'' \<and> \<not> cf_forced_retirement proof
    \<and> list_all (\<lambda>peer. \<not> pf_drain_failed peer) (cf_peers proof)
    \<and> local_proof_matches proof e \<and> expected \<noteq> [] \<and> distinct (map pe_attachment_id expected)
    \<and> (\<exists>ordered. mset ordered = mset (cf_peers proof) \<and> list_all2 proves expected ordered)"
proof (cases "length expected = length (cf_peers proof)")
  case True
  then show ?thesis
    by (auto simp: require_installed_def require_identity_def rbind_eq_Inr check_peers_permutation)
next
  case False
  then have "\<nexists>ordered. mset ordered = mset (cf_peers proof) \<and> list_all2 proves expected ordered"
    by (metis list_all2_lengthD size_mset)
  with False show ?thesis by (auto simp: require_installed_def require_identity_def rbind_eq_Inr)
qed

section \<open>Commits\<close>

text \<open>
  C8: a commit the agent believes in has happened. When promotion reports Committed, then whatever was
  lost on the way, the manager's active owner has the envelope's binding, its last transaction the
  envelope's revision and binding, the journal holds this candidate with its commit intent, and the
  proof of every peer's installation was accepted.
\<close>

theorem believed_commit_is_actual:
  assumes "promote_with G H io base proof a = (Inr Owner_Committed, a')"
  shows "map_option owner_binding (pm_owner (tw_manager (ag_tunio a'))) = Some (ae_binding (cw_envelope (ag_owner a)))
    \<and> (\<exists>tx. map_option otr_transaction (pm_last_transaction (tw_manager (ag_tunio a'))) = Some tx
        \<and> tx_revision tx = ae_authority_revision (cw_envelope (ag_owner a)) \<and> tx_binding tx = ae_binding (cw_envelope (ag_owner a)))
    \<and> ag_journal a' = Some ((ag_owner a)\<lparr>cw_commit_intent := True\<rparr>)
    \<and> require_installed proof (cw_envelope (ag_owner a)) (cw_expected_peers (ag_owner a)) = Inr ()"
proof -
  obtain q a1 where started: "begin_commit G base proof a = (Inr q, a1)"
      and rest: "bind (exchange_or_probe G H io q None) observe_reply a1 = (Inr Owner_Committed, a')"
    using assms by (cases "begin_commit G base proof a") (auto simp: promote_with_def bind_def split: sum.splits)
  obtain reply where exchange: "exchange_or_probe G H io q None a1 = (Inr reply, a')"
      and seen: "observe (ag_owner a') reply = Inr Owner_Committed"
    using rest by (cases "exchange_or_probe G H io q None a1")
      (auto simp: bind_def observe_reply_def owner_of_def of_result_def split: sum.splits)
  from exchange_or_probe_accepted [OF exchange] obtain q' where
      reply: "reply = authority_reply q' (Inr ()) (tw_controller (ag_tunio a'))" and view: "informed (ag_tunio a')"
      and same: "ag_owner a' = ag_owner a1" "ag_journal a' = ag_journal a1" by blast
  from observe_committed [OF seen] obtain receipt where
      receipt: "ap_owner_transaction reply = Some receipt" "ar_phase receipt = ''committed''" "receipt_matches (ag_owner a') receipt"
      and committed: "observed_committed (ag_owner a') reply" and v3: "ap_schema_version reply = 3" by blast
  have "aq_schema_version q' = 3" using v3 reply by (simp add: authority_reply_def Let_def)
  with receipt(1) reply committed have st: "owner_receipt (co_authority (tw_controller (ag_tunio a'))) (aq_transaction_id q') = Some receipt"
      "as_actual_owner_binding (co_authority (tw_controller (ag_tunio a'))) = Some (ae_binding (cw_envelope (ag_owner a')))"
    by (simp_all add: authority_reply_def observed_committed_def Let_def)
  with view committed_receipt_is_last [OF _ st(1) receipt(2), of "tw_manager (ag_tunio a')"] receipt(3) begin_commit_accepted [OF started] same
  show ?thesis
    by (auto simp: informed_def believes_def manager_receipt_def receipt_matches_def)
qed

theorem believed_commit_is_actual_witness:
  "\<exists>a'. promote_with sample_agent_host tunio_sample_host (sample_process 1) sample_base sample_proof prepared_agent = (Inr Owner_Committed, a')
    \<and> map_option owner_binding (pm_owner (tw_manager (ag_tunio a'))) = Some (sample_binding 2)
    \<and> ag_journal a' = Some (offered_owner\<lparr>cw_commit_intent := True\<rparr>)"
proof -
  obtain a' where run: "promote_with sample_agent_host tunio_sample_host (sample_process 1) sample_base sample_proof prepared_agent
      = (Inr Owner_Committed, a')"
    using sample_promotion by blast
  from believed_commit_is_actual [OF run] run show ?thesis by (auto simp: prepared_agent_def offered_owner_def)
qed

text \<open>
  C7: a commit is announced before it can happen. In every run of the agent's operations, with failing
  publications, lost replies, restarts from the journal and anything else going on at tunio, as long
  as no one else commits this revision: once the manager has committed it, the journal holds the
  candidate with its commit intent, so that a restarted agent knows that the commit is uncertain
  and never asks for its cancellation.
\<close>

theorem commit_follows_durable_intent:
  assumes "agent_moves\<^sup>*\<^sup>* a b" and "sound_records (ag_tunio a)" and "uncommitted (candidate_revision a) (tw_manager (ag_tunio a))"
    and "ag_journal a = None \<or> ag_journal a = Some (ag_owner a)"
    and "pm_last_transaction (tw_manager (ag_tunio b)) = Some l" and "otr_phase l = Phase_Committed"
    and "tx_revision (otr_transaction l) = candidate_revision a"
  shows "\<exists>o1. ag_journal b = Some o1 \<and> cw_envelope o1 = cw_envelope (ag_owner a) \<and> cw_commit_intent o1
    \<and> ag_owner (agent_restart b) = o1
    \<and> (\<forall>G H io base. fst (recover_precommit_with G H io base (agent_restart b)) = Inl (Code ''candidate_owner_commit_unknown''))"
proof -
  let ?e = "cw_envelope (ag_owner a)"
  have "intent_announced ?e a" using assms(2-4) by (auto simp: intent_announced_def agent_consistent_def)
  with assms(1) have "intent_announced ?e b" by (rule intent_announced_runs)
  moreover have "\<not> uncommitted (candidate_revision a) (tw_manager (ag_tunio b))"
    using assms(5-7) by (simp add: uncommitted_def)
  ultimately obtain o1 where "ag_journal b = Some o1" "cw_envelope o1 = ?e" "cw_commit_intent o1"
    by (auto simp: intent_announced_def agent_consistent_def durable_intent_def split: option.splits)
  then show ?thesis
    by (auto simp: agent_restart_def recover_precommit_with_def bind_def andthen_def owner_of_def agent_reject_def)
qed

theorem commit_follows_durable_intent_witness:
  "\<exists>b o1. agent_moves\<^sup>*\<^sup>* prepared_agent b \<and> tw_manager (ag_tunio b) = manager_committed
    \<and> ag_journal b = Some o1 \<and> cw_commit_intent o1 \<and> cw_envelope o1 = sample_authority"
proof -
  obtain b where run: "promote_with sample_agent_host tunio_sample_host (sample_process 1) sample_base sample_proof prepared_agent
      = (Inr Owner_Committed, b)" and b: "tw_manager (ag_tunio b) = manager_committed"
    using sample_promotion by blast
  have "meanwhile_only v sample_agent_host" for v by (simp add: meanwhile_only_def sample_agent_host_def)
  then have moves: "agent_moves\<^sup>*\<^sup>* prepared_agent b" using agent_moves.promote [OF _ run] by blast
  have owner: "cw_envelope (ag_owner prepared_agent) = sample_authority" by (simp add: prepared_agent_def offered_owner_def)
  have sound: "sound_records (ag_tunio prepared_agent)" "uncommitted 1 (tw_manager (ag_tunio prepared_agent))"
      "ag_journal prepared_agent = Some (ag_owner prepared_agent)"
    using manager_reachable_inv [OF sample_runs(2)]
    by (simp_all add: sound_records_def world_ok_def prepared_agent_def prepared_controller_def records_hold_def record_exact_def
        default_authority_def sample_transaction_def uncommitted_def manager_staged_def staged_state_def manager_attached_def
        initial_manager_def)
  have last: "pm_last_transaction (tw_manager (ag_tunio b)) = Some \<lparr>otr_transaction = sample_transaction, otr_phase = Phase_Committed\<rparr>"
    by (simp add: b manager_committed_def install_candidate_def)
  have "\<exists>o1. ag_journal b = Some o1 \<and> cw_envelope o1 = cw_envelope (ag_owner prepared_agent) \<and> cw_commit_intent o1"
    using commit_follows_durable_intent [OF moves sound(1) _ disjI2 [OF sound(3)] last] sound(2)
    by (auto simp: owner sample_transaction_def)
  with moves b owner show ?thesis by auto
qed

section \<open>Cancellations\<close>

text \<open>
  C9: a candidate the agent believes to be cancelled never owns the TUN. When recovery reports a
  cancellation, the journal holds it, the agent never starts a commit of this candidate again, and
  after any further requests of anyone, takeovers, expiries and manager moves the envelope is
  neither staged nor active and the manager has neither a candidate nor a result with its revision.
\<close>

theorem cancelled_candidate_never_commits:
  assumes "tunio_started w0" and "tunio_moves\<^sup>*\<^sup>* w0 (ag_tunio a)" and "\<forall>n w. tunio_moves\<^sup>*\<^sup>* w (gh_meanwhile G n w)"
    and "recover_precommit_with G H io base a = (Inr Owner_Cancelled_Before_Prepare, a')"
    and "tunio_moves\<^sup>*\<^sup>* (ag_tunio a') w"
  shows "ag_journal a' = Some (ag_owner a') \<and> cw_envelope (ag_owner a') = cw_envelope (ag_owner a)
    \<and> as_pending (co_authority (tw_controller w)) \<noteq> Some (cw_envelope (ag_owner a))
    \<and> as_active (co_authority (tw_controller w)) \<noteq> Some (cw_envelope (ag_owner a))
    \<and> revision_unused (candidate_revision a) (tw_manager w)
    \<and> (\<forall>G2 base2 proof. fst (begin_commit G2 base2 proof a') = Inl (Code ''candidate_owner_cancelled''))"
proof -
  let ?e = "cw_envelope (ag_owner a)"
  from recovery_cancelled [OF assms(4)] obtain q reply a1 expected where
      exchange: "exchange_authority G H io q None a = (Inr reply, a1)"
      and confirmed: "cancellation_confirmed (ag_owner a) expected reply"
      and after: "ag_tunio a' = ag_tunio a1" "ag_journal a' = Some (ag_owner a')"
        "ag_owner a' = (ag_owner a1)\<lparr>cw_precommit_cancellation := Some reply\<rparr>" by blast
  have owner: "ag_owner a1 = ag_owner a" using exchange_effect [OF exchange] by blast
  from exchange_accepted [OF exchange] obtain n peer fds where
      reply: "reply = authority_reply q (Inr ()) (tw_controller (ag_tunio a1))"
      and serve: "serve_authority H peer q fds (gh_meanwhile G n (ag_tunio a)) = (Inr reply, ag_tunio a1)" by blast
  have "cancellations_settled ?e (gh_meanwhile G n (ag_tunio a))"
    using settled_runs assms(2,3) started_settled [OF assms(1)] by blast
  then have "cancellations_settled ?e (ag_tunio a1)"
    using settled_move tunio_moves_by.authority [where allowed = "\<lambda>_. True", OF TrueI serve] by blast
  moreover have "cancelled_envelope (ag_tunio a1) = Some ?e"
    using confirmed reply by (auto simp: cancellation_confirmed_def authority_reply_def named_envelope_def fenced_by_def
        cancelled_envelope_def Let_def split: if_splits)
  ultimately have "spent_everywhere ?e (ag_tunio a1)" by (simp add: cancellations_settled_def settled_if_def)
  then have "spent_everywhere ?e w"
    using spent.runs_ok [OF assms(5)] by (simp add: spent_everywhere_def after(1))
  with after owner show ?thesis
    by (auto simp: spent_everywhere_def world_ok_def envelope_spent_def begin_commit_def bind_def andthen_def owner_of_def
        agent_reject_def split: option.splits)
qed

definition fresh_agent :: agent_world where
  "fresh_agent = \<lparr>ag_tunio = sample_tunio (sample_process 2), ag_owner = offered_owner, ag_journal = Some offered_owner, ag_readings = 0\<rparr>"

lemma sample_cancellation:
  "\<exists>a'. recover_precommit_with sample_agent_host tunio_sample_host (sample_process 1) sample_base fresh_agent
      = (Inr Owner_Cancelled_Before_Prepare, a') \<and> ag_tunio a' = recovered_world"
proof -
  let ?reply = "authority_reply sample_recovery (Inr ()) (tw_controller recovered_world)"
  have request: "sample_base\<lparr>aq_schema_version := 3, aq_operation := Recover_Precommit (sample_binding 1),
      aq_envelope := Some sample_authority, aq_transaction_id := sample_tid\<rparr> = sample_recovery"
    by (simp add: sample_recovery_def sample_authority_request_def)
  have served: "serve_authority tunio_sample_host (sample_process 2) sample_recovery [] (sample_tunio (sample_process 2))
      = (Inr ?reply, recovered_world)"
    by (simp add: serve_authority_def bind_def attempt_def controller_of_def return_def recovered_world_eq(1))
  have answer: "response_fence (sample_process 1) sample_recovery ?reply" "reply_answers sample_recovery ?reply"
      "ap_accepted ?reply" "ap_precommit_cancelled ?reply = Some sample_authority"
      "cancellation_confirmed offered_owner (sample_binding 1) ?reply" "aq_process sample_recovery = sample_process 1"
    unfolding recovered_world_eq(2) resynced_sample(1)
    by (simp_all add: response_fence_def reply_answers_def cancellation_confirmed_def authority_reply_def Let_def sample_recovery_def
        sample_authority_request_def cancel_precommit_def named_envelope_def fenced_by_def sample_controller_def started_controller_def
        default_authority_def offered_owner_def owner_receipt_def sample_binding_def max_def word_le_nat_alt)
  have operation: "aq_operation sample_recovery = Recover_Precommit (sample_binding 1)" "aq_process sample_base = sample_process 1"
    by (simp_all add: sample_recovery_def sample_authority_request_def)
  show ?thesis
    using served answer operation
    by (simp add: recover_precommit_with_def Let_def request exchange_authority_def exchange_authority_outcome_def bind_def andthen_def
        agent_defs return_def of_result_def persist_candidate_def sample_agent_host_simps fresh_agent_def offered_owner_simps)
qed

theorem cancelled_candidate_never_commits_witness:
  "\<exists>a'. recover_precommit_with sample_agent_host tunio_sample_host (sample_process 1) sample_base fresh_agent
      = (Inr Owner_Cancelled_Before_Prepare, a') \<and> ag_journal a' = Some (ag_owner a')
    \<and> revision_unused 1 (tw_manager (ag_tunio a'))
    \<and> fst (begin_commit sample_agent_host sample_base sample_proof a') = Inl (Code ''candidate_owner_cancelled'')"
proof -
  obtain a' where run: "recover_precommit_with sample_agent_host tunio_sample_host (sample_process 1) sample_base fresh_agent
      = (Inr Owner_Cancelled_Before_Prepare, a')"
    using sample_cancellation by blast
  have start: "tunio_moves\<^sup>*\<^sup>* (sample_tunio (sample_process 2)) (ag_tunio fresh_agent)" by (simp add: fresh_agent_def)
  have quiet: "\<forall>n w. tunio_moves\<^sup>*\<^sup>* w (gh_meanwhile sample_agent_host n w)" by (simp add: sample_agent_host_def)
  from cancelled_candidate_never_commits [OF sample_tunio_started start quiet run rtranclp.rtrancl_refl] run show ?thesis
    by (auto simp: fresh_agent_def offered_owner_def)
qed

end
