(* ===== verification/Netd_Plan.thy ===== *)
theory Netd_Plan
  imports Netd_Record
begin

text \<open>
  The kernel state a declaration stands for (\<^verbatim>\<open>candy-netd/src/linux.rs\<close>, lines 1557-1720): route table,
  rule priority, the prefixes routed into the tunnel, those thrown back to the main table, the
  selectors of the policy rules, and what a cleanup has to look for. For a valid declaration the
  thrown prefixes win over every route into the tunnel that is wider, by longest prefix match.
\<close>

section \<open>Plans\<close>

definition CANDY_POLICY_PRIORITY_MIN :: u32 where "CANDY_POLICY_PRIORITY_MIN = 20000"
definition CANDY_INTERFACE_NAME :: string where "CANDY_INTERFACE_NAME = ''candy0''"

text \<open>The decimal text of a number, \<^verbatim>\<open>to_string\<close>.\<close>

definition digit_char :: "nat \<Rightarrow> char" where
  "digit_char d = char_of (48 + d)"

fun decimal :: "nat \<Rightarrow> string" where
  "decimal n = (if n < 10 then [digit_char n] else decimal (n div 10) @ [digit_char (n mod 10)])"

declare decimal.simps [simp del]

record linux_network_plan =
  np_interface_name :: string
  np_route_table :: u32
  np_policy_priority :: u32
  np_local_prefixes :: "ipv4_prefix list"
  np_remote_routes :: "ipv4_prefix list"
  np_remote_egress_gateway_routes :: "ipv4_prefix list"
  np_exclusions :: "underlay_exclusion list"
  np_nft_table_name :: string
  np_route_mtu :: u16
  np_tcp_advmss :: u16
  np_remote_egress :: bool

definition prefixes_of_kind :: "route_kind list \<Rightarrow> prepare_declaration \<Rightarrow> ipv4_prefix list" where
  "prefixes_of_kind kinds d = map route_prefix (filter (\<lambda>r. route_kind r \<in> set kinds) (routes d))"

definition compile_fields :: "prepare_declaration \<Rightarrow> network_error + linux_network_plan" where
  "compile_fields d =
     (let offset = table_id d - CANDY_TABLE_MIN in
      rbind (ok_or Backend (if unat CANDY_POLICY_PRIORITY_MIN + unat offset < 2 ^ 32
        then Some (CANDY_POLICY_PRIORITY_MIN + offset) else None)) (\<lambda>priority.
      rbind (ok_or Backend (if 40 \<le> effective_mtu d then Some (effective_mtu d - 40) else None)) (\<lambda>advmss.
      Inr \<lparr>np_interface_name = CANDY_INTERFACE_NAME,
        np_route_table = table_id d,
        np_policy_priority = priority,
        np_local_prefixes = prefixes_of_kind [Local] d,
        np_remote_routes = prefixes_of_kind [Remote, RemoteEgress, RemoteEgressGateway] d,
        np_remote_egress_gateway_routes = prefixes_of_kind [RemoteEgressGateway] d,
        np_exclusions = exclusions d,
        np_nft_table_name = ''candy_sdwan_'' @ decimal (unat (table_id d)),
        np_route_mtu = effective_mtu d,
        np_tcp_advmss = advmss,
        np_remote_egress = list_ex (\<lambda>r. route_kind r \<in> {RemoteEgress, RemoteEgressGateway}) (routes d)\<rparr>)))"

definition compile :: "prepare_declaration \<Rightarrow> network_error + linux_network_plan" where
  "compile d = rbind (map_err (\<lambda>_. Backend) (validate_declaration d)) (\<lambda>_. compile_fields d)"

text \<open>A cleanup takes declarations that today's validation would refuse, within the same bounds.\<close>

definition compile_for_cleanup :: "prepare_declaration \<Rightarrow> network_error + linux_network_plan" where
  "compile_for_cleanup d =
     (if \<not> (CANDY_TABLE_MIN \<le> table_id d \<and> table_id d \<le> CANDY_TABLE_MAX)
         \<or> \<not> (576 \<le> effective_mtu d \<and> effective_mtu d \<le> 1400)
      then Inl Backend else compile_fields d)"

type_synonym selector = "ipv4_prefix option \<times> ipv4_prefix"

definition policy_selectors :: "linux_network_plan \<Rightarrow> selector list" where
  "policy_selectors plan = concat (map (\<lambda>destination.
     if destination \<in> set (np_remote_egress_gateway_routes plan) \<or> np_local_prefixes plan = []
     then [(None, destination)]
     else map (\<lambda>source. (Some source, destination)) (np_local_prefixes plan)) (np_remote_routes plan))"

definition throw_prefixes :: "linux_network_plan \<Rightarrow> ipv4_prefix list" where
  "throw_prefixes plan = remdups_adj (sort (np_local_prefixes plan @ map exclusion_prefix (np_exclusions plan)))"

definition cleanup_throw_prefixes :: "linux_network_plan \<Rightarrow> ipv4_prefix list" where
  "cleanup_throw_prefixes plan = remdups_adj (sort (throw_prefixes plan @ np_remote_routes plan))"

definition route_cleanup_targets ::
    "linux_network_plan \<Rightarrow> u32 option \<Rightarrow> (ipv4_prefix \<times> u32) list \<times> ipv4_prefix list" where
  "route_cleanup_targets plan link_index =
     ((case link_index of None \<Rightarrow> [] | Some index \<Rightarrow> map (\<lambda>p. (p, index)) (np_remote_routes plan)),
      cleanup_throw_prefixes plan)"

section \<open>What a plan contains\<close>

lemma compile_eq:
  "compile d = Inr plan \<longleftrightarrow> validate_declaration d = Inr () \<and> compile_fields d = Inr plan"
  by (auto simp: compile_def rbind_eq_Inr)

lemma compile_total: "validate_declaration d = Inr () \<Longrightarrow> \<exists>plan. compile d = Inr plan"
proof -
  assume valid: "validate_declaration d = Inr ()"
  then have "576 \<le> effective_mtu d" "20000 \<le> table_id d" "table_id d \<le> 20999"
    by (auto simp: validate_declaration_def CANDY_TABLE_MIN_def CANDY_TABLE_MAX_def split: if_splits)
  then have "40 \<le> effective_mtu d" "unat CANDY_POLICY_PRIORITY_MIN + unat (table_id d - CANDY_TABLE_MIN) < 2 ^ 32"
    by (simp_all add: word_le_nat_alt unat_sub_if' CANDY_TABLE_MIN_def CANDY_POLICY_PRIORITY_MIN_def)
  with valid show ?thesis
    by (simp add: compile_def compile_fields_def Let_def)
qed

lemma table_bounds:
  "validate_declaration d = Inr () \<Longrightarrow> CANDY_TABLE_MIN \<le> table_id d \<and> table_id d \<le> CANDY_TABLE_MAX"
  by (auto simp: validate_declaration_def split: if_splits)

lemma compile_table:
  "compile d = Inr plan \<Longrightarrow> CANDY_TABLE_MIN \<le> table_id d \<and> table_id d \<le> CANDY_TABLE_MAX"
  "compile_for_cleanup d = Inr plan \<Longrightarrow> CANDY_TABLE_MIN \<le> table_id d \<and> table_id d \<le> CANDY_TABLE_MAX"
  by (auto simp: compile_eq table_bounds compile_for_cleanup_def split: if_splits)

lemma compile_fields_sel:
  assumes "compile_fields d = Inr plan"
  shows "np_route_table plan = table_id d"
    and "np_local_prefixes plan = prefixes_of_kind [Local] d"
    and "np_remote_routes plan = prefixes_of_kind [Remote, RemoteEgress, RemoteEgressGateway] d"
    and "np_exclusions plan = exclusions d"
    and "np_policy_priority plan = table_id d"
    and "np_nft_table_name plan = ''candy_sdwan_'' @ decimal (unat (table_id d))"
    and "np_interface_name plan = CANDY_INTERFACE_NAME"
  using assms
  by (auto simp: compile_fields_def Let_def rbind_eq_Inr ok_or_eq CANDY_POLICY_PRIORITY_MIN_def CANDY_TABLE_MIN_def
      split: if_splits)

lemma compile_fields_of: "compile d = Inr plan \<Longrightarrow> compile_fields d = Inr plan" "compile_for_cleanup d = Inr plan \<Longrightarrow> compile_fields d = Inr plan"
  by (auto simp: compile_eq compile_for_cleanup_def split: if_splits)

definition declared_prefixes :: "prepare_declaration \<Rightarrow> ipv4_prefix set" where
  "declared_prefixes d = route_prefix ` set (routes d) \<union> exclusion_prefix ` set (exclusions d)"

lemma set_throw_prefixes:
  "set (throw_prefixes plan) = set (np_local_prefixes plan) \<union> exclusion_prefix ` set (np_exclusions plan)"
  by (simp add: throw_prefixes_def)

lemma set_cleanup_throw_prefixes:
  "set (cleanup_throw_prefixes plan) = set (throw_prefixes plan) \<union> set (np_remote_routes plan)"
  by (simp add: cleanup_throw_prefixes_def)

lemma set_prefixes_of_kind: "set (prefixes_of_kind ks d) = route_prefix ` {r \<in> set (routes d). route_kind r \<in> set ks}"
  by (auto simp: prefixes_of_kind_def)

lemma cleanup_covers_declaration:
  assumes "compile_fields d = Inr plan"
  shows "set (cleanup_throw_prefixes plan) = declared_prefixes d"
proof -
  have "route_prefix ` set (routes d)
      = route_prefix ` {r \<in> set (routes d). route_kind r \<in> {Local, Remote, RemoteEgress, RemoteEgressGateway}}"
    by (rule arg_cong [where f = "(`) route_prefix"]) (auto intro: route_kind.exhaust)
  then show ?thesis
    by (auto simp: set_cleanup_throw_prefixes set_throw_prefixes compile_fields_sel [OF assms] set_prefixes_of_kind
        declared_prefixes_def)
qed

lemma plan_prefixes_declared:
  assumes "compile_fields d = Inr plan"
  shows "set (np_remote_routes plan) \<subseteq> declared_prefixes d" "set (throw_prefixes plan) \<subseteq> declared_prefixes d"
  using cleanup_covers_declaration [OF assms] by (auto simp: set_cleanup_throw_prefixes)

lemma selectors_declared:
  "(source, destination) \<in> set (policy_selectors plan) \<Longrightarrow> destination \<in> set (np_remote_routes plan)"
  by (auto simp: policy_selectors_def split: if_splits)

section \<open>Names\<close>

lemma digit_char_inj: "a < 10 \<Longrightarrow> b < 10 \<Longrightarrow> digit_char a = digit_char b \<Longrightarrow> a = b"
  using arg_cong [where f = "of_char :: char \<Rightarrow> nat"] by (fastforce simp: digit_char_def)

lemma decimal_not_Nil [simp]: "decimal n \<noteq> []" "[] \<noteq> decimal n"
  by (subst decimal.simps; simp)+

lemma last_decimal: "last (decimal n) = digit_char (n mod 10)"
  by (subst decimal.simps) simp

lemma butlast_decimal: "butlast (decimal n) = (if n < 10 then [] else decimal (n div 10))"
  by (subst decimal.simps) simp

lemma decimal_inj: "decimal m = decimal n \<Longrightarrow> m = n"
proof (induction m arbitrary: n rule: decimal.induct)
  case (1 m)
  have digit: "m mod 10 = n mod 10"
    using digit_char_inj [of "m mod 10" "n mod 10"] arg_cong [OF 1(2), of last] by (simp add: last_decimal)
  have rest: "(if m < 10 then [] else decimal (m div 10)) = (if n < 10 then [] else decimal (n div 10))"
    using arg_cong [OF 1(2), of butlast] by (simp add: butlast_decimal)
  show ?case
  proof (cases "m < 10")
    case True
    then show ?thesis using rest digit by (simp split: if_splits)
  next
    case False
    then have "m div 10 = n div 10" "\<not> n < 10" using rest 1(1) by (auto split: if_splits)
    with digit show ?thesis by (metis div_mult_mod_eq)
  qed
qed

section \<open>Longest prefix match\<close>

text \<open>An address is steered into the tunnel when a route into it is more specific than every thrown prefix.\<close>

definition steered_into_tunnel :: "linux_network_plan \<Rightarrow> u32 \<Rightarrow> bool" where
  "steered_into_tunnel plan a \<longleftrightarrow> list_ex (\<lambda>r. contains r a
     \<and> list_all (\<lambda>t. contains t a \<longrightarrow> prefix_len t < prefix_len r) (throw_prefixes plan)) (np_remote_routes plan)"

lemma sorted_wrt_map_distinct:
  assumes "sorted_wrt P (map f xs)" "x \<in> set xs" "y \<in> set xs" "x \<noteq> y" "\<And>u v. P u v \<Longrightarrow> P v u"
  shows "P (f x) (f y)"
  using assms by (induction xs) auto

lemma declared_apart:
  assumes "declaration_ok d" and r: "r \<in> set (routes d)" "route_kind r \<noteq> RemoteEgress" "route_kind r \<noteq> Local"
    and "contains (route_prefix r) a"
  shows "l \<in> set (routes d) \<Longrightarrow> route_kind l = Local \<Longrightarrow> \<not> contains (route_prefix l) a"
    and "x \<in> set (exclusions d) \<Longrightarrow> \<not> contains (exclusion_prefix x) a"
proof -
  show "\<not> contains (route_prefix l) a" if "l \<in> set (routes d)" "route_kind l = Local"
    using sorted_wrt_map_distinct [OF declaration_ok_steered_disjoint [OF assms(1), unfolded steered_def], of r l] r that assms(5)
    by (auto simp: addresses_def)
  show "\<not> contains (exclusion_prefix x) a" if "x \<in> set (exclusions d)"
    using declaration_ok_avoids(1) [OF assms(1) _ that, of "route_prefix r"] r assms(5)
    by (auto simp: addresses_def steered_def)
qed

lemma bypass_lengths:
  assumes "validate_declaration d = Inr ()"
  shows "l \<in> set (routes d) \<Longrightarrow> route_kind l = Local \<Longrightarrow> prefix_len (route_prefix l) \<noteq> 0"
    and "x \<in> set (exclusions d) \<Longrightarrow> prefix_len (exclusion_prefix x) \<noteq> 0"
  using assms by (auto simp: validate_declaration_def list_ex_iff split: if_splits)

lemma not_local: "k = Remote \<or> k = RemoteEgress \<or> k = RemoteEgressGateway \<longleftrightarrow> k \<noteq> Local"
  by (cases k) simp_all

definition bypasses :: "prepare_declaration \<Rightarrow> u32 \<Rightarrow> bool" where
  "bypasses d a \<longleftrightarrow> list_ex (\<lambda>l. route_kind l = Local \<and> contains (route_prefix l) a) (routes d)
     \<or> list_ex (\<lambda>x. contains (exclusion_prefix x) a) (exclusions d)"

lemma bypasses_throws:
  "compile_fields d = Inr plan \<Longrightarrow> bypasses d a \<longleftrightarrow> (\<exists>t \<in> set (throw_prefixes plan). contains t a)"
  by (auto simp: bypasses_def list_ex_iff set_throw_prefixes compile_fields_sel set_prefixes_of_kind)

text \<open>
  C34: the kernel plan of a valid declaration does what the declaration says. When its remote egress
  routes are defaults, longest prefix match over the plan's routes steers an address into the tunnel
  exactly when the declaration routes it there and it is neither in a local network nor in an
  underlay exclusion: the tunnel's own transport never enters the tunnel.
\<close>

theorem plan_steers_exactly:
  assumes "declaration_ok d" and "compile d = Inr plan"
    and "\<forall>r \<in> set (routes d). route_kind r = RemoteEgress \<longrightarrow> prefix_len (route_prefix r) = 0"
  shows "steered_into_tunnel plan a \<longleftrightarrow>
    (\<exists>r \<in> set (routes d). route_kind r \<noteq> Local \<and> contains (route_prefix r) a) \<and> \<not> bypasses d a"
proof -
  note fields = compile_fields_of(1) [OF assms(2)]
  have valid: "validate_declaration d = Inr ()" using assms(2) by (simp add: compile_eq)
  have remote: "set (np_remote_routes plan) = route_prefix ` {r \<in> set (routes d). route_kind r \<noteq> Local}"
    by (simp add: compile_fields_sel [OF fields] set_prefixes_of_kind not_local)
  have none: "\<not> bypasses d a" if "r \<in> set (routes d)" "route_kind r \<noteq> Local" "contains (route_prefix r) a"
      "list_all (\<lambda>t. contains t a \<longrightarrow> prefix_len t < prefix_len (route_prefix r)) (throw_prefixes plan)" for r
  proof (cases "route_kind r = RemoteEgress")
    case True
    then have "prefix_len (route_prefix r) = 0" using assms(3) that(1) by blast
    then show ?thesis using that(4) by (auto simp: bypasses_throws [OF fields] list_all_iff)
  next
    case False
    then show ?thesis using declared_apart [OF assms(1) that(1) False that(2,3)] by (auto simp: bypasses_def list_ex_iff)
  qed
  show ?thesis
    using none unfolding steered_into_tunnel_def list_ex_iff remote
    by (auto simp: bypasses_throws [OF fields] list_all_iff)
qed

definition full_tunnel :: prepare_declaration where
  "full_tunnel = \<lparr>table_id = 20614, overlay_router_ipv4 = 0x64400002, effective_mtu = 1300,
     routes = [\<lparr>route_prefix = Ipv4Prefix 0 0, route_kind = RemoteEgress\<rparr>,
       \<lparr>route_prefix = Ipv4Prefix 0xC0A80100 24, route_kind = Local\<rparr>],
     exclusions = [\<lparr>exclusion_prefix = Ipv4Prefix 0x2F5301BD 32, exclusion_kind = CloudApi\<rparr>],
     firewall = \<lparr>allow_forward = True, clamp_tcp_mss = True, require_ipv4_forwarding = True, manage_rp_filter = True\<rparr>\<rparr>"

lemmas validation_defs = declaration_ok_def validate_declaration_def declaration_prefixes_def prefix_ok_def new_prefix_def
  strictly_sorted_by_def has_prefix_overlap_def prefix_range_def prefix_mask_def overlaps_def contains_def first_octet_def
  less_ipv4_prefix_def CANDY_TABLE_MIN_def CANDY_TABLE_MAX_def MAX_ROUTES_def MAX_EXCLUSIONS_def
  mask_eq_exp_minus_1

lemma full_tunnel_ok: "declaration_ok full_tunnel"
  by (simp add: full_tunnel_def validation_defs)

theorem plan_steers_exactly_witness:
  "\<exists>plan. compile full_tunnel = Inr plan \<and> steered_into_tunnel plan 0x08080808
    \<and> \<not> steered_into_tunnel plan 0x2F5301BD \<and> \<not> steered_into_tunnel plan 0xC0A80105"
proof -
  obtain plan where plan: "compile full_tunnel = Inr plan" using compile_total full_tunnel_ok by (auto simp: declaration_ok_def)
  have "\<forall>r \<in> set (routes full_tunnel). route_kind r = RemoteEgress \<longrightarrow> prefix_len (route_prefix r) = 0"
    by (simp add: full_tunnel_def)
  note steers = plan_steers_exactly [OF full_tunnel_ok plan this]
  have "\<exists>r \<in> set (routes full_tunnel). route_kind r \<noteq> Local \<and> contains (route_prefix r) 0x08080808" "\<not> bypasses full_tunnel 0x08080808"
      "bypasses full_tunnel 0x2F5301BD" "bypasses full_tunnel 0xC0A80105"
    by (simp_all add: full_tunnel_def bypasses_def contains_def prefix_mask_def mask_eq_exp_minus_1)
  with plan steers show ?thesis by blast
qed

text \<open>
  Validation does not ask remote egress routes to be defaults: one that is more specific than an
  underlay exclusion takes the excluded address into the tunnel.
\<close>

definition narrow_egress :: prepare_declaration where
  "narrow_egress = \<lparr>table_id = 20614, overlay_router_ipv4 = 0x64400002, effective_mtu = 1300,
     routes = [\<lparr>route_prefix = Ipv4Prefix 0xCB007107 32, route_kind = RemoteEgress\<rparr>],
     exclusions = [\<lparr>exclusion_prefix = Ipv4Prefix 0xCB007100 24, exclusion_kind = HubEndpoint\<rparr>],
     firewall = \<lparr>allow_forward = True, clamp_tcp_mss = True, require_ipv4_forwarding = True, manage_rp_filter = True\<rparr>\<rparr>"

theorem egress_shadows_exclusion:
  "declaration_ok narrow_egress \<and> bypasses narrow_egress 0xCB007107
    \<and> (\<exists>plan. compile narrow_egress = Inr plan \<and> steered_into_tunnel plan 0xCB007107)"
proof -
  have ok: "declaration_ok narrow_egress" by (simp add: narrow_egress_def validation_defs)
  have "bypasses narrow_egress 0xCB007107" by (simp add: bypasses_def narrow_egress_def contains_def prefix_mask_def mask_eq_exp_minus_1)
  from ok obtain plan where plan: "compile narrow_egress = Inr plan" using compile_total by (auto simp: declaration_ok_def)
  have "steered_into_tunnel plan 0xCB007107"
    by (simp add: steered_into_tunnel_def throw_prefixes_def compile_fields_sel [OF compile_fields_of(1) [OF plan]] prefixes_of_kind_def
        narrow_egress_def contains_def prefix_mask_def mask_eq_exp_minus_1)
  with ok plan \<open>bypasses _ _\<close> show ?thesis by blast
qed

end
