(* ===== verification/Netd_Kernel.thy ===== *)
theory Netd_Kernel
  imports Netd_Plan
begin

text \<open>
  The boundary between netd's Linux backend and the kernel. A request is what the backend asks of
  rtnetlink, nfnetlink, \<^verbatim>\<open>/proc/sys\<close> or \<^verbatim>\<open>iptables\<close>; messages the backend builds with the builders of the
  rtnetlink crate are recorded as the calls it makes of the builder, messages it received are
  passed back as they were listed. The state of the model is the sequence of requests, and a host
  answers each request by an arbitrary function of that sequence: nothing is assumed of the kernel,
  which other processes may change at any time. The listings of a dump are finite lists that may
  end in an error; the answers of \<^verbatim>\<open>iptables\<close> are a finite list, after which the program cannot be run.
\<close>

section \<open>Messages\<close>

datatype nl_error = Netlink_Error int | Transport_Error

definition ENOENT :: int where "ENOENT = 2"
definition ESRCH :: int where "ESRCH = 3"
definition EEXIST :: int where "EEXIST = 17"
definition ENODEV :: int where "ENODEV = 19"

datatype route_protocol = Protocol_Static | Protocol_Other u8
datatype route_type = Type_Unicast | Type_Throw | Type_Unreachable | Type_Black_Hole | Type_Other u8
datatype route_scope = Scope_Link | Scope_Other u8
datatype route_metric = Metric_Mtu u32 | Metric_Advmss u32 | Metric_Other
datatype route_attribute =
  Rta_Table u32 | Rta_Destination u32 | Rta_Oif u32 | Rta_Metrics "route_metric list" | Rta_Other

record route_message =
  rm_protocol :: route_protocol
  rm_kind :: route_type
  rm_scope :: route_scope
  rm_table :: u8
  rm_destination_length :: u8
  rm_attributes :: "route_attribute list"

record built_route =
  br_destination :: ipv4_prefix
  br_output :: "u32 option"
  br_table :: u32
  br_protocol :: route_protocol
  br_scope :: "route_scope option"
  br_kind :: "route_type option"
  br_metrics :: "route_metric list option"

datatype rule_action = Action_To_Table | Action_Other u8
datatype rule_attribute = Fra_Priority u32 | Fra_Table u32 | Fra_Source u32 | Fra_Destination u32 | Fra_Other

record rule_message =
  ru_action :: rule_action
  ru_table :: u8
  ru_src_len :: u8
  ru_dst_len :: u8
  ru_attributes :: "rule_attribute list"

record built_rule =
  bu_destination :: ipv4_prefix
  bu_source :: "ipv4_prefix option"
  bu_table :: u32
  bu_priority :: u32
  bu_action :: rule_action

datatype link_info = Info_Kind_Tun | Info_Other
datatype link_attribute = Ifla_Info "link_info list" | Ifla_Alias string | Ifla_Other

record link_message =
  li_index :: u32
  li_attributes :: "link_attribute list"

record link_change =
  lc_index :: u32
  lc_mtu :: "u32 option"
  lc_up :: "bool option"
  lc_alias :: "string option"

section \<open>Requests and answers\<close>

datatype kernel_request =
    Get_Link string
  | Set_Link link_change
  | Del_Link u32
  | Add_Address u32 u32 u8
  | Get_Routes u32
  | Add_Route built_route
  | Replace_Route built_route
  | Del_Built_Route built_route
  | Del_Route route_message
  | Get_Rules
  | Add_Rule built_rule
  | Del_Rule rule_message
  | Sysctl_Exists sysctl_key
  | Sysctl_Read sysctl_key
  | Sysctl_Write sysctl_key u8
  | Nft_Open
  | Nft_Send bytes
  | Iptables "string list"

datatype iptables_answer = Iptables_Missing | Iptables_Unusable | Iptables_Exit bool
datatype sysctl_text = Sysctl_Missing | Sysctl_Unreadable | Sysctl_Text string

record kernel_host =
  kh_links :: "kernel_request list \<Rightarrow> link_message list \<times> nl_error option"
  kh_routes :: "kernel_request list \<Rightarrow> route_message list \<times> nl_error option"
  kh_rules :: "kernel_request list \<Rightarrow> rule_message list \<times> nl_error option"
  kh_change :: "kernel_request list \<Rightarrow> nl_error option"
  kh_sysctl_exists :: "kernel_request list \<Rightarrow> bool"
  kh_sysctl_read :: "kernel_request list \<Rightarrow> sysctl_text"
  kh_sysctl_write :: "kernel_request list \<Rightarrow> bool"
  kh_nft_open :: "kernel_request list \<Rightarrow> bool"
  kh_nft_send :: "kernel_request list \<Rightarrow> nat option"
  kh_nft_receive :: "kernel_request list \<Rightarrow> bytes list"
  kh_prefix_order :: "ipv4_prefix \<Rightarrow> nat"
  kh_selector_order :: "selector \<Rightarrow> nat"

record kernel_world =
  kw_sent :: "kernel_request list"
  kw_iptables :: "iptables_answer list"

type_synonym 'a kernel_op = "(kernel_world, 'a) net_action"

definition ask_kernel :: "(kernel_request list \<Rightarrow> 'a) \<Rightarrow> kernel_request \<Rightarrow> 'a kernel_op" where
  "ask_kernel answer q w =
     (let sent = kw_sent w @ [q] in (Inr (answer sent), w\<lparr>kw_sent := sent\<rparr>))"

text \<open>A change that has to succeed, and one whose listed errors count as done.\<close>

definition tolerated :: "kernel_host \<Rightarrow> (nl_error \<Rightarrow> bool) \<Rightarrow> kernel_request \<Rightarrow> unit kernel_op" where
  "tolerated K harmless q = bind (ask_kernel (kh_change K) q) (\<lambda>answer. case answer of
     None \<Rightarrow> return ()
   | Some e \<Rightarrow> if harmless e then return () else throw Backend)"

definition required :: "kernel_host \<Rightarrow> kernel_request \<Rightarrow> unit kernel_op" where
  "required K q = tolerated K (\<lambda>_. False) q"

definition object_missing_is_idempotent :: "nl_error \<Rightarrow> bool" where
  "object_missing_is_idempotent e = (case e of
     Netlink_Error code \<Rightarrow> code = ENOENT \<or> code = ESRCH \<or> code = ENODEV
   | Transport_Error \<Rightarrow> False)"

definition already_exists :: "nl_error \<Rightarrow> bool" where
  "already_exists e = (e = Netlink_Error EEXIST)"

text \<open>The loops of the backend stop at the first error.\<close>

primrec for_each :: "('a \<Rightarrow> unit kernel_op) \<Rightarrow> 'a list \<Rightarrow> unit kernel_op" where
  "for_each act [] = return ()"
| "for_each act (x # xs) = andthen (act x) (for_each act xs)"

text \<open>Iteration over a hash set, in whatever order the host's hashing gives.\<close>

definition in_hash_order :: "('a \<Rightarrow> nat) \<Rightarrow> 'a list \<Rightarrow> 'a list" where
  "in_hash_order order xs = sort_key order (remdups xs)"

fun find_map :: "('a \<Rightarrow> 'b option) \<Rightarrow> 'a list \<Rightarrow> 'b option" where
  "find_map f [] = None"
| "find_map f (x # xs) = (case f x of None \<Rightarrow> find_map f xs | Some y \<Rightarrow> Some y)"

lemma set_in_hash_order [simp]: "set (in_hash_order order xs) = set xs"
  by (simp add: in_hash_order_def)

section \<open>What an operation sends\<close>

text \<open>Every request an operation makes is of the given kind, and its result has the given property.\<close>

definition sends :: "(kernel_request \<Rightarrow> bool) \<Rightarrow> ('a \<Rightarrow> bool) \<Rightarrow> 'a kernel_op \<Rightarrow> bool" where
  "sends ok Q m \<longleftrightarrow> (\<forall>w r w'. m w = (r, w') \<longrightarrow>
     (\<exists>sent. kw_sent w' = kw_sent w @ sent \<and> list_all ok sent) \<and> (\<forall>x. r = Inr x \<longrightarrow> Q x))"

abbreviation sends_only :: "(kernel_request \<Rightarrow> bool) \<Rightarrow> 'a kernel_op \<Rightarrow> bool" where
  "sends_only ok m \<equiv> sends ok (\<lambda>_. True) m"

named_theorems sending

lemma sendsD:
  "sends ok Q m \<Longrightarrow> m w = (r, w') \<Longrightarrow> \<exists>sent. kw_sent w' = kw_sent w @ sent \<and> list_all ok sent"
  "sends ok Q m \<Longrightarrow> m w = (Inr x, w') \<Longrightarrow> Q x"
  by (auto simp: sends_def)

lemma sends_mono: "sends ok Q m \<Longrightarrow> (\<And>q. ok q \<Longrightarrow> ok' q) \<Longrightarrow> (\<And>x. Q x \<Longrightarrow> Q' x) \<Longrightarrow> sends ok' Q' m"
  unfolding sends_def list_all_iff by metis

lemma sends_bind:
  assumes "sends ok Q m" "\<And>x. Q x \<Longrightarrow> sends ok R (f x)"
  shows "sends ok R (bind m f)"
  unfolding sends_def
proof (intro allI impI)
  fix w r w' assume run: "bind m f w = (r, w')"
  obtain r1 w1 where m: "m w = (r1, w1)" by fastforce
  from sendsD(1) [OF assms(1) m] obtain s1 where s1: "kw_sent w1 = kw_sent w @ s1" "list_all ok s1" by blast
  show "(\<exists>sent. kw_sent w' = kw_sent w @ sent \<and> list_all ok sent) \<and> (\<forall>x. r = Inr x \<longrightarrow> R x)"
  proof (cases r1)
    case (Inl e)
    then show ?thesis using run m s1 by (auto simp: bind_def)
  next
    case (Inr x)
    then have Q: "Q x" and rest: "f x w1 = (r, w')" using sendsD(2) [OF assms(1)] run m by (auto simp: bind_def)
    from sendsD(1) [OF assms(2) [OF Q] rest] obtain s2 where "kw_sent w' = kw_sent w1 @ s2" "list_all ok s2" by blast
    with s1 have "kw_sent w' = kw_sent w @ (s1 @ s2) \<and> list_all ok (s1 @ s2)" by simp
    moreover have "\<forall>x. r = Inr x \<longrightarrow> R x" using sendsD(2) [OF assms(2) [OF Q]] rest by blast
    ultimately show ?thesis by blast
  qed
qed

lemma sends_bind_plain [sending]: "sends_only ok m \<Longrightarrow> (\<And>x. sends ok R (f x)) \<Longrightarrow> sends ok R (bind m f)"
  by (rule sends_bind)

lemma sends_andthen [sending]: "sends_only ok m \<Longrightarrow> sends ok R n \<Longrightarrow> sends ok R (andthen m n)"
  unfolding andthen_def by (rule sends_bind)

lemma sends_return [sending]: "Q x \<Longrightarrow> sends ok Q (return x)"
  by (simp add: sends_def return_def)

lemma sends_throw [sending]: "sends ok Q (throw e)"
  by (simp add: sends_def throw_def)

lemma sends_of_result [sending]: "(\<And>x. r = Inr x \<Longrightarrow> Q x) \<Longrightarrow> sends ok Q (of_result r)"
  by (simp add: sends_def of_result_def)

lemma sends_if [sending]: "(b \<Longrightarrow> sends ok Q m) \<Longrightarrow> (\<not> b \<Longrightarrow> sends ok Q n) \<Longrightarrow> sends ok Q (if b then m else n)"
  by simp

lemma sends_case_option [sending]:
  "(x = None \<Longrightarrow> sends ok Q m) \<Longrightarrow> (\<And>y. x = Some y \<Longrightarrow> sends ok Q (f y)) \<Longrightarrow> sends ok Q (case x of None \<Rightarrow> m | Some y \<Rightarrow> f y)"
  by (cases x) simp_all

lemma sends_case_prod [sending]: "(\<And>a b. x = (a, b) \<Longrightarrow> sends ok Q (f a b)) \<Longrightarrow> sends ok Q (case x of (a, b) \<Rightarrow> f a b)"
  by (cases x) simp

lemma sends_case_sum [sending]:
  "(\<And>e. x = Inl e \<Longrightarrow> sends ok Q (f e)) \<Longrightarrow> (\<And>y. x = Inr y \<Longrightarrow> sends ok Q (g y)) \<Longrightarrow> sends ok Q (case x of Inl e \<Rightarrow> f e | Inr y \<Rightarrow> g y)"
  by (cases x) simp_all

lemma sends_when [sending]: "(b \<Longrightarrow> sends_only ok m) \<Longrightarrow> sends_only ok (when_true b m)"
  by (simp add: when_true_def sends_return)

lemma sends_attempt [sending]: "sends_only ok m \<Longrightarrow> sends_only ok (attempt m)"
  by (fastforce simp: sends_def attempt_def split: prod.splits)

lemma sends_request [sending]: "ok q \<Longrightarrow> (\<And>sent. Q (answer sent)) \<Longrightarrow> sends ok Q (ask_kernel answer q)"
  by (auto simp: sends_def ask_kernel_def Let_def)

lemma sends_tolerated [sending]: "ok q \<Longrightarrow> sends_only ok (tolerated K harmless q)"
  unfolding tolerated_def by (intro sending TrueI)

lemma sends_required [sending]: "ok q \<Longrightarrow> sends_only ok (required K q)"
  unfolding required_def by (rule sends_tolerated)

lemma sends_for_each [sending]: "(\<And>x. x \<in> set xs \<Longrightarrow> sends_only ok (act x)) \<Longrightarrow> sends_only ok (for_each act xs)"
  by (induction xs) (simp_all add: sends_return sends_andthen)

end
