(* ===== verification/Netd_Nft.thy ===== *)
theory Netd_Nft
  imports Netd_Kernel
begin

text \<open>
  The firewall of a plan (\<^verbatim>\<open>candy-netd/src/nft.rs\<close>): netlink attributes and their alignment, the
  batch of messages that creates the table with its chains and rules, the dump that tells whose a
  table is, acknowledgements, and the compatibility rules in Docker's chain. Native byte order is
  little endian, as on every target the runtime is built for. A buffer is what \<^verbatim>\<open>recv\<close> stored, and the
  loops over it recurse on the bytes that are left. Lengths of single messages are a few hundred
  bytes, far from the panic of their conversion to 32 bits.
\<close>

section \<open>Attributes\<close>

definition ne_bytes :: "nat \<Rightarrow> 'w::len word \<Rightarrow> bytes" where
  "ne_bytes n v = rev (to_be_bytes n v)"

definition from_ne_bytes :: "bytes \<Rightarrow> 'w::len word" where
  "from_ne_bytes bs = from_be_bytes (rev bs)"

definition align4 :: "nat \<Rightarrow> nat" where
  "align4 value = (value + 3) div 4 * 4"

text \<open>\<^verbatim>\<open>resize(align4(len), 0)\<close>\<close>

definition resize4 :: "bytes \<Rightarrow> bytes" where
  "resize4 out = out @ replicate (align4 (length out) - length out) 0"

definition text_bytes :: "string \<Rightarrow> bytes" where
  "text_bytes = map of_char"

definition NLA_F_NESTED :: u16 where "NLA_F_NESTED = 0x8000"

record attribute =
  at_kind :: u16
  at_payload :: bytes

definition bytes_attr :: "u16 \<Rightarrow> bytes \<Rightarrow> attribute" where
  "bytes_attr kind value = \<lparr>at_kind = kind, at_payload = value\<rparr>"

definition string_attr :: "u16 \<Rightarrow> string \<Rightarrow> attribute" where
  "string_attr kind value = \<lparr>at_kind = kind, at_payload = text_bytes value @ [0]\<rparr>"

definition u32_attr :: "u16 \<Rightarrow> u32 \<Rightarrow> attribute" where
  "u32_attr kind value = bytes_attr kind (to_be_bytes 4 value)"

definition u8_attr :: "u16 \<Rightarrow> u8 \<Rightarrow> attribute" where
  "u8_attr kind value = bytes_attr kind [value]"

text \<open>\<^verbatim>\<open>i32_attr\<close>: the two's complement of a negative value is the word of it.\<close>

definition i32_attr :: "u16 \<Rightarrow> u32 \<Rightarrow> attribute" where
  "i32_attr kind value = bytes_attr kind (to_be_bytes 4 value)"

definition emit_attr :: "bytes \<Rightarrow> attribute \<Rightarrow> bytes" where
  "emit_attr out a = resize4 (out @ ne_bytes 2 (of_nat (4 + length (at_payload a)) :: u16)
     @ ne_bytes 2 (at_kind a) @ at_payload a)"

definition nested_attr :: "u16 \<Rightarrow> attribute list \<Rightarrow> attribute" where
  "nested_attr kind values = \<lparr>at_kind = kind OR NLA_F_NESTED, at_payload = foldl emit_attr [] values\<rparr>"

definition expression :: "string \<Rightarrow> attribute list \<Rightarrow> attribute" where
  "expression name data = nested_attr 1 [string_attr 1 name, nested_attr 2 data]"

function (sequential) parse_attrs :: "bytes \<Rightarrow> network_error + (u16 \<times> bytes) list" where
  "parse_attrs [] = Inr []"
| "parse_attrs buffer =
     (if length buffer < 4 then Inl Backend
      else let length_field = unat (from_ne_bytes (take 2 buffer) :: u16) in
        if length_field < 4 \<or> length_field > length buffer then Inl Backend
        else let kind = from_ne_bytes (take 2 (drop 2 buffer)) AND NOT NLA_F_NESTED;
                 value = drop 4 (take length_field buffer);
                 aligned = align4 length_field in
          if aligned > length buffer then Inl Backend
          else rbind (parse_attrs (drop aligned buffer)) (\<lambda>rest. Inr ((kind, value) # rest)))"
  by pat_completeness auto
termination by (relation "measure length") (auto simp: align4_def)

definition trim_nul :: "bytes \<Rightarrow> bytes" where
  "trim_nul value = (if value \<noteq> [] \<and> last value = 0 then butlast value else value)"

section \<open>Rules\<close>

definition REG_1 :: u32 where "REG_1 = 1"
definition REG_VERDICT :: u32 where "REG_VERDICT = 0"
definition META_IIFNAME :: u32 where "META_IIFNAME = 6"
definition META_OIFNAME :: u32 where "META_OIFNAME = 7"
definition META_L4PROTO :: u32 where "META_L4PROTO = 16"
definition CMP_EQ :: u32 where "CMP_EQ = 0"
definition CMP_NEQ :: u32 where "CMP_NEQ = 1"
definition NF_ACCEPT :: u32 where "NF_ACCEPT = 1"

definition compare_data :: "u32 \<Rightarrow> bytes \<Rightarrow> attribute" where
  "compare_data oper value = expression ''cmp''
     [u32_attr 1 REG_1, u32_attr 2 oper, nested_attr 3 [bytes_attr 1 value]]"

definition accept_expression :: attribute where
  "accept_expression = expression ''immediate''
     [u32_attr 1 REG_VERDICT, nested_attr 2 [nested_attr 2 [i32_attr 1 NF_ACCEPT]]]"

definition ipv4_payload_expression :: "u32 \<Rightarrow> attribute" where
  "ipv4_payload_expression field_offset = expression ''payload''
     [u32_attr 1 REG_1, u32_attr 2 1, u32_attr 3 field_offset, u32_attr 4 4]"

definition interface_match_expressions :: "linux_network_plan \<Rightarrow> u32 \<Rightarrow> attribute list" where
  "interface_match_expressions plan meta_key =
     [expression ''meta'' [u32_attr 1 REG_1, u32_attr 2 meta_key],
      compare_data CMP_EQ (text_bytes (np_interface_name plan) @ [0])]"

definition ipv4_prefix_match_expressions :: "ipv4_prefix \<Rightarrow> u32 \<Rightarrow> attribute list" where
  "ipv4_prefix_match_expressions p payload_offset =
     [ipv4_payload_expression payload_offset]
     @ (if prefix_len p < 32 then
          [expression ''bitwise''
            [u32_attr 1 REG_1, u32_attr 2 REG_1, u32_attr 3 4,
             nested_attr 4 [bytes_attr 1 (to_be_bytes 4 (push_bit (unat ((32 - prefix_len p) AND 31)) (- 1) :: u32))],
             nested_attr 5 [bytes_attr 1 [0, 0, 0, 0]]]]
        else [])
     @ [compare_data CMP_EQ (to_be_bytes 4 (network p))]"

definition rule_in :: "linux_network_plan \<Rightarrow> string \<Rightarrow> attribute list \<Rightarrow> attribute list" where
  "rule_in plan chain expressions =
     [string_attr 1 (np_nft_table_name plan), string_attr 2 chain, nested_attr 4 expressions]"

definition interface_accept_rule :: "linux_network_plan \<Rightarrow> u32 \<Rightarrow> attribute list" where
  "interface_accept_rule plan meta_key =
     rule_in plan ''forward'' (interface_match_expressions plan meta_key @ [accept_expression])"

definition identity_snat_rule :: "linux_network_plan \<Rightarrow> ipv4_prefix \<Rightarrow> attribute list" where
  "identity_snat_rule plan p = rule_in plan ''postrouting''
     (interface_match_expressions plan META_OIFNAME
      @ ipv4_prefix_match_expressions p 12
      @ [ipv4_payload_expression 12, expression ''nat'' [u32_attr 1 0, u32_attr 2 2, u32_attr 3 REG_1]])"

definition remote_egress_masquerade_rule :: "linux_network_plan \<Rightarrow> attribute list" where
  "remote_egress_masquerade_rule plan = rule_in plan ''postrouting''
     (interface_match_expressions plan META_IIFNAME @ [expression ''masq'' []])"

definition tcp_mss_clamp_rule :: "linux_network_plan \<Rightarrow> attribute list" where
  "tcp_mss_clamp_rule plan = rule_in plan ''forward''
     [expression ''meta'' [u32_attr 1 REG_1, u32_attr 2 META_OIFNAME],
      compare_data CMP_EQ (text_bytes (np_interface_name plan) @ [0]),
      expression ''meta'' [u32_attr 1 REG_1, u32_attr 2 META_L4PROTO],
      compare_data CMP_EQ [6],
      expression ''payload'' [u32_attr 1 REG_1, u32_attr 2 2, u32_attr 3 13, u32_attr 4 1],
      expression ''bitwise'' [u32_attr 1 REG_1, u32_attr 2 REG_1, u32_attr 3 1,
        nested_attr 4 [bytes_attr 1 [2]], nested_attr 5 [bytes_attr 1 [0]]],
      compare_data CMP_NEQ [0],
      expression ''rt'' [u32_attr 1 REG_1, u32_attr 2 3],
      expression ''byteorder'' [u32_attr 1 REG_1, u32_attr 2 REG_1, u32_attr 3 1, u32_attr 4 2, u32_attr 5 2],
      expression ''exthdr'' [u8_attr 2 2, u32_attr 3 2, u32_attr 4 2, u32_attr 6 1, u32_attr 7 REG_1]]"

definition base_chain :: "linux_network_plan \<Rightarrow> string \<Rightarrow> string \<Rightarrow> u32 \<Rightarrow> u32 \<Rightarrow> attribute list" where
  "base_chain plan name chain_type hook priority =
     [string_attr 1 (np_nft_table_name plan), string_attr 3 name, string_attr 7 chain_type,
      nested_attr 4 [u32_attr 1 hook, i32_attr 2 priority], u32_attr 5 NF_ACCEPT]"

definition owner_tag :: "linux_network_plan \<Rightarrow> bytes" where
  "owner_tag plan = text_bytes (''candy-netd-v1:'' @ decimal (unat (np_route_table plan)))"

section \<open>Batches\<close>

definition NLM_F_REQUEST :: u16 where "NLM_F_REQUEST = 0x1"
definition NLM_F_ACK :: u16 where "NLM_F_ACK = 0x4"
definition NLM_F_DUMP :: u16 where "NLM_F_DUMP = 0x300"
definition NFNL_SUBSYS_NFTABLES :: u16 where "NFNL_SUBSYS_NFTABLES = 10"
definition MSG_NEWTABLE :: u16 where "MSG_NEWTABLE = 0"
definition MSG_GETTABLE :: u16 where "MSG_GETTABLE = 1"
definition MSG_DELTABLE :: u16 where "MSG_DELTABLE = 2"
definition MSG_NEWCHAIN :: u16 where "MSG_NEWCHAIN = 3"
definition MSG_NEWRULE :: u16 where "MSG_NEWRULE = 6"

definition create_flags :: u16 where
  "create_flags = NLM_F_ACK OR 0x400 OR 0x200"

definition nft_type :: "u16 \<Rightarrow> u16" where
  "nft_type oper = push_bit 8 NFNL_SUBSYS_NFTABLES OR oper"

record nft_batch =
  nb_bytes :: bytes
  nb_next_sequence :: u32
  nb_acknowledgements :: nat

definition nft_message :: "u16 \<Rightarrow> u16 \<Rightarrow> u8 \<Rightarrow> attribute list \<Rightarrow> u16 \<Rightarrow> nft_batch \<Rightarrow> nft_batch" where
  "nft_message kind flags family attributes resource b =
     (let start = length (nb_bytes b);
          out = foldl emit_attr (nb_bytes b @ [0, 0, 0, 0] @ ne_bytes 2 kind @ ne_bytes 2 flags
            @ ne_bytes 4 (nb_next_sequence b) @ [0, 0, 0, 0] @ [family, 0] @ to_be_bytes 2 resource) attributes;
          len = of_nat (length out - start) :: u32 in
      b\<lparr>nb_bytes := resize4 (take start out @ ne_bytes 4 len @ drop (start + 4) out),
        nb_next_sequence := nb_next_sequence b + 1\<rparr>)"

definition new_batch :: nft_batch where
  "new_batch = nft_message 16 NLM_F_REQUEST 0 [] NFNL_SUBSYS_NFTABLES
     \<lparr>nb_bytes = [], nb_next_sequence = 1, nb_acknowledgements = 0\<rparr>"

definition push_message :: "u16 \<Rightarrow> u16 \<Rightarrow> attribute list \<Rightarrow> nft_batch \<Rightarrow> nft_batch" where
  "push_message kind flags attributes b =
     (let b' = nft_message kind (NLM_F_REQUEST OR flags) 1 attributes 0 b in
      b'\<lparr>nb_acknowledgements := nb_acknowledgements b' + 1\<rparr>)"

definition finish_batch :: "nft_batch \<Rightarrow> nft_batch" where
  "finish_batch b = nft_message 17 NLM_F_REQUEST 0 [] NFNL_SUBSYS_NFTABLES b"

text \<open>The messages of the firewall, in the order in which \<^verbatim>\<open>append_firewall_rules\<close> pushes them.\<close>

definition firewall_messages :: "linux_network_plan \<Rightarrow> bool \<Rightarrow> (u16 \<times> attribute list) list" where
  "firewall_messages plan clamp =
     [(MSG_NEWTABLE, [string_attr 1 (np_nft_table_name plan), bytes_attr 6 (owner_tag plan)]),
      (MSG_NEWCHAIN, base_chain plan ''forward'' ''filter'' 2 (- 200)),
      (MSG_NEWRULE, interface_accept_rule plan META_IIFNAME),
      (MSG_NEWRULE, interface_accept_rule plan META_OIFNAME)]
     @ (if clamp then [(MSG_NEWRULE, tcp_mss_clamp_rule plan)] else [])
     @ (if np_local_prefixes plan \<noteq> [] \<or> np_remote_egress plan
        then (MSG_NEWCHAIN, base_chain plan ''postrouting'' ''nat'' 4 99)
          # map (\<lambda>p. (MSG_NEWRULE, identity_snat_rule plan p)) (np_local_prefixes plan)
        else [])
     @ (if np_remote_egress plan then [(MSG_NEWRULE, remote_egress_masquerade_rule plan)] else [])"

definition append_firewall_rules :: "linux_network_plan \<Rightarrow> bool \<Rightarrow> nft_batch \<Rightarrow> nft_batch" where
  "append_firewall_rules plan clamp b =
     foldl (\<lambda>b (oper, attributes). push_message (nft_type oper) create_flags attributes b) b
       (firewall_messages plan clamp)"

definition push_delete_table :: "linux_network_plan \<Rightarrow> nft_batch \<Rightarrow> nft_batch" where
  "push_delete_table plan b =
     push_message (nft_type MSG_DELTABLE) NLM_F_ACK [string_attr 1 (np_nft_table_name plan)] b"

section \<open>Answers of the kernel\<close>

text \<open>The loop over one datagram: how many acknowledgements there are so far.\<close>

function count_acks :: "nat \<Rightarrow> bytes \<Rightarrow> network_error + nat" where
  "count_acks acknowledged rest =
     (if length rest < 20 then Inr acknowledged
      else let message_len = unat (from_ne_bytes (take 4 rest) :: u32) in
        if message_len < 20 \<or> message_len > length rest then Inl Backend
        else let kind = from_ne_bytes (take 2 (drop 4 rest)) :: u16;
                 code = from_ne_bytes (take 4 (drop 16 rest)) :: u32 in
          if kind = 2 \<and> code \<noteq> 0 then Inl Backend
          else count_acks (if kind = 2 then acknowledged + 1 else acknowledged) (drop (align4 message_len) rest))"
  by auto
termination by (relation "measure (length \<circ> snd)") (auto simp: align4_def)

declare count_acks.simps [simp del]

fun await_acks :: "nat \<Rightarrow> nat \<Rightarrow> bytes list \<Rightarrow> network_error + unit" where
  "await_acks expected acknowledged datagrams =
     (if acknowledged \<ge> expected then Inr ()
      else case datagrams of
        [] \<Rightarrow> Inl Backend
      | datagram # rest \<Rightarrow> rbind (count_acks acknowledged datagram) (\<lambda>n. await_acks expected n rest))"

declare await_acks.simps [simp del]

definition receive_acks :: "nat \<Rightarrow> bytes list \<Rightarrow> network_error + unit" where
  "receive_acks expected datagrams = (if expected = 0 then Inr () else await_acks expected 0 datagrams)"

datatype owned_table = Table_Absent | Table_Candy | Table_Foreign

definition table_verdict :: "linux_network_plan \<Rightarrow> (u16 \<times> bytes) list \<Rightarrow> owned_table \<Rightarrow> owned_table" where
  "table_verdict plan attributes state =
     (let name = find_map (\<lambda>(kind, value). if kind = 1 then Some (trim_nul value) else None) attributes in
      if name = Some (text_bytes (np_nft_table_name plan)) then
        let userdata = find_map (\<lambda>(kind, value). if kind = 6 then Some value else None) attributes in
        if map_option trim_nul userdata = Some (owner_tag plan) then Table_Candy else Table_Foreign
      else state)"

text \<open>The loop over one datagram of a dump; the flag tells that the dump is done.\<close>

function scan_tables :: "linux_network_plan \<Rightarrow> owned_table \<Rightarrow> bytes \<Rightarrow> network_error + (bool \<times> owned_table)" where
  "scan_tables plan state rest =
     (if length rest < 16 then Inr (False, state)
      else let message_len = unat (from_ne_bytes (take 4 rest) :: u32) in
        if message_len < 16 \<or> message_len > length rest then Inl Backend
        else let kind = from_ne_bytes (take 2 (drop 4 rest)) :: u16 in
          if kind = 3 then Inr (True, state)
          else if kind = 2 then Inl Backend
          else rbind (if message_len \<ge> 20
              then rbind (parse_attrs (drop 20 (take message_len rest))) (\<lambda>attributes. Inr (table_verdict plan attributes state))
              else Inr state) (\<lambda>state'.
            scan_tables plan state' (drop (align4 message_len) rest)))"
  by auto
termination by (relation "measure (length \<circ> snd \<circ> snd)") (auto simp: align4_def)

declare scan_tables.simps [simp del]

fun scan_dump :: "linux_network_plan \<Rightarrow> owned_table \<Rightarrow> bytes list \<Rightarrow> network_error + owned_table" where
  "scan_dump plan state [] = Inl Backend"
| "scan_dump plan state (datagram # rest) = rbind (scan_tables plan state datagram) (\<lambda>(finished, state').
     if finished then Inr state' else scan_dump plan state' rest)"

section \<open>Operations\<close>

definition open_nft_socket :: "kernel_host \<Rightarrow> unit kernel_op" where
  "open_nft_socket K = bind (ask_kernel (kh_nft_open K) Nft_Open) (\<lambda>ok. if ok then return () else throw Backend)"

definition table_dump_request :: bytes where
  "table_dump_request = nb_bytes (nft_message (nft_type MSG_GETTABLE) (NLM_F_REQUEST OR NLM_F_DUMP) 1 [] 0
     \<lparr>nb_bytes = [], nb_next_sequence = 1, nb_acknowledgements = 0\<rparr>)"

definition owned_table_state :: "kernel_host \<Rightarrow> linux_network_plan \<Rightarrow> owned_table kernel_op" where
  "owned_table_state K plan =
     bind (ask_kernel (\<lambda>sent. (kh_nft_send K sent, kh_nft_receive K sent)) (Nft_Send table_dump_request)) (\<lambda>(sent, datagrams).
     case sent of None \<Rightarrow> throw Backend
     | Some _ \<Rightarrow> of_result (scan_dump plan Table_Absent datagrams))"

definition send_batch :: "kernel_host \<Rightarrow> nft_batch \<Rightarrow> unit kernel_op" where
  "send_batch K b =
     (let b' = finish_batch b in
      bind (ask_kernel (\<lambda>sent. (kh_nft_send K sent, kh_nft_receive K sent)) (Nft_Send (nb_bytes b'))) (\<lambda>(sent, datagrams).
      if sent = Some (length (nb_bytes b')) then of_result (receive_acks (nb_acknowledgements b') datagrams)
      else throw Backend))"

definition iptables_status :: "string list \<Rightarrow> bool option kernel_op" where
  "iptables_status args w =
     (case kw_iptables w of
        [] \<Rightarrow> (Inl Backend, w\<lparr>kw_sent := kw_sent w @ [Iptables args]\<rparr>)
      | answer # rest \<Rightarrow>
          ((case answer of Iptables_Missing \<Rightarrow> Inr None | Iptables_Unusable \<Rightarrow> Inl Backend | Iptables_Exit ok \<Rightarrow> Inr (Some ok)),
           w\<lparr>kw_sent := kw_sent w @ [Iptables args], kw_iptables := rest\<rparr>))"

definition docker_rule_command :: "string \<Rightarrow> string \<Rightarrow> string list" where
  "docker_rule_command oper direction =
     [''-w'', ''5'', oper, ''DOCKER-USER'', direction, CANDY_INTERFACE_NAME, ''-m'', ''comment'',
      ''--comment'', ''candy-netd-v1'', ''-j'', ''ACCEPT'']"

definition docker_chain_present :: "bool kernel_op" where
  "docker_chain_present =
     bind (iptables_status [''-w'', ''5'', ''-S'', ''DOCKER-USER'']) (\<lambda>chain. return (chain = Some True))"

definition stage_docker_direction :: "string \<Rightarrow> unit kernel_op" where
  "stage_docker_direction direction =
     bind (iptables_status (docker_rule_command ''-C'' direction)) (\<lambda>check.
     if check = Some True then return ()
     else bind (iptables_status (docker_rule_command ''-I'' direction)) (\<lambda>insert.
       if insert = Some True then return () else throw Backend))"

definition stage_docker_forward_compatibility :: "unit kernel_op" where
  "stage_docker_forward_compatibility =
     bind docker_chain_present (\<lambda>present.
     if \<not> present then return () else for_each stage_docker_direction [''-i'', ''-o''])"

text \<open>The rule is deleted as long as the check finds it; each round takes two answers.\<close>

fun delete_docker_rules :: "nat \<Rightarrow> string \<Rightarrow> unit kernel_op" where
  "delete_docker_rules 0 direction = throw Backend"
| "delete_docker_rules (Suc n) direction =
     bind (iptables_status (docker_rule_command ''-C'' direction)) (\<lambda>check.
     if check \<noteq> Some True then return ()
     else bind (iptables_status (docker_rule_command ''-D'' direction)) (\<lambda>delete.
       if delete = Some True then delete_docker_rules n direction else throw Backend))"

definition remove_docker_direction :: "string \<Rightarrow> unit kernel_op" where
  "remove_docker_direction direction w = delete_docker_rules (Suc (length (kw_iptables w))) direction w"

definition remove_docker_forward_compatibility :: "unit kernel_op" where
  "remove_docker_forward_compatibility =
     bind docker_chain_present (\<lambda>present.
     if \<not> present then return () else for_each remove_docker_direction [''-i'', ''-o''])"

definition preflight_nft :: "kernel_host \<Rightarrow> linux_network_plan \<Rightarrow> unit kernel_op" where
  "preflight_nft K plan =
     andthen (open_nft_socket K) (bind (owned_table_state K plan) (\<lambda>state.
       if state = Table_Absent then return () else throw Backend))"

definition stage_firewall :: "kernel_host \<Rightarrow> linux_network_plan \<Rightarrow> bool \<Rightarrow> bool \<Rightarrow> unit kernel_op" where
  "stage_firewall K plan allow clamp =
     (if \<not> allow then throw Backend
      else andthen (open_nft_socket K) (bind (owned_table_state K plan) (\<lambda>state.
        if state \<noteq> Table_Absent then throw Backend
        else andthen (send_batch K (append_firewall_rules plan clamp new_batch)) stage_docker_forward_compatibility)))"

definition nft_replace_firewall :: "kernel_host \<Rightarrow> linux_network_plan \<Rightarrow> bool \<Rightarrow> bool \<Rightarrow> unit kernel_op" where
  "nft_replace_firewall K plan allow clamp =
     (if \<not> allow then throw Backend
      else andthen (open_nft_socket K) (bind (owned_table_state K plan) (\<lambda>state.
        if state \<noteq> Table_Candy then throw Backend
        else andthen (send_batch K (append_firewall_rules plan clamp (push_delete_table plan new_batch)))
          stage_docker_forward_compatibility)))"

definition nft_remove_firewall :: "kernel_host \<Rightarrow> linux_network_plan \<Rightarrow> unit kernel_op" where
  "nft_remove_firewall K plan =
     andthen remove_docker_forward_compatibility
     (andthen (open_nft_socket K) (bind (owned_table_state K plan) (\<lambda>state. case state of
        Table_Absent \<Rightarrow> return ()
      | Table_Foreign \<Rightarrow> throw Backend
      | Table_Candy \<Rightarrow> send_batch K (push_delete_table plan new_batch))))"

end
