(* ===== verification/Netd_Linux.thy ===== *)
theory Netd_Linux
  imports Netd_Nft Netd_Infra_State
begin

text \<open>
  The Linux backend (\<^verbatim>\<open>candy-netd/src/linux.rs\<close>, lines 24-1505): the link \<^verbatim>\<open>candy0\<close>, routes, policy rules,
  sysctls and the firewall, for the transaction service (\<^verbatim>\<open>NetworkBackend\<close>) and the infrastructure
  service (\<^verbatim>\<open>InfrastructureBackend\<close>). \<open>linux_backend\<close> is the record of all operations that both services
  take as their parameter.
\<close>

section \<open>Links\<close>

definition candy_link :: "kernel_host \<Rightarrow> link_message option kernel_op" where
  "candy_link K = bind (ask_kernel (kh_links K) (Get_Link CANDY_INTERFACE_NAME)) (\<lambda>(links, stop).
     case links of
       [] \<Rightarrow> (case stop of None \<Rightarrow> return None
              | Some e \<Rightarrow> if object_missing_is_idempotent e then return None else throw Backend)
     | [link] \<Rightarrow> (case stop of None \<Rightarrow> return (Some link) | Some _ \<Rightarrow> throw Backend)
     | _ \<Rightarrow> throw Backend)"

definition link_is_tun :: "link_message \<Rightarrow> bool" where
  "link_is_tun link \<longleftrightarrow> list_ex (\<lambda>a. case a of Ifla_Info values \<Rightarrow> Info_Kind_Tun \<in> set values | _ \<Rightarrow> False) (li_attributes link)"

definition unchanged_link :: "u32 \<Rightarrow> link_change" where
  "unchanged_link index = \<lparr>lc_index = index, lc_mtu = None, lc_up = None, lc_alias = None\<rparr>"

text \<open>
  \<^verbatim>\<open>candy0\<close> if there is one, and \<open>wrong\<close> if the name belongs to something that is not a TUN; with
  \<open>required_tun\<close> there has to be one.
\<close>

definition candy_tun :: "kernel_host \<Rightarrow> network_error \<Rightarrow> link_message option kernel_op" where
  "candy_tun K wrong = bind (candy_link K) (\<lambda>found. case found of
     None \<Rightarrow> return None
   | Some link \<Rightarrow> if link_is_tun link then return (Some link) else throw wrong)"

definition required_tun :: "kernel_host \<Rightarrow> network_error \<Rightarrow> link_message kernel_op" where
  "required_tun K wrong = bind (candy_tun K wrong) (\<lambda>found. of_result (ok_or Backend found))"

definition link_index :: "kernel_host \<Rightarrow> u32 kernel_op" where
  "link_index K = bind (required_tun K Backend) (\<lambda>link. return (li_index link))"

definition add_overlay_address :: "kernel_host \<Rightarrow> u32 \<Rightarrow> u32 \<Rightarrow> unit kernel_op" where
  "add_overlay_address K index address = tolerated K already_exists (Add_Address index address 32)"

section \<open>Routes\<close>

definition ok_option :: "'e + 'a \<Rightarrow> 'a option" where
  "ok_option r = (case r of Inl _ \<Rightarrow> None | Inr x \<Rightarrow> Some x)"

definition attribute_table :: "route_message \<Rightarrow> u32 option" where
  "attribute_table route = find_map (\<lambda>a. case a of Rta_Table t \<Rightarrow> Some t | _ \<Rightarrow> None) (rm_attributes route)"

definition attribute_oif :: "route_message \<Rightarrow> u32 option" where
  "attribute_oif route = find_map (\<lambda>a. case a of Rta_Oif i \<Rightarrow> Some i | _ \<Rightarrow> None) (rm_attributes route)"

definition in_table :: "linux_network_plan \<Rightarrow> route_message \<Rightarrow> bool" where
  "in_table plan route \<longleftrightarrow> attribute_table route = Some (np_route_table plan)
     \<or> np_route_table plan \<le> 255 \<and> ucast (rm_table route) = np_route_table plan"

text \<open>\<^verbatim>\<open>attributes.iter().any(|v| matches!(v, Table(t) if *t == table))\<close>\<close>

definition names_table :: "u32 \<Rightarrow> route_message \<Rightarrow> bool" where
  "names_table t route \<longleftrightarrow> Rta_Table t \<in> set (rm_attributes route)"

definition message_prefix :: "route_message \<Rightarrow> ipv4_prefix option" where
  "message_prefix route =
     (case find_map (\<lambda>a. case a of Rta_Destination v \<Rightarrow> Some v | _ \<Rightarrow> None) (rm_attributes route) of
        Some value \<Rightarrow> ok_option (new_prefix value (rm_destination_length route))
      | None \<Rightarrow> if rm_destination_length route = 0 then ok_option (new_prefix 0 0) else None)"

definition is_owned_residual_route :: "linux_network_plan \<Rightarrow> route_message \<Rightarrow> bool" where
  "is_owned_residual_route plan route \<longleftrightarrow> rm_protocol route = Protocol_Static
     \<and> (case message_prefix route of None \<Rightarrow> False
        | Some p \<Rightarrow>
            if rm_kind route = Type_Throw then p \<in> set (cleanup_throw_prefixes plan)
            else if rm_kind route = Type_Unreachable \<or> rm_kind route = Type_Black_Hole then p \<in> set (np_remote_routes plan)
            else rm_kind route = Type_Unicast \<and> rm_scope route = Scope_Link \<and> p \<in> set (np_remote_routes plan))"

definition route_metrics_match :: "linux_network_plan \<Rightarrow> route_message \<Rightarrow> bool" where
  "route_metrics_match plan route =
     (case find_map (\<lambda>a. case a of Rta_Metrics ms \<Rightarrow> Some ms | _ \<Rightarrow> None) (rm_attributes route) of
        None \<Rightarrow> False
      | Some ms \<Rightarrow>
          find_map (\<lambda>m. case m of Metric_Mtu v \<Rightarrow> Some v | _ \<Rightarrow> None) ms = Some (ucast (np_route_mtu plan))
          \<and> find_map (\<lambda>m. case m of Metric_Advmss v \<Rightarrow> Some v | _ \<Rightarrow> None) ms = Some (ucast (np_tcp_advmss plan)))"

definition plain_route :: "linux_network_plan \<Rightarrow> ipv4_prefix \<Rightarrow> built_route" where
  "plain_route plan p = \<lparr>br_destination = p, br_output = None, br_table = np_route_table plan,
     br_protocol = Protocol_Static, br_scope = None, br_kind = None, br_metrics = None\<rparr>"

definition throw_route :: "linux_network_plan \<Rightarrow> ipv4_prefix \<Rightarrow> built_route" where
  "throw_route plan p = (plain_route plan p)\<lparr>br_kind := Some Type_Throw\<rparr>"

definition unreachable_route :: "linux_network_plan \<Rightarrow> ipv4_prefix \<Rightarrow> built_route" where
  "unreachable_route plan p = (plain_route plan p)\<lparr>br_kind := Some Type_Unreachable\<rparr>"

definition bare_link_route :: "linux_network_plan \<Rightarrow> u32 \<Rightarrow> ipv4_prefix \<Rightarrow> built_route" where
  "bare_link_route plan index p = (plain_route plan p)\<lparr>br_output := Some index, br_scope := Some Scope_Link\<rparr>"

definition link_route :: "linux_network_plan \<Rightarrow> u32 \<Rightarrow> ipv4_prefix \<Rightarrow> built_route" where
  "link_route plan index p = (bare_link_route plan index p)
     \<lparr>br_metrics := Some [Metric_Mtu (ucast (np_route_mtu plan)), Metric_Advmss (ucast (np_tcp_advmss plan))]\<rparr>"

definition list_routes :: "kernel_host \<Rightarrow> linux_network_plan \<Rightarrow> (route_message list \<times> nl_error option) kernel_op" where
  "list_routes K plan = ask_kernel (kh_routes K) (Get_Routes (np_route_table plan))"

definition end_of_dump :: "nl_error option \<Rightarrow> unit kernel_op" where
  "end_of_dump stop = (if stop = None then return () else throw Backend)"

definition route_conflict :: "kernel_host \<Rightarrow> linux_network_plan \<Rightarrow> bool kernel_op" where
  "route_conflict K plan = bind (list_routes K plan) (\<lambda>(found, stop).
     if list_ex (\<lambda>route. in_table plan route \<and> \<not> is_owned_residual_route plan route) found then return True
     else andthen (end_of_dump stop) (return False))"

definition add_routes :: "kernel_host \<Rightarrow> linux_network_plan \<Rightarrow> unit kernel_op" where
  "add_routes K plan = bind (link_index K) (\<lambda>index.
     andthen (for_each (\<lambda>p. tolerated K already_exists (Add_Route (link_route plan index p))) (np_remote_routes plan))
       (for_each (\<lambda>p. tolerated K already_exists (Add_Route (throw_route plan p))) (throw_prefixes plan)))"

text \<open>What \<^verbatim>\<open>reconcile_routes\<close> reads off the table: which live and which thrown prefixes are there, and what is stale.\<close>

definition owned_listing :: "linux_network_plan \<Rightarrow> route_message list \<Rightarrow> (route_message \<times> ipv4_prefix) list" where
  "owned_listing plan found = List.map_filter (\<lambda>route.
     if \<not> in_table plan route \<or> rm_protocol route \<noteq> Protocol_Static then None
     else map_option (\<lambda>p. (route, p)) (message_prefix route)) found"

definition good_link_route :: "linux_network_plan \<Rightarrow> u32 \<Rightarrow> route_message \<Rightarrow> bool" where
  "good_link_route plan index route \<longleftrightarrow> rm_kind route = Type_Unicast \<and> rm_scope route = Scope_Link
     \<and> attribute_oif route = Some index \<and> route_metrics_match plan route"

definition stale_route :: "linux_network_plan \<Rightarrow> u32 \<Rightarrow> ipv4_prefix list \<Rightarrow> ipv4_prefix list \<Rightarrow> route_message \<Rightarrow> ipv4_prefix \<Rightarrow> bool" where
  "stale_route plan index live thrown route p \<longleftrightarrow>
     (if p \<in> set live then \<not> good_link_route plan index route \<and> (rm_kind route = Type_Throw \<or> rm_kind route = Type_Unicast)
      else p \<in> set thrown \<and> rm_kind route = Type_Unicast)"

definition present_healthy :: "linux_network_plan \<Rightarrow> u32 \<Rightarrow> ipv4_prefix list \<Rightarrow> (route_message \<times> ipv4_prefix) list \<Rightarrow> ipv4_prefix list" where
  "present_healthy plan index live listing =
     map snd (filter (\<lambda>(route, p). p \<in> set live \<and> good_link_route plan index route) listing)"

definition present_throw :: "ipv4_prefix list \<Rightarrow> ipv4_prefix list \<Rightarrow> (route_message \<times> ipv4_prefix) list \<Rightarrow> ipv4_prefix list" where
  "present_throw live thrown listing =
     map snd (filter (\<lambda>(route, p). p \<notin> set live \<and> p \<in> set thrown \<and> rm_kind route = Type_Throw) listing)"

definition kernel_reconcile_routes :: "kernel_host \<Rightarrow> linux_network_plan \<Rightarrow> ipv4_prefix list \<Rightarrow> unit kernel_op" where
  "kernel_reconcile_routes K plan failed = bind (link_index K) (\<lambda>index.
     let live = filter (\<lambda>p. p \<notin> set failed) (np_remote_routes plan);
         thrown = throw_prefixes plan @ failed in
     bind (list_routes K plan) (\<lambda>(found, stop). andthen (end_of_dump stop)
     (let listing = owned_listing plan found;
          there = present_healthy plan index live listing;
          thrown_there = present_throw live thrown listing;
          missing = in_hash_order (kh_prefix_order K) (filter (\<lambda>p. p \<notin> set there) live);
          missing_throw = in_hash_order (kh_prefix_order K) (filter (\<lambda>p. p \<notin> set thrown_there) thrown);
          stale = filter (\<lambda>(route, p). stale_route plan index live thrown route p
            \<and> \<not> (rm_kind route = Type_Unicast \<and> p \<in> set missing \<or> rm_kind route = Type_Throw \<and> p \<in> set missing_throw)) listing in
      andthen (for_each (\<lambda>p. required K (Replace_Route (link_route plan index p))) missing)
      (andthen (for_each (\<lambda>p. required K (Replace_Route (throw_route plan p))) missing_throw)
       (for_each (\<lambda>(route, _). tolerated K object_missing_is_idempotent (Del_Route route)) stale)))))"

text \<open>The routes of a listing that match are deleted while the listing is read; an error ends it.\<close>

definition delete_listed :: "kernel_host \<Rightarrow> linux_network_plan \<Rightarrow> (route_message \<Rightarrow> bool) \<Rightarrow> unit kernel_op" where
  "delete_listed K plan doomed = bind (list_routes K plan) (\<lambda>(found, stop).
     andthen (for_each (\<lambda>route. tolerated K object_missing_is_idempotent (Del_Route route)) (filter doomed found))
       (end_of_dump stop))"

definition cleanup_route :: "linux_network_plan \<Rightarrow> ipv4_prefix list \<Rightarrow> route_message \<Rightarrow> bool" where
  "cleanup_route plan thrown route \<longleftrightarrow> in_table plan route
     \<and> (rm_kind route = Type_Throw \<or> rm_kind route = Type_Unreachable \<or> rm_kind route = Type_Black_Hole)
     \<and> rm_protocol route = Protocol_Static
     \<and> (case message_prefix route of None \<Rightarrow> False
        | Some p \<Rightarrow> if rm_kind route = Type_Throw then p \<in> set thrown else p \<in> set (np_remote_routes plan))"

definition delete_routes :: "kernel_host \<Rightarrow> linux_network_plan \<Rightarrow> unit kernel_op" where
  "delete_routes K plan = bind (candy_tun K Backend) (\<lambda>link.
     let (link_routes, throw_routes) = route_cleanup_targets plan (map_option li_index link) in
     andthen (for_each (\<lambda>(p, index). tolerated K object_missing_is_idempotent
         (Del_Built_Route (bare_link_route plan index p))) link_routes)
       (delete_listed K plan (cleanup_route plan throw_routes)))"

section \<open>Policy rules\<close>

definition rule_priority :: "rule_message \<Rightarrow> u32 option" where
  "rule_priority rule = find_map (\<lambda>a. case a of Fra_Priority v \<Rightarrow> Some v | _ \<Rightarrow> None) (ru_attributes rule)"

definition rule_attribute_table :: "rule_message \<Rightarrow> u32 option" where
  "rule_attribute_table rule = find_map (\<lambda>a. case a of Fra_Table v \<Rightarrow> Some v | _ \<Rightarrow> None) (ru_attributes rule)"

definition rule_table :: "rule_message \<Rightarrow> u32 option" where
  "rule_table rule = (case rule_attribute_table rule of
     None \<Rightarrow> if ru_table rule \<noteq> 0 then Some (ucast (ru_table rule)) else None | Some t \<Rightarrow> Some t)"

definition list_rules :: "kernel_host \<Rightarrow> (rule_message list \<times> nl_error option) kernel_op" where
  "list_rules K = ask_kernel (kh_rules K) Get_Rules"

definition rules_conflict :: "kernel_host \<Rightarrow> linux_network_plan \<Rightarrow> bool kernel_op" where
  "rules_conflict K plan = bind (list_rules K) (\<lambda>(found, stop).
     if list_ex (\<lambda>rule. rule_priority rule = Some (np_policy_priority plan)
          \<or> rule_attribute_table rule = Some (np_route_table plan)) found then return True
     else andthen (end_of_dump stop) (return False))"

definition owned_rule :: "linux_network_plan \<Rightarrow> rule_message \<Rightarrow> bool" where
  "owned_rule plan rule \<longleftrightarrow> rule_priority rule = Some (np_policy_priority plan) \<and> rule_table rule = Some (np_route_table plan)"

definition find_policy_rules :: "kernel_host \<Rightarrow> linux_network_plan \<Rightarrow> rule_message list kernel_op" where
  "find_policy_rules K plan = bind (list_rules K) (\<lambda>(found, stop).
     andthen (end_of_dump stop) (return (filter (owned_rule plan) found)))"

definition policy_rule_selector :: "rule_message \<Rightarrow> selector option" where
  "policy_rule_selector rule =
     (if ru_action rule \<noteq> Action_To_Table then None
      else
        let source = find_map (\<lambda>a. case a of Fra_Source v \<Rightarrow> Some v | _ \<Rightarrow> None) (ru_attributes rule);
            destination = find_map (\<lambda>a. case a of Fra_Destination v \<Rightarrow> Some v | _ \<Rightarrow> None) (ru_attributes rule);
            source_prefix = (case source of
               Some v \<Rightarrow> map_option Some (ok_option (new_prefix v (ru_src_len rule)))
             | None \<Rightarrow> if ru_src_len rule = 0 then Some None else None);
            destination_prefix = (case destination of
               Some v \<Rightarrow> ok_option (new_prefix v (ru_dst_len rule))
             | None \<Rightarrow> if ru_dst_len rule = 0 then ok_option (new_prefix 0 0) else None) in
        case (source_prefix, destination_prefix) of (Some s, Some t) \<Rightarrow> Some (s, t) | _ \<Rightarrow> None)"

definition policy_rule :: "linux_network_plan \<Rightarrow> selector \<Rightarrow> built_rule" where
  "policy_rule plan sel = \<lparr>bu_destination = snd sel, bu_source = fst sel, bu_table = np_route_table plan,
     bu_priority = np_policy_priority plan, bu_action = Action_To_Table\<rparr>"

definition add_policy_rule :: "kernel_host \<Rightarrow> linux_network_plan \<Rightarrow> selector \<Rightarrow> unit kernel_op" where
  "add_policy_rule K plan sel = tolerated K already_exists (Add_Rule (policy_rule plan sel))"

text \<open>The expected selectors that are present, and the rules that are not wanted or there twice.\<close>

fun sort_rules :: "selector list \<Rightarrow> selector list \<Rightarrow> rule_message list \<Rightarrow> selector list \<times> rule_message list" where
  "sort_rules expected present [] = (present, [])"
| "sort_rules expected present (rule # rules) =
     (case policy_rule_selector rule of
        Some sel \<Rightarrow> if sel \<in> set expected \<and> sel \<notin> set present then sort_rules expected (sel # present) rules
          else map_prod id ((#) rule) (sort_rules expected present rules)
      | None \<Rightarrow> map_prod id ((#) rule) (sort_rules expected present rules))"

definition reconcile_policy_rules :: "kernel_host \<Rightarrow> linux_network_plan \<Rightarrow> unit kernel_op" where
  "reconcile_policy_rules K plan = bind (find_policy_rules K plan) (\<lambda>rules.
     let (present, stale) = sort_rules (policy_selectors plan) [] rules;
         missing = in_hash_order (kh_selector_order K) (filter (\<lambda>sel. sel \<notin> set present) (policy_selectors plan)) in
     andthen (for_each (add_policy_rule K plan) missing)
       (for_each (\<lambda>rule. tolerated K object_missing_is_idempotent (Del_Rule rule)) stale))"

text \<open>Every rule is tried; any failure, also of a rule that is gone, fails the removal.\<close>

primrec delete_rules :: "kernel_host \<Rightarrow> rule_message list \<Rightarrow> bool kernel_op" where
  "delete_rules K [] = return False"
| "delete_rules K (rule # rules) = bind (ask_kernel (kh_change K) (Del_Rule rule)) (\<lambda>answer.
     bind (delete_rules K rules) (\<lambda>failed. return (answer \<noteq> None \<or> failed)))"

section \<open>Sysctls\<close>

definition read_sysctl_path :: "kernel_host \<Rightarrow> sysctl_key \<Rightarrow> bool \<Rightarrow> u8 option kernel_op" where
  "read_sysctl_path K key missing_is_clean = bind (ask_kernel (kh_sysctl_read K) (Sysctl_Read key)) (\<lambda>text.
     case text of
       Sysctl_Missing \<Rightarrow> if missing_is_clean then return None else throw Backend
     | Sysctl_Unreadable \<Rightarrow> throw Backend
     | Sysctl_Text value \<Rightarrow>
         if trim value = ''0'' then return (Some 0)
         else if trim value = ''1'' then return (Some 1)
         else if trim value = ''2'' then return (Some 2)
         else throw Backend)"

definition read_sysctl :: "kernel_host \<Rightarrow> sysctl_key \<Rightarrow> u8 kernel_op" where
  "read_sysctl K key = bind (read_sysctl_path K key False) (\<lambda>value. of_result (ok_or Backend value))"

definition read_sysctl_for_restore :: "kernel_host \<Rightarrow> sysctl_key \<Rightarrow> u8 option kernel_op" where
  "read_sysctl_for_restore K key = read_sysctl_path K key (key = CandyRpFilter \<or> key = CandyDisableIpv6)"

definition write_sysctl :: "kernel_host \<Rightarrow> sysctl_key \<Rightarrow> u8 \<Rightarrow> unit kernel_op" where
  "write_sysctl K key value = bind (ask_kernel (kh_sysctl_write K) (Sysctl_Write key value)) (\<lambda>ok.
     if ok then return () else throw Backend)"

definition push_change :: "kernel_host \<Rightarrow> sysctl_key \<Rightarrow> u8 \<Rightarrow> sysctl_change list \<Rightarrow> sysctl_change list kernel_op" where
  "push_change K key value changes = bind (read_sysctl K key) (\<lambda>before.
     return (if before \<noteq> value then changes @ [\<lparr>sysctl_key = key, original = before, applied = value\<rparr>] else changes))"

definition sysctl_exists :: "kernel_host \<Rightarrow> sysctl_key \<Rightarrow> bool kernel_op" where
  "sysctl_exists K key = ask_kernel (kh_sysctl_exists K) (Sysctl_Exists key)"

definition snapshot_sysctls :: "kernel_host \<Rightarrow> prepare_declaration \<Rightarrow> sysctl_change list kernel_op" where
  "snapshot_sysctls K d =
     bind (if require_ipv4_forwarding (firewall d) then push_change K Ipv4Forward 1 [] else return []) (\<lambda>c1.
     bind (if manage_rp_filter (firewall d)
       then bind (push_change K AllRpFilter 0 c1) (\<lambda>c2. bind (sysctl_exists K CandyRpFilter) (\<lambda>present.
         if present then push_change K CandyRpFilter 0 c2 else return c2))
       else return c1) (\<lambda>c3.
     bind (sysctl_exists K CandyDisableIpv6) (\<lambda>present.
     if present then push_change K CandyDisableIpv6 1 c3 else return c3)))"

section \<open>The backend of the transaction service\<close>

definition with_plan :: "network_error + linux_network_plan \<Rightarrow> (linux_network_plan \<Rightarrow> 'a kernel_op) \<Rightarrow> 'a kernel_op" where
  "with_plan compiled act = bind (of_result compiled) act"

definition linux_preflight :: "kernel_host \<Rightarrow> prepare_declaration \<Rightarrow> sysctl_change list kernel_op" where
  "linux_preflight K d = with_plan (compile d) (\<lambda>plan.
     andthen (preflight_nft K plan)
     (bind (rules_conflict K plan) (\<lambda>rules. bind (if rules then return True else route_conflict K plan) (\<lambda>conflict.
     if conflict then throw Backend
     else andthen (candy_tun K Backend) (snapshot_sysctls K d)))))"

definition linux_prepare_link :: "kernel_host \<Rightarrow> prepare_declaration \<Rightarrow> unit kernel_op" where
  "linux_prepare_link K d = with_plan (compile d) (\<lambda>plan. bind (required_tun K Backend) (\<lambda>link.
     andthen (required K (Set_Link ((unchanged_link (li_index link))\<lparr>lc_mtu := Some (ucast (np_route_mtu plan))\<rparr>)))
       (add_overlay_address K (li_index link) (overlay_router_ipv4 d))))"

definition linux_prepare_routes :: "kernel_host \<Rightarrow> prepare_declaration \<Rightarrow> unit kernel_op" where
  "linux_prepare_routes K d = with_plan (compile d) (add_routes K)"

definition linux_reconcile_routes :: "kernel_host \<Rightarrow> prepare_declaration \<Rightarrow> ipv4_prefix list \<Rightarrow> unit kernel_op" where
  "linux_reconcile_routes K d failed = with_plan (compile d) (\<lambda>plan. kernel_reconcile_routes K plan failed)"

definition linux_prepare_firewall :: "kernel_host \<Rightarrow> prepare_declaration \<Rightarrow> unit kernel_op" where
  "linux_prepare_firewall K d = with_plan (compile d) (\<lambda>plan.
     stage_firewall K plan (allow_forward (firewall d)) (clamp_tcp_mss (firewall d)))"

definition linux_replace_firewall :: "kernel_host \<Rightarrow> prepare_declaration \<Rightarrow> prepare_declaration \<Rightarrow> unit kernel_op" where
  "linux_replace_firewall K previous replacement = with_plan (compile replacement) (\<lambda>plan.
     nft_replace_firewall K plan (allow_forward (firewall replacement)) (clamp_tcp_mss (firewall replacement)))"

definition linux_prepare_sysctls :: "kernel_host \<Rightarrow> prepare_declaration \<Rightarrow> sysctl_change list \<Rightarrow> unit kernel_op" where
  "linux_prepare_sysctls K d changes = for_each (\<lambda>c. write_sysctl K (sysctl_key c) (applied c)) changes"

definition linux_activate_link :: "kernel_host \<Rightarrow> prepare_declaration \<Rightarrow> unit kernel_op" where
  "linux_activate_link K d = bind (link_index K) (\<lambda>index. required K (Set_Link ((unchanged_link index)\<lparr>lc_up := Some True\<rparr>)))"

definition linux_update_link_mtu :: "kernel_host \<Rightarrow> prepare_declaration \<Rightarrow> u16 \<Rightarrow> unit kernel_op" where
  "linux_update_link_mtu K d mtu =
     bind (link_index K) (\<lambda>index. required K (Set_Link ((unchanged_link index)\<lparr>lc_mtu := Some (ucast mtu)\<rparr>)))"

definition linux_install_policy_rule :: "kernel_host \<Rightarrow> prepare_declaration \<Rightarrow> unit kernel_op" where
  "linux_install_policy_rule K d = with_plan (compile d) (reconcile_policy_rules K)"

definition linux_remove_policy_rule :: "kernel_host \<Rightarrow> prepare_declaration \<Rightarrow> unit kernel_op" where
  "linux_remove_policy_rule K d = with_plan (compile_for_cleanup d) (\<lambda>plan.
     bind (find_policy_rules K plan) (\<lambda>rules. bind (delete_rules K rules) (\<lambda>failed.
     if failed then throw Backend else return ())))"

definition linux_deactivate_link :: "kernel_host \<Rightarrow> prepare_declaration \<Rightarrow> unit kernel_op" where
  "linux_deactivate_link K d = bind (candy_tun K Backend) (\<lambda>found. case found of
     None \<Rightarrow> return ()
   | Some link \<Rightarrow> required K (Set_Link ((unchanged_link (li_index link))\<lparr>lc_up := Some False\<rparr>)))"

definition linux_remove_firewall :: "kernel_host \<Rightarrow> prepare_declaration \<Rightarrow> unit kernel_op" where
  "linux_remove_firewall K d = with_plan (compile_for_cleanup d) (nft_remove_firewall K)"

definition linux_remove_routes :: "kernel_host \<Rightarrow> prepare_declaration \<Rightarrow> unit kernel_op" where
  "linux_remove_routes K d = with_plan (compile_for_cleanup d) (delete_routes K)"

definition linux_withdraw_prefixes :: "kernel_host \<Rightarrow> prepare_declaration \<Rightarrow> ipv4_prefix list \<Rightarrow> unit kernel_op" where
  "linux_withdraw_prefixes K d prefixes =
     (let scoped = d\<lparr>routes := filter (\<lambda>r. route_prefix r \<in> set prefixes) (routes d)\<rparr> in
      if routes scoped = [] then return ()
      else with_plan (compile scoped) (\<lambda>plan. andthen (delete_routes K plan)
        (for_each (\<lambda>p. tolerated K already_exists (Add_Route (throw_route plan p))) prefixes)))"

definition delete_candy_link :: "kernel_host \<Rightarrow> network_error \<Rightarrow> unit kernel_op" where
  "delete_candy_link K wrong = bind (candy_tun K wrong) (\<lambda>found. case found of
     None \<Rightarrow> return () | Some link \<Rightarrow> required K (Del_Link (li_index link)))"

definition linux_remove_link :: "kernel_host \<Rightarrow> prepare_declaration \<Rightarrow> unit kernel_op" where
  "linux_remove_link K d = delete_candy_link K Backend"

definition linux_restore_sysctls :: "kernel_host \<Rightarrow> prepare_declaration \<Rightarrow> sysctl_change list \<Rightarrow> unit kernel_op" where
  "linux_restore_sysctls K d changes = for_each (\<lambda>c.
     bind (read_sysctl_for_restore K (sysctl_key c)) (\<lambda>current. case current of
       None \<Rightarrow> return ()
     | Some value \<Rightarrow> when_true (restore_sysctl_value (decimal (unat (original c))) (decimal (unat (applied c)))
           (decimal (unat value)) \<noteq> None) (write_sysctl K (sysctl_key c) (original c)))) (rev changes)"

section \<open>The backend of the infrastructure service\<close>

definition apply_v2_forward_routes ::
    "kernel_host \<Rightarrow> prepare_declaration \<Rightarrow> ipv4_prefix list \<Rightarrow> ipv4_prefix list option \<Rightarrow> unit kernel_op" where
  "apply_v2_forward_routes K d failed changed = with_plan (compile d) (\<lambda>plan. bind (link_index K) (\<lambda>index.
     andthen (for_each (\<lambda>p. required K (Replace_Route
         (if p \<in> set failed then unreachable_route plan p else link_route plan index p)))
       (filter (\<lambda>p. case changed of None \<Rightarrow> True | Some ps \<Rightarrow> p \<in> set ps) (np_remote_routes plan)))
     (if changed \<noteq> None then return ()
      else andthen (for_each (\<lambda>p. required K (Replace_Route (throw_route plan p))) (throw_prefixes plan))
        (reconcile_policy_rules K plan))))"

definition linux_remove_stale_forwarding :: "kernel_host \<Rightarrow> prepare_declaration \<Rightarrow> prepare_declaration \<Rightarrow> unit kernel_op" where
  "linux_remove_stale_forwarding K old retained =
     with_plan (compile old) (\<lambda>old_plan. with_plan (compile retained) (\<lambda>retained_plan.
     if np_route_table old_plan \<noteq> np_route_table retained_plan then throw Backend
     else
       let stale = filter (\<lambda>p. p \<notin> set (cleanup_throw_prefixes retained_plan)) (cleanup_throw_prefixes old_plan) in
       delete_listed K old_plan (\<lambda>route. names_table (np_route_table old_plan) route \<and> rm_protocol route = Protocol_Static
         \<and> (case message_prefix route of None \<Rightarrow> False | Some p \<Rightarrow> p \<in> set stale))))"

definition linux_update_live_policy ::
    "kernel_host \<Rightarrow> prepare_declaration \<Rightarrow> prepare_declaration \<Rightarrow> ipv4_prefix list \<Rightarrow> unit kernel_op" where
  "linux_update_live_policy K previous target failed =
     andthen (apply_v2_forward_routes K target failed None)
     (andthen (linux_replace_firewall K previous target)
       (linux_remove_stale_forwarding K previous target))"

definition linux_discard_live_policy :: "kernel_host \<Rightarrow> prepare_declaration \<Rightarrow> prepare_declaration \<Rightarrow> unit kernel_op" where
  "linux_discard_live_policy K previous target =
     andthen (linux_remove_stale_forwarding K target previous)
     (with_plan (compile previous) (\<lambda>plan. apply_v2_forward_routes K previous (np_remote_routes plan) None))"

definition linux_interface_ownership_marker :: "kernel_host \<Rightarrow> string option kernel_op" where
  "linux_interface_ownership_marker K = bind (candy_tun K Conflict) (\<lambda>found. return (case found of None \<Rightarrow> None
     | Some link \<Rightarrow> find_map (\<lambda>a. case a of Ifla_Alias marker \<Rightarrow> Some marker | _ \<Rightarrow> None) (li_attributes link)))"

definition linux_stamp_infrastructure_ownership :: "kernel_host \<Rightarrow> string \<Rightarrow> unit kernel_op" where
  "linux_stamp_infrastructure_ownership K marker =
     bind (link_index K) (\<lambda>index. required K (Set_Link ((unchanged_link index)\<lparr>lc_alias := Some marker\<rparr>)))"

definition linux_interface_identity :: "kernel_host \<Rightarrow> u32 option kernel_op" where
  "linux_interface_identity K = bind (candy_tun K Conflict) (\<lambda>found. return (map_option li_index found))"

definition linux_ensure_infrastructure :: "kernel_host \<Rightarrow> infra_spec \<Rightarrow> u32 kernel_op" where
  "linux_ensure_infrastructure K sp =
     bind (sysctl_exists K CandyDisableIpv6) (\<lambda>present.
     andthen (when_true present (write_sysctl K CandyDisableIpv6 1))
     (bind (required_tun K Conflict) (\<lambda>link.
     andthen (required K (Set_Link ((unchanged_link (li_index link))\<lparr>lc_mtu := Some (ucast (spec_mtu sp)), lc_up := Some True\<rparr>)))
     (andthen (add_overlay_address K (li_index link) (spec_router_ipv4 sp))
       (return (li_index link))))))"

definition linux_retire_infrastructure :: "kernel_host \<Rightarrow> unit kernel_op" where
  "linux_retire_infrastructure K = delete_candy_link K Conflict"

definition linux_reject_forwarding :: "kernel_host \<Rightarrow> prepare_declaration \<Rightarrow> unit kernel_op" where
  "linux_reject_forwarding K d = with_plan (compile d) (\<lambda>plan.
     andthen (for_each (\<lambda>p. required K (Replace_Route (unreachable_route plan p))) (np_remote_routes plan))
     (andthen (for_each (\<lambda>p. required K (Replace_Route (throw_route plan p))) (throw_prefixes plan))
       (for_each (add_policy_rule K plan) (policy_selectors plan))))"

definition linux_restore_forwarding :: "kernel_host \<Rightarrow> prepare_declaration \<Rightarrow> unit kernel_op" where
  "linux_restore_forwarding K d = apply_v2_forward_routes K d [] None"

definition linux_restore_forwarding_with_failures :: "kernel_host \<Rightarrow> prepare_declaration \<Rightarrow> ipv4_prefix list \<Rightarrow> unit kernel_op" where
  "linux_restore_forwarding_with_failures K d failed = apply_v2_forward_routes K d failed None"

definition linux_update_failed_forward_prefixes ::
    "kernel_host \<Rightarrow> prepare_declaration \<Rightarrow> ipv4_prefix list \<Rightarrow> ipv4_prefix list \<Rightarrow> unit kernel_op" where
  "linux_update_failed_forward_prefixes K d previous failed =
     (let changed = sort (remdups (filter (\<lambda>p. p \<notin> set failed) previous @ filter (\<lambda>p. p \<notin> set previous) failed));
          guarded = sort (remdups (previous @ failed)) in
      andthen (apply_v2_forward_routes K d guarded (Some changed))
      (bind (attempt (apply_v2_forward_routes K d failed (Some changed))) (\<lambda>outcome. case outcome of
         Inr _ \<Rightarrow> return ()
       | Inl e \<Rightarrow> bind (attempt (apply_v2_forward_routes K d guarded (Some changed))) (\<lambda>_. throw e))))"

definition replacement_route_ok :: "linux_network_plan \<Rightarrow> u32 \<Rightarrow> route_message \<Rightarrow> bool" where
  "replacement_route_ok plan index route \<longleftrightarrow> \<not> names_table (np_route_table plan) route
     \<or> (rm_kind route = Type_Unreachable \<or> rm_kind route = Type_Black_Hole) \<and> rm_protocol route = Protocol_Static
       \<and> (case message_prefix route of None \<Rightarrow> False | Some p \<Rightarrow> p \<in> set (np_remote_routes plan))
     \<or> is_owned_residual_route plan route
       \<and> (rm_kind route \<noteq> Type_Unicast \<or> Rta_Oif index \<in> set (rm_attributes route))"

definition replacement_rule_ok :: "linux_network_plan \<Rightarrow> rule_message \<Rightarrow> bool" where
  "replacement_rule_ok plan rule \<longleftrightarrow>
     \<not> (rule_priority rule = Some (np_policy_priority plan) \<or> rule_attribute_table rule = Some (np_route_table plan))
     \<or> rule_priority rule = Some (np_policy_priority plan) \<and> rule_attribute_table rule = Some (np_route_table plan)
       \<and> (case policy_rule_selector rule of None \<Rightarrow> False | Some sel \<Rightarrow> sel \<in> set (policy_selectors plan))"

definition linux_validate_forwarding_replacement :: "kernel_host \<Rightarrow> prepare_declaration \<Rightarrow> prepare_declaration \<Rightarrow> unit kernel_op" where
  "linux_validate_forwarding_replacement K previous new_declaration =
     with_plan (compile previous) (\<lambda>old_plan. with_plan (compile new_declaration) (\<lambda>new_plan.
     if np_route_table old_plan \<noteq> np_route_table new_plan then throw Backend
     else bind (link_index K) (\<lambda>index. bind (list_routes K old_plan) (\<lambda>(found, stop).
       if \<not> list_all (replacement_route_ok old_plan index) found then throw Backend
       else andthen (end_of_dump stop) (bind (list_rules K) (\<lambda>(rules, stop).
         if \<not> list_all (replacement_rule_ok old_plan) rules then throw Backend
         else end_of_dump stop))))))"

definition linux_retire_forwarding :: "kernel_host \<Rightarrow> prepare_declaration \<Rightarrow> unit kernel_op" where
  "linux_retire_forwarding K d =
     andthen (linux_remove_policy_rule K d) (andthen (linux_remove_routes K d)
     (with_plan (compile d) (\<lambda>plan. delete_listed K plan (\<lambda>route. names_table (np_route_table plan) route
       \<and> (rm_kind route = Type_Unreachable \<or> rm_kind route = Type_Black_Hole) \<and> rm_protocol route = Protocol_Static
       \<and> (case message_prefix route of None \<Rightarrow> False | Some p \<Rightarrow> p \<in> set (np_remote_routes plan))))))"

definition linux_backend :: "kernel_host \<Rightarrow> kernel_world infra_backend_ops" where
  "linux_backend K = \<lparr>preflight = linux_preflight K, prepare_link = linux_prepare_link K,
     prepare_routes = linux_prepare_routes K, reconcile_routes = linux_reconcile_routes K,
     prepare_firewall = linux_prepare_firewall K, replace_firewall = linux_replace_firewall K,
     prepare_sysctls = linux_prepare_sysctls K, activate_link = linux_activate_link K,
     update_link_mtu = linux_update_link_mtu K, install_policy_rule = linux_install_policy_rule K,
     remove_policy_rule = linux_remove_policy_rule K, deactivate_link = linux_deactivate_link K,
     remove_firewall = linux_remove_firewall K, remove_routes = linux_remove_routes K,
     backend_withdraw_prefixes = linux_withdraw_prefixes K, remove_link = linux_remove_link K,
     restore_sysctls = linux_restore_sysctls K,
     update_live_policy = linux_update_live_policy K, discard_live_policy = linux_discard_live_policy K,
     interface_identity = linux_interface_identity K, interface_ownership_marker = linux_interface_ownership_marker K,
     stamp_infrastructure_ownership = linux_stamp_infrastructure_ownership K,
     ensure_infrastructure = linux_ensure_infrastructure K, retire_infrastructure = linux_retire_infrastructure K,
     reject_forwarding = linux_reject_forwarding K, guard_forwarding = (\<lambda>_. return ()),
     restore_forwarding = linux_restore_forwarding K,
     restore_forwarding_with_failures = linux_restore_forwarding_with_failures K,
     update_failed_forward_prefixes = linux_update_failed_forward_prefixes K,
     validate_forwarding_replacement = linux_validate_forwarding_replacement K,
     retire_forwarding = linux_retire_forwarding K, remove_stale_forwarding = linux_remove_stale_forwarding K\<rparr>"

end
