(* ===== verification/Netd_Linux_Laws.thy ===== *)
theory Netd_Linux_Laws
  imports Netd_Linux
begin

text \<open>
  What the Linux backend may ask of the kernel: requests that a declaration owns, and one rule per
  operation that shows that it sends nothing else. The calls of both backend traits are collected in
  a datatype, so that one statement covers them.
\<close>

section \<open>Owned requests\<close>

definition tun_index :: "kernel_host \<Rightarrow> u32 \<Rightarrow> bool" where
  "tun_index K index \<longleftrightarrow> (\<exists>sent. \<exists>link \<in> set (fst (kh_links K (sent @ [Get_Link CANDY_INTERFACE_NAME]))).
     link_is_tun link \<and> li_index link = index)"

definition table_name :: "u32 \<Rightarrow> string" where
  "table_name t = ''candy_sdwan_'' @ decimal (unat t)"

type_synonym nft_push = "u16 \<times> u16 \<times> attribute list"

definition batch_of :: "nft_push list \<Rightarrow> nft_batch" where
  "batch_of pushes = foldl (\<lambda>b (kind, flags, attributes). push_message kind flags attributes b) new_batch pushes"

text \<open>All messages of a batch name the table of \<open>t\<close> in their first attribute.\<close>

definition owned_batch :: "u32 \<Rightarrow> bytes \<Rightarrow> bool" where
  "owned_batch t sent \<longleftrightarrow> sent = table_dump_request \<or> (\<exists>pushes. sent = nb_bytes (finish_batch (batch_of pushes))
     \<and> (\<forall>(kind, flags, attributes) \<in> set pushes. \<exists>rest. attributes = string_attr 1 (table_name t) # rest))"

definition owned_built_route :: "kernel_host \<Rightarrow> u32 \<Rightarrow> ipv4_prefix set \<Rightarrow> built_route \<Rightarrow> bool" where
  "owned_built_route K t prefixes route \<longleftrightarrow> br_table route = t \<and> br_protocol route = Protocol_Static
     \<and> br_destination route \<in> prefixes \<and> (\<forall>index. br_output route = Some index \<longrightarrow> tun_index K index)"

definition docker_command :: "string list \<Rightarrow> bool" where
  "docker_command args \<longleftrightarrow> args = [''-w'', ''5'', ''-S'', ''DOCKER-USER'']
     \<or> (\<exists>oper direction. args = docker_rule_command oper direction)"

fun owned_request ::
    "kernel_host \<Rightarrow> u32 \<Rightarrow> ipv4_prefix set \<Rightarrow> (sysctl_key \<times> u8) set \<Rightarrow> kernel_request \<Rightarrow> bool" where
  "owned_request K t prefixes values (Set_Link change) = tun_index K (lc_index change)"
| "owned_request K t prefixes values (Del_Link index) = tun_index K index"
| "owned_request K t prefixes values (Add_Address index address plen) = (tun_index K index \<and> plen = 32)"
| "owned_request K t prefixes values (Add_Route route) = owned_built_route K t prefixes route"
| "owned_request K t prefixes values (Replace_Route route) = owned_built_route K t prefixes route"
| "owned_request K t prefixes values (Del_Built_Route route) = owned_built_route K t prefixes route"
| "owned_request K t prefixes values (Del_Route route) =
     (Rta_Table t \<in> set (rm_attributes route) \<and> rm_protocol route = Protocol_Static
      \<and> (case message_prefix route of None \<Rightarrow> False | Some p \<Rightarrow> p \<in> prefixes))"
| "owned_request K t prefixes values (Add_Rule rule) =
     (bu_table rule = t \<and> bu_priority rule = t \<and> bu_destination rule \<in> prefixes)"
| "owned_request K t prefixes values (Del_Rule rule) = (rule_priority rule = Some t \<and> rule_table rule = Some t)"
| "owned_request K t prefixes values (Sysctl_Write key value) = ((key, value) \<in> values)"
| "owned_request K t prefixes values (Nft_Send sent) = owned_batch t sent"
| "owned_request K t prefixes values (Iptables args) = docker_command args"
| "owned_request K t prefixes values (Get_Link name) = (name = CANDY_INTERFACE_NAME)"
| "owned_request K t prefixes values (Get_Routes table) = (table = t)"
| "owned_request K t prefixes values Get_Rules = True"
| "owned_request K t prefixes values (Sysctl_Exists key) = True"
| "owned_request K t prefixes values (Sysctl_Read key) = True"
| "owned_request K t prefixes values Nft_Open = True"

text \<open>A plan whose table and prefixes are owned; every compiled declaration has such a plan.\<close>

definition plan_within :: "u32 \<Rightarrow> ipv4_prefix set \<Rightarrow> linux_network_plan \<Rightarrow> bool" where
  "plan_within t prefixes plan \<longleftrightarrow> np_route_table plan = t \<and> np_policy_priority plan = t \<and> np_nft_table_name plan = table_name t
     \<and> CANDY_TABLE_MIN \<le> t \<and> set (cleanup_throw_prefixes plan) \<subseteq> prefixes"

lemma compiled_within:
  "compile d = Inr plan \<Longrightarrow> declared_prefixes d \<subseteq> S \<Longrightarrow> plan_within (table_id d) S plan"
  "compile_for_cleanup d = Inr plan \<Longrightarrow> declared_prefixes d \<subseteq> S \<Longrightarrow> plan_within (table_id d) S plan"
  using compile_table [of d plan] compile_fields_of [of d plan]
  by (auto simp: plan_within_def compile_fields_sel cleanup_covers_declaration table_name_def)

lemma within_prefixes:
  assumes "plan_within t S plan"
  shows "p \<in> set (np_remote_routes plan) \<Longrightarrow> p \<in> S" "p \<in> set (throw_prefixes plan) \<Longrightarrow> p \<in> S"
    "p \<in> set (cleanup_throw_prefixes plan) \<Longrightarrow> p \<in> S"
  using assms by (auto simp: plan_within_def set_cleanup_throw_prefixes)

lemma find_map_Some: "find_map f xs = Some y \<Longrightarrow> \<exists>x \<in> set xs. f x = Some y"
  by (induction xs) (auto split: option.splits)

lemma in_table_named: "plan_within t S plan \<Longrightarrow> in_table plan route \<Longrightarrow> Rta_Table t \<in> set (rm_attributes route)"
  using order_trans [of CANDY_TABLE_MIN t 255]
  by (auto simp: in_table_def attribute_table_def plan_within_def CANDY_TABLE_MIN_def dest!: find_map_Some split: route_attribute.splits)

section \<open>Building blocks\<close>

lemma sends_candy_tun:
  "ok (Get_Link CANDY_INTERFACE_NAME) \<Longrightarrow> sends ok (\<lambda>found. \<forall>link. found = Some link \<longrightarrow> tun_index K (li_index link)) (candy_tun K wrong)"
  unfolding candy_tun_def candy_link_def
proof (rule sends_bind)
  assume ok: "ok (Get_Link CANDY_INTERFACE_NAME)"
  let ?listed = "\<lambda>found. \<forall>link. found = Some link \<longrightarrow> (\<exists>sent. link \<in> set (fst (kh_links K (sent @ [Get_Link CANDY_INTERFACE_NAME]))))"
  show "sends ok ?listed (bind (ask_kernel (kh_links K) (Get_Link CANDY_INTERFACE_NAME)) (\<lambda>(links, stop).
     case links of
       [] \<Rightarrow> (case stop of None \<Rightarrow> return None
              | Some e \<Rightarrow> if object_missing_is_idempotent e then return None else throw Backend)
     | [link] \<Rightarrow> (case stop of None \<Rightarrow> return (Some link) | Some _ \<Rightarrow> throw Backend)
     | _ \<Rightarrow> throw Backend))"
    using ok unfolding sends_def
    by (auto simp: bind_def ask_kernel_def Let_def return_def throw_def split: list.splits option.splits prod.splits if_splits)
      (metis fst_conv list.set_intros(1))+
  show "sends ok (\<lambda>found. \<forall>link. found = Some link \<longrightarrow> tun_index K (li_index link))
      (case found of None \<Rightarrow> return None | Some link \<Rightarrow> if link_is_tun link then return (Some link) else throw wrong)"
    if "?listed found" for found
    using that by (intro sending) (auto simp: tun_index_def)
qed

lemma sends_required_tun:
  "ok (Get_Link CANDY_INTERFACE_NAME) \<Longrightarrow> sends ok (\<lambda>link. tun_index K (li_index link)) (required_tun K wrong)"
  unfolding required_tun_def by (rule sends_bind, erule sends_candy_tun) (auto intro: sending simp: ok_or_eq)

lemma sends_link_index: "ok (Get_Link CANDY_INTERFACE_NAME) \<Longrightarrow> sends ok (tun_index K) (link_index K)"
  unfolding link_index_def by (rule sends_bind, erule sends_required_tun) (simp add: sends_return)

text \<open>Operations that bind the link or a plan know what they got; these rules come before the plain ones.\<close>

named_theorems linking

lemma sends_with_link [linking]:
  "ok (Get_Link CANDY_INTERFACE_NAME) \<Longrightarrow> (\<And>index. tun_index K index \<Longrightarrow> sends ok R (f index)) \<Longrightarrow> sends ok R (bind (link_index K) f)"
  "ok (Get_Link CANDY_INTERFACE_NAME) \<Longrightarrow> (\<And>link. tun_index K (li_index link) \<Longrightarrow> sends ok R (g link)) \<Longrightarrow> sends ok R (bind (required_tun K wrong) g)"
  "ok (Get_Link CANDY_INTERFACE_NAME) \<Longrightarrow> (\<And>found. (\<And>link. found = Some link \<Longrightarrow> tun_index K (li_index link)) \<Longrightarrow> sends ok R (h found))
    \<Longrightarrow> sends ok R (bind (candy_tun K wrong) h)"
  by (rule sends_bind, erule sends_link_index sends_required_tun sends_candy_tun, blast)+

lemma sends_with_plan [linking]:
  "(\<And>plan. compiled = Inr plan \<Longrightarrow> sends ok R (act plan)) \<Longrightarrow> sends ok R (with_plan compiled act)"
  unfolding with_plan_def by (rule sends_bind [OF sends_of_result]) auto

lemma sends_end_of_dump [sending]: "sends_only ok (end_of_dump stop)"
  unfolding end_of_dump_def by (intro sending TrueI)

lemma sends_iptables [sending]: "ok (Iptables args) \<Longrightarrow> sends_only ok (iptables_status args)"
  by (auto simp: sends_def iptables_status_def split: list.splits iptables_answer.splits)

text \<open>From here on the requests are those a declaration owns.\<close>

lemma owned_gets [simp]:
  "plan_within t S plan \<Longrightarrow> sends_only (owned_request K t S C) (list_routes K plan)"
  "sends_only (owned_request K t S C) (list_rules K)"
  "sends_only (owned_request K t S C) (sysctl_exists K key)"
  "sends_only (owned_request K t S C) (candy_tun K wrong)"
proof -
  show "sends_only (owned_request K t S C) (candy_tun K wrong)" by (rule sends_mono [OF sends_candy_tun]) simp_all
qed (simp_all add: list_routes_def list_rules_def sysctl_exists_def plan_within_def sends_request)

lemma owned_routes:
  assumes "plan_within t S plan" "p \<in> S"
  shows "owned_built_route K t S (throw_route plan p)" "owned_built_route K t S (unreachable_route plan p)"
    "tun_index K index \<Longrightarrow> owned_built_route K t S (bare_link_route plan index p)"
    "tun_index K index \<Longrightarrow> owned_built_route K t S (link_route plan index p)"
  using assms by (simp_all add: owned_built_route_def plan_within_def throw_route_def unreachable_route_def bare_link_route_def
      link_route_def plain_route_def)

lemma owned_policy_rule:
  "plan_within t S plan \<Longrightarrow> sel \<in> set (policy_selectors plan) \<Longrightarrow> sends_only (owned_request K t S C) (add_policy_rule K plan sel)"
  unfolding add_policy_rule_def
  by (rule sends_tolerated) (cases sel; auto simp: policy_rule_def plan_within_def set_cleanup_throw_prefixes dest: selectors_declared)

section \<open>Routes and rules\<close>

lemma sends_route_conflict: "plan_within t S plan \<Longrightarrow> sends_only (owned_request K t S C) (route_conflict K plan)"
  unfolding route_conflict_def by ((rule linking sending | (simp; fail))+)

lemma sends_rules_conflict: "sends_only (owned_request K t S C) (rules_conflict K plan)"
  unfolding rules_conflict_def by ((rule linking sending | (simp; fail))+)

lemma sends_add_routes: "plan_within t S plan \<Longrightarrow> sends_only (owned_request K t S C) (add_routes K plan)"
  unfolding add_routes_def
  by ((rule linking sending | (simp add: owned_routes within_prefixes; fail))+)

lemma sends_delete_listed:
  assumes "plan_within t S plan" "\<And>route. doomed route \<Longrightarrow> owned_request K t S C (Del_Route route)"
  shows "sends_only (owned_request K t S C) (delete_listed K plan doomed)"
  unfolding delete_listed_def by ((rule linking sending | (simp add: assms del: owned_request.simps; fail))+)

lemma sends_delete_routes: "plan_within t S plan \<Longrightarrow> sends_only (owned_request K t S C) (delete_routes K plan)"
  unfolding delete_routes_def route_cleanup_targets_def Let_def case_prod_conv
  by ((rule linking sending sends_delete_listed | (auto simp: owned_routes within_prefixes cleanup_route_def in_table_named
      split: option.splits if_splits; fail))+)

lemma listing_owned:
  "(route, p) \<in> set (owned_listing plan found) \<Longrightarrow> in_table plan route \<and> rm_protocol route = Protocol_Static \<and> message_prefix route = Some p"
  by (auto simp: owned_listing_def map_filter_def split: if_splits)

lemma sends_reconcile_routes:
  assumes "plan_within t S plan" "set failed \<subseteq> S"
  shows "sends_only (owned_request K t S C) (kernel_reconcile_routes K plan failed)"
proof -
  have stale: "p \<in> S" if "stale_route plan index (filter (\<lambda>p. p \<notin> set failed) (np_remote_routes plan)) (throw_prefixes plan @ failed) route p"
    for index route p
    using that assms by (auto simp: stale_route_def within_prefixes split: if_splits)
  show ?thesis
    unfolding kernel_reconcile_routes_def Let_def
    by ((rule linking sending | (use assms in \<open>auto simp: owned_routes within_prefixes in_table_named dest!: listing_owned stale\<close>; fail))+)
qed

lemma sends_find_rules: "sends_only (owned_request K t S C) (find_policy_rules K plan)"
  unfolding find_policy_rules_def by ((rule linking sending | (simp; fail))+)

lemma sends_with_rules [linking]:
  assumes "\<And>rules. list_all (owned_rule plan) rules \<Longrightarrow> sends (owned_request K t S C) R (f rules)"
  shows "sends (owned_request K t S C) R (bind (find_policy_rules K plan) f)"
proof (rule sends_bind)
  show "sends (owned_request K t S C) (list_all (owned_rule plan)) (find_policy_rules K plan)"
    unfolding find_policy_rules_def
    by ((rule linking sending | (simp add: list_all_iff; fail))+)
qed (rule assms)

lemma sort_rules_stale: "set (snd (sort_rules expected present rules)) \<subseteq> set rules"
  by (induction rules arbitrary: present) (auto split: option.split dest: subsetD)

lemma sends_reconcile_rules:
  assumes "plan_within t S plan"
  shows "sends_only (owned_request K t S C) (reconcile_policy_rules K plan)"
proof -
  have stale: "owned_request K t S C (Del_Rule rule)"
    if "list_all (owned_rule plan) rules" "sort_rules expected [] rules = (present, stale)" "rule \<in> set stale"
    for rules expected present stale rule
    using that sort_rules_stale [of expected "[]" rules] assms by (auto simp: list_all_iff owned_rule_def plan_within_def)
  show ?thesis
    unfolding reconcile_policy_rules_def Let_def
    by ((rule linking sending | (auto simp: owned_policy_rule assms; fail) | (erule (2) stale))+)
qed

lemma sends_delete_rules:
  "plan_within t S plan \<Longrightarrow> list_all (owned_rule plan) rules \<Longrightarrow> sends_only (owned_request K t S C) (delete_rules K rules)"
  by (induction rules) (auto intro!: sending simp: owned_rule_def plan_within_def)

section \<open>Firewall and sysctls\<close>

lemma batch_of_snoc: "push_message kind flags attributes (batch_of pushes) = batch_of (pushes @ [(kind, flags, attributes)])"
  by (simp add: batch_of_def)

lemma append_firewall_batch:
  "append_firewall_rules plan clamp (batch_of pushes)
     = batch_of (pushes @ map (\<lambda>(oper, attributes). (nft_type oper, create_flags, attributes)) (firewall_messages plan clamp))"
proof -
  have "foldl (\<lambda>b (oper, attributes). push_message (nft_type oper) create_flags attributes b) (batch_of pushes) ms
      = batch_of (pushes @ map (\<lambda>(oper, attributes). (nft_type oper, create_flags, attributes)) ms)" for ms
    by (induction ms arbitrary: pushes) (auto simp: batch_of_snoc)
  then show ?thesis by (simp add: append_firewall_rules_def)
qed

lemma new_batch_of: "new_batch = batch_of []"
  by (simp add: batch_of_def)

lemma firewall_names_table:
  "plan_within t S plan \<Longrightarrow> (oper, attributes) \<in> set (firewall_messages plan clamp) \<Longrightarrow> \<exists>rest. attributes = string_attr 1 (table_name t) # rest"
  by (auto simp: firewall_messages_def base_chain_def interface_accept_rule_def identity_snat_rule_def remote_egress_masquerade_rule_def
      tcp_mss_clamp_rule_def rule_in_def plan_within_def split: if_splits)

lemma owned_firewall_batch:
  assumes "plan_within t S plan"
  shows "owned_batch t (nb_bytes (finish_batch (append_firewall_rules plan clamp new_batch)))"
    and "owned_batch t (nb_bytes (finish_batch (append_firewall_rules plan clamp (push_delete_table plan new_batch))))"
    and "owned_batch t (nb_bytes (finish_batch (push_delete_table plan new_batch)))"
proof -
  have named: "\<exists>rest. attributes = string_attr 1 (table_name t) # rest" if "(oper, attributes) \<in> set (firewall_messages plan clamp)" for oper attributes
    using firewall_names_table [OF assms that] .
  have name: "np_nft_table_name plan = table_name t" using assms by (simp add: plan_within_def)
  note batch = new_batch_of push_delete_table_def batch_of_snoc append_firewall_batch
  show "owned_batch t (nb_bytes (finish_batch (append_firewall_rules plan clamp new_batch)))"
    unfolding owned_batch_def batch by (intro disjI2 exI conjI, rule refl) (auto dest: named)
  show "owned_batch t (nb_bytes (finish_batch (append_firewall_rules plan clamp (push_delete_table plan new_batch))))"
    unfolding owned_batch_def batch name by (intro disjI2 exI conjI, rule refl) (auto dest: named)
  show "owned_batch t (nb_bytes (finish_batch (push_delete_table plan new_batch)))"
    unfolding owned_batch_def batch name by (intro disjI2 exI conjI, rule refl) auto
qed

lemma sends_table_state: "sends_only (owned_request K t S C) (owned_table_state K plan)"
  unfolding owned_table_state_def
  by ((rule linking sending | (simp add: owned_batch_def; fail))+)

lemma sends_open_nft: "sends_only (owned_request K t S C) (open_nft_socket K)"
  unfolding open_nft_socket_def by ((rule linking sending | (simp; fail))+)

lemma sends_batch: "owned_batch t (nb_bytes (finish_batch b)) \<Longrightarrow> sends_only (owned_request K t S C) (send_batch K b)"
  unfolding send_batch_def Let_def by ((rule linking sending | (simp; fail))+)

lemma docker_commands [simp]:
  "docker_command (docker_rule_command oper direction)" "docker_command [''-w'', ''5'', ''-S'', ''DOCKER-USER'']"
  by (auto simp: docker_command_def)

lemma sends_docker:
  "sends_only (owned_request K t S C) stage_docker_forward_compatibility"
  "sends_only (owned_request K t S C) remove_docker_forward_compatibility"
proof -
  have loop: "sends_only (owned_request K t S C) (delete_docker_rules n direction)" for n direction
    by (induction n) ((simp, (rule sending | (simp; fail))+)+)
  have remove: "sends_only (owned_request K t S C) (remove_docker_direction direction)" for direction
    using loop unfolding sends_def remove_docker_direction_def by fastforce
  show "sends_only (owned_request K t S C) remove_docker_forward_compatibility"
    unfolding remove_docker_forward_compatibility_def docker_chain_present_def by ((rule sending remove | (simp; fail))+)
  show "sends_only (owned_request K t S C) stage_docker_forward_compatibility"
    unfolding stage_docker_forward_compatibility_def docker_chain_present_def stage_docker_direction_def by ((rule sending | (simp; fail))+)
qed

lemmas firewall_sending = sends_table_state sends_open_nft sends_batch sends_docker

lemma sends_firewall:
  assumes "plan_within t S plan"
  shows "sends_only (owned_request K t S C) (preflight_nft K plan)"
    and "sends_only (owned_request K t S C) (stage_firewall K plan allow clamp)"
    and "sends_only (owned_request K t S C) (nft_replace_firewall K plan allow clamp)"
    and "sends_only (owned_request K t S C) (nft_remove_firewall K plan)"
  unfolding preflight_nft_def stage_firewall_def nft_replace_firewall_def nft_remove_firewall_def
proof -
  show "sends_only (owned_request K t S C) (andthen remove_docker_forward_compatibility
     (andthen (open_nft_socket K) (bind (owned_table_state K plan) (\<lambda>state. case state of
        Table_Absent \<Rightarrow> return () | Table_Candy \<Rightarrow> send_batch K (push_delete_table plan new_batch) | Table_Foreign \<Rightarrow> throw Backend))))"
    by (intro sends_andthen sends_bind_plain firewall_sending) (auto split: owned_table.split intro: sending firewall_sending owned_firewall_batch [OF assms])
qed ((rule firewall_sending owned_firewall_batch [OF assms] sending | (simp; fail))+)

lemma sends_write_sysctl: "(key, value) \<in> C \<Longrightarrow> sends_only (owned_request K t S C) (write_sysctl K key value)"
  unfolding write_sysctl_def by ((rule sending | (simp; fail))+)

lemma sends_read_sysctl: "sends_only (owned_request K t S C) (read_sysctl_path K key clean)"
  unfolding read_sysctl_path_def
  by (rule sends_bind_plain) (auto split: sysctl_text.split intro: sending)

lemma sends_push_change: "sends_only (owned_request K t S C) (push_change K key value changes)"
  unfolding push_change_def read_sysctl_def by ((rule sending sends_read_sysctl | (simp; fail))+)

lemma sends_snapshot: "sends_only (owned_request K t S C) (snapshot_sysctls K d)"
  unfolding snapshot_sysctls_def by ((rule sending sends_push_change | (simp; fail))+)

section \<open>The calls of both traits\<close>

datatype backend_call =
    Call_Preflight prepare_declaration
  | Call_Prepare_Link prepare_declaration
  | Call_Prepare_Routes prepare_declaration
  | Call_Reconcile_Routes prepare_declaration "ipv4_prefix list"
  | Call_Prepare_Firewall prepare_declaration
  | Call_Replace_Firewall prepare_declaration prepare_declaration
  | Call_Prepare_Sysctls prepare_declaration "sysctl_change list"
  | Call_Activate_Link prepare_declaration
  | Call_Update_Link_Mtu prepare_declaration u16
  | Call_Install_Policy_Rule prepare_declaration
  | Call_Remove_Policy_Rule prepare_declaration
  | Call_Deactivate_Link prepare_declaration
  | Call_Remove_Firewall prepare_declaration
  | Call_Remove_Routes prepare_declaration
  | Call_Withdraw_Prefixes prepare_declaration "ipv4_prefix list"
  | Call_Remove_Link prepare_declaration
  | Call_Restore_Sysctls prepare_declaration "sysctl_change list"
  | Call_Update_Live_Policy prepare_declaration prepare_declaration "ipv4_prefix list"
  | Call_Discard_Live_Policy prepare_declaration prepare_declaration
  | Call_Stamp_Ownership string
  | Call_Ensure_Infrastructure infra_spec
  | Call_Retire_Infrastructure
  | Call_Reject_Forwarding prepare_declaration
  | Call_Guard_Forwarding prepare_declaration
  | Call_Restore_Forwarding prepare_declaration
  | Call_Restore_Forwarding_With_Failures prepare_declaration "ipv4_prefix list"
  | Call_Update_Failed_Forward_Prefixes prepare_declaration "ipv4_prefix list" "ipv4_prefix list"
  | Call_Validate_Forwarding_Replacement prepare_declaration prepare_declaration
  | Call_Retire_Forwarding prepare_declaration
  | Call_Remove_Stale_Forwarding prepare_declaration prepare_declaration

definition ignore_result :: "('s, 'e, 'a) action \<Rightarrow> ('s, 'e, unit) action" where
  "ignore_result m = bind m (\<lambda>_. return ())"

fun run_call :: "'b infra_backend_ops \<Rightarrow> backend_call \<Rightarrow> ('b, unit) net_action" where
  "run_call B (Call_Preflight d) = ignore_result (preflight B d)"
| "run_call B (Call_Prepare_Link d) = prepare_link B d"
| "run_call B (Call_Prepare_Routes d) = prepare_routes B d"
| "run_call B (Call_Reconcile_Routes d failed) = reconcile_routes B d failed"
| "run_call B (Call_Prepare_Firewall d) = prepare_firewall B d"
| "run_call B (Call_Replace_Firewall previous d) = replace_firewall B previous d"
| "run_call B (Call_Prepare_Sysctls d changes) = prepare_sysctls B d changes"
| "run_call B (Call_Activate_Link d) = activate_link B d"
| "run_call B (Call_Update_Link_Mtu d mtu) = update_link_mtu B d mtu"
| "run_call B (Call_Install_Policy_Rule d) = install_policy_rule B d"
| "run_call B (Call_Remove_Policy_Rule d) = remove_policy_rule B d"
| "run_call B (Call_Deactivate_Link d) = deactivate_link B d"
| "run_call B (Call_Remove_Firewall d) = remove_firewall B d"
| "run_call B (Call_Remove_Routes d) = remove_routes B d"
| "run_call B (Call_Withdraw_Prefixes d prefixes) = backend_withdraw_prefixes B d prefixes"
| "run_call B (Call_Remove_Link d) = remove_link B d"
| "run_call B (Call_Restore_Sysctls d changes) = restore_sysctls B d changes"
| "run_call B (Call_Update_Live_Policy previous d failed) = update_live_policy B previous d failed"
| "run_call B (Call_Discard_Live_Policy previous d) = discard_live_policy B previous d"
| "run_call B (Call_Stamp_Ownership marker) = stamp_infrastructure_ownership B marker"
| "run_call B (Call_Ensure_Infrastructure sp) = ignore_result (ensure_infrastructure B sp)"
| "run_call B Call_Retire_Infrastructure = retire_infrastructure B"
| "run_call B (Call_Reject_Forwarding d) = reject_forwarding B d"
| "run_call B (Call_Guard_Forwarding d) = guard_forwarding B d"
| "run_call B (Call_Restore_Forwarding d) = restore_forwarding B d"
| "run_call B (Call_Restore_Forwarding_With_Failures d failed) = restore_forwarding_with_failures B d failed"
| "run_call B (Call_Update_Failed_Forward_Prefixes d previous failed) = update_failed_forward_prefixes B d previous failed"
| "run_call B (Call_Validate_Forwarding_Replacement previous d) = validate_forwarding_replacement B previous d"
| "run_call B (Call_Retire_Forwarding d) = retire_forwarding B d"
| "run_call B (Call_Remove_Stale_Forwarding old d) = remove_stale_forwarding B old d"

text \<open>What a call may touch: the tables and prefixes of its declarations, prefixes it names, values of its sysctls.\<close>

fun call_declarations :: "backend_call \<Rightarrow> prepare_declaration list" where
  "call_declarations (Call_Replace_Firewall previous d) = [d]"
| "call_declarations (Call_Update_Live_Policy previous d failed) = [d, previous]"
| "call_declarations (Call_Discard_Live_Policy previous d) = [previous, d]"
| "call_declarations (Call_Validate_Forwarding_Replacement previous d) = [previous]"
| "call_declarations (Call_Remove_Stale_Forwarding old d) = [old]"
| "call_declarations (Call_Stamp_Ownership marker) = []"
| "call_declarations (Call_Ensure_Infrastructure sp) = []"
| "call_declarations Call_Retire_Infrastructure = []"
| "call_declarations (Call_Preflight d) = [d]"
| "call_declarations (Call_Prepare_Link d) = [d]"
| "call_declarations (Call_Prepare_Routes d) = [d]"
| "call_declarations (Call_Reconcile_Routes d failed) = [d]"
| "call_declarations (Call_Prepare_Firewall d) = [d]"
| "call_declarations (Call_Prepare_Sysctls d changes) = [d]"
| "call_declarations (Call_Activate_Link d) = [d]"
| "call_declarations (Call_Update_Link_Mtu d mtu) = [d]"
| "call_declarations (Call_Install_Policy_Rule d) = [d]"
| "call_declarations (Call_Remove_Policy_Rule d) = [d]"
| "call_declarations (Call_Deactivate_Link d) = [d]"
| "call_declarations (Call_Remove_Firewall d) = [d]"
| "call_declarations (Call_Remove_Routes d) = [d]"
| "call_declarations (Call_Withdraw_Prefixes d prefixes) = [d]"
| "call_declarations (Call_Remove_Link d) = [d]"
| "call_declarations (Call_Restore_Sysctls d changes) = [d]"
| "call_declarations (Call_Reject_Forwarding d) = [d]"
| "call_declarations (Call_Guard_Forwarding d) = [d]"
| "call_declarations (Call_Restore_Forwarding d) = [d]"
| "call_declarations (Call_Restore_Forwarding_With_Failures d failed) = [d]"
| "call_declarations (Call_Update_Failed_Forward_Prefixes d previous failed) = [d]"
| "call_declarations (Call_Retire_Forwarding d) = [d]"

fun call_prefixes :: "backend_call \<Rightarrow> ipv4_prefix set" where
  "call_prefixes (Call_Reconcile_Routes d failed) = set failed"
| "call_prefixes (Call_Withdraw_Prefixes d prefixes) = set prefixes"
| "call_prefixes call = {}"

fun call_values :: "backend_call \<Rightarrow> (sysctl_key \<times> u8) set" where
  "call_values (Call_Prepare_Sysctls d changes) = (\<lambda>c. (sysctl_key c, applied c)) ` set changes"
| "call_values (Call_Restore_Sysctls d changes) = (\<lambda>c. (sysctl_key c, original c)) ` set changes"
| "call_values (Call_Ensure_Infrastructure sp) = {(CandyDisableIpv6, 1)}"
| "call_values call = {}"

text \<open>A request is owned by a call when it needs no table at all, or when one of its declarations owns it.\<close>

definition owned_by_call :: "kernel_host \<Rightarrow> backend_call \<Rightarrow> kernel_request \<Rightarrow> bool" where
  "owned_by_call K call q \<longleftrightarrow> (\<forall>t. owned_request K t {} (call_values call) q)
     \<or> (\<exists>d \<in> set (call_declarations call). owned_request K (table_id d) (declared_prefixes d \<union> call_prefixes call) (call_values call) q)"

end
