(* ===== verification/Netd_Linux_Properties.thy ===== *)
theory Netd_Linux_Properties
  imports Netd_Linux_Laws "HOL-Library.Multiset"
begin

text \<open>
  Properties of the Linux backend: whatever the kernel answers, it asks only for changes of the state
  its declarations own; a changed prefix is guarded before any other is opened; the policy rules end up
  being the selectors of the plan.
\<close>

section \<open>Confinement of each operation\<close>

lemma confined_preflight:
  assumes S: "declared_prefixes d \<subseteq> S"
  shows "sends_only (owned_request K (table_id d) S C) (linux_preflight K d)"
proof (unfold linux_preflight_def, rule sends_with_plan)
  fix plan assume "compile d = Inr plan"
  then have within: "plan_within (table_id d) S plan" by (rule compiled_within [OF _ S])
  note parts = sends_firewall [OF within] sends_rules_conflict sends_route_conflict [OF within] sends_snapshot owned_gets(4)
  show "sends_only (owned_request K (table_id d) S C) (andthen (preflight_nft K plan)
     (bind (rules_conflict K plan) (\<lambda>rules. bind (if rules then return True else route_conflict K plan) (\<lambda>conflict.
     if conflict then throw Backend else andthen (candy_tun K Backend) (snapshot_sysctls K d)))))"
    by ((rule parts sending | (simp; fail))+)
qed

lemma confined_plan:
  assumes S: "declared_prefixes d \<subseteq> S" and failed: "set failed \<subseteq> S"
  shows "sends_only (owned_request K (table_id d) S C) (linux_prepare_routes K d)"
    and "sends_only (owned_request K (table_id d) S C) (linux_reconcile_routes K d failed)"
    and "sends_only (owned_request K (table_id d) S C) (linux_prepare_firewall K d)"
    and "sends_only (owned_request K (table_id d) S C) (linux_replace_firewall K previous d)"
    and "sends_only (owned_request K (table_id d) S C) (linux_install_policy_rule K d)"
    and "sends_only (owned_request K (table_id d) S C) (linux_remove_firewall K d)"
    and "sends_only (owned_request K (table_id d) S C) (linux_remove_routes K d)"
  unfolding linux_prepare_routes_def linux_reconcile_routes_def linux_prepare_firewall_def linux_replace_firewall_def
    linux_install_policy_rule_def linux_remove_firewall_def linux_remove_routes_def
  by (rule sends_with_plan, drule compiled_within [OF _ S],
    blast intro: sends_add_routes sends_reconcile_routes [OF _ failed] sends_firewall sends_reconcile_rules sends_delete_routes)+

lemma confined_prepare_link:
  "sends_only (owned_request K t S C) (linux_prepare_link K d)"
  unfolding linux_prepare_link_def add_overlay_address_def
  by ((rule linking sending | (simp add: unchanged_link_def; fail))+)

lemma confined_remove_policy_rule:
  assumes S: "declared_prefixes d \<subseteq> S"
  shows "sends_only (owned_request K (table_id d) S C) (linux_remove_policy_rule K d)"
  unfolding linux_remove_policy_rule_def
  by ((rule linking sending sends_delete_rules | (erule compiled_within [OF _ S]) | (simp; fail))+)

lemma scoped_declared: "declared_prefixes (d\<lparr>routes := filter P (routes d)\<rparr>) \<subseteq> declared_prefixes d"
  by (auto simp: declared_prefixes_def)

lemma confined_withdraw:
  assumes S: "declared_prefixes d \<subseteq> S" "set prefixes \<subseteq> S"
  shows "sends_only (owned_request K (table_id d) S C) (linux_withdraw_prefixes K d prefixes)"
proof -
  let ?scoped = "d\<lparr>routes := filter (\<lambda>r. route_prefix r \<in> set prefixes) (routes d)\<rparr>"
  have within: "plan_within (table_id d) S plan" if "compile ?scoped = Inr plan" for plan
    using compiled_within(1) [OF that, of S] scoped_declared S(1) by fastforce
  show ?thesis
    unfolding linux_withdraw_prefixes_def Let_def
    by ((rule linking sending sends_delete_routes within | assumption | (use S in \<open>auto simp: owned_routes within\<close>; fail))+)
qed

lemma confined_apply:
  assumes S: "declared_prefixes d \<subseteq> S"
  shows "sends_only (owned_request K (table_id d) S C) (apply_v2_forward_routes K d failed changed)"
  unfolding apply_v2_forward_routes_def
proof (rule sends_with_plan)
  fix plan assume "compile d = Inr plan"
  then have within: "plan_within (table_id d) S plan" by (rule compiled_within [OF _ S])
  show "sends_only (owned_request K (table_id d) S C) (bind (link_index K) (\<lambda>index.
     andthen (for_each (\<lambda>p. required K (Replace_Route
         (if p \<in> set failed then unreachable_route plan p else link_route plan index p)))
       (filter (\<lambda>p. case changed of None \<Rightarrow> True | Some ps \<Rightarrow> p \<in> set ps) (np_remote_routes plan)))
     (if changed \<noteq> None then return ()
      else andthen (for_each (\<lambda>p. required K (Replace_Route (throw_route plan p))) (throw_prefixes plan))
        (reconcile_policy_rules K plan))))"
    by ((rule linking sending sends_reconcile_rules | (rule within)
      | (simp add: owned_routes [OF within] within_prefixes [OF within]; fail))+)
qed

lemma confined_stale:
  assumes S: "declared_prefixes old \<subseteq> S"
  shows "sends_only (owned_request K (table_id old) S C) (linux_remove_stale_forwarding K old retained)"
proof (unfold linux_remove_stale_forwarding_def Let_def, rule sends_with_plan, rule sends_with_plan)
  fix old_plan retained_plan assume "compile old = Inr old_plan" "compile retained = Inr retained_plan"
  then have within: "plan_within (table_id old) S old_plan" using compiled_within(1) [OF _ S] by blast
  then have "np_route_table old_plan = table_id old" by (simp add: plan_within_def)
  then show "sends_only (owned_request K (table_id old) S C) (if np_route_table old_plan \<noteq> np_route_table retained_plan then throw Backend
     else delete_listed K old_plan (\<lambda>route. names_table (np_route_table old_plan) route \<and> rm_protocol route = Protocol_Static
         \<and> (case message_prefix route of None \<Rightarrow> False
            | Some p \<Rightarrow> p \<in> set (filter (\<lambda>p. p \<notin> set (cleanup_throw_prefixes retained_plan)) (cleanup_throw_prefixes old_plan)))))"
    by (intro sends_if sends_throw sends_delete_listed within)
      (auto simp: names_table_def within_prefixes [OF within] split: option.splits)
qed

lemma confined_reject:
  assumes S: "declared_prefixes d \<subseteq> S"
  shows "sends_only (owned_request K (table_id d) S C) (linux_reject_forwarding K d)"
proof (unfold linux_reject_forwarding_def, rule sends_with_plan)
  fix plan assume "compile d = Inr plan"
  then have within: "plan_within (table_id d) S plan" by (rule compiled_within [OF _ S])
  show "sends_only (owned_request K (table_id d) S C)
     (andthen (for_each (\<lambda>p. required K (Replace_Route (unreachable_route plan p))) (np_remote_routes plan))
     (andthen (for_each (\<lambda>p. required K (Replace_Route (throw_route plan p))) (throw_prefixes plan))
       (for_each (add_policy_rule K plan) (policy_selectors plan))))"
    by ((rule sending owned_policy_rule | (rule within) | assumption
      | (simp add: owned_routes [OF within] within_prefixes [OF within]; fail))+)
qed

lemma confined_validate:
  assumes S: "declared_prefixes previous \<subseteq> S"
  shows "sends_only (owned_request K (table_id previous) S C) (linux_validate_forwarding_replacement K previous d)"
proof (unfold linux_validate_forwarding_replacement_def, rule sends_with_plan, rule sends_with_plan)
  fix old_plan new_plan assume "compile previous = Inr old_plan" "compile d = Inr new_plan"
  then have within: "plan_within (table_id previous) S old_plan" using compiled_within(1) [OF _ S] by blast
  show "sends_only (owned_request K (table_id previous) S C) (if np_route_table old_plan \<noteq> np_route_table new_plan then throw Backend
     else bind (link_index K) (\<lambda>index. bind (list_routes K old_plan) (\<lambda>(found, stop).
       if \<not> list_all (replacement_route_ok old_plan index) found then throw Backend
       else andthen (end_of_dump stop) (bind (list_rules K) (\<lambda>(rules, stop).
         if \<not> list_all (replacement_rule_ok old_plan) rules then throw Backend
         else end_of_dump stop)))))"
    by ((rule linking sending owned_gets(1) [OF within] owned_gets(2) | (simp; fail))+)
qed

lemma confined_retire:
  assumes S: "declared_prefixes d \<subseteq> S"
  shows "sends_only (owned_request K (table_id d) S C) (linux_retire_forwarding K d)"
proof (unfold linux_retire_forwarding_def, intro sends_andthen confined_remove_policy_rule [OF S] sends_with_plan)
  show "sends_only (owned_request K (table_id d) S C) (linux_remove_routes K d)" by (rule confined_plan(7) [OF S, where failed = "[]"]) simp
next
  fix plan assume "compile d = Inr plan"
  then have within: "plan_within (table_id d) S plan" by (rule compiled_within [OF _ S])
  show "sends_only (owned_request K (table_id d) S C) (delete_listed K plan (\<lambda>route. names_table (np_route_table plan) route
       \<and> (rm_kind route = Type_Unreachable \<or> rm_kind route = Type_Black_Hole) \<and> rm_protocol route = Protocol_Static
       \<and> (case message_prefix route of None \<Rightarrow> False | Some p \<Rightarrow> p \<in> set (np_remote_routes plan))))"
    using within by (intro sends_delete_listed within)
      (auto simp: names_table_def plan_within_def within_prefixes [OF within] split: option.splits)
qed

text \<open>Calls that touch only the link or sysctls need no table.\<close>

lemma confined_links:
  fixes K C
  defines "ok \<equiv> \<lambda>q. \<forall>t. owned_request K t {} C q"
  shows "sends_only ok (linux_activate_link K d)" "sends_only ok (linux_update_link_mtu K d mtu)"
    and "sends_only ok (linux_deactivate_link K d)" "sends_only ok (delete_candy_link K wrong)"
    and "sends_only ok (linux_stamp_infrastructure_ownership K marker)"
    and "(CandyDisableIpv6, 1) \<in> C \<Longrightarrow> sends_only ok (linux_ensure_infrastructure K sp)"
    and "sends_only ok (linux_prepare_link K d)"
    and "(\<And>c. c \<in> set changes \<Longrightarrow> (sysctl_key c, applied c) \<in> C) \<Longrightarrow> sends_only ok (linux_prepare_sysctls K d changes)"
    and "(\<And>c. c \<in> set changes \<Longrightarrow> (sysctl_key c, original c) \<in> C) \<Longrightarrow> sends_only ok (linux_restore_sysctls K d changes)"
  unfolding linux_activate_link_def linux_update_link_mtu_def linux_deactivate_link_def delete_candy_link_def
    linux_stamp_infrastructure_ownership_def linux_ensure_infrastructure_def linux_prepare_sysctls_def linux_restore_sysctls_def
    linux_prepare_link_def write_sysctl_def sysctl_exists_def add_overlay_address_def
    read_sysctl_for_restore_def read_sysctl_path_def
  by ((rule linking sending | (simp add: ok_def unchanged_link_def; fail) | (auto split: sysctl_text.split intro: sending; fail))+)

lemma declared_call:
  assumes "d \<in> set (call_declarations call)"
    and "sends_only (owned_request K (table_id d) (declared_prefixes d \<union> call_prefixes call) (call_values call)) m"
  shows "sends_only (owned_by_call K call) m"
  using assms(2) by (rule sends_mono) (use assms(1) in \<open>auto simp: owned_by_call_def\<close>)

lemma undeclared_call:
  "sends_only (\<lambda>q. \<forall>t. owned_request K t {} (call_values call) q) m \<Longrightarrow> sends_only (owned_by_call K call) m"
  by (erule sends_mono) (simp_all add: owned_by_call_def)

lemma subset_of_scope:
  "declared_prefixes d \<subseteq> declared_prefixes d \<union> X" "set [] \<subseteq> declared_prefixes d \<union> X" "set ps \<subseteq> declared_prefixes d \<union> set ps"
  by auto

lemmas confined_plain = confined_preflight confined_plan(1,3-7) [where failed = "[]"] confined_plan(2) confined_remove_policy_rule
  confined_withdraw confined_apply confined_stale confined_reject confined_validate confined_retire

lemma confined_parts:
  assumes "d \<in> set (call_declarations call)"
  shows "sends_only (owned_by_call K call) (apply_v2_forward_routes K d failed changed)"
    and "sends_only (owned_by_call K call) (linux_remove_stale_forwarding K d retained)"
    and "sends_only (owned_by_call K call) (linux_replace_firewall K previous d)"
  by (rule declared_call [OF assms], rule confined_plain, (rule subset_of_scope)+)+

lemma confined_calls: "sends_only (owned_by_call K call) (run_call (linux_backend K) call)"
  by (cases call; simp add: linux_backend_def ignore_result_def linux_update_live_policy_def linux_discard_live_policy_def
        linux_update_failed_forward_prefixes_def linux_remove_link_def linux_retire_infrastructure_def
        linux_restore_forwarding_def linux_restore_forwarding_with_failures_def Let_def
        cong: option.case_cong sum.case_cong;
      (rule sending sends_with_plan TrueI
        | (rule confined_parts; simp; fail)
        | (rule undeclared_call, rule confined_links; simp; fail)
        | (rule declared_call, (simp; fail), rule confined_plain; simp; fail)
        | (simp; fail))+)


section \<open>Guards before recovery\<close>

lemma required_ok: "required K q w = (Inr u, w') \<Longrightarrow> kw_sent w' = kw_sent w @ [q]"
  by (auto simp: required_def tolerated_def ask_kernel_def bind_def Let_def return_def throw_def split: option.splits)

lemma for_each_required: "for_each (\<lambda>x. required K (q x)) xs w = (Inr u, w') \<Longrightarrow> kw_sent w' = kw_sent w @ map q xs"
proof (induction xs arbitrary: w)
  case (Cons x xs)
  then obtain w1 where "required K (q x) w = (Inr (), w1)" "for_each (\<lambda>x. required K (q x)) xs w1 = (Inr u, w')"
    by (auto simp: andthen_eq)
  with Cons.IH show ?case by (simp add: required_ok)
qed (simp add: return_def)

lemma link_index_sent: "link_index K w = (Inr index, w') \<Longrightarrow> kw_sent w' = kw_sent w @ [Get_Link CANDY_INTERFACE_NAME]"
  by (auto simp: link_index_def required_tun_def candy_tun_def candy_link_def ask_kernel_def bind_def Let_def return_def
      throw_def of_result_def ok_or_def split: list.splits option.splits prod.splits if_splits sum.splits)

text \<open>A pass over the changed prefixes: guarded ones are only ever made unreachable, and all are if it succeeds.\<close>

lemma route_outputs [simp]:
  "br_output (unreachable_route plan p) = None" "br_output (throw_route plan p) = None"
  "br_destination (link_route plan index p) = p"
  by (simp_all add: unreachable_route_def throw_route_def link_route_def bare_link_route_def plain_route_def)

lemma pass_sends:
  assumes plan: "compile d = Inr plan" and run: "apply_v2_forward_routes K d failed (Some changed) w = (r, w')"
  shows "\<exists>sent. kw_sent w' = kw_sent w @ sent
    \<and> list_all (\<lambda>q. \<forall>route. q = Replace_Route route \<and> br_output route \<noteq> None \<longrightarrow> br_destination route \<in> set changed - set failed) sent
    \<and> (\<forall>u. r = Inr u \<longrightarrow> (\<forall>p \<in> set (np_remote_routes plan) \<inter> set changed \<inter> set failed. Replace_Route (unreachable_route plan p) \<in> set sent))"
proof -
  let ?ok = "\<lambda>q. \<forall>route. q = Replace_Route route \<and> br_output route \<noteq> None \<longrightarrow> br_destination route \<in> set changed - set failed"
  have "sends_only ?ok (apply_v2_forward_routes K d failed (Some changed))"
    unfolding apply_v2_forward_routes_def by ((rule linking sending TrueI | (auto split: if_splits; fail))+)
  from sendsD(1) [OF this run] obtain sent where sent: "kw_sent w' = kw_sent w @ sent" "list_all ?ok sent" by blast
  have "Replace_Route (unreachable_route plan p) \<in> set sent"
    if ok: "r = Inr u" and p: "p \<in> set (np_remote_routes plan) \<inter> set changed \<inter> set failed" for u p
  proof -
    let ?q = "\<lambda>index p. Replace_Route (if p \<in> set failed then unreachable_route plan p else link_route plan index p)"
    let ?xs = "filter (\<lambda>p. p \<in> set changed) (np_remote_routes plan)"
    obtain index w1 where link: "link_index K w = (Inr index, w1)" and loop: "for_each (\<lambda>p. required K (?q index p)) ?xs w1 = (Inr (), w')"
      using run ok by (auto simp: apply_v2_forward_routes_def with_plan_def plan of_result_def bind_eq andthen_eq return_def)
    have "kw_sent w' = kw_sent w @ [Get_Link CANDY_INTERFACE_NAME] @ map (?q index) ?xs"
      using for_each_required [OF loop] link_index_sent [OF link] by simp
    with sent(1) have "sent = [Get_Link CANDY_INTERFACE_NAME] @ map (?q index) ?xs" by simp
    then show ?thesis using p by force
  qed
  with sent show ?thesis by blast
qed

lemma changed_prefixes:
  "set (sort (remdups (filter (\<lambda>p. p \<notin> set failed) previous @ filter (\<lambda>p. p \<notin> set previous) failed)))
     = {p. (p \<in> set previous) \<noteq> (p \<in> set failed)}"
  by auto

lemma split_after: "xs @ ys = before @ y # rest \<Longrightarrow> y \<notin> set xs \<Longrightarrow> \<exists>mid. before = xs @ mid"
  by (induction xs arbitrary: before) (auto simp: Cons_eq_append_conv)

text \<open>The trace of the update: a guarding pass, an opening pass once everything is guarded, a repair.\<close>

definition opens_only :: "ipv4_prefix set \<Rightarrow> kernel_request list \<Rightarrow> bool" where
  "opens_only allowed sent \<longleftrightarrow> (\<forall>route. Replace_Route route \<in> set sent \<and> br_output route \<noteq> None \<longrightarrow> br_destination route \<in> allowed)"

lemma pass_opens:
  assumes "compile d = Inr plan" "apply_v2_forward_routes K d failed (Some changed) w = (r, w')"
  obtains sent where "kw_sent w' = kw_sent w @ sent" "opens_only (set changed - set failed) sent"
    "\<And>u p. r = Inr u \<Longrightarrow> p \<in> set (np_remote_routes plan) \<inter> set changed \<inter> set failed \<Longrightarrow> Replace_Route (unreachable_route plan p) \<in> set sent"
  using pass_sends [OF assms] unfolding opens_only_def list_all_iff by (metis (no_types, lifting))

lemma update_trace:
  assumes "compile d = Inr plan" and "linux_update_failed_forward_prefixes K d previous failed w = (r, w')"
  obtains s1 s2 s3 where "kw_sent w' = kw_sent w @ s1 @ s2 @ s3" "opens_only {} s1" "opens_only (- set failed) s2" "opens_only {} s3"
    "s2 \<noteq> [] \<longrightarrow> (\<forall>p \<in> set (np_remote_routes plan). (p \<in> set previous) \<noteq> (p \<in> set failed)
       \<longrightarrow> Replace_Route (unreachable_route plan p) \<in> set s1)"
proof -
  define changed where "changed = sort (remdups (filter (\<lambda>p. p \<notin> set failed) previous @ filter (\<lambda>p. p \<notin> set previous) failed))"
  define guarded where "guarded = sort (remdups (previous @ failed))"
  have sets: "set changed = {p. (p \<in> set previous) \<noteq> (p \<in> set failed)}" "set changed - set guarded = {}"
    unfolding changed_def guarded_def changed_prefixes by auto
  note unfolded = linux_update_failed_forward_prefixes_def Let_def andthen_def bind_def attempt_def return_def throw_def
    changed_def [symmetric] guarded_def [symmetric]
  obtain r1 w1 where guard: "apply_v2_forward_routes K d guarded (Some changed) w = (r1, w1)" by fastforce
  obtain s1 where s1: "kw_sent w1 = kw_sent w @ s1" "opens_only {} s1"
      and all: "\<And>u p. r1 = Inr u \<Longrightarrow> p \<in> set (np_remote_routes plan) \<inter> set changed \<inter> set guarded \<Longrightarrow> Replace_Route (unreachable_route plan p) \<in> set s1"
    using pass_opens [OF assms(1) guard] unfolding sets(2) by metis
  show thesis
  proof (cases r1)
    case (Inl e)
    with that [of s1 "[]" "[]"] s1 assms(2) guard show thesis by (auto simp: unfolded opens_only_def)
  next
    case (Inr u)
    have guards: "Replace_Route (unreachable_route plan p) \<in> set s1"
      if "p \<in> set (np_remote_routes plan)" "(p \<in> set previous) \<noteq> (p \<in> set failed)" for p
      by (rule all [OF Inr]) (use that sets(1) in \<open>auto simp: guarded_def\<close>)
    obtain r2 w2 where opened: "apply_v2_forward_routes K d failed (Some changed) w1 = (r2, w2)" by fastforce
    obtain s2 where s2: "kw_sent w2 = kw_sent w1 @ s2" "opens_only (- set failed) s2"
      using pass_opens [OF assms(1) opened] by (metis (no_types, lifting) Compl_iff DiffD2 opens_only_def)
    obtain r3 w3 where repair: "apply_v2_forward_routes K d guarded (Some changed) w2 = (r3, w3)" by fastforce
    obtain s3 where s3: "kw_sent w3 = kw_sent w2 @ s3" "opens_only {} s3"
      using pass_opens [OF assms(1) repair] unfolding sets(2) by metis
    show thesis
    proof (cases r2)
      case (Inr v)
      then have "w' = w2" using assms(2) guard \<open>r1 = Inr u\<close> opened by (simp add: unfolded)
      then show thesis using that [of s1 s2 "[]"] s1 s2 guards by (simp add: opens_only_def)
    next
      case (Inl e)
      then have "w' = w3" using assms(2) guard \<open>r1 = Inr u\<close> opened repair by (simp add: unfolded)
      then show thesis using that [of s1 s2 s3] s1 s2 s3 guards by simp
    qed
  qed
qed

text \<open>
  C12: recovery never opens a path early. When the failed prefixes of a domain change, a route into the
  tunnel is sent only for a prefix that is not failed, and only after every changed prefix of the
  plan was made unreachable, also when a request fails halfway and the guard is repaired.
\<close>

theorem guards_precede_recovery:
  assumes "compile d = Inr plan" and "linux_update_failed_forward_prefixes K d previous failed w = (r, w')"
    and "kw_sent w' = kw_sent w @ before @ Replace_Route route # rest" and "br_output route \<noteq> None"
  shows "br_destination route \<notin> set failed
    \<and> (\<forall>p \<in> set (np_remote_routes plan). (p \<in> set previous) \<noteq> (p \<in> set failed)
         \<longrightarrow> Replace_Route (unreachable_route plan p) \<in> set before)"
proof -
  obtain s1 s2 s3 where sent: "kw_sent w' = kw_sent w @ s1 @ s2 @ s3" "opens_only {} s1" "opens_only (- set failed) s2" "opens_only {} s3"
      and guards: "s2 \<noteq> [] \<longrightarrow> (\<forall>p \<in> set (np_remote_routes plan). (p \<in> set previous) \<noteq> (p \<in> set failed)
        \<longrightarrow> Replace_Route (unreachable_route plan p) \<in> set s1)"
    using update_trace [OF assms(1,2)] by blast
  have split: "s1 @ s2 @ s3 = before @ Replace_Route route # rest" using sent(1) assms(3) by simp
  have closed: "Replace_Route route \<notin> set s1" "Replace_Route route \<notin> set s3" using sent(2,4) assms(4) by (auto simp: opens_only_def)
  have "Replace_Route route \<in> set (s1 @ s2 @ s3)" unfolding split by simp
  then have opened: "Replace_Route route \<in> set s2" using closed by simp
  obtain mid where "before = s1 @ mid" using split_after [OF split closed(1)] by blast
  moreover have "s2 \<noteq> []" using opened by auto
  then have "\<forall>p \<in> set (np_remote_routes plan). (p \<in> set previous) \<noteq> (p \<in> set failed) \<longrightarrow> Replace_Route (unreachable_route plan p) \<in> set s1"
    using guards by blast
  moreover have "br_destination route \<notin> set failed" using opened sent(3) assms(4) by (auto simp: opens_only_def)
  ultimately show ?thesis by simp
qed

text \<open>A kernel that has the link and accepts everything.\<close>

definition calm_host :: kernel_host where
  "calm_host = \<lparr>kh_links = (\<lambda>_. ([\<lparr>li_index = 7, li_attributes = [Ifla_Info [Info_Kind_Tun]]\<rparr>], None)),
     kh_routes = (\<lambda>_. ([], None)), kh_rules = (\<lambda>_. ([], None)), kh_change = (\<lambda>_. None),
     kh_sysctl_exists = (\<lambda>_. False), kh_sysctl_read = (\<lambda>_. Sysctl_Missing), kh_sysctl_write = (\<lambda>_. True),
     kh_nft_open = (\<lambda>_. True), kh_nft_send = (\<lambda>_. None), kh_nft_receive = (\<lambda>_. []),
     kh_prefix_order = (\<lambda>_. 0), kh_selector_order = (\<lambda>_. 0)\<rparr>"

lemma calm_link: "link_index calm_host w = (Inr 7, w\<lparr>kw_sent := kw_sent w @ [Get_Link CANDY_INTERFACE_NAME]\<rparr>)"
  by (simp add: link_index_def required_tun_def candy_tun_def candy_link_def ask_kernel_def bind_def Let_def return_def
      of_result_def calm_host_def link_is_tun_def)

lemma calm_required: "required calm_host q w = (Inr (), w\<lparr>kw_sent := kw_sent w @ [q]\<rparr>)"
  by (simp add: required_def tolerated_def ask_kernel_def bind_def Let_def return_def calm_host_def)

theorem guards_precede_recovery_witness:
  "\<exists>plan w' before route rest. compile full_tunnel = Inr plan
    \<and> linux_update_failed_forward_prefixes calm_host full_tunnel [Ipv4Prefix 0 0] [] \<lparr>kw_sent = [], kw_iptables = []\<rparr> = (Inr (), w')
    \<and> kw_sent w' = before @ Replace_Route route # rest \<and> br_output route = Some 7
    \<and> Replace_Route (unreachable_route plan (Ipv4Prefix 0 0)) \<in> set before"
proof -
  obtain plan where plan: "compile full_tunnel = Inr plan" using compile_total full_tunnel_ok by (auto simp: declaration_ok_def)
  have remote: "np_remote_routes plan = [Ipv4Prefix 0 0]"
    by (simp add: compile_fields_sel [OF compile_fields_of(1) [OF plan]] prefixes_of_kind_def full_tunnel_def)
  let ?w = "\<lparr>kw_sent = [], kw_iptables = []\<rparr>" and ?p = "Ipv4Prefix 0 0"
  let ?before = "[Get_Link CANDY_INTERFACE_NAME, Replace_Route (unreachable_route plan ?p), Get_Link CANDY_INTERFACE_NAME]"
  let ?w' = "?w\<lparr>kw_sent := ?before @ [Replace_Route (link_route plan 7 ?p)]\<rparr>"
  have run: "linux_update_failed_forward_prefixes calm_host full_tunnel [?p] [] ?w = (Inr (), ?w')"
    by (simp add: linux_update_failed_forward_prefixes_def apply_v2_forward_routes_def with_plan_def of_result_def plan remote
        calm_link calm_required Let_def bind_def andthen_def attempt_def return_def)
  have sent: "kw_sent ?w' = kw_sent ?w @ ?before @ Replace_Route (link_route plan 7 ?p) # []" by simp
  have out: "br_output (link_route plan 7 ?p) = Some 7" by (simp add: link_route_def bare_link_route_def)
  from guards_precede_recovery [OF plan run sent] out remote
  have "Replace_Route (unreachable_route plan ?p) \<in> set ?before" by simp
  with plan run sent out show ?thesis by (metis append_Nil kernel_world.select_convs(1))
qed

section \<open>Policy rules\<close>

lemma tolerated_ok: "tolerated K harmless q w = (Inr u, w') \<Longrightarrow> kw_sent w' = kw_sent w @ [q]"
  by (auto simp: tolerated_def ask_kernel_def bind_def Let_def return_def throw_def split: option.splits if_splits)

lemma for_each_tolerated: "for_each (\<lambda>x. tolerated K harmless (q x)) xs w = (Inr u, w') \<Longrightarrow> kw_sent w' = kw_sent w @ map q xs"
proof (induction xs arbitrary: w)
  case (Cons x xs)
  then obtain w1 where "tolerated K harmless (q x) w = (Inr (), w1)" "for_each (\<lambda>x. tolerated K harmless (q x)) xs w1 = (Inr u, w')"
    by (auto simp: andthen_eq)
  with Cons.IH show ?case by (simp add: tolerated_ok)
qed (simp add: return_def)

lemma sort_rules_split:
  "\<exists>kept sels. mset rules = mset kept + mset (snd (sort_rules expected present rules)) \<and> map policy_rule_selector kept = map Some sels
    \<and> fst (sort_rules expected present rules) = rev sels @ present \<and> set sels \<subseteq> set expected \<and> distinct sels \<and> set sels \<inter> set present = {}"
proof (induction rules arbitrary: present)
  case Nil
  show ?case by (intro exI [of _ "[]"]) simp
next
  case (Cons rule rules)
  show ?case
  proof (cases "\<exists>sel. policy_rule_selector rule = Some sel \<and> sel \<in> set expected \<and> sel \<notin> set present")
    case True
    then obtain sel where sel: "policy_rule_selector rule = Some sel" "sel \<in> set expected" "sel \<notin> set present" by blast
    from Cons.IH [of "sel # present"] obtain kept sels where
      "mset rules = mset kept + mset (snd (sort_rules expected (sel # present) rules))" "map policy_rule_selector kept = map Some sels"
      "fst (sort_rules expected (sel # present) rules) = rev sels @ sel # present" "set sels \<subseteq> set expected" "distinct sels"
      "set sels \<inter> set (sel # present) = {}" by blast
    with sel show ?thesis by (intro exI [of _ "rule # kept"] exI [of _ "sel # sels"]) auto
  next
    case False
    then have "sort_rules expected present (rule # rules) = map_prod id ((#) rule) (sort_rules expected present rules)"
      by (auto split: option.split)
    with Cons.IH [of present] show ?thesis by auto
  qed
qed

text \<open>
  C33: reconciliation makes the policy rules exact. When it succeeds, it has read the whole list of rules,
  added rules first and then deleted others, and the rules of the plan's table and priority that it
  leaves, together with those it added, are one for each selector of the plan and no others.
\<close>

theorem policy_rules_become_exact:
  assumes "reconcile_policy_rules K plan w = (Inr (), w')"
    and "kh_rules K (kw_sent w @ [Get_Rules]) = (found, stop)"
  shows "stop = None \<and> (\<exists>added stale kept sels.
    kw_sent w' = kw_sent w @ [Get_Rules] @ map (\<lambda>sel. Add_Rule (policy_rule plan sel)) added @ map Del_Rule stale
    \<and> mset (filter (owned_rule plan) found) = mset kept + mset stale
    \<and> map policy_rule_selector kept = map Some sels \<and> distinct (sels @ added)
    \<and> set (sels @ added) = set (policy_selectors plan))"
proof -
  let ?rules = "filter (owned_rule plan) found" and ?expected = "policy_selectors plan"
  obtain present stale where sorted: "sort_rules ?expected [] ?rules = (present, stale)" by fastforce
  let ?added = "in_hash_order (kh_selector_order K) (filter (\<lambda>sel. sel \<notin> set present) ?expected)"
  let ?w1 = "w\<lparr>kw_sent := kw_sent w @ [Get_Rules]\<rparr>"
  have stop: "stop = None"
    using assms by (auto simp: reconcile_policy_rules_def find_policy_rules_def list_rules_def ask_kernel_def bind_def andthen_def
        Let_def end_of_dump_def throw_def split: if_splits)
  have "find_policy_rules K plan w = (Inr ?rules, ?w1)"
    using assms(2) stop by (simp add: find_policy_rules_def list_rules_def ask_kernel_def bind_def andthen_def Let_def end_of_dump_def return_def)
  then obtain w2 where add: "for_each (\<lambda>sel. tolerated K already_exists (Add_Rule (policy_rule plan sel))) ?added ?w1 = (Inr (), w2)"
      and del: "for_each (\<lambda>rule. tolerated K object_missing_is_idempotent (Del_Rule rule)) stale w2 = (Inr (), w')"
    using assms(1) sorted by (auto simp: reconcile_policy_rules_def bind_def andthen_eq Let_def add_policy_rule_def [abs_def])
  have sent: "kw_sent w' = kw_sent w @ [Get_Rules] @ map (\<lambda>sel. Add_Rule (policy_rule plan sel)) ?added @ map Del_Rule stale"
    using for_each_tolerated [OF add] for_each_tolerated [OF del] by simp
  from sort_rules_split [of ?rules ?expected "[]"] sorted obtain kept sels where
      kept: "mset ?rules = mset kept + mset stale" "map policy_rule_selector kept = map Some sels"
        "present = rev sels" "set sels \<subseteq> set ?expected" "distinct sels" by auto
  have "distinct ?added" "set ?added = set ?expected - set sels"
    using kept(3) by (auto simp: in_hash_order_def)
  then have "distinct (sels @ ?added)" "set (sels @ ?added) = set ?expected" using kept(4,5) by auto
  with kept(1,2) sent stop show ?thesis by blast
qed

lemma full_tunnel_plan:
  assumes "compile full_tunnel = Inr plan"
  shows "np_remote_routes plan = [Ipv4Prefix 0 0]" "policy_selectors plan = [(Some (Ipv4Prefix 0xC0A80100 24), Ipv4Prefix 0 0)]"
proof -
  note fields = compile_fields_of(1) [OF assms]
  show remote: "np_remote_routes plan = [Ipv4Prefix 0 0]"
    by (simp add: compile_fields_sel [OF fields] prefixes_of_kind_def full_tunnel_def)
  have gateways: "np_remote_egress_gateway_routes plan = []"
    using fields by (auto simp: compile_fields_def Let_def rbind_eq_Inr prefixes_of_kind_def full_tunnel_def)
  show "policy_selectors plan = [(Some (Ipv4Prefix 0xC0A80100 24), Ipv4Prefix 0 0)]"
    by (simp add: policy_selectors_def remote gateways compile_fields_sel(2) [OF fields] prefixes_of_kind_def full_tunnel_def)
qed

theorem policy_rules_become_exact_witness:
  "\<exists>plan w' added. compile full_tunnel = Inr plan
    \<and> reconcile_policy_rules calm_host plan \<lparr>kw_sent = [], kw_iptables = []\<rparr> = (Inr (), w')
    \<and> kw_sent w' = [Get_Rules] @ map (\<lambda>sel. Add_Rule (policy_rule plan sel)) added
    \<and> set added = {(Some (Ipv4Prefix 0xC0A80100 24), Ipv4Prefix 0 0)}"
proof -
  obtain plan where plan: "compile full_tunnel = Inr plan" using compile_total full_tunnel_ok by (auto simp: declaration_ok_def)
  let ?w = "\<lparr>kw_sent = [], kw_iptables = []\<rparr>"
  have calm: "kh_rules calm_host sent = ([], None)" "kh_change calm_host sent = None" for sent by (simp_all add: calm_host_def)
  obtain w' where run: "reconcile_policy_rules calm_host plan ?w = (Inr (), w')"
    by (simp add: reconcile_policy_rules_def find_policy_rules_def list_rules_def ask_kernel_def end_of_dump_def add_policy_rule_def
        tolerated_def full_tunnel_plan [OF plan] in_hash_order_def bind_def andthen_def return_def Let_def calm)
  from policy_rules_become_exact [OF run calm(1)] full_tunnel_plan(2) [OF plan] plan run show ?thesis by auto
qed

section \<open>Withdrawn prefixes\<close>

text \<open>
  Withdrawing a prefix compiles a plan of the withdrawn routes with all exclusions, and deletes what a
  cleanup of that plan would: a successful withdrawal deletes every listed bypass route of an underlay
  exclusion, and adds none of them again.
\<close>

lemma delete_listed_sends:
  assumes "delete_listed K plan doomed w = (Inr u, w')" "\<And>sent. route \<in> set (fst (kh_routes K sent))" "doomed route"
  shows "Del_Route route \<in> set (kw_sent w')"
proof -
  obtain found stop where listing: "kh_routes K (kw_sent w @ [Get_Routes (np_route_table plan)]) = (found, stop)" by fastforce
  then have "for_each (\<lambda>r. tolerated K object_missing_is_idempotent (Del_Route r)) (filter doomed found)
      (w\<lparr>kw_sent := kw_sent w @ [Get_Routes (np_route_table plan)]\<rparr>) = (Inr (), w')"
    using assms(1) by (auto simp: delete_listed_def list_routes_def ask_kernel_def bind_def andthen_eq Let_def end_of_dump_def return_def
        throw_def split: if_splits)
  from for_each_tolerated [OF this] listing assms(2) [of "kw_sent w @ [Get_Routes (np_route_table plan)]"] assms(3) show ?thesis by auto
qed

theorem withdrawal_drops_bypasses:
  assumes "linux_withdraw_prefixes K d prefixes w = (Inr (), w')" and "r \<in> set (routes d)" "route_prefix r \<in> set prefixes"
    and "x \<in> set (exclusions d)" "exclusion_prefix x \<notin> set prefixes"
    and "\<And>sent. bypass \<in> set (fst (kh_routes K sent))"
    and "attribute_table bypass = Some (table_id d)" "rm_protocol bypass = Protocol_Static" "rm_kind bypass = Type_Throw"
    and "message_prefix bypass = Some (exclusion_prefix x)"
  shows "Del_Route bypass \<in> set (kw_sent w')
    \<and> (\<forall>route. Add_Route route \<in> set (drop (length (kw_sent w)) (kw_sent w')) \<longrightarrow> br_destination route \<noteq> exclusion_prefix x)"
proof -
  let ?scoped = "d\<lparr>routes := filter (\<lambda>r. route_prefix r \<in> set prefixes) (routes d)\<rparr>"
  have nonempty: "routes ?scoped \<noteq> []" using assms(2,3) by (auto simp: filter_empty_conv)
  obtain plan w1 where plan: "compile ?scoped = Inr plan" and deleted: "delete_routes K plan w = (Inr (), w1)"
      and added: "for_each (\<lambda>p. tolerated K already_exists (Add_Route (throw_route plan p))) prefixes w1 = (Inr (), w')"
    using assms(1) nonempty by (auto simp: linux_withdraw_prefixes_def Let_def with_plan_def of_result_def bind_eq andthen_eq)
  note fields = compile_fields_of(1) [OF plan]
  have doomed: "cleanup_route plan (cleanup_throw_prefixes plan) bypass"
    using assms(4,7-10) by (auto simp: cleanup_route_def in_table_def compile_fields_sel [OF fields] set_cleanup_throw_prefixes set_throw_prefixes)
  obtain w2 where "delete_listed K plan (cleanup_route plan (cleanup_throw_prefixes plan)) w2 = (Inr (), w1)"
    using deleted by (auto simp: delete_routes_def route_cleanup_targets_def bind_eq andthen_eq Let_def)
  from delete_listed_sends [OF this assms(6) doomed] have "Del_Route bypass \<in> set (kw_sent w1)" .
  moreover have later: "kw_sent w' = kw_sent w1 @ map (\<lambda>p. Add_Route (throw_route plan p)) prefixes"
    by (rule for_each_tolerated [OF added])
  moreover have "sends_only (\<lambda>q. \<forall>route. q \<noteq> Add_Route route) (delete_routes K plan)"
    unfolding delete_routes_def route_cleanup_targets_def Let_def case_prod_conv delete_listed_def list_routes_def
    by ((rule linking sending TrueI | (simp; fail))+)
  from sendsD(1) [OF this deleted] obtain s1 where "kw_sent w1 = kw_sent w @ s1" "list_all (\<lambda>q. \<forall>route. q \<noteq> Add_Route route) s1" by blast
  ultimately show ?thesis using assms(5) by (auto simp: list_all_iff throw_route_def plain_route_def)
qed

end
