(* ===== verification/Netd_Nft_Laws.thy ===== *)
theory Netd_Nft_Laws
  imports Netd_Nft
begin

text \<open>
  The netlink encoding of \<^verbatim>\<open>nft.rs\<close> is read back as it was written: attributes with their padding, messages
  with their lengths, and a dump of tables. The backend's judgement whose a table is follows: its own
  table is the one whose name and tag it would write, and no other domain's table is.
\<close>

section \<open>Alignment\<close>

lemma align4_facts: "n \<le> align4 n" "4 dvd align4 n" "align4 n < n + 4"
  unfolding align4_def by presburger+

lemma align4_aligned: "4 dvd n \<Longrightarrow> align4 n = n" "4 dvd m \<Longrightarrow> align4 (m + n) = m + align4 n"
  unfolding align4_def by presburger+

lemma length_resize4 [simp]: "length (resize4 out) = align4 (length out)"
  using align4_facts(1) [of "length out"] by (simp add: resize4_def)

lemma resize4_append: "4 dvd length out \<Longrightarrow> resize4 (out @ xs) = out @ resize4 xs"
  by (simp add: resize4_def align4_aligned)

lemma resize4_aligned: "4 dvd length out \<Longrightarrow> resize4 out = out"
  by (simp add: resize4_def align4_aligned)

lemma take_resize4 [simp]: "take (length out) (resize4 out @ rest) = out"
  by (simp add: resize4_def)

lemma ne_bytes_length [simp]: "length (ne_bytes n v) = n"
  by (simp add: ne_bytes_def)

lemma from_ne_bytes_inverse: "LENGTH('w::len) = 8 * n \<Longrightarrow> from_ne_bytes (ne_bytes n (v :: 'w word)) = v"
  by (simp add: ne_bytes_def from_ne_bytes_def from_to_be_bytes)

lemma unat_small: "m < 2 ^ LENGTH('w) \<Longrightarrow> unat (of_nat m :: 'w::len word) = m"
  by (simp add: unsigned_of_nat take_bit_nat_eq_self)

section \<open>Attributes\<close>

definition attribute_bytes :: "attribute \<Rightarrow> bytes" where
  "attribute_bytes a = ne_bytes 2 (of_nat (4 + length (at_payload a)) :: u16) @ ne_bytes 2 (at_kind a) @ at_payload a"

definition attributes_bytes :: "attribute list \<Rightarrow> bytes" where
  "attributes_bytes attributes = concat (map (resize4 \<circ> attribute_bytes) attributes)"

lemma emit_attrs: "4 dvd length out \<Longrightarrow> foldl emit_attr out attributes = out @ attributes_bytes attributes"
proof (induction attributes arbitrary: out)
  case (Cons a as)
  have "emit_attr out a = out @ resize4 (attribute_bytes a)"
    using Cons.prems by (simp add: emit_attr_def attribute_bytes_def resize4_append)
  moreover have "4 dvd length (out @ resize4 (attribute_bytes a))" using Cons.prems align4_facts(2) by simp
  ultimately show ?case using Cons.IH by (simp add: attributes_bytes_def)
qed (simp add: attributes_bytes_def)

lemma attributes_bytes_aligned: "4 dvd length (attributes_bytes attributes)"
  by (induction attributes) (simp_all add: attributes_bytes_def align4_facts(2))

definition fits :: "attribute \<Rightarrow> bool" where
  "fits a \<longleftrightarrow> length (at_payload a) < 2 ^ 16 - 4"

definition as_read :: "attribute \<Rightarrow> u16 \<times> bytes" where
  "as_read a = (at_kind a AND NOT NLA_F_NESTED, at_payload a)"

lemma parse_attrs_step:
  assumes "fits a"
  shows "parse_attrs (resize4 (attribute_bytes a) @ rest) = rbind (parse_attrs rest) (\<lambda>attributes. Inr (as_read a # attributes))"
proof -
  let ?n = "length (at_payload a)" and ?in = "resize4 (attribute_bytes a) @ rest"
  have len: "length (attribute_bytes a) = 4 + ?n" by (simp add: attribute_bytes_def)
  have field: "unat (of_nat (4 + ?n) :: u16) = 4 + ?n"
    by (rule unat_small) (use assms in \<open>simp add: fits_def\<close>)
  have heads: "take 2 ?in = ne_bytes 2 (of_nat (4 + ?n) :: u16)" "take 2 (drop 2 ?in) = ne_bytes 2 (at_kind a)"
    by (simp_all add: resize4_def attribute_bytes_def)
  have body: "drop 4 (take (4 + ?n) ?in) = at_payload a"
    using take_resize4 [of "attribute_bytes a" rest] unfolding len by (simp add: attribute_bytes_def)
  have rest: "drop (align4 (4 + ?n)) ?in = rest" using len by simp
  have bound: "4 + ?n \<le> length ?in" "align4 (4 + ?n) \<le> length ?in" using align4_facts(1) [of "4 + ?n"] len by simp_all
  obtain b bs where cons: "?in = b # bs" using bound(1) by (cases ?in) auto
  show ?thesis
    using field heads body rest bound from_ne_bytes_inverse [of 2 "of_nat (4 + ?n) :: u16"] from_ne_bytes_inverse [of 2 "at_kind a"]
    by (simp only: cons parse_attrs.simps) (simp add: cons [symmetric] as_read_def Let_def)
qed

lemma parse_attributes: "list_all fits attributes \<Longrightarrow> parse_attrs (attributes_bytes attributes) = Inr (map as_read attributes)"
  by (induction attributes) (simp_all add: attributes_bytes_def parse_attrs_step)

section \<open>Messages\<close>

definition message_header :: "u16 \<Rightarrow> u16 \<Rightarrow> u32 \<Rightarrow> u8 \<Rightarrow> u16 \<Rightarrow> bytes" where
  "message_header kind flags sequence family resource =
     ne_bytes 2 kind @ ne_bytes 2 flags @ ne_bytes 4 sequence @ [0, 0, 0, 0] @ [family, 0] @ to_be_bytes 2 resource"

lemma message_header_length [simp]: "length (message_header kind flags sequence family resource) = 16"
  by (simp add: message_header_def)

definition message_bytes :: "u16 \<Rightarrow> u16 \<Rightarrow> u32 \<Rightarrow> u8 \<Rightarrow> attribute list \<Rightarrow> u16 \<Rightarrow> bytes" where
  "message_bytes kind flags sequence family attributes resource =
     ne_bytes 4 (of_nat (20 + length (attributes_bytes attributes)) :: u32)
     @ message_header kind flags sequence family resource @ attributes_bytes attributes"

lemma message_bytes_length:
  "length (message_bytes kind flags sequence family attributes resource) = 20 + length (attributes_bytes attributes)"
  "4 dvd length (message_bytes kind flags sequence family attributes resource)"
  using attributes_bytes_aligned [of attributes] by (simp_all add: message_bytes_def)

text \<open>A batch is the concatenation of its messages: each is appended to what was there, with its own length.\<close>

lemma nft_message_appends:
  assumes "4 dvd length (nb_bytes b)"
  shows "nft_message kind flags family attributes resource b = b\<lparr>nb_bytes := nb_bytes b
      @ message_bytes kind flags (nb_next_sequence b) family attributes resource, nb_next_sequence := nb_next_sequence b + 1\<rparr>"
proof -
  let ?header = "message_header kind flags (nb_next_sequence b) family resource" and ?attrs = "attributes_bytes attributes"
  have head: "nb_bytes b @ [0, 0, 0, 0] @ ne_bytes 2 kind @ ne_bytes 2 flags @ ne_bytes 4 (nb_next_sequence b)
      @ [0, 0, 0, 0] @ [family, 0] @ to_be_bytes 2 resource = nb_bytes b @ [0, 0, 0, 0] @ ?header"
    by (simp add: message_header_def)
  have out: "foldl emit_attr (nb_bytes b @ [0, 0, 0, 0] @ ?header) attributes = nb_bytes b @ [0, 0, 0, 0] @ ?header @ ?attrs"
    by (subst emit_attrs) (use assms in simp_all)
  have aligned: "4 dvd length (nb_bytes b @ message_bytes kind flags (nb_next_sequence b) family attributes resource)"
    using assms message_bytes_length(2) by simp
  show ?thesis
    unfolding nft_message_def head out Let_def
    using resize4_aligned [OF aligned] by (simp add: message_bytes_def)
qed

section \<open>Dumps\<close>

definition small_message :: "attribute list \<Rightarrow> bool" where
  "small_message attributes \<longleftrightarrow> list_all fits attributes \<and> 20 + length (attributes_bytes attributes) < 2 ^ 32"

lemma message_fields:
  fixes kind flags sequence family attributes resource
  assumes "20 + length (attributes_bytes attributes) < 2 ^ 32"
  defines "m \<equiv> message_bytes kind flags sequence family attributes resource"
  shows "unat (from_ne_bytes (take 4 (m @ rest)) :: u32) = length m"
    and "from_ne_bytes (take 2 (drop 4 (m @ rest))) = kind"
    and "drop 20 (take (length m) (m @ rest)) = attributes_bytes attributes"
proof -
  let ?n = "of_nat (20 + length (attributes_bytes attributes)) :: u32"
  have "unat ?n = 20 + length (attributes_bytes attributes)" by (rule unat_small) (use assms(1) in simp)
  moreover have "take 4 (m @ rest) = ne_bytes 4 ?n" by (simp add: m_def message_bytes_def)
  ultimately show "unat (from_ne_bytes (take 4 (m @ rest)) :: u32) = length m"
    using from_ne_bytes_inverse [of 4 ?n] by (simp add: m_def message_bytes_length)
  show "from_ne_bytes (take 2 (drop 4 (m @ rest))) = kind"
    using from_ne_bytes_inverse [of 2 kind] by (simp add: m_def message_bytes_def message_header_def)
  have "drop 20 m = attributes_bytes attributes" by (simp add: m_def message_bytes_def)
  then show "drop 20 (take (length m) (m @ rest)) = attributes_bytes attributes" by simp
qed

lemma scan_message:
  assumes "small_message attributes" "kind \<noteq> 2" "kind \<noteq> 3"
  shows "scan_tables plan state (message_bytes kind flags sequence family attributes resource @ rest)
    = scan_tables plan (table_verdict plan (map as_read attributes) state) rest"
proof -
  let ?m = "message_bytes kind flags sequence family attributes resource"
  have small: "20 + length (attributes_bytes attributes) < 2 ^ 32" and parts: "list_all fits attributes"
    using assms(1) by (simp_all add: small_message_def)
  define buf where "buf = ?m @ rest"
  note fields = message_fields [OF small, of kind flags sequence family resource rest, folded buf_def]
  have "align4 (length ?m) = length ?m" by (rule align4_aligned(1) [OF message_bytes_length(2)])
  moreover have "20 \<le> length ?m" by (simp add: message_bytes_length)
  moreover have "length ?m \<le> length buf" "drop (length ?m) buf = rest" by (simp_all add: buf_def)
  ultimately show ?thesis
    unfolding buf_def [symmetric]
    by (subst scan_tables.simps) (use assms in \<open>simp add: fields parse_attributes [OF parts] Let_def\<close>)
qed

lemma scan_done: "scan_tables plan state (message_bytes 3 flags sequence family [] resource @ rest) = Inr (True, state)"
proof -
  let ?m = "message_bytes 3 flags sequence family [] resource"
  have small: "20 + length (attributes_bytes []) < 2 ^ 32" by (simp add: attributes_bytes_def)
  define buf where "buf = ?m @ rest"
  note fields = message_fields [OF small, of 3 flags sequence family resource rest, folded buf_def]
  have "20 \<le> length ?m" "length ?m \<le> length buf" by (simp_all add: message_bytes_length buf_def)
  then show ?thesis
    unfolding buf_def [symmetric] by (subst scan_tables.simps) (simp add: fields Let_def)
qed

lemma scan_nothing: "scan_tables plan state [] = Inr (False, state)"
  by (subst scan_tables.simps) simp

text \<open>A table as the kernel lists it: its name, its user data, and what else it tells of a table.\<close>

record listed_table =
  lt_name :: string
  lt_userdata :: "bytes option"
  lt_others :: "attribute list"

definition listed_attributes :: "listed_table \<Rightarrow> attribute list" where
  "listed_attributes t = string_attr 1 (lt_name t) # lt_others t
     @ (case lt_userdata t of None \<Rightarrow> [] | Some tag \<Rightarrow> [bytes_attr 6 tag])"

definition well_listed :: "listed_table \<Rightarrow> bool" where
  "well_listed t \<longleftrightarrow> small_message (listed_attributes t)
     \<and> list_all (\<lambda>a. fst (as_read a) \<noteq> 1 \<and> fst (as_read a) \<noteq> 6) (lt_others t)"

definition dump_datagram :: "u32 \<Rightarrow> listed_table list \<Rightarrow> bytes" where
  "dump_datagram sequence tables =
     concat (map (\<lambda>t. message_bytes (nft_type MSG_NEWTABLE) 2 sequence 1 (listed_attributes t) 0) tables)"

definition dump_done :: "u32 \<Rightarrow> bytes" where
  "dump_done sequence = message_bytes 3 2 sequence 0 [] 0"

lemma text_bytes_eq [simp]: "text_bytes a = text_bytes b \<longleftrightarrow> a = b"
proof -
  have "unat (of_char c :: u8) = of_char c" for c
    using of_nat_of_char [of c, where 'a = u8, symmetric] by (simp add: unsigned_of_nat take_bit_nat_eq_self)
  then have "inj (of_char :: char \<Rightarrow> u8)" by (intro injI) (metis char_of_char)
  then show ?thesis by (simp add: text_bytes_def inj_map_eq_map)
qed

lemma trim_nul_string [simp]: "trim_nul (text_bytes name @ [0]) = text_bytes name"
  by (simp add: trim_nul_def)

lemma find_map_append: "find_map f (xs @ ys) = (case find_map f xs of None \<Rightarrow> find_map f ys | Some v \<Rightarrow> Some v)"
  by (induction xs) (auto split: option.splits)

lemma find_map_none: "list_all (\<lambda>x. f x = None) xs \<Longrightarrow> find_map f xs = None"
  by (induction xs) auto

definition judged :: "linux_network_plan \<Rightarrow> listed_table \<Rightarrow> owned_table" where
  "judged plan t = (if map_option trim_nul (lt_userdata t) = Some (owner_tag plan) then Table_Candy else Table_Foreign)"

lemma listed_verdict:
  assumes "well_listed t"
  shows "table_verdict plan (map as_read (listed_attributes t)) state
    = (if lt_name t = np_nft_table_name plan then judged plan t else state)"
proof -
  let ?data = "\<lambda>(kind, value). if kind = 6 then Some value else None"
  have kinds: "as_read (string_attr 1 name) = (1, text_bytes name @ [0])" "as_read (bytes_attr 6 tag) = (6, tag)" for name tag
    by (simp_all add: as_read_def string_attr_def bytes_attr_def NLA_F_NESTED_def)
  have "list_all (\<lambda>x. ?data x = None) (map as_read (lt_others t))"
    using assms by (auto simp: well_listed_def list_all_iff split: prod.splits)
  then have "find_map ?data (map as_read (listed_attributes t)) = lt_userdata t"
    by (simp add: listed_attributes_def kinds find_map_append find_map_none split: option.splits)
  moreover have "find_map (\<lambda>(kind, value). if kind = 1 then Some (trim_nul value) else None) (map as_read (listed_attributes t))
      = Some (text_bytes (lt_name t))"
    by (simp add: listed_attributes_def kinds)
  ultimately show ?thesis by (simp add: table_verdict_def judged_def)
qed

definition judge_all :: "linux_network_plan \<Rightarrow> owned_table \<Rightarrow> listed_table list \<Rightarrow> owned_table" where
  "judge_all plan = foldl (\<lambda>state t. if lt_name t = np_nft_table_name plan then judged plan t else state)"

lemma scan_datagram:
  "list_all well_listed tables \<Longrightarrow> scan_tables plan state (dump_datagram sequence tables @ rest)
     = scan_tables plan (judge_all plan state tables) rest"
proof (induction tables arbitrary: state)
  case (Cons t tables)
  have "small_message (listed_attributes t)" using Cons.prems by (simp add: well_listed_def)
  moreover have "nft_type MSG_NEWTABLE \<noteq> 2" "nft_type MSG_NEWTABLE \<noteq> 3"
    by (simp_all add: nft_type_def MSG_NEWTABLE_def NFNL_SUBSYS_NFTABLES_def)
  ultimately show ?case
    using Cons by (simp add: dump_datagram_def scan_message listed_verdict judge_all_def)
qed (simp add: dump_datagram_def judge_all_def)

lemma scan_listing:
  "list_all well_listed (concat datagrams) \<Longrightarrow>
     scan_dump plan state (map (dump_datagram sequence) datagrams @ [dump_done sequence]) = Inr (judge_all plan state (concat datagrams))"
proof (induction datagrams arbitrary: state)
  case Nil
  show ?case using scan_done [of plan state 2 sequence 0 0 "[]"] by (simp add: dump_done_def judge_all_def)
next
  case (Cons tables datagrams)
  then show ?case using scan_datagram [of tables plan state sequence "[]"] by (simp add: scan_nothing judge_all_def)
qed

lemma judge_distinct:
  assumes "distinct (map lt_name tables)"
  shows "judge_all plan state tables =
    (case find (\<lambda>t. lt_name t = np_nft_table_name plan) tables of None \<Rightarrow> state | Some t \<Rightarrow> judged plan t)"
  using assms
proof (induction tables arbitrary: state)
  case (Cons t tables)
  have "find (\<lambda>u. lt_name u = np_nft_table_name plan) tables = None" if "lt_name t = np_nft_table_name plan"
    using Cons.prems that by (force simp: find_None_iff)
  with Cons show ?case by (simp add: judge_all_def)
qed (simp add: judge_all_def)

section \<open>Whose a table is\<close>

lemma compiled_names:
  assumes "compile d = Inr plan" "compile d' = Inr plan'"
  shows "np_nft_table_name plan' = np_nft_table_name plan \<longleftrightarrow> table_id d' = table_id d"
    and "owner_tag plan' = owner_tag plan \<longleftrightarrow> table_id d' = table_id d"
proof -
  have names: "np_nft_table_name p = ''candy_sdwan_'' @ decimal (unat (table_id e))" "np_route_table p = table_id e"
    if "compile e = Inr p" for e p
    using compile_fields_sel(1,6) [OF compile_fields_of(1) [OF that]] by simp_all
  have "decimal (unat a) = decimal (unat b) \<longleftrightarrow> a = b" for a b :: u32
    by (metis decimal_inj word_unat_eq_iff)
  with names [OF assms(1)] names [OF assms(2)]
  show "np_nft_table_name plan' = np_nft_table_name plan \<longleftrightarrow> table_id d' = table_id d"
    and "owner_tag plan' = owner_tag plan \<longleftrightarrow> table_id d' = table_id d"
    by (simp_all add: owner_tag_def)
qed

lemma judge_all_verdict:
  fixes tables plan
  defines "state \<equiv> judge_all plan Table_Absent tables"
  assumes "distinct (map lt_name tables)"
  shows "state = Table_Candy \<longleftrightarrow> (\<exists>t \<in> set tables. lt_name t = np_nft_table_name plan
          \<and> map_option trim_nul (lt_userdata t) = Some (owner_tag plan))"
    and "state = Table_Absent \<longleftrightarrow> np_nft_table_name plan \<notin> lt_name ` set tables"
proof -
  let ?name = "np_nft_table_name plan"
  note state = judge_distinct [OF assms(2), of plan Table_Absent, folded state_def]
  have "(state = Table_Candy \<longleftrightarrow> (\<exists>t \<in> set tables. lt_name t = ?name \<and> map_option trim_nul (lt_userdata t) = Some (owner_tag plan)))
      \<and> (state = Table_Absent \<longleftrightarrow> ?name \<notin> lt_name ` set tables)"
  proof (cases "find (\<lambda>t. lt_name t = ?name) tables")
    case None
    then have "\<forall>t \<in> set tables. lt_name t \<noteq> ?name" by (auto simp: find_None_iff)
    with None state show ?thesis by force
  next
    case (Some t)
    then have t: "t \<in> set tables" "lt_name t = ?name" by (auto simp: find_Some_iff)
    have "u = t" if "u \<in> set tables" "lt_name u = ?name" for u
      using that t assms(2) by (metis distinct_map inj_onD)
    then have "(\<exists>u \<in> set tables. lt_name u = ?name \<and> map_option trim_nul (lt_userdata u) = Some (owner_tag plan))
        \<longleftrightarrow> map_option trim_nul (lt_userdata t) = Some (owner_tag plan)"
      using t by blast
    moreover have "?name \<in> lt_name ` set tables" using t by (metis imageI)
    moreover have "state = judged plan t" using state Some by simp
    ultimately show ?thesis by (simp add: judged_def del: map_option_eq_Some)
  qed
  then show "state = Table_Candy \<longleftrightarrow> (\<exists>t \<in> set tables. lt_name t = np_nft_table_name plan
          \<and> map_option trim_nul (lt_userdata t) = Some (owner_tag plan))"
    and "state = Table_Absent \<longleftrightarrow> np_nft_table_name plan \<notin> lt_name ` set tables" by blast+
qed

text \<open>
  C35: the backend recognises its own firewall table. Reading a complete dump of the kernel's tables, in
  any division into datagrams, finds a table to be Candy's exactly if it has the name and the owner
  tag of the declaration's routing table, and absent exactly if no table has the name; the table
  another domain's declaration stages never has this name.
\<close>

theorem own_table_is_recognised:
  assumes "compile d = Inr plan" and "list_all well_listed (concat datagrams)" and "distinct (map lt_name (concat datagrams))"
  shows "\<exists>state. scan_dump plan Table_Absent (map (dump_datagram sequence) datagrams @ [dump_done sequence]) = Inr state
    \<and> (state = Table_Candy \<longleftrightarrow> (\<exists>t \<in> set (concat datagrams). lt_name t = np_nft_table_name plan
          \<and> map_option trim_nul (lt_userdata t) = Some (owner_tag plan)))
    \<and> (state = Table_Absent \<longleftrightarrow> np_nft_table_name plan \<notin> lt_name ` set (concat datagrams))
    \<and> (\<forall>d' plan'. compile d' = Inr plan' \<longrightarrow> (np_nft_table_name plan' = np_nft_table_name plan \<longleftrightarrow> table_id d' = table_id d))"
proof -
  note verdict = judge_all_verdict [OF assms(3), of plan]
  show ?thesis
    by (intro exI [of _ "judge_all plan Table_Absent (concat datagrams)"] conjI allI impI scan_listing [OF assms(2)] verdict
        compiled_names(1) [OF assms(1)])
qed

definition own_table :: listed_table where
  "own_table = \<lparr>lt_name = ''candy_sdwan_20614'', lt_userdata = Some (text_bytes ''candy-netd-v1:20614''), lt_others = [u32_attr 4 9]\<rparr>"

definition docker_table :: listed_table where
  "docker_table = \<lparr>lt_name = ''filter'', lt_userdata = None, lt_others = []\<rparr>"

lemma attributes_bytes_bound: "length (attributes_bytes attributes) \<le> sum_list (map (\<lambda>a. 8 + length (at_payload a)) attributes)"
proof (induction attributes)
  case (Cons a as)
  have len: "length (attribute_bytes a) = 4 + length (at_payload a)" by (simp add: attribute_bytes_def)
  have "length (resize4 (attribute_bytes a)) \<le> 8 + length (at_payload a)"
    using align4_facts(3) [of "4 + length (at_payload a)"] by (simp only: length_resize4 len)
  with Cons show ?case by (simp add: attributes_bytes_def)
qed (simp add: attributes_bytes_def)

lemma small_messageI:
  "list_all fits attributes \<Longrightarrow> sum_list (map (\<lambda>a. 8 + length (at_payload a)) attributes) < 1000 \<Longrightarrow> small_message attributes"
  using attributes_bytes_bound [of attributes] by (simp add: small_message_def)

lemma sample_tables_listed: "well_listed own_table" "well_listed docker_table"
  unfolding well_listed_def
  by (intro conjI small_messageI; simp add: listed_attributes_def own_table_def docker_table_def fits_def as_read_def
      string_attr_def bytes_attr_def u32_attr_def text_bytes_def NLA_F_NESTED_def)+

theorem own_table_is_recognised_witness:
  "\<exists>plan. compile full_tunnel = Inr plan
    \<and> scan_dump plan Table_Absent (map (dump_datagram 1) [[docker_table], [own_table]] @ [dump_done 1]) = Inr Table_Candy
    \<and> scan_dump plan Table_Absent (map (dump_datagram 1) [[docker_table]] @ [dump_done 1]) = Inr Table_Absent"
proof -
  obtain plan where plan: "compile full_tunnel = Inr plan" using compile_total full_tunnel_ok by (auto simp: declaration_ok_def)
  have name: "np_nft_table_name plan = ''candy_sdwan_20614''" and "np_route_table plan = 20614"
    using compile_fields_sel(1,6) [OF compile_fields_of(1) [OF plan]] by (simp_all add: full_tunnel_def decimal.simps digit_char_def char_of_def bit_0)
  then have tag: "owner_tag plan = text_bytes ''candy-netd-v1:20614''"
    by (simp add: owner_tag_def decimal.simps digit_char_def char_of_def bit_0)
  have trimmed: "trim_nul (text_bytes ''candy-netd-v1:20614'') = text_bytes ''candy-netd-v1:20614''"
    by (simp add: trim_nul_def text_bytes_def of_char_def)
  have listed: "list_all well_listed (concat [[docker_table], [own_table]])" "list_all well_listed (concat [[docker_table]])"
    by (simp_all add: sample_tables_listed)
  have distinct: "distinct (map lt_name (concat [[docker_table], [own_table]]))" "distinct (map lt_name (concat [[docker_table]]))"
    by (simp_all add: own_table_def docker_table_def)
  from own_table_is_recognised [OF plan listed(1) distinct(1), of 1] own_table_is_recognised [OF plan listed(2) distinct(2), of 1] plan
  show ?thesis by (auto simp: name tag trimmed own_table_def docker_table_def)
qed

section \<open>Docker's chain\<close>

text \<open>
  The loop that deletes Docker's rules runs as often as \<^verbatim>\<open>iptables\<close> answers: each round takes an answer,
  so with more fuel than answers the fuel makes no difference.
\<close>

lemma iptables_takes_answer:
  "iptables_status args w = (Inr status, w') \<Longrightarrow> length (kw_iptables w') < length (kw_iptables w)"
  by (auto simp: iptables_status_def split: list.splits)

lemma docker_fuel_suffices:
  "length (kw_iptables w) < n \<Longrightarrow> length (kw_iptables w) < m \<Longrightarrow> delete_docker_rules n direction w = delete_docker_rules m direction w"
proof (induction n arbitrary: m w)
  case (Suc n)
  then obtain m' where m: "m = Suc m'" by (cases m) auto
  have "delete_docker_rules n direction w2 = delete_docker_rules m' direction w2"
    if "iptables_status a w = (Inr c, w1)" "iptables_status b w1 = (Inr e, w2)" for a b c e w1 w2
    by (rule Suc.IH) (use iptables_takes_answer [OF that(1)] iptables_takes_answer [OF that(2)] Suc.prems m in linarith)+
  then show ?case
    by (auto simp: m bind_def split: prod.split sum.split)
qed simp

end
