(* ===== verification/Spec2Isabelle.thy ===== *)
theory Spec2Isabelle
  imports Netd_System Netd_Infra_Restart Netd_Router_Properties Agent_Properties Netd_Linux_Properties Netd_Nft_Laws
begin

text \<open>
  A verification library for the privileged network daemon, the tunnel I/O process and the owner
  hand-over of the Candy runtime (\<^verbatim>\<open>src/linux/common\<close>, and \<^verbatim>\<open>src/shared/vendor/candy-packet-port\<close>).

  \<^bold>\<open>The program.\<close> The runtime connects a Linux host to an SD-WAN overlay. An unprivileged agent decides
  what the host should do; everything that needs privileges (the TUN device, routes, policy rules,
  nftables, sysctls) is done by \<^verbatim>\<open>candy-netd\<close>, which trusts neither its clients nor its own past: it
  authenticates the peer, checks every declaration, journals its intent before it touches the kernel,
  and undoes or completes what it finds at the next start. There are two generations of the service:
  the first owns one transaction at a time for one agent process; the second separates the
  infrastructure (device and I/O descriptor) from the forwarding owner, and serves several routing
  domains concurrently, each in a network namespace of its own. Clients use \<^verbatim>\<open>candy-netd-client\<close>, and
  both sides share \<^verbatim>\<open>candy-netd-proto\<close>. The TUN descriptor that netd hands out is held by \<^verbatim>\<open>candy-tunio\<close>,
  which passes packets between the TUN and the data-plane worker that currently owns a routing
  domain. Its packet port manager changes owners without closing the TUN; its control sockets
  authenticate the agent, check the signed authority of a new owner and drive the manager. The agent
  \<^verbatim>\<open>candy-sdwan-agent\<close> hands a domain over to a candidate worker: it keeps one durable candidate, prepares
  it at tunio, waits for the proof that its peers installed it, and then commits, or recovers an
  uncertain transaction after a failure or a restart.

  \<^bold>\<open>Conventions.\<close> \<open>Netd_Prelude\<close> fixes the vocabulary: Rust's unsigned integers are words of their width
  (\<^verbatim>\<open>usize\<close> is 64 bits), \<^verbatim>\<open>Result\<close> is a sum with the error on the left, and an operation that changes
  state is an \<open>action\<close>, a function from a state to a result and a new state that keeps what was done
  before an error, with \<open>bind\<close>, \<open>attempt\<close> and Hoare triples for partial effects. Byte arrays used as
  identifiers are words; hexadecimal text is a string. Prose of error messages and log lines is left
  out. The kernel backend, the TUN factory, \<^verbatim>\<open>/proc\<close>, the clock, JSON texts and SHA-256 are parameters
  of the definitions, as records of functions, so that every theorem holds for every answer they may
  give; the few assumptions on them are named in the theorems.

  \<^bold>\<open>The first protocol\<close> (\<^verbatim>\<open>crates/candy-netd-proto/src/lib.rs\<close>)
  \<^item> \<open>Netd_Wire\<close>: the big-endian reader and writer, with the locale of codecs and its round trips.
  \<^item> \<open>Netd_Declaration\<close>: prefixes and declarations, their validation and the overlap sweep, proved equal
    to the quadratic definition of overlap.
  \<^item> \<open>Netd_Messages\<close>: requests and responses, their encodings and limits.
  \<^item> \<open>Netd_Session\<close>: the session state machine with its owner fence, and its refinement of an abstract
    lifecycle.

  \<^bold>\<open>The transaction service\<close> (\<^verbatim>\<open>apps/candy-netd/src/network.rs\<close>, \<^verbatim>\<open>journal.rs\<close>, \<^verbatim>\<open>lib.rs\<close>)
  \<^item> \<open>Netd_Record\<close>, \<open>Netd_Transaction\<close>: the transaction record, and every operation of the controller
    with its backend and journal calls in order.
  \<^item> \<open>Netd_Journal\<close>: the four record formats, the file protocol with a fault at any system call, and the
    locale of durable journals that the file journal interprets.
  \<^item> \<open>Netd_Transaction_Laws\<close>, \<open>Netd_Transaction_Properties\<close>: the invariant of the record under arbitrary
    failures, ownership, write-ahead intent, durability, rollback and recovery.
  \<^item> \<open>Netd_Service\<close>, \<open>Netd_Service_Properties\<close>: the request handler that drives session and controller
    together, and how they stay in step.

  \<^bold>\<open>The client\<close> (\<^verbatim>\<open>crates/candy-netd-client/src/lib.rs\<close>)
  \<^item> \<open>Netd_Ipc\<close>: frames over a stream that fragments, interrupts, fails or times out at any point; the
    loops recurse on the events that are left, so that they end without fuel.
  \<^item> \<open>Netd_Client\<close>: the client's phases and operations over an abstract transport.
  \<^item> \<open>Netd_System\<close>: client and service composed over the wire.

  \<^bold>\<open>The infrastructure service\<close> (\<^verbatim>\<open>candy-netd-proto/src/v2.rs\<close>, \<^verbatim>\<open>candy-netd/src/v2.rs\<close>, \<^verbatim>\<open>v2/clock.rs\<close>)
  \<^item> \<open>Netd_Infra_Protocol\<close>, \<open>Netd_Infra_State\<close>: the messages and their validation; the durable state, its
    load checks and its file.
  \<^item> \<open>Netd_Infra\<close>, \<open>Netd_Infra_Service\<close>: device creation and repair, replacement, live policies and
    recovery; the handler of each operation and the whole of \<^verbatim>\<open>process\<close>.
  \<^item> \<open>Netd_Infra_Laws\<close>, \<open>Netd_Infra_Steps\<close>, \<open>Netd_Infra_Handlers\<close>: the invariant, the relation in which a
    request may change the state, and one triple per definition that carries both, together with the
    absence of panics.
  \<^item> \<open>Netd_Infra_Properties\<close>, \<open>Netd_Infra_Restart\<close>: reachable states are well formed, owners never regress,
    the descriptor is exclusive, an interrupted commit is undone; what a restart loads and which
    states it refuses.

  \<^bold>\<open>The domain router\<close> (\<^verbatim>\<open>candy-netd/src/v2/domains.rs\<close>)
  \<^item> \<open>Netd_Domains\<close>: resource admission, the pending budget, the identity of a domain and the table of
    I/O owners.
  \<^item> \<open>Netd_Router\<close>: front threads, callers and domain workers as one step relation, \<open>router_step\<close>, whose
    steps are the accesses to shared state; calls are numbered so that a reply belongs to one call.
  \<^item> \<open>Netd_Router_Start\<close>: the checks of a configuration and the start of the workers.
  \<^item> \<open>Netd_Isolation\<close>: the contract of a domain's service as a locale, interpreted on the infrastructure
    service: it never leaves the domain.
  \<^item> \<open>Netd_Router_Laws\<close>, \<open>Netd_Router_Bindings\<close>, \<open>Netd_Router_Confined\<close>: the invariants of all
    interleavings: the budget is the sum of the leases, every lease has a holder, a domain has one
    request in flight, reservations have unique tokens, owners are exclusive, domains are confined.
  \<^item> \<open>Netd_Router_Samples\<close>, \<open>Netd_Router_Properties\<close>: a sample host and the properties.

  \<^bold>\<open>The Linux backend\<close> (\<^verbatim>\<open>candy-netd/src/linux.rs\<close>, \<^verbatim>\<open>nft.rs\<close>)
  \<^item> \<open>Netd_Plan\<close>: the plan that is compiled from a declaration. For a valid declaration whose egress routes
    are defaults, longest match over the plan steers exactly what the declaration says.
  \<^item> \<open>Netd_Kernel\<close>: netlink objects, the requests the backend sends, and the host that answers them. An
    answer is an arbitrary function of all requests so far, a listing may break off with an error, and
    the world records the requests; \<open>sends_only\<close> bounds what an operation asks for. Of the message
    builders of \<^verbatim>\<open>rtnetlink\<close> the fields that are set are recorded, and the iteration order of hash sets is
    a parameter.
  \<^item> \<open>Netd_Nft\<close>, \<open>Netd_Nft_Laws\<close>: the firewall as nftables messages, acknowledgements and dumps, and that they
    are read back as they are written. Native byte order is little endian.
  \<^item> \<open>Netd_Linux\<close>: the link, routes, policy rules and sysctls, and every operation of both backend traits,
    collected in \<open>linux_backend\<close>, a value of the parameter that the two services take.
  \<^item> \<open>Netd_Linux_Laws\<close>, \<open>Netd_Linux_Properties\<close>: the requests a declaration owns and that no call sends others;
    guards before recovery; exact policy rules.

  \<^bold>\<open>The packet port manager\<close> (\<^verbatim>\<open>candy-packet-port/src/packet_port_manager.rs\<close>)
  \<^item> \<open>Port_Manager\<close>: owners with their send fences and deadlines, every owner change (prepare, commit,
    drain, retire, abort, attach, renew, revoke, probe) and one \<open>manager_step\<close> per arm of the loop.
  \<^item> \<open>Port_Manager_Laws\<close>: the invariant of the manager and what an accepted change implies.
  \<^item> \<open>Port_Lease\<close>: the abstract lease register as a locale, interpreted on the manager: a simulation in
    which the owner changes only by grant, extension and release.
  \<^item> \<open>Port_Properties\<close>: who can write, epochs and transactions that never come back, earned drain receipts.

  \<^bold>\<open>The tunnel I/O process\<close> (\<^verbatim>\<open>apps/candy-tunio/src\<close>)
  \<^item> \<open>Tunio_Control\<close> (\<^verbatim>\<open>control.rs\<close>): the controller shared by the sockets, its publication, takeover and
    registration, and the channel to the manager. Every reading of a clock, of \<^verbatim>\<open>/proc\<close>, of the disk or of
    the channel is the next element of a stream of the host, so that it may answer differently each
    time. Before an update is taken the manager may make any moves of its own, the update may be
    refused or given up, and the acknowledgement may be lost after it was applied.
  \<^item> \<open>Tunio_Authority\<close> (\<^verbatim>\<open>authority_control.rs\<close>): envelopes, deadlines, reconciliation with the manager's
    receipts, and each operation of the authority socket.
  \<^item> \<open>Tunio_Serve\<close> (\<^verbatim>\<open>attach_control.rs\<close>, the guard of \<^verbatim>\<open>authority_control.rs\<close>): the packet socket, the boot
    clock guard, the replies, and \<open>tunio_moves\<close>, the interleaving of all critical sections.
  \<^item> \<open>Tunio_Laws\<close>: triples for the operations, and the locale \<open>tunio_restricted\<close>: what the elementary updates
    keep, every request and every run keeps that is restricted to some commits and cancellations;
    \<open>tunio_invariant\<close> is its case without restriction.
  \<^item> \<open>Tunio_Informed\<close>, \<open>Tunio_Invariants\<close>, \<open>Tunio_Cancel\<close>: the controller's view of the manager after a
    request; the interpretations of the locale for marks, records and spent revisions; cancellation.
  \<^item> \<open>Tunio_Properties\<close>, \<open>Tunio_Deadlines\<close>: the properties of the control paths; takeover and deadlines.

  \<^bold>\<open>The owner hand-over\<close> (\<^verbatim>\<open>candy-sdwan-agent/src/candidate_ownership.rs\<close>, the client of \<^verbatim>\<open>authority_control.rs\<close>)
  \<^item> \<open>Agent_Candidate\<close>: installation proofs, the candidate and its journal, and each operation that
    prepares, commits, observes, recovers, isolates or retires its transaction. The world is the whole
    of tunio and its manager, the candidate in memory and the one on disk: publishing may fail and
    still be durable, an exchange may fail before or after the request is served, and tunio may make
    any moves in between.
  \<^item> \<open>Agent_Laws\<close>, \<open>Agent_Runs\<close>: what an accepted exchange says about tunio; \<open>agent_moves\<close>, the runs of one
    candidate with restarts; two interpretations of \<open>tunio_restricted\<close>: a revision that nobody asks to
    commit stays uncommitted, and one that nobody cancels stays uncancelled.
  \<^item> \<open>Agent_Properties\<close>: proofs cover the peers exactly, a believed commit is an actual one, no commit
    without durable intent, a cancelled candidate never commits.

  \<^bold>\<open>Bounds and fuel.\<close> Loops over sockets recurse on the remaining events, parsers on the remaining bytes,
  and the concurrent service is a step relation; every invariant of it holds for runs of any length.
  Only the loop that deletes rules from Docker's chain has fuel: one more than the answers of
  \<^verbatim>\<open>iptables\<close> that are left, of which each round takes two, so that it never runs out first. Liveness properties are stated for operations that return, since
  every operation of the model is total.

  \<^bold>\<open>What modelling showed.\<close> Some theorems state behaviour that the code does not mean to have: journal
  formats that lose a staged candidate, a recovery path that no restart reaches, prefix lists that can
  be accepted but not journaled, states of the infrastructure service that its own start-up refuses, a
  client that takes a refused reconfiguration for a committed one, the journal of a domain that is
  checked before its lock is taken, an egress route that takes an excluded address into the tunnel, and
  a withdrawal that removes the bypasses of all exclusions.

  \<^bold>\<open>Not modelled.\<close> What the kernel does with a request is outside: the backend is judged by what it asks. Entry
  points, argument parsing, logging and the reading of configuration files are input and output.
  Poisoned locks are left out since no critical section panics, and so is the shutdown that joins the
  worker threads of the router. Of the packet port, the queues between a port and its writer task are
  outside: the manager's questions to them are answered by its environment; of its telemetry only two
  counters are kept, and the awaiting \<^verbatim>\<open>send_packet\<close> is represented by the non-blocking send. Of tunio, the
  listeners, the JSON of messages and status file, the free text \<^verbatim>\<open>detail\<close> of replies, the client of the
  packet socket, the snapshot of the bridge and the prototype bridge without manager are left out. Of
  the agent, only the candidate is modelled: \<^verbatim>\<open>require_peer_reconciliation\<close> and \<^verbatim>\<open>read_installed_proof\<close>
  compare JSON documents, and the supervision of processes, the signed plans and the transaction
  script around the candidate are outside. The client and health probe of the second protocol, the
  cloud synchronisation and the enrolment program are separate parts with their own protocols and are
  not covered by this library.
\<close>

end
